(* ===== verification/PS_Prelude.thy ===== *)
theory PS_Prelude
  imports Main "HOL-Library.AList"
begin

text \<open>
  Shared vocabulary of the development: the collections of theorems the components add to,
  the list and option lemmas they share, and the contract that every event-driven component
  is proved against (a machine with an invariant).
\<close>

named_theorems alist_keeps \<open>what updating and deleting keep of an association list\<close>

subsection \<open>Association lists\<close>

lemma list_all_update [alist_keeps]: "list_all P m \<Longrightarrow> P (k, v) \<Longrightarrow> list_all P (AList.update k v m)"
  by (induction m) auto

lemma list_all_delete [alist_keeps]: "list_all P m \<Longrightarrow> list_all P (AList.delete k m)"
  by (induction m) auto

subsection \<open>Duplicate removal that keeps the first occurrence\<close>

text \<open>
  \<open>[...new Set(xs)]\<close> keeps the first occurrence of every element, in insertion order
  (HOL's \<open>remdups\<close> keeps the last one).
\<close>

fun uniq_acc :: "'a list \<Rightarrow> 'a list \<Rightarrow> 'a list" where
  "uniq_acc seen [] = []"
| "uniq_acc seen (x # xs) =
     (if x \<in> set seen then uniq_acc seen xs else x # uniq_acc (x # seen) xs)"

definition js_uniq :: "'a list \<Rightarrow> 'a list" where
  "js_uniq xs = uniq_acc [] xs"

lemma set_uniq_acc [simp]: "set (uniq_acc seen xs) = set xs - set seen"
  by (induction seen xs rule: uniq_acc.induct) auto

lemma distinct_uniq_acc [simp]: "distinct (uniq_acc seen xs)"
  by (induction seen xs rule: uniq_acc.induct) auto

lemma set_js_uniq [simp]: "set (js_uniq xs) = set xs"
  by (simp add: js_uniq_def)

lemma distinct_js_uniq [simp]: "distinct (js_uniq xs)"
  by (simp add: js_uniq_def)

lemma uniq_acc_distinct:
  "distinct xs \<Longrightarrow> set xs \<inter> set seen = {} \<Longrightarrow> uniq_acc seen xs = xs"
  by (induction seen xs rule: uniq_acc.induct) auto

lemma js_uniq_distinct [simp]: "distinct xs \<Longrightarrow> js_uniq xs = xs"
  by (simp add: js_uniq_def uniq_acc_distinct)

lemma js_uniq_Nil [simp]: "js_uniq [] = []"
  by (simp add: js_uniq_def)

subsection \<open>Options\<close>

lemma case_option_not_None: "x \<noteq> None \<longleftrightarrow> (\<exists>y. x = Some y)"
  by auto

lemma find_Some_iff_ex: "find P xs = Some x \<Longrightarrow> x \<in> set xs \<and> P x"
  by (induction xs) (auto split: if_splits)

lemma find_None_all: "find P xs = None \<longleftrightarrow> (\<forall>x\<in>set xs. \<not> P x)"
  by (induction xs) auto

subsection \<open>Event-driven components\<close>

text \<open>
  Every controller of the program is a deterministic reaction to one event at a time. The
  contract: a transition function and an invariant each transition keeps. What the contract
  gives is that every run from a state with the invariant stays inside it, and so does every
  state on the way.
\<close>

fun run_events :: "('s \<Rightarrow> 'e \<Rightarrow> 's) \<Rightarrow> 's \<Rightarrow> 'e list \<Rightarrow> 's" where
  "run_events stp s [] = s"
| "run_events stp s (e # es) = run_events stp (stp s e) es"

lemma run_events_append:
  "run_events stp s (es @ fs) = run_events stp (run_events stp s es) fs"
  by (induction es arbitrary: s) auto

locale machine =
  fixes stp :: "'s \<Rightarrow> 'e \<Rightarrow> 's"
    and inv :: "'s \<Rightarrow> bool"
  assumes step_inv: "inv s \<Longrightarrow> inv (stp s e)"
begin

lemma run_inv: "inv s \<Longrightarrow> inv (run_events stp s es)"
  by (induction es arbitrary: s) (auto intro: step_inv)

lemma run_monotone:
  assumes mono: "\<And>s e. inv s \<Longrightarrow> f s \<le> (f (stp s e) :: 'b::preorder)"
    and "inv s"
  shows "f s \<le> f (run_events stp s es)"
  using \<open>inv s\<close>
proof (induction es arbitrary: s)
  case Nil
  then show ?case by simp
next
  case (Cons e es)
  have "f s \<le> f (stp s e)" by (rule mono) (rule Cons.prems)
  also have "\<dots> \<le> f (run_events stp (stp s e) es)"
    by (rule Cons.IH) (rule step_inv [OF Cons.prems])
  finally show ?case by simp
qed

end

end
