(* ===== verification/Js_Values.thy ===== *)
theory Js_Values
  imports PS_Prelude
begin

text \<open>
  The JavaScript values the program inspects: numbers, strings, arrays and plain objects as
  they come out of \<open>JSON.parse\<close>.

  Strings are lists of 8-bit characters, one per UTF-16 code unit below 256 (the composer,
  which is about encodings, uses 16-bit units of its own). Objects are association lists in
  insertion order; a property that is present with the value \<open>undefined\<close> is
  \<open>Undef\<close>. A JSON text is represented by what \<open>JSON.parse\<close> makes of it:
  \<open>Some v\<close>, or \<open>None\<close> for a text it rejects.
\<close>

subsection \<open>Numbers\<close>

text \<open>
  The code asks two things of a number it did not compute itself: is it an integer, and where
  does it lie relative to integers. \<open>FracN n\<close> stands for a number strictly between
  \<open>n\<close> and \<open>n + 1\<close>.
\<close>

datatype jsnum = IntN int | FracN int | PosInf | NegInf | NaN

definition max_safe_integer :: int where
  "max_safe_integer = 9007199254740991"

fun is_integer :: "jsnum \<Rightarrow> bool" where
  "is_integer (IntN i) = True"
| "is_integer _ = False"

fun is_safe_integer :: "jsnum \<Rightarrow> bool" where
  "is_safe_integer (IntN i) = (- max_safe_integer \<le> i \<and> i \<le> max_safe_integer)"
| "is_safe_integer _ = False"

fun num_ge_int :: "jsnum \<Rightarrow> int \<Rightarrow> bool" where
  "num_ge_int (IntN i) k = (k \<le> i)"
| "num_ge_int (FracN i) k = (k \<le> i)"
| "num_ge_int PosInf k = True"
| "num_ge_int NegInf k = False"
| "num_ge_int NaN k = False"

fun num_le_int :: "jsnum \<Rightarrow> int \<Rightarrow> bool" where
  "num_le_int (IntN i) k = (i \<le> k)"
| "num_le_int (FracN i) k = (i < k)"
| "num_le_int PosInf k = False"
| "num_le_int NegInf k = True"
| "num_le_int NaN k = False"

subsection \<open>Strings\<close>

definition js_space :: "char \<Rightarrow> bool" where
  "js_space c = (of_char c \<in> {9, 10, 11, 12, 13, 32, 160 :: nat})"

definition js_trim :: "string \<Rightarrow> string" where
  "js_trim s = rev (dropWhile js_space (rev (dropWhile js_space s)))"

definition starts_with :: "string \<Rightarrow> string \<Rightarrow> bool" where
  "starts_with s p = (take (length p) s = p)"

text \<open>The regular expression class \<open>[\u0000-\u001f\u007f]\<close>.\<close>

definition is_control :: "char \<Rightarrow> bool" where
  "is_control c = (of_char c < (32::nat) \<or> of_char c = (127::nat))"

definition has_control :: "string \<Rightarrow> bool" where
  "has_control s = list_ex is_control s"

lemma starts_with_append [simp]: "starts_with (p @ s) p"
  by (simp add: starts_with_def)

lemma starts_withD: "starts_with s p \<Longrightarrow> s = p @ drop (length p) s"
  by (metis append_take_drop_id starts_with_def)

lemma dropWhile_hd: "dropWhile P xs = y # ys \<Longrightarrow> \<not> P y"
  by (induction xs) (auto split: if_splits)

lemma dropWhile_fixed: "(xs = [] \<or> \<not> P (hd xs)) \<Longrightarrow> dropWhile P xs = xs"
  by (cases xs) auto

lemma js_trim_ends:
  "js_trim s = [] \<or> (\<not> js_space (hd (js_trim s)) \<and> \<not> js_space (last (js_trim s)))"
proof (cases "js_trim s = []")
  case False
  let ?a = "dropWhile js_space s"
  let ?b = "dropWhile js_space (rev ?a)"
  have b: "?b \<noteq> []" using False by (simp add: js_trim_def)
  then have "\<not> js_space (hd ?b)" by (metis dropWhile_hd list.exhaust_sel)
  then have l: "\<not> js_space (last (js_trim s))" using b by (simp add: js_trim_def last_rev)
  have "?a \<noteq> []" using b by (metis dropWhile.simps(1) rev.simps(1))
  then have ha: "\<not> js_space (hd ?a)" by (metis dropWhile_hd list.exhaust_sel)
  have "rev ?a = takeWhile js_space (rev ?a) @ ?b" by simp
  then have "?a = rev ?b @ rev (takeWhile js_space (rev ?a))"
    by (metis rev_append rev_rev_ident)
  then have "hd ?a = hd (rev ?b)" using b by (metis Nil_is_rev_conv hd_append2)
  then have "hd (js_trim s) = hd ?a" by (simp add: js_trim_def)
  with l ha show ?thesis by simp
qed simp

lemma js_trim_fixed: "s = [] \<or> \<not> js_space (hd s) \<and> \<not> js_space (last s) \<Longrightarrow> js_trim s = s"
  by (auto simp: js_trim_def dropWhile_fixed hd_rev)

lemma js_trim_idem [simp]: "js_trim (js_trim s) = js_trim s"
proof -
  let ?t = "js_trim s"
  have "dropWhile js_space ?t = ?t" using js_trim_ends [of s] by (intro dropWhile_fixed) auto
  moreover have "dropWhile js_space (rev ?t) = rev ?t"
    using js_trim_ends [of s] by (intro dropWhile_fixed) (auto simp: hd_rev)
  ultimately show ?thesis by (simp add: js_trim_def [of ?t])
qed

subsection \<open>Values\<close>

datatype js =
    Undef
  | Null
  | Bool bool
  | Num jsnum
  | Str string
  | Arr "js list"
  | Obj "(string \<times> js) list"

type_synonym fields = "(string \<times> js) list"

text \<open>\<open>o[k]\<close>, with \<open>undefined\<close> for a property the object does not have.\<close>

definition get_prop :: "fields \<Rightarrow> string \<Rightarrow> js" where
  "get_prop fs k = (case map_of fs k of None \<Rightarrow> Undef | Some v \<Rightarrow> v)"

definition has_own :: "fields \<Rightarrow> string \<Rightarrow> bool" where
  "has_own fs k = (map_of fs k \<noteq> None)"

text \<open>\<open>o[k] = v\<close> keeps the place of a property that exists and appends a new one.\<close>

definition put :: "string \<Rightarrow> js \<Rightarrow> fields \<Rightarrow> fields" where
  "put k v fs = AList.update k v fs"

lemma map_of_put [simp]: "map_of (put k v fs) = (map_of fs)(k \<mapsto> v)"
  by (simp add: put_def update_conv')

lemma get_prop_put [simp]: "get_prop (put k v fs) k' = (if k' = k then v else get_prop fs k')"
  by (simp add: get_prop_def)

lemma distinct_put [simp]: "distinct (map fst fs) \<Longrightarrow> distinct (map fst (put k v fs))"
  by (simp add: put_def distinct_update)

text \<open>
  \<open>JSON.parse (JSON.stringify v)\<close>: properties whose value is \<open>undefined\<close> disappear, array
  elements that are \<open>undefined\<close> and the numbers JSON cannot write become \<open>null\<close>.
\<close>

fun json_norm :: "js \<Rightarrow> js"
  and json_norm_list :: "js list \<Rightarrow> js list"
  and json_norm_fields :: "fields \<Rightarrow> fields"
where
  "json_norm Undef = Null"
| "json_norm Null = Null"
| "json_norm (Bool b) = Bool b"
| "json_norm (Num n) = (case n of IntN i \<Rightarrow> Num n | FracN i \<Rightarrow> Num n | _ \<Rightarrow> Null)"
| "json_norm (Str s) = Str s"
| "json_norm (Arr vs) = Arr (json_norm_list vs)"
| "json_norm (Obj fs) = Obj (json_norm_fields fs)"
| "json_norm_list [] = []"
| "json_norm_list (v # vs) = json_norm v # json_norm_list vs"
| "json_norm_fields [] = []"
| "json_norm_fields ((k, v) # fs) =
     (if v = Undef then json_norm_fields fs else (k, json_norm v) # json_norm_fields fs)"

lemma json_norm_list_map: "json_norm_list vs = map json_norm vs"
  by (induction vs) auto

lemma json_norm_not_Undef [simp]: "json_norm v \<noteq> Undef"
  by (cases v) (auto split: jsnum.splits)

lemma json_norm_idem [simp]:
  "json_norm (json_norm v) = json_norm v"
  "json_norm_list (json_norm_list vs) = json_norm_list vs"
  "json_norm_fields (json_norm_fields fs) = json_norm_fields fs"
  by (induction v and vs and fs rule: json_norm_json_norm_list_json_norm_fields.induct)
    (auto split: jsnum.splits)

lemma map_of_json_norm_fields:
  "distinct (map fst fs) \<Longrightarrow>
   map_of (json_norm_fields fs) k =
     (case map_of fs k of None \<Rightarrow> None | Some v \<Rightarrow> if v = Undef then None else Some (json_norm v))"
proof (induction fs)
  case (Cons p fs)
  obtain a v where p: "p = (a, v)" by (cases p)
  from Cons have "map_of fs a = None" by (simp add: p map_of_eq_None_iff image_image)
  with Cons show ?case by (auto simp: p split: option.splits)
qed simp

type_synonym json_text = "js option"

definition json_stringify :: "js \<Rightarrow> json_text" where
  "json_stringify v = Some (json_norm v)"

end
