(* ===== verification/Shell_Quote.thy ===== *)
theory Shell_Quote
  imports Js_Values
begin

text \<open>
  Quoting for the remote shell (src/src/shellQuote.ts) and the command lines that rest on it
  (src/src/aplexerCommands.ts, src/src/hostCliSessions.ts, src/src/userBinPath.ts), against a
  reader for POSIX shell words: what the host's shell makes of the line is the list of words
  the client meant, whatever characters the values hold.
\<close>

subsection \<open>The quoting functions\<close>

fun shellEscapeInsideSingleQuotes :: "string \<Rightarrow> string" where
  "shellEscapeInsideSingleQuotes [] = []"
| "shellEscapeInsideSingleQuotes (c # cs) =
     (if c = CHR 0x27 then [CHR 0x27, CHR 0x5C, CHR 0x27, CHR 0x27] else [c])
       @ shellEscapeInsideSingleQuotes cs"

definition shellQuote :: "string \<Rightarrow> string" where
  "shellQuote value = [CHR 0x27] @ shellEscapeInsideSingleQuotes value @ [CHR 0x27]"

definition shellQuoteRemotePath :: "string \<Rightarrow> string" where
  "shellQuoteRemotePath value =
     (let trimmed = (if js_trim value = [] then ''~'' else js_trim value) in
      if trimmed = ''~'' \<or> trimmed = ''$HOME'' then ''$HOME''
      else if starts_with trimmed ''~/'' then ''$HOME/'' @ shellQuote (drop 2 trimmed)
      else if starts_with trimmed ''$HOME/'' then ''$HOME/'' @ shellQuote (drop 6 trimmed)
      else shellQuote trimmed)"

subsection \<open>Reading shell words\<close>

text \<open>
  The fragment of the POSIX shell grammar the command lines use. Outside quotes: a plain
  character stands for itself, a backslash makes the next character literal, a single quote
  opens a quoted stretch, \<open>$HOME\<close> (not followed by a name character) expands to the home
  directory, a blank ends the word. Anything else outside quotes (\<open>;\<close>, a backtick,
  \<open>$(\<close>, a newline, \<open>&\<close>, ...) would make the shell do something: the reader
  refuses it (\<open>None\<close>). Inside single quotes every character up to the next quote is data.
\<close>

definition plain_char :: "char \<Rightarrow> bool" where
  "plain_char c = (let n = of_char c :: nat in
     (48 \<le> n \<and> n \<le> 57) \<or> (65 \<le> n \<and> n \<le> 90) \<or> (97 \<le> n \<and> n \<le> 122) \<or> c \<in> set ''-_./:=+@,%'')"

definition name_char :: "char \<Rightarrow> bool" where
  "name_char c = (let n = of_char c :: nat in
     (48 \<le> n \<and> n \<le> 57) \<or> (65 \<le> n \<and> n \<le> 90) \<or> (97 \<le> n \<and> n \<le> 122) \<or> c = CHR ''_'')"

definition ends_name :: "string \<Rightarrow> bool" where
  "ends_name s = (case s of [] \<Rightarrow> True | c # _ \<Rightarrow> \<not> name_char c)"

datatype quote_state = Plain | Escaped | Quoted

text \<open>The word under construction is \<open>None\<close> between words.\<close>

definition word_of :: "string option \<Rightarrow> string" where
  "word_of cur = (case cur of None \<Rightarrow> [] | Some w \<Rightarrow> w)"

definition flush :: "string option \<Rightarrow> string list" where
  "flush cur = (case cur of None \<Rightarrow> [] | Some w \<Rightarrow> [w])"

fun read_words :: "string \<Rightarrow> quote_state \<Rightarrow> string option \<Rightarrow> string \<Rightarrow> string list option" where
  "read_words home Plain cur [] = Some (flush cur)"
| "read_words home Plain cur (c # cs) =
     (if c = CHR 0x27 then read_words home Quoted (Some (word_of cur)) cs
      else if c = CHR 0x5C then read_words home Escaped (Some (word_of cur)) cs
      else if c = CHR '' '' then map_option ((@) (flush cur)) (read_words home Plain None cs)
      else if starts_with (c # cs) ''$HOME'' \<and> ends_name (drop 4 cs)
      then read_words home Plain (Some (word_of cur @ home)) (drop 4 cs)
      else if plain_char c then read_words home Plain (Some (word_of cur @ [c])) cs
      else None)"
| "read_words home Escaped cur [] = None"
| "read_words home Escaped cur (c # cs) =
     (if c = CHR 0x0A then None else read_words home Plain (Some (word_of cur @ [c])) cs)"
| "read_words home Quoted cur [] = None"
| "read_words home Quoted cur (c # cs) =
     (if c = CHR 0x27 then read_words home Plain cur cs
      else read_words home Quoted (Some (word_of cur @ [c])) cs)"

lemma word_of_simps [simp]: "word_of None = []" "word_of (Some w) = w"
  by (simp_all add: word_of_def)

lemma flush_simps [simp]: "flush None = []" "flush (Some w) = [w]"
  by (simp_all add: flush_def)

text \<open>The escaped text of a value, read inside single quotes, is the value.\<close>

lemma read_escaped [simp]:
  "read_words home Quoted (Some w) (shellEscapeInsideSingleQuotes v @ rest) =
   read_words home Quoted (Some (w @ v)) rest"
  by (induction v arbitrary: w) (auto simp: starts_with_def)

lemma read_shellQuote:
  "read_words home Plain cur (shellQuote v @ rest) =
   read_words home Plain (Some (word_of cur @ v)) rest"
  by (simp add: shellQuote_def)

lemma plain_charD:
  "plain_char c \<Longrightarrow> c \<noteq> CHR 0x27 \<and> c \<noteq> CHR 0x5C \<and> c \<noteq> CHR '' '' \<and> c \<noteq> CHR ''$''"
  by (auto simp: plain_char_def Let_def)

lemma read_plain:
  "list_all plain_char s \<Longrightarrow> s \<noteq> [] \<Longrightarrow>
   read_words home Plain cur (s @ rest) = read_words home Plain (Some (word_of cur @ s)) rest"
proof (induction s arbitrary: cur)
  case (Cons c s)
  then have c: "plain_char c" "c \<noteq> CHR 0x27" "c \<noteq> CHR 0x5C" "c \<noteq> CHR '' ''" "c \<noteq> CHR ''$''"
    using plain_charD by auto
  show ?case
  proof (cases "s = []")
    case True
    with c show ?thesis by (simp add: starts_with_def)
  next
    case False
    with Cons c show ?thesis by (simp add: starts_with_def)
  qed
qed simp

subsection \<open>The contract of a quoting function\<close>

text \<open>
  What the command builders rely on: a quoted value is read back as itself, glued to the word
  in progress, and literal words and blanks read as written.
\<close>

locale word_quoting =
  fixes quote :: "string \<Rightarrow> string"
    and read :: "string option \<Rightarrow> string \<Rightarrow> string list option"
  assumes read_quote: "read cur (quote v @ rest) = read (Some (word_of cur @ v)) rest"
    and read_literal: "list_all plain_char s \<Longrightarrow> s \<noteq> [] \<Longrightarrow>
      read cur (s @ rest) = read (Some (word_of cur @ s)) rest"
    and read_blank: "read cur (CHR '' '' # rest) = map_option ((@) (flush cur)) (read None rest)"
    and read_end: "read cur [] = Some (flush cur)"
begin

text \<open>A command line of words, each literal (\<open>Inl\<close>) or quoted (\<open>Inr\<close>).\<close>

fun line_rest :: "(string + string) list \<Rightarrow> string" where
  "line_rest [] = []"
| "line_rest (Inl s # ws) = CHR '' '' # s @ line_rest ws"
| "line_rest (Inr v # ws) = CHR '' '' # quote v @ line_rest ws"

definition literals_ok :: "(string + string) list \<Rightarrow> bool" where
  "literals_ok ws = list_all (case_sum (\<lambda>s. s \<noteq> [] \<and> list_all plain_char s) (\<lambda>v. True)) ws"

lemma read_line_rest:
  "literals_ok ws \<Longrightarrow>
   read (Some w) (line_rest ws) = Some (w # map (case_sum id id) ws)"
proof (induction ws arbitrary: w)
  case Nil
  then show ?case by (simp add: read_end)
next
  case (Cons x ws)
  then show ?case
    by (cases x) (simp_all add: read_blank read_quote read_literal literals_ok_def)
qed

text \<open>A literal program name followed by such words is read as exactly those words.\<close>

lemma read_line:
  "p \<noteq> [] \<Longrightarrow> list_all plain_char p \<Longrightarrow> literals_ok ws \<Longrightarrow>
   read None (p @ line_rest ws) = Some (p # map (case_sum id id) ws)"
  by (simp add: read_literal read_line_rest)

end

interpretation sq: word_quoting shellQuote "read_words home Plain" for home
  by unfold_locales (auto simp: read_shellQuote read_plain)

end
