(* ===== verification/Host_Commands.thy ===== *)
theory Host_Commands
  imports Shell_Quote
begin

text \<open>
  The command lines the clients run on a host: the aplexer lines of
  src/src/aplexerCommands.ts, the versioned CLI's session lines of
  src/src/hostCliSessions.ts, the PATH prefix of src/src/userBinPath.ts, and the classifiers
  of host refusals.
\<close>

subsection \<open>The PATH wrapper\<close>

definition USER_BIN_DIRS :: "string list" where
  "USER_BIN_DIRS =
    [''$HOME/.local/bin'',
     ''$HOME/bin'',
     ''$HOME/.cargo/bin'',
     ''$HOME/.local/share/uv/tools/pocketshell/bin'',
     ''$HOME/.local/pipx/venvs/pocketshell/bin'']"

fun js_join :: "string \<Rightarrow> string list \<Rightarrow> string" where
  "js_join sep [] = []"
| "js_join sep [x] = x"
| "js_join sep (x # y # ys) = x @ sep @ js_join sep (y # ys)"

definition USER_BIN_PATH :: string where
  "USER_BIN_PATH = js_join '':'' USER_BIN_DIRS"

definition pathAwareCommand :: "string \<Rightarrow> string" where
  "pathAwareCommand command =
     ''/bin/sh -lc '' @ [CHR 0x27] @ ''export PATH=\"'' @ USER_BIN_PATH @ '':$PATH\"; ''
       @ shellEscapeInsideSingleQuotes command @ [CHR 0x27]"

subsection \<open>The aplexer command lines\<close>

datatype aplexer_sort = SortName | SortCreated | SortAccessed | SortActivity

fun sort_name :: "aplexer_sort \<Rightarrow> string" where
  "sort_name SortName = ''name''"
| "sort_name SortCreated = ''created''"
| "sort_name SortAccessed = ''accessed''"
| "sort_name SortActivity = ''activity''"

definition aplexerProbeCommand :: string where
  "aplexerProbeCommand = ''command -v a''"

definition aplexerSnapshotCommand :: "aplexer_sort option \<Rightarrow> string" where
  "aplexerSnapshotCommand key =
     (case key of None \<Rightarrow> ''a snapshot --json''
      | Some k \<Rightarrow> ''a snapshot --json --sort '' @ sort_name k)"

definition aplexerStartCommand :: "string \<Rightarrow> string \<Rightarrow> string" where
  "aplexerStartCommand workspace tag =
     ''a start --workspace '' @ shellQuoteRemotePath workspace @ '' --tag '' @ shellQuote tag @ '' --json''"

definition aplexerKillCommand :: "string \<Rightarrow> string" where
  "aplexerKillCommand i = ''a kill '' @ shellQuote i @ '' --json''"

definition aplexerRenameCommand :: "string \<Rightarrow> string \<Rightarrow> string" where
  "aplexerRenameCommand i tag = ''a rename '' @ shellQuote i @ '' --tag '' @ shellQuote tag"

definition aplexerWarningsCommand :: string where
  "aplexerWarningsCommand = ''a warnings --json''"

definition aplexerEnginesCommand :: string where
  "aplexerEnginesCommand = ''a engines --json''"

definition aplexerAckCommand :: "string option \<Rightarrow> string" where
  "aplexerAckCommand target =
     (case target of None \<Rightarrow> ''a ack'' | Some t \<Rightarrow> ''a ack '' @ shellQuote t)"

subsection \<open>Telling a refusal from a failure\<close>

definition ascii_lower :: "char \<Rightarrow> char" where
  "ascii_lower c = (let n = of_char c :: nat in if 65 \<le> n \<and> n \<le> 90 then char_of (n + 32) else c)"

text \<open>\<open>/lit/i\<close> and \<open>/\blit\b/i\<close> for a literal that starts and ends with a word character.\<close>

fun contains_ci :: "string \<Rightarrow> string \<Rightarrow> bool" where
  "contains_ci lit s =
     (take (length lit) (map ascii_lower s) = lit \<or> (case s of [] \<Rightarrow> False | _ # cs \<Rightarrow> contains_ci lit cs))"

declare contains_ci.simps [simp del]

fun contains_word_ci :: "bool \<Rightarrow> string \<Rightarrow> string \<Rightarrow> bool" where
  "contains_word_ci boundary lit s =
     ((boundary \<and> take (length lit) (map ascii_lower s) = lit \<and> ends_name (drop (length lit) s))
      \<or> (case s of [] \<Rightarrow> False | c # cs \<Rightarrow> contains_word_ci (\<not> name_char c) lit cs))"

declare contains_word_ci.simps [simp del]

definition isAplexerUnknownFlag :: "string \<Rightarrow> bool" where
  "isAplexerUnknownFlag stderr =
     (contains_word_ci True ''unexpected argument'' stderr
      \<or> contains_word_ci True ''unrecognized'' stderr
      \<or> contains_word_ci True ''unknown option'' stderr)"

text \<open>The exit code is \<open>None\<close> when the transport got none (\<open>null\<close>).\<close>

definition isAplexerStartRefusal :: "int option \<Rightarrow> string \<Rightarrow> bool" where
  "isAplexerStartRefusal exitCode stderr =
     (exitCode \<noteq> Some 0 \<and> contains_ci ''already belongs to'' stderr)"

definition isAplexerNotFound :: "int option \<Rightarrow> string \<Rightarrow> bool" where
  "isAplexerNotFound exitCode stderr =
     (exitCode \<noteq> Some 0 \<and> contains_ci ''no matching session'' stderr)"

definition isAplexerAckNotFound :: "int option \<Rightarrow> string \<Rightarrow> bool" where
  "isAplexerAckNotFound exitCode stderr =
     (exitCode \<noteq> Some 0 \<and> contains_ci ''no matching unacknowledged warning'' stderr)"

subsection \<open>The versioned CLI's session lines\<close>

record create_options =
  co_cwd :: "string option"
  co_engine :: "string option"
  co_profile :: "string option"

definition option_flag :: "string \<Rightarrow> string option \<Rightarrow> string" where
  "option_flag flag v = (case v of None \<Rightarrow> [] | Some x \<Rightarrow> '' '' @ flag @ '' '' @ shellQuote x)"

definition cliListCommand :: "string \<Rightarrow> string" where
  "cliListCommand binary = binary @ '' sessions list --json''"

definition cliWarningsCommand :: "string \<Rightarrow> string" where
  "cliWarningsCommand binary = binary @ '' sessions warnings --json''"

definition cliCreateCommand :: "string \<Rightarrow> string \<Rightarrow> create_options \<Rightarrow> string" where
  "cliCreateCommand binary name o' =
     binary @ '' sessions create --json'' @ option_flag ''--cwd'' (co_cwd o')
       @ option_flag ''--engine'' (co_engine o') @ option_flag ''--profile'' (co_profile o')
       @ '' -- '' @ shellQuote name"

definition cliKillCommand :: "string \<Rightarrow> string \<Rightarrow> string" where
  "cliKillCommand binary name = binary @ '' sessions kill -- '' @ shellQuote name"

definition cliAckCommand :: "string \<Rightarrow> string option \<Rightarrow> string" where
  "cliAckCommand binary selector =
     binary @ '' sessions ack --json''
       @ (case selector of None \<Rightarrow> [] | Some s \<Rightarrow> '' -- '' @ shellQuote s)"

definition buildAttachCommand :: "string \<Rightarrow> string \<Rightarrow> string" where
  "buildAttachCommand binary name = ''exec '' @ binary @ '' sessions attach -- '' @ shellQuote name"

subsection \<open>What the host's shell reads\<close>

text \<open>The path a remote-path argument names, on a host whose home directory is \<open>home\<close>.\<close>

definition remote_path_word :: "string \<Rightarrow> string \<Rightarrow> string" where
  "remote_path_word home value =
     (let t = js_trim value in
      if t = [] \<or> t = ''~'' \<or> t = ''$HOME'' then home
      else if starts_with t ''~/'' then home @ ''/'' @ drop 2 t
      else if starts_with t ''$HOME/'' then home @ ''/'' @ drop 6 t
      else t)"

lemma read_home:
  "ends_name rest \<Longrightarrow>
   read_words home Plain cur (''$HOME'' @ rest) =
   read_words home Plain (Some (word_of cur @ home)) rest"
  by (simp add: starts_with_def)

lemma ends_name_simps [simp]: "ends_name []" "ends_name (CHR '' '' # s)" "ends_name (CHR ''/'' # s)"
  by (simp_all add: ends_name_def name_char_def)

lemma read_slash:
  "read_words home Plain (Some w) (CHR ''/'' # shellQuote v @ rest) =
   read_words home Plain (Some (w @ ''/'' @ v)) rest"
  using read_plain [of "''/''" home "Some w" "shellQuote v @ rest"]
  by (simp add: plain_char_def read_shellQuote)

lemma read_shellQuoteRemotePath:
  assumes "ends_name rest"
  shows "read_words home Plain cur (shellQuoteRemotePath value @ rest) =
    read_words home Plain (Some (word_of cur @ remote_path_word home value)) rest"
proof -
  have sep: "read_words home Plain cur (''$HOME/'' @ shellQuote v @ rest) =
      read_words home Plain (Some (word_of cur @ home @ ''/'' @ v)) rest" for v
    using read_home [of "CHR ''/'' # shellQuote v @ rest" home cur]
    by (simp add: read_slash del: read_words.simps)
  have plain: "read_words home Plain cur (''$HOME'' @ rest) =
      read_words home Plain (Some (word_of cur @ home)) rest"
    using assms by (rule read_home)
  show ?thesis
    using sep plain
    by (simp add: shellQuoteRemotePath_def remote_path_word_def Let_def read_shellQuote
        starts_with_def del: read_words.simps)
qed

lemmas line_simps = sq.literals_ok_def plain_char_def

lemma read_kill:
  "read_words home Plain None (aplexerKillCommand i) = Some [''a'', ''kill'', i, ''--json'']"
  using sq.read_line [of "''a''" "[Inl ''kill'', Inr i, Inl ''--json'']" home]
  by (simp add: aplexerKillCommand_def line_simps del: read_words.simps)

lemma read_rename:
  "read_words home Plain None (aplexerRenameCommand i tag) = Some [''a'', ''rename'', i, ''--tag'', tag]"
  using sq.read_line [of "''a''" "[Inl ''rename'', Inr i, Inl ''--tag'', Inr tag]" home]
  by (simp add: aplexerRenameCommand_def line_simps del: read_words.simps)

lemma read_ack:
  "read_words home Plain None (aplexerAckCommand target) =
   Some ([''a'', ''ack''] @ (case target of None \<Rightarrow> [] | Some t \<Rightarrow> [t]))"
  using sq.read_line [of "''a''" "Inl ''ack'' # map Inr (case target of None \<Rightarrow> [] | Some t \<Rightarrow> [t])" home]
  by (cases target) (simp_all add: aplexerAckCommand_def line_simps del: read_words.simps)

lemma read_snapshot:
  "read_words home Plain None (aplexerSnapshotCommand key) =
   Some ([''a'', ''snapshot'', ''--json''] @ (case key of None \<Rightarrow> [] | Some k \<Rightarrow> [''--sort'', sort_name k]))"
proof (cases key)
  case None
  then show ?thesis
    using sq.read_line [of "''a''" "[Inl ''snapshot'', Inl ''--json'']" home]
    by (simp add: aplexerSnapshotCommand_def line_simps del: read_words.simps)
next
  case (Some k)
  then show ?thesis
    using sq.read_line [of "''a''" "[Inl ''snapshot'', Inl ''--json'', Inl ''--sort'', Inl (sort_name k)]" home]
    by (cases k) (simp_all add: aplexerSnapshotCommand_def line_simps del: read_words.simps)
qed

lemma read_start:
  "read_words home Plain None (aplexerStartCommand workspace tag) =
   Some [''a'', ''start'', ''--workspace'', remote_path_word home workspace, ''--tag'', tag, ''--json'']"
proof -
  let ?rest = "sq.line_rest [Inl ''--tag'', Inr tag, Inl ''--json'']"
  have e: "ends_name ?rest" by simp
  have r: "read_words home Plain (Some w) ?rest = Some [w, ''--tag'', tag, ''--json'']" for w
    using sq.read_line_rest [of "[Inl ''--tag'', Inr tag, Inl ''--json'']" home w]
    by (simp add: line_simps del: read_words.simps)
  have "read_words home Plain None (''a start --workspace '' @ s) =
      map_option (\<lambda>x. ''a'' # ''start'' # ''--workspace'' # x) (read_words home Plain None s)" for s
    by (simp add: starts_with_def plain_char_def option.map_comp comp_def)
  moreover have "aplexerStartCommand workspace tag =
      ''a start --workspace '' @ shellQuoteRemotePath workspace @ ?rest"
    by (simp add: aplexerStartCommand_def)
  ultimately show ?thesis
    using r [of "remote_path_word home workspace"]
    by (simp only: read_shellQuoteRemotePath [OF e]) simp
qed

text \<open>The optional flags of \<open>sessions create\<close> as words.\<close>

definition flag_words :: "string \<Rightarrow> string option \<Rightarrow> string list" where
  "flag_words flag v = (case v of None \<Rightarrow> [] | Some x \<Rightarrow> [flag, x])"

lemma option_flag_line:
  "option_flag flag v = sq.line_rest (case v of None \<Rightarrow> [] | Some x \<Rightarrow> [Inl flag, Inr x])"
  by (simp add: option_flag_def split: option.splits)

lemma line_rest_append: "sq.line_rest (xs @ ys) = sq.line_rest xs @ sq.line_rest ys"
  by (induction xs rule: sq.line_rest.induct) auto

lemma read_create:
  assumes "binary \<noteq> []" and "list_all plain_char binary"
  shows "read_words home Plain None (cliCreateCommand binary name o') =
    Some ([binary, ''sessions'', ''create'', ''--json''] @ flag_words ''--cwd'' (co_cwd o')
      @ flag_words ''--engine'' (co_engine o') @ flag_words ''--profile'' (co_profile o') @ [''--'', name])"
proof -
  let ?f = "\<lambda>flag v. case v of None \<Rightarrow> [] | Some x \<Rightarrow> [Inl flag, Inr x :: string + string]"
  let ?ws = "[Inl ''sessions'', Inl ''create'', Inl ''--json''] @ ?f ''--cwd'' (co_cwd o')
      @ ?f ''--engine'' (co_engine o') @ ?f ''--profile'' (co_profile o') @ [Inl ''--'', Inr name]"
  have "cliCreateCommand binary name o' = binary @ sq.line_rest ?ws"
    by (simp add: cliCreateCommand_def option_flag_line line_rest_append)
  moreover have "sq.literals_ok ?ws"
    by (auto simp: line_simps split: option.splits)
  ultimately show ?thesis
    using sq.read_line [OF assms, of ?ws home]
    by (auto simp: flag_words_def split: option.splits)
qed

lemma read_cli:
  assumes "binary \<noteq> []" and "list_all plain_char binary"
  shows "read_words home Plain None (cliListCommand binary) = Some [binary, ''sessions'', ''list'', ''--json'']"
    and "read_words home Plain None (cliWarningsCommand binary) =
      Some [binary, ''sessions'', ''warnings'', ''--json'']"
    and "read_words home Plain None (cliKillCommand binary name) =
      Some [binary, ''sessions'', ''kill'', ''--'', name]"
    and "read_words home Plain None (cliAckCommand binary selector) =
      Some ([binary, ''sessions'', ''ack'', ''--json''] @ flag_words ''--'' selector)"
    and "read_words home Plain None (buildAttachCommand binary name) =
      Some [''exec'', binary, ''sessions'', ''attach'', ''--'', name]"
proof -
  show "read_words home Plain None (cliListCommand binary) = Some [binary, ''sessions'', ''list'', ''--json'']"
    using sq.read_line [OF assms, of "[Inl ''sessions'', Inl ''list'', Inl ''--json'']" home]
    by (simp add: cliListCommand_def line_simps del: read_words.simps)
  show "read_words home Plain None (cliWarningsCommand binary) =
      Some [binary, ''sessions'', ''warnings'', ''--json'']"
    using sq.read_line [OF assms, of "[Inl ''sessions'', Inl ''warnings'', Inl ''--json'']" home]
    by (simp add: cliWarningsCommand_def line_simps del: read_words.simps)
  show "read_words home Plain None (cliKillCommand binary name) =
      Some [binary, ''sessions'', ''kill'', ''--'', name]"
    using sq.read_line [OF assms, of "[Inl ''sessions'', Inl ''kill'', Inl ''--'', Inr name]" home]
    by (simp add: cliKillCommand_def line_simps del: read_words.simps)
  show "read_words home Plain None (cliAckCommand binary selector) =
      Some ([binary, ''sessions'', ''ack'', ''--json''] @ flag_words ''--'' selector)"
    using sq.read_line [OF assms, of "[Inl ''sessions'', Inl ''ack'', Inl ''--json'']
      @ (case selector of None \<Rightarrow> [] | Some s \<Rightarrow> [Inl ''--'', Inr s])" home]
    by (cases selector) (simp_all add: cliAckCommand_def flag_words_def line_simps del: read_words.simps)
  show "read_words home Plain None (buildAttachCommand binary name) =
      Some [''exec'', binary, ''sessions'', ''attach'', ''--'', name]"
    using sq.read_line [of "''exec''" "[Inl binary, Inl ''sessions'', Inl ''attach'', Inl ''--'', Inr name]" home]
      assms
    by (simp add: buildAttachCommand_def line_simps del: read_words.simps)
qed

text \<open>
  The direct session-manager lines: ids, tags, warning targets and workspace
  paths reach the program as the values meant, and a workspace path under the home directory
  is the only thing the shell expands.
\<close>

theorem aplexer_lines_read_as_argv:
  "read_words home Plain None (aplexerStartCommand workspace tag) =
     Some [''a'', ''start'', ''--workspace'', remote_path_word home workspace, ''--tag'', tag, ''--json'']
   \<and> read_words home Plain None (aplexerKillCommand i) = Some [''a'', ''kill'', i, ''--json'']
   \<and> read_words home Plain None (aplexerRenameCommand i tag) = Some [''a'', ''rename'', i, ''--tag'', tag]
   \<and> read_words home Plain None (aplexerAckCommand target) =
     Some ([''a'', ''ack''] @ (case target of None \<Rightarrow> [] | Some t \<Rightarrow> [t]))
   \<and> read_words home Plain None (aplexerSnapshotCommand key) =
     Some ([''a'', ''snapshot'', ''--json'']
       @ (case key of None \<Rightarrow> [] | Some k \<Rightarrow> [''--sort'', sort_name k]))"
  by (simp only: read_start read_kill read_rename read_ack read_snapshot simp_thms)

text \<open>
  The PATH wrapper hands the inner login shell one script: the export line followed by
  the command exactly as given, so quoting inside the command survives the extra level.
\<close>

theorem path_aware_command_reads_as_script:
  "read_words home Plain None (pathAwareCommand command) =
   Some [''/bin/sh'', ''-lc'', ''export PATH=\"'' @ USER_BIN_PATH @ '':$PATH\"; '' @ command]"
  by (simp add: pathAwareCommand_def USER_BIN_PATH_def USER_BIN_DIRS_def starts_with_def plain_char_def)

end
