(* ===== verification/Reconnect_Backoff.thy ===== *)
theory Reconnect_Backoff
  imports PS_Prelude
begin

text \<open>
  The reconnect schedule (src/src/shared/reconnectBackoff.ts): a counter of consumed
  attempts with an exponential delay under a cap and a budget. Times are in milliseconds;
  the code's doubles hold every value involved exactly (a delay is at most the cap).
\<close>

definition INITIAL_DELAY_MS :: int where "INITIAL_DELAY_MS = 5000"
definition MAX_DELAY_MS :: int where "MAX_DELAY_MS = 60000"
definition MAX_ATTEMPTS :: int where "MAX_ATTEMPTS = 10"

record backoff_options =
  o_initialDelayMs :: "int option"
  o_maxDelayMs :: "int option"
  o_maxAttempts :: "int option"

record retry_plan =
  rp_attempt :: nat
  rp_delayMs :: int
  rp_retryAtEpochMs :: int

record backoff =
  bo_attempt :: nat
  bo_initialDelayMs :: int
  bo_maxDelayMs :: int
  bo_maxAttempts :: int

definition new_backoff :: "backoff_options \<Rightarrow> backoff" where
  "new_backoff opts =
     \<lparr>bo_attempt = 0,
      bo_initialDelayMs = case_option INITIAL_DELAY_MS id (o_initialDelayMs opts),
      bo_maxDelayMs = case_option MAX_DELAY_MS id (o_maxDelayMs opts),
      bo_maxAttempts = case_option MAX_ATTEMPTS id (o_maxAttempts opts)\<rparr>"

definition exhausted :: "backoff \<Rightarrow> bool" where
  "exhausted b = (bo_maxAttempts b \<le> int (bo_attempt b))"

definition backoff_next :: "int \<Rightarrow> backoff \<Rightarrow> retry_plan option \<times> backoff" where
  "backoff_next now b =
     (if exhausted b then (None, b)
      else
        let attempt = bo_attempt b + 1;
            delayMs = min (bo_initialDelayMs b * 2 ^ (attempt - 1)) (bo_maxDelayMs b)
        in (Some \<lparr>rp_attempt = attempt, rp_delayMs = delayMs, rp_retryAtEpochMs = now + delayMs\<rparr>,
            b\<lparr>bo_attempt := attempt\<rparr>))"

definition backoff_reset :: "backoff \<Rightarrow> backoff" where
  "backoff_reset b = b\<lparr>bo_attempt := 0\<rparr>"

text \<open>The plans of consecutive failures at the times \<open>nows\<close>.\<close>

fun backoff_plans :: "int list \<Rightarrow> backoff \<Rightarrow> retry_plan option list" where
  "backoff_plans [] b = []"
| "backoff_plans (t # ts) b = (case backoff_next t b of (p, b') \<Rightarrow> p # backoff_plans ts b')"

lemma backoff_plans_nth:
  "i < length ts \<Longrightarrow>
   backoff_plans ts b ! i =
     (let n = bo_attempt b + i; d = min (bo_initialDelayMs b * 2 ^ n) (bo_maxDelayMs b) in
      if bo_maxAttempts b \<le> int n then None
      else Some \<lparr>rp_attempt = n + 1, rp_delayMs = d, rp_retryAtEpochMs = ts ! i + d\<rparr>)"
proof (induction ts arbitrary: b i)
  case (Cons t ts)
  show ?case
  proof (cases i)
    case 0
    then show ?thesis by (simp add: backoff_next_def exhausted_def Let_def)
  next
    case (Suc j)
    with Cons show ?thesis
      by (auto simp: backoff_next_def exhausted_def Let_def)
  qed
qed simp

text \<open>
  The schedule of a whole outage. From a fresh or reset counter, the i-th consecutive
  failure (from 0) waits the initial delay doubled i times, never more than the cap, is
  numbered i + 1, and from the budget on every answer is "give up".
\<close>

theorem backoff_schedule:
  assumes "i < length ts"
  shows "backoff_plans ts (backoff_reset b) ! i =
    (if bo_maxAttempts b \<le> int i then None
     else Some \<lparr>rp_attempt = i + 1,
                rp_delayMs = min (bo_initialDelayMs b * 2 ^ i) (bo_maxDelayMs b),
                rp_retryAtEpochMs = ts ! i + min (bo_initialDelayMs b * 2 ^ i) (bo_maxDelayMs b)\<rparr>)"
  using assms by (simp add: backoff_plans_nth backoff_reset_def Let_def)

theorem backoff_schedule_witness:
  "backoff_plans [0, 0, 0, 0, 7] (backoff_reset (new_backoff \<lparr>o_initialDelayMs = None,
      o_maxDelayMs = None, o_maxAttempts = None\<rparr>)) ! 4 =
    Some \<lparr>rp_attempt = 5, rp_delayMs = 60000, rp_retryAtEpochMs = 60007\<rparr>"
  by (subst backoff_schedule)
    (simp_all add: new_backoff_def INITIAL_DELAY_MS_def MAX_DELAY_MS_def MAX_ATTEMPTS_def)

end
