(* ===== verification/Base64.thy ===== *)
theory Base64
  imports PS_Prelude "HOL-Library.Word"
begin

text \<open>
  The base64 encodings that carry keys, terminal bytes and vault values: the portable encoder
  of src/src/knownHostsCore.ts, the decoder of src/src/connectionController.ts and the strict
  base64url of src/src/keyVault/bytes.ts. Bytes are 8-bit words; \<open>atob\<close> is the platform's
  forgiving decoder.
\<close>

unbundle bit_operations_syntax

type_synonym byte = "8 word"
type_synonym bytes = "8 word list"

subsection \<open>Base64\<close>

definition b64_table :: string where
  "b64_table = ''ABCDEFGHIJKLMNOPQRSTUVWXYZabcdefghijklmnopqrstuvwxyz0123456789+/''"

definition b64_char :: "byte \<Rightarrow> char" where
  "b64_char w = b64_table ! unat w"

fun bytesToBase64 :: "bytes \<Rightarrow> string" where
  "bytesToBase64 [] = []"
| "bytesToBase64 [b0] =
     [b64_char (drop_bit 2 b0), b64_char (push_bit 4 (b0 AND 3)), CHR ''='', CHR ''='']"
| "bytesToBase64 [b0, b1] =
     [b64_char (drop_bit 2 b0), b64_char (push_bit 4 (b0 AND 3) OR drop_bit 4 b1),
      b64_char (push_bit 2 (b1 AND 15)), CHR ''='']"
| "bytesToBase64 (b0 # b1 # b2 # bs) =
     [b64_char (drop_bit 2 b0), b64_char (push_bit 4 (b0 AND 3) OR drop_bit 4 b1),
      b64_char (push_bit 2 (b1 AND 15) OR drop_bit 6 b2), b64_char (b2 AND 63)]
     @ bytesToBase64 bs"

text \<open>
  \<open>atob\<close>: ASCII white space is dropped, then up to two closing \<open>=\<close> when the length is a
  multiple of four; a remaining length of 1 modulo 4 or a character outside the alphabet is
  an error; leftover bits are discarded.
\<close>

fun index_from :: "nat \<Rightarrow> 'a list \<Rightarrow> 'a \<Rightarrow> nat option" where
  "index_from n [] c = None"
| "index_from n (x # xs) c = (if x = c then Some n else index_from (Suc n) xs c)"

definition b64_value :: "char \<Rightarrow> byte option" where
  "b64_value c = map_option of_nat (index_from 0 b64_table c)"

fun b64_groups :: "byte list \<Rightarrow> bytes option" where
  "b64_groups [] = Some []"
| "b64_groups [v0] = None"
| "b64_groups [v0, v1] = Some [push_bit 2 v0 OR drop_bit 4 v1]"
| "b64_groups [v0, v1, v2] =
     Some [push_bit 2 v0 OR drop_bit 4 v1, push_bit 4 v1 OR drop_bit 2 v2]"
| "b64_groups (v0 # v1 # v2 # v3 # vs) =
     map_option (\<lambda>bs. (push_bit 2 v0 OR drop_bit 4 v1) # (push_bit 4 v1 OR drop_bit 2 v2)
       # (push_bit 6 v2 OR v3) # bs) (b64_groups vs)"

definition ascii_space :: "char \<Rightarrow> bool" where
  "ascii_space c = (of_char c \<in> {9, 10, 12, 13, 32 :: nat})"

definition strip_padding :: "string \<Rightarrow> string" where
  "strip_padding s =
     (if length s mod 4 = 0 then
        (if drop (length s - 2) s = ''=='' then take (length s - 2) s
         else if drop (length s - 1) s = ''='' then take (length s - 1) s else s)
      else s)"

definition atob :: "string \<Rightarrow> bytes option" where
  "atob text = Option.bind (those (map b64_value (strip_padding (filter (\<lambda>c. \<not> ascii_space c) text)))) b64_groups"

text \<open>The six-bit values an encoding is written with, and its padding.\<close>

fun sextets :: "bytes \<Rightarrow> byte list" where
  "sextets [] = []"
| "sextets [b0] = [drop_bit 2 b0, push_bit 4 (b0 AND 3)]"
| "sextets [b0, b1] =
     [drop_bit 2 b0, push_bit 4 (b0 AND 3) OR drop_bit 4 b1, push_bit 2 (b1 AND 15)]"
| "sextets (b0 # b1 # b2 # bs) =
     [drop_bit 2 b0, push_bit 4 (b0 AND 3) OR drop_bit 4 b1,
      push_bit 2 (b1 AND 15) OR drop_bit 6 b2, b2 AND 63] @ sextets bs"

definition padding :: "bytes \<Rightarrow> string" where
  "padding bs = replicate ((3 - length bs mod 3) mod 3) (CHR ''='')"

lemma padding_simps [simp]:
  "padding [] = []" "padding [b0] = ''==''" "padding [b0, b1] = ''=''"
  "padding (b0 # b1 # b2 # bs) = padding bs"
proof -
  have "Suc (Suc (Suc n)) mod 3 = n mod 3" for n :: nat by presburger
  then show "padding (b0 # b1 # b2 # bs) = padding bs" by (simp add: padding_def)
qed (simp_all add: padding_def numeral_2_eq_2)

lemma bytesToBase64_sextets: "bytesToBase64 bs = map b64_char (sextets bs) @ padding bs"
  by (induction bs rule: sextets.induct) simp_all

lemma length_sextets: "length (sextets bs) = (4 * length bs + 2) div 3"
  by (induction bs rule: sextets.induct) auto

lemma byte_eqI:
  assumes "\<And>n. n \<in> {0, 1, 2, 3, 4, 5, 6, 7} \<Longrightarrow> bit x n = bit y n"
  shows "x = (y :: byte)"
proof (rule bit_word_eqI)
  fix n
  assume "n < LENGTH(8)"
  then have "n \<in> {0, 1, 2, 3, 4, 5, 6, 7}" by (simp, arith)
  then show "bit x n = bit y n" by (rule assms)
qed

lemma low_bits:
  "b AND 3 = take_bit 2 (b :: byte)" "b AND 15 = take_bit 4 b" "b AND 63 = take_bit 6 b"
  by (simp_all add: take_bit_eq_mask mask_eq_exp_minus_1)

lemma Suc_num: "Suc (Suc 0) = 2" "Suc (Suc (Suc 0)) = 3"
  by simp_all

lemmas byte_simps = low_bits bit_simps Suc_num

lemma regroup:
  fixes b c e :: byte
  shows "push_bit 2 (drop_bit 2 b) OR drop_bit 4 (push_bit 4 (b AND 3)) = b"
    and "push_bit 2 (drop_bit 2 b) OR drop_bit 4 (push_bit 4 (b AND 3) OR drop_bit 4 c) = b"
    and "push_bit 4 (push_bit 4 (b AND 3) OR drop_bit 4 c) OR drop_bit 2 (push_bit 2 (c AND 15)) = c"
    and "push_bit 4 (push_bit 4 (b AND 3) OR drop_bit 4 c)
      OR drop_bit 2 (push_bit 2 (c AND 15) OR drop_bit 6 e) = c"
    and "push_bit 6 (push_bit 2 (c AND 15) OR drop_bit 6 e) OR (e AND 63) = e"
  by (rule byte_eqI; (auto simp: byte_simps))+

lemma b64_groups_sextets: "b64_groups (sextets bs) = Some bs"
  by (induction bs rule: sextets.induct) (simp_all only: sextets.simps append.simps
    b64_groups.simps regroup option.map)

lemma high_bit: "8 \<le> n \<Longrightarrow> \<not> bit (b :: byte) n"
  using bit_imp_le_length [of b n] by auto

lemma sextet_range: "v \<in> set (sextets bs) \<Longrightarrow> take_bit 6 v = v"
proof (induction bs rule: sextets.induct)
  case (2 b0)
  then show ?case by (auto intro!: byte_eqI simp: byte_simps high_bit)
next
  case (3 b0 b1)
  then show ?case by (auto intro!: byte_eqI simp: byte_simps high_bit)
next
  case (4 b0 b1 b2 bs)
  then show ?case by (auto intro!: byte_eqI simp: byte_simps high_bit)
qed simp

lemma sextet_less:
  assumes "v \<in> set (sextets bs)"
  shows "unat v < 64"
proof -
  have "unat v = take_bit 6 (unat v)"
    by (metis sextet_range [OF assms] unsigned_take_bit_eq)
  also have "\<dots> < 2 ^ 6" by (rule take_bit_nat_less_exp)
  finally show ?thesis by simp
qed

lemma index_from_nth:
  "distinct xs \<Longrightarrow> i < length xs \<Longrightarrow> index_from n xs (xs ! i) = Some (n + i)"
proof (induction xs arbitrary: n i)
  case (Cons x xs)
  then show ?case by (cases i) auto
qed simp

lemma distinct_table: "distinct b64_table" and length_table: "length b64_table = 64"
  by (simp_all add: b64_table_def)

lemma b64_value_char: "unat w < 64 \<Longrightarrow> b64_value (b64_char w) = Some w"
  by (simp add: b64_value_def b64_char_def index_from_nth distinct_table length_table)

lemma those_value_char:
  "\<forall>w\<in>set ws. unat w < 64 \<Longrightarrow> those (map b64_value (map b64_char ws)) = Some ws"
  by (induction ws) (auto simp: b64_value_char)

definition b64_text :: "string \<Rightarrow> bool" where
  "b64_text s = (\<forall>c\<in>set s. c \<in> set b64_table)"

lemma b64_text_chars: "\<forall>w\<in>set ws. unat w < 64 \<Longrightarrow> b64_text (map b64_char ws)"
  by (auto simp: b64_text_def b64_char_def length_table)

lemma table_excludes: "c \<in> set b64_table \<Longrightarrow> c \<noteq> CHR ''='' \<and> \<not> ascii_space c"
  by (auto simp: b64_table_def ascii_space_def)

lemma filter_b64: "b64_text t \<Longrightarrow> filter (\<lambda>c. \<not> ascii_space c) (t @ replicate k (CHR ''='')) = t @ replicate k (CHR ''='')"
  using table_excludes by (auto simp: b64_text_def filter_id_conv ascii_space_def)

lemma strip_padding_b64:
  assumes "b64_text t" and "k \<le> 2" and "(length t + k) mod 4 = 0"
  shows "strip_padding (t @ replicate k (CHR ''='')) = t"
proof -
  have e: "CHR ''='' \<notin> set t" using assms(1) table_excludes by (auto simp: b64_text_def)
  consider "k = 0" | "k = 1" | "k = 2" using assms(2) by linarith
  then show ?thesis
  proof cases
    case 1
    have "drop (length t - 2) t \<noteq> ''==''" "drop (length t - 1) t \<noteq> ''=''"
      using e by (metis in_set_dropD list.set_intros(1))+
    with 1 show ?thesis by (simp add: strip_padding_def)
  next
    case 2
    have "drop (length t + 1 - 2) t @ ''='' \<noteq> ''==''"
      using e by (metis append_Cons append_Nil append_same_eq in_set_dropD list.set_intros(1))
    with 2 assms(3) show ?thesis by (simp add: strip_padding_def)
  next
    case 3
    with assms(3) show ?thesis by (simp add: strip_padding_def numeral_2_eq_2)
  qed
qed

lemma padding_replicate: "padding bs = replicate ((3 - length bs mod 3) mod 3) (CHR ''='')"
  by (simp add: padding_def)

lemma encoded_length: "(length (sextets bs) + length (padding bs)) mod 4 = 0"
proof (induction bs rule: sextets.induct)
  case (4 b0 b1 b2 bs)
  then show ?case by simp
qed simp_all

text \<open>Decoding the encoding of any bytes gives the bytes.\<close>

lemma atob_bytesToBase64: "atob (bytesToBase64 bs) = Some bs"
proof -
  have r: "\<forall>w\<in>set (sextets bs). unat w < 64" using sextet_less by blast
  have t: "b64_text (map b64_char (sextets bs))" by (rule b64_text_chars [OF r])
  have "(3 - length bs mod 3) mod 3 \<le> 2" by linarith
  then have "strip_padding (map b64_char (sextets bs) @ padding bs) = map b64_char (sextets bs)"
    using encoded_length [of bs] unfolding padding_def
    by (intro strip_padding_b64) (simp_all add: t)
  moreover have "filter (\<lambda>c. \<not> ascii_space c) (map b64_char (sextets bs) @ padding bs)
      = map b64_char (sextets bs) @ padding bs"
    unfolding padding_def by (rule filter_b64 [OF t])
  ultimately show ?thesis
    unfolding atob_def bytesToBase64_sextets
    by (simp only: those_value_char [OF r] Option.bind.bind_lunit b64_groups_sextets)
qed

text \<open>
  The portable encoder agrees with the platform decoder on every byte string: what the
  controller or a known-hosts pin encodes, decoding returns unchanged.
\<close>

theorem base64_roundtrip: "atob (bytesToBase64 bs) = Some bs"
  by (rule atob_bytesToBase64)

subsection \<open>Strict base64url\<close>

definition url_char :: "char \<Rightarrow> char" where
  "url_char c = (if c = CHR ''+'' then CHR ''-'' else if c = CHR ''/'' then CHR ''_'' else c)"

definition std_char :: "char \<Rightarrow> char" where
  "std_char c = (if c = CHR ''-'' then CHR ''+'' else if c = CHR ''_'' then CHR ''/'' else c)"

definition strip_eq :: "string \<Rightarrow> string" where
  "strip_eq s = rev (dropWhile (\<lambda>c. c = CHR ''='') (rev s))"

definition toB64url :: "bytes \<Rightarrow> string" where
  "toB64url bs = strip_eq (map url_char (bytesToBase64 bs))"

definition b64url_re :: "string \<Rightarrow> bool" where
  "b64url_re s = list_all (\<lambda>c. let n = of_char c :: nat in
     (48 \<le> n \<and> n \<le> 57) \<or> (65 \<le> n \<and> n \<le> 90) \<or> (97 \<le> n \<and> n \<le> 122)
     \<or> c = CHR ''-'' \<or> c = CHR ''_'') s"

definition fromB64url :: "string \<Rightarrow> bytes option" where
  "fromB64url text =
     (if \<not> b64url_re text \<or> length text mod 4 = 1 then None
      else case atob (map std_char text @ replicate ((4 - length text mod 4) mod 4) (CHR ''='')) of
             None \<Rightarrow> None
           | Some bs \<Rightarrow> if toB64url bs = text then Some bs else None)"

lemma strip_eq_pad:
  assumes "CHR ''='' \<notin> set t"
  shows "strip_eq (t @ replicate k (CHR ''='')) = t"
proof -
  have "t = [] \<or> last t \<noteq> CHR ''=''" by (metis assms last_in_set)
  then have "dropWhile (\<lambda>c. c = CHR ''='') (rev t) = rev t"
    by (auto simp: dropWhile_eq_self_iff hd_rev)
  moreover have "dropWhile (\<lambda>c. c = CHR ''='') (replicate k (CHR ''='') @ xs) =
      dropWhile (\<lambda>c. c = CHR ''='') xs" for xs
    by (induction k) auto
  ultimately show ?thesis by (simp add: strip_eq_def)
qed

lemma url_table:
  assumes "c \<in> set b64_table"
  shows "std_char (url_char c) = c" and "url_char c \<noteq> CHR ''=''" and "b64url_re [url_char c]"
proof -
  have "list_all (\<lambda>c. std_char (url_char c) = c \<and> url_char c \<noteq> CHR ''='' \<and> b64url_re [url_char c])
      b64_table"
    by code_simp
  with assms show "std_char (url_char c) = c" "url_char c \<noteq> CHR ''=''" "b64url_re [url_char c]"
    by (auto simp: list_all_iff)
qed

lemma toB64url_chars:
  "toB64url bs = map (\<lambda>w. url_char (b64_char w)) (sextets bs)"
proof -
  have t: "b64_text (map b64_char (sextets bs))"
    using sextet_less by (intro b64_text_chars) blast
  then have "\<forall>w\<in>set (sextets bs). url_char (b64_char w) \<noteq> CHR ''=''"
    using url_table(2) by (simp add: b64_text_def)
  then have "CHR ''='' \<notin> set (map url_char (map b64_char (sextets bs)))"
    by auto
  moreover have "map url_char (padding bs) = replicate ((3 - length bs mod 3) mod 3) (CHR ''='')"
    by (simp add: padding_def url_char_def)
  ultimately show ?thesis
    by (simp add: toB64url_def bytesToBase64_sextets strip_eq_pad comp_def)
qed

text \<open>
  Strict base64url is a bijection between byte strings and the texts it accepts: every
  encoding decodes to its bytes, and a text that decodes is the canonical encoding of the
  result, so no two accepted texts stand for the same value.
\<close>

theorem base64url_strict:
  "fromB64url (toB64url bs) = Some bs \<and> (fromB64url text = Some bs \<longleftrightarrow> text = toB64url bs)"
proof -
  have t: "b64_text (map b64_char (sextets bs))"
    using sextet_less by (intro b64_text_chars) blast
  then have m: "w \<in> set (sextets bs) \<Longrightarrow> b64_char w \<in> set b64_table" for w
    by (auto simp: b64_text_def)
  have re: "b64url_re (toB64url bs)"
    using m url_table(3) by (fastforce simp: toB64url_chars b64url_re_def list_all_iff)
  have std: "map std_char (toB64url bs) = map b64_char (sextets bs)"
    using m url_table(1) by (simp add: toB64url_chars)
  have len: "length (sextets bs) mod 4 \<noteq> 1
      \<and> (4 - length (sextets bs) mod 4) mod 4 = (3 - length bs mod 3) mod 3"
  proof (induction bs rule: sextets.induct)
    case (4 b0 b1 b2 bs)
    have "Suc (Suc (Suc n)) mod 3 = n mod 3" for n :: nat by presburger
    with 4 show ?case by simp
  qed simp_all
  have dec: "fromB64url (toB64url bs) = Some bs"
    using re std len atob_bytesToBase64 [of bs]
    by (simp add: fromB64url_def bytesToBase64_sextets padding_def) (simp add: toB64url_chars)
  moreover have "fromB64url text = Some bs \<Longrightarrow> text = toB64url bs"
    by (auto simp: fromB64url_def split: if_splits option.splits)
  ultimately show ?thesis by blast
qed

definition bytesEqual :: "bytes \<Rightarrow> bytes \<Rightarrow> bool" where
  "bytesEqual a b =
     (length a = length b \<and> fold (\<lambda>(x, y) diff. diff OR (x XOR y)) (zip a b) 0 = 0)"

lemma fold_diff:
  "fold (\<lambda>(x, y) diff. diff OR (x XOR y)) ps d = (0 :: byte) \<longleftrightarrow>
   d = 0 \<and> (\<forall>(x, y)\<in>set ps. x = y)"
proof (induction ps arbitrary: d)
  case (Cons p ps)
  have "(d OR (x XOR y) = 0) = (d = 0 \<and> x = y)" for x y :: byte
    by (metis or_eq_0_iff xor_self_eq xor.left_neutral xor.assoc xor.right_neutral)
  with Cons show ?case by (cases p) auto
qed simp

lemma bytesEqual_iff: "bytesEqual a b \<longleftrightarrow> a = b"
proof -
  have "length a = length b \<Longrightarrow> (\<forall>(x, y)\<in>set (zip a b). x = y) \<longleftrightarrow> a = b"
    by (induction a b rule: list_induct2) auto
  then show ?thesis by (auto simp: bytesEqual_def fold_diff)
qed

end
