(* ===== verification/Host_Keys.thy ===== *)
theory Host_Keys
  imports Base64 Js_Values
begin

text \<open>
  Host-key trust: the pure half of host-key verification (src/src/knownHostsCore.ts) and the
  persisted pin formats (src/src/hostKeyTrustCore.ts). The trust contract at the end is what
  the connection controller's dial decisions are proved against.
\<close>

subsection \<open>Pins and verdicts\<close>

record host_key_pin =
  keyType :: string
  keyB64 :: string

datatype verdict = Trusted | Mismatch | Unknown

definition show_port :: "nat \<Rightarrow> string" where
  "show_port p =
     (let digit = (\<lambda>d. char_of (48 + d)) in
      (if p < 10 then [digit p]
       else if p < 100 then [digit (p div 10), digit (p mod 10)]
       else if p < 1000 then [digit (p div 100), digit (p div 10 mod 10), digit (p mod 10)]
       else if p < 10000
       then [digit (p div 1000), digit (p div 100 mod 10), digit (p div 10 mod 10), digit (p mod 10)]
       else [digit (p div 10000), digit (p div 1000 mod 10), digit (p div 100 mod 10),
             digit (p div 10 mod 10), digit (p mod 10)]))"

text \<open>Ports are decimal numerals of at most five digits (0 to 65535).\<close>

definition knownHostsToken :: "string \<Rightarrow> nat \<Rightarrow> string" where
  "knownHostsToken host port =
     (if port = 22 then host else ''['' @ host @ '']:'' @ show_port port)"

definition verifyHostKeyPin :: "host_key_pin option \<Rightarrow> string \<Rightarrow> string \<Rightarrow> verdict" where
  "verifyHostKeyPin pin kt kb =
     (case pin of None \<Rightarrow> Unknown
      | Some p \<Rightarrow> if keyType p \<noteq> kt \<or> keyB64 p \<noteq> kb then Mismatch else Trusted)"

text \<open>\<open>(b0 << 24 | b1 << 16 | b2 << 8 | b3) >>> 0\<close>: the big-endian unsigned length.\<close>

definition be32 :: "byte \<Rightarrow> byte \<Rightarrow> byte \<Rightarrow> byte \<Rightarrow> nat" where
  "be32 b0 b1 b2 b3 =
     unat (push_bit 24 (ucast b0) OR push_bit 16 (ucast b1) OR push_bit 8 (ucast b2)
       OR ucast b3 :: 32 word)"

definition decodePublicKeyBlob :: "bytes \<Rightarrow> host_key_pin" where
  "decodePublicKeyBlob blob =
     (let len = (if 4 \<le> length blob then be32 (blob ! 0) (blob ! 1) (blob ! 2) (blob ! 3) else 0) in
      if len = 0 \<or> length blob < 4 + len
      then \<lparr>keyType = ''unknown'', keyB64 = bytesToBase64 blob\<rparr>
      else \<lparr>keyType = map (\<lambda>b. char_of (unat b)) (take len (drop 4 blob)),
            keyB64 = bytesToBase64 blob\<rparr>)"

subsection \<open>Persisted trust\<close>

record presented_key = host_key_pin +
  fingerprintSha256 :: string

datatype trust_pin =
    Sha256Fingerprint string
  | WireKey string host_key_pin

definition fromAndroidTrustedHostKeySha256 :: "string option \<Rightarrow> trust_pin option" where
  "fromAndroidTrustedHostKeySha256 value =
     (case value of None \<Rightarrow> None
      | Some v \<Rightarrow> if length (js_trim v) = 0 then None else Some (Sha256Fingerprint v))"

fun toAndroidTrustedHostKeySha256 :: "trust_pin \<Rightarrow> string" where
  "toAndroidTrustedHostKeySha256 (Sha256Fingerprint fp) = fp"
| "toAndroidTrustedHostKeySha256 (WireKey fp k) = fp"

definition verifyHostKeyTrustPin :: "trust_pin option \<Rightarrow> presented_key \<Rightarrow> verdict" where
  "verifyHostKeyTrustPin pin presented =
     (case pin of None \<Rightarrow> Unknown
      | Some (Sha256Fingerprint fp) \<Rightarrow> if fp = fingerprintSha256 presented then Trusted else Mismatch
      | Some (WireKey fp k) \<Rightarrow> verifyHostKeyPin (Some k) (keyType presented) (keyB64 presented))"

definition acceptedHostKeyPin :: "trust_pin option \<Rightarrow> presented_key \<Rightarrow> trust_pin" where
  "acceptedHostKeyPin previous presented =
     (case previous of
        Some (Sha256Fingerprint fp) \<Rightarrow> Sha256Fingerprint (fingerprintSha256 presented)
      | _ \<Rightarrow> WireKey (fingerprintSha256 presented)
               \<lparr>keyType = keyType presented, keyB64 = keyB64 presented\<rparr>)"

subsection \<open>The trust contract\<close>

text \<open>
  What a dial decision relies on: no pin is never trusted, a pin made by accepting a key
  trusts that key, and a pin trusts only keys it identifies. \<open>same\<close> says two presented keys
  are identified by one pin.
\<close>

locale trust_policy =
  fixes verify :: "'p option \<Rightarrow> 'k \<Rightarrow> verdict"
    and accept :: "'p option \<Rightarrow> 'k \<Rightarrow> 'p"
    and same :: "'p \<Rightarrow> 'k \<Rightarrow> 'k \<Rightarrow> bool"
  assumes verify_none: "verify None k = Unknown"
    and verify_some: "verify (Some p) k \<noteq> Unknown"
    and verify_accept: "verify (Some (accept prev k)) k = Trusted"
    and trusted_same: "verify (Some p) k = Trusted \<Longrightarrow> verify (Some p) k' = Trusted \<longleftrightarrow> same p k k'"
begin

lemma trusted_has_pin: "verify p k = Trusted \<Longrightarrow> \<exists>q. p = Some q"
  by (cases p) (auto simp: verify_none)

lemma accepted_key_only:
  "verify (Some (accept prev k)) k' = Trusted \<longleftrightarrow> same (accept prev k) k k'"
  by (rule trusted_same) (rule verify_accept)

lemma mismatch_needs_pin: "verify p k = Mismatch \<Longrightarrow> p \<noteq> None"
  by (cases p) (auto simp: verify_none)

lemma unknown_iff: "verify p k = Unknown \<longleftrightarrow> p = None"
  by (cases p) (auto simp: verify_none verify_some)

end

fun same_key :: "trust_pin \<Rightarrow> presented_key \<Rightarrow> presented_key \<Rightarrow> bool" where
  "same_key (Sha256Fingerprint fp) k k' = (fingerprintSha256 k' = fingerprintSha256 k)"
| "same_key (WireKey fp p) k k' = (keyType k' = keyType k \<and> keyB64 k' = keyB64 k)"

interpretation tp: trust_policy verifyHostKeyTrustPin acceptedHostKeyPin same_key
proof unfold_locales
  fix p k k'
  assume "verifyHostKeyTrustPin (Some p) k = Trusted"
  then show "verifyHostKeyTrustPin (Some p) k' = Trusted \<longleftrightarrow> same_key p k k'"
    by (cases p) (auto simp: verifyHostKeyTrustPin_def verifyHostKeyPin_def split: if_splits)
qed (auto simp: verifyHostKeyTrustPin_def verifyHostKeyPin_def acceptedHostKeyPin_def
    split: trust_pin.splits option.splits)

text \<open>
  Accepting a key trusts exactly that key. The pin written when the user accepts a
  presented key trusts it on the next dial, trusts another key only when that key is the same
  under the pin's format, and keeps the format of the pin it replaces.
\<close>

theorem accepted_pin_trusts_exactly_the_key:
  "verifyHostKeyTrustPin (Some (acceptedHostKeyPin prev k)) k = Trusted
   \<and> (verifyHostKeyTrustPin (Some (acceptedHostKeyPin prev k)) k' = Trusted
       \<longleftrightarrow> same_key (acceptedHostKeyPin prev k) k k')
   \<and> ((\<exists>fp. acceptedHostKeyPin prev k = Sha256Fingerprint fp) \<longleftrightarrow> (\<exists>fp. prev = Some (Sha256Fingerprint fp)))
   \<and> toAndroidTrustedHostKeySha256 (acceptedHostKeyPin prev k) = fingerprintSha256 k"
  using tp.verify_accept [of prev k] tp.accepted_key_only [of prev k k']
  by (auto simp: acceptedHostKeyPin_def split: trust_pin.splits option.splits)

subsection \<open>Key blobs\<close>

definition be32_bytes :: "nat \<Rightarrow> bytes" where
  "be32_bytes n = [of_nat (n div 16777216), of_nat (n div 65536), of_nat (n div 256), of_nat n]"

lemma be32_of_bytes:
  assumes "n < 2 ^ 32"
  shows "be32 (of_nat (n div 16777216)) (of_nat (n div 65536)) (of_nat (n div 256)) (of_nat n) = n"
proof -
  let ?w = "of_nat n :: 32 word"
  have u: "ucast (of_nat (n div 2 ^ k) :: byte) = take_bit 8 (drop_bit k ?w)" if "k \<le> 24" for k
    by (rule bit_word_eqI)
      (use that in \<open>auto simp: bit_simps bit_of_nat_iff drop_bit_eq_div [symmetric]\<close>)
  have "push_bit 24 (take_bit 8 (drop_bit 24 ?w)) OR push_bit 16 (take_bit 8 (drop_bit 16 ?w))
      OR push_bit 8 (take_bit 8 (drop_bit 8 ?w)) OR take_bit 8 (drop_bit 0 ?w) = ?w"
    by (rule bit_word_eqI) (auto simp: bit_simps)
  then have "be32 (of_nat (n div 2 ^ 24)) (of_nat (n div 2 ^ 16)) (of_nat (n div 2 ^ 8))
      (of_nat (n div 2 ^ 0)) = unat ?w"
    unfolding be32_def by (simp only: u)
  with assms show ?thesis by (simp add: unat_of_nat)
qed

text \<open>
  A key blob in the wire format (length-prefixed type, then key data) decodes to its type
  label, and its stored base64 decodes back to the whole blob.
\<close>

theorem key_blob_decodes:
  assumes "ty \<noteq> []" and "length ty < 2 ^ 32"
  shows "decodePublicKeyBlob (be32_bytes (length ty) @ map (\<lambda>c. of_nat (of_char c)) ty @ rest) =
      \<lparr>keyType = ty,
       keyB64 = bytesToBase64 (be32_bytes (length ty) @ map (\<lambda>c. of_nat (of_char c)) ty @ rest)\<rparr>
    \<and> atob (keyB64 (decodePublicKeyBlob blob)) = Some blob"
proof -
  have c: "char_of (unat (of_nat (of_char c) :: byte)) = (c :: char)" for c
    by (simp add: unat_of_nat)
  have "be32_bytes (length ty) = [a, b, c, d] \<Longrightarrow> be32 a b c d = length ty" for a b c d
    using be32_of_bytes [OF assms(2)] by (auto simp: be32_bytes_def)
  then show ?thesis
    using assms(1) atob_bytesToBase64
    by (auto simp: decodePublicKeyBlob_def be32_bytes_def Let_def comp_def c)
qed

theorem key_blob_decodes_witness:
  "keyType (decodePublicKeyBlob
      (be32_bytes (length ''ssh-rsa'') @ map (\<lambda>c. of_nat (of_char c)) ''ssh-rsa'' @ [1, 2, 3])) = ''ssh-rsa''"
  using key_blob_decodes [of "''ssh-rsa''" "[1, 2, 3]" "[]"] by simp

end
