(* ===== verification/Composer_Text.thy ===== *)
theory Composer_Text
  imports Js_Values "HOL-Library.Word"
begin

text \<open>
  The text half of composer delivery (src/src/composerSend.ts): the bracketed-paste frame, the
  walk out of the remote pager, UTF-8 encoding of JavaScript text, and send routing. A
  composer text is a list of 16-bit code units, surrogates included, as in JavaScript.
\<close>

unbundle bit_operations_syntax

type_synonym utf16 = "16 word list"
type_synonym octets = "8 word list"

definition units :: "string \<Rightarrow> utf16" where
  "units s = map (\<lambda>c. of_nat (of_char c)) s"

definition BP_START :: utf16 where "BP_START = 0x1b # units ''[200~''"
definition BP_END :: utf16 where "BP_END = 0x1b # units ''[201~''"
definition SUBMIT_KEY :: utf16 where "SUBMIT_KEY = [13]"

definition submitDelayMs_default :: int where "submitDelayMs_default = 250"
definition sendTimeoutMs_default :: int where "sendTimeoutMs_default = 12000"
definition PASTE_GAP_MS :: int where "PASTE_GAP_MS = 120"

subsection \<open>The paste frame\<close>

definition needsBracketedPaste :: "utf16 \<Rightarrow> bool" where
  "needsBracketedPaste payload = (10 \<in> set payload \<or> 13 \<in> set payload)"

definition frameForPaste :: "utf16 \<Rightarrow> utf16" where
  "frameForPaste payload =
     (if needsBracketedPaste payload then BP_START @ payload @ BP_END else payload)"

definition composerPayloadSegments :: "utf16 \<Rightarrow> utf16 list" where
  "composerPayloadSegments payload =
     (if needsBracketedPaste payload then [BP_START, payload, BP_END] else [payload])"

lemma segments_concat: "concat (composerPayloadSegments payload) = frameForPaste payload"
  by (simp add: composerPayloadSegments_def frameForPaste_def)

lemma segments_nonempty: "composerPayloadSegments payload \<noteq> []"
  by (simp add: composerPayloadSegments_def)

subsection \<open>Leaving the remote pager\<close>

definition ARROW_DOWN_KEY :: utf16 where "ARROW_DOWN_KEY = 0x1b # units ''[B''"
definition PAGE_DOWN_KEY :: utf16 where "PAGE_DOWN_KEY = 0x1b # units ''[6~''"
definition SCROLL_EXIT_GAP_MS :: int where "SCROLL_EXIT_GAP_MS = PASTE_GAP_MS"
definition SCROLL_EXIT_ATTEMPTS :: nat where "SCROLL_EXIT_ATTEMPTS = 3"
definition SCROLL_EXIT_SWEEP_PAGES :: nat where "SCROLL_EXIT_SWEEP_PAGES = 64"
definition SCROLL_EXIT_SWEEP_LINES :: nat where "SCROLL_EXIT_SWEEP_LINES = 64"

record scroll_probe =
  paged :: bool
  offsetLines :: "jsnum option"
  rows :: int

definition repeat_key :: "nat \<Rightarrow> utf16 \<Rightarrow> utf16" where
  "repeat_key n key = concat (replicate n key)"

text \<open>\<open>Math.floor\<close> of a finite number at least zero; \<open>None\<close> for anything else.\<close>

definition finite_offset :: "jsnum option \<Rightarrow> nat option" where
  "finite_offset n =
     (case n of Some (IntN i) \<Rightarrow> if i < 0 then None else Some (nat i)
      | Some (FracN i) \<Rightarrow> if i < 0 then None else Some (nat i)
      | _ \<Rightarrow> None)"

definition scrollExitKeys :: "jsnum option \<Rightarrow> int \<Rightarrow> utf16" where
  "scrollExitKeys offset' rows' =
     (case finite_offset offset' of
        None \<Rightarrow> repeat_key SCROLL_EXIT_SWEEP_PAGES PAGE_DOWN_KEY
                 @ repeat_key SCROLL_EXIT_SWEEP_LINES ARROW_DOWN_KEY
      | Some n \<Rightarrow>
          if rows' < 2
          then repeat_key SCROLL_EXIT_SWEEP_PAGES PAGE_DOWN_KEY
                 @ repeat_key SCROLL_EXIT_SWEEP_LINES ARROW_DOWN_KEY
          else let page = max 1 (nat (rows' - 1)); pages = n div page; lines = n - pages * page
               in repeat_key pages PAGE_DOWN_KEY @ repeat_key (lines + 1) ARROW_DOWN_KEY)"

text \<open>
  The number of lines a sequence of exit keys walks down when one PageDown is \<open>page\<close> lines:
  each PageDown is the four units of its key, each Down the three of its own.
\<close>

fun walk :: "nat \<Rightarrow> utf16 \<Rightarrow> nat option" where
  "walk page (e # b # c # d # ks) =
     (if [e, b, c] = ARROW_DOWN_KEY then map_option ((+) 1) (walk page (d # ks))
      else if [e, b, c, d] = PAGE_DOWN_KEY then map_option ((+) page) (walk page ks)
      else None)"
| "walk page [] = Some 0"
| "walk page ks = (if ks = ARROW_DOWN_KEY then Some 1 else None)"

lemma key_units: "ARROW_DOWN_KEY = [0x1b, 0x5b, 0x42]" "PAGE_DOWN_KEY = [0x1b, 0x5b, 0x36, 0x7e]"
  by (simp_all add: ARROW_DOWN_KEY_def PAGE_DOWN_KEY_def units_def)

lemma walk_down: "walk page (ARROW_DOWN_KEY @ ks) = map_option ((+) 1) (walk page ks)"
  by (cases ks) (simp_all add: key_units)

lemma walk_page: "walk page (PAGE_DOWN_KEY @ ks) = map_option ((+) page) (walk page ks)"
  by (simp add: key_units)

lemma walk_repeat:
  "walk page (repeat_key n ARROW_DOWN_KEY @ ks) = map_option ((+) n) (walk page ks)"
  "walk page (repeat_key n PAGE_DOWN_KEY @ ks) = map_option ((+) (n * page)) (walk page ks)"
  by (cases "walk page ks"; induction n;
      simp add: repeat_key_def walk_down walk_page del: walk.simps)+

text \<open>
  The exit walk is exact. For a pager that reported a position n (possibly fractional: its
  floor) on a pane of at least two rows, the keys walk down exactly n + 1 lines: every page
  is a full page that stays above the bottom and the single Down past it is the last key.
\<close>

theorem scroll_exit_walk_exact:
  assumes "finite_offset off = Some n" and "2 \<le> rows'"
  shows "walk (nat (rows' - 1)) (scrollExitKeys off rows') = Some (n + 1)
    \<and> (n div nat (rows' - 1)) * nat (rows' - 1) \<le> n
    \<and> (\<exists>ks. scrollExitKeys off rows' = ks @ ARROW_DOWN_KEY)"
proof -
  let ?p = "nat (rows' - 1)"
  have p: "max 1 ?p = ?p" using assms(2) by simp
  have keys: "scrollExitKeys off rows' =
      repeat_key (n div ?p) PAGE_DOWN_KEY @ repeat_key (n - n div ?p * ?p + 1) ARROW_DOWN_KEY"
    using assms by (simp add: scrollExitKeys_def Let_def p)
  have "walk ?p (repeat_key k ARROW_DOWN_KEY) = Some k" for k
    using walk_repeat(1) [of ?p k "[]"] by simp
  then have "walk ?p (scrollExitKeys off rows') = Some (n + 1)"
    by (simp add: keys walk_repeat(2))
  moreover have "repeat_key (Suc k) ARROW_DOWN_KEY = repeat_key k ARROW_DOWN_KEY @ ARROW_DOWN_KEY" for k
    by (simp add: repeat_key_def replicate_append_same [symmetric] del: replicate.simps)
      (metis concat.simps concat_append append_Nil2 replicate_Suc replicate_append_same)
  ultimately show ?thesis by (auto simp: keys div_times_less_eq_dividend)
qed

theorem scroll_exit_walk_exact_witness:
  "walk 23 (scrollExitKeys (Some (FracN 50)) 24) = Some 51"
  using scroll_exit_walk_exact [of "Some (FracN 50)" 50 24] by (simp add: finite_offset_def)

subsection \<open>UTF-8\<close>

definition high_surrogate :: "16 word \<Rightarrow> bool" where
  "high_surrogate u = (0xd800 \<le> u \<and> u \<le> 0xdbff)"

definition low_surrogate :: "16 word \<Rightarrow> bool" where
  "low_surrogate u = (0xdc00 \<le> u \<and> u \<le> 0xdfff)"

text \<open>The bytes of one code point, as the encoder's final case split pushes them.\<close>

definition utf8_bytes :: "nat \<Rightarrow> octets" where
  "utf8_bytes cp =
     (if cp \<le> 0x7f then [of_nat cp]
      else if cp \<le> 0x7ff then [of_nat (0xc0 OR drop_bit 6 cp), of_nat (0x80 OR (cp AND 0x3f))]
      else if cp \<le> 0xffff then
        [of_nat (0xe0 OR drop_bit 12 cp), of_nat (0x80 OR (drop_bit 6 cp AND 0x3f)),
         of_nat (0x80 OR (cp AND 0x3f))]
      else
        [of_nat (0xf0 OR drop_bit 18 cp), of_nat (0x80 OR (drop_bit 12 cp AND 0x3f)),
         of_nat (0x80 OR (drop_bit 6 cp AND 0x3f)), of_nat (0x80 OR (cp AND 0x3f))])"

fun encodeComposerText :: "utf16 \<Rightarrow> octets" where
  "encodeComposerText [] = []"
| "encodeComposerText [first] =
     utf8_bytes (if high_surrogate first \<or> low_surrogate first then 0xfffd else unat first)"
| "encodeComposerText (first # second # rest) =
     (if high_surrogate first then
        (if low_surrogate second
         then utf8_bytes (0x10000 + push_bit 10 (unat first - 0xd800) + (unat second - 0xdc00))
                @ encodeComposerText rest
         else utf8_bytes 0xfffd @ encodeComposerText (second # rest))
      else if low_surrogate first then utf8_bytes 0xfffd @ encodeComposerText (second # rest)
      else utf8_bytes (unat first) @ encodeComposerText (second # rest))"

text \<open>
  The reference: the Unicode scalar values a JavaScript string stands for. A surrogate pair is
  the code point it encodes; an unpaired surrogate is U+FFFD.
\<close>

fun scalar_values :: "utf16 \<Rightarrow> nat list" where
  "scalar_values [] = []"
| "scalar_values (u # us) =
     (case us of
        v # vs \<Rightarrow>
          if high_surrogate u \<and> low_surrogate v
          then ((unat u - 0xd800) * 0x400 + (unat v - 0xdc00) + 0x10000) # scalar_values vs
          else (if high_surrogate u \<or> low_surrogate u then 0xfffd else unat u) # scalar_values us
      | [] \<Rightarrow> [if high_surrogate u \<or> low_surrogate u then 0xfffd else unat u])"

definition scalar_value :: "nat \<Rightarrow> bool" where
  "scalar_value cp = (cp < 0x110000 \<and> \<not> (0xd800 \<le> cp \<and> cp \<le> 0xdfff))"

text \<open>A strict UTF-8 decoder: shortest forms only, no surrogates, nothing above U+10FFFF.\<close>

definition continuation :: "8 word \<Rightarrow> bool" where
  "continuation b = (unat b div 64 = 2)"

definition checked :: "nat \<Rightarrow> nat \<Rightarrow> nat list option \<Rightarrow> nat list option" where
  "checked least cp rest = (if least \<le> cp \<and> scalar_value cp then map_option ((#) cp) rest else None)"

fun utf8_decode :: "octets \<Rightarrow> nat list option" where
  "utf8_decode [] = Some []"
| "utf8_decode (b0 # bs) =
     (let n = unat b0 in
      if n < 0x80 then map_option ((#) n) (utf8_decode bs)
      else if n div 32 = 6 then
        (case bs of
           b1 # cs \<Rightarrow> if continuation b1
             then checked 0x80 (n mod 32 * 64 + unat b1 mod 64) (utf8_decode cs) else None
         | _ \<Rightarrow> None)
      else if n div 16 = 14 then
        (case bs of
           b1 # b2 # cs \<Rightarrow> if continuation b1 \<and> continuation b2
             then checked 0x800 (n mod 16 * 4096 + unat b1 mod 64 * 64 + unat b2 mod 64) (utf8_decode cs)
             else None
         | _ \<Rightarrow> None)
      else if n div 8 = 30 then
        (case bs of
           b1 # b2 # b3 # cs \<Rightarrow> if continuation b1 \<and> continuation b2 \<and> continuation b3
             then checked 0x10000 (n mod 8 * 262144 + unat b1 mod 64 * 4096 + unat b2 mod 64 * 64
               + unat b3 mod 64) (utf8_decode cs)
             else None
         | _ \<Rightarrow> None)
      else None)"

lemma or_add:
  assumes "x < 2 ^ k"
  shows "push_bit k m OR x = push_bit k m + (x :: nat)"
proof -
  have x: "take_bit k x = x" using assms by (simp add: take_bit_nat_eq_self_iff)
  have "push_bit k m AND x = 0"
    by (rule bit_eqI)
      (metis bit_0_eq bit_and_iff bit_push_bit_iff bit_take_bit_iff bot_apply leD x bot_bool_def)
  then show ?thesis by (simp add: disjunctive_add_eq_or)
qed

lemma utf8_or:
  "x < 64 \<Longrightarrow> 0xc0 OR x = 0xc0 + (x :: nat)"
  "x < 64 \<Longrightarrow> 0x80 OR x = 0x80 + x"
  "x < 16 \<Longrightarrow> 0xe0 OR x = 0xe0 + x"
  "x < 8 \<Longrightarrow> 0xf0 OR x = 0xf0 + x"
  using or_add [of x 6 3] or_add [of x 6 2] or_add [of x 4 14] or_add [of x 3 30]
  by simp_all

lemma low6: "(x :: nat) AND 0x3f = x mod 64"
proof -
  have "x AND mask 6 = x mod 2 ^ 6" by (simp only: flip: take_bit_eq_mask take_bit_eq_mod)
  then show ?thesis by (simp add: mask_eq_exp_minus_1)
qed

lemma unat_byte: "n < 256 \<Longrightarrow> unat (of_nat n :: 8 word) = n"
  by (simp add: unat_of_nat)

lemma utf8_bytes_arith:
  assumes "cp < 0x110000"
  shows "utf8_bytes cp =
    (if cp \<le> 0x7f then [of_nat cp]
     else if cp \<le> 0x7ff then [of_nat (0xc0 + cp div 64), of_nat (0x80 + cp mod 64)]
     else if cp \<le> 0xffff then
       [of_nat (0xe0 + cp div 4096), of_nat (0x80 + cp div 64 mod 64), of_nat (0x80 + cp mod 64)]
     else [of_nat (0xf0 + cp div 262144), of_nat (0x80 + cp div 4096 mod 64),
           of_nat (0x80 + cp div 64 mod 64), of_nat (0x80 + cp mod 64)])"
proof -
  have "cp \<le> 0x7ff \<Longrightarrow> cp div 64 < 64" "cp \<le> 0xffff \<Longrightarrow> cp div 4096 < 16" "cp div 262144 < 8"
    using assms by (simp_all add: less_mult_imp_div_less)
  then show ?thesis
    unfolding utf8_bytes_def low6 by (simp add: drop_bit_eq_div utf8_or del: of_nat_add)
qed

lemma div_mod_block: "a < k \<Longrightarrow> (m * k + a) div k = m \<and> (m * k + a) mod k = (a :: nat)"
  by simp

lemma continuation_byte:
  assumes "b < 64"
  shows "continuation (of_nat (0x80 + b))" and "unat (of_nat (0x80 + b) :: 8 word) mod 64 = b"
proof -
  have "unat (of_nat (0x80 + b) :: 8 word) = 0x80 + b" using assms by (intro unat_byte) simp
  moreover have "(0x80 + b) div 64 = 2 \<and> (0x80 + b) mod 64 = b"
    using div_mod_block [OF assms, of 2] by simp
  ultimately show "continuation (of_nat (0x80 + b))" "unat (of_nat (0x80 + b) :: 8 word) mod 64 = b"
    by (simp_all only: continuation_def)
qed

lemma decode_sequence:
  "unat x < 0x80 \<Longrightarrow> utf8_decode (x # bs) = map_option ((#) (unat x)) (utf8_decode bs)"
  "unat x div 32 = 6 \<Longrightarrow> continuation y \<Longrightarrow>
   utf8_decode (x # y # bs) = checked 0x80 (unat x mod 32 * 64 + unat y mod 64) (utf8_decode bs)"
  "unat x div 16 = 14 \<Longrightarrow> continuation y \<Longrightarrow> continuation z \<Longrightarrow>
   utf8_decode (x # y # z # bs) =
     checked 0x800 (unat x mod 16 * 4096 + unat y mod 64 * 64 + unat z mod 64) (utf8_decode bs)"
  "unat x div 8 = 30 \<Longrightarrow> continuation y \<Longrightarrow> continuation z \<Longrightarrow> continuation w \<Longrightarrow>
   utf8_decode (x # y # z # w # bs) =
     checked 0x10000 (unat x mod 8 * 262144 + unat y mod 64 * 4096 + unat z mod 64 * 64
       + unat w mod 64) (utf8_decode bs)"
proof -
  have small: "n < 128 \<Longrightarrow> n div 32 < 4" for n :: nat by (simp add: less_mult_imp_div_less)
  have halves: "n div 32 = n div 16 div 2" "n div 16 = n div 8 div 2" for n :: nat
    by (simp_all add: div_mult2_eq [symmetric])
  have d: "n div 32 = 6 \<Longrightarrow> \<not> n < 128" "n div 16 = 14 \<Longrightarrow> \<not> n < 128 \<and> n div 32 = 7"
    "n div 8 = 30 \<Longrightarrow> \<not> n < 128 \<and> n div 32 = 7 \<and> n div 16 = 15" for n :: nat
    using small [of n] halves [of n] by auto
  show "unat x < 0x80 \<Longrightarrow> utf8_decode (x # bs) = map_option ((#) (unat x)) (utf8_decode bs)"
    by (simp add: Let_def)
  show "unat x div 32 = 6 \<Longrightarrow> continuation y \<Longrightarrow>
    utf8_decode (x # y # bs) = checked 0x80 (unat x mod 32 * 64 + unat y mod 64) (utf8_decode bs)"
    using d(1) [of "unat x"] by (simp add: Let_def)
  show "unat x div 16 = 14 \<Longrightarrow> continuation y \<Longrightarrow> continuation z \<Longrightarrow>
    utf8_decode (x # y # z # bs) =
     checked 0x800 (unat x mod 16 * 4096 + unat y mod 64 * 64 + unat z mod 64) (utf8_decode bs)"
    using d(2) [of "unat x"] by (simp add: Let_def)
  show "unat x div 8 = 30 \<Longrightarrow> continuation y \<Longrightarrow> continuation z \<Longrightarrow> continuation w \<Longrightarrow>
    utf8_decode (x # y # z # w # bs) =
     checked 0x10000 (unat x mod 8 * 262144 + unat y mod 64 * 4096 + unat z mod 64 * 64
       + unat w mod 64) (utf8_decode bs)"
    using d(3) [of "unat x"] by (simp add: Let_def)
qed

lemma lead_byte:
  "a < 32 \<Longrightarrow> unat (of_nat (0xc0 + a) :: 8 word) div 32 = 6 \<and> unat (of_nat (0xc0 + a) :: 8 word) mod 32 = a"
  "a < 16 \<Longrightarrow> unat (of_nat (0xe0 + a) :: 8 word) div 16 = 14 \<and> unat (of_nat (0xe0 + a) :: 8 word) mod 16 = a"
  "a < 8 \<Longrightarrow> unat (of_nat (0xf0 + a) :: 8 word) div 8 = 30 \<and> unat (of_nat (0xf0 + a) :: 8 word) mod 8 = a"
proof -
  have "a < 32 \<Longrightarrow> unat (of_nat (0xc0 + a) :: 8 word) = 0xc0 + a"
    "a < 16 \<Longrightarrow> unat (of_nat (0xe0 + a) :: 8 word) = 0xe0 + a"
    "a < 8 \<Longrightarrow> unat (of_nat (0xf0 + a) :: 8 word) = 0xf0 + a"
    by (simp_all only: unat_byte)
  moreover have "a < 32 \<Longrightarrow> (0xc0 + a) div 32 = 6 \<and> (0xc0 + a) mod 32 = a"
    "a < 16 \<Longrightarrow> (0xe0 + a) div 16 = 14 \<and> (0xe0 + a) mod 16 = a"
    "a < 8 \<Longrightarrow> (0xf0 + a) div 8 = 30 \<and> (0xf0 + a) mod 8 = a"
    using div_mod_block [of a 32 6] div_mod_block [of a 16 14] div_mod_block [of a 8 30] by simp_all
  ultimately show
    "a < 32 \<Longrightarrow> unat (of_nat (0xc0 + a) :: 8 word) div 32 = 6 \<and> unat (of_nat (0xc0 + a) :: 8 word) mod 32 = a"
    "a < 16 \<Longrightarrow> unat (of_nat (0xe0 + a) :: 8 word) div 16 = 14 \<and> unat (of_nat (0xe0 + a) :: 8 word) mod 16 = a"
    "a < 8 \<Longrightarrow> unat (of_nat (0xf0 + a) :: 8 word) div 8 = 30 \<and> unat (of_nat (0xf0 + a) :: 8 word) mod 8 = a"
    by (simp_all only:)
qed

lemma decode_lead2:
  assumes "a < 32" and "b < 64"
  shows "utf8_decode (of_nat (0xc0 + a) # of_nat (0x80 + b) # bs) =
    checked 0x80 (a * 64 + b) (utf8_decode bs)"
  by (simp only: decode_sequence(2) lead_byte(1) [OF assms(1)] continuation_byte [OF assms(2)])

lemma decode_lead3:
  assumes "a < 16" and "b < 64" and "c < 64"
  shows "utf8_decode (of_nat (0xe0 + a) # of_nat (0x80 + b) # of_nat (0x80 + c) # bs) =
    checked 0x800 (a * 4096 + b * 64 + c) (utf8_decode bs)"
  by (simp only: decode_sequence(3) lead_byte(2) [OF assms(1)] continuation_byte [OF assms(2)]
      continuation_byte [OF assms(3)])

lemma decode_lead4:
  assumes "a < 8" and "b < 64" and "c < 64" and "d < 64"
  shows "utf8_decode (of_nat (0xf0 + a) # of_nat (0x80 + b) # of_nat (0x80 + c) # of_nat (0x80 + d) # bs)
    = checked 0x10000 (a * 262144 + b * 4096 + c * 64 + d) (utf8_decode bs)"
  by (simp only: decode_sequence(4) lead_byte(3) [OF assms(1)] continuation_byte [OF assms(2)]
      continuation_byte [OF assms(3)] continuation_byte [OF assms(4)])

lemma div4096: "n div 4096 = n div 64 div (64 :: nat)"
  and div262144: "n div 262144 = n div 4096 div (64 :: nat)"
  by (simp_all add: div_mult2_eq [symmetric])

lemma utf8_decode_bytes:
  assumes "scalar_value cp"
  shows "utf8_decode (utf8_bytes cp @ bs) = map_option ((#) cp) (utf8_decode bs)"
proof -
  have cp: "cp < 0x110000" using assms by (simp add: scalar_value_def)
  have m: "x mod 64 < 64" for x :: nat by simp
  consider "cp \<le> 0x7f" | "0x7f < cp" "cp \<le> 0x7ff" | "0x7ff < cp" "cp \<le> 0xffff" | "0xffff < cp"
    by linarith
  then show ?thesis
  proof cases
    case 1
    then have u: "unat (of_nat cp :: 8 word) = cp" by (intro unat_byte) simp
    moreover have "utf8_bytes cp = [of_nat cp]"
      using 1 by (simp only: utf8_bytes_arith [OF cp]) simp
    ultimately show ?thesis
      using 1 decode_sequence(1) [of "of_nat cp" bs] by (simp only: append_Cons append_Nil)
  next
    case 2
    then have a: "cp div 64 < 32" by (simp add: less_mult_imp_div_less)
    have "utf8_bytes cp = [of_nat (0xc0 + cp div 64), of_nat (0x80 + cp mod 64)]"
      using 2 by (simp only: utf8_bytes_arith [OF cp]) simp
    then show ?thesis using 2 assms
      by (simp only: append_Cons append_Nil decode_lead2 [OF a m] div_mult_mod_eq)
        (simp add: checked_def)
  next
    case 3
    then have a: "cp div 4096 < 16" by (simp add: less_mult_imp_div_less)
    have e: "cp div 4096 * 4096 + cp div 64 mod 64 * 64 + cp mod 64 = cp"
      using div4096 [of cp] div_mult_mod_eq [of cp 64] div_mult_mod_eq [of "cp div 64" 64]
      by linarith
    have "utf8_bytes cp = [of_nat (0xe0 + cp div 4096), of_nat (0x80 + cp div 64 mod 64), of_nat (0x80 + cp mod 64)]"
      using 3 by (simp only: utf8_bytes_arith [OF cp]) simp
    then show ?thesis using 3 assms
      by (simp only: append_Cons append_Nil decode_lead3 [OF a m m] e) (simp add: checked_def)
  next
    case 4
    have a: "cp div 262144 < 8" using cp by (simp add: less_mult_imp_div_less)
    have e: "cp div 262144 * 262144 + cp div 4096 mod 64 * 4096 + cp div 64 mod 64 * 64
        + cp mod 64 = cp"
      using div4096 [of cp] div262144 [of cp] div_mult_mod_eq [of cp 64]
        div_mult_mod_eq [of "cp div 64" 64] div_mult_mod_eq [of "cp div 4096" 64]
      by linarith
    have "utf8_bytes cp = [of_nat (0xf0 + cp div 262144), of_nat (0x80 + cp div 4096 mod 64),
        of_nat (0x80 + cp div 64 mod 64), of_nat (0x80 + cp mod 64)]"
      using 4 by (simp only: utf8_bytes_arith [OF cp]) simp
    then show ?thesis using 4 assms
      by (simp only: append_Cons append_Nil decode_lead4 [OF a m m m] e) (simp add: checked_def)
  qed
qed

lemma surrogate_pair:
  assumes "high_surrogate u" and "low_surrogate v"
  shows "scalar_value ((unat u - 0xd800) * 0x400 + (unat v - 0xdc00) + 0x10000)"
proof -
  have u: "0xd800 \<le> unat u" "unat u \<le> 0xdbff" and v: "0xdc00 \<le> unat v" "unat v \<le> 0xdfff"
    using assms by (simp_all add: high_surrogate_def low_surrogate_def word_le_nat_alt)
  have "unat u - 0xd800 \<le> 0x3ff" using u by linarith
  moreover have "unat v - 0xdc00 \<le> 0x3ff" using v by linarith
  ultimately show ?thesis unfolding scalar_value_def by linarith
qed

lemma unit_scalar:
  "scalar_value (if high_surrogate u \<or> low_surrogate u then 0xfffd else unat (u :: 16 word))"
proof -
  have "unat u < 2 ^ 16" using unsigned_less [of u] by simp
  moreover have "\<not> high_surrogate u \<Longrightarrow> \<not> low_surrogate u \<Longrightarrow> \<not> (0xd800 \<le> unat u \<and> unat u \<le> 0xdfff)"
    by (auto simp: high_surrogate_def low_surrogate_def word_le_nat_alt)
  ultimately show ?thesis by (auto simp: scalar_value_def)
qed

lemma not_both: "high_surrogate u \<Longrightarrow> \<not> low_surrogate u"
  by (auto simp: high_surrogate_def low_surrogate_def word_le_nat_alt)

lemma encode_scalar_values: "encodeComposerText t = concat (map utf8_bytes (scalar_values t))"
  by (induction t rule: encodeComposerText.induct)
    (auto simp: push_bit_eq_mult ac_simps dest: not_both)

lemma scalar_values_ok: "\<forall>cp\<in>set (scalar_values t). scalar_value cp"
proof (induction t rule: scalar_values.induct)
  case (2 u us)
  show ?case
  proof (cases us)
    case Nil
    then show ?thesis using unit_scalar [of u] by simp
  next
    case (Cons v vs)
    then show ?thesis using 2 unit_scalar [of u] surrogate_pair [of u v] by auto
  qed
qed simp

text \<open>
  The hand-written encoder is UTF-8. For every JavaScript string, its output decodes, by
  a strict decoder, to exactly the string's Unicode scalar values, with each unpaired
  surrogate replaced by U+FFFD as \<open>TextEncoder\<close> does.
\<close>

theorem encodeComposerText_is_utf8:
  "utf8_decode (encodeComposerText t) = Some (scalar_values t)"
proof -
  have "\<forall>cp\<in>set cps. scalar_value cp \<Longrightarrow> utf8_decode (concat (map utf8_bytes cps)) = Some cps" for cps
    by (induction cps) (simp_all add: utf8_decode_bytes del: utf8_decode.simps(2))
  then show ?thesis unfolding encode_scalar_values using scalar_values_ok by blast
qed

subsection \<open>Routing\<close>

datatype agent_kind = Claude | Codex | Opencode | Grok | Antigravity
datatype session_kind = Agent agent_kind | ShellKind | Probing | Exited | UnknownKind
datatype send_route = AgentPayload | Raw

definition composerAgentKind :: "session_kind option \<Rightarrow> agent_kind option" where
  "composerAgentKind kind = (case kind of Some (Agent a) \<Rightarrow> Some a | _ \<Rightarrow> None)"

record route_input =
  liveAgent :: "agent_kind option"
  presumedAgent :: "agent_kind option"
  withEnter :: bool

definition sendRoute :: "route_input \<Rightarrow> send_route" where
  "sendRoute i =
     (if withEnter i \<and> liveAgent i = Some Codex then AgentPayload
      else if liveAgent i \<noteq> None then Raw
      else if presumedAgent i \<noteq> None then AgentPayload
      else Raw)"

subsection \<open>The boolean delivery\<close>

text \<open>
  \<open>deliverPayload\<close> runs against an environment: whether the n-th write (from 0) is
  acknowledged, and, where the pane can be asked, what the n-th probe answers. The result is
  the trace of writes and sleeps and the promise's value.
\<close>

datatype pty_act = Wrote utf16 | Slept int

record delivery_env =
  write_ok :: "nat \<Rightarrow> bool"
  probe_at :: "(nat \<Rightarrow> scroll_probe) option"

text \<open>The pager walk: trace, number of writes made, and false when a write failed.\<close>

fun exit_pager :: "delivery_env \<Rightarrow> nat \<Rightarrow> nat \<Rightarrow> pty_act list \<times> bool" where
  "exit_pager env 0 attempt = ([], True)"
| "exit_pager env (Suc left) attempt =
     (case probe_at env of
        None \<Rightarrow> ([], True)
      | Some ask \<Rightarrow>
          let p = ask attempt in
          if \<not> paged p then ([], True)
          else if \<not> write_ok env attempt then ([Wrote (scrollExitKeys (offsetLines p) (rows p))], False)
          else (case exit_pager env left (Suc attempt) of (acts, ok) \<Rightarrow>
            (Wrote (scrollExitKeys (offsetLines p) (rows p)) # Slept SCROLL_EXIT_GAP_MS # acts, ok)))"

fun write_parts :: "delivery_env \<Rightarrow> nat \<Rightarrow> utf16 list \<Rightarrow> pty_act list \<times> bool" where
  "write_parts env n [] = ([], True)"
| "write_parts env n (part # parts) =
     (if \<not> write_ok env n then ([Wrote part], False)
      else (case write_parts env (Suc n) parts of (acts, ok) \<Rightarrow>
        (Wrote part # (if parts \<noteq> [] \<and> 0 < PASTE_GAP_MS then [Slept PASTE_GAP_MS] else []) @ acts, ok)))"

fun writes :: "pty_act list \<Rightarrow> utf16 list" where
  "writes [] = []"
| "writes (Wrote t # as) = t # writes as"
| "writes (Slept d # as) = writes as"

lemma writes_append [simp]: "writes (as @ bs) = writes as @ writes bs"
  by (induction as rule: writes.induct) auto

definition deliverPayload :: "delivery_env \<Rightarrow> utf16 \<Rightarrow> int option \<Rightarrow> pty_act list \<times> bool" where
  "deliverPayload env payload submitDelayMs =
     (let delay = (case submitDelayMs of None \<Rightarrow> submitDelayMs_default | Some d \<Rightarrow> d) in
      case exit_pager env SCROLL_EXIT_ATTEMPTS 0 of (acts, ok) \<Rightarrow>
      if \<not> ok then (acts, False)
      else case write_parts env (length (writes acts)) (composerPayloadSegments payload) of (body, ok') \<Rightarrow>
      if \<not> ok' then (acts @ body, False)
      else (acts @ body @ (if 0 < delay then [Slept delay] else []) @ [Wrote SUBMIT_KEY],
            write_ok env (length (writes (acts @ body)))))"

lemma write_parts_ok:
  "write_parts env n parts = (acts, ok) \<Longrightarrow>
   (ok \<longrightarrow> writes acts = parts \<and> (\<forall>i<length parts. write_ok env (n + i)))
   \<and> (\<not> ok \<longrightarrow> (\<exists>k<length parts. writes acts = take (Suc k) parts \<and> \<not> write_ok env (n + k)))"
proof (induction parts arbitrary: n acts ok)
  case (Cons p ps)
  show ?case
  proof (cases "write_ok env n")
    case True
    obtain as b where r: "write_parts env (Suc n) ps = (as, b)" by fastforce
    have ih: "(b \<longrightarrow> writes as = ps \<and> (\<forall>i<length ps. write_ok env (Suc n + i)))
        \<and> (\<not> b \<longrightarrow> (\<exists>k<length ps. writes as = take (Suc k) ps \<and> \<not> write_ok env (Suc n + k)))"
      using Cons.IH [OF r] .
    have e: "ok = b" "writes acts = p # writes as"
      using Cons.prems True r by (auto split: if_splits)
    show ?thesis
    proof (cases b)
      case True
      then have "write_ok env (n + i)" if "i < length (p # ps)" for i
        using ih that \<open>write_ok env n\<close> by (cases i) auto
      with True ih e show ?thesis by auto
    next
      case False
      then obtain k where "k < length ps" "writes as = take (Suc k) ps" "\<not> write_ok env (Suc n + k)"
        using ih by auto
      with e False show ?thesis by (auto intro!: exI [of _ "Suc k"])
    qed
  next
    case False
    with Cons.prems show ?thesis by (auto intro!: exI [of _ 0])
  qed
qed simp

text \<open>
  Enter is never pressed over a body that did not land. Whatever the environment, the
  bytes the boolean delivery writes are some pager-exit walks, then a prefix of the framed
  body; the submit key follows only when every body write was acknowledged, and the call
  answers true exactly when all of that and the submit write were.
\<close>

theorem deliverPayload_enter_only_after_body:
  assumes "deliverPayload env payload delay = (acts, ok)"
  shows "\<exists>exits body tail. writes acts = exits @ body @ tail
    \<and> length exits \<le> SCROLL_EXIT_ATTEMPTS
    \<and> body = take (length body) (composerPayloadSegments payload)
    \<and> (tail = [] \<or> tail = [SUBMIT_KEY] \<and> concat body = frameForPaste payload
        \<and> (\<forall>i<length body. write_ok env (length exits + i)))
    \<and> (ok \<longrightarrow> tail = [SUBMIT_KEY] \<and> write_ok env (length exits + length body))"
proof -
  obtain pg pok where pg: "exit_pager env SCROLL_EXIT_ATTEMPTS 0 = (pg, pok)" by fastforce
  have len: "exit_pager env k n = (as, b) \<Longrightarrow> length (writes as) \<le> k" for k n as b
  proof (induction k arbitrary: n as b)
    case (Suc k)
    then show ?case by (fastforce simp: Let_def split: option.splits if_splits prod.splits)
  qed simp
  obtain bd bok where bd: "write_parts env (length (writes pg)) (composerPayloadSegments payload) = (bd, bok)"
    by fastforce
  note w = write_parts_ok [OF bd]
  show ?thesis
  proof (cases "pok \<and> bok")
    case False
    have "writes acts = writes pg @ (if pok then writes bd else []) \<and> \<not> ok"
      using assms False pg bd by (auto simp: deliverPayload_def Let_def split: if_splits)
    moreover have "\<exists>m. (if pok then writes bd else []) = take m (composerPayloadSegments payload)"
      using False w by (metis take0)
    ultimately show ?thesis using len [OF pg]
      by (intro exI [of _ "writes pg"] exI [of _ "if pok then writes bd else []"] exI [of _ "[]"])
        (auto simp: min_def)
  next
    case True
    then have "writes acts = writes pg @ composerPayloadSegments payload @ [SUBMIT_KEY]"
      and "ok = write_ok env (length (writes pg) + length (composerPayloadSegments payload))"
      using assms pg bd w by (auto simp: deliverPayload_def Let_def split: if_splits)
    then show ?thesis using True w len [OF pg]
      by (intro exI [of _ "writes pg"] exI [of _ "composerPayloadSegments payload"]
          exI [of _ "[SUBMIT_KEY]"]) (auto simp: segments_concat)
  qed
qed

theorem deliverPayload_enter_only_after_body_witness:
  "fst (deliverPayload \<lparr>write_ok = (\<lambda>n. n \<noteq> 1), probe_at = None\<rparr> (units ''a'' @ [10]) None)
   = [Wrote BP_START, Slept 120, Wrote (units ''a'' @ [10])]"
proof -
  let ?e = "\<lparr>write_ok = (\<lambda>n. n \<noteq> 1), probe_at = None\<rparr>"
  obtain acts ok where r: "deliverPayload ?e (units ''a'' @ [10]) None = (acts, ok)" by fastforce
  have "\<exists>exits body tail. writes acts = exits @ body @ tail \<and> length exits \<le> SCROLL_EXIT_ATTEMPTS"
    using deliverPayload_enter_only_after_body [OF r] by blast
  then show ?thesis
    by (simp add: deliverPayload_def SCROLL_EXIT_ATTEMPTS_def numeral_3_eq_3
        composerPayloadSegments_def needsBracketedPaste_def PASTE_GAP_MS_def units_def Let_def)
qed

end
