(* ===== verification/Composer_Delivery.thy ===== *)
theory Composer_Delivery
  imports Composer_Text
begin

text \<open>
  The serial composer delivery controller of one PTY (\<open>ComposerDeliveryController\<close> in
  src/src/composerSend.ts) as a machine. A step is what runs between two suspension points of
  the code: a call of \<open>setTransportState\<close> or \<open>deliver\<close>, the queue starting its next
  operation, or the awaited effect (a write or a sleep) settling. Everything else can happen
  in between, so an event list is an arbitrary interleaving of user actions, transport
  changes and effect outcomes.
\<close>

subsection \<open>Requests, results and state\<close>

datatype intent = Insert | Submit

record delivery_request =
  operationId :: string
  payload :: utf16
  intent :: intent

datatype transport_state = Connected | Lost | Closed
datatype stage = WriteStage | PacingStage

datatype not_sent_reason =
    InvalidOperationId | EmptyPayload | Disconnected | TransportChanged | OperationIdReused

datatype uncertain_reason = TransportLost | EffectFailed
datatype draft_effect = Clear | Retain

text \<open>The three result shapes; \<open>bytesAttempted\<close> and \<open>writeCount\<close> come last.\<close>

datatype delivery_result =
    Delivered string intent nat nat
  | NotSent string intent not_sent_reason
  | Uncertain string intent uncertain_reason stage string nat nat

fun draftEffect :: "delivery_result \<Rightarrow> draft_effect" where
  "draftEffect (Delivered _ _ _ _) = Clear"
| "draftEffect (NotSent _ _ _) = Retain"
| "draftEffect (Uncertain _ _ _ _ _ _ _) = Retain"

datatype action = Write utf16 | Sleep int

record running =
  r_request :: delivery_request
  r_generation :: nat
  r_todo :: "action list"   \<comment> \<open>the effect being awaited, then what follows it\<close>
  r_writeCount :: nat
  r_bytesAttempted :: nat
  r_stage :: stage

text \<open>One acknowledged-or-not write call: operation, one-based index, bytes, and the transport
  generation it went out on.\<close>

record write_entry =
  w_operationId :: string
  w_index :: nat
  w_bytes :: octets
  w_generation :: nat

record delivery =
  transportState :: transport_state
  generation :: nat
  queue :: "(delivery_request \<times> nat) list"
  operationIds :: "string list"
  current :: "running option"
  sent :: "write_entry list"
  results :: "(delivery_request \<times> nat \<times> delivery_result) list"
  submitDelayMs :: int
  pasteGapMs :: int

text \<open>
  \<open>sent\<close> is the history of calls of the \<open>write\<close> effect and \<open>results\<close> the promises
  settled so far, each with its request and captured generation.
\<close>

definition new_delivery :: "int option \<Rightarrow> int option \<Rightarrow> delivery" where
  "new_delivery submit gap =
     \<lparr>transportState = Closed, generation = 0, queue = [], operationIds = [], current = None,
      sent = [], results = [],
      submitDelayMs = case_option submitDelayMs_default id submit,
      pasteGapMs = case_option PASTE_GAP_MS id gap\<rparr>"

subsection \<open>Operations\<close>

definition setTransportState :: "transport_state \<Rightarrow> delivery \<Rightarrow> delivery" where
  "setTransportState st d =
     (if transportState d = st then d
      else d\<lparr>transportState := st, generation := generation d + 1\<rparr>)"

definition not_sent :: "delivery_request \<Rightarrow> nat \<Rightarrow> not_sent_reason \<Rightarrow> delivery \<Rightarrow> delivery" where
  "not_sent rq gen reason d =
     d\<lparr>results := results d @ [(rq, gen, NotSent (operationId rq) (intent rq) reason)]\<rparr>"

definition deliver :: "delivery_request \<Rightarrow> delivery \<Rightarrow> delivery" where
  "deliver rq d =
     (if operationId rq = [] then not_sent rq (generation d) InvalidOperationId d
      else if operationId rq \<in> set (operationIds d)
      then not_sent rq (generation d) OperationIdReused d
      else d\<lparr>operationIds := operationIds d @ [operationId rq],
             queue := queue d @ [(rq, generation d)]\<rparr>)"

text \<open>
  The effects of one operation in order: the payload segments with the paste gap between
  them, then, for a submit, the submit delay and the key. A pause of zero or less is skipped.
\<close>

definition pause :: "int \<Rightarrow> action list" where
  "pause ms = (if ms \<le> 0 then [] else [Sleep ms])"

fun part_actions :: "int \<Rightarrow> utf16 list \<Rightarrow> action list" where
  "part_actions gap [] = []"
| "part_actions gap [part] = [Write part]"
| "part_actions gap (part # next # parts) =
     Write part # pause gap @ part_actions gap (next # parts)"

definition script :: "int \<Rightarrow> int \<Rightarrow> delivery_request \<Rightarrow> action list" where
  "script gap delay rq =
     part_actions gap (composerPayloadSegments (payload rq))
       @ (if intent rq = Submit then pause delay @ [Write SUBMIT_KEY] else [])"

definition isCurrent :: "delivery \<Rightarrow> nat \<Rightarrow> bool" where
  "isCurrent d gen = (transportState d = Connected \<and> generation d = gen)"

definition stale_message :: string where
  "stale_message = ''Composer transport generation changed.''"

definition finish :: "running \<Rightarrow> delivery_result \<Rightarrow> delivery \<Rightarrow> delivery" where
  "finish r res d =
     d\<lparr>current := None, results := results d @ [(r_request r, r_generation r, res)]\<rparr>"

text \<open>The \<open>catch\<close> of \<open>deliverOne\<close>.\<close>

definition fail_operation :: "running \<Rightarrow> string \<Rightarrow> delivery \<Rightarrow> delivery" where
  "fail_operation r err d =
     (let rq = r_request r in
      if r_writeCount r = 0
      then finish r (NotSent (operationId rq) (intent rq)
             (if transportState d = Connected then TransportChanged else Disconnected)) d
      else finish r (Uncertain (operationId rq) (intent rq)
             (if isCurrent d (r_generation r) then EffectFailed else TransportLost)
             (r_stage r) err (r_bytesAttempted r) (r_writeCount r)) d)"

text \<open>
  Run up to the next suspension point: every effect is preceded by the staleness check; a
  write is counted and its bytes recorded before the call.
\<close>

definition advance :: "running \<Rightarrow> delivery \<Rightarrow> delivery" where
  "advance r d =
     (case r_todo r of
        [] \<Rightarrow> finish r (Delivered (operationId (r_request r)) (intent (r_request r))
                (r_bytesAttempted r) (r_writeCount r)) d
      | a # _ \<Rightarrow>
          if \<not> isCurrent d (r_generation r) then fail_operation r stale_message d
          else (case a of
            Write text \<Rightarrow>
              let bytes = encodeComposerText text; n = r_writeCount r + 1 in
              d\<lparr>current := Some (r\<lparr>r_writeCount := n,
                    r_bytesAttempted := r_bytesAttempted r + length bytes, r_stage := WriteStage\<rparr>),
                sent := sent d @ [\<lparr>w_operationId = operationId (r_request r), w_index = n,
                    w_bytes = bytes, w_generation = generation d\<rparr>]\<rparr>
          | Sleep ms \<Rightarrow> d\<lparr>current := Some (r\<lparr>r_stage := PacingStage\<rparr>)\<rparr>))"

text \<open>\<open>deliverOne\<close>, when the queue reaches the operation.\<close>

definition start_next :: "delivery \<Rightarrow> delivery" where
  "start_next d =
     (case (current d, queue d) of
        (None, (rq, gen) # rest) \<Rightarrow>
          let d' = d\<lparr>queue := rest\<rparr> in
          if payload rq = [] then not_sent rq gen EmptyPayload d'
          else if transportState d \<noteq> Connected then not_sent rq gen Disconnected d'
          else if generation d \<noteq> gen then not_sent rq gen TransportChanged d'
          else advance \<lparr>r_request = rq, r_generation = gen,
                 r_todo = script (pasteGapMs d) (submitDelayMs d) rq,
                 r_writeCount = 0, r_bytesAttempted = 0, r_stage = WriteStage\<rparr> d'
      | _ \<Rightarrow> d)"

definition effect_resolved :: "delivery \<Rightarrow> delivery" where
  "effect_resolved d =
     (case current d of
        None \<Rightarrow> d
      | Some r \<Rightarrow>
          if \<not> isCurrent d (r_generation r) then fail_operation r stale_message d
          else advance (r\<lparr>r_todo := tl (r_todo r)\<rparr>) d)"

definition effect_rejected :: "string \<Rightarrow> delivery \<Rightarrow> delivery" where
  "effect_rejected err d =
     (case current d of None \<Rightarrow> d | Some r \<Rightarrow> fail_operation r err d)"

datatype delivery_event =
    SetTransport transport_state
  | DeliverCall delivery_request
  | StartNext
  | EffectResolved
  | EffectRejected string

fun delivery_step :: "delivery \<Rightarrow> delivery_event \<Rightarrow> delivery" where
  "delivery_step d (SetTransport st) = setTransportState st d"
| "delivery_step d (DeliverCall rq) = deliver rq d"
| "delivery_step d StartNext = start_next d"
| "delivery_step d EffectResolved = effect_resolved d"
| "delivery_step d (EffectRejected err) = effect_rejected err d"

subsection \<open>What an operation means to send\<close>

definition script_writes :: "delivery_request \<Rightarrow> utf16 list" where
  "script_writes rq =
     composerPayloadSegments (payload rq) @ (if intent rq = Submit then [SUBMIT_KEY] else [])"

fun writes_of :: "action list \<Rightarrow> utf16 list" where
  "writes_of [] = []"
| "writes_of (Write t # as) = t # writes_of as"
| "writes_of (Sleep ms # as) = writes_of as"

fun entries :: "string \<Rightarrow> nat \<Rightarrow> nat \<Rightarrow> utf16 list \<Rightarrow> write_entry list" where
  "entries i g n [] = []"
| "entries i g n (t # ts) =
     \<lparr>w_operationId = i, w_index = Suc n, w_bytes = encodeComposerText t, w_generation = g\<rparr>
       # entries i g (Suc n) ts"

definition all_entries :: "delivery_request \<Rightarrow> nat \<Rightarrow> write_entry list" where
  "all_entries rq g = entries (operationId rq) g 0 (script_writes rq)"

definition byte_count :: "write_entry list \<Rightarrow> nat" where
  "byte_count ws = sum_list (map (length \<circ> w_bytes) ws)"

text \<open>The writes a settled operation made, and those of the running one.\<close>

fun done_entries :: "delivery_request \<times> nat \<times> delivery_result \<Rightarrow> write_entry list" where
  "done_entries (rq, g, Delivered i it b n) = all_entries rq g"
| "done_entries (rq, g, NotSent i it why) = []"
| "done_entries (rq, g, Uncertain i it why st err b n) = take n (all_entries rq g)"

definition running_entries :: "running option \<Rightarrow> write_entry list" where
  "running_entries c =
     (case c of None \<Rightarrow> []
      | Some r \<Rightarrow> take (r_writeCount r) (all_entries (r_request r) (r_generation r)))"

text \<open>A result reports its own request, and counts what was really written.\<close>

fun result_ok :: "delivery_request \<times> nat \<times> delivery_result \<Rightarrow> bool" where
  "result_ok (rq, g, Delivered i it b n) =
     (i = operationId rq \<and> it = intent rq \<and> n = length (script_writes rq)
      \<and> b = byte_count (all_entries rq g))"
| "result_ok (rq, g, NotSent i it why) = (i = operationId rq \<and> it = intent rq)"
| "result_ok (rq, g, Uncertain i it why st err b n) =
     (i = operationId rq \<and> it = intent rq \<and> 0 < n \<and> n \<le> length (script_writes rq)
      \<and> b = byte_count (take n (all_entries rq g)))"

definition refused :: "delivery_result \<Rightarrow> bool" where
  "refused res = (case res of NotSent _ _ why \<Rightarrow> why = InvalidOperationId \<or> why = OperationIdReused
                  | _ \<Rightarrow> False)"

definition accepted_ids :: "delivery \<Rightarrow> string list" where
  "accepted_ids d =
     map (operationId \<circ> fst) (filter (\<lambda>(_, _, res). \<not> refused res) (results d))
       @ (case current d of None \<Rightarrow> [] | Some r \<Rightarrow> [operationId (r_request r)])
       @ map (operationId \<circ> fst) (queue d)"

definition running_ok :: "running \<Rightarrow> bool" where
  "running_ok r \<longleftrightarrow>
     r_todo r \<noteq> [] \<and> 0 < r_writeCount r \<and> r_writeCount r \<le> length (script_writes (r_request r))
     \<and> writes_of (tl (r_todo r)) = drop (r_writeCount r) (script_writes (r_request r))
     \<and> r_bytesAttempted r = byte_count (running_entries (Some r))"

definition delivery_inv :: "delivery \<Rightarrow> bool" where
  "delivery_inv d \<longleftrightarrow>
     sent d = concat (map done_entries (results d)) @ running_entries (current d)
     \<and> list_all result_ok (results d)
     \<and> accepted_ids d = operationIds d
     \<and> distinct (operationIds d) \<and> [] \<notin> set (operationIds d)
     \<and> pred_option running_ok (current d)"

subsection \<open>Helper lemmas\<close>

lemma writes_of_append [simp]: "writes_of (as @ bs) = writes_of as @ writes_of bs"
  by (induction as rule: writes_of.induct) auto

lemma writes_of_pause [simp]: "writes_of (pause ms) = []"
  by (simp add: pause_def)

lemma writes_of_parts [simp]: "writes_of (part_actions gap parts) = parts"
  by (induction gap parts rule: part_actions.induct) auto

lemma writes_of_script: "writes_of (script gap delay rq) = script_writes rq"
  by (simp add: script_def script_writes_def)

lemma script_starts_with_write: "\<exists>t as. script gap delay rq = Write t # as"
  by (cases "composerPayloadSegments (payload rq)" rule: list.exhaust [case_product list.exhaust])
    (auto simp: script_def composerPayloadSegments_def split: if_splits)

lemma length_entries [simp]: "length (entries i g n ts) = length ts"
  by (induction ts arbitrary: n) auto

lemma length_all_entries [simp]: "length (all_entries rq g) = length (script_writes rq)"
  by (simp add: all_entries_def)

lemma entries_nth:
  "k < length ts \<Longrightarrow> entries i g n ts ! k =
   \<lparr>w_operationId = i, w_index = Suc (n + k), w_bytes = encodeComposerText (ts ! k), w_generation = g\<rparr>"
proof (induction ts arbitrary: n k)
  case (Cons t ts)
  then show ?case by (cases k) auto
qed simp

lemma entries_fields: "w \<in> set (entries i g n ts) \<Longrightarrow> w_operationId w = i \<and> w_generation w = g"
  by (induction ts arbitrary: n) auto

lemma byte_count_append [simp]: "byte_count (ws @ vs) = byte_count ws + byte_count vs"
  by (simp add: byte_count_def)

text \<open>Issuing the next write extends the block of writes made by one.\<close>

lemma take_all_entries_Suc:
  assumes "drop n (script_writes rq) = t # ts"
  shows "take (Suc n) (all_entries rq g) = take n (all_entries rq g)
      @ [\<lparr>w_operationId = operationId rq, w_index = Suc n, w_bytes = encodeComposerText t, w_generation = g\<rparr>]"
    and "Suc n \<le> length (script_writes rq)"
    and "drop (Suc n) (script_writes rq) = ts"
proof -
  have n: "n < length (script_writes rq)" using assms by (metis drop_all list.distinct(1) not_le)
  then have "script_writes rq ! n = t" using assms by (metis Cons_nth_drop_Suc list.inject)
  with n show "take (Suc n) (all_entries rq g) = take n (all_entries rq g)
      @ [\<lparr>w_operationId = operationId rq, w_index = Suc n, w_bytes = encodeComposerText t, w_generation = g\<rparr>]"
    by (simp add: all_entries_def take_Suc_conv_app_nth entries_nth)
  show "Suc n \<le> length (script_writes rq)" using n by simp
  show "drop (Suc n) (script_writes rq) = ts" using assms n by (metis Cons_nth_drop_Suc list.inject)
qed

subsection \<open>Every step keeps the invariant\<close>

text \<open>
  The state while operation \<open>r\<close> runs, between two of its effects: everything but the
  bookkeeping of the effect about to be issued.
\<close>

definition midway :: "running \<Rightarrow> delivery \<Rightarrow> bool" where
  "midway r d \<longleftrightarrow>
     sent d = concat (map done_entries (results d)) @ running_entries (Some r)
     \<and> list_all result_ok (results d)
     \<and> accepted_ids (d\<lparr>current := Some r\<rparr>) = operationIds d
     \<and> distinct (operationIds d) \<and> [] \<notin> set (operationIds d)
     \<and> r_writeCount r \<le> length (script_writes (r_request r))
     \<and> r_bytesAttempted r = byte_count (running_entries (Some r))"

lemma midwayI: "delivery_inv d \<Longrightarrow> current d = Some r \<Longrightarrow> midway r d \<and> running_ok r"
  by (cases d) (simp add: delivery_inv_def midway_def running_ok_def)

lemma finish_inv:
  assumes "midway r d" and "result_ok (r_request r, r_generation r, res)" and "\<not> refused res"
    and "done_entries (r_request r, r_generation r, res) = running_entries (Some r)"
  shows "delivery_inv (finish r res d)"
  using assms
  by (simp add: midway_def delivery_inv_def finish_def accepted_ids_def running_entries_def)

lemma fail_operation_inv:
  assumes "midway r d" and "0 < r_writeCount r"
  shows "delivery_inv (fail_operation r err d)"
  using assms
  by (auto simp: fail_operation_def Let_def midway_def refused_def running_entries_def intro!: finish_inv)

lemma advance_inv:
  assumes mid: "midway r d" and cur: "isCurrent d (r_generation r)"
    and todo: "writes_of (r_todo r) = drop (r_writeCount r) (script_writes (r_request r))"
    and started: "0 < r_writeCount r \<or> (\<exists>t as. r_todo r = Write t # as)"
  shows "delivery_inv (advance r d)"
proof (cases "r_todo r")
  case Nil
  then have "length (script_writes (r_request r)) \<le> r_writeCount r" using todo by simp
  with mid have n: "r_writeCount r = length (script_writes (r_request r))" by (simp add: midway_def)
  then have "running_entries (Some r) = all_entries (r_request r) (r_generation r)"
    by (simp add: running_entries_def)
  with n show ?thesis using mid Nil
    by (auto simp: advance_def midway_def refused_def intro!: finish_inv)
next
  case (Cons a as)
  show ?thesis
  proof (cases a)
    case (Write t)
    have d: "drop (r_writeCount r) (script_writes (r_request r)) = t # writes_of as"
      using todo Cons Write by simp
    show ?thesis
      using mid cur Cons Write take_all_entries_Suc [OF d]
      by (simp add: advance_def Let_def delivery_inv_def midway_def running_ok_def
          running_entries_def accepted_ids_def isCurrent_def byte_count_def)
  next
    case (Sleep ms)
    then show ?thesis
      using mid cur Cons todo started
      by (simp add: advance_def delivery_inv_def midway_def running_ok_def running_entries_def
          accepted_ids_def)
  qed
qed

lemma setTransportState_inv: "delivery_inv d \<Longrightarrow> delivery_inv (setTransportState st d)"
  by (simp add: setTransportState_def delivery_inv_def accepted_ids_def)

lemma not_sent_refused_inv:
  "delivery_inv d \<Longrightarrow> why = InvalidOperationId \<or> why = OperationIdReused \<Longrightarrow>
   delivery_inv (not_sent rq g why d)"
  by (auto simp: not_sent_def delivery_inv_def accepted_ids_def refused_def)

lemma deliver_inv:
  assumes "delivery_inv d"
  shows "delivery_inv (deliver rq d)"
proof (cases "operationId rq = [] \<or> operationId rq \<in> set (operationIds d)")
  case True
  with assms show ?thesis by (auto simp: deliver_def intro: not_sent_refused_inv)
next
  case False
  with assms show ?thesis by (auto simp: deliver_def delivery_inv_def accepted_ids_def)
qed

lemma start_next_inv:
  assumes inv: "delivery_inv d"
  shows "delivery_inv (start_next d)"
proof (cases "current d = None \<and> queue d \<noteq> []")
  case False
  then have "start_next d = d" by (auto simp: start_next_def split: option.splits list.splits)
  with inv show ?thesis by simp
next
  case True
  then obtain rq g rest where c: "current d = None" and q: "queue d = (rq, g) # rest"
    by (metis list.exhaust surj_pair)
  let ?d = "d\<lparr>queue := rest\<rparr>"
  have drop1: "delivery_inv (not_sent rq g why ?d)"
    if "why \<noteq> InvalidOperationId" "why \<noteq> OperationIdReused" for why
    using inv c q that
    by (simp add: delivery_inv_def not_sent_def accepted_ids_def refused_def running_entries_def)
  let ?r = "\<lparr>r_request = rq, r_generation = g, r_todo = script (pasteGapMs d) (submitDelayMs d) rq,
      r_writeCount = 0, r_bytesAttempted = 0, r_stage = WriteStage\<rparr>"
  have "midway ?r ?d"
    using inv c q
    by (simp add: delivery_inv_def midway_def accepted_ids_def running_entries_def byte_count_def)
  moreover have "transportState d = Connected \<Longrightarrow> generation d = g \<Longrightarrow> isCurrent ?d (r_generation ?r)"
    by (simp add: isCurrent_def)
  ultimately have "transportState d = Connected \<Longrightarrow> generation d = g \<Longrightarrow> delivery_inv (advance ?r ?d)"
    using script_starts_with_write [of "pasteGapMs d" "submitDelayMs d" rq]
    by (intro advance_inv) (simp_all add: writes_of_script)
  then show ?thesis
    using drop1 by (simp add: start_next_def c q Let_def)
qed

lemma effect_resolved_inv:
  assumes "delivery_inv d"
  shows "delivery_inv (effect_resolved d)"
proof (cases "current d")
  case None
  with assms show ?thesis by (simp add: effect_resolved_def)
next
  case (Some r)
  have mid: "midway r d" and ok: "running_ok r" using midwayI [OF assms Some] by auto
  have "midway (r\<lparr>r_todo := tl (r_todo r)\<rparr>) d"
    using mid by (simp add: midway_def running_entries_def accepted_ids_def)
  then have "isCurrent d (r_generation r) \<Longrightarrow> delivery_inv (advance (r\<lparr>r_todo := tl (r_todo r)\<rparr>) d)"
    using ok by (intro advance_inv) (simp_all add: running_ok_def)
  moreover have "delivery_inv (fail_operation r stale_message d)"
    using mid ok by (intro fail_operation_inv) (simp_all add: running_ok_def)
  ultimately show ?thesis by (simp add: effect_resolved_def Some)
qed

lemma effect_rejected_inv:
  assumes "delivery_inv d"
  shows "delivery_inv (effect_rejected err d)"
proof (cases "current d")
  case (Some r)
  then show ?thesis
    using midwayI [OF assms Some] by (simp add: effect_rejected_def running_ok_def fail_operation_inv)
qed (use assms in \<open>simp add: effect_rejected_def\<close>)

lemmas delivery_inv_steps = setTransportState_inv deliver_inv start_next_inv effect_resolved_inv
  effect_rejected_inv

interpretation composer: machine delivery_step delivery_inv
proof unfold_locales
  fix d e
  assume "delivery_inv d"
  then show "delivery_inv (delivery_step d e)"
    by (cases e) (simp_all add: delivery_inv_steps)
qed

lemma new_delivery_inv: "delivery_inv (new_delivery submit gap)"
  by (simp add: delivery_inv_def new_delivery_def accepted_ids_def running_entries_def)

lemma reachable_inv: "delivery_inv (run_events delivery_step (new_delivery submit gap) es)"
  by (rule composer.run_inv) (rule new_delivery_inv)

subsection \<open>The promises of the controller\<close>

text \<open>
  C5: whatever the interleaving of calls, transport changes and effect outcomes, the writes
  on the PTY are whole blocks: operation by operation in the order of the \<open>deliver\<close> calls,
  each contributing all of its writes (delivered), a prefix (uncertain) or nothing, all of one
  captured generation, and every accepted operation id is settled or pending exactly once.
\<close>

theorem composer_writes_in_call_order:
  fixes es :: "delivery_event list" and submit gap :: "int option"
  defines "d \<equiv> run_events delivery_step (new_delivery submit gap) es"
  shows "sent d = concat (map done_entries (results d)) @ running_entries (current d)
    \<and> accepted_ids d = operationIds d \<and> distinct (operationIds d)
    \<and> list_all result_ok (results d)"
  unfolding d_def using reachable_inv [of submit gap es] by (simp add: delivery_inv_def)

lemma done_entries_id:
  "result_ok x \<Longrightarrow> w \<in> set (done_entries x) \<Longrightarrow> w_operationId w = operationId (fst x)"
  by (cases x rule: done_entries.cases)
    (auto simp: all_entries_def dest!: in_set_takeD dest: entries_fields)

lemma done_entries_all_id:
  "\<forall>w\<in>set (done_entries x). w_operationId w = operationId (fst x)"
  by (cases x rule: done_entries.cases)
    (auto simp: all_entries_def dest!: in_set_takeD dest: entries_fields)

lemma refused_no_entries: "refused res \<Longrightarrow> done_entries (rq, g, res) = []"
  by (cases res) (auto simp: refused_def)

lemma filter_other_entries:
  assumes "\<forall>x\<in>set xs. \<not> refused (snd (snd x)) \<longrightarrow> operationId (fst x) \<noteq> i"
  shows "filter (\<lambda>w. w_operationId w = i) (concat (map done_entries xs)) = []"
  using assms
proof (induction xs)
  case (Cons x xs)
  obtain rq g res where x: "x = (rq, g, res)" by (cases x)
  have "filter (\<lambda>w. w_operationId w = i) (done_entries x) = []"
    using Cons.prems done_entries_all_id [of x] refused_no_entries [of res rq g]
    by (cases "refused res") (auto simp: x filter_empty_conv)
  moreover have "filter (\<lambda>w. w_operationId w = i) (concat (map done_entries xs)) = []"
    using Cons by auto
  ultimately show ?case by simp
qed simp

lemma running_entries_id:
  "w \<in> set (running_entries c) \<Longrightarrow> \<exists>r. c = Some r \<and> w_operationId w = operationId (r_request r)"
  by (auto simp: running_entries_def all_entries_def split: option.splits
      dest!: in_set_takeD dest: entries_fields)

text \<open>
  C4: the draft is cleared only after exactly one complete send. For every settled operation
  that was not refused up front, the writes that carry its id are exactly its own block; a
  result that clears the draft made every write of the script, in order, once, and counted
  its bytes; a not-sent result made none; an uncertain one made a nonempty prefix and retains
  the draft.
\<close>

theorem composer_settled_exactly_once:
  fixes es :: "delivery_event list" and submit gap :: "int option"
  defines "d \<equiv> run_events delivery_step (new_delivery submit gap) es"
  assumes settled: "(rq, g, res) \<in> set (results d)" and "\<not> refused res"
  shows "filter (\<lambda>w. w_operationId w = operationId rq) (sent d) = done_entries (rq, g, res)
    \<and> (draftEffect res = Clear \<longrightarrow>
         done_entries (rq, g, res) = all_entries rq g
         \<and> res = Delivered (operationId rq) (intent rq) (byte_count (all_entries rq g))
             (length (script_writes rq)))
    \<and> (draftEffect res = Retain \<longrightarrow>
         done_entries (rq, g, res) = []
         \<or> (\<exists>n. 0 < n \<and> n \<le> length (script_writes rq)
              \<and> done_entries (rq, g, res) = take n (all_entries rq g)))"
proof -
  have inv: "delivery_inv d" unfolding d_def by (rule reachable_inv)
  obtain xs ys where r: "results d = xs @ (rq, g, res) # ys"
    using settled by (metis split_list)
  let ?i = "operationId rq"
  let ?ids = "\<lambda>zs. map (operationId \<circ> fst) (filter (\<lambda>(_, _, res). \<not> refused res) zs)"
  have "distinct (accepted_ids d)" using inv by (simp add: delivery_inv_def)
  then have "?i \<notin> set (?ids xs)" "?i \<notin> set (?ids ys)"
    and cur: "\<forall>r. current d = Some r \<longrightarrow> operationId (r_request r) \<noteq> ?i"
    using \<open>\<not> refused res\<close> by (auto simp: accepted_ids_def r)
  then have "\<forall>x\<in>set xs. \<not> refused (snd (snd x)) \<longrightarrow> operationId (fst x) \<noteq> ?i"
    "\<forall>x\<in>set ys. \<not> refused (snd (snd x)) \<longrightarrow> operationId (fst x) \<noteq> ?i"
    by (force simp: image_iff)+
  moreover have "filter (\<lambda>w. w_operationId w = ?i) (running_entries (current d)) = []"
    using cur running_entries_id by (fastforce simp: filter_empty_conv)
  moreover have "filter (\<lambda>w. w_operationId w = ?i) (done_entries (rq, g, res)) = done_entries (rq, g, res)"
    using done_entries_all_id [of "(rq, g, res)"] by (simp add: filter_id_conv)
  ultimately have "filter (\<lambda>w. w_operationId w = ?i) (sent d) = done_entries (rq, g, res)"
    using inv by (simp add: delivery_inv_def r filter_other_entries)
  moreover have "result_ok (rq, g, res)" using inv by (simp add: delivery_inv_def r)
  ultimately show ?thesis by (cases res) auto
qed

definition demo_request :: delivery_request where
  "demo_request = \<lparr>operationId = ''op1'', payload = units ''ls'', intent = Submit\<rparr>"

definition demo_events :: "delivery_event list" where
  "demo_events = [SetTransport Connected, DeliverCall demo_request, StartNext, EffectResolved,
     EffectResolved, EffectResolved]"

lemma demo_results:
  "results (run_events delivery_step (new_delivery None None) demo_events) =
   [(demo_request, 1, Delivered ''op1'' Submit 3 2)]"
  by (simp add: demo_events_def demo_request_def new_delivery_def setTransportState_def deliver_def
      start_next_def advance_def script_def composerPayloadSegments_def needsBracketedPaste_def
      units_def pause_def submitDelayMs_default_def isCurrent_def effect_resolved_def finish_def
      Let_def SUBMIT_KEY_def utf8_bytes_def high_surrogate_def low_surrogate_def)

theorem composer_settled_exactly_once_witness:
  "filter (\<lambda>w. w_operationId w = ''op1'')
     (sent (run_events delivery_step (new_delivery None None) demo_events)) =
   all_entries demo_request 1"
  using composer_settled_exactly_once [of demo_request 1 "Delivered ''op1'' Submit 3 2" None None demo_events]
  by (simp add: demo_results refused_def)

lemma advance_runs_script:
  assumes "isCurrent d (r_generation r)"
    and "writes_of (r_todo r) = drop (r_writeCount r) (script_writes (r_request r))"
    and "r_writeCount r \<le> length (script_writes (r_request r))"
    and "r_bytesAttempted r = byte_count (running_entries (Some r))"
  shows "run_events delivery_step (advance r d) (replicate (length (r_todo r)) EffectResolved) =
    d\<lparr>current := None,
      sent := sent d @ drop (r_writeCount r) (all_entries (r_request r) (r_generation r)),
      results := results d @ [(r_request r, r_generation r,
        Delivered (operationId (r_request r)) (intent (r_request r))
          (byte_count (all_entries (r_request r) (r_generation r)))
          (length (script_writes (r_request r))))]\<rparr>"
  using assms
proof (induction "r_todo r" arbitrary: r d)
  case Nil
  then have n: "r_writeCount r = length (script_writes (r_request r))" by simp
  with Nil show ?case by (simp add: advance_def finish_def running_entries_def)
next
  case (Cons a as)
  show ?case
  proof (cases a)
    case (Write t)
    let ?r = "r\<lparr>r_writeCount := r_writeCount r + 1,
        r_bytesAttempted := r_bytesAttempted r + length (encodeComposerText t), r_stage := WriteStage\<rparr>"
    let ?e = "\<lparr>w_operationId = operationId (r_request r), w_index = r_writeCount r + 1,
        w_bytes = encodeComposerText t, w_generation = generation d\<rparr>"
    let ?d = "d\<lparr>current := Some ?r, sent := sent d @ [?e]\<rparr>"
    have g: "generation d = r_generation r" using Cons.prems(1) by (simp add: isCurrent_def)
    have dr: "drop (r_writeCount r) (script_writes (r_request r)) = t # writes_of as"
      using Cons.prems(2) Cons.hyps(2) [symmetric] Write by simp
    note T = take_all_entries_Suc [OF dr]
    have "advance r d = ?d"
      using Cons.prems(1) Cons.hyps(2) [symmetric] Write by (simp add: advance_def Let_def)
    moreover have "delivery_step ?d EffectResolved = advance (?r\<lparr>r_todo := as\<rparr>) ?d"
      using Cons.prems(1) Cons.hyps(2) [symmetric] by (simp add: effect_resolved_def isCurrent_def)
    moreover have "run_events delivery_step (advance (?r\<lparr>r_todo := as\<rparr>) ?d)
        (replicate (length (r_todo (?r\<lparr>r_todo := as\<rparr>))) EffectResolved) =
      ?d\<lparr>current := None,
        sent := sent ?d @ drop (r_writeCount r + 1) (all_entries (r_request r) (r_generation r)),
        results := results d @ [(r_request r, r_generation r,
          Delivered (operationId (r_request r)) (intent (r_request r))
            (byte_count (all_entries (r_request r) (r_generation r)))
            (length (script_writes (r_request r))))]\<rparr>"
      using Cons.prems T
      by (subst Cons.hyps(1)) (simp_all add: isCurrent_def running_entries_def byte_count_def)
    moreover have "drop (r_writeCount r) (all_entries (r_request r) (r_generation r)) =
        ?e # drop (r_writeCount r + 1) (all_entries (r_request r) (r_generation r))"
    proof -
      let ?all = "all_entries (r_request r) (r_generation r)"
      have n: "r_writeCount r < length ?all" using T(2) by simp
      then have "?all ! r_writeCount r = ?e"
        using T(1) [of "r_generation r"] g by (simp add: take_Suc_conv_app_nth)
      with n show ?thesis by (metis Cons_nth_drop_Suc Suc_eq_plus1)
    qed
    ultimately show ?thesis using Cons.hyps(2) [symmetric] by simp
  next
    case (Sleep ms)
    let ?r = "r\<lparr>r_stage := PacingStage\<rparr>"
    let ?d = "d\<lparr>current := Some ?r\<rparr>"
    have "advance r d = ?d"
      using Cons.prems(1) Cons.hyps(2) [symmetric] Sleep by (simp add: advance_def)
    moreover have "delivery_step ?d EffectResolved = advance (?r\<lparr>r_todo := as\<rparr>) ?d"
      using Cons.prems(1) Cons.hyps(2) [symmetric] by (simp add: effect_resolved_def isCurrent_def)
    moreover have "run_events delivery_step (advance (?r\<lparr>r_todo := as\<rparr>) ?d)
        (replicate (length (r_todo (?r\<lparr>r_todo := as\<rparr>))) EffectResolved) =
      ?d\<lparr>current := None,
        sent := sent d @ drop (r_writeCount r) (all_entries (r_request r) (r_generation r)),
        results := results d @ [(r_request r, r_generation r,
          Delivered (operationId (r_request r)) (intent (r_request r))
            (byte_count (all_entries (r_request r) (r_generation r)))
            (length (script_writes (r_request r))))]\<rparr>"
      using Cons.prems Cons.hyps(2) [symmetric] Sleep
      by (subst Cons.hyps(1)) (simp_all add: isCurrent_def running_entries_def)
    ultimately show ?thesis using Cons.hyps(2) [symmetric] by simp
  qed
qed

lemma idle_effects: "current d = None \<Longrightarrow> run_events delivery_step d (replicate n EffectResolved) = d"
  by (induction n) (simp_all add: effect_resolved_def)

text \<open>
  C6: on an undisturbed transport the queue makes progress. While the PTY stays connected, the
  operation at the head of the queue is settled after one effect settles for each write and pause
  of its script, and the queue is then ready for the next one. It is delivered in full when its
  payload is not empty and the generation is still the one it was enqueued in; an empty payload
  or another generation is reported as not sent for that reason, and nothing is written.
\<close>

theorem composer_progress:
  assumes "transportState d = Connected" and "current d = None" and "queue d = (rq, g) # rest"
  shows "run_events delivery_step d
      (StartNext # replicate (length (script (pasteGapMs d) (submitDelayMs d) rq)) EffectResolved) =
    (if payload rq \<noteq> [] \<and> g = generation d
     then d\<lparr>queue := rest, current := None, sent := sent d @ all_entries rq g,
       results := results d @ [(rq, g,
         Delivered (operationId rq) (intent rq) (byte_count (all_entries rq g)) (length (script_writes rq)))]\<rparr>
     else d\<lparr>queue := rest,
       results := results d @ [(rq, g, NotSent (operationId rq) (intent rq)
         (if payload rq = [] then EmptyPayload else TransportChanged))]\<rparr>)"
proof (cases "payload rq \<noteq> [] \<and> g = generation d")
  case True
  let ?r = "\<lparr>r_request = rq, r_generation = g,
      r_todo = script (pasteGapMs d) (submitDelayMs d) rq,
      r_writeCount = 0, r_bytesAttempted = 0, r_stage = WriteStage\<rparr>"
  have "start_next d = advance ?r (d\<lparr>queue := rest\<rparr>)"
    using assms True by (simp add: start_next_def Let_def)
  then show ?thesis
    using advance_runs_script [of "d\<lparr>queue := rest\<rparr>" ?r] assms True
    by (simp add: isCurrent_def writes_of_script running_entries_def byte_count_def)
next
  case False
  then show ?thesis
    using assms by (auto simp: start_next_def not_sent_def idle_effects Let_def)
qed

theorem composer_progress_witness:
  "let d = (new_delivery None None)\<lparr>transportState := Connected, queue := [(demo_request, 0)]\<rparr> in
   results (run_events delivery_step d (StartNext # replicate 3 EffectResolved)) =
     [(demo_request, 0, Delivered ''op1'' Submit (byte_count (all_entries demo_request 0)) 2)]"
proof -
  let ?d = "(new_delivery None None)\<lparr>transportState := Connected, queue := [(demo_request, 0)]\<rparr>"
  have "length (script (pasteGapMs ?d) (submitDelayMs ?d) demo_request) = 3"
    "length (script_writes demo_request) = 2" "payload demo_request \<noteq> []"
    "operationId demo_request = ''op1''" "intent demo_request = Submit"
    by (simp_all add: script_def script_writes_def demo_request_def composerPayloadSegments_def
        needsBracketedPaste_def units_def new_delivery_def pause_def submitDelayMs_default_def)
  then show ?thesis
    using composer_progress [of ?d demo_request 0 "[]"] by (simp add: new_delivery_def)
qed

end
