(* ===== verification/Sync_Merge.thy ===== *)
theory Sync_Merge
  imports Js_Values
begin

text \<open>
  The selective settings sync: src/src/syncMerge.ts. A host crossing the sync boundary is a
  plain object (\<open>fields\<close>); the payload is a JSON text, represented by what
  \<open>JSON.parse\<close> makes of it. Local hosts and account hosts are lists, the selection the two
  lists of ticked and unticked aliases.
\<close>

subsection \<open>Hosts and the merge\<close>

type_synonym sync_host = fields

fun str_of :: "js \<Rightarrow> string" where
  "str_of (Str s) = s"
| "str_of _ = []"

definition host_name :: "sync_host \<Rightarrow> string" where
  "host_name h = str_of (get_prop h ''name'')"

text \<open>\<open>new Map(hosts.map((host) => [host.name, host]))\<close>: the last entry of a name wins.\<close>

definition by_name :: "sync_host list \<Rightarrow> string \<Rightarrow> sync_host option" where
  "by_name hs = map_of (rev (map (\<lambda>h. (host_name h, h)) hs))"

fun merge_fields :: "sync_host \<Rightarrow> fields \<Rightarrow> sync_host" where
  "merge_fields merged [] = merged"
| "merge_fields merged ((k, v) # fs) =
     merge_fields (if v = Undef then merged else put k v merged) fs"

text \<open>
  The shortcut for an entry merged with itself (\<open>remote === local\<close>) needs no branch: merging
  an object over itself changes nothing, see \<open>merge_self\<close>.
\<close>

definition mergeLocalOverRemote :: "sync_host \<Rightarrow> sync_host option \<Rightarrow> sync_host" where
  "mergeLocalOverRemote l r = (case r of None \<Rightarrow> l | Some m \<Rightarrow> merge_fields m l)"

fun assemble_loop ::
    "sync_host list \<Rightarrow> sync_host list \<Rightarrow> string list \<Rightarrow> string list \<Rightarrow> sync_host list" where
  "assemble_loop local remote seen [] = []"
| "assemble_loop local remote seen (alias # rest) =
     (if alias \<in> set seen then assemble_loop local remote seen rest
      else
        let localEntry = by_name local alias; remoteEntry = by_name remote alias;
            entry = (case localEntry of Some l \<Rightarrow> Some (mergeLocalOverRemote l remoteEntry)
                     | None \<Rightarrow> remoteEntry)
        in (case entry of
              None \<Rightarrow> assemble_loop local remote (alias # seen) rest
            | Some h \<Rightarrow> h # assemble_loop local remote (alias # seen) rest))"

definition assembleSyncSet :: "sync_host list \<Rightarrow> sync_host list \<Rightarrow> string list \<Rightarrow> sync_host list" where
  "assembleSyncSet local remote checked = assemble_loop local remote [] checked"

subsection \<open>The selection\<close>

record selection_state =
  checked :: "string list"
  unticked :: "string list"

fun auto_check_loop :: "string list \<Rightarrow> string list \<Rightarrow> sync_host list \<Rightarrow> string list" where
  "auto_check_loop known off [] = []"
| "auto_check_loop known off (h # hs) =
     (if host_name h \<in> set known \<or> host_name h \<in> set off then auto_check_loop known off hs
      else host_name h # auto_check_loop (host_name h # known) off hs)"

definition aliasesToAutoCheck :: "sync_host list \<Rightarrow> string list \<Rightarrow> string list \<Rightarrow> string list" where
  "aliasesToAutoCheck remote ticked off = auto_check_loop ticked off remote"

definition applyAccountToSelection :: "sync_host list \<Rightarrow> selection_state \<Rightarrow> selection_state" where
  "applyAccountToSelection remote sel =
     (let c0 = js_uniq (checked sel);
          c = c0 @ aliasesToAutoCheck remote c0 (unticked sel)
      in \<lparr>checked = c,
          unticked = filter (\<lambda>a. a \<in> host_name ` set remote \<and> a \<notin> set c) (js_uniq (unticked sel))\<rparr>)"

subsection \<open>The payload\<close>

datatype payload_reason = InvalidJson | InvalidShape | InvalidHostEntry | UnsupportedVersion

datatype parse_result = PayloadOk "sync_host list" | PayloadInvalid payload_reason "nat option"

definition decodeSyncPayload :: "json_text \<Rightarrow> payload_reason + fields \<times> js list" where
  "decodeSyncPayload plaintext =
     (case plaintext of
        None \<Rightarrow> Inl InvalidJson
      | Some (Obj root) \<Rightarrow>
          (case get_prop root ''hosts'' of Arr entries \<Rightarrow> Inr (root, entries) | _ \<Rightarrow> Inl InvalidShape)
      | Some _ \<Rightarrow> Inl InvalidShape)"

fun nonblank :: "js \<Rightarrow> bool" where
  "nonblank (Str s) = (js_trim s \<noteq> [])"
| "nonblank _ = False"

fun isPlausibleHostEntry :: "js \<Rightarrow> bool" where
  "isPlausibleHostEntry (Obj e) = (nonblank (get_prop e ''name'') \<and> nonblank (get_prop e ''hostname''))"
| "isPlausibleHostEntry _ = False"

fun host_of :: "js \<Rightarrow> sync_host" where
  "host_of (Obj e) = e"
| "host_of _ = []"

fun read_entries :: "nat \<Rightarrow> sync_host list \<Rightarrow> js list \<Rightarrow> parse_result" where
  "read_entries index hosts [] = PayloadOk hosts"
| "read_entries index hosts (entry # rest) =
     (if \<not> isPlausibleHostEntry entry then PayloadInvalid InvalidHostEntry (Some index)
      else read_entries (index + 1) (hosts @ [host_of entry]) rest)"

definition parseSyncPayloadResult :: "json_text \<Rightarrow> parse_result" where
  "parseSyncPayloadResult plaintext =
     (case decodeSyncPayload plaintext of
        Inl why \<Rightarrow> PayloadInvalid why None
      | Inr (root, entries) \<Rightarrow>
          if has_own root ''schemaVersion'' then PayloadInvalid UnsupportedVersion None
          else if list_ex (\<lambda>k. k \<noteq> ''hosts'') (map fst root) then PayloadInvalid InvalidShape None
          else read_entries 0 [] entries)"

definition serializeSyncPayload :: "sync_host list \<Rightarrow> json_text" where
  "serializeSyncPayload hosts = json_stringify (Obj [(''hosts'', Arr (map Obj hosts))])"

definition parseSyncPayload :: "json_text \<Rightarrow> sync_host list" where
  "parseSyncPayload plaintext =
     (case decodeSyncPayload plaintext of
        Inl _ \<Rightarrow> []
      | Inr (root, entries) \<Rightarrow> map host_of (filter isPlausibleHostEntry entries))"

subsection \<open>Facts about the merge\<close>

lemma by_name_SomeD: "by_name hs a = Some h \<Longrightarrow> h \<in> set hs \<and> host_name h = a"
  by (auto simp: by_name_def dest!: map_of_SomeD)

lemma by_name_None: "by_name hs a = None \<longleftrightarrow> a \<notin> host_name ` set hs"
  by (auto simp: by_name_def map_of_eq_None_iff image_image)

lemma by_name_distinct:
  assumes "distinct (map host_name hs)" "h \<in> set hs"
  shows "by_name hs (host_name h) = Some h"
proof (cases "by_name hs (host_name h)")
  case None
  with assms show ?thesis by (auto simp: by_name_None)
next
  case (Some g)
  with by_name_SomeD [OF Some] assms show ?thesis by (auto simp: distinct_map dest: inj_onD)
qed

lemma get_prop_merge_fields:
  assumes "distinct (map fst fs)"
  shows "get_prop (merge_fields m fs) k = (if get_prop fs k = Undef then get_prop m k else get_prop fs k)"
  using assms
proof (induction m fs rule: merge_fields.induct)
  case (2 m a v fs)
  have "map_of fs a = None" using "2.prems" by (simp add: map_of_eq_None_iff image_image)
  with 2 show ?case by (auto simp: get_prop_def split: option.splits)
qed (simp add: get_prop_def)

lemma get_prop_mergeLocalOverRemote:
  assumes "distinct (map fst l)"
  shows "get_prop (mergeLocalOverRemote l r) k =
    (if get_prop l k \<noteq> Undef then get_prop l k
     else (case r of None \<Rightarrow> Undef | Some m \<Rightarrow> get_prop m k))"
  using assms by (auto simp: mergeLocalOverRemote_def get_prop_merge_fields split: option.splits)

lemma put_same: "map_of m k = Some v \<Longrightarrow> put k v m = m"
  by (induction m) (auto simp: put_def)

lemma merge_fields_absorb:
  "(\<And>k v. (k, v) \<in> set fs \<Longrightarrow> v \<noteq> Undef \<Longrightarrow> map_of m k = Some v) \<Longrightarrow> merge_fields m fs = m"
  by (induction m fs rule: merge_fields.induct) (auto simp: put_same)

lemma merge_self: "distinct (map fst h) \<Longrightarrow> mergeLocalOverRemote h (Some h) = h"
  by (simp add: mergeLocalOverRemote_def merge_fields_absorb)

lemma merge_again:
  assumes "distinct (map fst l)"
  shows "mergeLocalOverRemote l (Some (mergeLocalOverRemote l r)) = mergeLocalOverRemote l r"
proof (cases r)
  case None
  with assms show ?thesis using merge_self by (simp add: mergeLocalOverRemote_def)
next
  case (Some m)
  have "map_of (merge_fields m l) k = Some v" if "(k, v) \<in> set l" "v \<noteq> Undef" for k v
  proof -
    have "map_of l k = Some v" using assms that(1) by simp
    then have "get_prop (merge_fields m l) k = v"
      using get_prop_merge_fields [OF assms] that(2) by (simp add: get_prop_def)
    with that(2) show ?thesis by (auto simp: get_prop_def split: option.splits)
  qed
  then show ?thesis by (simp add: mergeLocalOverRemote_def Some merge_fields_absorb)
qed

text \<open>A host of the application: an object with distinct keys that names itself.\<close>

definition named_host :: "sync_host \<Rightarrow> bool" where
  "named_host h \<longleftrightarrow> distinct (map fst h) \<and> (\<exists>n. get_prop h ''name'' = Str n)"

lemma host_name_merge [simp]:
  "named_host l \<Longrightarrow> host_name (mergeLocalOverRemote l r) = host_name l"
  by (auto simp: host_name_def named_host_def get_prop_mergeLocalOverRemote)

text \<open>The entry the assembly takes for an alias, and the assembly as a filtered map.\<close>

definition entry_for :: "sync_host list \<Rightarrow> sync_host list \<Rightarrow> string \<Rightarrow> sync_host option" where
  "entry_for local remote alias =
     (case by_name local alias of Some l \<Rightarrow> Some (mergeLocalOverRemote l (by_name remote alias))
      | None \<Rightarrow> by_name remote alias)"

lemma assemble_loop_eq:
  "assemble_loop local remote seen as = List.map_filter (entry_for local remote) (uniq_acc seen as)"
  by (induction local remote seen as rule: assemble_loop.induct)
    (auto simp: map_filter_simps entry_for_def Let_def split: option.splits)

lemma assembleSyncSet_eq:
  "assembleSyncSet local remote as = List.map_filter (entry_for local remote) (js_uniq as)"
  by (simp add: assembleSyncSet_def assemble_loop_eq js_uniq_def)

lemma host_name_entry_for:
  assumes "list_all named_host local" "entry_for local remote a = Some h"
  shows "host_name h = a"
  using assms by (auto simp: entry_for_def list_all_iff split: option.splits dest!: by_name_SomeD)

lemma map_filter_map:
  "(\<And>x y. x \<in> set xs \<Longrightarrow> f x = Some y \<Longrightarrow> g y = x) \<Longrightarrow>
   map g (List.map_filter f xs) = filter (\<lambda>x. f x \<noteq> None) xs"
  by (induction xs) (auto simp: map_filter_simps split: option.splits)

lemma names_assemble:
  assumes "list_all named_host local"
  shows "map host_name (assembleSyncSet local remote as) =
    filter (\<lambda>a. a \<in> host_name ` set local \<or> a \<in> host_name ` set remote) (js_uniq as)"
proof -
  have "map host_name (assembleSyncSet local remote as) =
    filter (\<lambda>a. entry_for local remote a \<noteq> None) (js_uniq as)"
    unfolding assembleSyncSet_eq
    by (rule map_filter_map) (use assms host_name_entry_for in blast)
  moreover have "entry_for local remote a = None \<longleftrightarrow>
      a \<notin> host_name ` set local \<and> a \<notin> host_name ` set remote" for a
    using by_name_None [of local a] by_name_None [of remote a]
    by (auto simp: entry_for_def split: option.splits)
  ultimately show ?thesis by (simp cong: filter_cong)
qed

lemma distinct_names_assemble:
  "list_all named_host local \<Longrightarrow> distinct (map host_name (assembleSyncSet local remote as))"
  by (simp add: names_assemble)

lemma map_filter_cong:
  "(\<And>x. x \<in> set xs \<Longrightarrow> f x = g x) \<Longrightarrow> List.map_filter f xs = List.map_filter g xs"
  by (induction xs) (auto simp: map_filter_simps split: option.splits)

lemma in_map_filter: "y \<in> set (List.map_filter f xs) \<longleftrightarrow> (\<exists>x\<in>set xs. f x = Some y)"
  by (induction xs) (auto simp: map_filter_simps split: option.splits)

lemma by_name_assemble:
  assumes "list_all named_host local" "a \<in> set as"
  shows "by_name (assembleSyncSet local remote as) a = entry_for local remote a"
proof (cases "entry_for local remote a")
  case None
  then have "a \<notin> host_name ` set (assembleSyncSet local remote as)"
    using host_name_entry_for [OF assms(1)] by (auto simp: assembleSyncSet_eq in_map_filter)
  with None show ?thesis by (simp add: by_name_None)
next
  case (Some h)
  then have "h \<in> set (assembleSyncSet local remote as)"
    using assms(2) by (auto simp: assembleSyncSet_eq in_map_filter)
  then show ?thesis
    using by_name_distinct [OF distinct_names_assemble [OF assms(1)]]
      host_name_entry_for [OF assms(1) Some] Some by metis
qed

subsection \<open>Facts about the selection\<close>

lemma auto_check_loop_props:
  "set (auto_check_loop known off hs) = host_name ` set hs - set known - set off
   \<and> distinct (auto_check_loop known off hs)"
  by (induction known off hs rule: auto_check_loop.induct) auto

lemma set_aliasesToAutoCheck [simp]:
  "set (aliasesToAutoCheck remote c off) = host_name ` set remote - set c - set off"
  by (simp add: aliasesToAutoCheck_def auto_check_loop_props)

lemma distinct_aliasesToAutoCheck [simp]: "distinct (aliasesToAutoCheck remote c off)"
  by (simp add: aliasesToAutoCheck_def auto_check_loop_props)

lemma checked_applyAccount [simp]:
  "set (checked (applyAccountToSelection remote sel)) =
     set (checked sel) \<union> (host_name ` set remote - set (unticked sel))"
  by (auto simp: applyAccountToSelection_def Let_def)

lemma unticked_applyAccount [simp]:
  "set (unticked (applyAccountToSelection remote sel)) =
     set (unticked sel) \<inter> host_name ` set remote - set (checked sel)"
  by (auto simp: applyAccountToSelection_def Let_def)

lemma distinct_applyAccount [simp]:
  "distinct (checked (applyAccountToSelection remote sel))"
  "distinct (unticked (applyAccountToSelection remote sel))"
  by (auto simp: applyAccountToSelection_def Let_def)

lemma auto_check_loop_none:
  "host_name ` set hs \<subseteq> set known \<union> set off \<Longrightarrow> auto_check_loop known off hs = []"
  by (induction known off hs rule: auto_check_loop.induct) auto

lemma applyAccount_fixed:
  assumes "distinct c" "distinct u" "host_name ` set remote \<subseteq> set c \<union> set u"
    "set u \<subseteq> host_name ` set remote" "set c \<inter> set u = {}"
  shows "applyAccountToSelection remote \<lparr>checked = c, unticked = u\<rparr> = \<lparr>checked = c, unticked = u\<rparr>"
proof -
  have "filter (\<lambda>a. a \<in> host_name ` set remote \<and> a \<notin> set c) u = u"
    by (rule filter_True) (use assms in auto)
  with assms show ?thesis
    by (simp add: applyAccountToSelection_def Let_def aliasesToAutoCheck_def auto_check_loop_none)
qed

text \<open>
  The tick rule. Applying an account copy to a selection keeps every tick, ticks every
  account alias that is not explicitly unticked, keeps an untick only while the account still
  holds the alias, and applying the same account copy again changes nothing.
\<close>

theorem account_aliases_stay_selected:
  "set (checked (applyAccountToSelection remote sel)) =
     set (checked sel) \<union> (host_name ` set remote - set (unticked sel))
   \<and> set (unticked (applyAccountToSelection remote sel)) =
     set (unticked sel) \<inter> host_name ` set remote - set (checked sel)
   \<and> distinct (checked (applyAccountToSelection remote sel))
   \<and> applyAccountToSelection remote (applyAccountToSelection remote sel) =
       applyAccountToSelection remote sel"
proof -
  obtain c u where s: "applyAccountToSelection remote sel = \<lparr>checked = c, unticked = u\<rparr>"
    by (cases "applyAccountToSelection remote sel") simp
  have "set c = set (checked sel) \<union> (host_name ` set remote - set (unticked sel))"
    "set u = set (unticked sel) \<inter> host_name ` set remote - set (checked sel)"
    "distinct c" "distinct u"
    using checked_applyAccount [of remote sel] unticked_applyAccount [of remote sel]
      distinct_applyAccount [of remote sel] by (simp_all add: s)
  then show ?thesis unfolding s
    using applyAccount_fixed [of c u remote] by auto
qed

subsection \<open>What a sync writes\<close>

text \<open>
  Selective sync. The assembled list names exactly the ticked aliases that have an entry
  on either side, once each and in tick order; an entry carries every explicitly present
  local field and takes the rest from the account, field by field.
\<close>

theorem assembled_set_is_selective:
  assumes "list_all named_host local"
  shows "map host_name (assembleSyncSet local remote as) =
      filter (\<lambda>a. a \<in> host_name ` set local \<or> a \<in> host_name ` set remote) (js_uniq as)
    \<and> (h \<in> set (assembleSyncSet local remote as) \<longrightarrow>
        get_prop h k =
          (case by_name local (host_name h) of
             None \<Rightarrow> (case by_name remote (host_name h) of None \<Rightarrow> Undef | Some r \<Rightarrow> get_prop r k)
           | Some l \<Rightarrow>
               if get_prop l k \<noteq> Undef then get_prop l k
               else (case by_name remote (host_name h) of None \<Rightarrow> Undef | Some r \<Rightarrow> get_prop r k)))"
proof (intro conjI impI)
  assume "h \<in> set (assembleSyncSet local remote as)"
  then obtain a where a: "entry_for local remote a = Some h"
    by (auto simp: assembleSyncSet_eq in_map_filter)
  then have n: "host_name h = a" by (rule host_name_entry_for [OF assms])
  show "get_prop h k =
          (case by_name local (host_name h) of
             None \<Rightarrow> (case by_name remote (host_name h) of None \<Rightarrow> Undef | Some r \<Rightarrow> get_prop r k)
           | Some l \<Rightarrow>
               if get_prop l k \<noteq> Undef then get_prop l k
               else (case by_name remote (host_name h) of None \<Rightarrow> Undef | Some r \<Rightarrow> get_prop r k))"
  proof (cases "by_name local a")
    case None
    with a n show ?thesis by (simp add: entry_for_def)
  next
    case (Some l)
    then have "distinct (map fst l)"
      using assms by (auto simp: list_all_iff named_host_def dest!: by_name_SomeD)
    from get_prop_mergeLocalOverRemote [OF this] a n Some show ?thesis
      by (auto simp: entry_for_def)
  qed
qed (rule names_assemble [OF assms])

definition demo_local :: "sync_host list" where
  "demo_local = [[(''name'', Str ''a''), (''hostname'', Str ''h1''), (''user'', Undef)]]"

definition demo_remote :: "sync_host list" where
  "demo_remote = [[(''name'', Str ''a''), (''hostname'', Str ''old''), (''user'', Str ''bob'')],
                  [(''name'', Str ''b''), (''hostname'', Str ''h2'')]]"

lemma demo_named: "list_all named_host demo_local"
  by (simp add: demo_local_def named_host_def get_prop_def)

lemma demo_assembled: "assembleSyncSet demo_local demo_remote [''b'', ''a''] =
  [[(''name'', Str ''b''), (''hostname'', Str ''h2'')],
   [(''name'', Str ''a''), (''hostname'', Str ''h1''), (''user'', Str ''bob'')]]"
  by (simp add: assembleSyncSet_def demo_local_def demo_remote_def by_name_def host_name_def
      get_prop_def mergeLocalOverRemote_def put_def Let_def)

theorem assembled_set_is_selective_witness:
  "get_prop [(''name'', Str ''a''), (''hostname'', Str ''h1''), (''user'', Str ''bob'')] ''user'' = Str ''bob''"
  using assembled_set_is_selective [OF demo_named, of demo_remote "[''b'', ''a'']"
      "[(''name'', Str ''a''), (''hostname'', Str ''h1''), (''user'', Str ''bob'')]" "''user''"]
  by (simp add: demo_assembled) (simp add: demo_local_def demo_remote_def by_name_def host_name_def
      get_prop_def)

text \<open>
  Syncing converges. Assembling again over an account that already holds what was
  assembled yields the same list: a device that pushed once pushes the same payload again
  until something changes.
\<close>

theorem assembling_twice_changes_nothing:
  assumes "list_all named_host local"
  shows "assembleSyncSet local (assembleSyncSet local remote as) as = assembleSyncSet local remote as"
proof -
  have "entry_for local (assembleSyncSet local remote as) a = entry_for local remote a"
    if "a \<in> set as" for a
  proof (cases "by_name local a")
    case None
    with that show ?thesis by (simp add: entry_for_def by_name_assemble [OF assms])
  next
    case (Some l)
    then have "distinct (map fst l)"
      using assms by (auto simp: list_all_iff named_host_def dest!: by_name_SomeD)
    from merge_again [OF this] Some that show ?thesis
      by (simp add: entry_for_def by_name_assemble [OF assms])
  qed
  then show ?thesis using assembleSyncSet_eq by (metis map_filter_cong set_js_uniq)
qed

theorem assembling_twice_changes_nothing_witness:
  "assembleSyncSet demo_local (assembleSyncSet demo_local demo_remote [''b'', ''a'']) [''b'', ''a''] =
   [[(''name'', Str ''b''), (''hostname'', Str ''h2'')],
    [(''name'', Str ''a''), (''hostname'', Str ''h1''), (''user'', Str ''bob'')]]"
  using assembling_twice_changes_nothing [OF demo_named, of demo_remote "[''b'', ''a'']"]
  by (simp add: demo_assembled)

subsection \<open>Reading what was written\<close>

lemma read_entries_ok:
  "list_all isPlausibleHostEntry es \<Longrightarrow> read_entries i hs es = PayloadOk (hs @ map host_of es)"
  by (induction i hs es rule: read_entries.induct) auto

lemma read_entries_OkD:
  "read_entries i hs es = PayloadOk out \<Longrightarrow> list_all isPlausibleHostEntry es \<and> out = hs @ map host_of es"
  by (induction i hs es rule: read_entries.induct) (auto split: if_splits)

lemma get_prop_json_norm:
  "distinct (map fst e) \<Longrightarrow>
   get_prop (json_norm_fields e) k = (if get_prop e k = Undef then Undef else json_norm (get_prop e k))"
  by (simp add: get_prop_def map_of_json_norm_fields split: option.splits)

lemma nonblank_json_norm: "nonblank v \<Longrightarrow> json_norm v = v \<and> v \<noteq> Undef"
  by (cases v) auto

lemma plausible_json_norm:
  assumes "distinct (map fst e)" "isPlausibleHostEntry (Obj e)"
  shows "isPlausibleHostEntry (Obj (json_norm_fields e))"
  using assms(2) nonblank_json_norm [of "get_prop e ''name''"]
    nonblank_json_norm [of "get_prop e ''hostname''"]
  by (simp add: get_prop_json_norm [OF assms(1)])

text \<open>
  The strict reader gives back what the writer wrote. Serializing usable hosts and parsing
  the text strictly yields the same hosts in JSON form, and whenever the strict reader accepts
  a text the legacy reader gives the same hosts.
\<close>

theorem payload_roundtrip:
  assumes "\<And>h. h \<in> set hs \<Longrightarrow> distinct (map fst h) \<and> isPlausibleHostEntry (Obj h)"
  shows "parseSyncPayloadResult (serializeSyncPayload hs) = PayloadOk (map json_norm_fields hs)
    \<and> (parseSyncPayloadResult text = PayloadOk out \<longrightarrow> parseSyncPayload text = out)"
proof
  have "list_all isPlausibleHostEntry (map (Obj \<circ> json_norm_fields) hs)"
    using assms plausible_json_norm by (auto simp: list_all_iff simp del: isPlausibleHostEntry.simps)
  from read_entries_ok [OF this]
  show "parseSyncPayloadResult (serializeSyncPayload hs) = PayloadOk (map json_norm_fields hs)"
    by (simp add: parseSyncPayloadResult_def serializeSyncPayload_def json_stringify_def
        decodeSyncPayload_def get_prop_def has_own_def json_norm_list_map comp_def)
  show "parseSyncPayloadResult text = PayloadOk out \<longrightarrow> parseSyncPayload text = out"
    by (auto simp: parseSyncPayloadResult_def parseSyncPayload_def list_all_iff
        split: sum.splits if_splits dest!: read_entries_OkD intro!: arg_cong [of _ _ "map host_of"])
qed

theorem payload_roundtrip_witness:
  "parseSyncPayloadResult (serializeSyncPayload demo_local) =
     PayloadOk [[(''name'', Str ''a''), (''hostname'', Str ''h1'')]]"
  using payload_roundtrip [of demo_local None "[]"]
  by (simp add: demo_local_def get_prop_def js_trim_def js_space_def)

end
