(* ===== verification/Sync_Round.thy ===== *)
theory Sync_Round
  imports Sync_Merge
begin

text \<open>
  One settings-sync round: \<open>runSyncRound\<close> of src/src/syncRound.ts. The platform's effects are
  an argument: what the n-th \<open>pull\<close> answers or throws, what the n-th \<open>push\<close> answers for the
  given base version and plaintext, and whether the \<open>onPulled\<close> observer throws. The round
  returns its result together with the log of its attempts (what each pull showed and what
  was pushed), so a property can speak about every write to the account.
\<close>

subsection \<open>Effects and their answers\<close>

text \<open>
  A pull answer is not trusted to have its declared shape: \<open>kind\<close> and \<open>version\<close> are arbitrary
  values, and the plaintext is a JSON text when it is a string at all.
\<close>

datatype sync_snapshot = NotAnObject | Snapshot js js "json_text option"

record pulled =
  pulled_version :: "int option"
  pulled_hosts :: "sync_host list"
  selectedAliases :: "string list"
  untickedAliases :: "string list"

record sync_effects =
  pull :: "nat \<Rightarrow> string + sync_snapshot"
  push :: "nat \<Rightarrow> int option \<Rightarrow> json_text \<Rightarrow> string + js"
  onPulled :: "pulled \<Rightarrow> string option"   \<comment> \<open>the message it throws, if it throws\<close>

fun version_value :: "js \<Rightarrow> int option" where
  "version_value (Num (IntN i)) = (if is_safe_integer (IntN i) \<and> 0 \<le> i then Some i else None)"
| "version_value _ = None"

fun isSyncRoundSnapshot :: "sync_snapshot \<Rightarrow> bool" where
  "isSyncRoundSnapshot NotAnObject = False"
| "isSyncRoundSnapshot (Snapshot kind version plaintext) =
     (kind = Str ''absent''
      \<or> (kind = Str ''ok'' \<and> version_value version \<noteq> None \<and> plaintext \<noteq> None))"

fun is_str :: "js \<Rightarrow> bool" where
  "is_str (Str _) = True"
| "is_str _ = False"

fun isSyncRoundPushResult :: "js \<Rightarrow> bool" where
  "isSyncRoundPushResult (Obj r) =
     (if get_prop r ''kind'' = Str ''error'' then is_str (get_prop r ''message'')
      else if get_prop r ''kind'' = Str ''ok'' then version_value (get_prop r ''version'') \<noteq> None
      else get_prop r ''kind'' = Str ''conflict'' \<and> version_value (get_prop r ''currentVersion'') \<noteq> None)"
| "isSyncRoundPushResult _ = False"

datatype round_stage = PullStage | PushStage

datatype round_result =
    Synced int "string list" "string list" "sync_host list" nat
      \<comment> \<open>version, selected aliases, unticked aliases, hosts, attempts\<close>
  | InvalidPayload payload_reason "nat option"
  | EmptySelection
  | RoundError round_stage string
  | ConflictLimit int nat
  | ObserverThrew string   \<comment> \<open>the round rejects\<close>

definition SYNC_ROUND_CONFLICT_RETRIES :: nat where
  "SYNC_ROUND_CONFLICT_RETRIES = 3"

text \<open>One attempt of the round: what its pull showed, and its upload if it made one.\<close>

record attempt =
  seen :: pulled
  uploaded :: "(int option \<times> json_text) option"

subsection \<open>The round\<close>

definition invalid_snapshot :: string where
  "invalid_snapshot = ''The sync service returned an invalid snapshot.''"

definition invalid_response :: string where
  "invalid_response = ''The sync service returned an invalid response.''"

text \<open>
  What the pull of one attempt means: the account's version and hosts, or the result the
  round stops with. (The second version check of the code is implied by the first.)
\<close>

definition read_snapshot :: "string + sync_snapshot \<Rightarrow> round_result + int option \<times> sync_host list" where
  "read_snapshot answer =
     (case answer of
        Inl err \<Rightarrow> Inl (RoundError PullStage err)
      | Inr snap \<Rightarrow>
          if \<not> isSyncRoundSnapshot snap then Inl (RoundError PullStage invalid_snapshot)
          else (case snap of
            Snapshot kind version (Some plaintext) \<Rightarrow>
              if kind \<noteq> Str ''ok'' then Inr (None, [])
              else (case parseSyncPayloadResult plaintext of
                PayloadInvalid why index \<Rightarrow> Inl (InvalidPayload why index)
              | PayloadOk hosts \<Rightarrow> Inr (version_value version, hosts))
          | _ \<Rightarrow> Inr (None, [])))"

text \<open>What an upload's answer means: a final result, or the version that won a conflict.\<close>

definition read_push ::
    "string + js \<Rightarrow> pulled \<Rightarrow> sync_host list \<Rightarrow> nat \<Rightarrow> round_result + int" where
  "read_push answer p hosts attempts =
     (case answer of
        Inl err \<Rightarrow> Inl (RoundError PushStage err)
      | Inr (Obj r) \<Rightarrow>
          if \<not> isSyncRoundPushResult (Obj r) then Inl (RoundError PushStage invalid_response)
          else if get_prop r ''kind'' = Str ''error''
          then Inl (RoundError PushStage (str_of (get_prop r ''message'')))
          else if get_prop r ''kind'' = Str ''ok''
          then Inl (Synced (the (version_value (get_prop r ''version''))) (selectedAliases p)
                 (filter (\<lambda>a. a \<in> host_name ` set hosts) (untickedAliases p)) hosts attempts)
          else Inr (the (version_value (get_prop r ''currentVersion'')))
      | Inr _ \<Rightarrow> Inl (RoundError PushStage invalid_response))"

text \<open>The loop body from attempt number \<open>attempts\<close> on; \<open>left\<close> attempts remain.\<close>

fun sync_loop ::
    "sync_effects \<Rightarrow> sync_host list \<Rightarrow> nat \<Rightarrow> nat \<Rightarrow> selection_state \<Rightarrow> round_result \<times> attempt list" where
  "sync_loop E local 0 attempts sel = (ConflictLimit 0 (SYNC_ROUND_CONFLICT_RETRIES + 1), [])"
| "sync_loop E local (Suc left) attempts sel =
     (case read_snapshot (pull E attempts) of
        Inl res \<Rightarrow> (res, [])
      | Inr (version, remoteHosts) \<Rightarrow>
          let sel' = applyAccountToSelection remoteHosts sel;
              p = \<lparr>pulled_version = version, pulled_hosts = remoteHosts,
                   selectedAliases = checked sel', untickedAliases = unticked sel'\<rparr>;
              hosts = assembleSyncSet local remoteHosts (checked sel');
              plaintext = serializeSyncPayload hosts
          in (case onPulled E p of
                Some err \<Rightarrow> (ObserverThrew err, [\<lparr>seen = p, uploaded = None\<rparr>])
              | None \<Rightarrow>
                  if hosts = [] then (EmptySelection, [\<lparr>seen = p, uploaded = None\<rparr>])
                  else
                    (case read_push (push E attempts version plaintext) p hosts attempts of
                       Inl res \<Rightarrow> (res, [\<lparr>seen = p, uploaded = Some (version, plaintext)\<rparr>])
                     | Inr currentVersion \<Rightarrow>
                         if attempts > SYNC_ROUND_CONFLICT_RETRIES
                         then (ConflictLimit currentVersion attempts,
                               [\<lparr>seen = p, uploaded = Some (version, plaintext)\<rparr>])
                         else map_prod id (Cons \<lparr>seen = p, uploaded = Some (version, plaintext)\<rparr>)
                                (sync_loop E local left (attempts + 1) sel'))))"

definition runSyncRound ::
    "sync_host list \<Rightarrow> selection_state \<Rightarrow> sync_effects \<Rightarrow> round_result \<times> attempt list" where
  "runSyncRound local sel E =
     sync_loop E local (SYNC_ROUND_CONFLICT_RETRIES + 1) 1
       \<lparr>checked = js_uniq (checked sel), unticked = js_uniq (unticked sel)\<rparr>"

subsection \<open>What every attempt keeps\<close>

text \<open>
  An attempt is sound for a selection when the pull it shows was readable, and an upload is
  based on the pulled version and carries a non-empty list that still names every account
  host the user did not untick, merged from the local and the pulled entries only.
\<close>

definition attempt_ok :: "sync_host list \<Rightarrow> string list \<Rightarrow> attempt \<Rightarrow> bool" where
  "attempt_ok local off a \<longleftrightarrow>
     (case uploaded a of
        None \<Rightarrow> True
      | Some (base, plaintext) \<Rightarrow>
          let hosts = assembleSyncSet local (pulled_hosts (seen a)) (selectedAliases (seen a)) in
          base = pulled_version (seen a)
          \<and> plaintext = serializeSyncPayload hosts \<and> hosts \<noteq> []
          \<and> host_name ` set (pulled_hosts (seen a)) - set off \<subseteq> host_name ` set hosts)"

lemma unticked_apply_subset: "set (unticked (applyAccountToSelection remote sel)) \<subseteq> set (unticked sel)"
  by auto

lemma assemble_keeps_account:
  assumes "list_all named_host local" "set (unticked sel) \<subseteq> set off"
  shows "host_name ` set remote - set off \<subseteq>
    host_name ` set (assembleSyncSet local remote (checked (applyAccountToSelection remote sel)))"
proof -
  have "set (map host_name (assembleSyncSet local remote
      (checked (applyAccountToSelection remote sel)))) \<supseteq> host_name ` set remote - set off"
    unfolding names_assemble [OF assms(1)] using assms(2) by auto
  then show ?thesis by simp
qed

text \<open>What an attempt shows and uploads for a readable pull, and how the loop can go on.\<close>

definition shown :: "int option \<Rightarrow> sync_host list \<Rightarrow> selection_state \<Rightarrow> pulled" where
  "shown version remote sel =
     \<lparr>pulled_version = version, pulled_hosts = remote,
      selectedAliases = checked (applyAccountToSelection remote sel),
      untickedAliases = unticked (applyAccountToSelection remote sel)\<rparr>"

definition chosen :: "sync_host list \<Rightarrow> sync_host list \<Rightarrow> selection_state \<Rightarrow> sync_host list" where
  "chosen local remote sel = assembleSyncSet local remote (checked (applyAccountToSelection remote sel))"

definition upload_attempt ::
    "sync_host list \<Rightarrow> int option \<Rightarrow> sync_host list \<Rightarrow> selection_state \<Rightarrow> attempt" where
  "upload_attempt local version remote sel =
     \<lparr>seen = shown version remote sel,
      uploaded = Some (version, serializeSyncPayload (chosen local remote sel))\<rparr>"

lemma sync_loop_cases:
  assumes "sync_loop E local (Suc left) n sel = (res, log)"
  obtains (stop) "read_snapshot (pull E n) = Inl res" "log = []"
  | (quiet) version remote where "read_snapshot (pull E n) = Inr (version, remote)"
      "log = [\<lparr>seen = shown version remote sel, uploaded = None\<rparr>]"
      "res = EmptySelection \<or> (\<exists>err. res = ObserverThrew err)"
  | (final) version remote where "read_snapshot (pull E n) = Inr (version, remote)"
      "chosen local remote sel \<noteq> []" "log = [upload_attempt local version remote sel]"
      "read_push (push E n version (serializeSyncPayload (chosen local remote sel)))
         (shown version remote sel) (chosen local remote sel) n = Inl res
       \<or> (\<exists>v. res = ConflictLimit v n)"
  | (again) version remote log' where "read_snapshot (pull E n) = Inr (version, remote)"
      "chosen local remote sel \<noteq> []" "log = upload_attempt local version remote sel # log'"
      "sync_loop E local left (n + 1) (applyAccountToSelection remote sel) = (res, log')"
proof (cases "read_snapshot (pull E n)")
  case (Inl r)
  with assms stop show ?thesis by simp
next
  case (Inr pr)
  obtain version remote where pr: "pr = (version, remote)" by (cases pr)
  note step = assms [simplified Inr pr sync_loop.simps Let_def sum.case prod.case,
      folded shown_def chosen_def]
  show ?thesis
  proof (cases "onPulled E (shown version remote sel) = None \<and> chosen local remote sel \<noteq> []")
    case False
    with step quiet Inr pr show ?thesis by (auto split: option.splits if_splits)
  next
    case True
    show ?thesis
    proof (cases "read_push (push E n version (serializeSyncPayload (chosen local remote sel)))
         (shown version remote sel) (chosen local remote sel) n")
      case (Inl r)
      with step True final Inr pr \<open>read_snapshot (pull E n) = Inr pr\<close> show ?thesis
        by (auto simp: upload_attempt_def)
    next
      case (Inr v)
      with step True final again \<open>read_snapshot (pull E n) = Inr pr\<close> pr show ?thesis
        by (cases "sync_loop E local left (n + 1) (applyAccountToSelection remote sel)")
          (auto simp: upload_attempt_def split: if_splits)
    qed
  qed
qed

lemma sync_loop_attempts:
  assumes "list_all named_host local" "set (unticked sel) \<subseteq> set off"
    "sync_loop E local left n sel = (res, log)"
  shows "list_all (attempt_ok local off) log \<and> length log \<le> left"
  using assms(2-)
proof (induction left arbitrary: n sel res log)
  case (Suc left)
  have ok: "attempt_ok local off (upload_attempt local version remote sel)"
    if "chosen local remote sel \<noteq> []" for version remote
    using that assemble_keeps_account [OF assms(1) Suc.prems(1)]
    by (simp add: attempt_ok_def upload_attempt_def shown_def chosen_def)
  from Suc.prems(2) show ?case
  proof (cases rule: sync_loop_cases)
    case (again version remote log')
    have "set (unticked (applyAccountToSelection remote sel)) \<subseteq> set off" using Suc.prems(1) by auto
    from Suc.IH [OF this again(4)] ok again show ?thesis by simp
  qed (auto simp: ok, auto simp: attempt_ok_def)
qed simp

text \<open>
  C25: an untouched round never drops an account host. Whatever the account holds and however
  often another device writes first, a round makes at most four attempts, and every upload is
  based on the version it pulled, is a non-empty list of hosts, and still names each account
  host that the user did not explicitly untick.
\<close>

theorem sync_round_keeps_account_hosts:
  assumes "list_all named_host local" "runSyncRound local sel E = (res, log)" "a \<in> set log"
    "uploaded a = Some (base, plaintext)"
  shows "length log \<le> 4
    \<and> base = pulled_version (seen a)
    \<and> (\<exists>hosts. plaintext = serializeSyncPayload hosts \<and> hosts \<noteq> []
        \<and> host_name ` set (pulled_hosts (seen a)) - set (unticked sel) \<subseteq> host_name ` set hosts
        \<and> hosts = assembleSyncSet local (pulled_hosts (seen a)) (selectedAliases (seen a)))"
proof -
  have "list_all (attempt_ok local (unticked sel)) log \<and> length log \<le> SYNC_ROUND_CONFLICT_RETRIES + 1"
    by (rule sync_loop_attempts [OF assms(1) _ assms(2) [unfolded runSyncRound_def]]) simp
  with assms(3,4) show ?thesis
    by (force simp: attempt_ok_def list_all_iff SYNC_ROUND_CONFLICT_RETRIES_def Let_def)
qed

definition demo_effects :: sync_effects where
  "demo_effects = \<lparr>pull = (\<lambda>n. Inr (Snapshot (Str ''ok'') (Num (IntN 7)) (Some (serializeSyncPayload demo_remote)))),
     push = (\<lambda>n base text. Inr (Obj [(''kind'', Str ''ok''), (''version'', Num (IntN 8))])),
     onPulled = (\<lambda>p. None)\<rparr>"

definition demo_pulled :: pulled where
  "demo_pulled = \<lparr>pulled_version = Some 7, pulled_hosts = demo_remote,
     selectedAliases = [''b'', ''a''], untickedAliases = []\<rparr>"

definition demo_uploaded :: "sync_host list" where
  "demo_uploaded = assembleSyncSet demo_local demo_remote [''b'', ''a'']"

lemma demo_parse: "parseSyncPayloadResult (serializeSyncPayload demo_remote) = PayloadOk demo_remote"
  by (simp add: parseSyncPayloadResult_def serializeSyncPayload_def json_stringify_def
      decodeSyncPayload_def demo_remote_def get_prop_def has_own_def js_trim_def js_space_def)

lemma demo_apply:
  "applyAccountToSelection demo_remote \<lparr>checked = [''b''], unticked = []\<rparr> =
     \<lparr>checked = [''b'', ''a''], unticked = []\<rparr>"
  by (simp add: applyAccountToSelection_def aliasesToAutoCheck_def demo_remote_def host_name_def
      get_prop_def)

lemma demo_round:
  "runSyncRound demo_local \<lparr>checked = [''b''], unticked = []\<rparr> demo_effects =
     (Synced 8 [''b'', ''a''] [] demo_uploaded 1,
      [\<lparr>seen = demo_pulled, uploaded = Some (Some 7, serializeSyncPayload demo_uploaded)\<rparr>])"
proof -
  have "assembleSyncSet demo_local demo_remote [''b'', ''a''] \<noteq> []" by (simp add: demo_assembled)
  then show ?thesis
    by (simp add: runSyncRound_def demo_effects_def read_snapshot_def demo_parse demo_apply
        SYNC_ROUND_CONFLICT_RETRIES_def max_safe_integer_def read_push_def get_prop_def
        demo_pulled_def demo_uploaded_def Let_def eval_nat_numeral)
qed

theorem sync_round_keeps_account_hosts_witness:
  "\<exists>hosts. serializeSyncPayload demo_uploaded = serializeSyncPayload hosts \<and>
     host_name ` set demo_remote \<subseteq> host_name ` set hosts"
  using sync_round_keeps_account_hosts [OF demo_named demo_round,
      of "\<lparr>seen = demo_pulled, uploaded = Some (Some 7, serializeSyncPayload demo_uploaded)\<rparr>"
        "Some 7" "serializeSyncPayload demo_uploaded"]
  by (auto simp: demo_pulled_def)

subsection \<open>Failing closed\<close>

definition readable :: "sync_effects \<Rightarrow> nat \<Rightarrow> attempt \<Rightarrow> bool" where
  "readable E n a \<longleftrightarrow> read_snapshot (pull E n) = Inr (pulled_version (seen a), pulled_hosts (seen a))"

lemma sync_loop_readable:
  "sync_loop E local left n sel = (res, log) \<Longrightarrow> i < length log \<Longrightarrow> readable E (n + i) (log ! i)"
proof (induction left arbitrary: n sel res log i)
  case (Suc left)
  from Suc.prems(1) show ?case
  proof (cases rule: sync_loop_cases)
    case (again version remote log')
    show ?thesis
    proof (cases i)
      case 0
      with again show ?thesis by (simp add: readable_def upload_attempt_def shown_def)
    next
      case (Suc j)
      with Suc.IH [OF again(4), of j] again Suc.prems(2) show ?thesis by simp
    qed
  qed (use Suc.prems(2) in \<open>auto simp: readable_def upload_attempt_def shown_def\<close>)
qed simp

lemma read_snapshot_InrD:
  assumes "read_snapshot answer = Inr (version, hosts)"
  shows "\<exists>kind v text. answer = Inr (Snapshot kind v text)
    \<and> (kind = Str ''absent'' \<and> version = None \<and> hosts = []
       \<or> kind = Str ''ok'' \<and> version_value v = version \<and> version \<noteq> None
         \<and> (\<exists>t. text = Some t \<and> parseSyncPayloadResult t = PayloadOk hosts))"
  using assms
  by (auto simp: read_snapshot_def split: sum.splits if_splits sync_snapshot.splits option.splits
      parse_result.splits) (metis option.exhaust)

text \<open>
  C26: the round fails closed. It reaches its i-th attempt, and so can upload in it, only when
  the i-th pull answered an absent account or a valid version with a payload the strict
  reader accepts; what the attempt shows is exactly that account.
\<close>

theorem sync_round_fails_closed:
  assumes "runSyncRound local sel E = (res, log)" "i < length log"
  shows "\<exists>kind v text. pull E (i + 1) = Inr (Snapshot kind v text)
    \<and> (kind = Str ''absent'' \<and> pulled_version (seen (log ! i)) = None \<and> pulled_hosts (seen (log ! i)) = []
       \<or> kind = Str ''ok'' \<and> version_value v = pulled_version (seen (log ! i))
         \<and> pulled_version (seen (log ! i)) \<noteq> None
         \<and> (\<exists>t. text = Some t \<and> parseSyncPayloadResult t = PayloadOk (pulled_hosts (seen (log ! i)))))"
proof -
  have "readable E (1 + i) (log ! i)"
    by (rule sync_loop_readable [OF assms(1) [unfolded runSyncRound_def] assms(2)])
  then show ?thesis unfolding readable_def using read_snapshot_InrD by (metis add.commute)
qed

theorem sync_round_fails_closed_witness:
  "\<exists>kind v text. pull demo_effects 1 = Inr (Snapshot kind v text) \<and> kind \<noteq> Str ''absent''"
  using sync_round_fails_closed [OF demo_round, of 0] by (auto simp: demo_pulled_def)

subsection \<open>What a finished round reports\<close>

lemma read_snapshot_not_synced: "read_snapshot answer \<noteq> Inl (Synced v c u hosts k)"
  by (auto simp: read_snapshot_def split: sum.splits if_splits sync_snapshot.splits option.splits
      parse_result.splits)

lemma read_push_SyncedD:
  "read_push answer p hs n = Inl (Synced v c u hosts k) \<Longrightarrow>
   c = selectedAliases p \<and> u = filter (\<lambda>a. a \<in> host_name ` set hs) (untickedAliases p)
   \<and> hosts = hs \<and> k = n"
  by (auto simp: read_push_def split: sum.splits js.splits if_splits)

lemma no_unticks_left:
  assumes "list_all named_host local"
  shows "filter (\<lambda>a. a \<in> host_name ` set (chosen local remote sel))
     (untickedAliases (shown version remote sel)) = []"
proof -
  let ?sel = "applyAccountToSelection remote sel"
  have "host_name ` set (chosen local remote sel) =
      set (map host_name (assembleSyncSet local remote (checked ?sel)))"
    by (simp add: chosen_def)
  also have "\<dots> \<subseteq> set (checked ?sel)" unfolding names_assemble [OF assms] by auto
  finally show ?thesis by (auto simp: shown_def filter_empty_conv)
qed

lemma sync_loop_synced:
  assumes "list_all named_host local" "sync_loop E local left n sel = (Synced v c u hosts k, log)"
  shows "u = [] \<and> k + 1 = n + length log \<and> log \<noteq> [] \<and> selectedAliases (seen (last log)) = c
    \<and> uploaded (last log) = Some (pulled_version (seen (last log)), serializeSyncPayload hosts)"
  using assms(2)
proof (induction left arbitrary: n sel log)
  case (Suc left)
  from Suc.prems show ?case
  proof (cases rule: sync_loop_cases)
    case stop
    then show ?thesis by (simp add: read_snapshot_not_synced)
  next
    case (final version remote)
    then have "c = selectedAliases (shown version remote sel)" "k = n" "u = []"
      "hosts = chosen local remote sel"
      using no_unticks_left [OF assms(1)] by (auto dest!: read_push_SyncedD)
    with final show ?thesis by (simp add: upload_attempt_def) (simp add: shown_def)
  next
    case (again version remote log')
    from Suc.IH [OF again(4)] again(3) show ?thesis by auto
  qed auto
qed simp

text \<open>
  An untick is one-shot. A round that reports \<open>synced\<close> uploaded exactly the hosts it
  reports, in its last attempt, and leaves no explicit untick behind.
\<close>

theorem synced_round_spends_unticks:
  assumes "list_all named_host local" "runSyncRound local sel E = (Synced v c u hosts k, log)"
  shows "u = [] \<and> k = length log \<and> log \<noteq> [] \<and> selectedAliases (seen (last log)) = c
    \<and> uploaded (last log) = Some (pulled_version (seen (last log)), serializeSyncPayload hosts)"
  using sync_loop_synced [OF assms(1) assms(2) [unfolded runSyncRound_def]] by simp

theorem synced_round_spends_unticks_witness:
  "uploaded (last (snd (runSyncRound demo_local \<lparr>checked = [''b''], unticked = []\<rparr> demo_effects))) =
     Some (Some 7, serializeSyncPayload demo_uploaded)"
  using synced_round_spends_unticks [OF demo_named demo_round] by (simp add: demo_round demo_pulled_def)

subsection \<open>Getting through\<close>

definition ok_answer :: "int \<Rightarrow> js" where
  "ok_answer v = Obj [(''kind'', Str ''ok''), (''version'', Num (IntN v))]"

definition conflict_answer :: "int \<Rightarrow> js" where
  "conflict_answer v = Obj [(''kind'', Str ''conflict''), (''currentVersion'', Num (IntN v))]"

definition usable_version :: "int \<Rightarrow> bool" where
  "usable_version v \<longleftrightarrow> 0 \<le> v \<and> v \<le> max_safe_integer"

lemma read_push_ok_answer:
  "usable_version v \<Longrightarrow> read_push (Inr (ok_answer v)) p hs n =
     Inl (Synced v (selectedAliases p) (filter (\<lambda>a. a \<in> host_name ` set hs) (untickedAliases p)) hs n)"
  by (simp add: read_push_def ok_answer_def get_prop_def usable_version_def max_safe_integer_def)

lemma read_push_conflict_answer:
  "usable_version v \<Longrightarrow> read_push (Inr (conflict_answer v)) p hs n = Inr v"
  by (simp add: read_push_def conflict_answer_def get_prop_def usable_version_def max_safe_integer_def)

lemma chosen_not_empty:
  assumes "list_all named_host local" "a \<in> set (checked sel)" "a \<in> host_name ` set local"
  shows "chosen local remote sel \<noteq> []"
proof -
  have "a \<in> set (map host_name (chosen local remote sel))"
    unfolding chosen_def names_assemble [OF assms(1)] using assms(2,3) by auto
  then show ?thesis by auto
qed

lemma sync_loop_settles:
  assumes "list_all named_host local" "a \<in> host_name ` set local" "\<And>p. onPulled E p = None"
    "\<And>i. \<exists>v r. read_snapshot (pull E i) = Inr (v, r)"
    "\<And>i b t. i < m \<Longrightarrow> push E i b t = Inr (conflict_answer w)"
    "\<And>b t. push E m b t = Inr (ok_answer v)" "usable_version v" "usable_version w"
    "m \<le> SYNC_ROUND_CONFLICT_RETRIES + 1"
    and "a \<in> set (checked sel)" "n \<le> m" "n + left = SYNC_ROUND_CONFLICT_RETRIES + 2"
  shows "\<exists>c hosts log. sync_loop E local left n sel = (Synced v c [] hosts m, log)"
  using assms(10-)
proof (induction left arbitrary: n sel)
  case 0
  with assms(9) show ?case by simp
next
  case (Suc left)
  obtain version remote where r: "read_snapshot (pull E n) = Inr (version, remote)"
    using assms(4) by blast
  let ?sel = "applyAccountToSelection remote sel"
  have ne: "chosen local remote sel \<noteq> []"
    by (rule chosen_not_empty [OF assms(1) Suc.prems(1) assms(2)])
  show ?case
  proof (cases "n = m")
    case True
    have "filter (\<lambda>a. a \<in> host_name ` set (chosen local remote sel)) (unticked ?sel) = []"
      using no_unticks_left [OF assms(1), of remote sel version] by (simp add: shown_def)
    then show ?thesis
      using r ne assms(3,6,7) True by (simp add: Let_def read_push_ok_answer chosen_def)
  next
    case False
    then have "n < m" using Suc.prems by simp
    moreover have "a \<in> set (checked ?sel)" using Suc.prems(1) by simp
    ultimately obtain c hosts log where
        "sync_loop E local left (n + 1) ?sel = (Synced v c [] hosts m, log)"
      using Suc.IH [of ?sel "n + 1"] Suc.prems by auto
    moreover have "\<not> SYNC_ROUND_CONFLICT_RETRIES < n" using \<open>n < m\<close> assms(9) by simp
    ultimately show ?thesis
      using r ne assms(3,5,8) \<open>n < m\<close> by (simp add: Let_def read_push_conflict_answer chosen_def)
  qed
qed

text \<open>
  C27: a round gets through up to three conflicts. When every pull is readable, one ticked
  alias is a local host and another device wins the first uploads, at most three of them, the
  round uploads again on the new account copy until it succeeds.
\<close>

theorem sync_round_survives_conflicts:
  assumes "list_all named_host local" "a \<in> host_name ` set local" "a \<in> set (checked sel)"
    and "\<And>p. onPulled E p = None" "\<And>i. \<exists>v r. read_snapshot (pull E i) = Inr (v, r)"
    and "\<And>i b t. i < m \<Longrightarrow> push E i b t = Inr (conflict_answer w)"
    and "\<And>b t. push E m b t = Inr (ok_answer v)" "usable_version v" "usable_version w"
    and "1 \<le> m" "m \<le> 4"
  shows "\<exists>c hosts log. runSyncRound local sel E = (Synced v c [] hosts m, log)"
  unfolding runSyncRound_def
  by (rule sync_loop_settles [where a = a and w = w])
    (use assms in \<open>simp_all add: SYNC_ROUND_CONFLICT_RETRIES_def\<close>)

theorem sync_round_survives_conflicts_witness:
  "\<exists>c hosts log. runSyncRound demo_local \<lparr>checked = [''a''], unticked = []\<rparr>
     (demo_effects\<lparr>push := (\<lambda>n b t. Inr (if n < 3 then conflict_answer 9 else ok_answer 10))\<rparr>)
     = (Synced 10 c [] hosts 3, log)"
proof (rule sync_round_survives_conflicts [OF demo_named, where a = "''a''" and w = 9])
  show "\<exists>v r. read_snapshot (pull (demo_effects\<lparr>push := (\<lambda>n b t. Inr (if n < 3 then conflict_answer 9
      else ok_answer 10))\<rparr>) i) = Inr (v, r)" for i
    by (simp add: demo_effects_def read_snapshot_def demo_parse max_safe_integer_def)
qed (simp_all add: demo_effects_def usable_version_def max_safe_integer_def demo_local_def
    host_name_def get_prop_def)

end
