(* ===== verification/Port_Policy.thy ===== *)
theory Port_Policy
  imports Js_Values "HOL-Library.Product_Lexorder"
begin

text \<open>
  The automatic port-forward policy: src/src/portForwardPolicy.ts. Ports that come from
  outside (a scan, a setting) are JavaScript numbers; the ones that pass
  \<open>isValidTcpPort\<close> are integers from there on. A JavaScript \<open>Record<number, v>\<close> is an
  association list with distinct integer keys.
\<close>

subsection \<open>Data\<close>

datatype forward_origin = Auto | Manual | SshConfig
datatype port_intent = ForceOn | ForceOff

record port_config =
  skipPortsBelow :: int
  maxAutoPort :: int
  skipPorts :: "int list"
  missingScansBeforeStop :: int
  failedPortTtlMs :: int
  maxActiveForwards :: int

definition DEFAULT_PORT_FORWARD_POLICY :: port_config where
  "DEFAULT_PORT_FORWARD_POLICY =
     \<lparr>skipPortsBelow = 1024, maxAutoPort = 10000, skipPorts = [], missingScansBeforeStop = 2,
      failedPortTtlMs = 60000, maxActiveForwards = 8\<rparr>"

text \<open>\<open>Partial<PortForwardPolicyConfig>\<close> and \<open>{ ...DEFAULT_PORT_FORWARD_POLICY, ...config }\<close>.\<close>

record port_options =
  o_skipPortsBelow :: "int option"
  o_maxAutoPort :: "int option"
  o_skipPorts :: "int list option"
  o_missingScansBeforeStop :: "int option"
  o_failedPortTtlMs :: "int option"
  o_maxActiveForwards :: "int option"

definition or_else :: "'a \<Rightarrow> 'a option \<Rightarrow> 'a" where
  "or_else d x = (case x of None \<Rightarrow> d | Some y \<Rightarrow> y)"

definition with_defaults :: "port_options \<Rightarrow> port_config" where
  "with_defaults opt = (let d = DEFAULT_PORT_FORWARD_POLICY in
     \<lparr>skipPortsBelow = or_else (skipPortsBelow d) (o_skipPortsBelow opt),
      maxAutoPort = or_else (maxAutoPort d) (o_maxAutoPort opt),
      skipPorts = or_else (skipPorts d) (o_skipPorts opt),
      missingScansBeforeStop = or_else (missingScansBeforeStop d) (o_missingScansBeforeStop opt),
      failedPortTtlMs = or_else (failedPortTtlMs d) (o_failedPortTtlMs opt),
      maxActiveForwards = or_else (maxActiveForwards d) (o_maxActiveForwards opt)\<rparr>)"

record port_scan =
  scan_ok :: bool
  scan_ports :: "jsnum list"

record plan_input =
  scan :: port_scan
  activeForwards :: "(jsnum \<times> forward_origin) list"
  desiredManualPorts :: "jsnum list"
  intents :: "(int \<times> port_intent) list"
  sshConfigPorts :: "jsnum list"
  autoEnabled :: bool
  priorMissingScans :: "(int \<times> int) list"
  failedAt :: "(int \<times> int) list"
  nowMs :: int
  config :: port_options

record plan =
  openPorts :: "int list"
  closePorts :: "int list"
  deferredPorts :: "int list"
  desiredPorts :: "int list"
  missingScans :: "(int \<times> int) list"
  interestingPorts :: "int list"

subsection \<open>Ports\<close>

fun isValidTcpPort :: "jsnum \<Rightarrow> bool" where
  "isValidTcpPort (IntN p) = (1 \<le> p \<and> p \<le> 65535)"
| "isValidTcpPort _ = False"

fun port_int :: "jsnum \<Rightarrow> int" where
  "port_int (IntN p) = p"
| "port_int _ = 0"

definition isInterestingPort :: "int \<Rightarrow> port_config \<Rightarrow> bool" where
  "isInterestingPort p policy \<longleftrightarrow>
     isValidTcpPort (IntN p) \<and> skipPortsBelow policy \<le> p \<and> p \<le> maxAutoPort policy
     \<and> p \<notin> set (skipPorts policy)"

definition uniqueValidPorts :: "jsnum list \<Rightarrow> int list" where
  "uniqueValidPorts ports = sort (js_uniq (map port_int (filter isValidTcpPort ports)))"

definition scanCanProveAbsence :: "port_scan \<Rightarrow> bool" where
  "scanCanProveAbsence sc = (scan_ok sc \<and> list_ex isValidTcpPort (scan_ports sc))"

lemma valid_portE:
  assumes "isValidTcpPort n" obtains p where "n = IntN p" "1 \<le> p" "p \<le> 65535"
  using assms by (cases n) auto

lemma set_uniqueValidPorts [simp]:
  "p \<in> set (uniqueValidPorts ports) \<longleftrightarrow> IntN p \<in> set ports \<and> isValidTcpPort (IntN p)"
  by (force simp: uniqueValidPorts_def elim: valid_portE)

lemma uniqueValidPorts_ordered [simp]:
  "distinct (uniqueValidPorts ports)" "sorted (uniqueValidPorts ports)"
  by (simp_all add: uniqueValidPorts_def)

subsection \<open>The plan\<close>

definition intent_of :: "plan_input \<Rightarrow> int \<Rightarrow> port_intent option" where
  "intent_of inp p = map_of (intents inp) p"

text \<open>\<open>activeByPort\<close>: a later forward of the same port replaces an earlier one in place.\<close>

definition active_by_port :: "plan_input \<Rightarrow> (int \<times> forward_origin) list" where
  "active_by_port inp =
     fold (\<lambda>(p, og) m. if isValidTcpPort p then AList.update (port_int p) og m else m)
       (activeForwards inp) []"

definition active_ports :: "plan_input \<Rightarrow> int list" where
  "active_ports inp = map fst (active_by_port inp)"

definition ssh_config_set :: "plan_input \<Rightarrow> int list" where
  "ssh_config_set inp = uniqueValidPorts (sshConfigPorts inp)"

definition manual_ports :: "plan_input \<Rightarrow> int list" where
  "manual_ports inp =
     filter (\<lambda>p. (p, ForceOff) \<notin> set (intents inp))
       (js_uniq (uniqueValidPorts (desiredManualPorts inp)
          @ map fst (filter (\<lambda>(p, i). i = ForceOn \<and> isValidTcpPort (IntN p)) (intents inp))))"

definition observed_ports :: "plan_input \<Rightarrow> int list" where
  "observed_ports inp = (if scan_ok (scan inp) then uniqueValidPorts (scan_ports (scan inp)) else [])"

definition interesting_ports :: "plan_input \<Rightarrow> int list" where
  "interesting_ports inp =
     filter (\<lambda>p. isInterestingPort p (with_defaults (config inp))) (observed_ports inp)"

definition not_excluded :: "plan_input \<Rightarrow> int \<Rightarrow> bool" where
  "not_excluded inp p \<longleftrightarrow> intent_of inp p \<noteq> Some ForceOff \<and> p \<notin> set (ssh_config_set inp)"

definition auto_targets :: "plan_input \<Rightarrow> int list" where
  "auto_targets inp =
     (if \<not> autoEnabled inp then [] else filter (not_excluded inp) (interesting_ports inp))"

definition manual_targets :: "plan_input \<Rightarrow> int list" where
  "manual_targets inp = filter (not_excluded inp) (manual_ports inp)"

definition desired_set :: "plan_input \<Rightarrow> int list" where
  "desired_set inp = js_uniq (manual_targets inp @ auto_targets inp)"

definition required_misses :: "plan_input \<Rightarrow> int" where
  "required_misses inp = max 1 (missingScansBeforeStop (with_defaults (config inp)))"

definition misses_of :: "plan_input \<Rightarrow> int \<Rightarrow> int" where
  "misses_of inp p = or_else 0 (map_of (priorMissingScans inp) p) + 1"

text \<open>The loop over the live tunnels: what it closes and the absence counters it keeps.\<close>

fun sweep ::
    "plan_input \<Rightarrow> (int \<times> forward_origin) list \<Rightarrow> int list \<times> (int \<times> int) list" where
  "sweep inp [] = ([], [])"
| "sweep inp ((port, og) # rest) =
     (let (close, misses) = sweep inp rest;
          wasAutoCreated = (og = Auto \<or> og = Manual \<and> port \<notin> set (manual_ports inp)) in
      if og = SshConfig then (close, misses)
      else if intent_of inp port = Some ForceOff
           \<or> \<not> autoEnabled inp \<and> wasAutoCreated \<and> port \<notin> set (desired_set inp)
      then (port # close, misses)
      else if port \<in> set (manual_ports inp) \<or> port \<in> set (desired_set inp) then (close, misses)
      else if \<not> wasAutoCreated then (close, misses)
      else if \<not> scanCanProveAbsence (scan inp) then (close, misses)
      else if port \<in> set (observed_ports inp) then (close, misses)
      else if required_misses inp \<le> misses_of inp port then (port # close, misses)
      else (close, (port, misses_of inp port) # misses))"

definition closing_ports :: "plan_input \<Rightarrow> int list" where
  "closing_ports inp = fst (sweep inp (active_by_port inp))"

definition free_slots :: "plan_input \<Rightarrow> nat" where
  "free_slots inp =
     nat (max 0 (maxActiveForwards (with_defaults (config inp))
       - int (length (filter (\<lambda>p. p \<notin> set (closing_ports inp)) (active_ports inp)))))"

definition candidates :: "plan_input \<Rightarrow> int list" where
  "candidates inp =
     filter (\<lambda>p. p \<notin> set (active_ports inp)) (manual_targets inp)
       @ filter (\<lambda>p. p \<notin> set (active_ports inp) \<and> p \<notin> set (manual_ports inp)) (auto_targets inp)"

definition ordered_candidates :: "plan_input \<Rightarrow> int list" where
  "ordered_candidates inp =
     sort_key (\<lambda>p. (if p \<in> set (manual_ports inp) then 0 else 1 :: nat, p))
       (uniqueValidPorts (map IntN (candidates inp)))"

definition held_down :: "plan_input \<Rightarrow> int \<Rightarrow> bool" where
  "held_down inp p =
     (case map_of (failedAt inp) p of
        None \<Rightarrow> False
      | Some t \<Rightarrow> nowMs inp - t < failedPortTtlMs (with_defaults (config inp)))"

definition retryable :: "plan_input \<Rightarrow> int list" where
  "retryable inp = filter (\<lambda>p. \<not> held_down inp p) (ordered_candidates inp)"

definition planPortForwards :: "plan_input \<Rightarrow> plan" where
  "planPortForwards inp =
     \<lparr>openPorts = take (free_slots inp) (retryable inp),
      closePorts = sort (closing_ports inp),
      deferredPorts = drop (free_slots inp) (retryable inp),
      desiredPorts = sort (desired_set inp),
      missingScans = snd (sweep inp (active_by_port inp)),
      interestingPorts = interesting_ports inp\<rparr>"

subsection \<open>Facts\<close>

lemma active_fold_keys:
  "distinct (map fst m) \<Longrightarrow>
   distinct (map fst (fold (\<lambda>(p, og) m. if isValidTcpPort p then AList.update (port_int p) og m else m) xs m))"
  by (induction xs arbitrary: m) (auto simp: distinct_update)

lemma active_fold_valid:
  "\<forall>q \<in> fst ` set m. isValidTcpPort (IntN q) \<Longrightarrow>
   \<forall>q \<in> fst ` set (fold (\<lambda>(p, og) m. if isValidTcpPort p then AList.update (port_int p) og m else m) xs m).
     isValidTcpPort (IntN q)"
proof (induction xs arbitrary: m)
  case (Cons x xs)
  obtain a b where x: "x = (a, b)" by (cases x)
  have "\<forall>q \<in> fst ` set (if isValidTcpPort a then AList.update (port_int a) b m else m).
      isValidTcpPort (IntN q)"
  proof (cases "isValidTcpPort a")
    case True
    then have "isValidTcpPort (IntN (port_int a))" by (auto elim: valid_portE)
    with True Cons.prems show ?thesis
      by (simp only: dom_update if_True) blast
  qed (use Cons.prems in simp)
  from Cons.IH [OF this] show ?case by (simp add: x)
qed simp

lemma active_ports_valid: "p \<in> set (active_ports inp) \<Longrightarrow> isValidTcpPort (IntN p)"
  using active_fold_valid [of "[]" "activeForwards inp"]
  by (auto simp: active_ports_def active_by_port_def simp del: isValidTcpPort.simps)

lemma distinct_active_ports [simp]: "distinct (active_ports inp)"
  by (simp add: active_ports_def active_by_port_def active_fold_keys)

lemma manual_ports_not_off: "p \<in> set (manual_ports inp) \<Longrightarrow> isValidTcpPort (IntN p)"
  by (auto simp: manual_ports_def simp del: isValidTcpPort.simps)

lemma set_candidates:
  "p \<in> set (candidates inp) \<longleftrightarrow> p \<in> set (desired_set inp) \<and> p \<notin> set (active_ports inp)"
  by (auto simp: candidates_def desired_set_def manual_targets_def auto_targets_def)

lemma desired_valid: "p \<in> set (desired_set inp) \<Longrightarrow> isValidTcpPort (IntN p)"
  by (auto simp: desired_set_def manual_targets_def auto_targets_def interesting_ports_def
      isInterestingPort_def manual_ports_not_off simp del: isValidTcpPort.simps split: if_splits)

lemma set_retryable:
  "p \<in> set (retryable inp) \<longleftrightarrow>
     p \<in> set (desired_set inp) \<and> p \<notin> set (active_ports inp) \<and> \<not> held_down inp p"
  by (auto simp: retryable_def ordered_candidates_def set_candidates desired_valid image_iff
      simp del: isValidTcpPort.simps)

lemma distinct_retryable [simp]: "distinct (retryable inp)"
  by (simp add: retryable_def ordered_candidates_def)

lemma open_deferred: "openPorts (planPortForwards inp) @ deferredPorts (planPortForwards inp) = retryable inp"
  by (simp add: planPortForwards_def)

lemma desired_not_excluded: "p \<in> set (desired_set inp) \<Longrightarrow> not_excluded inp p"
  by (auto simp: desired_set_def manual_targets_def auto_targets_def split: if_splits)

lemma set_desiredPorts [simp]: "set (desiredPorts (planPortForwards inp)) = set (desired_set inp)"
  by (simp add: planPortForwards_def)

lemma set_openD: "p \<in> set (openPorts (planPortForwards inp)) \<Longrightarrow> p \<in> set (retryable inp)"
  by (auto simp: planPortForwards_def dest: in_set_takeD)

lemma distinct_sweep: "distinct (map fst act) \<Longrightarrow> distinct (fst (sweep inp act))
    \<and> set (fst (sweep inp act)) \<subseteq> fst ` set act"
  by (induction inp act rule: sweep.induct) (auto simp: Let_def split: prod.splits)

lemma sweep_closeD:
  assumes "distinct (map fst act)" "p \<in> set (fst (sweep inp act))"
  shows "\<exists>og. map_of act p = Some og \<and> og \<noteq> SshConfig \<and> p \<notin> set (desired_set inp)
    \<and> (intent_of inp p = Some ForceOff
       \<or> \<not> autoEnabled inp \<and> (og = Auto \<or> p \<notin> set (manual_ports inp))
       \<or> scanCanProveAbsence (scan inp) \<and> p \<notin> set (observed_ports inp)
         \<and> p \<notin> set (manual_ports inp) \<and> required_misses inp \<le> misses_of inp p)"
  using assms
proof (induction act)
  case (Cons a act)
  obtain q og where a: "a = (q, og)" by (cases a)
  show ?case
  proof (cases "p \<in> set (fst (sweep inp act))")
    case True
    then have "p \<in> fst ` set act" using distinct_sweep [of act inp] Cons.prems by auto
    then have "p \<noteq> q" using Cons.prems by (auto simp: a)
    with Cons True show ?thesis by (simp add: a)
  next
    case False
    with Cons.prems have "p = q" by (auto simp: a Let_def split: prod.splits if_splits)
    with Cons.prems False show ?thesis
      by (auto simp: a Let_def split: prod.splits if_splits
          dest: desired_not_excluded simp: not_excluded_def)
  qed
qed simp

lemma closing_distinct: "distinct (closing_ports inp)" "set (closing_ports inp) \<subseteq> set (active_ports inp)"
  using distinct_sweep [of "active_by_port inp" inp] distinct_active_ports [of inp]
  by (auto simp: closing_ports_def active_ports_def)

lemma sweep_missD:
  assumes "distinct (map fst act)" "(p, n) \<in> set (snd (sweep inp act))"
  shows "map_of act p \<in> {Some Auto, Some Manual} \<and> p \<notin> set (fst (sweep inp act))
    \<and> n = misses_of inp p \<and> n < required_misses inp \<and> scanCanProveAbsence (scan inp)
    \<and> p \<notin> set (observed_ports inp)"
  using assms
proof (induction act)
  case (Cons a act)
  obtain q og where a: "a = (q, og)" by (cases a)
  have sub: "set (fst (sweep inp act)) \<subseteq> fst ` set act"
    using distinct_sweep [of act inp] Cons.prems by auto
  show ?case
  proof (cases "(p, n) \<in> set (snd (sweep inp act))")
    case True
    with Cons have *: "map_of act p \<in> {Some Auto, Some Manual}" "p \<notin> set (fst (sweep inp act))"
      by (auto simp: a)
    from *(1) have "map_of act p \<noteq> None" by auto
    then have "p \<in> fst ` set act" by (simp add: map_of_eq_None_iff)
    then have "p \<noteq> q" using Cons.prems(1) a by auto
    with Cons True show ?thesis by (auto simp: a Let_def split: prod.splits)
  next
    case False
    with Cons.prems have "p = q" by (auto simp: a Let_def split: prod.splits if_splits)
    with Cons.prems False sub show ?thesis
      by (cases og) (auto simp: a Let_def split: prod.splits if_splits)
  qed
qed simp

subsection \<open>What a plan promises\<close>

text \<open>
  What is opened. A planned port is a valid TCP port the user did not silence and the SSH
  configuration does not own, is not forwarded already and is not held down by a recent
  failure; and it is either a manual port or, with the automatic policy on, one the scan saw
  inside the automatic window.
\<close>

theorem opens_only_wanted_ports:
  assumes "p \<in> set (openPorts (planPortForwards inp))"
  shows "1 \<le> p \<and> p \<le> 65535 \<and> map_of (intents inp) p \<noteq> Some ForceOff
    \<and> IntN p \<notin> set (sshConfigPorts inp) \<and> p \<notin> set (active_ports inp) \<and> \<not> held_down inp p
    \<and> (p \<in> set (manual_ports inp)
       \<or> autoEnabled inp \<and> scan_ok (scan inp) \<and> IntN p \<in> set (scan_ports (scan inp))
         \<and> isInterestingPort p (with_defaults (config inp)))"
proof -
  from set_openD [OF assms] have r: "p \<in> set (desired_set inp)" "p \<notin> set (active_ports inp)"
    "\<not> held_down inp p" by (simp_all add: set_retryable)
  have v: "isValidTcpPort (IntN p)" using r(1) by (rule desired_valid)
  have x: "not_excluded inp p" using r(1) by (rule desired_not_excluded)
  have "p \<in> set (manual_ports inp) \<or> p \<in> set (auto_targets inp)"
    using r(1) by (auto simp: desired_set_def manual_targets_def)
  then show ?thesis
    using r v x by (auto simp: not_excluded_def intent_of_def ssh_config_set_def auto_targets_def
        interesting_ports_def observed_ports_def split: if_splits)
qed

definition demo_scan :: port_scan where
  "demo_scan = \<lparr>scan_ok = True, scan_ports = [IntN 22, IntN 3000, IntN 8080]\<rparr>"

definition no_options :: port_options where
  "no_options = \<lparr>o_skipPortsBelow = None, o_maxAutoPort = None, o_skipPorts = None,
     o_missingScansBeforeStop = None, o_failedPortTtlMs = None, o_maxActiveForwards = None\<rparr>"

definition demo_input :: plan_input where
  "demo_input = \<lparr>scan = demo_scan, activeForwards = [(IntN 5000, Auto)],
     desiredManualPorts = [IntN 22], intents = [(8080, ForceOff)], sshConfigPorts = [],
     autoEnabled = True, priorMissingScans = [(5000, 1)], failedAt = [], nowMs = 0,
     config = no_options\<rparr>"

lemmas plan_simps = planPortForwards_def retryable_def ordered_candidates_def candidates_def
  manual_targets_def auto_targets_def interesting_ports_def observed_ports_def manual_ports_def
  uniqueValidPorts_def active_ports_def active_by_port_def closing_ports_def free_slots_def
  held_down_def not_excluded_def intent_of_def ssh_config_set_def desired_set_def
  required_misses_def misses_of_def isInterestingPort_def with_defaults_def
  DEFAULT_PORT_FORWARD_POLICY_def or_else_def scanCanProveAbsence_def

lemma demo_plan:
  "planPortForwards demo_input =
     \<lparr>openPorts = [22, 3000], closePorts = [5000], deferredPorts = [], desiredPorts = [22, 3000],
      missingScans = [], interestingPorts = [3000, 8080]\<rparr>"
  by (simp add: demo_input_def plan_simps demo_scan_def no_options_def js_uniq_def)

theorem opens_only_wanted_ports_witness:
  "isInterestingPort 3000 (with_defaults (config demo_input))"
  using opens_only_wanted_ports [of 3000 demo_input]
  by (simp add: demo_plan) (simp add: demo_input_def plan_simps demo_scan_def no_options_def js_uniq_def)

text \<open>
  Nothing wanted is forgotten, and the limit holds. The ports to open and to defer are
  exactly the wanted ports that are neither forwarded nor held down, each once; a port is
  deferred only when the limit is full, and the tunnels kept plus the ones opened never exceed
  the limit unless the kept ones alone already do.
\<close>

theorem plan_is_complete_and_bounded:
  "let pl = planPortForwards inp;
       kept = length (filter (\<lambda>p. p \<notin> set (closePorts pl)) (active_ports inp));
       limit = maxActiveForwards (with_defaults (config inp)) in
   distinct (openPorts pl @ deferredPorts pl)
   \<and> set (openPorts pl @ deferredPorts pl) =
       {p \<in> set (desiredPorts pl). p \<notin> set (active_ports inp) \<and> \<not> held_down inp p}
   \<and> int (kept + length (openPorts pl)) \<le> max limit (int kept)
   \<and> (deferredPorts pl = [] \<or> limit \<le> int (kept + length (openPorts pl)))"
proof -
  let ?pl = "planPortForwards inp"
  let ?kept = "length (filter (\<lambda>p. p \<notin> set (closing_ports inp)) (active_ports inp))"
  let ?limit = "maxActiveForwards (with_defaults (config inp))"
  have k: "set (closePorts ?pl) = set (closing_ports inp)" by (simp add: planPortForwards_def)
  have f: "free_slots inp = nat (max 0 (?limit - int ?kept))" by (simp add: free_slots_def)
  have o: "length (openPorts ?pl) = min (length (retryable inp)) (free_slots inp)"
    by (simp add: planPortForwards_def min.commute)
  have "int (?kept + length (openPorts ?pl)) \<le> max ?limit (int ?kept)"
    unfolding o f by linarith
  moreover have "deferredPorts ?pl = [] \<or> ?limit \<le> int (?kept + length (openPorts ?pl))"
  proof (cases "length (retryable inp) \<le> free_slots inp")
    case True
    then show ?thesis by (simp add: planPortForwards_def)
  next
    case False
    then have "length (openPorts ?pl) = free_slots inp" using o by simp
    then show ?thesis unfolding f by linarith
  qed
  moreover have "set (retryable inp) =
      {p \<in> set (desiredPorts ?pl). p \<notin> set (active_ports inp) \<and> \<not> held_down inp p}"
    by (auto simp: set_retryable)
  ultimately show ?thesis unfolding Let_def open_deferred k by simp
qed

text \<open>
  C29: a live tunnel is never closed on weak evidence. A plan closes a tunnel only when it
  carries one that the SSH configuration does not own, never a port it still wants, and only
  because the user silenced the port, or switched the automatic policy off, or a scan that
  found the host's listeners missed the port for the required number of scans in a row.
\<close>

theorem closes_only_on_evidence:
  assumes "p \<in> set (closePorts (planPortForwards inp))"
  shows "p \<notin> set (desiredPorts (planPortForwards inp))
    \<and> (\<exists>og. map_of (active_by_port inp) p = Some og \<and> og \<noteq> SshConfig)
    \<and> (map_of (intents inp) p = Some ForceOff
       \<or> \<not> autoEnabled inp
       \<or> scanCanProveAbsence (scan inp) \<and> IntN p \<notin> set (scan_ports (scan inp))
         \<and> p \<notin> set (manual_ports inp) \<and> required_misses inp \<le> misses_of inp p)"
proof -
  have "p \<in> set (fst (sweep inp (active_by_port inp)))"
    using assms by (simp add: planPortForwards_def closing_ports_def)
  from sweep_closeD [OF _ this] distinct_active_ports [of inp]
  obtain og where og: "map_of (active_by_port inp) p = Some og" "og \<noteq> SshConfig"
      "p \<notin> set (desired_set inp)"
      "intent_of inp p = Some ForceOff \<or> \<not> autoEnabled inp
       \<or> scanCanProveAbsence (scan inp) \<and> p \<notin> set (observed_ports inp)
         \<and> p \<notin> set (manual_ports inp) \<and> required_misses inp \<le> misses_of inp p"
    by (auto simp: active_ports_def)
  have "p \<in> set (active_ports inp)"
    using og(1) by (force simp: active_ports_def dest: map_of_SomeD)
  then have "isValidTcpPort (IntN p)" by (rule active_ports_valid)
  with og show ?thesis
    by (auto simp: intent_of_def observed_ports_def scanCanProveAbsence_def
        simp del: isValidTcpPort.simps split: if_splits)
qed

theorem closes_only_on_evidence_witness:
  "required_misses demo_input \<le> misses_of demo_input 5000"
  using closes_only_on_evidence [of 5000 demo_input]
  by (simp add: demo_plan) (simp add: demo_input_def)

end
