(* ===== verification/Ssh_Capability.thy ===== *)
theory Ssh_Capability
  imports Js_Values
begin

text \<open>
  The identity every call over a platform's SSH capability carries and every answer echoes:
  src/src/sshExec.ts and the reference types of src/src/sshCapability.ts.
\<close>

record connection_ref =
  connectionId :: string
  generationId :: string

record request_echo =
  requestId :: string
  echo_ref :: connection_ref

definition isSshResponseFor :: "request_echo \<Rightarrow> string \<Rightarrow> connection_ref \<Rightarrow> bool" where
  "isSshResponseFor response rid conn \<longleftrightarrow>
     requestId response = rid
     \<and> connectionId (echo_ref response) = connectionId conn
     \<and> generationId (echo_ref response) = generationId conn"

lemma isSshResponseFor_eq:
  "isSshResponseFor r rid conn \<Longrightarrow> connection_ref.more conn = connection_ref.more (echo_ref r) \<Longrightarrow>
   requestId r = rid \<and> echo_ref r = conn"
  by (cases conn, cases "echo_ref r") (auto simp: isSshResponseFor_def)

text \<open>
  \<open>execChecked\<close>: an answer that echoes another request, connection or generation is an error;
  what the capability throws propagates.
\<close>

datatype 'a exec_outcome = ExecResult 'a | ExecMismatch | ExecThrew string

definition execChecked ::
    "(string \<Rightarrow> string + request_echo \<times> 'a) \<Rightarrow> connection_ref \<Rightarrow> string \<Rightarrow> 'a exec_outcome" where
  "execChecked exec conn rid =
     (case exec rid of
        Inl err \<Rightarrow> ExecThrew err
      | Inr (echo, result) \<Rightarrow>
          if isSshResponseFor echo rid conn then ExecResult result else ExecMismatch)"

subsection \<open>Errors and credentials crossing the capability\<close>

record ssh_error =
  e_message :: string
  e_code :: string
  e_data :: fields

text \<open>
  What a rejected native call threw: a capability error already, another \<open>Error\<close> object, a
  plain bridge object (an array has none of the fields), or any other value with its text.
\<close>

datatype thrown =
  CapabilityError ssh_error | ErrorObject fields | ThrownObject fields | ThrownText string

definition plain_error :: "string \<Rightarrow> thrown" where
  "plain_error msg = ErrorObject [(''message'', Str msg)]"

definition bridge_error :: "fields \<Rightarrow> ssh_error" where
  "bridge_error c =
     \<lparr>e_message = (case get_prop c ''message'' of Str m \<Rightarrow> m | _ \<Rightarrow> ''SSH operation failed''),
      e_code = (case get_prop c ''code'' of Str k \<Rightarrow> k | _ \<Rightarrow> ''SSH_ERROR''),
      e_data = (case get_prop c ''data'' of Obj d \<Rightarrow> d | _ \<Rightarrow> [])\<rparr>"

definition readSshCapabilityError :: "thrown \<Rightarrow> ssh_error" where
  "readSshCapabilityError t =
     (case t of
        CapabilityError e \<Rightarrow> e
      | ErrorObject c \<Rightarrow> bridge_error c
      | ThrownObject c \<Rightarrow> bridge_error c
      | ThrownText msg \<Rightarrow> \<lparr>e_message = msg, e_code = ''SSH_ERROR'', e_data = []\<rparr>)"

text \<open>\<open>error instanceof Error ? error.message : String(error)\<close>\<close>

definition error_text :: "thrown \<Rightarrow> string" where
  "error_text t =
     (case t of
        CapabilityError e \<Rightarrow> e_message e
      | ErrorObject c \<Rightarrow> (case get_prop c ''message'' of Str m \<Rightarrow> m | _ \<Rightarrow> [])
      | ThrownObject c \<Rightarrow> ''[object Object]''
      | ThrownText msg \<Rightarrow> msg)"

definition isLinkTransportTarget :: "js \<Rightarrow> bool" where
  "isLinkTransportTarget value =
     (case value of
        Obj c \<Rightarrow>
          (case (get_prop c ''relayUrl'', get_prop c ''hostId'') of
             (Str r, Str h) \<Rightarrow> js_trim r \<noteq> [] \<and> js_trim h \<noteq> []
           | _ \<Rightarrow> False)
      | _ \<Rightarrow> False)"

text \<open>A credential is the plain object the caller passed.\<close>

definition isKeyHandleCredential :: "fields \<Rightarrow> bool" where
  "isKeyHandleCredential c \<longleftrightarrow> get_prop c ''kind'' = Str ''key-handle''"

definition isValidSshKeyHandleCredential :: "fields \<Rightarrow> bool" where
  "isValidSshKeyHandleCredential c \<longleftrightarrow>
     get_prop c ''kind'' = Str ''key-handle''
     \<and> (case get_prop c ''handleId'' of Str h \<Rightarrow> js_trim h \<noteq> [] | _ \<Rightarrow> False)
     \<and> (case get_prop c ''passphrase'' of Undef \<Rightarrow> True | Null \<Rightarrow> True | Str _ \<Rightarrow> True | _ \<Rightarrow> False)
     \<and> list_all (\<lambda>k. k \<in> {''kind'', ''handleId'', ''passphrase''}) (map fst c)"

end
