(* ===== verification/Port_Controller.thy ===== *)
theory Port_Controller
  imports Port_Policy Ssh_Capability
begin

text \<open>
  The port-forward controller of one connection: src/src/portForwardController.ts. Its queued
  operations run one after another; a step of the machine is what runs between two awaits.
  User settings may change between any two steps, native calls settle with any answer.
\<close>

subsection \<open>State\<close>

record tunnel =
  t_remotePort :: int
  t_localPort :: jsnum
  t_origin :: forward_origin
  t_forwardId :: string
  t_conn :: connection_ref

datatype work =
    SetConnection connection_ref
  | ScanAndReconcile
  | Reconcile port_scan
  | CloseAll

datatype native_call =
    CallScan connection_ref
  | CallOpen string connection_ref int
  | CallClose string tunnel

text \<open>The awaited call and what the operation still has to do after it.\<close>

datatype job =
    Scanning
  | Closing port_scan plan string tunnel "int list"
  | Opening port_scan string int "int list" "int list"
  | ClosingAll "(string \<times> tunnel) list"
  | Replacing "(string \<times> tunnel) list"

record port_snapshot =
  snap_scan :: port_scan
  snap_active :: "(int \<times> jsnum \<times> forward_origin) list"
  snap_deferred :: "int list"
  snap_errors :: "(int \<times> string) list"

record port_controller =
  connection :: connection_ref
  manualDesired :: "int list"
  userIntents :: "(int \<times> port_intent) list"
  forwards :: "(int \<times> tunnel) list"
  missing :: "(int \<times> int) list"
  failures :: "(int \<times> int) list"
  errors :: "(int \<times> string) list"
  autoOn :: bool
  operations :: "work list"
  job :: "job option"
  options :: port_options
  sshConfig :: "jsnum list"
  createRequestId :: "nat \<Rightarrow> string"
  requests :: nat
  calls :: "native_call list"
  snapshots :: "port_snapshot list"

definition new_port_controller ::
    "connection_ref \<Rightarrow> jsnum list \<Rightarrow> jsnum list \<Rightarrow> port_options \<Rightarrow> (nat \<Rightarrow> string) \<Rightarrow> port_controller" where
  "new_port_controller conn manual ssh opts ids =
     \<lparr>connection = conn, manualDesired = js_uniq (map port_int (filter isValidTcpPort manual)),
      userIntents = [], forwards = [], missing = [], failures = [], errors = [], autoOn = True,
      operations = [], job = None, options = opts, sshConfig = ssh, createRequestId = ids,
      requests = 0, calls = [], snapshots = []\<rparr>"

subsection \<open>User settings\<close>

definition getManualDesiredPorts :: "port_controller \<Rightarrow> int list" where
  "getManualDesiredPorts c = sort (manualDesired c)"

definition setAutoEnabled :: "bool \<Rightarrow> port_controller \<Rightarrow> port_controller" where
  "setAutoEnabled enabled c = c\<lparr>autoOn := enabled\<rparr>"

text \<open>A port that is not valid throws a \<open>RangeError\<close> (\<open>None\<close>) before anything changes.\<close>

definition setManualDesiredPort :: "jsnum \<Rightarrow> bool \<Rightarrow> port_controller \<Rightarrow> port_controller option" where
  "setManualDesiredPort n enabled c =
     (if \<not> isValidTcpPort n then None
      else let p = port_int n in
        Some (if enabled
          then c\<lparr>manualDesired := (if p \<in> set (manualDesired c) then manualDesired c else manualDesired c @ [p]),
                 userIntents := AList.delete p (userIntents c),
                 failures := AList.delete p (failures c)\<rparr>
          else c\<lparr>manualDesired := filter (\<lambda>q. q \<noteq> p) (manualDesired c),
                 userIntents := AList.update p ForceOff (userIntents c)\<rparr>))"

definition followAutomaticPolicy :: "int \<Rightarrow> port_controller \<Rightarrow> port_controller" where
  "followAutomaticPolicy p c =
     c\<lparr>manualDesired := filter (\<lambda>q. q \<noteq> p) (manualDesired c),
       userIntents := AList.delete p (userIntents c),
       failures := AList.delete p (failures c)\<rparr>"

subsection \<open>Native calls\<close>

definition mismatched_close :: string where
  "mismatched_close = ''Native port-forward close returned a mismatched request ID.''"

definition invalid_forward :: string where
  "invalid_forward = ''Native port forward returned an invalid request, connection, or local port.''"

definition take_id :: "port_controller \<Rightarrow> string \<times> port_controller" where
  "take_id c = (createRequestId c (requests c), c\<lparr>requests := requests c + 1\<rparr>)"

definition send :: "native_call \<Rightarrow> port_controller \<Rightarrow> port_controller" where
  "send k c = c\<lparr>calls := calls c @ [k]\<rparr>"

text \<open>Send the closes of several tunnels at once (\<open>Promise.allSettled\<close>).\<close>

fun close_many :: "tunnel list \<Rightarrow> port_controller \<Rightarrow> (string \<times> tunnel) list \<times> port_controller" where
  "close_many [] c = ([], c)"
| "close_many (t # ts) c =
     (let (rid, c1) = take_id c; (rest, c2) = close_many ts (send (CallClose rid t) c1)
      in ((rid, t) # rest, c2))"

text \<open>The outcome of \<open>closeNative\<close>: the error it rejects with, if any.\<close>

definition close_error :: "string \<Rightarrow> string + string \<Rightarrow> string option" where
  "close_error rid answer =
     (case answer of Inl err \<Rightarrow> Some err
      | Inr acked \<Rightarrow> if acked = rid then None else Some mismatched_close)"

record opened_forward =
  o_echo :: request_echo
  o_forwardId :: js
  o_localPort :: jsnum

definition opened_ok :: "opened_forward \<Rightarrow> string \<Rightarrow> connection_ref \<Rightarrow> string option" where
  "opened_ok op rid conn =
     (case o_forwardId op of
        Str fid \<Rightarrow> if isSshResponseFor (o_echo op) rid conn \<and> fid \<noteq> [] \<and> isValidTcpPort (o_localPort op)
                   then Some fid else None
      | _ \<Rightarrow> None)"

subsection \<open>One reconcile pass\<close>

definition plan_input_of :: "port_scan \<Rightarrow> int \<Rightarrow> port_controller \<Rightarrow> plan_input" where
  "plan_input_of sc now c =
     \<lparr>scan = sc, activeForwards = map (\<lambda>(_, t). (IntN (t_remotePort t), t_origin t)) (forwards c),
      desiredManualPorts = map IntN (getManualDesiredPorts c), intents = userIntents c,
      sshConfigPorts = sshConfig c, autoEnabled = autoOn c, priorMissingScans = missing c,
      failedAt = failures c, nowMs = now, config = options c\<rparr>"

definition snapshot :: "port_scan \<Rightarrow> int list \<Rightarrow> port_controller \<Rightarrow> port_snapshot" where
  "snapshot sc deferred c =
     \<lparr>snap_scan = sc,
      snap_active = sort_key fst (map (\<lambda>(_, t). (t_remotePort t, t_localPort t, t_origin t)) (forwards c)),
      snap_deferred = deferred, snap_errors = errors c\<rparr>"

definition forward_limit :: "port_controller \<Rightarrow> int" where
  "forward_limit c = min (or_else 8 (o_maxActiveForwards (options c))) 8"

fun open_next :: "port_scan \<Rightarrow> int list \<Rightarrow> int list \<Rightarrow> port_controller \<Rightarrow> port_controller" where
  "open_next sc [] deferred c =
     c\<lparr>job := None, snapshots := snapshots c @ [snapshot sc deferred c]\<rparr>"
| "open_next sc (p # ps) deferred c =
     (if forward_limit c \<le> int (length (forwards c)) then open_next sc ps (deferred @ [p]) c
      else let (rid, c1) = take_id c in
        send (CallOpen rid (connection c) p) (c1\<lparr>job := Some (Opening sc rid p ps deferred)\<rparr>))"

fun close_next :: "port_scan \<Rightarrow> plan \<Rightarrow> int list \<Rightarrow> port_controller \<Rightarrow> port_controller" where
  "close_next sc pl [] c =
     open_next sc (openPorts pl) (deferredPorts pl) (c\<lparr>missing := missingScans pl\<rparr>)"
| "close_next sc pl (p # ps) c =
     (case map_of (forwards c) p of
        None \<Rightarrow> close_next sc pl ps c
      | Some live \<Rightarrow>
          let (rid, c1) = take_id c in
          send (CallClose rid live) (c1\<lparr>job := Some (Closing sc pl rid live ps)\<rparr>))"

definition applyScan :: "port_scan \<Rightarrow> int \<Rightarrow> port_controller \<Rightarrow> port_controller" where
  "applyScan sc now c = (let pl = planPortForwards (plan_input_of sc now c) in close_next sc pl (closePorts pl) c)"

subsection \<open>Starting an operation and resuming it\<close>

definition start_operation :: "int \<Rightarrow> port_controller \<Rightarrow> port_controller" where
  "start_operation now c =
     (case (job c, operations c) of
        (None, op # rest) \<Rightarrow>
          let c0 = c\<lparr>operations := rest\<rparr> in
          (case op of
             SetConnection conn \<Rightarrow>
               if connectionId conn = connectionId (connection c)
                  \<and> generationId conn = generationId (connection c) then c0
               else
                 let (waiting, c1) = close_many (map snd (forwards c))
                       (c0\<lparr>connection := conn, forwards := [], missing := []\<rparr>)
                 in c1\<lparr>job := Some (Replacing waiting)\<rparr>
           | ScanAndReconcile \<Rightarrow> send (CallScan (connection c)) (c0\<lparr>job := Some Scanning\<rparr>)
           | Reconcile sc \<Rightarrow> applyScan sc now c0
           | CloseAll \<Rightarrow>
               let (waiting, c1) = close_many (map snd (forwards c)) c0
               in c1\<lparr>job := Some (ClosingAll waiting)\<rparr>)
      | _ \<Rightarrow> c)"

text \<open>
  The answer to the awaited call. One record for every kind of call; the job reads the field it
  waits for. \<open>a_many\<close> answers the i-th close of an \<open>allSettled\<close>.
\<close>

record answer =
  a_scan :: port_scan
  a_close :: "string + string"
  a_open :: "string + opened_forward"
  a_many :: "nat \<Rightarrow> string + string"
  a_now :: int

fun drop_closed :: "nat \<Rightarrow> (nat \<Rightarrow> string + string) \<Rightarrow> (string \<times> tunnel) list \<Rightarrow> port_controller \<Rightarrow> port_controller" where
  "drop_closed i a [] c = c"
| "drop_closed i a ((rid, t) # rest) c =
     drop_closed (i + 1) a rest
       (if close_error rid (a i) = None
        then c\<lparr>forwards := AList.delete (t_remotePort t) (forwards c),
               errors := AList.delete (t_remotePort t) (errors c)\<rparr>
        else c)"

definition settle_close :: "string \<Rightarrow> tunnel \<Rightarrow> string + string \<Rightarrow> port_controller \<Rightarrow> port_controller" where
  "settle_close rid live a c =
     (case close_error rid a of
        None \<Rightarrow> c\<lparr>forwards := AList.delete (t_remotePort live) (forwards c),
                  errors := AList.delete (t_remotePort live) (errors c),
                  failures := AList.delete (t_remotePort live) (failures c)\<rparr>
      | Some err \<Rightarrow> c\<lparr>errors := AList.update (t_remotePort live) err (errors c)\<rparr>)"

definition fail_open :: "int \<Rightarrow> int \<Rightarrow> string \<Rightarrow> port_controller \<Rightarrow> port_controller" where
  "fail_open p now err c =
     c\<lparr>failures := AList.update p now (failures c), errors := AList.update p err (errors c)\<rparr>"

definition settle_open :: "string \<Rightarrow> int \<Rightarrow> string + opened_forward \<Rightarrow> int \<Rightarrow> port_controller \<Rightarrow> port_controller" where
  "settle_open rid p a now c =
     (case a of
        Inl err \<Rightarrow> fail_open p now err c
      | Inr opened \<Rightarrow>
          (case opened_ok opened rid (connection c) of
             None \<Rightarrow> fail_open p now invalid_forward c
           | Some fid \<Rightarrow>
               let manual = (p \<in> set (manualDesired c) \<or> map_of (userIntents c) p = Some ForceOn) in
               c\<lparr>forwards := AList.update p \<lparr>t_remotePort = p, t_localPort = o_localPort opened,
                     t_origin = (if manual then Manual else Auto), t_forwardId = fid,
                     t_conn = echo_ref (o_echo opened)\<rparr> (forwards c),
                 failures := AList.delete p (failures c), errors := AList.delete p (errors c)\<rparr>))"

definition settled :: "answer \<Rightarrow> port_controller \<Rightarrow> port_controller" where
  "settled a c =
     (case job c of
        None \<Rightarrow> c
      | Some Scanning \<Rightarrow> applyScan (a_scan a) (a_now a) (c\<lparr>job := None\<rparr>)
      | Some (Closing sc pl rid live ps) \<Rightarrow> close_next sc pl ps (settle_close rid live (a_close a) c)
      | Some (Opening sc rid p ps deferred) \<Rightarrow>
          open_next sc ps deferred (settle_open rid p (a_open a) (a_now a) c)
      | Some (ClosingAll waiting) \<Rightarrow> (drop_closed 0 (a_many a) waiting c)\<lparr>job := None\<rparr>
      | Some (Replacing waiting) \<Rightarrow> c\<lparr>job := None\<rparr>)"

datatype port_event =
    SetAuto bool
  | SetManual jsnum bool
  | FollowAuto int
  | Enqueue work
  | Start int
  | Settled answer

fun port_step :: "port_controller \<Rightarrow> port_event \<Rightarrow> port_controller" where
  "port_step c (SetAuto b) = setAutoEnabled b c"
| "port_step c (SetManual n b) = or_else c (setManualDesiredPort n b c)"
| "port_step c (FollowAuto p) = followAutomaticPolicy p c"
| "port_step c (Enqueue w) = c\<lparr>operations := operations c @ [w]\<rparr>"
| "port_step c (Start now) = start_operation now c"
| "port_step c (Settled a) = settled a c"

subsection \<open>Invariant\<close>

text \<open>
  Every recorded tunnel sits under its own valid remote port, on the current connection
  generation, with a usable native handle; there are never more of them than the limit.
\<close>

definition tunnel_ok :: "connection_ref \<Rightarrow> int \<times> tunnel \<Rightarrow> bool" where
  "tunnel_ok conn e \<longleftrightarrow>
     t_remotePort (snd e) = fst e \<and> isValidTcpPort (IntN (fst e))
     \<and> isValidTcpPort (t_localPort (snd e)) \<and> t_conn (snd e) = conn
     \<and> t_forwardId (snd e) \<noteq> [] \<and> t_origin (snd e) \<noteq> SshConfig"

definition forwards_ok :: "port_controller \<Rightarrow> bool" where
  "forwards_ok c \<longleftrightarrow>
     distinct (map fst (forwards c)) \<and> list_all (tunnel_ok (connection c)) (forwards c)
     \<and> int (length (forwards c)) \<le> max 0 (forward_limit c)"

definition valid_ports :: "int list \<Rightarrow> bool" where
  "valid_ports ps \<longleftrightarrow> list_all (\<lambda>p. isValidTcpPort (IntN p)) ps"

definition job_ok :: "port_controller \<Rightarrow> bool" where
  "job_ok c \<longleftrightarrow>
     (case job c of
        Some (Closing sc pl rid live ps) \<Rightarrow> valid_ports (openPorts pl)
      | Some (Opening sc rid p ps deferred) \<Rightarrow>
          valid_ports (p # ps) \<and> int (length (forwards c)) < forward_limit c
      | _ \<Rightarrow> True)"

definition port_inv :: "port_controller \<Rightarrow> bool" where
  "port_inv c \<longleftrightarrow> forwards_ok c \<and> job_ok c"

lemmas port_inv_defs = port_inv_def forwards_ok_def job_ok_def forward_limit_def

lemma length_delete_le: "length (AList.delete k m) \<le> length m"
  by (induction m) auto

lemma forwards_ok_delete:
  assumes "forwards_ok c"
  shows "forwards_ok (c\<lparr>forwards := AList.delete p (forwards c)\<rparr>)"
  using assms length_delete_le [of p "forwards c"]
  by (auto simp: forwards_ok_def forward_limit_def distinct_delete list_all_delete)

lemma forwards_ok_cong:
  "forwards c' = forwards c \<Longrightarrow> connection c' = connection c \<Longrightarrow> options c' = options c \<Longrightarrow>
   forwards_ok c' = forwards_ok c"
  by (simp add: forwards_ok_def forward_limit_def)

lemma open_next_inv: "forwards_ok c \<Longrightarrow> valid_ports ps \<Longrightarrow> port_inv (open_next sc ps deferred c)"
proof (induction sc ps deferred c rule: open_next.induct)
  case (1 sc deferred c)
  then show ?case by (simp add: port_inv_def job_ok_def forwards_ok_def forward_limit_def)
next
  case (2 sc p ps deferred c)
  then show ?case
    by (cases "forward_limit c \<le> int (length (forwards c))")
      (auto simp: valid_ports_def take_id_def send_def port_inv_def job_ok_def forwards_ok_def
        forward_limit_def simp del: isValidTcpPort.simps)
qed

lemma close_next_inv:
  "forwards_ok c \<Longrightarrow> valid_ports (openPorts pl) \<Longrightarrow> port_inv (close_next sc pl ps c)"
proof (induction sc pl ps c rule: close_next.induct)
  case (1 sc pl c)
  then show ?case by (auto intro!: open_next_inv simp: forwards_ok_def forward_limit_def)
next
  case (2 sc pl p ps c)
  then show ?case
    by (auto simp: take_id_def send_def port_inv_def job_ok_def forwards_ok_def forward_limit_def
        split: option.splits)
qed

lemma plan_open_valid: "valid_ports (openPorts (planPortForwards inp))"
  unfolding valid_ports_def list_all_iff
  using set_openD set_retryable desired_valid by blast

lemma applyScan_inv: "forwards_ok c \<Longrightarrow> port_inv (applyScan sc now c)"
  by (simp add: applyScan_def Let_def close_next_inv plan_open_valid)

lemma close_many_keeps:
  "close_many ts c = (w, c') \<Longrightarrow>
   forwards c' = forwards c \<and> connection c' = connection c \<and> options c' = options c
   \<and> missing c' = missing c \<and> manualDesired c' = manualDesired c \<and> userIntents c' = userIntents c
   \<and> autoOn c' = autoOn c \<and> map snd w = ts \<and> operations c' = operations c
   \<and> calls c' = calls c @ map (\<lambda>(rid, t). CallClose rid t) w"
  by (induction ts arbitrary: c w c') (force simp: take_id_def send_def split: prod.splits)+

lemma drop_closed_ok: "forwards_ok c \<Longrightarrow> forwards_ok (drop_closed i a w c)"
proof (induction i a w c rule: drop_closed.induct)
  case (2 i a rid t rest c)
  from "2.prems" have "forwards_ok (c\<lparr>forwards := AList.delete (t_remotePort t) (forwards c),
      errors := AList.delete (t_remotePort t) (errors c)\<rparr>)"
    using forwards_ok_delete [of c "t_remotePort t"] by (simp add: forwards_ok_def forward_limit_def)
  with 2 show ?case by simp
qed simp

lemma settle_close_ok: "forwards_ok c \<Longrightarrow> forwards_ok (settle_close rid live a c)"
  using forwards_ok_delete [of c "t_remotePort live"]
  by (auto simp: settle_close_def forwards_ok_def forward_limit_def split: option.splits)

lemma length_update_le: "length (AList.update k v m) \<le> Suc (length m)"
  by (induction m) auto

lemma settle_open_ok:
  assumes "forwards_ok c" "isValidTcpPort (IntN p)" "int (length (forwards c)) < forward_limit c"
  shows "forwards_ok (settle_open rid p a now c)"
proof (cases a)
  case (Inl err)
  with assms show ?thesis by (simp add: settle_open_def fail_open_def forwards_ok_def forward_limit_def)
next
  case (Inr opened)
  show ?thesis
  proof (cases "opened_ok opened rid (connection c)")
    case None
    with Inr assms show ?thesis
      by (simp add: settle_open_def fail_open_def forwards_ok_def forward_limit_def)
  next
    case (Some fid)
    let ?t = "\<lparr>t_remotePort = p, t_localPort = o_localPort opened,
        t_origin = (if p \<in> set (manualDesired c) \<or> map_of (userIntents c) p = Some ForceOn then Manual else Auto),
        t_forwardId = fid, t_conn = echo_ref (o_echo opened)\<rparr>"
    from Some have t: "tunnel_ok (connection c) (p, ?t)"
      using assms(2) isSshResponseFor_eq [of "o_echo opened" rid "connection c"]
      by (auto simp: opened_ok_def tunnel_ok_def split: js.splits if_splits
          simp del: isValidTcpPort.simps)
    have "forwards (settle_open rid p a now c) = AList.update p ?t (forwards c)"
      "connection (settle_open rid p a now c) = connection c"
      "options (settle_open rid p a now c) = options c"
      by (simp_all add: settle_open_def Inr Some Let_def)
    with t assms length_update_le [of p ?t "forwards c"] show ?thesis
      by (auto simp: forwards_ok_def forward_limit_def distinct_update intro: list_all_update)
  qed
qed

lemma settled_inv: "port_inv c \<Longrightarrow> port_inv (settled a c)"
proof (cases "job c")
  case (Some j)
  assume inv: "port_inv c"
  show ?thesis
  proof (cases j)
    case Scanning
    have "forwards_ok (c\<lparr>job := None\<rparr>)" using inv by (simp add: port_inv_defs)
    with Some Scanning show ?thesis by (simp add: settled_def applyScan_inv)
  next
    case (Closing sc pl rid live ps)
    with Some inv have "forwards_ok (settle_close rid live (a_close a) c)" "valid_ports (openPorts pl)"
      by (auto simp: port_inv_def job_ok_def intro!: settle_close_ok)
    with Some Closing show ?thesis by (simp add: settled_def close_next_inv)
  next
    case (Opening sc rid p ps deferred)
    with Some inv have "forwards_ok (settle_open rid p (a_open a) (a_now a) c)" "valid_ports ps"
      by (auto simp: port_inv_def job_ok_def valid_ports_def intro!: settle_open_ok
          simp del: isValidTcpPort.simps)
    with Some Opening show ?thesis by (simp add: settled_def open_next_inv)
  next
    case (ClosingAll w)
    with Some inv drop_closed_ok [of c 0 "a_many a" w] show ?thesis
      by (simp add: settled_def port_inv_def job_ok_def forwards_ok_def forward_limit_def)
  next
    case (Replacing w)
    with Some inv show ?thesis
      by (simp add: settled_def port_inv_def job_ok_def forwards_ok_def forward_limit_def)
  qed
qed (simp add: settled_def)

lemma start_inv: "port_inv c \<Longrightarrow> port_inv (start_operation now c)"
proof (cases "job c = None \<and> operations c \<noteq> []")
  case True
  assume inv: "port_inv c"
  from True obtain op rest where o: "job c = None" "operations c = op # rest"
    by (cases "operations c") auto
  show ?thesis
  proof (cases op)
    case (SetConnection conn)
    let ?c = "c\<lparr>operations := rest, connection := conn, forwards := [], missing := []\<rparr>"
    obtain w c1 where w: "close_many (map snd (forwards c)) ?c = (w, c1)"
      by (cases "close_many (map snd (forwards c)) ?c")
    from close_many_keeps [OF w] w o SetConnection inv show ?thesis
      by (auto simp: start_operation_def port_inv_defs Let_def)
  next
    case ScanAndReconcile
    with o inv show ?thesis by (simp add: start_operation_def port_inv_defs send_def)
  next
    case (Reconcile sc)
    have "forwards_ok (c\<lparr>operations := rest\<rparr>)" using inv by (simp add: port_inv_defs)
    with applyScan_inv o Reconcile show ?thesis by (simp add: start_operation_def)
  next
    case CloseAll
    obtain w c1 where w: "close_many (map snd (forwards c)) (c\<lparr>operations := rest\<rparr>) = (w, c1)"
      by (cases "close_many (map snd (forwards c)) (c\<lparr>operations := rest\<rparr>)")
    from close_many_keeps [OF w] w o CloseAll inv show ?thesis
      by (auto simp: start_operation_def port_inv_defs Let_def)
  qed
qed (auto simp: start_operation_def split: option.splits list.splits)

interpretation ports: machine port_step port_inv
proof
  fix c e
  assume inv: "port_inv c"
  show "port_inv (port_step c e)"
  proof (cases e)
    case (SetManual n b)
    with inv show ?thesis
      by (auto simp: or_else_def setManualDesiredPort_def Let_def port_inv_defs
          split: job.splits option.splits)
  qed (use inv start_inv settled_inv in \<open>auto simp: setAutoEnabled_def followAutomaticPolicy_def
        port_inv_defs split: job.splits option.splits\<close>)
qed

lemma new_port_controller_inv: "port_inv (new_port_controller conn manual ssh opts ids)"
  by (simp add: new_port_controller_def port_inv_defs)

text \<open>
  C28: tunnels are bounded and never stale. Whatever the order of user settings, queued
  operations and native answers, a controller holds at most eight tunnels (and at most the
  configured limit), one per remote port, each on a valid port with a usable native handle of
  the current connection generation.
\<close>

theorem tunnels_bounded_and_current:
  "let c = run_events port_step (new_port_controller conn manual ssh opts ids) events in
   length (forwards c) \<le> 8
   \<and> int (length (forwards c)) \<le> max 0 (or_else 8 (o_maxActiveForwards (options c)))
   \<and> distinct (map fst (forwards c))
   \<and> list_all (\<lambda>(p, t). t_remotePort t = p \<and> 1 \<le> p \<and> p \<le> 65535 \<and> isValidTcpPort (t_localPort t)
        \<and> t_conn t = connection c \<and> t_forwardId t \<noteq> []) (forwards c)"
proof -
  let ?c = "run_events port_step (new_port_controller conn manual ssh opts ids) events"
  have "port_inv ?c" by (rule ports.run_inv) (rule new_port_controller_inv)
  then show ?thesis
    by (auto simp: port_inv_defs list_all_iff tunnel_ok_def Let_def)
qed

definition conn_a :: connection_ref where
  "conn_a = \<lparr>connectionId = ''c'', generationId = ''g1''\<rparr>"

definition conn_b :: connection_ref where
  "conn_b = \<lparr>connectionId = ''c'', generationId = ''g2''\<rparr>"

definition demo_tunnel :: tunnel where
  "demo_tunnel = \<lparr>t_remotePort = 3000, t_localPort = IntN 40000, t_origin = Auto,
     t_forwardId = ''f1'', t_conn = conn_a\<rparr>"

definition demo_controller :: port_controller where
  "demo_controller = (new_port_controller conn_a [] [] no_options (\<lambda>n. ''r''))
     \<lparr>forwards := [(3000, demo_tunnel)], operations := [SetConnection conn_b]\<rparr>"

text \<open>
  A reconnect releases what the old generation held. Starting a connection swap asks the
  platform to close every old tunnel by its own handle, forgets them and their absence
  counters, and keeps the user's ports and settings for the next pass.
\<close>

theorem reconnect_releases_tunnels:
  assumes "job c = None" "operations c = SetConnection conn # rest" "conn \<noteq> connection c"
  shows "let c' = start_operation now c in
     connection c' = conn \<and> forwards c' = [] \<and> missing c' = []
     \<and> manualDesired c' = manualDesired c \<and> userIntents c' = userIntents c \<and> autoOn c' = autoOn c
     \<and> (\<exists>ids. length ids = length (forwards c)
          \<and> calls c' = calls c @ map (\<lambda>(rid, t). CallClose rid t) (zip ids (map snd (forwards c))))"
proof -
  let ?c = "c\<lparr>operations := rest, connection := conn, forwards := [], missing := []\<rparr>"
  obtain w c1 where w: "close_many (map snd (forwards c)) ?c = (w, c1)"
    by (cases "close_many (map snd (forwards c)) ?c")
  have "\<not> (connectionId conn = connectionId (connection c)
      \<and> generationId conn = generationId (connection c))"
    using assms(3) by (cases conn, cases "connection c") auto
  then have s: "start_operation now c = c1\<lparr>job := Some (Replacing w)\<rparr>"
    using assms(1,2) w by (auto simp: start_operation_def Let_def)
  have "w = zip (map fst w) (map snd (forwards c))"
    using close_many_keeps [OF w] zip_map_fst_snd [of w] by simp
  moreover have "length w = length (forwards c)"
    using close_many_keeps [OF w] by (metis length_map)
  ultimately show ?thesis
    using close_many_keeps [OF w] unfolding s Let_def
    by (auto intro!: exI [of _ "map fst w"])
qed

theorem reconnect_releases_tunnels_witness:
  "forwards (start_operation 0 demo_controller) = []
   \<and> connection (start_operation 0 demo_controller) = conn_b"
  using reconnect_releases_tunnels [of demo_controller conn_b "[]" 0]
  by (simp add: demo_controller_def new_port_controller_def conn_a_def conn_b_def Let_def)

subsection \<open>Operations finish\<close>

definition awaited :: "port_controller \<Rightarrow> nat" where
  "awaited c =
     (case job c of
        None \<Rightarrow> 0
      | Some Scanning \<Rightarrow> 1
      | Some (Closing sc pl rid live ps) \<Rightarrow> Suc (length ps + length (openPorts pl))
      | Some (Opening sc rid p ps deferred) \<Rightarrow> Suc (length ps)
      | Some (ClosingAll w) \<Rightarrow> 1
      | Some (Replacing w) \<Rightarrow> 1)"

lemma open_next_awaited:
  "job (open_next sc ps deferred c) \<noteq> Some Scanning \<and> awaited (open_next sc ps deferred c) \<le> length ps"
  by (induction sc ps deferred c rule: open_next.induct)
    (auto simp: awaited_def take_id_def send_def)

lemma close_next_awaited:
  "job (close_next sc pl ps c) \<noteq> Some Scanning
   \<and> awaited (close_next sc pl ps c) \<le> length ps + length (openPorts pl)"
proof (induction sc pl ps c rule: close_next.induct)
  case (1 sc pl c)
  then show ?case using open_next_awaited by simp
next
  case (2 sc pl p ps c)
  then show ?case
    by (cases "map_of (forwards c) p") (auto simp: awaited_def take_id_def send_def)
qed

lemma settled_shrinks:
  assumes "job c \<noteq> None" "job c \<noteq> Some Scanning"
  shows "job (settled a c) \<noteq> Some Scanning \<and> awaited (settled a c) < awaited c"
proof -
  obtain j where j: "job c = Some j" using assms(1) by blast
  show ?thesis
  proof (cases j)
    case (Closing sc pl rid live ps)
    with j close_next_awaited [of sc pl ps "settle_close rid live (a_close a) c"]
    show ?thesis by (simp add: settled_def awaited_def [of c])
  next
    case (Opening sc rid p ps deferred)
    with j open_next_awaited [of sc ps deferred "settle_open rid p (a_open a) (a_now a) c"]
    show ?thesis by (simp add: settled_def awaited_def [of c])
  qed (use j assms in \<open>auto simp: settled_def awaited_def\<close>)
qed

lemma finishes_without_scan:
  "job c \<noteq> Some Scanning \<Longrightarrow> \<exists>n \<le> awaited c. job (run_events port_step c (map (Settled \<circ> f) [0..<n])) = None"
proof (induction "awaited c" arbitrary: c f rule: less_induct)
  case less
  show ?case
  proof (cases "job c")
    case None
    then show ?thesis by (intro exI [of _ 0]) simp
  next
    case (Some j)
    let ?c = "settled (f 0) c"
    from settled_shrinks [of c "f 0"] Some less.prems
    have s: "job ?c \<noteq> Some Scanning" "awaited ?c < awaited c" by auto
    from less.hyps [OF s(2) s(1), of "f \<circ> Suc"] obtain n where n: "n \<le> awaited ?c"
      "job (run_events port_step ?c (map (Settled \<circ> (f \<circ> Suc)) [0..<n])) = None" by blast
    have "map (Settled \<circ> f) [0..<Suc n] = Settled (f 0) # map (Settled \<circ> (f \<circ> Suc)) [0..<n]"
      by (simp add: upt_conv_Cons map_Suc_upt [symmetric] del: upt_Suc)
    with n s(2) show ?thesis by (intro exI [of _ "Suc n"]) simp
  qed
qed

text \<open>
  C30: every operation finishes. Whatever the platform answers, each answer brings the running
  operation closer to its end: a pass that has its scan waits for at most one answer per port
  it closes or opens, and an operation waiting for a scan finishes too.
\<close>

theorem operation_finishes:
  "\<exists>n. job (run_events port_step c (map (Settled \<circ> f) [0..<n])) = None
     \<and> (job c = Some Scanning \<or> n \<le> awaited c)"
proof (cases "job c = Some Scanning")
  case True
  let ?c = "settled (f 0) c"
  have "job ?c \<noteq> Some Scanning"
    using True close_next_awaited by (simp add: settled_def applyScan_def Let_def)
  from finishes_without_scan [OF this, of "f \<circ> Suc"] obtain n where
    n: "job (run_events port_step ?c (map (Settled \<circ> (f \<circ> Suc)) [0..<n])) = None" by blast
  have "map (Settled \<circ> f) [0..<Suc n] = Settled (f 0) # map (Settled \<circ> (f \<circ> Suc)) [0..<n]"
    by (simp add: upt_conv_Cons map_Suc_upt [symmetric] del: upt_Suc)
  with n True show ?thesis by (intro exI [of _ "Suc n"]) simp
qed (use finishes_without_scan in blast)

subsection \<open>Silencing a port\<close>

lemma sweep_closes_silenced:
  "(p, og) \<in> set act \<Longrightarrow> og \<noteq> SshConfig \<Longrightarrow> intent_of inp p = Some ForceOff \<Longrightarrow>
   p \<in> set (fst (sweep inp act))"
  by (induction inp act rule: sweep.induct) (auto simp: Let_def split: prod.splits)

lemma active_fold_distinct:
  "distinct (map fst m @ map t_remotePort (map snd fs)) \<Longrightarrow>
   list_all (\<lambda>e. t_remotePort (snd e) = fst e \<and> isValidTcpPort (IntN (fst e))) fs \<Longrightarrow>
   fold (\<lambda>(p, og) m. if isValidTcpPort p then AList.update (port_int p) og m else m)
     (map (\<lambda>(_, t). (IntN (t_remotePort t), t_origin t)) fs) m =
   m @ map (\<lambda>(p, t). (p, t_origin t)) fs"
proof (induction fs arbitrary: m)
  case (Cons e fs)
  obtain p t where e: "e = (p, t)" by (cases e)
  have "AList.update p (t_origin t) m = m @ [(p, t_origin t)]" if "p \<notin> fst ` set m"
    using that by (induction m) auto
  with Cons show ?case by (auto simp: e)
qed simp

text \<open>
  A silenced port is closed by the next pass, whatever the scan says (even when it
  failed), and no pass opens it again while it is silenced.
\<close>

theorem silenced_port_is_closed:
  assumes "port_inv c" "(p, t) \<in> set (forwards c)" "map_of (userIntents c) p = Some ForceOff"
  shows "p \<in> set (closePorts (planPortForwards (plan_input_of sc now c)))
    \<and> p \<notin> set (openPorts (planPortForwards (plan_input_of sc now c)))"
proof -
  let ?inp = "plan_input_of sc now c"
  have ok: "list_all (\<lambda>e. t_remotePort (snd e) = fst e \<and> isValidTcpPort (IntN (fst e))) (forwards c)"
    using assms(1) by (auto simp: port_inv_def forwards_ok_def tunnel_ok_def list_all_iff
        simp del: isValidTcpPort.simps)
  have "map t_remotePort (map snd (forwards c)) = map fst (forwards c)"
    using ok by (simp add: list_all_iff)
  then have "distinct (map fst ([] :: (int \<times> forward_origin) list) @ map t_remotePort (map snd (forwards c)))"
    using assms(1) by (simp add: port_inv_def forwards_ok_def del: map_map)
  from active_fold_distinct [OF this ok] have a: "(p, t_origin t) \<in> set (active_by_port ?inp)"
    using assms(2) by (auto simp: active_by_port_def plan_input_of_def intro!: rev_image_eqI)
  have i: "intent_of ?inp p = Some ForceOff"
    using assms(3) by (simp add: intent_of_def plan_input_of_def)
  have "t_origin t \<noteq> SshConfig"
    using assms(1,2) by (auto simp: port_inv_def forwards_ok_def tunnel_ok_def list_all_iff)
  from sweep_closes_silenced [OF a this i] have "p \<in> set (closePorts (planPortForwards ?inp))"
    by (simp add: planPortForwards_def closing_ports_def)
  moreover have "p \<notin> set (openPorts (planPortForwards ?inp))"
    using i by (auto dest!: set_openD desired_not_excluded simp: set_retryable not_excluded_def)
  ultimately show ?thesis ..
qed

theorem silenced_port_is_closed_witness:
  "3000 \<in> set (closePorts (planPortForwards (plan_input_of \<lparr>scan_ok = False, scan_ports = []\<rparr> 0
     (demo_controller\<lparr>userIntents := [(3000, ForceOff)]\<rparr>))))"
  using silenced_port_is_closed [of "demo_controller\<lparr>userIntents := [(3000, ForceOff)]\<rparr>" 3000 demo_tunnel]
  by (simp add: demo_controller_def new_port_controller_def port_inv_defs tunnel_ok_def
      demo_tunnel_def no_options_def or_else_def)

end
