(* ===== verification/Gateway.thy ===== *)
theory Gateway
  imports Host_Commands Base64
begin

text \<open>
  The gateway transport contract: src/src/gatewayTransport.ts. Target normalization, the strict
  handshake parser, the dial-failure matrix the connection controller decides retries with,
  and the pin verdict.

  \<open>new URL\<close> is the platform's; the normalization takes it as an argument. User-facing
  texts are represented by what they are the advice for, one value per text.
\<close>

subsection \<open>Targets\<close>

definition ascii_between :: "char \<Rightarrow> char \<Rightarrow> char \<Rightarrow> bool" where
  "ascii_between a b c \<longleftrightarrow> of_char a \<le> (of_char c :: nat) \<and> of_char c \<le> (of_char b :: nat)"

definition is_digit :: "char \<Rightarrow> bool" where "is_digit c = ascii_between CHR ''0'' CHR ''9'' c"

definition is_alnum :: "char \<Rightarrow> bool" where
  "is_alnum c \<longleftrightarrow> is_digit c \<or> ascii_between CHR ''a'' CHR ''z'' c \<or> ascii_between CHR ''A'' CHR ''Z'' c"

definition is_hex :: "char \<Rightarrow> bool" where
  "is_hex c \<longleftrightarrow> is_digit c \<or> ascii_between CHR ''a'' CHR ''f'' c \<or> ascii_between CHR ''A'' CHR ''F'' c"

text \<open>\<open>/^[A-Za-z0-9][A-Za-z0-9._:-]{2,63}$/\<close>\<close>

definition isValidGatewayDeviceId :: "string \<Rightarrow> bool" where
  "isValidGatewayDeviceId s =
     (case s of [] \<Rightarrow> False
      | c # cs \<Rightarrow> is_alnum c \<and> 2 \<le> length cs \<and> length cs \<le> 63
          \<and> list_all (\<lambda>c. is_alnum c \<or> c \<in> set ''._:-'') cs)"

record url =
  u_protocol :: string
  u_host :: string
  u_pathname :: string
  u_search :: string
  u_hash :: string

text \<open>\<open>/^(wss|ws|https|http):\/\/([^/?#]*)(\/)?$/i\<close>: the scheme and the authority.\<close>

definition strip_ci :: "string \<Rightarrow> string \<Rightarrow> string option" where
  "strip_ci p s =
     (if map ascii_lower (take (length p) s) = p \<and> length p \<le> length s then Some (drop (length p) s) else None)"

definition authority_rest :: "string \<Rightarrow> string option" where
  "authority_rest s =
     (let a = takeWhile (\<lambda>c. c \<notin> set ''/?#'') s; rest = dropWhile (\<lambda>c. c \<notin> set ''/?#'') s
      in if rest = [] \<or> rest = ''/'' then Some a else None)"

fun scheme_parts :: "string list \<Rightarrow> string \<Rightarrow> (string \<times> string) option" where
  "scheme_parts [] s = None"
| "scheme_parts (p # ps) s =
     (case strip_ci (p @ ''://'') s of
        None \<Rightarrow> scheme_parts ps s
      | Some rest \<Rightarrow> Some (p, rest))"

definition origin_schemes :: "string list" where
  "origin_schemes = [''wss'', ''ws'', ''https'', ''http'']"

text \<open>\<open>/^(\[[0-9A-Fa-f:.]+\]|[A-Za-z0-9._-]+)(:[0-9]{1,5})?$/\<close>\<close>

definition port_suffix :: "string \<Rightarrow> bool" where
  "port_suffix p =
     (case p of [] \<Rightarrow> True
      | c # d \<Rightarrow> c = CHR '':'' \<and> 1 \<le> length d \<and> length d \<le> 5 \<and> list_all is_digit d)"

definition v6_char :: "char \<Rightarrow> bool" where "v6_char c \<longleftrightarrow> is_hex c \<or> c \<in> set '':.''"
definition host_char :: "char \<Rightarrow> bool" where "host_char c \<longleftrightarrow> is_alnum c \<or> c \<in> set ''._-''"

definition authority_ok :: "string \<Rightarrow> bool" where
  "authority_ok s =
     (case s of [] \<Rightarrow> False
      | c # r \<Rightarrow>
          if c = CHR ''['' then
            (case dropWhile v6_char r of
               e # p \<Rightarrow> e = CHR '']'' \<and> takeWhile v6_char r \<noteq> [] \<and> port_suffix p
             | [] \<Rightarrow> False)
          else takeWhile host_char s \<noteq> [] \<and> port_suffix (dropWhile host_char s))"

text \<open>
  The text handed to \<open>new URL\<close>, when the grammar accepts the trimmed input: \<open>https\<close> and
  \<open>http\<close> become \<open>wss\<close> and \<open>ws\<close>, anything else is left as it was typed.
\<close>

definition url_candidate :: "string \<Rightarrow> string option" where
  "url_candidate trimmed =
     (case scheme_parts origin_schemes trimmed of
        None \<Rightarrow> None
      | Some (scheme, rest) \<Rightarrow>
          (case authority_rest rest of
             None \<Rightarrow> None
           | Some authority \<Rightarrow>
               if \<not> authority_ok authority then None
               else if scheme = ''https'' then Some (''wss://'' @ rest)
               else if scheme = ''http'' then Some (''ws://'' @ rest)
               else Some trimmed))"

definition normalizeGatewayServerUrl :: "(string \<Rightarrow> url option) \<Rightarrow> string \<Rightarrow> string option" where
  "normalizeGatewayServerUrl parse_url input =
     (case url_candidate (js_trim input) of
        None \<Rightarrow> None
      | Some candidate \<Rightarrow>
          (case parse_url candidate of
             None \<Rightarrow> None
           | Some u \<Rightarrow>
               if u_protocol u \<noteq> ''ws:'' \<and> u_protocol u \<noteq> ''wss:'' then None
               else if u_search u \<noteq> [] \<or> u_hash u \<noteq> [] then None
               else if u_pathname u \<noteq> ''/'' \<and> u_pathname u \<noteq> [] then None
               else Some (u_protocol u @ ''//'' @ u_host u)))"

type_synonym gateway_target = "string \<times> string"

definition normalizeGatewayTarget :: "(string \<Rightarrow> url option) \<Rightarrow> js \<Rightarrow> gateway_target option" where
  "normalizeGatewayTarget parse_url raw =
     (case raw of
        Obj r \<Rightarrow>
          (case (get_prop r ''serverUrl'', get_prop r ''deviceId'') of
             (Str su, Str di) \<Rightarrow>
               (case normalizeGatewayServerUrl parse_url su of
                  None \<Rightarrow> None
                | Some serverUrl \<Rightarrow>
                    if isValidGatewayDeviceId (js_trim di) then Some (serverUrl, js_trim di) else None)
           | _ \<Rightarrow> None)
      | _ \<Rightarrow> None)"

text \<open>The object a target is stored as.\<close>

definition target_js :: "gateway_target \<Rightarrow> js" where
  "target_js t = Obj [(''serverUrl'', Str (fst t)), (''deviceId'', Str (snd t))]"

text \<open>
  What the normalization relies on \<open>new URL\<close> for: on an accepted origin its serialized host
  is an authority of the same grammar, and parsing \<open>protocol//host\<close> again gives the same
  origin with the root path and nothing else.
\<close>

definition url_law :: "(string \<Rightarrow> url option) \<Rightarrow> bool" where
  "url_law parse_url \<longleftrightarrow>
     (\<forall>t s u. url_candidate t = Some s \<and> parse_url s = Some u
        \<and> (u_protocol u = ''ws:'' \<or> u_protocol u = ''wss:'') \<longrightarrow>
        authority_ok (u_host u)
        \<and> parse_url (u_protocol u @ ''//'' @ u_host u) =
            Some \<lparr>u_protocol = u_protocol u, u_host = u_host u, u_pathname = ''/'', u_search = [], u_hash = []\<rparr>)"

subsection \<open>Canonical origins\<close>

lemma authority_chars:
  assumes "authority_ok s" "c \<in> set s"
  shows "\<not> js_space c \<and> c \<notin> set ''/?#''"
proof -
  have cls: "\<not> js_space c \<and> c \<notin> set ''/?#''"
    if "v6_char c \<or> host_char c \<or> is_digit c \<or> c = CHR ''['' \<or> c = CHR '']'' \<or> c = CHR '':''" for c
    using that
    by (auto simp: v6_char_def host_char_def is_digit_def is_hex_def is_alnum_def ascii_between_def
        js_space_def)
  have port: "port_suffix p \<Longrightarrow> c \<in> set p \<Longrightarrow> is_digit c \<or> c = CHR '':''" for p
    by (auto simp: port_suffix_def list_all_iff split: list.splits)
  have split: "x \<in> set xs \<Longrightarrow> P x \<or> x \<in> set (dropWhile P xs)" for x P and xs :: string
    by (metis Un_iff set_append set_takeWhileD takeWhile_dropWhile_id)
  obtain a r where s: "s = a # r" using assms(1) by (cases s) (auto simp: authority_ok_def)
  show ?thesis
  proof (cases "a = CHR ''[''")
    case True
    with assms(1) s obtain p where p: "dropWhile v6_char r = CHR '']'' # p" "port_suffix p"
      by (auto simp: authority_ok_def split: list.splits)
    have "c = a \<or> v6_char c \<or> c \<in> set (CHR '']'' # p)"
      using assms(2) s split [of c r v6_char] p(1) by auto
    then show ?thesis using True p(2) port by (intro cls) auto
  next
    case False
    with assms(1) s have "port_suffix (dropWhile host_char s)"
      by (auto simp: authority_ok_def)
    with split [OF assms(2), of host_char] port show ?thesis by (intro cls) auto
  qed
qed

lemma origin_canonical:
  assumes "authority_ok h" "p = ''ws:'' \<or> p = ''wss:''"
  shows "js_trim (p @ ''//'' @ h) = p @ ''//'' @ h"
    "url_candidate (p @ ''//'' @ h) = Some (p @ ''//'' @ h)"
proof -
  have ne: "h \<noteq> []" using assms(1) by (auto simp: authority_ok_def)
  show "js_trim (p @ ''//'' @ h) = p @ ''//'' @ h"
    using assms(2) authority_chars [OF assms(1), of "last h"] ne
    by (intro js_trim_fixed) (auto simp: js_space_def)
  have a: "authority_rest h = Some h"
    using authority_chars [OF assms(1)] by (simp add: authority_rest_def Let_def cong: conj_cong)
  show "url_candidate (p @ ''//'' @ h) = Some (p @ ''//'' @ h)"
    using assms a by (auto simp: url_candidate_def origin_schemes_def strip_ci_def ascii_lower_def)
qed

lemma normalizeGatewayServerUrl_shape:
  assumes "url_law parse_url" "normalizeGatewayServerUrl parse_url s = Some r"
  shows "\<exists>p h. r = p @ ''//'' @ h \<and> (p = ''ws:'' \<or> p = ''wss:'') \<and> authority_ok h
    \<and> parse_url r = Some \<lparr>u_protocol = p, u_host = h, u_pathname = ''/'', u_search = [], u_hash = []\<rparr>"
proof -
  from assms(2) obtain c u where c: "url_candidate (js_trim s) = Some c" "parse_url c = Some u"
    "u_protocol u = ''ws:'' \<or> u_protocol u = ''wss:''" "r = u_protocol u @ ''//'' @ u_host u"
    by (auto simp: normalizeGatewayServerUrl_def split: option.splits if_splits)
  then have "authority_ok (u_host u)
    \<and> parse_url r = Some \<lparr>u_protocol = u_protocol u, u_host = u_host u, u_pathname = ''/'', u_search = [], u_hash = []\<rparr>"
    using assms(1) unfolding url_law_def by blast
  with c(3,4) show ?thesis by blast
qed

lemma normalizeGatewayServerUrl_idem:
  assumes "url_law parse_url" "normalizeGatewayServerUrl parse_url s = Some r"
  shows "normalizeGatewayServerUrl parse_url r = Some r"
proof -
  obtain p h where r: "r = p @ ''//'' @ h" "p = ''ws:'' \<or> p = ''wss:''" "authority_ok h"
    "parse_url r = Some \<lparr>u_protocol = p, u_host = h, u_pathname = ''/'', u_search = [], u_hash = []\<rparr>"
    using normalizeGatewayServerUrl_shape [OF assms] by blast
  with origin_canonical [OF r(3,2)] show ?thesis
    by (auto simp: normalizeGatewayServerUrl_def)
qed

lemma normalizeGatewayTarget_idem:
  assumes "url_law parse_url" "normalizeGatewayTarget parse_url raw = Some t"
  shows "normalizeGatewayTarget parse_url (target_js t) = Some t"
  using assms normalizeGatewayServerUrl_idem [OF assms(1)]
  by (auto simp: normalizeGatewayTarget_def target_js_def get_prop_def
      split: js.splits option.splits if_splits)

text \<open>A concrete \<open>new URL\<close> for lower-case origins without a path.\<close>

definition plain_origin :: "string \<Rightarrow> url option" where
  "plain_origin s =
     (case authority_rest (drop 6 s) of
        Some h \<Rightarrow>
          if take 6 s = ''wss://'' \<and> authority_ok h
          then Some \<lparr>u_protocol = ''wss:'', u_host = h, u_pathname = ''/'', u_search = [], u_hash = []\<rparr>
          else None
      | None \<Rightarrow> None)"

lemma authority_rest_ok: "authority_ok h \<Longrightarrow> authority_rest h = Some h"
  using authority_chars [of h] by (simp add: authority_rest_def Let_def cong: conj_cong)

lemma plain_origin_law: "url_law plain_origin"
  by (auto simp: url_law_def plain_origin_def authority_rest_ok split: option.splits if_splits)

text \<open>
  A normalized gateway address is a bare canonical origin. It is \<open>ws://\<close> or \<open>wss://\<close>
  followed by a host with an optional port, so no path, query, fragment, user name or white
  space can ride along; normalizing it, or the target it belongs to, again changes nothing.
\<close>

theorem gateway_address_is_bare_origin:
  assumes "url_law parse_url" "normalizeGatewayTarget parse_url raw = Some t"
  shows "(\<exists>p h. fst t = p @ ''//'' @ h \<and> (p = ''ws:'' \<or> p = ''wss:'') \<and> authority_ok h
      \<and> (\<forall>c \<in> set h. \<not> js_space c \<and> c \<notin> set ''/?#''))
    \<and> isValidGatewayDeviceId (snd t)
    \<and> normalizeGatewayTarget parse_url (target_js t) = Some t"
proof -
  from assms(2) obtain su where su: "normalizeGatewayServerUrl parse_url su = Some (fst t)"
    "isValidGatewayDeviceId (snd t)"
    by (auto simp: normalizeGatewayTarget_def split: js.splits option.splits if_splits)
  obtain p h where "fst t = p @ ''//'' @ h" "p = ''ws:'' \<or> p = ''wss:''" "authority_ok h"
    using normalizeGatewayServerUrl_shape [OF assms(1) su(1)] by blast
  with su(2) authority_chars normalizeGatewayTarget_idem [OF assms] show ?thesis by blast
qed

definition demo_marker :: js where
  "demo_marker = Obj [(''serverUrl'', Str '' https://gw.example:8443/ ''), (''deviceId'', Str ''dev-1 '')]"

lemma demo_marker_target:
  "normalizeGatewayTarget plain_origin demo_marker = Some (''wss://gw.example:8443'', ''dev-1'')"
  by code_simp

theorem gateway_address_is_bare_origin_witness:
  "normalizeGatewayTarget plain_origin (target_js (''wss://gw.example:8443'', ''dev-1'')) =
     Some (''wss://gw.example:8443'', ''dev-1'')"
  using gateway_address_is_bare_origin [OF plain_origin_law demo_marker_target] by simp

subsection \<open>Handshake frames\<close>

definition GATEWAY_PROTOCOL_VERSION :: int where "GATEWAY_PROTOCOL_VERSION = 1"

datatype malformed_reason =
  NotJson | NotAnObjectFrame | WrongVersion js | ReadyFields | ErrorFields | UnexpectedType js

text \<open>\<open>ReadyFrame device_id ssh_host_key\<close> and \<open>ErrorFrame code message\<close>.\<close>

datatype handshake_frame =
  ReadyFrame string string | ErrorFrame string string | Malformed malformed_reason

definition buildGatewayAuthFrame :: "string \<Rightarrow> string \<Rightarrow> json_text" where
  "buildGatewayAuthFrame token deviceId =
     json_stringify (Obj [(''type'', Str ''auth''), (''v'', Num (IntN GATEWAY_PROTOCOL_VERSION)),
       (''token'', Str token), (''device_id'', Str deviceId)])"

definition frame_of_fields :: "(string \<Rightarrow> js) \<Rightarrow> handshake_frame" where
  "frame_of_fields f =
     (if f ''v'' \<noteq> Num (IntN GATEWAY_PROTOCOL_VERSION) then Malformed (WrongVersion (f ''v''))
      else if f ''type'' = Str ''ready'' then
        (case (f ''device_id'', f ''ssh_host_key'') of
           (Str d, Str k) \<Rightarrow> ReadyFrame d k
         | _ \<Rightarrow> Malformed ReadyFields)
      else if f ''type'' = Str ''error'' then
        (case (f ''code'', f ''message'') of
           (Str c, Str m) \<Rightarrow> ErrorFrame c m
         | _ \<Rightarrow> Malformed ErrorFields)
      else Malformed (UnexpectedType (f ''type'')))"

text \<open>An array is an object too; none of the properties read exists on it.\<close>

definition parseGatewayHandshakeFrame :: "json_text \<Rightarrow> handshake_frame" where
  "parseGatewayHandshakeFrame text =
     (case text of
        None \<Rightarrow> Malformed NotJson
      | Some (Obj f) \<Rightarrow> frame_of_fields (get_prop f)
      | Some (Arr vs) \<Rightarrow> frame_of_fields (\<lambda>_. Undef)
      | Some _ \<Rightarrow> Malformed NotAnObjectFrame)"

text \<open>
  A handshake is never guessed into shape. A text is a ready frame exactly when it is an
  object of the protocol version and type \<open>ready\<close> that carries both strings, and in
  particular the frame the client sends itself is not one.
\<close>

theorem handshake_ready_strict:
  "(parseGatewayHandshakeFrame text = ReadyFrame d k \<longleftrightarrow>
     (\<exists>f. text = Some (Obj f) \<and> get_prop f ''v'' = Num (IntN 1) \<and> get_prop f ''type'' = Str ''ready''
        \<and> get_prop f ''device_id'' = Str d \<and> get_prop f ''ssh_host_key'' = Str k))
   \<and> parseGatewayHandshakeFrame (buildGatewayAuthFrame token deviceId) =
       Malformed (UnexpectedType (Str ''auth''))"
proof
  show "parseGatewayHandshakeFrame text = ReadyFrame d k \<longleftrightarrow>
     (\<exists>f. text = Some (Obj f) \<and> get_prop f ''v'' = Num (IntN 1) \<and> get_prop f ''type'' = Str ''ready''
        \<and> get_prop f ''device_id'' = Str d \<and> get_prop f ''ssh_host_key'' = Str k)"
    by (auto simp: parseGatewayHandshakeFrame_def frame_of_fields_def GATEWAY_PROTOCOL_VERSION_def
        split: option.splits js.splits if_splits)
qed (simp add: parseGatewayHandshakeFrame_def frame_of_fields_def buildGatewayAuthFrame_def
    json_stringify_def get_prop_def GATEWAY_PROTOCOL_VERSION_def)

subsection \<open>Dial failures\<close>

datatype close_kind = CkProtocol | CkUnauthorized | CkForbidden | CkNotFound | CkTimeout | CkQuota
  | CkHostOffline | CkAbnormal

text \<open>The advice of a close code is the text of its kind.\<close>

definition classifyGatewayClose :: "int \<Rightarrow> close_kind" where
  "classifyGatewayClose code =
     (if code = 4400 then CkProtocol else if code = 4401 then CkUnauthorized
      else if code = 4403 then CkForbidden else if code = 4404 then CkNotFound
      else if code = 4408 then CkTimeout else if code = 4429 then CkQuota
      else if code = 4503 then CkHostOffline else CkAbnormal)"

definition GATEWAY_CLOSED_ERROR_CODE :: string where
  "GATEWAY_CLOSED_ERROR_CODE = ''GATEWAY_CLOSED''"

definition isGatewayVerdictCloseCode :: "jsnum \<Rightarrow> bool" where
  "isGatewayVerdictCloseCode n \<longleftrightarrow> is_integer n \<and> num_ge_int n 4000 \<and> num_le_int n 4999"

datatype dial_kind = Closed close_kind | SignInRequired | PairingRequired | AccountChanged

datatype advice = CloseAdvice close_kind | NativeAdvice string

record dial_failure =
  df_code :: string
  df_closeCode :: "int option"
  df_kind :: dial_kind
  df_retryable :: bool
  df_userMessage :: advice

definition close_codes :: "(int \<times> close_kind \<times> bool) list" where
  "close_codes =
     [(4400, CkProtocol, False), (4401, CkUnauthorized, False), (4403, CkForbidden, False),
      (4404, CkNotFound, False), (4408, CkTimeout, True), (4429, CkQuota, True),
      (4503, CkHostOffline, True)]"

definition native_codes :: "(string \<times> dial_kind \<times> bool) list" where
  "native_codes =
     [(''NOT_SIGNED_IN'', SignInRequired, False),
      (''GATEWAY_BROKER_SIGN_IN_REJECTED'', SignInRequired, False),
      (''GATEWAY_UNPAIRED'', PairingRequired, False),
      (''GATEWAY_ACCOUNT_CHANGED'', AccountChanged, False)]"

definition classifyGatewayDialFailure :: "string \<Rightarrow> fields \<Rightarrow> dial_failure option" where
  "classifyGatewayDialFailure code data =
     (case map_of native_codes code of
        Some (kind, retry) \<Rightarrow>
          Some \<lparr>df_code = code, df_closeCode = None, df_kind = kind, df_retryable = retry,
                df_userMessage = NativeAdvice code\<rparr>
      | None \<Rightarrow>
          if code \<noteq> GATEWAY_CLOSED_ERROR_CODE then None
          else (case get_prop data ''gatewayCloseCode'' of
            Num (IntN closeCode) \<Rightarrow>
              if \<not> isGatewayVerdictCloseCode (IntN closeCode) then None
              else (case map_of close_codes closeCode of
                None \<Rightarrow> None
              | Some (kind, retry) \<Rightarrow>
                  Some \<lparr>df_code = code, df_closeCode = Some closeCode, df_kind = Closed kind,
                        df_retryable = retry,
                        df_userMessage = CloseAdvice (classifyGatewayClose closeCode)\<rparr>)
          | _ \<Rightarrow> None))"

lemma native_codesD:
  "map_of native_codes code = Some (k, r) \<Longrightarrow>
   \<not> r \<and> k \<in> {SignInRequired, PairingRequired, AccountChanged} \<and> code \<noteq> GATEWAY_CLOSED_ERROR_CODE"
  by (auto simp: native_codes_def GATEWAY_CLOSED_ERROR_CODE_def split: if_splits)

lemma close_codesD:
  "map_of close_codes cc = Some (k, r) \<Longrightarrow>
   (r \<longleftrightarrow> cc \<in> {4408, 4429, 4503}) \<and> k = classifyGatewayClose cc \<and> k \<noteq> CkAbnormal \<and> 4000 \<le> cc \<and> cc \<le> 4999"
  by (auto simp: close_codes_def classifyGatewayClose_def split: if_splits)

text \<open>
  The retry matrix. A classified failure is retried exactly when the gateway closed with
  timeout, quota or host-offline; a refusal of the platform is never retried and carries no
  close code, and the kind and the advice of a close code agree.
\<close>

theorem dial_failure_retry_matrix:
  assumes "classifyGatewayDialFailure code data = Some f"
  shows "(df_retryable f \<longleftrightarrow> df_closeCode f \<in> {Some 4408, Some 4429, Some 4503})
    \<and> df_code f = code
    \<and> (df_closeCode f = None \<longleftrightarrow> code \<noteq> GATEWAY_CLOSED_ERROR_CODE)
    \<and> (case df_closeCode f of
         None \<Rightarrow> df_kind f \<in> {SignInRequired, PairingRequired, AccountChanged} \<and> df_userMessage f = NativeAdvice code
       | Some cc \<Rightarrow> 4000 \<le> cc \<and> cc \<le> 4999 \<and> get_prop data ''gatewayCloseCode'' = Num (IntN cc)
           \<and> df_kind f = Closed (classifyGatewayClose cc)
           \<and> df_userMessage f = CloseAdvice (classifyGatewayClose cc)
           \<and> classifyGatewayClose cc \<noteq> CkAbnormal)"
proof (cases "map_of native_codes code")
  case (Some kr)
  obtain k r where kr: "kr = (k, r)" by (cases kr)
  have "f = \<lparr>df_code = code, df_closeCode = None, df_kind = k, df_retryable = r,
      df_userMessage = NativeAdvice code\<rparr>"
    using assms Some by (simp add: classifyGatewayDialFailure_def kr)
  with native_codesD [of code k r] Some kr show ?thesis by simp
next
  case None
  with assms obtain cc k r where cc: "code = GATEWAY_CLOSED_ERROR_CODE"
    "get_prop data ''gatewayCloseCode'' = Num (IntN cc)" "map_of close_codes cc = Some (k, r)"
    "f = \<lparr>df_code = code, df_closeCode = Some cc, df_kind = Closed k, df_retryable = r,
       df_userMessage = CloseAdvice (classifyGatewayClose cc)\<rparr>"
    by (auto simp: classifyGatewayDialFailure_def split: js.splits jsnum.splits if_splits option.splits)
  with close_codesD [OF cc(3)] show ?thesis by auto
qed

theorem dial_failure_retry_matrix_witness:
  "classifyGatewayDialFailure ''GATEWAY_CLOSED'' [(''gatewayCloseCode'', Num (IntN 4503))] =
     Some \<lparr>df_code = ''GATEWAY_CLOSED'', df_closeCode = Some 4503, df_kind = Closed CkHostOffline,
        df_retryable = True, df_userMessage = CloseAdvice CkHostOffline\<rparr>
   \<and> (True \<longleftrightarrow> Some (4503 :: int) \<in> {Some 4408, Some 4429, Some 4503})"
proof -
  have e: "classifyGatewayDialFailure ''GATEWAY_CLOSED'' [(''gatewayCloseCode'', Num (IntN 4503))] =
     Some \<lparr>df_code = ''GATEWAY_CLOSED'', df_closeCode = Some 4503, df_kind = Closed CkHostOffline,
        df_retryable = True, df_userMessage = CloseAdvice CkHostOffline\<rparr>"
    by (simp add: classifyGatewayDialFailure_def native_codes_def close_codes_def get_prop_def
        GATEWAY_CLOSED_ERROR_CODE_def isGatewayVerdictCloseCode_def classifyGatewayClose_def)
  with dial_failure_retry_matrix [OF e] show ?thesis by simp
qed

subsection \<open>The pairing pin\<close>

definition b64_body_char :: "char \<Rightarrow> bool" where
  "b64_body_char c \<longleftrightarrow> is_alnum c \<or> c \<in> set ''+/=''"

text \<open>
  The first match of \<open>/SHA256:\s*([A-Za-z0-9+/=]+)/i\<close>, its group 1. The classes of the white
  space and of the body are disjoint, so the greedy match never backtracks.
\<close>

definition sha256_here :: "string \<Rightarrow> string option" where
  "sha256_here s =
     (case strip_ci ''sha256:'' s of
        None \<Rightarrow> None
      | Some r \<Rightarrow>
          let body = takeWhile b64_body_char (dropWhile js_space r)
          in if body = [] then None else Some body)"

fun find_sha256 :: "string \<Rightarrow> string option" where
  "find_sha256 [] = None"
| "find_sha256 (c # cs) =
     (case sha256_here (c # cs) of Some body \<Rightarrow> Some body | None \<Rightarrow> find_sha256 cs)"

definition drop_padding :: "string \<Rightarrow> string" where
  "drop_padding s = rev (dropWhile (\<lambda>c. c = CHR ''='') (rev s))"

definition sha256BodyDecodesTo32Bytes :: "string \<Rightarrow> bool" where
  "sha256BodyDecodesTo32Bytes b64 =
     (case atob (b64 @ replicate ((4 - length b64 mod 4) mod 4) CHR ''='') of
        None \<Rightarrow> False
      | Some bytes \<Rightarrow> length bytes = 32)"

definition normalizeSha256Fingerprint :: "string \<Rightarrow> string option" where
  "normalizeSha256Fingerprint input =
     (case find_sha256 input of
        None \<Rightarrow> None
      | Some m \<Rightarrow>
          let b64 = drop_padding m in
          if length b64 \<noteq> 43 then None
          else if \<not> sha256BodyDecodesTo32Bytes b64 then None
          else Some (''SHA256:'' @ b64))"

datatype pin_verdict = PinTrusted | PinMismatch | PinUnpinned

definition verifyGatewayHostKeyPin :: "string option \<Rightarrow> string \<Rightarrow> pin_verdict" where
  "verifyGatewayHostKeyPin pinnedFingerprint presentedFingerprint =
     (case pinnedFingerprint of
        None \<Rightarrow> PinUnpinned
      | Some text \<Rightarrow>
          (case normalizeSha256Fingerprint text of
             None \<Rightarrow> PinUnpinned
           | Some pinned \<Rightarrow>
               (case normalizeSha256Fingerprint presentedFingerprint of
                  None \<Rightarrow> PinMismatch
                | Some presented \<Rightarrow> if pinned = presented then PinTrusted else PinMismatch)))"

lemma find_sha256_chars: "find_sha256 s = Some m \<Longrightarrow> m \<noteq> [] \<and> list_all b64_body_char m"
  by (induction s) (auto simp: sha256_here_def Let_def list_all_iff dest: set_takeWhileD
      split: option.splits if_splits)

lemma find_sha256_prefix: "sha256_here s = Some b \<Longrightarrow> find_sha256 s = Some b"
  by (cases s) (auto simp: sha256_here_def strip_ci_def split: option.splits if_splits)

lemma strip_ci_sha256: "strip_ci ''sha256:'' (''SHA256:'' @ b) = Some b"
proof -
  have "map ascii_lower ''SHA256:'' = ''sha256:''" by code_simp
  then show ?thesis by (simp add: strip_ci_def)
qed

lemma drop_padding_fixed: "drop_padding (drop_padding s) = drop_padding s"
  by (cases "drop_padding s = []")
    (auto simp: drop_padding_def dropWhile_fixed dest: dropWhile_hd)

lemma b64_body_char_space: "b64_body_char c \<Longrightarrow> \<not> js_space c"
  by (auto simp: b64_body_char_def is_alnum_def is_digit_def ascii_between_def js_space_def)

lemma sha256_here_prefix:
  assumes "list_all b64_body_char b" "b \<noteq> []"
  shows "sha256_here (''SHA256:'' @ b) = Some b"
proof -
  have "dropWhile js_space b = b"
    using assms b64_body_char_space by (intro dropWhile_fixed) (auto simp: list_all_iff)
  moreover have "takeWhile b64_body_char b = b"
    using assms(1) by (simp add: list_all_iff)
  ultimately show ?thesis
    unfolding sha256_here_def strip_ci_sha256 option.case Let_def using assms(2) by (simp only: if_False)
qed

lemma normalizeSha256Fingerprint_idem:
  assumes "normalizeSha256Fingerprint s = Some f"
  shows "normalizeSha256Fingerprint f = Some f"
proof -
  from assms obtain m where m: "find_sha256 s = Some m" "f = ''SHA256:'' @ drop_padding m"
    "length (drop_padding m) = 43" "sha256BodyDecodesTo32Bytes (drop_padding m)"
    by (auto simp: normalizeSha256Fingerprint_def Let_def split: option.splits if_splits)
  let ?b = "drop_padding m"
  have "set ?b \<subseteq> set m" by (auto simp: drop_padding_def dest: set_dropWhileD)
  then have b: "list_all b64_body_char ?b"
    using find_sha256_chars [OF m(1)] by (auto simp: list_all_iff)
  have ne: "?b \<noteq> []" using m(3) by auto
  have "find_sha256 (''SHA256:'' @ ?b) = Some ?b"
    by (rule find_sha256_prefix) (rule sha256_here_prefix [OF b ne])
  with m show ?thesis by (simp add: normalizeSha256Fingerprint_def drop_padding_fixed Let_def)
qed

text \<open>
  Gateway mode fails closed. The verdict is \<open>trusted\<close> exactly when there is a usable pin
  and the presented key has the same normalized fingerprint; without a usable pin no presented
  key is trusted; and a normalized fingerprint is its own normal form, 43 characters that
  decode to 32 bytes.
\<close>

theorem gateway_pin_fails_closed:
  "(verifyGatewayHostKeyPin pin presented = PinTrusted \<longleftrightarrow>
      (\<exists>p f. pin = Some p \<and> normalizeSha256Fingerprint p = Some f
         \<and> normalizeSha256Fingerprint presented = Some f))
   \<and> (verifyGatewayHostKeyPin pin presented = PinUnpinned \<longleftrightarrow>
      Option.bind pin normalizeSha256Fingerprint = None)
   \<and> Option.bind (normalizeSha256Fingerprint line) normalizeSha256Fingerprint = normalizeSha256Fingerprint line"
proof -
  have "Option.bind (normalizeSha256Fingerprint line) normalizeSha256Fingerprint = normalizeSha256Fingerprint line"
    using normalizeSha256Fingerprint_idem by (cases "normalizeSha256Fingerprint line") auto
  then show ?thesis by (auto simp: verifyGatewayHostKeyPin_def split: option.splits)
qed

end
