(* ===== verification/Saved_Hosts.thy ===== *)
theory Saved_Hosts
  imports Gateway Port_Policy
begin

text \<open>
  The saved-host store of a client that owns its host list: src/src/savedHosts.ts. The store
  is generic in its credential reference; the credential validator and the normalization of a
  gateway marker are arguments, and the locale \<open>host_rules\<close> states what the store relies on
  them for. It is interpreted on the default validator and the gateway normalization.
\<close>

subsection \<open>Records\<close>

record saved_input =
  i_name :: string
  i_hostname :: string
  i_port :: jsnum
  i_username :: string
  i_credentialRef :: js
  i_gateway :: "js option"          \<comment> \<open>\<open>None\<close>: absent or \<open>undefined\<close>\<close>

record saved_host =
  h_id :: string
  h_name :: string
  h_hostname :: string
  h_port :: jsnum
  h_username :: string
  h_credentialRef :: js
  h_gateway :: "gateway_target option"

record host_document =
  d_hosts :: "saved_host list"
  d_selectedHostId :: "string option"
  d_defaultHostId :: "string option"
  d_defaultHostExplicitlySet :: bool
  d_importedHostIds :: "string list"
  d_importTombstones :: "string list"

datatype store_error =
    MalformedKeyRef | BadName | BadHostname | BadPort | BadUsername | BadGateway
  | MalformedHost | MalformedDocument | ConflictingMarkers | DuplicateHostId | MissingReference
  | MalformedStoredJson | NoStableId | HostGone | DefaultGone | BadPosition
  | ImportConflict string | ExistingConflict string | ImportedDefaultMissing | WriteFailed

type_synonym credential_validator = "js \<Rightarrow> js option"   \<comment> \<open>\<open>None\<close>: it throws\<close>
type_synonym gateway_normalizer = "js \<Rightarrow> gateway_target option"

subsection \<open>Validation of one host\<close>

definition KEY_REF_KEYS :: "string list" where
  "KEY_REF_KEYS = [''kind'', ''handleId'', ''label'', ''passphraseRequired'']"

definition validateSavedHostKeyRef :: credential_validator where
  "validateSavedHostKeyRef value =
     (case value of
        Null \<Rightarrow> Some Null
      | Obj r \<Rightarrow>
          (case (get_prop r ''handleId'', get_prop r ''label'', get_prop r ''passphraseRequired'') of
             (Str handleId, Str label, Bool required) \<Rightarrow>
               if get_prop r ''kind'' = Str ''key-handle'' \<and> js_trim handleId \<noteq> [] \<and> js_trim label \<noteq> []
                  \<and> list_all (\<lambda>k. k \<in> set KEY_REF_KEYS) (map fst r)
               then Some (Obj [(''kind'', Str ''key-handle''), (''handleId'', Str handleId),
                               (''label'', Str label), (''passphraseRequired'', Bool required)])
               else None
           | _ \<Rightarrow> None)
      | _ \<Rightarrow> None)"

definition space_or_control :: "char \<Rightarrow> bool" where
  "space_or_control c \<longleftrightarrow> js_space c \<or> is_control c"

definition bad_name :: "string \<Rightarrow> bool" where
  "bad_name s \<longleftrightarrow> length s = 0 \<or> 80 < length s \<or> has_control s"

definition bad_hostname :: "string \<Rightarrow> bool" where
  "bad_hostname s \<longleftrightarrow> length s = 0 \<or> 253 < length s
     \<or> list_ex (\<lambda>c. space_or_control c \<or> c \<in> set ''/@'') s"

definition bad_username :: "string \<Rightarrow> bool" where
  "bad_username s \<longleftrightarrow> length s = 0 \<or> 128 < length s \<or> list_ex space_or_control s"

definition validateGatewayMarker :: "gateway_normalizer \<Rightarrow> js \<Rightarrow> store_error + gateway_target" where
  "validateGatewayMarker gw v = (case gw v of None \<Rightarrow> Inl BadGateway | Some t \<Rightarrow> Inr t)"

text \<open>The normalized input, under the identity it is to be stored with.\<close>

definition validateSavedHostInput ::
    "credential_validator \<Rightarrow> gateway_normalizer \<Rightarrow> string \<Rightarrow> saved_input \<Rightarrow> store_error + saved_host" where
  "validateSavedHostInput V gw hid input =
     (let name = js_trim (i_name input); hostname = js_trim (i_hostname input);
          username = js_trim (i_username input) in
      if bad_name name then Inl BadName
      else if bad_hostname hostname then Inl BadHostname
      else if \<not> isValidTcpPort (i_port input) then Inl BadPort
      else if bad_username username then Inl BadUsername
      else (case V (i_credentialRef input) of
        None \<Rightarrow> Inl MalformedKeyRef
      | Some cred \<Rightarrow>
          let host = \<lparr>h_id = hid, h_name = name, h_hostname = hostname, h_port = i_port input,
                      h_username = username, h_credentialRef = cred, h_gateway = None\<rparr> in
          (case i_gateway input of
             None \<Rightarrow> Inr host
           | Some marker \<Rightarrow>
               (case validateGatewayMarker gw marker of
                  Inl err \<Rightarrow> Inl err
                | Inr target \<Rightarrow> Inr (host\<lparr>h_gateway := Some target\<rparr>)))))"

definition bad_id :: "string \<Rightarrow> bool" where
  "bad_id s \<longleftrightarrow> js_trim s = [] \<or> 128 < length s \<or> has_control s"

definition absent_gateway :: "js \<Rightarrow> js option" where
  "absent_gateway v = (if v = Undef then None else Some v)"

definition validateHost ::
    "credential_validator \<Rightarrow> gateway_normalizer \<Rightarrow> js \<Rightarrow> store_error + saved_host" where
  "validateHost V gw value =
     (case value of
        Obj r \<Rightarrow>
          (case (get_prop r ''id'', get_prop r ''name'', get_prop r ''hostname'',
                 get_prop r ''port'', get_prop r ''username'') of
             (Str hid, Str name, Str hostname, Num port, Str username) \<Rightarrow>
               if bad_id hid then Inl MalformedHost
               else validateSavedHostInput V gw hid
                 \<lparr>i_name = name, i_hostname = hostname, i_port = port, i_username = username,
                  i_credentialRef = (if get_prop r ''credentialRef'' = Undef then Null
                                     else get_prop r ''credentialRef''),
                  i_gateway = absent_gateway (get_prop r ''gateway'')\<rparr>
           | _ \<Rightarrow> Inl MalformedHost)
      | _ \<Rightarrow> Inl MalformedHost)"

text \<open>A host as the plain object it is.\<close>

definition host_js :: "saved_host \<Rightarrow> js" where
  "host_js h = Obj ([(''id'', Str (h_id h)), (''name'', Str (h_name h)), (''hostname'', Str (h_hostname h)),
      (''port'', Num (h_port h)), (''username'', Str (h_username h)),
      (''credentialRef'', h_credentialRef h)]
      @ (case h_gateway h of None \<Rightarrow> [] | Some t \<Rightarrow> [(''gateway'', target_js t)]))"

subsection \<open>The document\<close>

definition emptyDocument :: host_document where
  "emptyDocument = \<lparr>d_hosts = [], d_selectedHostId = None, d_defaultHostId = None,
     d_defaultHostExplicitlySet = False, d_importedHostIds = [], d_importTombstones = []\<rparr>"

fun strings_of :: "js list \<Rightarrow> string list option" where
  "strings_of [] = Some []"
| "strings_of (v # vs) =
     (case v of Str s \<Rightarrow> if s = [] then None else map_option (Cons s) (strings_of vs) | _ \<Rightarrow> None)"

definition uniqueStrings :: "js \<Rightarrow> string list option" where
  "uniqueStrings v =
     (case v of
        Arr vs \<Rightarrow> (case strings_of vs of None \<Rightarrow> None | Some ss \<Rightarrow> if distinct ss then Some ss else None)
      | _ \<Rightarrow> None)"

fun nullable_string :: "js \<Rightarrow> string option option" where
  "nullable_string Null = Some None"
| "nullable_string (Str s) = Some (Some s)"
| "nullable_string _ = None"

fun validate_hosts ::
    "credential_validator \<Rightarrow> gateway_normalizer \<Rightarrow> js list \<Rightarrow> store_error + saved_host list" where
  "validate_hosts V gw [] = Inr []"
| "validate_hosts V gw (v # vs) =
     (case validateHost V gw v of
        Inl err \<Rightarrow> Inl err
      | Inr h \<Rightarrow> (case validate_hosts V gw vs of Inl err \<Rightarrow> Inl err | Inr hs \<Rightarrow> Inr (h # hs)))"

definition absent_or_in :: "string option \<Rightarrow> string list \<Rightarrow> bool" where
  "absent_or_in x ids = (case x of None \<Rightarrow> True | Some s \<Rightarrow> s \<in> set ids)"

definition validateDocument ::
    "credential_validator \<Rightarrow> gateway_normalizer \<Rightarrow> js \<Rightarrow> store_error + host_document" where
  "validateDocument V gw value =
     (case value of
        Obj r \<Rightarrow>
          (case (get_prop r ''hosts'', nullable_string (get_prop r ''selectedHostId''),
                 nullable_string (get_prop r ''defaultHostId''), get_prop r ''defaultHostExplicitlySet'') of
             (Arr hs, Some sel, Some def, Bool explicit) \<Rightarrow>
               if get_prop r ''schemaVersion'' \<noteq> Num (IntN 1) then Inl MalformedDocument
               else
                 (case (uniqueStrings (get_prop r ''importedHostIds''),
                        uniqueStrings (get_prop r ''importTombstones'')) of
                    (Some imported, Some tombstones) \<Rightarrow>
                      if list_ex (\<lambda>i. i \<notin> set imported) tombstones then Inl ConflictingMarkers
                      else (case validate_hosts V gw hs of
                        Inl err \<Rightarrow> Inl err
                      | Inr hosts \<Rightarrow>
                          let ids = map h_id hosts in
                          if \<not> distinct ids then Inl DuplicateHostId
                          else if \<not> absent_or_in sel ids \<or> \<not> absent_or_in def ids then Inl MissingReference
                          else Inr \<lparr>d_hosts = hosts, d_selectedHostId = sel, d_defaultHostId = def,
                                 d_defaultHostExplicitlySet = explicit,
                                 d_importedHostIds = imported, d_importTombstones = tombstones\<rparr>)
                  | _ \<Rightarrow> Inl ConflictingMarkers)
           | _ \<Rightarrow> Inl MalformedDocument)
      | _ \<Rightarrow> Inl MalformedDocument)"

fun null_or_string :: "string option \<Rightarrow> js" where
  "null_or_string None = Null"
| "null_or_string (Some s) = Str s"

definition document_js :: "host_document \<Rightarrow> js" where
  "document_js d = Obj [(''schemaVersion'', Num (IntN 1)), (''hosts'', Arr (map host_js (d_hosts d))),
     (''selectedHostId'', null_or_string (d_selectedHostId d)),
     (''defaultHostId'', null_or_string (d_defaultHostId d)),
     (''defaultHostExplicitlySet'', Bool (d_defaultHostExplicitlySet d)),
     (''importedHostIds'', Arr (map Str (d_importedHostIds d))),
     (''importTombstones'', Arr (map Str (d_importTombstones d)))]"

text \<open>
  \<open>sameHost\<close> compares the credential and the gateway by their JSON texts; both are stored
  already normalized, so equal texts are equal values.
\<close>

definition sameHost :: "saved_host \<Rightarrow> saved_host \<Rightarrow> bool" where
  "sameHost l r \<longleftrightarrow> h_id l = h_id r \<and> h_name l = h_name r \<and> h_hostname l = h_hostname r
     \<and> h_port l = h_port r \<and> h_username l = h_username r
     \<and> json_stringify (h_credentialRef l) = json_stringify (h_credentialRef r)
     \<and> h_gateway l = h_gateway r"

subsection \<open>The store\<close>

text \<open>\<open>stored\<close> is the item under the storage key; \<open>writable\<close> says whether the platform's
  \<open>setItem\<close> succeeds at the moment; it may change with every call (\<open>store_step\<close>).\<close>

record host_store =
  document :: host_document
  stored :: "json_text option"
  writable :: bool

definition new_store :: "json_text option \<Rightarrow> bool \<Rightarrow> host_store" where
  "new_store item w = \<lparr>document = emptyDocument, stored = item, writable = w\<rparr>"

definition load :: "credential_validator \<Rightarrow> gateway_normalizer \<Rightarrow> host_store \<Rightarrow> store_error + host_store" where
  "load V gw st =
     (case stored st of
        None \<Rightarrow> Inr (st\<lparr>document := emptyDocument\<rparr>)
      | Some None \<Rightarrow> Inl MalformedStoredJson
      | Some (Some parsed) \<Rightarrow>
          (case validateDocument V gw parsed of
             Inl err \<Rightarrow> Inl err
           | Inr d \<Rightarrow> Inr (st\<lparr>document := d\<rparr>)))"

definition commit ::
    "credential_validator \<Rightarrow> gateway_normalizer \<Rightarrow> host_document \<Rightarrow> host_store \<Rightarrow> store_error + host_store" where
  "commit V gw nxt st =
     (case validateDocument V gw (document_js nxt) of
        Inl err \<Rightarrow> Inl err
      | Inr validated \<Rightarrow>
          if \<not> writable st then Inl WriteFailed
          else Inr (st\<lparr>stored := Some (json_stringify (document_js validated)), document := validated\<rparr>))"

definition has_host :: "host_document \<Rightarrow> string \<Rightarrow> bool" where
  "has_host d i = list_ex (\<lambda>h. h_id h = i) (d_hosts d)"

text \<open>\<open>newId\<close> is what \<open>createId\<close> answers.\<close>

definition add ::
    "credential_validator \<Rightarrow> gateway_normalizer \<Rightarrow> string \<Rightarrow> saved_input \<Rightarrow> host_store \<Rightarrow> store_error + host_store" where
  "add V gw newId input st =
     (let d = document st in
      case validateSavedHostInput V gw newId input of
        Inl err \<Rightarrow> Inl err
      | Inr host \<Rightarrow>
          if newId = [] \<or> has_host d newId then Inl NoStableId
          else
            let nxt = d\<lparr>d_hosts := d_hosts d @ [host]\<rparr>;
                nxt' = (if d_defaultHostId nxt = None \<and> \<not> d_defaultHostExplicitlySet nxt
                        then nxt\<lparr>d_defaultHostId := Some newId, d_defaultHostExplicitlySet := True\<rparr>
                        else nxt)
            in commit V gw nxt' st)"

fun replace_first :: "string \<Rightarrow> saved_host \<Rightarrow> saved_host list \<Rightarrow> saved_host list" where
  "replace_first i h [] = []"
| "replace_first i h (x # xs) = (if h_id x = i then h # xs else x # replace_first i h xs)"

definition update ::
    "credential_validator \<Rightarrow> gateway_normalizer \<Rightarrow> string \<Rightarrow> saved_input \<Rightarrow> host_store \<Rightarrow> store_error + host_store" where
  "update V gw i input st =
     (let d = document st in
      if \<not> has_host d i then Inl HostGone
      else (case validateSavedHostInput V gw i input of
        Inl err \<Rightarrow> Inl err
      | Inr host \<Rightarrow> commit V gw (d\<lparr>d_hosts := replace_first i host (d_hosts d)\<rparr>) st))"

definition delete_host ::
    "credential_validator \<Rightarrow> gateway_normalizer \<Rightarrow> string \<Rightarrow> host_store \<Rightarrow> store_error + host_store" where
  "delete_host V gw i st =
     (let d = document st; deletingDefault = (d_defaultHostId d = Some i) in
      if \<not> has_host d i then Inr st
      else commit V gw
        (d\<lparr>d_hosts := filter (\<lambda>h. h_id h \<noteq> i) (d_hosts d),
           d_selectedHostId := (if d_selectedHostId d = Some i then None else d_selectedHostId d),
           d_defaultHostId := (if deletingDefault then None else d_defaultHostId d),
           d_defaultHostExplicitlySet := (deletingDefault \<or> d_defaultHostExplicitlySet d),
           d_importTombstones := (if i \<in> set (d_importedHostIds d)
              then d_importTombstones d @ [i] else d_importTombstones d)\<rparr>) st)"

definition select ::
    "credential_validator \<Rightarrow> gateway_normalizer \<Rightarrow> string option \<Rightarrow> host_store \<Rightarrow> store_error + host_store" where
  "select V gw i st =
     (let d = document st in
      if \<not> (case i of None \<Rightarrow> True | Some x \<Rightarrow> has_host d x) then Inl HostGone
      else commit V gw (d\<lparr>d_selectedHostId := i\<rparr>) st)"

definition setDefault ::
    "credential_validator \<Rightarrow> gateway_normalizer \<Rightarrow> string option \<Rightarrow> host_store \<Rightarrow> store_error + host_store" where
  "setDefault V gw i st =
     (let d = document st in
      if \<not> (case i of None \<Rightarrow> True | Some x \<Rightarrow> has_host d x) then Inl DefaultGone
      else commit V gw (d\<lparr>d_defaultHostId := i, d_defaultHostExplicitlySet := True\<rparr>) st)"

text \<open>\<open>splice(source, 1)\<close>, then \<open>splice(destination, 0, host)\<close>.\<close>

definition move_host :: "nat \<Rightarrow> nat \<Rightarrow> saved_host list \<Rightarrow> saved_host list" where
  "move_host src dst hosts =
     (let without = take src hosts @ drop (Suc src) hosts
      in take dst without @ hosts ! src # drop dst without)"

fun index_of :: "string \<Rightarrow> saved_host list \<Rightarrow> nat option" where
  "index_of i [] = None"
| "index_of i (h # hs) = (if h_id h = i then Some 0 else map_option Suc (index_of i hs))"

definition move ::
    "credential_validator \<Rightarrow> gateway_normalizer \<Rightarrow> string \<Rightarrow> jsnum \<Rightarrow> host_store \<Rightarrow> store_error + host_store" where
  "move V gw i destination st =
     (let d = document st in
      case index_of i (d_hosts d) of
        None \<Rightarrow> Inl HostGone
      | Some src \<Rightarrow>
          (case destination of
             IntN k \<Rightarrow>
               if \<not> is_safe_integer (IntN k) \<or> k < 0 \<or> int (length (d_hosts d)) \<le> k then Inl BadPosition
               else commit V gw (d\<lparr>d_hosts := move_host src (nat k) (d_hosts d)\<rparr>) st
           | _ \<Rightarrow> Inl BadPosition))"

subsection \<open>Import\<close>

text \<open>
  The loop over the imported hosts: \<open>incoming\<close> is the \<open>Map\<close> of accepted records by id, in
  insertion order (\<open>AList.update\<close> keeps the place of a key).
\<close>

fun collect_incoming ::
    "host_document \<Rightarrow> (string \<times> saved_host) list \<Rightarrow> saved_host list \<Rightarrow>
     store_error + (string \<times> saved_host) list" where
  "collect_incoming d incoming [] = Inr incoming"
| "collect_incoming d incoming (c # cs) =
     (if h_id c \<in> set (d_importTombstones d) then collect_incoming d incoming cs
      else if (case map_of incoming (h_id c) of Some dup \<Rightarrow> \<not> sameHost dup c | None \<Rightarrow> False)
      then Inl (ImportConflict (h_id c))
      else if (case find (\<lambda>h. h_id h = h_id c) (d_hosts d) of
                 Some existing \<Rightarrow> h_id c \<notin> set (d_importedHostIds d) \<and> \<not> sameHost existing c
               | None \<Rightarrow> False)
      then Inl (ExistingConflict (h_id c))
      else collect_incoming d (AList.update (h_id c) c incoming) cs)"

definition merged_hosts :: "host_document \<Rightarrow> (string \<times> saved_host) list \<Rightarrow> saved_host list" where
  "merged_hosts d incoming =
     d_hosts d @ map snd (filter (\<lambda>(i, _). \<not> has_host d i) incoming)"

definition present_default :: "saved_host list \<Rightarrow> string option \<Rightarrow> string option" where
  "present_default hosts def =
     (case def of None \<Rightarrow> None | Some i \<Rightarrow> if list_ex (\<lambda>h. h_id h = i) hosts then Some i else None)"

definition import_document ::
    "host_document \<Rightarrow> (string \<times> saved_host) list \<Rightarrow> string option \<Rightarrow> host_document" where
  "import_document d incoming def =
     (let hosts = merged_hosts d incoming;
          applied = (\<not> d_defaultHostExplicitlySet d \<and> present_default hosts def \<noteq> None) in
      d\<lparr>d_hosts := hosts,
        d_selectedHostId := (case d_selectedHostId d of Some s \<Rightarrow> Some s | None \<Rightarrow> present_default hosts def),
        d_defaultHostId := (if applied then def else d_defaultHostId d),
        d_defaultHostExplicitlySet := (d_defaultHostExplicitlySet d \<or> applied),
        d_importedHostIds := js_uniq (d_importedHostIds d @ map fst incoming)\<rparr>)"

definition importHosts ::
    "credential_validator \<Rightarrow> gateway_normalizer \<Rightarrow> js list \<Rightarrow> string option \<Rightarrow> host_store \<Rightarrow> store_error + host_store" where
  "importHosts V gw hosts def st =
     (let d = document st in
      case validate_hosts V gw hosts of
        Inl err \<Rightarrow> Inl err
      | Inr imported \<Rightarrow>
          (case collect_incoming d [] imported of
             Inl err \<Rightarrow> Inl err
           | Inr incoming \<Rightarrow>
               if (case def of None \<Rightarrow> False
                   | Some i \<Rightarrow> i \<notin> set (d_importTombstones d) \<and> map_of incoming i = None
                       \<and> \<not> has_host d i)
               then Inl ImportedDefaultMissing
               else commit V gw (import_document d incoming def) st))"

subsection \<open>What validation guarantees\<close>

definition valid_host :: "credential_validator \<Rightarrow> gateway_normalizer \<Rightarrow> saved_host \<Rightarrow> bool" where
  "valid_host V gw h \<longleftrightarrow> validateHost V gw (host_js h) = Inr h \<and> json_norm (host_js h) = host_js h"

definition valid_document :: "credential_validator \<Rightarrow> gateway_normalizer \<Rightarrow> host_document \<Rightarrow> bool" where
  "valid_document V gw d \<longleftrightarrow>
     list_all (valid_host V gw) (d_hosts d) \<and> distinct (map h_id (d_hosts d))
     \<and> absent_or_in (d_selectedHostId d) (map h_id (d_hosts d))
     \<and> absent_or_in (d_defaultHostId d) (map h_id (d_hosts d))
     \<and> distinct (d_importedHostIds d) \<and> distinct (d_importTombstones d)
     \<and> [] \<notin> set (d_importedHostIds d)
     \<and> set (d_importTombstones d) \<subseteq> set (d_importedHostIds d)"

text \<open>A host that is either refused or stored exactly as it is.\<close>

definition stable_host :: "credential_validator \<Rightarrow> gateway_normalizer \<Rightarrow> saved_host \<Rightarrow> bool" where
  "stable_host V gw h \<longleftrightarrow> (\<forall>h'. validateHost V gw (host_js h) = Inr h' \<longrightarrow> h' = h)"

lemma strings_of_Str: "strings_of (map Str ss) = (if [] \<in> set ss then None else Some ss)"
  by (induction ss) auto

lemma strings_of_SomeD: "strings_of vs = Some ss \<Longrightarrow> vs = map Str ss \<and> [] \<notin> set ss"
  by (induction vs arbitrary: ss) (auto split: js.splits if_splits)

lemma uniqueStrings_Str:
  "uniqueStrings (Arr (map Str ss)) = (if [] \<notin> set ss \<and> distinct ss then Some ss else None)"
  by (auto simp: uniqueStrings_def strings_of_Str)

lemma uniqueStrings_SomeD: "uniqueStrings v = Some ss \<Longrightarrow> distinct ss \<and> [] \<notin> set ss"
  by (auto simp: uniqueStrings_def split: js.splits option.splits if_splits dest: strings_of_SomeD)

lemma nullable_null_or_string [simp]: "nullable_string (null_or_string x) = Some x"
  by (cases x) auto

lemma validate_hosts_InrD:
  "validate_hosts V gw vs = Inr hs \<Longrightarrow> list_all2 (\<lambda>v h. validateHost V gw v = Inr h) vs hs"
  by (induction vs arbitrary: hs) (auto split: sum.splits)

lemma validate_hosts_ok:
  "list_all (valid_host V gw) hs \<Longrightarrow> validate_hosts V gw (map host_js hs) = Inr hs"
  by (induction hs) (auto simp: valid_host_def)

lemma validate_hosts_stable:
  "list_all (stable_host V gw) hs \<Longrightarrow> validate_hosts V gw (map host_js hs) = Inr hs' \<Longrightarrow> hs' = hs"
  by (induction hs arbitrary: hs') (auto simp: stable_host_def split: sum.splits)

lemma json_norm_target [simp]: "json_norm (target_js t) = target_js t"
  by (simp add: target_js_def)

lemma json_norm_host: "json_norm (h_credentialRef h) = h_credentialRef h \<Longrightarrow>
  isValidTcpPort (h_port h) \<Longrightarrow> json_norm (host_js h) = host_js h"
proof -
  assume c: "json_norm (h_credentialRef h) = h_credentialRef h" and p: "isValidTcpPort (h_port h)"
  from c have "h_credentialRef h \<noteq> Undef" by (metis json_norm_not_Undef)
  moreover obtain k where "h_port h = IntN k" using p by (rule valid_portE)
  ultimately show ?thesis using c
    by (cases "h_gateway h") (auto simp: host_js_def target_js_def)
qed

lemma host_js_props:
  "get_prop ((''id'', Str a) # (''name'', Str b) # (''hostname'', Str c) # (''port'', Num p) #
      (''username'', Str u) # (''credentialRef'', cr) # g) k =
    (if k = ''id'' then Str a else if k = ''name'' then Str b else if k = ''hostname'' then Str c
     else if k = ''port'' then Num p else if k = ''username'' then Str u
     else if k = ''credentialRef'' then cr else get_prop g k)"
  by (simp add: get_prop_def)

lemma validated_input:
  assumes "validateSavedHostInput V gw hid input = Inr h"
  shows "h_id h = hid \<and> \<not> bad_name (h_name h) \<and> js_trim (h_name h) = h_name h
    \<and> \<not> bad_hostname (h_hostname h) \<and> js_trim (h_hostname h) = h_hostname h
    \<and> \<not> bad_username (h_username h) \<and> js_trim (h_username h) = h_username h
    \<and> isValidTcpPort (h_port h) \<and> V (i_credentialRef input) = Some (h_credentialRef h)
    \<and> (case i_gateway input of None \<Rightarrow> h_gateway h = None
       | Some m \<Rightarrow> (\<exists>t. gw m = Some t \<and> h_gateway h = Some t))"
  using assms
  by (auto simp: validateSavedHostInput_def validateGatewayMarker_def Let_def
      split: if_splits option.splits sum.splits)

subsection \<open>The contract of the validators\<close>

text \<open>
  What the store relies on: a value that passed a validator passes it again unchanged, and a
  validated credential reference is a JSON value.
\<close>

locale host_rules =
  fixes V :: credential_validator and gw :: gateway_normalizer
  assumes credential_again: "V v = Some w \<Longrightarrow> V w = Some w"
    and credential_json: "V v = Some w \<Longrightarrow> json_norm w = w"
    and gateway_again: "gw v = Some t \<Longrightarrow> gw (target_js t) = Some t"
begin

lemma input_valid:
  assumes "validateSavedHostInput V gw hid input = Inr h" "\<not> bad_id hid"
  shows "valid_host V gw h \<and> h_id h = hid"
proof -
  note h = validated_input [OF assms(1)]
  have V: "V (h_credentialRef h) = Some (h_credentialRef h)"
    and j: "json_norm (h_credentialRef h) = h_credentialRef h" "h_credentialRef h \<noteq> Undef"
    using h credential_json credential_again json_norm_not_Undef by metis+
  have g: "h_gateway h = Some t \<Longrightarrow> gw (target_js t) = Some t" for t
    using h gateway_again by (auto split: option.splits)
  have t: "target_js t \<noteq> Undef" "get_prop [(''gateway'', target_js t)] ''gateway'' = target_js t"
    "get_prop [] k = Undef" for t k
    by (simp_all add: target_js_def get_prop_def)
  have "validateHost V gw (host_js h) = Inr h"
    using h V j(2) assms(2) g t
    by (cases "h_gateway h") (auto simp: validateSavedHostInput_def validateHost_def host_js_def
        host_js_props Let_def absent_gateway_def validateGatewayMarker_def)
  moreover have "json_norm (host_js h) = host_js h"
    using json_norm_host [OF j(1)] h by simp
  ultimately show ?thesis using h by (simp add: valid_host_def)
qed

lemma host_valid: "validateHost V gw v = Inr h \<Longrightarrow> valid_host V gw h"
  by (auto simp: validateHost_def dest: input_valid split: js.splits if_splits)

lemma input_id: "validateSavedHostInput V gw hid input = Inr h \<Longrightarrow> h_id h = hid"
  using validated_input by blast

lemma input_stable: "validateSavedHostInput V gw hid input = Inr h \<Longrightarrow> stable_host V gw h"
proof (cases "bad_id hid")
  case True
  assume a: "validateSavedHostInput V gw hid input = Inr h"
  then have "h_id h = hid" using validated_input by blast
  with True show ?thesis
    by (simp add: stable_host_def validateHost_def host_js_def host_js_props)
qed (auto dest: input_valid simp: valid_host_def stable_host_def)

lemma valid_stable: "valid_host V gw h \<Longrightarrow> stable_host V gw h"
  by (simp add: valid_host_def stable_host_def)

lemma document_valid:
  assumes "validateDocument V gw v = Inr d"
  shows "valid_document V gw d"
proof -
  from assms obtain r hs where h: "v = Obj r" "validate_hosts V gw hs = Inr (d_hosts d)"
    by (auto simp: validateDocument_def Let_def
        split: js.splits option.splits bool.splits if_splits sum.splits)
  have "list_all (valid_host V gw) (d_hosts d)"
    using validate_hosts_InrD [OF h(2)] host_valid
    by (auto simp: list_all2_conv_all_nth list_all_length)
  moreover have "distinct (d_importedHostIds d) \<and> [] \<notin> set (d_importedHostIds d)"
    "distinct (d_importTombstones d)"
    using assms by (auto simp: validateDocument_def Let_def
        split: js.splits option.splits bool.splits if_splits sum.splits dest!: uniqueStrings_SomeD)
  moreover have "set (d_importTombstones d) \<subseteq> set (d_importedHostIds d)"
    "distinct (map h_id (d_hosts d))"
    "absent_or_in (d_selectedHostId d) (map h_id (d_hosts d))"
    "absent_or_in (d_defaultHostId d) (map h_id (d_hosts d))"
    using assms by (auto simp: validateDocument_def Let_def list_ex_iff
        split: js.splits option.splits bool.splits if_splits sum.splits)
  ultimately show ?thesis by (simp add: valid_document_def)
qed

end

lemma document_js_props:
  "get_prop [(''schemaVersion'', a), (''hosts'', b), (''selectedHostId'', c), (''defaultHostId'', e),
     (''defaultHostExplicitlySet'', f), (''importedHostIds'', g), (''importTombstones'', h)] k =
   (if k = ''schemaVersion'' then a else if k = ''hosts'' then b else if k = ''selectedHostId'' then c
    else if k = ''defaultHostId'' then e else if k = ''defaultHostExplicitlySet'' then f
    else if k = ''importedHostIds'' then g else if k = ''importTombstones'' then h else Undef)"
  by (simp add: get_prop_def)

lemma validate_valid_document:
  assumes "valid_document V gw d"
  shows "validateDocument V gw (document_js d) = Inr d"
proof -
  have e: "\<not> list_ex (\<lambda>i. i \<notin> set (d_importedHostIds d)) (d_importTombstones d)"
    "[] \<notin> set (d_importTombstones d)"
    using assms by (auto simp: valid_document_def list_ex_iff)
  then show ?thesis using assms
    by (simp add: validateDocument_def document_js_def document_js_props uniqueStrings_Str
        validate_hosts_ok valid_document_def Let_def)
qed

lemma json_norm_document:
  assumes "list_all (valid_host V gw) (d_hosts d)"
  shows "json_norm (document_js d) = document_js d"
proof -
  have "json_norm_list (map host_js (d_hosts d)) = map host_js (d_hosts d)"
    using assms by (auto simp: json_norm_list_map list_all_iff valid_host_def)
  moreover have "json_norm_list (map Str ss) = map Str ss" for ss
    by (simp add: json_norm_list_map)
  moreover have "json_norm (null_or_string x) = null_or_string x" "null_or_string x \<noteq> Undef" for x
    by (cases x; simp)+
  ultimately show ?thesis by (simp add: document_js_def)
qed

lemma validateDocument_stable:
  assumes "validateDocument V gw (document_js nxt) = Inr d" "list_all (stable_host V gw) (d_hosts nxt)"
  shows "d = nxt"
  using assms validate_hosts_stable [OF assms(2)]
  by (auto simp: validateDocument_def document_js_def document_js_props uniqueStrings_Str Let_def
      split: option.splits if_splits sum.splits)

subsection \<open>Operations on a valid store\<close>

datatype host_op =
    Load
  | Add string saved_input
  | Update string saved_input
  | Delete string
  | Select "string option"
  | SetDefault "string option"
  | Move string jsnum
  | Import "js list" "string option"

fun apply_op ::
    "credential_validator \<Rightarrow> gateway_normalizer \<Rightarrow> host_op \<Rightarrow> host_store \<Rightarrow> store_error + host_store" where
  "apply_op V gw Load st = load V gw st"
| "apply_op V gw (Add newId input) st = add V gw newId input st"
| "apply_op V gw (Update i input) st = update V gw i input st"
| "apply_op V gw (Delete i) st = delete_host V gw i st"
| "apply_op V gw (Select i) st = select V gw i st"
| "apply_op V gw (SetDefault i) st = setDefault V gw i st"
| "apply_op V gw (Move i k) st = move V gw i k st"
| "apply_op V gw (Import hs def) st = importHosts V gw hs def st"

text \<open>
  One call, at a moment at which the platform's storage accepts a write or does not. An
  operation that throws leaves the document and the stored item as they were.
\<close>

definition store_step ::
    "credential_validator \<Rightarrow> gateway_normalizer \<Rightarrow> host_store \<Rightarrow> bool \<times> host_op \<Rightarrow> host_store" where
  "store_step V gw st e =
     (let st = st\<lparr>writable := fst e\<rparr>
      in case apply_op V gw (snd e) st of Inl _ \<Rightarrow> st | Inr st' \<Rightarrow> st')"

text \<open>The document is valid and is what loading the stored text would give.\<close>

definition store_inv :: "credential_validator \<Rightarrow> gateway_normalizer \<Rightarrow> host_store \<Rightarrow> bool" where
  "store_inv V gw st \<longleftrightarrow> valid_document V gw (document st) \<and> load V gw st = Inr st"

lemma writable_inv: "store_inv V gw st \<Longrightarrow> store_inv V gw (st\<lparr>writable := w\<rparr>)"
  by (cases st) (auto simp: store_inv_def load_def split: option.splits sum.splits)

lemma set_replace_first: "set (replace_first i h hs) \<subseteq> insert h (set hs)"
  by (induction hs) auto

lemma ids_replace_first: "h_id h = i \<Longrightarrow> map h_id (replace_first i h hs) = map h_id hs"
  by (induction hs) auto

lemma set_move_host: "src < length hs \<Longrightarrow> set (move_host src dst hs) = set hs"
proof -
  assume a: "src < length hs"
  let ?w = "take src hs @ drop (Suc src) hs"
  have "set (move_host src dst hs) = insert (hs ! src) (set (take dst ?w) \<union> set (drop dst ?w))"
    by (auto simp: move_host_def Let_def)
  also have "set (take dst ?w) \<union> set (drop dst ?w) = set ?w"
    by (metis append_take_drop_id set_append)
  also have "insert (hs ! src) (set ?w) = set (take src hs @ hs ! src # drop (Suc src) hs)" by auto
  finally show ?thesis using id_take_nth_drop [OF a] by simp
qed

lemma index_of_SomeD: "index_of i hs = Some k \<Longrightarrow> k < length hs \<and> h_id (hs ! k) = i"
  by (induction hs arbitrary: k) (auto split: if_splits)

lemma collect_incoming_values:
  "collect_incoming d incoming cs = Inr out \<Longrightarrow>
   snd ` set out \<subseteq> snd ` set incoming \<union> set cs"
proof (induction cs arbitrary: incoming)
  case (Cons c cs)
  have u: "snd ` set (AList.update (h_id c) c incoming) \<subseteq> insert c (snd ` set incoming)"
    by (induction incoming) auto
  from Cons.prems consider "collect_incoming d incoming cs = Inr out"
    | "collect_incoming d (AList.update (h_id c) c incoming) cs = Inr out"
    by (auto split: if_splits)
  then show ?case
  proof cases
    case 1
    from Cons.IH [OF this] show ?thesis by auto
  next
    case 2
    from Cons.IH [OF this] u show ?thesis by auto
  qed
qed simp

context host_rules
begin

lemma commit_InrD:
  assumes "commit V gw nxt st = Inr st'" "list_all (stable_host V gw) (d_hosts nxt)"
  shows "document st' = nxt \<and> valid_document V gw nxt \<and> load V gw st' = Inr st'
    \<and> stored st' = Some (Some (document_js nxt)) \<and> writable st' = writable st"
proof -
  from assms(1) obtain d where d: "validateDocument V gw (document_js nxt) = Inr d"
    and st': "st' = st\<lparr>stored := Some (json_stringify (document_js d)), document := d\<rparr>"
    by (auto simp: commit_def split: sum.splits if_splits)
  have n: "d = nxt" by (rule validateDocument_stable [OF d assms(2)])
  have v: "valid_document V gw nxt" using document_valid [OF d] n by simp
  then have "json_norm (document_js nxt) = document_js nxt"
    using json_norm_document [of V gw nxt] by (simp add: valid_document_def)
  with v n st' validate_valid_document [OF v] show ?thesis
    by (simp add: load_def json_stringify_def)
qed

lemma commit_inv:
  "commit V gw nxt st = Inr st' \<Longrightarrow> list_all (stable_host V gw) (d_hosts nxt) \<Longrightarrow> store_inv V gw st'"
  using commit_InrD by (simp add: store_inv_def)

lemma hosts_stable:
  assumes "store_inv V gw st"
  shows "list_all (stable_host V gw) (d_hosts (document st))"
  using assms valid_stable by (auto simp: store_inv_def valid_document_def list_all_iff)

lemma import_stable:
  assumes "list_all (stable_host V gw) (d_hosts d)" "validate_hosts V gw hosts = Inr imported"
    "collect_incoming d [] imported = Inr incoming"
  shows "list_all (stable_host V gw) (d_hosts (import_document d incoming def))"
proof -
  have "list_all (stable_host V gw) imported"
    using validate_hosts_InrD [OF assms(2)] host_valid valid_stable
    by (auto simp: list_all2_conv_all_nth list_all_length)
  moreover have "snd ` set incoming \<subseteq> set imported"
    using collect_incoming_values [OF assms(3)] by simp
  ultimately show ?thesis using assms(1)
    by (auto simp: import_document_def Let_def merged_hosts_def list_all_iff)
qed

lemma op_inv:
  assumes inv: "store_inv V gw st" and r: "apply_op V gw p st = Inr st'"
  shows "store_inv V gw st'"
proof -
  note st = hosts_stable [OF inv]
  show ?thesis
  proof (cases p)
    case Load
    with inv r show ?thesis by (simp add: store_inv_def)
  next
    case (Add newId input)
    then show ?thesis using r st
      by (auto simp: add_def Let_def dest: input_stable split: sum.splits if_splits
          elim!: commit_inv)
  next
    case (Update i input)
    then show ?thesis using r st set_replace_first
      by (fastforce simp: update_def Let_def list_all_iff dest: input_stable split: sum.splits if_splits
          elim!: commit_inv)
  next
    case (Delete i)
    then show ?thesis using r st inv
      by (auto simp: delete_host_def Let_def list_all_iff split: if_splits elim!: commit_inv)
  next
    case (Select i)
    then show ?thesis using r st
      by (auto simp: select_def Let_def split: if_splits option.splits elim!: commit_inv)
  next
    case (SetDefault i)
    then show ?thesis using r st
      by (auto simp: setDefault_def Let_def split: if_splits option.splits elim!: commit_inv)
  next
    case (Move i k)
    then show ?thesis using r st index_of_SomeD
      by (auto simp: move_def Let_def list_all_iff set_move_host
          split: if_splits option.splits jsnum.splits elim!: commit_inv)
  next
    case (Import hs def)
    then show ?thesis using r import_stable [OF st]
      by (auto simp: importHosts_def Let_def split: if_splits option.splits sum.splits elim!: commit_inv)
  qed
qed

lemma step_inv_store: "store_inv V gw st \<Longrightarrow> store_inv V gw (store_step V gw st e)"
  using op_inv [OF writable_inv] writable_inv by (auto simp: store_step_def Let_def split: sum.splits)

lemma load_inv: "load V gw st = Inr st' \<Longrightarrow> store_inv V gw st'"
proof -
  assume l: "load V gw st = Inr st'"
  then have "valid_document V gw (document st')"
    using document_valid
    by (fastforce simp: load_def emptyDocument_def valid_document_def absent_or_in_def
        split: option.splits sum.splits)
  moreover have "load V gw st' = Inr st'"
    using l by (auto simp: load_def split: option.splits sum.splits)
  ultimately show ?thesis by (simp add: store_inv_def)
qed

end

sublocale host_rules \<subseteq> saved: machine "store_step V gw" "store_inv V gw"
  by unfold_locales (rule step_inv_store)

subsection \<open>The rules hold for the default validator and gateway targets\<close>

definition key_ref :: "string \<Rightarrow> string \<Rightarrow> bool \<Rightarrow> js" where
  "key_ref handleId label required =
     Obj [(''kind'', Str ''key-handle''), (''handleId'', Str handleId), (''label'', Str label),
          (''passphraseRequired'', Bool required)]"

lemma key_ref_cases:
  "validateSavedHostKeyRef v = Some w \<Longrightarrow>
   w = Null \<or> (\<exists>h l b. js_trim h \<noteq> [] \<and> js_trim l \<noteq> [] \<and> w = key_ref h l b)"
  by (auto simp: validateSavedHostKeyRef_def key_ref_def
      split: js.splits if_splits prod.splits)

lemma key_ref_ok:
  assumes "js_trim h \<noteq> []" "js_trim l \<noteq> []"
  shows "validateSavedHostKeyRef (key_ref h l b) = Some (key_ref h l b)"
  using assms by (simp add: validateSavedHostKeyRef_def key_ref_def get_prop_def KEY_REF_KEYS_def)

lemma key_ref_again: "validateSavedHostKeyRef v = Some w \<Longrightarrow> validateSavedHostKeyRef w = Some w \<and> json_norm w = w"
proof -
  assume "validateSavedHostKeyRef v = Some w"
  then consider "w = Null" | h l b where "js_trim h \<noteq> []" "js_trim l \<noteq> []" "w = key_ref h l b"
    using key_ref_cases by blast
  then show ?thesis
  proof cases
    case 1
    then show ?thesis by (simp add: validateSavedHostKeyRef_def)
  next
    case (2 h l b)
    with key_ref_ok [OF 2(1,2)] show ?thesis by (simp add: key_ref_def)
  qed
qed

lemma host_rules_default:
  "url_law parse_url \<Longrightarrow> host_rules validateSavedHostKeyRef (normalizeGatewayTarget parse_url)"
  using key_ref_again normalizeGatewayTarget_idem by unfold_locales blast+

interpretation default_rules: host_rules validateSavedHostKeyRef "normalizeGatewayTarget plain_origin"
  by (rule host_rules_default) (rule plain_origin_law)

subsection \<open>Properties of the store\<close>

lemma valid_host_fields:
  assumes "valid_host V gw h"
  shows "\<not> bad_id (h_id h) \<and> \<not> bad_name (h_name h) \<and> \<not> bad_hostname (h_hostname h)
    \<and> \<not> bad_username (h_username h) \<and> isValidTcpPort (h_port h)"
  using assms
  by (auto simp: valid_host_def validateHost_def host_js_def host_js_props
      dest: validated_input split: if_splits)

text \<open>
  C37: the store is always valid and always reloads to itself. After a successful load and any
  sequence of operations, accepted or refused, every host has a usable id, name, address, port
  and user, ids are unique, the selected and the default host exist, tombstones are imported
  ids, and loading what is stored gives exactly the document in memory.
\<close>

theorem saved_hosts_always_valid:
  assumes "host_rules V gw" "load V gw st0 = Inr st1"
  shows "let st = run_events (store_step V gw) st1 ops; d = document st in
     list_all (\<lambda>h. \<not> bad_id (h_id h) \<and> \<not> bad_name (h_name h) \<and> \<not> bad_hostname (h_hostname h)
        \<and> \<not> bad_username (h_username h) \<and> isValidTcpPort (h_port h)) (d_hosts d)
     \<and> distinct (map h_id (d_hosts d))
     \<and> absent_or_in (d_selectedHostId d) (map h_id (d_hosts d))
     \<and> absent_or_in (d_defaultHostId d) (map h_id (d_hosts d))
     \<and> set (d_importTombstones d) \<subseteq> set (d_importedHostIds d)
     \<and> load V gw st = Inr st"
proof -
  have "store_inv V gw (run_events (store_step V gw) st1 ops)"
    using host_rules.load_inv [OF assms] machine.run_inv [of "store_step V gw" "store_inv V gw"]
      host_rules.step_inv_store [OF assms(1)] by (metis machine.intro)
  then show ?thesis
    using valid_host_fields
    by (auto simp: store_inv_def valid_document_def Let_def list_all_iff simp del: isValidTcpPort.simps)
qed

definition demo_saved_input :: saved_input where
  "demo_saved_input = \<lparr>i_name = ''dev'', i_hostname = ''h1'', i_port = IntN 22, i_username = ''me'',
     i_credentialRef = Null, i_gateway = None\<rparr>"

definition demo_saved_host :: saved_host where
  "demo_saved_host = \<lparr>h_id = ''id1'', h_name = ''dev'', h_hostname = ''h1'', h_port = IntN 22,
     h_username = ''me'', h_credentialRef = Null, h_gateway = None\<rparr>"

abbreviation demo_gw :: gateway_normalizer where
  "demo_gw \<equiv> normalizeGatewayTarget plain_origin"

lemma demo_input_host:
  "validateSavedHostInput validateSavedHostKeyRef demo_gw ''id1'' demo_saved_input = Inr demo_saved_host"
  by (simp add: demo_saved_input_def demo_saved_host_def validateSavedHostInput_def js_trim_def
      js_space_def bad_name_def bad_hostname_def bad_username_def has_control_def is_control_def
      space_or_control_def validateSavedHostKeyRef_def)

lemma demo_valid_host: "valid_host validateSavedHostKeyRef demo_gw demo_saved_host"
proof -
  have "\<not> bad_id ''id1''" by (simp add: bad_id_def js_trim_def js_space_def has_control_def is_control_def)
  from default_rules.input_valid [OF demo_input_host this] show ?thesis by simp
qed

definition demo_document :: host_document where
  "demo_document = \<lparr>d_hosts = [demo_saved_host], d_selectedHostId = None, d_defaultHostId = Some ''id1'',
     d_defaultHostExplicitlySet = True, d_importedHostIds = [''id1''], d_importTombstones = []\<rparr>"

definition demo_store :: host_store where
  "demo_store = \<lparr>document = demo_document, stored = Some (json_stringify (document_js demo_document)), writable = True\<rparr>"

lemma demo_valid_document: "valid_document validateSavedHostKeyRef demo_gw demo_document"
  by (simp add: demo_document_def valid_document_def demo_valid_host absent_or_in_def)
    (simp add: demo_saved_host_def)

lemma demo_store_inv: "store_inv validateSavedHostKeyRef demo_gw demo_store"
  using demo_valid_document validate_valid_document [OF demo_valid_document]
    json_norm_document [of validateSavedHostKeyRef demo_gw demo_document]
  by (simp add: store_inv_def demo_store_def load_def json_stringify_def)
    (simp add: valid_document_def)

theorem saved_hosts_always_valid_witness:
  "load validateSavedHostKeyRef demo_gw (run_events (store_step validateSavedHostKeyRef demo_gw) demo_store
      [(True, Add ''id2'' demo_saved_input)]) =
    Inr (run_events (store_step validateSavedHostKeyRef demo_gw) demo_store [(True, Add ''id2'' demo_saved_input)])"
  using saved_hosts_always_valid [OF default_rules.host_rules_axioms, of demo_store demo_store
      "[(True, Add ''id2'' demo_saved_input)]"] demo_store_inv
  by (simp add: store_inv_def Let_def)

subsection \<open>Importing\<close>

lemma collect_grows:
  "collect_incoming d incoming cs = Inr out \<Longrightarrow> fst ` set incoming \<subseteq> fst ` set out"
proof (induction cs arbitrary: incoming)
  case (Cons c cs)
  from Cons.prems consider "collect_incoming d incoming cs = Inr out"
    | "collect_incoming d (AList.update (h_id c) c incoming) cs = Inr out"
    by (auto split: if_splits)
  then show ?case
  proof cases
    case 2
    from Cons.IH [OF this] show ?thesis by (simp add: dom_update)
  qed (rule Cons.IH)
qed simp

lemma collect_ids:
  "collect_incoming d incoming cs = Inr out \<Longrightarrow> \<forall>e \<in> set incoming. h_id (snd e) = fst e \<Longrightarrow>
   \<forall>e \<in> set out. h_id (snd e) = fst e"
proof (induction cs arbitrary: incoming)
  case (Cons c cs)
  have u: "\<forall>e \<in> set (AList.update (h_id c) c incoming). h_id (snd e) = fst e"
    using Cons.prems(2) by (induction incoming) auto
  from Cons.prems(1) consider "collect_incoming d incoming cs = Inr out"
    | "collect_incoming d (AList.update (h_id c) c incoming) cs = Inr out"
    by (auto split: if_splits)
  then show ?case using Cons.IH Cons.prems(2) u by cases blast+
qed simp

lemma collect_tombstones:
  "collect_incoming d incoming cs = Inr out \<Longrightarrow> fst ` set incoming \<inter> set (d_importTombstones d) = {} \<Longrightarrow>
   fst ` set out \<inter> set (d_importTombstones d) = {}"
proof (induction cs arbitrary: incoming)
  case (Cons c cs)
  from Cons.prems(1) consider "collect_incoming d incoming cs = Inr out"
    | "h_id c \<notin> set (d_importTombstones d)"
      "collect_incoming d (AList.update (h_id c) c incoming) cs = Inr out"
    by (auto split: if_splits)
  then show ?case
  proof cases
    case 2
    with Cons.IH [OF 2(2)] Cons.prems(2) show ?thesis by (simp add: dom_update)
  qed (rule Cons.IH [OF _ Cons.prems(2)])
qed simp

text \<open>Running the same import again finds every accepted id already imported.\<close>

lemma collect_again:
  assumes "collect_incoming d incoming cs = Inr out" "d_importTombstones d' = d_importTombstones d"
    "fst ` set out \<subseteq> set (d_importedHostIds d')"
  shows "collect_incoming d' incoming cs = Inr out"
  using assms(1,3)
proof (induction cs arbitrary: incoming)
  case (Cons c cs)
  show ?case
  proof (cases "h_id c \<in> set (d_importTombstones d)")
    case True
    with Cons assms(2) show ?thesis by simp
  next
    case False
    with Cons.prems(1) have r: "collect_incoming d (AList.update (h_id c) c incoming) cs = Inr out"
      and n: "\<not> (case map_of incoming (h_id c) of Some dup \<Rightarrow> \<not> sameHost dup c | None \<Rightarrow> False)"
      by (auto split: if_splits)
    have "h_id c \<in> set (d_importedHostIds d')"
      using collect_grows [OF r] Cons.prems(2) by (auto simp: dom_update)
    with False n Cons.IH [OF r Cons.prems(2)] assms(2) show ?thesis
      by (auto split: option.splits)
  qed
qed simp

lemma uniq_acc_append_known:
  "set ys \<subseteq> set xs \<union> set seen \<Longrightarrow> uniq_acc seen (xs @ ys) = uniq_acc seen xs"
proof (induction seen xs rule: uniq_acc.induct)
  case (1 seen)
  then show ?case by (induction ys) auto
qed auto

lemma js_uniq_append_known: "set ys \<subseteq> set xs \<Longrightarrow> js_uniq (xs @ ys) = js_uniq xs"
  by (simp add: js_uniq_def uniq_acc_append_known)

lemma has_host_iff: "has_host d i \<longleftrightarrow> i \<in> h_id ` set (d_hosts d)"
  by (auto simp: has_host_def list_ex_iff)

lemma import_document_again:
  assumes "\<forall>e \<in> set incoming. h_id (snd e) = fst e" "distinct (d_importedHostIds d)"
  shows "import_document (import_document d incoming def) incoming def = import_document d incoming def"
proof -
  let ?d = "import_document d incoming def"
  have h: "d_hosts ?d = merged_hosts d incoming" by (simp add: import_document_def Let_def)
  have "has_host ?d (fst e)" if "e \<in> set incoming" for e
  proof (cases "has_host d (fst e)")
    case True
    then show ?thesis by (auto simp: has_host_iff h merged_hosts_def)
  next
    case False
    then have "snd e \<in> set (merged_hosts d incoming)"
      using that by (force simp: merged_hosts_def)
    then show ?thesis using assms(1) that by (force simp: has_host_iff h)
  qed
  then have m: "merged_hosts ?d incoming = d_hosts ?d"
    by (auto simp: merged_hosts_def filter_empty_conv)
  have "js_uniq (js_uniq (d_importedHostIds d @ map fst incoming) @ map fst incoming) =
      js_uniq (d_importedHostIds d @ map fst incoming)"
    by (subst js_uniq_append_known) auto
  then show ?thesis unfolding import_document_def [of ?d] m
    by (auto simp: h Let_def) (auto simp: import_document_def Let_def split: option.splits)
qed

text \<open>
  Importing is idempotent and never loses an edit. A successful import keeps every saved
  host as it is, in place, adds only hosts after them, and running the same import again is
  accepted and changes nothing.
\<close>

theorem import_is_idempotent:
  assumes "host_rules V gw" "store_inv V gw st" "importHosts V gw hosts def st = Inr st'"
  shows "importHosts V gw hosts def st' = Inr st'
    \<and> (\<exists>new. d_hosts (document st') = d_hosts (document st) @ new)"
proof -
  let ?d = "document st"
  from assms(3) obtain imported incoming where i: "validate_hosts V gw hosts = Inr imported"
    "collect_incoming ?d [] imported = Inr incoming"
    and m: "\<not> (case def of None \<Rightarrow> False | Some i \<Rightarrow> i \<notin> set (d_importTombstones ?d)
        \<and> map_of incoming i = None \<and> \<not> has_host ?d i)"
    and c: "commit V gw (import_document ?d incoming def) st = Inr st'"
    by (auto simp: importHosts_def Let_def split: sum.splits if_splits)
  let ?d' = "import_document ?d incoming def"
  have s: "list_all (stable_host V gw) (d_hosts ?d')"
    by (rule host_rules.import_stable [OF assms(1) host_rules.hosts_stable [OF assms(1,2)] i])
  note d' = host_rules.commit_InrD [OF assms(1) c s]
  have ids: "\<forall>e \<in> set incoming. h_id (snd e) = fst e" by (rule collect_ids [OF i(2)]) simp
  have dist: "distinct (d_importedHostIds ?d)"
    using assms(2) by (simp add: store_inv_def valid_document_def)
  have "collect_incoming ?d' [] imported = Inr incoming"
    by (rule collect_again [OF i(2)]) (auto simp: import_document_def Let_def)
  moreover have "import_document ?d' incoming def = ?d'"
    by (rule import_document_again [OF ids dist])
  moreover have "\<not> (case def of None \<Rightarrow> False | Some i \<Rightarrow> i \<notin> set (d_importTombstones ?d')
      \<and> map_of incoming i = None \<and> \<not> has_host ?d' i)"
    using m by (auto simp: import_document_def Let_def has_host_iff merged_hosts_def split: option.splits)
  moreover have "commit V gw ?d' st' = Inr st'"
  proof -
    have v: "validateDocument V gw (document_js ?d') = Inr ?d'"
      using d' validate_valid_document by blast
    have "writable st'" using c d' by (auto simp: commit_def split: sum.splits if_splits)
    moreover have "json_stringify (document_js ?d') = Some (document_js ?d')"
      using json_norm_document [of V gw ?d'] d' by (simp add: json_stringify_def valid_document_def)
    ultimately show ?thesis using d' v by (simp add: commit_def)
  qed
  ultimately have "importHosts V gw hosts def st' = Inr st'"
    using i(1) d' by (simp add: importHosts_def Let_def)
  moreover have "d_hosts (document st') = d_hosts ?d @ map snd (filter (\<lambda>(i, _). \<not> has_host ?d i) incoming)"
    using d' by (simp add: import_document_def Let_def merged_hosts_def)
  ultimately show ?thesis by blast
qed

definition demo_import :: "js list" where
  "demo_import = [host_js demo_saved_host]"

lemma demo_imports: "importHosts validateSavedHostKeyRef demo_gw demo_import None demo_store = Inr demo_store"
proof -
  have "validate_hosts validateSavedHostKeyRef demo_gw demo_import = Inr [demo_saved_host]"
    using demo_valid_host by (simp add: demo_import_def valid_host_def)
  moreover have "import_document demo_document [(''id1'', demo_saved_host)] None = demo_document"
    by (simp add: import_document_def demo_document_def merged_hosts_def has_host_def
        demo_saved_host_def present_default_def js_uniq_def)
  moreover have "commit validateSavedHostKeyRef demo_gw demo_document demo_store = Inr demo_store"
    using validate_valid_document [OF demo_valid_document] by (simp add: commit_def demo_store_def)
  moreover have "collect_incoming demo_document [] [demo_saved_host] = Inr [(''id1'', demo_saved_host)]"
    by (simp add: demo_document_def demo_saved_host_def)
  ultimately show ?thesis
    by (simp add: importHosts_def demo_store_def)
qed

theorem import_is_idempotent_witness:
  "\<exists>new. d_hosts demo_document = d_hosts demo_document @ new"
  using import_is_idempotent [OF default_rules.host_rules_axioms demo_store_inv demo_imports]
  by (simp add: demo_store_def)

text \<open>
  Every operation that answers has left the document alone or has committed the next one; what
  each of them does to a tombstone and to the host it names.
\<close>

lemma import_keeps_tombstone:
  assumes "i \<in> set (d_importTombstones d)" "\<not> has_host d i" "collect_incoming d [] imported = Inr incoming"
  shows "\<not> has_host (import_document d incoming def) i
    \<and> d_importTombstones (import_document d incoming def) = d_importTombstones d"
proof -
  have "\<forall>e \<in> set incoming. h_id (snd e) = fst e" by (rule collect_ids [OF assms(3)]) simp
  moreover have "fst ` set incoming \<inter> set (d_importTombstones d) = {}"
    by (rule collect_tombstones [OF assms(3)]) simp
  ultimately have "\<forall>e \<in> set incoming. h_id (snd e) \<noteq> i" using assms(1) by force
  with assms(2) show ?thesis
    by (auto simp: has_host_iff import_document_def Let_def merged_hosts_def)
qed

text \<open>The host was deleted here after it had come by import, and is not there.\<close>

definition buried :: "string \<Rightarrow> host_store \<Rightarrow> bool" where
  "buried i st \<longleftrightarrow> i \<in> set (d_importTombstones (document st)) \<and> \<not> has_host (document st) i"

context host_rules
begin

lemma commit_buried:
  assumes "commit V gw nxt st = Inr st'" "list_all (stable_host V gw) (d_hosts nxt)"
    and "i \<in> set (d_importTombstones nxt)" "\<not> has_host nxt i"
  shows "buried i st'"
  using commit_InrD [OF assms(1,2)] assms(3,4) by (simp add: buried_def)

lemma op_buried:
  assumes inv: "store_inv V gw st" and b: "buried i st" and r: "apply_op V gw p st = Inr st'"
    and p: "\<forall>input. p \<noteq> Add i input"
  shows "buried i st'"
proof -
  note st = hosts_stable [OF inv]
  note b' = b [unfolded buried_def has_host_iff]
  show ?thesis
  proof (cases p)
    case Load
    with inv r b show ?thesis by (simp add: store_inv_def)
  next
    case (Add newId input)
    with p have "newId \<noteq> i" by blast
    then show ?thesis using r st b' Add
      by (auto simp: add_def Let_def has_host_iff dest: input_stable input_id split: sum.splits if_splits
          elim!: commit_buried)
  next
    case (Update j input)
    then show ?thesis using r st b' set_replace_first [of j _ "d_hosts (document st)"]
      by (fastforce simp: update_def Let_def list_all_iff has_host_iff dest: input_stable input_id
          split: sum.splits if_splits elim!: commit_buried)
  next
    case (Delete j)
    then show ?thesis using r st b b'
      by (auto simp: delete_host_def Let_def list_all_iff has_host_iff split: if_splits elim!: commit_buried)
  next
    case (Select j)
    then show ?thesis using r st b'
      by (auto simp: select_def Let_def has_host_iff split: if_splits option.splits elim!: commit_buried)
  next
    case (SetDefault j)
    then show ?thesis using r st b'
      by (auto simp: setDefault_def Let_def has_host_iff split: if_splits option.splits elim!: commit_buried)
  next
    case (Move j k)
    then show ?thesis using r st b' index_of_SomeD
      by (auto simp: move_def Let_def list_all_iff set_move_host has_host_iff
          split: if_splits option.splits jsnum.splits elim!: commit_buried)
  next
    case (Import hs def)
    with r obtain imported incoming where im: "validate_hosts V gw hs = Inr imported"
      "collect_incoming (document st) [] imported = Inr incoming"
      "commit V gw (import_document (document st) incoming def) st = Inr st'"
      by (auto simp: importHosts_def Let_def split: sum.splits if_splits)
    from import_keeps_tombstone [of i, OF _ _ im(2), of "def"] b show ?thesis
      by (intro commit_buried [OF im(3) import_stable [OF st im(1,2)]]) (simp_all add: buried_def)
  qed
qed

lemma step_buried:
  assumes "store_inv V gw st" "buried i st" "\<forall>input. snd e \<noteq> Add i input"
  shows "store_inv V gw (store_step V gw st e) \<and> buried i (store_step V gw st e)"
proof -
  have "buried i (st\<lparr>writable := w\<rparr>)" for w using assms(2) by (simp add: buried_def)
  then have "buried i (store_step V gw st e)"
    using op_buried [OF writable_inv [OF assms(1)] _ _ assms(3)]
    by (auto simp: store_step_def Let_def split: sum.splits)
  with step_inv_store [OF assms(1)] show ?thesis by blast
qed

lemma run_buried:
  assumes "store_inv V gw st" "buried i st" "\<forall>e \<in> set ops. \<forall>input. snd e \<noteq> Add i input"
  shows "store_inv V gw (run_events (store_step V gw) st ops) \<and> buried i (run_events (store_step V gw) st ops)"
  using assms
proof (induction ops arbitrary: st)
  case (Cons e es)
  with step_buried [of st i e] show ?case by simp
qed simp

lemma delete_buries:
  assumes "store_inv V gw st" "i \<in> set (d_importedHostIds (document st))" "has_host (document st) i"
    and "delete_host V gw i st = Inr st'"
  shows "store_inv V gw st' \<and> buried i st'"
  using assms hosts_stable [OF assms(1)]
  by (auto simp: delete_host_def Let_def list_all_iff has_host_iff elim!: commit_buried commit_inv)

end

text \<open>
  C38: a deleted imported host stays deleted. After the user deletes a host that once arrived
  by import, no sequence of operations brings it back, however many imports it holds and whatever
  their sources say, whether calls succeed or are refused and across reloads: the host is not in
  the list, nor the default, nor selected, and its tombstone is kept. The one exception is a host
  the user adds by hand and for which \<open>createId\<close> answers the very id again.
\<close>

theorem tombstoned_host_stays_deleted:
  assumes "host_rules V gw" "store_inv V gw st" "i \<in> set (d_importedHostIds (document st))"
    and "has_host (document st) i" "delete_host V gw i st = Inr st'"
    and "\<forall>e \<in> set ops. \<forall>input. snd e \<noteq> Add i input"
  shows "let d = document (run_events (store_step V gw) st' ops) in
     \<not> has_host d i \<and> i \<in> set (d_importTombstones d)
     \<and> d_defaultHostId d \<noteq> Some i \<and> d_selectedHostId d \<noteq> Some i"
proof -
  let ?st = "run_events (store_step V gw) st' ops"
  have "store_inv V gw ?st \<and> buried i ?st"
    using host_rules.delete_buries [OF assms(1-5)] host_rules.run_buried [OF assms(1) _ _ assms(6)] by blast
  then show ?thesis
    by (auto simp: Let_def store_inv_def valid_document_def absent_or_in_def buried_def has_host_iff)
qed

definition demo_emptied :: host_document where
  "demo_emptied = \<lparr>d_hosts = [], d_selectedHostId = None, d_defaultHostId = None,
     d_defaultHostExplicitlySet = True, d_importedHostIds = [''id1''], d_importTombstones = [''id1'']\<rparr>"

lemma demo_deletes:
  "delete_host validateSavedHostKeyRef demo_gw ''id1'' demo_store =
     Inr (demo_store\<lparr>document := demo_emptied, stored := Some (json_stringify (document_js demo_emptied))\<rparr>)"
proof -
  have "valid_document validateSavedHostKeyRef demo_gw demo_emptied"
    by (simp add: demo_emptied_def valid_document_def absent_or_in_def)
  from validate_valid_document [OF this] show ?thesis
    by (simp add: delete_host_def demo_store_def demo_document_def demo_saved_host_def has_host_def
        commit_def demo_emptied_def [symmetric])
qed

lemma demo_import_again:
  "importHosts validateSavedHostKeyRef demo_gw demo_import None
      (demo_store\<lparr>document := demo_emptied, stored := Some (json_stringify (document_js demo_emptied))\<rparr>) =
    Inr (demo_store\<lparr>document := demo_emptied, stored := Some (json_stringify (document_js demo_emptied))\<rparr>)"
proof -
  have "validate_hosts validateSavedHostKeyRef demo_gw demo_import = Inr [demo_saved_host]"
    using demo_valid_host by (simp add: demo_import_def valid_host_def)
  moreover have "collect_incoming demo_emptied [] [demo_saved_host] = Inr []"
    by (simp add: demo_emptied_def demo_saved_host_def)
  moreover have "import_document demo_emptied [] None = demo_emptied"
    by (simp add: import_document_def demo_emptied_def merged_hosts_def present_default_def js_uniq_def)
  moreover have "valid_document validateSavedHostKeyRef demo_gw demo_emptied"
    by (simp add: demo_emptied_def valid_document_def absent_or_in_def)
  ultimately show ?thesis using validate_valid_document [of validateSavedHostKeyRef demo_gw demo_emptied]
    by (simp add: importHosts_def commit_def demo_store_def)
qed

text \<open>The same list is imported twice after the delete, the second time after a reload.\<close>

theorem tombstoned_host_stays_deleted_witness:
  "\<not> has_host (document (run_events (store_step validateSavedHostKeyRef demo_gw)
       (demo_store\<lparr>document := demo_emptied, stored := Some (json_stringify (document_js demo_emptied))\<rparr>)
       [(True, Import demo_import None), (True, Load), (True, Import demo_import None)])) ''id1''
   \<and> importHosts validateSavedHostKeyRef demo_gw demo_import None
      (demo_store\<lparr>document := demo_emptied, stored := Some (json_stringify (document_js demo_emptied))\<rparr>) =
    Inr (demo_store\<lparr>document := demo_emptied, stored := Some (json_stringify (document_js demo_emptied))\<rparr>)"
  using tombstoned_host_stays_deleted [OF default_rules.host_rules_axioms demo_store_inv _ _ demo_deletes,
      of "[(True, Import demo_import None), (True, Load), (True, Import demo_import None)]"]
    demo_import_again
  by (simp add: demo_store_def demo_document_def demo_saved_host_def has_host_def Let_def)

subsection \<open>Moving\<close>

lemma nth_insert:
  "n \<le> length w \<Longrightarrow> (take n w @ x # drop n w) ! n = x \<and> n < length (take n w @ x # drop n w)"
  by (simp add: nth_append)

lemma filter_move_host:
  assumes "src < length hs" "distinct (map h_id hs)"
  shows "filter (\<lambda>h. h_id h \<noteq> h_id (hs ! src)) (move_host src dst hs) =
    filter (\<lambda>h. h_id h \<noteq> h_id (hs ! src)) hs"
proof -
  let ?w = "take src hs @ drop (Suc src) hs" and ?P = "\<lambda>h. h_id h \<noteq> h_id (hs ! src)"
  have "filter ?P (move_host src dst hs) = filter ?P (take dst ?w @ drop dst ?w)"
    unfolding move_host_def Let_def filter_append by simp
  also have "\<dots> = filter ?P ?w" by (simp only: append_take_drop_id)
  also have "\<dots> = filter ?P (take src hs @ hs ! src # drop (Suc src) hs)"
    by simp
  finally show ?thesis using id_take_nth_drop [OF assms(1)] by simp
qed

text \<open>
  Moving only moves. A successful move puts the named host at the requested position and
  keeps every other host and their order.
\<close>

theorem move_only_moves:
  assumes "host_rules V gw" "store_inv V gw st" "move V gw i (IntN k) st = Inr st'"
  shows "nat k < length (d_hosts (document st')) \<and> h_id (d_hosts (document st') ! nat k) = i
    \<and> filter (\<lambda>h. h_id h \<noteq> i) (d_hosts (document st')) = filter (\<lambda>h. h_id h \<noteq> i) (d_hosts (document st))
    \<and> set (d_hosts (document st')) = set (d_hosts (document st))"
proof -
  let ?hs = "d_hosts (document st)"
  from assms(3) obtain src where src: "index_of i ?hs = Some src"
    "0 \<le> k" "k < int (length ?hs)"
    "commit V gw ((document st)\<lparr>d_hosts := move_host src (nat k) ?hs\<rparr>) st = Inr st'"
    by (auto simp: move_def Let_def split: option.splits if_splits)
  note ix = index_of_SomeD [OF src(1)]
  have "list_all (stable_host V gw) (move_host src (nat k) ?hs)"
    using host_rules.hosts_stable [OF assms(1,2)] set_move_host ix by (auto simp: list_all_iff)
  from host_rules.commit_InrD [OF assms(1) src(4)] this
  have d: "d_hosts (document st') = move_host src (nat k) ?hs" by simp
  have len: "length (take src ?hs @ drop (Suc src) ?hs) = length ?hs - 1" using ix by auto
  have k: "nat k \<le> length ?hs - 1" using src(2,3) by linarith
  have "h_id (move_host src (nat k) ?hs ! nat k) = i \<and> nat k < length (move_host src (nat k) ?hs)"
    unfolding move_host_def Let_def using nth_insert k ix unfolding len [symmetric] by metis
  moreover have "distinct (map h_id ?hs)"
    using assms(2) by (simp add: store_inv_def valid_document_def)
  ultimately show ?thesis
    using d filter_move_host ix set_move_host by metis
qed

theorem move_only_moves_witness:
  "nat 0 < length (d_hosts demo_document) \<and> h_id (d_hosts demo_document ! nat 0) = ''id1''"
proof -
  have "move validateSavedHostKeyRef demo_gw ''id1'' (IntN 0) demo_store = Inr demo_store"
    using validate_valid_document [OF demo_valid_document]
    by (simp add: move_def demo_store_def demo_document_def demo_saved_host_def move_host_def commit_def
        max_safe_integer_def Let_def)
  from move_only_moves [OF default_rules.host_rules_axioms demo_store_inv this]
  show ?thesis by (simp add: demo_store_def)
qed

end
