(* ===== verification/Transport_Guard.thy ===== *)
theory Transport_Guard
  imports Gateway Ssh_Capability Port_Policy
begin

text \<open>
  The one transport-support decision of every dial boundary and the config write-back built on
  it: \<open>hasGatewayMarker\<close>, \<open>unsupportedTransport\<close>, \<open>coerceHostEntries\<close> of src/src/sync.ts. An
  entry is a plain object; a marker is detected by presence, whatever its value. The refusal
  text is determined by the reason and the label.
\<close>

record transport_capabilities =
  cap_gateway :: bool
  cap_link :: bool

datatype refusal_reason =
  GatewayUnsupported | GatewayInvalid | LinkAndGateway | LinkUnsupported | LinkInvalid

datatype transport_decision = Admitted | Refused refusal_reason "string option"

definition hasGatewayMarker :: "fields \<Rightarrow> bool" where
  "hasGatewayMarker host = has_own host ''gateway''"

text \<open>\<open>label\<close> is the display name of the host; \<open>Undef\<close> takes the entry's own name.\<close>

definition unsupportedTransport ::
    "(string \<Rightarrow> url option) \<Rightarrow> fields \<Rightarrow> transport_capabilities \<Rightarrow> js \<Rightarrow> transport_decision" where
  "unsupportedTransport parse_url entry caps label =
     (let name = (case label of
            Undef \<Rightarrow> (case get_prop entry ''name'' of Str s \<Rightarrow> if s = [] then None else Some s | _ \<Rightarrow> None)
          | Str s \<Rightarrow> Some s
          | _ \<Rightarrow> None);
          hasLink = has_own entry ''link'' in
      if hasGatewayMarker entry then
        (if \<not> cap_gateway caps then Refused GatewayUnsupported name
         else if hasLink then Refused LinkAndGateway name
         else if normalizeGatewayTarget parse_url (get_prop entry ''gateway'') = None
         then Refused GatewayInvalid name
         else Admitted)
      else if hasLink then
        (if \<not> cap_link caps then Refused LinkUnsupported name
         else if \<not> isLinkTransportTarget (get_prop entry ''link'') then Refused LinkInvalid name
         else Admitted)
      else Admitted)"

definition SSH_CONFIG_TRANSPORTS :: transport_capabilities where
  "SSH_CONFIG_TRANSPORTS = \<lparr>cap_gateway = False, cap_link = False\<rparr>"

subsection \<open>The config write-back\<close>

record forward_spec =
  f_local :: bool
  f_listenHost :: string
  f_listenPort :: jsnum
  f_destHost :: string
  f_destPort :: jsnum

record host_entry =
  he_name :: string
  he_hostname :: string
  he_port :: int
  he_user :: string
  he_identityFile :: "string option"
  he_proxyJump :: "string option"
  he_forwardAgent :: bool
  he_localForwards :: "forward_spec list"
  he_remoteForwards :: "forward_spec list"

fun coerce_forward :: "bool \<Rightarrow> js \<Rightarrow> forward_spec option" where
  "coerce_forward loc (Obj f) =
     (case (get_prop f ''listenPort'', get_prop f ''destPort'', get_prop f ''destHost'') of
        (Num lp, Num dp, Str dh) \<Rightarrow>
          if dh = [] then None
          else Some \<lparr>f_local = loc,
                 f_listenHost = (case get_prop f ''listenHost'' of Str s \<Rightarrow> s | _ \<Rightarrow> []),
                 f_listenPort = lp, f_destHost = dh, f_destPort = dp\<rparr>
      | _ \<Rightarrow> None)"
| "coerce_forward loc _ = None"

definition coerceForwards :: "js \<Rightarrow> bool \<Rightarrow> forward_spec list" where
  "coerceForwards raw loc = (case raw of Arr es \<Rightarrow> List.map_filter (coerce_forward loc) es | _ \<Rightarrow> [])"

fun nonempty_string :: "js \<Rightarrow> string option" where
  "nonempty_string (Str s) = (if s = [] then None else Some s)"
| "nonempty_string _ = None"

fun string_or_empty :: "js \<Rightarrow> string" where
  "string_or_empty (Str s) = s"
| "string_or_empty _ = []"

datatype coerced =
  CoercedOk "host_entry list" | CoercedInvalid | CoercedUnsupported nat "string option" refusal_reason

text \<open>The record an unmarked entry becomes, when it is a usable \<open>Host\<close> directive.\<close>

definition coerce_entry :: "fields \<Rightarrow> host_entry option" where
  "coerce_entry e =
     (let alias = js_trim (string_or_empty (get_prop e ''name''));
          hostname = js_trim (string_or_empty (get_prop e ''hostname'')) in
      if alias = [] \<or> hostname = [] \<or> list_ex js_space alias \<or> list_ex js_space hostname then None
      else Some \<lparr>he_name = alias, he_hostname = hostname,
             he_port = (case get_prop e ''port'' of Num n \<Rightarrow> if isValidTcpPort n then port_int n else 22 | _ \<Rightarrow> 22),
             he_user = string_or_empty (get_prop e ''user''),
             he_identityFile = nonempty_string (get_prop e ''identityFile''),
             he_proxyJump = nonempty_string (get_prop e ''proxyJump''),
             he_forwardAgent = (get_prop e ''forwardAgent'' = Bool True),
             he_localForwards = coerceForwards (get_prop e ''localForwards'') True,
             he_remoteForwards = coerceForwards (get_prop e ''remoteForwards'') False\<rparr>)"

text \<open>
  The loop over the entries. A value that is not an object is skipped; an array is an object
  without any of the properties, so it is skipped too.
\<close>

fun coerce_loop :: "(string \<Rightarrow> url option) \<Rightarrow> nat \<Rightarrow> host_entry list \<Rightarrow> js list \<Rightarrow> coerced" where
  "coerce_loop parse_url index out [] = CoercedOk out"
| "coerce_loop parse_url index out (entry # rest) =
     (case entry of
        Obj e \<Rightarrow>
          let name = nonempty_string (get_prop e ''name'') in
          (case unsupportedTransport parse_url e SSH_CONFIG_TRANSPORTS
                  (case name of None \<Rightarrow> Null | Some s \<Rightarrow> Str s) of
             Refused reason _ \<Rightarrow> CoercedUnsupported index name reason
           | Admitted \<Rightarrow>
               (case coerce_entry e of
                  None \<Rightarrow> coerce_loop parse_url (index + 1) out rest
                | Some h \<Rightarrow> coerce_loop parse_url (index + 1) (out @ [h]) rest))
      | _ \<Rightarrow> coerce_loop parse_url (index + 1) out rest)"

definition coerceHostEntries :: "(string \<Rightarrow> url option) \<Rightarrow> js \<Rightarrow> coerced" where
  "coerceHostEntries parse_url raw =
     (case raw of Arr es \<Rightarrow> coerce_loop parse_url 0 [] es | _ \<Rightarrow> CoercedInvalid)"

subsection \<open>No marked host is ever degraded\<close>

definition marked :: "js \<Rightarrow> bool" where
  "marked v = (case v of Obj e \<Rightarrow> has_own e ''gateway'' \<or> has_own e ''link'' | _ \<Rightarrow> False)"

lemma unsupported_config:
  "(\<exists>r n. unsupportedTransport parse_url e SSH_CONFIG_TRANSPORTS label = Refused r n) \<longleftrightarrow> marked (Obj e)"
  by (auto simp: unsupportedTransport_def SSH_CONFIG_TRANSPORTS_def marked_def hasGatewayMarker_def Let_def)

lemma admitted_config:
  "unsupportedTransport parse_url e SSH_CONFIG_TRANSPORTS label = Admitted \<longleftrightarrow> \<not> marked (Obj e)"
  by (auto simp: unsupportedTransport_def SSH_CONFIG_TRANSPORTS_def marked_def hasGatewayMarker_def Let_def)

lemma coerce_loop_OkD:
  "coerce_loop parse_url i out es = CoercedOk hs \<Longrightarrow>
   list_all (\<lambda>v. \<not> marked v) es
   \<and> hs = out @ List.map_filter (\<lambda>v. case v of Obj e \<Rightarrow> coerce_entry e | _ \<Rightarrow> None) es"
proof (induction parse_url i out es rule: coerce_loop.induct)
  case (2 parse_url index out entry rest)
  show ?case
  proof (cases entry)
    case (Obj e)
    with 2 show ?thesis
      by (cases "coerce_entry e")
        (auto simp: Let_def map_filter_simps admitted_config split: transport_decision.splits)
  qed (use 2 in \<open>auto simp: map_filter_simps marked_def\<close>)
qed (simp add: map_filter_simps)

lemma coerce_loop_marked:
  "list_ex marked es \<Longrightarrow> \<exists>i' n r. coerce_loop parse_url i out es = CoercedUnsupported i' n r"
proof (induction es arbitrary: i out)
  case (Cons entry rest)
  show ?case
  proof (cases entry)
    case (Obj e)
    let ?name = "nonempty_string (get_prop e ''name'')"
    show ?thesis
    proof (cases "unsupportedTransport parse_url e SSH_CONFIG_TRANSPORTS (case ?name of None \<Rightarrow> Null | Some s \<Rightarrow> Str s)")
      case Admitted
      then have "\<not> marked entry" by (simp add: admitted_config Obj)
      then have "list_ex marked rest" using Cons.prems by simp
      from Cons.IH [OF this] show ?thesis using Admitted
        by (cases "coerce_entry e") (auto simp: Obj Let_def)
    qed (simp add: Obj Let_def)
  qed (use Cons in \<open>auto simp: marked_def\<close>)
qed simp

text \<open>
  A marked host is never written back as an ordinary one. The config write-back accepts a
  list exactly when no entry carries a gateway or link marker, whatever the marker's value,
  and the hosts it writes have a port in range and names without white space.
\<close>

theorem write_back_refuses_marked_hosts:
  "((\<exists>hs. coerceHostEntries parse_url (Arr es) = CoercedOk hs) \<longleftrightarrow> list_all (\<lambda>v. \<not> marked v) es)
   \<and> pred_option (\<lambda>h. 1 \<le> he_port h \<and> he_port h \<le> 65535 \<and> he_name h \<noteq> [] \<and> he_hostname h \<noteq> []
        \<and> \<not> list_ex js_space (he_name h @ he_hostname h)) (coerce_entry e)"
proof
  show "(\<exists>hs. coerceHostEntries parse_url (Arr es) = CoercedOk hs) \<longleftrightarrow> list_all (\<lambda>v. \<not> marked v) es"
  proof
    assume "\<exists>hs. coerceHostEntries parse_url (Arr es) = CoercedOk hs"
    then show "list_all (\<lambda>v. \<not> marked v) es" using coerce_loop_OkD by (auto simp: coerceHostEntries_def)
  next
    assume u: "list_all (\<lambda>v. \<not> marked v) es"
    have "\<exists>hs. coerce_loop parse_url i out es = CoercedOk hs" for i out
      using u
    proof (induction es arbitrary: i out)
      case (Cons v es)
      show ?case
      proof (cases v)
        case (Obj e)
        with Cons have "unsupportedTransport parse_url e SSH_CONFIG_TRANSPORTS l = Admitted" for l
          by (simp add: admitted_config)
        with Cons Obj show ?thesis by (cases "coerce_entry e") (simp_all add: Let_def)
      qed (use Cons in simp_all)
    qed simp
    then show "\<exists>hs. coerceHostEntries parse_url (Arr es) = CoercedOk hs" by (simp add: coerceHostEntries_def)
  qed
  have p: "1 \<le> (if isValidTcpPort n then port_int n else 22) \<and> (if isValidTcpPort n then port_int n else 22) \<le> 65535" for n
    by (auto elim: valid_portE)
  show "pred_option (\<lambda>h. 1 \<le> he_port h \<and> he_port h \<le> 65535 \<and> he_name h \<noteq> [] \<and> he_hostname h \<noteq> []
        \<and> \<not> list_ex js_space (he_name h @ he_hostname h)) (coerce_entry e)"
    using p by (auto simp: coerce_entry_def Let_def split: js.splits)
qed

end
