(* ===== verification/Host_Cli_Common.thy ===== *)
theory Host_Cli_Common
  imports Js_Values Host_Commands
begin

text \<open>
  What every module of the host CLI contract shares (src/src/hostCliCommon.ts): the typed
  failures, the readers of JSON fields, and the running of one command over a transport.

  A throw is \<open>Inl\<close> of a value that says which error it is. The user-facing sentence of an
  error is determined by its constructor and arguments. \<open>JSON.parse\<close> is the argument
  \<open>json\<close>, \<open>None\<close> where it throws.
\<close>

subsection \<open>Failures\<close>

datatype row_label = Top | Named string | Row string nat

text \<open>The text of a plain \<open>Error\<close> of a reader: where, which field, what it must be.\<close>

datatype shape_problem = Problem row_label string string

datatype malformed =
    NotJson
  | NotAnObject
  | NotAnArray
  | MissingField string
  | NotInteger string
  | BadShape string int shape_problem
  | PrintedNothing string
  | FieldNotArray string
  | RowNotObject string nat
  | EmptyPath nat
  | ErrorNotString

datatype failure_text =
    CouldNotRun string
  | DidNotFinish int
  | ExitDetail "int option" string bool
  | HostReported string

datatype host_error =
    TooOld int int
  | Malformed malformed
  | CommandFailed string "int option" string bool failure_text
  | PlainError shape_problem

type_synonym 'a cli = "host_error + 'a"

definition and_then :: "'e + 'a \<Rightarrow> ('a \<Rightarrow> 'e + 'b) \<Rightarrow> 'e + 'b" where
  "and_then r f = (case r of Inl e \<Rightarrow> Inl e | Inr x \<Rightarrow> f x)"

lemma and_then_simps [simp]: "and_then (Inl e) f = Inl e" "and_then (Inr x) f = f x"
  by (simp_all add: and_then_def)

lemma and_then_InrD: "and_then r f = Inr y \<Longrightarrow> \<exists>x. r = Inr x \<and> f x = Inr y"
  by (cases r) auto

text \<open>\<open>rows.map((row, index) => ...)\<close> with a callback that may throw.\<close>

fun map_rows :: "(nat \<Rightarrow> 'a \<Rightarrow> 'e + 'b) \<Rightarrow> nat \<Rightarrow> 'a list \<Rightarrow> 'e + 'b list" where
  "map_rows f i [] = Inr []"
| "map_rows f i (x # xs) =
     and_then (f i x) (\<lambda>y. and_then (map_rows f (i + 1) xs) (\<lambda>ys. Inr (y # ys)))"

lemma map_rows_Inr:
  "map_rows f i xs = Inr ys \<Longrightarrow>
   length ys = length xs \<and> (\<forall>k < length xs. f (i + k) (xs ! k) = Inr (ys ! k))"
proof (induction xs arbitrary: i ys)
  case (Cons x xs)
  then obtain z zs where z: "f i x = Inr z" "map_rows f (i + 1) xs = Inr zs" "ys = z # zs"
    by (auto dest!: and_then_InrD)
  with Cons.IH [OF z(2)] show ?case
    by (auto simp: nth_Cons' less_Suc_eq_0_disj)
qed simp

lemma map_rows_InrD:
  "map_rows f i xs = Inr ys \<Longrightarrow> list_all2 (\<lambda>x y. \<exists>k. f k x = Inr y) xs ys"
  using map_rows_Inr [of f i xs ys] by (auto simp: list_all2_conv_all_nth)

subsection \<open>Reading fields\<close>

fun is_record :: "js \<Rightarrow> bool" where
  "is_record (Obj fs) = True"
| "is_record _ = False"

fun parse_object_root :: "js \<Rightarrow> fields cli" where
  "parse_object_root (Obj fs) = Inr fs"
| "parse_object_root _ = Inl (Malformed NotAnObject)"

definition parseJson :: "(string \<Rightarrow> js option) \<Rightarrow> string \<Rightarrow> js cli" where
  "parseJson json raw = (case json raw of None \<Rightarrow> Inl (Malformed NotJson) | Some v \<Rightarrow> Inr v)"

definition parseObject :: "(string \<Rightarrow> js option) \<Rightarrow> string \<Rightarrow> fields cli" where
  "parseObject json raw = and_then (parseJson json raw) parse_object_root"

definition requiredSchema :: "fields \<Rightarrow> string \<Rightarrow> int cli" where
  "requiredSchema root field =
     (case get_prop root field of
        Num (IntN i) \<Rightarrow>
          if - 2147483648 \<le> i \<and> i \<le> 2147483647 then Inr i else Inl (Malformed (NotInteger field))
      | Undef \<Rightarrow> Inl (Malformed (MissingField field))
      | _ \<Rightarrow> Inl (Malformed (NotInteger field)))"

definition optionalString :: "js \<Rightarrow> string \<Rightarrow> row_label \<Rightarrow> string option cli" where
  "optionalString v field row =
     (case v of Undef \<Rightarrow> Inr None | Null \<Rightarrow> Inr None | Str s \<Rightarrow> Inr (Some s)
      | _ \<Rightarrow> Inl (PlainError (Problem row field ''must be a string or null'')))"

definition optionalInteger :: "js \<Rightarrow> string \<Rightarrow> row_label \<Rightarrow> int option cli" where
  "optionalInteger v field row =
     (case v of Undef \<Rightarrow> Inr None | Null \<Rightarrow> Inr None
      | Num (IntN i) \<Rightarrow>
          if is_safe_integer (IntN i) then Inr (Some i)
          else Inl (PlainError (Problem row field ''must be an integer or null''))
      | _ \<Rightarrow> Inl (PlainError (Problem row field ''must be an integer or null'')))"

definition object_row :: "string \<Rightarrow> nat \<Rightarrow> js \<Rightarrow> fields cli" where
  "object_row field index row =
     (case row of Obj fs \<Rightarrow> Inr fs
      | _ \<Rightarrow> Inl (PlainError (Problem (Row field index) [] ''must be an object'')))"

definition objectArray :: "js \<Rightarrow> string \<Rightarrow> fields list cli" where
  "objectArray v field =
     (case v of Arr rows \<Rightarrow> map_rows (object_row field) 0 rows
      | _ \<Rightarrow> Inl (PlainError (Problem Top field ''must be an array'')))"

text \<open>\<open>parseShape\<close>: a plain error of the reader becomes a malformed-response failure.\<close>

definition parseShape :: "int \<Rightarrow> string \<Rightarrow> 'a cli \<Rightarrow> 'a cli" where
  "parseShape schema label r =
     (case r of Inl (PlainError d) \<Rightarrow> Inl (Malformed (BadShape label schema d)) | _ \<Rightarrow> r)"

definition typed :: "host_error \<Rightarrow> bool" where
  "typed e = (case e of PlainError d \<Rightarrow> False | _ \<Rightarrow> True)"

lemma typed_simps [simp]:
  "typed (Malformed m)" "typed (TooOld i j)" "typed (CommandFailed c x t b f)" "\<not> typed (PlainError d)"
  by (simp_all add: typed_def)

lemma and_then_InlD: "and_then r f = Inl e \<Longrightarrow> r = Inl e \<or> (\<exists>x. r = Inr x \<and> f x = Inl e)"
  by (cases r) auto

lemma parseShape_Inr [simp]: "parseShape schema label r = Inr x \<longleftrightarrow> r = Inr x"
  by (auto simp: parseShape_def split: sum.splits host_error.splits)

lemma parseShape_typed: "parseShape schema label r = Inl e \<Longrightarrow> typed e"
  by (auto simp: parseShape_def typed_def split: sum.splits host_error.splits)

lemma parseObject_typed: "parseObject json raw = Inl e \<Longrightarrow> typed e"
  by (auto simp: parseObject_def parseJson_def typed_def split: option.splits elim: parse_object_root.elims)

lemma requiredSchema_typed: "requiredSchema root field = Inl e \<Longrightarrow> typed e"
  by (auto simp: requiredSchema_def typed_def split: js.splits jsnum.splits if_splits)

lemma parseObject_Inr: "parseObject json raw = Inr root \<longleftrightarrow> json raw = Some (Obj root)"
  by (auto simp: parseObject_def parseJson_def split: option.splits elim: parse_object_root.elims)

lemma requiredSchema_Inr:
  "requiredSchema root field = Inr i \<longleftrightarrow>
   get_prop root field = Num (IntN i) \<and> - 2147483648 \<le> i \<and> i \<le> 2147483647"
  by (auto simp: requiredSchema_def split: js.splits jsnum.splits if_splits)

lemma optionalString_Inr:
  "optionalString v field row = Inr r \<Longrightarrow>
   (r = None \<longrightarrow> v = Undef \<or> v = Null) \<and> (\<forall>s. r = Some s \<longrightarrow> v = Str s)"
  by (auto simp: optionalString_def split: js.splits)

lemma object_row_Inr: "object_row field i v = Inr fs \<Longrightarrow> v = Obj fs"
  by (cases v) (auto simp: object_row_def)

lemma objectArray_Inr:
  "objectArray v field = Inr rows \<Longrightarrow> v = Arr (map Obj rows)"
proof -
  assume a: "objectArray v field = Inr rows"
  then obtain xs where v: "v = Arr xs" and m: "map_rows (object_row field) 0 xs = Inr rows"
    by (auto simp: objectArray_def split: js.splits)
  have "list_all2 (\<lambda>x y. x = Obj y) xs rows"
    using map_rows_InrD [OF m] by (rule list_all2_mono) (auto dest: object_row_Inr)
  then show ?thesis by (simp add: v list_all2_conv_all_nth list_eq_iff_nth_eq)
qed

subsection \<open>Running a command\<close>

record exec_result =
  exitCode :: "int option"
  stdout :: string
  stderr :: string
  timedOut :: bool

fun js_lines :: "string \<Rightarrow> string \<Rightarrow> string list" where
  "js_lines cur [] = [cur]"
| "js_lines cur (c # cs) = (if c = CHR 0x0A then cur # js_lines [] cs else js_lines (cur @ [c]) cs)"

text \<open>The carriage return of a \<open>\r\n\<close> is white space, which the trim removes.\<close>

definition firstLine :: "string \<Rightarrow> string" where
  "firstLine s = (case find (\<lambda>l. l \<noteq> []) (map js_trim (js_lines [] s)) of None \<Rightarrow> [] | Some l \<Rightarrow> l)"

definition jsonErrorDetail :: "(string \<Rightarrow> js option) \<Rightarrow> string \<Rightarrow> string option" where
  "jsonErrorDetail json out =
     (if js_trim out = [] then None
      else case json out of
             Some (Obj root) \<Rightarrow>
               (case get_prop root ''error'' of
                  Str e \<Rightarrow> if js_trim e = [] then None else Some e
                | _ \<Rightarrow> None)
           | _ \<Rightarrow> None)"

text \<open>The detail shown is at most 200 characters, with an ellipsis where it was cut.\<close>

definition nonZeroExit :: "string \<Rightarrow> exec_result \<Rightarrow> string option \<Rightarrow> host_error" where
  "nonZeroExit command outcome fallback =
     (let first = firstLine (stderr outcome);
          detail = (if first \<noteq> [] then first
                    else firstLine (case fallback of None \<Rightarrow> [] | Some d \<Rightarrow> d)) in
      CommandFailed command (exitCode outcome) (stderr outcome) False
        (ExitDetail (exitCode outcome) (take 200 detail) (200 < length detail)))"

text \<open>
  \<open>transport.exec\<close> is the argument: the reason of its rejection, or its outcome.
\<close>

definition capture :: "string \<Rightarrow> int \<Rightarrow> string + exec_result \<Rightarrow> exec_result cli" where
  "capture command timeoutMs answer =
     (case answer of
        Inl reason \<Rightarrow>
          Inl (CommandFailed command None [] False
                 (CouldNotRun (if reason = [] then ''unknown error'' else reason)))
      | Inr outcome \<Rightarrow>
          if timedOut outcome
          then Inl (CommandFailed command None (stderr outcome) True (DidNotFinish timeoutMs))
          else Inr outcome)"

definition captureJson :: "string \<Rightarrow> int \<Rightarrow> string + exec_result \<Rightarrow> string cli" where
  "captureJson command timeoutMs answer =
     and_then (capture command timeoutMs answer) (\<lambda>outcome.
       if exitCode outcome \<noteq> Some 0 then Inl (nonZeroExit command outcome None)
       else if js_trim (stdout outcome) = [] then Inl (Malformed (PrintedNothing command))
       else Inr (stdout outcome))"

lemma captureJson_Inr:
  "captureJson command t answer = Inr out \<longleftrightarrow>
   (\<exists>r. answer = Inr r \<and> \<not> timedOut r \<and> exitCode r = Some 0 \<and> js_trim out \<noteq> [] \<and> out = stdout r)"
  by (auto simp: captureJson_def capture_def split: sum.splits)

lemma capture_typed: "capture command t answer = Inl e \<Longrightarrow> typed e"
  by (auto simp: capture_def typed_def split: sum.splits if_splits)

lemma captureJson_typed: "captureJson command t answer = Inl e \<Longrightarrow> typed e"
  by (auto simp: captureJson_def capture_def typed_def nonZeroExit_def Let_def
      split: sum.splits if_splits)

text \<open>
  The contract of a versioned listing: what the client of a parser relies on.
\<close>

locale listing_parser =
  fixes parse :: "string \<Rightarrow> 'a cli"
    and genuine :: "string \<Rightarrow> 'a \<Rightarrow> bool"
  assumes parse_sound: "parse raw = Inr l \<Longrightarrow> genuine raw l"
    and parse_typed: "parse raw = Inl e \<Longrightarrow> typed e"
begin

definition listing :: "string \<Rightarrow> int \<Rightarrow> string + exec_result \<Rightarrow> 'a cli" where
  "listing command t answer = and_then (captureJson command t answer) parse"

text \<open>
  A listing comes from a command that ran to the end with exit status 0 and printed that
  listing; everything else is a typed failure.
\<close>

lemma listing_sound:
  "listing command t answer = Inr l \<Longrightarrow>
   \<exists>r. answer = Inr r \<and> \<not> timedOut r \<and> exitCode r = Some 0 \<and> genuine (stdout r) l"
  by (auto simp: listing_def captureJson_Inr parse_sound dest!: and_then_InrD)

lemma listing_typed: "listing command t answer = Inl e \<Longrightarrow> typed e"
  by (cases "captureJson command t answer") (auto simp: listing_def captureJson_typed parse_typed)

end

end
