(* ===== verification/Host_Cli_Sessions.thy ===== *)
theory Host_Cli_Sessions
  imports Host_Cli_Common
begin

text \<open>
  The versioned session contract of the host CLI (src/src/hostCliSessions.ts): the session row,
  the strict parsing of listings, warnings and creation answers, and the operations of
  \<open>HostCliSessions\<close>.
\<close>

subsection \<open>Rows\<close>

datatype agent_state = AgentIdle | AgentWaiting | AgentWorking
datatype state_source = Reported | Heuristic

record session_row =
  s_name :: string
  s_id :: "string option"
  s_workspace :: "string option"
  s_tag :: "string option"
  s_engine :: "string option"
  s_profile :: "string option"
  s_agent :: "string option"
  s_agentState :: "agent_state option"
  s_agentStateSource :: "state_source option"
  s_attached :: bool
  s_createdEpoch :: "int option"
  s_activityEpoch :: "int option"
  s_phase :: "string option"

record sessions_listing =
  l_sessions :: "session_row list"
  l_errors :: "string list"

record created_session =
  cs_name :: string
  cs_id :: "string option"
  cs_created :: bool

datatype warning_kind = OomWarning | CrashWarning

record warning_row =
  w_session :: "string option"
  w_workspace :: "string option"
  w_tag :: "string option"
  w_engine :: "string option"
  w_kind :: "warning_kind option"
  w_detail :: "string option"
  w_createdAtMs :: "int option"
  w_ackSelector :: "string option"

definition SESSION_SCHEMA :: int where "SESSION_SCHEMA = 3"

subsection \<open>The listing\<close>

text \<open>\<open>s || null\<close>\<close>

definition or_null :: "string \<Rightarrow> string option" where
  "or_null s = (if s = [] then None else Some s)"

text \<open>\<open>value?.trim() || null\<close>\<close>

definition trimmed :: "string option \<Rightarrow> string option" where
  "trimmed s = (case s of None \<Rightarrow> None | Some v \<Rightarrow> or_null (js_trim v))"

text \<open>\<open>toLowerCase\<close> on the characters modelled.\<close>

definition char_lower :: "char \<Rightarrow> char" where
  "char_lower c = (let n = of_char c :: nat in
     if (65 \<le> n \<and> n \<le> 90) \<or> (192 \<le> n \<and> n \<le> 222 \<and> n \<noteq> 215) then char_of (n + 32) else c)"

fun known_state :: "string option \<Rightarrow> agent_state option" where
  "known_state None = None"
| "known_state (Some s) =
     (if s = ''idle'' then Some AgentIdle
      else if s = ''waiting'' then Some AgentWaiting
      else if s = ''working'' then Some AgentWorking
      else None)"

fun known_source :: "string option \<Rightarrow> state_source option" where
  "known_source None = None"
| "known_source (Some s) =
     (if s = ''reported'' then Some Reported else if s = ''heuristic'' then Some Heuristic else None)"

definition optionalSessionId :: "js \<Rightarrow> row_label \<Rightarrow> string option cli" where
  "optionalSessionId v row =
     and_then (optionalString v ''id'' row) (\<lambda>sid.
       case sid of
         None \<Rightarrow> Inr None
       | Some s \<Rightarrow>
           if js_trim s = []
           then Inl (PlainError (Problem row ''id'' ''must be a non-empty, non-whitespace string or null''))
           else Inr (Some s))"

definition read_session_row :: "nat \<Rightarrow> fields \<Rightarrow> session_row cli" where
  "read_session_row index row =
     (let label = Row ''sessions'' index in
      case get_prop row ''name'' of
        Str nm \<Rightarrow>
          (case get_prop row ''attached'' of
             Bool att \<Rightarrow>
               and_then (optionalString (get_prop row ''agent'') ''agent'' label) (\<lambda>agent.
               and_then (optionalString (get_prop row ''agent_state'') ''agent_state'' label) (\<lambda>state.
               and_then (optionalString (get_prop row ''agent_state_source'') ''agent_state_source'' label) (\<lambda>source.
               and_then (optionalString (get_prop row ''phase'') ''phase'' label) (\<lambda>phase.
               and_then (optionalSessionId (get_prop row ''id'') label) (\<lambda>sid.
               and_then (optionalString (get_prop row ''workspace'') ''workspace'' label) (\<lambda>ws.
               and_then (optionalString (get_prop row ''tag'') ''tag'' label) (\<lambda>tag.
               and_then (optionalString (get_prop row ''engine'') ''engine'' label) (\<lambda>engine.
               and_then (optionalString (get_prop row ''profile'') ''profile'' label) (\<lambda>profile.
               and_then (optionalInteger (get_prop row ''created_epoch'') ''created_epoch'' label) (\<lambda>created.
               and_then (optionalInteger (get_prop row ''activity_epoch'') ''activity_epoch'' label) (\<lambda>activity.
                 Inr \<lparr>s_name = nm, s_id = sid, s_workspace = ws, s_tag = tag, s_engine = engine,
                      s_profile = profile, s_agent = trimmed agent, s_agentState = known_state state,
                      s_agentStateSource = known_source source, s_attached = att,
                      s_createdEpoch = created, s_activityEpoch = activity,
                      s_phase = map_option (map char_lower) (trimmed phase)\<rparr>)))))))))))
           | _ \<Rightarrow> Inl (PlainError (Problem label ''attached'' ''must be a boolean'')))
      | _ \<Rightarrow> Inl (PlainError (Problem label ''name'' ''must be a string'')))"

definition read_error_row :: "nat \<Rightarrow> fields \<Rightarrow> string cli" where
  "read_error_row index row =
     (case get_prop row ''message'' of Str m \<Rightarrow> Inr m
      | _ \<Rightarrow> Inl (PlainError (Problem (Row ''errors'' index) ''message'' ''must be a string'')))"

text \<open>An absent list is empty.\<close>

definition rows_of :: "js \<Rightarrow> string \<Rightarrow> (nat \<Rightarrow> fields \<Rightarrow> 'a cli) \<Rightarrow> 'a list cli" where
  "rows_of v field rd =
     (if v = Undef then Inr [] else and_then (objectArray v field) (map_rows rd 0))"

definition parseHostSessionsList :: "(string \<Rightarrow> js option) \<Rightarrow> string \<Rightarrow> sessions_listing cli" where
  "parseHostSessionsList json raw =
     and_then (parseObject json raw) (\<lambda>root.
     and_then (requiredSchema root ''schema'') (\<lambda>schema.
       if schema < SESSION_SCHEMA then Inl (TooOld schema SESSION_SCHEMA)
       else parseShape schema ''sessions''
         (and_then (rows_of (get_prop root ''sessions'') ''sessions'' read_session_row) (\<lambda>sessions.
          and_then (rows_of (get_prop root ''errors'') ''errors'' read_error_row) (\<lambda>errors.
            Inr \<lparr>l_sessions = sessions, l_errors = errors\<rparr>)))))"

subsection \<open>A listing is whole or refused\<close>

text \<open>What a row of the answer must agree with.\<close>

definition row_of :: "fields \<Rightarrow> session_row \<Rightarrow> bool" where
  "row_of row r \<longleftrightarrow>
     get_prop row ''name'' = Str (s_name r)
     \<and> get_prop row ''attached'' = Bool (s_attached r)
     \<and> (case s_id r of
          None \<Rightarrow> get_prop row ''id'' = Undef \<or> get_prop row ''id'' = Null
        | Some i \<Rightarrow> get_prop row ''id'' = Str i \<and> js_trim i \<noteq> [])
     \<and> (case s_workspace r of
          None \<Rightarrow> get_prop row ''workspace'' = Undef \<or> get_prop row ''workspace'' = Null
        | Some w \<Rightarrow> get_prop row ''workspace'' = Str w)"

lemma optionalSessionId_Inr:
  "optionalSessionId v row = Inr r \<Longrightarrow>
   (r = None \<longrightarrow> v = Undef \<or> v = Null) \<and> (\<forall>s. r = Some s \<longrightarrow> v = Str s \<and> js_trim s \<noteq> [])"
  by (auto simp: optionalSessionId_def dest!: and_then_InrD split: option.splits if_splits
      dest: optionalString_Inr)

lemma read_session_row_Inr: "read_session_row i row = Inr r \<Longrightarrow> row_of row r"
proof -
  assume a: "read_session_row i row = Inr r"
  then obtain nm att where n: "get_prop row ''name'' = Str nm" "get_prop row ''attached'' = Bool att"
    by (auto simp: read_session_row_def Let_def split: js.splits)
  from a obtain sid ws where
    "optionalSessionId (get_prop row ''id'') (Row ''sessions'' i) = Inr sid"
    "optionalString (get_prop row ''workspace'') ''workspace'' (Row ''sessions'' i) = Inr ws"
    "s_name r = nm" "s_attached r = att" "s_id r = sid" "s_workspace r = ws"
    by (auto simp: read_session_row_def Let_def n dest!: and_then_InrD)
  with optionalSessionId_Inr optionalString_Inr show ?thesis
    by (fastforce simp: row_of_def n split: option.splits)
qed

lemma rows_of_Inr:
  assumes "rows_of v field rd = Inr ys"
  shows "(v = Undef \<and> ys = [])
    \<or> (\<exists>rows. v = Arr (map Obj rows) \<and> list_all2 (\<lambda>x y. \<exists>k. rd k x = Inr y) rows ys)"
  using assms by (auto simp: rows_of_def split: if_splits dest!: and_then_InrD objectArray_Inr map_rows_InrD)

lemma read_error_row_Inr: "read_error_row i row = Inr m \<Longrightarrow> get_prop row ''message'' = Str m"
  by (cases "get_prop row ''message''") (auto simp: read_error_row_def)

text \<open>A genuine listing: the one a schema-3 object reports, row for row.\<close>

definition rows_match :: "js \<Rightarrow> (fields \<Rightarrow> 'a \<Rightarrow> bool) \<Rightarrow> 'a list \<Rightarrow> bool" where
  "rows_match v ok ys \<longleftrightarrow> (v = Undef \<and> ys = []) \<or> (\<exists>rows. v = Arr (map Obj rows) \<and> list_all2 ok rows ys)"

definition genuine_sessions :: "(string \<Rightarrow> js option) \<Rightarrow> string \<Rightarrow> sessions_listing \<Rightarrow> bool" where
  "genuine_sessions json raw l \<longleftrightarrow>
     (\<exists>root schema. json raw = Some (Obj root)
        \<and> get_prop root ''schema'' = Num (IntN schema) \<and> SESSION_SCHEMA \<le> schema
        \<and> rows_match (get_prop root ''sessions'') row_of (l_sessions l)
        \<and> rows_match (get_prop root ''errors'') (\<lambda>row m. get_prop row ''message'' = Str m) (l_errors l))"

lemma parse_sessions_sound:
  assumes "parseHostSessionsList json raw = Inr l"
  shows "genuine_sessions json raw l"
proof -
  from assms obtain root schema where r: "json raw = Some (Obj root)"
      "get_prop root ''schema'' = Num (IntN schema)" "SESSION_SCHEMA \<le> schema"
    and s: "rows_of (get_prop root ''sessions'') ''sessions'' read_session_row = Inr (l_sessions l)"
    and e: "rows_of (get_prop root ''errors'') ''errors'' read_error_row = Inr (l_errors l)"
    by (auto simp: parseHostSessionsList_def parseObject_Inr requiredSchema_Inr
        dest!: and_then_InrD split: if_splits)
  have "rows_match (get_prop root ''sessions'') row_of (l_sessions l)"
    using rows_of_Inr [OF s] by (auto simp: rows_match_def elim!: list_all2_mono intro: read_session_row_Inr)
  moreover have "rows_match (get_prop root ''errors'') (\<lambda>row m. get_prop row ''message'' = Str m) (l_errors l)"
    using rows_of_Inr [OF e]
    by (auto simp: rows_match_def elim!: list_all2_mono dest: read_error_row_Inr)
  ultimately show ?thesis using r unfolding genuine_sessions_def by blast
qed

lemma parse_sessions_typed: "parseHostSessionsList json raw = Inl e \<Longrightarrow> typed e"
  unfolding parseHostSessionsList_def
  by (cases "parseObject json raw"; simp add: parseObject_typed)
    (cases "requiredSchema (projr (parseObject json raw)) ''schema''";
      auto simp: requiredSchema_typed typed_def dest: requiredSchema_typed parseShape_typed split: if_splits)

interpretation sessions_list: listing_parser "parseHostSessionsList json" "genuine_sessions json" for json
  by unfold_locales (auto intro: parse_sessions_sound parse_sessions_typed)

subsection \<open>Warnings\<close>

fun known_kind :: "string option \<Rightarrow> warning_kind option" where
  "known_kind None = None"
| "known_kind (Some s) =
     (if s = ''oom'' then Some OomWarning else if s = ''crash'' then Some CrashWarning else None)"

text \<open>The selector of an ack: \<open>workspace:tag\<close> when both are usable, else the session.\<close>

definition ack_selector :: "string option \<Rightarrow> string option \<Rightarrow> string option \<Rightarrow> string option" where
  "ack_selector session workspace tag =
     (case (trimmed tag, trimmed workspace) of
        (Some _, Some _) \<Rightarrow> Some (the workspace @ '':'' @ the tag)
      | _ \<Rightarrow> trimmed session)"

definition read_warning :: "nat \<Rightarrow> fields \<Rightarrow> warning_row cli" where
  "read_warning index value =
     (let label = Row ''warnings'' index in
      and_then (optionalString (get_prop value ''session'') ''session'' label) (\<lambda>session.
      and_then (optionalString (get_prop value ''workspace'') ''workspace'' label) (\<lambda>workspace.
      and_then (optionalString (get_prop value ''tag'') ''tag'' label) (\<lambda>tag.
      and_then (optionalString (get_prop value ''engine'') ''engine'' label) (\<lambda>engine.
      and_then (optionalString (get_prop value ''kind'') ''kind'' label) (\<lambda>kind.
      and_then (optionalString (get_prop value ''detail'') ''detail'' label) (\<lambda>detail.
      and_then (optionalInteger (get_prop value ''created_at_ms'') ''created_at_ms'' label) (\<lambda>created.
        Inr \<lparr>w_session = session, w_workspace = workspace, w_tag = tag, w_engine = engine,
             w_kind = known_kind kind, w_detail = detail, w_createdAtMs = created,
             w_ackSelector = ack_selector session workspace tag\<rparr>))))))))"

definition warning_at :: "nat \<Rightarrow> js \<Rightarrow> warning_row cli" where
  "warning_at index value =
     (case value of Obj fs \<Rightarrow> parseShape 1 ''warning'' (read_warning index fs)
      | _ \<Rightarrow> Inl (Malformed (RowNotObject ''warning'' index)))"

definition parseHostWarnings :: "(string \<Rightarrow> js option) \<Rightarrow> string \<Rightarrow> warning_row list cli" where
  "parseHostWarnings json raw =
     and_then (parseJson json raw) (\<lambda>root.
       case root of Arr values \<Rightarrow> map_rows warning_at 0 values | _ \<Rightarrow> Inl (Malformed NotAnArray))"

definition warning_of :: "fields \<Rightarrow> warning_row \<Rightarrow> bool" where
  "warning_of row w \<longleftrightarrow>
     w_ackSelector w = ack_selector (w_session w) (w_workspace w) (w_tag w)
     \<and> pred_option (\<lambda>s. get_prop row ''session'' = Str s) (w_session w)
     \<and> pred_option (\<lambda>s. get_prop row ''workspace'' = Str s) (w_workspace w)
     \<and> pred_option (\<lambda>s. get_prop row ''tag'' = Str s) (w_tag w)"

definition genuine_warnings :: "(string \<Rightarrow> js option) \<Rightarrow> string \<Rightarrow> warning_row list \<Rightarrow> bool" where
  "genuine_warnings json raw ws \<longleftrightarrow>
     (\<exists>rows. json raw = Some (Arr (map Obj rows)) \<and> list_all2 warning_of rows ws)"

lemma read_warning_Inr:
  "read_warning i row = Inr w \<Longrightarrow> warning_of row w"
proof -
  assume "read_warning i row = Inr w"
  then obtain session workspace tag where o:
      "optionalString (get_prop row ''session'') ''session'' (Row ''warnings'' i) = Inr session"
      "optionalString (get_prop row ''workspace'') ''workspace'' (Row ''warnings'' i) = Inr workspace"
      "optionalString (get_prop row ''tag'') ''tag'' (Row ''warnings'' i) = Inr tag"
    and w: "w_session w = session" "w_workspace w = workspace" "w_tag w = tag"
      "w_ackSelector w = ack_selector session workspace tag"
    by (auto simp: read_warning_def Let_def dest!: and_then_InrD)
  from o [THEN optionalString_Inr] w show ?thesis
    by (cases session; cases workspace; cases tag) (simp_all add: warning_of_def)
qed

lemma warning_at_Inr: "warning_at i v = Inr w \<Longrightarrow> \<exists>fs. v = Obj fs \<and> warning_of fs w"
  by (cases v) (auto simp: warning_at_def dest: read_warning_Inr)

lemma map_rows_typed:
  "(\<And>k x e. f k x = Inl e \<Longrightarrow> typed e) \<Longrightarrow> map_rows f i xs = Inl e \<Longrightarrow> typed e"
proof (induction xs arbitrary: i)
  case (Cons x xs)
  then show ?case
    by (cases "f i x"; cases "map_rows f (i + 1) xs") auto
qed simp

lemma list_all2_Obj:
  "list_all2 (\<lambda>v w. \<exists>fs. v = Obj fs \<and> P fs w) vs ws \<Longrightarrow> \<exists>rows. vs = map Obj rows \<and> list_all2 P rows ws"
proof (induction vs ws rule: list_all2_induct)
  case (Cons v vs w ws)
  then obtain fs rows where "v = Obj fs" "P fs w" "vs = map Obj rows" "list_all2 P rows ws" by blast
  then show ?case by (intro exI [of _ "fs # rows"]) simp
qed simp

interpretation warnings_list: listing_parser "parseHostWarnings json" "genuine_warnings json" for json
proof unfold_locales
  fix raw ws
  assume "parseHostWarnings json raw = Inr ws"
  then obtain vs where j: "json raw = Some (Arr vs)" and m: "map_rows warning_at 0 vs = Inr ws"
    by (auto simp: parseHostWarnings_def parseJson_def dest!: and_then_InrD split: option.splits js.splits)
  have "list_all2 (\<lambda>v w. \<exists>fs. v = Obj fs \<and> warning_of fs w) vs ws"
    using map_rows_InrD [OF m] by (rule list_all2_mono) (erule exE, rule warning_at_Inr)
  then obtain rows where "vs = map Obj rows" "list_all2 warning_of rows ws"
    using list_all2_Obj by blast
  then show "genuine_warnings json raw ws" by (auto simp: genuine_warnings_def j)
next
  fix raw e
  assume "parseHostWarnings json raw = Inl e"
  moreover have row: "typed e" if "warning_at k x = Inl e" for k x e
    using that by (cases x) (auto simp: warning_at_def dest: parseShape_typed)
  moreover have "typed e" if "map_rows warning_at 0 vs = Inl e" for vs
    using row that by (rule map_rows_typed)
  ultimately show "typed e"
    by (auto simp: parseHostWarnings_def parseJson_def dest!: and_then_InlD split: option.splits js.splits)
qed

subsection \<open>Operations\<close>

definition listSessions :: "(string \<Rightarrow> js option) \<Rightarrow> string \<Rightarrow> string + exec_result \<Rightarrow> sessions_listing cli" where
  "listSessions json binary answer =
     and_then (captureJson (cliListCommand binary) 20000 answer) (parseHostSessionsList json)"

definition listWarnings :: "(string \<Rightarrow> js option) \<Rightarrow> string \<Rightarrow> string + exec_result \<Rightarrow> warning_row list cli" where
  "listWarnings json binary answer =
     and_then (captureJson (cliWarningsCommand binary) 20000 answer) (parseHostWarnings json)"

definition parse_created :: "int \<Rightarrow> fields \<Rightarrow> created_session cli" where
  "parse_created schema root =
     parseShape schema ''create''
       (case get_prop root ''name'' of
          Str nm \<Rightarrow>
            (case get_prop root ''created'' of
               Bool c \<Rightarrow>
                 and_then (optionalSessionId (get_prop root ''id'') (Named ''create'')) (\<lambda>sid.
                   Inr \<lparr>cs_name = nm, cs_id = sid, cs_created = c\<rparr>)
             | _ \<Rightarrow> Inl (PlainError (Problem Top ''created'' ''must be a boolean'')))
        | _ \<Rightarrow> Inl (PlainError (Problem Top ''name'' ''must be a string'')))"

definition parseCreate :: "(string \<Rightarrow> js option) \<Rightarrow> string \<Rightarrow> exec_result \<Rightarrow> created_session cli" where
  "parseCreate json command outcome =
     (if js_trim (stdout outcome) = [] then
        (if exitCode outcome \<noteq> Some 0 then Inl (nonZeroExit command outcome None)
         else Inl (Malformed (PrintedNothing command)))
      else
        case parseObject json (stdout outcome) of
          Inl err \<Rightarrow> if exitCode outcome \<noteq> Some 0 then Inl (nonZeroExit command outcome None) else Inl err
        | Inr root \<Rightarrow>
            and_then (requiredSchema root ''schema'') (\<lambda>schema.
              if schema < SESSION_SCHEMA then Inl (TooOld schema SESSION_SCHEMA)
              else
                case get_prop root ''error'' of
                  Str m \<Rightarrow> Inl (CommandFailed command (exitCode outcome) (stderr outcome) False (HostReported m))
                | v \<Rightarrow>
                    if v \<noteq> Undef \<and> v \<noteq> Null then Inl (Malformed ErrorNotString)
                    else if exitCode outcome \<noteq> Some 0 then Inl (nonZeroExit command outcome None)
                    else parse_created schema root))"

definition createSession ::
    "(string \<Rightarrow> js option) \<Rightarrow> string \<Rightarrow> string \<Rightarrow> create_options \<Rightarrow> string + exec_result \<Rightarrow> created_session cli" where
  "createSession json binary nm options answer =
     (let command = cliCreateCommand binary nm options in
      and_then (capture command 60000 answer) (parseCreate json command))"

definition killSession :: "string \<Rightarrow> string \<Rightarrow> string + exec_result \<Rightarrow> unit cli" where
  "killSession binary nm answer =
     (let command = cliKillCommand binary nm in
      and_then (capture command 20000 answer) (\<lambda>outcome.
        if exitCode outcome \<noteq> Some 0 then Inl (nonZeroExit command outcome None) else Inr ()))"

definition ackWarnings ::
    "(string \<Rightarrow> js option) \<Rightarrow> string \<Rightarrow> string option \<Rightarrow> string + exec_result \<Rightarrow> unit cli" where
  "ackWarnings json binary selector answer =
     (let command = cliAckCommand binary selector in
      and_then (capture command 20000 answer) (\<lambda>outcome.
        if exitCode outcome \<noteq> Some 0
        then Inl (nonZeroExit command outcome (jsonErrorDetail json (stdout outcome)))
        else Inr ()))"

subsection \<open>Properties\<close>

text \<open>An outcome that carries an exit status.\<close>

definition clean_exit :: "string + exec_result \<Rightarrow> exec_result \<Rightarrow> bool" where
  "clean_exit answer r \<longleftrightarrow> answer = Inr r \<and> \<not> timedOut r \<and> exitCode r = Some 0"

text \<open>
  C40: a session listing is whole or refused. A listing comes only from a command that ran to
  its end with status 0 and printed an object of schema 3 or newer, and carries exactly one row
  per reported session, in order, with its name, identity, workspace and attached flag, and
  every host error; anything else is a typed failure, an older schema among them.
\<close>

theorem session_listing_whole_or_refused:
  "(\<forall>l. listSessions json binary answer = Inr l \<longrightarrow>
       (\<exists>r. clean_exit answer r \<and> genuine_sessions json (stdout r) l))
   \<and> (\<forall>e. listSessions json binary answer = Inl e \<longrightarrow> typed e)
   \<and> (json raw = Some (Obj root) \<and> get_prop root ''schema'' = Num (IntN v)
        \<and> - 2147483648 \<le> v \<and> v < SESSION_SCHEMA \<longrightarrow>
      parseHostSessionsList json raw = Inl (TooOld v SESSION_SCHEMA))"
  using sessions_list.listing_sound [of json "cliListCommand binary" 20000 answer]
    sessions_list.listing_typed [of json "cliListCommand binary" 20000 answer]
  by (auto simp: listSessions_def sessions_list.listing_def clean_exit_def parseHostSessionsList_def
      parseObject_def parseJson_def requiredSchema_def SESSION_SCHEMA_def)

definition demo_listing :: js where
  "demo_listing = Obj [(''schema'', Num (IntN 3)),
     (''sessions'', Arr [Obj [(''name'', Str ''a''), (''attached'', Bool True), (''id'', Str ''u1'')]])]"

theorem session_listing_whole_or_refused_witness:
  "listSessions (\<lambda>_. Some demo_listing) ''pocketshell''
      (Inr \<lparr>exitCode = Some 0, stdout = ''{}'', stderr = [], timedOut = False\<rparr>)
     = Inr \<lparr>l_sessions = [\<lparr>s_name = ''a'', s_id = Some ''u1'', s_workspace = None, s_tag = None,
         s_engine = None, s_profile = None, s_agent = None, s_agentState = None,
         s_agentStateSource = None, s_attached = True, s_createdEpoch = None,
         s_activityEpoch = None, s_phase = None\<rparr>], l_errors = []\<rparr>
   \<and> (\<exists>l. genuine_sessions (\<lambda>_. Some demo_listing) ''{}'' l \<and> length (l_sessions l) = 1)
   \<and> parseHostSessionsList (\<lambda>_. Some (Obj [(''schema'', Num (IntN 2))])) [] = Inl (TooOld 2 SESSION_SCHEMA)"
proof -
  let ?r = "\<lparr>exitCode = Some 0, stdout = ''{}'', stderr = [], timedOut = False\<rparr>"
  have run: "listSessions (\<lambda>_. Some demo_listing) ''pocketshell'' (Inr ?r)
     = Inr \<lparr>l_sessions = [\<lparr>s_name = ''a'', s_id = Some ''u1'', s_workspace = None, s_tag = None,
         s_engine = None, s_profile = None, s_agent = None, s_agentState = None,
         s_agentStateSource = None, s_attached = True, s_createdEpoch = None,
         s_activityEpoch = None, s_phase = None\<rparr>], l_errors = []\<rparr>"
    by code_simp
  from session_listing_whole_or_refused [THEN conjunct1, rule_format, OF run]
  have g: "\<exists>l. genuine_sessions (\<lambda>_. Some demo_listing) ''{}'' l \<and> length (l_sessions l) = 1"
    by (auto simp: clean_exit_def intro!: exI)
  have "parseHostSessionsList (\<lambda>_. Some (Obj [(''schema'', Num (IntN 2))])) [] = Inl (TooOld 2 SESSION_SCHEMA)"
    using session_listing_whole_or_refused [of "\<lambda>_. Some (Obj [(''schema'', Num (IntN 2))])" "[]" "Inl []" "[]"
        "[(''schema'', Num (IntN 2))]" 2]
    by (simp add: get_prop_def SESSION_SCHEMA_def)
  with run g show ?thesis by blast
qed

text \<open>
  A session counts as created only when the host said so. Success needs an exit status of
  0, an object of schema 3 or newer without an error, and returns its name; an error text the
  host reports fails the creation with that text even when the exit status is 0; an ended
  command with another status, or none, never counts as success.
\<close>

theorem create_success_needs_clean_answer:
  "(\<forall>c. createSession json binary nm options answer = Inr c \<longrightarrow>
      (\<exists>r root. clean_exit answer r \<and> json (stdout r) = Some (Obj root)
         \<and> (\<exists>v\<ge>SESSION_SCHEMA. get_prop root ''schema'' = Num (IntN v))
         \<and> (get_prop root ''error'' = Undef \<or> get_prop root ''error'' = Null)
         \<and> get_prop root ''name'' = Str (cs_name c) \<and> get_prop root ''created'' = Bool (cs_created c)))
   \<and> (\<forall>r root v m. answer = Inr r \<and> \<not> timedOut r \<and> js_trim (stdout r) \<noteq> []
        \<and> json (stdout r) = Some (Obj root) \<and> get_prop root ''schema'' = Num (IntN v)
        \<and> SESSION_SCHEMA \<le> v \<and> v \<le> 2147483647 \<and> get_prop root ''error'' = Str m \<longrightarrow>
      createSession json binary nm options answer =
        Inl (CommandFailed (cliCreateCommand binary nm options) (exitCode r) (stderr r) False (HostReported m)))"
proof (intro conjI allI impI)
  fix c assume "createSession json binary nm options answer = Inr c"
  then obtain r where a: "answer = Inr r" "\<not> timedOut r"
    and p: "parseCreate json (cliCreateCommand binary nm options) r = Inr c"
    by (auto simp: createSession_def Let_def capture_def dest!: and_then_InrD split: sum.splits if_splits)
  from p obtain root v where q: "json (stdout r) = Some (Obj root)" "get_prop root ''schema'' = Num (IntN v)"
      "SESSION_SCHEMA \<le> v" "get_prop root ''error'' = Undef \<or> get_prop root ''error'' = Null"
      "exitCode r = Some 0" "parse_created v root = Inr c"
    by (auto simp: parseCreate_def parseObject_Inr requiredSchema_Inr
        dest!: and_then_InrD split: if_splits sum.splits js.splits)
  from q(6) have "get_prop root ''name'' = Str (cs_name c)" "get_prop root ''created'' = Bool (cs_created c)"
    by (auto simp: parse_created_def dest!: and_then_InrD split: js.splits)
  with a q show "\<exists>r root. clean_exit answer r \<and> json (stdout r) = Some (Obj root)
         \<and> (\<exists>v\<ge>SESSION_SCHEMA. get_prop root ''schema'' = Num (IntN v))
         \<and> (get_prop root ''error'' = Undef \<or> get_prop root ''error'' = Null)
         \<and> get_prop root ''name'' = Str (cs_name c) \<and> get_prop root ''created'' = Bool (cs_created c)"
    unfolding clean_exit_def by blast
next
  fix r root v m
  assume "answer = Inr r \<and> \<not> timedOut r \<and> js_trim (stdout r) \<noteq> []
        \<and> json (stdout r) = Some (Obj root) \<and> get_prop root ''schema'' = Num (IntN v)
        \<and> SESSION_SCHEMA \<le> v \<and> v \<le> 2147483647 \<and> get_prop root ''error'' = Str m"
  then show "createSession json binary nm options answer =
        Inl (CommandFailed (cliCreateCommand binary nm options) (exitCode r) (stderr r) False (HostReported m))"
    by (simp add: createSession_def Let_def capture_def parseCreate_def parseObject_def parseJson_def
        requiredSchema_def SESSION_SCHEMA_def)
qed

theorem create_success_needs_clean_answer_witness:
  "let json = (\<lambda>_. Some (Obj [(''schema'', Num (IntN 3)), (''error'', Str ''full'')]));
       r = \<lparr>exitCode = Some 0, stdout = ''{}'', stderr = [], timedOut = False\<rparr>;
       opts = \<lparr>co_cwd = None, co_engine = None, co_profile = None\<rparr> in
   createSession json ''pocketshell'' ''a'' opts (Inr r) =
     Inl (CommandFailed (cliCreateCommand ''pocketshell'' ''a'' opts) (Some 0) [] False (HostReported ''full''))"
proof -
  have t: "js_trim ''{}'' \<noteq> []" by code_simp
  show ?thesis
    using create_success_needs_clean_answer [of "\<lambda>_. Some (Obj [(''schema'', Num (IntN 3)), (''error'', Str ''full'')])"
        "''pocketshell''" "''a''" "\<lparr>co_cwd = None, co_engine = None, co_profile = None\<rparr>"
        "Inr \<lparr>exitCode = Some 0, stdout = ''{}'', stderr = [], timedOut = False\<rparr>", THEN conjunct2]
      t by (simp add: get_prop_def SESSION_SCHEMA_def)
qed

end
