(* ===== verification/Host_Cli_Catalog.thy ===== *)
theory Host_Cli_Catalog
  imports Host_Cli_Sessions
begin

text \<open>
  The workspace, engine and profile contracts of the host CLI: src/src/hostCliWorkspaces.ts and
  src/src/hostCliCatalog.ts.
\<close>

subsection \<open>Workspaces\<close>

record workspace_row =
  ws_path :: string
  ws_displayPath :: string

definition read_workspace :: "nat \<Rightarrow> fields \<Rightarrow> workspace_row cli" where
  "read_workspace index row =
     (case get_prop row ''path'' of
        Str p \<Rightarrow>
          if js_trim p = [] then Inl (Malformed (EmptyPath index))
          else
            (case get_prop row ''display_path'' of
               Undef \<Rightarrow> Inr \<lparr>ws_path = js_trim p, ws_displayPath = js_trim p\<rparr>
             | Str d \<Rightarrow>
                 Inr \<lparr>ws_path = js_trim p,
                      ws_displayPath = (if js_trim d = [] then js_trim p else js_trim d)\<rparr>
             | _ \<Rightarrow> Inl (PlainError (Problem (Row ''workspaces'' index) ''display_path'' ''must be a string'')))
      | _ \<Rightarrow> Inl (PlainError (Problem (Row ''workspaces'' index) ''path'' ''must be a string'')))"

definition parseHostWorkspaces :: "(string \<Rightarrow> js option) \<Rightarrow> string \<Rightarrow> workspace_row list cli" where
  "parseHostWorkspaces json raw =
     and_then (parseObject json raw) (\<lambda>root.
     and_then (requiredSchema root ''schema'') (\<lambda>schema.
       if schema < 1 then Inl (TooOld schema 1)
       else if get_prop root ''workspaces'' = Undef then Inl (Malformed (MissingField ''workspaces''))
       else parseShape schema ''workspaces''
              (and_then (objectArray (get_prop root ''workspaces'') ''workspaces'')
                 (map_rows read_workspace 0))))"

definition listWorkspacesCommand :: "string \<Rightarrow> string \<Rightarrow> string" where
  "listWorkspacesCommand binary host =
     binary @ '' workspaces list --host '' @ shellQuote host @ '' --json''"

datatype workspace_mutation = AddWorkspace | RemoveWorkspace

fun mutation_word :: "workspace_mutation \<Rightarrow> string" where
  "mutation_word AddWorkspace = ''add''"
| "mutation_word RemoveWorkspace = ''remove''"

definition mutateWorkspaceCommand :: "string \<Rightarrow> workspace_mutation \<Rightarrow> string \<Rightarrow> string \<Rightarrow> string" where
  "mutateWorkspaceCommand binary op host path =
     binary @ '' workspaces '' @ mutation_word op @ '' '' @ shellQuote path
       @ '' --host '' @ shellQuote host @ '' --json''"

definition listWorkspaces ::
    "(string \<Rightarrow> js option) \<Rightarrow> string \<Rightarrow> string \<Rightarrow> string + exec_result \<Rightarrow> workspace_row list cli" where
  "listWorkspaces json binary host answer =
     and_then (captureJson (listWorkspacesCommand binary host) 20000 answer) (parseHostWorkspaces json)"

definition mutateWorkspace ::
    "(string \<Rightarrow> js option) \<Rightarrow> string \<Rightarrow> workspace_mutation \<Rightarrow> string \<Rightarrow> string \<Rightarrow>
     string + exec_result \<Rightarrow> workspace_row list cli" where
  "mutateWorkspace json binary op host path answer =
     and_then (captureJson (mutateWorkspaceCommand binary op host path) 20000 answer) (parseHostWorkspaces json)"

definition workspace_of :: "fields \<Rightarrow> workspace_row \<Rightarrow> bool" where
  "workspace_of row w \<longleftrightarrow>
     (\<exists>p. get_prop row ''path'' = Str p \<and> ws_path w = js_trim p) \<and> ws_path w \<noteq> [] \<and> ws_displayPath w \<noteq> []"

definition genuine_workspaces :: "(string \<Rightarrow> js option) \<Rightarrow> string \<Rightarrow> workspace_row list \<Rightarrow> bool" where
  "genuine_workspaces json raw ws \<longleftrightarrow>
     (\<exists>root rows schema. json raw = Some (Obj root) \<and> get_prop root ''schema'' = Num (IntN schema)
        \<and> 1 \<le> schema \<and> get_prop root ''workspaces'' = Arr (map Obj rows) \<and> list_all2 workspace_of rows ws)"

lemma read_workspace_Inr: "read_workspace i row = Inr w \<Longrightarrow> workspace_of row w"
  by (cases "get_prop row ''path''"; cases "get_prop row ''display_path''")
    (auto simp: read_workspace_def workspace_of_def split: if_splits)

lemma rows_read:
  assumes "and_then (objectArray v field) (map_rows rd 0) = Inr ys"
    and "\<And>i row y. rd i row = Inr y \<Longrightarrow> ok row y"
  shows "\<exists>rows. v = Arr (map Obj rows) \<and> list_all2 ok rows ys"
proof -
  from assms(1) obtain rows where "objectArray v field = Inr rows" and m: "map_rows rd 0 rows = Inr ys"
    by (auto dest!: and_then_InrD)
  then have "v = Arr (map Obj rows)" by (simp add: objectArray_Inr)
  moreover have "list_all2 ok rows ys"
    using map_rows_InrD [OF m] by (rule list_all2_mono) (blast intro: assms(2))
  ultimately show ?thesis by blast
qed

interpretation workspaces_list: listing_parser "parseHostWorkspaces json" "genuine_workspaces json" for json
proof unfold_locales
  fix raw ws
  assume "parseHostWorkspaces json raw = Inr ws"
  then obtain root schema where r: "json raw = Some (Obj root)"
      "get_prop root ''schema'' = Num (IntN schema)" "1 \<le> schema"
    and m: "and_then (objectArray (get_prop root ''workspaces'') ''workspaces'') (map_rows read_workspace 0) = Inr ws"
    by (auto simp: parseHostWorkspaces_def parseObject_Inr requiredSchema_Inr
        dest!: and_then_InrD split: if_splits)
  have "\<exists>rows. get_prop root ''workspaces'' = Arr (map Obj rows) \<and> list_all2 workspace_of rows ws"
    by (rule rows_read [OF m]) (rule read_workspace_Inr)
  with r show "genuine_workspaces json raw ws"
    unfolding genuine_workspaces_def by blast
next
  fix raw e
  assume "parseHostWorkspaces json raw = Inl e"
  then show "typed e"
    by (auto simp: parseHostWorkspaces_def dest!: and_then_InlD
        dest: parseObject_typed requiredSchema_typed parseShape_typed split: if_splits)
qed

subsection \<open>Engines and profiles\<close>

record engine_info =
  en_id :: string
  en_label :: string
  en_family :: string
  en_harness :: string
  en_providerMark :: string
  en_usageProvider :: "string option"
  en_enabled :: bool
  en_available :: bool
  en_availableForCreate :: bool
  en_unavailableReason :: "string option"

record profile_info =
  pr_name :: string
  pr_engine :: string
  pr_configDir :: "string option"
  pr_isDefault :: bool

definition requiredString :: "fields \<Rightarrow> string \<Rightarrow> row_label \<Rightarrow> string cli" where
  "requiredString row field label =
     (case get_prop row field of Str s \<Rightarrow> Inr s
      | _ \<Rightarrow> Inl (PlainError (Problem label field ''must be a string'')))"

definition defaultString :: "fields \<Rightarrow> string \<Rightarrow> row_label \<Rightarrow> string cli" where
  "defaultString row field label =
     (if get_prop row field = Undef then Inr [] else requiredString row field label)"

definition nullableString :: "fields \<Rightarrow> string \<Rightarrow> row_label \<Rightarrow> string option cli" where
  "nullableString row field label =
     (case get_prop row field of Undef \<Rightarrow> Inr None | Null \<Rightarrow> Inr None | Str s \<Rightarrow> Inr (Some s)
      | _ \<Rightarrow> Inl (PlainError (Problem label field ''must be a string or null'')))"

definition requiredBoolean :: "fields \<Rightarrow> string \<Rightarrow> row_label \<Rightarrow> bool cli" where
  "requiredBoolean row field label =
     (case get_prop row field of Bool b \<Rightarrow> Inr b
      | _ \<Rightarrow> Inl (PlainError (Problem label field ''must be a boolean'')))"

definition defaultBoolean :: "fields \<Rightarrow> string \<Rightarrow> row_label \<Rightarrow> bool \<Rightarrow> bool cli" where
  "defaultBoolean row field label fallback =
     (if get_prop row field = Undef then Inr fallback else requiredBoolean row field label)"

definition parseRows :: "fields \<Rightarrow> string \<Rightarrow> (nat \<Rightarrow> fields \<Rightarrow> 'a cli) \<Rightarrow> 'a list cli" where
  "parseRows root field readRow =
     (case get_prop root field of
        Arr values \<Rightarrow>
          map_rows (\<lambda>index v. case v of Obj row \<Rightarrow> readRow index row
            | _ \<Rightarrow> Inl (Malformed (RowNotObject field index))) 0 values
      | _ \<Rightarrow> Inl (Malformed (FieldNotArray field)))"

definition read_engine :: "nat \<Rightarrow> fields \<Rightarrow> engine_info cli" where
  "read_engine index row =
     (let label = Row ''engines'' index in
      and_then (requiredString row ''id'' label) (\<lambda>eid.
      and_then (requiredString row ''label'' label) (\<lambda>lbl.
      and_then (defaultString row ''family'' label) (\<lambda>family.
      and_then (defaultString row ''harness'' label) (\<lambda>harness.
      and_then (defaultString row ''provider_mark'' label) (\<lambda>mark.
      and_then (nullableString row ''usage_provider'' label) (\<lambda>usage.
      and_then (defaultBoolean row ''enabled'' label True) (\<lambda>enabled.
      and_then (defaultBoolean row ''available'' label True) (\<lambda>available.
      and_then (requiredBoolean row ''available_for_create'' label) (\<lambda>createable.
      and_then (nullableString row ''unavailable_reason'' label) (\<lambda>reason.
        Inr \<lparr>en_id = eid, en_label = lbl, en_family = family, en_harness = harness,
             en_providerMark = mark, en_usageProvider = usage, en_enabled = enabled,
             en_available = available, en_availableForCreate = createable,
             en_unavailableReason = reason\<rparr>)))))))))))"

definition parseHostEnginesList :: "(string \<Rightarrow> js option) \<Rightarrow> string \<Rightarrow> engine_info list cli" where
  "parseHostEnginesList json raw =
     and_then (parseObject json raw) (\<lambda>root.
       if get_prop root ''engines'' = Undef then Inl (Malformed (MissingField ''engines''))
       else parseShape 1 ''engines'' (parseRows root ''engines'' read_engine))"

definition read_profile :: "nat \<Rightarrow> fields \<Rightarrow> profile_info cli" where
  "read_profile index row =
     (let label = Row ''profiles'' index in
      and_then (requiredString row ''name'' label) (\<lambda>nm.
      and_then (requiredString row ''engine'' label) (\<lambda>engine.
      and_then (nullableString row ''config_dir'' label) (\<lambda>dir.
      and_then (defaultBoolean row ''default'' label False) (\<lambda>dflt.
        Inr \<lparr>pr_name = nm, pr_engine = engine, pr_configDir = dir, pr_isDefault = dflt\<rparr>)))))"

definition parseHostProfilesList :: "(string \<Rightarrow> js option) \<Rightarrow> string \<Rightarrow> profile_info list cli" where
  "parseHostProfilesList json raw =
     and_then (parseObject json raw) (\<lambda>root.
       if get_prop root ''profiles'' = Undef then Inl (Malformed (MissingField ''profiles''))
       else parseShape 1 ''profiles'' (parseRows root ''profiles'' read_profile))"

text \<open>Createability comes from the host: it is never defaulted.\<close>

definition engine_of :: "fields \<Rightarrow> engine_info \<Rightarrow> bool" where
  "engine_of row e \<longleftrightarrow>
     get_prop row ''id'' = Str (en_id e) \<and> get_prop row ''label'' = Str (en_label e)
     \<and> get_prop row ''available_for_create'' = Bool (en_availableForCreate e)
     \<and> (get_prop row ''enabled'' = Bool (en_enabled e) \<or> get_prop row ''enabled'' = Undef \<and> en_enabled e)"

definition genuine_engines :: "(string \<Rightarrow> js option) \<Rightarrow> string \<Rightarrow> engine_info list \<Rightarrow> bool" where
  "genuine_engines json raw es \<longleftrightarrow>
     (\<exists>root rows. json raw = Some (Obj root) \<and> get_prop root ''engines'' = Arr (map Obj rows)
        \<and> list_all2 engine_of rows es)"

definition profile_of :: "fields \<Rightarrow> profile_info \<Rightarrow> bool" where
  "profile_of row p \<longleftrightarrow>
     get_prop row ''name'' = Str (pr_name p) \<and> get_prop row ''engine'' = Str (pr_engine p)
     \<and> (get_prop row ''default'' = Bool (pr_isDefault p) \<or> get_prop row ''default'' = Undef \<and> \<not> pr_isDefault p)"

definition genuine_profiles :: "(string \<Rightarrow> js option) \<Rightarrow> string \<Rightarrow> profile_info list \<Rightarrow> bool" where
  "genuine_profiles json raw ps \<longleftrightarrow>
     (\<exists>root rows. json raw = Some (Obj root) \<and> get_prop root ''profiles'' = Arr (map Obj rows)
        \<and> list_all2 profile_of rows ps)"

lemma requiredString_Inr: "requiredString row field label = Inr s \<Longrightarrow> get_prop row field = Str s"
  by (cases "get_prop row field") (auto simp: requiredString_def)

lemma requiredBoolean_Inr: "requiredBoolean row field label = Inr b \<Longrightarrow> get_prop row field = Bool b"
  by (cases "get_prop row field") (auto simp: requiredBoolean_def)

lemma defaultBoolean_Inr:
  "defaultBoolean row field label d = Inr b \<Longrightarrow>
   get_prop row field = Bool b \<or> get_prop row field = Undef \<and> b = d"
  by (auto simp: defaultBoolean_def split: if_splits dest: requiredBoolean_Inr)

lemma read_engine_Inr: "read_engine i row = Inr e \<Longrightarrow> engine_of row e"
proof -
  assume "read_engine i row = Inr e"
  then have "requiredString row ''id'' (Row ''engines'' i) = Inr (en_id e)"
    "requiredString row ''label'' (Row ''engines'' i) = Inr (en_label e)"
    "requiredBoolean row ''available_for_create'' (Row ''engines'' i) = Inr (en_availableForCreate e)"
    "defaultBoolean row ''enabled'' (Row ''engines'' i) True = Inr (en_enabled e)"
    by (auto simp: read_engine_def Let_def dest!: and_then_InrD)
  then show ?thesis
    using requiredString_Inr requiredBoolean_Inr defaultBoolean_Inr unfolding engine_of_def by blast
qed

lemma read_profile_Inr: "read_profile i row = Inr p \<Longrightarrow> profile_of row p"
proof -
  assume "read_profile i row = Inr p"
  then have "requiredString row ''name'' (Row ''profiles'' i) = Inr (pr_name p)"
    "requiredString row ''engine'' (Row ''profiles'' i) = Inr (pr_engine p)"
    "defaultBoolean row ''default'' (Row ''profiles'' i) False = Inr (pr_isDefault p)"
    by (auto simp: read_profile_def Let_def dest!: and_then_InrD)
  then show ?thesis
    using requiredString_Inr defaultBoolean_Inr unfolding profile_of_def by blast
qed

lemma parseRows_Inr:
  assumes "parseRows root field rd = Inr ys" and "\<And>i row y. rd i row = Inr y \<Longrightarrow> ok row y"
  shows "\<exists>rows. get_prop root field = Arr (map Obj rows) \<and> list_all2 ok rows ys"
proof -
  let ?f = "\<lambda>index v. case v of Obj row \<Rightarrow> rd index row | _ \<Rightarrow> Inl (Malformed (RowNotObject field index))"
  from assms(1) obtain vs where v: "get_prop root field = Arr vs" and m: "map_rows ?f 0 vs = Inr ys"
    by (cases "get_prop root field") (auto simp: parseRows_def)
  have one: "\<exists>fs. x = Obj fs \<and> ok fs y" if "?f k x = Inr y" for k x y
    using that by (cases x) (auto intro: assms(2))
  have "list_all2 (\<lambda>x y. \<exists>fs. x = Obj fs \<and> ok fs y) vs ys"
    using map_rows_InrD [OF m] by (rule list_all2_mono) (erule exE, rule one)
  from list_all2_Obj [OF this] show ?thesis by (auto simp: v)
qed

interpretation engines_list: listing_parser "parseHostEnginesList json" "genuine_engines json" for json
proof unfold_locales
  fix raw es
  assume "parseHostEnginesList json raw = Inr es"
  then obtain root where j: "json raw = Some (Obj root)" and m: "parseRows root ''engines'' read_engine = Inr es"
    by (auto simp: parseHostEnginesList_def parseObject_Inr dest!: and_then_InrD split: if_splits)
  have "\<exists>rows. get_prop root ''engines'' = Arr (map Obj rows) \<and> list_all2 engine_of rows es"
    by (rule parseRows_Inr [OF m]) (rule read_engine_Inr)
  with j show "genuine_engines json raw es"
    unfolding genuine_engines_def by blast
next
  fix raw e
  assume "parseHostEnginesList json raw = Inl e"
  then show "typed e"
    by (auto simp: parseHostEnginesList_def dest!: and_then_InlD
        dest: parseObject_typed parseShape_typed split: if_splits)
qed

interpretation profiles_list: listing_parser "parseHostProfilesList json" "genuine_profiles json" for json
proof unfold_locales
  fix raw ps
  assume "parseHostProfilesList json raw = Inr ps"
  then obtain root where j: "json raw = Some (Obj root)" and m: "parseRows root ''profiles'' read_profile = Inr ps"
    by (auto simp: parseHostProfilesList_def parseObject_Inr dest!: and_then_InrD split: if_splits)
  have "\<exists>rows. get_prop root ''profiles'' = Arr (map Obj rows) \<and> list_all2 profile_of rows ps"
    by (rule parseRows_Inr [OF m]) (rule read_profile_Inr)
  with j show "genuine_profiles json raw ps"
    unfolding genuine_profiles_def by blast
next
  fix raw e
  assume "parseHostProfilesList json raw = Inl e"
  then show "typed e"
    by (auto simp: parseHostProfilesList_def dest!: and_then_InlD
        dest: parseObject_typed parseShape_typed split: if_splits)
qed

definition listEnginesCommand :: "string \<Rightarrow> string" where
  "listEnginesCommand binary = binary @ '' engines list --json''"

definition listProfilesCommand :: "string \<Rightarrow> string" where
  "listProfilesCommand binary = binary @ '' profiles list --json''"

definition listEngines :: "(string \<Rightarrow> js option) \<Rightarrow> string \<Rightarrow> string + exec_result \<Rightarrow> engine_info list cli" where
  "listEngines json binary answer =
     and_then (captureJson (listEnginesCommand binary) 20000 answer) (parseHostEnginesList json)"

definition listProfiles :: "(string \<Rightarrow> js option) \<Rightarrow> string \<Rightarrow> string + exec_result \<Rightarrow> profile_info list cli" where
  "listProfiles json binary answer =
     and_then (captureJson (listProfilesCommand binary) 20000 answer) (parseHostProfilesList json)"

subsection \<open>Properties\<close>

text \<open>
  The workspace, engine and profile listings are whole or refused too. Each comes only from
  a command that ended with status 0 and carries one row per reported row; a workspace always
  has a path and a display path, and whether an engine may be created from is what the host
  said, never a default.
\<close>

theorem catalog_listings_whole_or_refused:
  "(\<forall>ws. listWorkspaces json binary host answer = Inr ws \<longrightarrow>
      (\<exists>r. clean_exit answer r \<and> genuine_workspaces json (stdout r) ws))
   \<and> (\<forall>ws. mutateWorkspace json binary op host path answer = Inr ws \<longrightarrow>
      (\<exists>r. clean_exit answer r \<and> genuine_workspaces json (stdout r) ws))
   \<and> (\<forall>es. listEngines json binary answer = Inr es \<longrightarrow>
      (\<exists>r. clean_exit answer r \<and> genuine_engines json (stdout r) es))
   \<and> (\<forall>ps. listProfiles json binary answer = Inr ps \<longrightarrow>
      (\<exists>r. clean_exit answer r \<and> genuine_profiles json (stdout r) ps))"
  using workspaces_list.listing_sound [of json] engines_list.listing_sound [of json]
    profiles_list.listing_sound [of json]
  by (simp add: listWorkspaces_def mutateWorkspace_def listEngines_def listProfiles_def clean_exit_def
      workspaces_list.listing_def engines_list.listing_def profiles_list.listing_def)

definition demo_engines :: js where
  "demo_engines = Obj [(''engines'', Arr [Obj [(''id'', Str ''c''), (''label'', Str ''C''),
     (''available_for_create'', Bool False)]])]"

theorem catalog_listings_whole_or_refused_witness:
  "(\<exists>es. listEngines (\<lambda>_. Some demo_engines) ''p''
      (Inr \<lparr>exitCode = Some 0, stdout = ''{}'', stderr = [], timedOut = False\<rparr>) = Inr es
    \<and> map en_availableForCreate es = [False])
   \<and> (\<exists>es. genuine_engines (\<lambda>_. Some demo_engines) ''{}'' es)"
proof -
  let ?a = "Inr \<lparr>exitCode = Some 0, stdout = ''{}'', stderr = [], timedOut = False\<rparr> :: string + exec_result"
  have run: "listEngines (\<lambda>_. Some demo_engines) ''p'' ?a = Inr [\<lparr>en_id = ''c'', en_label = ''C'', en_family = [],
      en_harness = [], en_providerMark = [], en_usageProvider = None, en_enabled = True, en_available = True,
      en_availableForCreate = False, en_unavailableReason = None\<rparr>]"
    by code_simp
  from catalog_listings_whole_or_refused [THEN conjunct2, THEN conjunct2, THEN conjunct1, rule_format, OF run]
  have "\<exists>es. genuine_engines (\<lambda>_. Some demo_engines) ''{}'' es" by (auto simp: clean_exit_def)
  with run show ?thesis by simp
qed

subsection \<open>The lines as the host's shell reads them\<close>

lemma read_catalog:
  assumes "binary \<noteq> []" and "list_all plain_char binary"
  shows "read_words home Plain None (listEnginesCommand binary) = Some [binary, ''engines'', ''list'', ''--json'']"
    and "read_words home Plain None (listProfilesCommand binary) = Some [binary, ''profiles'', ''list'', ''--json'']"
  using sq.read_line [OF assms, of "[Inl ''engines'', Inl ''list'', Inl ''--json'']" home]
    sq.read_line [OF assms, of "[Inl ''profiles'', Inl ''list'', Inl ''--json'']" home]
  by (simp_all add: listEnginesCommand_def listProfilesCommand_def line_simps del: read_words.simps)

lemma read_workspaces:
  assumes "binary \<noteq> []" and "list_all plain_char binary"
  shows "read_words home Plain None (listWorkspacesCommand binary host) =
      Some [binary, ''workspaces'', ''list'', ''--host'', host, ''--json'']
    \<and> read_words home Plain None (mutateWorkspaceCommand binary op host path) =
      Some [binary, ''workspaces'', mutation_word op, path, ''--host'', host, ''--json'']"
proof -
  have l: "listWorkspacesCommand binary host =
      binary @ sq.line_rest [Inl ''workspaces'', Inl ''list'', Inl ''--host'', Inr host, Inl ''--json'']"
    by (simp add: listWorkspacesCommand_def)
  have m: "mutateWorkspaceCommand binary op host path =
      binary @ sq.line_rest [Inl ''workspaces'', Inl (mutation_word op), Inr path, Inl ''--host'', Inr host,
        Inl ''--json'']"
    by (simp add: mutateWorkspaceCommand_def)
  have "list_all plain_char (mutation_word op)" "mutation_word op \<noteq> []"
    by (cases op; simp add: plain_char_def)+
  then show ?thesis
    unfolding l m using assms
    by (simp add: sq.read_line sq.literals_ok_def plain_char_def del: read_words.simps sq.line_rest.simps)
qed

text \<open>
  C39: a host CLI line cannot be broken out of. For a CLI binary that is one non-empty word of
  plain characters, and whatever characters the session name, working directory, engine, profile,
  selector, host or workspace path contain, the host's shell reads each of the eleven lines the
  CLI client builds (sessions list, warnings, create, kill, ack and attach, workspaces list, add
  and remove, engines list, profiles list) as exactly the intended argument vector, with every
  value one word of its own.
\<close>

theorem cli_lines_read_as_argv:
  assumes "binary \<noteq> []" and "list_all plain_char binary"
  shows "read_words home Plain None (cliListCommand binary) = Some [binary, ''sessions'', ''list'', ''--json'']
    \<and> read_words home Plain None (cliWarningsCommand binary) =
      Some [binary, ''sessions'', ''warnings'', ''--json'']
    \<and> read_words home Plain None (cliCreateCommand binary name o') =
      Some ([binary, ''sessions'', ''create'', ''--json''] @ flag_words ''--cwd'' (co_cwd o')
        @ flag_words ''--engine'' (co_engine o') @ flag_words ''--profile'' (co_profile o')
        @ [''--'', name])
    \<and> read_words home Plain None (cliKillCommand binary name) =
      Some [binary, ''sessions'', ''kill'', ''--'', name]
    \<and> read_words home Plain None (cliAckCommand binary selector) =
      Some ([binary, ''sessions'', ''ack'', ''--json''] @ flag_words ''--'' selector)
    \<and> read_words home Plain None (buildAttachCommand binary name) =
      Some [''exec'', binary, ''sessions'', ''attach'', ''--'', name]
    \<and> read_words home Plain None (listWorkspacesCommand binary host) =
      Some [binary, ''workspaces'', ''list'', ''--host'', host, ''--json'']
    \<and> read_words home Plain None (mutateWorkspaceCommand binary AddWorkspace host path) =
      Some [binary, ''workspaces'', ''add'', path, ''--host'', host, ''--json'']
    \<and> read_words home Plain None (mutateWorkspaceCommand binary RemoveWorkspace host path) =
      Some [binary, ''workspaces'', ''remove'', path, ''--host'', host, ''--json'']
    \<and> read_words home Plain None (listEnginesCommand binary) = Some [binary, ''engines'', ''list'', ''--json'']
    \<and> read_words home Plain None (listProfilesCommand binary) = Some [binary, ''profiles'', ''list'', ''--json'']"
  using read_workspaces [OF assms, of home host AddWorkspace path]
    read_workspaces [OF assms, of home host RemoveWorkspace path]
  by (simp add: read_create [OF assms] read_cli [OF assms] read_catalog [OF assms] del: read_words.simps)

theorem cli_lines_read_as_argv_witness:
  "read_words ''/root'' Plain None (buildAttachCommand ''pocketshell'' ''a;b $(c)'') =
     Some [''exec'', ''pocketshell'', ''sessions'', ''attach'', ''--'', ''a;b $(c)'']
   \<and> read_words ''/root'' Plain None (mutateWorkspaceCommand ''pocketshell'' AddWorkspace ''h'' ''a $(b)'') =
     Some [''pocketshell'', ''workspaces'', ''add'', ''a $(b)'', ''--host'', ''h'', ''--json'']"
  using cli_lines_read_as_argv [of "''pocketshell''" "''/root''" "''a;b $(c)''" _ _ "''h''" "''a $(b)''"]
  by (simp add: plain_char_def del: read_words.simps)

end
