(* ===== verification/Connection_State.thy ===== *)
theory Connection_State
  imports Host_Keys Gateway Transport_Guard Host_Cli_Sessions
begin

text \<open>
  The state of \<open>ConnectionController\<close> (src/src/connectionController.ts), the values that pass
  through it, and its helper functions.

  Strings a user reads are values of \<open>status_text\<close>: \<open>Msg\<close> for a literal or a native
  message, one constructor per template of the source. An error caught from a native call, raised
  by the controller or by the host CLI is a \<open>caught\<close>.
\<close>

subsection \<open>Texts and errors\<close>

datatype status_text =
    Msg string
  | CliText host_error
  | SessionEnded string
  | SessionGone string string
  | NotListed string
  | MayHaveCreated string
  | MayHaveStopped string
  | FirstContact string string
  | KeyChanged string string
  | GaveUp string nat "status_text option"
  | GatewayText advice
  | TransportRefused refusal_reason "string option"
  | SequenceGap int int

datatype caught = Native thrown | Raised status_text | Refusal status_text | Cli host_error

definition caught_code :: "caught \<Rightarrow> string" where
  "caught_code e = (case e of Native t \<Rightarrow> e_code (readSshCapabilityError t) | _ \<Rightarrow> ''SSH_ERROR'')"

definition caught_data :: "caught \<Rightarrow> fields" where
  "caught_data e = (case e of Native t \<Rightarrow> e_data (readSshCapabilityError t) | _ \<Rightarrow> [])"

text \<open>\<open>error instanceof Error ? error.message : String(error)\<close>\<close>

definition caught_text :: "caught \<Rightarrow> status_text" where
  "caught_text e =
     (case e of Native t \<Rightarrow> Msg (error_text t) | Raised m \<Rightarrow> m | Refusal m \<Rightarrow> m | Cli h \<Rightarrow> CliText h)"

text \<open>\<open>readSshCapabilityError(error).message\<close>\<close>

definition caught_message :: "caught \<Rightarrow> status_text" where
  "caught_message e =
     (case e of Native t \<Rightarrow> Msg (e_message (readSshCapabilityError t)) | _ \<Rightarrow> caught_text e)"

definition isUncertainMutation :: "caught \<Rightarrow> bool" where
  "isUncertainMutation e =
     (case e of
        Cli (CommandFailed cmd code err timed txt) \<Rightarrow> code = None \<or> timed
      | _ \<Rightarrow> caught_code e \<in>
          {''CONNECTION_LOST'', ''CONNECTION_CLOSED'', ''CHANNEL_CLOSED'', ''SSH_IO'', ''EXEC_TIMEOUT''})"

definition isRetryableDialError :: "caught \<Rightarrow> bool" where
  "isRetryableDialError e \<longleftrightarrow>
     caught_code e \<notin> {''AUTH_FAILED'', ''HOST_KEY_REJECTED'', ''INVALID_ARGUMENT''}"

definition isCurrentTransportFailure :: "caught \<Rightarrow> bool" where
  "isCurrentTransportFailure e \<longleftrightarrow>
     caught_code e \<in> {''CONNECTION_LOST'', ''CONNECTION_CLOSED'', ''CHANNEL_CLOSED'', ''SSH_IO''}"

text \<open>The same question asked of a text: \<open>/connection|transport|closed|eof|socket|ssh/i\<close>.\<close>

definition mentions_transport :: "string \<Rightarrow> bool" where
  "mentions_transport s \<longleftrightarrow>
     list_ex (\<lambda>w. contains_ci w s)
       [''connection'', ''transport'', ''closed'', ''eof'', ''socket'', ''ssh'']"

subsection \<open>Hosts, sessions, terminals\<close>

text \<open>
  A dial target. Its credential is the plain object the caller passed; \<open>t_extra\<close> holds the
  optional own properties \<open>link\<close> and \<open>gateway\<close>.
\<close>

record ssh_target =
  t_hostId :: string
  t_hostname :: string
  t_port :: int
  t_username :: string
  t_credential :: fields
  t_extra :: fields

definition key_handle :: "fields \<Rightarrow> (string \<times> js) list \<Rightarrow> fields" where
  "key_handle c fs = [(''kind'', Str ''key-handle''), (''handleId'', get_prop c ''handleId'')] @ fs"

definition hostWithoutTransientPassphrase :: "ssh_target \<Rightarrow> ssh_target" where
  "hostWithoutTransientPassphrase host =
     (let c = t_credential host in
      if \<not> isKeyHandleCredential c \<or> get_prop c ''passphrase'' = Undef \<or> get_prop c ''passphrase'' = Null
      then host
      else host\<lparr>t_credential := key_handle c []\<rparr>)"

definition hostWithTransientPassphrase :: "ssh_target \<Rightarrow> js \<Rightarrow> ssh_target" where
  "hostWithTransientPassphrase host passphrase =
     (if passphrase = Undef \<or> \<not> isKeyHandleCredential (t_credential host) then host
      else host\<lparr>t_credential := key_handle (t_credential host) [(''passphrase'', passphrase)]\<rparr>)"

text \<open>\<open>Some\<close> and a blank string is an identifier that matches nothing.\<close>

definition blank_id :: "string option \<Rightarrow> bool" where
  "blank_id i = (case i of None \<Rightarrow> False | Some s \<Rightarrow> js_trim s = [])"

definition sameSession :: "session_row \<Rightarrow> session_row \<Rightarrow> bool" where
  "sameSession left right =
     (if blank_id (s_id left) \<or> blank_id (s_id right) then False
      else if s_id left \<noteq> None \<or> s_id right \<noteq> None then s_id left = s_id right
      else s_name left = s_name right \<and> s_workspace left = s_workspace right)"

type_synonym geometry = "int \<times> int"

definition valid_dims :: "jsnum \<Rightarrow> jsnum \<Rightarrow> bool" where
  "valid_dims cols rows \<longleftrightarrow>
     is_integer cols \<and> is_integer rows \<and> num_ge_int cols 1 \<and> num_ge_int rows 1
     \<and> num_le_int cols 1000 \<and> num_le_int rows 1000"

fun int_of_num :: "jsnum \<Rightarrow> int" where
  "int_of_num (IntN i) = i"
| "int_of_num _ = 0"

definition validGeometry :: "(jsnum \<times> jsnum) option \<Rightarrow> geometry option" where
  "validGeometry g =
     (case g of None \<Rightarrow> None
      | Some (cols, rows) \<Rightarrow>
          if valid_dims cols rows then Some (int_of_num cols, int_of_num rows) else None)"

definition PTY_CHANNEL_RESERVE :: nat where "PTY_CHANNEL_RESERVE = 3"
definition DEFAULT_MAX_OPEN_PTYS :: nat where "DEFAULT_MAX_OPEN_PTYS = 5"
definition EOF_PROBE_ATTEMPTS :: nat where "EOF_PROBE_ATTEMPTS = 3"

fun positive_integer :: "jsnum option \<Rightarrow> nat option" where
  "positive_integer (Some (IntN i)) = (if 1 \<le> i then Some (nat i) else None)"
| "positive_integer _ = None"

definition resolveMaxOpenPtys :: "jsnum option \<Rightarrow> jsnum option \<Rightarrow> nat" where
  "resolveMaxOpenPtys requested channels =
     (case positive_integer requested of
        Some n \<Rightarrow> n
      | None \<Rightarrow>
          (case positive_integer channels of
             Some n \<Rightarrow> max 1 (n - PTY_CHANNEL_RESERVE)
           | None \<Rightarrow> DEFAULT_MAX_OPEN_PTYS))"

lemma resolveMaxOpenPtys_pos: "1 \<le> resolveMaxOpenPtys requested channels"
proof -
  have "positive_integer x = Some n \<Longrightarrow> 1 \<le> n" for x n
    by (cases x rule: positive_integer.cases) (auto split: if_splits)
  then show ?thesis
    by (auto simp: resolveMaxOpenPtys_def DEFAULT_MAX_OPEN_PTYS_def split: option.splits)
qed

record pty_ref =
  p_conn :: connection_ref
  p_channelId :: string

record terminal =
  tm_session :: session_row
  tm_pty :: "pty_ref option"
  tm_geometry :: geometry
  tm_readSequence :: int
  tm_operationSequence :: int
  tm_lastOp :: "nat option"
  tm_pumpToken :: nat
  tm_attachToken :: nat
  tm_focusedAt :: nat
  tm_attaching :: "nat option"

subsection \<open>The snapshot\<close>

datatype phase =
    Idle | Connecting | AwaitingTrust | Connected | Listing | Attaching | Live | Background
  | Reconnecting | Lost | PhaseError

definition USABLE_PHASES :: "phase set" where
  "USABLE_PHASES = {Connected, Listing, Attaching, Live}"

definition LINK_UP_PHASES :: "phase set" where
  "LINK_UP_PHASES = {Connected, Listing, Attaching, Live, PhaseError}"

record trust_decision =
  td_hostId :: string
  td_hostLabel :: string
  td_mismatch :: bool
  td_presented :: presented_key
  td_previous :: "trust_pin option"

datatype mutation = CreateMutation string | KillMutation string

record uncertain_mutation =
  um_mutation :: mutation
  um_applied :: bool
  um_recordedAt :: int

record conn_snapshot =
  sn_revision :: nat
  sn_phase :: phase
  sn_hostId :: "string option"
  sn_hostLabel :: "string option"
  sn_connectionId :: "string option"
  sn_generationId :: "string option"
  sn_sessions :: "session_row list"
  sn_listErrors :: "string list"
  sn_selected :: "session_row option"
  sn_terminals :: "session_row list"
  sn_retryAttempt :: nat
  sn_error :: "status_text option"
  sn_trust :: "trust_decision option"
  sn_uncertain :: "uncertain_mutation option"
  sn_gatewayFailure :: "dial_failure option"

definition initial_snapshot :: conn_snapshot where
  "initial_snapshot =
     \<lparr>sn_revision = 0, sn_phase = Idle, sn_hostId = None, sn_hostLabel = None, sn_connectionId = None,
      sn_generationId = None, sn_sessions = [], sn_listErrors = [], sn_selected = None, sn_terminals = [],
      sn_retryAttempt = 0, sn_error = None, sn_trust = None, sn_uncertain = None, sn_gatewayFailure = None\<rparr>"

text \<open>What a fresh listing says about a mutation whose answer was lost.\<close>

fun mutation_applied :: "mutation \<Rightarrow> sessions_listing \<Rightarrow> bool" where
  "mutation_applied (CreateMutation target) l =
     list_ex (\<lambda>s. s_name s = target \<or> s_tag s = Some target) (l_sessions l)"
| "mutation_applied (KillMutation target) l = (\<not> list_ex (\<lambda>s. s_name s = target) (l_sessions l))"

definition readPresentedKey :: "fields \<Rightarrow> presented_key option" where
  "readPresentedKey data =
     (case (get_prop data ''keyType'', get_prop data ''keyB64'', get_prop data ''fingerprintSha256'') of
        (Str ty, Str kb, Str fp) \<Rightarrow> Some \<lparr>keyType = ty, keyB64 = kb, fingerprintSha256 = fp\<rparr>
      | _ \<Rightarrow> None)"

definition reusesTransport :: "(string \<Rightarrow> url option) \<Rightarrow> ssh_target \<Rightarrow> ssh_target \<Rightarrow> bool" where
  "reusesTransport parse_url live requested =
     (let lg = hasGatewayMarker (t_extra live); rg = hasGatewayMarker (t_extra requested) in
      if \<not> lg \<and> \<not> rg then True
      else if \<not> lg \<or> \<not> rg then False
      else
        case (normalizeGatewayTarget parse_url (get_prop (t_extra live) ''gateway''),
              normalizeGatewayTarget parse_url (get_prop (t_extra requested) ''gateway'')) of
          (Some a, Some b) \<Rightarrow> fst a = fst b \<and> snd a = snd b
        | _ \<Rightarrow> False)"

subsection \<open>Native calls and their answers\<close>

datatype cancel_target = CancelConnect string | CancelConnection connection_ref

datatype call =
    ListenerReady
  | GetState connection_ref string
  | Connect ssh_target string string "trust_pin option"
  | Cancel cancel_target
  | CloseConnection connection_ref
  | ScheduleClose connection_ref int
  | CancelScheduled connection_ref
  | Exec connection_ref string int
  | OpenPty connection_ref string geometry
  | ReadPty pty_ref int
  | WritePty pty_ref int string
  | ResizePty pty_ref int geometry
  | ClosePty pty_ref
  | TrustGet string
  | TrustRecord string trust_pin
  | Delay int
  | Output session_row bytes string

datatype link_state = StConnected | StLost | StClosed

record connect_result =
  cr_requestId :: string
  cr_ref :: connection_ref
  cr_hostKey :: fields
  cr_verified :: bool

record read_result =
  rr_requestId :: string
  rr_generationId :: string
  rr_channelId :: string
  rr_sequence :: int
  rr_data :: string
  rr_eof :: bool

datatype native_answer =
    Done
  | Threw thrown
  | Acked string
  | StateIs string link_state
  | ConnectedTo connect_result
  | PinIs "trust_pin option"
  | ExecIs string string exec_result
  | CancelledIs string bool
  | OpenedPty string pty_ref
  | ReadIs read_result
  | OperationIs string int string

subsection \<open>Outcomes\<close>

datatype fail_reason = TrustRequired | TrustMismatch | NotConnected | NotFound | Superseded | Failed

datatype ok_value =
    NoValue
  | ConnValue "connection_ref option"
  | SessionValue session_row
  | ListingValue sessions_listing
  | CreatedValue created_session
  | ExecValue exec_result
  | SeqValue int

datatype outcome = Okay ok_value | Fail fail_reason status_text | Rejects caught

subsection \<open>Suspended continuations\<close>

text \<open>
  Every \<open>await\<close> is a task: the native calls still to settle whose answers are ignored (closes
  and cancellations, each with its \<open>catch\<close>), then the continuation, which receives the answer
  of the call it waits for. Whose dial, listing or attach it is, is part of the continuation.
\<close>

datatype dial_caller =
    ForConnect nat ssh_target nat string
  | ForLadder nat ssh_target status_text nat string

fun caller_host :: "dial_caller \<Rightarrow> ssh_target" where
  "caller_host (ForConnect op host intent rid) = host"
| "caller_host (ForLadder l host reason attempt rid) = host"

text \<open>The intent a dial belongs to; a ladder is identified by the intent it took.\<close>

fun caller_intent :: "dial_caller \<Rightarrow> nat" where
  "caller_intent (ForConnect op host intent rid) = intent"
| "caller_intent (ForLadder l host reason attempt rid) = l"

fun caller_request :: "dial_caller \<Rightarrow> string" where
  "caller_request (ForConnect op host intent rid) = rid"
| "caller_request (ForLadder l host reason attempt rid) = rid"

datatype dial_result = DialOk connection_ref | DialFailed fail_reason status_text

datatype after_close =
    Return dial_result
  | Throw caught
  | Present presented_key verdict

datatype list_caller =
    ListUser nat
  | ListLadder nat ssh_target status_text nat
  | ListReconcile nat outcome

datatype open_caller =
    OpenConsumer nat
  | OpenRecovery nat ssh_target status_text nat connection_ref sessions_listing "session_row option" "nat list" "status_text option"

datatype open_result = Opened session_row | OpenSuperseded status_text | OpenFailed string

datatype terminal_op = WriteOp nat bytes | ResizeOp nat jsnum jsnum

fun op_id :: "terminal_op \<Rightarrow> nat" where
  "op_id (WriteOp op b) = op"
| "op_id (ResizeOp op c r) = op"

datatype mutation_request = CreateReq string create_options | KillReq string

datatype connect_kont =
    K_ConnReady nat ssh_target nat string
  | K_ConnState nat ssh_target nat string string
  | K_ConnTermsClosed nat ssh_target nat string
  | K_ConnClosed nat ssh_target nat string
  | K_Recorded nat ssh_target

datatype dial_kont =
    K_DialPin dial_caller string
  | K_DialConnected dial_caller string "trust_pin option" bool
  | K_DialAfter dial_caller string "trust_pin option" bool after_close
  | K_DialReturn dial_caller dial_result

datatype ladder_kont =
    K_LadderReleased nat ssh_target status_text
  | K_LadderDelayed nat ssh_target status_text nat
  | K_ReattachLost nat ssh_target status_text nat
  | K_ReattachClosed nat ssh_target status_text nat
  | K_LadderDone nat

datatype list_kont =
    K_ListAnswer list_caller connection_ref string
  | K_ListReturn list_caller outcome
  | K_ProbeAnswer nat connection_ref string
  | K_MutationRan nat mutation_request connection_ref string
  | K_MutationListed nat mutation_request connection_ref string ok_value
  | K_HostCommand nat connection_ref string

datatype terminal_kont =
    K_OpenPrev open_caller nat nat connection_ref session_row
  | K_Opened open_caller nat nat connection_ref session_row string
  | K_OpenReturn open_caller nat open_result
  | K_PumpRead nat pty_ref nat string
  | K_PumpOutput nat pty_ref nat int bool
  | K_EofProbe nat pty_ref nat nat string
  | K_EofDelay nat pty_ref nat nat
  | K_OpStart terminal_op nat "string option" "nat option"
  | K_OpAnswer terminal_op nat pty_ref int string
  | K_OpReport nat outcome

datatype lifecycle_kont =
    K_Scheduled nat string
  | K_FgCancelled nat connection_ref string bool
  | K_FgState nat connection_ref string bool bool
  | K_Released nat
  | K_CloseCancelled nat
  | K_CloseTerms nat
  | K_CloseTransport nat
  | K_Join nat nat bool

datatype kont =
    Forget
  | Report nat outcome
  | OnConnect connect_kont
  | OnDial dial_kont
  | OnLadder ladder_kont
  | OnList list_kont
  | OnTerminal terminal_kont
  | OnLifecycle lifecycle_kont

type_synonym task = "call list \<times> kont"

subsection \<open>The controller\<close>

text \<open>What the embedding platform supplies.\<close>

record conn_config =
  cfg_gateway :: bool
  cfg_maxOpenPtys :: nat
  cfg_maxGrace :: int
  cfg_retryDelays :: "int list"
  cfg_id :: "nat \<Rightarrow> string"
  cfg_url :: "string \<Rightarrow> url option"
  cfg_json :: "string \<Rightarrow> js option"
  cfg_binary :: string

text \<open>
  One entry per connection the controller ever adopted: the reference, the target, and what the
  dial was judged by: what the platform said about the pairing, or the expected pin and the presented key.
\<close>

datatype adoption =
  ByReceipt connection_ref ssh_target bool | ByPin connection_ref ssh_target trust_pin presented_key

record controller =
  c_snap :: conn_snapshot
  c_host :: "ssh_target option"
  c_connection :: "connection_ref option"
  c_hostCli :: "connection_ref option"
  c_open :: "nat list"
  c_heap :: "nat \<Rightarrow> terminal"
  c_nextTerminal :: nat
  c_geometry :: geometry
  c_grace :: "int option"
  c_reconnectTask :: "nat option"
  c_disposed :: bool
  c_lastDialRetryable :: bool
  c_connectIntent :: nat
  c_pendingConnect :: "string option"
  c_onceTrusted :: "(string \<times> trust_pin) option"
  c_focusClock :: nat
  c_ids :: nat
  c_clock :: int
  c_tasks :: "task list"
  c_calls :: "call list"
  c_outcomes :: "(nat \<times> outcome) list"
  c_nextOp :: nat
  c_adopted :: "adoption list"
  c_granted :: "(string \<times> trust_pin) list"
  c_recorded :: "(string \<times> trust_pin) list"

text \<open>A record no consumer made: the contents of an unused place of the store.\<close>

definition no_session :: session_row where
  "no_session =
     \<lparr>s_name = [], s_id = None, s_workspace = None, s_tag = None, s_engine = None, s_profile = None,
      s_agent = None, s_agentState = None, s_agentStateSource = None, s_attached = False,
      s_createdEpoch = None, s_activityEpoch = None, s_phase = None\<rparr>"

definition no_terminal :: terminal where
  "no_terminal =
     \<lparr>tm_session = no_session, tm_pty = None, tm_geometry = (80, 24), tm_readSequence = 0,
      tm_operationSequence = 0, tm_lastOp = None, tm_pumpToken = 0, tm_attachToken = 0,
      tm_focusedAt = 0, tm_attaching = None\<rparr>"

definition new_controller :: controller where
  "new_controller =
     \<lparr>c_snap = initial_snapshot, c_host = None, c_connection = None, c_hostCli = None, c_open = [],
      c_heap = (\<lambda>_. no_terminal), c_nextTerminal = 0, c_geometry = (80, 24), c_grace = None,
      c_reconnectTask = None, c_disposed = False, c_lastDialRetryable = True, c_connectIntent = 0,
      c_pendingConnect = None, c_onceTrusted = None, c_focusClock = 0, c_ids = 0, c_clock = 0,
      c_tasks = [], c_calls = [], c_outcomes = [], c_nextOp = 0, c_adopted = [], c_granted = [],
      c_recorded = []\<rparr>"

end
