(* ===== verification/Connection_Steps.thy ===== *)
theory Connection_Steps
  imports Connection_State
begin

text \<open>
  The operations of \<open>ConnectionController\<close> as reactions: a consumer call, a native event, or
  the answer of a native call resuming one suspended continuation. Each runs the code up to the
  next \<open>await\<close>; the interleaving of the reactions is the list of events.

  An \<open>await\<close> of work that happens to be finished already is a suspension too, and so is the
  return of an \<open>async\<close> function to its caller: what may run in between is not restricted.
\<close>

subsection \<open>Primitives\<close>

text \<open>\<open>setSnapshot\<close>: apply the patch, re-read the terminals, count the revision.\<close>

definition set_snapshot :: "(conn_snapshot \<Rightarrow> conn_snapshot) \<Rightarrow> controller \<Rightarrow> controller" where
  "set_snapshot patch s =
     s\<lparr>c_snap := (patch (c_snap s))
         \<lparr>sn_terminals := map (\<lambda>u. tm_session (c_heap s u)) (c_open s),
          sn_revision := Suc (sn_revision (c_snap s))\<rparr>\<rparr>"

definition upd_terminal :: "nat \<Rightarrow> (terminal \<Rightarrow> terminal) \<Rightarrow> controller \<Rightarrow> controller" where
  "upd_terminal u f s = s\<lparr>c_heap := (c_heap s)(u := f (c_heap s u))\<rparr>"

text \<open>Start the first ignored call, if there is one; the rest follow one by one.\<close>

definition suspend :: "call list \<Rightarrow> kont \<Rightarrow> controller \<Rightarrow> controller" where
  "suspend cs k s =
     s\<lparr>c_tasks := c_tasks s @ [(cs, k)], c_calls := (case cs of [] \<Rightarrow> [] | c # _ \<Rightarrow> [c]) @ c_calls s\<rparr>"

text \<open>Issue a call and wait for its answer.\<close>

definition await_call :: "call \<Rightarrow> kont \<Rightarrow> controller \<Rightarrow> controller" where
  "await_call c k s = s\<lparr>c_tasks := c_tasks s @ [([], k)], c_calls := c # c_calls s\<rparr>"

definition finish_op :: "nat \<Rightarrow> outcome \<Rightarrow> controller \<Rightarrow> controller" where
  "finish_op op r s = s\<lparr>c_outcomes := (op, r) # c_outcomes s\<rparr>"

definition fresh_id :: "conn_config \<Rightarrow> controller \<Rightarrow> string" where
  "fresh_id cfg s = cfg_id cfg (c_ids s)"

definition use_id :: "controller \<Rightarrow> controller" where
  "use_id s = s\<lparr>c_ids := Suc (c_ids s)\<rparr>"

definition isCurrentConnect :: "nat \<Rightarrow> controller \<Rightarrow> bool" where
  "isCurrentConnect intent s \<longleftrightarrow> \<not> c_disposed s \<and> c_connectIntent s = intent"

definition isCurrentGeneration :: "connection_ref \<Rightarrow> controller \<Rightarrow> bool" where
  "isCurrentGeneration conn s \<longleftrightarrow> c_connection s = Some conn"

definition hasLiveTerminal :: "controller \<Rightarrow> bool" where
  "hasLiveTerminal s = list_ex (\<lambda>u. tm_pty (c_heap s u) \<noteq> None) (c_open s)"

definition idlePhase :: "controller \<Rightarrow> phase" where
  "idlePhase s =
     (if hasLiveTerminal s then Live
      else if list_ex (\<lambda>u. tm_attaching (c_heap s u) \<noteq> None) (c_open s) then Attaching
      else Connected)"

definition live_or :: "phase \<Rightarrow> controller \<Rightarrow> phase" where
  "live_or p s = (if hasLiveTerminal s then Live else p)"

definition findTerminal :: "session_row \<Rightarrow> controller \<Rightarrow> nat option" where
  "findTerminal session s = find (\<lambda>u. sameSession (tm_session (c_heap s u)) session) (c_open s)"

fun oldest_of :: "(nat \<Rightarrow> terminal) \<Rightarrow> nat option \<Rightarrow> nat list \<Rightarrow> nat option" where
  "oldest_of h best [] = best"
| "oldest_of h best (u # us) =
     (case best of
        None \<Rightarrow> oldest_of h (Some u) us
      | Some b \<Rightarrow> oldest_of h (Some (if tm_focusedAt (h u) < tm_focusedAt (h b) then u else b)) us)"

definition leastRecentlyFocused :: "controller \<Rightarrow> nat option" where
  "leastRecentlyFocused s = oldest_of (c_heap s) None (c_open s)"

definition focus_terminal :: "nat \<Rightarrow> controller \<Rightarrow> controller" where
  "focus_terminal u s =
     upd_terminal u (\<lambda>t. t\<lparr>tm_focusedAt := Suc (c_focusClock s)\<rparr>) (s\<lparr>c_focusClock := Suc (c_focusClock s)\<rparr>)"

text \<open>
  \<open>removeTerminal\<close>: take the record out, stop its pump and attach, move the selection. The
  PTY it held is read before.
\<close>

definition retire :: "terminal \<Rightarrow> terminal" where
  "retire t = t\<lparr>tm_attachToken := Suc (tm_attachToken t), tm_pumpToken := Suc (tm_pumpToken t), tm_pty := None\<rparr>"

definition removeTerminal :: "nat \<Rightarrow> bool \<Rightarrow> controller \<Rightarrow> controller" where
  "removeTerminal u keepSelection s =
     (let rest = remove1 u (c_open s);
          s1 = upd_terminal u retire (s\<lparr>c_open := rest\<rparr>) in
      case sn_selected (c_snap s) of
        None \<Rightarrow> s1
      | Some sel \<Rightarrow>
          if sameSession sel (tm_session (c_heap s u)) then
            (let next = (if rest = [] then None else Some (tm_session (c_heap s1 (last rest)))) in
             if next \<noteq> None \<or> \<not> keepSelection
             then s1\<lparr>c_snap := (c_snap s1)\<lparr>sn_selected := next\<rparr>\<rparr> else s1)
          else s1)"

definition pty_list :: "controller \<Rightarrow> pty_ref list" where
  "pty_list s = List.map_filter (\<lambda>u. tm_pty (c_heap s u)) (c_open s)"

definition detachTerminals :: "controller \<Rightarrow> controller" where
  "detachTerminals s = s\<lparr>c_heap := (\<lambda>u. if u \<in> set (c_open s) then retire (c_heap s u) else c_heap s u)\<rparr>"

definition drop_connection :: "controller \<Rightarrow> controller" where
  "drop_connection s = s\<lparr>c_connection := None, c_hostCli := None\<rparr>"

text \<open>The cancellation and close of a transport, each with its own \<open>catch\<close>.\<close>

definition close_calls :: "connection_ref option \<Rightarrow> call list" where
  "close_calls conn =
     (case conn of None \<Rightarrow> [] | Some c \<Rightarrow> [Cancel (CancelConnection c), CloseConnection c])"

definition forget_close :: "pty_ref option \<Rightarrow> controller \<Rightarrow> controller" where
  "forget_close pty s = (case pty of None \<Rightarrow> s | Some p \<Rightarrow> suspend [ClosePty p] Forget s)"

definition cancelled_dial :: dial_result where
  "cancelled_dial = DialFailed Failed (Msg ''SSH connect was cancelled.'')"

fun outcome_of_dial :: "dial_result \<Rightarrow> outcome" where
  "outcome_of_dial (DialOk c) = Okay (ConnValue (Some c))"
| "outcome_of_dial (DialFailed r m) = Fail r m"

subsection \<open>Starting a reconnect\<close>

text \<open>
  \<open>reconnectAndAttach\<close> up to the ladder's first \<open>await\<close>: a running ladder is joined by
  doing nothing, otherwise one ladder takes the next intent, releases the transport and reports
  itself.
\<close>

definition runReconnect_start :: "nat \<Rightarrow> ssh_target \<Rightarrow> status_text \<Rightarrow> controller \<Rightarrow> controller" where
  "runReconnect_start l host reason s =
     (let ptys = pty_list s; old = c_connection s;
          s1 = set_snapshot (\<lambda>n. n\<lparr>sn_phase := Reconnecting, sn_retryAttempt := 0, sn_error := Some reason,
                 sn_connectionId := None\<rparr>) (drop_connection (detachTerminals s)) in
      suspend (map ClosePty ptys @ close_calls old) (OnLadder (K_LadderReleased l host reason)) s1)"

definition reconnectAndAttach :: "status_text \<Rightarrow> controller \<Rightarrow> controller" where
  "reconnectAndAttach reason s =
     (case (c_reconnectTask s, c_host s) of
        (None, Some host) \<Rightarrow>
          let l = Suc (c_connectIntent s) in
          runReconnect_start l host reason (s\<lparr>c_connectIntent := l, c_reconnectTask := Some l\<rparr>)
      | _ \<Rightarrow> s)"

definition startReconnect :: "status_text \<Rightarrow> controller \<Rightarrow> controller" where
  "startReconnect reason s =
     (if sn_phase (c_snap s) = Background \<or> c_disposed s then s else reconnectAndAttach reason s)"

subsection \<open>Dialling\<close>

text \<open>\<open>gatewayAdmission\<close>: the shared transport decision for a target on this platform.\<close>

definition gatewayAdmission :: "conn_config \<Rightarrow> ssh_target \<Rightarrow> transport_decision" where
  "gatewayAdmission cfg host =
     unsupportedTransport (cfg_url cfg) (t_extra host) \<lparr>cap_gateway = cfg_gateway cfg, cap_link = False\<rparr>
       (Str (t_hostname host))"

definition dial_return :: "dial_caller \<Rightarrow> dial_result \<Rightarrow> controller \<Rightarrow> controller" where
  "dial_return caller r s = suspend [] (OnDial (K_DialReturn caller r)) s"

definition presentHostKeyDecision ::
    "dial_caller \<Rightarrow> string \<Rightarrow> trust_pin option \<Rightarrow> presented_key \<Rightarrow> verdict \<Rightarrow> controller \<Rightarrow> controller" where
  "presentHostKeyDecision caller gen previous presented verdict s =
     (let host = caller_host caller;
          mismatch = (verdict = Mismatch);
          message = (if mismatch then KeyChanged (t_hostname host) (fingerprintSha256 presented)
                     else FirstContact (t_hostname host) (fingerprintSha256 presented)) in
      dial_return caller (DialFailed (if mismatch then TrustMismatch else TrustRequired) message)
        (set_snapshot (\<lambda>n. n\<lparr>sn_phase := AwaitingTrust, sn_generationId := Some gen,
            sn_trust := Some \<lparr>td_hostId = t_hostId host, td_hostLabel = t_hostname host,
              td_mismatch = mismatch, td_presented = presented, td_previous = previous\<rparr>,
            sn_error := Some message\<rparr>) s))"

definition failGatewayDial :: "dial_caller \<Rightarrow> string \<Rightarrow> caught \<Rightarrow> controller \<Rightarrow> controller" where
  "failGatewayDial caller gen e s =
     (let failure = classifyGatewayDialFailure (caught_code e) (caught_data e);
          retryable = (case e of Refusal m \<Rightarrow> False
            | _ \<Rightarrow> (case failure of Some f \<Rightarrow> df_retryable f | None \<Rightarrow> isRetryableDialError e));
          message = (case failure of Some f \<Rightarrow> GatewayText (df_userMessage f) | None \<Rightarrow> caught_message e) in
      dial_return caller (DialFailed Failed message)
        (set_snapshot (\<lambda>n. n\<lparr>sn_phase := PhaseError, sn_error := Some message, sn_generationId := Some gen,
            sn_trust := None, sn_gatewayFailure := failure\<rparr>)
          (s\<lparr>c_lastDialRetryable := retryable\<rparr>)))"

text \<open>The \<open>catch\<close> of \<open>dial\<close>.\<close>

definition dial_caught ::
    "dial_caller \<Rightarrow> string \<Rightarrow> trust_pin option \<Rightarrow> bool \<Rightarrow> caught \<Rightarrow> controller \<Rightarrow> controller" where
  "dial_caught caller gen expected gateway e s =
     (if \<not> isCurrentConnect (caller_intent caller) s then dial_return caller cancelled_dial s
      else if gateway then failGatewayDial caller gen e s
      else
        let s1 = s\<lparr>c_lastDialRetryable := isRetryableDialError e\<rparr>;
            plain = dial_return caller (DialFailed Failed (caught_message e))
              (set_snapshot (\<lambda>n. n\<lparr>sn_phase := PhaseError, sn_error := Some (caught_message e),
                 sn_generationId := Some gen, sn_trust := None\<rparr>) s1) in
        (case readPresentedKey (caught_data e) of
           None \<Rightarrow> plain
         | Some presented \<Rightarrow>
             let verdict = verifyHostKeyTrustPin expected presented in
             if caught_code e = ''HOST_KEY_REJECTED'' \<and> verdict \<noteq> Trusted
             then presentHostKeyDecision caller gen expected presented verdict s1
             else plain))"

definition connect_call :: "dial_caller \<Rightarrow> ssh_target \<Rightarrow> string \<Rightarrow> trust_pin option \<Rightarrow> bool \<Rightarrow> controller \<Rightarrow> controller" where
  "connect_call caller target gen expected gateway s =
     await_call (Connect target (caller_request caller) gen expected)
       (OnDial (K_DialConnected caller gen expected gateway)) s"

definition dial :: "conn_config \<Rightarrow> dial_caller \<Rightarrow> controller \<Rightarrow> controller" where
  "dial cfg caller s =
     (let host = caller_host caller;
          gen = fresh_id cfg s;
          s1 = set_snapshot (\<lambda>n. n\<lparr>sn_phase := Connecting, sn_generationId := Some gen, sn_error := None\<rparr>)
                 ((use_id s)\<lparr>c_lastDialRetryable := True\<rparr>) in
      if hasGatewayMarker (t_extra host) then
        (case gatewayAdmission cfg host of
           Refused reason name \<Rightarrow>
             dial_caught caller gen None True (Refusal (TransportRefused reason name)) s1
         | Admitted \<Rightarrow>
             (case normalizeGatewayTarget (cfg_url cfg) (get_prop (t_extra host) ''gateway'') of
                None \<Rightarrow> s1
              | Some tgt \<Rightarrow>
                  if isCurrentConnect (caller_intent caller) s1
                  then connect_call caller (host\<lparr>t_extra := put ''gateway'' (target_js tgt) (t_extra host)\<rparr>) gen None True s1
                  else dial_return caller cancelled_dial s1))
      else await_call (TrustGet (t_hostId host)) (OnDial (K_DialPin caller gen)) s1)"

text \<open>After \<open>trustStore.get\<close>: the stored pin, else the key accepted once for this host.\<close>

definition expected_pin :: "string \<Rightarrow> trust_pin option \<Rightarrow> controller \<Rightarrow> trust_pin option" where
  "expected_pin hostId stored s =
     (case stored of Some p \<Rightarrow> Some p
      | None \<Rightarrow>
          (case c_onceTrusted s of
             Some (h, p) \<Rightarrow> if h = hostId then Some p else None
           | None \<Rightarrow> None))"

definition dial_pin :: "dial_caller \<Rightarrow> string \<Rightarrow> native_answer \<Rightarrow> controller \<Rightarrow> controller" where
  "dial_pin caller gen ans s =
     (let host = caller_host caller in
      case ans of
        Threw t \<Rightarrow> dial_caught caller gen None False (Native t) s
      | PinIs stored \<Rightarrow>
          let s1 = (case stored of None \<Rightarrow> s
                | Some p \<Rightarrow> s\<lparr>c_granted := (t_hostId host, p) # c_granted s\<rparr>);
              expected = expected_pin (t_hostId host) stored s in
          if isCurrentConnect (caller_intent caller) s1
          then connect_call caller host gen expected False s1
          else dial_return caller cancelled_dial s1
      | _ \<Rightarrow> s)"

text \<open>Adopt the connection the platform returned.\<close>

definition adopt :: "dial_caller \<Rightarrow> string \<Rightarrow> connection_ref \<Rightarrow> adoption \<Rightarrow> controller \<Rightarrow> controller" where
  "adopt caller gen conn why s =
     dial_return caller (DialOk conn)
       (set_snapshot (\<lambda>n. n\<lparr>sn_phase := Connected, sn_connectionId := Some (connectionId conn),
            sn_generationId := Some gen, sn_trust := None, sn_error := None, sn_gatewayFailure := None\<rparr>)
         (s\<lparr>c_connection := Some conn, c_hostCli := Some conn, c_adopted := why # c_adopted s\<rparr>))"

text \<open>\<open>closeReturnedConnection\<close>, then the rest of the branch.\<close>

definition close_returned ::
    "connection_ref \<Rightarrow> dial_caller \<Rightarrow> string \<Rightarrow> trust_pin option \<Rightarrow> bool \<Rightarrow> after_close \<Rightarrow> controller \<Rightarrow> controller" where
  "close_returned conn caller gen expected gateway after s =
     suspend (close_calls (Some conn)) (OnDial (K_DialAfter caller gen expected gateway after)) s"

definition dial_connected ::
    "dial_caller \<Rightarrow> string \<Rightarrow> trust_pin option \<Rightarrow> bool \<Rightarrow> native_answer \<Rightarrow> controller \<Rightarrow> controller" where
  "dial_connected caller gen expected gateway ans s =
     (case ans of
        Threw t \<Rightarrow> dial_caught caller gen expected gateway (Native t) s
      | ConnectedTo r \<Rightarrow>
          let conn = \<lparr>connectionId = connectionId (cr_ref r), generationId = gen\<rparr>;
              closing = close_returned (cr_ref r) caller gen expected gateway in
          if \<not> isCurrentConnect (caller_intent caller) s then closing (Return cancelled_dial) s
          else if cr_requestId r \<noteq> caller_request caller \<or> generationId (cr_ref r) \<noteq> gen
          then closing (Return (DialFailed Failed (Msg ''SSH connect returned a stale generation.''))) s
          else
            (case readPresentedKey (cr_hostKey r) of
               None \<Rightarrow> closing (Throw (Raised (Msg ''SSH connect returned an invalid host key.''))) s
             | Some presented \<Rightarrow>
                 if gateway then
                   (if \<not> cr_verified r
                    then closing (Throw (Refusal (Msg ''The gateway connection did not prove the host key matched its pairing, so it was closed before use.''))) s
                    else adopt caller gen conn (ByReceipt conn (caller_host caller) (cr_verified r)) s)
                 else
                   (case (expected, verifyHostKeyTrustPin expected presented) of
                      (Some pin, Trusted) \<Rightarrow>
                        adopt caller gen conn (ByPin conn (caller_host caller) pin presented) s
                    | (_, verdict) \<Rightarrow> closing (Present presented verdict) s))
      | _ \<Rightarrow> s)"

definition dial_after ::
    "dial_caller \<Rightarrow> string \<Rightarrow> trust_pin option \<Rightarrow> bool \<Rightarrow> after_close \<Rightarrow> controller \<Rightarrow> controller" where
  "dial_after caller gen expected gateway after s =
     (case after of
        Return r \<Rightarrow> dial_return caller r s
      | Throw e \<Rightarrow> dial_caught caller gen expected gateway e s
      | Present presented verdict \<Rightarrow>
          if isCurrentConnect (caller_intent caller) s
          then presentHostKeyDecision caller gen expected presented verdict s
          else dial_return caller cancelled_dial s)"

subsection \<open>Connecting\<close>

text \<open>The \<open>finally\<close> of \<open>connect\<close> and of a ladder's dial.\<close>

definition clear_pending :: "string \<Rightarrow> controller \<Rightarrow> controller" where
  "clear_pending rid s = (if c_pendingConnect s = Some rid then s\<lparr>c_pendingConnect := None\<rparr> else s)"

definition conn_finish :: "nat \<Rightarrow> string \<Rightarrow> outcome \<Rightarrow> controller \<Rightarrow> controller" where
  "conn_finish op rid r s = finish_op op r (clear_pending rid s)"

definition closed_error :: outcome where
  "closed_error = Rejects (Raised (Msg ''ConnectionController is closed.''))"

definition invalid_handle :: outcome where
  "invalid_handle = Fail Failed
     (Msg ''SSH key handle must have a non-empty handle ID and an optional string passphrase.'')"

definition connect :: "conn_config \<Rightarrow> nat \<Rightarrow> ssh_target \<Rightarrow> controller \<Rightarrow> controller" where
  "connect cfg op host s =
     (if c_disposed s then finish_op op closed_error s
      else if isKeyHandleCredential (t_credential host) \<and> \<not> isValidSshKeyHandleCredential (t_credential host)
      then finish_op op invalid_handle s
      else
        let go = (let intent = Suc (c_connectIntent s); rid = fresh_id cfg s in
              await_call ListenerReady (OnConnect (K_ConnReady op host intent rid))
                ((use_id s)\<lparr>c_connectIntent := intent, c_pendingConnect := Some rid\<rparr>)) in
        if hasGatewayMarker (t_extra host) \<and> c_host s \<noteq> None
        then (case gatewayAdmission cfg host of
                Refused reason name \<Rightarrow> finish_op op (Fail Failed (TransportRefused reason name)) s
              | Admitted \<Rightarrow> go)
        else go)"

definition conn_close_terminals :: "nat \<Rightarrow> ssh_target \<Rightarrow> nat \<Rightarrow> string \<Rightarrow> controller \<Rightarrow> controller" where
  "conn_close_terminals op host intent rid s =
     suspend (map ClosePty (pty_list s)) (OnConnect (K_ConnTermsClosed op host intent rid))
       ((detachTerminals s)\<lparr>c_open := []\<rparr>)"

definition conn_ready ::
    "conn_config \<Rightarrow> nat \<Rightarrow> ssh_target \<Rightarrow> nat \<Rightarrow> string \<Rightarrow> native_answer \<Rightarrow> controller \<Rightarrow> controller" where
  "conn_ready cfg op host intent rid ans s =
     (case ans of
        Threw t \<Rightarrow> conn_finish op rid (Rejects (Native t)) s
      | Done \<Rightarrow>
          if \<not> isCurrentConnect intent s then conn_finish op rid (outcome_of_dial cancelled_dial) s
          else
            (case (c_connection s, c_host s) of
               (Some conn, Some live) \<Rightarrow>
                 if t_hostId live = t_hostId host \<and> reusesTransport (cfg_url cfg) live host
                 then await_call (GetState conn (fresh_id cfg s))
                        (OnConnect (K_ConnState op host intent rid (fresh_id cfg s))) (use_id s)
                 else conn_close_terminals op host intent rid s
             | _ \<Rightarrow> conn_close_terminals op host intent rid s)
      | _ \<Rightarrow> s)"

text \<open>A throw of the probe, a stale answer included, is treated as a spent transport.\<close>

definition conn_state ::
    "nat \<Rightarrow> ssh_target \<Rightarrow> nat \<Rightarrow> string \<Rightarrow> string \<Rightarrow> native_answer \<Rightarrow> controller \<Rightarrow> controller" where
  "conn_state op host intent rid stateRid ans s =
     (case ans of
        Threw t \<Rightarrow> conn_close_terminals op host intent rid s
      | StateIs r st \<Rightarrow>
          if \<not> isCurrentConnect intent s then conn_finish op rid (outcome_of_dial cancelled_dial) s
          else if r \<noteq> stateRid then conn_close_terminals op host intent rid s
          else if st = StConnected then conn_finish op rid (Okay (ConnValue (c_connection s))) s
          else conn_close_terminals op host intent rid s
      | _ \<Rightarrow> s)"

definition conn_terms_closed :: "nat \<Rightarrow> ssh_target \<Rightarrow> nat \<Rightarrow> string \<Rightarrow> controller \<Rightarrow> controller" where
  "conn_terms_closed op host intent rid s =
     suspend (close_calls (c_connection s)) (OnConnect (K_ConnClosed op host intent rid)) (drop_connection s)"

definition conn_closed :: "conn_config \<Rightarrow> nat \<Rightarrow> ssh_target \<Rightarrow> nat \<Rightarrow> string \<Rightarrow> controller \<Rightarrow> controller" where
  "conn_closed cfg op host intent rid s =
     (if \<not> isCurrentConnect intent s then conn_finish op rid (outcome_of_dial cancelled_dial) s
      else
        dial cfg (ForConnect op host intent rid)
          (set_snapshot (\<lambda>n. n\<lparr>sn_phase := Connecting, sn_hostId := Some (t_hostId host),
              sn_hostLabel := Some (t_hostname host), sn_connectionId := None, sn_generationId := None,
              sn_sessions := [], sn_listErrors := [], sn_selected := None, sn_retryAttempt := 0,
              sn_error := None, sn_trust := None, sn_uncertain := None, sn_gatewayFailure := None\<rparr>)
            (s\<lparr>c_host := Some (hostWithoutTransientPassphrase host)\<rparr>)))"

definition conn_dialled :: "nat \<Rightarrow> nat \<Rightarrow> string \<Rightarrow> dial_result \<Rightarrow> controller \<Rightarrow> controller" where
  "conn_dialled op intent rid r s =
     (if \<not> isCurrentConnect intent s then conn_finish op rid (outcome_of_dial cancelled_dial) s
      else
        (case r of
           DialOk c \<Rightarrow>
             conn_finish op rid (outcome_of_dial r)
               (set_snapshot (\<lambda>n. n\<lparr>sn_phase := Connected, sn_connectionId := Some (connectionId c),
                   sn_generationId := Some (generationId c)\<rparr>) s)
         | DialFailed _ _ \<Rightarrow> conn_finish op rid (outcome_of_dial r) s))"

definition accept_done :: "conn_config \<Rightarrow> nat \<Rightarrow> ssh_target \<Rightarrow> controller \<Rightarrow> controller" where
  "accept_done cfg op retryHost s =
     connect cfg op retryHost
       (set_snapshot (\<lambda>n. n\<lparr>sn_trust := None, sn_phase := Connecting, sn_error := None\<rparr>) s)"

definition acceptPresentedHostKey ::
    "conn_config \<Rightarrow> nat \<Rightarrow> js \<Rightarrow> bool \<Rightarrow> controller \<Rightarrow> controller" where
  "acceptPresentedHostKey cfg op passphrase persist s =
     (case (sn_trust (c_snap s), c_host s) of
        (Some pending, Some host) \<Rightarrow>
          if \<not> persist \<and> td_mismatch pending
          then finish_op op (Fail TrustMismatch
                 (Msg ''A changed host key cannot be trusted for one connection only.'')) s
          else
            let retryHost = hostWithTransientPassphrase host passphrase in
            if isKeyHandleCredential (t_credential retryHost)
               \<and> \<not> isValidSshKeyHandleCredential (t_credential retryHost)
            then finish_op op invalid_handle s
            else
              let accepted = acceptedHostKeyPin (td_previous pending) (td_presented pending) in
              if persist
              then await_call (TrustRecord (t_hostId host) accepted) (OnConnect (K_Recorded op retryHost))
                     (s\<lparr>c_recorded := (t_hostId host, accepted) # c_recorded s\<rparr>)
              else accept_done cfg op retryHost
                     (s\<lparr>c_onceTrusted := Some (t_hostId host, accepted),
                        c_granted := (t_hostId host, accepted) # c_granted s\<rparr>)
      | _ \<Rightarrow> finish_op op (Fail Failed (Msg ''There is no pending host-key decision.'')) s)"

definition accept_recorded :: "conn_config \<Rightarrow> nat \<Rightarrow> ssh_target \<Rightarrow> native_answer \<Rightarrow> controller \<Rightarrow> controller" where
  "accept_recorded cfg op retryHost ans s =
     (case ans of
        Threw t \<Rightarrow> finish_op op (Rejects (Native t)) s
      | Done \<Rightarrow> accept_done cfg op retryHost s
      | _ \<Rightarrow> s)"

subsection \<open>Listing sessions and running commands\<close>

definition exec_answer :: "string \<Rightarrow> connection_ref \<Rightarrow> native_answer \<Rightarrow> (caught + exec_result) option" where
  "exec_answer rid conn ans =
     (case ans of
        Threw t \<Rightarrow> Some (Inl (Native t))
      | ExecIs r g res \<Rightarrow>
          if r \<noteq> rid \<or> g \<noteq> generationId conn
          then Some (Inl (Raised (Msg ''SSH exec returned a stale request or connection generation.'')))
          else Some (Inr res)
      | _ \<Rightarrow> None)"

text \<open>What the host CLI sees: the reason text of a rejected run.\<close>

fun cli_reason :: "caught \<Rightarrow> string" where
  "cli_reason (Native t) = error_text t"
| "cli_reason (Raised (Msg m)) = m"
| "cli_reason _ = []"

definition cli_answer :: "caught + exec_result \<Rightarrow> string + exec_result" where
  "cli_answer a = (case a of Inl e \<Rightarrow> Inl (cli_reason e) | Inr r \<Rightarrow> Inr r)"

definition exec_call :: "conn_config \<Rightarrow> connection_ref \<Rightarrow> string \<Rightarrow> int \<Rightarrow> list_kont \<Rightarrow> controller \<Rightarrow> controller" where
  "exec_call cfg conn command timeout k s = await_call (Exec conn command timeout) (OnList k) (use_id s)"

definition reconcilePendingMutation :: "sessions_listing \<Rightarrow> controller \<Rightarrow> controller" where
  "reconcilePendingMutation listing s =
     (case sn_uncertain (c_snap s) of
        None \<Rightarrow> s
      | Some m \<Rightarrow>
          if l_errors listing = [] \<and> mutation_applied (um_mutation m) listing
          then set_snapshot (\<lambda>n. n\<lparr>sn_uncertain := Some (m\<lparr>um_applied := True\<rparr>)\<rparr>) s
          else s)"

definition list_return :: "list_caller \<Rightarrow> outcome \<Rightarrow> controller \<Rightarrow> controller" where
  "list_return caller r s = suspend [] (OnList (K_ListReturn caller r)) s"

definition refreshSessions :: "conn_config \<Rightarrow> list_caller \<Rightarrow> controller \<Rightarrow> controller" where
  "refreshSessions cfg caller s =
     (case (c_hostCli s, c_connection s) of
        (Some cli, Some conn) \<Rightarrow>
          exec_call cfg cli (cliListCommand (cfg_binary cfg)) 20000 (K_ListAnswer caller conn (fresh_id cfg s))
            (set_snapshot (\<lambda>n. n\<lparr>sn_phase := (if sn_phase n = Live then Live else Listing), sn_error := None\<rparr>) s)
      | _ \<Rightarrow> list_return caller (Fail NotConnected (Msg ''Connect to a host before listing sessions.'')) s)"

definition show_listing :: "sessions_listing \<Rightarrow> controller \<Rightarrow> controller" where
  "show_listing l s = set_snapshot (\<lambda>n. n\<lparr>sn_sessions := l_sessions l, sn_listErrors := l_errors l\<rparr>) s"

definition list_failed :: "list_caller \<Rightarrow> connection_ref \<Rightarrow> caught \<Rightarrow> controller \<Rightarrow> controller" where
  "list_failed caller conn e s =
     (let fail = list_return caller (Fail Failed (caught_text e));
          report = (\<lambda>t. fail (set_snapshot (\<lambda>n. n\<lparr>sn_error := Some (caught_text e),
            sn_phase := (if sn_phase n = Reconnecting then Reconnecting else live_or PhaseError t)\<rparr>) t)) in
      if \<not> isCurrentGeneration conn s then fail s
      else if isUncertainMutation e \<or> isCurrentTransportFailure e then
        (let s1 = startReconnect (Msg ''session list lost its transport'') s in
         if \<not> isCurrentGeneration conn s1 then fail s1 else report s1)
      else report s)"

definition list_answer ::
    "conn_config \<Rightarrow> list_caller \<Rightarrow> connection_ref \<Rightarrow> string \<Rightarrow> native_answer \<Rightarrow> controller \<Rightarrow> controller" where
  "list_answer cfg caller conn rid ans s =
     (case exec_answer rid conn ans of
        None \<Rightarrow> s
      | Some a \<Rightarrow>
          (case listSessions (cfg_json cfg) (cfg_binary cfg) (cli_answer a) of
             Inr l \<Rightarrow>
               list_return caller (Okay (ListingValue l)) (reconcilePendingMutation l (show_listing l s))
           | Inl e \<Rightarrow> list_failed caller conn (Cli e) s))"

definition probeSessions :: "conn_config \<Rightarrow> nat \<Rightarrow> controller \<Rightarrow> controller" where
  "probeSessions cfg op s =
     (case (c_hostCli s, c_connection s) of
        (Some cli, Some conn) \<Rightarrow>
          if sn_phase (c_snap s) \<in> LINK_UP_PHASES
          then exec_call cfg cli (cliListCommand (cfg_binary cfg)) 20000 (K_ProbeAnswer op conn (fresh_id cfg s)) s
          else finish_op op (Fail NotConnected (Msg ''No usable connection to list sessions on.'')) s
      | _ \<Rightarrow> finish_op op (Fail NotConnected (Msg ''No usable connection to list sessions on.'')) s)"

definition probe_answer ::
    "conn_config \<Rightarrow> nat \<Rightarrow> connection_ref \<Rightarrow> string \<Rightarrow> native_answer \<Rightarrow> controller \<Rightarrow> controller" where
  "probe_answer cfg op conn rid ans s =
     (case exec_answer rid conn ans of
        None \<Rightarrow> s
      | Some a \<Rightarrow>
          (case listSessions (cfg_json cfg) (cfg_binary cfg) (cli_answer a) of
             Inr l \<Rightarrow>
               if isCurrentGeneration conn s then finish_op op (Okay (ListingValue l)) s
               else finish_op op (Fail Failed (Msg ''The transport was replaced while listing sessions.'')) s
           | Inl e \<Rightarrow> finish_op op (Fail Failed (CliText e)) s))"

subsection \<open>Creating and stopping sessions\<close>

fun mutation_of :: "mutation_request \<Rightarrow> mutation" where
  "mutation_of (CreateReq nm opts) = CreateMutation nm"
| "mutation_of (KillReq nm) = KillMutation nm"

fun lost_text :: "mutation_request \<Rightarrow> status_text" where
  "lost_text (CreateReq nm opts) = MayHaveCreated nm"
| "lost_text (KillReq nm) = MayHaveStopped nm"

fun lost_reason :: "mutation_request \<Rightarrow> status_text" where
  "lost_reason (CreateReq nm opts) = Msg ''create result was lost''"
| "lost_reason (KillReq nm) = Msg ''kill result was lost''"

fun mutation_command :: "string \<Rightarrow> mutation_request \<Rightarrow> string" where
  "mutation_command binary (CreateReq nm opts) = cliCreateCommand binary nm opts"
| "mutation_command binary (KillReq nm) = cliKillCommand binary nm"

fun mutation_timeout :: "mutation_request \<Rightarrow> int" where
  "mutation_timeout (CreateReq nm opts) = 60000"
| "mutation_timeout (KillReq nm) = 20000"

fun mutation_result :: "conn_config \<Rightarrow> mutation_request \<Rightarrow> string + exec_result \<Rightarrow> ok_value cli" where
  "mutation_result cfg (CreateReq nm opts) a =
     and_then (createSession (cfg_json cfg) (cfg_binary cfg) nm opts a) (\<lambda>c. Inr (CreatedValue c))"
| "mutation_result cfg (KillReq nm) a =
     and_then (killSession (cfg_binary cfg) nm a) (\<lambda>u. Inr NoValue)"

definition mutate :: "conn_config \<Rightarrow> nat \<Rightarrow> mutation_request \<Rightarrow> controller \<Rightarrow> controller" where
  "mutate cfg op req s =
     (case c_hostCli s of
        None \<Rightarrow>
          finish_op op (Fail NotConnected (Msg (case req of
            CreateReq nm opts \<Rightarrow> ''Connect to a host before creating a session.''
          | KillReq nm \<Rightarrow> ''Connect to a host before stopping a session.''))) s
      | Some cli \<Rightarrow>
          exec_call cfg cli (mutation_command (cfg_binary cfg) req) (mutation_timeout req)
            (K_MutationRan op req cli (fresh_id cfg s)) s)"

definition recordUncertainMutation :: "mutation \<Rightarrow> controller \<Rightarrow> controller" where
  "recordUncertainMutation m s =
     set_snapshot (\<lambda>n. n\<lparr>sn_uncertain :=
       Some \<lparr>um_mutation = m, um_applied = False, um_recordedAt = c_clock s\<rparr>\<rparr>) s"

definition mutation_failed ::
    "conn_config \<Rightarrow> nat \<Rightarrow> mutation_request \<Rightarrow> caught \<Rightarrow> controller \<Rightarrow> controller" where
  "mutation_failed cfg op req e s =
     (if isUncertainMutation e then
        (let s1 = recordUncertainMutation (mutation_of req) s;
             result = Fail Failed (lost_text req) in
         if isCurrentTransportFailure e then finish_op op result (startReconnect (lost_reason req) s1)
         else refreshSessions cfg (ListReconcile op result) s1)
      else finish_op op (Fail Failed (caught_text e)) s)"

definition mutation_ran ::
    "conn_config \<Rightarrow> nat \<Rightarrow> mutation_request \<Rightarrow> connection_ref \<Rightarrow> string \<Rightarrow> native_answer \<Rightarrow> controller \<Rightarrow> controller" where
  "mutation_ran cfg op req cli rid ans s =
     (case exec_answer rid cli ans of
        None \<Rightarrow> s
      | Some a \<Rightarrow>
          (case mutation_result cfg req (cli_answer a) of
             Inl e \<Rightarrow> mutation_failed cfg op req (Cli e) s
           | Inr v \<Rightarrow>
               exec_call cfg cli (cliListCommand (cfg_binary cfg)) 20000
                 (K_MutationListed op req cli (fresh_id cfg s) v) s))"

definition mutation_listed ::
    "conn_config \<Rightarrow> nat \<Rightarrow> mutation_request \<Rightarrow> connection_ref \<Rightarrow> string \<Rightarrow> ok_value \<Rightarrow> native_answer \<Rightarrow> controller \<Rightarrow> controller" where
  "mutation_listed cfg op req cli rid v ans s =
     (case exec_answer rid cli ans of
        None \<Rightarrow> s
      | Some a \<Rightarrow>
          (case listSessions (cfg_json cfg) (cfg_binary cfg) (cli_answer a) of
             Inl e \<Rightarrow> mutation_failed cfg op req (Cli e) s
           | Inr l \<Rightarrow> finish_op op (Okay v) (show_listing l s)))"

definition runHostCommand :: "conn_config \<Rightarrow> nat \<Rightarrow> string \<Rightarrow> int \<Rightarrow> controller \<Rightarrow> controller" where
  "runHostCommand cfg op command timeout s =
     (case c_connection s of
        None \<Rightarrow> finish_op op (Fail NotConnected (Msg ''Connect to a host before running a command.'')) s
      | Some conn \<Rightarrow> exec_call cfg conn command timeout (K_HostCommand op conn (fresh_id cfg s)) s)"

definition host_command_answer ::
    "nat \<Rightarrow> connection_ref \<Rightarrow> string \<Rightarrow> native_answer \<Rightarrow> controller \<Rightarrow> controller" where
  "host_command_answer op conn rid ans s =
     (case exec_answer rid conn ans of
        None \<Rightarrow> s
      | Some (Inr r) \<Rightarrow> finish_op op (Okay (ExecValue r)) s
      | Some (Inl e) \<Rightarrow>
          finish_op op (Fail Failed (caught_text e))
            (if isCurrentGeneration conn s \<and> isCurrentTransportFailure e
             then startReconnect (Msg ''host command observed a transport failure'') s else s))"

end
