(* ===== verification/Connection_Terminals.thy ===== *)
theory Connection_Terminals
  imports Connection_Steps
begin

text \<open>
  The terminals of \<open>ConnectionController\<close> (attach, output pump, queued input, detach), the
  reconnect ladder that re-attaches them, the background lifecycle, and the dispatch of events:
  the second half of src/src/connectionController.ts.
\<close>

subsection \<open>Attaching\<close>

definition superseded :: "nat \<Rightarrow> nat \<Rightarrow> connection_ref \<Rightarrow> controller \<Rightarrow> bool" where
  "superseded u token conn s \<longleftrightarrow>
     token \<noteq> tm_attachToken (c_heap s u) \<or> u \<notin> set (c_open s) \<or> \<not> isCurrentGeneration conn s"

definition is_consumer :: "open_caller \<Rightarrow> bool" where
  "is_consumer caller = (case caller of OpenConsumer op \<Rightarrow> True | _ \<Rightarrow> False)"

definition open_return :: "open_caller \<Rightarrow> nat \<Rightarrow> open_result \<Rightarrow> controller \<Rightarrow> controller" where
  "open_return caller u r s = suspend [] (OnTerminal (K_OpenReturn caller u r)) s"

definition attach_superseded :: open_result where
  "attach_superseded = OpenSuperseded (Msg ''Session attach was superseded.'')"

definition pty_calls :: "pty_ref option \<Rightarrow> call list" where
  "pty_calls p = (case p of None \<Rightarrow> [] | Some x \<Rightarrow> [ClosePty x])"

definition openTerminal :: "open_caller \<Rightarrow> nat \<Rightarrow> connection_ref \<Rightarrow> controller \<Rightarrow> controller" where
  "openTerminal caller u conn s =
     (let t = c_heap s u;
          token = Suc (tm_attachToken t);
          s1 = upd_terminal u (\<lambda>x. x\<lparr>tm_attachToken := token, tm_pumpToken := Suc (tm_pumpToken x),
                 tm_pty := None\<rparr>) s;
          s2 = (if is_consumer caller
                then set_snapshot (\<lambda>n. n\<lparr>sn_phase := live_or Attaching s1, sn_error := None,
                       sn_selected := Some (tm_session t)\<rparr>) s1
                else s1) in
      suspend (pty_calls (tm_pty t)) (OnTerminal (K_OpenPrev caller u token conn (tm_session t))) s2)"

definition open_prev ::
    "conn_config \<Rightarrow> open_caller \<Rightarrow> nat \<Rightarrow> nat \<Rightarrow> connection_ref \<Rightarrow> session_row \<Rightarrow> controller \<Rightarrow> controller" where
  "open_prev cfg caller u token conn session s =
     (if superseded u token conn s then open_return caller u attach_superseded s
      else
        await_call
          (OpenPty conn (buildAttachCommand (cfg_binary cfg)
             (case s_id session of Some i \<Rightarrow> i | None \<Rightarrow> s_name session)) (tm_geometry (c_heap s u)))
          (OnTerminal (K_Opened caller u token conn session (fresh_id cfg s))) (use_id s))"

text \<open>\<open>startPtyPump\<close> and the head of its loop.\<close>

definition pump_current :: "nat \<Rightarrow> nat \<Rightarrow> controller \<Rightarrow> bool" where
  "pump_current u token s \<longleftrightarrow> \<not> c_disposed s \<and> token = tm_pumpToken (c_heap s u)"

definition channel_of :: "pty_ref option \<Rightarrow> string option" where
  "channel_of p = map_option p_channelId p"

definition pump_loop :: "conn_config \<Rightarrow> nat \<Rightarrow> pty_ref \<Rightarrow> nat \<Rightarrow> controller \<Rightarrow> controller" where
  "pump_loop cfg u pty token s =
     (if pump_current u token s \<and> channel_of (tm_pty (c_heap s u)) = Some (p_channelId pty)
      then await_call (ReadPty pty (tm_readSequence (c_heap s u)))
             (OnTerminal (K_PumpRead u pty token (fresh_id cfg s))) (use_id s)
      else s)"

definition startPtyPump :: "conn_config \<Rightarrow> nat \<Rightarrow> controller \<Rightarrow> controller" where
  "startPtyPump cfg u s =
     (case tm_pty (c_heap s u) of
        None \<Rightarrow> s
      | Some pty \<Rightarrow>
          let token = Suc (tm_pumpToken (c_heap s u)) in
          pump_loop cfg u pty token (upd_terminal u (\<lambda>t. t\<lparr>tm_pumpToken := token\<rparr>) s))"

definition open_failed ::
    "open_caller \<Rightarrow> nat \<Rightarrow> nat \<Rightarrow> connection_ref \<Rightarrow> caught \<Rightarrow> string \<Rightarrow> controller \<Rightarrow> controller" where
  "open_failed caller u token conn e message s =
     (if superseded u token conn s then open_return caller u attach_superseded s
      else if is_consumer caller then
        (let s1 = set_snapshot (\<lambda>n. n\<lparr>sn_phase := live_or PhaseError s, sn_error := Some (Msg message)\<rparr>) s;
             s2 = (if isCurrentTransportFailure e
                   then startReconnect (Msg ''PTY attach failed after transport loss'') s1 else s1) in
         open_return caller u (OpenFailed message) s2)
      else open_return caller u (OpenFailed message) s)"

definition install_pty :: "nat \<Rightarrow> pty_ref \<Rightarrow> controller \<Rightarrow> controller" where
  "install_pty u pty s =
     upd_terminal u (\<lambda>t. t\<lparr>tm_pty := Some pty, tm_readSequence := 0, tm_operationSequence := 0,
       tm_lastOp := None\<rparr>) s"

definition open_answer ::
    "conn_config \<Rightarrow> open_caller \<Rightarrow> nat \<Rightarrow> nat \<Rightarrow> connection_ref \<Rightarrow> session_row \<Rightarrow> string \<Rightarrow> native_answer \<Rightarrow>
     controller \<Rightarrow> controller" where
  "open_answer cfg caller u token conn session rid ans s =
     (case ans of
        Threw t \<Rightarrow> open_failed caller u token conn (Native t) (error_text t) s
      | OpenedPty r p \<Rightarrow>
          if r \<noteq> rid \<or> generationId (p_conn p) \<noteq> generationId conn \<or> superseded u token conn s
          then suspend [ClosePty p] (OnTerminal (K_OpenReturn caller u
                 (OpenSuperseded (Msg ''A stale session attach completed after a newer one.'')))) s
          else
            let s1 = install_pty u p s;
                s2 = (if is_consumer caller
                      then set_snapshot (\<lambda>n. n\<lparr>sn_phase := Live, sn_selected := Some session,
                             sn_error := None, sn_retryAttempt := 0\<rparr>) s1
                      else s1) in
            open_return caller u (Opened session) (startPtyPump cfg u s2)
      | _ \<Rightarrow> s)"

text \<open>
  The channel budget: while there are too many terminals, the least recently focused one goes.
  Each round removes one, so one round per open terminal is enough.
\<close>

fun evict :: "nat \<Rightarrow> nat \<Rightarrow> controller \<Rightarrow> controller" where
  "evict 0 bound s = s"
| "evict (Suc k) bound s =
     (if length (c_open s) < bound then s
      else
        (case leastRecentlyFocused s of
           None \<Rightarrow> s
         | Some u \<Rightarrow> evict k bound (forget_close (tm_pty (c_heap s u)) (removeTerminal u False s))))"

definition new_terminal :: "session_row \<Rightarrow> geometry \<Rightarrow> controller \<Rightarrow> controller" where
  "new_terminal session geometry s =
     (let u = c_nextTerminal s; clock = Suc (c_focusClock s) in
      s\<lparr>c_heap := (c_heap s)(u := no_terminal\<lparr>tm_session := session, tm_geometry := geometry,
          tm_focusedAt := clock\<rparr>),
        c_open := c_open s @ [u], c_nextTerminal := Suc u, c_focusClock := clock\<rparr>)"

definition open_consumer :: "nat \<Rightarrow> nat \<Rightarrow> connection_ref \<Rightarrow> controller \<Rightarrow> controller" where
  "open_consumer op u conn s =
     upd_terminal u (\<lambda>t. t\<lparr>tm_attaching := Some op\<rparr>) (openTerminal (OpenConsumer op) u conn s)"

definition attach_existing ::
    "nat \<Rightarrow> nat \<Rightarrow> session_row \<Rightarrow> geometry option \<Rightarrow> connection_ref \<Rightarrow> controller \<Rightarrow> controller" where
  "attach_existing op u listed requested conn s0 =
     (let s = focus_terminal u s0; t = c_heap s u;
          sized = (case requested of None \<Rightarrow> (\<lambda>x. x) | Some g \<Rightarrow> (\<lambda>x. x\<lparr>tm_geometry := g\<rparr>)) in
      if tm_attaching t \<noteq> None then s
      else
        (case tm_pty t of
           Some p \<Rightarrow>
             if generationId (p_conn p) = generationId conn
             then finish_op op (Okay (SessionValue (tm_session t)))
                    (set_snapshot (\<lambda>n. n\<lparr>sn_selected := Some (tm_session t)\<rparr>) (upd_terminal u sized s))
             else open_consumer op u conn (upd_terminal u (\<lambda>x. sized (x\<lparr>tm_session := listed\<rparr>)) s)
         | None \<Rightarrow> open_consumer op u conn (upd_terminal u (\<lambda>x. sized (x\<lparr>tm_session := listed\<rparr>)) s)))"

definition attachSession ::
    "conn_config \<Rightarrow> nat \<Rightarrow> session_row \<Rightarrow> (jsnum \<times> jsnum) option \<Rightarrow> controller \<Rightarrow> controller" where
  "attachSession cfg op session geometry s0 =
     (let requested = validGeometry geometry;
          s = (case requested of None \<Rightarrow> s0 | Some g \<Rightarrow> s0\<lparr>c_geometry := g\<rparr>) in
      case (c_hostCli s, c_connection s, c_host s) of
        (Some cli, Some conn, Some host) \<Rightarrow>
          (case find (\<lambda>row. sameSession row session) (sn_sessions (c_snap s)) of
             None \<Rightarrow> finish_op op (Fail NotFound (NotListed (s_name session))) s
           | Some listed \<Rightarrow>
               (case findTerminal listed s of
                  Some u \<Rightarrow> attach_existing op u listed requested conn s
                | None \<Rightarrow>
                    let s1 = evict (length (c_open s)) (cfg_maxOpenPtys cfg) s;
                        g = (case requested of Some g \<Rightarrow> g | None \<Rightarrow> c_geometry s1) in
                    open_consumer op (c_nextTerminal s1) conn (new_terminal listed g s1)))
      | _ \<Rightarrow> finish_op op (Fail NotConnected (Msg ''Connect to a host before attaching a session.'')) s)"

definition focusSession :: "session_row \<Rightarrow> controller \<Rightarrow> controller" where
  "focusSession session s = (case findTerminal session s of None \<Rightarrow> s | Some u \<Rightarrow> focus_terminal u s)"

definition detachSession :: "nat \<Rightarrow> session_row \<Rightarrow> controller \<Rightarrow> controller" where
  "detachSession op session s =
     (case findTerminal session s of
        None \<Rightarrow> finish_op op (Okay NoValue) s
      | Some u \<Rightarrow>
          let pty = tm_pty (c_heap s u);
              s1 = removeTerminal u False s;
              s2 = (if \<not> c_disposed s1 \<and> c_connection s1 \<noteq> None
                      \<and> sn_phase (c_snap s1) \<noteq> Reconnecting \<and> sn_phase (c_snap s1) \<noteq> Background
                    then (if sn_phase (c_snap s1) = PhaseError \<and> \<not> hasLiveTerminal s1
                          then set_snapshot (\<lambda>n. n) s1
                          else set_snapshot (\<lambda>n. n\<lparr>sn_phase := idlePhase s1, sn_error := None\<rparr>) s1)
                    else set_snapshot (\<lambda>n. n) s1) in
          suspend (pty_calls pty) (Report op (Okay NoValue)) s2)"

subsection \<open>The output pump\<close>

definition pump_failed :: "nat \<Rightarrow> pty_ref \<Rightarrow> nat \<Rightarrow> caught \<Rightarrow> controller \<Rightarrow> controller" where
  "pump_failed u pty token e s =
     (if \<not> pump_current u token s then s
      else
        let backgrounded = (sn_phase (c_snap s) = Background);
            tf = isCurrentTransportFailure e in
        if backgrounded \<or> tf then
          (let s1 = forget_close (Some pty)
                 (upd_terminal u (\<lambda>t. t\<lparr>tm_pty := None, tm_pumpToken := Suc (tm_pumpToken t)\<rparr>) s);
               s2 = set_snapshot (\<lambda>n. n\<lparr>sn_phase := (if backgrounded then Background else live_or PhaseError s1),
                 sn_error := Some (caught_text e)\<rparr>) s1 in
           if tf then startReconnect (Msg ''PTY output reader observed a transport failure'') s2 else s2)
        else
          let failed = tm_pty (c_heap s u);
              s1 = removeTerminal u True s in
          forget_close failed
            (set_snapshot (\<lambda>n. n\<lparr>sn_phase := live_or PhaseError s1, sn_error := Some (caught_text e)\<rparr>) s1))"

definition eof_lost :: "nat \<Rightarrow> nat \<Rightarrow> controller \<Rightarrow> controller" where
  "eof_lost u token s =
     (if pump_current u token s
      then startReconnect (Msg ''PTY closed because its transport was lost'') s else s)"

text \<open>The session ended on a healthy transport: only this terminal goes.\<close>

definition eof_ended :: "nat \<Rightarrow> pty_ref \<Rightarrow> nat \<Rightarrow> controller \<Rightarrow> controller" where
  "eof_ended u pty token s =
     (if \<not> pump_current u token s then s
      else
        let name = s_name (tm_session (c_heap s u));
            s1 = removeTerminal u True s in
        suspend [ClosePty pty] Forget
          (set_snapshot (\<lambda>n. n\<lparr>sn_phase := idlePhase s1, sn_error := Some (SessionEnded name)\<rparr>) s1))"

text \<open>One round of \<open>transportLost\<close>, numbered from 0.\<close>

definition eof_probe :: "conn_config \<Rightarrow> nat \<Rightarrow> pty_ref \<Rightarrow> nat \<Rightarrow> nat \<Rightarrow> controller \<Rightarrow> controller" where
  "eof_probe cfg u pty token attempt s =
     (case c_connection s of
        None \<Rightarrow> eof_lost u token s
      | Some conn \<Rightarrow>
          if generationId conn \<noteq> generationId (p_conn pty) then eof_lost u token s
          else await_call (GetState conn (fresh_id cfg s))
                 (OnTerminal (K_EofProbe u pty token attempt (fresh_id cfg s))) (use_id s))"

definition eof_again :: "nat \<Rightarrow> pty_ref \<Rightarrow> nat \<Rightarrow> nat \<Rightarrow> controller \<Rightarrow> controller" where
  "eof_again u pty token attempt s =
     (if Suc attempt < EOF_PROBE_ATTEMPTS
      then await_call (Delay 250) (OnTerminal (K_EofDelay u pty token (Suc attempt))) s
      else eof_ended u pty token s)"

definition eof_probed :: "nat \<Rightarrow> pty_ref \<Rightarrow> nat \<Rightarrow> nat \<Rightarrow> string \<Rightarrow> native_answer \<Rightarrow> controller \<Rightarrow> controller" where
  "eof_probed u pty token attempt rid ans s =
     (case ans of
        Threw t \<Rightarrow> eof_again u pty token attempt s
      | StateIs r st \<Rightarrow>
          if r \<noteq> rid then eof_again u pty token attempt s
          else if st = StConnected then eof_ended u pty token s
          else eof_lost u token s
      | _ \<Rightarrow> s)"

definition eof_delayed :: "conn_config \<Rightarrow> nat \<Rightarrow> pty_ref \<Rightarrow> nat \<Rightarrow> nat \<Rightarrow> native_answer \<Rightarrow> controller \<Rightarrow> controller" where
  "eof_delayed cfg u pty token attempt ans s =
     (case ans of
        Threw t \<Rightarrow> pump_failed u pty token (Native t) s
      | Done \<Rightarrow> eof_probe cfg u pty token attempt s
      | _ \<Rightarrow> s)"

definition pump_after :: "conn_config \<Rightarrow> nat \<Rightarrow> pty_ref \<Rightarrow> nat \<Rightarrow> bool \<Rightarrow> controller \<Rightarrow> controller" where
  "pump_after cfg u pty token eof s =
     (if \<not> eof then pump_loop cfg u pty token s
      else
        let s1 = upd_terminal u (\<lambda>t. t\<lparr>tm_pty := None\<rparr>) s in
        if sn_phase (c_snap s1) = Background
        then suspend [ClosePty pty] Forget
               (set_snapshot (\<lambda>n. n\<lparr>sn_phase := Background,
                  sn_error := Some (SessionEnded (s_name (tm_session (c_heap s u))))\<rparr>) s1)
        else eof_probe cfg u pty token 0 s1)"

definition pump_read ::
    "conn_config \<Rightarrow> nat \<Rightarrow> pty_ref \<Rightarrow> nat \<Rightarrow> string \<Rightarrow> native_answer \<Rightarrow> controller \<Rightarrow> controller" where
  "pump_read cfg u pty token rid ans s =
     (case ans of
        Threw t \<Rightarrow> pump_failed u pty token (Native t) s
      | ReadIs r \<Rightarrow>
          let expected = tm_readSequence (c_heap s u); raise = (\<lambda>m. pump_failed u pty token (Raised m) s) in
          if \<not> pump_current u token s then s
          else if rr_requestId r \<noteq> rid \<or> rr_generationId r \<noteq> generationId (p_conn pty)
            \<or> rr_channelId r \<noteq> p_channelId pty
          then raise (Msg ''PTY read returned a stale request or generation.'')
          else if rr_sequence r < expected \<or> expected + 1 < rr_sequence r
          then raise (SequenceGap expected (rr_sequence r))
          else if rr_sequence r = expected \<and> rr_data r \<noteq> []
          then raise (Msg ''PTY output changed bytes without advancing its sequence.'')
          else if rr_sequence r = expected + 1 \<and> rr_data r = []
          then raise (Msg ''PTY output advanced its sequence without returning bytes.'')
          else if rr_sequence r = expected + 1 then
            (case atob (rr_data r) of
               None \<Rightarrow> raise (Msg ''The string to be decoded is not correctly encoded.'')
             | Some bytes \<Rightarrow>
                 await_call (Output (tm_session (c_heap s u)) bytes (generationId (p_conn pty)))
                   (OnTerminal (K_PumpOutput u pty token (rr_sequence r) (rr_eof r))) s)
          else pump_after cfg u pty token (rr_eof r) s
      | _ \<Rightarrow> s)"

definition pump_output ::
    "conn_config \<Rightarrow> nat \<Rightarrow> pty_ref \<Rightarrow> nat \<Rightarrow> int \<Rightarrow> bool \<Rightarrow> native_answer \<Rightarrow> controller \<Rightarrow> controller" where
  "pump_output cfg u pty token seq eof ans s =
     (case ans of
        Threw t \<Rightarrow> pump_failed u pty token (Native t) s
      | Done \<Rightarrow>
          if \<not> pump_current u token s then s
          else pump_after cfg u pty token eof (upd_terminal u (\<lambda>t. t\<lparr>tm_readSequence := seq\<rparr>) s)
      | _ \<Rightarrow> s)"

subsection \<open>Queued input\<close>

text \<open>\<open>writeTerminalBytes\<close> and \<open>resizeTerminal\<close> up to their place in the queue.\<close>

definition terminal_operation :: "session_row \<Rightarrow> terminal_op \<Rightarrow> controller \<Rightarrow> controller" where
  "terminal_operation session work s =
     (case findTerminal session s of
        None \<Rightarrow>
          finish_op (op_id work) (Fail NotConnected (Msg (case work of
            WriteOp op bs \<Rightarrow> ''Attach a session before sending terminal input.''
          | ResizeOp op cols rows \<Rightarrow> ''Attach a session before resizing the terminal.''))) s
      | Some u \<Rightarrow>
          let s1 = focus_terminal u s in
          suspend [] (OnTerminal (K_OpStart work u (channel_of (tm_pty (c_heap s1 u))) (tm_lastOp (c_heap s1 u))))
            (upd_terminal u (\<lambda>t. t\<lparr>tm_lastOp := Some (op_id work)\<rparr>) s1))"

definition op_started ::
    "conn_config \<Rightarrow> terminal_op \<Rightarrow> nat \<Rightarrow> string option \<Rightarrow> controller \<Rightarrow> controller" where
  "op_started cfg work u selected s =
     (let t = c_heap s u; sequence = tm_operationSequence t + 1;
          s1 = upd_terminal u (\<lambda>x. x\<lparr>tm_operationSequence := sequence\<rparr>) s in
      if channel_of (tm_pty t) \<noteq> selected then
        finish_op (op_id work) (Fail Superseded (Msg (case work of
            WriteOp op bs \<Rightarrow> ''The session PTY changed before terminal input was sent.''
          | ResizeOp op cols rows \<Rightarrow> ''The session PTY changed before terminal resize.''))) s
      else
        (case tm_pty t of
           Some pty \<Rightarrow>
             if u \<notin> set (c_open s) \<or> sn_phase (c_snap s) \<noteq> Live then
               finish_op (op_id work) (Fail NotConnected (Msg (case work of
                   WriteOp op bs \<Rightarrow> ''Attach a session before sending terminal input.''
                 | ResizeOp op cols rows \<Rightarrow> ''Attach a session before resizing the terminal.''))) s
             else
               (case work of
                  WriteOp op bs \<Rightarrow>
                    if bs = [] then finish_op op (Okay (SeqValue (tm_operationSequence t))) s
                    else await_call (WritePty pty sequence (bytesToBase64 bs))
                           (OnTerminal (K_OpAnswer work u pty sequence (fresh_id cfg s))) (use_id s1)
                | ResizeOp op cols rows \<Rightarrow>
                    if \<not> valid_dims cols rows
                    then finish_op op (Fail Failed (Msg ''Terminal dimensions must be between 1 and 1000.'')) s
                    else await_call (ResizePty pty sequence (int_of_num cols, int_of_num rows))
                           (OnTerminal (K_OpAnswer work u pty sequence (fresh_id cfg s))) (use_id s1))
         | None \<Rightarrow>
             finish_op (op_id work) (Fail NotConnected (Msg (case work of
                 WriteOp op bs \<Rightarrow> ''Attach a session before sending terminal input.''
               | ResizeOp op cols rows \<Rightarrow> ''Attach a session before resizing the terminal.''))) s))"

definition op_failed :: "terminal_op \<Rightarrow> nat \<Rightarrow> pty_ref \<Rightarrow> caught \<Rightarrow> controller \<Rightarrow> controller" where
  "op_failed work u pty e s =
     (if channel_of (tm_pty (c_heap s u)) \<noteq> Some (p_channelId pty) then
        finish_op (op_id work) (Fail Superseded (Msg (case work of
            WriteOp op bs \<Rightarrow> ''The session PTY changed while terminal input was sent.''
          | ResizeOp op cols rows \<Rightarrow> ''The session PTY changed while terminal resize ran.''))) s
      else
        let s1 = suspend [ClosePty pty] (OnTerminal (K_OpReport (op_id work) (Fail Failed (caught_text e))))
               (upd_terminal u (\<lambda>t. t\<lparr>tm_pty := None, tm_pumpToken := Suc (tm_pumpToken t)\<rparr>) s);
            s2 = set_snapshot (\<lambda>n. n\<lparr>sn_phase := live_or PhaseError s1, sn_error := Some (caught_text e)\<rparr>) s1 in
        (case work of
           WriteOp op bs \<Rightarrow>
             if isCurrentTransportFailure e \<or> caught_code e = ''OPERATION_UNCERTAIN''
             then startReconnect (Msg ''terminal input result was uncertain'') s2 else s2
         | ResizeOp op cols rows \<Rightarrow>
             if isCurrentTransportFailure e
             then startReconnect (Msg ''terminal resize observed a transport failure'') s2 else s2))"

definition op_answered ::
    "terminal_op \<Rightarrow> nat \<Rightarrow> pty_ref \<Rightarrow> int \<Rightarrow> string \<Rightarrow> native_answer \<Rightarrow> controller \<Rightarrow> controller" where
  "op_answered work u pty sequence rid ans s =
     (case ans of
        Threw t \<Rightarrow> op_failed work u pty (Native t) s
      | OperationIs r sq ch \<Rightarrow>
          if r \<noteq> rid \<or> sq \<noteq> sequence \<or> ch \<noteq> p_channelId pty
          then op_failed work u pty (Raised (Msg (case work of
                 WriteOp op bs \<Rightarrow> ''PTY write returned a stale operation.''
               | ResizeOp op cols rows \<Rightarrow> ''PTY resize returned a stale operation.''))) s
          else
            finish_op (op_id work) (Okay (SeqValue sequence))
              (case work of
                 WriteOp op bs \<Rightarrow> s
               | ResizeOp op cols rows \<Rightarrow>
                   (upd_terminal u (\<lambda>t. t\<lparr>tm_geometry := (int_of_num cols, int_of_num rows)\<rparr>) s)
                     \<lparr>c_geometry := (int_of_num cols, int_of_num rows)\<rparr>)
      | _ \<Rightarrow> s)"

text \<open>A queued operation runs when the operation before it in its queue has settled.\<close>

fun running_op :: "kont \<Rightarrow> nat option" where
  "running_op (OnTerminal (K_OpStart work u ch prev)) = Some (op_id work)"
| "running_op (OnTerminal (K_OpAnswer work u pty sq rid)) = Some (op_id work)"
| "running_op (OnTerminal (K_OpReport op r)) = Some op"
| "running_op _ = None"

definition op_pending :: "nat \<Rightarrow> controller \<Rightarrow> bool" where
  "op_pending op s = list_ex (\<lambda>t. running_op (snd t) = Some op) (c_tasks s)"

end
