(* ===== verification/Connection_Lifecycle.thy ===== *)
theory Connection_Lifecycle
  imports Connection_Terminals
begin

text \<open>
  The recovery ladder, the background lifecycle, closing, and the dispatch of events of
  \<open>ConnectionController\<close> (src/src/connectionController.ts). One \<open>conn_step\<close> is one reaction of the
  program.
\<close>

subsection \<open>The ladder\<close>

text \<open>The ladder function has returned; its \<open>finally\<close> runs later.\<close>

definition ladder_end :: "nat \<Rightarrow> controller \<Rightarrow> controller" where
  "ladder_end l s = suspend [] (OnLadder (K_LadderDone l)) s"

fun blank_text :: "status_text \<Rightarrow> bool" where
  "blank_text (Msg m) = (js_trim m = [])"
| "blank_text _ = False"

definition give_up :: "nat \<Rightarrow> ssh_target \<Rightarrow> controller \<Rightarrow> controller" where
  "give_up l host s =
     (if isCurrentConnect l s then
        let n = c_snap s;
            cause = (if \<not> c_lastDialRetryable s \<or> sn_gatewayFailure n \<noteq> None
                     then (case sn_error n of Some t \<Rightarrow> if blank_text t then None else Some t | None \<Rightarrow> None)
                     else None) in
        ladder_end l
          (set_snapshot (\<lambda>n. n\<lparr>sn_phase := Lost,
             sn_error := Some (GaveUp (t_hostname host) (sn_retryAttempt n) cause)\<rparr>) s)
      else ladder_end l s)"

definition ladder_dial ::
    "conn_config \<Rightarrow> nat \<Rightarrow> ssh_target \<Rightarrow> status_text \<Rightarrow> nat \<Rightarrow> controller \<Rightarrow> controller" where
  "ladder_dial cfg l host reason attempt s =
     (if \<not> isCurrentConnect l s then ladder_end l s
      else
        let s1 = set_snapshot (\<lambda>n. n\<lparr>sn_phase := Reconnecting, sn_retryAttempt := Suc attempt,
                   sn_error := Some reason\<rparr>) s;
            rid = fresh_id cfg s1 in
        dial cfg (ForLadder l host reason attempt rid) ((use_id s1)\<lparr>c_pendingConnect := Some rid\<rparr>))"

definition ladder_attempt ::
    "conn_config \<Rightarrow> nat \<Rightarrow> ssh_target \<Rightarrow> status_text \<Rightarrow> nat \<Rightarrow> controller \<Rightarrow> controller" where
  "ladder_attempt cfg l host reason attempt s =
     (if length (cfg_retryDelays cfg) \<le> attempt then give_up l host s
      else if 0 < attempt
      then await_call (Delay (cfg_retryDelays cfg ! attempt)) (OnLadder (K_LadderDelayed l host reason attempt)) s
      else ladder_dial cfg l host reason attempt s)"

definition ladder_released ::
    "conn_config \<Rightarrow> nat \<Rightarrow> ssh_target \<Rightarrow> status_text \<Rightarrow> controller \<Rightarrow> controller" where
  "ladder_released cfg l host reason s =
     (if \<not> isCurrentConnect l s then ladder_end l s else ladder_attempt cfg l host reason 0 s)"

definition ladder_delayed ::
    "conn_config \<Rightarrow> nat \<Rightarrow> ssh_target \<Rightarrow> status_text \<Rightarrow> nat \<Rightarrow> native_answer \<Rightarrow> controller \<Rightarrow> controller" where
  "ladder_delayed cfg l host reason attempt ans s =
     (case ans of Threw t \<Rightarrow> ladder_end l s | _ \<Rightarrow> ladder_dial cfg l host reason attempt s)"

definition ladder_dialled ::
    "conn_config \<Rightarrow> nat \<Rightarrow> ssh_target \<Rightarrow> status_text \<Rightarrow> nat \<Rightarrow> string \<Rightarrow> dial_result \<Rightarrow> controller \<Rightarrow> controller" where
  "ladder_dialled cfg l host reason attempt rid r s0 =
     (let s = clear_pending rid s0 in
      if \<not> isCurrentConnect l s then ladder_end l s
      else
        (case r of
           DialOk c \<Rightarrow> refreshSessions cfg (ListLadder l host reason attempt) s
         | DialFailed why m \<Rightarrow>
             if why = TrustRequired \<or> why = TrustMismatch then ladder_end l s
             else if \<not> c_lastDialRetryable s then give_up l host s
             else ladder_attempt cfg l host reason (Suc attempt) s))"

subsection \<open>Re-attaching every open terminal\<close>

fun drop_vanished ::
    "sessions_listing \<Rightarrow> nat list \<Rightarrow> session_row list \<Rightarrow> controller \<Rightarrow> controller \<times> session_row list" where
  "drop_vanished listing [] gone s = (s, gone)"
| "drop_vanished listing (u # us) gone s =
     (let session = tm_session (c_heap s u) in
      if find (\<lambda>row. sameSession row session) (l_sessions listing) = None
      then drop_vanished listing us (gone @ [session]) (removeTerminal u False s)
      else drop_vanished listing us gone s)"

definition reattach_done ::
    "nat \<Rightarrow> session_row option \<Rightarrow> status_text option \<Rightarrow> controller \<Rightarrow> controller" where
  "reattach_done l selected failure s =
     (let by_selected = (case selected of None \<Rightarrow> None | Some row \<Rightarrow> findTerminal row s);
          focus = (case by_selected of Some u \<Rightarrow> Some u
            | None \<Rightarrow> if c_open s = [] then None else Some (last (c_open s)));
          row = map_option (\<lambda>u. tm_session (c_heap s u)) focus in
      ladder_end l
        (if \<not> hasLiveTerminal s
         then set_snapshot (\<lambda>n. n\<lparr>sn_phase := (if c_open s = [] then Connected else PhaseError),
                sn_selected := row, sn_error := failure\<rparr>) s
         else set_snapshot (\<lambda>n. n\<lparr>sn_phase := Live, sn_selected := row, sn_error := failure,
                sn_retryAttempt := 0\<rparr>) s))"

fun reattach_next ::
    "nat \<Rightarrow> ssh_target \<Rightarrow> status_text \<Rightarrow> nat \<Rightarrow> connection_ref \<Rightarrow> sessions_listing \<Rightarrow> session_row option \<Rightarrow>
     nat list \<Rightarrow> status_text option \<Rightarrow> controller \<Rightarrow> controller" where
  "reattach_next l host reason attempt conn listing selected [] failure s =
     reattach_done l selected failure s"
| "reattach_next l host reason attempt conn listing selected (u # us) failure s =
     (if u \<notin> set (c_open s) then reattach_next l host reason attempt conn listing selected us failure s
      else
        let session = tm_session (c_heap s u);
            current = (case find (\<lambda>row. sameSession row session) (l_sessions listing) of
                         Some row \<Rightarrow> row | None \<Rightarrow> session) in
        openTerminal (OpenRecovery l host reason attempt conn listing selected us failure) u conn
          (upd_terminal u (\<lambda>t. t\<lparr>tm_session := current\<rparr>) s))"

definition reattachTerminals ::
    "conn_config \<Rightarrow> nat \<Rightarrow> ssh_target \<Rightarrow> status_text \<Rightarrow> nat \<Rightarrow> sessions_listing \<Rightarrow> controller \<Rightarrow> controller" where
  "reattachTerminals cfg l host reason attempt listing s =
     (let connected = (\<lambda>t. ladder_end l (set_snapshot (\<lambda>n. n\<lparr>sn_phase := Connected, sn_selected := None,
            sn_error := None, sn_retryAttempt := 0\<rparr>) t)) in
      case (c_connection s, c_hostCli s) of
        (Some conn, Some cli) \<Rightarrow>
          let selected = sn_selected (c_snap s) in
          if c_open s = [] then connected s
          else
            (let r = drop_vanished listing (c_open s) [] s; s1 = fst r; vanished = snd r in
             if c_open s1 = [] then
               (case vanished of
                  [] \<Rightarrow> connected s1
                | first # _ \<Rightarrow>
                    let gone = (case selected of
                          None \<Rightarrow> first
                        | Some sel \<Rightarrow> (case find (\<lambda>row. sameSession row sel) vanished of
                            Some row \<Rightarrow> row | None \<Rightarrow> first)) in
                    ladder_end l (set_snapshot (\<lambda>n. n\<lparr>sn_phase := Lost,
                      sn_error := Some (SessionGone (s_name gone) (t_hostname host))\<rparr>) s1))
             else
               reattach_next l host reason attempt conn listing selected (c_open s1) None
                 (set_snapshot (\<lambda>n. n\<lparr>sn_phase := Attaching, sn_error := None\<rparr>) s1))
      | _ \<Rightarrow> ladder_attempt cfg l host reason (Suc attempt) s)"

definition ladder_listed ::
    "conn_config \<Rightarrow> nat \<Rightarrow> ssh_target \<Rightarrow> status_text \<Rightarrow> nat \<Rightarrow> outcome \<Rightarrow> controller \<Rightarrow> controller" where
  "ladder_listed cfg l host reason attempt r s =
     (if \<not> isCurrentConnect l s then ladder_end l s
      else
        (case r of
           Okay (ListingValue listing) \<Rightarrow> reattachTerminals cfg l host reason attempt listing s
         | _ \<Rightarrow>
             if sn_phase (c_snap s) = Reconnecting then ladder_attempt cfg l host reason (Suc attempt) s
             else ladder_end l s))"

definition reattach_opened ::
    "nat \<Rightarrow> ssh_target \<Rightarrow> status_text \<Rightarrow> nat \<Rightarrow> connection_ref \<Rightarrow> sessions_listing \<Rightarrow> session_row option \<Rightarrow>
     nat list \<Rightarrow> status_text option \<Rightarrow> open_result \<Rightarrow> controller \<Rightarrow> controller" where
  "reattach_opened l host reason attempt conn listing selected us failure r s =
     (if \<not> isCurrentConnect l s then ladder_end l s
      else
        (case r of
           OpenFailed m \<Rightarrow>
             if mentions_transport m
             then suspend (map ClosePty (pty_list s)) (OnLadder (K_ReattachLost l host reason attempt)) (detachTerminals s)
             else reattach_next l host reason attempt conn listing selected us (Some (Msg m)) s
         | _ \<Rightarrow> reattach_next l host reason attempt conn listing selected us failure s))"

definition reattach_lost :: "nat \<Rightarrow> ssh_target \<Rightarrow> status_text \<Rightarrow> nat \<Rightarrow> controller \<Rightarrow> controller" where
  "reattach_lost l host reason attempt s =
     suspend (close_calls (c_connection s)) (OnLadder (K_ReattachClosed l host reason attempt)) (drop_connection s)"

definition open_returned :: "open_caller \<Rightarrow> nat \<Rightarrow> open_result \<Rightarrow> controller \<Rightarrow> controller" where
  "open_returned caller u r s =
     (case caller of
        OpenConsumer op \<Rightarrow>
          finish_op op
            (case r of
               Opened row \<Rightarrow> Okay (SessionValue row)
             | OpenSuperseded m \<Rightarrow> Fail Superseded m
             | OpenFailed m \<Rightarrow> Fail Failed (Msg m))
            (upd_terminal u (\<lambda>t. if tm_attaching t = Some op then t\<lparr>tm_attaching := None\<rparr> else t) s)
      | OpenRecovery l host reason attempt conn listing selected us failure \<Rightarrow>
          reattach_opened l host reason attempt conn listing selected us failure r s)"

subsection \<open>Explicit reconnect\<close>

definition reconnect_result :: "controller \<Rightarrow> outcome" where
  "reconnect_result s =
     (if c_connection s \<noteq> None \<and> sn_phase (c_snap s) \<noteq> Lost \<and> sn_phase (c_snap s) \<noteq> Reconnecting
      then Okay NoValue
      else Fail Failed (case sn_error (c_snap s) of Some m \<Rightarrow> m | None \<Rightarrow> Msg ''Reconnect failed.''))"

text \<open>Wait for the ladder that runs after \<open>reconnectAndAttach\<close>; without a host there is none.\<close>

definition join_ladder :: "nat \<Rightarrow> bool \<Rightarrow> controller \<Rightarrow> controller" where
  "join_ladder op retry s =
     (case c_reconnectTask s of
        Some l \<Rightarrow> suspend [] (OnLifecycle (K_Join l op retry)) s
      | None \<Rightarrow> finish_op op (if retry then reconnect_result s else Okay NoValue) s)"

definition reconnect :: "nat \<Rightarrow> controller \<Rightarrow> controller" where
  "reconnect op s =
     (if c_disposed s then finish_op op closed_error s
      else if c_host s = None
      then finish_op op (Fail NotConnected (Msg ''There is no host to reconnect to.'')) s
      else if c_reconnectTask s \<noteq> None then join_ladder op True s
      else if sn_phase (c_snap s) = Background
      then finish_op op (Fail Failed (Msg ''The connection is in background grace; it reconnects on return.'')) s
      else if c_connection s \<noteq> None \<and> sn_phase (c_snap s) \<in> USABLE_PHASES
      then finish_op op (reconnect_result s) s
      else join_ladder op True (reconnectAndAttach (Msg ''reconnect requested'') s))"

subsection \<open>Background and foreground\<close>

text \<open>\<open>None\<close> is a grace that is not a finite number.\<close>

definition enterBackground :: "conn_config \<Rightarrow> nat \<Rightarrow> int option \<Rightarrow> controller \<Rightarrow> controller" where
  "enterBackground cfg op graceMs s =
     (if c_disposed s then finish_op op closed_error s
      else
        (case c_connection s of
           None \<Rightarrow> finish_op op (Okay NoValue) s
         | Some conn \<Rightarrow>
             let requested = (case graceMs of Some g \<Rightarrow> g | None \<Rightarrow> 0);
                 grace = max 0 (min requested (cfg_maxGrace cfg));
                 deadline = c_clock s + grace in
             await_call (ScheduleClose conn deadline) (OnLifecycle (K_Scheduled op (fresh_id cfg s)))
               ((use_id s)\<lparr>c_grace := Some deadline\<rparr>)))"

definition scheduled :: "nat \<Rightarrow> string \<Rightarrow> native_answer \<Rightarrow> controller \<Rightarrow> controller" where
  "scheduled op rid ans s =
     (case ans of
        Threw t \<Rightarrow> finish_op op (Rejects (Native t)) s
      | Acked r \<Rightarrow>
          if r \<noteq> rid
          then finish_op op (Rejects (Raised (Msg ''SSH grace schedule returned a stale request.''))) s
          else finish_op op (Okay NoValue) (set_snapshot (\<lambda>n. n\<lparr>sn_phase := Background, sn_error := None\<rparr>) s)
      | _ \<Rightarrow> s)"

definition RECONNECT_DECLINED_MESSAGE :: status_text where
  "RECONNECT_DECLINED_MESSAGE =
     Msg ''The connection closed while PocketShell was in the background. Reconnect to resume.''"

definition releaseSpentConnection :: "nat \<Rightarrow> controller \<Rightarrow> controller" where
  "releaseSpentConnection op s =
     suspend (map ClosePty (pty_list s) @ close_calls (c_connection s)) (OnLifecycle (K_Released op))
       (drop_connection ((detachTerminals s)\<lparr>c_connectIntent := Suc (c_connectIntent s)\<rparr>))"

definition released :: "nat \<Rightarrow> controller \<Rightarrow> controller" where
  "released op s =
     finish_op op (Okay NoValue)
       (set_snapshot (\<lambda>n. n\<lparr>sn_phase := Lost, sn_connectionId := None, sn_generationId := None,
          sn_retryAttempt := 0, sn_error := Some RECONNECT_DECLINED_MESSAGE\<rparr>) s)"

definition fg_recover :: "nat \<Rightarrow> bool \<Rightarrow> status_text \<Rightarrow> controller \<Rightarrow> controller" where
  "fg_recover op again reason s =
     (if again then join_ladder op False (reconnectAndAttach reason s) else releaseSpentConnection op s)"

definition fg_spent :: "nat \<Rightarrow> bool \<Rightarrow> controller \<Rightarrow> controller" where
  "fg_spent op again s = fg_recover op again (Msg ''connection was spent during background grace'') s"

definition returnToForeground :: "conn_config \<Rightarrow> nat \<Rightarrow> bool \<Rightarrow> controller \<Rightarrow> controller" where
  "returnToForeground cfg op again s0 =
     (if c_disposed s0 then finish_op op closed_error s0
      else
        let s = s0\<lparr>c_grace := None\<rparr> in
        (case (c_host s0, c_grace s0) of
           (Some host, Some deadline) \<Rightarrow>
             (case c_connection s0 of
                None \<Rightarrow> fg_recover op again (Msg ''background grace expired'') s
              | Some conn \<Rightarrow>
                  if deadline \<le> c_clock s0 then fg_recover op again (Msg ''background grace expired'') s
                  else await_call (CancelScheduled conn)
                         (OnLifecycle (K_FgCancelled op conn (fresh_id cfg s) again)) (use_id s))
         | _ \<Rightarrow> finish_op op (Okay NoValue) s))"

definition fg_cancelled ::
    "conn_config \<Rightarrow> nat \<Rightarrow> connection_ref \<Rightarrow> string \<Rightarrow> bool \<Rightarrow> native_answer \<Rightarrow> controller \<Rightarrow> controller" where
  "fg_cancelled cfg op conn rid again ans s =
     (case ans of
        CancelledIs r c \<Rightarrow>
          if r \<noteq> rid then fg_spent op again s
          else await_call (GetState conn (fresh_id cfg s))
                 (OnLifecycle (K_FgState op conn (fresh_id cfg s) c again)) (use_id s)
      | _ \<Rightarrow> fg_spent op again s)"

text \<open>The transport survived: a terminal whose PTY closed meanwhile is gone.\<close>

fun drop_dead :: "nat list \<Rightarrow> controller \<Rightarrow> controller" where
  "drop_dead [] s = s"
| "drop_dead (u # us) s =
     drop_dead us
       (if tm_pty (c_heap s u) = None \<and> tm_attaching (c_heap s u) = None then removeTerminal u False s else s)"

definition fg_state ::
    "nat \<Rightarrow> string \<Rightarrow> bool \<Rightarrow> bool \<Rightarrow> native_answer \<Rightarrow> controller \<Rightarrow> controller" where
  "fg_state op rid cancelled again ans s =
     (case ans of
        StateIs r st \<Rightarrow>
          if r = rid \<and> cancelled \<and> st = StConnected then
            (let s1 = drop_dead (c_open s) s in
             finish_op op (Okay NoValue)
               (set_snapshot (\<lambda>n. n\<lparr>sn_phase := idlePhase s1, sn_error := None, sn_retryAttempt := 0\<rparr>) s1))
          else fg_spent op again s
      | _ \<Rightarrow> fg_spent op again s)"

subsection \<open>Closing\<close>

definition close :: "nat \<Rightarrow> controller \<Rightarrow> controller" where
  "close op s =
     (if c_disposed s then finish_op op (Okay NoValue) s
      else
        suspend (case c_pendingConnect s of None \<Rightarrow> [] | Some rid \<Rightarrow> [Cancel (CancelConnect rid)])
          (OnLifecycle (K_CloseCancelled op))
          (s\<lparr>c_disposed := True, c_connectIntent := Suc (c_connectIntent s), c_pendingConnect := None\<rparr>))"

definition close_cancelled :: "nat \<Rightarrow> controller \<Rightarrow> controller" where
  "close_cancelled op s =
     suspend (map ClosePty (pty_list s)) (OnLifecycle (K_CloseTerms op)) ((detachTerminals s)\<lparr>c_open := []\<rparr>)"

definition close_terms :: "nat \<Rightarrow> controller \<Rightarrow> controller" where
  "close_terms op s =
     suspend (close_calls (c_connection s)) (OnLifecycle (K_CloseTransport op)) (drop_connection s)"

definition close_transport :: "nat \<Rightarrow> controller \<Rightarrow> controller" where
  "close_transport op s =
     finish_op op (Okay NoValue)
       (set_snapshot (\<lambda>n. n\<lparr>sn_phase := Idle, sn_hostId := None, sn_hostLabel := None,
            sn_connectionId := None, sn_generationId := None, sn_sessions := [], sn_listErrors := [],
            sn_selected := None, sn_retryAttempt := 0, sn_error := None, sn_trust := None,
            sn_uncertain := None\<rparr>)
          (s\<lparr>c_host := None, c_grace := None\<rparr>))"

subsection \<open>Native events\<close>

definition onConnectionState :: "connection_ref \<Rightarrow> link_state \<Rightarrow> string option \<Rightarrow> controller \<Rightarrow> controller" where
  "onConnectionState ref st reason s =
     (if c_connection s \<noteq> Some ref then s
      else if st = StClosed \<and> reason = Some ''grace-expired'' \<and> sn_phase (c_snap s) = Background
      then set_snapshot (\<lambda>n. n\<lparr>sn_phase := Background, sn_connectionId := None, sn_error := None\<rparr>)
             (drop_connection (detachTerminals s))
      else if st = StLost
      then startReconnect (Msg (case reason of Some r \<Rightarrow> r | None \<Rightarrow> ''SSH transport lost'')) s
      else s)"

definition clearUncertainMutation :: "controller \<Rightarrow> controller" where
  "clearUncertainMutation s = set_snapshot (\<lambda>n. n\<lparr>sn_uncertain := None\<rparr>) s"

subsection \<open>Dispatch\<close>

text \<open>Which answers a suspended continuation can receive.\<close>

fun settles :: "native_answer \<Rightarrow> bool" where
  "settles Done = True" | "settles (Threw t) = True" | "settles _ = False"

fun is_threw :: "native_answer \<Rightarrow> bool" where "is_threw (Threw t) = True" | "is_threw _ = False"
fun is_state :: "native_answer \<Rightarrow> bool" where "is_state (StateIs r st) = True" | "is_state _ = False"
fun is_exec :: "native_answer \<Rightarrow> bool" where "is_exec (ExecIs r g res) = True" | "is_exec _ = False"

fun is_pin :: "native_answer \<Rightarrow> bool" where "is_pin (PinIs x) = True" | "is_pin _ = False"
fun is_connected :: "native_answer \<Rightarrow> bool" where "is_connected (ConnectedTo x) = True" | "is_connected _ = False"
fun is_opened :: "native_answer \<Rightarrow> bool" where "is_opened (OpenedPty x y) = True" | "is_opened _ = False"
fun is_read :: "native_answer \<Rightarrow> bool" where "is_read (ReadIs x) = True" | "is_read _ = False"
fun is_operation :: "native_answer \<Rightarrow> bool" where "is_operation (OperationIs x y z) = True" | "is_operation _ = False"
fun is_acked :: "native_answer \<Rightarrow> bool" where "is_acked (Acked x) = True" | "is_acked _ = False"
fun is_cancelled :: "native_answer \<Rightarrow> bool" where "is_cancelled (CancelledIs x y) = True" | "is_cancelled _ = False"

lemma is_pin_iff [simp]: "is_pin a \<longleftrightarrow> (\<exists>x. a = PinIs x)" by (cases a) simp_all
lemma is_connected_iff [simp]: "is_connected a \<longleftrightarrow> (\<exists>x. a = ConnectedTo x)" by (cases a) simp_all
lemma is_opened_iff [simp]: "is_opened a \<longleftrightarrow> (\<exists>x y. a = OpenedPty x y)" by (cases a) simp_all
lemma is_read_iff [simp]: "is_read a \<longleftrightarrow> (\<exists>x. a = ReadIs x)" by (cases a) simp_all
lemma is_operation_iff [simp]: "is_operation a \<longleftrightarrow> (\<exists>x y z. a = OperationIs x y z)" by (cases a) simp_all
lemma is_acked_iff [simp]: "is_acked a \<longleftrightarrow> (\<exists>x. a = Acked x)" by (cases a) simp_all
lemma is_cancelled_iff [simp]: "is_cancelled a \<longleftrightarrow> (\<exists>x y. a = CancelledIs x y)" by (cases a) simp_all

fun fits_connect :: "connect_kont \<Rightarrow> native_answer \<Rightarrow> bool" where
  "fits_connect (K_ConnReady op host intent rid) a = settles a"
| "fits_connect (K_ConnState op host intent rid srid) a = (is_threw a \<or> is_state a)"
| "fits_connect (K_Recorded op host) a = settles a"
| "fits_connect _ a = (a = Done)"

fun fits_dial :: "dial_kont \<Rightarrow> native_answer \<Rightarrow> bool" where
  "fits_dial (K_DialPin caller gen) a = (is_threw a \<or> is_pin a)"
| "fits_dial (K_DialConnected caller gen expected gateway) a = (is_threw a \<or> is_connected a)"
| "fits_dial _ a = (a = Done)"

fun fits_list :: "list_kont \<Rightarrow> native_answer \<Rightarrow> bool" where
  "fits_list (K_ListReturn caller r) a = (a = Done)"
| "fits_list _ a = (is_threw a \<or> is_exec a)"

fun fits_terminal :: "terminal_kont \<Rightarrow> native_answer \<Rightarrow> bool" where
  "fits_terminal (K_Opened caller u token conn session rid) a = (is_threw a \<or> is_opened a)"
| "fits_terminal (K_PumpRead u pty token rid) a = (is_threw a \<or> is_read a)"
| "fits_terminal (K_PumpOutput u pty token sq eof) a = settles a"
| "fits_terminal (K_EofProbe u pty token attempt rid) a = (is_threw a \<or> is_state a)"
| "fits_terminal (K_EofDelay u pty token attempt) a = settles a"
| "fits_terminal (K_OpAnswer work u pty sq rid) a = (is_threw a \<or> is_operation a)"
| "fits_terminal _ a = (a = Done)"

fun fits_lifecycle :: "lifecycle_kont \<Rightarrow> native_answer \<Rightarrow> bool" where
  "fits_lifecycle (K_Scheduled op rid) a = (is_threw a \<or> is_acked a)"
| "fits_lifecycle (K_FgCancelled op conn rid again) a = (is_threw a \<or> is_cancelled a)"
| "fits_lifecycle (K_FgState op conn rid c again) a = (is_threw a \<or> is_state a)"
| "fits_lifecycle _ a = (a = Done)"

fun fits :: "kont \<Rightarrow> native_answer \<Rightarrow> bool" where
  "fits (OnConnect k) a = fits_connect k a"
| "fits (OnDial k) a = fits_dial k a"
| "fits (OnLadder (K_LadderDelayed l host reason attempt)) a = settles a"
| "fits (OnList k) a = fits_list k a"
| "fits (OnTerminal k) a = fits_terminal k a"
| "fits (OnLifecycle k) a = fits_lifecycle k a"
| "fits _ a = (a = Done)"

text \<open>A wait for another promise: the ladder joined, the operation before in the queue.\<close>

fun ready :: "kont \<Rightarrow> controller \<Rightarrow> bool" where
  "ready (OnLifecycle (K_Join l op retry)) s = (c_reconnectTask s \<noteq> Some l)"
| "ready (OnTerminal (K_OpStart work u ch prev)) s =
     (case prev of None \<Rightarrow> True | Some p \<Rightarrow> \<not> op_pending p s)"
| "ready _ s = True"

fun run_connect :: "conn_config \<Rightarrow> connect_kont \<Rightarrow> native_answer \<Rightarrow> controller \<Rightarrow> controller" where
  "run_connect cfg (K_ConnReady op host intent rid) a s = conn_ready cfg op host intent rid a s"
| "run_connect cfg (K_ConnState op host intent rid srid) a s = conn_state op host intent rid srid a s"
| "run_connect cfg (K_ConnTermsClosed op host intent rid) a s = conn_terms_closed op host intent rid s"
| "run_connect cfg (K_ConnClosed op host intent rid) a s = conn_closed cfg op host intent rid s"
| "run_connect cfg (K_Recorded op host) a s = accept_recorded cfg op host a s"

fun run_dial :: "conn_config \<Rightarrow> dial_kont \<Rightarrow> native_answer \<Rightarrow> controller \<Rightarrow> controller" where
  "run_dial cfg (K_DialPin caller gen) a s = dial_pin caller gen a s"
| "run_dial cfg (K_DialConnected caller gen expected gateway) a s = dial_connected caller gen expected gateway a s"
| "run_dial cfg (K_DialAfter caller gen expected gateway after) a s = dial_after caller gen expected gateway after s"
| "run_dial cfg (K_DialReturn (ForConnect op host intent rid) r) a s = conn_dialled op intent rid r s"
| "run_dial cfg (K_DialReturn (ForLadder l host reason attempt rid) r) a s =
     ladder_dialled cfg l host reason attempt rid r s"

fun run_ladder :: "conn_config \<Rightarrow> ladder_kont \<Rightarrow> native_answer \<Rightarrow> controller \<Rightarrow> controller" where
  "run_ladder cfg (K_LadderReleased l host reason) a s = ladder_released cfg l host reason s"
| "run_ladder cfg (K_LadderDelayed l host reason attempt) a s = ladder_delayed cfg l host reason attempt a s"
| "run_ladder cfg (K_ReattachLost l host reason attempt) a s = reattach_lost l host reason attempt s"
| "run_ladder cfg (K_ReattachClosed l host reason attempt) a s = ladder_attempt cfg l host reason (Suc attempt) s"
| "run_ladder cfg (K_LadderDone l) a s = s\<lparr>c_reconnectTask := None\<rparr>"

fun run_list :: "conn_config \<Rightarrow> list_kont \<Rightarrow> native_answer \<Rightarrow> controller \<Rightarrow> controller" where
  "run_list cfg (K_ListAnswer caller conn rid) a s = list_answer cfg caller conn rid a s"
| "run_list cfg (K_ListReturn (ListUser op) r) a s = finish_op op r s"
| "run_list cfg (K_ListReturn (ListLadder l host reason attempt) r) a s =
     ladder_listed cfg l host reason attempt r s"
| "run_list cfg (K_ListReturn (ListReconcile op result) r) a s =
     finish_op op result
       (case r of Okay (ListingValue l) \<Rightarrow> reconcilePendingMutation l s | _ \<Rightarrow> s)"
| "run_list cfg (K_ProbeAnswer op conn rid) a s = probe_answer cfg op conn rid a s"
| "run_list cfg (K_MutationRan op req cli rid) a s = mutation_ran cfg op req cli rid a s"
| "run_list cfg (K_MutationListed op req cli rid v) a s = mutation_listed cfg op req cli rid v a s"
| "run_list cfg (K_HostCommand op conn rid) a s = host_command_answer op conn rid a s"

fun run_terminal :: "conn_config \<Rightarrow> terminal_kont \<Rightarrow> native_answer \<Rightarrow> controller \<Rightarrow> controller" where
  "run_terminal cfg (K_OpenPrev caller u token conn session) a s = open_prev cfg caller u token conn session s"
| "run_terminal cfg (K_Opened caller u token conn session rid) a s = open_answer cfg caller u token conn session rid a s"
| "run_terminal cfg (K_OpenReturn caller u r) a s = open_returned caller u r s"
| "run_terminal cfg (K_PumpRead u pty token rid) a s = pump_read cfg u pty token rid a s"
| "run_terminal cfg (K_PumpOutput u pty token sq eof) a s = pump_output cfg u pty token sq eof a s"
| "run_terminal cfg (K_EofProbe u pty token attempt rid) a s = eof_probed u pty token attempt rid a s"
| "run_terminal cfg (K_EofDelay u pty token attempt) a s = eof_delayed cfg u pty token attempt a s"
| "run_terminal cfg (K_OpStart work u ch prev) a s = op_started cfg work u ch s"
| "run_terminal cfg (K_OpAnswer work u pty sq rid) a s = op_answered work u pty sq rid a s"
| "run_terminal cfg (K_OpReport op r) a s = finish_op op r s"

fun run_lifecycle :: "conn_config \<Rightarrow> lifecycle_kont \<Rightarrow> native_answer \<Rightarrow> controller \<Rightarrow> controller" where
  "run_lifecycle cfg (K_Scheduled op rid) a s = scheduled op rid a s"
| "run_lifecycle cfg (K_FgCancelled op conn rid again) a s = fg_cancelled cfg op conn rid again a s"
| "run_lifecycle cfg (K_FgState op conn rid c again) a s = fg_state op rid c again a s"
| "run_lifecycle cfg (K_Released op) a s = released op s"
| "run_lifecycle cfg (K_CloseCancelled op) a s = close_cancelled op s"
| "run_lifecycle cfg (K_CloseTerms op) a s = close_terms op s"
| "run_lifecycle cfg (K_CloseTransport op) a s = close_transport op s"
| "run_lifecycle cfg (K_Join l op retry) a s =
     finish_op op (if retry then reconnect_result s else Okay NoValue) s"

fun run_kont :: "conn_config \<Rightarrow> kont \<Rightarrow> native_answer \<Rightarrow> controller \<Rightarrow> controller" where
  "run_kont cfg Forget a s = s"
| "run_kont cfg (Report op r) a s = finish_op op r s"
| "run_kont cfg (OnConnect k) a s = run_connect cfg k a s"
| "run_kont cfg (OnDial k) a s = run_dial cfg k a s"
| "run_kont cfg (OnLadder k) a s = run_ladder cfg k a s"
| "run_kont cfg (OnList k) a s = run_list cfg k a s"
| "run_kont cfg (OnTerminal k) a s = run_terminal cfg k a s"
| "run_kont cfg (OnLifecycle k) a s = run_lifecycle cfg k a s"

text \<open>
  The answer of the call in flight of one task: an ignored call lets the next one start, the
  awaited one runs the continuation. An answer the task cannot receive changes nothing.
\<close>

definition drop_nth :: "nat \<Rightarrow> 'a list \<Rightarrow> 'a list" where
  "drop_nth n xs = take n xs @ drop (Suc n) xs"

definition resume :: "conn_config \<Rightarrow> nat \<Rightarrow> native_answer \<Rightarrow> controller \<Rightarrow> controller" where
  "resume cfg n a s =
     (if length (c_tasks s) \<le> n then s
      else
        (case c_tasks s ! n of
           (c # cs, k) \<Rightarrow>
             s\<lparr>c_tasks := (c_tasks s)[n := (cs, k)], c_calls := (case cs of [] \<Rightarrow> [] | d # _ \<Rightarrow> [d]) @ c_calls s\<rparr>
         | ([], k) \<Rightarrow>
             if fits k a \<and> ready k s then run_kont cfg k a (s\<lparr>c_tasks := drop_nth n (c_tasks s)\<rparr>) else s))"

datatype conn_event =
    DoConnect ssh_target
  | DoAccept js bool
  | DoRefresh
  | DoProbe
  | DoMutate mutation_request
  | DoAttach session_row "(jsnum \<times> jsnum) option"
  | DoFocus session_row
  | DoDetach session_row
  | DoExec string int
  | DoReconnect
  | DoBackground "int option"
  | DoForeground bool
  | DoClose
  | DoWrite session_row bytes
  | DoResize session_row jsnum jsnum
  | DoClearUncertain
  | StateEvent connection_ref link_state "string option"
  | Resume nat native_answer

fun handle :: "conn_config \<Rightarrow> nat \<Rightarrow> conn_event \<Rightarrow> controller \<Rightarrow> controller" where
  "handle cfg op (DoConnect host) s = connect cfg op host s"
| "handle cfg op (DoAccept passphrase persist) s = acceptPresentedHostKey cfg op passphrase persist s"
| "handle cfg op DoRefresh s = refreshSessions cfg (ListUser op) s"
| "handle cfg op DoProbe s = probeSessions cfg op s"
| "handle cfg op (DoMutate req) s = mutate cfg op req s"
| "handle cfg op (DoAttach session g) s = attachSession cfg op session g s"
| "handle cfg op (DoFocus session) s = focusSession session s"
| "handle cfg op (DoDetach session) s = detachSession op session s"
| "handle cfg op (DoExec command timeout) s = runHostCommand cfg op command timeout s"
| "handle cfg op DoReconnect s = reconnect op s"
| "handle cfg op (DoBackground grace) s = enterBackground cfg op grace s"
| "handle cfg op (DoForeground again) s = returnToForeground cfg op again s"
| "handle cfg op DoClose s = close op s"
| "handle cfg op (DoWrite session bs) s = terminal_operation session (WriteOp op bs) s"
| "handle cfg op (DoResize session cols rows) s = terminal_operation session (ResizeOp op cols rows) s"
| "handle cfg op DoClearUncertain s = clearUncertainMutation s"
| "handle cfg op (StateEvent ref st reason) s = onConnectionState ref st reason s"
| "handle cfg op (Resume n a) s = resume cfg n a s"

text \<open>One reaction at a given time. A consumer call gets the next operation number.\<close>

definition conn_step :: "conn_config \<Rightarrow> controller \<Rightarrow> int \<times> conn_event \<Rightarrow> controller" where
  "conn_step cfg s e =
     handle cfg (c_nextOp s) (snd e) (s\<lparr>c_clock := fst e, c_nextOp := Suc (c_nextOp s)\<rparr>)"

end
