(* ===== verification/Connection_Reaction.thy ===== *)
theory Connection_Reaction
  imports Connection_Lifecycle
begin

text \<open>
  How a predicate on the controller's state is carried through a reaction. The locale
  \<open>reaction\<close> is the contract: which primitive updates keep the predicate, and which suspended
  continuations may be left behind. Its lemmas, one per segment of the program, hold for every
  predicate that meets the contract; the invariants of the controller are interpretations.
\<close>

subsection \<open>Kinds of continuations\<close>

fun dial_ladder :: "dial_caller \<Rightarrow> nat option" where
  "dial_ladder (ForLadder l host reason attempt rid) = Some l"
| "dial_ladder _ = None"

fun list_ladder :: "list_caller \<Rightarrow> nat option" where
  "list_ladder (ListLadder l host reason attempt) = Some l"
| "list_ladder _ = None"

fun open_ladder :: "open_caller \<Rightarrow> nat option" where
  "open_ladder (OpenRecovery l host reason attempt conn listing sel us failure) = Some l"
| "open_ladder _ = None"

text \<open>The recovery ladder a continuation belongs to.\<close>

fun ladder_of :: "kont \<Rightarrow> nat option" where
  "ladder_of (OnDial (K_DialPin caller gen)) = dial_ladder caller"
| "ladder_of (OnDial (K_DialConnected caller gen e g)) = dial_ladder caller"
| "ladder_of (OnDial (K_DialAfter caller gen e g af)) = dial_ladder caller"
| "ladder_of (OnDial (K_DialReturn caller r)) = dial_ladder caller"
| "ladder_of (OnLadder (K_LadderReleased l host reason)) = Some l"
| "ladder_of (OnLadder (K_LadderDelayed l host reason attempt)) = Some l"
| "ladder_of (OnLadder (K_ReattachLost l host reason attempt)) = Some l"
| "ladder_of (OnLadder (K_ReattachClosed l host reason attempt)) = Some l"
| "ladder_of (OnLadder (K_LadderDone l)) = Some l"
| "ladder_of (OnList (K_ListAnswer caller conn rid)) = list_ladder caller"
| "ladder_of (OnList (K_ListReturn caller r)) = list_ladder caller"
| "ladder_of (OnTerminal (K_OpenPrev caller u token conn session)) = open_ladder caller"
| "ladder_of (OnTerminal (K_Opened caller u token conn session rid)) = open_ladder caller"
| "ladder_of (OnTerminal (K_OpenReturn caller u r)) = open_ladder caller"
| "ladder_of _ = None"

text \<open>A dial that waits for the trust store, or for the platform with the key it expects.\<close>

fun dialled :: "kont \<Rightarrow> bool" where
  "dialled (OnDial (K_DialPin caller gen)) = True"
| "dialled (OnDial (K_DialConnected caller gen e g)) = True"
| "dialled _ = False"

text \<open>
  What a dial may adopt a connection for: the answer of the platform to this very dial, with a host
  key that reads, and the platform's receipt on a gateway dial or the expected pin recognising the
  presented key on an ordinary one.
\<close>

definition justified ::
    "dial_caller \<Rightarrow> string \<Rightarrow> trust_pin option \<Rightarrow> bool \<Rightarrow> native_answer \<Rightarrow> connection_ref \<Rightarrow> adoption \<Rightarrow> bool" where
  "justified caller gen expected gateway a conn why \<longleftrightarrow>
     (\<exists>r key. a = ConnectedTo r \<and> conn = cr_ref r \<and> cr_requestId r = caller_request caller
        \<and> generationId conn = gen \<and> readPresentedKey (cr_hostKey r) = Some key
        \<and> (if gateway then cr_verified r \<and> why = ByReceipt conn (caller_host caller) True
           else (\<exists>pin. why = ByPin conn (caller_host caller) pin key \<and> expected = Some pin
                  \<and> verifyHostKeyTrustPin (Some pin) key = Trusted)))"

subsection \<open>The contract\<close>

locale reaction =
  fixes P Q :: "controller \<Rightarrow> bool"
    and fin :: "kont \<Rightarrow> bool"
  assumes snapshot: "P s \<Longrightarrow> P (set_snapshot f s)"
    and selected: "P s \<Longrightarrow> P (removeTerminal u keep s)"
    and terminal_upd: "P s \<Longrightarrow> P (upd_terminal u g s)"
    and detach: "P s \<Longrightarrow> P (detachTerminals s)"
    and detach_all: "P s \<Longrightarrow> P ((detachTerminals s)\<lparr>c_open := []\<rparr>)"
    and drop: "P s \<Longrightarrow> P (drop_connection s)"
    and finish: "P s \<Longrightarrow> P (finish_op op r s)"
    and ids: "P s \<Longrightarrow> P (use_id s)"
    and retryable: "P s \<Longrightarrow> P (s\<lparr>c_lastDialRetryable := b\<rparr>)"
    and pending: "P s \<Longrightarrow> P (s\<lparr>c_pendingConnect := p\<rparr>)"
    and geometry: "P s \<Longrightarrow> P (s\<lparr>c_geometry := gm\<rparr>)"
    and focus: "P s \<Longrightarrow> P (s\<lparr>c_focusClock := n\<rparr>)"
    and grace: "P s \<Longrightarrow> P (s\<lparr>c_grace := d\<rparr>)"
    and suspend_plain: "ladder_of k = None \<Longrightarrow> \<not> dialled k \<Longrightarrow> P s \<Longrightarrow> P (suspend cs k s)"
    and await_plain: "ladder_of k = None \<Longrightarrow> \<not> dialled k \<Longrightarrow> P s \<Longrightarrow> P (await_call c k s)"
    and suspend_fin: "fin k \<Longrightarrow> P s \<Longrightarrow> Q (suspend cs k s)"
    and await_fin: "fin k \<Longrightarrow> P s \<Longrightarrow> Q (await_call c k s)"
    and recover: "P s \<Longrightarrow> P (reconnectAndAttach reason s)"
begin

lemma start: "P s \<Longrightarrow> P (startReconnect reason s)"
  by (simp add: startReconnect_def recover)

lemmas prims = snapshot selected terminal_upd detach detach_all drop finish ids retryable pending
  geometry focus grace suspend_plain await_plain start

lemma forget: "P s \<Longrightarrow> P (forget_close p s)"
  by (auto simp: forget_close_def intro!: prims split: option.splits)

lemma focus_terminal: "P s \<Longrightarrow> P (focus_terminal u s)"
  by (auto simp: focus_terminal_def intro!: prims)

lemma evicts: "P s \<Longrightarrow> P (evict k bound s)"
proof (induction k arbitrary: s)
  case (Suc k)
  then show ?case by (auto intro!: Suc.IH prims forget split: option.splits)
qed simp

lemma drops_dead: "P s \<Longrightarrow> P (drop_dead us s)"
proof (induction us arbitrary: s)
  case (Cons u us)
  then show ?case by (auto intro!: Cons.IH prims)
qed simp

lemma drops_vanished: "P s \<Longrightarrow> P (fst (drop_vanished listing us gone s))"
proof (induction us arbitrary: s gone)
  case (Cons u us)
  then show ?case by (auto simp: Let_def intro!: Cons.IH prims)
qed simp

lemma reconcile: "P s \<Longrightarrow> P (reconcilePendingMutation l s)"
  by (auto simp: reconcilePendingMutation_def intro!: prims split: option.splits)

lemma cleared: "P s \<Longrightarrow> P (clear_pending rid s)"
  by (auto simp: clear_pending_def intro!: prims)

lemmas more_prims = prims forget focus_terminal evicts drops_dead drops_vanished reconcile cleared

subsection \<open>Segments that end in their caller\<close>

lemma dial_returns:
  "(\<And>r. fin (OnDial (K_DialReturn caller r))) \<Longrightarrow> P s \<Longrightarrow> Q (dial_return caller r s)"
  by (auto simp: dial_return_def intro!: suspend_fin)

lemma presents:
  "(\<And>r. fin (OnDial (K_DialReturn caller r))) \<Longrightarrow> P s \<Longrightarrow>
   Q (presentHostKeyDecision caller gen previous presented v s)"
  by (auto simp: presentHostKeyDecision_def Let_def intro!: dial_returns prims)

lemma fails_gateway:
  "(\<And>r. fin (OnDial (K_DialReturn caller r))) \<Longrightarrow> P s \<Longrightarrow> Q (failGatewayDial caller gen e s)"
  unfolding failGatewayDial_def Let_def by (intro dial_returns prims)

lemma catches:
  "(\<And>r. fin (OnDial (K_DialReturn caller r))) \<Longrightarrow> P s \<Longrightarrow> Q (dial_caught caller gen expected gateway e s)"
  unfolding dial_caught_def Let_def
  by (auto intro!: dial_returns prims fails_gateway presents split: option.splits)

lemma dial_afters:
  "(\<And>r. fin (OnDial (K_DialReturn caller r))) \<Longrightarrow> P s \<Longrightarrow> Q (dial_after caller gen expected gateway af s)"
  unfolding dial_after_def
  by (auto intro!: dial_returns catches presents split: after_close.splits)

lemma list_returns:
  "(\<And>r. fin (OnList (K_ListReturn caller r))) \<Longrightarrow> P s \<Longrightarrow> Q (list_return caller r s)"
  by (auto simp: list_return_def intro!: suspend_fin)

lemma refreshes:
  "(\<And>r. fin (OnList (K_ListReturn caller r))) \<Longrightarrow> (\<And>conn rid. fin (OnList (K_ListAnswer caller conn rid))) \<Longrightarrow>
   P s \<Longrightarrow> Q (refreshSessions cfg caller s)"
  unfolding refreshSessions_def exec_call_def
  by (auto intro!: list_returns await_fin prims split: option.splits)

lemma lists_fail:
  "(\<And>r. fin (OnList (K_ListReturn caller r))) \<Longrightarrow> P s \<Longrightarrow> Q (list_failed caller conn e s)"
  unfolding list_failed_def Let_def by (auto intro!: list_returns prims)

lemma list_answers:
  "(\<And>r. fin (OnList (K_ListReturn caller r))) \<Longrightarrow> P s \<Longrightarrow> is_threw a \<or> is_exec a \<Longrightarrow>
   Q (list_answer cfg caller conn rid a s)"
  unfolding list_answer_def show_listing_def
  by (cases a) (auto simp: exec_answer_def intro!: list_returns lists_fail more_prims split: sum.splits)

lemma open_returns:
  "(\<And>r. fin (OnTerminal (K_OpenReturn caller u r))) \<Longrightarrow> P s \<Longrightarrow> Q (open_return caller u r s)"
  by (auto simp: open_return_def intro!: suspend_fin)

lemma opens:
  "(\<And>token conn session. fin (OnTerminal (K_OpenPrev caller u token conn session))) \<Longrightarrow> P s \<Longrightarrow>
   Q (openTerminal caller u conn s)"
  unfolding openTerminal_def Let_def by (auto intro!: suspend_fin prims)

lemma open_prevs:
  "(\<And>r. fin (OnTerminal (K_OpenReturn caller u r))) \<Longrightarrow>
   (\<And>rid. fin (OnTerminal (K_Opened caller u token conn session rid))) \<Longrightarrow> P s \<Longrightarrow>
   Q (open_prev cfg caller u token conn session s)"
  unfolding open_prev_def by (auto intro!: open_returns await_fin prims)

lemma pump_loops: "P s \<Longrightarrow> P (pump_loop cfg u pty token s)"
  unfolding pump_loop_def by (auto intro!: prims)

lemma pump_starts: "P s \<Longrightarrow> P (startPtyPump cfg u s)"
  unfolding startPtyPump_def Let_def by (auto intro!: prims pump_loops split: option.splits)

lemma open_fails:
  "(\<And>r. fin (OnTerminal (K_OpenReturn caller u r))) \<Longrightarrow> P s \<Longrightarrow>
   Q (open_failed caller u token conn e message s)"
  unfolding open_failed_def Let_def by (auto intro!: open_returns prims)

lemma open_answers:
  "(\<And>r. fin (OnTerminal (K_OpenReturn caller u r))) \<Longrightarrow> P s \<Longrightarrow> is_threw a \<or> (\<exists>r p. a = OpenedPty r p) \<Longrightarrow>
   Q (open_answer cfg caller u token conn session rid a s)"
  unfolding open_answer_def install_pty_def Let_def
  by (cases a) (auto intro!: open_fails open_returns suspend_fin prims pump_starts)

subsection \<open>Segments that end by themselves\<close>

lemma conn_finishes: "P s \<Longrightarrow> P (conn_finish op rid r s)"
  by (auto simp: conn_finish_def intro!: prims cleared)

lemma conn_terminals: "P s \<Longrightarrow> P (conn_close_terminals op host intent rid s)"
  by (auto simp: conn_close_terminals_def intro!: prims)

lemma conn_readies: "P s \<Longrightarrow> P (conn_ready cfg op host intent rid a s)"
  unfolding conn_ready_def
  by (auto intro!: prims conn_finishes conn_terminals split: native_answer.splits option.splits)

lemma conn_states: "P s \<Longrightarrow> P (conn_state op host intent rid srid a s)"
  unfolding conn_state_def by (auto intro!: conn_finishes conn_terminals split: native_answer.splits)

lemma conn_terms: "P s \<Longrightarrow> P (conn_terms_closed op host intent rid s)"
  by (auto simp: conn_terms_closed_def intro!: prims)

lemma conn_dials: "P s \<Longrightarrow> P (conn_dialled op intent rid r s)"
  unfolding conn_dialled_def by (auto intro!: conn_finishes prims split: dial_result.splits)

lemma probes: "P s \<Longrightarrow> P (probeSessions cfg op s)"
  unfolding probeSessions_def exec_call_def by (auto intro!: prims split: option.splits)

lemma probe_answers: "P s \<Longrightarrow> P (probe_answer cfg op conn rid a s)"
  unfolding probe_answer_def by (auto intro!: prims split: option.splits sum.splits)

lemma mutates: "P s \<Longrightarrow> P (mutate cfg op req s)"
  unfolding mutate_def exec_call_def by (auto intro!: prims split: option.splits)

lemma host_commands: "P s \<Longrightarrow> P (runHostCommand cfg op command timeout s)"
  unfolding runHostCommand_def exec_call_def by (auto intro!: prims split: option.splits)

lemma host_command_answers: "P s \<Longrightarrow> P (host_command_answer op conn rid a s)"
  unfolding host_command_answer_def by (auto intro!: prims split: option.splits sum.splits)

lemma focuses: "P s \<Longrightarrow> P (focusSession session s)"
  unfolding focusSession_def by (auto intro!: focus_terminal split: option.splits)

lemma detaches: "P s \<Longrightarrow> P (detachSession op session s)"
  unfolding detachSession_def Let_def by (auto intro!: prims split: option.splits)

lemma pump_fails: "P s \<Longrightarrow> P (pump_failed u pty token e s)"
  unfolding pump_failed_def Let_def by (auto intro!: prims forget)

lemma eof_losts: "P s \<Longrightarrow> P (eof_lost u token s)"
  unfolding eof_lost_def by (auto intro!: prims)

lemma eof_ends: "P s \<Longrightarrow> P (eof_ended u pty token s)"
  unfolding eof_ended_def Let_def by (auto intro!: prims)

lemma eof_probes: "P s \<Longrightarrow> P (eof_probe cfg u pty token attempt s)"
  unfolding eof_probe_def by (auto intro!: prims eof_losts split: option.splits)

lemma eof_agains: "P s \<Longrightarrow> P (eof_again u pty token attempt s)"
  unfolding eof_again_def by (auto intro!: prims eof_ends)

lemma eof_probeds: "P s \<Longrightarrow> P (eof_probed u pty token attempt rid a s)"
  unfolding eof_probed_def by (auto intro!: eof_agains eof_ends eof_losts split: native_answer.splits)

lemma eof_delays: "P s \<Longrightarrow> P (eof_delayed cfg u pty token attempt a s)"
  unfolding eof_delayed_def by (auto intro!: pump_fails eof_probes split: native_answer.splits)

lemma pump_afters: "P s \<Longrightarrow> P (pump_after cfg u pty token eof s)"
  unfolding pump_after_def Let_def by (auto intro!: pump_loops eof_probes prims)

lemma pump_reads: "P s \<Longrightarrow> P (pump_read cfg u pty token rid a s)"
  unfolding pump_read_def Let_def
  by (auto intro!: pump_fails pump_afters prims split: native_answer.splits option.splits)

lemma pump_outputs: "P s \<Longrightarrow> P (pump_output cfg u pty token seq eof a s)"
  unfolding pump_output_def by (auto intro!: pump_fails pump_afters prims split: native_answer.splits)

lemma operations: "P s \<Longrightarrow> P (terminal_operation session work s)"
  unfolding terminal_operation_def Let_def by (auto intro!: prims focus_terminal split: option.splits)

lemma op_starts: "P s \<Longrightarrow> P (op_started cfg work u selected s)"
  unfolding op_started_def Let_def by (auto intro!: prims split: option.splits terminal_op.splits)

lemma op_fails: "P s \<Longrightarrow> P (op_failed work u pty e s)"
  unfolding op_failed_def Let_def by (auto intro!: prims split: terminal_op.splits)

lemma op_answers: "P s \<Longrightarrow> P (op_answered work u pty sq rid a s)"
  unfolding op_answered_def by (auto intro!: prims op_fails split: native_answer.splits terminal_op.splits)

lemma joins: "P s \<Longrightarrow> P (join_ladder op retry s)"
  unfolding join_ladder_def by (auto intro!: prims split: option.splits)

lemma backgrounds: "P s \<Longrightarrow> P (enterBackground cfg op g s)"
  unfolding enterBackground_def Let_def by (auto intro!: prims split: option.splits)

lemma schedules: "P s \<Longrightarrow> P (scheduled op rid a s)"
  unfolding scheduled_def by (auto intro!: prims split: native_answer.splits)

lemma releases: "P s \<Longrightarrow> P (released op s)"
  unfolding released_def by (auto intro!: prims)

lemma close_cancels: "P s \<Longrightarrow> P (close_cancelled op s)"
  unfolding close_cancelled_def by (auto intro!: prims)

lemma close_terminals: "P s \<Longrightarrow> P (close_terms op s)"
  unfolding close_terms_def by (auto intro!: prims)

lemma state_events: "P s \<Longrightarrow> P (onConnectionState ref st reason s)"
  unfolding onConnectionState_def by (auto intro!: prims)

lemma clears_uncertain: "P s \<Longrightarrow> P (clearUncertainMutation s)"
  unfolding clearUncertainMutation_def by (auto intro!: prims)

subsection \<open>The ladder\<close>

lemma ladder_ends: "fin (OnLadder (K_LadderDone l)) \<Longrightarrow> P s \<Longrightarrow> Q (ladder_end l s)"
  by (auto simp: ladder_end_def intro!: suspend_fin)

lemma gives_up: "fin (OnLadder (K_LadderDone l)) \<Longrightarrow> P s \<Longrightarrow> Q (give_up l host s)"
  unfolding give_up_def Let_def by (auto intro!: ladder_ends prims)

lemma reattach_dones: "fin (OnLadder (K_LadderDone l)) \<Longrightarrow> P s \<Longrightarrow> Q (reattach_done l sel failure s)"
  unfolding reattach_done_def Let_def by (auto intro!: ladder_ends prims)

lemma reattach_nexts:
  "fin (OnLadder (K_LadderDone l)) \<Longrightarrow>
   (\<And>u us f token conn' session.
      fin (OnTerminal (K_OpenPrev (OpenRecovery l host reason attempt conn listing sel us f) u token conn' session))) \<Longrightarrow>
   P s \<Longrightarrow> Q (reattach_next l host reason attempt conn listing sel us failure s)"
  by (induction us) (auto simp: Let_def intro!: reattach_dones opens prims)

lemma reattach_opens:
  "fin (OnLadder (K_LadderDone l)) \<Longrightarrow> fin (OnLadder (K_ReattachLost l host reason attempt)) \<Longrightarrow>
   (\<And>u us f token conn' session.
      fin (OnTerminal (K_OpenPrev (OpenRecovery l host reason attempt conn listing sel us f) u token conn' session))) \<Longrightarrow>
   P s \<Longrightarrow> Q (reattach_opened l host reason attempt conn listing sel us failure r s)"
  unfolding reattach_opened_def
  by (auto intro!: ladder_ends suspend_fin prims reattach_nexts split: open_result.splits)

lemma reattach_losts:
  "fin (OnLadder (K_ReattachClosed l host reason attempt)) \<Longrightarrow> P s \<Longrightarrow>
   Q (reattach_lost l host reason attempt s)"
  unfolding reattach_lost_def by (auto intro!: suspend_fin prims)

subsection \<open>Dialling\<close>

lemma admitted_target:
  "hasGatewayMarker (t_extra host) \<Longrightarrow> gatewayAdmission cfg host = Admitted \<Longrightarrow>
   \<exists>t. normalizeGatewayTarget (cfg_url cfg) (get_prop (t_extra host) ''gateway'') = Some t"
  by (auto simp: gatewayAdmission_def unsupportedTransport_def Let_def split: if_splits)

lemma dials:
  assumes "\<And>r. fin (OnDial (K_DialReturn caller r))" and "\<And>gen. \<not> hasGatewayMarker (t_extra (caller_host caller)) \<Longrightarrow> fin (OnDial (K_DialPin caller gen))"
    and "\<And>gen. hasGatewayMarker (t_extra (caller_host caller)) \<Longrightarrow> fin (OnDial (K_DialConnected caller gen None True))"
    and "P s"
  shows "Q (dial cfg caller s)"
proof -
  let ?gen = "fresh_id cfg s"
  let ?s1 = "set_snapshot (\<lambda>n. n\<lparr>sn_phase := Connecting, sn_generationId := Some ?gen, sn_error := None\<rparr>)
                 ((use_id s)\<lparr>c_lastDialRetryable := True\<rparr>)"
  have p: "P ?s1" using assms(4) by (intro prims)
  show ?thesis
  proof (cases "hasGatewayMarker (t_extra (caller_host caller))")
    case False
    with p assms(2) show ?thesis by (simp add: dial_def Let_def await_fin)
  next
    case True
    show ?thesis
    proof (cases "gatewayAdmission cfg (caller_host caller)")
      case Admitted
      with True p assms(1,3) show ?thesis
        using admitted_target [OF True Admitted]
        by (auto simp: dial_def Let_def connect_call_def intro!: await_fin dial_returns)
    next
      case (Refused reason name)
      with True p assms(1) show ?thesis by (simp add: dial_def Let_def catches)
    qed
  qed
qed

lemma dial_connecteds:
  assumes fin: "\<And>r. fin (OnDial (K_DialReturn caller r))" "\<And>af. fin (OnDial (K_DialAfter caller gen expected gateway af))"
    and p: "P s" and a: "is_threw a \<or> (\<exists>r. a = ConnectedTo r)"
    and adopts: "\<And>conn why. isCurrentConnect (caller_intent caller) s \<Longrightarrow>
      justified caller gen expected gateway a conn why \<Longrightarrow>
      P (s\<lparr>c_connection := Some conn, c_hostCli := Some conn, c_adopted := why # c_adopted s\<rparr>)"
  shows "Q (dial_connected caller gen expected gateway a s)"
proof -
  have adopt: "Q (adopt caller gen conn why s)"
    if "isCurrentConnect (caller_intent caller) s" "justified caller gen expected gateway a conn why" for conn why
    unfolding adopt_def using that adopts by (intro dial_returns fin snapshot)
  have closing: "e = expected \<Longrightarrow> g = gateway \<Longrightarrow> Q (close_returned c caller gen e g af s)" for c e g af
    unfolding close_returned_def by (rule suspend_fin) (simp_all add: fin p)
  show ?thesis
  proof (cases a)
    case (Threw t)
    with fin(1) p show ?thesis by (simp add: dial_connected_def catches)
  next
    case (ConnectedTo r)
    show ?thesis
    proof (cases "\<not> isCurrentConnect (caller_intent caller) s \<or> cr_requestId r \<noteq> caller_request caller
        \<or> generationId (cr_ref r) \<noteq> gen \<or> readPresentedKey (cr_hostKey r) = None")
      case True
      then show ?thesis by (elim disjE) (simp_all add: ConnectedTo dial_connected_def Let_def closing)
    next
      case False
      then obtain key where k: "readPresentedKey (cr_hostKey r) = Some key"
        and c: "isCurrentConnect (caller_intent caller) s" by auto
      have ref: "\<lparr>connectionId = connectionId (cr_ref r), generationId = gen\<rparr> = cr_ref r"
        using False by (cases "cr_ref r") simp
      have j: "justified caller gen expected gateway a (cr_ref r) why"
        if "if gateway then cr_verified r \<and> why = ByReceipt (cr_ref r) (caller_host caller) True
            else (\<exists>pin. why = ByPin (cr_ref r) (caller_host caller) pin key \<and> expected = Some pin
                   \<and> verifyHostKeyTrustPin (Some pin) key = Trusted)" for why
        using that False k by (auto simp: justified_def ConnectedTo)
      have "verifyHostKeyTrustPin None key = Unknown" by (rule tp.verify_none)
      with False k show ?thesis
        by (cases expected; cases "verifyHostKeyTrustPin expected key")
          (simp_all add: ConnectedTo dial_connected_def Let_def ref closing adopt [OF c j])
    qed
  qed (use a in auto)
qed

lemma dial_pinned:
  assumes "\<And>r. fin (OnDial (K_DialReturn caller r))" and "\<And>e. fin (OnDial (K_DialConnected caller gen e False))"
    and "P s" and "\<And>x. P (s\<lparr>c_granted := x # c_granted s\<rparr>)" and "is_threw a \<or> (\<exists>p. a = PinIs p)"
  shows "Q (dial_pin caller gen a s)"
  using assms
  by (cases a) (auto simp: dial_pin_def Let_def connect_call_def intro!: catches dial_returns await_fin
      split: option.splits)

end

subsection \<open>Consumer calls and what they leave behind\<close>

text \<open>
  The updates only a consumer's call or its own continuations make. \<open>fin\<close> covers every
  continuation that belongs to no ladder, except a waiting dial; that one is covered when it is
  the gateway dial of a marked target, or an unmarked target waiting for the trust store.
\<close>

locale consumer_reaction = reaction P P fin for P fin +
  fixes cfg :: conn_config
  assumes fin_plain: "ladder_of k = None \<Longrightarrow> \<not> dialled k \<Longrightarrow> fin k"
    and fin_gateway: "dial_ladder caller = None \<Longrightarrow> hasGatewayMarker (t_extra (caller_host caller)) \<Longrightarrow>
      fin (OnDial (K_DialConnected caller gen None True))"
    and fin_ordinary: "dial_ladder caller = None \<Longrightarrow> \<not> hasGatewayMarker (t_extra (caller_host caller)) \<Longrightarrow>
      fin (OnDial (K_DialPin caller gen))"
    and intent: "P s \<Longrightarrow> c_connectIntent s \<le> n \<Longrightarrow> P (s\<lparr>c_connectIntent := n\<rparr>)"
    and host: "P s \<Longrightarrow> P (s\<lparr>c_host := h\<rparr>)"
    and dispose: "P s \<Longrightarrow> P (s\<lparr>c_disposed := True\<rparr>)"
    and recorded: "P s \<Longrightarrow> P (s\<lparr>c_recorded := x # c_recorded s\<rparr>)"
    and once: "P s \<Longrightarrow> P (s\<lparr>c_onceTrusted := Some x, c_granted := x # c_granted s\<rparr>)"
    and added: "P s \<Longrightarrow> length (c_open s) = m \<Longrightarrow> P (new_terminal row g (evict m (cfg_maxOpenPtys cfg) s))"
begin

lemma connects: "P s \<Longrightarrow> P (connect cfg op h s)"
proof -
  assume p: "P s"
  have "P ((use_id s)\<lparr>c_connectIntent := Suc (c_connectIntent s)\<rparr>)"
    using p by (intro intent ids) (simp_all add: use_id_def)
  with p show ?thesis
    unfolding connect_def Let_def by (auto intro!: prims split: transport_decision.splits)
qed

lemma conn_closeds: "P s \<Longrightarrow> P (conn_closed cfg op h i rid s)"
  unfolding conn_closed_def
  by (auto intro!: conn_finishes dials fin_plain fin_gateway fin_ordinary prims host)

lemma accept_dones: "P s \<Longrightarrow> P (accept_done cfg op h s)"
  unfolding accept_done_def by (intro connects prims)

lemma accepts: "P s \<Longrightarrow> P (acceptPresentedHostKey cfg op pass persist s)"
  unfolding acceptPresentedHostKey_def Let_def
  by (auto intro!: prims accept_dones recorded once split: option.splits)

lemma accept_recordeds: "P s \<Longrightarrow> P (accept_recorded cfg op h a s)"
  unfolding accept_recorded_def by (auto intro!: prims accept_dones split: native_answer.splits)

lemma refresh_user: "list_ladder caller = None \<Longrightarrow> P s \<Longrightarrow> P (refreshSessions cfg caller s)"
  by (rule refreshes) (simp_all add: fin_plain)

lemma mutations_fail: "P s \<Longrightarrow> P (mutation_failed cfg op req e s)"
  unfolding mutation_failed_def recordUncertainMutation_def Let_def
  by (auto intro!: prims start refresh_user)

lemma mutations_run: "P s \<Longrightarrow> P (mutation_ran cfg op req cli rid a s)"
  unfolding mutation_ran_def exec_call_def
  by (auto intro!: prims mutations_fail split: option.splits sum.splits)

lemma mutations_list: "P s \<Longrightarrow> P (mutation_listed cfg op req cli rid v a s)"
  unfolding mutation_listed_def show_listing_def
  by (auto intro!: prims mutations_fail split: option.splits sum.splits)

lemma open_consumers: "P s \<Longrightarrow> P (open_consumer op u conn s)"
  unfolding open_consumer_def by (intro terminal_upd opens) (simp_all add: fin_plain)

lemma attaches: "P s \<Longrightarrow> P (attachSession cfg op row g s)"
  unfolding attachSession_def attach_existing_def Let_def
  by (auto intro!: prims focus_terminal open_consumers added split: option.splits)

lemma open_returneds: "open_ladder caller = None \<Longrightarrow> P s \<Longrightarrow> P (open_returned caller u r s)"
  by (cases caller) (auto simp: open_returned_def intro!: prims)

lemma spents: "P s \<Longrightarrow> P (releaseSpentConnection op s)"
proof -
  assume "P s"
  then have "P (drop_connection ((detachTerminals s)\<lparr>c_connectIntent := Suc (c_connectIntent s)\<rparr>))"
    by (intro drop intent detach) (simp_all add: detachTerminals_def)
  then show ?thesis unfolding releaseSpentConnection_def by (intro suspend_plain) simp_all
qed

lemma fg_recovers: "P s \<Longrightarrow> P (fg_recover op again reason s)"
  unfolding fg_recover_def by (auto intro!: joins recover spents)

lemma foregrounds: "P s \<Longrightarrow> P (returnToForeground cfg op again s)"
  unfolding returnToForeground_def Let_def by (auto intro!: prims fg_recovers split: option.splits)

lemma fg_cancels: "P s \<Longrightarrow> P (fg_cancelled cfg op conn rid again a s)"
  unfolding fg_cancelled_def fg_spent_def by (auto intro!: prims fg_recovers split: native_answer.splits)

lemma fg_states: "P s \<Longrightarrow> P (fg_state op rid c again a s)"
  unfolding fg_state_def fg_spent_def Let_def
  by (auto intro!: prims fg_recovers drops_dead split: native_answer.splits)

lemma reconnects: "P s \<Longrightarrow> P (reconnect op s)"
  unfolding reconnect_def by (auto intro!: prims joins recover)

lemma closes: "P s \<Longrightarrow> P (close op s)"
proof -
  assume p: "P s"
  then have "P (s\<lparr>c_disposed := True, c_connectIntent := Suc (c_connectIntent s), c_pendingConnect := None\<rparr>)"
    by (intro pending intent dispose) simp_all
  with p show ?thesis unfolding close_def by (auto intro!: prims)
qed

lemma close_transports: "P s \<Longrightarrow> P (close_transport op s)"
  unfolding close_transport_def by (intro prims host)

lemma handles_calls:
  assumes "P s" and "\<not> (\<exists>n a. e = Resume n a)"
  shows "P (handle cfg op e s)"
  using assms
  by (cases e) (simp_all add: connects accepts refresh_user probes mutates attaches focuses detaches host_commands
      reconnects backgrounds foregrounds closes operations clears_uncertain state_events)

lemma handles:
  assumes "P s" and "\<And>n a. P (resume cfg n a s)"
  shows "P (handle cfg op e s)"
  using assms handles_calls [OF assms(1), of e] by (cases "\<exists>n a. e = Resume n a") auto

text \<open>A continuation of no ladder keeps the predicate.\<close>

lemma run_plain_connect: "P s \<Longrightarrow> P (run_connect cfg k a s)"
  by (cases k) (simp_all add: conn_readies conn_states conn_terms conn_closeds accept_recordeds)

lemma run_plain_dial:
  assumes "P s" and "ladder_of (OnDial k) = None" and "\<not> dialled (OnDial k)" and "fits_dial k a"
  shows "P (run_dial cfg k a s)"
proof (cases k)
  case (K_DialPin caller gen)
  with assms show ?thesis by simp
next
  case (K_DialConnected caller gen e g)
  with assms show ?thesis by simp
next
  case (K_DialAfter caller gen e g af)
  with assms show ?thesis by (simp add: dial_afters fin_plain)
next
  case (K_DialReturn caller r)
  with assms show ?thesis by (cases caller) (simp_all add: conn_dials)
qed

lemma run_plain_list:
  assumes "P s" and "ladder_of (OnList k) = None" and "fits_list k a"
  shows "P (run_list cfg k a s)"
proof (cases k)
  case (K_ListAnswer caller conn rid)
  with assms show ?thesis by (auto intro!: list_answers simp: fin_plain)
next
  case (K_ListReturn caller r)
  with assms show ?thesis
    by (cases caller) (auto intro!: prims reconcile split: outcome.splits ok_value.splits)
qed (use assms in \<open>simp_all add: probe_answers mutations_run mutations_list host_command_answers\<close>)

lemma run_plain_terminal:
  assumes "P s" and "ladder_of (OnTerminal k) = None" and "fits_terminal k a"
  shows "P (run_terminal cfg k a s)"
proof (cases k)
  case (K_OpenPrev caller u token conn session)
  with assms show ?thesis by (simp add: open_prevs fin_plain)
next
  case (K_Opened caller u token conn session rid)
  with assms show ?thesis by (auto intro!: open_answers simp: fin_plain)
next
  case (K_OpenReturn caller u r)
  with assms show ?thesis by (simp add: open_returneds)
qed (use assms in \<open>simp_all add: pump_reads pump_outputs eof_probeds eof_delays op_starts op_answers finish\<close>)

lemma run_plain_lifecycle: "P s \<Longrightarrow> P (run_lifecycle cfg k a s)"
  by (cases k) (simp_all add: schedules fg_cancels fg_states releases close_cancels close_terminals
      close_transports finish)

lemma run_plain:
  assumes "P s" and "ladder_of k = None" and "\<not> dialled k" and "fits k a"
  shows "P (run_kont cfg k a s)"
proof (cases k)
  case (OnLadder j)
  with assms(2) show ?thesis by (cases j) simp_all
qed (use assms in \<open>simp_all add: finish run_plain_connect run_plain_dial run_plain_list run_plain_terminal
    run_plain_lifecycle\<close>)

end

subsection \<open>Continuations of a ladder\<close>

text \<open>
  A ladder's continuation runs under \<open>P\<close> and leaves \<open>Q\<close>: it ends by leaving one
  continuation of the same ladder, or by clearing the task.
\<close>

locale ladder_reaction = reaction P Q fin for P Q fin +
  fixes cfg :: conn_config
    and l :: nat
  assumes fin_ladder: "ladder_of k = Some l \<Longrightarrow> \<not> dialled k \<Longrightarrow> fin k"
    and fin_ladder_gateway: "dial_ladder caller = Some l \<Longrightarrow> hasGatewayMarker (t_extra (caller_host caller)) \<Longrightarrow>
      fin (OnDial (K_DialConnected caller gen None True))"
    and fin_ladder_ordinary: "dial_ladder caller = Some l \<Longrightarrow> \<not> hasGatewayMarker (t_extra (caller_host caller)) \<Longrightarrow>
      fin (OnDial (K_DialPin caller gen))"
    and task_done: "P s \<Longrightarrow> Q (s\<lparr>c_reconnectTask := None\<rparr>)"
begin

lemma ladder_dials: "P s \<Longrightarrow> Q (ladder_dial cfg l h reason attempt s)"
  unfolding ladder_dial_def Let_def
  by (auto intro!: ladder_ends dials fin_ladder fin_ladder_gateway fin_ladder_ordinary prims)

lemma ladder_attempts: "P s \<Longrightarrow> Q (ladder_attempt cfg l h reason attempt s)"
  unfolding ladder_attempt_def by (auto intro!: gives_up await_fin fin_ladder ladder_dials)

lemma ladder_releaseds: "P s \<Longrightarrow> Q (ladder_released cfg l h reason s)"
  unfolding ladder_released_def by (auto intro!: ladder_ends fin_ladder ladder_attempts)

lemma ladder_delays: "P s \<Longrightarrow> Q (ladder_delayed cfg l h reason attempt a s)"
  unfolding ladder_delayed_def by (auto intro!: ladder_ends fin_ladder ladder_dials split: native_answer.splits)

lemma ladder_dialleds: "P s \<Longrightarrow> Q (ladder_dialled cfg l h reason attempt rid r s)"
  unfolding ladder_dialled_def Let_def
  by (auto intro!: ladder_ends gives_up ladder_attempts refreshes fin_ladder cleared split: dial_result.splits)

lemma reattaches: "P s \<Longrightarrow> Q (reattachTerminals cfg l h reason attempt listing s)"
  unfolding reattachTerminals_def Let_def
  by (auto intro!: ladder_ends ladder_attempts reattach_nexts fin_ladder prims drops_vanished
      split: option.splits list.splits)

lemma ladder_listeds: "P s \<Longrightarrow> Q (ladder_listed cfg l h reason attempt r s)"
  unfolding ladder_listed_def
  by (auto intro!: ladder_ends ladder_attempts reattaches fin_ladder split: outcome.splits ok_value.splits)

lemma run_on_ladder:
  "P s \<Longrightarrow> ladder_of (OnLadder k) = Some l \<Longrightarrow> Q (run_ladder cfg k a s)"
  by (cases k) (auto intro!: ladder_releaseds ladder_delays reattach_losts ladder_attempts task_done fin_ladder)

lemma run_ladder_dial:
  assumes "P s" and "ladder_of (OnDial k) = Some l" and "\<not> dialled (OnDial k)" and "fits_dial k a"
  shows "Q (run_dial cfg k a s)"
proof (cases k)
  case (K_DialPin caller gen)
  with assms show ?thesis by simp
next
  case (K_DialConnected caller gen e g)
  with assms show ?thesis by simp
next
  case (K_DialAfter caller gen e g af)
  with assms show ?thesis by (simp add: dial_afters fin_ladder)
next
  case (K_DialReturn caller r)
  with assms show ?thesis by (cases caller) (simp_all add: ladder_dialleds)
qed

lemma run_ladder_list:
  assumes "P s" and "ladder_of (OnList k) = Some l" and "fits_list k a"
  shows "Q (run_list cfg k a s)"
proof (cases k)
  case (K_ListAnswer caller conn rid)
  with assms show ?thesis by (auto intro!: list_answers simp: fin_ladder)
next
  case (K_ListReturn caller r)
  with assms show ?thesis by (cases caller) (simp_all add: ladder_listeds)
qed (use assms in simp_all)

lemma run_ladder_terminal:
  assumes "P s" and "ladder_of (OnTerminal k) = Some l" and "fits_terminal k a"
  shows "Q (run_terminal cfg k a s)"
proof (cases k)
  case (K_OpenPrev caller u token conn session)
  with assms show ?thesis by (simp add: open_prevs fin_ladder)
next
  case (K_Opened caller u token conn session rid)
  with assms show ?thesis by (auto intro!: open_answers simp: fin_ladder)
next
  case (K_OpenReturn caller u r)
  with assms show ?thesis
    by (cases caller) (auto simp: open_returned_def intro!: reattach_opens fin_ladder)
qed (use assms in simp_all)

lemma run_of_ladder:
  assumes "P s" and "ladder_of k = Some l" and "\<not> dialled k" and "fits k a"
  shows "Q (run_kont cfg k a s)"
proof (cases k)
  case (OnLadder j)
  with assms show ?thesis by (simp add: run_on_ladder)
next
  case (OnDial j)
  with assms show ?thesis by (simp add: run_ladder_dial)
next
  case (OnList j)
  with assms show ?thesis by (simp add: run_ladder_list)
next
  case (OnTerminal j)
  with assms show ?thesis by (simp add: run_ladder_terminal)
qed (use assms in simp_all)

end

end
