(* ===== verification/Connection_Safety.thy ===== *)
theory Connection_Safety
  imports Connection_Reaction
begin

text \<open>
  The invariants of the connection controller, each an interpretation of the contract of
  Connection_Reaction: only trusted connections are ever adopted, the terminals stay within the
  channel bound, there is one recovery ladder, and what only grows only grows.
\<close>

lemma drop_nth_set: "set (drop_nth n xs) \<subseteq> set xs"
  unfolding drop_nth_def using set_take_subset set_drop_subset by fastforce

lemmas state_prims = set_snapshot_def upd_terminal_def detachTerminals_def drop_connection_def finish_op_def
  use_id_def suspend_def await_call_def

lemma removeTerminal_fields [simp]:
  "c_connection (removeTerminal u keep s) = c_connection s"
  "c_adopted (removeTerminal u keep s) = c_adopted s"
  "c_granted (removeTerminal u keep s) = c_granted s"
  "c_onceTrusted (removeTerminal u keep s) = c_onceTrusted s"
  "c_tasks (removeTerminal u keep s) = c_tasks s"
  "c_open (removeTerminal u keep s) = remove1 u (c_open s)"
  "c_nextTerminal (removeTerminal u keep s) = c_nextTerminal s"
  "c_reconnectTask (removeTerminal u keep s) = c_reconnectTask s"
  "c_disposed (removeTerminal u keep s) = c_disposed s"
  "c_connectIntent (removeTerminal u keep s) = c_connectIntent s"
  "sn_revision (c_snap (removeTerminal u keep s)) = sn_revision (c_snap s)"
  by (simp_all add: removeTerminal_def upd_terminal_def Let_def split: option.splits)

subsection \<open>Only trusted connections are adopted\<close>

fun adoption_ref :: "adoption \<Rightarrow> connection_ref" where
  "adoption_ref (ByReceipt c h verified) = c"
| "adoption_ref (ByPin c h pin key) = c"

fun adopted_ok :: "(string \<times> trust_pin) list \<Rightarrow> adoption \<Rightarrow> bool" where
  "adopted_ok granted (ByReceipt c h verified) = (hasGatewayMarker (t_extra h) \<and> verified)"
| "adopted_ok granted (ByPin c h pin key) =
     (\<not> hasGatewayMarker (t_extra h) \<and> verifyHostKeyTrustPin (Some pin) key = Trusted
      \<and> (t_hostId h, pin) \<in> set granted)"

fun waiting_ok :: "(string \<times> trust_pin) list \<Rightarrow> kont \<Rightarrow> bool" where
  "waiting_ok granted (OnDial (K_DialPin caller gen)) = (\<not> hasGatewayMarker (t_extra (caller_host caller)))"
| "waiting_ok granted (OnDial (K_DialConnected caller gen e g)) =
     (g = hasGatewayMarker (t_extra (caller_host caller))
      \<and> (\<not> g \<longrightarrow> (\<forall>p. e = Some p \<longrightarrow> (t_hostId (caller_host caller), p) \<in> set granted)))"
| "waiting_ok granted _ = True"

definition trusted :: "controller \<Rightarrow> bool" where
  "trusted s \<longleftrightarrow>
     (\<forall>c. c_connection s = Some c \<longrightarrow> c \<in> adoption_ref ` set (c_adopted s))
     \<and> (\<forall>a\<in>set (c_adopted s). adopted_ok (c_granted s) a)
     \<and> (\<forall>x. c_onceTrusted s = Some x \<longrightarrow> x \<in> set (c_granted s))
     \<and> (\<forall>t\<in>set (c_tasks s). waiting_ok (c_granted s) (snd t))"

definition may_wait :: "kont \<Rightarrow> bool" where
  "may_wait k \<longleftrightarrow> (\<forall>granted. waiting_ok granted k)"

lemma may_wait_plain [simp]: "\<not> dialled k \<Longrightarrow> may_wait k"
  by (cases k rule: dialled.cases) (simp_all add: may_wait_def)

lemma may_wait_gateway [simp]:
  "hasGatewayMarker (t_extra (caller_host caller)) \<Longrightarrow> may_wait (OnDial (K_DialConnected caller gen None True))"
  "\<not> hasGatewayMarker (t_extra (caller_host caller)) \<Longrightarrow> may_wait (OnDial (K_DialPin caller gen))"
  by (simp_all add: may_wait_def)

lemma adopted_ok_mono [simp]: "adopted_ok g a \<Longrightarrow> adopted_ok (x # g) a"
  by (cases a) auto

lemma waiting_ok_mono [simp]: "waiting_ok g k \<Longrightarrow> waiting_ok (x # g) k"
  by (cases k rule: dialled.cases) auto

lemma trusted_await: "waiting_ok (c_granted s) k \<Longrightarrow> trusted s \<Longrightarrow> trusted (await_call c k s)"
  by (auto simp: trusted_def await_call_def)

lemma trusted_suspend: "waiting_ok (c_granted s) k \<Longrightarrow> trusted s \<Longrightarrow> trusted (suspend cs k s)"
  by (auto simp: trusted_def suspend_def)

lemma may_waitD: "may_wait k \<Longrightarrow> waiting_ok g k"
  by (simp add: may_wait_def)

lemma trusted_recover: "trusted s \<Longrightarrow> trusted (reconnectAndAttach reason s)"
  by (auto simp: trusted_def reconnectAndAttach_def runReconnect_start_def state_prims Let_def
      split: option.splits)

interpretation trust: reaction trusted trusted may_wait
proof unfold_locales
  fix s k cs assume "may_wait k" "trusted s"
  then show "trusted (suspend cs k s)" by (intro trusted_suspend may_waitD)
next
  fix s k c assume "may_wait k" "trusted s"
  then show "trusted (await_call c k s)" by (intro trusted_await may_waitD)
next
  fix s k cs assume "\<not> dialled k" "trusted s"
  then show "trusted (suspend cs k s)" by (intro trusted_suspend may_waitD may_wait_plain)
next
  fix s k c assume "\<not> dialled k" "trusted s"
  then show "trusted (await_call c k s)" by (intro trusted_await may_waitD may_wait_plain)
qed (rule trusted_recover | simp add: trusted_def state_prims)+

lemma trusted_evict: "trusted s \<Longrightarrow> trusted (new_terminal row g (evict m bound s))"
  using trust.evicts [of s m bound] by (simp add: trusted_def new_terminal_def Let_def)

interpretation trust_consumer: consumer_reaction trusted may_wait cfg for cfg
proof unfold_locales
  fix s row g m
  assume "trusted s"
  then show "trusted (new_terminal row g (evict m (cfg_maxOpenPtys cfg) s))" by (rule trusted_evict)
qed (auto simp: trusted_def)

interpretation trust_ladder: ladder_reaction trusted trusted may_wait cfg l for cfg l
  by unfold_locales (auto simp: trusted_def)

lemma trusted_pin:
  assumes "trusted s" and "\<not> hasGatewayMarker (t_extra (caller_host caller))" and "is_threw a \<or> (\<exists>p. a = PinIs p)"
  shows "trusted (dial_pin caller gen a s)"
proof -
  have g: "trusted (s\<lparr>c_granted := x # c_granted s\<rparr>)" for x
    using assms(1) by (auto simp: trusted_def)
  have once: "c_onceTrusted s = Some x \<Longrightarrow> x \<in> set (c_granted s)" for x
    using assms(1) by (simp add: trusted_def)
  show ?thesis
  proof (cases a)
    case (PinIs stored)
    with assms(1,2) g once show ?thesis
      by (auto simp: dial_pin_def Let_def connect_call_def expected_pin_def
          intro!: trust.dial_returns trusted_await split: option.splits)
  next
    case (Threw t)
    with assms(1) show ?thesis by (simp add: dial_pin_def trust.catches)
  qed (use assms in auto)
qed

lemma trusted_connected:
  assumes "trusted s" and w: "waiting_ok (c_granted s) (OnDial (K_DialConnected caller gen e g))"
    and "is_threw a \<or> (\<exists>r. a = ConnectedTo r)"
  shows "trusted (dial_connected caller gen e g a s)"
proof (rule trust.dial_connecteds)
  fix conn why
  assume "justified caller gen e g a conn why"
  with assms(1) w show "trusted (s\<lparr>c_connection := Some conn, c_hostCli := Some conn, c_adopted := why # c_adopted s\<rparr>)"
    by (auto simp: trusted_def justified_def split: if_splits)
qed (use assms in auto)

lemma trusted_run:
  assumes "trusted s" and w: "waiting_ok (c_granted s) k" and "fits k a"
  shows "trusted (run_kont cfg k a s)"
proof (cases "dialled k")
  case False
  with assms show ?thesis
    by (cases "ladder_of k") (auto intro: trust_consumer.run_plain trust_ladder.run_of_ladder)
next
  case True
  then show ?thesis
    by (cases k rule: dialled.cases) (use assms in \<open>auto intro!: trusted_pin trusted_connected\<close>)
qed

lemma trusted_resume: "trusted s \<Longrightarrow> trusted (resume cfg n a s)"
proof -
  assume t: "trusted s"
  show ?thesis
  proof (cases "n < length (c_tasks s)")
    case True
    obtain cs k where k: "c_tasks s ! n = (cs, k)" by (cases "c_tasks s ! n")
    with True have i: "(cs, k) \<in> set (c_tasks s)" by (metis nth_mem)
    with t have w: "waiting_ok (c_granted s) k" by (force simp: trusted_def)
    have d: "trusted (s\<lparr>c_tasks := drop_nth n (c_tasks s)\<rparr>)"
      using t drop_nth_set [of n "c_tasks s"] by (auto simp: trusted_def)
    have u: "trusted (s\<lparr>c_tasks := (c_tasks s)[n := (cs', k)], c_calls := x\<rparr>)" for cs' x
      using t w set_update_subset_insert [of "c_tasks s" n "(cs', k)"] by (fastforce simp: trusted_def)
    show ?thesis
      using True k t d u w
      by (cases cs) (auto simp: resume_def intro!: trusted_run)
  qed (simp add: resume_def t)
qed

interpretation trust_machine: machine "conn_step cfg" trusted for cfg
proof unfold_locales
  fix s and e :: "int \<times> conn_event"
  assume "trusted s"
  then have t: "trusted (s\<lparr>c_clock := fst e, c_nextOp := Suc (c_nextOp s)\<rparr>)" by (simp add: trusted_def)
  then show "trusted (conn_step cfg s e)"
    unfolding conn_step_def by (rule trust_consumer.handles) (rule trusted_resume [OF t])
qed

subsection \<open>The channel bound\<close>

definition within :: "nat \<Rightarrow> controller \<Rightarrow> bool" where
  "within bound s \<longleftrightarrow>
     length (c_open s) \<le> max 1 bound \<and> distinct (c_open s) \<and> (\<forall>u\<in>set (c_open s). u < c_nextTerminal s)"

lemma within_recover: "within b s \<Longrightarrow> within b (reconnectAndAttach reason s)"
  by (auto simp: within_def reconnectAndAttach_def runReconnect_start_def state_prims Let_def
      split: option.splits)

lemma length_remove1_le: "length (remove1 x xs) \<le> length xs"
  by (simp add: length_remove1)

interpretation bound: reaction "within b" "within b" "\<lambda>_. True" for b
proof unfold_locales
  fix s u keep assume "within b s"
  then show "within b (removeTerminal u keep s)"
    using length_remove1_le [of u "c_open s"]
    by (auto simp: within_def dest: set_remove1_subset [THEN subsetD] intro: le_trans)
qed (rule within_recover | simp add: within_def state_prims)+

lemma oldest_of_some: "oldest_of h (Some b) us \<noteq> None"
  by (induction us arbitrary: b) auto

lemma oldest_of_in: "oldest_of h best us = Some u \<Longrightarrow> best = Some u \<or> u \<in> set us"
proof (induction us arbitrary: best)
  case (Cons v us)
  then show ?case by (cases best) (fastforce split: if_splits)+
qed simp

lemma leastRecentlyFocused_in: "leastRecentlyFocused s = Some u \<Longrightarrow> u \<in> set (c_open s)"
  unfolding leastRecentlyFocused_def using oldest_of_in by fastforce

lemma leastRecentlyFocused_None: "leastRecentlyFocused s = None \<Longrightarrow> c_open s = []"
  unfolding leastRecentlyFocused_def using oldest_of_some by (cases "c_open s") auto

lemma c_open_forget [simp]: "c_open (forget_close p s) = c_open s"
  by (simp add: forget_close_def suspend_def split: option.splits)

text \<open>One round per open terminal is enough to get below the bound.\<close>

lemma evict_enough:
  "length (c_open s) \<le> k \<Longrightarrow> length (c_open (evict k b s)) < b \<or> c_open (evict k b s) = []"
proof (induction k arbitrary: s)
  case (Suc k)
  show ?case
  proof (cases "leastRecentlyFocused s")
    case None
    then show ?thesis by (auto dest: leastRecentlyFocused_None)
  next
    case (Some u)
    then have "length (remove1 u (c_open s)) \<le> k"
      using Suc.prems leastRecentlyFocused_in [OF Some] by (simp add: length_remove1)
    with Some show ?thesis by (auto intro!: Suc.IH)
  qed
qed simp

lemma within_added:
  assumes "within b s" and "length (c_open s) = m"
  shows "within b (new_terminal row g (evict m b s))"
proof -
  from bound.evicts [OF assms(1)] have w: "within b (evict m b s)" .
  from evict_enough [of s m b] assms(2)
  have "length (c_open (evict m b s)) < max 1 b" by auto
  with w show ?thesis by (fastforce simp: within_def new_terminal_def Let_def)
qed

interpretation bound_consumer: consumer_reaction "within (cfg_maxOpenPtys cfg)" "\<lambda>_. True" cfg for cfg
proof unfold_locales
  fix s row g m
  assume "within (cfg_maxOpenPtys cfg) s" "length (c_open s) = m"
  then show "within (cfg_maxOpenPtys cfg) (new_terminal row g (evict m (cfg_maxOpenPtys cfg) s))"
    by (rule within_added)
qed (auto simp: within_def)

interpretation bound_ladder: ladder_reaction "within b" "within b" "\<lambda>_. True" cfg l for b cfg l
  by unfold_locales (auto simp: within_def)

subsection \<open>What only grows\<close>

text \<open>
  \<open>since s0\<close>: a state that can follow \<open>s0\<close>. Revisions and intents only grow, a closed
  controller stays closed, adoptions are only added, and none by a closed controller.
\<close>

definition since :: "controller \<Rightarrow> controller \<Rightarrow> bool" where
  "since s0 s \<longleftrightarrow>
     sn_revision (c_snap s0) \<le> sn_revision (c_snap s)
     \<and> c_connectIntent s0 \<le> c_connectIntent s
     \<and> (\<exists>new. c_adopted s = new @ c_adopted s0)
     \<and> (c_disposed s0 \<longrightarrow> c_disposed s \<and> c_adopted s = c_adopted s0
          \<and> (c_connection s = c_connection s0 \<or> c_connection s = None))"

lemma since_refl [simp]: "since s s" by (simp add: since_def)

lemma since_recover: "since s0 s \<Longrightarrow> since s0 (reconnectAndAttach reason s)"
  by (auto simp: since_def reconnectAndAttach_def runReconnect_start_def state_prims Let_def
      split: option.splits)

interpretation grow: reaction "since s0" "since s0" "\<lambda>_. True" for s0
  by unfold_locales (rule since_recover | (auto simp: since_def state_prims; fail))+

lemma since_added: "since s0 s \<Longrightarrow> since s0 (new_terminal row g (evict m b s))"
  using grow.evicts [of s0 s m b] by (simp add: since_def new_terminal_def Let_def)

interpretation grow_consumer: consumer_reaction "since s0" "\<lambda>_. True" cfg for s0 cfg
proof unfold_locales
  fix s row g m
  assume "since s0 s"
  then show "since s0 (new_terminal row g (evict m (cfg_maxOpenPtys cfg) s))" by (rule since_added)
qed (auto simp: since_def)

interpretation grow_ladder: ladder_reaction "since s0" "since s0" "\<lambda>_. True" cfg l for s0 cfg l
  by unfold_locales (auto simp: since_def)

lemma since_adopt:
  "since s0 s \<Longrightarrow> isCurrentConnect i s \<Longrightarrow>
   since s0 (s\<lparr>c_connection := Some conn, c_hostCli := Some conn, c_adopted := why # c_adopted s\<rparr>)"
  by (auto simp: since_def isCurrentConnect_def)

subsection \<open>One ladder\<close>

text \<open>The ladders with a suspended continuation: exactly the running task, once.\<close>

definition ladders :: "controller \<Rightarrow> nat list" where
  "ladders s = List.map_filter (\<lambda>t. ladder_of (snd t)) (c_tasks s)"

definition one_ladder :: "controller \<Rightarrow> bool" where
  "one_ladder s \<longleftrightarrow> ladders s = (case c_reconnectTask s of None \<Rightarrow> [] | Some l \<Rightarrow> [l])"

text \<open>While a ladder's own continuation runs, no other is suspended.\<close>

definition on_ladder :: "nat \<Rightarrow> controller \<Rightarrow> bool" where
  "on_ladder l s \<longleftrightarrow> ladders s = [] \<and> c_reconnectTask s = Some l"

lemma map_filter_append [simp]: "List.map_filter f (xs @ ys) = List.map_filter f xs @ List.map_filter f ys"
  by (simp add: List.map_filter_def)

lemma ladders_simps [simp]:
  "ladders (suspend cs k s) = ladders s @ (case ladder_of k of None \<Rightarrow> [] | Some l \<Rightarrow> [l])"
  "ladders (await_call c k s) = ladders s @ (case ladder_of k of None \<Rightarrow> [] | Some l \<Rightarrow> [l])"
  by (simp_all add: ladders_def suspend_def await_call_def map_filter_simps split: option.splits)

lemma one_ladder_recover: "one_ladder s \<Longrightarrow> one_ladder (reconnectAndAttach reason s)"
  by (auto simp: one_ladder_def reconnectAndAttach_def runReconnect_start_def ladders_def Let_def
      state_prims map_filter_simps split: option.splits)

lemma on_ladder_recover: "on_ladder l s \<Longrightarrow> on_ladder l (reconnectAndAttach reason s)"
  by (simp add: on_ladder_def reconnectAndAttach_def)

lemma reconnectTask_simps [simp]:
  "c_reconnectTask (suspend cs k s) = c_reconnectTask s"
  "c_reconnectTask (await_call c k s) = c_reconnectTask s"
  by (simp_all add: suspend_def await_call_def)

interpretation free: reaction one_ladder one_ladder "\<lambda>k. ladder_of k = None"
  by unfold_locales
    (rule one_ladder_recover | simp add: one_ladder_def | simp add: one_ladder_def ladders_def state_prims)+

interpretation free_consumer: consumer_reaction one_ladder "\<lambda>k. ladder_of k = None" cfg for cfg
proof unfold_locales
  fix s row g m
  assume "one_ladder s"
  from free.evicts [OF this]
  show "one_ladder (new_terminal row g (evict m (cfg_maxOpenPtys cfg) s))"
    by (simp add: one_ladder_def ladders_def new_terminal_def Let_def)
qed (auto simp: one_ladder_def ladders_def)

interpretation laddered: ladder_reaction "on_ladder l" one_ladder "\<lambda>k. ladder_of k = Some l" cfg l for l cfg
  by unfold_locales
    (rule on_ladder_recover | simp add: on_ladder_def one_ladder_def
      | simp add: on_ladder_def one_ladder_def ladders_def state_prims)+

text \<open>Taking a suspended continuation out of the list.\<close>

lemma map_filter_drop_nth:
  assumes "n < length ts"
  shows "List.map_filter f (drop_nth n ts) = (case f (ts ! n) of
      None \<Rightarrow> List.map_filter f ts
    | Some x \<Rightarrow> List.map_filter f (take n ts) @ List.map_filter f (drop (Suc n) ts))"
proof -
  have "ts = take n ts @ ts ! n # drop (Suc n) ts" using assms by (rule id_take_nth_drop)
  then have "List.map_filter f ts = List.map_filter f (take n ts @ ts ! n # drop (Suc n) ts)" by simp
  then show ?thesis by (simp add: drop_nth_def map_filter_simps split: option.splits)
qed

lemma ladders_taken:
  assumes "one_ladder s" and "n < length (c_tasks s)" and "snd (c_tasks s ! n) = k"
  shows "case ladder_of k of
      None \<Rightarrow> one_ladder (s\<lparr>c_tasks := drop_nth n (c_tasks s)\<rparr>)
    | Some l \<Rightarrow> on_ladder l (s\<lparr>c_tasks := drop_nth n (c_tasks s)\<rparr>)"
proof (cases "ladder_of k")
  case None
  with assms show ?thesis by (simp add: one_ladder_def ladders_def map_filter_drop_nth)
next
  case (Some l)
  let ?f = "\<lambda>t. ladder_of (snd t)"
  have "c_tasks s = take n (c_tasks s) @ c_tasks s ! n # drop (Suc n) (c_tasks s)"
    using assms(2) by (rule id_take_nth_drop)
  then have "ladders s = List.map_filter ?f (take n (c_tasks s) @ c_tasks s ! n # drop (Suc n) (c_tasks s))"
    by (simp add: ladders_def)
  then have "ladders s = List.map_filter ?f (take n (c_tasks s)) @ l # List.map_filter ?f (drop (Suc n) (c_tasks s))"
    using Some assms(3) by (simp add: map_filter_simps)
  with assms(1) have "c_reconnectTask s = Some l" "List.map_filter ?f (take n (c_tasks s)) = []"
      "List.map_filter ?f (drop (Suc n) (c_tasks s)) = []"
    by (auto simp: one_ladder_def append_eq_Cons_conv split: option.splits)
  with Some assms show ?thesis by (simp add: on_ladder_def ladders_def map_filter_drop_nth)
qed

lemma map_filter_update:
  "n < length ts \<Longrightarrow> f (ts ! n) = f x \<Longrightarrow> List.map_filter f (ts[n := x]) = List.map_filter f ts"
proof (induction ts arbitrary: n)
  case (Cons t ts)
  then show ?case by (cases n) (auto simp: map_filter_simps split: option.splits)
qed simp

subsection \<open>Every reaction\<close>

text \<open>The waiting dials, for the invariants that do not depend on what a dial expects.\<close>

lemma granted_upd [simp]:
  "within b (s\<lparr>c_granted := g\<rparr>) = within b s"
  "since s0 (s\<lparr>c_granted := g\<rparr>) = since s0 s"
  "one_ladder (s\<lparr>c_granted := g\<rparr>) = one_ladder s"
  "on_ladder l (s\<lparr>c_granted := g\<rparr>) = on_ladder l s"
  by (simp_all add: within_def since_def one_ladder_def on_ladder_def ladders_def)

lemma adopted_upd [simp]:
  "within b (s\<lparr>c_connection := x, c_hostCli := y, c_adopted := z\<rparr>) = within b s"
  "one_ladder (s\<lparr>c_connection := x, c_hostCli := y, c_adopted := z\<rparr>) = one_ladder s"
  "on_ladder l (s\<lparr>c_connection := x, c_hostCli := y, c_adopted := z\<rparr>) = on_ladder l s"
  by (simp_all add: within_def one_ladder_def on_ladder_def ladders_def)

lemma within_dialled: "dialled k \<Longrightarrow> fits k a \<Longrightarrow> within b s \<Longrightarrow> within b (run_kont cfg k a s)"
  by (cases k rule: dialled.cases) (auto intro!: bound.dial_pinned bound.dial_connecteds)

lemma since_dialled: "dialled k \<Longrightarrow> fits k a \<Longrightarrow> since s0 s \<Longrightarrow> since s0 (run_kont cfg k a s)"
  by (cases k rule: dialled.cases) (auto intro!: grow.dial_pinned grow.dial_connecteds since_adopt)

lemma one_ladder_dialled:
  "dialled k \<Longrightarrow> fits k a \<Longrightarrow> ladder_of k = None \<Longrightarrow> one_ladder s \<Longrightarrow> one_ladder (run_kont cfg k a s)"
  by (cases k rule: dialled.cases) (auto intro!: free.dial_pinned free.dial_connecteds)

lemma on_ladder_dialled:
  "dialled k \<Longrightarrow> fits k a \<Longrightarrow> ladder_of k = Some l \<Longrightarrow> on_ladder l s \<Longrightarrow> one_ladder (run_kont cfg k a s)"
  by (cases k rule: dialled.cases) (auto intro!: laddered.dial_pinned laddered.dial_connecteds)

text \<open>What an answer may do to the list of tasks, once for every invariant.\<close>

lemma resume_keeps:
  assumes p: "P s"
    and drop: "\<And>k. P s \<Longrightarrow> n < length (c_tasks s) \<Longrightarrow> snd (c_tasks s ! n) = k \<Longrightarrow>
      Pk k (s\<lparr>c_tasks := drop_nth n (c_tasks s)\<rparr>)"
    and update: "\<And>cs x. P s \<Longrightarrow> n < length (c_tasks s) \<Longrightarrow>
      P (s\<lparr>c_tasks := (c_tasks s)[n := (cs, snd (c_tasks s ! n))], c_calls := x\<rparr>)"
    and run: "\<And>k t. Pk k t \<Longrightarrow> fits k a \<Longrightarrow> P (run_kont cfg k a t)"
  shows "P (resume cfg n a s)"
proof (cases "n < length (c_tasks s)")
  case True
  obtain cs k where k: "c_tasks s ! n = (cs, k)" by (cases "c_tasks s ! n")
  with True p drop [of k] update run show ?thesis
    by (cases cs) (auto simp: resume_def)
qed (simp add: resume_def p)

lemma within_resume: "within (cfg_maxOpenPtys cfg) s \<Longrightarrow> within (cfg_maxOpenPtys cfg) (resume cfg n a s)"
proof (rule resume_keeps [where Pk = "\<lambda>k t. within (cfg_maxOpenPtys cfg) t"])
  fix k t assume "within (cfg_maxOpenPtys cfg) t" "fits k a"
  then show "within (cfg_maxOpenPtys cfg) (run_kont cfg k a t)"
    by (cases "dialled k"; cases "ladder_of k")
      (auto intro: within_dialled bound_ladder.run_of_ladder bound_consumer.run_plain)
qed (simp_all add: within_def)

lemma since_resume: "since s0 s \<Longrightarrow> since s0 (resume cfg n a s)"
proof (rule resume_keeps [where Pk = "\<lambda>k t. since s0 t"])
  fix k t assume "since s0 t" "fits k a"
  then show "since s0 (run_kont cfg k a t)"
    by (cases "dialled k"; cases "ladder_of k")
      (auto intro: since_dialled grow_ladder.run_of_ladder grow_consumer.run_plain)
qed (simp_all add: since_def)

lemma one_ladder_resume: "one_ladder s \<Longrightarrow> one_ladder (resume cfg n a s)"
proof (rule resume_keeps [where Pk = "\<lambda>k t. case ladder_of k of None \<Rightarrow> one_ladder t | Some l \<Rightarrow> on_ladder l t"])
  fix k t assume "case ladder_of k of None \<Rightarrow> one_ladder t | Some l \<Rightarrow> on_ladder l t" "fits k a"
  then show "one_ladder (run_kont cfg k a t)"
    by (cases "dialled k"; cases "ladder_of k")
      (auto intro: one_ladder_dialled on_ladder_dialled laddered.run_of_ladder free_consumer.run_plain)
qed (auto simp: one_ladder_def ladders_def map_filter_update intro: ladders_taken)

interpretation bound_machine: machine "conn_step cfg" "within (cfg_maxOpenPtys cfg)" for cfg
proof unfold_locales
  fix s and e :: "int \<times> conn_event"
  assume "within (cfg_maxOpenPtys cfg) s"
  then have w: "within (cfg_maxOpenPtys cfg) (s\<lparr>c_clock := fst e, c_nextOp := Suc (c_nextOp s)\<rparr>)"
    by (simp add: within_def)
  then show "within (cfg_maxOpenPtys cfg) (conn_step cfg s e)"
    unfolding conn_step_def by (rule bound_consumer.handles) (rule within_resume [OF w])
qed

interpretation grow_machine: machine "conn_step cfg" "since s0" for cfg s0
proof unfold_locales
  fix s and e :: "int \<times> conn_event"
  assume "since s0 s"
  then have w: "since s0 (s\<lparr>c_clock := fst e, c_nextOp := Suc (c_nextOp s)\<rparr>)" by (simp add: since_def)
  then show "since s0 (conn_step cfg s e)"
    unfolding conn_step_def by (rule grow_consumer.handles) (rule since_resume [OF w])
qed

interpretation ladder_machine: machine "conn_step cfg" one_ladder for cfg
proof unfold_locales
  fix s and e :: "int \<times> conn_event"
  assume "one_ladder s"
  then have w: "one_ladder (s\<lparr>c_clock := fst e, c_nextOp := Suc (c_nextOp s)\<rparr>)"
    by (simp add: one_ladder_def ladders_def)
  then show "one_ladder (conn_step cfg s e)"
    unfolding conn_step_def by (rule free_consumer.handles) (rule one_ladder_resume [OF w])
qed

end
