(* ===== verification/Connection_Props.thy ===== *)
theory Connection_Props
  imports Connection_Safety
begin

text \<open>
  What the connection controller promises, over every run from a new controller: the
  properties that rest on the invariants of Connection_Safety, the refinement of an abstract
  link machine, and the functional properties of single operations.
\<close>

abbreviation conn_run :: "conn_config \<Rightarrow> (int \<times> conn_event) list \<Rightarrow> controller" where
  "conn_run cfg es \<equiv> run_events (conn_step cfg) new_controller es"

lemma trusted_new: "trusted new_controller"
  by (simp add: trusted_def new_controller_def)

lemma within_new: "within b new_controller"
  by (simp add: within_def new_controller_def)

lemma one_ladder_new: "one_ladder new_controller"
  by (simp add: one_ladder_def ladders_def new_controller_def)

lemmas trusted_conn_run = trust_machine.run_inv [OF trusted_new]
lemmas within_conn_run = bound_machine.run_inv [OF within_new]
lemmas one_ladder_conn_run = ladder_machine.run_inv [OF one_ladder_new]

subsection \<open>An abstract link\<close>

text \<open>
  The specification of the link a controller holds: a flag that says it is closed for good, and
  the link, if it is up. The link may go down at any time. It comes up only while the flag is not
  set and at one kind of event, the platform's answer to a dial in flight: the answer names a dial
  (request and generation) that no later intent has superseded, and the answer itself proves the
  host's key to the target of that dial. For a gateway target that is the platform's receipt; for any
  other, a granted pin of that host recognises the presented key.
\<close>

type_synonym link = "bool \<times> connection_ref option"

type_synonym dial = "string \<times> string \<times> ssh_target"

definition proven :: "(string \<times> trust_pin) list \<Rightarrow> ssh_target \<Rightarrow> connect_result \<Rightarrow> bool" where
  "proven granted h r \<longleftrightarrow>
     (case readPresentedKey (cr_hostKey r) of
        None \<Rightarrow> False
      | Some key \<Rightarrow>
          if hasGatewayMarker (t_extra h) then cr_verified r
          else (\<exists>(host, pin)\<in>set granted. host = t_hostId h \<and> verifyHostKeyTrustPin (Some pin) key = Trusted))"

inductive link_step :: "(string \<times> trust_pin) list \<Rightarrow> dial list \<Rightarrow> conn_event \<Rightarrow> link \<Rightarrow> link \<Rightarrow> bool"
  for granted dials e where
  link_down: "link_step granted dials e (closed, c) (closed, None)"
| link_close: "link_step granted dials e (False, c) (True, c)"
| link_up: "e = Resume n (ConnectedTo r) \<Longrightarrow> (cr_requestId r, generationId (cr_ref r), h) \<in> set dials \<Longrightarrow>
    proven granted h r \<Longrightarrow> link_step granted dials e (False, c) (False, Some (cr_ref r))"

inductive_cases link_step_closed: "link_step granted dials e (True, c) l"
inductive_simps link_step_simps: "link_step granted dials e (closed, c) (closed', c')"

lemma closed_link_stays:
  assumes "(link_step granted dials e)\<^sup>*\<^sup>* (True, c) l"
  shows "fst l \<and> (snd l = c \<or> snd l = None)"
  using assms
proof (induction rule: rtranclp_induct)
  case (step l l')
  then show ?case by (cases l) (auto elim: link_step_closed)
qed simp

text \<open>The dials of the controller that wait for the platform and belong to the current intent.\<close>

fun dial_of :: "nat \<Rightarrow> kont \<Rightarrow> dial option" where
  "dial_of intent (OnDial (K_DialConnected caller gen e g)) =
     (if caller_intent caller = intent then Some (caller_request caller, gen, caller_host caller) else None)"
| "dial_of intent _ = None"

definition dials_in_flight :: "controller \<Rightarrow> dial list" where
  "dials_in_flight s = List.map_filter (\<lambda>t. dial_of (c_connectIntent s) (snd t)) (c_tasks s)"

definition link_of :: "controller \<Rightarrow> link" where
  "link_of s = (c_disposed s, c_connection s)"

text \<open>What may happen to the link during one event, under the grants and dials before it.\<close>

definition refines ::
    "(string \<times> trust_pin) list \<times> dial list \<times> conn_event \<Rightarrow> link \<Rightarrow> controller \<Rightarrow> bool" where
  "refines ctx l s \<longleftrightarrow> (link_step (fst ctx) (fst (snd ctx)) (snd (snd ctx)))\<^sup>*\<^sup>* l (link_of s)"

lemma refines_same: "refines ctx l s \<Longrightarrow> link_of t = link_of s \<Longrightarrow> refines ctx l t"
  by (simp add: refines_def)

lemma refines_step: "refines ctx l s \<Longrightarrow> link_step (fst ctx) (fst (snd ctx)) (snd (snd ctx)) (link_of s) (link_of t) \<Longrightarrow> refines ctx l t"
  by (auto simp: refines_def intro: rtranclp.rtrancl_into_rtrancl)

lemma refines_drop: "refines ctx l s \<Longrightarrow> c_disposed t = c_disposed s \<Longrightarrow> c_connection t = None \<Longrightarrow> refines ctx l t"
  by (erule refines_step) (simp add: link_of_def link_down)

lemma refines_recover: "refines ctx l s \<Longrightarrow> refines ctx l (reconnectAndAttach reason s)"
  by (cases "c_reconnectTask s"; cases "c_host s")
    (auto simp: reconnectAndAttach_def runReconnect_start_def Let_def state_prims intro: refines_drop)

interpretation link: reaction "refines ctx l" "refines ctx l" "\<lambda>_. True" for ctx l
  by unfold_locales
    (rule refines_recover | assumption
      | (erule refines_drop, simp add: state_prims, simp add: state_prims; fail)
      | (erule refines_same, simp add: link_of_def state_prims; fail))+

lemma refines_added: "refines ctx l s \<Longrightarrow> refines ctx l (new_terminal row g (evict m b s))"
  by (rule refines_same [OF link.evicts]) (simp_all add: link_of_def new_terminal_def Let_def)

interpretation link_consumer: consumer_reaction "refines ctx l" "\<lambda>_. True" cfg for ctx l cfg
proof unfold_locales
  fix s row g m
  assume "refines ctx l s"
  then show "refines ctx l (new_terminal row g (evict m (cfg_maxOpenPtys cfg) s))" by (rule refines_added)
next
  fix s
  assume r: "refines ctx l s"
  show "refines ctx l (s\<lparr>c_disposed := True\<rparr>)"
  proof (cases "c_disposed s")
    case True
    with r show ?thesis by (auto simp: link_of_def intro: refines_same)
  next
    case False
    with r show ?thesis by (auto simp: link_of_def link_close intro: refines_step)
  qed
qed (simp_all add: refines_def link_of_def)

interpretation link_ladder: ladder_reaction "refines ctx l" "refines ctx l" "\<lambda>_. True" cfg i for ctx l cfg i
  by unfold_locales (simp_all add: refines_def link_of_def)

lemma refines_adopt:
  assumes "refines (granted, dials, Resume n a) l s" and "isCurrentConnect i s"
    and w: "waiting_ok granted (OnDial (K_DialConnected caller gen e g))"
    and d: "(caller_request caller, gen, caller_host caller) \<in> set dials"
    and j: "justified caller gen e g a conn why"
  shows "refines (granted, dials, Resume n a) l (s\<lparr>c_connection := Some conn, c_hostCli := Some conn, c_adopted := x\<rparr>)"
proof (rule refines_step [OF assms(1)])
  from j obtain r key where r: "a = ConnectedTo r" "conn = cr_ref r" "cr_requestId r = caller_request caller"
    "generationId conn = gen" "readPresentedKey (cr_hostKey r) = Some key"
    and why: "if g then cr_verified r else (\<exists>pin. e = Some pin \<and> verifyHostKeyTrustPin (Some pin) key = Trusted)"
    by (auto simp: justified_def split: if_splits)
  have "proven granted (caller_host caller) r"
    using w why r(5) by (auto simp: proven_def split: if_splits)
  with r d assms(2) show "link_step (fst (granted, dials, Resume n a)) (fst (snd (granted, dials, Resume n a)))
      (snd (snd (granted, dials, Resume n a))) (link_of s)
      (link_of (s\<lparr>c_connection := Some conn, c_hostCli := Some conn, c_adopted := x\<rparr>))"
    by (auto simp: link_of_def isCurrentConnect_def intro: link_up)
qed

text \<open>A continuation that waited with the grants and dials before the event.\<close>

definition was_waiting :: "(string \<times> trust_pin) list \<Rightarrow> nat \<Rightarrow> dial list \<Rightarrow> kont \<Rightarrow> bool" where
  "was_waiting granted intent dials k \<longleftrightarrow>
     waiting_ok granted k \<and> (\<forall>d. dial_of intent k = Some d \<longrightarrow> d \<in> set dials)"

lemma refines_run:
  assumes "refines (granted, dials, Resume n a) l s" and i: "c_connectIntent s = intent"
    and w: "was_waiting granted intent dials k" and "fits k a"
  shows "refines (granted, dials, Resume n a) l (run_kont cfg k a s)"
proof (cases "dialled k")
  case False
  with assms show ?thesis
    by (cases "ladder_of k") (auto intro: link_consumer.run_plain link_ladder.run_of_ladder)
next
  case True
  have g: "refines (granted, dials, Resume n a) l (s\<lparr>c_granted := x # c_granted s\<rparr>)" for x
    using assms(1) by (simp add: refines_def link_of_def)
  from True show ?thesis
  proof (cases k rule: dialled.cases)
    case (1 caller gen)
    with assms g show ?thesis by (auto intro!: link.dial_pinned)
  next
    case (2 caller gen e gw)
    have "refines (granted, dials, Resume n a) l (dial_connected caller gen e gw a s)"
    proof (rule link.dial_connecteds)
      fix conn why
      assume c: "isCurrentConnect (caller_intent caller) s" and j: "justified caller gen e gw a conn why"
      have "(caller_request caller, gen, caller_host caller) \<in> set dials"
        using w c i by (simp add: was_waiting_def 2 isCurrentConnect_def)
      moreover have "waiting_ok granted (OnDial (K_DialConnected caller gen e gw))"
        using w unfolding was_waiting_def 2 by blast
      ultimately show "refines (granted, dials, Resume n a) l
          (s\<lparr>c_connection := Some conn, c_hostCli := Some conn, c_adopted := why # c_adopted s\<rparr>)"
        using assms(1) c j by (blast intro: refines_adopt)
    qed (use 2 assms in simp_all)
    with 2 show ?thesis by simp
  qed simp_all
qed

lemma refines_resume:
  assumes "trusted s" and r: "refines (c_granted s, dials_in_flight s, Resume n a) l s"
  shows "refines (c_granted s, dials_in_flight s, Resume n a) l (resume cfg n a s)"
proof -
  let ?P = "\<lambda>t. refines (c_granted s, dials_in_flight s, Resume n a) l t"
  have w: "was_waiting (c_granted s) (c_connectIntent s) (dials_in_flight s) k"
    if "n < length (c_tasks s)" "snd (c_tasks s ! n) = k" for k
  proof -
    have m: "c_tasks s ! n \<in> set (c_tasks s)" using that(1) by simp
    have "waiting_ok (c_granted s) k" using assms(1) m that(2) by (auto simp: trusted_def)
    moreover have "d \<in> set (dials_in_flight s)" if "dial_of (c_connectIntent s) k = Some d" for d
    proof -
      have "dial_of (c_connectIntent s) (snd (c_tasks s ! n)) = Some d" using that \<open>snd (c_tasks s ! n) = k\<close> by simp
      with m show ?thesis
        unfolding dials_in_flight_def List.map_filter_def set_map set_filter
        by (cases d) (intro image_eqI [of _ _ "c_tasks s ! n"], simp_all)
    qed
    ultimately show ?thesis by (simp add: was_waiting_def)
  qed
  have same: "?P (s\<lparr>c_tasks := ts\<rparr>)" "?P (s\<lparr>c_tasks := ts, c_calls := x\<rparr>)" for ts x
    using r by (simp_all add: refines_def link_of_def)
  show ?thesis
  proof (cases "n < length (c_tasks s)")
    case True
    obtain cs k where k: "c_tasks s ! n = (cs, k)" by (cases "c_tasks s ! n")
    have "?P (run_kont cfg k a (s\<lparr>c_tasks := drop_nth n (c_tasks s)\<rparr>))" if "fits k a"
      by (rule refines_run [OF same(1) _ w that]) (use True k in simp_all)
    with k r same show ?thesis by (cases cs) (auto simp: resume_def)
  qed (simp add: resume_def r)
qed

lemma conn_step_refines:
  assumes "trusted s"
  shows "(link_step (c_granted s) (dials_in_flight s) (snd e))\<^sup>*\<^sup>* (link_of s) (link_of (conn_step cfg s e))"
proof -
  let ?s = "s\<lparr>c_clock := fst e, c_nextOp := Suc (c_nextOp s)\<rparr>" and ?c = "(c_granted s, dials_in_flight s, snd e)"
  have t: "trusted ?s" and r: "refines (c_granted s, dials_in_flight s, x) (link_of s) ?s" for x
    using assms by (simp_all add: trusted_def refines_def link_of_def)
  have d: "c_granted ?s = c_granted s" "dials_in_flight ?s = dials_in_flight s" by (simp_all add: dials_in_flight_def)
  have "refines ?c (link_of s) (conn_step cfg s e)"
  proof (cases "snd e")
    case (Resume n a)
    have "refines (c_granted s, dials_in_flight s, Resume n a) (link_of s) (resume cfg n a ?s)"
      using refines_resume [OF t, of n a "link_of s" cfg] r unfolding d by blast
    then show ?thesis by (simp add: conn_step_def Resume)
  qed (unfold conn_step_def, (rule link_consumer.handles_calls [OF r]; simp)+)
  then show ?thesis by (simp add: refines_def)
qed

subsection \<open>A concrete run\<close>

text \<open>
  A first contact that is connected: the request, the listener, the (empty) closes, the pin of the
  trust store, and the platform's answer. The witnesses evaluate it.
\<close>

definition run_cfg :: conn_config where
  "run_cfg = \<lparr>cfg_gateway = False, cfg_maxOpenPtys = 2, cfg_maxGrace = 60000, cfg_retryDelays = [0, 250],
     cfg_id = (\<lambda>n. replicate n CHR ''x''), cfg_url = (\<lambda>_. None), cfg_json = (\<lambda>_. None),
     cfg_binary = ''pocketshell''\<rparr>"

definition run_host :: ssh_target where
  "run_host = \<lparr>t_hostId = ''h1'', t_hostname = ''dev'', t_port = 22, t_username = ''me'',
     t_credential = [], t_extra = []\<rparr>"

definition run_ref :: connection_ref where
  "run_ref = \<lparr>connectionId = ''c1'', generationId = ''x''\<rparr>"

definition run_events_1 :: "(int \<times> conn_event) list" where
  "run_events_1 = [(0, DoConnect run_host), (1, Resume 0 Done), (2, Resume 0 Done), (3, Resume 0 Done),
     (4, Resume 0 (PinIs (Some (Sha256Fingerprint ''f1'')))),
     (5, Resume 0 (ConnectedTo \<lparr>cr_requestId = [], cr_ref = run_ref,
        cr_hostKey = [(''keyType'', Str ''ed''), (''keyB64'', Str ''AA''), (''fingerprintSha256'', Str ''f1'')],
        cr_verified = False\<rparr>))]"

lemma run_connects: "c_connection (conn_run run_cfg run_events_1) = Some run_ref"
  by code_simp

subsection \<open>What the controller promises\<close>

text \<open>
  C2: the controller refines the abstract link, event by event. In every state of every run and for
  whatever consumers and the platform do next, the closed flag and the held connection only move by
  the steps of the abstract link during that event: down at any time, closed once, and up only while
  not closed, at the platform's answer to a dial that is in flight and not superseded, to the very
  connection that answer names, and only when the answer proves the host's key for that dial's
  target by the receipt of a gateway or a pin granted for that host.
\<close>

theorem controller_refines_link:
  "link_of (conn_run cfg []) = (False, None)
   \<and> (link_step (c_granted (conn_run cfg es)) (dials_in_flight (conn_run cfg es)) e)\<^sup>*\<^sup>*
       (link_of (conn_run cfg es)) (link_of (conn_run cfg (es @ [(now, e)])))"
proof -
  have "trusted (conn_run cfg es)" by (rule trusted_conn_run)
  from conn_step_refines [OF this, of "(now, e)" cfg] show ?thesis
    by (simp add: run_events_append link_of_def new_controller_def)
qed

text \<open>
  C1: the connection a controller holds was judged trustworthy. In every state of every run, a
  held connection was adopted by a dial that either had the platform's receipt for a
  gateway-marked target, or found the presented key recognised by a pin that the trust store
  answered for that host or the user accepted once for it; a marked target is never adopted on
  an ordinary pin, and an unmarked one never on a receipt.
\<close>

theorem held_connection_is_trusted:
  assumes "c_connection (conn_run cfg es) = Some c"
  shows "\<exists>why \<in> set (c_adopted (conn_run cfg es)). adoption_ref why = c
    \<and> adopted_ok (c_granted (conn_run cfg es)) why"
proof -
  have "trusted (conn_run cfg es)" by (rule trusted_conn_run)
  with assms show ?thesis by (auto simp: trusted_def)
qed

lemma held_connection_is_trusted_witness:
  "\<exists>why \<in> set (c_adopted (conn_run run_cfg run_events_1)). adoption_ref why = run_ref
    \<and> adopted_ok (c_granted (conn_run run_cfg run_events_1)) why"
  by (rule held_connection_is_trusted) (rule run_connects)

text \<open>
  C7: the terminals stay within the platform's channel budget. Whatever is attached, detached,
  evicted or recovered, there are never more open terminals than the bound the controller
  resolved from its options, and none is listed twice.
\<close>

theorem terminals_within_channel_budget:
  "length (c_open (conn_run (cfg\<lparr>cfg_maxOpenPtys := resolveMaxOpenPtys requested channels\<rparr>) es))
     \<le> resolveMaxOpenPtys requested channels
   \<and> distinct (c_open (conn_run cfg es))"
proof -
  let ?cfg = "cfg\<lparr>cfg_maxOpenPtys := resolveMaxOpenPtys requested channels\<rparr>"
  have "within (cfg_maxOpenPtys ?cfg) (conn_run ?cfg es)" "within (cfg_maxOpenPtys cfg) (conn_run cfg es)"
    by (rule within_conn_run)+
  with resolveMaxOpenPtys_pos [of requested channels] show ?thesis by (simp add: within_def max_def)
qed

text \<open>
  C3: there is one reconnect owner. In every state of every run the suspended continuations of
  recovery ladders belong to the one ladder the controller records, which has exactly one of
  them: a ladder is never doubled, and none is left behind without an owner.
\<close>

theorem one_recovery_ladder:
  "List.map_filter (\<lambda>t. ladder_of (snd t)) (c_tasks (conn_run cfg es)) =
   (case c_reconnectTask (conn_run cfg es) of None \<Rightarrow> [] | Some l \<Rightarrow> [l])"
proof -
  have "one_ladder (conn_run cfg es)" by (rule one_ladder_conn_run)
  then show ?thesis by (simp add: one_ladder_def ladders_def)
qed

text \<open>
  C8: a closed controller stays closed, and published revisions never go back. From any state on,
  the revision and the connect intent only grow; once the controller is closed it adopts no
  connection any more, and the one it held can only be dropped.
\<close>

theorem closed_controller_adopts_nothing:
  "sn_revision (c_snap (conn_run cfg es)) \<le> sn_revision (c_snap (conn_run cfg (es @ fs)))
   \<and> c_connectIntent (conn_run cfg es) \<le> c_connectIntent (conn_run cfg (es @ fs))
   \<and> (c_disposed (conn_run cfg es) \<longrightarrow>
       c_disposed (conn_run cfg (es @ fs))
       \<and> c_adopted (conn_run cfg (es @ fs)) = c_adopted (conn_run cfg es)
       \<and> c_connection (conn_run cfg (es @ fs)) \<in> {c_connection (conn_run cfg es), None})"
proof -
  have "since (conn_run cfg es) (run_events (conn_step cfg) (conn_run cfg es) fs)"
    by (rule grow_machine.run_inv) simp
  then show ?thesis by (auto simp: since_def run_events_append)
qed

lemma closed_controller_adopts_nothing_witness:
  "c_disposed (conn_run run_cfg ([(0, DoClose)] @ run_events_1))
   \<and> c_connection (conn_run run_cfg ([(0, DoClose)] @ run_events_1)) = None"
proof -
  have "c_disposed (conn_run run_cfg [(0, DoClose)])" "c_connection (conn_run run_cfg [(0, DoClose)]) = None"
    by code_simp+
  with closed_controller_adopts_nothing [of run_cfg "[(0, DoClose)]" run_events_1] show ?thesis by simp
qed

subsection \<open>Single operations\<close>

text \<open>
  Session identity is symmetric and transitive, and a session with a usable identity is the
  same as itself. A row with an identity never matches one without, and a blank identity matches
  nothing.
\<close>

theorem same_session_identity:
  "sameSession a b = sameSession b a
   \<and> (sameSession a b \<longrightarrow> sameSession b c \<longrightarrow> sameSession a c)
   \<and> (sameSession a a \<longleftrightarrow> \<not> blank_id (s_id a))
   \<and> (s_id a \<noteq> None \<longrightarrow> sameSession a b \<longrightarrow> s_id b = s_id a)"
  by (auto simp: sameSession_def split: if_splits)

lemma same_session_identity_witness:
  "sameSession (no_session\<lparr>s_id := Some ''7'', s_name := ''a''\<rparr>) (no_session\<lparr>s_id := Some ''7'', s_name := ''c''\<rparr>)
   \<and> s_id (no_session\<lparr>s_id := Some ''7'', s_name := ''c''\<rparr>) = Some ''7''"
proof -
  let ?a = "no_session\<lparr>s_id := Some ''7'', s_name := ''a''\<rparr>"
  let ?b = "no_session\<lparr>s_id := Some ''7'', s_name := ''b''\<rparr>"
  let ?c = "no_session\<lparr>s_id := Some ''7'', s_name := ''c''\<rparr>"
  have "sameSession ?a ?b" "sameSession ?b ?c" by code_simp+
  with same_session_identity [of ?a ?b ?c] same_session_identity [of ?a ?c ?c] show ?thesis by auto
qed

lemma heap_focus_remove [simp]:
  "tm_focusedAt (c_heap (removeTerminal u keep s) v) = tm_focusedAt (c_heap s v)"
  by (simp add: removeTerminal_def upd_terminal_def retire_def Let_def split: option.splits)

lemma heap_forget [simp]: "c_heap (forget_close p s) = c_heap s"
  by (simp add: forget_close_def suspend_def split: option.splits)

lemma oldest_of_le:
  "oldest_of h best us = Some u \<Longrightarrow> v \<in> set us \<or> best = Some v \<Longrightarrow> tm_focusedAt (h u) \<le> tm_focusedAt (h v)"
proof (induction us arbitrary: best v)
  case (Cons w us)
  show ?case
  proof (cases best)
    case None
    with Cons show ?thesis by auto
  next
    case (Some b)
    let ?b = "if tm_focusedAt (h w) < tm_focusedAt (h b) then w else b"
    have r: "oldest_of h (Some ?b) us = Some u" using Cons.prems(1) Some by simp
    have "tm_focusedAt (h u) \<le> tm_focusedAt (h ?b)" using Cons.IH [OF r, of ?b] by simp
    moreover have "tm_focusedAt (h u) \<le> tm_focusedAt (h v)" if "v \<in> set us"
      using Cons.IH [OF r, of v] that by simp
    ultimately show ?thesis using Cons.prems(2) Some by (auto split: if_splits)
  qed
qed simp

lemma leastRecentlyFocused_le:
  "leastRecentlyFocused s = Some u \<Longrightarrow> v \<in> set (c_open s) \<Longrightarrow>
   tm_focusedAt (c_heap s u) \<le> tm_focusedAt (c_heap s v)"
  unfolding leastRecentlyFocused_def by (erule oldest_of_le) simp

lemma evict_focus [simp]: "tm_focusedAt (c_heap (evict k b s) v) = tm_focusedAt (c_heap s v)"
  by (induction k arbitrary: s) (auto split: option.splits)

lemma evict_subset: "set (c_open (evict k b s)) \<subseteq> set (c_open s)"
proof (induction k arbitrary: s)
  case (Suc k)
  show ?case
  proof (cases "leastRecentlyFocused s")
    case (Some u)
    let ?t = "forget_close (tm_pty (c_heap s u)) (removeTerminal u False s)"
    have "set (c_open (evict k b ?t)) \<subseteq> set (c_open s)"
      using Suc.IH [of ?t] set_remove1_subset [of u "c_open s"] by auto
    with Some show ?thesis by simp
  qed simp
qed simp

lemma evicted_oldest:
  "kept \<in> set (c_open (evict k b s)) \<Longrightarrow> gone \<in> set (c_open s) \<Longrightarrow> gone \<notin> set (c_open (evict k b s)) \<Longrightarrow>
   tm_focusedAt (c_heap s gone) \<le> tm_focusedAt (c_heap s kept)"
proof (induction k arbitrary: s)
  case (Suc k)
  show ?case
  proof (cases "length (c_open s) < b \<or> leastRecentlyFocused s = None")
    case True
    then have "evict (Suc k) b s = s" by (auto split: option.splits)
    with Suc.prems(2,3) show ?thesis by simp
  next
    case False
    then obtain u where u: "leastRecentlyFocused s = Some u" by auto
    let ?t = "forget_close (tm_pty (c_heap s u)) (removeTerminal u False s)"
    have e: "evict (Suc k) b s = evict k b ?t" using False u by simp
    have k: "kept \<in> set (c_open s)" using Suc.prems(1) evict_subset by blast
    show ?thesis
    proof (cases "gone \<in> set (c_open ?t)")
      case True
      from Suc.IH [of ?t, OF _ this] Suc.prems(1,3) e show ?thesis by simp
    next
      case False
      with Suc.prems(2) have "gone = u" using in_set_remove1 [of gone u "c_open s"] by auto
      with leastRecentlyFocused_le [OF u k] show ?thesis by simp
    qed
  qed
qed simp

text \<open>
  A new terminal evicts the least recently focused ones. After the eviction there is room
  below the bound, nothing else was closed, and no evicted terminal was focused after one that
  was kept.
\<close>

theorem eviction_is_least_recently_focused:
  assumes "0 < bound"
  shows "length (c_open (evict (length (c_open s)) bound s)) < bound
    \<and> set (c_open (evict (length (c_open s)) bound s)) \<subseteq> set (c_open s)
    \<and> (kept \<in> set (c_open (evict (length (c_open s)) bound s)) \<and> gone \<in> set (c_open s)
        \<and> gone \<notin> set (c_open (evict (length (c_open s)) bound s)) \<longrightarrow>
       tm_focusedAt (c_heap s gone) \<le> tm_focusedAt (c_heap s kept))"
  using evict_enough [of s "length (c_open s)" bound] evict_subset evicted_oldest assms by auto

definition three_open :: controller where
  "three_open = new_controller\<lparr>c_open := [0, 1, 2],
     c_heap := (\<lambda>u. no_terminal\<lparr>tm_focusedAt := [5, 1, 9] ! u\<rparr>)\<rparr>"

lemma eviction_is_least_recently_focused_witness:
  "length (c_open (evict (length (c_open three_open)) 3 three_open)) < 3
   \<and> tm_focusedAt (c_heap three_open 1) \<le> tm_focusedAt (c_heap three_open 0)"
proof -
  have "0 \<in> set (c_open (evict (length (c_open three_open)) 3 three_open))"
    "1 \<in> set (c_open three_open)" "1 \<notin> set (c_open (evict (length (c_open three_open)) 3 three_open))"
    by code_simp+
  with eviction_is_least_recently_focused [of 3 three_open 0 1] show ?thesis by simp
qed

text \<open>
  A refused gateway request disturbs nothing, and accepting a key once is never written
  down. A gateway-marked connect the platform must refuse, while the controller holds a host,
  only answers its caller; accepting a presented key for one connection only never reaches the
  trust store, and a changed key cannot be accepted that way at all.
\<close>

theorem refusals_disturb_nothing:
  "(\<not> c_disposed s \<and> hasGatewayMarker (t_extra h) \<and> c_host s \<noteq> None
      \<and> (isKeyHandleCredential (t_credential h) \<longrightarrow> isValidSshKeyHandleCredential (t_credential h))
      \<and> gatewayAdmission cfg h = Refused reason label \<longrightarrow>
    connect cfg op h s = s\<lparr>c_outcomes := (op, Fail Failed (TransportRefused reason label)) # c_outcomes s\<rparr>)
   \<and> c_recorded (acceptPresentedHostKey cfg op pass False s) = c_recorded s
   \<and> (c_host s \<noteq> None \<and> sn_trust (c_snap s) = Some d \<and> td_mismatch d \<longrightarrow>
      acceptPresentedHostKey cfg op pass False s =
        s\<lparr>c_outcomes := (op, Fail TrustMismatch
            (Msg ''A changed host key cannot be trusted for one connection only.'')) # c_outcomes s\<rparr>)"
  by (auto simp: connect_def acceptPresentedHostKey_def accept_done_def Let_def state_prims
      split: option.splits transport_decision.splits)

definition gateway_host :: ssh_target where
  "gateway_host = run_host\<lparr>t_extra := [(''gateway'', Bool True)]\<rparr>"

lemma refusals_disturb_nothing_witness:
  "\<exists>reason label. connect run_cfg 9 gateway_host (conn_run run_cfg run_events_1) =
     (conn_run run_cfg run_events_1)\<lparr>c_outcomes := (9, Fail Failed (TransportRefused reason label))
        # c_outcomes (conn_run run_cfg run_events_1)\<rparr>"
proof -
  have "\<exists>reason label. gatewayAdmission run_cfg gateway_host = Refused reason label"
    by (cases "gatewayAdmission run_cfg gateway_host") (simp_all, code_simp)
  moreover have "\<not> c_disposed (conn_run run_cfg run_events_1)" "hasGatewayMarker (t_extra gateway_host)"
    "c_host (conn_run run_cfg run_events_1) \<noteq> None" "\<not> isKeyHandleCredential (t_credential gateway_host)"
    by code_simp+
  ultimately show ?thesis
    using refusals_disturb_nothing [of "conn_run run_cfg run_events_1" gateway_host run_cfg] by blast
qed

subsection \<open>What the runs show besides\<close>

text \<open>
  A transport that dies while the ladder lists sessions ends the ladder. Recovery that the
  failed listing asks for joins the ladder that is running, which then finds the phase
  \<open>PhaseError\<close> instead of \<open>Reconnecting\<close> and stops: no further dial is made.
\<close>

lemma lost_listing_ends_ladder:
  fixes e :: caught
  assumes "c_reconnectTask s = Some l" and "c_connection s = Some conn" and "sn_phase (c_snap s) = Listing"
    and "\<not> hasLiveTerminal s" and "isCurrentConnect l s"
  defines "t \<equiv> set_snapshot (\<lambda>n. n\<lparr>sn_error := Some (caught_text e), sn_phase := PhaseError\<rparr>) s"
  shows "list_failed (ListLadder l host reason attempt) conn e s =
      list_return (ListLadder l host reason attempt) (Fail Failed (caught_text e)) t"
    and "sn_phase (c_snap t) = PhaseError" and "c_connection t = Some conn"
    and "ladder_listed cfg l host reason attempt (Fail Failed (caught_text e)) t = ladder_end l t"
  using assms
  by (simp_all add: list_failed_def startReconnect_def reconnectAndAttach_def isCurrentGeneration_def
      ladder_listed_def isCurrentConnect_def live_or_def hasLiveTerminal_def set_snapshot_def Let_def)

text \<open>
  A superseded connect whose probe fails still tears the transport down, without the check of
  its intent. The connect that superseded it is then told that its own probe found the connection
  alive, and answers with success and no connection.
\<close>

definition superseded_probe :: "(int \<times> conn_event) list" where
  "superseded_probe = run_events_1 @
     [(6, Resume 0 Done), (7, DoConnect run_host), (8, Resume 0 Done), (9, DoConnect run_host), (10, Resume 1 Done),
      (11, Resume 0 (Threw (ThrownText ''probe failed''))), (12, Resume 1 Done),
      (13, Resume 0 (StateIs (replicate 5 CHR ''x'') StConnected))]"

lemma superseded_probe_tears_down:
  "hd (c_outcomes (conn_run run_cfg superseded_probe)) = (9, Okay (ConnValue None))"
  by code_simp

text \<open>
  An acknowledged grace schedule sets the phase \<open>Background\<close> on whatever the controller has
  become in the meantime: here it was closed before the acknowledgement came.
\<close>

definition late_acknowledgement :: "(int \<times> conn_event) list" where
  "late_acknowledgement = run_events_1 @
     [(6, Resume 0 Done), (7, DoBackground (Some 1000)), (8, DoClose), (9, Resume 1 Done), (10, Resume 1 Done),
      (11, Resume 1 Done), (12, Resume 1 Done), (13, Resume 0 (Acked (replicate 2 CHR ''x'')))]"

lemma late_acknowledgement_backgrounds:
  "c_disposed (conn_run run_cfg late_acknowledgement) \<and> c_connection (conn_run run_cfg late_acknowledgement) = None
   \<and> sn_phase (c_snap (conn_run run_cfg late_acknowledgement)) = Background"
  by code_simp

end
