(* ===== verification/Js_Strings.thy ===== *)
theory Js_Strings
  imports Js_Values "HOL-Library.Sublist"
begin

text \<open>
  The string methods several components share: \<open>split\<close> and \<open>join\<close> at one character,
  \<open>lastIndexOf\<close>, and the replacement of runs of characters by a regular expression
  \<open>/[class]+/g\<close>, with the laws that relate them.
\<close>

subsection \<open>Splitting and joining\<close>

fun split_on :: "char \<Rightarrow> string \<Rightarrow> string list" where
  "split_on c [] = [[]]"
| "split_on c (x # xs) =
     (if x = c then [] # split_on c xs
      else (case split_on c xs of [] \<Rightarrow> [[x]] | w # ws \<Rightarrow> (x # w) # ws))"

fun join_with :: "string \<Rightarrow> string list \<Rightarrow> string" where
  "join_with sep [] = []"
| "join_with sep [w] = w"
| "join_with sep (w # v # ws) = w @ sep @ join_with sep (v # ws)"

lemma split_on_not_Nil [simp]: "split_on c s \<noteq> []"
  by (induction s) (auto split: list.splits)

lemma split_on_no_sep: "w \<in> set (split_on c s) \<Longrightarrow> c \<notin> set w"
  by (induction s arbitrary: w) (auto split: list.splits if_splits)

lemma split_on_chars: "w \<in> set (split_on c s) \<Longrightarrow> set w \<subseteq> set s"
  by (induction s arbitrary: w) (fastforce split: list.splits if_splits)+

lemma split_on_plain: "c \<notin> set w \<Longrightarrow> split_on c w = [w]"
  by (induction w) auto

lemma split_on_sep: "split_on c (a @ c # b) = split_on c a @ split_on c b"
  by (induction a) (auto split: list.splits)

lemma join_split: "join_with [c] (split_on c s) = s"
proof (induction s)
  case (Cons x s)
  then show ?case by (cases "split_on c s"; cases "tl (split_on c s)") (auto split: list.splits)
qed simp

lemma join_with_snoc: "ws \<noteq> [] \<Longrightarrow> join_with sep (ws @ [w]) = join_with sep ws @ sep @ w"
  by (induction sep ws rule: join_with.induct) auto

lemma join_with_append:
  "vs \<noteq> [] \<Longrightarrow> ws \<noteq> [] \<Longrightarrow> join_with sep (vs @ ws) = join_with sep vs @ sep @ join_with sep ws"
proof (induction sep vs rule: join_with.induct)
  case (2 sep w)
  then show ?case by (cases ws) auto
qed auto

lemma split_join:
  "ws \<noteq> [] \<Longrightarrow> \<forall>w\<in>set ws. c \<notin> set w \<Longrightarrow> split_on c (join_with [c] ws) = ws"
  by (induction "[c]" ws rule: join_with.induct) (auto simp: split_on_plain split_on_sep)

lemma set_join_with: "set (join_with sep ws) \<subseteq> set sep \<union> \<Union> (set ` set ws)"
  by (induction sep ws rule: join_with.induct) auto

subsection \<open>Searching from the right\<close>

fun last_index :: "char \<Rightarrow> string \<Rightarrow> nat option" where
  "last_index c [] = None"
| "last_index c (x # xs) =
     (case last_index c xs of Some i \<Rightarrow> Some (Suc i) | None \<Rightarrow> if x = c then Some 0 else None)"

lemma last_index_None: "last_index c s = None \<longleftrightarrow> c \<notin> set s"
  by (induction s) (auto split: option.splits)

lemma last_index_split: "c \<notin> set b \<Longrightarrow> last_index c (a @ c # b) = Some (length a)"
  by (induction a) (auto simp: last_index_None split: option.splits)

lemma last_index_less: "last_index c s = Some i \<Longrightarrow> i < length s \<and> s ! i = c"
  by (induction s arbitrary: i) (auto split: option.splits if_splits)

subsection \<open>Replacing runs\<close>

text \<open>\<open>s.replace(/[P]+/g, r)\<close>: every maximal run of characters in \<open>P\<close> becomes \<open>r\<close>.\<close>

fun squeeze :: "(char \<Rightarrow> bool) \<Rightarrow> string \<Rightarrow> bool \<Rightarrow> string \<Rightarrow> string" where
  "squeeze P r inside [] = []"
| "squeeze P r inside (c # cs) =
     (if P c then (if inside then [] else r) @ squeeze P r True cs
      else c # squeeze P r False cs)"

definition replace_runs :: "(char \<Rightarrow> bool) \<Rightarrow> string \<Rightarrow> string \<Rightarrow> string" where
  "replace_runs P r s = squeeze P r False s"

lemma squeeze_id: "list_all (\<lambda>c. \<not> P c) s \<Longrightarrow> squeeze P r b s = s"
  by (induction s arbitrary: b) auto

lemma set_squeeze: "set (squeeze P r b s) \<subseteq> {c \<in> set s. \<not> P c} \<union> set r"
  by (induction s arbitrary: b) auto

lemma replace_runs_id: "list_all (\<lambda>c. \<not> P c) s \<Longrightarrow> replace_runs P r s = s"
  by (simp add: replace_runs_def squeeze_id)

lemma set_replace_runs: "set (replace_runs P r s) \<subseteq> {c \<in> set s. \<not> P c} \<union> set r"
  unfolding replace_runs_def by (rule set_squeeze)

text \<open>\<open>s.replace(/^[P]+/, '')\<close> and \<open>s.replace(/[P]+$/, '')\<close>.\<close>

definition trim_right :: "(char \<Rightarrow> bool) \<Rightarrow> string \<Rightarrow> string" where
  "trim_right P s = rev (dropWhile P (rev s))"

definition trim_ends :: "(char \<Rightarrow> bool) \<Rightarrow> string \<Rightarrow> string" where
  "trim_ends P s = trim_right P (dropWhile P s)"

lemma trim_right_prefix: "prefix (trim_right P s) s"
  unfolding trim_right_def using suffix_dropWhile [of P "rev s", unfolded suffix_to_prefix] by simp

lemma trim_ends_sublist: "set (trim_ends P s) \<subseteq> set s"
  unfolding trim_ends_def
  by (rule subset_trans [OF set_mono_prefix [OF trim_right_prefix] set_mono_suffix [OF suffix_dropWhile]])

lemma trim_right_last: "trim_right P s \<noteq> [] \<Longrightarrow> \<not> P (last (trim_right P s))"
  using hd_dropWhile [of P "rev s"] by (auto simp: trim_right_def last_rev)

lemma trim_right_fixed: "s = [] \<or> \<not> P (last s) \<Longrightarrow> trim_right P s = s"
  by (cases s rule: rev_cases) (auto simp: trim_right_def)

lemma trim_right_hd: "trim_right P s \<noteq> [] \<Longrightarrow> hd (trim_right P s) = hd s"
  using trim_right_prefix [of P s] by (metis hd_append2 prefixE)

lemma trim_ends_no_edge:
  "trim_ends P s \<noteq> [] \<Longrightarrow> \<not> P (hd (trim_ends P s)) \<and> \<not> P (last (trim_ends P s))"
proof -
  assume n: "trim_ends P s \<noteq> []"
  then have d: "dropWhile P s \<noteq> []"
    by (auto simp: trim_ends_def trim_right_def simp del: dropWhile_eq_Nil_conv)
  with n show ?thesis
    using hd_dropWhile [OF d] by (simp add: trim_ends_def trim_right_last trim_right_hd)
qed

lemma trim_ends_fixed: "s = [] \<or> \<not> P (hd s) \<and> \<not> P (last s) \<Longrightarrow> trim_ends P s = s"
  by (cases s) (auto simp: trim_ends_def trim_right_fixed)

lemma trim_ends_idem [simp]: "trim_ends P (trim_ends P s) = trim_ends P s"
  using trim_ends_no_edge [of P s] by (intro trim_ends_fixed) auto

end
