(* ===== verification/Remote_Paths.thy ===== *)
theory Remote_Paths
  imports Js_Strings
begin

text \<open>
  The POSIX path rules for remote SFTP paths (src/src/remotePathPolicy.ts): normalisation,
  resolution of home-relative and relative paths, child, parent and name of a path, and the
  lexical containment check, with the list of segments as the abstract view of a path.
\<close>

definition NUL :: char where "NUL = CHR 0x00"

subsection \<open>Operations\<close>

fun fold_segments :: "string list \<Rightarrow> string list \<Rightarrow> string list" where
  "fold_segments acc [] = acc"
| "fold_segments acc (segment # rest) =
     (if segment = [] \<or> segment = ''.'' then fold_segments acc rest
      else if segment = ''..'' then fold_segments (butlast acc) rest
      else fold_segments (acc @ [segment]) rest)"

definition render_segments :: "string list \<Rightarrow> string" where
  "render_segments segments = (if segments = [] then ''/'' else ''/'' @ join_with ''/'' segments)"

definition normalizeRemotePath :: "string \<Rightarrow> string option" where
  "normalizeRemotePath path =
     (if NUL \<in> set path then None
      else Some (render_segments (fold_segments [] (split_on (CHR ''/'') path))))"

definition isHomeRelativeRemotePath :: "string \<Rightarrow> bool" where
  "isHomeRelativeRemotePath path \<longleftrightarrow>
     path = ''~'' \<or> starts_with path ''~/'' \<or> path = ''$HOME'' \<or> starts_with path ''$HOME/''"

definition expandRemoteHome :: "string \<Rightarrow> string option \<Rightarrow> string option" where
  "expandRemoteHome path home =
     (if NUL \<in> set path then None
      else if \<not> isHomeRelativeRemotePath path then Some path
      else
        (case (case home of None \<Rightarrow> None
               | Some h \<Rightarrow> if js_trim h = [] then None else normalizeRemotePath (js_trim h)) of
           None \<Rightarrow> None
         | Some normalizedHome \<Rightarrow>
             if path = ''~'' \<or> path = ''$HOME'' then Some normalizedHome
             else
               let tail = (if starts_with path ''~/'' then drop 2 path else drop 6 path) in
               normalizeRemotePath (normalizedHome @ ''/'' @ tail)))"

definition resolveRemotePath :: "string \<Rightarrow> string option \<Rightarrow> string option \<Rightarrow> string option" where
  "resolveRemotePath path base home =
     (if NUL \<in> set path then None
      else
        case expandRemoteHome path home of
          None \<Rightarrow> None
        | Some expanded \<Rightarrow>
            if starts_with expanded ''/'' then normalizeRemotePath expanded
            else if starts_with expanded ''~'' then None
            else
              (case (case base of None \<Rightarrow> Some ''/''
                     | Some b \<Rightarrow> if b = [] then Some ''/'' else expandRemoteHome b home) of
                 None \<Rightarrow> None
               | Some expandedBase \<Rightarrow>
                   (case normalizeRemotePath expandedBase of
                      None \<Rightarrow> None
                    | Some normalizedBase \<Rightarrow> normalizeRemotePath (normalizedBase @ ''/'' @ expanded))))"

datatype child_reason = EmptyName | DotSegment | Separator | NulByte | InvalidDirectory

definition joinRemoteChildPath :: "string \<Rightarrow> string \<Rightarrow> child_reason + string" where
  "joinRemoteChildPath directory name =
     (if NUL \<in> set name then Inl NulByte
      else if name = [] then Inl EmptyName
      else if name = ''.'' \<or> name = ''..'' then Inl DotSegment
      else if CHR ''/'' \<in> set name then Inl Separator
      else
        case normalizeRemotePath directory of
          None \<Rightarrow> Inl InvalidDirectory
        | Some base \<Rightarrow> Inr (if base = ''/'' then ''/'' @ name else base @ ''/'' @ name))"

definition parentRemotePath :: "string \<Rightarrow> string option" where
  "parentRemotePath path =
     (case normalizeRemotePath path of
        None \<Rightarrow> None
      | Some normalized \<Rightarrow>
          if normalized = ''/'' then Some ''/''
          else
            (case last_index (CHR ''/'') normalized of
               Some i \<Rightarrow> if i = 0 then Some ''/'' else Some (take i normalized)
             | None \<Rightarrow> Some ''/''))"

definition remotePathName :: "string \<Rightarrow> string option" where
  "remotePathName path =
     (case normalizeRemotePath path of
        None \<Rightarrow> None
      | Some normalized \<Rightarrow>
          if normalized = ''/'' then Some ''/''
          else
            (case last_index (CHR ''/'') normalized of
               Some i \<Rightarrow> Some (drop (Suc i) normalized)
             | None \<Rightarrow> Some normalized))"

definition isRemotePathWithin :: "string \<Rightarrow> string \<Rightarrow> bool" where
  "isRemotePathWithin root candidate =
     (case (normalizeRemotePath root, normalizeRemotePath candidate) of
        (Some r, Some c) \<Rightarrow>
          if c = r then True
          else if r = ''/'' then starts_with c ''/'' else starts_with c (r @ ''/'')
      | _ \<Rightarrow> False)"

subsection \<open>Segments\<close>

text \<open>The abstract view: where a path leads, one name per directory level.\<close>

definition segment_ok :: "string \<Rightarrow> bool" where
  "segment_ok w \<longleftrightarrow> w \<noteq> [] \<and> w \<noteq> ''.'' \<and> w \<noteq> ''..'' \<and> CHR ''/'' \<notin> set w \<and> NUL \<notin> set w"

definition path_segments :: "string \<Rightarrow> string list option" where
  "path_segments path =
     (if NUL \<in> set path then None else Some (fold_segments [] (split_on (CHR ''/'') path)))"

lemma normalize_segments: "normalizeRemotePath path = map_option render_segments (path_segments path)"
  by (simp add: normalizeRemotePath_def path_segments_def)

lemma fold_segments_ok:
  "\<forall>w\<in>set ws. CHR ''/'' \<notin> set w \<and> NUL \<notin> set w \<Longrightarrow> \<forall>w\<in>set acc. segment_ok w \<Longrightarrow>
   \<forall>w\<in>set (fold_segments acc ws). segment_ok w"
proof (induction acc ws rule: fold_segments.induct)
  case (2 acc segment rest)
  have b: "\<forall>w\<in>set (butlast acc). segment_ok w"
    using "2.prems"(2) by (auto dest: in_set_butlastD)
  have r: "\<forall>w\<in>set rest. CHR ''/'' \<notin> set w \<and> NUL \<notin> set w" using "2.prems"(1) by simp
  show ?case
  proof (cases "segment = [] \<or> segment = ''.''")
    case True
    with "2.IH"(1) [OF True r "2.prems"(2)] show ?thesis by simp
  next
    case False
    show ?thesis
    proof (cases "segment = ''..''")
      case True
      with False "2.IH"(2) [OF False True r b] show ?thesis by simp
    next
      case up: False
      with False "2.prems" have "\<forall>w\<in>set (acc @ [segment]). segment_ok w" by (simp add: segment_ok_def)
      with False up "2.IH"(3) [OF False up r] show ?thesis by simp
    qed
  qed
qed simp

lemma path_segments_ok:
  assumes "path_segments path = Some ws"
  shows "\<forall>w\<in>set ws. segment_ok w"
proof -
  have "\<forall>w\<in>set (split_on (CHR ''/'') path). CHR ''/'' \<notin> set w \<and> NUL \<notin> set w"
    using assms split_on_no_sep split_on_chars by (fastforce simp: path_segments_def split: if_splits)
  then have "\<forall>w\<in>set (fold_segments [] (split_on (CHR ''/'') path)). segment_ok w"
    by (rule fold_segments_ok) simp
  with assms show ?thesis by (auto simp: path_segments_def split: if_splits)
qed

lemma fold_segments_plain: "\<forall>w\<in>set ws. segment_ok w \<Longrightarrow> fold_segments acc ws = acc @ ws"
  by (induction acc ws rule: fold_segments.induct) (auto simp: segment_ok_def)

lemma fold_segments_append: "fold_segments acc (vs @ ws) = fold_segments (fold_segments acc vs) ws"
  by (induction acc vs rule: fold_segments.induct) auto

lemma NUL_slash [simp]: "NUL \<noteq> CHR ''/''" "CHR ''/'' \<noteq> NUL"
  by (simp_all add: NUL_def)

lemma NUL_render: "\<forall>w\<in>set ws. segment_ok w \<Longrightarrow> NUL \<notin> set (render_segments ws)"
  using set_join_with [of "''/''" ws] by (auto simp: render_segments_def segment_ok_def)

lemma split_render:
  "\<forall>w\<in>set ws. segment_ok w \<Longrightarrow> split_on (CHR ''/'') (render_segments ws) = [] # (if ws = [] then [[]] else ws)"
  by (simp add: render_segments_def split_join segment_ok_def)

lemma segments_render: "\<forall>w\<in>set ws. segment_ok w \<Longrightarrow> path_segments (render_segments ws) = Some ws"
  by (simp add: path_segments_def NUL_render split_render fold_segments_plain)

lemma segments_append:
  "path_segments a = Some ws \<Longrightarrow> NUL \<notin> set b \<Longrightarrow>
   path_segments (a @ ''/'' @ b) = Some (fold_segments ws (split_on (CHR ''/'') b))"
  by (simp add: path_segments_def split_on_sep fold_segments_append split: if_splits)

lemma render_eq_root [simp]: "\<forall>w\<in>set ws. segment_ok w \<Longrightarrow> render_segments ws = ''/'' \<longleftrightarrow> ws = []"
proof -
  assume ok: "\<forall>w\<in>set ws. segment_ok w"
  have "render_segments [] = ''/''" by (simp add: render_segments_def)
  with segments_render [OF ok] segments_render [of "[]"] show ?thesis by auto
qed

lemma render_inj:
  "\<forall>w\<in>set vs. segment_ok w \<Longrightarrow> \<forall>w\<in>set ws. segment_ok w \<Longrightarrow>
   render_segments vs = render_segments ws \<longleftrightarrow> vs = ws"
  using segments_render by (metis option.inject)

lemma render_snoc: "ws \<noteq> [] \<Longrightarrow> render_segments (ws @ [w]) = render_segments ws @ ''/'' @ w"
  by (simp add: render_segments_def join_with_snoc)

lemma segments_prefix:
  assumes v: "\<forall>w\<in>set vs. segment_ok w" and w: "\<forall>w\<in>set ws. segment_ok w" and n: "vs \<noteq> []"
  shows "starts_with (render_segments ws) (render_segments vs @ ''/'') \<longleftrightarrow> strict_prefix vs ws"
proof
  assume "starts_with (render_segments ws) (render_segments vs @ ''/'')"
  then obtain b where b: "render_segments ws = render_segments vs @ ''/'' @ b"
    by (auto dest!: starts_withD)
  let ?bs = "split_on (CHR ''/'') b"
  have "split_on (CHR ''/'') (render_segments ws) = split_on (CHR ''/'') (render_segments vs) @ ?bs"
    by (simp add: b split_on_sep)
  then have "[] # (if ws = [] then [[]] else ws) = [] # vs @ ?bs"
    using n by (simp add: split_render [OF v] split_render [OF w])
  then show "strict_prefix vs ws"
    using n by (cases vs) (auto simp: strict_prefix_def prefix_def split: if_splits)
next
  assume "strict_prefix vs ws"
  then obtain us where "ws = vs @ us" "us \<noteq> []" by (auto simp: strict_prefix_def prefix_def)
  with n show "starts_with (render_segments ws) (render_segments vs @ ''/'')"
    by (simp add: render_segments_def join_with_append starts_with_def)
qed

subsection \<open>Properties\<close>

text \<open>
  The containment check is containment of segment lists: a candidate is within a root exactly
  when both resolve and the segments of the root are an initial part of those of the candidate,
  so \<open>..\<close> cannot escape and a sibling whose name merely starts the same is outside.
\<close>

lemma within_segments:
  "isRemotePathWithin root candidate \<longleftrightarrow>
     (\<exists>rs cs. path_segments root = Some rs \<and> path_segments candidate = Some cs \<and> prefix rs cs)"
proof (cases "path_segments root"; cases "path_segments candidate")
  fix rs cs assume s: "path_segments root = Some rs" "path_segments candidate = Some cs"
  note ok = path_segments_ok [OF s(1)] path_segments_ok [OF s(2)]
  have root: "starts_with (render_segments cs) ''/''" by (simp add: render_segments_def starts_with_def)
  show ?thesis
  proof (cases "rs = []")
    case True
    with s root show ?thesis by (simp add: isRemotePathWithin_def normalize_segments render_segments_def)
  next
    case False
    then show ?thesis
      using segments_prefix [OF ok False] render_inj [OF ok(2,1)] render_eq_root [OF ok(1)]
      by (auto simp: isRemotePathWithin_def normalize_segments s prefix_order.le_less)
  qed
qed (simp_all add: isRemotePathWithin_def normalize_segments)

lemma normalize_idem:
  "normalizeRemotePath p = Some q \<Longrightarrow> normalizeRemotePath q = Some q \<and> starts_with q ''/''"
  using path_segments_ok segments_render
  by (auto simp: normalize_segments render_segments_def starts_with_def)

lemma resolved_segments:
  "normalizeRemotePath p = Some q \<Longrightarrow> \<exists>ws. path_segments p = Some ws \<and> path_segments q = Some ws"
  using path_segments_ok segments_render by (auto simp: normalize_segments)

text \<open>
  The containment check is containment of segment lists. A candidate is within a root exactly
  when both resolve and the root's segments are an initial part of the candidate's; normal forms
  are absolute, canonical and lead where the path leads, and containment is transitive.
\<close>

theorem path_containment_is_prefix:
  "(isRemotePathWithin root candidate \<longleftrightarrow>
     (\<exists>rs cs. path_segments root = Some rs \<and> path_segments candidate = Some cs \<and> prefix rs cs))
   \<and> (normalizeRemotePath root = Some q \<longrightarrow>
       normalizeRemotePath q = Some q \<and> starts_with q ''/'' \<and> path_segments q = path_segments root)
   \<and> (isRemotePathWithin root candidate \<longrightarrow> isRemotePathWithin candidate c \<longrightarrow> isRemotePathWithin root c)"
proof (intro conjI impI)
  assume "isRemotePathWithin root candidate" "isRemotePathWithin candidate c"
  then show "isRemotePathWithin root c"
    unfolding within_segments using prefix_order.trans by fastforce
qed (use within_segments normalize_idem resolved_segments in fastforce)+

lemma path_containment_is_prefix_witness:
  "isRemotePathWithin ''/home/me'' ''/home/me/../me/x'' \<and> \<not> isRemotePathWithin ''/home/me'' ''/home/me/../you''
   \<and> isRemotePathWithin ''/home'' ''/home/me/../me/x''"
proof -
  have "isRemotePathWithin ''/home'' ''/home/me''" "isRemotePathWithin ''/home/me'' ''/home/me/../me/x''"
    "\<not> isRemotePathWithin ''/home/me'' ''/home/me/../you''"
    by code_simp+
  with path_containment_is_prefix [of "''/home''" "''/home/me''" "''/home''" "''/home/me/../me/x''"]
  show ?thesis by simp
qed

lemma joined_segments:
  assumes "joinRemoteChildPath dir name = Inr path"
  shows "\<exists>ws. path_segments dir = Some ws \<and> segment_ok name \<and> path = render_segments (ws @ [name])
    \<and> (\<forall>w\<in>set (ws @ [name]). segment_ok w)"
proof -
  from assms obtain ws where ws: "path_segments dir = Some ws" and name: "segment_ok name"
    and p: "path = (if render_segments ws = ''/'' then ''/'' @ name else render_segments ws @ ''/'' @ name)"
    by (cases "path_segments dir")
      (auto simp: joinRemoteChildPath_def normalize_segments segment_ok_def split: if_splits)
  note ok = path_segments_ok [OF ws]
  have "path = render_segments (ws @ [name])"
    using p ok by (cases "ws = []") (simp_all add: render_snoc, simp add: render_segments_def)
  with ws name ok show ?thesis by auto
qed

lemma rendered_snoc:
  "\<exists>a. render_segments (ws @ [w]) = a @ ''/'' @ w \<and> a = (if ws = [] then [] else render_segments ws)"
  using render_snoc [of ws w] by (cases "ws = []") (simp_all, simp add: render_segments_def)

text \<open>
  A child path is one level below its directory and nowhere else. Joining an entry name that a
  host or a user supplied yields a path strictly inside the directory whose parent is the
  directory and whose name is the entry; a name that could be a path of its own is refused.
\<close>

theorem child_path_is_one_level_below:
  assumes "joinRemoteChildPath dir name = Inr path"
  shows "isRemotePathWithin dir path \<and> \<not> isRemotePathWithin path dir
    \<and> parentRemotePath path = normalizeRemotePath dir \<and> remotePathName path = Some name
    \<and> normalizeRemotePath path = Some path"
proof -
  from joined_segments [OF assms] obtain ws where ws: "path_segments dir = Some ws" "segment_ok name"
    "path = render_segments (ws @ [name])" and ok: "\<forall>w\<in>set (ws @ [name]). segment_ok w"
    by auto
  note seg = segments_render [OF ok]
  have norm: "normalizeRemotePath path = Some path" by (simp add: normalize_segments seg ws(3))
  from rendered_snoc [of ws name] obtain a where a: "path = a @ ''/'' @ name"
    "a = (if ws = [] then [] else render_segments ws)" using ws(3) by auto
  have l: "last_index (CHR ''/'') path = Some (length a)"
    using a ws(2) by (simp add: last_index_split segment_ok_def)
  have "1 < length path" using a ws(2) by (simp add: segment_ok_def)
  then have r: "path \<noteq> ''/''" by auto
  have "parentRemotePath path = Some (if a = [] then ''/'' else take (length a) path)"
    using l r by (simp add: parentRemotePath_def norm)
  then have "parentRemotePath path = normalizeRemotePath dir"
    using ws(1) a by (simp add: normalize_segments) (simp add: render_segments_def)
  moreover have "remotePathName path = Some (drop (Suc (length a)) path)"
    using l r by (simp add: remotePathName_def norm)
  then have "remotePathName path = Some name" by (simp add: a(1))
  moreover have "isRemotePathWithin dir path \<and> \<not> isRemotePathWithin path dir"
    using ws(1,3) seg by (simp add: within_segments)
  ultimately show ?thesis using norm by simp
qed

lemma child_path_is_one_level_below_witness:
  "parentRemotePath ''/srv/data/.. x'' = Some ''/srv/data''"
proof -
  have "joinRemoteChildPath ''/srv/./data/'' ''.. x'' = Inr ''/srv/data/.. x''"
    "normalizeRemotePath ''/srv/./data/'' = Some ''/srv/data''"
    by code_simp+
  with child_path_is_one_level_below show ?thesis by fastforce
qed

text \<open>A resolved path is a normal form, and a home-relative path with a home stays inside it or above.\<close>

lemma resolved_is_normal:
  "resolveRemotePath path base home = Some q \<Longrightarrow> normalizeRemotePath q = Some q"
  by (auto simp: resolveRemotePath_def normalize_idem split: if_splits option.splits)

end
