(* ===== verification/Session_Names.thy ===== *)
theory Session_Names
  imports Js_Strings
begin

text \<open>
  Session names and tags (src/src/sessionNameParts.ts): the character rules, the name derived from
  a folder, and the user's label with its fallbacks.
\<close>

subsection \<open>Operations\<close>

definition alphanumeric :: "char \<Rightarrow> bool" where
  "alphanumeric c =
     (let n = of_char c :: nat in (65 \<le> n \<and> n \<le> 90) \<or> (97 \<le> n \<and> n \<le> 122) \<or> (48 \<le> n \<and> n \<le> 57))"

definition session_char :: "char \<Rightarrow> bool" where
  "session_char c \<longleftrightarrow> alphanumeric c \<or> c = CHR ''_'' \<or> c = CHR ''-''"

definition normalisePart :: "string \<Rightarrow> string" where
  "normalisePart part =
     replace_runs (\<lambda>c. \<not> session_char c) ''-''
       (replace_runs (\<lambda>c. c = CHR ''.'' \<or> c = CHR '':'') ''_'' part)"

definition sanitisePart :: "string \<Rightarrow> string" where
  "sanitisePart part = trim_ends (\<lambda>c. c = CHR ''-'') (normalisePart part)"

definition splitPathParts :: "string \<Rightarrow> string list" where
  "splitPathParts path = filter (\<lambda>p. p \<noteq> [] \<and> p \<noteq> ''.'') (split_on (CHR ''/'') path)"

definition joinParts :: "string list \<Rightarrow> string" where
  "joinParts parts = join_with ''-'' (filter (\<lambda>p. p \<noteq> []) (map sanitisePart parts))"

definition trimTrailingSlash :: "string \<Rightarrow> string" where
  "trimTrailingSlash value = trim_right (\<lambda>c. c = CHR ''/'') value"

definition after_slash :: "string \<Rightarrow> string" where
  "after_slash s = (case last_index (CHR ''/'') s of None \<Rightarrow> s | Some i \<Rightarrow> drop (Suc i) s)"

text \<open>\<open>a || b\<close> on strings.\<close>

definition or_text :: "string \<Rightarrow> string \<Rightarrow> string" where
  "or_text a b = (if a = [] then b else a)"

definition sessionBaseName :: "string \<Rightarrow> string option \<Rightarrow> string" where
  "sessionBaseName startDirectory homeDirectory =
     (let trimmedHome = trimTrailingSlash (js_trim (case homeDirectory of None \<Rightarrow> [] | Some h \<Rightarrow> h));
          home = (if trimmedHome = [] then None else Some trimmedHome);
          raw = trimTrailingSlash (js_trim startDirectory);
          resolved =
            (if raw = [] then (case home of None \<Rightarrow> [] | Some h \<Rightarrow> h)
             else if raw = ''~'' then (case home of None \<Rightarrow> raw | Some h \<Rightarrow> h)
             else if starts_with raw ''~/''
             then (case home of None \<Rightarrow> raw | Some h \<Rightarrow> h @ ''/'' @ drop 2 raw)
             else raw) in
      if home = Some resolved then joinParts [''home'', or_text (after_slash resolved) ''home'']
      else
        case (case home of None \<Rightarrow> None
              | Some h \<Rightarrow> if starts_with resolved (h @ ''/'') then Some (drop (length h + 1) resolved) else None) of
          Some inner \<Rightarrow> or_text (joinParts (splitPathParts inner)) ''shell''
        | None \<Rightarrow>
            if resolved = ''~'' then ''home''
            else if starts_with resolved ''~/''
            then or_text (joinParts (splitPathParts (drop 2 resolved))) ''shell''
            else or_text (joinParts (splitPathParts resolved)) ''shell'')"

definition sanitiseName :: "string \<Rightarrow> string" where
  "sanitiseName name = sanitisePart (js_trim name)"

definition APLEXER_DEFAULT_TAG :: string where "APLEXER_DEFAULT_TAG = ''main''"

definition custom_name :: "string option \<Rightarrow> string option" where
  "custom_name customName =
     (case customName of None \<Rightarrow> None
      | Some n \<Rightarrow> if list_ex alphanumeric (sanitiseName n) then Some (sanitiseName n) else None)"

definition resolveSessionName :: "string option \<Rightarrow> string \<Rightarrow> string option \<Rightarrow> string" where
  "resolveSessionName customName startDirectory homeDirectory =
     (case custom_name customName of
        Some custom \<Rightarrow> custom
      | None \<Rightarrow> or_text (sessionBaseName startDirectory homeDirectory) ''shell'')"

definition resolveAplexerTag :: "string option \<Rightarrow> string" where
  "resolveAplexerTag customName =
     (case custom_name customName of Some custom \<Rightarrow> custom | None \<Rightarrow> APLEXER_DEFAULT_TAG)"

subsection \<open>Names the multiplexer accepts\<close>

definition edge_ok :: "string \<Rightarrow> bool" where
  "edge_ok w \<longleftrightarrow> w = [] \<or> hd w \<noteq> CHR ''-'' \<and> last w \<noteq> CHR ''-''"

definition safe_name :: "string \<Rightarrow> bool" where
  "safe_name w \<longleftrightarrow> list_all session_char w \<and> edge_ok w"

lemma session_char_hyphen [simp]: "session_char (CHR ''-'')" "session_char (CHR ''_'')"
  by (simp_all add: session_char_def)

lemma session_char_not_dot: "session_char c \<Longrightarrow> c \<noteq> CHR ''.'' \<and> c \<noteq> CHR '':''"
  by (auto simp: session_char_def alphanumeric_def)

lemma normalisePart_chars: "list_all session_char (normalisePart part)"
  using set_replace_runs [of "\<lambda>c. \<not> session_char c" "''-''"]
  by (fastforce simp: normalisePart_def list_all_iff)

lemma normalisePart_fixed: "list_all session_char part \<Longrightarrow> normalisePart part = part"
proof -
  assume a: "list_all session_char part"
  then have "list_all (\<lambda>c. \<not> (c = CHR ''.'' \<or> c = CHR '':'')) part"
    using session_char_not_dot by (auto simp: list_all_iff)
  with a show ?thesis by (simp add: normalisePart_def replace_runs_id)
qed

lemma sanitisePart_safe: "safe_name (sanitisePart part)"
  using normalisePart_chars [of part] trim_ends_sublist [of _ "normalisePart part"] trim_ends_no_edge
  by (fastforce simp: safe_name_def edge_ok_def sanitisePart_def list_all_iff)

lemma sanitisePart_fixed: "safe_name w \<Longrightarrow> sanitisePart w = w"
  by (auto simp: safe_name_def edge_ok_def sanitisePart_def normalisePart_fixed intro!: trim_ends_fixed)

lemma safe_join: "\<forall>w\<in>set ws. safe_name w \<and> w \<noteq> [] \<Longrightarrow> safe_name (join_with ''-'' ws) \<and> (join_with ''-'' ws = [] \<longleftrightarrow> ws = [])"
  by (induction "''-''" ws rule: join_with.induct) (auto simp: safe_name_def edge_ok_def)

lemma joinParts_safe: "safe_name (joinParts parts)"
proof -
  have "\<forall>w\<in>set (filter (\<lambda>p. p \<noteq> []) (map sanitisePart parts)). safe_name w \<and> w \<noteq> []"
    by (auto simp: sanitisePart_safe)
  then show ?thesis unfolding joinParts_def by (simp only: safe_join)
qed

lemma joinParts_home: "joinParts [''home'', t] \<noteq> []"
proof -
  have "sanitisePart ''home'' = ''home''" by code_simp
  then show ?thesis by (simp add: joinParts_def)
qed

lemma or_text_simps [simp]: "or_text a b = [] \<longleftrightarrow> a = [] \<and> b = []" "or_text [] b = b"
  by (simp_all add: or_text_def)

lemma safe_literals [simp]: "safe_name ''shell''" "safe_name ''home''" "safe_name ''main''"
  by code_simp+

lemma or_text_safe [simp]: "safe_name a \<Longrightarrow> safe_name b \<Longrightarrow> safe_name (or_text a b)"
  by (simp add: or_text_def)

definition good_name :: "string \<Rightarrow> bool" where
  "good_name w \<longleftrightarrow> safe_name w \<and> w \<noteq> []"

lemma good_names:
  "good_name (joinParts [''home'', t])" "good_name (or_text (joinParts parts) ''shell'')" "good_name ''home''"
  "b \<longrightarrow> good_name v \<Longrightarrow> \<not> b \<longrightarrow> good_name w \<Longrightarrow> good_name (if b then v else w)"
  "\<forall>x. good_name (f x) \<Longrightarrow> good_name v \<Longrightarrow> good_name (case r of None \<Rightarrow> v | Some x \<Rightarrow> f x)"
  by (auto simp: good_name_def joinParts_safe joinParts_home split: option.splits)

lemma baseName_safe: "safe_name (sessionBaseName dir home) \<and> sessionBaseName dir home \<noteq> []"
  unfolding sessionBaseName_def Let_def good_name_def [symmetric]
  by (intro good_names impI allI)

lemma custom_name_safe: "custom_name n = Some c \<Longrightarrow> safe_name c \<and> c \<noteq> []"
  by (auto simp: custom_name_def sanitiseName_def sanitisePart_safe split: option.splits if_splits)

text \<open>
  C16: every session name and tag is one the multiplexer accepts. Whatever the user typed and
  whatever the folder, the name is not empty, has only letters, digits, \<open>_\<close> and \<open>-\<close>, neither
  starts nor ends with \<open>-\<close>, and sanitising it again changes nothing; sanitising while
  the user types, without the edge trim, does not change the name that is committed.
\<close>

theorem session_names_are_safe:
  "(let n = resolveSessionName label dir home in n \<noteq> [] \<and> safe_name n \<and> sanitisePart n = n)
   \<and> (let t = resolveAplexerTag label in t \<noteq> [] \<and> safe_name t \<and> sanitisePart t = t)
   \<and> sanitisePart (normalisePart typed) = sanitisePart typed"
proof -
  have "resolveSessionName label dir home \<noteq> [] \<and> safe_name (resolveSessionName label dir home)"
    using baseName_safe custom_name_safe by (auto simp: resolveSessionName_def split: option.splits)
  moreover have "resolveAplexerTag label \<noteq> [] \<and> safe_name (resolveAplexerTag label)"
    using custom_name_safe by (auto simp: resolveAplexerTag_def APLEXER_DEFAULT_TAG_def split: option.splits)
  moreover have "sanitisePart (normalisePart typed) = sanitisePart typed"
    by (simp add: sanitisePart_def normalisePart_fixed normalisePart_chars)
  ultimately show ?thesis by (simp add: Let_def sanitisePart_fixed)
qed

text \<open>Conventions of the derivation, on the examples of its documentation.\<close>

lemma documented_names:
  "sessionBaseName ''/home/alexey'' (Some ''/home/alexey/'') = ''home-alexey''"
  "sessionBaseName ''~/git/pocketshell'' (Some ''/home/alexey'') = ''git-pocketshell''"
  "sessionBaseName ''/home/alexey/git/pocketshell'' (Some ''/home/alexey'') = ''git-pocketshell''"
  "sessionBaseName ''/var/log'' (Some ''/home/alexey'') = ''var-log''"
  by code_simp+

text \<open>A folder named by its home-relative form or by its absolute path has one name.\<close>

lemma home_form_same_name:
  assumes h: "h \<noteq> []" "\<not> js_space (hd h)" "\<not> js_space (last h)" "last h \<noteq> CHR ''/''" "\<not> starts_with h ''~''"
    and p: "p \<noteq> []" "\<not> js_space (last p)" "last p \<noteq> CHR ''/''"
  shows "sessionBaseName (''~/'' @ p) (Some h) = sessionBaseName (h @ ''/'' @ p) (Some h)"
proof -
  have t: "trimTrailingSlash x = x" if "x = [] \<or> last x \<noteq> CHR ''/''" for x
    using that by (simp add: trimTrailingSlash_def trim_right_fixed)
  have "js_trim h = h" "js_trim (''~/'' @ p) = ''~/'' @ p" "js_trim (h @ ''/'' @ p) = h @ ''/'' @ p"
    using h p by (auto simp: js_space_def intro!: js_trim_fixed)
  moreover have "\<not> starts_with (h @ ''/'' @ p) ''~/''" "h @ ''/'' @ p \<noteq> ''~''"
    using h(1,5) by (cases h; simp add: starts_with_def; fail)+
  ultimately show ?thesis
    using h p by (simp add: sessionBaseName_def t Let_def) (simp add: starts_with_def)
qed

end
