(* ===== verification/Link_Sha256.thy ===== *)
theory Link_Sha256
  imports Base64
begin

text \<open>
  The SHA-256 of src/src/linkCapability.ts, which derives the trust anchor of a link host where
  \<open>crypto.subtle\<close> is absent, against the definition of FIPS 180-4: constants, padding, message
  schedule and compression.

  Every addition of the source is reduced by \<open>>>> 0\<close> or stored in a \<open>Uint32Array\<close>, and its
  operands are 32-bit, so 32-bit words compute it. The length of the data is below \<open>2^31 - 8\<close>,
  where \<open>>> 6 << 6\<close> works on 32-bit signed numbers without overflow.
\<close>

type_synonym w32 = "32 word"

subsection \<open>The implementation\<close>

definition SHA_K :: "w32 list" where
  "SHA_K = concat [
    [0x428a2f98, 0x71374491, 0xb5c0fbcf, 0xe9b5dba5, 0x3956c25b, 0x59f111f1, 0x923f82a4, 0xab1c5ed5],
    [0xd807aa98, 0x12835b01, 0x243185be, 0x550c7dc3, 0x72be5d74, 0x80deb1fe, 0x9bdc06a7, 0xc19bf174],
    [0xe49b69c1, 0xefbe4786, 0x0fc19dc6, 0x240ca1cc, 0x2de92c6f, 0x4a7484aa, 0x5cb0a9dc, 0x76f988da],
    [0x983e5152, 0xa831c66d, 0xb00327c8, 0xbf597fc7, 0xc6e00bf3, 0xd5a79147, 0x06ca6351, 0x14292967],
    [0x27b70a85, 0x2e1b2138, 0x4d2c6dfc, 0x53380d13, 0x650a7354, 0x766a0abb, 0x81c2c92e, 0x92722c85],
    [0xa2bfe8a1, 0xa81a664b, 0xc24b8b70, 0xc76c51a3, 0xd192e819, 0xd6990624, 0xf40e3585, 0x106aa070],
    [0x19a4c116, 0x1e376c08, 0x2748774c, 0x34b0bcb5, 0x391c0cb3, 0x4ed8aa4a, 0x5b9cca4f, 0x682e6ff3],
    [0x748f82ee, 0x78a5636f, 0x84c87814, 0x8cc70208, 0x90befffa, 0xa4506ceb, 0xbef9a3f7, 0xc67178f2]]"

definition SHA_INIT :: "w32 list" where
  "SHA_INIT =
     [0x6a09e667, 0xbb67ae85, 0x3c6ef372, 0xa54ff53a, 0x510e527f, 0x9b05688c, 0x1f83d9ab, 0x5be0cd19]"

definition sha_rotr :: "w32 \<Rightarrow> nat \<Rightarrow> w32" where
  "sha_rotr x n = drop_bit n x OR push_bit (32 - n) x"

text \<open>\<open>setUint32(offset, v, false)\<close> and \<open>getUint32(offset, false)\<close>.\<close>

definition put32 :: "w32 \<Rightarrow> bytes" where
  "put32 v = [ucast (drop_bit 24 v), ucast (drop_bit 16 v), ucast (drop_bit 8 v), ucast v]"

definition get32 :: "bytes \<Rightarrow> nat \<Rightarrow> w32" where
  "get32 bs i =
     push_bit 24 (ucast (bs ! i)) OR push_bit 16 (ucast (bs ! (i + 1)))
     OR push_bit 8 (ucast (bs ! (i + 2))) OR ucast (bs ! (i + 3))"

definition write_at :: "nat \<Rightarrow> bytes \<Rightarrow> bytes \<Rightarrow> bytes" where
  "write_at i xs buf = take i buf @ xs @ drop (i + length xs) buf"

definition padded_length :: "nat \<Rightarrow> nat" where
  "padded_length n = push_bit 6 (drop_bit 6 (n + 8)) + 64"

definition sha_padded :: "bytes \<Rightarrow> bytes" where
  "sha_padded data =
     (let n = length data; len = padded_length n;
          p1 = (write_at 0 data (replicate len 0)) [n := 0x80];
          p2 = write_at (len - 8) (put32 (word_of_int (int n * 8 div 2 ^ 32))) p1 in
      write_at (len - 4) (put32 (word_of_int (int n * 8))) p2)"

definition sha_sigma0 :: "w32 \<Rightarrow> w32" where
  "sha_sigma0 x = sha_rotr x 7 XOR sha_rotr x 18 XOR drop_bit 3 x"

definition sha_sigma1 :: "w32 \<Rightarrow> w32" where
  "sha_sigma1 x = sha_rotr x 17 XOR sha_rotr x 19 XOR drop_bit 10 x"

text \<open>\<open>for (let i = 16; i < 64; i += 1) w[i] = ...\<close>, with the words written so far.\<close>

fun sha_extend :: "nat \<Rightarrow> w32 list \<Rightarrow> w32 list" where
  "sha_extend 0 w = w"
| "sha_extend (Suc k) w =
     (let i = length w in
      sha_extend k (w @ [w ! (i - 16) + sha_sigma0 (w ! (i - 15)) + w ! (i - 7) + sha_sigma1 (w ! (i - 2))]))"

definition sha_schedule :: "bytes \<Rightarrow> nat \<Rightarrow> w32 list" where
  "sha_schedule padded block = sha_extend 48 (map (\<lambda>i. get32 padded (block + i * 4)) [0..<16])"

type_synonym sha_regs = "w32 \<times> w32 \<times> w32 \<times> w32 \<times> w32 \<times> w32 \<times> w32 \<times> w32"

definition sha_round :: "w32 \<Rightarrow> w32 \<Rightarrow> sha_regs \<Rightarrow> sha_regs" where
  "sha_round k wi = (\<lambda>(a, b, c, d, e, f, g, h).
     let S1 = sha_rotr e 6 XOR sha_rotr e 11 XOR sha_rotr e 25;
         ch = (e AND f) XOR (NOT e AND g);
         t1 = h + S1 + ch + k + wi;
         S0 = sha_rotr a 2 XOR sha_rotr a 13 XOR sha_rotr a 22;
         maj = (a AND b) XOR (a AND c) XOR (b AND c);
         t2 = S0 + maj in
     (t1 + t2, a, b, c, d + t1, e, f, g))"

fun sha_rounds :: "w32 list \<Rightarrow> w32 list \<Rightarrow> sha_regs \<Rightarrow> sha_regs" where
  "sha_rounds (k # ks) (wi # ws) r = sha_rounds ks ws (sha_round k wi r)"
| "sha_rounds _ _ r = r"

definition sha_block :: "bytes \<Rightarrow> nat \<Rightarrow> sha_regs \<Rightarrow> sha_regs" where
  "sha_block padded block st =
     (case (st, sha_rounds SHA_K (sha_schedule padded block) st) of
        ((a, b, c, d, e, f, g, h), (a', b', c', d', e', f', g', h')) \<Rightarrow>
          (a + a', b + b', c + c', d + d', e + e', f + f', g + g', h + h'))"

fun sha_blocks :: "bytes \<Rightarrow> nat \<Rightarrow> nat \<Rightarrow> sha_regs \<Rightarrow> sha_regs" where
  "sha_blocks padded block 0 st = st"
| "sha_blocks padded block (Suc k) st = sha_blocks padded (block + 64) k (sha_block padded block st)"

definition hex_digit :: "nat \<Rightarrow> char" where
  "hex_digit n = ''0123456789abcdef'' ! n"

text \<open>\<open>x.toString(16).padStart(8, '0')\<close>: eight digits.\<close>

definition hex32 :: "w32 \<Rightarrow> string" where
  "hex32 x = map (\<lambda>i. hex_digit (nat (uint x div 16 ^ (7 - i) mod 16))) [0..<8]"

definition regs_list :: "sha_regs \<Rightarrow> w32 list" where
  "regs_list = (\<lambda>(a, b, c, d, e, f, g, h). [a, b, c, d, e, f, g, h])"

definition sha_start :: sha_regs where
  "sha_start =
     (SHA_INIT ! 0, SHA_INIT ! 1, SHA_INIT ! 2, SHA_INIT ! 3, SHA_INIT ! 4, SHA_INIT ! 5, SHA_INIT ! 6, SHA_INIT ! 7)"

definition sha256 :: "bytes \<Rightarrow> w32 list" where
  "sha256 data =
     (let padded = sha_padded data in
      regs_list (sha_blocks padded 0 (length padded div 64) sha_start))"

definition sha256Hex :: "bytes \<Rightarrow> string" where
  "sha256Hex data = concat (map hex32 (sha256 data))"

subsection \<open>The standard\<close>

text \<open>
  FIPS 180-4, section 5 and 6: the message is followed by one bit, the fewest zeros that leave
  room for a 64-bit length, and the length in bits; the schedule is a recurrence over the words of
  a block; the constants are the first 32 bits of the fractional parts of the cube and square
  roots of the first primes (trial division up to 17 decides primality below 324).
\<close>

definition fips_length :: "nat \<Rightarrow> bytes" where
  "fips_length n = map (\<lambda>i. ucast (drop_bit (56 - 8 * i) (word_of_int (8 * int n) :: 64 word))) [0..<8]"

definition fips_pad :: "bytes \<Rightarrow> bytes" where
  "fips_pad m =
     (let n = length m; zeros = nat ((55 - int n) mod 64) in
      m @ [0x80] @ replicate zeros 0 @ fips_length n)"

fun fips_W :: "(nat \<Rightarrow> w32) \<Rightarrow> nat \<Rightarrow> w32" where
  "fips_W m t =
     (if t < 16 then m t
      else
        (word_rotr 17 (fips_W m (t - 2)) XOR word_rotr 19 (fips_W m (t - 2)) XOR drop_bit 10 (fips_W m (t - 2)))
        + fips_W m (t - 7)
        + (word_rotr 7 (fips_W m (t - 15)) XOR word_rotr 18 (fips_W m (t - 15)) XOR drop_bit 3 (fips_W m (t - 15)))
        + fips_W m (t - 16))"

declare fips_W.simps [simp del]

definition fips_round :: "w32 \<Rightarrow> w32 \<Rightarrow> sha_regs \<Rightarrow> sha_regs" where
  "fips_round k w = (\<lambda>(a, b, c, d, e, f, g, h).
     let T1 = h + (word_rotr 6 e XOR word_rotr 11 e XOR word_rotr 25 e)
           + ((e AND f) XOR (NOT e AND g)) + k + w;
         T2 = (word_rotr 2 a XOR word_rotr 13 a XOR word_rotr 22 a)
           + ((a AND b) XOR (a AND c) XOR (b AND c)) in
     (T1 + T2, a, b, c, d + T1, e, f, g))"

definition add_regs :: "sha_regs \<Rightarrow> sha_regs \<Rightarrow> sha_regs" where
  "add_regs = (\<lambda>(a, b, c, d, e, f, g, h) (a', b', c', d', e', f', g', h').
     (a + a', b + b', c + c', d + d', e + e', f + f', g + g', h + h'))"

definition fips_compress :: "(nat \<Rightarrow> w32) \<Rightarrow> sha_regs \<Rightarrow> sha_regs" where
  "fips_compress m hash =
     add_regs hash (fold (\<lambda>t. fips_round (SHA_K ! t) (fips_W m t)) [0..<64] hash)"

definition fips_sha256 :: "bytes \<Rightarrow> w32 list" where
  "fips_sha256 message =
     (let p = fips_pad message in
      regs_list (fold (\<lambda>i. fips_compress (\<lambda>t. get32 p (64 * i + 4 * t))) [0..<length p div 64] sha_start))"

definition primes_upto :: "int \<Rightarrow> int list" where
  "primes_upto n = filter (\<lambda>p. list_all (\<lambda>d. p \<le> d \<or> p mod d \<noteq> 0) [2..17]) [2..n]"

text \<open>
  \<open>k\<close> is the integer part of \<open>2 ^ 32\<close> times the fractional part of the root of \<open>p\<close>: with an
  integer part \<open>q\<close>, the root lies between \<open>q + k / 2 ^ 32\<close> and the next such fraction.
\<close>

definition root_fraction :: "nat \<Rightarrow> int \<Rightarrow> w32 \<Rightarrow> bool" where
  "root_fraction n p k \<longleftrightarrow>
     list_ex (\<lambda>q. (q * 2 ^ 32 + uint k) ^ n \<le> p * 2 ^ (32 * n) \<and> p * 2 ^ (32 * n) < (q * 2 ^ 32 + uint k + 1) ^ n)
       [1..6]"

subsection \<open>The implementation meets the standard\<close>

lemma sha_rotr_rotr: "0 < n \<Longrightarrow> n < 32 \<Longrightarrow> sha_rotr x n = word_rotr n x"
proof (rule bit_word_eqI)
  fix k assume n: "0 < n" "n < 32" and k: "k < LENGTH(32)"
  have "(k + n) mod 32 = (if k + n < 32 then k + n else k + n - 32)"
    using n k by (simp add: mod_if)
  with n k show "bit (sha_rotr x n) k = bit (word_rotr n x) k"
    by (auto simp: sha_rotr_def bit_simps bit_word_rotr_iff ac_simps not_less le_diff_conv dest: bit_imp_le_length)
qed

lemma sha_round_fips: "sha_round = fips_round"
  by (intro ext) (simp add: sha_round_def fips_round_def sha_rotr_rotr Let_def split: prod.splits)

lemma sha_extend_fips:
  assumes "16 \<le> length w" and "\<forall>j<length w. w ! j = fips_W m j"
  shows "length (sha_extend k w) = length w + k \<and> (\<forall>j<length w + k. sha_extend k w ! j = fips_W m j)"
  using assms
proof (induction k arbitrary: w)
  case (Suc k)
  let ?i = "length w"
  let ?v = "w ! (?i - 16) + sha_sigma0 (w ! (?i - 15)) + w ! (?i - 7) + sha_sigma1 (w ! (?i - 2))"
  have "?v = fips_W m ?i"
    using Suc.prems by (subst fips_W.simps) (simp add: sha_sigma0_def sha_sigma1_def sha_rotr_rotr)
  then have "\<forall>j<length (w @ [?v]). (w @ [?v]) ! j = fips_W m j"
    using Suc.prems(2) by (auto simp: nth_append less_Suc_eq)
  with Suc.IH [of "w @ [?v]"] Suc.prems(1) show ?case by (simp add: Let_def)
qed simp

lemma sha_schedule_fips:
  "sha_schedule padded block = map (fips_W (\<lambda>t. get32 padded (block + t * 4))) [0..<64]"
proof -
  let ?m = "\<lambda>t. get32 padded (block + t * 4)"
  let ?w = "map ?m [0..<16]"
  have "\<forall>j<length ?w. ?w ! j = fips_W ?m j" by (subst fips_W.simps) simp
  with sha_extend_fips [of ?w ?m 48] show ?thesis
    unfolding sha_schedule_def by (intro nth_equalityI) auto
qed

lemma sha_rounds_fold:
  "length ks = length ws \<Longrightarrow>
   sha_rounds ks ws r = fold (\<lambda>t. sha_round (ks ! t) (ws ! t)) [0..<length ks] r"
proof (induction ks ws arbitrary: r rule: list_induct2)
  case (Cons k ks w ws)
  have "[0..<length (k # ks)] = 0 # map Suc [0..<length ks]"
    by (simp add: upt_conv_Cons map_Suc_upt del: upt_Suc)
  with Cons show ?case by (simp add: fold_map o_def del: upt_Suc)
qed simp

lemma length_SHA_K [simp]: "length SHA_K = 64"
  by (simp add: SHA_K_def)

lemma fold_cong_upt: "(\<And>t. t < n \<Longrightarrow> f t = g t) \<Longrightarrow> fold f [0..<n] r = fold g [0..<n] r"
  by (rule fold_cong) auto

lemma sha_block_fips: "sha_block padded block = fips_compress (\<lambda>t. get32 padded (block + 4 * t))"
proof (rule ext)
  fix st
  have "sha_rounds SHA_K (sha_schedule padded block) st =
      fold (\<lambda>t. fips_round (SHA_K ! t) (fips_W (\<lambda>t. get32 padded (block + 4 * t)) t)) [0..<64] st"
    by (simp add: sha_schedule_fips sha_rounds_fold sha_round_fips mult.commute)
      (rule fold_cong_upt, simp)
  then show "sha_block padded block st = fips_compress (\<lambda>t. get32 padded (block + 4 * t)) st"
    by (simp add: sha_block_def fips_compress_def add_regs_def split: prod.splits)
qed

lemma sha_blocks_fold:
  "sha_blocks padded b k st = fold (\<lambda>i. sha_block padded (64 * i + b)) [0..<k] st"
proof (induction k arbitrary: b st)
  case (Suc k)
  have "[0..<Suc k] = 0 # map Suc [0..<k]" by (simp add: upt_conv_Cons map_Suc_upt del: upt_Suc)
  with Suc show ?case by (simp add: fold_map o_def ac_simps del: upt_Suc)
qed simp

lemma high_byte:
  "k \<le> 24 \<Longrightarrow> (ucast (drop_bit (32 + k) (word_of_int m :: 64 word)) :: byte) =
     ucast (drop_bit k (word_of_int (drop_bit 32 m) :: w32))"
  by (intro bit_word_eqI) (auto simp: bit_simps ac_simps)

lemma low_byte:
  "k \<le> 24 \<Longrightarrow> (ucast (drop_bit k (word_of_int m :: 64 word)) :: byte) = ucast (drop_bit k (word_of_int m :: w32))"
  by (intro bit_word_eqI) (auto simp: bit_simps ac_simps)

lemma fips_length_put32:
  "fips_length n = put32 (word_of_int (int n * 8 div 2 ^ 32)) @ put32 (word_of_int (int n * 8))"
proof -
  define m where "m = 8 * int n"
  have d: "int n * 8 div 2 ^ 32 = drop_bit 32 m" by (simp add: m_def drop_bit_eq_div mult.commute)
  have c: "int n * 8 = m" by (simp add: m_def)
  have "fips_length n = map (\<lambda>i. ucast (drop_bit (56 - 8 * i) (word_of_int m :: 64 word))) [0, 1, 2, 3, 4, 5, 6, 7]"
    by (simp add: fips_length_def m_def upt_rec)
  then show ?thesis
    unfolding d unfolding c put32_def
    using high_byte [of 24 m] high_byte [of 16 m] high_byte [of 8 m] high_byte [of 0 m]
      low_byte [of 24 m] low_byte [of 16 m] low_byte [of 8 m] low_byte [of 0 m]
    by simp
qed

lemma padded_length_div: "padded_length n = (n + 8) div 64 * 64 + 64"
  by (simp add: padded_length_def push_bit_eq_mult drop_bit_eq_div)

lemma padded_zeros: "padded_length n = n + 9 + nat ((55 - int n) mod 64)"
proof -
  let ?a = "(int n + 8) div 64" and ?b = "(int n + 8) mod 64"
  have e: "55 - int n = (63 - ?b) + 64 * (- ?a)" using mult_div_mod_eq [of 64 "int n + 8"] by linarith
  have "(55 - int n) mod 64 = (63 - ?b) mod 64" by (subst e) (rule mod_mult_self2)
  also have "\<dots> = 63 - ?b" by (rule mod_pos_pos_trivial) simp_all
  finally have "int n + 9 + (55 - int n) mod 64 = ?a * 64 + 64"
    using mult_div_mod_eq [of 64 "int n + 8"] by linarith
  then have "int (n + 9 + nat ((55 - int n) mod 64)) = int ((n + 8) div 64 * 64 + 64)"
    by (simp add: zdiv_int)
  then show ?thesis unfolding padded_length_div by linarith
qed

lemma write_at_append:
  "length a = i \<Longrightarrow> write_at i xs (a @ b) = a @ xs @ drop (length xs) b"
  by (simp add: write_at_def)

lemma length_put32 [simp]: "length (put32 v) = 4"
  by (simp add: put32_def)

lemma pad_writes:
  assumes "length hi = 4" and "length lo = 4" and "len = length a + 8"
  shows "write_at (len - 4) lo (write_at (len - 8) hi (a @ replicate 8 0)) = a @ hi @ lo"
proof -
  have "(8 :: nat) = 4 + 4" by simp
  then have r: "replicate 8 (0 :: byte) = replicate 4 0 @ replicate 4 0" by (simp only: replicate_add)
  have "write_at (len - 8) hi (a @ replicate 8 0) = a @ hi @ replicate 4 0"
    unfolding r using assms by (subst write_at_append) simp_all
  moreover have "write_at (len - 4) lo ((a @ hi) @ replicate 4 0) = (a @ hi) @ lo"
    using assms by (subst write_at_append) simp_all
  ultimately show ?thesis by simp
qed

lemma first_writes:
  "(write_at 0 data (replicate (length data + (1 + (z + 8))) 0)) [length data := 0x80] =
   (data @ [0x80] @ replicate z 0) @ replicate 8 0"
proof -
  have "replicate (length data + (1 + (z + 8))) (0 :: byte) =
      replicate (length data) 0 @ replicate 1 0 @ replicate z 0 @ replicate 8 0"
    by (simp only: replicate_add)
  then have "write_at 0 data (replicate (length data + (1 + (z + 8))) 0) = data @ 0 # replicate z 0 @ replicate 8 0"
    by (simp add: write_at_def)
  then show ?thesis by simp
qed

lemma sha_padded_fips: "sha_padded data = fips_pad data"
proof -
  define n z where "n = length data" and "z = nat ((55 - int n) mod 64)"
  define a where "a = data @ [0x80] @ replicate z 0"
  have len: "padded_length n = n + (1 + (z + 8))" by (simp add: padded_zeros z_def)
  have p: "(write_at 0 data (replicate (padded_length n) 0)) [n := 0x80] = a @ replicate 8 0"
    unfolding len a_def unfolding n_def by (rule first_writes)
  have "padded_length n = length a + 8" unfolding len a_def unfolding n_def by simp
  then have "sha_padded data = a @ put32 (word_of_int (int n * 8 div 2 ^ 32)) @ put32 (word_of_int (int n * 8))"
    unfolding sha_padded_def Let_def n_def [symmetric] p by (intro pad_writes length_put32)
  then show ?thesis
    by (simp only: fips_pad_def Let_def fips_length_put32 a_def n_def z_def append_assoc)
qed

lemma sha_tables:
  "list_all2 (root_fraction 3) (primes_upto 311) SHA_K"
  "list_all2 (root_fraction 2) (primes_upto 19) SHA_INIT"
  by code_simp+

text \<open>
  C13: the hand-written SHA-256 is SHA-256. For every byte array, the buffer writes that pad it,
  the schedule loop over an array, the rotations built from shifts and the block loop compute the
  digest that FIPS 180-4 defines, and the table and the start values are the fractional parts of
  the cube and square roots of the first primes.
\<close>

theorem sha256_is_fips:
  "sha256 data = fips_sha256 data
   \<and> length (sha_padded data) mod 64 = 0
   \<and> list_all2 (root_fraction 3) (primes_upto 311) SHA_K
   \<and> list_all2 (root_fraction 2) (primes_upto 19) SHA_INIT"
proof -
  have "sha256 data = fips_sha256 data"
    by (simp add: sha256_def fips_sha256_def Let_def sha_padded_fips sha_blocks_fold sha_block_fips)
  moreover have "length (sha_padded data) = padded_length (length data)"
    by (simp add: sha_padded_fips fips_pad_def Let_def fips_length_def padded_zeros)
  then have "length (sha_padded data) mod 64 = 0" by (simp add: padded_length_div)
  ultimately show ?thesis using sha_tables by blast
qed

end
