(* ===== verification/Link_Codec.thy ===== *)
theory Link_Codec
  imports Link_Sha256 Connection_State Js_Strings
begin

text \<open>
  The wire format of the link transport (src/src/linkCapability.ts): the relay URL and the trust
  anchor derived from it, control frames and channel data frames.
\<close>

subsection \<open>The trust anchor\<close>

text \<open>\<open>new TextEncoder().encode(s)\<close> on code units below 256.\<close>

definition encode_char :: "char \<Rightarrow> bytes" where
  "encode_char c =
     (let n = of_char c :: nat in
      if n < 128 then [of_nat n] else [of_nat (192 + n div 64), of_nat (128 + n mod 64)])"

definition encode_text :: "string \<Rightarrow> bytes" where
  "encode_text s = concat (map encode_char s)"

definition ends_with :: "string \<Rightarrow> string \<Rightarrow> bool" where
  "ends_with s t \<longleftrightarrow> length t \<le> length s \<and> drop (length s - length t) s = t"

text \<open>The scheme of \<open>/^(wss|ws|https?):\/\//\<close>, with what follows it.\<close>

fun relay_scheme :: "string list \<Rightarrow> string \<Rightarrow> (string \<times> string) option" where
  "relay_scheme [] s = None"
| "relay_scheme (w # ws) s =
     (if starts_with s (w @ ''://'') then Some (w, drop (length w + 3) s) else relay_scheme ws s)"

definition canonicalRelayUrl :: "string \<Rightarrow> string" where
  "canonicalRelayUrl relayUrl =
     (let url = js_trim relayUrl in
      case relay_scheme [''wss'', ''ws'', ''https'', ''http''] url of
        None \<Rightarrow> url
      | Some (scheme, rest) \<Rightarrow>
          let authority = takeWhile (\<lambda>c. c \<noteq> CHR ''/'' \<and> c \<noteq> CHR ''?'' \<and> c \<noteq> CHR ''#'') rest;
              after = drop (length authority) rest in
          if authority = [] then url
          else
            let lowered = map char_lower authority;
                defaultPort = (if scheme = ''wss'' \<or> scheme = ''https'' then '':443'' else '':80'');
                host = (if ends_with lowered defaultPort then take (length lowered - length defaultPort) lowered
                        else lowered);
                path = (if starts_with after ''/'' then takeWhile (\<lambda>c. c \<noteq> CHR ''#'') after else ''/'') in
            scheme @ ''://'' @ host @ trim_right (\<lambda>c. c = CHR ''/'') path)"

definition linkHostKeyFingerprint :: "string \<Rightarrow> string \<Rightarrow> string" where
  "linkHostKeyFingerprint relayUrl token =
     (let tokenDigest = sha256Hex (encode_text token) in
      ''SHA256:'' @ sha256Hex (encode_text
        (''pocketshell-link-v1|'' @ canonicalRelayUrl relayUrl @ ''|'' @ tokenDigest)))"

definition link_presented_key :: "string \<Rightarrow> string \<Rightarrow> presented_key" where
  "link_presented_key relayUrl token =
     \<lparr>keyType = ''link-v1'', keyB64 = bytesToBase64 (encode_text (sha256Hex (encode_text token))),
      fingerprintSha256 = linkHostKeyFingerprint relayUrl token\<rparr>"

text \<open>\<open>URLSearchParams\<close>: form encoding of one value.\<close>

definition hex_upper :: "nat \<Rightarrow> char" where
  "hex_upper n = ''0123456789ABCDEF'' ! n"

definition form_char :: "char \<Rightarrow> string" where
  "form_char c =
     (let n = of_char c :: nat in
      if (48 \<le> n \<and> n \<le> 57) \<or> (65 \<le> n \<and> n \<le> 90) \<or> (97 \<le> n \<and> n \<le> 122) \<or> c \<in> set ''*-._'' then [c]
      else if c = CHR '' '' then ''+''
      else concat (map (\<lambda>b. CHR ''%'' # [hex_upper (unat b div 16), hex_upper (unat b mod 16)]) (encode_char c)))"

definition form_encode :: "string \<Rightarrow> string" where
  "form_encode s = concat (map form_char s)"

definition clientUrl :: "string \<Rightarrow> string \<Rightarrow> string \<Rightarrow> string" where
  "clientUrl relayUrl token hostId =
     trim_right (\<lambda>c. c = CHR ''/'') relayUrl @ ''/client?token='' @ form_encode token
       @ ''&host_id='' @ form_encode hostId"

subsection \<open>Frames\<close>

definition LINK_PROTO_VERSION :: int where "LINK_PROTO_VERSION = 1"

text \<open>A control frame, before \<open>JSON.stringify\<close>; fields that are \<open>undefined\<close> are not written.\<close>

definition control :: "string \<Rightarrow> fields \<Rightarrow> js" where
  "control type fs = Obj ([(''v'', Num (IntN LINK_PROTO_VERSION)), (''t'', Str type)] @ fs)"

definition parseControl :: "(string \<Rightarrow> js option) \<Rightarrow> string \<Rightarrow> (string \<times> fields) option" where
  "parseControl json raw =
     (case json raw of
        Some (Obj frame) \<Rightarrow>
          (case (get_prop frame ''v'', get_prop frame ''t'') of
             (Num (IntN v), Str t) \<Rightarrow> if v = LINK_PROTO_VERSION then Some (t, frame) else None
           | _ \<Rightarrow> None)
      | _ \<Rightarrow> None)"

text \<open>
  Channel numbers are integers: a number with a fraction in a frame matches no channel.
\<close>

fun chan :: "js \<Rightarrow> int option" where
  "chan (Num (IntN i)) = Some i"
| "chan _ = None"

fun text_or :: "string \<Rightarrow> js \<Rightarrow> string" where
  "text_or d (Str s) = s"
| "text_or d _ = d"

definition dataFrame :: "int \<Rightarrow> bytes \<Rightarrow> bytes" where
  "dataFrame channel payload = put32 (word_of_int channel) @ payload"

definition parseDataFrame :: "bytes \<Rightarrow> (int \<times> bytes) option" where
  "parseDataFrame raw = (if length raw < 4 then None else Some (uint (get32 raw 0), drop 4 raw))"

lemma get32_put32: "get32 (put32 w @ bs) 0 = w"
proof (rule bit_word_eqI)
  fix n assume "n < LENGTH(32)"
  then consider "n < 8" | "8 \<le> n" "n < 16" | "16 \<le> n" "n < 24" | "24 \<le> n" "n < 32" by fastforce
  then show "bit (get32 (put32 w @ bs) 0) n = bit w n"
    by cases (auto simp: get32_def put32_def bit_simps)
qed

text \<open>
  A data frame carries its payload and its channel modulo \<open>2 ^ 32\<close>.
\<close>

lemma parse_dataFrame: "parseDataFrame (dataFrame ch payload) = Some (ch mod 2 ^ 32, payload)"
proof -
  have "get32 (dataFrame ch payload) 0 = word_of_int ch"
    by (simp add: dataFrame_def get32_put32)
  then show ?thesis
    by (simp add: parseDataFrame_def) (simp add: dataFrame_def unsigned_of_int take_bit_eq_mod)
qed

end
