(* ===== verification/Link_Entry.thy ===== *)
theory Link_Entry
  imports Link_Codec "HOL-Library.Multiset"
begin

text \<open>
  One connection of the link capability (src/src/linkCapability.ts, \<open>ConnectionEntry\<close>): its
  channels, the PTY buffers with their waiting readers, the execs and the channel opens in flight,
  and what every frame, timer and call does to them.

  Every operation yields the entry afterwards and its effects in order: answers to calls (a
  promise settling), frames and closes of the socket, and connection events. Maps are association
  lists in insertion order. The continuation of \<open>openChannel\<close> runs with the frame that resolves it:
  no other event is dispatched before the microtasks of a frame.
\<close>

subsection \<open>State and effects\<close>

record link_error =
  lx_message :: string
  lx_code :: string

record pty_wait =
  w_op :: nat
  w_request :: string
  w_channel :: int
  w_sequence :: int

record pty_buffer =
  pb_chunks :: "bytes list"
  pb_eof :: bool
  pb_waiters :: "pty_wait list"

record exec_run =
  xr_main :: int
  xr_err :: "int option"
  xr_request :: string
  xr_stdout :: "bytes list"
  xr_stderr :: "bytes list"
  xr_timer :: bool

datatype open_wait = OpenForExec nat "bytes option" | OpenForPty nat string

record link_entry =
  le_ref :: connection_ref
  le_next :: int
  le_ptys :: "(int \<times> pty_buffer) list"
  le_execs :: "(int \<times> nat) list"
  le_running :: "(nat \<times> exec_run) list"
  le_opens :: "(int \<times> open_wait) list"
  le_state :: link_state
  le_closing :: bool

datatype link_answer =
    LinkUp string connection_ref
  | LinkStateIs string link_state
  | LinkAck string
  | LinkCancelled string bool
  | LinkExec string "jsnum option" bytes bytes bool
  | LinkPty string int
  | LinkRead pty_wait bytes bool
  | LinkOperation string int int
  | LinkResources string nat nat
  | LinkFail link_error

datatype link_effect =
    Answer nat link_answer
  | SendText js
  | SendBinary bytes
  | CloseSocket string
  | StateEvent connection_ref link_state string
  | OpenSocket string
  | ArmClose int

type_synonym 'e reaction_of = "'e \<times> link_effect list"

text \<open>First \<open>r\<close>, then \<open>f\<close> on what \<open>r\<close> left.\<close>

definition and_next :: "'e reaction_of \<Rightarrow> ('e \<Rightarrow> 'e reaction_of) \<Rightarrow> 'e reaction_of" where
  "and_next r f = (case r of (e, fx) \<Rightarrow> (case f e of (e', fy) \<Rightarrow> (e', fx @ fy)))"

definition link_error :: "string \<Rightarrow> string \<Rightarrow> link_error" where
  "link_error msg code = \<lparr>lx_message = msg, lx_code = code\<rparr>"

definition new_entry :: "connection_ref \<Rightarrow> link_entry" where
  "new_entry ref = \<lparr>le_ref = ref, le_next = 1, le_ptys = [], le_execs = [], le_running = [], le_opens = [],
     le_state = StConnected, le_closing = False\<rparr>"

subsection \<open>PTY buffers\<close>

fun take_chunks :: "bytes list \<Rightarrow> nat \<Rightarrow> nat \<Rightarrow> bytes list \<times> bytes list" where
  "take_chunks [] got maxBytes = ([], [])"
| "take_chunks (c # cs) got maxBytes =
     (if maxBytes \<le> got then ([], c # cs)
      else if maxBytes < got + length c then ([take (maxBytes - got) c], drop (maxBytes - got) c # cs)
      else (case take_chunks cs (got + length c) maxBytes of (taken, rest) \<Rightarrow> (c # taken, rest)))"

definition takeBuffered :: "bytes list \<Rightarrow> nat \<Rightarrow> bytes \<times> bytes list" where
  "takeBuffered chunks maxBytes = (case take_chunks chunks 0 maxBytes of (taken, rest) \<Rightarrow> (concat taken, rest))"

fun flush_waiters :: "pty_wait list \<Rightarrow> bytes list \<Rightarrow> bool \<Rightarrow> bytes list \<times> link_effect list" where
  "flush_waiters [] chunks eof = (chunks, [])"
| "flush_waiters (w # ws) chunks eof =
     (case takeBuffered chunks 65536 of (chunk, rest) \<Rightarrow>
        (case flush_waiters ws rest eof of (chunks', fx) \<Rightarrow>
           (chunks', Answer (w_op w) (LinkRead w chunk (eof \<and> rest = [])) # fx)))"

text \<open>Evaluation does not reach the read size when nothing is buffered.\<close>

lemma flush_waiters_code [code]:
  "flush_waiters [] chunks eof = (chunks, [])"
  "flush_waiters (w # ws) [] eof =
     (case flush_waiters ws [] eof of (chunks', fx) \<Rightarrow> (chunks', Answer (w_op w) (LinkRead w [] eof) # fx))"
  "flush_waiters (w # ws) (c # cs) eof =
     (case takeBuffered (c # cs) 65536 of (chunk, rest) \<Rightarrow>
        (case flush_waiters ws rest eof of (chunks', fx) \<Rightarrow>
           (chunks', Answer (w_op w) (LinkRead w chunk (eof \<and> rest = [])) # fx)))"
  by (simp_all add: takeBuffered_def)

definition flushPty :: "pty_buffer \<Rightarrow> pty_buffer reaction_of" where
  "flushPty b =
     (case flush_waiters (pb_waiters b) (pb_chunks b) (pb_eof b) of (chunks, fx) \<Rightarrow>
        (b\<lparr>pb_chunks := chunks, pb_waiters := []\<rparr>, fx))"

definition end_pty :: "pty_buffer \<Rightarrow> pty_buffer reaction_of" where
  "end_pty b = flushPty (b\<lparr>pb_eof := True\<rparr>)"

text \<open>Apply an operation to the buffer of a channel, if there is one.\<close>

definition on_pty :: "int \<Rightarrow> (pty_buffer \<Rightarrow> pty_buffer reaction_of) \<Rightarrow> link_entry \<Rightarrow> link_entry reaction_of" where
  "on_pty ch f e =
     (case map_of (le_ptys e) ch of
        None \<Rightarrow> (e, [])
      | Some b \<Rightarrow> (case f b of (b', fx) \<Rightarrow> (e\<lparr>le_ptys := AList.update ch b' (le_ptys e)\<rparr>, fx)))"

fun end_ptys :: "(int \<times> pty_buffer) list \<Rightarrow> (int \<times> pty_buffer) list reaction_of" where
  "end_ptys [] = ([], [])"
| "end_ptys ((ch, b) # ps) =
     (case end_pty b of (b', fx) \<Rightarrow> (case end_ptys ps of (ps', fy) \<Rightarrow> ((ch, b') # ps', fx @ fy)))"

definition end_all_ptys :: "link_entry \<Rightarrow> link_entry reaction_of" where
  "end_all_ptys e = (case end_ptys (le_ptys e) of (ps, fx) \<Rightarrow> (e\<lparr>le_ptys := ps\<rparr>, fx))"

subsection \<open>Execs\<close>

text \<open>\<open>settleExec\<close>: only an exec that has not settled is still in \<open>le_running\<close>.\<close>

definition settleExec :: "nat \<Rightarrow> exec_run \<Rightarrow> link_entry \<Rightarrow> link_entry" where
  "settleExec op x e =
     (let e1 = e\<lparr>le_running := AList.delete op (le_running e), le_execs := AList.delete (xr_main x) (le_execs e)\<rparr> in
      case xr_err x of None \<Rightarrow> e1 | Some c \<Rightarrow> e1\<lparr>le_execs := AList.delete c (le_execs e1)\<rparr>)"

definition resolveExec :: "nat \<Rightarrow> jsnum option \<Rightarrow> bool \<Rightarrow> link_entry \<Rightarrow> link_entry reaction_of" where
  "resolveExec op code late e =
     (case map_of (le_running e) op of
        None \<Rightarrow> (e, [])
      | Some x \<Rightarrow>
          (settleExec op x e,
           [Answer op (LinkExec (xr_request x) code (concat (xr_stdout x)) (concat (xr_stderr x)) late)]))"

definition rejectExec :: "link_error \<Rightarrow> nat \<Rightarrow> link_entry \<Rightarrow> link_entry reaction_of" where
  "rejectExec err op e =
     (case map_of (le_running e) op of
        None \<Rightarrow> (e, [])
      | Some x \<Rightarrow> (settleExec op x e, [Answer op (LinkFail err)]))"

fun reject_execs :: "link_error \<Rightarrow> nat list \<Rightarrow> link_entry \<Rightarrow> link_entry reaction_of" where
  "reject_execs err [] e = (e, [])"
| "reject_execs err (op # ops) e = and_next (rejectExec err op e) (reject_execs err ops)"

subsection \<open>Opening channels\<close>

text \<open>The rejection of \<open>openChannel\<close>'s promise, with its caller's continuation.\<close>

fun open_rejected :: "link_error \<Rightarrow> open_wait \<Rightarrow> link_entry \<Rightarrow> link_entry reaction_of" where
  "open_rejected err (OpenForExec op stdin) e = rejectExec err op e"
| "open_rejected err (OpenForPty op request) e = (e, [Answer op (LinkFail err)])"

fun reject_opens :: "link_error \<Rightarrow> open_wait list \<Rightarrow> link_entry \<Rightarrow> link_entry reaction_of" where
  "reject_opens err [] e = (e, [])"
| "reject_opens err (p # ps) e = and_next (open_rejected err p e) (reject_opens err ps)"

fun open_resolved :: "int \<Rightarrow> open_wait \<Rightarrow> link_entry \<Rightarrow> link_entry reaction_of" where
  "open_resolved channel (OpenForExec op stdin) e =
     (e, case stdin of
           None \<Rightarrow> []
         | Some bs \<Rightarrow> [SendBinary (dataFrame channel bs), SendText (control ''eof'' [(''ch'', Num (IntN channel))])])"
| "open_resolved channel (OpenForPty op request) e =
     (e\<lparr>le_ptys := AList.update channel \<lparr>pb_chunks = [], pb_eof = False, pb_waiters = []\<rparr> (le_ptys e)\<rparr>,
      [Answer op (LinkPty request channel)])"

definition openChannel :: "int \<Rightarrow> open_wait \<Rightarrow> fields \<Rightarrow> link_entry \<Rightarrow> link_entry reaction_of" where
  "openChannel channel wait fs e =
     (e\<lparr>le_opens := AList.update channel wait (le_opens e)\<rparr>,
      [SendText (control ''open'' ((''ch'', Num (IntN channel)) # fs))])"

subsection \<open>Losing and closing\<close>

text \<open>Nothing in flight survives: execs, opens and readers are all settled.\<close>

definition drain :: "link_error \<Rightarrow> link_entry \<Rightarrow> link_entry reaction_of" where
  "drain err e =
     and_next (reject_execs err (map snd (le_execs e)) e) (\<lambda>e1.
     and_next (and_next (reject_opens err (map snd (le_opens e1)) e1) (\<lambda>e2. (e2\<lparr>le_opens := []\<rparr>, [])))
       end_all_ptys)"

definition loseConnection :: "string \<Rightarrow> link_entry \<Rightarrow> link_entry reaction_of" where
  "loseConnection reason e =
     (if le_state e \<noteq> StConnected then (e, [])
      else
        and_next (e\<lparr>le_state := StLost, le_closing := False\<rparr>, [CloseSocket reason]) (\<lambda>e1.
        and_next (drain (link_error (''Link connection lost: '' @ reason) ''CONNECTION_LOST'') e1) (\<lambda>e2.
          (e2, [StateEvent (le_ref e2) StLost reason]))))"

definition close_entry :: "link_entry \<Rightarrow> link_entry reaction_of" where
  "close_entry e =
     and_next (e\<lparr>le_state := StClosed, le_closing := False\<rparr>, [CloseSocket ''closed'']) (\<lambda>e1.
     and_next (drain (link_error ''link closed'' ''CONNECTION_LOST'') e1) (\<lambda>e2.
       (e2, [StateEvent (le_ref e2) StClosed ''closed''])))"

subsection \<open>Frames\<close>

definition frame_error :: "string \<Rightarrow> fields \<Rightarrow> link_error" where
  "frame_error d frame =
     link_error (text_or d (get_prop frame ''message'')) (text_or ''SSH_ERROR'' (get_prop frame ''code''))"

text \<open>The err channel of an exec is registered only once.\<close>

definition register_err :: "int \<Rightarrow> int option \<Rightarrow> link_entry \<Rightarrow> link_entry" where
  "register_err channel err_ch e =
     (case (err_ch, map_of (le_execs e) channel) of
        (Some c, Some op) \<Rightarrow>
          (case map_of (le_running e) op of
             Some x \<Rightarrow>
               if xr_err x = None
               then e\<lparr>le_running := AList.update op (x\<lparr>xr_err := Some c\<rparr>) (le_running e),
                      le_execs := AList.update c op (le_execs e)\<rparr>
               else e
           | None \<Rightarrow> e)
      | _ \<Rightarrow> e)"

definition opened_frame :: "int \<Rightarrow> fields \<Rightarrow> link_entry \<Rightarrow> link_entry reaction_of" where
  "opened_frame channel frame e =
     (case map_of (le_opens e) channel of
        None \<Rightarrow> (e, [])
      | Some p \<Rightarrow>
          let e1 = e\<lparr>le_opens := AList.delete channel (le_opens e)\<rparr> in
          if get_prop frame ''ok'' = Bool True
          then open_resolved channel p (register_err channel (chan (get_prop frame ''err_ch'')) e1)
          else open_rejected (frame_error ''channel open failed'' frame) p e1)"

fun exit_number :: "js \<Rightarrow> jsnum option" where
  "exit_number (Num n) = Some n"
| "exit_number _ = None"

definition exit_frame :: "int \<Rightarrow> fields \<Rightarrow> link_entry \<Rightarrow> link_entry reaction_of" where
  "exit_frame channel frame e =
     and_next
       (case map_of (le_execs e) channel of
          None \<Rightarrow> (e, [])
        | Some op \<Rightarrow> resolveExec op (exit_number (get_prop frame ''exit_code'')) False e)
       (on_pty channel end_pty)"

definition error_frame :: "int \<Rightarrow> fields \<Rightarrow> link_entry \<Rightarrow> link_entry reaction_of" where
  "error_frame channel frame e =
     and_next
       (case map_of (le_execs e) channel of
          None \<Rightarrow> (e, [])
        | Some op \<Rightarrow> rejectExec (frame_error ''channel error'' frame) op e)
       (on_pty channel end_pty)"

definition handleControl :: "string \<Rightarrow> fields \<Rightarrow> link_entry \<Rightarrow> link_entry reaction_of" where
  "handleControl type frame e =
     (case chan (get_prop frame ''ch'') of
        None \<Rightarrow> (e, [])
      | Some channel \<Rightarrow>
          if type = ''opened'' then opened_frame channel frame e
          else if type = ''exit'' then exit_frame channel frame e
          else if type = ''eof'' then on_pty channel end_pty e
          else if type = ''ch_error'' then error_frame channel frame e
          else (e, []))"

definition receive :: "bytes \<Rightarrow> pty_buffer \<Rightarrow> pty_buffer reaction_of" where
  "receive payload b =
     (if pb_eof b then (b, []) else flushPty (b\<lparr>pb_chunks := pb_chunks b @ [payload]\<rparr>))"

definition exec_output :: "int \<Rightarrow> bytes \<Rightarrow> exec_run \<Rightarrow> exec_run" where
  "exec_output channel payload x =
     (if channel = xr_main x then x\<lparr>xr_stdout := xr_stdout x @ [payload]\<rparr>
      else x\<lparr>xr_stderr := xr_stderr x @ [payload]\<rparr>)"

definition handleData :: "bytes \<Rightarrow> link_entry \<Rightarrow> link_entry reaction_of" where
  "handleData raw e =
     (case parseDataFrame raw of
        None \<Rightarrow> (e, [])
      | Some (channel, payload) \<Rightarrow>
          (case map_of (le_execs e) channel of
             Some op \<Rightarrow>
               (case map_of (le_running e) op of
                  None \<Rightarrow> (e, [])
                | Some x \<Rightarrow> (e\<lparr>le_running := AList.update op (exec_output channel payload x) (le_running e)\<rparr>, []))
           | None \<Rightarrow> on_pty channel (receive payload) e))"

subsection \<open>Calls on a connection\<close>

definition lost_answer :: "nat \<Rightarrow> link_entry \<Rightarrow> link_entry reaction_of" where
  "lost_answer op e = (e, [Answer op (LinkFail (link_error ''link connection lost'' ''CONNECTION_LOST''))])"

definition exec_call_fields :: "string \<Rightarrow> int \<Rightarrow> fields" where
  "exec_call_fields command timeoutMs =
     [(''mode'', Str ''exec''), (''cmd'', Str command)]
     @ (if 0 < timeoutMs then [(''timeout_ms'', Num (IntN timeoutMs))] else [])"

definition link_exec ::
    "nat \<Rightarrow> string \<Rightarrow> string \<Rightarrow> int \<Rightarrow> bytes option \<Rightarrow> link_entry \<Rightarrow> link_entry reaction_of" where
  "link_exec op request command timeoutMs stdin e =
     (if le_state e \<noteq> StConnected then lost_answer op e
      else
        let channel = le_next e;
            run = \<lparr>xr_main = channel, xr_err = None, xr_request = request, xr_stdout = [], xr_stderr = [],
                   xr_timer = (0 < timeoutMs)\<rparr> in
        openChannel channel (OpenForExec op stdin) (exec_call_fields command timeoutMs)
          (e\<lparr>le_next := channel + 1, le_execs := AList.update channel op (le_execs e),
             le_running := AList.update op run (le_running e)\<rparr>))"

definition link_open_pty ::
    "nat \<Rightarrow> string \<Rightarrow> string \<Rightarrow> int \<Rightarrow> int \<Rightarrow> string option \<Rightarrow> link_entry \<Rightarrow> link_entry reaction_of" where
  "link_open_pty op request command cols rows tm e =
     (if le_state e \<noteq> StConnected then lost_answer op e
      else
        let channel = le_next e in
        openChannel channel (OpenForPty op request)
          [(''mode'', Str ''pty''), (''cmd'', Str command), (''cols'', Num (IntN cols)), (''rows'', Num (IntN rows)),
           (''term'', Str (case tm of None \<Rightarrow> ''xterm-256color'' | Some t \<Rightarrow> t))]
          (e\<lparr>le_next := channel + 1\<rparr>))"

definition no_channel :: "nat \<Rightarrow> link_entry \<Rightarrow> link_entry reaction_of" where
  "no_channel op e = (e, [Answer op (LinkFail (link_error ''No such PTY channel.'' ''NO_SUCH_CHANNEL''))])"

definition read_buffer :: "pty_wait \<Rightarrow> nat \<Rightarrow> int \<Rightarrow> pty_buffer \<Rightarrow> pty_buffer reaction_of" where
  "read_buffer w maxBytes waitMs b =
     (if pb_chunks b \<noteq> [] then
        (case takeBuffered (pb_chunks b) maxBytes of (chunk, rest) \<Rightarrow>
           (b\<lparr>pb_chunks := rest\<rparr>, [Answer (w_op w) (LinkRead w chunk False)]))
      else if pb_eof b then (b, [Answer (w_op w) (LinkRead w [] True)])
      else if waitMs \<le> 0 then (b, [Answer (w_op w) (LinkRead w [] False)])
      else (b\<lparr>pb_waiters := pb_waiters b @ [w]\<rparr>, []))"

definition link_read :: "pty_wait \<Rightarrow> nat \<Rightarrow> int \<Rightarrow> link_entry \<Rightarrow> link_entry reaction_of" where
  "link_read w maxBytes waitMs e =
     (if map_of (le_ptys e) (w_channel w) = None then no_channel (w_op w) e
      else on_pty (w_channel w) (read_buffer w maxBytes waitMs) e)"

definition link_write ::
    "nat \<Rightarrow> string \<Rightarrow> int \<Rightarrow> int \<Rightarrow> string \<Rightarrow> link_entry \<Rightarrow> link_entry reaction_of" where
  "link_write op request channel sequence dataBase64 e =
     (if map_of (le_ptys e) channel = None then no_channel op e
      else
        (case atob dataBase64 of
           None \<Rightarrow> (e, [Answer op (LinkFail (link_error ''The string to be decoded is not correctly encoded.'' ''SSH_ERROR''))])
         | Some bs \<Rightarrow> (e, [SendBinary (dataFrame channel bs), Answer op (LinkOperation request channel sequence)])))"

definition link_resize ::
    "nat \<Rightarrow> string \<Rightarrow> int \<Rightarrow> int \<Rightarrow> int \<Rightarrow> int \<Rightarrow> link_entry \<Rightarrow> link_entry reaction_of" where
  "link_resize op request channel sequence cols rows e =
     (if map_of (le_ptys e) channel = None then no_channel op e
      else (e, [SendText (control ''resize'' [(''ch'', Num (IntN channel)), (''cols'', Num (IntN cols)), (''rows'', Num (IntN rows))]),
                Answer op (LinkOperation request channel sequence)]))"

definition link_close_pty :: "nat \<Rightarrow> string \<Rightarrow> int \<Rightarrow> link_entry \<Rightarrow> link_entry reaction_of" where
  "link_close_pty op request channel e =
     (case map_of (le_ptys e) channel of
        None \<Rightarrow> (e, [Answer op (LinkAck request)])
      | Some b \<Rightarrow>
          (case end_pty b of (b', fx) \<Rightarrow>
             (e\<lparr>le_ptys := AList.delete channel (le_ptys e)\<rparr>,
              fx @ [SendText (control ''close'' [(''ch'', Num (IntN channel))]), Answer op (LinkAck request)])))"

subsection \<open>Timers\<close>

definition exec_timer :: "nat \<Rightarrow> link_entry \<Rightarrow> link_entry reaction_of" where
  "exec_timer op e =
     (case map_of (le_running e) op of
        None \<Rightarrow> (e, [])
      | Some x \<Rightarrow>
          if xr_timer x
          then and_next (e, [SendText (control ''close'' [(''ch'', Num (IntN (xr_main x)))])]) (resolveExec op None True)
          else (e, []))"

definition open_timer :: "int \<Rightarrow> link_entry \<Rightarrow> link_entry reaction_of" where
  "open_timer channel e =
     (case map_of (le_opens e) channel of
        None \<Rightarrow> (e, [])
      | Some p \<Rightarrow>
          open_rejected (link_error ''link channel open timed out'' ''TIMED_OUT'') p
            (e\<lparr>le_opens := AList.delete channel (le_opens e)\<rparr>))"

definition read_timeout :: "nat \<Rightarrow> pty_buffer \<Rightarrow> pty_buffer reaction_of" where
  "read_timeout op b =
     (case find (\<lambda>w. w_op w = op) (pb_waiters b) of
        None \<Rightarrow> (b, [])
      | Some w \<Rightarrow> (b\<lparr>pb_waiters := remove1 w (pb_waiters b)\<rparr>, [Answer op (LinkRead w [] False)]))"

end
