(* ===== verification/Js_Lists.thy ===== *)
theory Js_Lists
  imports PS_Prelude "HOL-Library.Extended_Nat" "HOL-Library.Multiset"
begin

text \<open>
  What the list components share beyond HOL's lists: \<open>sort\<close> with a comparator, \<open>findIndex\<close>,
  \<open>splice\<close> as a move, a map kept in insertion order, and the decimal notation of a count.
\<close>

subsection \<open>Sorting with a comparator\<close>

text \<open>
  \<open>Array.prototype.sort(cmp)\<close> is stable (ES2019). For a comparator that orders its elements the
  result is unique, so the insertion order below is not a choice.
\<close>

fun insert_by :: "('a \<Rightarrow> 'a \<Rightarrow> int) \<Rightarrow> 'a \<Rightarrow> 'a list \<Rightarrow> 'a list" where
  "insert_by cmp x [] = [x]"
| "insert_by cmp x (y # ys) = (if cmp x y \<le> 0 then x # y # ys else y # insert_by cmp x ys)"

definition sort_by :: "('a \<Rightarrow> 'a \<Rightarrow> int) \<Rightarrow> 'a list \<Rightarrow> 'a list" where
  "sort_by cmp xs = foldr (insert_by cmp) xs []"

lemma mset_insert_by [simp]: "mset (insert_by cmp x xs) = add_mset x (mset xs)"
  by (induction xs) auto

lemma mset_sort_by [simp]: "mset (sort_by cmp xs) = mset xs"
  by (induction xs) (auto simp: sort_by_def)

lemma set_sort_by [simp]: "set (sort_by cmp xs) = set xs"
  using mset_eq_setD [OF mset_sort_by] .

lemma length_sort_by [simp]: "length (sort_by cmp xs) = length xs"
  using mset_eq_length [OF mset_sort_by] .

lemma mset_map_sort_by: "mset (map f (sort_by cmp xs)) = mset (map f xs)"
  by (metis mset_map mset_sort_by)

lemma sorted_insert_by:
  assumes "\<And>a b. r a b \<longleftrightarrow> cmp a b \<le> 0" and "\<And>a b. \<not> r a b \<Longrightarrow> r b a" and "transp r"
  shows "sorted_wrt r xs \<Longrightarrow> sorted_wrt r (insert_by cmp x xs)"
proof (induction xs)
  case (Cons y ys)
  have sets: "set (insert_by cmp x ys) = insert x (set ys)"
    using mset_eq_setD [OF mset_insert_by [of cmp x ys, folded mset.simps(2)]] by simp
  show ?case
  proof (cases "r x y")
    case True
    then show ?thesis using Cons.prems assms(1) transpD [OF assms(3) True] by auto
  next
    case False
    then show ?thesis using Cons assms(1) assms(2) [OF False] sets by auto
  qed
qed simp

lemma sorted_sort_by:
  assumes "\<And>a b. r a b \<longleftrightarrow> cmp a b \<le> 0" and "\<And>a b. \<not> r a b \<Longrightarrow> r b a" and "transp r"
  shows "sorted_wrt r (sort_by cmp xs)"
  by (induction xs) (auto simp: sort_by_def intro: sorted_insert_by [OF assms])

lemma mset_map_sort_key: "mset (map f (sort_key k xs)) = mset (map f xs)"
  by (metis mset_map mset_sort)

lemma filter_one: "distinct zs \<Longrightarrow> k \<in> set zs \<Longrightarrow> filter (\<lambda>x. k = x) zs = [k]"
  by (induction zs) (auto simp: filter_empty_conv)

text \<open>A sort by a key that tells the elements apart has one result.\<close>

lemma sort_key_unique:
  assumes "mset ys = mset xs" "inj_on f (set xs)" "sorted (map f ys)" "distinct xs"
  shows "sort_key f xs = ys"
proof -
  have same: "set ys = set xs" "distinct ys"
    using assms(1, 4) mset_eq_setD mset_eq_imp_distinct_iff by blast+
  have single: "filter (\<lambda>x. f k = f x) zs = [k]" if "k \<in> set zs" "distinct zs" "inj_on f (set zs)" for k zs
  proof -
    have "filter (\<lambda>x. f k = f x) zs = filter (\<lambda>x. k = x) zs"
      using that by (auto simp: inj_on_def intro!: filter_cong)
    then show ?thesis using that by (simp add: filter_one)
  qed
  show ?thesis by (rule properties_for_sort_key) (use assms same single in auto)
qed

subsection \<open>Positions\<close>

text \<open>\<open>findIndex\<close>, with \<open>None\<close> for \<open>-1\<close>.\<close>

fun find_index :: "('a \<Rightarrow> bool) \<Rightarrow> 'a list \<Rightarrow> nat option" where
  "find_index P [] = None"
| "find_index P (x # xs) = (if P x then Some 0 else map_option Suc (find_index P xs))"

lemma find_index_None: "find_index P xs = None \<longleftrightarrow> (\<forall>x\<in>set xs. \<not> P x)"
  by (induction xs) auto

lemma find_index_Some:
  "find_index P xs = Some i \<Longrightarrow> i < length xs \<and> P (xs ! i) \<and> (\<forall>j<i. \<not> P (xs ! j))"
proof (induction xs arbitrary: i)
  case (Cons x xs)
  show ?case
  proof (cases "P x")
    case False
    with Cons.prems obtain k where "find_index P xs = Some k" "i = Suc k" by auto
    with Cons.IH [of k] False show ?thesis by (auto simp: less_Suc_eq_0_disj)
  qed (use Cons.prems in auto)
qed simp

lemma find_index_append:
  "find_index P (xs @ ys) =
     (case find_index P xs of Some i \<Rightarrow> Some i | None \<Rightarrow> map_option ((+) (length xs)) (find_index P ys))"
  by (induction xs; cases "find_index P ys") (auto split: option.splits)

lemma find_index_map: "find_index P (map f xs) = find_index (P \<circ> f) xs"
  by (induction xs) auto

lemma find_index_distinct: "distinct xs \<Longrightarrow> i < length xs \<Longrightarrow> find_index (\<lambda>x. x = xs ! i) xs = Some i"
  by (induction xs arbitrary: i) (auto simp: nth_Cons' split: if_splits)

lemma mset_concat_update:
  "i < length xss \<Longrightarrow> mset ys = mset (xss ! i) \<Longrightarrow> mset (concat (xss[i := ys])) = mset (concat xss)"
proof (induction xss arbitrary: i)
  case (Cons xs xss)
  then show ?case by (cases i) auto
qed simp

lemma concat_same_index:
  "distinct (concat xss) \<Longrightarrow> i < length xss \<Longrightarrow> j < length xss \<Longrightarrow> x \<in> set (xss ! i) \<Longrightarrow> x \<in> set (xss ! j) \<Longrightarrow> i = j"
proof (induction xss arbitrary: i j)
  case (Cons ys yss)
  have "x \<in> set ys \<Longrightarrow> m < length yss \<Longrightarrow> x \<notin> set (yss ! m)" for m
    using Cons.prems(1) nth_mem by fastforce
  then show ?case using Cons by (cases i; cases j) auto
qed simp

text \<open>\<open>next.splice(from, 1); next.splice(to, 0, moving)\<close>.\<close>

definition move_item :: "nat \<Rightarrow> nat \<Rightarrow> 'a list \<Rightarrow> 'a list" where
  "move_item start dest xs =
     (let rest = take start xs @ drop (Suc start) xs in take dest rest @ xs ! start # drop dest rest)"

lemma mset_without: "i < length xs \<Longrightarrow> add_mset (xs ! i) (mset (take i xs @ drop (Suc i) xs)) = mset xs"
  by (metis id_take_nth_drop mset.simps(2) mset_append union_mset_add_mset_right)

lemma mset_move [simp]: "i < length xs \<Longrightarrow> mset (move_item i j xs) = mset xs"
  using mset_without [of i xs] append_take_drop_id [of j "take i xs @ drop (Suc i) xs"]
  by (simp add: move_item_def Let_def)
    (metis mset_append)

lemma map_move: "i < length xs \<Longrightarrow> map f (move_item i j xs) = move_item i j (map f xs)"
  by (simp add: move_item_def Let_def take_map drop_map)

lemma nth_move:
  assumes "i < length xs" "d < length xs"
  shows "move_item i d xs ! d = xs ! i"
proof -
  have "length (take d (take i xs @ drop (Suc i) xs)) = d" using assms by auto
  then show ?thesis unfolding move_item_def Let_def by (metis nth_append_length)
qed

lemma move_nowhere: "i < length xs \<Longrightarrow> move_item i i xs = xs"
  using id_take_nth_drop [of i xs] by (simp add: move_item_def)

lemma move_fixed_iff:
  assumes "distinct xs" "i < length xs" "d < length xs"
  shows "move_item i d xs = xs \<longleftrightarrow> d = i"
  using nth_move [OF assms(2, 3)] nth_eq_iff_index_eq [OF assms(1, 3, 2)] move_nowhere [OF assms(2)] by auto

lemma set_move [simp]: "i < length xs \<Longrightarrow> set (move_item i j xs) = set xs"
  using mset_eq_setD [OF mset_move] .

lemma distinct_move [simp]: "i < length xs \<Longrightarrow> distinct (move_item i j xs) = distinct xs"
  using mset_eq_imp_distinct_iff [OF mset_move] .

lemma length_move [simp]: "i < length xs \<Longrightarrow> length (move_item i j xs) = length xs"
  using mset_eq_length [OF mset_move] .

subsection \<open>Grouping into a map kept in insertion order\<close>

text \<open>\<open>bucket ? bucket.push(v) : map.set(k, [v])\<close>.\<close>

fun push_group :: "'k \<Rightarrow> 'v \<Rightarrow> ('k \<times> 'v list) list \<Rightarrow> ('k \<times> 'v list) list" where
  "push_group k v [] = [(k, [v])]"
| "push_group k v ((k', vs) # m) = (if k = k' then (k', vs @ [v]) # m else (k', vs) # push_group k v m)"

definition group_onto :: "('v \<Rightarrow> 'k) \<Rightarrow> ('k \<times> 'v list) list \<Rightarrow> 'v list \<Rightarrow> ('k \<times> 'v list) list" where
  "group_onto f m vs = foldl (\<lambda>m v. push_group (f v) v m) m vs"

lemma keys_push_group:
  "map fst (push_group k v m) = (if k \<in> set (map fst m) then map fst m else map fst m @ [k])"
  by (induction k v m rule: push_group.induct) auto

lemma map_of_push_group:
  "map_of (push_group k v m) = (map_of m)(k \<mapsto> (case map_of m k of None \<Rightarrow> [] | Some vs \<Rightarrow> vs) @ [v])"
  by (induction k v m rule: push_group.induct) (auto simp: fun_eq_iff)

lemma group_onto_Cons: "group_onto f m (v # vs) = group_onto f (push_group (f v) v m) vs"
  by (simp add: group_onto_def)

lemma uniq_acc_cong: "set s = set t \<Longrightarrow> uniq_acc s xs = uniq_acc t xs"
proof (induction xs arbitrary: s t)
  case (Cons x xs)
  have "uniq_acc (x # s) xs = uniq_acc (x # t) xs" by (rule Cons.IH) (simp add: Cons.prems)
  with Cons.IH [OF Cons.prems] show ?case by (simp add: Cons.prems)
qed simp

lemma keys_group_onto: "map fst (group_onto f m vs) = map fst m @ uniq_acc (map fst m) (map f vs)"
proof (induction vs arbitrary: m)
  case (Cons v vs)
  have "set (map fst m @ [f v]) = set (f v # map fst m)" by auto
  from uniq_acc_cong [OF this] show ?case
    using Cons by (simp add: group_onto_Cons keys_push_group)
qed (simp add: group_onto_def)

lemma map_of_group_onto:
  "map_of (group_onto f m vs) k =
     (case map_of m k of
        None \<Rightarrow> if filter (\<lambda>v. f v = k) vs = [] then None else Some (filter (\<lambda>v. f v = k) vs)
      | Some us \<Rightarrow> Some (us @ filter (\<lambda>v. f v = k) vs))"
proof (induction vs arbitrary: m)
  case (Cons v vs)
  then show ?case by (auto simp: group_onto_Cons map_of_push_group split: option.split)
qed (simp add: group_onto_def split: option.split)

lemma distinct_keys_group_onto:
  assumes "distinct (map fst m)"
  shows "distinct (map fst (group_onto f m vs))"
  unfolding keys_group_onto using assms by auto

lemma group_onto_mem:
  assumes "distinct (map fst m)" "(k, us) \<in> set (group_onto f m vs)"
  shows "us = (case map_of m k of None \<Rightarrow> [] | Some ws \<Rightarrow> ws) @ filter (\<lambda>v. f v = k) vs"
    and "map_of m k = None \<Longrightarrow> us \<noteq> []"
proof -
  have "map_of (group_onto f m vs) k = Some us"
    by (rule map_of_is_SomeI) (use assms distinct_keys_group_onto in auto)
  then show "us = (case map_of m k of None \<Rightarrow> [] | Some ws \<Rightarrow> ws) @ filter (\<lambda>v. f v = k) vs"
    and "map_of m k = None \<Longrightarrow> us \<noteq> []"
    by (auto simp: map_of_group_onto split: option.splits if_splits)
qed

lemma mset_push_group: "mset (concat (map snd (push_group k v m))) = add_mset v (mset (concat (map snd m)))"
  by (induction k v m rule: push_group.induct) auto

lemma mset_group_onto: "mset (concat (map snd (group_onto f m vs))) = mset (concat (map snd m)) + mset vs"
  by (induction vs arbitrary: m) (simp_all add: group_onto_Cons mset_push_group, simp add: group_onto_def)

lemma mset_concat_map: "mset (concat (map g xs)) = (\<Sum>x\<in>#mset xs. mset (g x))"
  by (induction xs) auto

subsection \<open>Decimal notation\<close>

fun show_nat :: "nat \<Rightarrow> string" where
  "show_nat n = (if n < 10 then [char_of (48 + n)] else show_nat (n div 10) @ [char_of (48 + n mod 10)])"

declare show_nat.simps [simp del]

definition read_nat :: "string \<Rightarrow> nat" where
  "read_nat s = foldl (\<lambda>a c. a * 10 + (of_char c - 48)) 0 s"

lemma of_char_digit [simp]: "d < 10 \<Longrightarrow> of_char (char_of (48 + d :: nat) :: char) = 48 + d"
  by (simp add: of_char_of)

lemma read_show_nat [simp]: "read_nat (show_nat n) = n"
proof (induction n rule: show_nat.induct)
  case (1 n)
  show ?case
  proof (cases "n < 10")
    case True
    then show ?thesis by (subst show_nat.simps) (simp add: read_nat_def)
  next
    case False
    then have "read_nat (show_nat (n div 10)) = n div 10" by (rule 1)
    moreover have "read_nat (s @ [c]) = read_nat s * 10 + (of_char c - 48)" for s c
      by (simp add: read_nat_def)
    ultimately show ?thesis using False by (subst show_nat.simps) simp
  qed
qed

lemma show_nat_inj [simp]: "show_nat m = show_nat n \<longleftrightarrow> m = n"
  by (metis read_show_nat)

lemma show_nat_digits: "c \<in> set (show_nat n) \<Longrightarrow> 48 \<le> (of_char c :: nat) \<and> (of_char c :: nat) < 58"
proof (induction n rule: show_nat.induct)
  case (1 n)
  show ?case
  proof (cases "n < 10")
    case True
    then show ?thesis using "1.prems" by (subst (asm) show_nat.simps) simp
  next
    case False
    then show ?thesis using 1 by (subst (asm) (2) show_nat.simps) auto
  qed
qed

lemma show_nat_no_space [simp]: "CHR '' '' \<notin> set (show_nat n)"
  using show_nat_digits [of "CHR '' ''" n] by auto

end
