(* ===== verification/Link_Capability.thy ===== *)
theory Link_Capability
  imports Link_Entry Js_Lists
begin

text \<open>
  The link capability as a whole (src/src/linkCapability.ts, \<open>createLinkCapability\<close>): its
  connections, the one dial in flight, and the dispatch of calls, socket events and timers.

  An entry keeps its number for good, since its socket handlers refer to it even after the
  capability has forgotten its id. A dial attempt that is no longer \<open>lk_dial\<close> has settled. Every call
  is numbered and answered under that number. (The dash of the host-key message is written as a
  hyphen.)
\<close>

subsection \<open>State\<close>

record link_config =
  lc_relay :: string
  lc_token :: string
  lc_hostId :: string
  lc_id :: "nat \<Rightarrow> string"
  lc_json :: "string \<Rightarrow> js option"

record dial_attempt =
  da_op :: nat
  da_request :: string
  da_entry :: nat
  da_id :: string
  da_socket :: "nat option"

record link_capability =
  lk_entries :: "link_entry list"
  lk_ids :: "(string \<times> nat) list"
  lk_dial :: "dial_attempt option"
  lk_nextOp :: nat
  lk_log :: "(nat option \<times> link_effect) list"

definition new_link :: link_capability where
  "new_link = \<lparr>lk_entries = [], lk_ids = [], lk_dial = None, lk_nextOp = 0, lk_log = []\<rparr>"

definition log_effects :: "nat option \<Rightarrow> link_effect list \<Rightarrow> link_capability \<Rightarrow> link_capability" where
  "log_effects i fx s = s\<lparr>lk_log := lk_log s @ map (Pair i) fx\<rparr>"

definition on_entry :: "nat \<Rightarrow> (link_entry \<Rightarrow> link_entry reaction_of) \<Rightarrow> link_capability \<Rightarrow> link_capability" where
  "on_entry i f s =
     (if i < length (lk_entries s)
      then (case f (lk_entries s ! i) of (e, fx) \<Rightarrow> log_effects (Some i) fx (s\<lparr>lk_entries := (lk_entries s)[i := e]\<rparr>))
      else s)"

definition answer_call :: "nat \<Rightarrow> link_answer \<Rightarrow> link_capability \<Rightarrow> link_capability" where
  "answer_call op a s = log_effects None [Answer op a] s"

definition fail_call :: "nat \<Rightarrow> string \<Rightarrow> string \<Rightarrow> link_capability \<Rightarrow> link_capability" where
  "fail_call op msg code s = answer_call op (LinkFail (link_error msg code)) s"

subsection \<open>Dialling\<close>

text \<open>
  \<open>settleDial\<close> with an error, and the \<open>catch\<close> of \<open>connect\<close>: the connection id is forgotten and the
  entry is closed. The socket closed is the one the attempt knows.
\<close>

definition fail_dial :: "dial_attempt \<Rightarrow> link_error \<Rightarrow> link_capability \<Rightarrow> link_capability" where
  "fail_dial a err s =
     (let s1 = (case da_socket a of None \<Rightarrow> s | Some i \<Rightarrow> log_effects (Some i) [CloseSocket ''dial failed''] s) in
      on_entry (da_entry a) (\<lambda>e. (e\<lparr>le_state := StClosed\<rparr>, []))
        (answer_call (da_op a) (LinkFail err)
          (s1\<lparr>lk_dial := None, lk_ids := AList.delete (da_id a) (lk_ids s1)\<rparr>)))"

definition link_connect ::
    "link_config \<Rightarrow> nat \<Rightarrow> string \<Rightarrow> string \<Rightarrow> trust_pin option \<Rightarrow> link_capability \<Rightarrow> link_capability" where
  "link_connect cfg op request gen expected s =
     (if lk_dial s \<noteq> None
      then fail_call op ''Another link dial is already in flight.'' ''DIAL_IN_PROGRESS'' s
      else if (case expected of None \<Rightarrow> False
               | Some pin \<Rightarrow> verifyHostKeyTrustPin (Some pin) (link_presented_key (lc_relay cfg) (lc_token cfg)) \<noteq> Trusted)
      then fail_call op ''Link host key changed - verify the relay URL and token.'' ''HOST_KEY_MISMATCH'' s
      else
        let i = length (lk_entries s);
            connId = lc_id cfg i in
        log_effects (Some i) [OpenSocket (clientUrl (lc_relay cfg) (lc_token cfg) (lc_hostId cfg))]
          (s\<lparr>lk_entries := lk_entries s @ [new_entry \<lparr>connectionId = connId, generationId = gen\<rparr>],
             lk_ids := AList.update connId i (lk_ids s),
             lk_dial := Some \<lparr>da_op = op, da_request = request, da_entry = i, da_id = connId, da_socket = None\<rparr>\<rparr>))"

definition dialling :: "nat \<Rightarrow> link_capability \<Rightarrow> dial_attempt option" where
  "dialling i s =
     (case lk_dial s of Some a \<Rightarrow> if da_entry a = i then Some a else None | None \<Rightarrow> None)"

definition dial_ready :: "dial_attempt \<Rightarrow> link_capability \<Rightarrow> link_capability" where
  "dial_ready a s =
     answer_call (da_op a) (LinkUp (da_request a) (le_ref (lk_entries s ! da_entry a))) (s\<lparr>lk_dial := None\<rparr>)"

subsection \<open>Socket events\<close>

definition hello :: "link_config \<Rightarrow> js" where
  "hello cfg = control ''hello''
     [(''role'', Str ''client''), (''host_id'', Str (lc_hostId cfg)), (''proto'', Num (IntN LINK_PROTO_VERSION))]"

definition socket_text :: "link_config \<Rightarrow> nat \<Rightarrow> string \<Rightarrow> link_capability \<Rightarrow> link_capability" where
  "socket_text cfg i raw s =
     (case parseControl (lc_json cfg) raw of
        None \<Rightarrow> s
      | Some (type, frame) \<Rightarrow>
          if type = ''ready'' then
            (case dialling i s of Some a \<Rightarrow> dial_ready a s | None \<Rightarrow> s)
          else if type = ''error'' then
            (case dialling i s of
               Some a \<Rightarrow> fail_dial a (frame_error ''relay refused the link'' frame) s
             | None \<Rightarrow> on_entry i (loseConnection (text_or ''error'' (get_prop frame ''code''))) s)
          else on_entry i (handleControl type frame) s)"

definition socket_closed :: "nat \<Rightarrow> nat \<Rightarrow> string \<Rightarrow> link_capability \<Rightarrow> link_capability" where
  "socket_closed i code reason s =
     (case dialling i s of
        Some a \<Rightarrow>
          fail_dial a (link_error (''Link dial failed: '' @ (if reason = [] then show_nat code else reason)) ''CONNECTION_LOST'') s
      | None \<Rightarrow> on_entry i (loseConnection (if reason = [] then ''closed '' @ show_nat code else reason)) s)"

definition socket_failed :: "nat \<Rightarrow> string \<Rightarrow> link_capability \<Rightarrow> link_capability" where
  "socket_failed i msg s =
     (case dialling i s of
        Some a \<Rightarrow> fail_dial a (link_error (''Link dial failed: '' @ msg) ''CONNECTION_LOST'') s
      | None \<Rightarrow> s)"

subsection \<open>Calls\<close>

datatype link_call =
    CallConnect string string "trust_pin option"
  | CallState string string
  | CallClose string string
  | CallCancelDial string string
  | CallCancel string string
  | CallSchedule string string int int
  | CallUnschedule string string
  | CallExec string string string int "bytes option"
  | CallOpenPty string string string int int "string option"
  | CallRead string int string int nat int
  | CallWrite string int string int string
  | CallResize string int string int int int
  | CallClosePty string int string
  | CallSftp
  | CallForward
  | CallResources string

definition unknown_connection :: "nat \<Rightarrow> link_capability \<Rightarrow> link_capability" where
  "unknown_connection op s = fail_call op ''Unknown link connection.'' ''NO_SUCH_CONNECTION'' s"

text \<open>\<open>entryOf\<close>, then an operation of the entry.\<close>

definition with_entry ::
    "string \<Rightarrow> nat \<Rightarrow> (link_entry \<Rightarrow> link_entry reaction_of) \<Rightarrow> link_capability \<Rightarrow> link_capability" where
  "with_entry connId op f s =
     (case map_of (lk_ids s) connId of
        None \<Rightarrow> unknown_connection op s
      | Some i \<Rightarrow> on_entry i f s)"

text \<open>Answer a call after an operation of an entry.\<close>

definition then_answer :: "nat \<Rightarrow> link_answer \<Rightarrow> (link_entry \<Rightarrow> link_entry reaction_of) \<Rightarrow> link_entry \<Rightarrow> link_entry reaction_of" where
  "then_answer op a f e = and_next (f e) (\<lambda>e'. (e', [Answer op a]))"

definition closeConnection :: "nat \<Rightarrow> string \<Rightarrow> string \<Rightarrow> link_capability \<Rightarrow> link_capability" where
  "closeConnection op connId request s =
     (case map_of (lk_ids s) connId of
        None \<Rightarrow> answer_call op (LinkAck request) s
      | Some i \<Rightarrow> on_entry i (then_answer op (LinkAck request) close_entry) s)"

definition cancelDial :: "nat \<Rightarrow> string \<Rightarrow> string \<Rightarrow> link_capability \<Rightarrow> link_capability" where
  "cancelDial op request target s =
     (case lk_dial s of
        Some a \<Rightarrow>
          if da_request a = target
          then answer_call op (LinkCancelled request True) (fail_dial a (link_error ''link dial cancelled'' ''CANCELLED'') s)
          else answer_call op (LinkCancelled request False) s
      | None \<Rightarrow> answer_call op (LinkCancelled request False) s)"

definition cancel_entry :: "nat \<Rightarrow> string \<Rightarrow> link_entry \<Rightarrow> link_entry reaction_of" where
  "cancel_entry op request e =
     (if le_state e \<noteq> StConnected then (e, [Answer op (LinkCancelled request False)])
      else then_answer op (LinkCancelled request True) (loseConnection ''cancelled'') e)"

definition cancelConnection :: "nat \<Rightarrow> string \<Rightarrow> string \<Rightarrow> link_capability \<Rightarrow> link_capability" where
  "cancelConnection op request connId s =
     (case map_of (lk_ids s) connId of
        None \<Rightarrow> answer_call op (LinkCancelled request False) s
      | Some i \<Rightarrow> on_entry i (cancel_entry op request) s)"

definition schedule_entry :: "nat \<Rightarrow> string \<Rightarrow> int \<Rightarrow> link_entry \<Rightarrow> link_entry reaction_of" where
  "schedule_entry op request delay e =
     (e\<lparr>le_closing := True\<rparr>, [ArmClose delay, Answer op (LinkAck request)])"

definition unschedule_entry :: "nat \<Rightarrow> string \<Rightarrow> link_entry \<Rightarrow> link_entry reaction_of" where
  "unschedule_entry op request e =
     (e\<lparr>le_closing := False\<rparr>, [Answer op (LinkCancelled request (le_closing e))])"

definition connected_entries :: "link_capability \<Rightarrow> link_entry list" where
  "connected_entries s =
     filter (\<lambda>e. le_state e = StConnected) (map (\<lambda>(k, i). lk_entries s ! i) (lk_ids s))"

definition resources :: "string \<Rightarrow> link_capability \<Rightarrow> link_answer" where
  "resources request s =
     LinkResources request (length (connected_entries s))
       (sum_list (map (\<lambda>e. length (le_ptys e)) (connected_entries s)))"

fun do_call :: "link_config \<Rightarrow> nat \<Rightarrow> link_call \<Rightarrow> link_capability \<Rightarrow> link_capability" where
  "do_call cfg op (CallConnect request gen expected) s = link_connect cfg op request gen expected s"
| "do_call cfg op (CallState connId request) s =
     answer_call op (LinkStateIs request (case map_of (lk_ids s) connId of
        None \<Rightarrow> StClosed | Some i \<Rightarrow> le_state (lk_entries s ! i))) s"
| "do_call cfg op (CallClose connId request) s = closeConnection op connId request s"
| "do_call cfg op (CallCancelDial request target) s = cancelDial op request target s"
| "do_call cfg op (CallCancel request connId) s = cancelConnection op request connId s"
| "do_call cfg op (CallSchedule connId request deadline now) s =
     with_entry connId op (schedule_entry op request (max 0 (deadline - now))) s"
| "do_call cfg op (CallUnschedule connId request) s = with_entry connId op (unschedule_entry op request) s"
| "do_call cfg op (CallExec connId request command timeoutMs stdin) s =
     with_entry connId op (link_exec op request command timeoutMs stdin) s"
| "do_call cfg op (CallOpenPty connId request command cols rows tm) s =
     with_entry connId op (link_open_pty op request command cols rows tm) s"
| "do_call cfg op (CallRead connId channel request sequence maxBytes waitMs) s =
     with_entry connId op (link_read \<lparr>w_op = op, w_request = request, w_channel = channel, w_sequence = sequence\<rparr>
       maxBytes waitMs) s"
| "do_call cfg op (CallWrite connId channel request sequence data) s =
     with_entry connId op (link_write op request channel sequence data) s"
| "do_call cfg op (CallResize connId channel request sequence cols rows) s =
     with_entry connId op (link_resize op request channel sequence cols rows) s"
| "do_call cfg op (CallClosePty connId channel request) s =
     with_entry connId op (link_close_pty op request channel) s"
| "do_call cfg op CallSftp s = fail_call op ''SFTP is not available over the link transport.'' ''UNSUPPORTED'' s"
| "do_call cfg op CallForward s =
     fail_call op ''Port forwarding is not available over the link transport.'' ''UNSUPPORTED'' s"
| "do_call cfg op (CallResources request) s = answer_call op (resources request s) s"

subsection \<open>Events\<close>

datatype link_event =
    Calls link_call
  | SocketOpened nat
  | SocketText nat string
  | SocketData nat bytes
  | SocketClosed nat nat string
  | SocketFailed nat string
  | DialTimer
  | CloseTimer nat
  | ExecTimer nat nat
  | OpenTimer nat int
  | ReadTimer nat int nat

text \<open>
  The scheduled close: the timer calls \<open>closeConnection\<close> with the id of its entry, and nobody
  receives the answer.
\<close>

definition scheduled_close :: "nat \<Rightarrow> link_capability \<Rightarrow> link_capability" where
  "scheduled_close i s =
     (if i < length (lk_entries s) \<and> le_closing (lk_entries s ! i)
      then
        let s1 = on_entry i (\<lambda>e. (e\<lparr>le_closing := False\<rparr>, [])) s in
        (case map_of (lk_ids s1) (connectionId (le_ref (lk_entries s ! i))) of
           None \<Rightarrow> s1
         | Some j \<Rightarrow> on_entry j close_entry s1)
      else s)"

fun link_step :: "link_config \<Rightarrow> link_capability \<Rightarrow> link_event \<Rightarrow> link_capability" where
  "link_step cfg s (Calls c) = do_call cfg (lk_nextOp s) c (s\<lparr>lk_nextOp := Suc (lk_nextOp s)\<rparr>)"
| "link_step cfg s (SocketOpened i) = on_entry i (\<lambda>e. (e, [SendText (hello cfg)])) s"
| "link_step cfg s (SocketText i raw) = socket_text cfg i raw s"
| "link_step cfg s (SocketData i raw) = on_entry i (handleData raw) s"
| "link_step cfg s (SocketClosed i code reason) = socket_closed i code reason s"
| "link_step cfg s (SocketFailed i msg) = socket_failed i msg s"
| "link_step cfg s DialTimer =
     (case lk_dial s of None \<Rightarrow> s | Some a \<Rightarrow> fail_dial a (link_error ''link dial timed out'' ''TIMED_OUT'') s)"
| "link_step cfg s (CloseTimer i) = scheduled_close i s"
| "link_step cfg s (ExecTimer i op) = on_entry i (exec_timer op) s"
| "link_step cfg s (OpenTimer i ch) = on_entry i (open_timer ch) s"
| "link_step cfg s (ReadTimer i ch op) = on_entry i (on_pty ch (read_timeout op)) s"

end
