(* ===== verification/Link_Laws.thy ===== *)
theory Link_Laws
  imports Link_Capability
begin

text \<open>
  Laws that every operation of a link connection obeys, as a contract (locale \<open>frame_law\<close> and its extensions): what
  has to be shown of the primitive actions, and what then holds of every frame, timer and close.
  It is interpreted on the laws that calls are answered exactly once, that nothing is left in
  flight on a lost connection, and that PTY output is passed on in order.
\<close>

subsection \<open>The contract\<close>

fun silent :: "link_effect \<Rightarrow> bool" where
  "silent (Answer op a) = False"
| "silent _ = True"

locale frame_law =
  fixes ok :: "link_entry \<Rightarrow> link_entry reaction_of \<Rightarrow> bool"
  assumes skip: "ok e (e, [])"
    and seq: "ok e r \<Longrightarrow> ok (fst r) (f (fst r)) \<Longrightarrow> ok e (and_next r f)"
    and effects: "list_all silent fx \<Longrightarrow> ok e (e, fx)"
    and settle: "map_of (le_running e) op = Some x \<Longrightarrow> (\<And>w bs eof. a \<noteq> LinkRead w bs eof) \<Longrightarrow>
      ok e (settleExec op x e, [Answer op a])"
    and open_fails: "map_of (le_opens e) ch = Some p \<Longrightarrow>
      ok e (open_rejected err p (e\<lparr>le_opens := AList.delete ch (le_opens e)\<rparr>))"
    and open_done: "map_of (le_opens e) ch = Some p \<Longrightarrow>
      ok e (open_resolved ch p (e\<lparr>le_opens := AList.delete ch (le_opens e)\<rparr>))"
    and opens_fail: "ok e (and_next (reject_opens err (map snd (le_opens e)) e) (\<lambda>e'. (e'\<lparr>le_opens := []\<rparr>, [])))"
    and pty_ends: "ok e (on_pty ch end_pty e)"
    and ptys_end: "ok e (end_all_ptys e)"
    and read_gives_up: "ok e (on_pty ch (read_timeout op) e)"
begin

lemma resolves: "ok e (resolveExec op code late e)"
  by (auto simp: resolveExec_def intro: skip settle split: option.splits)

lemma rejects: "ok e (rejectExec err op e)"
  by (auto simp: rejectExec_def intro: skip settle split: option.splits)

lemma rejects_all: "ok e (reject_execs err ops e)"
  by (induction ops arbitrary: e) (auto intro: skip seq rejects)

lemma drains: "ok e (drain err e)"
  unfolding drain_def by (intro seq rejects_all opens_fail ptys_end)

lemma emits: "silent f \<Longrightarrow> ok e (e, [f])"
  by (rule effects) simp

lemma opens_if:
  assumes registers: "ok e (register_err ch (chan (get_prop frame ''err_ch'')) e, [])"
  shows "ok e (opened_frame ch frame e)"
proof (cases "map_of (le_opens e) ch")
  case None
  then show ?thesis by (simp add: opened_frame_def skip)
next
  case (Some p)
  let ?c = "chan (get_prop frame ''err_ch'')"
  let ?r = "register_err ch ?c e"
  have o: "le_opens ?r = le_opens e" by (auto simp: register_err_def split: option.splits)
  have "register_err ch ?c (e\<lparr>le_opens := AList.delete ch (le_opens e)\<rparr>) = ?r\<lparr>le_opens := AList.delete ch (le_opens ?r)\<rparr>"
    by (auto simp: register_err_def split: option.splits)
  moreover have "ok e (and_next (?r, []) (\<lambda>e'. open_resolved ch p (e'\<lparr>le_opens := AList.delete ch (le_opens e')\<rparr>)))"
  proof (rule seq [OF registers])
    have "map_of (le_opens ?r) ch = Some p" by (simp add: o Some)
    then show "ok (fst (?r, [])) (open_resolved ch p ((fst (?r, []))\<lparr>le_opens := AList.delete ch (le_opens (fst (?r, [])))\<rparr>))"
      by (simp only: fst_conv open_done)
  qed
  ultimately show ?thesis using Some by (simp add: opened_frame_def Let_def open_fails and_next_def)
qed

lemma exits: "ok e (exit_frame ch frame e)"
  unfolding exit_frame_def by (auto intro!: seq skip resolves pty_ends split: option.splits)

lemma channel_errors: "ok e (error_frame ch frame e)"
  unfolding error_frame_def by (auto intro!: seq skip rejects pty_ends split: option.splits)

lemma handles_if:
  assumes "\<And>ch. ok e (register_err ch (chan (get_prop frame ''err_ch'')) e, [])"
  shows "ok e (handleControl ty frame e)"
  unfolding handleControl_def
  by (auto intro!: skip opens_if exits channel_errors pty_ends assms split: option.splits)

lemma exec_times_out: "ok e (exec_timer op e)"
  unfolding exec_timer_def by (auto intro!: skip seq emits resolves split: option.splits)

lemma open_times_out: "ok e (open_timer ch e)"
  unfolding open_timer_def by (auto intro!: skip open_fails split: option.splits)

end

text \<open>Laws that do not look at the state of the connection hold of losing and closing it too.\<close>

locale state_law = frame_law +
  assumes state: "ok e (e\<lparr>le_state := st, le_closing := b\<rparr>, [])"
begin

lemma downs: "silent f \<Longrightarrow> ok e (e\<lparr>le_state := st, le_closing := b\<rparr>, [f])"
  using seq [OF state [where e = e and st = st and b = b], where f = "\<lambda>e'. (e', [f])"] by (simp add: and_next_def emits)

lemma loses: "ok e (loseConnection reason e)"
  unfolding loseConnection_def by (auto intro!: skip seq downs drains emits)

lemma closes: "ok e (close_entry e)"
  unfolding close_entry_def by (auto intro!: seq downs drains emits)

end

text \<open>Laws that do not look at the channel numbers the daemon chooses hold of every frame.\<close>

locale channel_law = frame_law +
  assumes registers: "ok e (register_err ch c e, [])"
begin

lemma handles: "ok e (handleControl ty frame e)"
  by (rule handles_if) (rule registers)

end

text \<open>Both.\<close>

locale entry_law = state_law + channel_law

end
