(* ===== verification/Link_Answers.thy ===== *)
theory Link_Answers
  imports Link_Laws
begin

text \<open>
  Every call on the link capability is answered exactly once: the calls answered and those still
  in flight are together the calls made. The law is proved for the entry of a connection through
  the contract of Link_Laws, and carried to the runs of the whole capability.
\<close>

subsection \<open>Accounting\<close>

fun answered :: "link_effect list \<Rightarrow> nat multiset" where
  "answered [] = {#}"
| "answered (f # fx) = (case f of Answer op a \<Rightarrow> add_mset op (answered fx) | _ \<Rightarrow> answered fx)"

fun open_ops :: "open_wait \<Rightarrow> nat multiset" where
  "open_ops (OpenForExec op stdin) = {#}"
| "open_ops (OpenForPty op request) = {#op#}"

definition waiting_ops :: "pty_buffer \<Rightarrow> nat multiset" where
  "waiting_ops b = mset (map w_op (pb_waiters b))"

text \<open>The sum of a measure over the values of a map.\<close>

definition total :: "('v \<Rightarrow> nat multiset) \<Rightarrow> ('k \<times> 'v) list \<Rightarrow> nat multiset" where
  "total g m = sum_list (map (\<lambda>(k, v). g v) m)"

definition in_flight :: "link_entry \<Rightarrow> nat multiset" where
  "in_flight e = mset (map fst (le_running e)) + total open_ops (le_opens e) + total waiting_ops (le_ptys e)"

definition keys :: "('k \<times> 'v) list \<Rightarrow> 'k set" where
  "keys m = fst ` set m"

definition well_kept :: "link_entry \<Rightarrow> bool" where
  "well_kept e \<longleftrightarrow>
     distinct (map fst (le_running e)) \<and> distinct (map fst (le_opens e)) \<and> distinct (map fst (le_ptys e))
     \<and> (\<forall>k\<in>keys (le_opens e) \<union> keys (le_ptys e). k < le_next e)
     \<and> keys (le_opens e) \<inter> keys (le_ptys e) = {}"

lemma answered_append [simp]: "answered (fx @ fy) = answered fx + answered fy"
  by (induction fx) (auto split: link_effect.splits)

lemma answered_silent: "list_all silent fx \<Longrightarrow> answered fx = {#}"
  by (induction fx) (auto split: link_effect.splits)

lemma total_simps [simp]:
  "total g [] = {#}" "total g ((k, v) # m) = g v + total g m" "total g (m @ n) = total g m + total g n"
  by (simp_all add: total_def)

lemma keys_simps [simp]:
  "keys [] = {}" "keys ((k, v) # m) = insert k (keys m)" "keys (AList.update k v m) = insert k (keys m)"
  "keys (AList.delete k m) = keys m - {k}"
  by (auto simp: keys_def dom_update AList.delete_eq)

lemma keys_None: "map_of m k = None \<longleftrightarrow> k \<notin> keys m"
  by (simp add: keys_def map_of_eq_None_iff)

lemma keys_Some: "map_of m k = Some v \<Longrightarrow> k \<in> keys m"
  by (auto simp: keys_def map_of_eq_Some_iff dest: map_of_SomeD intro: rev_image_eqI)

lemma total_add: "k \<notin> keys m \<Longrightarrow> total g (AList.update k v m) = total g m + g v"
  by (induction m) (auto simp: ac_simps)

lemma total_update:
  "distinct (map fst m) \<Longrightarrow> map_of m k = Some w \<Longrightarrow> total g (AList.update k v m) + g w = total g m + g v"
  by (induction m) (auto simp: ac_simps)

lemma delete_absent: "k \<notin> keys m \<Longrightarrow> AList.delete k m = m"
  by (simp add: keys_def delete_idem)

lemma total_delete:
  "distinct (map fst m) \<Longrightarrow> map_of m k = Some w \<Longrightarrow> total g (AList.delete k m) + g w = total g m"
proof (induction m)
  case (Cons p m)
  then show ?case
    by (cases p) (auto simp: ac_simps delete_absent keys_def split: if_splits)
qed simp

lemma mset_fst_delete:
  "distinct (map fst m) \<Longrightarrow> map_of m k = Some w \<Longrightarrow>
   add_mset k (mset (map fst (AList.delete k m))) = mset (map fst m)"
proof (induction m)
  case (Cons p m)
  then show ?case
    by (cases p) (auto simp: delete_absent keys_def split: if_splits)
qed simp

lemma map_fst_update:
  "map_of m k = Some w \<Longrightarrow> map fst (AList.update k v m) = map fst m"
  by (induction m) (auto split: if_splits)

lemma mset_fst_add: "k \<notin> keys m \<Longrightarrow> mset (map fst (AList.update k v m)) = add_mset k (mset (map fst m))"
  by (induction m) auto

subsection \<open>The law\<close>

text \<open>An operation that answers what it takes out of flight, and makes \<open>n\<close> new calls.\<close>

definition fair :: "nat multiset \<Rightarrow> link_entry \<Rightarrow> link_entry reaction_of \<Rightarrow> bool" where
  "fair n e r \<longleftrightarrow>
     (well_kept e \<longrightarrow> well_kept (fst r) \<and> in_flight (fst r) + answered (snd r) = in_flight e + n)"

lemma and_next_simps [simp]:
  "fst (and_next r f) = fst (f (fst r))" "snd (and_next r f) = snd r @ snd (f (fst r))"
  by (simp_all add: and_next_def split: prod.splits)

lemma fair_next: "fair n e r \<Longrightarrow> fair m (fst r) (f (fst r)) \<Longrightarrow> fair (n + m) e (and_next r f)"
  unfolding fair_def by (simp, metis add.assoc add.commute)

lemma fair_settle:
  assumes "map_of (le_running e) op = Some x"
  shows "fair {#} e (settleExec op x e, [Answer op a])"
proof -
  have "le_running (settleExec op x e) = AList.delete op (le_running e)" "le_opens (settleExec op x e) = le_opens e"
    "le_ptys (settleExec op x e) = le_ptys e" "le_next (settleExec op x e) = le_next e"
    by (simp_all add: settleExec_def Let_def split: option.splits)
  with mset_fst_delete [OF _ assms] show ?thesis
    by (auto simp: fair_def well_kept_def in_flight_def distinct_delete ac_simps)
qed

lemma fair_opens:
  "well_kept e \<Longrightarrow> map_of (le_opens e) ch = Some p \<Longrightarrow>
   well_kept (e\<lparr>le_opens := AList.delete ch (le_opens e)\<rparr>)
   \<and> in_flight (e\<lparr>le_opens := AList.delete ch (le_opens e)\<rparr>) + open_ops p = in_flight e
   \<and> ch \<notin> keys (le_ptys e) \<and> ch < le_next e"
  using total_delete [of "le_opens e" ch p open_ops] keys_Some [of "le_opens e" ch p]
  by (auto simp: well_kept_def in_flight_def distinct_delete ac_simps)

lemma flush_answers:
  "flush_waiters ws chunks eof = (chunks', fx) \<Longrightarrow> answered fx = mset (map w_op ws)"
  by (induction ws chunks eof arbitrary: chunks' fx rule: flush_waiters.induct) (auto split: prod.splits)

lemma flushPty_answers:
  "flushPty b = (b', fx) \<Longrightarrow> waiting_ops b' = {#} \<and> answered fx = waiting_ops b"
  by (auto simp: flushPty_def waiting_ops_def flush_answers split: prod.splits)

text \<open>A buffer operation is fair when it answers the readers it drops.\<close>

lemma fair_on_pty:
  assumes "\<And>b b' fx. map_of (le_ptys e) ch = Some b \<Longrightarrow> f b = (b', fx) \<Longrightarrow> waiting_ops b' + answered fx = waiting_ops b + n"
    and "map_of (le_ptys e) ch = None \<Longrightarrow> n = {#}"
  shows "fair n e (on_pty ch f e)"
proof (cases "map_of (le_ptys e) ch")
  case None
  with assms(2) show ?thesis by (simp add: on_pty_def fair_def)
next
  case (Some b)
  obtain b' fx where f: "f b = (b', fx)" by fastforce
  note a = assms(1) [OF Some f]
  show ?thesis
    unfolding fair_def
  proof
    assume w: "well_kept e"
    have "total waiting_ops (AList.update ch b' (le_ptys e)) + waiting_ops b = total waiting_ops (le_ptys e) + waiting_ops b'"
      using w Some by (intro total_update) (simp_all add: well_kept_def)
    then have "total waiting_ops (AList.update ch b' (le_ptys e)) + answered fx + (waiting_ops b + waiting_ops b')
        = total waiting_ops (le_ptys e) + n + (waiting_ops b + waiting_ops b')"
      using a by (metis (no_types, lifting) add.assoc add.commute)
    then have "total waiting_ops (AList.update ch b' (le_ptys e)) + answered fx = total waiting_ops (le_ptys e) + n"
      by simp
    with w Some f map_fst_update [OF Some, of b'] keys_Some [OF Some]
    show "well_kept (fst (on_pty ch f e)) \<and> in_flight (fst (on_pty ch f e)) + answered (snd (on_pty ch f e)) = in_flight e + n"
      by (auto simp: on_pty_def well_kept_def in_flight_def insert_absorb add.assoc)
  qed
qed

lemma fair_skip: "fair {#} e (e, [])"
  by (simp add: fair_def)

lemma rejected_exec: "fair {#} e (rejectExec err op e) \<and> le_opens (fst (rejectExec err op e)) = le_opens e"
  by (cases "map_of (le_running e) op")
    (simp_all add: rejectExec_def fair_skip fair_settle, simp add: settleExec_def Let_def split: option.splits)

text \<open>The rejection of one open, without and with its removal.\<close>

lemma open_rejected_fair:
  "well_kept e \<Longrightarrow>
   well_kept (fst (open_rejected err p e)) \<and> le_opens (fst (open_rejected err p e)) = le_opens e
   \<and> in_flight (fst (open_rejected err p e)) + answered (snd (open_rejected err p e)) = in_flight e + open_ops p"
  using rejected_exec [of e err] by (cases p) (auto simp: fair_def)

lemma reject_opens_fair:
  "well_kept e \<Longrightarrow>
   well_kept (fst (reject_opens err ps e)) \<and> le_opens (fst (reject_opens err ps e)) = le_opens e
   \<and> in_flight (fst (reject_opens err ps e)) + answered (snd (reject_opens err ps e))
     = in_flight e + sum_list (map open_ops ps)"
proof (induction ps arbitrary: e)
  case (Cons p ps)
  let ?e = "fst (open_rejected err p e)"
  let ?r = "reject_opens err ps ?e"
  note o = open_rejected_fair [OF Cons.prems, of err p]
  then have i: "well_kept (fst ?r)" "le_opens (fst ?r) = le_opens ?e"
    "in_flight (fst ?r) + answered (snd ?r) = in_flight ?e + sum_list (map open_ops ps)"
    using Cons.IH [of ?e] by simp_all
  have "in_flight (fst ?r) + (answered (snd (open_rejected err p e)) + answered (snd ?r))
      = (in_flight (fst ?r) + answered (snd ?r)) + answered (snd (open_rejected err p e))"
    by (simp only: ac_simps)
  also have "\<dots> = (in_flight ?e + answered (snd (open_rejected err p e))) + sum_list (map open_ops ps)"
    by (simp only: i(3)) (simp only: ac_simps)
  also have "\<dots> = in_flight e + (open_ops p + sum_list (map open_ops ps))"
    using o by (simp add: add.assoc)
  finally show ?case using o i(1,2) by simp
qed simp

lemma clear_opens_fair:
  "fair {#} e (and_next (reject_opens err (map snd (le_opens e)) e) (\<lambda>e'. (e'\<lparr>le_opens := []\<rparr>, [])))"
proof -
  let ?r = "reject_opens err (map snd (le_opens e)) e"
  have t: "sum_list (map open_ops (map snd (le_opens e))) = total open_ops (le_opens e)"
    by (simp add: total_def comp_def case_prod_unfold)
  have "well_kept ((fst ?r)\<lparr>le_opens := []\<rparr>)
      \<and> in_flight ((fst ?r)\<lparr>le_opens := []\<rparr>) + answered (snd ?r) = in_flight e" if w: "well_kept e"
  proof
    note r = reject_opens_fair [OF w, of err "map snd (le_opens e)"]
    then show "well_kept ((fst ?r)\<lparr>le_opens := []\<rparr>)" by (auto simp: well_kept_def)
    have "in_flight (fst ?r) = in_flight ((fst ?r)\<lparr>le_opens := []\<rparr>) + total open_ops (le_opens e)"
      using r by (simp add: in_flight_def ac_simps)
    then have "in_flight ((fst ?r)\<lparr>le_opens := []\<rparr>) + answered (snd ?r) + total open_ops (le_opens e)
        = in_flight e + total open_ops (le_opens e)"
      using r t by (metis (no_types, lifting) add.assoc add.commute)
    then show "in_flight ((fst ?r)\<lparr>le_opens := []\<rparr>) + answered (snd ?r) = in_flight e" by simp
  qed
  then show ?thesis by (simp add: fair_def)
qed

lemma end_ptys_fair:
  "end_ptys ps = (ps', fx) \<Longrightarrow>
   map fst ps' = map fst ps \<and> total waiting_ops ps' + answered fx = total waiting_ops ps"
proof (induction ps arbitrary: ps' fx rule: end_ptys.induct)
  case (2 ch b ps)
  then show ?case
    using flushPty_answers [of "b\<lparr>pb_eof := True\<rparr>"]
    by (auto simp: end_pty_def waiting_ops_def ac_simps split: prod.splits)
qed simp

lemma end_all_fair: "fair {#} e (end_all_ptys e)"
proof (cases "end_ptys (le_ptys e)")
  case (Pair ps fx)
  note p = end_ptys_fair [OF Pair]
  then have "keys ps = keys (le_ptys e)" by (metis keys_def list.set_map)
  with p Pair show ?thesis
    by (auto simp: fair_def end_all_ptys_def well_kept_def in_flight_def add.assoc)
qed

lemma end_pty_answers: "end_pty b = (b', fx) \<Longrightarrow> waiting_ops b' + answered fx = waiting_ops b"
  using flushPty_answers [of "b\<lparr>pb_eof := True\<rparr>" b' fx] by (simp add: end_pty_def waiting_ops_def)

lemma read_timeout_answers: "read_timeout op b = (b', fx) \<Longrightarrow> waiting_ops b' + answered fx = waiting_ops b"
proof (cases "find (\<lambda>w. w_op w = op) (pb_waiters b)")
  case (Some w)
  assume "read_timeout op b = (b', fx)"
  with Some have r: "b' = b\<lparr>pb_waiters := remove1 w (pb_waiters b)\<rparr>" "fx = [Answer op (LinkRead w [] False)]"
    by (simp_all add: read_timeout_def)
  from find_Some_iff_ex [OF Some] have w: "w \<in> set (pb_waiters b)" "w_op w = op" by simp_all
  then have "mset (pb_waiters b) = add_mset w (mset (remove1 w (pb_waiters b)))" by simp
  then have "mset (map w_op (pb_waiters b)) = add_mset (w_op w) (mset (map w_op (remove1 w (pb_waiters b))))"
    by (metis image_mset_add_mset mset_map)
  with w r show ?thesis by (simp add: waiting_ops_def)
qed (simp add: read_timeout_def)

lemma open_resolved_fair:
  assumes "map_of (le_opens e) ch = Some p"
  shows "fair {#} e (open_resolved ch p (e\<lparr>le_opens := AList.delete ch (le_opens e)\<rparr>))"
  unfolding fair_def
proof
  assume "well_kept e"
  note o = fair_opens [OF this assms]
  show "well_kept (fst (open_resolved ch p (e\<lparr>le_opens := AList.delete ch (le_opens e)\<rparr>)))
      \<and> in_flight (fst (open_resolved ch p (e\<lparr>le_opens := AList.delete ch (le_opens e)\<rparr>)))
        + answered (snd (open_resolved ch p (e\<lparr>le_opens := AList.delete ch (le_opens e)\<rparr>))) = in_flight e + {#}"
  proof (cases p)
    case (OpenForExec op stdin)
    with o show ?thesis by (auto split: option.splits)
  next
    case (OpenForPty op request)
    with o show ?thesis
      by (auto simp: well_kept_def in_flight_def total_add waiting_ops_def distinct_update ac_simps)
  qed
qed

lemma fair_collect:
  "map_of (le_running e) op = Some x \<Longrightarrow> fair {#} e (e\<lparr>le_running := AList.update op y (le_running e), le_execs := m\<rparr>, [])"
  by (simp add: fair_def well_kept_def in_flight_def map_fst_update)

lemma fair_update:
  "map_of (le_running e) op = Some x \<Longrightarrow> fair {#} e (e\<lparr>le_running := AList.update op y (le_running e)\<rparr>, [])"
  by (simp add: fair_def well_kept_def in_flight_def map_fst_update)

interpretation balance: entry_law "fair {#}"
proof unfold_locales
  fix e r f
  assume "fair {#} e r" "fair {#} (fst r) (f (fst r))"
  then show "fair {#} e (and_next r f)" using fair_next [of "{#}" e r "{#}" f] by simp
next
  fix e :: link_entry and ch p err
  assume "map_of (le_opens e) ch = Some p"
  then show "fair {#} e (open_rejected err p (e\<lparr>le_opens := AList.delete ch (le_opens e)\<rparr>))"
    using fair_opens open_rejected_fair by (fastforce simp: fair_def)
next
  fix e :: link_entry and ch
  show "fair {#} e (on_pty ch end_pty e)"
    by (rule fair_on_pty) (simp_all add: end_pty_answers)
next
  fix e :: link_entry and ch op
  show "fair {#} e (on_pty ch (read_timeout op) e)"
    by (rule fair_on_pty) (simp_all add: read_timeout_answers)
next
  fix e :: link_entry and ch c
  show "fair {#} e (register_err ch c e, [])"
    by (auto simp: register_err_def fair_skip intro: fair_collect split: option.splits)
qed (simp_all add: fair_skip fair_settle open_resolved_fair clear_opens_fair end_all_fair,
    simp_all add: fair_def answered_silent well_kept_def in_flight_def)

subsection \<open>Data and calls\<close>

lemma receive_answers: "receive payload b = (b', fx) \<Longrightarrow> waiting_ops b' + answered fx = waiting_ops b"
  using flushPty_answers [of "b\<lparr>pb_chunks := pb_chunks b @ [payload]\<rparr>" b' fx]
  by (auto simp: receive_def waiting_ops_def split: if_splits)

lemma fair_data: "fair {#} e (handleData raw e)"
proof -
  have "fair {#} e (on_pty ch (receive payload) e)" for ch payload
    by (rule fair_on_pty) (simp_all add: receive_answers)
  then show ?thesis
    by (auto simp: handleData_def intro: fair_skip fair_update split: option.splits prod.splits)
qed

lemma fair_answer: "fair {#op#} e (e, [Answer op a])"
  by (simp add: fair_def)

lemma fair_send_answer: "silent f \<Longrightarrow> fair {#op#} e (e, [f, Answer op a])"
  by (cases f) (simp_all add: fair_def)

lemma fair_then_answer: "fair {#} e (f e) \<Longrightarrow> fair {#op#} e (then_answer op a f e)"
  using fair_next [of "{#}" e "f e" "{#op#}" "\<lambda>e'. (e', [Answer op a])"]
  by (simp add: then_answer_def fair_answer)

lemma fresh_channel:
  "well_kept e \<Longrightarrow> le_next e \<notin> keys (le_opens e) \<and> le_next e \<notin> keys (le_ptys e)"
  by (auto simp: well_kept_def)

lemma kept_open:
  assumes "well_kept e"
  shows "well_kept (e\<lparr>le_next := le_next e + 1, le_opens := AList.update (le_next e) p (le_opens e)\<rparr>)"
    and "k \<notin> keys (le_running e) \<Longrightarrow> well_kept (e\<lparr>le_next := le_next e + 1, le_execs := m,
      le_running := AList.update k r (le_running e), le_opens := AList.update (le_next e) p (le_opens e)\<rparr>)"
proof -
  have "\<forall>x\<in>insert (le_next e) (keys (le_opens e)) \<union> keys (le_ptys e). x < le_next e + 1"
  proof
    fix x assume "x \<in> insert (le_next e) (keys (le_opens e)) \<union> keys (le_ptys e)"
    then have "x = le_next e \<or> x < le_next e" using assms by (auto simp: well_kept_def)
    then show "x < le_next e + 1" by auto
  qed
  moreover have "insert (le_next e) (keys (le_opens e)) \<inter> keys (le_ptys e) = {}"
    using assms fresh_channel [OF assms] by (simp add: well_kept_def)
  ultimately show "well_kept (e\<lparr>le_next := le_next e + 1, le_opens := AList.update (le_next e) p (le_opens e)\<rparr>)"
    "k \<notin> keys (le_running e) \<Longrightarrow> well_kept (e\<lparr>le_next := le_next e + 1, le_execs := m,
      le_running := AList.update k r (le_running e), le_opens := AList.update (le_next e) p (le_opens e)\<rparr>)"
    using assms by (simp_all add: well_kept_def distinct_update)
qed

lemma fair_open_pty: "fair {#op#} e (link_open_pty op request command cols rows tm e)"
proof (cases "le_state e = StConnected")
  case True
  with True kept_open(1) [of e] fresh_channel [of e] show ?thesis
    by (auto simp: fair_def link_open_pty_def openChannel_def Let_def in_flight_def total_add ac_simps)
qed (simp add: link_open_pty_def lost_answer_def fair_answer)

lemma fair_exec:
  assumes "op \<notin># in_flight e"
  shows "fair {#op#} e (link_exec op request command timeoutMs stdin e)"
proof (cases "le_state e = StConnected")
  case True
  have k: "op \<notin> keys (le_running e)" using assms by (simp add: in_flight_def keys_def)
  with True kept_open(2) [OF _ k] fresh_channel [of e] mset_fst_add [OF k] show ?thesis
    by (auto simp: fair_def link_exec_def openChannel_def Let_def in_flight_def total_add ac_simps)
qed (simp add: link_exec_def lost_answer_def fair_answer)

lemma fair_read: "fair {#w_op w#} e (link_read w maxBytes waitMs e)"
proof (cases "map_of (le_ptys e) (w_channel w)")
  case (Some b)
  have "fair {#w_op w#} e (on_pty (w_channel w) (read_buffer w maxBytes waitMs) e)"
    by (rule fair_on_pty) (auto simp: Some read_buffer_def waiting_ops_def split: if_splits prod.splits)
  with Some show ?thesis by (simp add: link_read_def)
qed (simp add: link_read_def no_channel_def fair_answer)

lemma fair_write: "fair {#op#} e (link_write op request channel sequence data e)"
  by (auto simp: link_write_def no_channel_def intro: fair_answer fair_send_answer split: option.splits)

lemma fair_resize: "fair {#op#} e (link_resize op request channel sequence cols rows e)"
  by (simp add: link_resize_def no_channel_def fair_answer fair_send_answer)

lemma fair_close_pty: "fair {#op#} e (link_close_pty op request channel e)"
proof (cases "map_of (le_ptys e) channel")
  case (Some b)
  obtain b' fx where p: "end_pty b = (b', fx)" by fastforce
  have a: "answered fx = waiting_ops b"
    using p flushPty_answers [of "b\<lparr>pb_eof := True\<rparr>" b' fx] by (simp add: end_pty_def waiting_ops_def)
  show ?thesis
    unfolding fair_def
  proof
    assume "well_kept e"
    with Some p a total_delete [of "le_ptys e" channel b waiting_ops]
    show "well_kept (fst (link_close_pty op request channel e))
        \<and> in_flight (fst (link_close_pty op request channel e)) + answered (snd (link_close_pty op request channel e))
          = in_flight e + {#op#}"
      by (auto simp: link_close_pty_def well_kept_def in_flight_def distinct_delete ac_simps)
  qed
qed (simp add: link_close_pty_def fair_answer)

lemma fair_cancel: "fair {#op#} e (cancel_entry op request e)"
  by (simp add: cancel_entry_def fair_answer fair_then_answer balance.loses)

lemma fair_flag: "fair {#} e (e\<lparr>le_closing := b\<rparr>, [])"
  by (simp add: fair_def well_kept_def in_flight_def)

lemma fair_schedule: "fair {#op#} e (schedule_entry op request delay e)" "fair {#op#} e (unschedule_entry op request e)"
  by (simp_all add: fair_def well_kept_def in_flight_def schedule_entry_def unschedule_entry_def)

subsection \<open>The capability\<close>

definition dial_ops :: "link_capability \<Rightarrow> nat multiset" where
  "dial_ops s = (case lk_dial s of None \<Rightarrow> {#} | Some a \<Rightarrow> {#da_op a#})"

definition calls_in_flight :: "link_capability \<Rightarrow> nat multiset" where
  "calls_in_flight s = sum_list (map in_flight (lk_entries s)) + dial_ops s"

definition calls_answered :: "link_capability \<Rightarrow> nat multiset" where
  "calls_answered s = answered (map snd (lk_log s))"

definition link_kept :: "link_capability \<Rightarrow> bool" where
  "link_kept s \<longleftrightarrow>
     (\<forall>e\<in>set (lk_entries s). well_kept e)
     \<and> (\<forall>i\<in>snd ` set (lk_ids s). i < length (lk_entries s))
     \<and> (\<forall>a. lk_dial s = Some a \<longrightarrow> da_entry a < length (lk_entries s))"

text \<open>A step that makes the calls \<open>n\<close> and answers the ones it takes out of flight.\<close>

definition accounts :: "nat multiset \<Rightarrow> link_capability \<Rightarrow> link_capability \<Rightarrow> bool" where
  "accounts n s t \<longleftrightarrow>
     (link_kept s \<longrightarrow>
       link_kept t \<and> lk_nextOp t = lk_nextOp s
       \<and> calls_in_flight t + calls_answered t = calls_in_flight s + calls_answered s + n)"

lemma accounts_trans: "accounts n s t \<Longrightarrow> accounts m t u \<Longrightarrow> accounts (n + m) s u"
  by (simp add: accounts_def ac_simps)

lemma accounts_refl: "accounts {#} s s"
  by (simp add: accounts_def)

lemma accounts_answer: "accounts {#op#} s (answer_call op a s)"
  by (simp add: accounts_def answer_call_def log_effects_def link_kept_def calls_in_flight_def dial_ops_def calls_answered_def)

lemma sum_list_set: "i < length xs \<Longrightarrow> sum_list (map f (xs[i := v])) + f (xs ! i) = sum_list (map f xs) + (f v :: 'b::comm_monoid_add)"
  by (induction xs arbitrary: i) (auto simp: ac_simps split: nat.splits)

lemma accounts_entry:
  assumes "i < length (lk_entries s) \<Longrightarrow> fair n (lk_entries s ! i) (f (lk_entries s ! i))"
    and "\<not> i < length (lk_entries s) \<Longrightarrow> n = {#}"
  shows "accounts n s (on_entry i f s)"
proof (cases "i < length (lk_entries s)")
  case True
  obtain e fx where f: "f (lk_entries s ! i) = (e, fx)" by fastforce
  show ?thesis
    unfolding accounts_def
  proof
    assume k: "link_kept s"
    then have "well_kept (lk_entries s ! i)" using True by (simp add: link_kept_def)
    with assms(1) [OF True] f have e: "well_kept e" "in_flight e + answered fx = in_flight (lk_entries s ! i) + n"
      by (simp_all add: fair_def)
    let ?s = "lk_entries s" and ?t = "(lk_entries s)[i := e]"
    have "sum_list (map in_flight ?t) + answered fx + in_flight (?s ! i)
        = (sum_list (map in_flight ?t) + in_flight (?s ! i)) + answered fx" by (simp only: ac_simps)
    also have "\<dots> = sum_list (map in_flight ?s) + (in_flight e + answered fx)"
      by (simp only: sum_list_set [OF True]) (simp only: ac_simps)
    also have "\<dots> = sum_list (map in_flight ?s) + n + in_flight (?s ! i)" by (simp only: e(2)) (simp only: ac_simps)
    finally have "sum_list (map in_flight ?t) + answered fx = sum_list (map in_flight ?s) + n" by simp
    then have "calls_in_flight (on_entry i f s) + calls_answered (on_entry i f s) = calls_in_flight s + calls_answered s + n"
      using True f
      by (simp add: on_entry_def log_effects_def calls_in_flight_def dial_ops_def calls_answered_def comp_def
          ac_simps)
    moreover have "link_kept (on_entry i f s)"
      using k True f e(1) by (auto simp: on_entry_def log_effects_def link_kept_def set_update_memI dest!: set_update_subset_insert [THEN subsetD])
    ultimately show "link_kept (on_entry i f s) \<and> lk_nextOp (on_entry i f s) = lk_nextOp s
        \<and> calls_in_flight (on_entry i f s) + calls_answered (on_entry i f s) = calls_in_flight s + calls_answered s + n"
      using f by (simp add: on_entry_def log_effects_def)
  qed
qed (use assms(2) in \<open>simp add: on_entry_def accounts_refl\<close>)

lemma accounts_log: "list_all silent fx \<Longrightarrow> accounts {#} s (log_effects i fx s)"
  by (simp add: accounts_def log_effects_def link_kept_def calls_in_flight_def dial_ops_def calls_answered_def
      comp_def answered_silent)

lemma accounts_ids: "link_kept s \<Longrightarrow> map_of (lk_ids s) k = Some i \<Longrightarrow> i < length (lk_entries s)"
  unfolding link_kept_def by (metis image_eqI map_of_SomeD snd_conv)

lemma accounts_dial_answer:
  assumes "lk_dial s = Some a" and "set m \<subseteq> set (lk_ids s)"
  shows "accounts {#} s (answer_call (da_op a) r (s\<lparr>lk_dial := None, lk_ids := m\<rparr>))"
  using assms
  by (auto simp: accounts_def answer_call_def log_effects_def link_kept_def calls_in_flight_def dial_ops_def
      calls_answered_def)

lemma accounts_fail_dial:
  assumes "lk_dial s = Some a"
  shows "accounts {#} s (fail_dial a err s)"
proof -
  let ?s1 = "case da_socket a of None \<Rightarrow> s | Some i \<Rightarrow> log_effects (Some i) [CloseSocket ''dial failed''] s"
  have 1: "accounts {#} s ?s1" by (simp add: accounts_refl accounts_log split: option.splits)
  have d: "lk_dial ?s1 = Some a" using assms by (simp add: log_effects_def split: option.splits)
  have 2: "accounts {#} ?s1 (answer_call (da_op a) (LinkFail err) (?s1\<lparr>lk_dial := None, lk_ids := AList.delete (da_id a) (lk_ids ?s1)\<rparr>))"
    using d by (rule accounts_dial_answer) (auto simp: AList.delete_eq)
  have 3: "accounts {#} t (on_entry i (\<lambda>e. (e\<lparr>le_state := StClosed\<rparr>, [])) t)" for t i
    by (rule accounts_entry) (simp_all add: fair_def well_kept_def in_flight_def)
  show ?thesis
    unfolding fail_dial_def Let_def using accounts_trans [OF accounts_trans [OF 1 2] 3] by simp
qed

lemma accounts_connect:
  "accounts {#op#} s (link_connect cfg op request gen expected s)"
proof -
  have "well_kept (new_entry r)" "in_flight (new_entry r) = {#}" for r
    by (simp_all add: new_entry_def well_kept_def in_flight_def)
  moreover have "snd ` set (AList.update k i m) \<subseteq> insert i (snd ` set m)" for k i and m :: "(string \<times> nat) list"
    by (induction m) auto
  ultimately have "lk_dial s = None \<Longrightarrow> accounts {#op#} s
      (log_effects (Some (length (lk_entries s))) [OpenSocket u]
        (s\<lparr>lk_entries := lk_entries s @ [new_entry r], lk_ids := AList.update k (length (lk_entries s)) (lk_ids s),
           lk_dial := Some \<lparr>da_op = op, da_request = request, da_entry = length (lk_entries s), da_id = k, da_socket = None\<rparr>\<rparr>))"
    for u r k
    by (fastforce simp: accounts_def log_effects_def link_kept_def calls_in_flight_def dial_ops_def calls_answered_def
        ac_simps)
  then show ?thesis by (auto simp: link_connect_def fail_call_def accounts_answer Let_def)
qed

lemma accounts_with_entry:
  "(\<And>i. i < length (lk_entries s) \<Longrightarrow> fair {#op#} (lk_entries s ! i) (f (lk_entries s ! i))) \<Longrightarrow>
   link_kept s \<Longrightarrow> accounts {#op#} s (with_entry connId op f s)"
  using accounts_ids
  by (auto simp: with_entry_def unknown_connection_def fail_call_def accounts_answer intro!: accounts_entry
      split: option.splits)

lemma in_flight_entry: "i < length (lk_entries s) \<Longrightarrow> set_mset (in_flight (lk_entries s ! i)) \<subseteq> set_mset (calls_in_flight s)"
proof -
  have "i < length xs \<Longrightarrow> set_mset (in_flight (xs ! i)) \<subseteq> set_mset (sum_list (map in_flight xs))" for xs
    by (induction xs arbitrary: i) (auto simp: nth_Cons' less_Suc_eq_0_disj)
  then show "i < length (lk_entries s) \<Longrightarrow> ?thesis" by (auto simp: calls_in_flight_def)
qed

lemma accounts_call:
  assumes kept: "link_kept s" and fresh: "op \<notin># calls_in_flight s"
  shows "accounts {#op#} s (do_call cfg op c s)"
proof (cases c)
  case (CallExec k request command t stdin)
  have "op \<notin># in_flight (lk_entries s ! i)" if "i < length (lk_entries s)" for i
    using fresh in_flight_entry [OF that] by auto
  then show ?thesis by (simp add: CallExec accounts_with_entry fair_exec kept)
next
  case (CallRead k ch request sq mx wt)
  have "fair {#op#} e (link_read \<lparr>w_op = op, w_request = request, w_channel = ch, w_sequence = sq\<rparr> mx wt e)" for e
    using fair_read [of "\<lparr>w_op = op, w_request = request, w_channel = ch, w_sequence = sq\<rparr>"] by simp
  then show ?thesis by (simp add: CallRead accounts_with_entry kept)
next
  case (CallCancelDial request target)
  then show ?thesis
    using accounts_trans [OF accounts_fail_dial accounts_answer, of s]
    by (auto simp: cancelDial_def accounts_answer split: option.splits)
next
  case (CallClose k request)
  then show ?thesis
    using accounts_ids [OF kept]
    by (auto simp: closeConnection_def accounts_answer fair_then_answer balance.closes intro!: accounts_entry split: option.splits)
next
  case (CallCancel request k)
  then show ?thesis
    using accounts_ids [OF kept]
    by (auto simp: cancelConnection_def accounts_answer fair_cancel intro!: accounts_entry split: option.splits)
qed (simp_all add: accounts_with_entry kept accounts_answer accounts_connect fail_call_def fair_open_pty fair_write
    fair_resize fair_close_pty fair_schedule)

lemma accounts_plain: "(\<And>e. fair {#} e (f e)) \<Longrightarrow> accounts {#} s (on_entry i f s)"
  by (rule accounts_entry) simp_all

lemma dialling_Some: "dialling i s = Some a \<Longrightarrow> lk_dial s = Some a"
  by (auto simp: dialling_def split: option.splits if_splits)

lemma accounts_dial_ready: "lk_dial s = Some a \<Longrightarrow> accounts {#} s (dial_ready a s)"
  using accounts_dial_answer [of s a "lk_ids s"] by (simp add: dial_ready_def)

lemma accounts_socket_text: "accounts {#} s (socket_text cfg i raw s)"
  by (auto simp: socket_text_def accounts_refl
      intro!: accounts_plain accounts_dial_ready accounts_fail_dial balance.loses balance.handles
      dest: dialling_Some split: option.splits prod.splits)

lemma accounts_scheduled: "accounts {#} s (scheduled_close i s)"
proof -
  let ?s = "on_entry i (\<lambda>e. (e\<lparr>le_closing := False\<rparr>, [])) s"
  have "accounts {#} s ?s" by (rule accounts_plain) (rule fair_flag)
  moreover have "accounts {#} ?s (on_entry j close_entry ?s)" for j
    by (rule accounts_plain) (rule balance.closes)
  ultimately show ?thesis
    using accounts_trans [of "{#}" s ?s "{#}"]
    by (auto simp: scheduled_close_def accounts_refl Let_def split: option.splits)
qed

definition link_inv :: "link_capability \<Rightarrow> bool" where
  "link_inv s \<longleftrightarrow> link_kept s \<and> calls_in_flight s + calls_answered s = mset [0..<lk_nextOp s]"

lemma link_inv_new: "link_inv new_link"
  by (simp add: link_inv_def link_kept_def calls_in_flight_def dial_ops_def calls_answered_def new_link_def)

lemma accounts_event:
  assumes "\<And>c. ev \<noteq> Calls c"
  shows "accounts {#} s (link_step cfg s ev)"
proof (cases ev)
  case (SocketClosed i code reason)
  show ?thesis
  proof (cases "dialling i s")
    case (Some a)
    then show ?thesis by (simp add: SocketClosed socket_closed_def accounts_fail_dial dialling_Some)
  qed (simp add: SocketClosed socket_closed_def accounts_plain balance.loses)
next
  case (SocketFailed i msg)
  then show ?thesis
    by (cases "dialling i s") (simp_all add: socket_failed_def accounts_refl accounts_fail_dial dialling_Some)
next
  case DialTimer
  then show ?thesis by (cases "lk_dial s") (simp_all add: accounts_refl accounts_fail_dial)
qed (simp_all add: assms accounts_plain accounts_socket_text accounts_scheduled balance.emits
    fair_data balance.exec_times_out balance.open_times_out balance.read_gives_up)

lemma link_step_inv:
  assumes "link_inv s"
  shows "link_inv (link_step cfg s ev)"
proof (cases "\<exists>c. ev = Calls c")
  case True
  then obtain c where ev: "ev = Calls c" by auto
  let ?s = "s\<lparr>lk_nextOp := Suc (lk_nextOp s)\<rparr>"
  have k: "link_kept ?s" using assms by (simp add: link_inv_def link_kept_def)
  have i: "calls_in_flight ?s = calls_in_flight s" "calls_answered ?s = calls_answered s"
    by (simp_all add: calls_in_flight_def dial_ops_def calls_answered_def)
  have "lk_nextOp s \<notin># calls_in_flight s + calls_answered s"
    using assms by (simp add: link_inv_def)
  then have "lk_nextOp s \<notin># calls_in_flight ?s" by (simp add: i)
  from accounts_call [OF k this] assms k show ?thesis
    by (simp add: ev accounts_def link_inv_def i)
next
  case False
  with accounts_event [of ev s cfg] assms show ?thesis by (auto simp: accounts_def link_inv_def)
qed

interpretation link_machine: machine "link_step cfg" link_inv for cfg
  by unfold_locales (rule link_step_inv)

text \<open>
  C11: every call is answered exactly once. Whatever the relay sends, in whatever order frames,
  timers, closes and calls come, after any number of events the calls made so far are the calls
  answered and the calls in flight, each once: no promise settles twice, and none is dropped
  without an answer.
\<close>

theorem link_calls_answered_once:
  "calls_in_flight (run_events (link_step cfg) new_link es) + calls_answered (run_events (link_step cfg) new_link es)
   = mset [0..<lk_nextOp (run_events (link_step cfg) new_link es)]"
  using link_machine.run_inv [OF link_inv_new] by (simp add: link_inv_def)

end
