(* ===== verification/Link_Quiet.thy ===== *)
theory Link_Quiet
  imports Link_Answers
begin

text \<open>
  A lost or closed connection leaves nothing waiting: every exec, channel open and reader on it has
  been answered. The hypothesis is the convention of the daemon for the channels it opens itself
  (\<open>ERR_CHANNEL_BASE\<close>): the err channel of an exec is a number of its own range that is not in use.
\<close>

definition ERR_CHANNEL_BASE :: int where "ERR_CHANNEL_BASE = 0x40000000"

subsection \<open>Nothing in flight\<close>

definition calm_pty :: "pty_buffer \<Rightarrow> bool" where
  "calm_pty b \<longleftrightarrow> pb_eof b \<and> pb_waiters b = []"

definition calm :: "link_entry \<Rightarrow> bool" where
  "calm e \<longleftrightarrow> le_running e = [] \<and> le_opens e = [] \<and> list_all (\<lambda>p. calm_pty (snd p)) (le_ptys e)"

text \<open>Every running exec is registered under its channels, and under no other exec's.\<close>

definition registered :: "link_entry \<Rightarrow> bool" where
  "registered e \<longleftrightarrow>
     (\<forall>op x. map_of (le_running e) op = Some x \<longrightarrow>
        map_of (le_execs e) (xr_main x) = Some op \<and> (\<forall>c. xr_err x = Some c \<longrightarrow> map_of (le_execs e) c = Some op))
     \<and> (\<forall>c\<in>keys (le_execs e). c < le_next e \<or> ERR_CHANNEL_BASE \<le> c)"

lemma calm_in_flight: "calm e \<Longrightarrow> in_flight e = {#}"
proof -
  have "list_all (\<lambda>p. calm_pty (snd p)) m \<Longrightarrow> total waiting_ops m = {#}" for m :: "(int \<times> pty_buffer) list"
    by (induction m) (auto simp: calm_pty_def waiting_ops_def)
  then show "calm e \<Longrightarrow> ?thesis" by (simp add: calm_def in_flight_def)
qed

lemma end_pty_calm: "end_pty b = (b', fx) \<Longrightarrow> calm_pty b'"
  by (auto simp: end_pty_def flushPty_def calm_pty_def split: prod.splits)

lemma end_ptys_calm: "list_all (\<lambda>p. calm_pty (snd p)) (fst (end_ptys ps))"
proof (induction ps rule: end_ptys.induct)
  case (2 ch b ps)
  then show ?case using end_pty_calm [of b] by (cases "end_pty b"; cases "end_ptys ps") auto
qed simp

lemma list_all_map_of: "list_all (\<lambda>p. P (snd p)) m \<Longrightarrow> map_of m k = Some v \<Longrightarrow> P v"
  by (induction m) (auto split: if_splits)

lemma calm_on_pty:
  assumes "calm e" and "\<And>b b' fx. calm_pty b \<Longrightarrow> f b = (b', fx) \<Longrightarrow> calm_pty b'"
  shows "calm (fst (on_pty ch f e))"
proof (cases "map_of (le_ptys e) ch")
  case (Some b)
  obtain b' fx where f: "f b = (b', fx)" by fastforce
  have "calm_pty b'" using assms Some f list_all_map_of [of calm_pty "le_ptys e" ch b] by (auto simp: calm_def)
  with assms(1) Some f show ?thesis by (simp add: calm_def on_pty_def list_all_update)
qed (simp add: on_pty_def assms(1))

lemma calm_end_all: "calm e \<Longrightarrow> calm (fst (end_all_ptys e))"
  using end_ptys_calm [of "le_ptys e"] by (cases "end_ptys (le_ptys e)") (simp add: calm_def end_all_ptys_def)

lemma calm_register: "calm e \<Longrightarrow> calm (register_err ch c e)"
  by (auto simp: calm_def register_err_def split: option.splits)

interpretation calm: entry_law "\<lambda>e r. calm e \<longrightarrow> calm (fst r)"
proof unfold_locales
  fix e :: link_entry and ch
  show "calm e \<longrightarrow> calm (fst (on_pty ch end_pty e))" by (blast intro: calm_on_pty end_pty_calm)
next
  fix e :: link_entry and ch op
  have "calm_pty b'" if "calm_pty b" "read_timeout op b = (b', fx)" for b b' fx
    using that by (simp add: read_timeout_def calm_pty_def)
  then show "calm e \<longrightarrow> calm (fst (on_pty ch (read_timeout op) e))" by (blast intro: calm_on_pty)
next
  fix e :: link_entry and err
  show "calm e \<longrightarrow>
      calm (fst (and_next (reject_opens err (map snd (le_opens e)) e) (\<lambda>e'. (e'\<lparr>le_opens := []\<rparr>, []))))"
    by (simp add: calm_def)
qed (simp_all add: calm_end_all calm_register, auto simp: calm_def)

subsection \<open>State and identity of a connection\<close>

lemma on_pty_keeps [simp]:
  "le_state (fst (on_pty ch f e)) = le_state e" "le_ref (fst (on_pty ch f e)) = le_ref e"
  "le_running (fst (on_pty ch f e)) = le_running e" "le_execs (fst (on_pty ch f e)) = le_execs e"
  "le_next (fst (on_pty ch f e)) = le_next e"
  by (auto simp: on_pty_def split: option.splits prod.splits)

lemma end_all_keeps [simp]:
  "le_state (fst (end_all_ptys e)) = le_state e" "le_ref (fst (end_all_ptys e)) = le_ref e"
  "le_running (fst (end_all_ptys e)) = le_running e" "le_execs (fst (end_all_ptys e)) = le_execs e"
  "le_next (fst (end_all_ptys e)) = le_next e" "le_opens (fst (end_all_ptys e)) = le_opens e"
  by (auto simp: end_all_ptys_def split: prod.splits)

lemma settle_keeps [simp]:
  "le_state (settleExec op x e) = le_state e" "le_ref (settleExec op x e) = le_ref e"
  "le_next (settleExec op x e) = le_next e" "le_opens (settleExec op x e) = le_opens e"
  "le_running (settleExec op x e) = AList.delete op (le_running e)"
  by (auto simp: settleExec_def Let_def split: option.splits)

lemma reject_keeps [simp]:
  "le_state (fst (rejectExec err op e)) = le_state e" "le_ref (fst (rejectExec err op e)) = le_ref e"
  "le_next (fst (rejectExec err op e)) = le_next e" "le_opens (fst (rejectExec err op e)) = le_opens e"
  by (auto simp: rejectExec_def split: option.splits)

lemma open_rejected_keeps [simp]:
  "le_state (fst (open_rejected err p e)) = le_state e" "le_ref (fst (open_rejected err p e)) = le_ref e"
  "le_next (fst (open_rejected err p e)) = le_next e" "le_opens (fst (open_rejected err p e)) = le_opens e"
  by (cases p; simp)+

lemma reject_opens_keeps [simp]:
  "le_state (fst (reject_opens err ps e)) = le_state e" "le_ref (fst (reject_opens err ps e)) = le_ref e"
  "le_next (fst (reject_opens err ps e)) = le_next e" "le_opens (fst (reject_opens err ps e)) = le_opens e"
  by (induction ps arbitrary: e) simp_all

lemma open_resolved_keeps [simp]:
  "le_state (fst (open_resolved ch p e)) = le_state e" "le_ref (fst (open_resolved ch p e)) = le_ref e"
  "le_next (fst (open_resolved ch p e)) = le_next e"
  "le_running (fst (open_resolved ch p e)) = le_running e" "le_execs (fst (open_resolved ch p e)) = le_execs e"
  by (cases p; simp)+

interpretation same_ref: entry_law "\<lambda>e r. le_ref (fst r) = le_ref e"
  by unfold_locales (simp_all add: register_err_def split: option.splits)

interpretation same_state: channel_law "\<lambda>e r. le_state (fst r) = le_state e"
  by unfold_locales (simp_all add: register_err_def split: option.splits)

subsection \<open>Registration\<close>

lemma registered_settle:
  assumes "registered e" and "map_of (le_running e) op = Some x"
  shows "registered (settleExec op x e)"
proof -
  let ?e = "settleExec op x e"
  have keep: "map_of (le_execs ?e) c = map_of (le_execs e) c" if "c \<noteq> xr_main x" "xr_err x \<noteq> Some c" for c
    using that by (auto simp: settleExec_def Let_def AList.delete_conv' split: option.splits)
  have sub: "keys (le_execs ?e) \<subseteq> keys (le_execs e)"
    by (auto simp: settleExec_def Let_def split: option.splits)
  have "map_of (le_execs ?e) (xr_main y) = Some k \<and> (\<forall>c. xr_err y = Some c \<longrightarrow> map_of (le_execs ?e) c = Some k)"
    if y: "map_of (le_running ?e) k = Some y" for k y
  proof -
    from y have k: "k \<noteq> op" "map_of (le_running e) k = Some y"
      by (auto simp: AList.delete_conv' split: if_splits)
    with assms have "map_of (le_execs e) (xr_main y) = Some k" "\<forall>c. xr_err y = Some c \<longrightarrow> map_of (le_execs e) c = Some k"
      "map_of (le_execs e) (xr_main x) = Some op" "\<forall>c. xr_err x = Some c \<longrightarrow> map_of (le_execs e) c = Some op"
      by (auto simp: registered_def)
    with k(1) keep show ?thesis by (metis option.inject)
  qed
  with assms(1) sub show ?thesis by (auto simp: registered_def)
qed

lemma registered_reject: "registered e \<Longrightarrow> registered (fst (rejectExec err op e))"
  by (auto simp: rejectExec_def registered_settle split: option.splits)

lemma registered_open_rejected: "registered e \<Longrightarrow> registered (fst (open_rejected err p e))"
  by (cases p) (simp_all add: registered_reject)

lemma registered_cong:
  "le_running e' = le_running e \<Longrightarrow> le_execs e' = le_execs e \<Longrightarrow> le_next e \<le> le_next e' \<Longrightarrow> registered e \<Longrightarrow> registered e'"
  by (fastforce simp: registered_def)

lemma registered_reject_opens: "registered e \<Longrightarrow> registered (fst (reject_opens err ps e))"
  by (induction ps arbitrary: e) (simp_all add: registered_open_rejected)

lemma exec_output_channels [simp]:
  "xr_main (exec_output ch bs x) = xr_main x" "xr_err (exec_output ch bs x) = xr_err x"
  by (simp_all add: exec_output_def)

lemma registered_output:
  assumes "registered e" and "map_of (le_running e) op = Some x"
  shows "registered (e\<lparr>le_running := AList.update op (exec_output ch bs x) (le_running e)\<rparr>)"
  using assms by (auto simp: registered_def update_conv' split: if_splits)

lemma registered_register:
  assumes "registered e" and "\<And>d. c = Some d \<Longrightarrow> ERR_CHANNEL_BASE \<le> d \<and> map_of (le_execs e) d = None"
  shows "registered (register_err ch c e)"
  using assms by (auto simp: registered_def register_err_def update_conv' split: option.splits if_splits)

subsection \<open>Draining\<close>

lemma reject_execs_keeps [simp]:
  "le_state (fst (reject_execs err ops e)) = le_state e" "le_ref (fst (reject_execs err ops e)) = le_ref e"
  "le_next (fst (reject_execs err ops e)) = le_next e" "le_opens (fst (reject_execs err ops e)) = le_opens e"
  by (induction ops arbitrary: e) simp_all

lemma reject_execs_running:
  "keys (le_running (fst (reject_execs err ops e))) \<subseteq> keys (le_running e) - set ops"
proof (induction ops arbitrary: e)
  case (Cons op ops)
  have "keys (le_running (fst (rejectExec err op e))) \<subseteq> keys (le_running e) - {op}"
    using keys_None [of "le_running e" op] by (auto simp: rejectExec_def split: option.splits)
  with Cons [of "fst (rejectExec err op e)"] show ?case by auto
qed simp

lemma reject_opens_running:
  "keys (le_running (fst (reject_opens err ps e))) \<subseteq> keys (le_running e)"
proof (induction ps arbitrary: e)
  case (Cons p ps)
  have "keys (le_running (fst (open_rejected err p e))) \<subseteq> keys (le_running e)"
    by (cases p) (auto simp: rejectExec_def split: option.splits)
  with Cons [of "fst (open_rejected err p e)"] show ?case by auto
qed simp

lemma keys_empty: "keys m = {} \<longleftrightarrow> m = []"
  by (auto simp: keys_def)

lemma drain_calms:
  assumes "registered e"
  shows "calm (fst (drain err e))"
proof -
  let ?e1 = "fst (reject_execs err (map snd (le_execs e)) e)"
  let ?e2 = "fst (reject_opens err (map snd (le_opens ?e1)) ?e1)"
  have "keys (le_running e) \<subseteq> set (map snd (le_execs e))"
  proof
    fix op assume "op \<in> keys (le_running e)"
    then obtain x where "map_of (le_running e) op = Some x"
      using keys_None [of "le_running e" op] by auto
    with assms have "map_of (le_execs e) (xr_main x) = Some op" by (simp add: registered_def)
    from map_of_SomeD [OF this] show "op \<in> set (map snd (le_execs e))" by force
  qed
  then have "keys (le_running ?e2) = {}"
    using reject_execs_running [of err "map snd (le_execs e)" e] reject_opens_running [of err _ ?e1] by blast
  then have "le_running ?e2 = []" by (simp only: keys_empty)
  then show ?thesis
    using end_ptys_calm by (auto simp: drain_def calm_def end_all_ptys_def split: prod.splits) (metis fst_conv)
qed

lemma calm_mono: "calm e \<Longrightarrow> calm (e\<lparr>le_state := st\<rparr>)"
  by (simp add: calm_def)

subsection \<open>Connections\<close>

text \<open>What every connection the capability knows keeps: once it is not connected, it is calm.\<close>

definition quiet :: "link_entry \<Rightarrow> bool" where
  "quiet e \<longleftrightarrow> (le_state e \<noteq> StConnected \<longrightarrow> calm e)"

lemma registered_off: "registered e \<Longrightarrow> registered (e\<lparr>le_state := st, le_closing := b\<rparr>)"
  by (rule registered_cong [of _ e]) simp_all

lemma quiet_lose: "registered e \<Longrightarrow> quiet e \<Longrightarrow> quiet (fst (loseConnection reason e))"
  using drain_calms [OF registered_off] by (simp add: loseConnection_def quiet_def)

lemma quiet_close: "registered e \<Longrightarrow> quiet (fst (close_entry e))"
  using drain_calms [OF registered_off] by (simp add: close_entry_def quiet_def)

lemma quiet_frame:
  "calm e \<longrightarrow> calm (fst r) \<Longrightarrow> le_state (fst r) = le_state e \<Longrightarrow> quiet e \<Longrightarrow> quiet (fst r)"
  by (auto simp: quiet_def)

text \<open>The law of every operation: the execs stay registered, the connection stays quiet.\<close>

definition tidy :: "link_entry \<Rightarrow> link_entry reaction_of \<Rightarrow> bool" where
  "tidy e r \<longleftrightarrow>
     (registered e \<longrightarrow> registered (fst r) \<and> (quiet e \<longrightarrow> quiet (fst r))) \<and> le_ref (fst r) = le_ref e"

lemma tidyI:
  "(registered e \<Longrightarrow> registered (fst r)) \<Longrightarrow> (calm e \<longrightarrow> calm (fst r)) \<Longrightarrow>
   le_state (fst r) = le_state e \<Longrightarrow> le_ref (fst r) = le_ref e \<Longrightarrow> tidy e r"
  by (auto simp: tidy_def quiet_def)

lemma tidy_on_pty: "(\<And>b b' fx. calm_pty b \<Longrightarrow> f b = (b', fx) \<Longrightarrow> calm_pty b') \<Longrightarrow> tidy e (on_pty ch f e)"
  by (rule tidyI) (auto intro: calm_on_pty registered_cong [of _ e])

lemma read_timeout_calm: "calm_pty b \<Longrightarrow> read_timeout op b = (b', fx) \<Longrightarrow> calm_pty b'"
  by (simp add: read_timeout_def calm_pty_def)

lemma registered_opens: "registered e \<Longrightarrow> registered (e\<lparr>le_opens := m\<rparr>)"
  by (rule registered_cong [of _ e]) simp_all

lemma registered_resolved: "registered e \<Longrightarrow> registered (fst (open_resolved ch p e))"
  by (rule registered_cong [of _ e]) simp_all

interpretation tidy: frame_law tidy
proof unfold_locales
  fix e :: link_entry and op x and a :: link_answer
  assume "map_of (le_running e) op = Some x" "\<And>w bs eof. a \<noteq> LinkRead w bs eof"
  then show "tidy e (settleExec op x e, [Answer op a])"
    using calm.settle [of e op x a] by (intro tidyI) (simp_all add: registered_settle)
next
  fix e :: link_entry and ch p err
  assume "map_of (le_opens e) ch = Some p"
  then show "tidy e (open_rejected err p (e\<lparr>le_opens := AList.delete ch (le_opens e)\<rparr>))"
    using calm.open_fails [of e ch p err]
    by (intro tidyI) (simp_all add: registered_open_rejected registered_opens)
next
  fix e :: link_entry and ch p
  assume "map_of (le_opens e) ch = Some p"
  then show "tidy e (open_resolved ch p (e\<lparr>le_opens := AList.delete ch (le_opens e)\<rparr>))"
    using calm.open_done [of e ch p]
    by (intro tidyI) (simp_all add: registered_resolved registered_opens)
next
  fix e :: link_entry and err
  show "tidy e (and_next (reject_opens err (map snd (le_opens e)) e) (\<lambda>e'. (e'\<lparr>le_opens := []\<rparr>, [])))"
    using calm.opens_fail [of e err]
    by (intro tidyI) (simp_all add: registered_reject_opens registered_opens)
next
  fix e :: link_entry
  show "tidy e (end_all_ptys e)"
    by (rule tidyI) (auto intro: calm_end_all registered_cong [of _ e])
next
  fix e :: link_entry and ch
  show "tidy e (on_pty ch end_pty e)" by (rule tidy_on_pty) (rule end_pty_calm)
next
  fix e :: link_entry and ch op
  show "tidy e (on_pty ch (read_timeout op) e)" by (rule tidy_on_pty) (rule read_timeout_calm)
qed (auto simp: tidy_def)

lemma tidy_lose: "tidy e (loseConnection reason e)"
proof -
  have "registered e \<Longrightarrow> registered (fst (loseConnection reason e))"
    using tidy.drains registered_off by (simp add: tidy_def loseConnection_def)
  then show ?thesis by (simp add: tidy_def quiet_lose same_ref.loses)
qed

lemma tidy_close: "tidy e (close_entry e)"
proof -
  have "registered e \<Longrightarrow> registered (fst (close_entry e))"
    using tidy.drains registered_off by (simp add: tidy_def close_entry_def)
  then show ?thesis by (simp add: tidy_def quiet_close same_ref.closes)
qed

lemma tidy_register:
  assumes "\<And>d. c = Some d \<Longrightarrow> ERR_CHANNEL_BASE \<le> d \<and> map_of (le_execs e) d = None"
  shows "tidy e (register_err ch c e, [])"
  using registered_register [OF _ assms] calm.registers same_ref.registers same_state.registers
  by (intro tidyI) simp_all

lemma calm_receive: "calm_pty b \<Longrightarrow> receive payload b = (b', fx) \<Longrightarrow> calm_pty b'"
  by (simp add: receive_def calm_pty_def)

lemma tidy_data: "tidy e (handleData raw e)"
proof -
  have "tidy e (e\<lparr>le_running := AList.update op (exec_output ch bs x) (le_running e)\<rparr>, [])"
    if "map_of (le_running e) op = Some x" for op x ch bs
    using that by (intro tidyI) (auto simp: registered_output calm_def)
  moreover have "tidy e (on_pty ch (receive bs) e)" for ch bs
    by (rule tidy_on_pty) (rule calm_receive)
  ultimately show ?thesis
    by (auto simp: handleData_def intro: tidy.skip split: option.splits prod.splits)
qed

lemma tidy_answer: "tidy e (e, fx)"
  by (simp add: tidy_def)

lemma tidy_then_answer: "tidy e (f e) \<Longrightarrow> tidy e (then_answer op a f e)"
  by (simp add: then_answer_def tidy_def)

lemma tidy_exec:
  assumes "le_next e < ERR_CHANNEL_BASE"
  shows "tidy e (link_exec op request command timeoutMs stdin e)"
proof (cases "le_state e = StConnected")
  case True
  have "registered e \<Longrightarrow> map_of (le_execs e) (le_next e) = None"
    using assms by (force simp: registered_def keys_None)
  then have "registered e \<Longrightarrow> registered (fst (link_exec op request command timeoutMs stdin e))"
    using True by (fastforce simp: link_exec_def openChannel_def Let_def registered_def update_conv' split: if_splits)
  with True show ?thesis by (simp add: tidy_def link_exec_def openChannel_def Let_def quiet_def)
qed (simp add: link_exec_def lost_answer_def tidy_answer)

lemma tidy_open_pty: "tidy e (link_open_pty op request command cols rows tm e)"
proof (cases "le_state e = StConnected")
  case True
  have "registered e \<Longrightarrow> registered (fst (link_open_pty op request command cols rows tm e))"
    using True by (elim registered_cong [rotated 3]) (simp_all add: link_open_pty_def openChannel_def Let_def)
  with True show ?thesis by (simp add: tidy_def link_open_pty_def openChannel_def Let_def quiet_def)
qed (simp add: link_open_pty_def lost_answer_def tidy_answer)

lemma tidy_read: "tidy e (link_read w maxBytes waitMs e)"
proof -
  have "calm_pty b \<Longrightarrow> read_buffer w maxBytes waitMs b = (b', fx) \<Longrightarrow> calm_pty b'" for b b' fx
    by (auto simp: read_buffer_def calm_pty_def split: if_splits prod.splits)
  then show ?thesis by (simp add: link_read_def no_channel_def tidy_answer tidy_on_pty)
qed

lemma tidy_write: "tidy e (link_write op request channel sequence data e)"
  by (auto simp: link_write_def no_channel_def tidy_answer split: option.splits)

lemma tidy_resize: "tidy e (link_resize op request channel sequence cols rows e)"
  by (simp add: link_resize_def no_channel_def tidy_answer)

lemma tidy_close_pty: "tidy e (link_close_pty op request channel e)"
proof (cases "map_of (le_ptys e) channel")
  case (Some b)
  have "registered e \<Longrightarrow> registered (e\<lparr>le_ptys := m\<rparr>)" for m by (rule registered_cong [of _ e]) simp_all
  with Some show ?thesis
    by (intro tidyI) (auto simp: link_close_pty_def calm_def list_all_delete split: prod.splits)
qed (simp add: link_close_pty_def tidy_answer)

lemma tidy_flag: "tidy e (e\<lparr>le_closing := b\<rparr>, fx)"
proof -
  have "registered e \<Longrightarrow> registered (e\<lparr>le_closing := b\<rparr>)" by (rule registered_cong [of _ e]) simp_all
  then show ?thesis by (intro tidyI) (simp_all add: calm_def)
qed

lemma tidy_cancel: "tidy e (cancel_entry op request e)"
  by (simp add: cancel_entry_def tidy_answer tidy_then_answer tidy_lose)

subsection \<open>Runs\<close>

definition known :: "link_capability \<Rightarrow> bool" where
  "known s \<longleftrightarrow>
     distinct (map fst (lk_ids s))
     \<and> (\<forall>(k, i)\<in>set (lk_ids s). i < length (lk_entries s)
          \<and> connectionId (le_ref (lk_entries s ! i)) = k \<and> quiet (lk_entries s ! i))
     \<and> (\<forall>a. lk_dial s = Some a \<longrightarrow> da_entry a < length (lk_entries s)
          \<and> connectionId (le_ref (lk_entries s ! da_entry a)) = da_id a)
     \<and> (\<forall>e\<in>set (lk_entries s). registered e)"

text \<open>
  The daemon's convention: the err channel it opens for an exec is in its own range and not in use.
\<close>

fun polite :: "link_config \<Rightarrow> link_capability \<Rightarrow> link_event \<Rightarrow> bool" where
  "polite cfg s (SocketText i raw) =
     (case parseControl (lc_json cfg) raw of
        None \<Rightarrow> True
      | Some (type, frame) \<Rightarrow>
          (case chan (get_prop frame ''err_ch'') of
             None \<Rightarrow> True
           | Some c \<Rightarrow> ERR_CHANNEL_BASE \<le> c
               \<and> (if i < length (lk_entries s) then map_of (le_execs (lk_entries s ! i)) c = None else True)))"
| "polite cfg s _ = True"

definition own_channels :: "link_capability \<Rightarrow> bool" where
  "own_channels s \<longleftrightarrow> list_all (\<lambda>e. le_next e < ERR_CHANNEL_BASE) (lk_entries s)"

fun polite_run :: "link_config \<Rightarrow> link_capability \<Rightarrow> link_event list \<Rightarrow> bool" where
  "polite_run cfg s [] = True"
| "polite_run cfg s (ev # es) = (own_channels s \<and> polite cfg s ev \<and> polite_run cfg (link_step cfg s ev) es)"

lemma known_log [simp]:
  "known (log_effects i fx s) = known s" "known (answer_call op a s) = known s" "known (fail_call op m c s) = known s"
  "known (s\<lparr>lk_nextOp := n\<rparr>) = known s"
  by (simp_all add: known_def log_effects_def answer_call_def fail_call_def)

lemma known_entry:
  assumes "known s" and "i < length (lk_entries s) \<Longrightarrow> tidy (lk_entries s ! i) (f (lk_entries s ! i))"
  shows "known (on_entry i f s)"
proof (cases "i < length (lk_entries s)")
  case True
  obtain e fx where f: "f (lk_entries s ! i) = (e, fx)" by fastforce
  have r: "registered (lk_entries s ! i)" using assms(1) True by (simp add: known_def)
  with assms(2) [OF True] f
  have e: "registered e" "quiet (lk_entries s ! i) \<Longrightarrow> quiet e" "le_ref e = le_ref (lk_entries s ! i)"
    by (simp_all add: tidy_def)
  have "known (s\<lparr>lk_entries := (lk_entries s)[i := e]\<rparr>)"
    using assms(1) e True set_update_subset_insert [of "lk_entries s" i e]
    by (auto simp: known_def nth_list_update split: prod.splits)
  with True f show ?thesis by (simp add: on_entry_def)
qed (simp add: on_entry_def assms(1))

lemma known_off:
  assumes "known t" and "\<And>k i. (k, i) \<in> set (lk_ids t) \<Longrightarrow> i \<noteq> j"
  shows "known (on_entry j (\<lambda>e. (e\<lparr>le_state := st\<rparr>, [])) t)"
proof (cases "j < length (lk_entries t)")
  case True
  let ?e = "lk_entries t ! j" and ?es = "(lk_entries t)[j := (lk_entries t ! j)\<lparr>le_state := st\<rparr>]"
  have "registered ?e" using assms(1) True by (simp add: known_def)
  then have "registered (?e\<lparr>le_state := st\<rparr>)" by (elim registered_cong [rotated 3]) simp_all
  then have "\<forall>e\<in>set ?es. registered e"
    using assms(1) set_update_subset_insert [of "lk_entries t" j] by (fastforce simp: known_def)
  moreover have "\<forall>(k, i)\<in>set (lk_ids t). i < length ?es \<and> connectionId (le_ref (?es ! i)) = k \<and> quiet (?es ! i)"
    using assms by (fastforce simp: known_def)
  moreover have "le_ref (?es ! i) = le_ref (lk_entries t ! i)" for i
    using True by (simp add: nth_list_update)
  ultimately have "known (t\<lparr>lk_entries := ?es\<rparr>)" using assms(1) by (simp add: known_def)
  with True show ?thesis by (simp add: on_entry_def)
qed (simp add: on_entry_def assms(1))

lemma known_forget:
  assumes "known t" and "lk_dial t = Some a"
  shows "known (t\<lparr>lk_dial := None, lk_ids := AList.delete (da_id a) (lk_ids t)\<rparr>)"
proof -
  have "set (AList.delete (da_id a) (lk_ids t)) \<subseteq> set (lk_ids t)" by (auto simp: AList.delete_eq)
  with assms show ?thesis by (auto simp: known_def distinct_delete)
qed

lemma known_fail_dial:
  assumes "known s" and "lk_dial s = Some a"
  shows "known (fail_dial a err s)"
proof -
  define t where
    "t = (case da_socket a of None \<Rightarrow> s | Some i \<Rightarrow> log_effects (Some i) [CloseSocket ''dial failed''] s)"
  have t: "known t" "lk_dial t = Some a"
    using assms by (auto simp: t_def split: option.splits) (simp add: log_effects_def)
  let ?u = "answer_call (da_op a) (LinkFail err) (t\<lparr>lk_dial := None, lk_ids := AList.delete (da_id a) (lk_ids t)\<rparr>)"
  have "(k, i) \<in> set (lk_ids ?u) \<Longrightarrow> i \<noteq> da_entry a" for k i
    using t by (auto simp: known_def AList.delete_eq answer_call_def log_effects_def)
  then have "known (on_entry (da_entry a) (\<lambda>e. (e\<lparr>le_state := StClosed\<rparr>, [])) ?u)"
    using known_forget [OF t] by (intro known_off) simp_all
  then show ?thesis by (simp add: fail_dial_def t_def [symmetric])
qed

lemma known_connect: "known s \<Longrightarrow> known (link_connect cfg op request gen expected s)"
proof -
  assume k: "known s"
  have "set (AList.update k i m) \<subseteq> insert (k, i) (set m)" for k i and m :: "(string \<times> nat) list"
    by (induction m) auto
  moreover have "registered (new_entry r)" "quiet (new_entry r)" for r
    by (simp_all add: registered_def quiet_def new_entry_def)
  ultimately have "lk_dial s = None \<Longrightarrow> known
      (s\<lparr>lk_entries := lk_entries s @ [new_entry \<lparr>connectionId = c, generationId = gen\<rparr>],
         lk_ids := AList.update c (length (lk_entries s)) (lk_ids s),
         lk_dial := Some \<lparr>da_op = op, da_request = request, da_entry = length (lk_entries s), da_id = c, da_socket = None\<rparr>\<rparr>)"
    for c
    using k by (fastforce simp: known_def nth_append distinct_update new_entry_def)
  then show ?thesis by (auto simp: link_connect_def Let_def k)
qed

lemma known_with_entry:
  "known s \<Longrightarrow> (\<And>i. i < length (lk_entries s) \<Longrightarrow> tidy (lk_entries s ! i) (f (lk_entries s ! i))) \<Longrightarrow>
   known (with_entry k op f s)"
  by (auto simp: with_entry_def unknown_connection_def known_entry split: option.splits)

lemma known_call:
  assumes "known s" and own: "own_channels s"
  shows "known (do_call cfg op c s)"
proof (cases c)
  case (CallExec k request command t stdin)
  with own show ?thesis
    by (simp add: known_with_entry assms tidy_exec own_channels_def list_all_length)
next
  case (CallCancelDial request target)
  then show ?thesis by (auto simp: cancelDial_def known_fail_dial assms split: option.splits)
next
  case (CallClose k request)
  then show ?thesis by (auto simp: closeConnection_def known_entry assms tidy_then_answer tidy_close split: option.splits)
next
  case (CallCancel request k)
  then show ?thesis by (auto simp: cancelConnection_def known_entry assms tidy_cancel split: option.splits)
qed (simp_all add: known_with_entry assms known_connect tidy_open_pty tidy_read tidy_write tidy_resize tidy_close_pty
    schedule_entry_def unschedule_entry_def tidy_flag)

lemma known_ready: "known s \<Longrightarrow> known (dial_ready a s)"
  by (simp add: dial_ready_def) (simp add: known_def)

lemma known_text:
  assumes "known s" and "polite cfg s (SocketText i raw)"
  shows "known (socket_text cfg i raw s)"
proof (cases "parseControl (lc_json cfg) raw")
  case (Some p)
  obtain ty frame where p: "p = (ty, frame)" by (cases p)
  have "tidy (lk_entries s ! i) (handleControl ty frame (lk_entries s ! i))" if "i < length (lk_entries s)"
    using assms(2) that by (intro tidy.handles_if tidy_register) (auto simp: Some p split: option.splits)
  then show ?thesis
    using assms(1)
    by (auto simp: socket_text_def Some p known_entry known_ready known_fail_dial dialling_Some tidy_lose
        split: option.splits)
qed (simp add: socket_text_def assms(1))

lemma known_step:
  assumes k: "known s" and "own_channels s" and "polite cfg s ev"
  shows "known (link_step cfg s ev)"
proof (cases ev)
  case (Calls c)
  with k assms(2) show ?thesis by (simp add: known_call own_channels_def)
next
  case (SocketClosed i code reason)
  with k show ?thesis
    by (cases "dialling i s") (simp_all add: socket_closed_def known_fail_dial dialling_Some known_entry tidy_lose)
next
  case (SocketFailed i msg)
  with k show ?thesis by (cases "dialling i s") (simp_all add: socket_failed_def known_fail_dial dialling_Some)
next
  case DialTimer
  with k show ?thesis by (cases "lk_dial s") (simp_all add: known_fail_dial)
next
  case (CloseTimer i)
  with k show ?thesis
    by (auto simp: scheduled_close_def Let_def known_entry tidy_flag tidy_close split: option.splits)
next
  case (SocketText i raw)
  with assms show ?thesis using known_text [OF k, of cfg i raw] by simp
qed (simp_all add: known_entry k tidy_answer tidy_data tidy.exec_times_out tidy.open_times_out tidy.read_gives_up)

lemma known_run: "known s \<Longrightarrow> polite_run cfg s es \<Longrightarrow> known (run_events (link_step cfg) s es)"
  by (induction es arbitrary: s) (simp_all add: known_step)

lemma known_new: "known new_link"
  by (simp add: known_def new_link_def)

text \<open>
  C12: nothing is left waiting on a lost or closed connection, given a daemon that keeps the
  convention of \<open>ERR_CHANNEL_BASE\<close>, which the client does not check: every err channel it names in a
  frame is at least 0x40000000 and not in use by an exec of that connection, and no connection of the
  client has come to 2^30 channels of its own. Then every exec, channel open and read on a connection
  that is no longer connected has been answered, and every PTY on it is at its end, so no later read
  can wait either. Without the convention it is false: \<open>colliding_err_channel_strands_an_exec\<close> below.
\<close>

theorem lost_link_leaves_nothing_waiting:
  assumes "polite_run cfg new_link es"
    and "map_of (lk_ids (run_events (link_step cfg) new_link es)) connId = Some i"
    and "le_state (lk_entries (run_events (link_step cfg) new_link es) ! i) \<noteq> StConnected"
  shows "in_flight (lk_entries (run_events (link_step cfg) new_link es) ! i) = {#}
    \<and> list_all (\<lambda>p. calm_pty (snd p)) (le_ptys (lk_entries (run_events (link_step cfg) new_link es) ! i))"
proof -
  have "known (run_events (link_step cfg) new_link es)" by (rule known_run [OF known_new assms(1)])
  with assms(2,3) have "calm (lk_entries (run_events (link_step cfg) new_link es) ! i)"
    by (fastforce simp: known_def quiet_def dest: map_of_SomeD)
  then show ?thesis by (simp add: calm_in_flight) (simp add: calm_def)
qed

subsection \<open>A concrete run\<close>

text \<open>
  A dial that becomes ready, a terminal, a reader waiting on it and an exec whose err channel the
  daemon has opened; then the relay closes the socket. Texts are the names of the frames they parse
  to.
\<close>

definition frame_of :: "string \<Rightarrow> js option" where
  "frame_of raw =
     (if raw = ''ready'' then Some (control ''ready'' [])
      else if raw = ''pty'' then Some (control ''opened'' [(''ch'', Num (IntN 1)), (''ok'', Bool True)])
      else if raw = ''exec'' then Some (control ''opened''
        [(''ch'', Num (IntN 2)), (''ok'', Bool True), (''err_ch'', Num (IntN ERR_CHANNEL_BASE))])
      else None)"

definition link_run_cfg :: link_config where
  "link_run_cfg = \<lparr>lc_relay = ''ws://r'', lc_token = ''t'', lc_hostId = ''h'', lc_id = (\<lambda>n. ''c''), lc_json = frame_of\<rparr>"

definition lost_run :: "link_event list" where
  "lost_run = [Calls (CallConnect ''r0'' ''g'' None), SocketOpened 0, SocketText 0 ''ready'',
     Calls (CallOpenPty ''c'' ''r1'' ''sh'' 80 24 None), SocketText 0 ''pty'',
     Calls (CallRead ''c'' 1 ''r2'' 0 64 50), Calls (CallExec ''c'' ''r3'' ''ls'' 0 None), SocketText 0 ''exec'',
     SocketClosed 0 1006 ''gone'']"

lemma lost_link_leaves_nothing_waiting_witness:
  "in_flight (lk_entries (run_events (link_step link_run_cfg) new_link lost_run) ! 0) = {#}
   \<and> list_all (\<lambda>p. calm_pty (snd p)) (le_ptys (lk_entries (run_events (link_step link_run_cfg) new_link lost_run) ! 0))"
proof (rule lost_link_leaves_nothing_waiting)
  show "polite_run link_run_cfg new_link lost_run" by code_simp
  show "map_of (lk_ids (run_events (link_step link_run_cfg) new_link lost_run)) ''c'' = Some 0" by code_simp
  show "le_state (lk_entries (run_events (link_step link_run_cfg) new_link lost_run) ! 0) \<noteq> StConnected" by code_simp
qed

subsection \<open>A daemon that names a channel in use\<close>

text \<open>
  Two execs run on channels 1 and 2; the frame that opens the first names the channel of the second
  as its err channel. When the connection is lost, the second exec is never answered.
\<close>

definition clashing_frame_of :: "string \<Rightarrow> js option" where
  "clashing_frame_of raw =
     (if raw = ''ready'' then Some (control ''ready'' [])
      else if raw = ''second'' then Some (control ''opened'' [(''ch'', Num (IntN 2)), (''ok'', Bool True)])
      else if raw = ''first'' then Some (control ''opened''
        [(''ch'', Num (IntN 1)), (''ok'', Bool True), (''err_ch'', Num (IntN 2))])
      else None)"

definition clashing_run :: "link_event list" where
  "clashing_run = [Calls (CallConnect ''r0'' ''g'' None), SocketOpened 0, SocketText 0 ''ready'',
     Calls (CallExec ''c'' ''r1'' ''ls'' 0 None), Calls (CallExec ''c'' ''r2'' ''df'' 0 None),
     SocketText 0 ''second'', SocketText 0 ''first'', SocketClosed 0 1006 ''gone'']"

lemma colliding_err_channel_strands_an_exec:
  "let e = lk_entries (run_events (link_step (link_run_cfg\<lparr>lc_json := clashing_frame_of\<rparr>)) new_link clashing_run) ! 0 in
   le_state e = StLost \<and> in_flight e = {#2#}"
  by code_simp

end
