(* ===== verification/Dictation.thy ===== *)
theory Dictation
  imports Js_Strings
begin

text \<open>
  The dictation lifecycle (src/src/dictationController.ts). Every method of the controller and
  every callback it hands to an adapter is one event; the adapter calls it makes are a log. What
  an adapter answers is a parameter: a call throws, returns, or returns a promise that settles
  with a later event. Adapters do not call back into the controller before they return.
\<close>

subsection \<open>Configuration and state\<close>

datatype dictation_phase = DIdle | DStarting | DListening | DStopping | DCompleted | DCancelled | DError
datatype interrupt_reason = Background | TargetChange | SurfaceClosed
datatype recoverable_end = NoMatch | SpeechTimeout | RecognizerBusy
datatype audio_evidence = AudioUnknown | AudioSilent | AudioSound
datatype no_speech_reason = NoTextTimeout | EmptyTurns

record no_speech =
  ns_reason :: no_speech_reason
  ns_audio :: audio_evidence
  ns_emptyTurns :: nat
  ns_afterText :: bool

datatype adapter_result = Threw string | Returned | Promised

record dictation_config =
  dc_start :: "string \<Rightarrow> adapter_result"
  dc_stop :: "string \<Rightarrow> adapter_result"
  dc_schedule :: "nat \<Rightarrow> string option"
  dc_id :: "nat \<Rightarrow> string"
  dc_noTextWarningMs :: "jsnum option"
  dc_noTextRestartLimit :: "jsnum option"

text \<open>\<open>dc_schedule\<close> gives the message \<open>schedule\<close> throws, if it throws. An error
  that is not an \<open>Error\<close> with a message or a string is the empty message here.\<close>

definition DEFAULT_NO_TEXT_WARNING_MS :: int where "DEFAULT_NO_TEXT_WARNING_MS = 8000"
definition DEFAULT_NO_TEXT_RESTART_LIMIT :: int where "DEFAULT_NO_TEXT_RESTART_LIMIT = 2"

fun positive_number :: "jsnum \<Rightarrow> bool" where
  "positive_number (IntN i) = (0 < i)"
| "positive_number (FracN i) = (0 \<le> i)"
| "positive_number _ = False"

definition positiveOr :: "jsnum option \<Rightarrow> int \<Rightarrow> jsnum" where
  "positiveOr value fallback =
     (case value of Some v \<Rightarrow> if positive_number v then v else IntN fallback | None \<Rightarrow> IntN fallback)"

fun floor_number :: "jsnum \<Rightarrow> jsnum" where
  "floor_number (FracN i) = IntN i"
| "floor_number n = n"

definition noTextWarningMs :: "dictation_config \<Rightarrow> jsnum" where
  "noTextWarningMs cfg = positiveOr (dc_noTextWarningMs cfg) DEFAULT_NO_TEXT_WARNING_MS"

definition noTextRestartLimit :: "dictation_config \<Rightarrow> jsnum" where
  "noTextRestartLimit cfg = floor_number (positiveOr (dc_noTextRestartLimit cfg) DEFAULT_NO_TEXT_RESTART_LIMIT)"

definition errorMessage :: "string \<Rightarrow> string" where
  "errorMessage m = (if m = [] then ''Speech recognition failed.'' else m)"

datatype adapter_call =
    StartRecognition string
  | StopRecognition string
  | CancelRecognition string
  | Schedule nat
  | CancelScheduled nat
  | SetTimer nat jsnum
  | ClearTimer nat

record dictation =
  d_revision :: nat
  d_phase :: dictation_phase
  d_targetId :: "string option"
  d_requestId :: "string option"
  d_partial :: string
  d_segments :: "string list"
  d_transcript :: string
  d_error :: "(string \<times> string) option"
  d_userCancelled :: bool
  d_interrupt :: "interrupt_reason option"
  d_noSpeech :: "no_speech option"
  d_configuredTarget :: "string option"
  d_foreground :: bool
  d_current :: "string option"
  d_startResolved :: bool
  d_stopIssued :: bool
  d_desired :: bool
  d_pendingRestart :: "(nat \<times> bool) option"
  d_restartToken :: nat
  d_timer :: "nat option"
  d_timerToken :: nat
  d_elapsed :: bool
  d_emptyTurns :: nat
  d_turnHadText :: bool
  d_textThisRun :: bool
  d_audio :: audio_evidence
  d_usedIds :: "string list"
  d_asked :: nat
  d_log :: "adapter_call list"

definition new_dictation :: dictation where
  "new_dictation = \<lparr>d_revision = 0, d_phase = DIdle, d_targetId = None, d_requestId = None, d_partial = [],
     d_segments = [], d_transcript = [], d_error = None, d_userCancelled = False, d_interrupt = None,
     d_noSpeech = None, d_configuredTarget = None, d_foreground = True, d_current = None,
     d_startResolved = False, d_stopIssued = False, d_desired = False, d_pendingRestart = None,
     d_restartToken = 0, d_timer = None, d_timerToken = 0, d_elapsed = False, d_emptyTurns = 0,
     d_turnHadText = False, d_textThisRun = False, d_audio = AudioUnknown, d_usedIds = [], d_asked = 0, d_log = []\<rparr>"

definition record_call :: "adapter_call \<Rightarrow> dictation \<Rightarrow> dictation" where
  "record_call c d = d\<lparr>d_log := d_log d @ [c]\<rparr>"

definition publish :: "dictation \<Rightarrow> dictation" where
  "publish d = d\<lparr>d_revision := Suc (d_revision d)\<rparr>"

definition isActive :: "dictation \<Rightarrow> bool" where
  "isActive d \<longleftrightarrow> d_phase d \<in> {DStarting, DListening, DStopping}"

definition accepts :: "string \<Rightarrow> dictation \<Rightarrow> bool" where
  "accepts requestId d \<longleftrightarrow> d_current d = Some requestId \<and> isActive d"

subsection \<open>Texts\<close>

fun space_runs :: "bool \<Rightarrow> string \<Rightarrow> nat" where
  "space_runs inside [] = 0"
| "space_runs inside (c # cs) =
     (if js_space c then (if inside then 0 else 1) + space_runs True cs else space_runs False cs)"

text \<open>\<open>text.split(/\s+/u).length\<close>: one more than the runs of white space.\<close>

definition wordCount :: "string \<Rightarrow> nat" where
  "wordCount t = (if t = [] then 0 else Suc (space_runs False t))"

definition coveringSegment :: "string \<Rightarrow> string \<Rightarrow> string" where
  "coveringSegment finalText partial = (if wordCount finalText < wordCount partial then partial else finalText)"

definition add_segment :: "string \<Rightarrow> dictation \<Rightarrow> dictation" where
  "add_segment segment d =
     (let segments = d_segments d @ [segment] in
      d\<lparr>d_partial := [], d_segments := segments, d_transcript := join_with '' '' segments\<rparr>)"

definition promotePartial :: "dictation \<Rightarrow> dictation" where
  "promotePartial d =
     (let partial = js_trim (d_partial d) in
      if partial = [] then d\<lparr>d_partial := []\<rparr> else add_segment partial d)"

subsection \<open>The no-speech signal\<close>

definition clearNoTextTimer :: "dictation \<Rightarrow> dictation" where
  "clearNoTextTimer d =
     (let d1 = d\<lparr>d_timer := None, d_timerToken := Suc (d_timerToken d)\<rparr> in
      case d_timer d of None \<Rightarrow> d1 | Some t \<Rightarrow> record_call (ClearTimer t) d1)"

definition armNoTextTimer :: "dictation_config \<Rightarrow> dictation \<Rightarrow> dictation" where
  "armNoTextTimer cfg d =
     (let d1 = clearNoTextTimer d; token = Suc (d_timerToken d1) in
      record_call (SetTimer token (noTextWarningMs cfg)) (d1\<lparr>d_timerToken := token, d_timer := Some token\<rparr>))"

definition raiseNoSpeech :: "no_speech_reason \<Rightarrow> dictation \<Rightarrow> dictation" where
  "raiseNoSpeech reason d =
     d\<lparr>d_noSpeech := Some \<lparr>ns_reason = reason, ns_audio = d_audio d, ns_emptyTurns = d_emptyTurns d,
        ns_afterText = d_textThisRun d\<rparr>\<rparr>"

definition timer_fired :: "nat \<Rightarrow> dictation \<Rightarrow> dictation" where
  "timer_fired token d =
     (if d_timer d \<noteq> Some token then d
      else
        let d1 = d\<lparr>d_timer := None, d_elapsed := True\<rparr> in
        if \<not> d_desired d1 \<or> d_noSpeech d1 \<noteq> None then d1
        else if d_phase d1 \<noteq> DListening \<and> d_phase d1 \<noteq> DStarting then d1
        else publish (raiseNoSpeech NoTextTimeout d1))"

definition resetNoSpeechTracking :: "dictation \<Rightarrow> dictation" where
  "resetNoSpeechTracking d =
     (clearNoTextTimer d)\<lparr>d_elapsed := False, d_emptyTurns := 0, d_turnHadText := False, d_audio := AudioUnknown\<rparr>"

definition endNoSpeechTracking :: "dictation \<Rightarrow> dictation" where
  "endNoSpeechTracking d = (resetNoSpeechTracking d)\<lparr>d_noSpeech := None\<rparr>"

definition textRecognized :: "dictation_config \<Rightarrow> dictation \<Rightarrow> dictation" where
  "textRecognized cfg d =
     (let d1 = d\<lparr>d_turnHadText := True, d_textThisRun := True, d_emptyTurns := 0, d_audio := AudioUnknown,
                  d_elapsed := False, d_noSpeech := None\<rparr> in
      if d_desired d1 then armNoTextTimer cfg d1 else d1)"

definition countEmptyTurn :: "dictation_config \<Rightarrow> dictation \<Rightarrow> dictation" where
  "countEmptyTurn cfg d =
     (let d1 = d\<lparr>d_emptyTurns := Suc (d_emptyTurns d)\<rparr> in
      case d_noSpeech d1 of
        Some n \<Rightarrow> d1\<lparr>d_noSpeech := Some (n\<lparr>ns_emptyTurns := d_emptyTurns d1\<rparr>)\<rparr>
      | None \<Rightarrow>
          if num_le_int (noTextRestartLimit cfg) (int (d_emptyTurns d1)) then raiseNoSpeech EmptyTurns d1 else d1)"

subsection \<open>Turns\<close>

definition settleRequest :: "dictation \<Rightarrow> dictation" where
  "settleRequest d = d\<lparr>d_current := None, d_startResolved := False, d_stopIssued := False\<rparr>"

definition failed_with :: "string \<Rightarrow> string \<Rightarrow> dictation \<Rightarrow> dictation" where
  "failed_with code msg d =
     d\<lparr>d_phase := DError, d_requestId := None, d_partial := [], d_error := Some (code, msg), d_desired := False\<rparr>"

definition failStart :: "string \<Rightarrow> string \<Rightarrow> dictation \<Rightarrow> dictation" where
  "failStart requestId msg d =
     (if d_current d \<noteq> Some requestId then d
      else publish (failed_with ''start-failed'' (errorMessage msg) (endNoSpeechTracking (settleRequest d))))"

definition failStop :: "string \<Rightarrow> string \<Rightarrow> dictation \<Rightarrow> dictation" where
  "failStop requestId msg d =
     (if d_current d \<noteq> Some requestId then d
      else publish (failed_with ''stop-failed'' (errorMessage msg)
        (endNoSpeechTracking (promotePartial (settleRequest (record_call (CancelRecognition requestId) d))))))"

definition issueStop :: "dictation_config \<Rightarrow> string \<Rightarrow> dictation \<Rightarrow> dictation" where
  "issueStop cfg requestId d =
     (if d_current d \<noteq> Some requestId \<or> d_stopIssued d then d
      else
        let d1 = record_call (StopRecognition requestId) (d\<lparr>d_stopIssued := True\<rparr>) in
        case dc_stop cfg requestId of
          Threw msg \<Rightarrow> failStop requestId msg d1
        | _ \<Rightarrow> d1)"

definition startResolved :: "dictation_config \<Rightarrow> string \<Rightarrow> dictation \<Rightarrow> dictation" where
  "startResolved cfg requestId d =
     (if d_current d \<noteq> Some requestId then d
      else
        let d1 = d\<lparr>d_startResolved := True\<rparr> in
        if d_phase d1 = DStopping then issueStop cfg requestId d1
        else if d_phase d1 = DStarting then
          let d2 = d1\<lparr>d_phase := DListening\<rparr> in
          publish (if d_timer d2 = None \<and> \<not> d_elapsed d2 then armNoTextTimer cfg d2 else d2)
        else d1)"

text \<open>\<open>nextRequestId\<close> throws for an empty id or one used before; \<open>beginTurn\<close> then
  throws to its caller, here \<open>None\<close>.\<close>

definition nextRequestId :: "dictation_config \<Rightarrow> dictation \<Rightarrow> string option \<times> dictation" where
  "nextRequestId cfg d =
     (let requestId = dc_id cfg (d_asked d); d1 = d\<lparr>d_asked := Suc (d_asked d)\<rparr> in
      if requestId = [] \<or> requestId \<in> set (d_usedIds d1) then (None, d1)
      else (Some requestId, d1\<lparr>d_usedIds := requestId # d_usedIds d1\<rparr>))"

definition beginTurn :: "dictation_config \<Rightarrow> dictation \<Rightarrow> string option \<times> dictation" where
  "beginTurn cfg d =
     (case nextRequestId cfg d of
        (None, d1) \<Rightarrow> (None, d1)
      | (Some requestId, d1) \<Rightarrow>
          let d2 = record_call (StartRecognition requestId)
            (d1\<lparr>d_current := Some requestId, d_startResolved := False, d_stopIssued := False, d_turnHadText := False,
               d_phase := DStarting, d_requestId := Some requestId, d_partial := [], d_error := None,
               d_userCancelled := False, d_interrupt := None\<rparr>) in
          (Some requestId,
           case dc_start cfg requestId of
             Threw msg \<Rightarrow> failStart requestId msg d2
           | Promised \<Rightarrow> d2
           | Returned \<Rightarrow> startResolved cfg requestId d2))"

definition cancelPendingRestart :: "dictation \<Rightarrow> dictation" where
  "cancelPendingRestart d =
     (let d1 = d\<lparr>d_pendingRestart := None, d_restartToken := Suc (d_restartToken d)\<rparr> in
      case d_pendingRestart d of
        Some (token, True) \<Rightarrow> record_call (CancelScheduled token) d1
      | _ \<Rightarrow> d1)"

definition scheduleNextTurn :: "dictation_config \<Rightarrow> dictation \<Rightarrow> dictation" where
  "scheduleNextTurn cfg d =
     (if \<not> d_desired d \<or> d_pendingRestart d \<noteq> None then d
      else
        let token = Suc (d_restartToken d);
            d1 = record_call (Schedule token) (d\<lparr>d_restartToken := token\<rparr>) in
        case dc_schedule cfg token of
          None \<Rightarrow> d1\<lparr>d_pendingRestart := Some (token, True)\<rparr>
        | Some msg \<Rightarrow>
            publish ((endNoSpeechTracking (d1\<lparr>d_desired := False\<rparr>))\<lparr>d_phase := DError,
              d_error := Some (''restart-scheduling-failed'', errorMessage msg)\<rparr>))"

definition restart_fired :: "dictation_config \<Rightarrow> nat \<Rightarrow> dictation \<Rightarrow> dictation" where
  "restart_fired cfg token d =
     (if map_option fst (d_pendingRestart d) \<noteq> Some token then d
      else
        let d1 = d\<lparr>d_pendingRestart := None\<rparr> in
        if \<not> d_desired d1 \<or> d_phase d1 \<noteq> DListening \<or> d_current d1 \<noteq> None then d1
        else
          case beginTurn cfg d1 of
            (None, d2) \<Rightarrow> d2
          | (Some _, d2) \<Rightarrow> publish d2)"

subsection \<open>The public operations\<close>

definition call_cancel :: "string option \<Rightarrow> dictation \<Rightarrow> dictation" where
  "call_cancel requestId d =
     (case requestId of None \<Rightarrow> d | Some r \<Rightarrow> record_call (CancelRecognition r) d)"

definition stop_tracking :: "dictation \<Rightarrow> dictation" where
  "stop_tracking d = endNoSpeechTracking (cancelPendingRestart (d\<lparr>d_desired := False\<rparr>))"

definition dictation_interrupt :: "interrupt_reason \<Rightarrow> dictation \<Rightarrow> dictation" where
  "dictation_interrupt reason d =
     (if \<not> isActive d then d
      else
        call_cancel (d_current d)
          (publish ((promotePartial (settleRequest (stop_tracking d)))\<lparr>d_phase := DCompleted, d_requestId := None,
             d_interrupt := Some reason\<rparr>)))"

definition dictation_cancel :: "dictation \<Rightarrow> dictation" where
  "dictation_cancel d =
     (if \<not> isActive d then d
      else
        call_cancel (d_current d)
          (publish ((settleRequest (stop_tracking d))\<lparr>d_phase := DCancelled, d_requestId := None, d_partial := [],
             d_userCancelled := True\<rparr>)))"

definition setTarget :: "string option \<Rightarrow> dictation \<Rightarrow> dictation" where
  "setTarget targetId d =
     (if targetId = d_configuredTarget d then d
      else
        let d1 = d\<lparr>d_configuredTarget := targetId\<rparr> in
        if isActive d1 then dictation_interrupt TargetChange d1 else d1)"

definition setForeground :: "bool \<Rightarrow> dictation \<Rightarrow> dictation" where
  "setForeground foreground d =
     (if d_foreground d = foreground then d
      else
        let d1 = d\<lparr>d_foreground := foreground\<rparr> in
        if \<not> foreground \<and> isActive d1 then dictation_interrupt Background d1 else d1)"

definition fresh_snapshot :: "dictation \<Rightarrow> dictation" where
  "fresh_snapshot d =
     d\<lparr>d_phase := DIdle, d_targetId := d_configuredTarget d, d_requestId := None, d_partial := [], d_segments := [],
       d_transcript := [], d_error := None, d_userCancelled := False, d_interrupt := None, d_noSpeech := None\<rparr>"

definition dictation_start :: "dictation_config \<Rightarrow> dictation \<Rightarrow> dictation" where
  "dictation_start cfg d =
     (if isActive d \<or> \<not> d_foreground d \<or> d_configuredTarget d = None then d
      else
        case beginTurn cfg ((resetNoSpeechTracking
               (fresh_snapshot ((cancelPendingRestart d)\<lparr>d_desired := True\<rparr>)))\<lparr>d_textThisRun := False\<rparr>) of
          (None, d1) \<Rightarrow> d1
        | (Some _, d1) \<Rightarrow> publish d1)"

definition dictation_stop :: "dictation_config \<Rightarrow> dictation \<Rightarrow> dictation" where
  "dictation_stop cfg d =
     (if \<not> isActive d then d
      else
        let d1 = stop_tracking d in
        case d_current d1 of
          None \<Rightarrow> publish (d1\<lparr>d_phase := DCompleted, d_requestId := None, d_partial := []\<rparr>)
        | Some requestId \<Rightarrow>
            let d2 = publish (d1\<lparr>d_phase := DStopping\<rparr>) in
            if d_startResolved d2 then issueStop cfg requestId d2 else d2)"

subsection \<open>Recognizer callbacks\<close>

definition onPartial :: "dictation_config \<Rightarrow> string \<Rightarrow> string \<Rightarrow> dictation \<Rightarrow> dictation" where
  "onPartial cfg requestId t d =
     (if \<not> accepts requestId d then d
      else
        let d1 = d\<lparr>d_partial := t\<rparr> in
        publish (if js_trim t \<noteq> [] then textRecognized cfg d1 else d1))"

definition onAudioLevel :: "string \<Rightarrow> bool \<Rightarrow> dictation \<Rightarrow> dictation" where
  "onAudioLevel requestId soundPresent d =
     (if \<not> accepts requestId d then d
      else
        let nxt = (if soundPresent then AudioSound else if d_audio d = AudioUnknown then AudioSilent else d_audio d) in
        if nxt = d_audio d then d
        else
          let d1 = d\<lparr>d_audio := nxt\<rparr> in
          case d_noSpeech d1 of
            None \<Rightarrow> d1
          | Some n \<Rightarrow> publish (d1\<lparr>d_noSpeech := Some (n\<lparr>ns_audio := nxt\<rparr>)\<rparr>))"

definition finish_turn :: "dictation_config \<Rightarrow> dictation \<Rightarrow> dictation" where
  "finish_turn cfg d =
     (if d_desired d then scheduleNextTurn cfg (publish (d\<lparr>d_phase := DListening\<rparr>))
      else publish ((endNoSpeechTracking d)\<lparr>d_phase := DCompleted\<rparr>))"

definition onRecoverableEnd :: "dictation_config \<Rightarrow> string \<Rightarrow> recoverable_end \<Rightarrow> dictation \<Rightarrow> dictation" where
  "onRecoverableEnd cfg requestId reason d =
     (if \<not> accepts requestId d then d
      else
        let emptyTurn = (\<not> d_turnHadText d \<and> reason \<noteq> RecognizerBusy);
            d1 = (promotePartial (settleRequest d))\<lparr>d_requestId := None\<rparr> in
        finish_turn cfg (if d_desired d1 \<and> emptyTurn then countEmptyTurn cfg d1 else d1))"

definition onRecognizedSegment :: "dictation_config \<Rightarrow> string \<Rightarrow> string \<Rightarrow> dictation \<Rightarrow> dictation" where
  "onRecognizedSegment cfg requestId t d =
     (if \<not> accepts requestId d then d
      else
        let segment = coveringSegment (js_trim t) (js_trim (d_partial d)) in
        if segment = [] then onRecoverableEnd cfg requestId NoMatch d
        else finish_turn cfg ((add_segment segment (textRecognized cfg (settleRequest d)))\<lparr>d_requestId := None\<rparr>))"

definition onError :: "string \<Rightarrow> string \<Rightarrow> string \<Rightarrow> dictation \<Rightarrow> dictation" where
  "onError requestId code msg d =
     (if \<not> accepts requestId d then d
      else publish (failed_with code msg (endNoSpeechTracking (promotePartial (settleRequest d)))))"

datatype dictation_event =
    SetTarget "string option"
  | SetForeground bool
  | StartTap
  | StopTap
  | Interrupt interrupt_reason
  | CancelTap
  | Partial string string
  | AudioLevel string bool
  | Recognized string string
  | TurnEnded string recoverable_end
  | RecognizerError string string string
  | StartSettled string "string option"
  | StopRejected string string
  | RestartFired nat
  | TimerFired nat

fun dictation_step :: "dictation_config \<Rightarrow> dictation \<Rightarrow> dictation_event \<Rightarrow> dictation" where
  "dictation_step cfg d (SetTarget t) = setTarget t d"
| "dictation_step cfg d (SetForeground f) = setForeground f d"
| "dictation_step cfg d StartTap = dictation_start cfg d"
| "dictation_step cfg d StopTap = dictation_stop cfg d"
| "dictation_step cfg d (Interrupt r) = dictation_interrupt r d"
| "dictation_step cfg d CancelTap = dictation_cancel d"
| "dictation_step cfg d (Partial i t) = onPartial cfg i t d"
| "dictation_step cfg d (AudioLevel i b) = onAudioLevel i b d"
| "dictation_step cfg d (Recognized i t) = onRecognizedSegment cfg i t d"
| "dictation_step cfg d (TurnEnded i r) = onRecoverableEnd cfg i r d"
| "dictation_step cfg d (RecognizerError i c m) = onError i c m d"
| "dictation_step cfg d (StartSettled i None) = startResolved cfg i d"
| "dictation_step cfg d (StartSettled i (Some m)) = failStart i m d"
| "dictation_step cfg d (StopRejected i m) = failStop i m d"
| "dictation_step cfg d (RestartFired k) = restart_fired cfg k d"
| "dictation_step cfg d (TimerFired k) = timer_fired k d"

subsection \<open>What every state keeps\<close>

fun started_ids :: "adapter_call list \<Rightarrow> string list" where
  "started_ids [] = []"
| "started_ids (StartRecognition i # cs) = i # started_ids cs"
| "started_ids (_ # cs) = started_ids cs"

lemma started_ids_append [simp]: "started_ids (xs @ ys) = started_ids xs @ started_ids ys"
  by (induction xs rule: started_ids.induct) auto

lemma call_fields [simp]:
  "d_phase (record_call c d) = d_phase d" "d_targetId (record_call c d) = d_targetId d"
  "d_requestId (record_call c d) = d_requestId d" "d_partial (record_call c d) = d_partial d"
  "d_segments (record_call c d) = d_segments d" "d_transcript (record_call c d) = d_transcript d"
  "d_error (record_call c d) = d_error d" "d_userCancelled (record_call c d) = d_userCancelled d"
  "d_interrupt (record_call c d) = d_interrupt d" "d_noSpeech (record_call c d) = d_noSpeech d"
  "d_configuredTarget (record_call c d) = d_configuredTarget d" "d_foreground (record_call c d) = d_foreground d"
  "d_current (record_call c d) = d_current d" "d_startResolved (record_call c d) = d_startResolved d"
  "d_stopIssued (record_call c d) = d_stopIssued d" "d_desired (record_call c d) = d_desired d"
  "d_pendingRestart (record_call c d) = d_pendingRestart d" "d_restartToken (record_call c d) = d_restartToken d"
  "d_timer (record_call c d) = d_timer d" "d_timerToken (record_call c d) = d_timerToken d"
  "d_elapsed (record_call c d) = d_elapsed d" "d_emptyTurns (record_call c d) = d_emptyTurns d"
  "d_turnHadText (record_call c d) = d_turnHadText d" "d_textThisRun (record_call c d) = d_textThisRun d"
  "d_audio (record_call c d) = d_audio d" "d_usedIds (record_call c d) = d_usedIds d"
  "d_asked (record_call c d) = d_asked d" "d_revision (record_call c d) = d_revision d"
  "d_log (record_call c d) = d_log d @ [c]"
  by (simp_all add: record_call_def)

lemma clear_timer_fields [simp]:
  "d_phase (clearNoTextTimer d) = d_phase d" "d_targetId (clearNoTextTimer d) = d_targetId d"
  "d_requestId (clearNoTextTimer d) = d_requestId d" "d_partial (clearNoTextTimer d) = d_partial d"
  "d_segments (clearNoTextTimer d) = d_segments d" "d_transcript (clearNoTextTimer d) = d_transcript d"
  "d_error (clearNoTextTimer d) = d_error d" "d_userCancelled (clearNoTextTimer d) = d_userCancelled d"
  "d_interrupt (clearNoTextTimer d) = d_interrupt d" "d_noSpeech (clearNoTextTimer d) = d_noSpeech d"
  "d_configuredTarget (clearNoTextTimer d) = d_configuredTarget d"
  "d_foreground (clearNoTextTimer d) = d_foreground d" "d_current (clearNoTextTimer d) = d_current d"
  "d_startResolved (clearNoTextTimer d) = d_startResolved d" "d_stopIssued (clearNoTextTimer d) = d_stopIssued d"
  "d_desired (clearNoTextTimer d) = d_desired d" "d_pendingRestart (clearNoTextTimer d) = d_pendingRestart d"
  "d_restartToken (clearNoTextTimer d) = d_restartToken d" "d_elapsed (clearNoTextTimer d) = d_elapsed d"
  "d_emptyTurns (clearNoTextTimer d) = d_emptyTurns d" "d_turnHadText (clearNoTextTimer d) = d_turnHadText d"
  "d_textThisRun (clearNoTextTimer d) = d_textThisRun d" "d_audio (clearNoTextTimer d) = d_audio d"
  "d_usedIds (clearNoTextTimer d) = d_usedIds d" "d_asked (clearNoTextTimer d) = d_asked d"
  "d_revision (clearNoTextTimer d) = d_revision d" "d_timer (clearNoTextTimer d) = None"
  "started_ids (d_log (clearNoTextTimer d)) = started_ids (d_log d)"
  by (simp_all add: clearNoTextTimer_def Let_def split: option.split)

lemma arm_timer_fields [simp]:
  "d_phase (armNoTextTimer cfg d) = d_phase d" "d_targetId (armNoTextTimer cfg d) = d_targetId d"
  "d_requestId (armNoTextTimer cfg d) = d_requestId d" "d_partial (armNoTextTimer cfg d) = d_partial d"
  "d_segments (armNoTextTimer cfg d) = d_segments d" "d_transcript (armNoTextTimer cfg d) = d_transcript d"
  "d_error (armNoTextTimer cfg d) = d_error d" "d_userCancelled (armNoTextTimer cfg d) = d_userCancelled d"
  "d_interrupt (armNoTextTimer cfg d) = d_interrupt d" "d_noSpeech (armNoTextTimer cfg d) = d_noSpeech d"
  "d_configuredTarget (armNoTextTimer cfg d) = d_configuredTarget d"
  "d_foreground (armNoTextTimer cfg d) = d_foreground d" "d_current (armNoTextTimer cfg d) = d_current d"
  "d_startResolved (armNoTextTimer cfg d) = d_startResolved d"
  "d_stopIssued (armNoTextTimer cfg d) = d_stopIssued d" "d_desired (armNoTextTimer cfg d) = d_desired d"
  "d_pendingRestart (armNoTextTimer cfg d) = d_pendingRestart d"
  "d_restartToken (armNoTextTimer cfg d) = d_restartToken d" "d_elapsed (armNoTextTimer cfg d) = d_elapsed d"
  "d_emptyTurns (armNoTextTimer cfg d) = d_emptyTurns d" "d_turnHadText (armNoTextTimer cfg d) = d_turnHadText d"
  "d_textThisRun (armNoTextTimer cfg d) = d_textThisRun d" "d_audio (armNoTextTimer cfg d) = d_audio d"
  "d_usedIds (armNoTextTimer cfg d) = d_usedIds d" "d_asked (armNoTextTimer cfg d) = d_asked d"
  "d_revision (armNoTextTimer cfg d) = d_revision d"
  "started_ids (d_log (armNoTextTimer cfg d)) = started_ids (d_log d)"
  by (simp_all add: armNoTextTimer_def Let_def)

lemma cancel_restart_fields [simp]:
  "d_phase (cancelPendingRestart d) = d_phase d" "d_targetId (cancelPendingRestart d) = d_targetId d"
  "d_requestId (cancelPendingRestart d) = d_requestId d" "d_partial (cancelPendingRestart d) = d_partial d"
  "d_segments (cancelPendingRestart d) = d_segments d" "d_transcript (cancelPendingRestart d) = d_transcript d"
  "d_error (cancelPendingRestart d) = d_error d" "d_userCancelled (cancelPendingRestart d) = d_userCancelled d"
  "d_interrupt (cancelPendingRestart d) = d_interrupt d" "d_noSpeech (cancelPendingRestart d) = d_noSpeech d"
  "d_configuredTarget (cancelPendingRestart d) = d_configuredTarget d"
  "d_foreground (cancelPendingRestart d) = d_foreground d" "d_current (cancelPendingRestart d) = d_current d"
  "d_startResolved (cancelPendingRestart d) = d_startResolved d"
  "d_stopIssued (cancelPendingRestart d) = d_stopIssued d" "d_desired (cancelPendingRestart d) = d_desired d"
  "d_timer (cancelPendingRestart d) = d_timer d" "d_timerToken (cancelPendingRestart d) = d_timerToken d"
  "d_elapsed (cancelPendingRestart d) = d_elapsed d" "d_emptyTurns (cancelPendingRestart d) = d_emptyTurns d"
  "d_turnHadText (cancelPendingRestart d) = d_turnHadText d"
  "d_textThisRun (cancelPendingRestart d) = d_textThisRun d" "d_audio (cancelPendingRestart d) = d_audio d"
  "d_usedIds (cancelPendingRestart d) = d_usedIds d" "d_asked (cancelPendingRestart d) = d_asked d"
  "d_revision (cancelPendingRestart d) = d_revision d" "d_pendingRestart (cancelPendingRestart d) = None"
  "started_ids (d_log (cancelPendingRestart d)) = started_ids (d_log d)"
  by (simp_all add: cancelPendingRestart_def Let_def split: option.split prod.split bool.split)

definition hearing :: "dictation \<Rightarrow> bool" where
  "hearing d \<longleftrightarrow> d_phase d = DListening \<or> d_phase d = DStarting"

definition dictation_inv :: "dictation \<Rightarrow> bool" where
  "dictation_inv d \<longleftrightarrow>
     d_transcript d = join_with '' '' (d_segments d) \<and> [] \<notin> set (d_segments d)
     \<and> d_requestId d = d_current d
     \<and> (d_current d = None \<longrightarrow> d_partial d = [] \<and> (isActive d \<longrightarrow> d_phase d = DListening))
     \<and> (d_current d \<noteq> None \<longrightarrow> isActive d \<and> d_pendingRestart d = None)
     \<and> (d_pendingRestart d \<noteq> None \<longrightarrow> d_desired d \<and> d_phase d = DListening)
     \<and> (d_phase d = DStopping \<longrightarrow> \<not> d_desired d)
     \<and> (d_noSpeech d \<noteq> None \<or> d_timer d \<noteq> None \<longrightarrow> hearing d)
     \<and> started_ids (d_log d) = rev (d_usedIds d) \<and> distinct (d_usedIds d)
     \<and> (d_current d \<noteq> None \<longrightarrow> d_current d = Some (hd (d_usedIds d)) \<and> d_usedIds d \<noteq> [])"

lemmas dictation_helpers =
  publish_def add_segment_def promotePartial_def
  raiseNoSpeech_def resetNoSpeechTracking_def endNoSpeechTracking_def textRecognized_def countEmptyTurn_def
  settleRequest_def failed_with_def stop_tracking_def call_cancel_def fresh_snapshot_def
  isActive_def hearing_def accepts_def Let_def

lemma inv_issue_stop: "dictation_inv d \<Longrightarrow> d_phase d = DStopping \<Longrightarrow> dictation_inv (issueStop cfg i d)"
  by (auto simp: issueStop_def failStop_def dictation_inv_def dictation_helpers js_trim_ends
      split: adapter_result.splits option.splits bool.splits)

lemma inv_fail_start: "dictation_inv d \<Longrightarrow> dictation_inv (failStart i m d)"
  by (auto simp: failStart_def dictation_inv_def dictation_helpers split: option.splits)

lemma inv_fail_stop: "dictation_inv d \<Longrightarrow> dictation_inv (failStop i m d)"
  by (auto simp: failStop_def dictation_inv_def dictation_helpers split: option.splits)

lemma inv_start_resolved: "dictation_inv d \<Longrightarrow> dictation_inv (startResolved cfg i d)"
  apply (cases "d_current d = Some i \<and> d_phase d = DStopping")
  subgoal by (simp add: startResolved_def, intro inv_issue_stop) (simp_all add: dictation_inv_def dictation_helpers)
  by (auto simp: startResolved_def dictation_inv_def dictation_helpers split: option.splits)

lemma inv_begin_turn:
  assumes "dictation_inv d" "d_pendingRestart d = None" "d_phase d = DIdle \<or> d_phase d = DListening" "d_current d = None"
  shows "dictation_inv (snd (beginTurn cfg d))"
proof (cases "dc_id cfg (d_asked d) = [] \<or> dc_id cfg (d_asked d) \<in> set (d_usedIds d)")
  case True
  with assms(1) show ?thesis
    by (auto simp: beginTurn_def nextRequestId_def dictation_inv_def isActive_def hearing_def)
next
  case False
  let ?i = "dc_id cfg (d_asked d)"
  let ?d = "record_call (StartRecognition ?i) (d\<lparr>d_asked := Suc (d_asked d), d_usedIds := ?i # d_usedIds d,
    d_current := Some ?i, d_startResolved := False, d_stopIssued := False, d_turnHadText := False,
    d_phase := DStarting, d_requestId := Some ?i, d_partial := [], d_error := None,
    d_userCancelled := False, d_interrupt := None\<rparr>)"
  have "dictation_inv ?d"
    using assms False by (auto simp: dictation_inv_def record_call_def isActive_def hearing_def)
  with False show ?thesis
    by (auto simp: beginTurn_def nextRequestId_def Let_def inv_fail_start inv_start_resolved split: adapter_result.splits)
qed

lemma inv_publish [simp]: "dictation_inv (publish d) = dictation_inv d"
  by (simp add: publish_def dictation_inv_def isActive_def hearing_def)

lemma inv_start: "dictation_inv d \<Longrightarrow> dictation_inv (dictation_start cfg d)"
proof (cases "isActive d \<or> \<not> d_foreground d \<or> d_configuredTarget d = None")
  case False
  let ?d = "(resetNoSpeechTracking (fresh_snapshot ((cancelPendingRestart d)\<lparr>d_desired := True\<rparr>)))\<lparr>d_textThisRun := False\<rparr>"
  assume "dictation_inv d"
  with False have "dictation_inv ?d" "d_pendingRestart ?d = None" "d_phase ?d = DIdle" "d_current ?d = None"
    by (auto simp: dictation_inv_def dictation_helpers split: option.splits prod.splits bool.splits)
  then have "dictation_inv (snd (beginTurn cfg ?d))" by (simp add: inv_begin_turn)
  with False show ?thesis by (auto simp: dictation_start_def split: prod.splits option.splits)
qed (simp add: dictation_start_def)

lemma inv_restart: "dictation_inv d \<Longrightarrow> dictation_inv (restart_fired cfg token d)"
proof (cases "map_option fst (d_pendingRestart d) = Some token")
  case True
  let ?d = "d\<lparr>d_pendingRestart := None\<rparr>"
  assume "dictation_inv d"
  with True have d: "dictation_inv ?d" "d_current ?d = None" "d_phase ?d = DListening"
    by (auto simp: dictation_inv_def isActive_def hearing_def)
  then have "dictation_inv (snd (beginTurn cfg ?d))" by (simp add: inv_begin_turn)
  with True d show ?thesis by (auto simp: restart_fired_def Let_def split: prod.splits option.splits)
qed (simp add: restart_fired_def)

lemma inv_interrupt: "dictation_inv d \<Longrightarrow> dictation_inv (dictation_interrupt r d)"
  by (auto simp: dictation_interrupt_def dictation_inv_def dictation_helpers
      split: option.splits prod.splits bool.splits)

lemma inv_cancel: "dictation_inv d \<Longrightarrow> dictation_inv (dictation_cancel d)"
  by (auto simp: dictation_cancel_def dictation_inv_def dictation_helpers
      split: option.splits prod.splits bool.splits)

lemma inv_stop: "dictation_inv d \<Longrightarrow> dictation_inv (dictation_stop cfg d)"
proof (cases "isActive d \<and> d_current d \<noteq> None")
  case True
  let ?d = "publish ((stop_tracking d)\<lparr>d_phase := DStopping\<rparr>)"
  assume "dictation_inv d"
  with True have "dictation_inv ?d" "d_phase ?d = DStopping"
    by (auto simp: dictation_inv_def dictation_helpers split: option.splits prod.splits bool.splits)
  moreover have "d_current (stop_tracking d) = d_current d"
    by (auto simp: dictation_helpers split: option.splits prod.splits bool.splits)
  ultimately show ?thesis using True by (auto simp: dictation_stop_def Let_def inv_issue_stop)
next
  case False
  assume "dictation_inv d"
  then have "dictation_inv ((endNoSpeechTracking (cancelPendingRestart (d\<lparr>d_desired := False\<rparr>)))
    \<lparr>d_phase := DCompleted, d_requestId := None, d_partial := []\<rparr>)" if "d_current d = None"
    using that by (simp add: dictation_inv_def dictation_helpers split: option.split prod.split bool.split)
  moreover have "d_current (stop_tracking d) = d_current d"
    by (simp add: dictation_helpers split: option.split prod.split bool.split)
  ultimately show ?thesis
    using False \<open>dictation_inv d\<close> by (auto simp: dictation_stop_def Let_def stop_tracking_def)
qed

text \<open>What is left of the invariant between turns.\<close>

definition between_turns :: "dictation \<Rightarrow> bool" where
  "between_turns d \<longleftrightarrow>
     d_transcript d = join_with '' '' (d_segments d) \<and> [] \<notin> set (d_segments d)
     \<and> d_requestId d = None \<and> d_current d = None \<and> d_partial d = [] \<and> d_pendingRestart d = None
     \<and> started_ids (d_log d) = rev (d_usedIds d) \<and> distinct (d_usedIds d)"

lemma inv_between:
  "between_turns d \<Longrightarrow> d_phase d = DListening \<or> \<not> isActive d \<and> d_noSpeech d = None \<and> d_timer d = None \<Longrightarrow> dictation_inv d"
  by (auto simp: between_turns_def dictation_inv_def isActive_def hearing_def)

lemma inv_finish:
  assumes "between_turns d"
  shows "dictation_inv (finish_turn cfg d)"
proof (cases "d_desired d")
  case False
  have "between_turns ((endNoSpeechTracking d)\<lparr>d_phase := DCompleted\<rparr>)"
    using assms by (simp add: between_turns_def dictation_helpers split: option.split)
  with False show ?thesis
    by (simp add: finish_turn_def) (rule inv_between; simp add: dictation_helpers)
next
  case True
  let ?d = "publish (d\<lparr>d_phase := DListening\<rparr>)"
  let ?t = "Suc (d_restartToken ?d)"
  let ?s = "record_call (Schedule ?t) (?d\<lparr>d_restartToken := ?t\<rparr>)"
  have s: "between_turns ?s" "d_phase ?s = DListening" "d_desired ?s"
    using assms True by (simp_all add: between_turns_def record_call_def publish_def)
  then have armed: "dictation_inv (?s\<lparr>d_pendingRestart := Some (?t, True)\<rparr>)"
    by (simp add: between_turns_def dictation_inv_def isActive_def hearing_def)
  have "between_turns ((endNoSpeechTracking (?s\<lparr>d_desired := False\<rparr>))\<lparr>d_phase := DError, d_error := e\<rparr>)" for e
    using s by (simp add: between_turns_def endNoSpeechTracking_def resetNoSpeechTracking_def)
  then have failed: "dictation_inv ((endNoSpeechTracking (?s\<lparr>d_desired := False\<rparr>))\<lparr>d_phase := DError, d_error := e\<rparr>)" for e
    by (rule inv_between) (simp add: endNoSpeechTracking_def isActive_def resetNoSpeechTracking_def)
  have "d_desired ?d" "d_pendingRestart ?d = None" using assms True by (simp_all add: publish_def between_turns_def)
  with True armed failed show ?thesis
    by (simp add: finish_turn_def scheduleNextTurn_def Let_def split: option.split)
qed

lemma inv_partial: "dictation_inv d \<Longrightarrow> dictation_inv (onPartial cfg i t d)"
  by (auto simp: onPartial_def dictation_inv_def dictation_helpers)

lemma inv_audio: "dictation_inv d \<Longrightarrow> dictation_inv (onAudioLevel i b d)"
  by (auto simp: onAudioLevel_def dictation_inv_def isActive_def hearing_def publish_def Let_def split: option.split)

lemma settled_between:
  assumes "dictation_inv d" and "accepts i d"
  shows "between_turns ((promotePartial (settleRequest d))\<lparr>d_requestId := None\<rparr>)"
    and "seg \<noteq> [] \<Longrightarrow> between_turns ((add_segment seg (textRecognized cfg (settleRequest d)))\<lparr>d_requestId := None\<rparr>)"
  using assms
  by (auto simp: between_turns_def dictation_inv_def accepts_def promotePartial_def add_segment_def settleRequest_def
      textRecognized_def Let_def)

lemma count_between: "between_turns d \<Longrightarrow> between_turns (countEmptyTurn cfg d)"
  by (auto simp: between_turns_def countEmptyTurn_def raiseNoSpeech_def Let_def split: option.split)

lemma inv_turn_end: "dictation_inv d \<Longrightarrow> dictation_inv (onRecoverableEnd cfg i r d)"
  by (auto simp: onRecoverableEnd_def Let_def intro!: inv_finish settled_between count_between)

lemma inv_recognized: "dictation_inv d \<Longrightarrow> dictation_inv (onRecognizedSegment cfg i t d)"
  by (auto simp: onRecognizedSegment_def Let_def inv_turn_end intro!: inv_finish settled_between)

lemma inv_error: "dictation_inv d \<Longrightarrow> dictation_inv (onError i c m d)"
  by (auto simp: onError_def dictation_inv_def dictation_helpers)

lemma inv_timer: "dictation_inv d \<Longrightarrow> dictation_inv (timer_fired k d)"
  by (auto simp: timer_fired_def dictation_inv_def isActive_def hearing_def raiseNoSpeech_def publish_def Let_def)

lemma inv_reconfigured:
  "dictation_inv d \<Longrightarrow> dictation_inv (d\<lparr>d_configuredTarget := t\<rparr>)"
  "dictation_inv d \<Longrightarrow> dictation_inv (d\<lparr>d_foreground := f\<rparr>)"
  by (simp_all add: dictation_inv_def isActive_def hearing_def)

interpretation dictating: machine "dictation_step cfg" dictation_inv for cfg
proof unfold_locales
  fix d e
  assume "dictation_inv d"
  then show "dictation_inv (dictation_step cfg d e)"
    by (cases "(cfg, d, e)" rule: dictation_step.cases)
      (simp_all add: setTarget_def setForeground_def Let_def inv_reconfigured inv_interrupt inv_start inv_stop inv_cancel
        inv_partial inv_audio inv_recognized inv_turn_end inv_error inv_start_resolved inv_fail_start inv_fail_stop
        inv_restart inv_timer)
qed

lemma inv_new: "dictation_inv new_dictation"
  by (simp add: new_dictation_def dictation_inv_def isActive_def hearing_def)

abbreviation dictated :: "dictation_config \<Rightarrow> dictation_event list \<Rightarrow> dictation" where
  "dictated cfg es \<equiv> run_events (dictation_step cfg) new_dictation es"

text \<open>
  In every state of every run, whatever the recognizer and the user do and in whatever order,
  the transcript is the final segments joined by one space and none of them is blank, no recognizer
  turn is started twice, only the turn started last may report, a restart is pending only while
  listening between turns, and the no-speech signal is raised only while listening or starting.
\<close>

theorem dictation_turns_in_order:
  "let d = dictated cfg es in
     d_transcript d = join_with '' '' (d_segments d) \<and> [] \<notin> set (d_segments d)
     \<and> distinct (started_ids (d_log d))
     \<and> (\<forall>i. accepts i d \<longrightarrow> started_ids (d_log d) \<noteq> [] \<and> i = last (started_ids (d_log d)) \<and> d_requestId d = Some i)
     \<and> (d_pendingRestart d \<noteq> None \<longrightarrow> d_phase d = DListening \<and> d_current d = None)
     \<and> (d_noSpeech d \<noteq> None \<longrightarrow> hearing d)"
  using dictating.run_inv [OF inv_new, of cfg es]
  by (auto simp: dictation_inv_def accepts_def Let_def last_rev)

subsection \<open>No dictated text is lost\<close>

text \<open>
  What each event may drop: the explicit cancel, the tap that starts a new run, and a start of the
  recognizer that fails while its turn already has a partial (see the finding below).
\<close>

fun may_drop :: "dictation_event \<Rightarrow> bool" where
  "may_drop CancelTap = True"
| "may_drop StartTap = True"
| "may_drop (StartSettled i (Some m)) = True"
| "may_drop _ = False"

definition kept :: "dictation \<Rightarrow> dictation \<Rightarrow> bool" where
  "kept d d' \<longleftrightarrow>
     prefix (d_segments d) (d_segments d')
     \<and> (js_trim (d_partial d) = [] \<or> d_partial d' = d_partial d
        \<or> (length (d_segments d) < length (d_segments d')
           \<and> wordCount (js_trim (d_partial d)) \<le> wordCount (d_segments d' ! length (d_segments d))))"

lemma kept_refl: "kept d d"
  by (simp add: kept_def)

lemma kept_same: "d_segments d' = d_segments d \<Longrightarrow> d_partial d' = d_partial d \<Longrightarrow> kept d d'"
  by (simp add: kept_def)

lemma kept_promoted:
  "d_segments d' = d_segments (promotePartial d) \<Longrightarrow> kept d d'"
  by (auto simp: kept_def promotePartial_def add_segment_def Let_def)

lemma tracking_fields [simp]:
  "d_segments (endNoSpeechTracking d) = d_segments d" "d_partial (endNoSpeechTracking d) = d_partial d"
  "d_segments (stop_tracking d) = d_segments d" "d_partial (stop_tracking d) = d_partial d"
  "d_current (stop_tracking d) = d_current d"
  "d_segments (settleRequest d) = d_segments d" "d_partial (settleRequest d) = d_partial d"
  "d_segments (publish d) = d_segments d" "d_partial (publish d) = d_partial d"
  "d_segments (call_cancel r d) = d_segments d" "d_partial (call_cancel r d) = d_partial d"
  "d_segments (raiseNoSpeech why d) = d_segments d" "d_partial (raiseNoSpeech why d) = d_partial d"
  "d_segments (textRecognized cfg d) = d_segments d" "d_partial (textRecognized cfg d) = d_partial d"
  "d_segments (failed_with c m d) = d_segments d"
  by (simp_all add: dictation_helpers split: option.split)

lemma promoted_fields [simp]:
  "d_segments (promotePartial (settleRequest d)) = d_segments (promotePartial d)"
  "d_segments (promotePartial (stop_tracking d)) = d_segments (promotePartial d)"
  "d_segments (promotePartial (record_call c d)) = d_segments (promotePartial d)"
  by (simp_all add: promotePartial_def add_segment_def Let_def)

lemma kept_config [simp]:
  "kept (d\<lparr>d_configuredTarget := t\<rparr>) d' = kept d d'" "kept (d\<lparr>d_foreground := f\<rparr>) d' = kept d d'"
  by (simp_all add: kept_def)

lemma finish_fields [simp]:
  "d_segments (finish_turn cfg d) = d_segments d" "d_partial (finish_turn cfg d) = d_partial d"
  by (simp_all add: finish_turn_def scheduleNextTurn_def Let_def split: option.split)

lemma count_fields [simp]:
  "d_segments (countEmptyTurn cfg d) = d_segments d" "d_partial (countEmptyTurn cfg d) = d_partial d"
  by (simp_all add: countEmptyTurn_def Let_def split: option.split)

lemma kept_fail_stop: "kept d (failStop i m d)"
  by (auto simp: failStop_def intro: kept_refl kept_promoted)

lemma kept_issue_stop: "kept d (issueStop cfg i d)"
proof -
  let ?d = "record_call (StopRecognition i) (d\<lparr>d_stopIssued := True\<rparr>)"
  have "kept d (failStop i m ?d)" for m
    using kept_fail_stop [of ?d i m] by (simp add: kept_def)
  then show ?thesis
    by (auto simp: issueStop_def Let_def intro: kept_same split: adapter_result.split)
qed

lemma kept_start_resolved: "kept d (startResolved cfg i d)"
  using kept_issue_stop [of "d\<lparr>d_startResolved := True\<rparr>" cfg i]
  by (auto simp: startResolved_def Let_def kept_def)

lemma kept_interrupt: "kept d (dictation_interrupt r d)"
  by (auto simp: dictation_interrupt_def intro: kept_refl kept_promoted)

lemma kept_stop: "dictation_inv d \<Longrightarrow> kept d (dictation_stop cfg d)"
proof (cases "d_current d")
  case (Some i)
  have "kept d (issueStop cfg i (publish ((stop_tracking d)\<lparr>d_phase := DStopping\<rparr>)))"
    using kept_issue_stop [of "publish ((stop_tracking d)\<lparr>d_phase := DStopping\<rparr>)" cfg i] by (simp add: kept_def)
  with Some show ?thesis by (auto simp: dictation_stop_def Let_def intro: kept_refl kept_same)
qed (auto simp: dictation_stop_def Let_def dictation_inv_def kept_def)

lemma kept_turn_end: "kept d (onRecoverableEnd cfg i r d)"
  by (auto simp: onRecoverableEnd_def Let_def intro: kept_refl kept_promoted)

lemma covering_words: "wordCount p \<le> wordCount (coveringSegment f p)"
  by (simp add: coveringSegment_def)

lemma kept_recognized: "kept d (onRecognizedSegment cfg i t d)"
proof (cases "accepts i d \<and> coveringSegment (js_trim t) (js_trim (d_partial d)) \<noteq> []")
  case True
  then show ?thesis
    by (simp add: onRecognizedSegment_def Let_def kept_def add_segment_def covering_words)
qed (auto simp: onRecognizedSegment_def Let_def kept_turn_end kept_refl)

lemma kept_error: "kept d (onError i c m d)"
  by (auto simp: onError_def intro: kept_refl kept_promoted)

lemma kept_audio: "kept d (onAudioLevel i b d)"
  by (auto simp: onAudioLevel_def Let_def intro: kept_same split: option.split)

lemma kept_timer: "kept d (timer_fired k d)"
  by (auto simp: timer_fired_def Let_def intro: kept_same)

lemma begun_segments: "d_segments (snd (beginTurn cfg d)) = d_segments d"
proof -
  have "d_segments (failStart i m e) = d_segments e" for i m e
    by (simp add: failStart_def)
  moreover have "d_segments (startResolved cfg i e) = d_segments e" if "d_phase e = DStarting" for i e
    using that by (simp add: startResolved_def Let_def)
  ultimately show ?thesis
    by (simp add: beginTurn_def nextRequestId_def Let_def split: adapter_result.split)
qed

lemma kept_restart: "dictation_inv d \<Longrightarrow> kept d (restart_fired cfg k d)"
proof (cases "d_current d = None")
  case True
  assume "dictation_inv d"
  with True have "js_trim (d_partial d) = []" by (simp add: dictation_inv_def js_trim_def)
  moreover have "d_segments (snd (beginTurn cfg (d\<lparr>d_pendingRestart := None\<rparr>))) = d_segments d"
    by (simp add: begun_segments)
  ultimately show ?thesis
    by (auto simp: restart_fired_def Let_def kept_def split: prod.split option.split)
qed (auto simp: restart_fired_def Let_def intro: kept_same)

text \<open>
  C14: nothing the user dictated disappears unless the user cancels or starts over. In every reachable
  state, every event other than the cancel tap, the start tap and a rejected recognizer start leaves the
  recognized segments in place and in order; and unless it is itself a newer partial of the live turn,
  the latest partial is still shown or has become a segment with at least as many words.
\<close>

theorem dictated_text_kept:
  assumes "\<not> may_drop e"
  shows "prefix (d_segments (dictated cfg es)) (d_segments (dictation_step cfg (dictated cfg es) e))
    \<and> ((\<exists>i t. e = Partial i t) \<or> kept (dictated cfg es) (dictation_step cfg (dictated cfg es) e))"
proof -
  have inv: "dictation_inv (dictated cfg es)" by (rule dictating.run_inv [OF inv_new])
  have k: "kept d (dictation_step cfg d e)" if "dictation_inv d" "\<And>i t. e \<noteq> Partial i t" for d
    using that assms
    by (cases "(cfg, d, e)" rule: dictation_step.cases)
      (auto simp: setTarget_def setForeground_def Let_def kept_stop kept_recognized kept_turn_end kept_error kept_audio
        kept_start_resolved kept_fail_stop kept_restart kept_timer kept_interrupt kept_refl
        kept_interrupt [of "d\<lparr>d_configuredTarget := t\<rparr>" for t, simplified]
        kept_interrupt [of "d\<lparr>d_foreground := f\<rparr>" for f, simplified] intro: kept_same)
  show ?thesis
  proof (cases "\<exists>i t. e = Partial i t")
    case True
    then show ?thesis by (auto simp: onPartial_def Let_def)
  next
    case False
    with k [OF inv] show ?thesis by (auto simp: kept_def)
  qed
qed

definition dictation_demo :: dictation_config where
  "dictation_demo = \<lparr>dc_start = (\<lambda>_. Promised), dc_stop = (\<lambda>_. Returned), dc_schedule = (\<lambda>_. None),
     dc_id = (\<lambda>n. replicate (Suc n) CHR ''a''), dc_noTextWarningMs = None, dc_noTextRestartLimit = None\<rparr>"

definition dictation_demo_run :: "dictation_event list" where
  "dictation_demo_run = [SetTarget (Some ''t''), StartTap, StartSettled ''a'' None, Partial ''a'' ''so lets solve it'']"

lemma dictated_text_kept_witness:
  "d_segments (dictation_step dictation_demo (dictated dictation_demo dictation_demo_run) (Recognized ''a'' ''so lets''))
     = [''so lets solve it'']
   \<and> kept (dictated dictation_demo dictation_demo_run)
       (dictation_step dictation_demo (dictated dictation_demo dictation_demo_run) (Recognized ''a'' ''so lets''))"
proof -
  have "\<not> may_drop (Recognized ''a'' ''so lets'')" by simp
  moreover have "d_segments (dictation_step dictation_demo (dictated dictation_demo dictation_demo_run)
    (Recognized ''a'' ''so lets'')) = [''so lets solve it'']" by code_simp
  ultimately show ?thesis
    using dictated_text_kept [where cfg = dictation_demo and es = dictation_demo_run] by blast
qed

lemma dictation_turns_in_order_witness:
  "last (started_ids (d_log (dictated dictation_demo dictation_demo_run))) = ''a''
   \<and> d_requestId (dictated dictation_demo dictation_demo_run) = Some ''a''"
proof -
  have "accepts ''a'' (dictated dictation_demo dictation_demo_run)" by code_simp
  with dictation_turns_in_order [of dictation_demo dictation_demo_run] show ?thesis by (auto simp: Let_def)
qed

text \<open>
  Finding: a recognizer start that is rejected after its turn already produced a partial drops the
  partial, though the controller promises that an error keeps it (\<open>failStart\<close> clears
  \<open>partial\<close> without \<open>promotePartial\<close>).
\<close>

lemma rejected_start_drops_partial:
  "let d = dictated dictation_demo [SetTarget (Some ''t''), StartTap, Partial ''a'' ''hello'', StartSettled ''a'' (Some ''x'')]
   in d_phase d = DError \<and> d_transcript d = [] \<and> d_partial d = [] \<and> \<not> d_userCancelled d"
  by code_simp

subsection \<open>Listening never goes deaf\<close>

definition lively :: "dictation_config \<Rightarrow> dictation \<Rightarrow> bool" where
  "lively cfg d \<longleftrightarrow>
     set (d_usedIds d) \<subseteq> dc_id cfg ` {..<d_asked d}
     \<and> (d_phase d = DListening \<longrightarrow> d_current d \<noteq> None \<or> d_pendingRestart d \<noteq> None)"

lemma tracking_lively [simp]:
  "lively cfg (endNoSpeechTracking d) = lively cfg d" "lively cfg (publish d) = lively cfg d"
  "lively cfg (record_call c d) = lively cfg d" "lively cfg (call_cancel r d) = lively cfg d"
  "lively cfg (armNoTextTimer cfg d) = lively cfg d" "lively cfg (raiseNoSpeech why d) = lively cfg d"
  by (simp_all add: lively_def endNoSpeechTracking_def resetNoSpeechTracking_def publish_def call_cancel_def
      raiseNoSpeech_def split: option.split)

lemma lively_quiet:
  "lively cfg d \<Longrightarrow> d_usedIds d' = d_usedIds d \<Longrightarrow> d_asked d' = d_asked d \<Longrightarrow> d_phase d' \<noteq> DListening \<Longrightarrow> lively cfg d'"
  by (simp add: lively_def)

lemma helper_ids [simp]:
  "d_usedIds (promotePartial d) = d_usedIds d" "d_asked (promotePartial d) = d_asked d"
  "d_usedIds (settleRequest d) = d_usedIds d" "d_asked (settleRequest d) = d_asked d"
  "d_usedIds (stop_tracking d) = d_usedIds d" "d_asked (stop_tracking d) = d_asked d"
  "d_usedIds (endNoSpeechTracking d) = d_usedIds d" "d_asked (endNoSpeechTracking d) = d_asked d"
  "d_usedIds (publish d) = d_usedIds d" "d_asked (publish d) = d_asked d"
  "d_usedIds (countEmptyTurn cfg d) = d_usedIds d" "d_asked (countEmptyTurn cfg d) = d_asked d"
  "d_usedIds (textRecognized cfg d) = d_usedIds d" "d_asked (textRecognized cfg d) = d_asked d"
  "d_usedIds (add_segment t d) = d_usedIds d" "d_asked (add_segment t d) = d_asked d"
  by (simp_all add: dictation_helpers split: option.split)

lemma lively_fail_start: "lively cfg d \<Longrightarrow> lively cfg (failStart i m d)"
  by (auto simp: failStart_def failed_with_def elim!: lively_quiet)

lemma lively_fail_stop: "lively cfg d \<Longrightarrow> lively cfg (failStop i m d)"
  by (auto simp: failStop_def failed_with_def elim!: lively_quiet)

lemma lively_issue_stop: "lively cfg d \<Longrightarrow> lively cfg (issueStop cfg i d)"
  by (auto simp: issueStop_def Let_def intro!: lively_fail_stop split: adapter_result.split) (auto simp: lively_def)

lemma lively_start_resolved: "lively cfg d \<Longrightarrow> lively cfg (startResolved cfg i d)"
  using lively_issue_stop [of cfg "d\<lparr>d_startResolved := True\<rparr>" i]
  by (auto simp: startResolved_def Let_def) (auto simp: lively_def)

text \<open>The ids a client supplies are non-empty and never repeat, as the options ask.\<close>

definition unique_ids :: "dictation_config \<Rightarrow> bool" where
  "unique_ids cfg \<longleftrightarrow> inj (dc_id cfg) \<and> (\<forall>n. dc_id cfg n \<noteq> [])"

lemma lively_begin:
  assumes "unique_ids cfg" and "set (d_usedIds d) \<subseteq> dc_id cfg ` {..<d_asked d}"
  shows "\<exists>i d'. beginTurn cfg d = (Some i, d') \<and> lively cfg d'"
proof -
  let ?i = "dc_id cfg (d_asked d)"
  have "?i \<notin> set (d_usedIds d)" using assms by (auto simp: unique_ids_def dest: injD)
  moreover have "lively cfg (record_call (StartRecognition ?i) (d\<lparr>d_asked := Suc (d_asked d),
    d_usedIds := ?i # d_usedIds d, d_current := Some ?i, d_startResolved := False, d_stopIssued := False,
    d_turnHadText := False, d_phase := DStarting, d_requestId := Some ?i, d_partial := [], d_error := None,
    d_userCancelled := False, d_interrupt := None\<rparr>))"
    using assms(2) by (auto simp: lively_def lessThan_Suc)
  moreover have "?i \<noteq> []" using assms(1) by (simp add: unique_ids_def)
  ultimately show ?thesis
    by (auto simp: beginTurn_def nextRequestId_def Let_def intro!: lively_fail_start lively_start_resolved
        simp del: tracking_lively split: adapter_result.split)
qed

lemma lively_finish:
  assumes "set (d_usedIds d) \<subseteq> dc_id cfg ` {..<d_asked d}"
  shows "lively cfg (finish_turn cfg d)"
proof -
  let ?d = "record_call (Schedule (Suc (d_restartToken d)))
    ((d\<lparr>d_revision := Suc (d_revision d), d_phase := DListening\<rparr>)\<lparr>d_restartToken := Suc (d_restartToken d)\<rparr>)"
  have "lively cfg ((endNoSpeechTracking (?d\<lparr>d_desired := False\<rparr>))\<lparr>d_phase := DError, d_error := e\<rparr>)" for e
    using assms by (simp add: lively_def)
  then show ?thesis
    using assms
    by (auto simp: finish_turn_def scheduleNextTurn_def publish_def Let_def lively_def split: option.split)
qed

lemma lively_restart:
  assumes "unique_ids cfg" and "lively cfg d" and "dictation_inv d"
  shows "lively cfg (restart_fired cfg k d)"
proof (cases "map_option fst (d_pendingRestart d) = Some k")
  case True
  then have "d_desired d" "d_phase d = DListening" "d_current d = None"
    using assms(3) by (auto simp: dictation_inv_def)
  moreover obtain i d' where "beginTurn cfg (d\<lparr>d_pendingRestart := None\<rparr>) = (Some i, d')" "lively cfg d'"
    using lively_begin [of cfg "d\<lparr>d_pendingRestart := None\<rparr>"] assms(1,2) by (auto simp: lively_def)
  ultimately show ?thesis using True by (simp add: restart_fired_def)
qed (simp add: restart_fired_def assms(2))

lemma lively_start:
  assumes "unique_ids cfg" and "lively cfg d"
  shows "lively cfg (dictation_start cfg d)"
proof -
  let ?d = "(resetNoSpeechTracking (fresh_snapshot ((cancelPendingRestart d)\<lparr>d_desired := True\<rparr>)))\<lparr>d_textThisRun := False\<rparr>"
  have "set (d_usedIds ?d) \<subseteq> dc_id cfg ` {..<d_asked ?d}"
    using assms(2) by (simp add: lively_def resetNoSpeechTracking_def fresh_snapshot_def)
  from lively_begin [OF assms(1) this] show ?thesis
    using assms(2) by (auto simp: dictation_start_def)
qed

lemma lively_halt:
  "lively cfg d \<Longrightarrow> lively cfg (dictation_interrupt r d)" "lively cfg d \<Longrightarrow> lively cfg (dictation_cancel d)"
  by (auto simp: dictation_interrupt_def dictation_cancel_def elim!: lively_quiet)

lemma lively_stop: "lively cfg d \<Longrightarrow> lively cfg (dictation_stop cfg d)"
  by (auto simp: dictation_stop_def publish_def Let_def intro!: lively_issue_stop elim!: lively_quiet split: option.split)

lemma lively_callbacks:
  assumes "lively cfg d"
  shows "lively cfg (onPartial cfg i t d)" "lively cfg (onAudioLevel i b d)" "lively cfg (onRecoverableEnd cfg i r d)"
    "lively cfg (onRecognizedSegment cfg i t d)" "lively cfg (onError i c m d)" "lively cfg (timer_fired k d)"
proof -
  have ids: "set (d_usedIds d) \<subseteq> dc_id cfg ` {..<d_asked d}" using assms by (simp add: lively_def)
  show "lively cfg (onRecoverableEnd cfg i r d)" for i r
    using assms ids by (auto simp: onRecoverableEnd_def Let_def intro!: lively_finish)
  then show "lively cfg (onRecognizedSegment cfg i t d)"
    using assms ids by (auto simp: onRecognizedSegment_def Let_def intro!: lively_finish)
  show "lively cfg (onPartial cfg i t d)"
    using assms by (auto simp: onPartial_def textRecognized_def publish_def Let_def lively_def)
  show "lively cfg (onAudioLevel i b d)"
    using assms by (auto simp: onAudioLevel_def publish_def Let_def lively_def split: option.split)
  show "lively cfg (onError i c m d)"
    using assms by (auto simp: onError_def failed_with_def elim!: lively_quiet)
  show "lively cfg (timer_fired k d)"
    using assms by (auto simp: timer_fired_def publish_def raiseNoSpeech_def Let_def lively_def)
qed

interpretation awake: machine "dictation_step cfg" "\<lambda>d. dictation_inv d \<and> (unique_ids cfg \<longrightarrow> lively cfg d)" for cfg
proof unfold_locales
  fix d e
  assume d: "dictation_inv d \<and> (unique_ids cfg \<longrightarrow> lively cfg d)"
  have cong: "lively cfg (d\<lparr>d_configuredTarget := t\<rparr>) = lively cfg d" "lively cfg (d\<lparr>d_foreground := f\<rparr>) = lively cfg d" for t f
    by (simp_all add: lively_def)
  have "lively cfg (dictation_step cfg d e)" if "unique_ids cfg"
    using d that
    by (cases "(cfg, d, e)" rule: dictation_step.cases)
      (simp_all add: setTarget_def setForeground_def Let_def cong lively_halt lively_start lively_stop lively_callbacks
        lively_start_resolved lively_fail_start lively_fail_stop lively_restart)
  with d show "dictation_inv (dictation_step cfg d e) \<and> (unique_ids cfg \<longrightarrow> lively cfg (dictation_step cfg d e))"
    by (simp add: dictating.step_inv)
qed

text \<open>
  C15: listening never goes deaf. As long as the request ids are non-empty and unique, in every
  reachable state that shows \<open>listening\<close> a recognizer turn is running or its restart is scheduled;
  and once a run has ended nothing is running, scheduled or timed any more.
\<close>

theorem dictation_never_deaf:
  assumes "unique_ids cfg"
  shows "(d_phase (dictated cfg es) = DListening \<longrightarrow>
       d_current (dictated cfg es) \<noteq> None \<or> d_pendingRestart (dictated cfg es) \<noteq> None)
    \<and> (\<not> isActive (dictated cfg es) \<longrightarrow>
       d_current (dictated cfg es) = None \<and> d_pendingRestart (dictated cfg es) = None \<and> d_timer (dictated cfg es) = None)"
proof -
  have "lively cfg new_dictation" by (simp add: lively_def new_dictation_def)
  then have "dictation_inv (dictated cfg es)" "lively cfg (dictated cfg es)"
    using awake.run_inv [of new_dictation cfg es] inv_new assms by auto
  then show ?thesis
    by (auto simp: lively_def dictation_inv_def isActive_def hearing_def)
qed

lemma dictation_never_deaf_witness:
  "d_phase (dictated dictation_demo dictation_demo_run) = DListening
   \<and> d_current (dictated dictation_demo dictation_demo_run) \<noteq> None"
proof -
  have "inj (dc_id dictation_demo)"
  proof (rule injI)
    fix m n
    assume "dc_id dictation_demo m = dc_id dictation_demo n"
    then have "length (dc_id dictation_demo m) = length (dc_id dictation_demo n)" by (rule arg_cong)
    then show "m = n" by (simp add: dictation_demo_def)
  qed
  then have "unique_ids dictation_demo" by (simp add: unique_ids_def dictation_demo_def)
  moreover have listening: "d_phase (dictated dictation_demo dictation_demo_run) = DListening"
    "d_pendingRestart (dictated dictation_demo dictation_demo_run) = None" by code_simp+
  ultimately show ?thesis using dictation_never_deaf [of dictation_demo dictation_demo_run] by simp
qed

end
