(* ===== verification/Vault_Format.thy ===== *)
theory Vault_Format
  imports Base64 Js_Strings "HOL-Library.List_Lexorder" "HOL-Library.Char_ord"
begin

text \<open>
  The wire format of the key vault (src/src/keyVault/format.ts and types.ts): the header slot, the
  key blobs and the decrypted index, their strict parsers and their serialisers. Texts are what
  \<open>JSON.parse\<close> makes of them; \<open>Date.parse\<close> accepting a string is the parameter
  \<open>date\<close>.
\<close>

subsection \<open>Data\<close>

definition VAULT_FORMAT_VERSION :: int where "VAULT_FORMAT_VERSION = 1"
definition VAULT_HEADER_SLOT :: string where "VAULT_HEADER_SLOT = ''vault''"
definition VAULT_KEY_SLOT_PREFIX :: string where "VAULT_KEY_SLOT_PREFIX = ''vk-''"
definition VAULT_SLOT_LIMIT_BYTES :: int where "VAULT_SLOT_LIMIT_BYTES = 8 * 1024"
definition VAULT_AAD_DEK :: string where "VAULT_AAD_DEK = ''pocketshell-vault/v1/dek|''"
definition VAULT_AAD_CHECK :: string where "VAULT_AAD_CHECK = ''pocketshell-vault/v1/check|''"
definition VAULT_AAD_INDEX :: string where "VAULT_AAD_INDEX = ''pocketshell-vault/v1/index|''"
definition VAULT_AAD_KEY :: string where "VAULT_AAD_KEY = ''pocketshell-vault/v1/key|''"
definition VAULT_AAD_PUB :: string where "VAULT_AAD_PUB = ''pocketshell-vault/v1/pub|''"
definition VAULT_CHECK_PLAINTEXT :: string where "VAULT_CHECK_PLAINTEXT = ''pocketshell-vault-check-v1''"
definition VAULT_KDF_MIN_M :: int where "VAULT_KDF_MIN_M = 32768"
definition VAULT_KDF_MAX_M :: int where "VAULT_KDF_MAX_M = 262144"
definition VAULT_KDF_MIN_T :: int where "VAULT_KDF_MIN_T = 3"
definition VAULT_KDF_MAX_T :: int where "VAULT_KDF_MAX_T = 10"
definition VAULT_KDF_MAX_P :: int where "VAULT_KDF_MAX_P = 8"
definition VAULT_NAME_MAX :: nat where "VAULT_NAME_MAX = 256"

record vault_kdf =
  kd_m :: int
  kd_t :: int
  kd_p :: int
  kd_salt :: string

definition VAULT_KDF_DEFAULT :: "int \<times> int \<times> int" where "VAULT_KDF_DEFAULT = (65536, 3, 1)"

record vault_sealed =
  sl_n :: string
  sl_ct :: string

record vault_header =
  vh_vaultId :: string
  vh_kdf :: vault_kdf
  vh_wrappedDek :: vault_sealed
  vh_check :: vault_sealed
  vh_index :: vault_sealed
  vh_epoch :: int
  vh_updatedAt :: string

record vault_blob =
  bl_vaultId :: string
  bl_keyId :: string
  bl_sealed :: vault_sealed
  bl_pub :: "vault_sealed option"

datatype gateway_policy = AuthHost | AuthManaged | AuthBoth
datatype vault_entry_type = SshEd25519 | EcdsaP256 | EcdsaP384 | EcdsaP521 | SshRsa | PasswordEntry

record host_binding =
  hb_keyId :: string
  hb_gatewayAuth :: gateway_policy

record vault_entry =
  ke_keyId :: string
  ke_name :: string
  ke_type :: vault_entry_type
  ke_fingerprint :: "string option"
  ke_createdAt :: string
  ke_rotatedFrom :: "string option"

record vault_index =
  vi_keys :: "vault_entry list"
  vi_hosts :: "(string \<times> host_binding) list"
  vi_sync :: "string option"

subsection \<open>Fields\<close>

definition vaultKeySlot :: "string \<Rightarrow> string" where
  "vaultKeySlot keyId = VAULT_KEY_SLOT_PREFIX @ keyId"

fun isB64Len :: "js \<Rightarrow> nat \<Rightarrow> string option" where
  "isB64Len (Str s) n = (case fromB64url s of Some bs \<Rightarrow> if length bs = n then Some s else None | None \<Rightarrow> None)"
| "isB64Len _ n = None"

definition isId16 :: "js \<Rightarrow> string option" where
  "isId16 v = isB64Len v 16"

definition id16 :: "string \<Rightarrow> bool" where
  "id16 s \<longleftrightarrow> isId16 (Str s) = Some s"

definition keyIdFromSlot :: "string \<Rightarrow> string option" where
  "keyIdFromSlot slot =
     (if \<not> starts_with slot VAULT_KEY_SLOT_PREFIX then None
      else isId16 (Str (drop (length VAULT_KEY_SLOT_PREFIX) slot)))"

fun parseSealed :: "js \<Rightarrow> nat \<Rightarrow> vault_sealed option" where
  "parseSealed (Obj fs) minCt =
     (case (isB64Len (get_prop fs ''n'') 12, get_prop fs ''ct'') of
        (Some n, Str ct) \<Rightarrow>
          (case fromB64url ct of
             Some bs \<Rightarrow> if length bs < minCt + 16 then None else Some \<lparr>sl_n = n, sl_ct = ct\<rparr>
           | None \<Rightarrow> None)
      | _ \<Rightarrow> None)"
| "parseSealed _ minCt = None"

fun isIsoTime :: "(string \<Rightarrow> bool) \<Rightarrow> js \<Rightarrow> string option" where
  "isIsoTime date (Str s) = (if length s \<le> 64 \<and> date s then Some s else None)"
| "isIsoTime date _ = None"

fun isBoundedInt :: "js \<Rightarrow> int \<Rightarrow> int \<Rightarrow> int option" where
  "isBoundedInt (Num (IntN i)) lo hi =
     (if is_safe_integer (IntN i) \<and> lo \<le> i \<and> i \<le> hi then Some i else None)"
| "isBoundedInt _ lo hi = None"

fun parseKdfParams :: "js \<Rightarrow> vault_kdf option" where
  "parseKdfParams (Obj fs) =
     (if get_prop fs ''alg'' \<noteq> Str ''argon2id'' then None
      else
        case (isBoundedInt (get_prop fs ''m'') VAULT_KDF_MIN_M VAULT_KDF_MAX_M,
              isBoundedInt (get_prop fs ''t'') VAULT_KDF_MIN_T VAULT_KDF_MAX_T,
              isBoundedInt (get_prop fs ''p'') 1 VAULT_KDF_MAX_P,
              isId16 (get_prop fs ''salt'')) of
          (Some m, Some t, Some p, Some salt) \<Rightarrow> Some \<lparr>kd_m = m, kd_t = t, kd_p = p, kd_salt = salt\<rparr>
        | _ \<Rightarrow> None)"
| "parseKdfParams _ = None"

fun vaultFormatVersionOf :: "json_text \<Rightarrow> int option" where
  "vaultFormatVersionOf (Some (Obj fs)) =
     (case get_prop fs ''v'' of
        Num (IntN i) \<Rightarrow> if is_safe_integer (IntN i) then Some i else None
      | _ \<Rightarrow> None)"
| "vaultFormatVersionOf _ = None"

definition trimEnd :: "string \<Rightarrow> string" where
  "trimEnd s = trim_right js_space s"

text \<open>No code unit below 256 is half of a surrogate pair.\<close>

definition clampVaultName :: "string \<Rightarrow> string \<Rightarrow> string" where
  "clampVaultName name fallback =
     (let t = js_trim name;
          out = (if VAULT_NAME_MAX < length t then trimEnd (take VAULT_NAME_MAX t) else t) in
      if out = [] then fallback else out)"

subsection \<open>The header\<close>

fun parseVaultHeader :: "(string \<Rightarrow> bool) \<Rightarrow> json_text \<Rightarrow> vault_header option" where
  "parseVaultHeader date (Some (Obj raw)) =
     (if get_prop raw ''v'' \<noteq> Num (IntN VAULT_FORMAT_VERSION) then None
      else
        case (isId16 (get_prop raw ''vaultId''), parseKdfParams (get_prop raw ''kdf''),
              parseSealed (get_prop raw ''wrappedDek'') 32, parseSealed (get_prop raw ''check'') 0,
              parseSealed (get_prop raw ''index'') 0, isBoundedInt (get_prop raw ''epoch'') 1 max_safe_integer,
              isIsoTime date (get_prop raw ''updatedAt'')) of
          (Some vaultId, Some kdf, Some wrappedDek, Some check, Some index, Some epoch, Some updatedAt) \<Rightarrow>
            Some \<lparr>vh_vaultId = vaultId, vh_kdf = kdf, vh_wrappedDek = wrappedDek, vh_check = check,
              vh_index = index, vh_epoch = epoch, vh_updatedAt = updatedAt\<rparr>
        | _ \<Rightarrow> None)"
| "parseVaultHeader date _ = None"

definition kdf_js :: "vault_kdf \<Rightarrow> js" where
  "kdf_js k = Obj [(''alg'', Str ''argon2id''), (''m'', Num (IntN (kd_m k))), (''t'', Num (IntN (kd_t k))),
     (''p'', Num (IntN (kd_p k))), (''salt'', Str (kd_salt k))]"

definition sealed_js :: "vault_sealed \<Rightarrow> js" where
  "sealed_js x = Obj [(''n'', Str (sl_n x)), (''ct'', Str (sl_ct x))]"

definition serializeVaultHeader :: "vault_header \<Rightarrow> json_text" where
  "serializeVaultHeader h = json_stringify (Obj
     [(''v'', Num (IntN VAULT_FORMAT_VERSION)), (''vaultId'', Str (vh_vaultId h)), (''kdf'', kdf_js (vh_kdf h)),
      (''wrappedDek'', sealed_js (vh_wrappedDek h)), (''check'', sealed_js (vh_check h)),
      (''index'', sealed_js (vh_index h)), (''epoch'', Num (IntN (vh_epoch h))), (''updatedAt'', Str (vh_updatedAt h))])"

subsection \<open>Key blobs\<close>

fun parseVaultKeyBlob :: "json_text \<Rightarrow> (string \<times> string) option \<Rightarrow> vault_blob option" where
  "parseVaultKeyBlob (Some (Obj raw)) expect =
     (if get_prop raw ''v'' \<noteq> Num (IntN VAULT_FORMAT_VERSION) then None
      else
        case (isId16 (get_prop raw ''vaultId''), isId16 (get_prop raw ''keyId''), parseSealed (Obj raw) 1) of
          (Some vaultId, Some keyId, Some box) \<Rightarrow>
            if expect \<noteq> None \<and> expect \<noteq> Some (vaultId, keyId) then None
            else if get_prop raw ''pub'' = Undef
            then Some \<lparr>bl_vaultId = vaultId, bl_keyId = keyId, bl_sealed = box, bl_pub = None\<rparr>
            else (case parseSealed (get_prop raw ''pub'') 1 of
                    None \<Rightarrow> None
                  | Some pub \<Rightarrow> Some \<lparr>bl_vaultId = vaultId, bl_keyId = keyId, bl_sealed = box, bl_pub = Some pub\<rparr>)
        | _ \<Rightarrow> None)"
| "parseVaultKeyBlob _ expect = None"

definition serializeVaultKeyBlob :: "vault_blob \<Rightarrow> json_text" where
  "serializeVaultKeyBlob b = json_stringify (Obj
     ([(''v'', Num (IntN VAULT_FORMAT_VERSION)), (''vaultId'', Str (bl_vaultId b)), (''keyId'', Str (bl_keyId b)),
       (''n'', Str (sl_n (bl_sealed b))), (''ct'', Str (sl_ct (bl_sealed b)))]
      @ (case bl_pub b of None \<Rightarrow> [] | Some pub \<Rightarrow> [(''pub'', sealed_js pub)])))"

subsection \<open>The index\<close>

fun type_name :: "vault_entry_type \<Rightarrow> string" where
  "type_name SshEd25519 = ''ssh-ed25519''"
| "type_name EcdsaP256 = ''ecdsa-sha2-nistp256''"
| "type_name EcdsaP384 = ''ecdsa-sha2-nistp384''"
| "type_name EcdsaP521 = ''ecdsa-sha2-nistp521''"
| "type_name SshRsa = ''ssh-rsa''"
| "type_name PasswordEntry = ''password''"

definition ENTRY_TYPES :: "vault_entry_type list" where
  "ENTRY_TYPES = [SshEd25519, EcdsaP256, EcdsaP384, EcdsaP521, SshRsa, PasswordEntry]"

definition entry_type :: "js \<Rightarrow> vault_entry_type option" where
  "entry_type v = find (\<lambda>t. v = Str (type_name t)) ENTRY_TYPES"

fun policy_name :: "gateway_policy \<Rightarrow> string" where
  "policy_name AuthHost = ''host''"
| "policy_name AuthManaged = ''managed''"
| "policy_name AuthBoth = ''both''"

definition isGatewayAuthPolicy :: "js \<Rightarrow> gateway_policy option" where
  "isGatewayAuthPolicy v = find (\<lambda>p. v = Str (policy_name p)) [AuthHost, AuthManaged, AuthBoth]"

definition fingerprint_re :: "string \<Rightarrow> bool" where
  "fingerprint_re s \<longleftrightarrow> starts_with s ''SHA256:'' \<and> length s = 50 \<and> list_all (\<lambda>c. c \<in> set b64_table) (drop 7 s)"

definition entry_fingerprint :: "vault_entry_type \<Rightarrow> js \<Rightarrow> string option option" where
  "entry_fingerprint t v =
     (if t = PasswordEntry then (if v = Undef then Some None else None)
      else (case v of Str s \<Rightarrow> if fingerprint_re s then Some (Some s) else None | _ \<Rightarrow> None))"

definition entry_rotated :: "js \<Rightarrow> string option option" where
  "entry_rotated v = (if v = Undef then Some None else map_option Some (isId16 v))"

fun entry_name :: "js \<Rightarrow> string option" where
  "entry_name (Str s) = (if VAULT_NAME_MAX < length s then None else Some s)"
| "entry_name _ = None"

fun parseKeyEntry :: "(string \<Rightarrow> bool) \<Rightarrow> js \<Rightarrow> vault_entry option" where
  "parseKeyEntry date (Obj fs) =
     (case (isId16 (get_prop fs ''keyId''), entry_name (get_prop fs ''name''), entry_type (get_prop fs ''type''),
            isIsoTime date (get_prop fs ''createdAt'')) of
        (Some keyId, Some name, Some t, Some createdAt) \<Rightarrow>
          (case (entry_fingerprint t (get_prop fs ''fingerprint''), entry_rotated (get_prop fs ''rotatedFrom'')) of
             (Some fingerprint, Some rotatedFrom) \<Rightarrow>
               Some \<lparr>ke_keyId = keyId, ke_name = name, ke_type = t, ke_fingerprint = fingerprint,
                 ke_createdAt = createdAt, ke_rotatedFrom = rotatedFrom\<rparr>
           | _ \<Rightarrow> None)
      | _ \<Rightarrow> None)"
| "parseKeyEntry date _ = None"

fun parseBinding :: "js \<Rightarrow> host_binding option" where
  "parseBinding (Obj fs) =
     (case (isId16 (get_prop fs ''keyId''), isGatewayAuthPolicy (get_prop fs ''gatewayAuth'')) of
        (Some keyId, Some policy) \<Rightarrow> Some \<lparr>hb_keyId = keyId, hb_gatewayAuth = policy\<rparr>
      | _ \<Rightarrow> None)"
| "parseBinding _ = None"

fun parse_entries :: "(string \<Rightarrow> bool) \<Rightarrow> string list \<Rightarrow> js list \<Rightarrow> vault_entry list option" where
  "parse_entries date seen [] = Some []"
| "parse_entries date seen (item # items) =
     (case parseKeyEntry date item of
        None \<Rightarrow> None
      | Some entry \<Rightarrow>
          if ke_keyId entry \<in> set seen then None
          else map_option ((#) entry) (parse_entries date (ke_keyId entry # seen) items))"

definition bad_alias :: "string \<Rightarrow> bool" where
  "bad_alias alias \<longleftrightarrow> alias = [] \<or> alias = ''__proto__''"

fun parse_hosts :: "fields \<Rightarrow> (string \<times> host_binding) list option" where
  "parse_hosts [] = Some []"
| "parse_hosts ((alias, item) # rest) =
     (case parseBinding item of
        None \<Rightarrow> None
      | Some binding \<Rightarrow> if bad_alias alias then None else map_option ((#) (alias, binding)) (parse_hosts rest))"

fun parse_sync :: "js \<Rightarrow> string option option" where
  "parse_sync Undef = Some None"
| "parse_sync (Obj fs) = (case get_prop fs ''passphrase'' of Str p \<Rightarrow> Some (Some p) | _ \<Rightarrow> None)"
| "parse_sync _ = None"

fun parseVaultIndex :: "(string \<Rightarrow> bool) \<Rightarrow> json_text \<Rightarrow> vault_index option" where
  "parseVaultIndex date (Some (Obj raw)) =
     (case (get_prop raw ''keys'', get_prop raw ''hosts'') of
        (Arr items, Obj hosts) \<Rightarrow>
          (case (parse_entries date [] items, parse_hosts hosts, parse_sync (get_prop raw ''sync'')) of
             (Some ks, Some hs, Some sync) \<Rightarrow> Some \<lparr>vi_keys = ks, vi_hosts = hs, vi_sync = sync\<rparr>
           | _ \<Rightarrow> None)
      | _ \<Rightarrow> None)"
| "parseVaultIndex date _ = None"

definition entry_js :: "vault_entry \<Rightarrow> js" where
  "entry_js e = Obj ([(''keyId'', Str (ke_keyId e)), (''name'', Str (ke_name e)), (''type'', Str (type_name (ke_type e)))]
     @ (case ke_fingerprint e of None \<Rightarrow> [] | Some f \<Rightarrow> [(''fingerprint'', Str f)])
     @ [(''createdAt'', Str (ke_createdAt e))]
     @ (case ke_rotatedFrom e of None \<Rightarrow> [] | Some r \<Rightarrow> [(''rotatedFrom'', Str r)]))"

definition binding_js :: "host_binding \<Rightarrow> js" where
  "binding_js b = Obj [(''keyId'', Str (hb_keyId b)), (''gatewayAuth'', Str (policy_name (hb_gatewayAuth b)))]"

text \<open>\<open>Object.keys(index.hosts).sort()\<close> orders aliases by code unit.\<close>

definition sorted_hosts :: "(string \<times> host_binding) list \<Rightarrow> (string \<times> host_binding) list" where
  "sorted_hosts hs = sort_key fst hs"

definition serializeVaultIndex :: "vault_index \<Rightarrow> json_text" where
  "serializeVaultIndex ix = json_stringify (Obj
     ([(''keys'', Arr (map entry_js (vi_keys ix))),
       (''hosts'', Obj (map (\<lambda>(a, b). (a, binding_js b)) (sorted_hosts (vi_hosts ix))))]
      @ (case vi_sync ix of None \<Rightarrow> [] | Some p \<Rightarrow> [(''sync'', Obj [(''passphrase'', Str p)])])))"

definition indexRoundTrips :: "(string \<Rightarrow> bool) \<Rightarrow> vault_index \<Rightarrow> bool" where
  "indexRoundTrips date ix \<longleftrightarrow> parseVaultIndex date (serializeVaultIndex ix) \<noteq> None"

subsection \<open>Round trips\<close>

definition sealed_ok :: "nat \<Rightarrow> vault_sealed \<Rightarrow> bool" where
  "sealed_ok minCt x \<longleftrightarrow> isB64Len (Str (sl_n x)) 12 = Some (sl_n x)
     \<and> (case fromB64url (sl_ct x) of Some bs \<Rightarrow> minCt + 16 \<le> length bs | None \<Rightarrow> False)"

definition kdf_ok :: "vault_kdf \<Rightarrow> bool" where
  "kdf_ok k \<longleftrightarrow> VAULT_KDF_MIN_M \<le> kd_m k \<and> kd_m k \<le> VAULT_KDF_MAX_M \<and> VAULT_KDF_MIN_T \<le> kd_t k
     \<and> kd_t k \<le> VAULT_KDF_MAX_T \<and> 1 \<le> kd_p k \<and> kd_p k \<le> VAULT_KDF_MAX_P \<and> id16 (kd_salt k)"

definition header_ok :: "(string \<Rightarrow> bool) \<Rightarrow> vault_header \<Rightarrow> bool" where
  "header_ok date h \<longleftrightarrow> id16 (vh_vaultId h) \<and> kdf_ok (vh_kdf h) \<and> sealed_ok 32 (vh_wrappedDek h)
     \<and> sealed_ok 0 (vh_check h) \<and> sealed_ok 0 (vh_index h) \<and> 1 \<le> vh_epoch h \<and> vh_epoch h \<le> max_safe_integer
     \<and> length (vh_updatedAt h) \<le> 64 \<and> date (vh_updatedAt h)"

lemma isB64Len_SomeD: "isB64Len v n = Some s \<Longrightarrow> v = Str s \<and> isB64Len (Str s) n = Some s"
  by (cases v) (auto split: option.splits if_splits)

lemma isId16_SomeD: "isId16 v = Some s \<Longrightarrow> v = Str s \<and> id16 s"
  by (auto simp: isId16_def id16_def dest: isB64Len_SomeD)

lemma parseSealed_SomeD:
  assumes "parseSealed v n = Some x"
  shows "sealed_ok n x"
proof (cases v)
  case (Obj fs)
  with assms obtain m ct bs where "isB64Len (get_prop fs ''n'') 12 = Some m" "fromB64url ct = Some bs"
    "n + 16 \<le> length bs" "x = \<lparr>sl_n = m, sl_ct = ct\<rparr>"
    by (auto simp del: isB64Len.simps split: option.splits js.splits if_splits)
  then show ?thesis by (simp add: sealed_ok_def isB64Len_SomeD del: isB64Len.simps)
qed (use assms in simp_all)

lemma bounded_SomeD: "isBoundedInt v lo hi = Some i \<Longrightarrow> v = Num (IntN i) \<and> lo \<le> i \<and> i \<le> hi \<and> is_safe_integer (IntN i)"
  by (cases "(v, lo, hi)" rule: isBoundedInt.cases) (auto split: if_splits)

lemma iso_SomeD: "isIsoTime date v = Some s \<Longrightarrow> v = Str s \<and> length s \<le> 64 \<and> date s"
  by (cases v) (auto split: if_splits)

lemma parseKdf_SomeD: "parseKdfParams v = Some k \<Longrightarrow> kdf_ok k"
  using bounded_SomeD isId16_SomeD
  by (cases v) (fastforce simp: kdf_ok_def split: if_splits option.splits)+

lemma id16_parse [simp]: "id16 s \<Longrightarrow> isId16 (Str s) = Some s"
  by (simp add: id16_def)

lemma safe_bounds: "1 \<le> i \<Longrightarrow> i \<le> max_safe_integer \<Longrightarrow> is_safe_integer (IntN i)"
  by (simp add: max_safe_integer_def)

lemma sealed_fields:
  assumes "sealed_ok n x" and "get_prop fs ''n'' = Str (sl_n x)" and "get_prop fs ''ct'' = Str (sl_ct x)"
  shows "parseSealed (Obj fs) n = Some x"
proof -
  obtain bs where "fromB64url (sl_ct x) = Some bs" "n + 16 \<le> length bs"
    using assms(1) by (auto simp: sealed_ok_def split: option.splits)
  then show ?thesis using assms by (simp add: sealed_ok_def)
qed

lemma sealed_parse [simp]: "sealed_ok n x \<Longrightarrow> parseSealed (sealed_js x) n = Some x"
  unfolding sealed_js_def by (rule sealed_fields) (simp_all add: get_prop_def)

lemma kdf_parse [simp]: "kdf_ok k \<Longrightarrow> parseKdfParams (kdf_js k) = Some k"
  by (simp add: kdf_js_def kdf_ok_def get_prop_def max_safe_integer_def VAULT_KDF_MIN_M_def VAULT_KDF_MAX_M_def
      VAULT_KDF_MIN_T_def VAULT_KDF_MAX_T_def VAULT_KDF_MAX_P_def)

lemma norm_simps [simp]: "json_norm (sealed_js x) = sealed_js x" "json_norm (kdf_js k) = kdf_js k"
  "sealed_js x \<noteq> Undef" "kdf_js k \<noteq> Undef"
  by (simp_all add: sealed_js_def kdf_js_def)

lemma header_ok_parse: "header_ok date h \<Longrightarrow> parseVaultHeader date (serializeVaultHeader h) = Some h"
  by (simp add: serializeVaultHeader_def json_stringify_def header_ok_def get_prop_def safe_bounds)

lemma parseHeader_ok:
  assumes "parseVaultHeader date t = Some h"
  shows "header_ok date h"
proof (cases "(date, t)" rule: parseVaultHeader.cases)
  case (1 d raw)
  with assms show ?thesis
    by (auto simp: header_ok_def split: if_splits option.splits
        dest!: isId16_SomeD parseKdf_SomeD parseSealed_SomeD bounded_SomeD iso_SomeD)
qed (use assms in auto)

lemma header_roundtrips: "parseVaultHeader date (serializeVaultHeader h) = Some h \<longleftrightarrow> header_ok date h"
  using header_ok_parse parseHeader_ok by blast

subsubsection \<open>Blobs\<close>

definition blob_ok :: "vault_blob \<Rightarrow> bool" where
  "blob_ok b \<longleftrightarrow> id16 (bl_vaultId b) \<and> id16 (bl_keyId b) \<and> sealed_ok 1 (bl_sealed b)
     \<and> (case bl_pub b of None \<Rightarrow> True | Some pub \<Rightarrow> sealed_ok 1 pub)"

lemma blob_ok_parse:
  assumes "blob_ok b" and "expect = None \<or> expect = Some (bl_vaultId b, bl_keyId b)"
  shows "parseVaultKeyBlob (serializeVaultKeyBlob b) expect = Some b"
proof -
  have "parseSealed (Obj ([(''v'', Num (IntN VAULT_FORMAT_VERSION)), (''vaultId'', Str (bl_vaultId b)),
      (''keyId'', Str (bl_keyId b)), (''n'', Str (sl_n (bl_sealed b))), (''ct'', Str (sl_ct (bl_sealed b)))] @ rest)) 1
    = Some (bl_sealed b)" for rest
    using assms(1) by (intro sealed_fields) (simp_all add: blob_ok_def get_prop_def)
  from this [of "[]"] this [of "[(''pub'', p)]" for p] show ?thesis
    using assms
    by (cases "bl_pub b")
      (auto simp: serializeVaultKeyBlob_def json_stringify_def blob_ok_def get_prop_def simp del: parseSealed.simps)
qed

lemma parseBlob_ok:
  assumes "parseVaultKeyBlob t expect = Some b"
  shows "blob_ok b \<and> (expect = None \<or> expect = Some (bl_vaultId b, bl_keyId b))"
proof (cases "(t, expect)" rule: parseVaultKeyBlob.cases)
  case (1 raw e)
  with assms show ?thesis
    by (cases e) (auto simp: blob_ok_def simp del: parseSealed.simps split: if_splits option.splits
        dest!: isId16_SomeD parseSealed_SomeD)
qed (use assms in auto)

lemma blob_roundtrips:
  "parseVaultKeyBlob (serializeVaultKeyBlob b) expect = Some b \<longleftrightarrow>
     blob_ok b \<and> (expect = None \<or> expect = Some (bl_vaultId b, bl_keyId b))"
  using blob_ok_parse parseBlob_ok by blast

subsubsection \<open>The index\<close>

definition entry_ok :: "(string \<Rightarrow> bool) \<Rightarrow> vault_entry \<Rightarrow> bool" where
  "entry_ok date e \<longleftrightarrow> id16 (ke_keyId e) \<and> length (ke_name e) \<le> VAULT_NAME_MAX
     \<and> length (ke_createdAt e) \<le> 64 \<and> date (ke_createdAt e)
     \<and> (case ke_fingerprint e of None \<Rightarrow> ke_type e = PasswordEntry | Some f \<Rightarrow> ke_type e \<noteq> PasswordEntry \<and> fingerprint_re f)
     \<and> (case ke_rotatedFrom e of None \<Rightarrow> True | Some r \<Rightarrow> id16 r)"

definition binding_ok :: "string \<times> host_binding \<Rightarrow> bool" where
  "binding_ok p \<longleftrightarrow> \<not> bad_alias (fst p) \<and> id16 (hb_keyId (snd p))"

definition index_ok :: "(string \<Rightarrow> bool) \<Rightarrow> vault_index \<Rightarrow> bool" where
  "index_ok date ix \<longleftrightarrow> list_all (entry_ok date) (vi_keys ix) \<and> distinct (map ke_keyId (vi_keys ix))
     \<and> list_all binding_ok (vi_hosts ix)"

lemma entry_type_name [simp]: "entry_type (Str (type_name t)) = Some t"
  by (cases t) (simp_all add: entry_type_def ENTRY_TYPES_def)

lemma password_entry [simp]: "entry_type (Str ''password'') = Some PasswordEntry"
  using entry_type_name [of PasswordEntry] by simp

lemma policy_parse [simp]: "isGatewayAuthPolicy (Str (policy_name p)) = Some p"
  by (cases p) (simp_all add: isGatewayAuthPolicy_def)

lemma norm_entry [simp]: "json_norm (entry_js e) = entry_js e" "json_norm (binding_js b) = binding_js b"
  "entry_js e \<noteq> Undef" "binding_js b \<noteq> Undef"
  by (auto simp: entry_js_def binding_js_def split: option.split)

lemma entry_parse: "entry_ok date e \<Longrightarrow> parseKeyEntry date (entry_js e) = Some e"
  by (cases "ke_fingerprint e"; cases "ke_rotatedFrom e")
    (simp_all add: entry_ok_def entry_js_def get_prop_def entry_fingerprint_def entry_rotated_def)

lemma parseEntry_ok:
  assumes "parseKeyEntry date v = Some e"
  shows "entry_ok date e"
proof (cases v)
  case (Obj fs)
  have name: "entry_name w = Some n \<Longrightarrow> length n \<le> VAULT_NAME_MAX" for w n
    by (cases w) (auto split: if_splits)
  have fp: "entry_fingerprint t w = Some f \<Longrightarrow>
      case f of None \<Rightarrow> t = PasswordEntry | Some g \<Rightarrow> t \<noteq> PasswordEntry \<and> fingerprint_re g" for t w f
    by (auto simp: entry_fingerprint_def split: if_splits js.splits)
  have rot: "entry_rotated w = Some r \<Longrightarrow> case r of None \<Rightarrow> True | Some x \<Rightarrow> id16 x" for w r
    by (auto simp: entry_rotated_def split: if_splits dest!: isId16_SomeD)
  from assms Obj show ?thesis
    by (auto simp: entry_ok_def split: option.splits dest!: isId16_SomeD iso_SomeD name fp rot)
qed (use assms in auto)

lemma entries_parse:
  "list_all (entry_ok date) es \<Longrightarrow> distinct (map ke_keyId es) \<Longrightarrow> set seen \<inter> ke_keyId ` set es = {}
    \<Longrightarrow> parse_entries date seen (map entry_js es) = Some es"
  by (induction es arbitrary: seen) (auto simp: entry_parse)

lemma parseEntries_ok:
  "parse_entries date seen items = Some es \<Longrightarrow>
    list_all (entry_ok date) es \<and> distinct (map ke_keyId es) \<and> set seen \<inter> ke_keyId ` set es = {}"
proof (induction date seen items arbitrary: es rule: parse_entries.induct)
  case (2 date seen item items)
  from "2.prems" obtain e rest where e: "parseKeyEntry date item = Some e" "ke_keyId e \<notin> set seen"
    "parse_entries date (ke_keyId e # seen) items = Some rest" "es = e # rest"
    by (auto split: option.splits if_splits)
  with "2.IH" [OF e(1,2,3)] show ?case by (auto simp: parseEntry_ok)
qed simp

lemma binding_parse: "id16 (hb_keyId b) \<Longrightarrow> parseBinding (binding_js b) = Some b"
  by (simp add: binding_js_def get_prop_def)

lemma hosts_parse: "list_all binding_ok hs \<Longrightarrow> parse_hosts (map (\<lambda>(a, b). (a, binding_js b)) hs) = Some hs"
  by (induction hs) (auto simp: binding_ok_def binding_parse)

lemma parseHosts_ok: "parse_hosts fs = Some hs \<Longrightarrow> list_all binding_ok hs"
proof (induction fs arbitrary: hs rule: parse_hosts.induct)
  case (2 a item rest)
  have "parseBinding item = Some b \<Longrightarrow> id16 (hb_keyId b)" for b
    by (cases item) (auto split: option.splits dest!: isId16_SomeD)
  with 2 show ?case by (auto simp: binding_ok_def split: option.splits if_splits)
qed simp

lemma norm_maps [simp]:
  "json_norm_list (map entry_js es) = map entry_js es"
  "json_norm_fields (map (\<lambda>(a, b). (a, binding_js b)) hs) = map (\<lambda>(a, b). (a, binding_js b)) hs"
  by (induction es, simp_all, induction hs, auto)

lemma binding_ok_sorted: "list_all binding_ok (sorted_hosts hs) = list_all binding_ok hs"
  by (simp add: sorted_hosts_def list_all_iff)

lemma index_ok_parse:
  assumes "index_ok date ix"
  shows "parseVaultIndex date (serializeVaultIndex ix) = Some (ix\<lparr>vi_hosts := sorted_hosts (vi_hosts ix)\<rparr>)"
  using assms
  by (cases "vi_sync ix")
    (simp_all add: serializeVaultIndex_def json_stringify_def index_ok_def get_prop_def entries_parse hosts_parse
      binding_ok_sorted)

lemma parseIndex_ok:
  assumes "parseVaultIndex date t = Some ix"
  shows "index_ok date ix"
proof (cases "(date, t)" rule: parseVaultIndex.cases)
  case (1 d raw)
  with assms show ?thesis
    by (auto simp: index_ok_def split: js.splits option.splits dest!: parseEntries_ok parseHosts_ok)
qed (use assms in auto)

lemma entry_parse_same: "parseKeyEntry date (entry_js e) = Some e' \<Longrightarrow> e' = e"
  by (cases "ke_fingerprint e"; cases "ke_rotatedFrom e")
    (auto simp: entry_js_def get_prop_def entry_fingerprint_def entry_rotated_def split: option.splits if_splits
      dest!: iso_SomeD isId16_SomeD)

lemma entries_parse_same: "parse_entries date seen (map entry_js es) = Some es' \<Longrightarrow> es' = es"
  by (induction es arbitrary: seen es') (auto split: option.splits if_splits dest: entry_parse_same)

lemma hosts_parse_same: "parse_hosts (map (\<lambda>(a, b). (a, binding_js b)) hs) = Some hs' \<Longrightarrow> hs' = hs"
proof (induction hs arbitrary: hs')
  case (Cons p hs)
  have "parseBinding (binding_js b) = Some b' \<Longrightarrow> b' = b" for b b'
    by (auto simp: binding_js_def get_prop_def split: option.splits dest!: isId16_SomeD)
  with Cons show ?case by (cases p) (auto split: option.splits if_splits)
qed simp

lemma indexRoundTrips_iff: "indexRoundTrips date ix \<longleftrightarrow> index_ok date ix"
proof
  assume "indexRoundTrips date ix"
  then obtain ix' where ix': "parseVaultIndex date (serializeVaultIndex ix) = Some ix'"
    by (auto simp: indexRoundTrips_def)
  then have "vi_keys ix' = vi_keys ix" "vi_hosts ix' = sorted_hosts (vi_hosts ix)"
    by (auto simp: serializeVaultIndex_def json_stringify_def get_prop_def split: option.splits
        dest!: entries_parse_same hosts_parse_same)
  with parseIndex_ok [OF ix'] show "index_ok date ix" by (simp add: index_ok_def binding_ok_sorted)
qed (simp add: indexRoundTrips_def index_ok_parse)

text \<open>
  C17: what one device writes every device reads. A header, a key blob or an index survives
  serialising and parsing exactly when it keeps the format's rules (a blob: when it is also asked for
  under its own vault and key, or under none), and then comes back unchanged, an index with its hosts
  ordered by name; whatever a parser accepts keeps the rules, so parsing, writing back and parsing again
  changes nothing; and a blob is never accepted for another vault or key than the one asked for.
\<close>

theorem vault_texts_roundtrip:
  "(parseVaultHeader date (serializeVaultHeader h) = Some h \<longleftrightarrow> header_ok date h)
   \<and> (parseVaultHeader date t = Some h \<longrightarrow> header_ok date h)
   \<and> (indexRoundTrips date ix \<longleftrightarrow> index_ok date ix)
   \<and> (index_ok date ix \<longrightarrow>
        parseVaultIndex date (serializeVaultIndex ix) = Some (ix\<lparr>vi_hosts := sorted_hosts (vi_hosts ix)\<rparr>))
   \<and> (parseVaultIndex date t = Some ix \<longrightarrow> index_ok date ix)
   \<and> (parseVaultKeyBlob (serializeVaultKeyBlob b) expect = Some b \<longleftrightarrow>
        blob_ok b \<and> (expect = None \<or> expect = Some (bl_vaultId b, bl_keyId b)))
   \<and> (parseVaultKeyBlob t expect = Some b \<longrightarrow>
        blob_ok b \<and> (expect = None \<or> expect = Some (bl_vaultId b, bl_keyId b)))"
  using header_roundtrips parseHeader_ok indexRoundTrips_iff index_ok_parse parseIndex_ok blob_roundtrips parseBlob_ok
  by blast

definition sample_index :: vault_index where
  "sample_index =
     \<lparr>vi_keys = [\<lparr>ke_keyId = replicate 22 (CHR ''A''), ke_name = ''laptop'', ke_type = PasswordEntry, ke_fingerprint = None,
        ke_createdAt = ''2026-01-01T00:00:00.000Z'', ke_rotatedFrom = None\<rparr>],
      vi_hosts = [(''web'', \<lparr>hb_keyId = replicate 22 (CHR ''A''), hb_gatewayAuth = AuthManaged\<rparr>)], vi_sync = Some ''s''\<rparr>"

definition sample_header :: vault_header where
  "sample_header =
     \<lparr>vh_vaultId = replicate 22 (CHR ''A''),
      vh_kdf = \<lparr>kd_m = 65536, kd_t = 3, kd_p = 1, kd_salt = replicate 22 (CHR ''A'')\<rparr>,
      vh_wrappedDek = \<lparr>sl_n = replicate 16 (CHR ''A''), sl_ct = replicate 64 (CHR ''A'')\<rparr>,
      vh_check = \<lparr>sl_n = replicate 16 (CHR ''A''), sl_ct = replicate 64 (CHR ''A'')\<rparr>,
      vh_index = \<lparr>sl_n = replicate 16 (CHR ''A''), sl_ct = replicate 64 (CHR ''A'')\<rparr>,
      vh_epoch = 1, vh_updatedAt = ''2026-01-01T00:00:00.000Z''\<rparr>"

definition sample_blob :: vault_blob where
  "sample_blob =
     \<lparr>bl_vaultId = replicate 22 (CHR ''A''), bl_keyId = replicate 21 (CHR ''A'') @ ''Q'',
      bl_sealed = \<lparr>sl_n = replicate 16 (CHR ''A''), sl_ct = replicate 64 (CHR ''A'')\<rparr>,
      bl_pub = Some \<lparr>sl_n = replicate 16 (CHR ''A''), sl_ct = replicate 64 (CHR ''B'')\<rparr>\<rparr>"

lemma vault_texts_roundtrip_witness:
  "parseVaultHeader (\<lambda>_. True) (serializeVaultHeader sample_header) = Some sample_header
   \<and> parseVaultIndex (\<lambda>_. True) (serializeVaultIndex sample_index) = Some (sample_index\<lparr>vi_hosts := sorted_hosts (vi_hosts sample_index)\<rparr>)
   \<and> parseVaultKeyBlob (serializeVaultKeyBlob sample_blob) (Some (bl_vaultId sample_blob, bl_keyId sample_blob)) = Some sample_blob
   \<and> parseVaultKeyBlob (serializeVaultKeyBlob sample_blob) (Some (bl_vaultId sample_blob, bl_vaultId sample_blob)) \<noteq> Some sample_blob"
proof -
  let ?own = "Some (bl_vaultId sample_blob, bl_keyId sample_blob)"
  let ?other = "Some (bl_vaultId sample_blob, bl_vaultId sample_blob)"
  have ok: "header_ok (\<lambda>_. True) sample_header" "index_ok (\<lambda>_. True) sample_index" "blob_ok sample_blob"
    by code_simp+
  have "bl_keyId sample_blob \<noteq> bl_vaultId sample_blob" by code_simp
  then have other: "?other \<noteq> None" "?other \<noteq> ?own" by simp_all
  note t = vault_texts_roundtrip [of "\<lambda>_. True" sample_header _ sample_index sample_blob]
  show ?thesis
    using t [of _ ?own] t [of _ ?other] ok other by blast
qed

end
