(* ===== verification/Vault_Crypto.thy ===== *)
theory Vault_Crypto
  imports Vault_Format
begin

text \<open>
  The crypto chain of the key vault (src/src/keyVault/vaultCrypto.ts). WebCrypto, Argon2id and the
  platform clock are parameters; nonces and other random bytes are arguments, drawn by the caller.
  What \<open>utf8\<close> makes of a text is kept as the text.
\<close>

datatype plaintext = Raw bytes | Utf8 string | Utf8Json json_text

record prepared_ssh_key =
  pk_pem :: string
  pk_keyId :: string
  pk_type :: vault_entry_type
  pk_fingerprint :: string
  pk_publicKey :: string

datatype prepare_result = Prepared prepared_ssh_key | NotPrepared string

record vault_config =
  vc_date :: "string \<Rightarrow> bool"
  vc_iso :: "int \<Rightarrow> string"
  vc_byteLength :: "json_text \<Rightarrow> int"
  vc_utf8Length :: "string \<Rightarrow> int"
  vc_nfkc :: "string \<Rightarrow> string"
  vc_argon2 :: "string \<Rightarrow> bytes \<Rightarrow> int \<Rightarrow> int \<Rightarrow> int \<Rightarrow> bytes"
  vc_hkdf :: "bytes \<Rightarrow> string \<Rightarrow> bytes"
  vc_encrypt :: "bytes \<Rightarrow> bytes \<Rightarrow> string \<Rightarrow> plaintext \<Rightarrow> bytes"
  vc_decrypt :: "bytes \<Rightarrow> bytes \<Rightarrow> string \<Rightarrow> bytes \<Rightarrow> plaintext option"
  vc_kdf :: "(int \<times> int \<times> int) option"
  vc_hasVerifier :: bool
  vc_hasStatus :: bool
  vc_hasReset :: bool
  vc_prepare :: "string \<Rightarrow> string option \<Rightarrow> prepare_result"

text \<open>
  A result of \<open>None\<close> in \<open>deriveMasterKey\<close>, \<open>derivePassphraseKeys\<close> and
  \<open>newKdfParams\<close> is the exception the code throws.
\<close>

definition normalizeVaultPassphrase :: "vault_config \<Rightarrow> string \<Rightarrow> string" where
  "normalizeVaultPassphrase cfg passphrase = vc_nfkc cfg passphrase"

definition deriveMasterKey :: "vault_config \<Rightarrow> string \<Rightarrow> vault_kdf \<Rightarrow> bytes option" where
  "deriveMasterKey cfg passphrase kdf =
     (case fromB64url (kd_salt kdf) of
        Some salt \<Rightarrow>
          if length salt \<noteq> 16 then None
          else Some (vc_argon2 cfg (normalizeVaultPassphrase cfg passphrase) salt (kd_p kdf) (kd_t kdf) (kd_m kdf))
      | None \<Rightarrow> None)"

definition VAULT_INFO_KEK :: string where "VAULT_INFO_KEK = ''pocketshell-vault/v1/kek''"
definition VAULT_INFO_AUTH :: string where "VAULT_INFO_AUTH = ''pocketshell-vault/v1/auth''"

definition derivePassphraseKeys :: "vault_config \<Rightarrow> string \<Rightarrow> vault_kdf \<Rightarrow> (bytes \<times> bytes) option" where
  "derivePassphraseKeys cfg passphrase kdf =
     map_option (\<lambda>mk. (vc_hkdf cfg mk VAULT_INFO_KEK, vc_hkdf cfg mk VAULT_INFO_AUTH)) (deriveMasterKey cfg passphrase kdf)"

definition seal :: "vault_config \<Rightarrow> bytes \<Rightarrow> plaintext \<Rightarrow> string \<Rightarrow> bytes \<Rightarrow> vault_sealed" where
  "seal cfg key pt aad nonce = \<lparr>sl_n = toB64url nonce, sl_ct = toB64url (vc_encrypt cfg key nonce aad pt)\<rparr>"

definition open_box :: "vault_config \<Rightarrow> bytes \<Rightarrow> vault_sealed \<Rightarrow> string \<Rightarrow> plaintext option" where
  "open_box cfg key x aad =
     (case (fromB64url (sl_n x), fromB64url (sl_ct x)) of
        (Some nonce, Some ct) \<Rightarrow>
          if length nonce \<noteq> 12 \<or> length ct < 16 then None else vc_decrypt cfg key nonce aad ct
      | _ \<Rightarrow> None)"

definition newKdfParams :: "int \<times> int \<times> int \<Rightarrow> bytes \<Rightarrow> vault_kdf option" where
  "newKdfParams params salt =
     (case params of (m, t, p) \<Rightarrow>
        parseKdfParams (kdf_js \<lparr>kd_m = m, kd_t = t, kd_p = p, kd_salt = toB64url salt\<rparr>))"

definition wrapDek :: "vault_config \<Rightarrow> bytes \<Rightarrow> bytes \<Rightarrow> string \<Rightarrow> bytes \<Rightarrow> bytes \<Rightarrow> vault_sealed \<times> vault_sealed" where
  "wrapDek cfg kek dek vaultId n1 n2 =
     (seal cfg kek (Raw dek) (VAULT_AAD_DEK @ vaultId) n1,
      seal cfg kek (Utf8 VAULT_CHECK_PLAINTEXT) (VAULT_AAD_CHECK @ vaultId) n2)"

definition verifyCheck :: "vault_config \<Rightarrow> bytes \<Rightarrow> vault_header \<Rightarrow> bool" where
  "verifyCheck cfg kek h =
     (case open_box cfg kek (vh_check h) (VAULT_AAD_CHECK @ vh_vaultId h) of
        Some (Utf8 t) \<Rightarrow> t = VAULT_CHECK_PLAINTEXT
      | _ \<Rightarrow> False)"

definition unwrapDek :: "vault_config \<Rightarrow> bytes \<Rightarrow> vault_header \<Rightarrow> bytes option" where
  "unwrapDek cfg kek h =
     (case open_box cfg kek (vh_wrappedDek h) (VAULT_AAD_DEK @ vh_vaultId h) of
        Some (Raw dek) \<Rightarrow> if length dek = 32 then Some dek else None
      | _ \<Rightarrow> None)"

definition sealIndex :: "vault_config \<Rightarrow> bytes \<Rightarrow> string \<Rightarrow> vault_index \<Rightarrow> bytes \<Rightarrow> vault_sealed" where
  "sealIndex cfg dek vaultId ix nonce =
     seal cfg dek (Utf8Json (serializeVaultIndex ix)) (VAULT_AAD_INDEX @ vaultId) nonce"

definition openIndex :: "vault_config \<Rightarrow> bytes \<Rightarrow> vault_header \<Rightarrow> vault_index option" where
  "openIndex cfg dek h =
     (case open_box cfg dek (vh_index h) (VAULT_AAD_INDEX @ vh_vaultId h) of
        Some (Utf8Json t) \<Rightarrow> parseVaultIndex (vc_date cfg) t
      | _ \<Rightarrow> None)"

definition sealKeyBlob ::
    "vault_config \<Rightarrow> bytes \<Rightarrow> string \<Rightarrow> string \<Rightarrow> string \<Rightarrow> string option \<Rightarrow> bytes \<Rightarrow> bytes \<Rightarrow> vault_blob" where
  "sealKeyBlob cfg dek vaultId keyId pt publicKey n1 n2 =
     \<lparr>bl_vaultId = vaultId, bl_keyId = keyId,
      bl_sealed = seal cfg dek (Utf8 pt) (VAULT_AAD_KEY @ vaultId @ ''|'' @ keyId) n1,
      bl_pub = map_option (\<lambda>p. seal cfg dek (Utf8 p) (VAULT_AAD_PUB @ vaultId @ ''|'' @ keyId) n2) publicKey\<rparr>"

definition openKeyBlobPublicKey :: "vault_config \<Rightarrow> bytes \<Rightarrow> vault_blob \<Rightarrow> string option" where
  "openKeyBlobPublicKey cfg dek b =
     (case bl_pub b of
        None \<Rightarrow> None
      | Some pub \<Rightarrow>
          (case open_box cfg dek pub (VAULT_AAD_PUB @ bl_vaultId b @ ''|'' @ bl_keyId b) of
             Some (Utf8 t) \<Rightarrow> Some t
           | _ \<Rightarrow> None))"

definition openKeyBlob :: "vault_config \<Rightarrow> bytes \<Rightarrow> vault_blob \<Rightarrow> plaintext option" where
  "openKeyBlob cfg dek b = open_box cfg dek (bl_sealed b) (VAULT_AAD_KEY @ bl_vaultId b @ ''|'' @ bl_keyId b)"

text \<open>The random values of a new header: vault id, salt, DEK and the three nonces.\<close>

record header_randomness =
  hr_vaultId :: bytes
  hr_salt :: bytes
  hr_dek :: bytes
  hr_n1 :: bytes
  hr_n2 :: bytes
  hr_n3 :: bytes

definition createVaultHeader ::
    "vault_config \<Rightarrow> string \<Rightarrow> vault_index \<Rightarrow> int \<Rightarrow> header_randomness \<Rightarrow> int \<Rightarrow> (vault_header \<times> bytes \<times> bytes) option" where
  "createVaultHeader cfg passphrase ix epoch r now =
     (case newKdfParams (case vc_kdf cfg of Some k \<Rightarrow> k | None \<Rightarrow> VAULT_KDF_DEFAULT) (hr_salt r) of
        None \<Rightarrow> None
      | Some kdf \<Rightarrow>
          (case derivePassphraseKeys cfg passphrase kdf of
             None \<Rightarrow> None
           | Some (kek, auth) \<Rightarrow>
               let vaultId = toB64url (hr_vaultId r) in
               (case wrapDek cfg kek (hr_dek r) vaultId (hr_n1 r) (hr_n2 r) of (wrapped, check) \<Rightarrow>
                  Some (\<lparr>vh_vaultId = vaultId, vh_kdf = kdf, vh_wrappedDek = wrapped, vh_check = check,
                     vh_index = sealIndex cfg (hr_dek r) vaultId ix (hr_n3 r), vh_epoch = epoch,
                     vh_updatedAt = vc_iso cfg now\<rparr>, hr_dek r, auth))))"

subsection \<open>The laws of the platform's crypto\<close>

text \<open>
  What AES-256-GCM and \<open>toISOString\<close> promise: decrypting under the same key,
  nonce and associated data gives the plaintext back, a ciphertext carries a 16-byte tag and is as long
  as its plaintext otherwise, and a printed time is a short text \<open>Date.parse\<close> accepts.
\<close>

fun plain_length :: "plaintext \<Rightarrow> nat" where
  "plain_length (Raw bs) = length bs"
| "plain_length (Utf8 t) = (if t = [] then 0 else 1)"
| "plain_length (Utf8Json t) = 1"

definition crypto_laws :: "vault_config \<Rightarrow> bool" where
  "crypto_laws cfg \<longleftrightarrow>
     (\<forall>k n a p. vc_decrypt cfg k n a (vc_encrypt cfg k n a p) = Some p)
     \<and> (\<forall>k n a p. plain_length p + 16 \<le> length (vc_encrypt cfg k n a p))
     \<and> (\<forall>t. length (vc_iso cfg t) \<le> 64 \<and> vc_date cfg (vc_iso cfg t))"

lemma open_seal:
  assumes "crypto_laws cfg" and "length nonce = 12"
  shows "open_box cfg key (seal cfg key pt aad nonce) aad = Some pt"
proof -
  have b: "fromB64url (toB64url bs) = Some bs" for bs by (simp add: base64url_strict)
  have "16 \<le> length (vc_encrypt cfg key nonce aad pt)"
    using assms(1) by (meson crypto_laws_def add_leD2)
  with assms show ?thesis by (simp add: open_box_def seal_def b crypto_laws_def not_less)
qed

lemma seal_ok:
  assumes "crypto_laws cfg" and "length nonce = 12" and "n \<le> plain_length pt"
  shows "sealed_ok n (seal cfg key pt aad nonce)"
proof -
  have b: "fromB64url (toB64url bs) = Some bs" for bs by (simp add: base64url_strict)
  have "plain_length pt + 16 \<le> length (vc_encrypt cfg key nonce aad pt)"
    using assms(1) by (simp add: crypto_laws_def)
  with assms show ?thesis by (simp add: sealed_ok_def seal_def b)
qed

lemma open_sealed_index:
  assumes "crypto_laws cfg" and "length nonce = 12" and "index_ok (vc_date cfg) ix"
    and "vh_index h = sealIndex cfg dek (vh_vaultId h) ix nonce"
  shows "openIndex cfg dek h = Some (ix\<lparr>vi_hosts := sorted_hosts (vi_hosts ix)\<rparr>)"
  using assms by (simp add: openIndex_def sealIndex_def open_seal index_ok_parse)

end
