(* ===== verification/Async_Programs.thy ===== *)
theory Async_Programs
  imports PS_Prelude
begin

text \<open>
  Asynchronous operations as programs: a program has returned, or it awaits the answer to a request
  with a continuation that runs from the answer and the state at that moment to the next program.
  An operation is written in continuation-passing style, one \<open>await\<close> per \<open>await\<close> of
  the code; between two of them it runs alone.

  The second half is the contract the operations are proved against: what an operation may assume of
  the answers and of the others while it waits, and what it guarantees when it runs.
\<close>

datatype ('q, 'r, 's, 'a) prog = Return 'a | Await 'q "'r \<Rightarrow> 's \<Rightarrow> ('q, 'r, 's, 'a) prog \<times> 's"

definition ret :: "'a \<Rightarrow> 's \<Rightarrow> ('q, 'r, 's, 'a) prog \<times> 's" where
  "ret x s = (Return x, s)"

definition await ::
    "'q \<Rightarrow> ('r \<Rightarrow> 's \<Rightarrow> ('q, 'r, 's, 'a) prog \<times> 's) \<Rightarrow> 's \<Rightarrow> ('q, 'r, 's, 'a) prog \<times> 's" where
  "await q k s = (Await q k, s)"

text \<open>
  \<open>inv\<close> is the invariant of the client's state relative to a history shared with the other
  clients, \<open>grows\<close> how the history may change, \<open>rely\<close> how the state may change while
  the program waits and \<open>guar\<close> how the program itself may change it between two waits.
  \<open>fact\<close> is what an answer says of the history when it arrives, \<open>legit\<close> which requests
  the client may make.
\<close>

locale async_client =
  fixes inv :: "'h \<Rightarrow> 's \<Rightarrow> bool"
    and grows :: "'h \<Rightarrow> 'h \<Rightarrow> bool"
    and rely :: "'s \<Rightarrow> 's \<Rightarrow> bool"
    and guar :: "'s \<Rightarrow> 's \<Rightarrow> bool"
    and fact :: "'h \<Rightarrow> 'q \<Rightarrow> 'r \<Rightarrow> bool"
    and legit :: "'h \<Rightarrow> 'q \<Rightarrow> bool"
  assumes grows_refl: "grows h h"
    and grows_trans: "grows h h' \<Longrightarrow> grows h' h'' \<Longrightarrow> grows h h''"
    and rely_refl: "rely s s"
    and rely_trans: "rely s s' \<Longrightarrow> rely s' s'' \<Longrightarrow> rely s s''"
    and guar_refl: "guar s s"
    and guar_trans: "guar s s' \<Longrightarrow> guar s' s'' \<Longrightarrow> guar s s''"
    and inv_grows: "inv h s \<Longrightarrow> grows h h' \<Longrightarrow> inv h' s"
    and legit_grows: "legit h q \<Longrightarrow> grows h h' \<Longrightarrow> legit h' q"
begin

inductive fine :: "'h \<Rightarrow> 's \<Rightarrow> ('q, 'r, 's, 'a) prog \<Rightarrow> bool" where
  fine_return: "fine h s (Return x)"
| fine_await: "legit h q \<Longrightarrow>
    (\<And>h' s' r. grows h h' \<Longrightarrow> rely s s' \<Longrightarrow> inv h' s' \<Longrightarrow> fact h' q r \<Longrightarrow>
       inv h' (snd (k r s')) \<and> guar s' (snd (k r s')) \<and> fine h' (snd (k r s')) (fst (k r s')))
    \<Longrightarrow> fine h s (Await q k)"

inductive_simps fine_return_iff [simp]: "fine h s (Return x)"
inductive_cases fine_awaitE: "fine h s (Await q k)"

text \<open>One run to the next wait, started in \<open>s\<close>.\<close>

definition good :: "'h \<Rightarrow> 's \<Rightarrow> ('q, 'r, 's, 'a) prog \<times> 's \<Rightarrow> bool" where
  "good h s r \<longleftrightarrow> inv h (snd r) \<and> guar s (snd r) \<and> fine h (snd r) (fst r)"

lemma fine_stable:
  assumes "fine h s p" and "grows h h'" and "rely s s'"
  shows "fine h' s' p"
  using assms
proof (cases rule: fine.cases)
  case (fine_await q k)
  show ?thesis
    unfolding fine_await(1)
  proof (rule fine.fine_await)
    show "legit h' q" using fine_await(2) assms(2) by (rule legit_grows)
  next
    fix h'' s'' r
    assume "grows h' h''" "rely s' s''" "inv h'' s''" "fact h'' q r"
    with assms(2,3) show "inv h'' (snd (k r s'')) \<and> guar s'' (snd (k r s'')) \<and> fine h'' (snd (k r s'')) (fst (k r s''))"
      using fine_await(3) grows_trans rely_trans by blast
  qed
qed simp

lemma good_ret: "inv h s' \<Longrightarrow> guar s s' \<Longrightarrow> good h s (ret x s')"
  by (simp add: good_def ret_def)

lemma good_await:
  assumes "inv h s'" and "guar s s'" and "legit h q"
    and "\<And>h' s'' r. grows h h' \<Longrightarrow> rely s' s'' \<Longrightarrow> inv h' s'' \<Longrightarrow> fact h' q r \<Longrightarrow> good h' s'' (k r s'')"
  shows "good h s (await q k s')"
  using assms by (auto simp: good_def await_def intro!: fine.fine_await)

lemma good_resume:
  assumes "fine h s (Await q k)" and "inv h s" and "fact h q r"
  shows "good h s (k r s)"
  using assms(1)
proof (cases rule: fine.cases)
  case fine_await
  show ?thesis using fine_await(2) [OF grows_refl rely_refl assms(2,3)] by (simp add: good_def)
qed

lemma good_from: "good h s' r \<Longrightarrow> guar s s' \<Longrightarrow> good h s r"
  by (auto simp: good_def intro: guar_trans)

end

end
