(* ===== verification/Vault_Store.thy ===== *)
theory Vault_Store
  imports Vault_Crypto Async_Programs
begin

text \<open>
  The key vault store of one device (src/src/keyVault/store.ts), first half: its state, the access to
  the account's slots, reading the header, creating and unlocking. Every \<open>await\<close> of the code on
  the network or on a crypto call is a suspension; requests to the settings server and to the optional
  verifier, and the wait for a crypto call, are answered by the environment. A suspension that waits
  for nothing but a microtask is not a point where another event runs.

  \<open>Unlocked\<close> objects are shared by reference and their key buffers wiped in place: they live in
  \<open>vs_heap\<close>, and operations hold their address.
\<close>

subsection \<open>Answers of the platform\<close>

datatype pull_result = PullAbsent | PullOk int json_text | PullGated
datatype push_result = PushOk int | PushConflict int | PushGated | PushError string
datatype verify_result = VerifyOk | VerifyWrong int | VerifyLocked int | VerifyNoVerifier | VerifyUnavailable
datatype set_verifier_result = SetOk int | SetEpochMismatch int | SetRefused | SetUnavailable

record server_status =
  ss_epoch :: int
  ss_retryAfterMs :: int
  ss_kdf :: js

datatype status_result = StatusOk server_status | StatusUnavailable
datatype reset_result = ResetOk int | ResetFreshAuth | ResetUnavailable

datatype vault_request =
    PullSlot string
  | PushSlot string json_text int
  | DeleteSlot string
  | ListSlots
  | AskStatus
  | AskVerify bytes
  | AskSetVerifier bytes int "bytes option"
  | AskReset
  | Compute

datatype vault_answer =
    Pulled pull_result
  | Pushed push_result
  | Deleted
  | Listed "(string \<times> int) list"
  | StatusIs status_result
  | VerifyIs verify_result
  | SetVerifierIs set_verifier_result
  | ResetIs reset_result
  | Computed
  | Rejected string

subsection \<open>State\<close>

record vault_unlocked =
  vu_header :: vault_header
  vu_version :: int
  vu_dek :: bytes
  vu_auth :: "bytes option"
  vu_dekKey :: bytes
  vu_index :: vault_index

record pending_verifier =
  pv_auth :: bytes
  pv_currentAuth :: bytes
  pv_epoch :: int

record vault_store =
  vs_heap :: "vault_unlocked list"
  vs_unlocked :: "nat option"
  vs_generation :: nat
  vs_pending :: "pending_verifier option"
  vs_failures :: nat
  vs_blockedUntil :: int
  vs_clock :: int
  vs_random :: "nat \<Rightarrow> nat \<Rightarrow> bytes"
  vs_draws :: nat

text \<open>
  Two fields belong to the platform: \<open>vs_clock\<close> is what \<open>now()\<close> reads, and the
  \<open>i\<close>-th draw of \<open>n\<close> random bytes is \<open>vs_random i n\<close>.
\<close>

record remember_record =
  rm_vaultId :: string
  rm_epoch :: int
  rm_dek :: bytes
  rm_auth :: "bytes option"

datatype vault_result =
    VOk | VOkVerifierPending | VNoVault | VUnsupportedVersion | VGated | VVault string int | VCorrupt | VError string
  | VExists | VIndexFull | VFreshAuthRequired | VWrongPassphrase int | VBackoff int | VRateLimited int | VStale
  | VLocked | VVaultChanged | VConflictLimit | VPassphraseChangedElsewhere | VTooLarge | VAdded "vault_entry option" bool
  | VNotPrepared string | VUnbound | VMissingKey string | VKey string | VPassword string
  | VPublicKey "string option" | VSetVerifier set_verifier_result | VThrew string
  | VInvalid | VRollback

type_synonym vault_prog = "(vault_request, vault_answer, vault_store, vault_result) prog"
type_synonym vault_act = "vault_store \<Rightarrow> vault_prog \<times> vault_store"

definition new_vault_store :: "(nat \<Rightarrow> nat \<Rightarrow> bytes) \<Rightarrow> int \<Rightarrow> vault_store" where
  "new_vault_store rnd now = \<lparr>vs_heap = [], vs_unlocked = None, vs_generation = 0, vs_pending = None, vs_failures = 0,
     vs_blockedUntil = 0, vs_clock = now, vs_random = rnd, vs_draws = 0\<rparr>"

definition draw :: "nat \<Rightarrow> vault_store \<Rightarrow> bytes \<times> vault_store" where
  "draw n s = (vs_random s (vs_draws s) n, s\<lparr>vs_draws := Suc (vs_draws s)\<rparr>)"

definition wiped :: "bytes \<Rightarrow> bytes" where
  "wiped bs = map (\<lambda>_. 0) bs"

definition wipe_unlocked :: "vault_unlocked \<Rightarrow> vault_unlocked" where
  "wipe_unlocked u = u\<lparr>vu_dek := wiped (vu_dek u), vu_auth := map_option wiped (vu_auth u)\<rparr>"

definition update_unlocked :: "nat \<Rightarrow> (vault_unlocked \<Rightarrow> vault_unlocked) \<Rightarrow> vault_store \<Rightarrow> vault_store" where
  "update_unlocked a f s = s\<lparr>vs_heap := (vs_heap s)[a := f (vs_heap s ! a)]\<rparr>"

definition store_drop :: "vault_store \<Rightarrow> vault_store" where
  "store_drop s =
     (case vs_unlocked s of
        None \<Rightarrow> s
      | Some a \<Rightarrow> (update_unlocked a wipe_unlocked s)\<lparr>vs_unlocked := None\<rparr>)"

definition store_lock :: "vault_store \<Rightarrow> vault_store" where
  "store_lock s = store_drop (s\<lparr>vs_generation := Suc (vs_generation s), vs_pending := None\<rparr>)"

definition store_install :: "nat \<Rightarrow> vault_unlocked \<Rightarrow> vault_store \<Rightarrow> bool \<times> vault_store" where
  "store_install gen u s =
     (if gen \<noteq> vs_generation s then (False, s)
      else
        let s1 = store_drop s in
        (True, s1\<lparr>vs_heap := vs_heap s1 @ [u], vs_unlocked := Some (length (vs_heap s1))\<rparr>))"

definition current_unlocked :: "vault_store \<Rightarrow> vault_unlocked option" where
  "current_unlocked s = map_option (\<lambda>a. vs_heap s ! a) (vs_unlocked s)"

definition backoffRemainingMs :: "vault_store \<Rightarrow> int" where
  "backoffRemainingMs s = max 0 (vs_blockedUntil s - vs_clock s)"

definition VAULT_FREE_ATTEMPTS :: nat where "VAULT_FREE_ATTEMPTS = 3"
definition VAULT_BACKOFF_CAP_MS :: int where "VAULT_BACKOFF_CAP_MS = 30000"
definition CONFLICT_RETRIES :: nat where "CONFLICT_RETRIES = 3"
definition PASSWORD_MAX_BYTES :: int where "PASSWORD_MAX_BYTES = 4096"

definition vaultBackoffMs :: "nat \<Rightarrow> int" where
  "vaultBackoffMs failures =
     (if failures < VAULT_FREE_ATTEMPTS then 0
      else min VAULT_BACKOFF_CAP_MS (1000 * 2 ^ (failures - VAULT_FREE_ATTEMPTS)))"

definition recordFailure :: "vault_store \<Rightarrow> int \<times> vault_store" where
  "recordFailure s =
     (let failures = Suc (vs_failures s); delay = vaultBackoffMs failures in
      (delay, s\<lparr>vs_failures := failures, vs_blockedUntil := vs_clock s + delay\<rparr>))"

definition no_failures :: "vault_store \<Rightarrow> vault_store" where
  "no_failures s = s\<lparr>vs_failures := 0, vs_blockedUntil := 0\<rparr>"

definition exportRememberRecord :: "vault_store \<Rightarrow> remember_record option" where
  "exportRememberRecord s =
     map_option (\<lambda>u. \<lparr>rm_vaultId = vh_vaultId (vu_header u), rm_epoch = vh_epoch (vu_header u), rm_dek = vu_dek u,
       rm_auth = vu_auth u\<rparr>) (current_unlocked s)"

subsection \<open>Slot access\<close>

text \<open>AUTH travels by reference: the one an unlocked object holds, or bytes of the caller's own.\<close>

datatype auth_ref = NoAuth | HeldAuth nat | OwnAuth bytes

fun read_auth :: "auth_ref \<Rightarrow> vault_store \<Rightarrow> bytes option" where
  "read_auth NoAuth s = None"
| "read_auth (HeldAuth a) s = vu_auth (vs_heap s ! a)"
| "read_auth (OwnAuth bs) s = Some bs"

definition held_auth :: "vault_store \<Rightarrow> auth_ref" where
  "held_auth s = (case vs_unlocked s of None \<Rightarrow> NoAuth | Some a \<Rightarrow> HeldAuth a)"

definition compute :: "vault_act \<Rightarrow> (string \<Rightarrow> vault_act) \<Rightarrow> vault_act" where
  "compute ok err = await Compute (\<lambda>ans. case ans of Rejected m \<Rightarrow> err m | _ \<Rightarrow> ok)"

definition verify :: "vault_config \<Rightarrow> bytes \<Rightarrow> (verify_result \<Rightarrow> vault_act) \<Rightarrow> vault_act" where
  "verify cfg auth k =
     (if \<not> vc_hasVerifier cfg then k VerifyUnavailable
      else await (AskVerify auth) (\<lambda>ans. case ans of VerifyIs r \<Rightarrow> k r | _ \<Rightarrow> k VerifyUnavailable))"

definition reverify :: "vault_config \<Rightarrow> auth_ref \<Rightarrow> (bool \<Rightarrow> vault_act) \<Rightarrow> vault_act" where
  "reverify cfg auth k s =
     (case read_auth auth s of
        None \<Rightarrow> k False s
      | Some bs \<Rightarrow> if \<not> vc_hasVerifier cfg then k False s else verify cfg bs (\<lambda>r. k (r = VerifyOk)) s)"

definition transport_pull :: "string \<Rightarrow> (pull_result \<Rightarrow> vault_act) \<Rightarrow> (string \<Rightarrow> vault_act) \<Rightarrow> vault_act" where
  "transport_pull slot ok err =
     await (PullSlot slot) (\<lambda>ans. case ans of Pulled r \<Rightarrow> ok r | Rejected m \<Rightarrow> err m | _ \<Rightarrow> err [])"

definition transport_push ::
    "string \<Rightarrow> json_text \<Rightarrow> int \<Rightarrow> (push_result \<Rightarrow> vault_act) \<Rightarrow> (string \<Rightarrow> vault_act) \<Rightarrow> vault_act" where
  "transport_push slot data base ok err =
     await (PushSlot slot data base) (\<lambda>ans. case ans of Pushed r \<Rightarrow> ok r | Rejected m \<Rightarrow> err m | _ \<Rightarrow> err [])"

definition transport_delete :: "string \<Rightarrow> vault_act \<Rightarrow> (string \<Rightarrow> vault_act) \<Rightarrow> vault_act" where
  "transport_delete slot ok err =
     await (DeleteSlot slot) (\<lambda>ans. case ans of Rejected m \<Rightarrow> err m | _ \<Rightarrow> ok)"

definition pull ::
    "vault_config \<Rightarrow> string \<Rightarrow> auth_ref \<Rightarrow> (pull_result \<Rightarrow> vault_act) \<Rightarrow> (string \<Rightarrow> vault_act) \<Rightarrow> vault_act" where
  "pull cfg slot auth ok err =
     transport_pull slot
       (\<lambda>r. if r \<noteq> PullGated then ok r
            else reverify cfg auth (\<lambda>again. if again then transport_pull slot ok err else ok r))
       err"

definition push ::
    "vault_config \<Rightarrow> string \<Rightarrow> json_text \<Rightarrow> int \<Rightarrow> (push_result \<Rightarrow> vault_act) \<Rightarrow> (string \<Rightarrow> vault_act) \<Rightarrow> vault_act" where
  "push cfg slot data base ok err =
     transport_push slot data base
       (\<lambda>r s. if r \<noteq> PushGated then ok r s
            else reverify cfg (held_auth s)
              (\<lambda>again. if again then transport_push slot data base ok err else ok r) s)
       err"

subsection \<open>Reading the header\<close>

datatype header_read = HeaderOk vault_header int | HeaderNoVault | HeaderUnsupported | HeaderCorrupt | HeaderGated

definition read_header :: "vault_config \<Rightarrow> pull_result \<Rightarrow> header_read" where
  "read_header cfg r =
     (case r of
        PullAbsent \<Rightarrow> HeaderNoVault
      | PullGated \<Rightarrow> HeaderGated
      | PullOk version data \<Rightarrow>
          (case parseVaultHeader (vc_date cfg) data of
             Some h \<Rightarrow> HeaderOk h version
           | None \<Rightarrow>
               (case vaultFormatVersionOf data of
                  Some v \<Rightarrow> if 1 < v then HeaderUnsupported else HeaderCorrupt
                | None \<Rightarrow> HeaderCorrupt)))"

definition pullHeader ::
    "vault_config \<Rightarrow> auth_ref \<Rightarrow> (header_read \<Rightarrow> vault_act) \<Rightarrow> (string \<Rightarrow> vault_act) \<Rightarrow> vault_act" where
  "pullHeader cfg auth ok err = pull cfg VAULT_HEADER_SLOT auth (\<lambda>r. ok (read_header cfg r)) err"

fun failed_read :: "header_read \<Rightarrow> vault_result" where
  "failed_read HeaderNoVault = VNoVault"
| "failed_read HeaderUnsupported = VUnsupportedVersion"
| "failed_read HeaderGated = VGated"
| "failed_read (HeaderOk h version) = VVault (vh_vaultId h) (vh_epoch h)"
| "failed_read HeaderCorrupt = VCorrupt"

definition probe :: "vault_config \<Rightarrow> vault_act" where
  "probe cfg s = pullHeader cfg (held_auth s) (\<lambda>r. ret (failed_read r)) (\<lambda>m. ret (VError m)) s"

text \<open>\<open>verifyCheck\<close>, \<open>unwrapDek\<close> and \<open>openIndex\<close> answer null when the decryption rejects.\<close>

definition check_value :: "vault_config \<Rightarrow> bytes \<Rightarrow> vault_header \<Rightarrow> (bool \<Rightarrow> vault_act) \<Rightarrow> vault_act" where
  "check_value cfg kek h k = compute (k (verifyCheck cfg kek h)) (\<lambda>_. k False)"

definition unwrap_dek_of :: "vault_config \<Rightarrow> bytes \<Rightarrow> vault_header \<Rightarrow> (bytes option \<Rightarrow> vault_act) \<Rightarrow> vault_act" where
  "unwrap_dek_of cfg kek h k = compute (k (unwrapDek cfg kek h)) (\<lambda>_. k None)"

definition open_index_of :: "vault_config \<Rightarrow> bytes \<Rightarrow> vault_header \<Rightarrow> (vault_index option \<Rightarrow> vault_act) \<Rightarrow> vault_act" where
  "open_index_of cfg key h k = compute (k (openIndex cfg key h)) (\<lambda>_. k None)"

text \<open>\<open>importAesKey\<close> throws unless the key has 32 bytes.\<close>

definition importAesKey :: "bytes \<Rightarrow> (bytes \<Rightarrow> vault_act) \<Rightarrow> (string \<Rightarrow> vault_act) \<Rightarrow> vault_act" where
  "importAesKey raw ok err =
     (if length raw \<noteq> 32 then err ''vault AES keys are 32 bytes'' else compute (ok raw) err)"

definition derive_keys ::
    "vault_config \<Rightarrow> string \<Rightarrow> vault_kdf \<Rightarrow> (bytes \<Rightarrow> bytes \<Rightarrow> vault_act) \<Rightarrow> (string \<Rightarrow> vault_act) \<Rightarrow> vault_act" where
  "derive_keys cfg passphrase kdf ok err =
     (case derivePassphraseKeys cfg passphrase kdf of
        None \<Rightarrow> err ''vault kdf salt must be 16 bytes''
      | Some (kek, auth) \<Rightarrow> if length kek \<noteq> 32 then err ''vault AES keys are 32 bytes'' else compute (ok kek auth) err)"

subsection \<open>The server verifier\<close>

definition publishVerifier ::
    "vault_config \<Rightarrow> bytes \<Rightarrow> int \<Rightarrow> bytes option \<Rightarrow> (set_verifier_result \<Rightarrow> vault_act) \<Rightarrow> vault_act" where
  "publishVerifier cfg auth epoch currentAuth k =
     (if \<not> vc_hasVerifier cfg then k SetUnavailable
      else
        await (AskSetVerifier auth epoch currentAuth) (\<lambda>ans. case ans of
          SetVerifierIs (SetEpochMismatch at) \<Rightarrow>
            await (AskSetVerifier auth at currentAuth) (\<lambda>ans. case ans of
              SetVerifierIs r \<Rightarrow> k r | _ \<Rightarrow> k SetUnavailable)
        | SetVerifierIs r \<Rightarrow> k r
        | _ \<Rightarrow> k SetUnavailable))"

definition retryVerifierPublishNow :: "vault_config \<Rightarrow> (set_verifier_result \<Rightarrow> vault_act) \<Rightarrow> vault_act" where
  "retryVerifierPublishNow cfg k s =
     (case vs_pending s of
        None \<Rightarrow> k SetUnavailable s
      | Some p \<Rightarrow>
          publishVerifier cfg (pv_auth p) (pv_epoch p) (Some (pv_currentAuth p))
            (\<lambda>r s. case r of SetOk _ \<Rightarrow> k r (s\<lparr>vs_pending := None\<rparr>) | _ \<Rightarrow> k r s) s)"

record status_ok =
  so_epoch :: int
  so_retryAfterMs :: int
  so_kdf :: "vault_kdf option"

text \<open>A status whose parameters do not parse counts as one without parameters.\<close>

definition status_of :: "status_result \<Rightarrow> status_ok option" where
  "status_of r =
     (case r of
        StatusUnavailable \<Rightarrow> None
      | StatusOk st \<Rightarrow> Some \<lparr>so_epoch = ss_epoch st, so_retryAfterMs = max 0 (ss_retryAfterMs st),
          so_kdf = parseKdfParams (ss_kdf st)\<rparr>)"

definition serverStatus :: "vault_config \<Rightarrow> (status_ok option \<Rightarrow> vault_act) \<Rightarrow> vault_act" where
  "serverStatus cfg k =
     (if \<not> (vc_hasVerifier cfg \<and> vc_hasStatus cfg) then k None
      else await AskStatus (\<lambda>ans. case ans of StatusIs r \<Rightarrow> k (status_of r) | _ \<Rightarrow> k None))"

subsection \<open>Creating\<close>

definition index_error :: string where
  "index_error = ''refusing to write a vault index other devices could not read''"

definition draw_header :: "vault_store \<Rightarrow> header_randomness \<times> vault_store" where
  "draw_header s =
     (case draw 16 s of (vaultId, s) \<Rightarrow> case draw 16 s of (salt, s) \<Rightarrow> case draw 32 s of (dek, s) \<Rightarrow>
      case draw 12 s of (n1, s) \<Rightarrow> case draw 12 s of (n2, s) \<Rightarrow> case draw 12 s of (n3, s) \<Rightarrow>
        (\<lparr>hr_vaultId = vaultId, hr_salt = salt, hr_dek = dek, hr_n1 = n1, hr_n2 = n2, hr_n3 = n3\<rparr>, s))"

text \<open>The header is written: publish the verifier, import the DEK and install the new vault.\<close>

definition fresh_written ::
    "vault_config \<Rightarrow> vault_header \<Rightarrow> int \<Rightarrow> bytes \<Rightarrow> bytes \<Rightarrow> vault_index \<Rightarrow> nat \<Rightarrow> (vault_result \<Rightarrow> vault_act) \<Rightarrow> vault_act" where
  "fresh_written cfg header version dek auth index generation k =
     publishVerifier cfg auth (vh_epoch header) None (\<lambda>_.
       importAesKey dek
         (\<lambda>dekKey s.
            case store_install generation \<lparr>vu_header = header, vu_version = version, vu_dek = dek, vu_auth = Some auth,
                   vu_dekKey = dekKey, vu_index = index\<rparr> s of
              (False, s) \<Rightarrow> k VOk s
            | (True, s) \<Rightarrow> k VOk (no_failures s))
         (\<lambda>m. ret (VError m)))"

definition push_fresh ::
    "vault_config \<Rightarrow> vault_header \<Rightarrow> bytes \<Rightarrow> bytes \<Rightarrow> vault_index \<Rightarrow> int \<Rightarrow> nat \<Rightarrow> (vault_result \<Rightarrow> vault_act) \<Rightarrow> vault_act" where
  "push_fresh cfg header dek auth index baseVersion generation k =
     (let data = serializeVaultHeader header in
      if VAULT_SLOT_LIMIT_BYTES < vc_byteLength cfg data then k VIndexFull
      else transport_push VAULT_HEADER_SLOT data baseVersion
        (\<lambda>pushed. case pushed of
           PushError m \<Rightarrow> k (VError m)
         | PushOk version \<Rightarrow> fresh_written cfg header version dek auth index generation k
         | _ \<Rightarrow> k VExists)
        (\<lambda>m. ret (VError m)))"

definition writeFreshVault ::
    "vault_config \<Rightarrow> string \<Rightarrow> vault_index \<Rightarrow> int \<Rightarrow> int \<Rightarrow> nat \<Rightarrow> (vault_result \<Rightarrow> vault_act) \<Rightarrow> vault_act" where
  "writeFreshVault cfg passphrase index epoch baseVersion generation k s =
     (if \<not> indexRoundTrips (vc_date cfg) index then k (VError index_error) s
      else
        case draw_header s of (r, s) \<Rightarrow>
          compute
            (\<lambda>s. case createVaultHeader cfg passphrase index epoch r (vs_clock s) of
               None \<Rightarrow> ret (VError ''vault kdf parameters out of range'') s
             | Some (header, dek, auth) \<Rightarrow> push_fresh cfg header dek auth index baseVersion generation k s)
            (\<lambda>m. ret (VError m)) s)"

definition empty_index :: "string option \<Rightarrow> vault_index" where
  "empty_index sync =
     \<lparr>vi_keys = [], vi_hosts = [], vi_sync = (case sync of Some p \<Rightarrow> if p = [] then None else Some p | None \<Rightarrow> None)\<rparr>"

definition createVault :: "vault_config \<Rightarrow> string \<Rightarrow> string option \<Rightarrow> nat \<Rightarrow> vault_act" where
  "createVault cfg passphrase sync generation s =
     pullHeader cfg (held_auth s)
       (\<lambda>existing.
          if existing \<noteq> HeaderNoVault then ret VExists
          else writeFreshVault cfg passphrase (empty_index sync) 1 0 generation ret)
       (\<lambda>m. ret (VError m)) s"

subsection \<open>Unlocking\<close>

definition locked_meanwhile :: vault_result where
  "locked_meanwhile = VError ''The vault was locked while it was being unlocked.''"

definition open_vault ::
    "vault_config \<Rightarrow> nat \<Rightarrow> bytes \<Rightarrow> bytes \<Rightarrow> vault_header \<Rightarrow> int \<Rightarrow> vault_act" where
  "open_vault cfg generation kek auth header version =
     unwrap_dek_of cfg kek header (\<lambda>dek. case dek of
       None \<Rightarrow> ret VCorrupt
     | Some dek \<Rightarrow>
         importAesKey dek
           (\<lambda>dekKey. open_index_of cfg dekKey header (\<lambda>index. case index of
              None \<Rightarrow> ret VCorrupt
            | Some index \<Rightarrow> (\<lambda>s.
                case store_install generation \<lparr>vu_header = header, vu_version = version, vu_dek = dek, vu_auth = Some auth,
                       vu_dekKey = dekKey, vu_index = index\<rparr> s of
                  (False, s) \<Rightarrow> ret locked_meanwhile s
                | (True, s) \<Rightarrow> ret VOk (no_failures s))))
           (\<lambda>m. ret (VError m)))"

definition check_passphrase ::
    "vault_config \<Rightarrow> nat \<Rightarrow> status_ok option \<Rightarrow> verify_result \<Rightarrow> bytes \<Rightarrow> bytes \<Rightarrow> vault_header \<Rightarrow> int \<Rightarrow> vault_act" where
  "check_passphrase cfg generation status verdict kek auth header version =
     check_value cfg kek header (\<lambda>right s.
       if \<not> right then
         (case recordFailure s of (delay, s) \<Rightarrow>
            ret (VWrongPassphrase (max delay (case verdict of VerifyWrong after \<Rightarrow> max 0 after | _ \<Rightarrow> 0))) s)
       else
         (case verdict of
            VerifyNoVerifier \<Rightarrow>
              publishVerifier cfg auth (case status of Some st \<Rightarrow> so_epoch st | None \<Rightarrow> vh_epoch header) None
                (\<lambda>_. open_vault cfg generation kek auth header version) s
          | VerifyWrong _ \<Rightarrow>
              if map_option pv_auth (vs_pending s) = Some auth
              then retryVerifierPublishNow cfg (\<lambda>_. open_vault cfg generation kek auth header version) s
              else open_vault cfg generation kek auth header version s
          | _ \<Rightarrow> open_vault cfg generation kek auth header version s))"

definition unlock_gated :: "vault_config \<Rightarrow> string \<Rightarrow> nat \<Rightarrow> status_ok \<Rightarrow> vault_kdf \<Rightarrow> vault_act" where
  "unlock_gated cfg passphrase generation status kdf =
     derive_keys cfg passphrase kdf
       (\<lambda>kek auth. verify cfg auth (\<lambda>verdict. case verdict of
          VerifyLocked after \<Rightarrow> ret (VRateLimited (max 0 after))
        | VerifyWrong after \<Rightarrow> (\<lambda>s. case recordFailure s of (delay, s) \<Rightarrow> ret (VWrongPassphrase (max delay after)) s)
        | _ \<Rightarrow>
            pullHeader cfg NoAuth
              (\<lambda>pulled. case pulled of
                 HeaderOk header version \<Rightarrow>
                   if vh_kdf header = kdf
                   then check_passphrase cfg generation (Some status) verdict kek auth header version
                   else derive_keys cfg passphrase (vh_kdf header)
                     (\<lambda>kek auth. check_passphrase cfg generation (Some status) verdict kek auth header version)
                     (\<lambda>m. ret (VError m))
               | HeaderGated \<Rightarrow> ret (VError ''the server still hides the vault after a verify'')
               | _ \<Rightarrow> ret (failed_read pulled))
              (\<lambda>m. ret (VError m))))
       (\<lambda>m. ret (VError m))"

definition unlock_open :: "vault_config \<Rightarrow> string \<Rightarrow> nat \<Rightarrow> status_ok option \<Rightarrow> vault_act" where
  "unlock_open cfg passphrase generation status =
     pullHeader cfg NoAuth
       (\<lambda>pulled. case pulled of
          HeaderGated \<Rightarrow>
            ret (VError ''the server hides the vault but gave no KDF parameters (GET /vault/status)'')
        | HeaderOk header version \<Rightarrow>
            derive_keys cfg passphrase (vh_kdf header)
              (\<lambda>kek auth. verify cfg auth (\<lambda>verdict. case verdict of
                 VerifyLocked after \<Rightarrow> ret (VRateLimited (max 0 after))
               | _ \<Rightarrow> check_passphrase cfg generation status verdict kek auth header version))
              (\<lambda>m. ret (VError m))
        | _ \<Rightarrow> ret (failed_read pulled))
       (\<lambda>m. ret (VError m))"

definition vault_unlock :: "vault_config \<Rightarrow> string \<Rightarrow> nat \<Rightarrow> vault_act" where
  "vault_unlock cfg passphrase generation s =
     (if 0 < backoffRemainingMs s then ret (VBackoff (backoffRemainingMs s)) s
      else
        serverStatus cfg (\<lambda>status. case status of
          None \<Rightarrow> unlock_open cfg passphrase generation None
        | Some st \<Rightarrow>
            if 0 < so_retryAfterMs st then ret (VRateLimited (so_retryAfterMs st))
            else (case so_kdf st of
                    Some kdf \<Rightarrow> unlock_gated cfg passphrase generation st kdf
                  | None \<Rightarrow> unlock_open cfg passphrase generation (Some st))) s)"

definition remember_open :: "vault_config \<Rightarrow> remember_record \<Rightarrow> nat \<Rightarrow> vault_act" where
  "remember_open cfg rm generation =
     pullHeader cfg (case rm_auth rm of Some a \<Rightarrow> OwnAuth a | None \<Rightarrow> NoAuth)
       (\<lambda>pulled. case pulled of
          HeaderGated \<Rightarrow> ret VStale
        | HeaderOk header version \<Rightarrow>
            if vh_vaultId header \<noteq> rm_vaultId rm \<or> vh_epoch header \<noteq> rm_epoch rm then ret VStale
            else
              importAesKey (rm_dek rm)
                (\<lambda>dekKey. open_index_of cfg dekKey header (\<lambda>index. case index of
                   None \<Rightarrow> ret VStale
                 | Some index \<Rightarrow> (\<lambda>s.
                     case store_install generation \<lparr>vu_header = header, vu_version = version, vu_dek = rm_dek rm,
                            vu_auth = rm_auth rm, vu_dekKey = dekKey, vu_index = index\<rparr> s of
                       (False, s) \<Rightarrow> ret locked_meanwhile s
                     | (True, s) \<Rightarrow> ret VOk s)))
                (\<lambda>m. ret (VError m))
        | _ \<Rightarrow> ret (failed_read pulled))
       (\<lambda>m. ret (VError m))"

text \<open>An AUTH of another length counts as absent.\<close>

definition remembered :: "remember_record \<Rightarrow> remember_record" where
  "remembered rm = rm\<lparr>rm_auth := (case rm_auth rm of Some a \<Rightarrow> if length a = 32 then Some a else None | None \<Rightarrow> None)\<rparr>"

definition unlockWithRememberedDek :: "vault_config \<Rightarrow> remember_record \<Rightarrow> nat \<Rightarrow> vault_act" where
  "unlockWithRememberedDek cfg rm generation =
     (if length (rm_dek rm) \<noteq> 32 then ret VStale
      else
        serverStatus cfg (\<lambda>status. case status of
          Some st \<Rightarrow>
            if so_kdf st = None then remember_open cfg (remembered rm) generation
            else (case rm_auth (remembered rm) of
                    None \<Rightarrow> ret VStale
                  | Some auth \<Rightarrow>
                      if 0 < so_retryAfterMs st then ret (VRateLimited (so_retryAfterMs st))
                      else verify cfg auth (\<lambda>verdict. case verdict of
                        VerifyLocked after \<Rightarrow> ret (VRateLimited (max 0 after))
                      | VerifyWrong _ \<Rightarrow> ret VStale
                      | _ \<Rightarrow> remember_open cfg (remembered rm) generation))
        | None \<Rightarrow> remember_open cfg (remembered rm) generation))"

end
