(* ===== verification/Vault_Writes.thy ===== *)
theory Vault_Writes
  imports Vault_Store
begin

text \<open>
  The key vault store of one device (src/src/keyVault/store.ts), second half: decrypting secrets, the
  read-modify-write of the index, adding, removing and binding keys, changing the passphrase and
  resetting the vault.
\<close>

subsection \<open>Secrets\<close>

definition find_entry :: "string \<Rightarrow> vault_index \<Rightarrow> vault_entry option" where
  "find_entry keyId ix = find (\<lambda>e. ke_keyId e = keyId) (vi_keys ix)"

definition getHostBinding :: "string \<Rightarrow> vault_store \<Rightarrow> host_binding option" where
  "getHostBinding hostAlias s =
     (case current_unlocked s of None \<Rightarrow> None | Some u \<Rightarrow> map_of (vi_hosts (vu_index u)) hostAlias)"

definition getKey :: "string \<Rightarrow> vault_store \<Rightarrow> vault_entry option" where
  "getKey keyId s = (case current_unlocked s of None \<Rightarrow> None | Some u \<Rightarrow> find_entry keyId (vu_index u))"

definition listKeys :: "vault_store \<Rightarrow> vault_entry list" where
  "listKeys s = (case current_unlocked s of None \<Rightarrow> [] | Some u \<Rightarrow> vi_keys (vu_index u))"

definition getSyncPassphrase :: "vault_store \<Rightarrow> string option" where
  "getSyncPassphrase s = (case current_unlocked s of None \<Rightarrow> None | Some u \<Rightarrow> vi_sync (vu_index u))"

definition secret_of :: "vault_entry \<Rightarrow> plaintext option \<Rightarrow> vault_result" where
  "secret_of entry pt =
     (case pt of
        None \<Rightarrow> VCorrupt
      | Some (Utf8 t) \<Rightarrow> if ke_type entry = PasswordEntry then VPassword t else VKey t
      | Some _ \<Rightarrow> VError ''malformed UTF-8'')"

definition decryptKey :: "vault_config \<Rightarrow> string \<Rightarrow> vault_act" where
  "decryptKey cfg keyId s =
     (case current_unlocked s of
        None \<Rightarrow> ret VLocked s
      | Some u \<Rightarrow>
          (case find_entry keyId (vu_index u) of
             None \<Rightarrow> ret (VMissingKey keyId) s
           | Some entry \<Rightarrow>
               let generation = vs_generation s in
               pull cfg (vaultKeySlot keyId) (held_auth s)
                 (\<lambda>pulled. case pulled of
                    PullGated \<Rightarrow> ret VGated
                  | PullAbsent \<Rightarrow> ret (VMissingKey keyId)
                  | PullOk version data \<Rightarrow>
                      (\<lambda>s. case parseVaultKeyBlob data (Some (vh_vaultId (vu_header u), keyId)) of
                          None \<Rightarrow> ret VCorrupt s
                        | Some blob \<Rightarrow>
                            compute
                              (\<lambda>s. if generation \<noteq> vs_generation s then ret VLocked s
                                   else ret (secret_of entry (openKeyBlob cfg (vu_dekKey u) blob)) s)
                              (\<lambda>_ s. if generation \<noteq> vs_generation s then ret VLocked s else ret VCorrupt s) s))
                 (\<lambda>m. ret (VError m)) s))"

definition decryptKeyForHost :: "vault_config \<Rightarrow> string \<Rightarrow> vault_act" where
  "decryptKeyForHost cfg hostAlias s =
     (if vs_unlocked s = None then ret VLocked s
      else case getHostBinding hostAlias s of
             None \<Rightarrow> ret VUnbound s
           | Some binding \<Rightarrow> decryptKey cfg (hb_keyId binding) s)"

definition getPublicKey :: "vault_config \<Rightarrow> string \<Rightarrow> vault_act" where
  "getPublicKey cfg keyId s =
     (case current_unlocked s of
        None \<Rightarrow> ret (VPublicKey None) s
      | Some u \<Rightarrow>
          if \<not> id16 keyId then ret (VPublicKey None) s
          else
            pull cfg (vaultKeySlot keyId) (held_auth s)
              (\<lambda>pulled. case pulled of
                 PullOk version data \<Rightarrow>
                   (case parseVaultKeyBlob data (Some (vh_vaultId (vu_header u), keyId)) of
                      None \<Rightarrow> ret (VPublicKey None)
                    | Some blob \<Rightarrow>
                        compute (ret (VPublicKey (openKeyBlobPublicKey cfg (vu_dekKey u) blob))) (\<lambda>_. ret (VPublicKey None)))
               | _ \<Rightarrow> ret (VPublicKey None))
              (\<lambda>_. ret (VPublicKey None)) s)"

subsection \<open>Edits of the index\<close>

datatype vault_edit =
    AddEntry vault_entry
  | AddPasswordEntry vault_entry
  | RemoveEntry string
  | RenameEntry string string
  | RotateEntry string string
  | BindHost string string gateway_policy
  | UnbindHost string
  | SetSyncPassphrase "string option"

datatype edit_verdict = Unchanged | Refused vault_result | Edited vault_index

definition has_key :: "string \<Rightarrow> vault_index \<Rightarrow> bool" where
  "has_key keyId ix \<longleftrightarrow> list_ex (\<lambda>e. ke_keyId e = keyId) (vi_keys ix)"

fun update_first :: "string \<Rightarrow> (vault_entry \<Rightarrow> vault_entry) \<Rightarrow> vault_entry list \<Rightarrow> vault_entry list" where
  "update_first keyId f [] = []"
| "update_first keyId f (e # es) = (if ke_keyId e = keyId then f e # es else e # update_first keyId f es)"

fun edit_index :: "vault_edit \<Rightarrow> vault_index \<Rightarrow> edit_verdict" where
  "edit_index (AddEntry entry) ix =
     (if has_key (ke_keyId entry) ix then Unchanged else Edited (ix\<lparr>vi_keys := vi_keys ix @ [entry]\<rparr>))"
| "edit_index (AddPasswordEntry entry) ix = Edited (ix\<lparr>vi_keys := vi_keys ix @ [entry]\<rparr>)"
| "edit_index (RemoveEntry keyId) ix =
     (let ks = filter (\<lambda>e. ke_keyId e \<noteq> keyId) (vi_keys ix) in
      if length ks \<noteq> length (vi_keys ix) then Edited (ix\<lparr>vi_keys := ks\<rparr>) else Unchanged)"
| "edit_index (RenameEntry keyId name) ix =
     (let trimmed = clampVaultName name [] in
      case find_entry keyId ix of
        None \<Rightarrow> Unchanged
      | Some entry \<Rightarrow>
          if trimmed = [] \<or> ke_name entry = trimmed then Unchanged
          else Edited (ix\<lparr>vi_keys := update_first keyId (\<lambda>e. e\<lparr>ke_name := trimmed\<rparr>) (vi_keys ix)\<rparr>))"
| "edit_index (RotateEntry oldKeyId newKeyId) ix =
     (if \<not> has_key newKeyId ix \<or> oldKeyId = newKeyId then Refused (VError ''unknown replacement key'')
      else if \<not> id16 oldKeyId then Refused (VError ''invalid key id'')
      else Edited (ix\<lparr>
        vi_keys := filter (\<lambda>e. ke_keyId e \<noteq> oldKeyId)
          (update_first newKeyId (\<lambda>e. e\<lparr>ke_rotatedFrom := Some oldKeyId\<rparr>) (vi_keys ix)),
        vi_hosts := map (\<lambda>(a, b). (a, if hb_keyId b = oldKeyId then b\<lparr>hb_keyId := newKeyId\<rparr> else b)) (vi_hosts ix)\<rparr>))"
| "edit_index (BindHost hostAlias keyId policy) ix =
     (if bad_alias hostAlias then Refused (VError ''invalid host binding'')
      else if \<not> has_key keyId ix then Refused (VError ''unknown vault key'')
      else if map_of (vi_hosts ix) hostAlias = Some \<lparr>hb_keyId = keyId, hb_gatewayAuth = policy\<rparr> then Unchanged
      else Edited (ix\<lparr>vi_hosts := AList.update hostAlias \<lparr>hb_keyId = keyId, hb_gatewayAuth = policy\<rparr> (vi_hosts ix)\<rparr>))"
| "edit_index (UnbindHost hostAlias) ix =
     (if map_of (vi_hosts ix) hostAlias = None then Unchanged
      else Edited (ix\<lparr>vi_hosts := AList.delete hostAlias (vi_hosts ix)\<rparr>))"
| "edit_index (SetSyncPassphrase passphrase) ix =
     (if vi_sync ix = passphrase then Unchanged else Edited (ix\<lparr>vi_sync := passphrase\<rparr>))"

subsection \<open>Read, modify, write\<close>

definition adopt_header ::
    "vault_config \<Rightarrow> nat \<Rightarrow> (vault_result \<Rightarrow> vault_act) \<Rightarrow> vault_header \<Rightarrow> int \<Rightarrow> vault_act" where
  "adopt_header cfg a k header version s =
     open_index_of cfg (vu_dekKey (vs_heap s ! a)) header (\<lambda>index s. case index of
       None \<Rightarrow> k VVaultChanged (store_lock s)
     | Some index \<Rightarrow>
         k VOk (update_unlocked a (\<lambda>u. u\<lparr>vu_header := header, vu_version := version, vu_index := index\<rparr>) s)) s"

fun rebase_read :: "vault_config \<Rightarrow> nat \<Rightarrow> (vault_result \<Rightarrow> vault_act) \<Rightarrow> header_read \<Rightarrow> vault_act" where
  "rebase_read cfg a k HeaderGated s = k VGated s"
| "rebase_read cfg a k (HeaderOk header version) s =
     (if vh_vaultId header \<noteq> vh_vaultId (vu_header (vs_heap s ! a))
        \<or> vh_epoch header \<noteq> vh_epoch (vu_header (vs_heap s ! a))
      then k VVaultChanged (store_lock s) else adopt_header cfg a k header version s)"
| "rebase_read cfg a k pulled s = k VVaultChanged (store_lock s)"

definition rebase :: "vault_config \<Rightarrow> nat \<Rightarrow> (vault_result \<Rightarrow> vault_act) \<Rightarrow> vault_act" where
  "rebase cfg a k s = pullHeader cfg (held_auth s) (rebase_read cfg a k) (\<lambda>m. k (VError m)) s"

text \<open>Pushes a header on the version held; a conflict goes to \<open>retry\<close>.\<close>

definition push_index ::
    "vault_config \<Rightarrow> nat \<Rightarrow> vault_header \<Rightarrow> vault_index \<Rightarrow> vault_act \<Rightarrow> (vault_result \<Rightarrow> vault_act) \<Rightarrow> vault_act" where
  "push_index cfg a header index retry k s =
     (let data = serializeVaultHeader header in
      if VAULT_SLOT_LIMIT_BYTES < vc_byteLength cfg data then k VIndexFull s
      else
        push cfg VAULT_HEADER_SLOT data (vu_version (vs_heap s ! a))
          (\<lambda>pushed s. case pushed of
             PushError m \<Rightarrow> k (VError m) s
           | PushGated \<Rightarrow> k VGated s
           | PushOk version \<Rightarrow>
               k VOk (update_unlocked a (\<lambda>u. u\<lparr>vu_header := header, vu_version := version, vu_index := index\<rparr>) s)
           | PushConflict _ \<Rightarrow> retry s)
          (\<lambda>m. k (VError m)) s)"

definition rebase_retry ::
    "vault_config \<Rightarrow> nat \<Rightarrow> nat \<Rightarrow> vault_act \<Rightarrow> (vault_result \<Rightarrow> vault_act) \<Rightarrow> vault_act" where
  "rebase_retry cfg a generation retry k s =
     (if generation \<noteq> vs_generation s then k VLocked s
      else rebase cfg a (\<lambda>r s.
        if r \<noteq> VOk then k r s else if generation \<noteq> vs_generation s then k VLocked s else retry s) s)"

fun write_attempts ::
    "vault_config \<Rightarrow> nat \<Rightarrow> nat \<Rightarrow> vault_edit \<Rightarrow> nat \<Rightarrow> (vault_result \<Rightarrow> vault_act) \<Rightarrow> vault_act" where
  "write_attempts cfg a generation edit 0 k s = k VConflictLimit s"
| "write_attempts cfg a generation edit (Suc n) k s =
     (let state = vs_heap s ! a in
      case edit_index edit (vu_index state) of
        Unchanged \<Rightarrow> k VOk s
      | Refused r \<Rightarrow> k r s
      | Edited index \<Rightarrow>
          if \<not> indexRoundTrips (vc_date cfg) index then k (VError index_error) s
          else if generation \<noteq> vs_generation s then k VLocked s
          else
            case draw 12 s of (nonce, s) \<Rightarrow>
            compute
              (\<lambda>s. push_index cfg a
                 ((vu_header state)\<lparr>
                    vh_index := sealIndex cfg (vu_dekKey state) (vh_vaultId (vu_header state)) index nonce,
                    vh_updatedAt := vc_iso cfg (vs_clock s)\<rparr>)
                 index (rebase_retry cfg a generation (\<lambda>s. write_attempts cfg a generation edit n k s) k) k s)
              (\<lambda>m. ret (VThrew m)) s)"

declare write_attempts.simps(2) [simp del]

definition writeIndex :: "vault_config \<Rightarrow> vault_edit \<Rightarrow> (vault_result \<Rightarrow> vault_act) \<Rightarrow> vault_act" where
  "writeIndex cfg edit k s =
     (case vs_unlocked s of
        None \<Rightarrow> k VLocked s
      | Some a \<Rightarrow> write_attempts cfg a (vs_generation s) edit (Suc CONFLICT_RETRIES) k s)"

fun blob_attempts ::
    "vault_config \<Rightarrow> string \<Rightarrow> json_text \<Rightarrow> int \<Rightarrow> nat \<Rightarrow> (vault_result \<Rightarrow> vault_act) \<Rightarrow> vault_act" where
  "blob_attempts cfg slot data base 0 k =
     k (VError (''could not write '' @ slot @ '': too many conflicts''))"
| "blob_attempts cfg slot data base (Suc n) k =
     push cfg slot data base
       (\<lambda>pushed. case pushed of
          PushOk _ \<Rightarrow> k VOk
        | PushGated \<Rightarrow> k VGated
        | PushError m \<Rightarrow> k (VError m)
        | PushConflict current \<Rightarrow> blob_attempts cfg slot data current n k)
       (\<lambda>m. k (VError m))"

definition writeBlob :: "vault_config \<Rightarrow> string \<Rightarrow> json_text \<Rightarrow> (vault_result \<Rightarrow> vault_act) \<Rightarrow> vault_act" where
  "writeBlob cfg keyId data k = blob_attempts cfg (vaultKeySlot keyId) data 0 (Suc CONFLICT_RETRIES) k"

text \<open>A delete whose failure is ignored.\<close>

definition discard_blob :: "string \<Rightarrow> vault_act \<Rightarrow> vault_act" where
  "discard_blob keyId k = transport_delete (vaultKeySlot keyId) k (\<lambda>_. k)"

subsection \<open>Adding\<close>

text \<open>\<open>sealKeyBlob\<close> reads the key and the vault id when it is called; it seals the secret, then the public key.\<close>

definition seal_blob ::
    "vault_config \<Rightarrow> nat \<Rightarrow> string \<Rightarrow> string \<Rightarrow> string option \<Rightarrow> (json_text \<Rightarrow> vault_act) \<Rightarrow> vault_act" where
  "seal_blob cfg a keyId pt publicKey k s =
     (let dek = vu_dekKey (vs_heap s ! a); vaultId = vh_vaultId (vu_header (vs_heap s ! a)) in
      case draw 12 s of (n1, s) \<Rightarrow>
        compute
          (case publicKey of
             None \<Rightarrow> k (serializeVaultKeyBlob (sealKeyBlob cfg dek vaultId keyId pt None n1 []))
           | Some p \<Rightarrow> (\<lambda>s.
               case draw 12 s of (n2, s) \<Rightarrow>
                 compute (k (serializeVaultKeyBlob (sealKeyBlob cfg dek vaultId keyId pt (Some p) n1 n2)))
                   (\<lambda>m. ret (VThrew m)) s))
          (\<lambda>m. ret (VThrew m)) s)"

definition store_key :: "vault_config \<Rightarrow> nat \<Rightarrow> prepared_ssh_key \<Rightarrow> string \<Rightarrow> bool \<Rightarrow> vault_act" where
  "store_key cfg a key name existed =
     seal_blob cfg a (pk_keyId key) (pk_pem key) (Some (pk_publicKey key)) (\<lambda>blobData.
       if VAULT_SLOT_LIMIT_BYTES < vc_byteLength cfg blobData then ret VTooLarge
       else
         writeBlob cfg (pk_keyId key) blobData (\<lambda>wrote.
           if wrote \<noteq> VOk then ret wrote
           else (\<lambda>s.
             let entry = \<lparr>ke_keyId = pk_keyId key, ke_name = clampVaultName name (type_name (pk_type key)),
                   ke_type = pk_type key, ke_fingerprint = Some (pk_fingerprint key),
                   ke_createdAt = vc_iso cfg (vs_clock s), ke_rotatedFrom = None\<rparr> in
             writeIndex cfg (AddEntry entry) (\<lambda>result.
               if result \<noteq> VOk then
                 (if existed then ret result else discard_blob (pk_keyId key) (ret result))
               else (\<lambda>s. ret (VAdded (Some (case getKey (pk_keyId key) s of Some e \<Rightarrow> e | None \<Rightarrow> entry)) existed) s)) s)))"

definition addKey :: "vault_config \<Rightarrow> string \<Rightarrow> string \<Rightarrow> string option \<Rightarrow> vault_act" where
  "addKey cfg pem name keyPassphrase s =
     (case vs_unlocked s of
        None \<Rightarrow> ret VLocked s
      | Some a \<Rightarrow>
          compute
            (\<lambda>s. case vc_prepare cfg pem keyPassphrase of
               NotPrepared r \<Rightarrow> ret (VNotPrepared r) s
             | Prepared key \<Rightarrow>
                 if has_key (pk_keyId key) (vu_index (vs_heap s ! a)) then
                   pull cfg (vaultKeySlot (pk_keyId key)) (held_auth s)
                     (\<lambda>present. case present of
                        PullAbsent \<Rightarrow> store_key cfg a key name True
                      | PullOk version data \<Rightarrow> (\<lambda>s. ret (VAdded (getKey (pk_keyId key) s) True) s)
                      | PullGated \<Rightarrow> ret VGated)
                     (\<lambda>m. ret (VThrew m)) s
                 else store_key cfg a key name False s)
            (\<lambda>m. ret (VThrew m)) s)"

definition addPassword :: "vault_config \<Rightarrow> string \<Rightarrow> string \<Rightarrow> vault_act" where
  "addPassword cfg password name s =
     (case vs_unlocked s of
        None \<Rightarrow> ret VLocked s
      | Some a \<Rightarrow>
          if vc_utf8Length cfg password = 0 \<or> PASSWORD_MAX_BYTES < vc_utf8Length cfg password then ret VTooLarge s
          else
            case draw 16 s of (raw, s) \<Rightarrow>
            let keyId = toB64url raw in
            seal_blob cfg a keyId password None (\<lambda>blobData.
              writeBlob cfg keyId blobData (\<lambda>wrote.
                if wrote \<noteq> VOk then ret wrote
                else (\<lambda>s.
                  let entry = \<lparr>ke_keyId = keyId, ke_name = clampVaultName name ''Password'', ke_type = PasswordEntry,
                        ke_fingerprint = None, ke_createdAt = vc_iso cfg (vs_clock s), ke_rotatedFrom = None\<rparr> in
                  writeIndex cfg (AddPasswordEntry entry) (\<lambda>result.
                    if result \<noteq> VOk then discard_blob keyId (ret result)
                    else ret (VAdded (Some entry) False)) s))) s)"

subsection \<open>Removing, renaming, binding\<close>

definition removeKey :: "vault_config \<Rightarrow> string \<Rightarrow> vault_act" where
  "removeKey cfg keyId =
     writeIndex cfg (RemoveEntry keyId) (\<lambda>result.
       if result = VOk \<and> id16 keyId then discard_blob keyId (ret result) else ret result)"

definition renameKey :: "vault_config \<Rightarrow> string \<Rightarrow> string \<Rightarrow> vault_act" where
  "renameKey cfg keyId name = writeIndex cfg (RenameEntry keyId name) ret"

definition rotateKey :: "vault_config \<Rightarrow> string \<Rightarrow> string \<Rightarrow> vault_act" where
  "rotateKey cfg oldKeyId newKeyId =
     writeIndex cfg (RotateEntry oldKeyId newKeyId) (\<lambda>result.
       if result = VOk \<and> id16 oldKeyId then discard_blob oldKeyId (ret result) else ret result)"

definition bindHost :: "vault_config \<Rightarrow> string \<Rightarrow> string \<Rightarrow> gateway_policy \<Rightarrow> vault_act" where
  "bindHost cfg hostAlias keyId gatewayAuth = writeIndex cfg (BindHost hostAlias keyId gatewayAuth) ret"

definition unbindHost :: "vault_config \<Rightarrow> string \<Rightarrow> vault_act" where
  "unbindHost cfg hostAlias = writeIndex cfg (UnbindHost hostAlias) ret"

definition setSyncPassphrase :: "vault_config \<Rightarrow> string option \<Rightarrow> vault_act" where
  "setSyncPassphrase cfg passphrase = writeIndex cfg (SetSyncPassphrase passphrase) ret"

subsection \<open>Changing the passphrase\<close>

definition not_intact :: vault_result where
  "not_intact = VError ''the re-wrapped vault did not verify; nothing was written''"

text \<open>What a change pushes: the parameters, the wrapped DEK and the check value of the new passphrase.\<close>

record rewrap =
  rw_kdf :: vault_kdf
  rw_wrapped :: vault_sealed
  rw_check :: vault_sealed
  rw_kek :: bytes
  rw_auth :: bytes
  rw_oldAuth :: bytes
  rw_dek :: bytes
  rw_verified :: string

definition rewrapped :: "rewrap \<Rightarrow> string \<Rightarrow> vault_header \<Rightarrow> vault_header" where
  "rewrapped w updatedAt h =
     h\<lparr>vh_kdf := rw_kdf w, vh_wrappedDek := rw_wrapped w, vh_check := rw_check w, vh_updatedAt := updatedAt\<rparr>"

text \<open>Unwraps the new header with the new key and opens its index with what comes out.\<close>

definition reopens ::
    "vault_config \<Rightarrow> rewrap \<Rightarrow> vault_header \<Rightarrow> vault_act \<Rightarrow> vault_act" where
  "reopens cfg w header ok =
     unwrap_dek_of cfg (rw_kek w) header (\<lambda>reopened. case reopened of
       None \<Rightarrow> ret not_intact
     | Some dek \<Rightarrow>
         if dek \<noteq> rw_dek w then ret not_intact
         else
           importAesKey dek
             (\<lambda>dekKey. open_index_of cfg dekKey header (\<lambda>index. if index = None then ret not_intact else ok))
             (\<lambda>m. ret (VError m)))"

definition passphrase_changed :: "vault_config \<Rightarrow> nat \<Rightarrow> nat \<Rightarrow> rewrap \<Rightarrow> vault_header \<Rightarrow> vault_act" where
  "passphrase_changed cfg a generation w header =
     publishVerifier cfg (rw_auth w) (vh_epoch header) (Some (rw_oldAuth w)) (\<lambda>published s.
       let pending = (vc_hasVerifier cfg \<and> (case published of SetOk _ \<Rightarrow> False | _ \<Rightarrow> True));
           s = s\<lparr>vs_pending :=
             (if pending then Some \<lparr>pv_auth = rw_auth w, pv_currentAuth = rw_oldAuth w, pv_epoch = vh_epoch header\<rparr>
              else None)\<rparr>;
           s = (if generation = vs_generation s then update_unlocked a (\<lambda>u. u\<lparr>vu_auth := Some (rw_auth w)\<rparr>) s else s) in
       ret (if pending then VOkVerifierPending else VOk) s)"

definition push_rewrapped :: "vault_config \<Rightarrow> nat \<Rightarrow> nat \<Rightarrow> rewrap \<Rightarrow> vault_header \<Rightarrow> vault_act \<Rightarrow> vault_act" where
  "push_rewrapped cfg a generation w header retry s =
     push cfg VAULT_HEADER_SLOT (serializeVaultHeader header) (vu_version (vs_heap s ! a))
       (\<lambda>pushed s. case pushed of
          PushError m \<Rightarrow> ret (VError m) s
        | PushGated \<Rightarrow> ret VGated s
        | PushOk version \<Rightarrow>
            passphrase_changed cfg a generation w header
              (update_unlocked a (\<lambda>u. u\<lparr>vu_header := header, vu_version := version\<rparr>) s)
        | PushConflict _ \<Rightarrow> retry s)
       (\<lambda>m. ret (VError m)) s"

fun change_attempts :: "vault_config \<Rightarrow> nat \<Rightarrow> nat \<Rightarrow> rewrap \<Rightarrow> nat \<Rightarrow> vault_act" where
  "change_attempts cfg a generation w 0 s = ret VConflictLimit s"
| "change_attempts cfg a generation w (Suc n) s =
     (if generation \<noteq> vs_generation s then ret VLocked s
      else if sl_ct (vh_check (vu_header (vs_heap s ! a))) \<noteq> rw_verified w then ret VPassphraseChangedElsewhere s
      else
        let header = rewrapped w (vc_iso cfg (vs_clock s)) (vu_header (vs_heap s ! a)) in
        reopens cfg w header
          (push_rewrapped cfg a generation w header
             (rebase cfg a (\<lambda>r s. if r \<noteq> VOk then ret r s else change_attempts cfg a generation w n s)))
          s)"

declare change_attempts.simps(2) [simp del]

definition wrap_dek_of ::
    "vault_config \<Rightarrow> bytes \<Rightarrow> bytes \<Rightarrow> string \<Rightarrow> (vault_sealed \<times> vault_sealed \<Rightarrow> vault_act) \<Rightarrow> vault_act" where
  "wrap_dek_of cfg kek dek vaultId k s =
     (case draw 12 s of (n1, s) \<Rightarrow>
        compute
          (\<lambda>s. case draw 12 s of (n2, s) \<Rightarrow>
             compute (k (wrapDek cfg kek dek vaultId n1 n2)) (\<lambda>m. ret (VError m)) s)
          (\<lambda>m. ret (VError m)) s)"

definition kdf_choice :: "vault_config \<Rightarrow> vault_kdf \<Rightarrow> int \<times> int \<times> int" where
  "kdf_choice cfg held = (case vc_kdf cfg of Some k \<Rightarrow> k | None \<Rightarrow> (kd_m held, kd_t held, kd_p held))"

definition rewrap_and_push ::
    "vault_config \<Rightarrow> nat \<Rightarrow> nat \<Rightarrow> bytes \<Rightarrow> string \<Rightarrow> bytes \<Rightarrow> vault_kdf \<Rightarrow> bytes \<Rightarrow> bytes \<Rightarrow> vault_act" where
  "rewrap_and_push cfg a generation dek verified oldAuth kdf kek auth s =
     wrap_dek_of cfg kek dek (vh_vaultId (vu_header (vs_heap s ! a))) (\<lambda>wrapped.
       change_attempts cfg a generation
         \<lparr>rw_kdf = kdf, rw_wrapped = fst wrapped, rw_check = snd wrapped, rw_kek = kek,
          rw_auth = auth, rw_oldAuth = oldAuth, rw_dek = dek, rw_verified = verified\<rparr>
         (Suc CONFLICT_RETRIES)) s"

definition change_verified ::
    "vault_config \<Rightarrow> nat \<Rightarrow> nat \<Rightarrow> string \<Rightarrow> bytes \<Rightarrow> string \<Rightarrow> bytes \<Rightarrow> vault_act" where
  "change_verified cfg a generation next_one dek verified oldAuth s =
     (case draw 16 (s\<lparr>vs_failures := 0\<rparr>) of (salt, s) \<Rightarrow>
        (case newKdfParams (kdf_choice cfg (vh_kdf (vu_header (vs_heap s ! a)))) salt of
           None \<Rightarrow> ret (VError ''vault kdf parameters out of range'') s
         | Some kdf \<Rightarrow>
             derive_keys cfg next_one kdf (rewrap_and_push cfg a generation dek verified oldAuth kdf)
               (\<lambda>m. ret (VError m)) s))"

definition changePassphrase :: "vault_config \<Rightarrow> string \<Rightarrow> string \<Rightarrow> nat \<Rightarrow> vault_act" where
  "changePassphrase cfg current next_one generation s =
     (case vs_unlocked s of
        None \<Rightarrow> ret VLocked s
      | Some a \<Rightarrow>
          if generation \<noteq> vs_generation s then ret VLocked s
          else if 0 < backoffRemainingMs s then ret (VBackoff (backoffRemainingMs s)) s
          else
            let dek = vu_dek (vs_heap s ! a); verified = sl_ct (vh_check (vu_header (vs_heap s ! a))) in
            derive_keys cfg current (vh_kdf (vu_header (vs_heap s ! a)))
              (\<lambda>oldKek oldAuth s.
                 check_value cfg oldKek (vu_header (vs_heap s ! a)) (\<lambda>right s.
                   if \<not> right then (case recordFailure s of (delay, s) \<Rightarrow> ret (VWrongPassphrase delay) s)
                   else change_verified cfg a generation next_one dek verified oldAuth s) s)
              (\<lambda>m. ret (VError m)) s)"

definition retryVerifierPublish :: "vault_config \<Rightarrow> vault_act" where
  "retryVerifierPublish cfg = retryVerifierPublishNow cfg (\<lambda>r. ret (VSetVerifier r))"

subsection \<open>Resetting a forgotten vault\<close>

record reset_carry =
  rc_hosts :: "(string \<times> host_binding) list option"
  rc_syncPassphrase :: "string option option"
  rc_forceUnsupported :: bool

definition carried_index :: "reset_carry \<Rightarrow> vault_index option \<Rightarrow> vault_index" where
  "carried_index carry current =
     (empty_index (case rc_syncPassphrase carry of Some p \<Rightarrow> p
        | None \<Rightarrow> (case current of Some ix \<Rightarrow> vi_sync ix | None \<Rightarrow> None)))
     \<lparr>vi_hosts := (case rc_hosts carry of Some h \<Rightarrow> h
        | None \<Rightarrow> (case current of Some ix \<Rightarrow> vi_hosts ix | None \<Rightarrow> []))\<rparr>"

fun delete_key_slots :: "string list \<Rightarrow> vault_act \<Rightarrow> vault_act" where
  "delete_key_slots [] k = k"
| "delete_key_slots (slot # slots) k =
     (if keyIdFromSlot slot = None then delete_key_slots slots k
      else transport_delete slot (delete_key_slots slots k) (\<lambda>m. ret (VError m)))"

fun reset_attempts ::
    "vault_config \<Rightarrow> string \<Rightarrow> vault_index \<Rightarrow> nat \<Rightarrow> int \<Rightarrow> int \<Rightarrow> nat \<Rightarrow> vault_act" where
  "reset_attempts cfg passphrase index generation epoch base 0 s =
     ret (VError ''the vault kept changing during reset; try again'') s"
| "reset_attempts cfg passphrase index generation epoch base (Suc n) s =
     pull cfg VAULT_HEADER_SLOT (held_auth s)
       (\<lambda>pulled s.
          if pulled = PullGated
          then ret (VError ''the server hides the vault; reset it through the server (POST /vault/reset)'') s
          else
            let (epoch, base) =
              (case pulled of
                 PullOk version data \<Rightarrow>
                   (max epoch (case parseVaultHeader (vc_date cfg) data of
                      Some old \<Rightarrow> vh_epoch old + 1 | None \<Rightarrow> vs_clock s div 1000), version)
               | _ \<Rightarrow> (epoch, base)) in
            writeFreshVault cfg passphrase index epoch base generation
              (\<lambda>written. if written \<noteq> VExists then ret written
                 else reset_attempts cfg passphrase index generation epoch base n) s)
       (\<lambda>m. ret (VError m)) s"

definition reset_wipe :: "vault_config \<Rightarrow> string \<Rightarrow> vault_index \<Rightarrow> nat \<Rightarrow> int option \<Rightarrow> vault_act" where
  "reset_wipe cfg passphrase index generation serverEpoch =
     await ListSlots (\<lambda>ans. case ans of
       Listed slots \<Rightarrow>
         delete_key_slots (map fst slots)
           (reset_attempts cfg passphrase index generation (case serverEpoch of Some e \<Rightarrow> e | None \<Rightarrow> 1) 0
              (Suc CONFLICT_RETRIES))
     | Rejected m \<Rightarrow> ret (VError m)
     | _ \<Rightarrow> ret (VError []))"

definition server_reset :: "vault_config \<Rightarrow> (int option \<Rightarrow> vault_act) \<Rightarrow> vault_act" where
  "server_reset cfg k =
     (if \<not> (vc_hasVerifier cfg \<and> vc_hasReset cfg) then k None
      else
        await AskReset (\<lambda>ans. case ans of
          ResetIs ResetFreshAuth \<Rightarrow> ret VFreshAuthRequired
        | ResetIs (ResetOk epoch) \<Rightarrow> k (Some epoch)
        | _ \<Rightarrow> k None))"

definition resetVault :: "vault_config \<Rightarrow> string \<Rightarrow> reset_carry \<Rightarrow> nat \<Rightarrow> vault_act" where
  "resetVault cfg passphrase carry generation s =
     (let index = carried_index carry (map_option vu_index (current_unlocked s)) in
      if \<not> indexRoundTrips (vc_date cfg) index then ret (VError ''the host bindings to carry over are not valid'') s
      else
        let wipe = server_reset cfg (reset_wipe cfg passphrase index generation) in
        if rc_forceUnsupported carry then wipe s
        else
          pullHeader cfg (held_auth s)
            (\<lambda>existing. if existing = HeaderUnsupported then ret VUnsupportedVersion else wipe)
            (\<lambda>m. ret (VError m)) s)"

subsection \<open>Trusted hosts: the header behind them\<close>

text \<open>
  Reading a trusted host first re-reads the header of the vault that was unlocked when the call was
  made, and adopts it when it is the same vault's and not older; anything else locks the store.
\<close>

definition refresh_header :: "vault_config \<Rightarrow> nat \<Rightarrow> vault_header \<Rightarrow> int \<Rightarrow> vault_act" where
  "refresh_header cfg a header version s =
     (let state = vs_heap s ! a in
      if vh_vaultId header \<noteq> vh_vaultId (vu_header state) \<or> vh_epoch header \<noteq> vh_epoch (vu_header state)
         \<or> \<not> is_safe_integer (IntN version) \<or> version < 1
      then ret VInvalid (store_lock s)
      else if version < vu_version state then ret VRollback (store_lock s)
      else if version = vu_version state \<and> serializeVaultHeader header \<noteq> serializeVaultHeader (vu_header state)
      then ret VInvalid (store_lock s)
      else
        open_index_of cfg (vu_dekKey state) header (\<lambda>index s.
          if vs_unlocked s \<noteq> Some a then ret VLocked s
          else
            case index of
              None \<Rightarrow> ret VInvalid (store_lock s)
            | Some index \<Rightarrow>
                ret VOk (update_unlocked a (\<lambda>u. u\<lparr>vu_header := header, vu_version := version, vu_index := index\<rparr>) s)) s)"

definition refreshTrustedHostIndex :: "vault_config \<Rightarrow> nat \<Rightarrow> vault_act" where
  "refreshTrustedHostIndex cfg a s =
     (if vs_unlocked s \<noteq> Some a then ret VLocked s
      else
        pullHeader cfg (HeldAuth a)
          (\<lambda>pulled s.
             if vs_unlocked s \<noteq> Some a then ret VLocked s
             else
               case pulled of
                 HeaderGated \<Rightarrow> ret VGated s
               | HeaderOk header version \<Rightarrow> refresh_header cfg a header version s
               | _ \<Rightarrow> ret VInvalid (store_lock s))
          (\<lambda>m. ret (VThrew m)) s)"

text \<open>What \<open>getTrustedHost\<close> does before it reads the host's own slot.\<close>

definition refresh_trust :: "vault_config \<Rightarrow> nat option \<Rightarrow> vault_act" where
  "refresh_trust cfg state = (case state of None \<Rightarrow> ret VLocked | Some a \<Rightarrow> refreshTrustedHostIndex cfg a)"

end
