(* ===== verification/Vault_Contract.thy ===== *)
theory Vault_Contract
  imports Vault_Writes
begin

text \<open>
  What every operation of the key vault store promises of the header slot, whatever the other devices,
  the network and \<open>lock()\<close> do while it waits: each header it pushes is an edit of the index, or a new
  wrapping of the DEK, of exactly the version it replaces, or a fresh vault of a later epoch; it deletes
  no header; and an operation called before a \<open>lock()\<close> unlocks nothing after it.

  The history shared by the devices is the log of the header slot: version, base version and data of
  every accepted push, the latest first.
\<close>

subsection \<open>Headers that succeed one another\<close>

type_synonym header_log = "(int \<times> int \<times> json_text) list"

definition written :: "header_log \<Rightarrow> int \<Rightarrow> json_text \<Rightarrow> bool" where
  "written h v d \<longleftrightarrow> (\<exists>b. (v, b, d) \<in> set h)"

text \<open>A device knows a header by having serialized it, or by having parsed it.\<close>

definition reads :: "vault_config \<Rightarrow> json_text \<Rightarrow> vault_header \<Rightarrow> bool" where
  "reads cfg d hdr \<longleftrightarrow> d = serializeVaultHeader hdr \<or> parseVaultHeader (vc_date cfg) d = Some hdr"

text \<open>It knows the index by having opened it under the DEK, or by having sealed it.\<close>

definition index_of :: "vault_config \<Rightarrow> bytes \<Rightarrow> vault_header \<Rightarrow> vault_index \<Rightarrow> bool" where
  "index_of cfg dek hdr ix \<longleftrightarrow>
     openIndex cfg dek hdr = Some ix \<or> (\<exists>nonce. vh_index hdr = sealIndex cfg dek (vh_vaultId hdr) ix nonce)"

definition edits :: "vault_config \<Rightarrow> vault_header \<Rightarrow> json_text \<Rightarrow> bool" where
  "edits cfg hdr d \<longleftrightarrow>
     (\<exists>dek ix e ix' nonce t. index_of cfg dek hdr ix \<and> edit_index e ix = Edited ix' \<and> index_ok (vc_date cfg) ix'
        \<and> d = serializeVaultHeader (hdr\<lparr>vh_index := sealIndex cfg dek (vh_vaultId hdr) ix' nonce, vh_updatedAt := t\<rparr>))"

definition rewraps :: "vault_config \<Rightarrow> vault_header \<Rightarrow> json_text \<Rightarrow> bool" where
  "rewraps cfg hdr d \<longleftrightarrow>
     (\<exists>w t passphrase. d = serializeVaultHeader (rewrapped w t hdr)
        \<and> derivePassphraseKeys cfg passphrase (rw_kdf w) = Some (rw_kek w, rw_auth w)
        \<and> unwrapDek cfg (rw_kek w) (rewrapped w t hdr) = Some (rw_dek w) \<and> openIndex cfg (rw_dek w) hdr \<noteq> None)"

definition founds :: "vault_config \<Rightarrow> int \<Rightarrow> json_text \<Rightarrow> bool" where
  "founds cfg epoch d \<longleftrightarrow>
     (\<exists>passphrase ix r now hdr dek auth. createVaultHeader cfg passphrase ix epoch r now = Some (hdr, dek, auth)
        \<and> index_ok (vc_date cfg) ix \<and> d = serializeVaultHeader hdr)"

definition later_epoch :: "vault_config \<Rightarrow> header_log \<Rightarrow> int \<Rightarrow> int \<Rightarrow> bool" where
  "later_epoch cfg h base epoch \<longleftrightarrow>
     base = 0 \<or> (\<exists>d. written h base d \<and> (\<forall>old. parseVaultHeader (vc_date cfg) d = Some old \<longrightarrow> vh_epoch old < epoch))"

definition succeeds :: "vault_config \<Rightarrow> header_log \<Rightarrow> int \<Rightarrow> json_text \<Rightarrow> bool" where
  "succeeds cfg h base d \<longleftrightarrow>
     (\<exists>d0 hdr. written h base d0 \<and> reads cfg d0 hdr \<and> (edits cfg hdr d \<or> rewraps cfg hdr d))
     \<or> (\<exists>epoch. founds cfg epoch d \<and> later_epoch cfg h base epoch)"

subsection \<open>The contract\<close>

definition held :: "vault_config \<Rightarrow> header_log \<Rightarrow> vault_unlocked \<Rightarrow> bool" where
  "held cfg h u \<longleftrightarrow>
     (\<exists>d. written h (vu_version u) d \<and> reads cfg d (vu_header u)) \<and> index_of cfg (vu_dekKey u) (vu_header u) (vu_index u)"

definition vault_inv :: "vault_config \<Rightarrow> header_log \<Rightarrow> vault_store \<Rightarrow> bool" where
  "vault_inv cfg h s \<longleftrightarrow>
     list_all (held cfg h) (vs_heap s) \<and> (case vs_unlocked s of None \<Rightarrow> True | Some a \<Rightarrow> a < length (vs_heap s))"

definition log_grows :: "header_log \<Rightarrow> header_log \<Rightarrow> bool" where
  "log_grows h h' \<longleftrightarrow> set h \<subseteq> set h'"

text \<open>
  While an exclusive operation waits, only \<open>lock()\<close>, the clock and operations that do not write run:
  the key buffers may be wiped and the vault locked.
\<close>

definition unlocked_core :: "vault_unlocked \<Rightarrow> vault_unlocked" where
  "unlocked_core u = u\<lparr>vu_dek := [], vu_auth := None\<rparr>"

definition steady :: "vault_store \<Rightarrow> vault_store \<Rightarrow> bool" where
  "steady s s' \<longleftrightarrow>
     map unlocked_core (vs_heap s') = map unlocked_core (vs_heap s)
     \<and> (vs_unlocked s' = vs_unlocked s \<or> vs_unlocked s' = None) \<and> vs_generation s \<le> vs_generation s'"

text \<open>An operation called at generation \<open>g\<close> leaves a vault locked that was locked after that.\<close>

definition stays_locked :: "nat \<Rightarrow> vault_store \<Rightarrow> vault_store \<Rightarrow> bool" where
  "stays_locked g s s' \<longleftrightarrow>
     vs_generation s \<le> vs_generation s' \<and> (g < vs_generation s \<and> vs_unlocked s = None \<longrightarrow> vs_unlocked s' = None)"

fun log_fact :: "header_log \<Rightarrow> vault_request \<Rightarrow> vault_answer \<Rightarrow> bool" where
  "log_fact h (PullSlot slot) (Pulled (PullOk v d)) = (slot = VAULT_HEADER_SLOT \<longrightarrow> written h v d)"
| "log_fact h (PushSlot slot d b) (Pushed (PushOk v)) = (slot = VAULT_HEADER_SLOT \<longrightarrow> written h v d)"
| "log_fact h q r = True"

fun vault_legit :: "vault_config \<Rightarrow> header_log \<Rightarrow> vault_request \<Rightarrow> bool" where
  "vault_legit cfg h (PushSlot slot d b) = (slot = VAULT_HEADER_SLOT \<longrightarrow> succeeds cfg h b d)"
| "vault_legit cfg h (DeleteSlot slot) = (slot \<noteq> VAULT_HEADER_SLOT)"
| "vault_legit cfg h q = True"

lemma written_grows: "written h v d \<Longrightarrow> log_grows h h' \<Longrightarrow> written h' v d"
  by (auto simp: written_def log_grows_def)

lemma held_grows: "held cfg h u \<Longrightarrow> log_grows h h' \<Longrightarrow> held cfg h' u"
  by (auto simp: held_def intro: written_grows)

lemma later_epoch_grows: "later_epoch cfg h b e \<Longrightarrow> log_grows h h' \<Longrightarrow> later_epoch cfg h' b e"
  by (auto simp: later_epoch_def intro: written_grows)

lemma succeeds_grows: "succeeds cfg h b d \<Longrightarrow> log_grows h h' \<Longrightarrow> succeeds cfg h' b d"
  unfolding succeeds_def by (meson written_grows later_epoch_grows)

lemma vault_inv_grows: "vault_inv cfg h s \<Longrightarrow> log_grows h h' \<Longrightarrow> vault_inv cfg h' s"
  by (auto simp: vault_inv_def list_all_iff intro: held_grows)

lemma log_grows_refl [simp]: "log_grows h h" by (simp add: log_grows_def)

lemma log_grows_trans [trans]: "log_grows h h' \<Longrightarrow> log_grows h' h'' \<Longrightarrow> log_grows h h''"
  by (auto simp: log_grows_def)

lemma steady_refl [simp]: "steady s s" by (simp add: steady_def)

lemma steady_trans: "steady s s' \<Longrightarrow> steady s' s'' \<Longrightarrow> steady s s''"
  by (auto simp: steady_def)

lemma stays_locked_refl [simp]: "stays_locked g s s" by (simp add: stays_locked_def)

lemma stays_locked_trans: "stays_locked g s s' \<Longrightarrow> stays_locked g s' s'' \<Longrightarrow> stays_locked g s s''"
  by (auto simp: stays_locked_def)

interpretation vop: async_client "vault_inv cfg" log_grows steady "stays_locked g" log_fact "vault_legit cfg"
  for cfg g
proof unfold_locales
  show "vault_inv cfg h s \<Longrightarrow> log_grows h h' \<Longrightarrow> vault_inv cfg h' s" for h s h' by (rule vault_inv_grows)
  show "vault_legit cfg h q \<Longrightarrow> log_grows h h' \<Longrightarrow> vault_legit cfg h' q" for h q h'
    by (cases q) (auto intro: succeeds_grows)
qed (auto intro: log_grows_trans steady_trans stays_locked_trans)

abbreviation vgood ::
    "vault_config \<Rightarrow> nat \<Rightarrow> header_log \<Rightarrow> vault_store \<Rightarrow> vault_prog \<times> vault_store \<Rightarrow> bool" where
  "vgood cfg g \<equiv> vop.good cfg g"

subsection \<open>The pieces operations are made of\<close>

text \<open>An action that is good from every state the vault may be in by the time it runs.\<close>

definition vnext :: "vault_config \<Rightarrow> nat \<Rightarrow> header_log \<Rightarrow> vault_store \<Rightarrow> vault_act \<Rightarrow> bool" where
  "vnext cfg g h s act \<longleftrightarrow>
     (\<forall>h' s'. log_grows h h' \<longrightarrow> steady s s' \<longrightarrow> vault_inv cfg h' s' \<longrightarrow> vgood cfg g h' s' (act s'))"

lemma vnextI:
  "(\<And>h' s'. log_grows h h' \<Longrightarrow> steady s s' \<Longrightarrow> vault_inv cfg h' s' \<Longrightarrow> vgood cfg g h' s' (act s')) \<Longrightarrow> vnext cfg g h s act"
  by (simp add: vnext_def)

lemma vnextD: "vnext cfg g h s act \<Longrightarrow> vault_inv cfg h s \<Longrightarrow> vgood cfg g h s (act s)"
  by (simp add: vnext_def)

lemma vnext_mono: "vnext cfg g h s act \<Longrightarrow> log_grows h h' \<Longrightarrow> steady s s' \<Longrightarrow> vnext cfg g h' s' act"
  unfolding vnext_def by (meson log_grows_trans steady_trans)

lemma vnext_grows: "vnext cfg g h s act \<Longrightarrow> log_grows h h' \<Longrightarrow> vnext cfg g h' s act"
  by (rule vnext_mono [OF _ _ steady_refl])

lemma vnext_await:
  assumes "vault_legit cfg h q"
    and "\<And>h' r. log_grows h h' \<Longrightarrow> log_fact h' q r \<Longrightarrow> vnext cfg g h' s (k r)"
  shows "vnext cfg g h s (await q k)"
proof (rule vnextI)
  fix h' s'
  assume a: "log_grows h h'" "steady s s'" "vault_inv cfg h' s'"
  show "vgood cfg g h' s' (await q k s')"
  proof (rule vop.good_await)
    show "vault_legit cfg h' q" using vop.legit_grows assms(1) a(1) by blast
  next
    fix h'' s'' r
    assume b: "log_grows h' h''" "steady s' s''" "vault_inv cfg h'' s''" "log_fact h'' q r"
    have "vnext cfg g h'' s (k r)" using assms(2) log_grows_trans [OF a(1) b(1)] b(4) .
    then have "vnext cfg g h'' s'' (k r)"
      by (rule vnext_mono) (auto intro: steady_trans a b)
    then show "vgood cfg g h'' s'' (k r s'')" using b(3) by (rule vnextD)
  qed (use a in auto)
qed

named_theorems vault_rules

lemma vnext_ret [vault_rules]: "vnext cfg g h s (ret x)"
  by (rule vnextI) (auto intro: vop.good_ret)

lemma vnext_ret_state [vault_rules]: "vnext cfg g h s (\<lambda>s. ret (f s) s)"
  by (rule vnextI) (auto intro: vop.good_ret)

lemma vgood_ret: "vault_inv cfg h s \<Longrightarrow> vgood cfg g h s (ret x s)"
  by (rule vop.good_ret) simp_all

lemma vnext_compute [vault_rules]:
  "vnext cfg g h s ok \<Longrightarrow> (\<And>m. vnext cfg g h s (err m)) \<Longrightarrow> vnext cfg g h s (compute ok err)"
  unfolding compute_def by (rule vnext_await) (auto split: vault_answer.split intro: vnext_grows)

lemma vnext_verify [vault_rules]:
  assumes "\<And>r. vnext cfg g h s (k r)"
  shows "vnext cfg g h s (verify c auth k)"
  unfolding verify_def using assms
  by (auto split: vault_answer.split intro!: vnext_await vnext_grows [OF assms])

lemma vnext_reverify [vault_rules]: "(\<And>b. vnext cfg g h s (k b)) \<Longrightarrow> vnext cfg g h s (reverify c auth k)"
  by (rule vnextI) (auto simp: reverify_def split: option.split
    intro!: vnextD [OF vnext_mono] vnextD [OF vnext_verify [OF vnext_mono]])

lemma vnext_pull_plain:
  assumes "\<And>h' r. log_grows h h' \<Longrightarrow> (\<And>v d. r = PullOk v d \<Longrightarrow> slot = VAULT_HEADER_SLOT \<Longrightarrow> written h' v d) \<Longrightarrow>
      vnext cfg g h' s (ok r)"
    and "\<And>m. vnext cfg g h s (err m)"
  shows "vnext cfg g h s (transport_pull slot ok err)"
  unfolding transport_pull_def
proof (rule vnext_await)
  fix h' r
  assume "log_grows h h'" and "log_fact h' (PullSlot slot) r"
  then show "vnext cfg g h' s (case r of Pulled r \<Rightarrow> ok r | Rejected m \<Rightarrow> err m | _ \<Rightarrow> err [])"
    by (auto split: vault_answer.split intro!: assms(1) intro: vnext_grows [OF assms(2)])
qed simp

lemma vnext_pull [vault_rules]:
  assumes ok: "\<And>h' r. log_grows h h' \<Longrightarrow> (\<And>v d. r = PullOk v d \<Longrightarrow> slot = VAULT_HEADER_SLOT \<Longrightarrow> written h' v d) \<Longrightarrow>
      vnext cfg g h' s (ok r)"
    and err: "\<And>m. vnext cfg g h s (err m)"
  shows "vnext cfg g h s (pull c slot auth ok err)"
  unfolding pull_def
proof (rule vnext_pull_plain [OF _ err])
  fix h' r
  assume h': "log_grows h h'" and r: "\<And>v d. r = PullOk v d \<Longrightarrow> slot = VAULT_HEADER_SLOT \<Longrightarrow> written h' v d"
  have ok': "vnext cfg g h' s (ok r)" using ok h' r by blast
  have again: "vnext cfg g h' s (transport_pull slot ok err)"
  proof (rule vnext_pull_plain)
    fix h'' r
    assume "log_grows h' h''" and "\<And>v d. r = PullOk v d \<Longrightarrow> slot = VAULT_HEADER_SLOT \<Longrightarrow> written h'' v d"
    with h' show "vnext cfg g h'' s (ok r)" by (auto intro!: ok intro: log_grows_trans)
  qed (rule vnext_grows [OF err h'])
  show "vnext cfg g h' s (if r \<noteq> PullGated then ok r
      else reverify c auth (\<lambda>again. if again then transport_pull slot ok err else ok r))"
    using ok' again by (auto intro: vnext_reverify)
qed

lemma vnext_push_plain:
  assumes "slot = VAULT_HEADER_SLOT \<Longrightarrow> succeeds cfg h base d"
    and "\<And>h' r. log_grows h h' \<Longrightarrow> (\<And>v. r = PushOk v \<Longrightarrow> slot = VAULT_HEADER_SLOT \<Longrightarrow> written h' v d) \<Longrightarrow>
      vnext cfg g h' s (ok r)"
    and "\<And>m. vnext cfg g h s (err m)"
  shows "vnext cfg g h s (transport_push slot d base ok err)"
  unfolding transport_push_def
proof (rule vnext_await)
  show "vault_legit cfg h (PushSlot slot d base)" using assms(1) by simp
  fix h' r
  assume "log_grows h h'" and "log_fact h' (PushSlot slot d base) r"
  then show "vnext cfg g h' s (case r of Pushed r \<Rightarrow> ok r | Rejected m \<Rightarrow> err m | _ \<Rightarrow> err [])"
    by (auto split: vault_answer.split intro!: assms(2) intro: vnext_grows [OF assms(3)])
qed

lemma vnext_push [vault_rules]:
  assumes legit: "slot = VAULT_HEADER_SLOT \<Longrightarrow> succeeds cfg h base d"
    and ok: "\<And>h' r. log_grows h h' \<Longrightarrow> (\<And>v. r = PushOk v \<Longrightarrow> slot = VAULT_HEADER_SLOT \<Longrightarrow> written h' v d) \<Longrightarrow>
      vnext cfg g h' s (ok r)"
    and err: "\<And>m. vnext cfg g h s (err m)"
  shows "vnext cfg g h s (push c slot d base ok err)"
proof -
  have "vnext cfg g h s (transport_push slot d base (\<lambda>r s. if r \<noteq> PushGated then ok r s
            else reverify c (held_auth s) (\<lambda>again. if again then transport_push slot d base ok err else ok r) s) err)"
  proof (rule vnext_push_plain [OF legit _ err])
    fix h' r
    assume h': "log_grows h h'" and r: "\<And>v. r = PushOk v \<Longrightarrow> slot = VAULT_HEADER_SLOT \<Longrightarrow> written h' v d"
    have ok': "vnext cfg g h' s (ok r)" using ok h' r by blast
    have again: "vnext cfg g h' s (transport_push slot d base ok err)"
    proof (rule vnext_push_plain)
      show "succeeds cfg h' base d" if "slot = VAULT_HEADER_SLOT" using legit [OF that] h' by (rule succeeds_grows)
      fix h'' r
      assume "log_grows h' h''" and "\<And>v. r = PushOk v \<Longrightarrow> slot = VAULT_HEADER_SLOT \<Longrightarrow> written h'' v d"
      with h' show "vnext cfg g h'' s (ok r)" by (auto intro!: ok intro: log_grows_trans)
    qed (rule vnext_grows [OF err h'])
    have "vnext cfg g h' s (reverify c auth (\<lambda>again. if again then transport_push slot d base ok err else ok r))" for auth
      using ok' again by (auto intro: vnext_reverify)
    with ok' show "vnext cfg g h' s (\<lambda>s. if r \<noteq> PushGated then ok r s
            else reverify c (held_auth s) (\<lambda>again. if again then transport_push slot d base ok err else ok r) s)"
      by (auto simp: vnext_def)
  qed simp_all
  then show ?thesis by (simp add: push_def [abs_def])
qed

lemma vnext_delete [vault_rules]:
  assumes "slot \<noteq> VAULT_HEADER_SLOT" and "vnext cfg g h s ok" and "\<And>m. vnext cfg g h s (err m)"
  shows "vnext cfg g h s (transport_delete slot ok err)"
  unfolding transport_delete_def using assms(1)
  by (auto split: vault_answer.split intro!: vnext_await vnext_grows [OF assms(2)] vnext_grows [OF assms(3)])

text \<open>What a device knows after reading the header.\<close>

fun knows :: "vault_config \<Rightarrow> header_log \<Rightarrow> header_read \<Rightarrow> bool" where
  "knows cfg h (HeaderOk hdr v) = (\<exists>d. written h v d \<and> reads cfg d hdr)"
| "knows cfg h r = True"

lemma vnext_pullHeader [vault_rules]:
  assumes "\<And>h' r. log_grows h h' \<Longrightarrow> knows cfg h' r \<Longrightarrow> vnext cfg g h' s (ok r)" and "\<And>m. vnext cfg g h s (err m)"
  shows "vnext cfg g h s (pullHeader cfg auth ok err)"
  unfolding pullHeader_def
proof (rule vnext_pull [OF _ assms(2)])
  fix h' r
  assume h': "log_grows h h'"
    and r: "\<And>v d. r = PullOk v d \<Longrightarrow> VAULT_HEADER_SLOT = VAULT_HEADER_SLOT \<Longrightarrow> written h' v d"
  have "knows cfg h' (read_header cfg r)"
    using r by (cases r) (auto simp: read_header_def reads_def split: option.split)
  with assms(1) h' show "vnext cfg g h' s (ok (read_header cfg r))" by blast
qed

declare knows.simps(1) [simp del]

lemma vnext_check [vault_rules]: "(\<And>b. vnext cfg g h s (k b)) \<Longrightarrow> vnext cfg g h s (check_value c kek hdr k)"
  by (simp add: check_value_def vnext_compute)

lemma vnext_unwrap [vault_rules]:
  "vnext cfg g h s (k (unwrapDek c kek hdr)) \<Longrightarrow> vnext cfg g h s (k None) \<Longrightarrow> vnext cfg g h s (unwrap_dek_of c kek hdr k)"
  by (simp add: unwrap_dek_of_def vnext_compute)

lemma vnext_open_index [vault_rules]:
  "vnext cfg g h s (k (openIndex c key hdr)) \<Longrightarrow> vnext cfg g h s (k None) \<Longrightarrow> vnext cfg g h s (open_index_of c key hdr k)"
  by (simp add: open_index_of_def vnext_compute)

lemma vnext_import [vault_rules]:
  "vnext cfg g h s (ok raw) \<Longrightarrow> (\<And>m. vnext cfg g h s (err m)) \<Longrightarrow> vnext cfg g h s (importAesKey raw ok err)"
  by (simp add: importAesKey_def vnext_compute)

lemma vnext_derive [vault_rules]:
  "(\<And>kek auth. derivePassphraseKeys c passphrase kdf = Some (kek, auth) \<Longrightarrow> vnext cfg g h s (ok kek auth)) \<Longrightarrow>
   (\<And>m. vnext cfg g h s (err m)) \<Longrightarrow> vnext cfg g h s (derive_keys c passphrase kdf ok err)"
  by (auto simp: derive_keys_def vnext_compute split: option.split prod.split)

lemma vnext_publish [vault_rules]:
  assumes "\<And>r. vnext cfg g h s (k r)"
  shows "vnext cfg g h s (publishVerifier c auth epoch current k)"
  unfolding publishVerifier_def using assms
  by (auto split: vault_answer.split set_verifier_result.split
    intro!: vnext_await vnext_grows [OF assms])
    (erule (1) log_grows_trans)+

lemma vnext_status [vault_rules]:
  assumes "\<And>r. vnext cfg g h s (k r)"
  shows "vnext cfg g h s (serverStatus c k)"
  unfolding serverStatus_def using assms
  by (auto split: vault_answer.split intro!: vnext_await vnext_grows [OF assms])

text \<open>Changes between two waits.\<close>

lemma held_core: "held cfg h (unlocked_core u) = held cfg h u"
  by (simp add: held_def unlocked_core_def)

lemma vault_inv_steady:
  assumes "vault_inv cfg h s" and "steady s s'"
  shows "vault_inv cfg h s'"
proof -
  have m: "map unlocked_core (vs_heap s') = map unlocked_core (vs_heap s)"
    using assms(2) by (simp add: steady_def)
  have core: "list_all (held cfg h) xs = list_all (held cfg h) (map unlocked_core xs)" for xs
    by (induction xs) (simp_all add: held_core)
  have "length (vs_heap s') = length (vs_heap s)" using m by (metis length_map)
  moreover have "list_all (held cfg h) (vs_heap s') = list_all (held cfg h) (vs_heap s)"
    using core [of "vs_heap s"] core [of "vs_heap s'"] m by simp
  ultimately show ?thesis
    using assms by (auto simp: vault_inv_def steady_def split: option.splits)
qed

lemma steady_locked: "steady s s' \<Longrightarrow> stays_locked g s s'"
  by (auto simp: steady_def stays_locked_def)

lemma vgood_at:
  assumes "vnext cfg g h s act" and "vault_inv cfg h s" and "steady s s'"
  shows "vgood cfg g h s (act s')"
proof (rule vop.good_from)
  have "vnext cfg g h s' act" using assms(1) log_grows_refl assms(3) by (rule vnext_mono)
  then show "vgood cfg g h s' (act s')" by (rule vnextD) (rule vault_inv_steady [OF assms(2,3)])
qed (rule steady_locked [OF assms(3)])

lemma core_fields:
  "unlocked_core u = unlocked_core v \<Longrightarrow>
     vu_header u = vu_header v \<and> vu_version u = vu_version v \<and> vu_index u = vu_index v \<and> vu_dekKey u = vu_dekKey v"
  by (cases u, cases v) (simp add: unlocked_core_def)

lemma steady_core:
  assumes "steady s s'" and "a < length (vs_heap s)"
  shows "vu_header (vs_heap s' ! a) = vu_header (vs_heap s ! a)" "vu_version (vs_heap s' ! a) = vu_version (vs_heap s ! a)"
    "vu_index (vs_heap s' ! a) = vu_index (vs_heap s ! a)" "vu_dekKey (vs_heap s' ! a) = vu_dekKey (vs_heap s ! a)"
    "length (vs_heap s') = length (vs_heap s)"
proof -
  have m: "map unlocked_core (vs_heap s') = map unlocked_core (vs_heap s)"
    using assms(1) by (simp add: steady_def)
  show l: "length (vs_heap s') = length (vs_heap s)" using m by (metis length_map)
  have "unlocked_core (vs_heap s' ! a) = unlocked_core (vs_heap s ! a)"
    using m l assms(2) by (metis nth_map)
  from core_fields [OF this]
  show "vu_header (vs_heap s' ! a) = vu_header (vs_heap s ! a)" "vu_version (vs_heap s' ! a) = vu_version (vs_heap s ! a)"
    "vu_index (vs_heap s' ! a) = vu_index (vs_heap s ! a)" "vu_dekKey (vs_heap s' ! a) = vu_dekKey (vs_heap s ! a)"
    by simp_all
qed

lemma wipe_core [simp]: "unlocked_core (wipe_unlocked u) = unlocked_core u"
  by (simp add: unlocked_core_def wipe_unlocked_def)

lemma map_core_update [simp]:
  assumes "unlocked_core (f (xs ! a)) = unlocked_core (xs ! a)"
  shows "map unlocked_core (xs[a := f (xs ! a)]) = map unlocked_core xs"
  by (metis assms list_update_beyond list_update_id map_update not_le nth_map)

lemma steady_simps [simp]:
  "steady s (s\<lparr>vs_draws := n\<rparr>)" "steady s (s\<lparr>vs_pending := p\<rparr>)" "steady s (s\<lparr>vs_failures := m\<rparr>)"
  "steady s (s\<lparr>vs_failures := m, vs_blockedUntil := b\<rparr>)" "steady s (s\<lparr>vs_clock := t\<rparr>)"
  by (simp_all add: steady_def)

lemma steady_drop [simp]: "steady s (store_drop s)"
  by (simp add: steady_def store_drop_def update_unlocked_def split: option.split)

lemma steady_lock [simp]: "steady s (store_lock s)"
proof (rule steady_trans)
  show "steady s (s\<lparr>vs_generation := Suc (vs_generation s), vs_pending := None\<rparr>)" by (simp add: steady_def)
qed (simp add: store_lock_def)

lemma vgood_draw:
  assumes "vault_inv cfg h s" and "\<And>x. vnext cfg g h s (act x)"
  shows "vgood cfg g h s (case draw n s of (x, s1) \<Rightarrow> act x s1)"
  using assms by (simp add: draw_def vgood_at)

lemma vnext_draw [vault_rules]:
  "(\<And>x. vnext cfg g h s (act x)) \<Longrightarrow> vnext cfg g h s (\<lambda>s. case draw n s of (x, s1) \<Rightarrow> act x s1)"
  by (rule vnextI) (auto intro!: vgood_draw intro: vnext_mono)

lemma vnext_steady:
  "(\<And>s. steady s (f s)) \<Longrightarrow> vnext cfg g h s act \<Longrightarrow> vnext cfg g h s (\<lambda>s. act (f s))"
  by (rule vnextI) (auto intro!: vgood_at intro: vnext_mono)

lemma vnext_failure [vault_rules]:
  "(\<And>d. vnext cfg g h s (act d)) \<Longrightarrow> vnext cfg g h s (\<lambda>s. case recordFailure s of (delay, s1) \<Rightarrow> act delay s1)"
  by (rule vnextI) (auto simp: recordFailure_def Let_def intro!: vgood_at intro: vnext_mono)

lemma vgood_ret_at: "vault_inv cfg h s \<Longrightarrow> steady s s' \<Longrightarrow> vgood cfg g h s (ret x s')"
  by (rule vgood_at [OF vnext_ret])

lemma vnext_if [vault_rules]:
  "vnext cfg g h s act \<Longrightarrow> vnext cfg g h s act' \<Longrightarrow> vnext cfg g h s (\<lambda>s. if P s then act s else act' s)"
  by (simp add: vnext_def)

lemma knows_grows: "knows cfg h r \<Longrightarrow> log_grows h h' \<Longrightarrow> knows cfg h' r"
  by (cases r) (auto simp: knows.simps intro: written_grows)

lemma vnext_install:
  assumes "held cfg h u"
    and "\<And>h' s1. log_grows h h' \<Longrightarrow> vault_inv cfg h' s1 \<Longrightarrow> vgood cfg gen h' s1 (act True s1)"
    and "vnext cfg gen h s (act False)"
  shows "vnext cfg gen h s (\<lambda>s. case store_install gen u s of (b, s1) \<Rightarrow> act b s1)"
proof (rule vnextI)
  fix h' s'
  assume a: "log_grows h h'" "steady s s'" "vault_inv cfg h' s'"
  show "vgood cfg gen h' s' (case store_install gen u s' of (b, s1) \<Rightarrow> act b s1)"
  proof (cases "gen = vs_generation s'")
    case False
    then show ?thesis
      using assms(3) a by (simp add: store_install_def vnext_def)
  next
    case True
    let ?s1 = "(store_drop s')\<lparr>vs_heap := vs_heap (store_drop s') @ [u], vs_unlocked := Some (length (vs_heap (store_drop s')))\<rparr>"
    have g1: "vs_generation ?s1 = vs_generation s'"
      by (simp add: store_drop_def update_unlocked_def split: option.split)
    have "vault_inv cfg h' (store_drop s')" using a(3) by (rule vault_inv_steady) simp
    then have "vault_inv cfg h' ?s1" using held_grows [OF assms(1) a(1)] by (simp add: vault_inv_def)
    then have "vgood cfg gen h' ?s1 (act True ?s1)" using assms(2) a(1) by blast
    then have "vgood cfg gen h' s' (act True ?s1)"
      by (rule vop.good_from) (use True g1 in \<open>simp add: stays_locked_def\<close>)
    then show ?thesis using True by (simp add: store_install_def Let_def)
  qed
qed

end
