(* ===== verification/Vault_Ops.thy ===== *)
theory Vault_Ops
  imports Vault_Contract
begin

text \<open>
  Every operation of the key vault store keeps the contract of \<open>Vault_Contract\<close>.
\<close>

subsection \<open>Creating and unlocking\<close>

lemma steady_no_failures [simp]: "steady s (no_failures s)"
  by (simp add: no_failures_def)

lemma vnext_case_bool:
  "vnext cfg g h s (act True) \<Longrightarrow> vnext cfg g h s (act False) \<Longrightarrow> vnext cfg g h s (act b)"
  by (cases b) simp_all

lemma vnext_retry [vault_rules]:
  assumes "\<And>r. vnext cfg g h s (k r)"
  shows "vnext cfg g h s (retryVerifierPublishNow c k)"
proof (rule vnextI)
  fix h' s'
  assume a: "log_grows h h'" "steady s s'" "vault_inv cfg h' s'"
  have k: "vnext cfg g h' s' (k r)" for r using assms a(1,2) by (rule vnext_mono)
  have k': "vnext cfg g h' s' (\<lambda>s. case r of SetOk _ \<Rightarrow> k r (s\<lparr>vs_pending := None\<rparr>) | _ \<Rightarrow> k r s)" for r
    by (cases r) (auto intro: k vnext_steady [OF _ k])
  have "vnext cfg g h' s' (publishVerifier c auth epoch cur
      (\<lambda>r s. case r of SetOk _ \<Rightarrow> k r (s\<lparr>vs_pending := None\<rparr>) | _ \<Rightarrow> k r s))" for auth epoch cur
    by (rule vnext_publish) (rule k')
  with k show "vgood cfg g h' s' (retryVerifierPublishNow c k s')"
    using a(3) by (auto simp: retryVerifierPublishNow_def split: option.split intro: vnextD)
qed

lemma vnext_open_vault:
  assumes "knows cfg h (HeaderOk header version)"
  shows "vnext cfg gen h s (open_vault cfg gen kek auth header version)"
proof -
  have inst: "vnext cfg gen h s (\<lambda>s. case store_install gen \<lparr>vu_header = header, vu_version = version, vu_dek = dek,
        vu_auth = Some auth, vu_dekKey = dek, vu_index = index\<rparr> s of
      (False, s) \<Rightarrow> ret locked_meanwhile s | (True, s) \<Rightarrow> ret VOk (no_failures s))"
    if "openIndex cfg dek header = Some index" for dek index
    by (rule vnext_install) (use assms that in \<open>auto simp: held_def index_of_def knows.simps intro: vgood_ret_at vault_rules\<close>)
  show ?thesis
    unfolding open_vault_def
    by (intro vault_rules) (auto split: option.split intro!: vault_rules inst)
qed

lemma vnext_check_passphrase:
  assumes "knows cfg h (HeaderOk header version)"
  shows "vnext cfg gen h s (check_passphrase cfg gen status verdict kek auth header version)"
proof -
  note open_rule = vnext_open_vault [OF assms]
  have right: "vnext cfg gen h s (case verdict of
          VerifyNoVerifier \<Rightarrow>
            publishVerifier cfg auth e None (\<lambda>_. open_vault cfg gen kek auth header version)
        | VerifyWrong _ \<Rightarrow> (\<lambda>s.
            if map_option pv_auth (vs_pending s) = Some auth
            then retryVerifierPublishNow cfg (\<lambda>_. open_vault cfg gen kek auth header version) s
            else open_vault cfg gen kek auth header version s)
        | _ \<Rightarrow> open_vault cfg gen kek auth header version)" for e
    by (cases verdict) (auto intro!: vault_rules open_rule)
  have "vnext cfg gen h s (\<lambda>s. case verdict of
          VerifyNoVerifier \<Rightarrow>
            publishVerifier cfg auth e None (\<lambda>_. open_vault cfg gen kek auth header version) s
        | VerifyWrong _ \<Rightarrow>
            if map_option pv_auth (vs_pending s) = Some auth
            then retryVerifierPublishNow cfg (\<lambda>_. open_vault cfg gen kek auth header version) s
            else open_vault cfg gen kek auth header version s
        | _ \<Rightarrow> open_vault cfg gen kek auth header version s)" for e
    using right [of e] by (cases verdict) simp_all
  then show ?thesis
    unfolding check_passphrase_def by (intro vault_rules)
qed

lemma vnext_unlock_gated: "vnext cfg gen h s (unlock_gated cfg passphrase gen status kdf)"
proof -
  have "vnext cfg gen h s (case verdict of
          VerifyLocked after \<Rightarrow> ret (VRateLimited (max 0 after))
        | VerifyWrong after \<Rightarrow> (\<lambda>s. case recordFailure s of (delay, s) \<Rightarrow> ret (VWrongPassphrase (max delay after)) s)
        | _ \<Rightarrow>
            pullHeader cfg NoAuth
              (\<lambda>pulled. case pulled of
                 HeaderOk header version \<Rightarrow>
                   if vh_kdf header = kdf
                   then check_passphrase cfg gen (Some status) verdict kek auth header version
                   else derive_keys cfg passphrase (vh_kdf header)
                     (\<lambda>kek auth. check_passphrase cfg gen (Some status) verdict kek auth header version)
                     (\<lambda>m. ret (VError m))
               | HeaderGated \<Rightarrow> ret (VError ''the server still hides the vault after a verify'')
               | _ \<Rightarrow> ret (failed_read pulled))
              (\<lambda>m. ret (VError m)))" for verdict kek auth
    by (cases verdict)
      (auto intro!: vault_rules split: header_read.split intro: vnext_check_passphrase)
  then show ?thesis unfolding unlock_gated_def by (intro vault_rules)
qed

lemma vnext_unlock_open: "vnext cfg gen h s (unlock_open cfg passphrase gen status)"
proof -
  have "vnext cfg gen h s (case verdict of
          VerifyLocked after \<Rightarrow> ret (VRateLimited (max 0 after))
        | _ \<Rightarrow> check_passphrase cfg gen status verdict kek auth header version)"
    if "knows cfg h (HeaderOk header version)" for h verdict kek auth header version
    using that by (cases verdict) (auto intro!: vault_rules intro: vnext_check_passphrase)
  then show ?thesis
    unfolding unlock_open_def by (intro vault_rules) (auto split: header_read.split intro!: vault_rules)
qed

lemma vnext_unlock: "vnext cfg gen h s (vault_unlock cfg passphrase gen)"
  unfolding vault_unlock_def
  by (intro vault_rules) (auto split: option.split intro!: vault_rules vnext_unlock_gated vnext_unlock_open)

lemma vnext_remember_open: "vnext cfg gen h s (remember_open cfg rm gen)"
proof -
  have inst: "vnext cfg gen h s (\<lambda>s. case store_install gen \<lparr>vu_header = header, vu_version = version, vu_dek = rm_dek rm,
        vu_auth = rm_auth rm, vu_dekKey = rm_dek rm, vu_index = index\<rparr> s of
      (False, s) \<Rightarrow> ret locked_meanwhile s | (True, s) \<Rightarrow> ret VOk s)"
    if "knows cfg h (HeaderOk header version)" and "openIndex cfg (rm_dek rm) header = Some index" for h header version index
    by (rule vnext_install) (use that in \<open>auto simp: held_def index_of_def knows.simps intro: vgood_ret vault_rules\<close>)
  show ?thesis
    unfolding remember_open_def
    by (intro vault_rules) (auto split: header_read.split option.split intro!: vault_rules inst)
qed

lemma vnext_unlock_remembered: "vnext cfg gen h s (unlockWithRememberedDek cfg rm gen)"
proof -
  have v: "vnext cfg gen h s (case verdict of
          VerifyLocked after \<Rightarrow> ret (VRateLimited (max 0 after)) | VerifyWrong _ \<Rightarrow> ret VStale
        | _ \<Rightarrow> remember_open cfg (remembered rm) gen)" for verdict
    by (cases verdict) (auto intro!: vault_rules vnext_remember_open)
  show ?thesis
    unfolding unlockWithRememberedDek_def
    by (auto split: option.split intro!: vault_rules vnext_remember_open v)
qed

lemma founds_later:
  assumes "createVaultHeader cfg passphrase index epoch r now = Some (header, dek, auth)"
    and "index_ok (vc_date cfg) index" and "later_epoch cfg h base epoch"
  shows "succeeds cfg h base (serializeVaultHeader header)"
  using assms unfolding succeeds_def founds_def by blast

lemma created_held:
  assumes "createVaultHeader cfg passphrase index epoch r now = Some (header, dek, auth)"
    and "written h version (serializeVaultHeader header)"
  shows "held cfg h \<lparr>vu_header = header, vu_version = version, vu_dek = dek, vu_auth = x, vu_dekKey = dek, vu_index = index\<rparr>"
  using assms
  by (auto simp: held_def reads_def index_of_def createVaultHeader_def Let_def split: option.splits prod.splits)

text \<open>A continuation that is good from every state of the vault.\<close>

definition vfine :: "vault_config \<Rightarrow> nat \<Rightarrow> header_log \<Rightarrow> (vault_result \<Rightarrow> vault_act) \<Rightarrow> bool" where
  "vfine cfg g h k \<longleftrightarrow> (\<forall>h' s' r. log_grows h h' \<longrightarrow> vault_inv cfg h' s' \<longrightarrow> vgood cfg g h' s' (k r s'))"

lemma vfine_grows: "vfine cfg g h k \<Longrightarrow> log_grows h h' \<Longrightarrow> vfine cfg g h' k"
  unfolding vfine_def by (meson log_grows_trans)

lemma vfine_next: "vfine cfg g h k \<Longrightarrow> vnext cfg g h s (k r)"
  by (simp add: vfine_def vnext_def)

lemma vfine_good: "vfine cfg g h k \<Longrightarrow> vault_inv cfg h s \<Longrightarrow> vgood cfg g h s (k r s)"
  by (simp add: vfine_def)

lemma vfine_ret [vault_rules]: "vfine cfg g h ret"
  by (simp add: vfine_def vgood_ret)

lemma vnext_fresh_written:
  assumes "held cfg h \<lparr>vu_header = header, vu_version = version, vu_dek = dek, vu_auth = Some auth, vu_dekKey = dek,
      vu_index = index\<rparr>" and k: "vfine cfg gen h k"
  shows "vnext cfg gen h s (fresh_written cfg header version dek auth index gen k)"
proof -
  have "vgood cfg gen h' s' (k r (no_failures s'))" if "log_grows h h'" "vault_inv cfg h' s'" for h' s' r
    using that by (auto intro!: vgood_at vfine_next intro: vfine_grows [OF k])
  then have "vnext cfg gen h s (\<lambda>s. case store_install gen \<lparr>vu_header = header, vu_version = version, vu_dek = dek,
        vu_auth = Some auth, vu_dekKey = dek, vu_index = index\<rparr> s of
      (False, s) \<Rightarrow> k VOk s | (True, s) \<Rightarrow> k VOk (no_failures s))"
    by (intro vnext_install) (auto intro: assms vfine_next [OF k])
  then show ?thesis unfolding fresh_written_def by (intro vault_rules)
qed

lemma vnext_push_fresh:
  assumes made: "createVaultHeader cfg passphrase index epoch r now = Some (header, dek, auth)"
    and "index_ok (vc_date cfg) index" and "later_epoch cfg h base epoch" and k: "vfine cfg gen h k"
  shows "vnext cfg gen h s (push_fresh cfg header dek auth index base gen k)"
proof -
  have "vnext cfg gen h s (transport_push VAULT_HEADER_SLOT (serializeVaultHeader header) base
        (\<lambda>pushed. case pushed of
           PushError m \<Rightarrow> k (VError m)
         | PushOk version \<Rightarrow> fresh_written cfg header version dek auth index gen k
         | _ \<Rightarrow> k VExists) (\<lambda>m. ret (VError m)))"
  proof (rule vnext_push_plain)
    fix h' r
    assume h': "log_grows h h'"
      and r: "\<And>v. r = PushOk v \<Longrightarrow> VAULT_HEADER_SLOT = VAULT_HEADER_SLOT \<Longrightarrow> written h' v (serializeVaultHeader header)"
    show "vnext cfg gen h' s (case r of PushError m \<Rightarrow> k (VError m)
        | PushOk version \<Rightarrow> fresh_written cfg header version dek auth index gen k | _ \<Rightarrow> k VExists)"
      using r by (cases r)
        (auto intro!: vnext_fresh_written created_held [OF made] vfine_next [OF vfine_grows [OF k h']] vfine_grows [OF k h'])
  qed (use assms in \<open>auto intro: founds_later vault_rules\<close>)
  then show ?thesis by (auto simp: push_fresh_def Let_def intro: vfine_next [OF k])
qed

lemma vnext_fresh:
  assumes "later_epoch cfg h base epoch" and k: "vfine cfg gen h k"
  shows "vnext cfg gen h s (writeFreshVault cfg passphrase index epoch base gen k)"
proof -
  have made: "vnext cfg gen h s (\<lambda>s. case createVaultHeader cfg passphrase index epoch r (vs_clock s) of
               None \<Rightarrow> ret (VError ''vault kdf parameters out of range'') s
             | Some (header, dek, auth) \<Rightarrow> push_fresh cfg header dek auth index base gen k s)"
    if ok: "index_ok (vc_date cfg) index" for r s
  proof (rule vnextI)
    fix h' s'
    assume a: "log_grows h h'" "vault_inv cfg h' s'"
    show "vgood cfg gen h' s' (case createVaultHeader cfg passphrase index epoch r (vs_clock s') of
               None \<Rightarrow> ret (VError ''vault kdf parameters out of range'') s'
             | Some (header, dek, auth) \<Rightarrow> push_fresh cfg header dek auth index base gen k s')"
      using a ok by (auto split: option.split prod.split
        intro!: vgood_ret vnextD [OF vnext_push_fresh] intro: vfine_grows [OF k] later_epoch_grows [OF assms(1)])
  qed
  have drawn: "vnext cfg gen h s (\<lambda>s. case draw_header s of (r, s) \<Rightarrow>
          compute
            (\<lambda>s. case createVaultHeader cfg passphrase index epoch r (vs_clock s) of
               None \<Rightarrow> ret (VError ''vault kdf parameters out of range'') s
             | Some (header, dek, auth) \<Rightarrow> push_fresh cfg header dek auth index base gen k s)
            (\<lambda>m. ret (VError m)) s)" if "index_ok (vc_date cfg) index"
    unfolding draw_header_def draw_def
    by (rule vnextI) (auto intro!: vgood_at vault_rules made [OF that] vnext_grows [OF made [OF that]])
  show ?thesis
  proof (cases "index_ok (vc_date cfg) index")
    case True
    then show ?thesis using drawn by (simp add: writeFreshVault_def [abs_def] indexRoundTrips_iff)
  next
    case False
    then show ?thesis using k by (simp add: writeFreshVault_def [abs_def] indexRoundTrips_iff vfine_next)
  qed
qed

lemma vnext_create: "vnext cfg gen h s (createVault cfg passphrase sync gen)"
proof (rule vnextI)
  fix h' s'
  assume "vault_inv cfg h' s'"
  then show "vgood cfg gen h' s' (createVault cfg passphrase sync gen s')"
    unfolding createVault_def
    by (intro vnextD [OF vnext_pullHeader])
      (auto intro!: vault_rules vnext_fresh intro: vgood_ret simp: later_epoch_def)
qed

subsection \<open>Blobs\<close>

lemma key_slot_not_header [simp]: "vaultKeySlot keyId \<noteq> VAULT_HEADER_SLOT"
  by (simp add: vaultKeySlot_def VAULT_KEY_SLOT_PREFIX_def VAULT_HEADER_SLOT_def)

lemma vnext_discard [vault_rules]: "vnext cfg g h s k \<Longrightarrow> vnext cfg g h s (discard_blob keyId k)"
  unfolding discard_blob_def by (rule vnext_delete) simp_all

lemma vnext_blob_attempts:
  "vfine cfg g h k \<Longrightarrow> slot \<noteq> VAULT_HEADER_SLOT \<Longrightarrow> vnext cfg g h s (blob_attempts c slot d base n k)"
proof (induction n arbitrary: h base)
  case (Suc n)
  show ?case
    unfolding blob_attempts.simps
  proof (rule vnext_push)
    fix h' r
    assume h': "log_grows h h'"
    show "vnext cfg g h' s (case r of PushOk _ \<Rightarrow> k VOk | PushGated \<Rightarrow> k VGated | PushError m \<Rightarrow> k (VError m)
        | PushConflict current \<Rightarrow> blob_attempts c slot d current n k)"
      using vfine_grows [OF Suc.prems(1) h'] Suc.prems(2)
      by (cases r) (auto intro: vfine_next Suc.IH)
  qed (use Suc.prems in \<open>auto intro: vfine_next\<close>)
qed (simp add: vfine_next)

lemma vnext_writeBlob: "vfine cfg g h k \<Longrightarrow> vnext cfg g h s (writeBlob c keyId d k)"
  unfolding writeBlob_def by (rule vnext_blob_attempts) simp_all

subsection \<open>The index\<close>

text \<open>A continuation that is good whenever the object \<open>a\<close> exists.\<close>

definition vfine_at :: "vault_config \<Rightarrow> nat \<Rightarrow> header_log \<Rightarrow> nat \<Rightarrow> (vault_result \<Rightarrow> vault_act) \<Rightarrow> bool" where
  "vfine_at cfg g h a k \<longleftrightarrow>
     (\<forall>h' s' r. log_grows h h' \<longrightarrow> vault_inv cfg h' s' \<longrightarrow> a < length (vs_heap s') \<longrightarrow> vgood cfg g h' s' (k r s'))"

lemma vfine_at: "vfine cfg g h k \<Longrightarrow> vfine_at cfg g h a k"
  by (simp add: vfine_def vfine_at_def)

lemma vfine_at_grows: "vfine_at cfg g h a k \<Longrightarrow> log_grows h h' \<Longrightarrow> vfine_at cfg g h' a k"
  unfolding vfine_at_def by (meson log_grows_trans)

lemma vfine_at_next: "vfine_at cfg g h a k \<Longrightarrow> a < length (vs_heap s) \<Longrightarrow> vnext cfg g h s (k r)"
  unfolding vfine_at_def vnext_def by (metis steady_core(5))

lemma vault_inv_held: "vault_inv cfg h s \<Longrightarrow> a < length (vs_heap s) \<Longrightarrow> held cfg h (vs_heap s ! a)"
  by (simp add: vault_inv_def list_all_length)

text \<open>Replacing what the object \<open>a\<close> holds.\<close>

lemma vnext_update:
  assumes "a < length (vs_heap s)" and k: "vfine_at cfg g h a k"
    and "\<And>u. vu_dekKey u = vu_dekKey (vs_heap s ! a) \<Longrightarrow> vu_index u = vu_index (vs_heap s ! a) \<Longrightarrow> held cfg h (f u)"
  shows "vnext cfg g h s (\<lambda>s. k r (update_unlocked a f s))"
proof (rule vnextI)
  fix h' s'
  assume g: "log_grows h h'" and st: "steady s s'" and inv: "vault_inv cfg h' s'"
  let ?s1 = "update_unlocked a f s'"
  have a: "a < length (vs_heap s')" using assms(1) steady_core(5) [OF st assms(1)] by simp
  have "held cfg h' (f (vs_heap s' ! a))"
    using assms(3) steady_core(3,4) [OF st assms(1)] held_grows g by metis
  then have "vault_inv cfg h' ?s1"
    using inv by (auto simp: vault_inv_def update_unlocked_def list_all_iff split: option.split
      dest!: set_update_subset_insert [THEN subsetD])
  then have "vgood cfg g h' ?s1 (k r ?s1)"
    using k g a by (simp add: vfine_at_def update_unlocked_def)
  then show "vgood cfg g h' s' (k r ?s1)"
    by (rule vop.good_from) (simp add: stays_locked_def update_unlocked_def)
qed

lemma vnext_lock_then: "vfine_at cfg g h a k \<Longrightarrow> a < length (vs_heap s) \<Longrightarrow> vnext cfg g h s (\<lambda>s. k r (store_lock s))"
  by (rule vnext_steady [OF steady_lock vfine_at_next])

lemma vnext_adopt:
  assumes a: "a < length (vs_heap s)" and k: "vfine_at cfg g h a k" and kn: "knows cfg h (HeaderOk header version)"
  shows "vnext cfg g h s (adopt_header cfg a k header version)"
proof -
  let ?dek = "vu_dekKey (vs_heap s ! a)"
  have "vnext cfg g h s (open_index_of cfg ?dek header (\<lambda>index s. case index of
                None \<Rightarrow> k VVaultChanged (store_lock s)
              | Some index \<Rightarrow>
                  k VOk (update_unlocked a (\<lambda>u. u\<lparr>vu_header := header, vu_version := version, vu_index := index\<rparr>) s)))"
  proof (rule vnext_open_index)
    show "vnext cfg g h s (\<lambda>s. case openIndex cfg ?dek header of
                None \<Rightarrow> k VVaultChanged (store_lock s)
              | Some index \<Rightarrow>
                  k VOk (update_unlocked a (\<lambda>u. u\<lparr>vu_header := header, vu_version := version, vu_index := index\<rparr>) s))"
      using a k kn
      by (cases "openIndex cfg ?dek header")
        (auto intro!: vnext_update vnext_lock_then simp: held_def index_of_def knows.simps)
  qed (use a k in \<open>auto intro: vnext_lock_then\<close>)
  then show ?thesis using a by (simp add: vnext_def steady_core(4) adopt_header_def)
qed

lemma vnext_rebase_read:
  assumes a: "a < length (vs_heap s)" and k: "vfine_at cfg g h a k" and kn: "knows cfg h pulled"
  shows "vnext cfg g h s (rebase_read cfg a k pulled)"
proof -
  have changed: "vnext cfg g h s (\<lambda>s. k VVaultChanged (store_lock s))"
    using k a by (rule vnext_lock_then)
  show ?thesis
  proof (cases pulled)
    case (HeaderOk header version)
    then have "vnext cfg g h s (adopt_header cfg a k header version)" using a k kn by (blast intro: vnext_adopt)
    with changed show ?thesis
      unfolding HeaderOk by (simp add: vnext_def)
  qed (use changed vfine_at_next [OF k a] in \<open>simp_all add: vnext_def\<close>)
qed

lemma vnext_rebase:
  assumes a: "a < length (vs_heap s)" and k: "vfine_at cfg g h a k"
  shows "vnext cfg g h s (rebase cfg a k)"
proof -
  have "vnext cfg g h s (pullHeader cfg auth (rebase_read cfg a k) (\<lambda>m. k (VError m)))" for auth
    by (rule vnext_pullHeader) (auto intro: vnext_rebase_read [OF a] vfine_at_grows [OF k] vfine_at_next [OF k a])
  then show ?thesis by (simp add: vnext_def rebase_def)
qed

lemma vnext_push_index:
  assumes a: "a < length (vs_heap s)" and k: "vfine_at cfg g h a k"
    and legit: "succeeds cfg h (vu_version (vs_heap s ! a)) (serializeVaultHeader header)"
    and ix: "index_of cfg (vu_dekKey (vs_heap s ! a)) header index"
    and retry: "vnext cfg g h s retry"
  shows "vnext cfg g h s (push_index cfg a header index retry k)"
proof -
  let ?data = "serializeVaultHeader header"
  have full: "vnext cfg g h s (k VIndexFull)" using k a by (rule vfine_at_next)
  have "vnext cfg g h s (push cfg VAULT_HEADER_SLOT ?data (vu_version (vs_heap s ! a))
          (\<lambda>pushed s. case pushed of
             PushError m \<Rightarrow> k (VError m) s
           | PushGated \<Rightarrow> k VGated s
           | PushOk version \<Rightarrow>
               k VOk (update_unlocked a (\<lambda>u. u\<lparr>vu_header := header, vu_version := version, vu_index := index\<rparr>) s)
           | PushConflict _ \<Rightarrow> retry s)
          (\<lambda>m. k (VError m)))"
  proof (rule vnext_push)
    fix h' r
    assume h': "log_grows h h'" and r: "\<And>v. r = PushOk v \<Longrightarrow> VAULT_HEADER_SLOT = VAULT_HEADER_SLOT \<Longrightarrow> written h' v ?data"
    note k' = vfine_at_grows [OF k h']
    show "vnext cfg g h' s (\<lambda>s. case r of
             PushError m \<Rightarrow> k (VError m) s
           | PushGated \<Rightarrow> k VGated s
           | PushOk version \<Rightarrow>
               k VOk (update_unlocked a (\<lambda>u. u\<lparr>vu_header := header, vu_version := version, vu_index := index\<rparr>) s)
           | PushConflict _ \<Rightarrow> retry s)"
    proof (cases r)
      case (PushOk v)
      with r ix have "held cfg h' (u\<lparr>vu_header := header, vu_version := v, vu_index := index\<rparr>)"
        if "vu_dekKey u = vu_dekKey (vs_heap s ! a)" for u
        using that by (auto simp: held_def reads_def)
      then show ?thesis unfolding PushOk by (simp add: vnext_update a k')
    qed (use vfine_at_next [OF k' a] vnext_grows [OF retry h'] in simp_all)
  qed (use legit vfine_at_next [OF k a] in auto)
  with full a show ?thesis
    by (simp add: vnext_def push_index_def Let_def steady_core(2))
qed

lemma vnext_rebase_retry:
  assumes a: "a < length (vs_heap s)" and k: "vfine_at cfg g h a k" and retry: "vfine_at cfg g h a (\<lambda>_. retry)"
  shows "vnext cfg g h s (rebase_retry cfg a generation retry k)"
proof -
  have "vfine_at cfg g h a (\<lambda>r s. if r \<noteq> VOk then k r s else if generation \<noteq> vs_generation s then k VLocked s else retry s)"
    using k retry by (simp add: vfine_at_def)
  then have "vnext cfg g h s (rebase cfg a (\<lambda>r s. if r \<noteq> VOk then k r s
      else if generation \<noteq> vs_generation s then k VLocked s else retry s))"
    by (rule vnext_rebase [OF a])
  with vfine_at_next [OF k a] show ?thesis by (simp add: vnext_def rebase_retry_def)
qed

lemma edited_legit:
  assumes "held cfg h u" and "edit_index edit (vu_index u) = Edited index" and "index_ok (vc_date cfg) index"
  shows "succeeds cfg h (vu_version u) (serializeVaultHeader ((vu_header u)\<lparr>
     vh_index := sealIndex cfg (vu_dekKey u) (vh_vaultId (vu_header u)) index nonce, vh_updatedAt := t\<rparr>))"
  using assms unfolding succeeds_def held_def edits_def by blast

lemma vnext_write_attempts:
  "vfine_at cfg g h a k \<Longrightarrow> a < length (vs_heap s) \<Longrightarrow> vnext cfg g h s (write_attempts cfg a generation edit n k)"
proof (induction n arbitrary: h s)
  case 0
  then show ?case using vfine_at_next by (auto simp: vnext_def)
next
  case (Suc n)
  have retry: "vfine_at cfg g h a (\<lambda>_ s. write_attempts cfg a generation edit n k s)"
    unfolding vfine_at_def by (blast intro: vnextD Suc.IH vfine_at_grows [OF Suc.prems(1)])
  show ?case
  proof (rule vnextI)
    fix h1 s1
    assume 1: "log_grows h h1" "steady s s1" "vault_inv cfg h1 s1"
    have a: "a < length (vs_heap s1)" using Suc.prems(2) steady_core(5) [OF 1(2) Suc.prems(2)] by simp
    note k = vfine_at_grows [OF Suc.prems(1) 1(1)]
    note next_k = vfine_at_next [OF k a]
    let ?u = "vs_heap s1 ! a"
    let ?header = "\<lambda>index nonce t. (vu_header ?u)\<lparr>
        vh_index := sealIndex cfg (vu_dekKey ?u) (vh_vaultId (vu_header ?u)) index nonce, vh_updatedAt := t\<rparr>"
    have push: "vnext cfg g h1 s1 (push_index cfg a (?header index nonce t) index
          (rebase_retry cfg a generation (\<lambda>s. write_attempts cfg a generation edit n k s) k) k)"
      if e: "edit_index edit (vu_index ?u) = Edited index" and ok: "index_ok (vc_date cfg) index" for index nonce t
    proof (rule vnext_push_index [OF a k])
      show "succeeds cfg h1 (vu_version ?u) (serializeVaultHeader (?header index nonce t))"
        using vault_inv_held [OF 1(3) a] e ok by (rule edited_legit)
      show "vnext cfg g h1 s1 (rebase_retry cfg a generation (\<lambda>s. write_attempts cfg a generation edit n k s) k)"
        by (rule vnext_rebase_retry [OF a k vfine_at_grows [OF retry 1(1)]])
    qed (auto simp: index_of_def)
    have push_now: "vnext cfg g h1 s1 (\<lambda>s. push_index cfg a (?header index nonce (vc_iso cfg (vs_clock s))) index
          (rebase_retry cfg a generation (\<lambda>s. write_attempts cfg a generation edit n k s) k) k s)"
      if "edit_index edit (vu_index ?u) = Edited index" and "index_ok (vc_date cfg) index" for index nonce
      using push [OF that] by (simp add: vnext_def)
    show "vgood cfg g h1 s1 (write_attempts cfg a generation edit (Suc n) k s1)"
    proof (cases "edit_index edit (vu_index ?u)")
      case (Edited index)
      have "vgood cfg g h1 s1 (case draw 12 s1 of (nonce, s) \<Rightarrow>
            compute
              (\<lambda>s. push_index cfg a (?header index nonce (vc_iso cfg (vs_clock s)))
                 index (rebase_retry cfg a generation (\<lambda>s. write_attempts cfg a generation edit n k s) k) k s)
              (\<lambda>m. ret (VThrew m)) s)" if "index_ok (vc_date cfg) index"
        by (rule vgood_draw [OF 1(3)]) (intro vnext_compute push_now [OF Edited that] vault_rules)
      then show ?thesis
        using Edited vnextD [OF next_k 1(3)] by (auto simp: write_attempts.simps(2) indexRoundTrips_iff Let_def)
    qed (use vnextD [OF next_k 1(3)] in \<open>simp_all add: write_attempts.simps(2)\<close>)
  qed
qed

lemma vnext_writeIndex:
  assumes "vfine cfg g h k"
  shows "vnext cfg g h s (writeIndex cfg edit k)"
proof (rule vnextI)
  fix h' s'
  assume a: "log_grows h h'" "vault_inv cfg h' s'"
  note k = vfine_grows [OF assms a(1)]
  show "vgood cfg g h' s' (writeIndex cfg edit k s')"
  proof (cases "vs_unlocked s'")
    case None
    then show ?thesis using k a(2) by (simp add: writeIndex_def vfine_good)
  next
    case (Some i)
    with a(2) have "i < length (vs_heap s')" by (simp add: vault_inv_def)
    then show ?thesis
      using Some a(2) by (auto simp: writeIndex_def intro!: vnextD [OF vnext_write_attempts] vfine_at k)
  qed
qed

lemma vfineI: "(\<And>h' s r. log_grows h h' \<Longrightarrow> vnext cfg g h' s (k r)) \<Longrightarrow> vfine cfg g h k"
  by (auto simp: vfine_def intro: vnextD)

lemma vnext_seal_blob:
  assumes "\<And>h' d. log_grows h h' \<Longrightarrow> vnext cfg g h' s (k d)"
  shows "vnext cfg g h s (seal_blob c a keyId pt pub k)"
proof -
  have k: "vnext cfg g h s (k d)" for d by (rule assms) simp
  have p: "vnext cfg g h s (\<lambda>s. case draw 12 s of (n1, s) \<Rightarrow>
        compute
          (case pub of
             None \<Rightarrow> k (serializeVaultKeyBlob (sealKeyBlob c dek vaultId keyId pt None n1 []))
           | Some p \<Rightarrow> (\<lambda>s.
               case draw 12 s of (n2, s) \<Rightarrow>
                 compute (k (serializeVaultKeyBlob (sealKeyBlob c dek vaultId keyId pt (Some p) n1 n2)))
                   (\<lambda>m. ret (VThrew m)) s))
          (\<lambda>m. ret (VThrew m)) s)" for dek vaultId
    by (rule vnext_draw) (auto split: option.split intro!: vault_rules k)
  show ?thesis using p by (simp add: vnext_def seal_blob_def Let_def)
qed

lemma vnext_store_key: "vnext cfg g h s (store_key cfg a key name existed)"
proof -
  have "vfine cfg g h (\<lambda>result. if result \<noteq> VOk then
                 (if existed then ret result else discard_blob (pk_keyId key) (ret result))
               else (\<lambda>s. ret (VAdded (Some (case getKey (pk_keyId key) s of Some e \<Rightarrow> e | None \<Rightarrow> entry)) existed) s))" for h entry
    by (rule vfineI) (auto intro!: vault_rules)
  note index = vnext_writeIndex [OF this]
  have "vnext cfg g h s (\<lambda>s.
             let entry = \<lparr>ke_keyId = pk_keyId key, ke_name = clampVaultName name (type_name (pk_type key)),
                   ke_type = pk_type key, ke_fingerprint = Some (pk_fingerprint key),
                   ke_createdAt = vc_iso cfg (vs_clock s), ke_rotatedFrom = None\<rparr> in
             writeIndex cfg (AddEntry entry) (\<lambda>result.
               if result \<noteq> VOk then
                 (if existed then ret result else discard_blob (pk_keyId key) (ret result))
               else (\<lambda>s. ret (VAdded (Some (case getKey (pk_keyId key) s of Some e \<Rightarrow> e | None \<Rightarrow> entry)) existed) s)) s)" for h s
    using index by (simp add: vnext_def Let_def)
  then show ?thesis
    unfolding store_key_def
    by (intro vnext_seal_blob) (auto intro!: vault_rules vnext_writeBlob vfineI)
qed

lemma vnext_pull_held:
  assumes "\<And>auth. vnext cfg g h s (pull c slot auth ok err)"
  shows "vnext cfg g h s (\<lambda>s. pull c slot (held_auth s) ok err s)"
  using assms by (simp add: vnext_def)

lemma vnext_addKey: "vnext cfg g h s (addKey cfg pem name keyPassphrase)"
proof (rule vnextI)
  fix h' s'
  assume inv: "vault_inv cfg h' s'"
  have prepared: "vnext cfg g h' s' (\<lambda>s. case vc_prepare cfg pem keyPassphrase of
               NotPrepared r \<Rightarrow> ret (VNotPrepared r) s
             | Prepared key \<Rightarrow>
                 if has_key (pk_keyId key) (vu_index (vs_heap s ! a)) then
                   pull cfg (vaultKeySlot (pk_keyId key)) (held_auth s)
                     (\<lambda>present. case present of
                        PullAbsent \<Rightarrow> store_key cfg a key name True
                      | PullOk version data \<Rightarrow> (\<lambda>s. ret (VAdded (getKey (pk_keyId key) s) True) s)
                      | PullGated \<Rightarrow> ret VGated)
                     (\<lambda>m. ret (VThrew m)) s
                 else store_key cfg a key name False s)" for a
    by (cases "vc_prepare cfg pem keyPassphrase")
      (auto intro!: vnext_if vnext_pull_held vault_rules vnext_store_key split: pull_result.split)
  then have "vnext cfg g h' s' (compute (\<lambda>s. case vc_prepare cfg pem keyPassphrase of
               NotPrepared r \<Rightarrow> ret (VNotPrepared r) s
             | Prepared key \<Rightarrow>
                 if has_key (pk_keyId key) (vu_index (vs_heap s ! a)) then
                   pull cfg (vaultKeySlot (pk_keyId key)) (held_auth s)
                     (\<lambda>present. case present of
                        PullAbsent \<Rightarrow> store_key cfg a key name True
                      | PullOk version data \<Rightarrow> (\<lambda>s. ret (VAdded (getKey (pk_keyId key) s) True) s)
                      | PullGated \<Rightarrow> ret VGated)
                     (\<lambda>m. ret (VThrew m)) s
                 else store_key cfg a key name False s) (\<lambda>m. ret (VThrew m)))" for a
    by (intro vnext_compute vault_rules)
  from vnextD [OF this inv] show "vgood cfg g h' s' (addKey cfg pem name keyPassphrase s')"
    using inv by (auto simp: addKey_def intro: vgood_ret split: option.split)
qed

lemma vnext_store_password:
  "vnext cfg g h s (\<lambda>s. let keyId = toB64url raw in
            seal_blob cfg a keyId password None (\<lambda>blobData.
              writeBlob cfg keyId blobData (\<lambda>wrote.
                if wrote \<noteq> VOk then ret wrote
                else (\<lambda>s.
                  let entry = \<lparr>ke_keyId = keyId, ke_name = clampVaultName name ''Password'', ke_type = PasswordEntry,
                        ke_fingerprint = None, ke_createdAt = vc_iso cfg (vs_clock s), ke_rotatedFrom = None\<rparr> in
                  writeIndex cfg (AddPasswordEntry entry) (\<lambda>result.
                    if result \<noteq> VOk then discard_blob keyId (ret result)
                    else ret (VAdded (Some entry) False)) s))) s)"
proof -
  let ?id = "toB64url raw"
  have index: "vnext cfg g h s (writeIndex cfg edit (\<lambda>result.
      if result \<noteq> VOk then discard_blob ?id (ret result) else ret (VAdded (Some entry) False)))" for h s edit entry
    by (rule vnext_writeIndex) (auto intro!: vfineI vault_rules)
  have "vnext cfg g h s (\<lambda>s.
                  let entry = \<lparr>ke_keyId = ?id, ke_name = clampVaultName name ''Password'', ke_type = PasswordEntry,
                        ke_fingerprint = None, ke_createdAt = vc_iso cfg (vs_clock s), ke_rotatedFrom = None\<rparr> in
                  writeIndex cfg (AddPasswordEntry entry) (\<lambda>result.
                    if result \<noteq> VOk then discard_blob ?id (ret result)
                    else ret (VAdded (Some entry) False)) s)" for h s
    using index by (simp add: vnext_def Let_def)
  then show ?thesis
    unfolding Let_def [of ?id]
    by (intro vnext_seal_blob) (auto intro!: vault_rules vnext_writeBlob vfineI)
qed

lemma vnext_addPassword: "vnext cfg g h s (addPassword cfg password name)"
proof (rule vnextI)
  fix h' s'
  assume inv: "vault_inv cfg h' s'"
  show "vgood cfg g h' s' (addPassword cfg password name s')"
    unfolding addPassword_def
    by (auto intro!: vgood_ret vgood_draw vnext_store_password inv split: option.split)
qed

lemma vnext_index_ops:
  "vnext cfg g h s (removeKey cfg keyId)" "vnext cfg g h s (renameKey cfg keyId name)"
  "vnext cfg g h s (rotateKey cfg old new)" "vnext cfg g h s (bindHost cfg hostAlias keyId policy)"
  "vnext cfg g h s (unbindHost cfg hostAlias)" "vnext cfg g h s (setSyncPassphrase cfg sync)"
  unfolding removeKey_def renameKey_def rotateKey_def bindHost_def unbindHost_def setSyncPassphrase_def
  by (rule vnext_writeIndex, auto intro!: vfineI vault_rules)+

subsection \<open>Changing the passphrase\<close>

lemma rewrapped_index [simp]:
  "openIndex cfg dek (rewrapped w t hdr) = openIndex cfg dek hdr"
  "index_of cfg dek (rewrapped w t hdr) ix = index_of cfg dek hdr ix"
  by (simp_all add: openIndex_def index_of_def rewrapped_def)

lemma vnext_reopens:
  assumes "unwrapDek cfg (rw_kek w) header = Some (rw_dek w) \<Longrightarrow> openIndex cfg (rw_dek w) header \<noteq> None \<Longrightarrow>
      vnext cfg g h s ok"
  shows "vnext cfg g h s (reopens cfg w header ok)"
  unfolding reopens_def using assms
  by (intro vnext_unwrap) (auto split: option.split intro!: vault_rules)

lemma vnext_passphrase_changed: "vnext cfg g h s (passphrase_changed cfg a generation w header)"
proof -
  have upd: "steady s (update_unlocked a (\<lambda>u. u\<lparr>vu_auth := x\<rparr>) s)" for s x
    by (simp add: steady_def update_unlocked_def unlocked_core_def)
  have "vnext cfg g h s (\<lambda>s.
       let pending = (vc_hasVerifier cfg \<and> (case published of SetOk _ \<Rightarrow> False | _ \<Rightarrow> True));
           s = s\<lparr>vs_pending :=
             (if pending then Some \<lparr>pv_auth = rw_auth w, pv_currentAuth = rw_oldAuth w, pv_epoch = vh_epoch header\<rparr>
              else None)\<rparr>;
           s = (if generation = vs_generation s then update_unlocked a (\<lambda>u. u\<lparr>vu_auth := Some (rw_auth w)\<rparr>) s else s) in
       ret (if pending then VOkVerifierPending else VOk) s)" for published
    unfolding Let_def
    by (rule vnextI) (auto intro!: vgood_ret_at intro: steady_trans [OF steady_simps(2) upd])
  then show ?thesis unfolding passphrase_changed_def by (intro vault_rules)
qed

lemma rewrapped_legit:
  assumes "held cfg h u" and "derivePassphraseKeys cfg passphrase (rw_kdf w) = Some (rw_kek w, rw_auth w)"
    and "unwrapDek cfg (rw_kek w) (rewrapped w t (vu_header u)) = Some (rw_dek w)"
    and "openIndex cfg (rw_dek w) (vu_header u) \<noteq> None"
  shows "succeeds cfg h (vu_version u) (serializeVaultHeader (rewrapped w t (vu_header u)))"
  using assms unfolding succeeds_def held_def rewraps_def by blast

lemma vnext_push_rewrapped:
  assumes a: "a < length (vs_heap s)"
    and legit: "succeeds cfg h (vu_version (vs_heap s ! a)) (serializeVaultHeader header)"
    and ix: "index_of cfg (vu_dekKey (vs_heap s ! a)) header (vu_index (vs_heap s ! a))"
    and retry: "vnext cfg g h s retry"
  shows "vnext cfg g h s (push_rewrapped cfg a generation w header retry)"
proof -
  let ?data = "serializeVaultHeader header"
  have "vnext cfg g h s (push cfg VAULT_HEADER_SLOT ?data (vu_version (vs_heap s ! a))
       (\<lambda>pushed s. case pushed of
          PushError m \<Rightarrow> ret (VError m) s
        | PushGated \<Rightarrow> ret VGated s
        | PushOk version \<Rightarrow>
            passphrase_changed cfg a generation w header
              (update_unlocked a (\<lambda>u. u\<lparr>vu_header := header, vu_version := version\<rparr>) s)
        | PushConflict _ \<Rightarrow> retry s)
       (\<lambda>m. ret (VError m)))"
  proof (rule vnext_push)
    fix h' r
    assume h': "log_grows h h'" and r: "\<And>v. r = PushOk v \<Longrightarrow> VAULT_HEADER_SLOT = VAULT_HEADER_SLOT \<Longrightarrow> written h' v ?data"
    show "vnext cfg g h' s (\<lambda>s. case r of
          PushError m \<Rightarrow> ret (VError m) s
        | PushGated \<Rightarrow> ret VGated s
        | PushOk version \<Rightarrow>
            passphrase_changed cfg a generation w header
              (update_unlocked a (\<lambda>u. u\<lparr>vu_header := header, vu_version := version\<rparr>) s)
        | PushConflict _ \<Rightarrow> retry s)"
    proof (cases r)
      case (PushOk v)
      with r ix have "held cfg h' (u\<lparr>vu_header := header, vu_version := v\<rparr>)"
        if "vu_dekKey u = vu_dekKey (vs_heap s ! a)" and "vu_index u = vu_index (vs_heap s ! a)" for u
        using that by (auto simp: held_def reads_def)
      moreover have "vfine cfg g h' (\<lambda>_. passphrase_changed cfg a generation w header)"
        by (rule vfineI) (rule vnext_passphrase_changed)
      ultimately show ?thesis unfolding PushOk
        by (auto intro!: vnext_update [OF a, where k = "\<lambda>_. passphrase_changed cfg a generation w header"] intro: vfine_at)
    qed (use vnext_grows [OF retry h'] in \<open>simp_all add: vnext_ret\<close>)
  qed (use legit vnext_ret in auto)
  with a show ?thesis by (simp add: vnext_def push_rewrapped_def steady_core(2))
qed

lemma vnext_change_attempts:
  assumes keys: "derivePassphraseKeys cfg passphrase (rw_kdf w) = Some (rw_kek w, rw_auth w)"
  shows "a < length (vs_heap s) \<Longrightarrow> vnext cfg g h s (change_attempts cfg a generation w n)"
proof (induction n arbitrary: h s)
  case 0
  then show ?case using vnext_ret by (auto simp: vnext_def)
next
  case (Suc n)
  show ?case
  proof (rule vnextI)
    fix h1 s1
    assume 1: "log_grows h h1" "steady s s1" "vault_inv cfg h1 s1"
    have a: "a < length (vs_heap s1)" using Suc.prems steady_core(5) [OF 1(2) Suc.prems] by simp
    let ?header = "rewrapped w (vc_iso cfg (vs_clock s1)) (vu_header (vs_heap s1 ! a))"
    note hold = vault_inv_held [OF 1(3) a]
    have "vfine_at cfg g h1 a (\<lambda>r s. if r \<noteq> VOk then ret r s else change_attempts cfg a generation w n s)"
      by (auto simp: vfine_at_def intro!: vgood_ret vnextD [OF Suc.IH])
    then have retry: "vnext cfg g h1 s1 (rebase cfg a
        (\<lambda>r s. if r \<noteq> VOk then ret r s else change_attempts cfg a generation w n s))"
      by (rule vnext_rebase [OF a])
    have "vnext cfg g h1 s1 (reopens cfg w ?header (push_rewrapped cfg a generation w ?header
             (rebase cfg a (\<lambda>r s. if r \<noteq> VOk then ret r s else change_attempts cfg a generation w n s))))"
      using hold retry
      by (intro vnext_reopens vnext_push_rewrapped [OF a]) (auto intro: rewrapped_legit [OF hold keys] simp: held_def)
    from vnextD [OF this 1(3)] show "vgood cfg g h1 s1 (change_attempts cfg a generation w (Suc n) s1)"
      using 1(3) by (auto simp: change_attempts.simps(2) Let_def vgood_ret)
  qed
qed

lemma vnext_change: "vnext cfg g h s (changePassphrase cfg current next_one generation)"
proof (rule vnextI)
  fix h' s'
  assume inv: "vault_inv cfg h' s'"
  have wrap: "vnext cfg g h s (wrap_dek_of cfg kek dek vaultId k)" if "\<And>x. vnext cfg g h s (k x)" for h s kek dek vaultId k
    unfolding wrap_dek_of_def using that by (intro vault_rules)
  have push: "vnext cfg g h s (rewrap_and_push cfg a generation dek verified oldAuth kdf kek auth)"
    if "a < length (vs_heap s)" and "derivePassphraseKeys cfg next_one kdf = Some (kek, auth)"
    for h s a dek verified oldAuth kdf kek auth
    using that by (auto simp: vnext_def rewrap_and_push_def steady_core(5) intro!: vnextD [OF wrap] vnext_change_attempts)
  have fresh: "vnext cfg g h s (\<lambda>s. case newKdfParams (kdf_choice cfg (vh_kdf (vu_header (vs_heap s ! a)))) salt of
           None \<Rightarrow> ret (VError ''vault kdf parameters out of range'') s
         | Some kdf \<Rightarrow>
             derive_keys cfg next_one kdf (rewrap_and_push cfg a generation dek verified oldAuth kdf)
               (\<lambda>m. ret (VError m)) s)"
    if "a < length (vs_heap s)" for h s a salt dek verified oldAuth
  proof (rule vnextI)
    fix h1 s1
    assume 1: "steady s s1" "vault_inv cfg h1 s1"
    have "a < length (vs_heap s1)" using that steady_core(5) [OF 1(1) that] by simp
    then have "vnext cfg g h1 s1 (derive_keys cfg next_one kdf (rewrap_and_push cfg a generation dek verified oldAuth kdf)
               (\<lambda>m. ret (VError m)))" for kdf
      by (intro vnext_derive push vnext_ret)
    then show "vgood cfg g h1 s1 (case newKdfParams (kdf_choice cfg (vh_kdf (vu_header (vs_heap s1 ! a)))) salt of
           None \<Rightarrow> ret (VError ''vault kdf parameters out of range'') s1
         | Some kdf \<Rightarrow>
             derive_keys cfg next_one kdf (rewrap_and_push cfg a generation dek verified oldAuth kdf)
               (\<lambda>m. ret (VError m)) s1)"
      using 1(2) by (auto split: option.split intro: vgood_ret vnextD)
  qed
  have right: "vnext cfg g h s (change_verified cfg a generation next_one dek verified oldAuth)"
    if "a < length (vs_heap s)" for h s a dek verified oldAuth
  proof -
    have "vnext cfg g h s (\<lambda>s. change_verified cfg a generation next_one dek verified oldAuth s)"
      unfolding change_verified_def
      by (rule vnext_steady [where f = "\<lambda>s. s\<lparr>vs_failures := 0\<rparr>"]) (auto intro: vnext_draw fresh that)
    then show ?thesis .
  qed
  have checked: "vnext cfg g h s (check_value cfg kek header (\<lambda>right s.
                   if \<not> right then (case recordFailure s of (delay, s) \<Rightarrow> ret (VWrongPassphrase delay) s)
                   else change_verified cfg a generation next_one dek verified oldAuth s))"
    if "a < length (vs_heap s)" for h s a kek header dek verified oldAuth
    by (rule vnext_check) (intro vnext_if vnext_failure vnext_ret right that)
  have derived: "vnext cfg g h s (derive_keys cfg current kdf
              (\<lambda>oldKek oldAuth s.
                 check_value cfg oldKek (vu_header (vs_heap s ! a)) (\<lambda>right s.
                   if \<not> right then (case recordFailure s of (delay, s) \<Rightarrow> ret (VWrongPassphrase delay) s)
                   else change_verified cfg a generation next_one dek verified oldAuth s) s)
              (\<lambda>m. ret (VError m)))"
    if "a < length (vs_heap s)" for h s a kdf dek verified
    using that checked by (intro vnext_derive vnext_ret) (simp add: vnext_def)
  show "vgood cfg g h' s' (changePassphrase cfg current next_one generation s')"
  proof (cases "vs_unlocked s'")
    case (Some a)
    with inv have "a < length (vs_heap s')" by (simp add: vault_inv_def)
    from vnextD [OF derived [OF this] inv] show ?thesis
      using Some inv by (auto simp: changePassphrase_def Let_def intro: vgood_ret)
  qed (simp add: changePassphrase_def vgood_ret inv)
qed

subsection \<open>Resetting\<close>

lemma later_epoch_pulled:
  assumes "written h version d" and "epoch' = max epoch (case parseVaultHeader (vc_date cfg) d of
      Some old \<Rightarrow> vh_epoch old + 1 | None \<Rightarrow> x)"
  shows "later_epoch cfg h version epoch'"
  unfolding later_epoch_def using assms by (auto split: option.splits intro!: disjI2 exI [of _ d])

lemma vnext_reset_attempts:
  "later_epoch cfg h base epoch \<Longrightarrow> vnext cfg gen h s (reset_attempts cfg passphrase index gen epoch base n)"
proof (induction n arbitrary: h s base epoch)
  case 0
  then show ?case using vnext_ret by (auto simp: vnext_def)
next
  case (Suc n)
  have fresh: "vnext cfg gen h s (writeFreshVault cfg passphrase index epoch base gen
              (\<lambda>written. if written \<noteq> VExists then ret written
                 else reset_attempts cfg passphrase index gen epoch base n))"
    if "later_epoch cfg h base epoch" for h s base epoch
    using that by (intro vnext_fresh vfineI) (auto intro!: vnext_ret Suc.IH intro: later_epoch_grows)
  let ?next = "\<lambda>pulled s. if pulled = PullGated
          then ret (VError ''the server hides the vault; reset it through the server (POST /vault/reset)'') s
          else
            let (epoch, base) =
              (case pulled of
                 PullOk version data \<Rightarrow>
                   (max epoch (case parseVaultHeader (vc_date cfg) data of
                      Some old \<Rightarrow> vh_epoch old + 1 | None \<Rightarrow> vs_clock s div 1000), version)
               | _ \<Rightarrow> (epoch, base)) in
            writeFreshVault cfg passphrase index epoch base gen
              (\<lambda>written. if written \<noteq> VExists then ret written
                 else reset_attempts cfg passphrase index gen epoch base n) s"
  have next_ok: "vnext cfg gen h1 s (?next pulled)"
    if "log_grows h h1" and p: "\<And>v d. pulled = PullOk v d \<Longrightarrow> VAULT_HEADER_SLOT = VAULT_HEADER_SLOT \<Longrightarrow> written h1 v d"
    for h1 pulled
  proof (cases pulled)
    case PullAbsent
    then show ?thesis using fresh [OF later_epoch_grows [OF Suc.prems that(1)]] by simp
  next
    case (PullOk v d)
    with p have w: "written h1 v d" by simp
    have "later_epoch cfg h1 v (max epoch (case parseVaultHeader (vc_date cfg) d of
        Some old \<Rightarrow> vh_epoch old + 1 | None \<Rightarrow> x))" for x
      by (rule later_epoch_pulled [OF w refl])
    from fresh [OF this] show ?thesis by (simp add: PullOk vnext_def)
  qed (simp add: vnext_ret)
  have "vnext cfg gen h s (pull cfg VAULT_HEADER_SLOT auth ?next (\<lambda>m. ret (VError m)))" for auth
    by (intro vnext_pull next_ok vnext_ret)
  then show ?case by (simp add: vnext_def)
qed

lemma header_is_no_key_slot [simp]: "keyIdFromSlot VAULT_HEADER_SLOT = None"
  by code_simp

lemma vnext_delete_key_slots: "vnext cfg g h s k \<Longrightarrow> vnext cfg g h s (delete_key_slots slots k)"
  by (induction slots) (auto intro!: vnext_delete vnext_ret)

lemma vnext_reset: "vnext cfg gen h s (resetVault cfg passphrase carry gen)"
proof -
  have wipe: "vnext cfg gen h s (reset_wipe cfg passphrase index gen e)" for h s index e
    unfolding reset_wipe_def
    by (rule vnext_await)
      (auto split: vault_answer.split intro!: vnext_ret vnext_delete_key_slots vnext_reset_attempts simp: later_epoch_def)
  have server: "vnext cfg gen h s (server_reset cfg (reset_wipe cfg passphrase index gen))" for h s index
    unfolding server_reset_def
    by (auto split: vault_answer.split reset_result.split intro!: vnext_await vnext_ret wipe)
  have probed: "vnext cfg gen h s (pullHeader cfg auth (\<lambda>existing. if existing = HeaderUnsupported then ret VUnsupportedVersion
      else server_reset cfg (reset_wipe cfg passphrase index gen)) (\<lambda>m. ret (VError m)))" for h s auth index
    by (rule vnext_pullHeader) (auto intro: vnext_ret server)
  show ?thesis
    by (rule vnextI) (auto simp: resetVault_def Let_def intro!: vgood_ret vnextD [OF server] vnextD [OF probed])
qed

lemma vnext_retry_publish: "vnext cfg g h s (retryVerifierPublish cfg)"
  unfolding retryVerifierPublish_def by (intro vnext_retry vnext_ret)

subsection \<open>Refreshing the header for trusted hosts\<close>

lemma vnext_cond:
  "vnext cfg g h s x \<Longrightarrow> vnext cfg g h s y \<Longrightarrow> vnext cfg g h s (\<lambda>s. if P s then x s else y s)"
  by (simp add: vnext_def)

lemma vnext_locked_ret: "vnext cfg g h s (\<lambda>s. ret r (store_lock s))"
  by (rule vnext_steady [OF steady_lock vnext_ret])

lemma vnext_refreshed:
  assumes "a < length (vs_heap s)" and "knows cfg h (HeaderOk header version)"
    and "index = None \<or> index = openIndex cfg (vu_dekKey (vs_heap s ! a)) header"
  shows "vnext cfg g h s (\<lambda>s.
      if vs_unlocked s \<noteq> Some a then ret VLocked s
      else case index of
          None \<Rightarrow> ret VInvalid (store_lock s)
        | Some index \<Rightarrow>
            ret VOk (update_unlocked a (\<lambda>u. u\<lparr>vu_header := header, vu_version := version, vu_index := index\<rparr>) s))"
proof (intro vnext_cond vnext_ret)
  have "vnext cfg g h s (\<lambda>s. ret VOk (update_unlocked a (\<lambda>u. u\<lparr>vu_header := header, vu_version := version, vu_index := ix\<rparr>) s))"
    if "index = Some ix" for ix
    using assms that
    by (intro vnext_update vfine_at vfine_ret) (auto simp: held_def index_of_def knows.simps)
  then show "vnext cfg g h s (\<lambda>s. case index of
          None \<Rightarrow> ret VInvalid (store_lock s)
        | Some index \<Rightarrow>
            ret VOk (update_unlocked a (\<lambda>u. u\<lparr>vu_header := header, vu_version := version, vu_index := index\<rparr>) s))"
    by (cases index) (simp_all add: vnext_locked_ret)
qed

lemma vnext_refresh_header:
  assumes a: "a < length (vs_heap s)" and kn: "knows cfg h (HeaderOk header version)"
  shows "vnext cfg g h s (refresh_header cfg a header version)"
proof (rule vnextI)
  fix h' s'
  assume g: "log_grows h h'" and st: "steady s s'" and inv: "vault_inv cfg h' s'"
  have a': "a < length (vs_heap s')" using a steady_core(5) [OF st a] by simp
  have kn': "knows cfg h' (HeaderOk header version)" using kn g by (auto simp: knows.simps intro: written_grows)
  have opened: "vnext cfg gen h' s' (open_index_of cfg (vu_dekKey (vs_heap s' ! a)) header (\<lambda>index s.
      if vs_unlocked s \<noteq> Some a then ret VLocked s
      else case index of
          None \<Rightarrow> ret VInvalid (store_lock s)
        | Some index \<Rightarrow>
            ret VOk (update_unlocked a (\<lambda>u. u\<lparr>vu_header := header, vu_version := version, vu_index := index\<rparr>) s)))" for gen
    by (intro vnext_open_index vnext_refreshed [OF a' kn']) simp_all
  show "vgood cfg g h' s' (refresh_header cfg a header version s')"
    using inv by (auto simp: refresh_header_def Let_def intro: vnextD [OF vnext_locked_ret] vnextD [OF opened])
qed

lemma vnext_refresh: "vnext cfg g h s (refreshTrustedHostIndex cfg a)"
proof (rule vnextI)
  fix h s
  assume inv: "vault_inv cfg h s"
  show "vgood cfg g h s (refreshTrustedHostIndex cfg a s)"
  proof (cases "vs_unlocked s = Some a")
    case True
    then have a: "a < length (vs_heap s)" using inv by (simp add: vault_inv_def)
    have read: "vnext cfg g h' s (\<lambda>s.
        if vs_unlocked s \<noteq> Some a then ret VLocked s
        else case pulled of
            HeaderGated \<Rightarrow> ret VGated s
          | HeaderOk header version \<Rightarrow> refresh_header cfg a header version s
          | _ \<Rightarrow> ret VInvalid (store_lock s))"
      if "knows cfg h' pulled" for h' pulled
      using that by (intro vnext_cond vnext_ret)
        (cases pulled, auto intro: vnext_ret vnext_locked_ret vnext_refresh_header [OF a])
    show ?thesis
      unfolding refreshTrustedHostIndex_def
      using inv True by (simp, intro vnextD [OF vnext_pullHeader [OF read vnext_ret]])
  qed (use inv in \<open>simp add: refreshTrustedHostIndex_def vgood_ret\<close>)
qed

lemma vnext_refresh_trust: "vnext cfg g h s (refresh_trust cfg state)"
  by (cases state) (simp_all add: refresh_trust_def vnext_ret vnext_refresh)

end
