(* ===== verification/Vault_System.thy ===== *)
theory Vault_System
  imports Vault_Ops
begin

text \<open>
  Devices of one account sharing its settings server: every device runs its key vault store, one
  exclusive operation at a time beside any number of reading ones, over a network that may lose a
  request, lose an answer, or deliver a request after its caller gave up.
\<close>

subsection \<open>Operations\<close>

datatype vault_op =
    OpProbe
  | OpCreate string "string option"
  | OpUnlock string
  | OpUnlockRemembered remember_record
  | OpDecryptForHost string
  | OpDecrypt string
  | OpPublicKey string
  | OpAddKey string string "string option"
  | OpAddPassword string string
  | OpRemove string
  | OpRename string string
  | OpRotate string string
  | OpBind string string gateway_policy
  | OpUnbind string
  | OpSetSync "string option"
  | OpChangePassphrase string string
  | OpRetryVerifier
  | OpReset string reset_carry
  | OpRefreshTrust

text \<open>
  The generation \<open>g\<close> and the unlocked object \<open>a\<close> are the ones at the call, before the
  operation waits for its turn. \<open>OpRefreshTrust\<close> is the part of reading a trusted host that
  touches the header; the rest of \<open>getTrustedHost\<close> and \<open>listTrustedHosts\<close> reads the hosts' own
  slots, and \<open>putTrustedHost\<close> writes one of them, without touching header, index or DEK.
\<close>

fun run_op :: "vault_config \<Rightarrow> vault_op \<Rightarrow> nat \<Rightarrow> nat option \<Rightarrow> vault_act" where
  "run_op cfg OpProbe g a = probe cfg"
| "run_op cfg (OpCreate passphrase sync) g a = createVault cfg passphrase sync g"
| "run_op cfg (OpUnlock passphrase) g a = vault_unlock cfg passphrase g"
| "run_op cfg (OpUnlockRemembered rm) g a = unlockWithRememberedDek cfg rm g"
| "run_op cfg (OpDecryptForHost hostAlias) g a = decryptKeyForHost cfg hostAlias"
| "run_op cfg (OpDecrypt keyId) g a = decryptKey cfg keyId"
| "run_op cfg (OpPublicKey keyId) g a = getPublicKey cfg keyId"
| "run_op cfg (OpAddKey pem name keyPassphrase) g a = addKey cfg pem name keyPassphrase"
| "run_op cfg (OpAddPassword password name) g a = addPassword cfg password name"
| "run_op cfg (OpRemove keyId) g a = removeKey cfg keyId"
| "run_op cfg (OpRename keyId name) g a = renameKey cfg keyId name"
| "run_op cfg (OpRotate oldKeyId newKeyId) g a = rotateKey cfg oldKeyId newKeyId"
| "run_op cfg (OpBind hostAlias keyId policy) g a = bindHost cfg hostAlias keyId policy"
| "run_op cfg (OpUnbind hostAlias) g a = unbindHost cfg hostAlias"
| "run_op cfg (OpSetSync passphrase) g a = setSyncPassphrase cfg passphrase"
| "run_op cfg (OpChangePassphrase current next_one) g a = changePassphrase cfg current next_one g"
| "run_op cfg OpRetryVerifier g a = retryVerifierPublish cfg"
| "run_op cfg (OpReset passphrase carry) g a = resetVault cfg passphrase carry g"
| "run_op cfg OpRefreshTrust g a = refresh_trust cfg a"

fun exclusive :: "vault_op \<Rightarrow> bool" where
  "exclusive OpProbe = False"
| "exclusive (OpDecryptForHost hostAlias) = False"
| "exclusive (OpDecrypt keyId) = False"
| "exclusive (OpPublicKey keyId) = False"
| "exclusive op = True"

subsection \<open>The settings server\<close>

text \<open>
  Versioned slots, as the interface of the transport states them: base version 0 creates, a base that
  is not the slot's current version is a conflict, an accepted write has the next version, deleting an
  absent slot succeeds. What version a slot starts from when it is created is left open: the
  interface says nothing of it, a server may start again after a deletion or go on counting.
  \<open>sv_log\<close> records the accepted pushes of the header slot.
\<close>

record vault_server =
  sv_slots :: "(string \<times> int \<times> json_text) list"
  sv_log :: header_log

text \<open>\<open>Granted n\<close>: a slot created by this request gets the version after \<open>n\<close>.\<close>

datatype server_mode = Granted nat | Hidden | Failing string | Says vault_answer

definition slot_version :: "vault_server \<Rightarrow> string \<Rightarrow> int" where
  "slot_version sv slot = (case map_of (sv_slots sv) slot of Some (v, d) \<Rightarrow> v | None \<Rightarrow> 0)"

definition push_slot :: "nat \<Rightarrow> string \<Rightarrow> json_text \<Rightarrow> int \<Rightarrow> vault_server \<Rightarrow> vault_answer \<times> vault_server" where
  "push_slot n slot d base sv =
     (if base \<noteq> slot_version sv slot then (Pushed (PushConflict (slot_version sv slot)), sv)
      else
        let v = (if map_of (sv_slots sv) slot = None then int n + 1 else slot_version sv slot + 1) in
        (Pushed (PushOk v),
         sv\<lparr>sv_slots := AList.update slot (v, d) (sv_slots sv),
            sv_log := (if slot = VAULT_HEADER_SLOT then (v, base, d) # sv_log sv else sv_log sv)\<rparr>))"

definition delete_slot :: "string \<Rightarrow> vault_server \<Rightarrow> vault_server" where
  "delete_slot slot sv = sv\<lparr>sv_slots := AList.delete slot (sv_slots sv)\<rparr>"

text \<open>A reset by the server wipes the header and every key slot.\<close>

definition reset_slots :: "vault_server \<Rightarrow> vault_server" where
  "reset_slots sv =
     sv\<lparr>sv_slots := filter (\<lambda>(slot, v, d). slot \<noteq> VAULT_HEADER_SLOT \<and> keyIdFromSlot slot = None) (sv_slots sv)\<rparr>"

definition present_slots :: "vault_server \<Rightarrow> (string \<times> int) list" where
  "present_slots sv = map (\<lambda>(slot, v, d). (slot, v)) (sv_slots sv)"

fun serve :: "server_mode \<Rightarrow> vault_request \<Rightarrow> vault_server \<Rightarrow> vault_answer \<times> vault_server" where
  "serve mode Compute sv = (case mode of Failing m \<Rightarrow> Rejected m | _ \<Rightarrow> Computed, sv)"
| "serve (Failing m) (PushSlot slot d base) sv = (Pushed (PushError m), sv)"
| "serve (Failing m) q sv = (Rejected m, sv)"
| "serve (Granted n) (PullSlot slot) sv =
     (Pulled (case map_of (sv_slots sv) slot of Some (v, d) \<Rightarrow> PullOk v d | None \<Rightarrow> PullAbsent), sv)"
| "serve (Granted n) (PushSlot slot d base) sv = push_slot n slot d base sv"
| "serve (Granted n) (DeleteSlot slot) sv = (Deleted, delete_slot slot sv)"
| "serve (Granted n) ListSlots sv = (Listed (present_slots sv), sv)"
| "serve Hidden (PullSlot slot) sv = (Pulled PullGated, sv)"
| "serve Hidden (PushSlot slot d base) sv = (Pushed PushGated, sv)"
| "serve (Says ans) AskStatus sv = (ans, sv)"
| "serve (Says ans) (AskVerify auth) sv = (ans, sv)"
| "serve (Says ans) (AskSetVerifier auth epoch cur) sv = (ans, sv)"
| "serve (Says ans) AskReset sv =
     (ans, case ans of ResetIs (ResetOk epoch) \<Rightarrow> reset_slots sv | _ \<Rightarrow> sv)"
| "serve mode q sv = (Rejected [], sv)"

subsection \<open>Devices\<close>

type_synonym vault_task = "vault_prog \<times> vault_answer option"

record vault_device =
  vd_store :: vault_store
  vd_queue :: "(vault_op \<times> nat \<times> nat option) list"
  vd_running :: "(nat \<times> vault_task) option"
  vd_free :: "vault_task list"

record vault_world =
  vw_server :: vault_server
  vw_flight :: "vault_request list"
  vw_devices :: "vault_device list"

datatype task_id = Running | Free nat

datatype vault_event =
    Call nat vault_op
  | Start nat
  | Serve nat task_id server_mode
  | Lose nat task_id string
  | Answer nat task_id
  | Land nat server_mode
  | LockNow nat
  | Clock nat int

definition get_task :: "task_id \<Rightarrow> vault_device \<Rightarrow> vault_task option" where
  "get_task i dv =
     (case i of
        Running \<Rightarrow> map_option snd (vd_running dv)
      | Free n \<Rightarrow> if n < length (vd_free dv) then Some (vd_free dv ! n) else None)"

definition put_task :: "task_id \<Rightarrow> vault_task \<Rightarrow> vault_device \<Rightarrow> vault_device" where
  "put_task i t dv =
     (case i of
        Running \<Rightarrow> dv\<lparr>vd_running := map_option (\<lambda>(g, _). (g, t)) (vd_running dv)\<rparr>
      | Free n \<Rightarrow> dv\<lparr>vd_free := (vd_free dv)[n := t]\<rparr>)"

fun finished :: "vault_prog \<Rightarrow> bool" where
  "finished (Return r) = True"
| "finished (Await q k) = False"

definition call_op :: "vault_config \<Rightarrow> vault_op \<Rightarrow> vault_device \<Rightarrow> vault_device" where
  "call_op cfg op dv =
     (let g = vs_generation (vd_store dv); a = vs_unlocked (vd_store dv) in
      if exclusive op then dv\<lparr>vd_queue := vd_queue dv @ [(op, g, a)]\<rparr>
      else case run_op cfg op g a (vd_store dv) of
             (p, s) \<Rightarrow> dv\<lparr>vd_store := s, vd_free := vd_free dv @ [(p, None)]\<rparr>)"

definition idle :: "vault_device \<Rightarrow> bool" where
  "idle dv = (case vd_running dv of None \<Rightarrow> True | Some (g, p, _) \<Rightarrow> finished p)"

definition start_next :: "vault_config \<Rightarrow> vault_device \<Rightarrow> vault_device" where
  "start_next cfg dv =
     (case vd_queue dv of
        [] \<Rightarrow> dv
      | (op, g, a) # rest \<Rightarrow>
          if \<not> idle dv then dv
          else case run_op cfg op g a (vd_store dv) of
                 (p, s) \<Rightarrow> dv\<lparr>vd_store := s, vd_queue := rest, vd_running := Some (g, p, None)\<rparr>)"

text \<open>The answer is set down once; a lost request or answer becomes a rejection.\<close>

definition answered :: "vault_answer \<Rightarrow> task_id \<Rightarrow> vault_device \<Rightarrow> vault_device" where
  "answered ans i dv = (case get_task i dv of Some (p, _) \<Rightarrow> put_task i (p, Some ans) dv | None \<Rightarrow> dv)"

definition resume :: "task_id \<Rightarrow> vault_device \<Rightarrow> vault_device" where
  "resume i dv =
     (case get_task i dv of
        Some (Await q k, Some ans) \<Rightarrow>
          (case k ans (vd_store dv) of (p, s) \<Rightarrow> put_task i (p, None) (dv\<lparr>vd_store := s\<rparr>))
      | _ \<Rightarrow> dv)"

definition pending :: "task_id \<Rightarrow> vault_device \<Rightarrow> vault_request option" where
  "pending i dv = (case get_task i dv of Some (Await q k, None) \<Rightarrow> Some q | _ \<Rightarrow> None)"

definition on_device :: "nat \<Rightarrow> (vault_device \<Rightarrow> vault_device) \<Rightarrow> vault_world \<Rightarrow> vault_world" where
  "on_device n f w =
     (if n < length (vw_devices w) then w\<lparr>vw_devices := (vw_devices w)[n := f (vw_devices w ! n)]\<rparr> else w)"

definition request_of :: "nat \<Rightarrow> task_id \<Rightarrow> vault_world \<Rightarrow> vault_request option" where
  "request_of n i w = (if n < length (vw_devices w) then pending i (vw_devices w ! n) else None)"

fun drop_nth :: "nat \<Rightarrow> 'a list \<Rightarrow> 'a list" where
  "drop_nth n [] = []"
| "drop_nth 0 (x # xs) = xs"
| "drop_nth (Suc n) (x # xs) = x # drop_nth n xs"

fun vault_step :: "vault_config \<Rightarrow> vault_event \<Rightarrow> vault_world \<Rightarrow> vault_world" where
  "vault_step cfg (Call n op) w = on_device n (call_op cfg op) w"
| "vault_step cfg (Start n) w = on_device n (start_next cfg) w"
| "vault_step cfg (Serve n i mode) w =
     (case request_of n i w of
        None \<Rightarrow> w
      | Some q \<Rightarrow> (case serve mode q (vw_server w) of
          (ans, sv) \<Rightarrow> on_device n (answered ans i) (w\<lparr>vw_server := sv\<rparr>)))"
| "vault_step cfg (Lose n i m) w =
     (case request_of n i w of
        None \<Rightarrow> on_device n (answered (Rejected m) i) w
      | Some q \<Rightarrow> on_device n (answered (Rejected m) i) (w\<lparr>vw_flight := q # vw_flight w\<rparr>))"
| "vault_step cfg (Answer n i) w = on_device n (resume i) w"
| "vault_step cfg (Land j mode) w =
     (if j < length (vw_flight w)
      then w\<lparr>vw_server := snd (serve mode (vw_flight w ! j) (vw_server w)), vw_flight := drop_nth j (vw_flight w)\<rparr>
      else w)"
| "vault_step cfg (LockNow n) w = on_device n (\<lambda>dv. dv\<lparr>vd_store := store_lock (vd_store dv)\<rparr>) w"
| "vault_step cfg (Clock n t) w = on_device n (\<lambda>dv. dv\<lparr>vd_store := (vd_store dv)\<lparr>vs_clock := t\<rparr>\<rparr>) w"

definition vault_run :: "vault_config \<Rightarrow> vault_event list \<Rightarrow> vault_world \<Rightarrow> vault_world" where
  "vault_run cfg evs w = fold (vault_step cfg) evs w"

definition new_world :: "(nat \<Rightarrow> nat \<Rightarrow> bytes) list \<Rightarrow> int \<Rightarrow> vault_world" where
  "new_world rnds now =
     \<lparr>vw_server = \<lparr>sv_slots = [], sv_log = []\<rparr>, vw_flight = [],
      vw_devices = map (\<lambda>rnd. \<lparr>vd_store = new_vault_store rnd now, vd_queue = [], vd_running = None, vd_free = []\<rparr>) rnds\<rparr>"

end
