(* ===== verification/Vault_Props.thy ===== *)
theory Vault_Props
  imports Vault_System
begin

text \<open>
  What the devices of an account are promised together: the header's history is serial, so no update
  is lost, and a lock on a device wins over everything it was doing.
\<close>

subsection \<open>Operations that only read\<close>

fun harmless :: "vault_request \<Rightarrow> bool" where
  "harmless (PushSlot slot d base) = False"
| "harmless (DeleteSlot slot) = False"
| "harmless q = True"

text \<open>They leave the store as it is, whatever happens to it while they wait.\<close>

interpretation vfree: async_client "\<lambda>(h :: header_log) (s :: vault_store). True" log_grows "\<lambda>_ _. True" "(=)"
    "\<lambda>_ (_ :: vault_request) (_ :: vault_answer). True" "\<lambda>_. harmless"
  by unfold_locales (auto intro: log_grows_trans)

definition fgood :: "vault_store \<Rightarrow> vault_prog \<times> vault_store \<Rightarrow> bool" where
  "fgood s r \<longleftrightarrow> (\<forall>h. vfree.good h s r)"

named_theorems free_rules

lemma fgood_ret [free_rules]: "fgood s (ret x s)"
  by (simp add: fgood_def vfree.good_ret)

lemma fgood_await: "harmless q \<Longrightarrow> (\<And>r s. fgood s (k r s)) \<Longrightarrow> fgood s (await q k s)"
  by (auto simp: fgood_def intro!: vfree.good_await)

lemma fgood_compute [free_rules]: "(\<And>s. fgood s (ok s)) \<Longrightarrow> (\<And>m s. fgood s (err m s)) \<Longrightarrow> fgood s (compute ok err s)"
  unfolding compute_def by (rule fgood_await) (auto split: vault_answer.split)

lemma fgood_verify [free_rules]: "(\<And>r s. fgood s (k r s)) \<Longrightarrow> fgood s (verify c auth k s)"
  unfolding verify_def by (auto intro!: fgood_await split: vault_answer.split)

lemma fgood_reverify [free_rules]: "(\<And>b s. fgood s (k b s)) \<Longrightarrow> fgood s (reverify c auth k s)"
  by (auto simp: reverify_def split: option.split intro!: fgood_verify)

lemma fgood_pull_plain [free_rules]:
  "(\<And>r s. fgood s (ok r s)) \<Longrightarrow> (\<And>m s. fgood s (err m s)) \<Longrightarrow> fgood s (transport_pull slot ok err s)"
  unfolding transport_pull_def by (rule fgood_await) (auto split: vault_answer.split)

lemma fgood_pull [free_rules]:
  "(\<And>r s. fgood s (ok r s)) \<Longrightarrow> (\<And>m s. fgood s (err m s)) \<Longrightarrow> fgood s (pull c slot auth ok err s)"
  unfolding pull_def by (rule fgood_pull_plain) (auto intro!: fgood_reverify fgood_pull_plain)

lemma fgood_pullHeader [free_rules]:
  "(\<And>r s. fgood s (ok r s)) \<Longrightarrow> (\<And>m s. fgood s (err m s)) \<Longrightarrow> fgood s (pullHeader c auth ok err s)"
  unfolding pullHeader_def by (rule fgood_pull)

lemma fgood_decrypt [free_rules]: "fgood s (decryptKey cfg keyId s)"
  by (auto simp: decryptKey_def Let_def split: option.split pull_result.split intro!: free_rules)

lemma fgood_reading:
  assumes "\<not> exclusive op"
  shows "fgood s (run_op cfg op g a s)"
  using assms
  by (cases op)
    (auto simp: probe_def decryptKeyForHost_def getPublicKey_def
       split: option.split pull_result.split intro!: free_rules)

lemma vnext_exclusive:
  assumes "exclusive op"
  shows "vnext cfg g h s (run_op cfg op g a)"
  using assms
  by (cases op)
    (auto intro: vnext_create vnext_unlock vnext_unlock_remembered vnext_addKey vnext_addPassword vnext_index_ops
      vnext_change vnext_retry_publish vnext_reset vnext_refresh_trust)

subsection \<open>A serial history\<close>

text \<open>What may replace the header \<open>d0\<close>.\<close>

definition follows :: "vault_config \<Rightarrow> json_text \<Rightarrow> json_text \<Rightarrow> bool" where
  "follows cfg d0 d \<longleftrightarrow>
     (\<exists>hdr. reads cfg d0 hdr \<and> (edits cfg hdr d \<or> rewraps cfg hdr d))
     \<or> (\<exists>epoch. founds cfg epoch d \<and> (\<forall>old. parseVaultHeader (vc_date cfg) d0 = Some old \<longrightarrow> vh_epoch old < epoch))"

definition founded :: "vault_config \<Rightarrow> json_text \<Rightarrow> bool" where
  "founded cfg d \<longleftrightarrow> (\<exists>epoch. founds cfg epoch d)"

text \<open>
  Latest first: every header was pushed on its predecessor, as the next version, or on an empty slot
  as a fresh vault.
\<close>

fun serial :: "vault_config \<Rightarrow> header_log \<Rightarrow> bool" where
  "serial cfg [] = True"
| "serial cfg [(v, base, d)] = (base = 0 \<and> founded cfg d)"
| "serial cfg ((v, base, d) # (v', base', d') # rest) =
     ((base = 0 \<and> founded cfg d \<or> base = v' \<and> v = v' + 1 \<and> follows cfg d' d) \<and> serial cfg ((v', base', d') # rest))"

text \<open>
  What holds whatever version numbers the server starts from: every header was pushed on its
  predecessor's version, or on an empty slot, and follows some header that had that version.
\<close>

fun chained :: "vault_config \<Rightarrow> header_log \<Rightarrow> bool" where
  "chained cfg [] = True"
| "chained cfg ((v, base, d) # rest) =
     (0 < v \<and> succeeds cfg rest base d \<and> (base = 0 \<or> (\<exists>b d0 rest'. rest = (base, b, d0) # rest' \<and> v = base + 1))
      \<and> chained cfg rest)"

lemma chained_positive: "chained cfg h \<Longrightarrow> written h v d \<Longrightarrow> 0 < v"
proof (induction h)
  case (Cons e rest)
  then show ?case by (cases e) (auto simp: written_def)
qed (simp add: written_def)

text \<open>When no version was given twice, there is only one header it can follow.\<close>

lemma chained_serial: "chained cfg h \<Longrightarrow> distinct (map fst h) \<Longrightarrow> serial cfg h"
proof (induction h)
  case (Cons e rest)
  obtain v base d where e: "e = (v, base, d)" by (cases e)
  have rest: "serial cfg rest" and c: "chained cfg rest" and s: "succeeds cfg rest base d"
    and b: "base = 0 \<or> (\<exists>b d0 rest'. rest = (base, b, d0) # rest' \<and> v = base + 1)"
    using Cons by (auto simp: e)
  have none: "\<not> written rest 0 d0" for d0 using chained_positive [OF c] by blast
  show ?case
  proof (cases "base = 0")
    case True
    then have "founded cfg d" using s none by (auto simp: succeeds_def founded_def)
    with True rest show ?thesis by (cases rest) (auto simp: e)
  next
    case False
    with b obtain b' d' rest' where r: "rest = (base, b', d') # rest'" and v: "v = base + 1" by auto
    have only: "d0 = d'" if "written rest base d0" for d0
    proof -
      have "\<exists>b. (base, b, d0) \<in> set rest" using that by (simp add: written_def)
      then obtain b where "(base, b, d0) \<in> set rest" by blast
      moreover have "base \<notin> fst ` set rest'" using Cons.prems(2) by (simp add: r e)
      ultimately show ?thesis by (force simp: r)
    qed
    have "follows cfg d' d"
      using s unfolding succeeds_def
    proof (elim disjE exE conjE)
      fix d0 hdr
      assume "written rest base d0" "reads cfg d0 hdr" "edits cfg hdr d"
      then show ?thesis using only by (auto simp: follows_def)
    next
      fix d0 hdr
      assume "written rest base d0" "reads cfg d0 hdr" "rewraps cfg hdr d"
      then show ?thesis using only by (auto simp: follows_def)
    next
      fix epoch
      assume "founds cfg epoch d" "later_epoch cfg rest base epoch"
      then show ?thesis using only False by (auto simp: follows_def later_epoch_def)
    qed
    then show ?thesis using rest v r by (simp add: e)
  qed
qed simp

definition server_ok :: "vault_config \<Rightarrow> vault_server \<Rightarrow> bool" where
  "server_ok cfg sv \<longleftrightarrow>
     chained cfg (sv_log sv)
     \<and> (case map_of (sv_slots sv) VAULT_HEADER_SLOT of
          None \<Rightarrow> True
        | Some (v, d) \<Rightarrow> (\<exists>base rest. sv_log sv = (v, base, d) # rest))"

lemma header_wiped: "map_of (sv_slots (reset_slots sv)) VAULT_HEADER_SLOT = None"
  by (auto simp: reset_slots_def map_of_eq_None_iff)

lemma push_slot_ok:
  assumes ok: "server_ok cfg sv" and legit: "vault_legit cfg (sv_log sv) (PushSlot slot d base)"
    and r: "push_slot n slot d base sv = (ans, sv')"
  shows "server_ok cfg sv' \<and> log_grows (sv_log sv) (sv_log sv') \<and> log_fact (sv_log sv') (PushSlot slot d base) ans"
proof (cases "base = slot_version sv slot \<and> slot = VAULT_HEADER_SLOT")
  case True
  let ?v = "if map_of (sv_slots sv) VAULT_HEADER_SLOT = None then int n + 1 else slot_version sv VAULT_HEADER_SLOT + 1"
  have "chained cfg ((?v, base, d) # sv_log sv)"
    using ok legit True by (auto simp: server_ok_def slot_version_def split: option.splits)
  with True r show ?thesis
    by (auto simp: push_slot_def Let_def server_ok_def update_conv' log_grows_def written_def)
next
  case False
  with ok r show ?thesis
    by (auto simp: push_slot_def Let_def server_ok_def update_conv' log_grows_def split: if_splits option.splits)
qed

lemma delete_slot_ok:
  "server_ok cfg sv \<Longrightarrow> slot \<noteq> VAULT_HEADER_SLOT \<Longrightarrow>
   server_ok cfg (delete_slot slot sv) \<and> sv_log (delete_slot slot sv) = sv_log sv"
  by (auto simp: delete_slot_def server_ok_def delete_conv' split: option.splits)

lemma reset_slots_ok: "server_ok cfg sv \<Longrightarrow> server_ok cfg (reset_slots sv) \<and> sv_log (reset_slots sv) = sv_log sv"
  by (auto simp: server_ok_def header_wiped) (simp_all add: reset_slots_def)

lemma server_header: "server_ok cfg sv \<Longrightarrow> map_of (sv_slots sv) VAULT_HEADER_SLOT = Some (v, d) \<Longrightarrow> written (sv_log sv) v d"
  by (auto simp: server_ok_def written_def)

lemma serve_ok:
  assumes ok: "server_ok cfg sv" and legit: "vault_legit cfg (sv_log sv) q" and r: "serve mode q sv = (ans, sv')"
  shows "server_ok cfg sv' \<and> log_grows (sv_log sv) (sv_log sv') \<and> log_fact (sv_log sv') q ans"
proof (cases q)
  case (PushSlot slot d base)
  then show ?thesis
    using ok legit r push_slot_ok [of cfg sv slot d base] by (cases mode) auto
next
  case (PullSlot slot)
  then show ?thesis
    using ok legit r server_header [of cfg sv] by (cases mode) (auto split: option.splits)
next
  case AskReset
  then show ?thesis
    using ok legit r reset_slots_ok [of cfg sv]
    by (cases mode) (auto split: vault_answer.splits reset_result.splits)
qed (use ok legit r delete_slot_ok in \<open>cases mode; auto\<close>)+

subsection \<open>The devices\<close>

definition running_ok :: "vault_config \<Rightarrow> header_log \<Rightarrow> vault_store \<Rightarrow> nat \<times> vault_task \<Rightarrow> bool" where
  "running_ok cfg h s r \<longleftrightarrow>
     (case r of (g, p, ans) \<Rightarrow>
        vop.fine cfg g h s p \<and> g \<le> vs_generation s
        \<and> (case (p, ans) of (Await q k, Some a) \<Rightarrow> log_fact h q a | _ \<Rightarrow> True))"

definition device_ok :: "vault_config \<Rightarrow> header_log \<Rightarrow> vault_device \<Rightarrow> bool" where
  "device_ok cfg h dv \<longleftrightarrow>
     vault_inv cfg h (vd_store dv)
     \<and> list_all (\<lambda>(op, g, a). exclusive op \<and> g \<le> vs_generation (vd_store dv)) (vd_queue dv)
     \<and> (case vd_running dv of None \<Rightarrow> True | Some r \<Rightarrow> running_ok cfg h (vd_store dv) r)
     \<and> list_all (\<lambda>(p, ans). vfree.fine h (vd_store dv) p) (vd_free dv)"

lemma log_fact_grows: "log_fact h q a \<Longrightarrow> log_grows h h' \<Longrightarrow> log_fact h' q a"
  by (induction h q a rule: log_fact.induct) (auto intro: written_grows)

lemma free_stable: "vfree.fine h s p \<Longrightarrow> log_grows h h' \<Longrightarrow> vfree.fine h' s' p"
  by (rule vfree.fine_stable) simp_all

lemma running_stable:
  "running_ok cfg h s r \<Longrightarrow> log_grows h h' \<Longrightarrow> steady s s' \<Longrightarrow> running_ok cfg h' s' r"
  unfolding running_ok_def
  by (auto split: prod.splits prog.splits option.splits intro: vop.fine_stable log_fact_grows simp: steady_def)

lemma device_ok_grows: "device_ok cfg h dv \<Longrightarrow> log_grows h h' \<Longrightarrow> device_ok cfg h' dv"
  by (auto simp: device_ok_def list_all_iff split: option.splits
    intro: vault_inv_grows running_stable free_stable)

text \<open>\<open>lock()\<close> and the clock.\<close>

lemma device_ok_steady:
  assumes "device_ok cfg h dv" and "steady (vd_store dv) s"
  shows "device_ok cfg h (dv\<lparr>vd_store := s\<rparr>)"
  using assms vault_inv_steady [of cfg h "vd_store dv" s]
  by (auto simp: device_ok_def list_all_iff steady_def split: option.splits
    intro: running_stable [OF _ log_grows_refl] free_stable [OF _ log_grows_refl])

lemma run_exclusive:
  assumes "device_ok cfg h dv" and "exclusive op" and "run_op cfg op g a (vd_store dv) = (p, s)"
  shows "vault_inv cfg h s \<and> stays_locked g (vd_store dv) s \<and> vop.fine cfg g h s p"
proof -
  have "vgood cfg g h (vd_store dv) (run_op cfg op g a (vd_store dv))"
    using assms(1,2) by (intro vnextD [OF vnext_exclusive]) (auto simp: device_ok_def)
  then show ?thesis using assms(3) by (simp add: vop.good_def)
qed

lemma run_reading:
  assumes "\<not> exclusive op" and "run_op cfg op g a s = (p, s')"
  shows "s' = s \<and> vfree.fine h s p"
  using fgood_reading [OF assms(1), of s cfg g a] assms(2) by (auto simp: fgood_def vfree.good_def)

lemma call_op_ok:
  assumes "device_ok cfg h dv"
  shows "device_ok cfg h (call_op cfg op dv)"
proof (cases "exclusive op")
  case False
  obtain p s where r: "run_op cfg op (vs_generation (vd_store dv)) (vs_unlocked (vd_store dv)) (vd_store dv) = (p, s)"
    by (cases "run_op cfg op (vs_generation (vd_store dv)) (vs_unlocked (vd_store dv)) (vd_store dv)")
  show ?thesis
    using assms run_reading [OF False r] False r
    by (cases "vd_running dv") (simp_all add: call_op_def Let_def device_ok_def)
qed (use assms in \<open>cases "vd_running dv"; simp add: call_op_def Let_def device_ok_def\<close>)

text \<open>The running operation is replaced, from a store it may have changed.\<close>

lemma device_ok_running:
  assumes "device_ok cfg h dv" and "vault_inv cfg h s" and "stays_locked g (vd_store dv) s"
    and "vop.fine cfg g h s p" and "g \<le> vs_generation (vd_store dv)"
    and "set (vd_queue dv') \<subseteq> set (vd_queue dv)" and "vd_free dv' = vd_free dv"
    and "vd_running dv' = Some (g, p, None)" and "vd_store dv' = s"
  shows "device_ok cfg h dv'"
proof -
  have gen: "vs_generation (vd_store dv) \<le> vs_generation s" using assms(3) by (simp add: stays_locked_def)
  have "list_all (\<lambda>(op, g, a). exclusive op \<and> g \<le> vs_generation s) (vd_queue dv')"
  proof -
    have "\<forall>x\<in>set (vd_queue dv). exclusive (fst x) \<and> fst (snd x) \<le> vs_generation (vd_store dv)"
      using assms(1) by (auto simp: device_ok_def list_all_iff)
    then have "\<forall>x\<in>set (vd_queue dv'). exclusive (fst x) \<and> fst (snd x) \<le> vs_generation s"
      using assms(6) gen by (meson le_trans subsetD)
    then show ?thesis by (simp add: list_all_iff case_prod_beta)
  qed
  moreover have "list_all (\<lambda>(p, ans). vfree.fine h s p) (vd_free dv)"
    using assms(1) by (auto simp: device_ok_def list_all_iff intro: free_stable [OF _ log_grows_refl])
  moreover have "running_ok cfg h s (g, p, None)"
    using assms(4,5) gen by (simp add: running_ok_def split: prog.split)
  ultimately show ?thesis using assms(2,7,8,9) by (simp add: device_ok_def)
qed

lemma start_next_ok:
  assumes "device_ok cfg h dv"
  shows "device_ok cfg h (start_next cfg dv)"
proof (cases "vd_queue dv")
  case (Cons e rest)
  obtain op g a where e: "e = (op, g, a)" by (cases e)
  obtain p s where r: "run_op cfg op g a (vd_store dv) = (p, s)" by (cases "run_op cfg op g a (vd_store dv)")
  have q: "exclusive op" "g \<le> vs_generation (vd_store dv)" using assms Cons e by (auto simp: device_ok_def)
  show ?thesis
  proof (cases "idle dv")
    case True
    let ?dv = "dv\<lparr>vd_store := s, vd_queue := rest, vd_running := Some (g, p, None)\<rparr>"
    have "device_ok cfg h ?dv"
      using run_exclusive [OF assms q(1) r] q(2) Cons by (auto intro!: device_ok_running [OF assms])
    then show ?thesis using True Cons e r by (simp add: start_next_def)
  qed (simp add: start_next_def Cons e assms)
qed (simp add: start_next_def assms)

lemma answered_ok:
  assumes "device_ok cfg h dv" and "\<And>q k x. get_task i dv = Some (Await q k, x) \<Longrightarrow> log_fact h q ans"
  shows "device_ok cfg h (answered ans i dv)"
proof (cases i)
  case Running
  show ?thesis
  proof (cases "vd_running dv")
    case (Some r)
    obtain g p x where r: "r = (g, p, x)" by (cases r)
    then have "running_ok cfg h (vd_store dv) (g, p, Some ans)"
      using assms Some Running by (auto simp: device_ok_def running_ok_def get_task_def split: prog.split)
    then show ?thesis
      using assms(1) Some Running r by (simp add: device_ok_def answered_def get_task_def put_task_def)
  qed (use assms(1) Running in \<open>simp add: answered_def get_task_def\<close>)
next
  case (Free n)
  show ?thesis
  proof (cases "n < length (vd_free dv)")
    case True
    obtain p x where t: "vd_free dv ! n = (p, x)" by (cases "vd_free dv ! n")
    have "vfree.fine h (vd_store dv) p"
      using assms(1) True t by (auto simp: device_ok_def list_all_length)
    then have "list_all (\<lambda>(p, ans). vfree.fine h (vd_store dv) p) ((vd_free dv)[n := (p, Some ans)])"
      using assms(1) by (auto simp: device_ok_def list_all_iff dest!: set_update_subset_insert [THEN subsetD])
    then show ?thesis
      using assms(1) Free True t
      by (cases "vd_running dv") (simp_all add: device_ok_def answered_def get_task_def put_task_def)
  qed (use assms(1) Free in \<open>simp add: answered_def get_task_def\<close>)
qed

lemma resume_ok:
  assumes "device_ok cfg h dv"
  shows "device_ok cfg h (resume i dv)"
proof (cases "\<exists>q k ans. get_task i dv = Some (Await q k, Some ans)")
  case False
  then have "resume i dv = dv" by (auto simp: resume_def split: option.split prod.split prog.split)
  then show ?thesis using assms by simp
next
  case True
  then obtain q k ans where t: "get_task i dv = Some (Await q k, Some ans)" by blast
  obtain p s where r: "k ans (vd_store dv) = (p, s)" by (cases "k ans (vd_store dv)")
  show ?thesis
  proof (cases i)
    case Running
    with t obtain g where run: "vd_running dv = Some (g, Await q k, Some ans)"
      by (auto simp: get_task_def)
    then have ok: "vop.fine cfg g h (vd_store dv) (Await q k)" "log_fact h q ans" "g \<le> vs_generation (vd_store dv)"
      "vault_inv cfg h (vd_store dv)"
      using assms by (auto simp: device_ok_def running_ok_def)
    have "vgood cfg g h (vd_store dv) (k ans (vd_store dv))"
      using ok(1,4,2) by (rule vop.good_resume)
    then show ?thesis
      using t r run ok(3) Running
      by (auto intro!: device_ok_running [OF assms, of s g p] simp: resume_def put_task_def vop.good_def)
  next
    case (Free n)
    with t have n: "n < length (vd_free dv)" "vd_free dv ! n = (Await q k, Some ans)"
      by (auto simp: get_task_def split: if_splits)
    then have "vfree.fine h (vd_store dv) (Await q k)"
      using assms by (auto simp: device_ok_def list_all_length)
    then have "vfree.good h (vd_store dv) (k ans (vd_store dv))"
      by (rule vfree.good_resume) simp_all
    then have s: "s = vd_store dv" and p: "vfree.fine h (vd_store dv) p"
      using r by (auto simp: vfree.good_def)
    have "list_all (\<lambda>(p, ans). vfree.fine h (vd_store dv) p) ((vd_free dv)[n := (p, None)])"
      using assms p by (auto simp: device_ok_def list_all_iff dest!: set_update_subset_insert [THEN subsetD])
    then show ?thesis
      using assms t r s Free
      by (cases "vd_running dv") (simp_all add: device_ok_def resume_def put_task_def)
  qed
qed

subsection \<open>The account\<close>

definition world_ok :: "vault_config \<Rightarrow> vault_world \<Rightarrow> bool" where
  "world_ok cfg w \<longleftrightarrow>
     server_ok cfg (vw_server w) \<and> list_all (vault_legit cfg (sv_log (vw_server w))) (vw_flight w)
     \<and> list_all (device_ok cfg (sv_log (vw_server w))) (vw_devices w)"

lemma on_device_ok:
  assumes "world_ok cfg w" and "\<And>dv. device_ok cfg (sv_log (vw_server w)) dv \<Longrightarrow> dv = vw_devices w ! n \<Longrightarrow>
      device_ok cfg (sv_log (vw_server w)) (f dv)"
  shows "world_ok cfg (on_device n f w)"
  using assms
  by (auto simp: world_ok_def on_device_def list_all_iff dest!: set_update_subset_insert [THEN subsetD])

lemma world_grows:
  assumes "world_ok cfg w" and "server_ok cfg sv" and "log_grows (sv_log (vw_server w)) (sv_log sv)"
    and "set fl \<subseteq> set (vw_flight w)"
  shows "world_ok cfg (w\<lparr>vw_server := sv, vw_flight := fl\<rparr>)"
  using assms vop.legit_grows [of cfg "sv_log (vw_server w)" _ "sv_log sv"]
  by (auto simp: world_ok_def list_all_iff intro: device_ok_grows)

lemma request_legit:
  assumes "world_ok cfg w" and "request_of n i w = Some q"
  shows "vault_legit cfg (sv_log (vw_server w)) q"
proof -
  let ?dv = "vw_devices w ! n" and ?h = "sv_log (vw_server w)"
  have n: "n < length (vw_devices w)" and q: "pending i ?dv = Some q"
    using assms(2) by (auto simp: request_of_def split: if_splits)
  then have ok: "device_ok cfg ?h ?dv" using assms(1) by (simp add: world_ok_def list_all_length)
  obtain k where t: "get_task i ?dv = Some (Await q k, None)"
    using q by (auto simp: pending_def split: option.splits prod.splits prog.splits)
  show ?thesis
  proof (cases i)
    case Running
    with t obtain g where "vd_running ?dv = Some (g, Await q k, None)" by (auto simp: get_task_def)
    with ok have "vop.fine cfg g ?h (vd_store ?dv) (Await q k)" by (simp add: device_ok_def running_ok_def)
    then show ?thesis by (auto elim: vop.fine_awaitE)
  next
    case (Free m)
    with t ok have "vfree.fine ?h (vd_store ?dv) (Await q k)"
      by (auto simp: get_task_def device_ok_def list_all_length split: if_splits)
    then have "harmless q" by (auto elim: vfree.fine_awaitE)
    then show ?thesis by (cases q) simp_all
  qed
qed

lemma answer_fact:
  assumes "request_of n i w = Some q" and "get_task i (vw_devices w ! n) = Some (Await q' k, x)"
  shows "q' = q"
  using assms by (auto simp: request_of_def pending_def split: if_splits option.splits prod.splits prog.splits)

lemma set_drop_nth: "set (drop_nth n xs) \<subseteq> set xs"
  by (induction n xs rule: drop_nth.induct) auto

lemma on_device_fields [simp]:
  "vw_server (on_device n f w) = vw_server w" "vw_flight (on_device n f w) = vw_flight w"
  by (simp_all add: on_device_def)

lemma vault_step_ok:
  assumes ok: "world_ok cfg w"
  shows "world_ok cfg (vault_step cfg ev w)"
proof (cases ev)
  case (Serve n i mode)
  show ?thesis
  proof (cases "request_of n i w")
    case (Some q)
    obtain ans sv where r: "serve mode q (vw_server w) = (ans, sv)" by (cases "serve mode q (vw_server w)")
    have s: "server_ok cfg sv" "log_grows (sv_log (vw_server w)) (sv_log sv)" "log_fact (sv_log sv) q ans"
      using serve_ok [OF _ request_legit [OF ok Some] r] ok by (auto simp: world_ok_def)
    have "world_ok cfg (w\<lparr>vw_server := sv, vw_flight := vw_flight w\<rparr>)"
      by (rule world_grows [OF ok s(1,2)]) simp
    moreover have "w\<lparr>vw_server := sv, vw_flight := vw_flight w\<rparr> = w\<lparr>vw_server := sv\<rparr>" by (cases w) simp
    ultimately have w: "world_ok cfg (w\<lparr>vw_server := sv\<rparr>)" by simp
    have "world_ok cfg (on_device n (answered ans i) (w\<lparr>vw_server := sv\<rparr>))"
      by (rule on_device_ok [OF w]) (auto intro!: answered_ok simp: s(3) dest!: answer_fact [OF Some])
    then show ?thesis using Some r Serve by simp
  qed (use ok Serve in simp)
next
  case (Lose n i m)
  have rej: "log_fact h q (Rejected m)" for h q by (cases q) simp_all
  show ?thesis
  proof (cases "request_of n i w")
    case None
    then show ?thesis using Lose ok rej by (auto intro!: on_device_ok answered_ok)
  next
    case (Some q)
    have "world_ok cfg (w\<lparr>vw_flight := q # vw_flight w\<rparr>)"
      using ok request_legit [OF ok Some] by (simp add: world_ok_def)
    then show ?thesis using Lose Some rej by (auto intro!: on_device_ok answered_ok)
  qed
next
  case (Land j mode)
  show ?thesis
  proof (cases "j < length (vw_flight w)")
    case True
    obtain ans sv where r: "serve mode (vw_flight w ! j) (vw_server w) = (ans, sv)"
      by (cases "serve mode (vw_flight w ! j) (vw_server w)")
    have "vault_legit cfg (sv_log (vw_server w)) (vw_flight w ! j)"
      using ok True by (simp add: world_ok_def list_all_length)
    then have "server_ok cfg sv" "log_grows (sv_log (vw_server w)) (sv_log sv)"
      using serve_ok [OF _ _ r] ok by (auto simp: world_ok_def)
    then show ?thesis
      using Land True r world_grows [OF ok _ _ set_drop_nth] by simp
  qed (use ok Land in simp)
qed (use ok in \<open>auto intro!: on_device_ok call_op_ok start_next_ok resume_ok device_ok_steady\<close>)

lemma new_world_ok: "world_ok cfg (new_world rnds now)"
  by (auto simp: world_ok_def new_world_def server_ok_def device_ok_def vault_inv_def
    new_vault_store_def list_all_iff)

lemma vault_run_ok: "world_ok cfg w \<Longrightarrow> world_ok cfg (vault_run cfg evs w)"
  unfolding vault_run_def by (induction evs arbitrary: w) (simp_all add: vault_step_ok)

text \<open>
  A server that was never reset has given every header a version of its own: each is the next one.
\<close>

fun wiping :: "server_mode \<Rightarrow> bool" where
  "wiping (Says (ResetIs (ResetOk epoch))) = True"
| "wiping mode = False"

fun wipes :: "vault_event \<Rightarrow> bool" where
  "wipes (Serve n i mode) = wiping mode"
| "wipes (Land j mode) = wiping mode"
| "wipes ev = False"

definition counting :: "vault_server \<Rightarrow> bool" where
  "counting sv \<longleftrightarrow> sorted_wrt (>) (map fst (sv_log sv))
     \<and> (sv_log sv \<noteq> [] \<longrightarrow> map_of (sv_slots sv) VAULT_HEADER_SLOT \<noteq> None)"

lemma counting_push:
  assumes ok: "server_ok cfg sv" and c: "counting sv"
  shows "counting (snd (push_slot n slot d base sv))"
proof (cases "slot = VAULT_HEADER_SLOT")
  case True
  show ?thesis
  proof (cases "map_of (sv_slots sv) VAULT_HEADER_SLOT")
    case None
    then show ?thesis using c True by (auto simp: counting_def push_slot_def Let_def update_conv')
  next
    case (Some e)
    obtain v d' where e: "e = (v, d')" by (cases e)
    obtain b rest where l: "sv_log sv = (v, b, d') # rest" using ok Some e by (auto simp: server_ok_def)
    show ?thesis
      using c True Some e l by (fastforce simp: counting_def push_slot_def Let_def update_conv' slot_version_def)
  qed
qed (use c in \<open>auto simp: counting_def push_slot_def Let_def update_conv'\<close>)

lemma counting_serve:
  assumes "server_ok cfg sv" and "vault_legit cfg (sv_log sv) q" and "counting sv" and "\<not> wiping mode"
  shows "counting (snd (serve mode q sv))"
proof (cases q)
  case (PushSlot slot d base)
  then show ?thesis using assms counting_push by (cases mode) simp_all
next
  case (DeleteSlot slot)
  then show ?thesis using assms by (cases mode) (simp_all add: counting_def delete_slot_def delete_conv')
next
  case AskReset
  then show ?thesis using assms
    by (cases mode) (auto split: vault_answer.splits reset_result.splits)
qed (use assms in \<open>cases mode; simp\<close>)+

lemma counting_step:
  assumes ok: "world_ok cfg w" and "counting (vw_server w)" and "\<not> wipes ev"
  shows "counting (vw_server (vault_step cfg ev w))"
proof (cases ev)
  case (Serve n i mode)
  have s: "server_ok cfg (vw_server w)" using ok by (simp add: world_ok_def)
  show ?thesis
  proof (cases "request_of n i w")
    case (Some q)
    then show ?thesis
      using Serve assms(2,3) counting_serve [OF s request_legit [OF ok Some], of mode]
      by (cases "serve mode q (vw_server w)") simp
  qed (use Serve assms(2) in simp)
next
  case (Land j mode)
  have s: "server_ok cfg (vw_server w)" using ok by (simp add: world_ok_def)
  have "j < length (vw_flight w) \<Longrightarrow> vault_legit cfg (sv_log (vw_server w)) (vw_flight w ! j)"
    using ok by (simp add: world_ok_def list_all_length)
  then show ?thesis using Land assms(2,3) counting_serve [OF s, of "vw_flight w ! j" mode] by simp
qed (use assms(2) in \<open>auto split: option.split\<close>)

lemma counting_run:
  "world_ok cfg w \<Longrightarrow> counting (vw_server w) \<Longrightarrow> list_all (\<lambda>ev. \<not> wipes ev) evs \<Longrightarrow>
   counting (vw_server (vault_run cfg evs w))"
  unfolding vault_run_def by (induction evs arbitrary: w) (simp_all add: vault_step_ok counting_step)

lemma descending_distinct: "sorted_wrt (>) (vs :: int list) \<Longrightarrow> distinct vs"
  by (induction vs) auto

lemma unwiped_versions_distinct:
  assumes "list_all (\<lambda>ev. \<not> wipes ev) evs"
  shows "distinct (map fst (sv_log (vw_server (vault_run cfg evs (new_world rnds now)))))"
proof -
  have "counting (vw_server (vault_run cfg evs (new_world rnds now)))"
    by (rule counting_run [OF new_world_ok _ assms]) (simp add: counting_def new_world_def)
  then show ?thesis by (simp add: counting_def descending_distinct)
qed

text \<open>
  C9: the history of the vault header is serial whatever the devices do and whatever the network loses,
  on a server that was not reset, or that after a reset does not give out again a header version it
  gave before: every accepted header follows from exactly the one it replaced, by an edit of that
  header's index that every device can read back, by a new wrapping of the same DEK that opens with the
  new passphrase, or as a fresh vault of a later epoch, or it is a fresh vault on an empty slot; so no
  device's update is ever lost under another's.
\<close>

theorem vault_history_serial:
  assumes "list_all (\<lambda>ev. \<not> wipes ev) evs
    \<or> distinct (map fst (sv_log (vw_server (vault_run cfg evs (new_world rnds now)))))"
  shows "serial cfg (sv_log (vw_server (vault_run cfg evs (new_world rnds now))))"
proof -
  have "world_ok cfg (vault_run cfg evs (new_world rnds now))"
    by (rule vault_run_ok [OF new_world_ok])
  moreover have "distinct (map fst (sv_log (vw_server (vault_run cfg evs (new_world rnds now)))))"
    using assms unwiped_versions_distinct by blast
  ultimately show ?thesis by (simp add: world_ok_def server_ok_def chained_serial)
qed

subsection \<open>Locking\<close>

text \<open>Locked, with nothing called since that could unlock.\<close>

definition shut :: "vault_device \<Rightarrow> bool" where
  "shut dv \<longleftrightarrow>
     vs_unlocked (vd_store dv) = None
     \<and> list_all (\<lambda>(op, g, a). g < vs_generation (vd_store dv)) (vd_queue dv)
     \<and> (case vd_running dv of None \<Rightarrow> True | Some (g, t) \<Rightarrow> g < vs_generation (vd_store dv))"

lemma lock_shuts:
  assumes "device_ok cfg h dv"
  shows "shut (dv\<lparr>vd_store := store_lock (vd_store dv)\<rparr>)"
proof -
  have "vs_generation (store_lock s) = Suc (vs_generation s)" "vs_unlocked (store_lock s) = None" for s
    by (simp_all add: store_lock_def store_drop_def update_unlocked_def split: option.split)
  with assms show ?thesis
    by (auto simp: shut_def device_ok_def running_ok_def list_all_iff le_imp_less_Suc split: option.splits)
qed

lemma shut_same: "shut dv \<Longrightarrow> vd_store dv' = vd_store dv \<Longrightarrow> vd_queue dv' = vd_queue dv \<Longrightarrow>
    map_option fst (vd_running dv') = map_option fst (vd_running dv) \<Longrightarrow> shut dv'"
  by (auto simp: shut_def split: option.splits)

lemma shut_running:
  assumes "shut dv" and "stays_locked g (vd_store dv) s" and "g < vs_generation (vd_store dv)"
    and "vd_running dv' = Some (g, t)" and "set (vd_queue dv') \<subseteq> set (vd_queue dv)" and "vd_store dv' = s"
  shows "shut dv'"
proof -
  have gen: "vs_generation (vd_store dv) \<le> vs_generation s" "vs_unlocked s = None"
    using assms(1,2,3) by (auto simp: stays_locked_def shut_def)
  have "\<forall>x\<in>set (vd_queue dv). fst (snd x) < vs_generation (vd_store dv)"
    using assms(1) by (auto simp: shut_def list_all_iff)
  then have "\<forall>x\<in>set (vd_queue dv'). fst (snd x) < vs_generation s"
    using assms(5) gen(1) by (meson less_le_trans subsetD)
  then show ?thesis using assms gen by (auto simp: shut_def list_all_iff case_prod_beta)
qed

lemma shut_start:
  assumes "device_ok cfg h dv" and "shut dv"
  shows "shut (start_next cfg dv)"
proof (cases "vd_queue dv")
  case (Cons e rest)
  obtain op g a where e: "e = (op, g, a)" by (cases e)
  obtain p s where r: "run_op cfg op g a (vd_store dv) = (p, s)" by (cases "run_op cfg op g a (vd_store dv)")
  have q: "exclusive op" "g < vs_generation (vd_store dv)"
    using assms Cons e by (auto simp: device_ok_def shut_def)
  have "stays_locked g (vd_store dv) s" using run_exclusive [OF assms(1) q(1) r] by simp
  then show ?thesis
    using assms(2) Cons e r q(2) by (auto simp: start_next_def intro!: shut_running [OF assms(2)])
qed (simp add: start_next_def assms(2))

lemma shut_resume:
  assumes "device_ok cfg h dv" and "shut dv"
  shows "shut (resume i dv)"
proof (cases "\<exists>q k ans. get_task i dv = Some (Await q k, Some ans)")
  case False
  then have "resume i dv = dv" by (auto simp: resume_def split: option.split prod.split prog.split)
  then show ?thesis using assms by simp
next
  case True
  then obtain q k ans where t: "get_task i dv = Some (Await q k, Some ans)" by blast
  obtain p s where r: "k ans (vd_store dv) = (p, s)" by (cases "k ans (vd_store dv)")
  show ?thesis
  proof (cases i)
    case Running
    with t obtain g where run: "vd_running dv = Some (g, Await q k, Some ans)"
      by (auto simp: get_task_def)
    then have ok: "vop.fine cfg g h (vd_store dv) (Await q k)" "log_fact h q ans" "g < vs_generation (vd_store dv)"
      "vault_inv cfg h (vd_store dv)"
      using assms by (auto simp: device_ok_def running_ok_def shut_def)
    have "vgood cfg g h (vd_store dv) (k ans (vd_store dv))"
      using ok(1,4,2) by (rule vop.good_resume)
    then show ?thesis
      using t r run ok(3) Running
      by (auto intro!: shut_running [OF assms(2), of g s] simp: resume_def put_task_def vop.good_def)
  next
    case (Free n)
    with t have n: "n < length (vd_free dv)" "vd_free dv ! n = (Await q k, Some ans)"
      by (auto simp: get_task_def split: if_splits)
    then have "vfree.fine h (vd_store dv) (Await q k)"
      using assms by (auto simp: device_ok_def list_all_length)
    then have "vfree.good h (vd_store dv) (k ans (vd_store dv))"
      by (rule vfree.good_resume) simp_all
    then have "s = vd_store dv" using r by (auto simp: vfree.good_def)
    then show ?thesis
      using t r Free by (auto intro!: shut_same [OF assms(2)] simp: resume_def put_task_def)
  qed
qed

lemma answered_fields:
  "vd_store (answered ans i dv) = vd_store dv" "vd_queue (answered ans i dv) = vd_queue dv"
  "map_option fst (vd_running (answered ans i dv)) = map_option fst (vd_running dv)"
  by (auto simp: answered_def put_task_def get_task_def option.map_comp comp_def case_prod_beta
    split: option.split prod.split task_id.split)

text \<open>Events that call nothing but reading operations on device \<open>n\<close>.\<close>

fun no_call :: "nat \<Rightarrow> vault_event \<Rightarrow> bool" where
  "no_call n (Call m op) = (m \<noteq> n \<or> \<not> exclusive op)"
| "no_call n ev = True"

definition device :: "nat \<Rightarrow> vault_world \<Rightarrow> vault_device" where
  "device n w = vw_devices w ! n"

lemma device_on: "n < length (vw_devices w) \<Longrightarrow> device n (on_device m f w) = (if m = n then f (device n w) else device n w)"
  by (simp add: device_def on_device_def)

lemma on_device_length [simp]: "length (vw_devices (on_device m f w)) = length (vw_devices w)"
  by (simp add: on_device_def)

lemma step_length [simp]: "length (vw_devices (vault_step cfg ev w)) = length (vw_devices w)"
  by (cases ev) (auto split: option.split prod.split)

lemma shut_step:
  assumes ok: "world_ok cfg w" and n: "n < length (vw_devices w)" and shut: "shut (device n w)" and quiet: "no_call n ev"
  shows "shut (device n (vault_step cfg ev w))"
proof -
  have dev: "device_ok cfg (sv_log (vw_server w)) (device n w)"
    using ok n by (simp add: world_ok_def device_def list_all_length)
  show ?thesis
  proof (cases ev)
    case (Call m op)
    show ?thesis
    proof (cases "m = n")
      case True
      with quiet Call have "\<not> exclusive op" by simp
      then have "shut (call_op cfg op (device n w))"
        by (auto intro!: shut_same [OF shut] simp: call_op_def Let_def split: prod.splits dest: run_reading)
      then show ?thesis using Call True n by (simp add: device_on)
    qed (use shut n Call in \<open>simp add: device_on\<close>)
  next
    case (Start m)
    then show ?thesis using shut n shut_start [OF dev shut] by (simp add: device_on)
  next
    case (Serve m i mode)
    have "shut (device n (on_device m (answered ans i) (w\<lparr>vw_server := sv\<rparr>)))" for ans sv
      using shut n by (auto simp: device_on answered_fields intro!: shut_same [OF shut]) (simp_all add: device_def answered_fields)
    then show ?thesis using Serve shut by (auto split: option.split prod.split)
  next
    case (Lose m i msg)
    have "shut (device n (on_device m (answered ans i) (w\<lparr>vw_flight := fl\<rparr>)))"
      "shut (device n (on_device m (answered ans i) w))" for ans fl
      using shut n by (auto simp: device_on answered_fields intro!: shut_same [OF shut]) (simp_all add: device_def answered_fields)
    then show ?thesis using Lose by (auto split: option.split)
  next
    case (Answer m i)
    then show ?thesis using shut n shut_resume [OF dev shut] by (simp add: device_on)
  next
    case (LockNow m)
    then show ?thesis using shut n lock_shuts [OF dev] by (simp add: device_on)
  next
    case (Clock m t)
    have "shut ((device n w)\<lparr>vd_store := (vd_store (device n w))\<lparr>vs_clock := t\<rparr>\<rparr>)"
      using shut by (cases "vd_running (device n w)") (auto simp: shut_def)
    then show ?thesis using Clock shut n by (simp add: device_on)
  qed (use shut in \<open>auto simp: device_def\<close>)
qed

lemma shut_run:
  "world_ok cfg w \<Longrightarrow> n < length (vw_devices w) \<Longrightarrow> shut (device n w) \<Longrightarrow> list_all (no_call n) evs \<Longrightarrow>
   shut (device n (vault_run cfg evs w))"
  unfolding vault_run_def by (induction evs arbitrary: w) (simp_all add: vault_step_ok shut_step)

lemma run_length [simp]: "length (vw_devices (vault_run cfg evs w)) = length (vw_devices w)"
  unfolding vault_run_def by (induction evs arbitrary: w) simp_all

lemma run_append: "vault_run cfg (evs @ ev # evs') w = vault_run cfg evs' (vault_step cfg ev (vault_run cfg evs w))"
  by (simp add: vault_run_def)

text \<open>
  C10: a lock wins: whatever a device was doing when it was locked, and whatever the network and the other
  devices answer afterwards, it stays locked until something that may unlock it is called again.
\<close>

theorem vault_lock_wins:
  assumes "n < length rnds" and "list_all (no_call n) evs'"
  shows "vs_unlocked (vd_store (device n (vault_run cfg (evs @ LockNow n # evs') (new_world rnds now)))) = None"
proof -
  let ?w = "vault_run cfg evs (new_world rnds now)"
  have w: "world_ok cfg ?w" by (rule vault_run_ok [OF new_world_ok])
  have n: "n < length (vw_devices ?w)" using assms(1) by (simp add: new_world_def)
  then have "device_ok cfg (sv_log (vw_server ?w)) (device n ?w)"
    using w by (simp add: world_ok_def device_def list_all_length)
  then have "shut (device n (vault_step cfg (LockNow n) ?w))"
    using n by (simp add: device_on lock_shuts)
  then have "shut (device n (vault_run cfg (evs @ LockNow n # evs') (new_world rnds now)))"
    unfolding run_append using n assms(2) by (intro shut_run [OF vault_step_ok [OF w]]) simp_all
  then show ?thesis by (simp add: shut_def)
qed

definition sample_config :: vault_config where
  "sample_config =
     \<lparr>vc_date = (\<lambda>_. True), vc_iso = (\<lambda>_. ''2026-01-01T00:00:00.000Z''), vc_byteLength = (\<lambda>_. 100),
      vc_utf8Length = (\<lambda>t. int (length t)), vc_nfkc = (\<lambda>t. t), vc_argon2 = (\<lambda>_ _ _ _ _. replicate 32 1),
      vc_hkdf = (\<lambda>_ _. replicate 32 2), vc_encrypt = (\<lambda>_ _ _ _. replicate 48 3), vc_decrypt = (\<lambda>_ _ _ _. None),
      vc_kdf = None, vc_hasVerifier = False, vc_hasStatus = False, vc_hasReset = False,
      vc_prepare = (\<lambda>_ _. NotPrepared [])\<rparr>"

text \<open>A creation caught by a lock: the push is accepted, and the device stays locked.\<close>

definition sample_start :: "vault_event list" where
  "sample_start = [Call 0 (OpCreate ''pass'' None), Start 0, Serve 0 Running (Granted 0), Answer 0 Running]"

definition sample_rest :: "vault_event list" where
  "sample_rest = [Serve 0 Running (Granted 0), Answer 0 Running, Serve 0 Running (Granted 0), Answer 0 Running,
     Serve 0 Running (Granted 0), Answer 0 Running, Start 0]"

lemma vault_lock_wins_witness:
  "vs_unlocked (vd_store (device 0 (vault_run sample_config (sample_start @ LockNow 0 # sample_rest)
     (new_world [\<lambda>i n. replicate n 7] 5)))) = None"
  by (rule vault_lock_wins) (simp_all add: sample_rest_def)

text \<open>The vault created and then edited; the server is never reset.\<close>

definition sample_edit :: "vault_event list" where
  "sample_edit = [Call 0 (OpSetSync (Some ''s'')), Start 0, Serve 0 Running (Granted 0), Answer 0 Running,
     Serve 0 Running (Granted 0), Answer 0 Running]"

lemma vault_history_serial_witness:
  "map (\<lambda>(v, base, d). (v, base)) (sv_log (vw_server (vault_run sample_config (sample_start @ sample_rest @ sample_edit)
       (new_world [\<lambda>i n. replicate n 7] 5)))) = [(2, 1), (1, 0)]
   \<and> serial sample_config (sv_log (vw_server (vault_run sample_config (sample_start @ sample_rest @ sample_edit)
       (new_world [\<lambda>i n. replicate n 7] 5))))"
proof
  show "map (\<lambda>(v, base, d). (v, base)) (sv_log (vw_server (vault_run sample_config (sample_start @ sample_rest @ sample_edit)
       (new_world [\<lambda>i n. replicate n 7] 5)))) = [(2, 1), (1, 0)]"
    by code_simp
qed (rule vault_history_serial, simp add: sample_start_def sample_rest_def sample_edit_def)

text \<open>
  Why a reset needs a server that does not start its versions again: a write prepared on version 1 of
  the vault that was wiped is accepted over version 1 of the new one.
\<close>

lemma restarted_versions_take_a_stale_base:
  assumes "sv_slots sv = [(VAULT_HEADER_SLOT, 1, d1)]"
  shows "case push_slot 0 VAULT_HEADER_SLOT d2 0 (reset_slots sv) of
      (created, sv2) \<Rightarrow> created = Pushed (PushOk 1) \<and> fst (push_slot 0 VAULT_HEADER_SLOT d3 1 sv2) = Pushed (PushOk 2)"
  using assms by (simp add: push_slot_def reset_slots_def slot_version_def)

subsection \<open>Edits spare what they do not name\<close>

lemma update_first_keeps:
  assumes "x \<in> set es"
  shows "x \<in> set (update_first k f es) \<or> f x \<in> set (update_first k f es)"
  using assms by (induction es) auto

text \<open>
  C18: an edit of the index other than removing or replacing a key keeps that key, with its id, type,
  fingerprint and creation date.
\<close>

theorem edits_spare_other_keys:
  assumes "edit_index e ix = Edited ix'" and "x \<in> set (vi_keys ix)"
    and "\<And>k. e = RemoveEntry k \<Longrightarrow> k \<noteq> ke_keyId x" and "\<And>k n. e = RotateEntry k n \<Longrightarrow> k \<noteq> ke_keyId x"
  shows "\<exists>x'\<in>set (vi_keys ix'). x' = x\<lparr>ke_name := ke_name x', ke_rotatedFrom := ke_rotatedFrom x'\<rparr>"
proof -
  have same: "y = x\<lparr>ke_name := ke_name y, ke_rotatedFrom := ke_rotatedFrom y\<rparr>"
    if "y = x \<or> y = x\<lparr>ke_name := t\<rparr> \<or> y = x\<lparr>ke_rotatedFrom := r\<rparr>" for y t r
    using that by (cases x) auto
  have "\<exists>y\<in>set (vi_keys ix'). \<exists>t r. y = x \<or> y = x\<lparr>ke_name := t\<rparr> \<or> y = x\<lparr>ke_rotatedFrom := r\<rparr>"
  proof (cases e)
    case (RenameEntry keyId name)
    let ?f = "\<lambda>e. e\<lparr>ke_name := clampVaultName name []\<rparr>"
    have "vi_keys ix' = update_first keyId ?f (vi_keys ix)"
      using assms(1) RenameEntry by (auto simp: Let_def split: option.splits if_splits)
    with update_first_keeps [OF assms(2), of keyId ?f] show ?thesis by auto
  next
    case (RotateEntry old new)
    let ?f = "\<lambda>e. e\<lparr>ke_rotatedFrom := Some old\<rparr>"
    have "vi_keys ix' = filter (\<lambda>e. ke_keyId e \<noteq> old) (update_first new ?f (vi_keys ix))"
      using assms(1) RotateEntry by (auto split: if_splits)
    moreover have "old \<noteq> ke_keyId x" using assms(4) RotateEntry by blast
    ultimately show ?thesis using update_first_keeps [OF assms(2), of new ?f] by auto
  qed (use assms in \<open>auto simp: Let_def split: if_splits\<close>)
  then show ?thesis using same by blast
qed

lemma edits_spare_other_keys_witness:
  "\<exists>x'\<in>set (vi_keys (sample_index\<lparr>vi_sync := None\<rparr>)).
     x' = hd (vi_keys sample_index)\<lparr>ke_name := ke_name x', ke_rotatedFrom := ke_rotatedFrom x'\<rparr>"
  by (rule edits_spare_other_keys [of "SetSyncPassphrase None" sample_index]) (simp_all add: sample_index_def)

subsection \<open>A push whose answer is lost\<close>

text \<open>The requests a program makes when it is given these answers, and where it ends.\<close>

fun drive :: "vault_answer list \<Rightarrow> vault_prog \<times> vault_store \<Rightarrow> vault_request list \<times> vault_prog \<times> vault_store" where
  "drive [] r = ([], r)"
| "drive (a # answers) (Return x, s) = ([], Return x, s)"
| "drive (a # answers) (Await q k, s) = (case drive answers (k a s) of (qs, r) \<Rightarrow> (q # qs, r))"

definition sample_store :: vault_store where
  "sample_store =
     \<lparr>vs_heap = [\<lparr>vu_header = sample_header, vu_version = 3, vu_dek = replicate 32 1, vu_auth = None,
         vu_dekKey = replicate 32 1, vu_index = sample_index\<rparr>],
      vs_unlocked = Some 0, vs_generation = 0, vs_pending = None, vs_failures = 0, vs_blockedUntil = 0, vs_clock = 5,
      vs_random = (\<lambda>i n. replicate n 7), vs_draws = 0\<rparr>"

definition sample_entry :: vault_entry where
  "sample_entry = \<lparr>ke_keyId = toB64url (replicate 16 7), ke_name = ''db'', ke_type = PasswordEntry, ke_fingerprint = None,
     ke_createdAt = ''2026-01-01T00:00:00.000Z'', ke_rotatedFrom = None\<rparr>"

text \<open>
  Adding a password writes its blob, then pushes the index that lists it. When the answer to that push
  is lost the outcome is unknown, and the store deletes the blob: the server may now hold an index
  whose entry has no blob.
\<close>

lemma lost_index_push_deletes_the_blob:
  "case drive [Computed, Pushed (PushOk 1), Computed, Rejected ''timeout'', Deleted]
          (addPassword sample_config ''pw'' ''db'' sample_store) of
     ([Compute, PushSlot slot1 blob base1, Compute, PushSlot slot2 header base2, DeleteSlot slot3], p, s) \<Rightarrow>
       base1 = 0 \<and> base2 = 3 \<and> slot1 = vaultKeySlot (ke_keyId sample_entry) \<and> slot3 = slot1 \<and> slot2 = VAULT_HEADER_SLOT
       \<and> header = serializeVaultHeader (sample_header\<lparr>vh_index :=
           sealIndex sample_config (replicate 32 1) (vh_vaultId sample_header)
             (sample_index\<lparr>vi_keys := vi_keys sample_index @ [sample_entry]\<rparr>) (replicate 12 7)\<rparr>)
       \<and> finished p
   | _ \<Rightarrow> False"
  by code_simp

text \<open>A lock that comes while a write is sealing does not stop the push.\<close>

lemma locked_write_still_pushes:
  "case renameKey sample_config (replicate 22 (CHR ''A'')) ''desk'' sample_store of (p, s) \<Rightarrow>
     (case drive [Computed] (p, store_lock s) of
        (qs, Await (PushSlot slot header base) k, s') \<Rightarrow> slot = VAULT_HEADER_SLOT \<and> vs_unlocked s' = None
      | _ \<Rightarrow> False)"
  by code_simp

end
