(* ===== verification/Session_Paths.thy ===== *)
theory Session_Paths
  imports Js_Lists Session_Names
begin

text \<open>
  The path rules of the session panel (src/src/sessionGrouping.ts and src/src/sessionRoots.ts):
  canonical paths and their labels, the Windows spellings, the registered roots, and the
  home-relative keys the panel groups by.
\<close>

subsection \<open>Canonical paths\<close>

definition UNTRACKED_PATH :: string where "UNTRACKED_PATH = ''::untracked::''"
definition UNTRACKED_LABEL :: string where "UNTRACKED_LABEL = ''Untracked''"
definition ROOT_LABEL :: string where "ROOT_LABEL = ''/ (root)''"
definition HOME_LABEL :: string where "HOME_LABEL = ''~ (home)''"

definition drive_letter :: "char \<Rightarrow> bool" where
  "drive_letter c =
     (let n = of_char c :: nat in (65 \<le> n \<and> n \<le> 90) \<or> (97 \<le> n \<and> n \<le> 122))"

definition upper :: "char \<Rightarrow> char" where
  "upper c = (let n = of_char c :: nat in if 97 \<le> n \<and> n \<le> 122 then char_of (n - 32) else c)"

definition lower :: "char \<Rightarrow> char" where
  "lower c = (let n = of_char c :: nat in if 65 \<le> n \<and> n \<le> 90 \<or> 192 \<le> n \<and> n \<le> 222 \<and> n \<noteq> 215 then char_of (n + 32) else c)"

text \<open>\<open>.*$\<close> matches up to the end exactly when no line break follows.\<close>

definition no_line_break :: "string \<Rightarrow> bool" where
  "no_line_break s = list_all (\<lambda>c. of_char c \<noteq> (10::nat) \<and> of_char c \<noteq> (13::nat)) s"

text \<open>A drive path taken apart: the letter, and the rest from its slash on.\<close>

fun drive_parts :: "string \<Rightarrow> (char \<times> string) option" where
  "drive_parts (c # x # y # rest) =
     (if drive_letter c \<and> x = CHR '':'' \<and> y = CHR ''/'' then Some (c, y # rest) else None)"
| "drive_parts _ = None"

fun msys_parts :: "string \<Rightarrow> (char \<times> string) option" where
  "msys_parts (x # c # y # rest) =
     (if x = CHR ''/'' \<and> drive_letter c \<and> y = CHR ''/'' then Some (c, y # rest) else None)"
| "msys_parts _ = None"

definition isWindowsDrivePath :: "string \<Rightarrow> bool" where
  "isWindowsDrivePath value = (drive_parts value \<noteq> None)"

definition slashed :: "string \<Rightarrow> string" where
  "slashed value = map (\<lambda>c. if c = char_of (92::nat) then CHR ''/'' else c) value"

definition without_slash :: "string \<Rightarrow> string" where
  "without_slash s = (case s of [] \<Rightarrow> [] | c # r \<Rightarrow> if c = CHR ''/'' then r else s)"

definition normaliseWindowsPath :: "string \<Rightarrow> string option" where
  "normaliseWindowsPath value =
     (case drive_parts (without_slash (slashed value)) of
        Some (c, rest) \<Rightarrow> if no_line_break rest then Some (upper c # CHR '':'' # rest) else None
      | None \<Rightarrow> None)"

definition msysToDrivePath :: "string \<Rightarrow> string option" where
  "msysToDrivePath value =
     (case msys_parts value of
        Some (c, rest) \<Rightarrow> if no_line_break rest then Some (upper c # CHR '':'' # rest) else None
      | None \<Rightarrow> None)"

definition driveToMsysPath :: "string \<Rightarrow> string option" where
  "driveToMsysPath value =
     (case drive_parts value of
        Some (c, rest) \<Rightarrow> if no_line_break rest then Some (CHR ''/'' # lower c # rest) else None
      | None \<Rightarrow> None)"

definition or_empty :: "string option \<Rightarrow> string" where
  "or_empty v = (case v of None \<Rightarrow> [] | Some s \<Rightarrow> s)"

definition canonicalisePath :: "string option \<Rightarrow> string" where
  "canonicalisePath value =
     (let trimmed = js_trim (or_empty value) in
      if trimmed = [] then UNTRACKED_PATH
      else case normaliseWindowsPath trimmed of
             Some windows \<Rightarrow>
               (let stripped = trimTrailingSlash windows in if length stripped > 2 then stripped else windows)
           | None \<Rightarrow> or_text (trimTrailingSlash trimmed) ''/'')"

definition defaultLabelForPath :: "string \<Rightarrow> string" where
  "defaultLabelForPath path =
     (if path = UNTRACKED_PATH then UNTRACKED_LABEL
      else let clean = js_trim path in
        if clean = [] then UNTRACKED_LABEL
        else let stripped = trimTrailingSlash clean in
          if stripped = [] then ROOT_LABEL
          else if stripped = ''~'' \<or> stripped = ''$HOME'' then HOME_LABEL
          else let tail = after_slash stripped in if js_trim tail \<noteq> [] then tail else stripped)"

subsection \<open>Registered roots\<close>

definition OTHER_ROOT :: string where "OTHER_ROOT = ''::other::''"
definition OTHER_LABEL :: string where "OTHER_LABEL = ''other''"
definition MAINTENANCE_ROOT :: string where "MAINTENANCE_ROOT = ''::maintenance::''"
definition SESSION_ROOTS_MAX :: nat where "SESSION_ROOTS_MAX = 32"

definition anchored :: "string \<Rightarrow> bool" where
  "anchored p \<longleftrightarrow> p = ''~'' \<or> starts_with p ''~/'' \<or> starts_with p ''/'' \<or> isWindowsDrivePath p"

definition normaliseRootPath :: "js \<Rightarrow> string option" where
  "normaliseRootPath value =
     (case value of
        Str s \<Rightarrow>
          if list_ex (\<lambda>c. of_char c < (32::nat)) s then None
          else let canonical = canonicalisePath (Some s) in
            if canonical = UNTRACKED_PATH then None
            else if ''..'' \<in> set (split_on (CHR ''/'') canonical) then None
            else if \<not> anchored canonical then None
            else Some canonical
      | _ \<Rightarrow> None)"

fun root_list :: "string list \<Rightarrow> js list \<Rightarrow> string list" where
  "root_list out [] = out"
| "root_list out (v # vs) =
     (if length out \<ge> SESSION_ROOTS_MAX then out
      else case normaliseRootPath v of
             Some rt \<Rightarrow> root_list (if rt \<in> set out then out else out @ [rt]) vs
           | None \<Rightarrow> root_list out vs)"

definition normaliseRootList :: "js list \<Rightarrow> string list" where
  "normaliseRootList values = root_list [] values"

subsection \<open>Home and the keys relative to it\<close>

definition normaliseHome :: "string option \<Rightarrow> string option" where
  "normaliseHome home =
     (let trimmed = trimTrailingSlash (js_trim (or_empty home)) in if trimmed = [] then None else Some trimmed)"

definition HOME_PARENTS :: "string list" where "HOME_PARENTS = [''/home'', ''/Users'', ''/var/home'']"
definition ROOT_HOME :: string where "ROOT_HOME = ''/root''"

definition home_candidate :: "string \<Rightarrow> string option" where
  "home_candidate path =
     (if path = ROOT_HOME \<or> starts_with path (ROOT_HOME @ ''/'') then Some ROOT_HOME
      else case find (\<lambda>parent. starts_with path (parent @ ''/'')) HOME_PARENTS of
             None \<Rightarrow> None
           | Some parent \<Rightarrow>
               (let user = hd (split_on (CHR ''/'') (drop (length parent + 1) path)) in
                if user = [] then None else Some (parent @ ''/'' @ user)))"

definition add_vote :: "(string \<times> nat) list \<Rightarrow> string option \<Rightarrow> (string \<times> nat) list" where
  "add_vote votes raw =
     (let path = canonicalisePath raw in
      if path = UNTRACKED_PATH then votes
      else case home_candidate path of
             None \<Rightarrow> votes
           | Some c \<Rightarrow> AList.update c ((case map_of votes c of None \<Rightarrow> 0 | Some n \<Rightarrow> n) + 1) votes)"

definition better_vote :: "(string \<times> nat) option \<Rightarrow> string \<times> nat \<Rightarrow> (string \<times> nat) option" where
  "better_vote best v = (if snd v > (case best of None \<Rightarrow> 0 | Some b \<Rightarrow> snd b) then Some v else best)"

definition inferHome :: "string option list \<Rightarrow> string option" where
  "inferHome paths = map_option fst (foldl better_vote None (foldl add_vote [] paths))"

definition below :: "string \<Rightarrow> string \<Rightarrow> string option" where
  "below folder start =
     (if folder = start then Some []
      else if starts_with folder (start @ ''/'') then Some (drop (length start + 1) folder)
      else None)"

definition given :: "'a option \<Rightarrow> 'a \<Rightarrow> 'a" where
  "given v d = (case v of None \<Rightarrow> d | Some x \<Rightarrow> x)"

definition homeRelative :: "string \<Rightarrow> string option \<Rightarrow> string option" where
  "homeRelative folderPath home =
     (if folderPath = ''~'' \<or> folderPath = ''$HOME'' then Some []
      else if starts_with folderPath ''~/'' then Some (drop 2 folderPath)
      else case normaliseHome home of
             None \<Rightarrow> None
           | Some homePrefix \<Rightarrow>
               (let folderDrive = isWindowsDrivePath folderPath; homeDrive = isWindowsDrivePath homePrefix in
                if folderDrive \<and> \<not> homeDrive then below (given (driveToMsysPath folderPath) folderPath) homePrefix
                else if \<not> folderDrive \<and> homeDrive
                then below (given (msysToDrivePath folderPath) folderPath)
                       (given (normaliseWindowsPath homePrefix) homePrefix)
                else below folderPath homePrefix))"

definition rootForPath :: "string \<Rightarrow> string option \<Rightarrow> string \<times> string" where
  "rootForPath folderPath home =
     (if folderPath = UNTRACKED_PATH then (OTHER_ROOT, OTHER_LABEL)
      else case homeRelative folderPath home of
             None \<Rightarrow> (OTHER_ROOT, OTHER_LABEL)
           | Some relative \<Rightarrow>
               (case find (\<lambda>p. p \<noteq> []) (split_on (CHR ''/'') relative) of
                  None \<Rightarrow> (OTHER_ROOT, OTHER_LABEL)
                | Some first \<Rightarrow> (''~/'' @ first, first)))"

definition directoryKey :: "string \<Rightarrow> string option \<Rightarrow> string" where
  "directoryKey folderPath home =
     (if folderPath = UNTRACKED_PATH then UNTRACKED_PATH
      else case homeRelative folderPath home of
             None \<Rightarrow> folderPath
           | Some relative \<Rightarrow> if relative \<noteq> [] then ''~/'' @ relative else ''~'')"

definition to_sftp :: "string option \<Rightarrow> string \<Rightarrow> string" where
  "to_sftp homePrefix path =
     (if (case homePrefix of None \<Rightarrow> False | Some h \<Rightarrow> msys_parts h \<noteq> None)
      then (case msysToDrivePath path of Some d \<Rightarrow> ''/'' @ d | None \<Rightarrow> path)
      else path)"

definition rootHostPath :: "string \<Rightarrow> string option \<Rightarrow> string option" where
  "rootHostPath key home =
     (if key = OTHER_ROOT \<or> key = UNTRACKED_PATH \<or> key = MAINTENANCE_ROOT then None
      else let homePrefix = normaliseHome home in
        if key = ''~'' \<or> key = ''$HOME'' then map_option (to_sftp homePrefix) homePrefix
        else if starts_with key ''~/''
        then (case homePrefix of
                None \<Rightarrow> None
              | Some h \<Rightarrow>
                  (let rest = trimTrailingSlash (drop 2 key) in
                   Some (to_sftp homePrefix (if rest \<noteq> [] then h @ ''/'' @ rest else h))))
        else if isWindowsDrivePath key then Some (''/'' @ key)
        else if starts_with key ''/'' then Some key
        else None)"

subsection \<open>Resolving the registered roots\<close>

record resolved_root =
  rr_key :: string
  rr_label :: string
  rr_source :: string

definition labelRootsApart :: "resolved_root list \<Rightarrow> resolved_root list" where
  "labelRootsApart roots =
     map (\<lambda>r. if length (filter (\<lambda>q. rr_label q = rr_label r) roots) < 2 then r
              else r\<lparr>rr_label := (if starts_with (rr_key r) ''~/'' then drop 2 (rr_key r) else rr_key r)\<rparr>) roots"

definition add_root :: "string option \<Rightarrow> resolved_root list \<Rightarrow> string \<Rightarrow> resolved_root list" where
  "add_root home resolved source =
     (case normaliseRootPath (Str source) of
        None \<Rightarrow> resolved
      | Some canonical \<Rightarrow>
          (let key = directoryKey canonical home in
           if key \<in> set (map rr_key resolved) then resolved
           else resolved @ [\<lparr>rr_key = key, rr_label = defaultLabelForPath key, rr_source = canonical\<rparr>]))"

definition resolveRoots :: "string list \<Rightarrow> string option \<Rightarrow> resolved_root list" where
  "resolveRoots roots home = labelRootsApart (foldl (add_root home) [] roots)"

definition pathWithinRoot :: "string \<Rightarrow> string \<Rightarrow> bool" where
  "pathWithinRoot path rt \<longleftrightarrow>
     path = rt \<or> starts_with path (if rt \<noteq> [] \<and> last rt = CHR ''/'' then rt else rt @ ''/'')"

definition better_root :: "string \<Rightarrow> resolved_root option \<Rightarrow> resolved_root \<Rightarrow> resolved_root option" where
  "better_root key best rt =
     (if \<not> pathWithinRoot key (rr_key rt) then best
      else case best of
             None \<Rightarrow> Some rt
           | Some b \<Rightarrow> if length (rr_key rt) > length (rr_key b) then Some rt else best)"

definition bestRootForPath :: "string \<Rightarrow> string option \<Rightarrow> resolved_root list \<Rightarrow> resolved_root option" where
  "bestRootForPath folderPath home roots =
     (if folderPath = UNTRACKED_PATH then None
      else foldl (better_root (directoryKey folderPath home)) None roots)"

text \<open>The first root whose sanitised label opens the session's name.\<close>

definition rootFromSessionName :: "string \<Rightarrow> string list \<Rightarrow> string option" where
  "rootFromSessionName name knownLabels =
     (case find (\<lambda>p. p \<noteq> []) (split_on (CHR ''-'') name) of
        None \<Rightarrow> None
      | Some first \<Rightarrow> find (\<lambda>label. sanitisePart label = first) knownLabels)"

end
