(* ===== verification/Session_Tree.thy ===== *)
theory Session_Tree
  imports Session_Paths
begin

text \<open>
  The session panel: the rows of the flat list (src/src/sessionGrouping.ts), and the tree of roots,
  directories and rows the panel draws (src/src/sessionTree.ts, src/src/sessionIdentity.ts).
  \<open>localeCompare\<close> is the argument \<open>collate\<close> where the code sorts by name.
\<close>

subsection \<open>Sessions\<close>

datatype panel_agent =
  AgClaude | AgCodex | AgOpencode | AgGrok | AgAntigravity | AgShell | AgProbing | AgExited | AgUnknown

datatype session_backend = TmuxBackend | AplexerBackend

record session_summary =
  ss_name :: string
  ss_created :: int
  ss_activity :: int
  ss_attached :: bool
  ss_path :: "string option"
  ss_backend :: "session_backend option"
  ss_workspace :: "string option"
  ss_agentKind :: "panel_agent option"
  ss_repoRoot :: "string option"

definition sessionIdentityKey :: "string \<Rightarrow> session_backend option \<Rightarrow> string option \<Rightarrow> string" where
  "sessionIdentityKey name backend workspace =
     (case workspace of
        Some w \<Rightarrow> if backend = Some AplexerBackend \<and> w \<noteq> [] then ''aplexer:'' @ w @ '':'' @ name else name
      | None \<Rightarrow> name)"

definition session_identity :: "session_summary \<Rightarrow> string" where
  "session_identity s = sessionIdentityKey (ss_name s) (ss_backend s) (ss_workspace s)"

definition sessionActivity :: "session_summary \<Rightarrow> int" where
  "sessionActivity s = (if ss_activity s \<noteq> 0 then ss_activity s else ss_created s)"

fun isAgentSession :: "panel_agent option \<Rightarrow> bool" where
  "isAgentSession None = False"
| "isAgentSession (Some k) = (k \<notin> {AgShell, AgUnknown})"

definition max_activity :: "int list \<Rightarrow> int" where
  "max_activity xs = foldl max 0 xs"

subsection \<open>The folder sections\<close>

record session_folder =
  sf_path :: string
  sf_label :: string
  sf_sessions :: "session_summary list"
  sf_activity :: int
  sf_active :: bool

definition agent_number :: "session_summary \<Rightarrow> int" where
  "agent_number s = (if isAgentSession (ss_agentKind s) then 1 else 0)"

definition compareSessions :: "(string \<Rightarrow> string \<Rightarrow> int) \<Rightarrow> session_summary \<Rightarrow> session_summary \<Rightarrow> int" where
  "compareSessions collate a b =
     (let byAgent = agent_number b - agent_number a; byActivity = sessionActivity b - sessionActivity a in
      if byAgent \<noteq> 0 then byAgent
      else if byActivity \<noteq> 0 then byActivity
      else collate (ss_name a) (ss_name b))"

definition compareFolders :: "(string \<Rightarrow> string \<Rightarrow> int) \<Rightarrow> session_folder \<Rightarrow> session_folder \<Rightarrow> int" where
  "compareFolders collate a b =
     (let byActivity = sf_activity b - sf_activity a in
      if byActivity \<noteq> 0 then byActivity else collate (map lower (sf_label a)) (map lower (sf_label b)))"

definition folder_of :: "(string \<Rightarrow> string \<Rightarrow> int) \<Rightarrow> string \<times> session_summary list \<Rightarrow> session_folder" where
  "folder_of collate b =
     (let ordered = sort_by (compareSessions collate) (snd b) in
      \<lparr>sf_path = fst b, sf_label = defaultLabelForPath (fst b), sf_sessions = ordered,
       sf_activity = max_activity (map sessionActivity ordered), sf_active = list_ex ss_attached ordered\<rparr>)"

definition groupSessionsByFolder :: "(string \<Rightarrow> string \<Rightarrow> int) \<Rightarrow> session_summary list \<Rightarrow> session_folder list" where
  "groupSessionsByFolder collate sessions =
     (let folders = map (folder_of collate) (group_onto (\<lambda>s. canonicalisePath (ss_path s)) [] sessions) in
      sort_by (compareFolders collate) (filter (\<lambda>f. sf_path f \<noteq> UNTRACKED_PATH) folders)
      @ filter (\<lambda>f. sf_path f = UNTRACKED_PATH) folders)"

subsection \<open>Rows\<close>

definition TAIL_CHARS :: nat where "TAIL_CHARS = 8"
definition SPLIT_THRESHOLD :: nat where "SPLIT_THRESHOLD = 12"

definition splitLabel :: "string \<Rightarrow> string \<times> string" where
  "splitLabel label =
     (if length label \<le> SPLIT_THRESHOLD then (label, [])
      else (take (length label - TAIL_CHARS) label, drop (length label - TAIL_CHARS) label))"

record tree_row =
  row_session :: session_summary
  row_label :: string
  row_labelHead :: string
  row_labelTail :: string
  row_nameHead :: string
  row_nameTail :: string
  row_folderPath :: string
  row_siblings :: nat
  row_untracked :: bool

definition groupingPath :: "session_summary \<Rightarrow> string" where
  "groupingPath s = canonicalisePath (case ss_repoRoot s of Some r \<Rightarrow> Some r | None \<Rightarrow> ss_path s)"

definition build_row :: "session_summary list \<Rightarrow> session_summary \<Rightarrow> tree_row" where
  "build_row sessions s =
     (let folderPath = groupingPath s;
          untracked = (folderPath = UNTRACKED_PATH);
          label = (if untracked then ss_name s else defaultLabelForPath folderPath) in
      \<lparr>row_session = s, row_label = label,
       row_labelHead = fst (splitLabel label), row_labelTail = snd (splitLabel label),
       row_nameHead = fst (splitLabel (ss_name s)), row_nameTail = snd (splitLabel (ss_name s)),
       row_folderPath = folderPath,
       row_siblings = length (filter (\<lambda>u. groupingPath u = folderPath) sessions),
       row_untracked = untracked\<rparr>)"

definition buildRows :: "session_summary list \<Rightarrow> tree_row list" where
  "buildRows sessions = map (build_row sessions) sessions"

subsection \<open>Directories\<close>

record session_directory =
  sd_key :: string
  sd_path :: string
  sd_label :: string
  sd_rows :: "tree_row list"
  sd_activity :: int
  sd_active :: bool
  sd_untracked :: bool
  sd_inferredRoot :: bool

definition row_dir_path :: "string option \<Rightarrow> tree_row \<Rightarrow> string" where
  "row_dir_path home r = (if row_untracked r then UNTRACKED_PATH else directoryKey (row_folderPath r) home)"

definition row_dir :: "string option \<Rightarrow> tree_row \<Rightarrow> string" where
  "row_dir home r =
     (if row_untracked r then UNTRACKED_PATH @ char_of (0::nat) # ss_name (row_session r) else row_dir_path home r)"

text \<open>A node takes its path and its label from the row that opened it.\<close>

definition new_directory :: "string option \<Rightarrow> string \<times> tree_row list \<Rightarrow> session_directory" where
  "new_directory home g =
     (let r = hd (snd g); path = row_dir_path home r in
      \<lparr>sd_key = fst g, sd_path = path,
       sd_label = (if row_untracked r then ss_name (row_session r) else defaultLabelForPath path),
       sd_rows = snd g,
       sd_activity = max_activity (map (sessionActivity \<circ> row_session) (snd g)),
       sd_active = list_ex (ss_attached \<circ> row_session) (snd g),
       sd_untracked = row_untracked r, sd_inferredRoot = False\<rparr>)"

definition buildDirectories :: "tree_row list \<Rightarrow> string option \<Rightarrow> session_directory list" where
  "buildDirectories rows home = map (new_directory home) (group_onto (row_dir home) [] rows)"

subsection \<open>Labels that collide\<close>

definition segments :: "string \<Rightarrow> string list" where
  "segments path = filter (\<lambda>p. p \<noteq> []) (split_on (CHR ''/'') path)"

definition tailSegments :: "string \<Rightarrow> nat \<Rightarrow> string" where
  "tailSegments path n = (let parts = segments path in join_with ''/'' (drop (length parts - n) parts))"

text \<open>The paths that want one label, and how deep their labels have to reach.\<close>

definition label_paths :: "session_directory list \<Rightarrow> string \<Rightarrow> string list" where
  "label_paths items label =
     js_uniq (map sd_path (filter (\<lambda>d. \<not> sd_untracked d \<and> sd_label d = label) items))"

definition wanted_labels :: "session_directory list \<Rightarrow> string list" where
  "wanted_labels items = js_uniq (map sd_label (filter (\<lambda>d. \<not> sd_untracked d) items))"

function grow_depth :: "string list \<Rightarrow> nat \<Rightarrow> nat \<Rightarrow> nat" where
  "grow_depth paths deepest depth =
     (if depth < deepest
         \<and> length (js_uniq (map (\<lambda>p. tailSegments p depth) paths)) \<noteq> length paths
      then grow_depth paths deepest (depth + 1) else depth)"
  by auto
termination by (relation "measure (\<lambda>(paths, deepest, depth). deepest - depth)") auto

declare grow_depth.simps [simp del]

definition deepest :: "string list \<Rightarrow> nat" where
  "deepest paths = foldr (max \<circ> length \<circ> segments) paths 0"

definition grow_labels :: "string \<Rightarrow> nat \<Rightarrow> session_directory list \<Rightarrow> session_directory list" where
  "grow_labels label depth items =
     map (\<lambda>d. if sd_untracked d \<or> sd_label d \<noteq> label then d
              else d\<lparr>sd_label := or_text (tailSegments (sd_path d) depth) (sd_label d)\<rparr>) items"

definition grow_one :: "session_directory list \<Rightarrow> session_directory list \<Rightarrow> string \<Rightarrow> session_directory list" where
  "grow_one original items label =
     (let paths = label_paths original label in
      if length paths < 2 then items else grow_labels label (grow_depth paths (deepest paths) 2) items)"

definition disambiguateLabels :: "session_directory list \<Rightarrow> session_directory list" where
  "disambiguateLabels items = foldl (grow_one items) items (wanted_labels items)"

subsection \<open>The tree\<close>

record session_root =
  sr_key :: string
  sr_label :: string
  sr_directories :: "session_directory list"
  sr_count :: nat
  sr_activity :: int
  sr_active :: bool
  sr_other :: bool
  sr_configured :: bool

definition rootHeaderParts :: "session_root \<Rightarrow> string \<times> string" where
  "rootHeaderParts rt =
     (if sr_other rt then ([], sr_label rt)
      else if sr_key rt = ''~'' \<or> sr_key rt = ''$HOME'' then ([], sr_label rt)
      else if starts_with (sr_key rt) ''~/'' then (''~/'', drop 2 (sr_key rt))
      else ([], sr_key rt))"

text \<open>The labels the name heuristic may file under, each with its root's key.\<close>

definition configured_labels :: "resolved_root list \<Rightarrow> (string \<times> string) list" where
  "configured_labels configured = foldl (\<lambda>m r. AList.update (rr_label r) (rr_key r) m) [] configured"

definition derived_labels :: "string option \<Rightarrow> tree_row list \<Rightarrow> (string \<times> string) list" where
  "derived_labels home rows =
     foldl (\<lambda>m r. if row_untracked r then m
                  else let (key, label) = rootForPath (row_folderPath r) home in
                       if key \<noteq> OTHER_ROOT then AList.update label key m else m) [] rows"

definition root_labels :: "string option \<Rightarrow> resolved_root list \<Rightarrow> tree_row list \<Rightarrow> (string \<times> string) list" where
  "root_labels home configured rows =
     (if configured \<noteq> [] then configured_labels configured else derived_labels home rows)"

definition placeRow :: "string option \<Rightarrow> resolved_root list \<Rightarrow> tree_row \<Rightarrow> string \<times> string" where
  "placeRow home configured row =
     (if configured = [] then rootForPath (row_folderPath row) home
      else case bestRootForPath (row_folderPath row) home configured of
             None \<Rightarrow> (OTHER_ROOT, OTHER_LABEL)
           | Some m \<Rightarrow> (rr_key m, rr_label m))"

definition placement ::
    "string option \<Rightarrow> resolved_root list \<Rightarrow> (string \<times> string) list \<Rightarrow> tree_row \<Rightarrow> string \<times> string" where
  "placement home configured labels row =
     (if row_untracked row
      then case rootFromSessionName (ss_name (row_session row)) (map fst labels) of
             Some recovered \<Rightarrow>
               (case map_of labels recovered of
                  Some key \<Rightarrow> (key, recovered)
                | None \<Rightarrow> placeRow home configured row)
           | None \<Rightarrow> placeRow home configured row
      else placeRow home configured row)"

text \<open>A bucket's label is the registered root's, or that of the row that opened it.\<close>

definition bucket_label :: "resolved_root list \<Rightarrow> (tree_row \<Rightarrow> string \<times> string) \<Rightarrow> string \<times> tree_row list \<Rightarrow> string" where
  "bucket_label configured place b =
     (case find (\<lambda>r. rr_key r = fst b) configured of
        Some r \<Rightarrow> rr_label r
      | None \<Rightarrow> snd (place (hd (snd b))))"

definition root_directories :: "string option \<Rightarrow> string \<Rightarrow> tree_row list \<Rightarrow> session_directory list" where
  "root_directories home key rows =
     disambiguateLabels
       (map (\<lambda>d. d\<lparr>sd_inferredRoot := (sd_untracked d \<and> key \<noteq> OTHER_ROOT)\<rparr>) (buildDirectories rows home))"

definition root_folder ::
    "string option \<Rightarrow> resolved_root list \<Rightarrow> (tree_row \<Rightarrow> string \<times> string) \<Rightarrow> string \<times> tree_row list \<Rightarrow> session_root" where
  "root_folder home configured place b =
     (let directories = root_directories home (fst b) (snd b) in
      \<lparr>sr_key = fst b, sr_label = bucket_label configured place b, sr_directories = directories,
       sr_count = length (snd b), sr_activity = max_activity (map sd_activity directories),
       sr_active = list_ex sd_active directories, sr_other = (fst b = OTHER_ROOT),
       sr_configured = (fst b \<in> set (map rr_key configured))\<rparr>)"

definition root_rank :: "resolved_root list \<Rightarrow> session_root \<Rightarrow> nat" where
  "root_rank configured rt =
     (case find_index (\<lambda>r. rr_key r = sr_key rt) configured of None \<Rightarrow> 0 | Some i \<Rightarrow> i)"

definition panel_home :: "session_summary list \<Rightarrow> string option \<Rightarrow> string option" where
  "panel_home sessions home =
     (case normaliseHome home of Some h \<Rightarrow> Some h | None \<Rightarrow> inferHome (map ss_path sessions))"

definition root_buckets ::
    "resolved_root list \<Rightarrow> (tree_row \<Rightarrow> string \<times> string) \<Rightarrow> tree_row list \<Rightarrow> (string \<times> tree_row list) list" where
  "root_buckets configured place rows =
     group_onto (fst \<circ> place) (map (\<lambda>r. (rr_key r, [])) configured) rows"

definition groupSessionsIntoRoots :: "session_summary list \<Rightarrow> string option \<Rightarrow> string list \<Rightarrow> session_root list" where
  "groupSessionsIntoRoots sessions home roots =
     (let resolvedHome = panel_home sessions home;
          configured = resolveRoots roots resolvedHome;
          rows = buildRows sessions;
          place = placement resolvedHome configured (root_labels resolvedHome configured rows);
          folders = map (root_folder resolvedHome configured place) (root_buckets configured place rows);
          rooted = filter (\<lambda>f. \<not> sr_other f) folders in
      (if configured \<noteq> [] then sort_key (root_rank configured) rooted else rooted)
      @ filter sr_other folders)"

definition row_identity :: "tree_row \<Rightarrow> string" where
  "row_identity r = session_identity (row_session r)"

definition directoryForSession :: "session_root list \<Rightarrow> session_summary \<Rightarrow> session_directory option" where
  "directoryForSession roots session =
     find (\<lambda>d. list_ex (\<lambda>r. row_identity r = session_identity session) (sd_rows d))
       (concat (map sr_directories roots))"

end
