(* ===== verification/Session_Panel.thy ===== *)
theory Session_Panel
  imports Session_Tree
begin

text \<open>
  What the session panel promises: every session is drawn once, under the one directory and root
  its path names, in the host's order; registered roots are drawn in the order they were registered
  and the catch-all last; and a session is found again in the folder it was filed under.
\<close>

subsection \<open>Disambiguation only changes labels\<close>

definition unlabelled :: "session_directory \<Rightarrow> session_directory" where
  "unlabelled d = d\<lparr>sd_label := []\<rparr>"

lemma grow_one_keeps: "map unlabelled (grow_one original items label) = map unlabelled items"
  by (simp add: grow_one_def grow_labels_def Let_def unlabelled_def comp_def if_distrib cong: map_cong)

lemma grow_all_keeps: "map unlabelled (foldl (grow_one original) items labels) = map unlabelled items"
  by (induction labels arbitrary: items) (simp_all add: grow_one_keeps)

lemma disambiguate_keeps: "map unlabelled (disambiguateLabels items) = map unlabelled items"
  unfolding disambiguateLabels_def by (rule grow_all_keeps)

lemma unlabelled_sel [simp]:
  "sd_key (unlabelled d) = sd_key d" "sd_rows (unlabelled d) = sd_rows d" "sd_path (unlabelled d) = sd_path d"
  "sd_untracked (unlabelled d) = sd_untracked d"
  by (simp_all add: unlabelled_def)

lemma disambiguate_map:
  assumes "\<And>d. f (unlabelled d) = f d"
  shows "map f (disambiguateLabels items) = map f items"
proof -
  have "map (f \<circ> unlabelled) (disambiguateLabels items) = map (f \<circ> unlabelled) items"
    using arg_cong [OF disambiguate_keeps [of items], of "map f"] by simp
  then show ?thesis using assms by (simp add: comp_def)
qed

subsection \<open>Where the rows are\<close>

lemma buildRows_sessions [simp]: "map row_session (buildRows sessions) = sessions"
  by (simp add: buildRows_def build_row_def Let_def comp_def)

lemma root_directories_rows:
  "map (\<lambda>d. (sd_key d, sd_rows d)) (root_directories home key rows) = group_onto (row_dir home) [] rows"
proof -
  have "map (\<lambda>d. (sd_key d, sd_rows d)) (root_directories home key rows)
      = map (\<lambda>d. (sd_key d, sd_rows d)) (buildDirectories rows home)"
    unfolding root_directories_def by (subst disambiguate_map) simp_all
  then show ?thesis by (simp add: buildDirectories_def new_directory_def Let_def comp_def)
qed

lemma directories_mem:
  assumes "d \<in> set (root_directories home key rows)"
  shows "sd_rows d = filter (\<lambda>r. row_dir home r = sd_key d) rows" "sd_rows d \<noteq> []"
proof -
  have "(sd_key d, sd_rows d) \<in> set (group_onto (row_dir home) [] rows)"
    using assms by (simp add: root_directories_rows [of home key rows, symmetric])
  from group_onto_mem [OF _ this] show "sd_rows d = filter (\<lambda>r. row_dir home r = sd_key d) rows" "sd_rows d \<noteq> []"
    by auto
qed

lemma directories_keys:
  "map sd_key (root_directories home key rows) = js_uniq (map (row_dir home) rows)"
proof -
  have "map sd_key (root_directories home key rows)
      = map fst (map (\<lambda>d. (sd_key d, sd_rows d)) (root_directories home key rows))"
    by simp
  then show ?thesis unfolding root_directories_rows keys_group_onto by (simp add: js_uniq_def)
qed

subsection \<open>Registered roots\<close>

lemma labelRootsApart_keys [simp]: "map rr_key (labelRootsApart roots) = map rr_key roots"
  by (simp add: labelRootsApart_def comp_def if_distrib cong: map_cong)

lemma add_root_keeps:
  assumes "distinct (map rr_key rs)" "\<forall>k\<in>set (map rr_key rs). k \<noteq> OTHER_ROOT"
  shows "distinct (map rr_key (add_root home rs s))" "\<forall>k\<in>set (map rr_key (add_root home rs s)). k \<noteq> OTHER_ROOT"
proof -
  have key: "directoryKey c home \<noteq> OTHER_ROOT" if "normaliseRootPath (Str s) = Some c" for c
  proof -
    from that have c: "anchored c" "c \<noteq> UNTRACKED_PATH"
      by (auto simp: normaliseRootPath_def Let_def split: if_splits)
    then have "c \<noteq> OTHER_ROOT" by (auto simp: OTHER_ROOT_def anchored_def starts_with_def isWindowsDrivePath_def drive_letter_def)
    then show ?thesis
      using c(2) by (auto simp: directoryKey_def OTHER_ROOT_def split: option.split)
  qed
  show "distinct (map rr_key (add_root home rs s))" "\<forall>k\<in>set (map rr_key (add_root home rs s)). k \<noteq> OTHER_ROOT"
    using assms key by (auto simp: add_root_def Let_def split: option.split)
qed

lemma resolved_keys:
  "distinct (map rr_key (resolveRoots roots home))" "OTHER_ROOT \<notin> set (map rr_key (resolveRoots roots home))"
proof -
  have "distinct (map rr_key (foldl (add_root home) rs roots)) \<and> (\<forall>k\<in>set (map rr_key (foldl (add_root home) rs roots)). k \<noteq> OTHER_ROOT)"
    if "distinct (map rr_key rs)" "\<forall>k\<in>set (map rr_key rs). k \<noteq> OTHER_ROOT" for rs
    using that
  proof (induction roots arbitrary: rs)
    case (Cons s roots)
    show ?case unfolding foldl.simps by (rule Cons.IH) (fact add_root_keeps [OF Cons.prems])+
  qed simp
  from this [of "[]"] show "distinct (map rr_key (resolveRoots roots home))"
    "OTHER_ROOT \<notin> set (map rr_key (resolveRoots roots home))"
    by (auto simp: resolveRoots_def simp del: set_map)
qed

lemma better_root_mem:
  "foldl (better_root key) best roots = Some b \<Longrightarrow> best = Some b \<or> b \<in> set roots"
proof (induction roots arbitrary: best)
  case (Cons r roots)
  then have "better_root key best r = Some b \<or> b \<in> set roots" by simp
  then show ?case by (auto simp: better_root_def split: if_splits option.splits)
qed simp

lemma configured_labels_keys:
  "map_of (foldl (\<lambda>m r. AList.update (rr_label r) (rr_key r) m) m configured) l = Some k \<Longrightarrow>
     map_of m l = Some k \<or> k \<in> set (map rr_key configured)"
proof (induction configured arbitrary: m)
  case (Cons r rs)
  then have "map_of (AList.update (rr_label r) (rr_key r) m) l = Some k \<or> k \<in> set (map rr_key rs)" by simp
  then show ?case by (auto simp: update_conv' split: if_splits)
qed simp

text \<open>With roots registered, a row goes to one of them or to the catch-all.\<close>

lemma placement_registered:
  assumes "configured \<noteq> []"
  shows "fst (placement home configured (root_labels home configured rows) row)
           \<in> insert OTHER_ROOT (set (map rr_key configured))"
proof -
  have "fst (placeRow home configured row) \<in> insert OTHER_ROOT (set (map rr_key configured))"
    using assms better_root_mem [of _ None configured]
    by (auto simp: placeRow_def bestRootForPath_def split: option.split)
  moreover have "k \<in> set (map rr_key configured)" if "map_of (root_labels home configured rows) l = Some k" for k l
    using configured_labels_keys [of "[]"] that assms by (simp add: root_labels_def configured_labels_def)
  ultimately show ?thesis by (simp add: placement_def split: option.split)
qed

subsection \<open>The roots of the panel\<close>

definition panel_roots :: "session_summary list \<Rightarrow> string option \<Rightarrow> string list \<Rightarrow> resolved_root list" where
  "panel_roots sessions home roots = resolveRoots roots (panel_home sessions home)"

definition panel_place :: "session_summary list \<Rightarrow> string option \<Rightarrow> string list \<Rightarrow> tree_row \<Rightarrow> string \<times> string" where
  "panel_place sessions home roots =
     (let h = panel_home sessions home; configured = panel_roots sessions home roots in
      placement h configured (root_labels h configured (buildRows sessions)))"

definition panel_folders :: "session_summary list \<Rightarrow> string option \<Rightarrow> string list \<Rightarrow> session_root list" where
  "panel_folders sessions home roots =
     map (root_folder (panel_home sessions home) (panel_roots sessions home roots) (panel_place sessions home roots))
       (root_buckets (panel_roots sessions home roots) (panel_place sessions home roots) (buildRows sessions))"

lemma root_folder_sel [simp]:
  "sr_key (root_folder home configured place b) = fst b"
  "sr_other (root_folder home configured place b) = (fst b = OTHER_ROOT)"
  "sr_directories (root_folder home configured place b) = root_directories home (fst b) (snd b)"
  by (simp_all add: root_folder_def Let_def)

lemma folder_keys:
  "map sr_key (panel_folders sessions home roots) =
     map rr_key (panel_roots sessions home roots)
     @ uniq_acc (map rr_key (panel_roots sessions home roots)) (map (fst \<circ> panel_place sessions home roots) (buildRows sessions))"
  by (simp add: panel_folders_def root_buckets_def keys_group_onto comp_def)

lemma folder_keys_distinct: "distinct (map sr_key (panel_folders sessions home roots))"
  unfolding folder_keys using resolved_keys(1) by (auto simp: panel_roots_def)

lemma sr_other_key: "f \<in> set (panel_folders sessions home roots) \<Longrightarrow> sr_other f = (sr_key f = OTHER_ROOT)"
  by (auto simp: panel_folders_def)

lemma single_acc: "set ys \<subseteq> insert z (set xs) \<Longrightarrow> z \<notin> set xs \<Longrightarrow> uniq_acc xs ys = (if z \<in> set ys then [z] else [])"
proof -
  assume a: "set ys \<subseteq> insert z (set xs)" "z \<notin> set xs"
  have s: "set (uniq_acc xs ys) = (if z \<in> set ys then {z} else {})" using a by auto
  have "distinct (uniq_acc xs ys)" by simp
  with s show ?thesis
    by (cases "uniq_acc xs ys") (auto split: if_splits simp: insert_eq_iff dest: subset_singletonD)
qed

text \<open>The buckets already stand in registered order, so the final sort finds nothing to do.\<close>

lemma tree_is_folders:
  "groupSessionsIntoRoots sessions home roots =
     filter (\<lambda>f. \<not> sr_other f) (panel_folders sessions home roots) @ filter sr_other (panel_folders sessions home roots)"
proof (cases "panel_roots sessions home roots = []")
  case True
  then show ?thesis
    by (simp add: groupSessionsIntoRoots_def Let_def panel_folders_def panel_place_def panel_roots_def)
next
  case False
  let ?c = "panel_roots sessions home roots" and ?fs = "panel_folders sessions home roots"
  let ?rooted = "filter (\<lambda>f. \<not> sr_other f) ?fs"
  have in_c: "set (map (fst \<circ> panel_place sessions home roots) (buildRows sessions)) \<subseteq> insert OTHER_ROOT (set (map rr_key ?c))"
    using placement_registered [OF False] by (auto simp: panel_place_def Let_def)
  have other: "OTHER_ROOT \<notin> set (map rr_key ?c)" using resolved_keys(2) by (simp add: panel_roots_def)
  have "map sr_key ?rooted = filter (\<lambda>k. k \<noteq> OTHER_ROOT) (map sr_key ?fs)"
    by (simp add: filter_map comp_def sr_other_key cong: filter_cong)
  also have "\<dots> = map rr_key ?c"
    using other by (auto simp: folder_keys single_acc [OF in_c other] filter_id_conv intro: rev_image_eqI)
  finally have keys: "map sr_key ?rooted = map rr_key ?c" .
  have "map (root_rank ?c) ?rooted = [0..<length ?c]"
  proof (rule nth_equalityI)
    show "length (map (root_rank ?c) ?rooted) = length [0..<length ?c]" using arg_cong [OF keys, of length] by simp
    fix i assume i: "i < length (map (root_rank ?c) ?rooted)"
    then have "i < length ?c" using arg_cong [OF keys, of length] by simp
    moreover have "sr_key (?rooted ! i) = rr_key (?c ! i)"
      using arg_cong [OF keys, of "\<lambda>ks. ks ! i"] i \<open>i < length ?c\<close> by simp
    moreover have "find_index (\<lambda>k. k = map rr_key ?c ! i) (map rr_key ?c) = Some i"
      using \<open>i < length ?c\<close> resolved_keys(1) by (intro find_index_distinct) (auto simp: panel_roots_def)
    ultimately show "map (root_rank ?c) ?rooted ! i = [0..<length ?c] ! i"
      using i by (simp add: root_rank_def find_index_map comp_def)
  qed
  then have "sort_key (root_rank ?c) ?rooted = ?rooted" by (intro sort_key_id_if_sorted) simp
  then show ?thesis using False
    by (simp add: groupSessionsIntoRoots_def Let_def panel_folders_def panel_place_def panel_roots_def)
qed

lemma mset_tree: "mset (groupSessionsIntoRoots sessions home roots) = mset (panel_folders sessions home roots)"
  by (simp add: tree_is_folders multiset_partition [symmetric])

lemma mset_directories: "mset (concat (map sd_rows (root_directories home key rows))) = mset rows"
proof -
  have "map sd_rows (root_directories home key rows) = map snd (group_onto (row_dir home) [] rows)"
    by (simp add: root_directories_rows [of home key rows, symmetric] comp_def)
  then show ?thesis by (simp add: mset_group_onto)
qed

lemma mset_folder_rows:
  "mset (concat (map (\<lambda>f. concat (map sd_rows (sr_directories f))) (panel_folders sessions home roots)))
     = mset (buildRows sessions)"
proof -
  let ?bs = "root_buckets (panel_roots sessions home roots) (panel_place sessions home roots) (buildRows sessions)"
  have "mset (concat (map (\<lambda>f. concat (map sd_rows (sr_directories f))) (panel_folders sessions home roots)))
      = (\<Sum>b\<in>#mset ?bs. mset (concat (map sd_rows (root_directories (panel_home sessions home) (fst b) (snd b)))))"
    by (simp add: panel_folders_def mset_concat_map [of _ ?bs] comp_def del: mset_concat)
  also have "\<dots> = mset (concat (map snd ?bs))"
    unfolding mset_directories mset_concat_map [of snd] ..
  also have "\<dots> = mset (buildRows sessions)"
    by (simp add: root_buckets_def mset_group_onto comp_def del: mset_concat)
  finally show ?thesis .
qed

lemma panel_folder_rows:
  assumes "f \<in> set (panel_folders sessions home roots)" "d \<in> set (sr_directories f)"
  shows "sd_rows d = filter (\<lambda>r. fst (panel_place sessions home roots r) = sr_key f
                              \<and> row_dir (panel_home sessions home) r = sd_key d) (buildRows sessions)"
proof -
  let ?c = "panel_roots sessions home roots" and ?p = "panel_place sessions home roots"
  obtain k us where b: "(k, us) \<in> set (root_buckets ?c ?p (buildRows sessions))"
    "f = root_folder (panel_home sessions home) ?c ?p (k, us)"
    using assms(1) by (auto simp: panel_folders_def)
  have d: "distinct (map fst (map (\<lambda>r. (rr_key r, [] :: tree_row list)) ?c))"
    using resolved_keys(1) by (simp add: panel_roots_def comp_def)
  have empty: "map_of (map (\<lambda>r. (rr_key r, [] :: tree_row list)) ?c) k = Some ws \<Longrightarrow> ws = []" for ws
    by (auto dest: map_of_SomeD)
  have "us = filter (\<lambda>r. fst (?p r) = k) (buildRows sessions)"
    using group_onto_mem(1) [OF d b(1) [unfolded root_buckets_def]] empty by (auto split: option.splits)
  then show ?thesis
    using directories_mem(1) [of d "panel_home sessions home" k us] assms(2) b(2) by (auto intro: filter_cong)
qed

lemma panel_rows:
  "mset (concat (map sd_rows (concat (map sr_directories (groupSessionsIntoRoots sessions home roots))))) = mset (buildRows sessions)"
proof -
  let ?tree = "groupSessionsIntoRoots sessions home roots" and ?fs = "panel_folders sessions home roots"
  have flat: "concat (map sd_rows (concat (map sr_directories fs))) = concat (map (\<lambda>f. concat (map sd_rows (sr_directories f))) fs)"
    for fs :: "session_root list"
    by (induction fs) auto
  have "mset (concat (map sd_rows (concat (map sr_directories ?tree))))
      = mset (concat (map (\<lambda>f. concat (map sd_rows (sr_directories f))) ?fs))"
    unfolding flat mset_concat_map [of _ ?tree] mset_concat_map [of _ ?fs] mset_tree ..
  also have "\<dots> = mset (buildRows sessions)" by (rule mset_folder_rows)
  finally show ?thesis .
qed

text \<open>
  C20: The panel draws every session exactly once: the rows of all its directories together are the
  rows of the list. A directory holds, in the host's order, the rows whose path names it and its
  root; no root and no directory of a root is drawn twice.
\<close>

theorem panel_draws_every_session_once:
  "let tree = groupSessionsIntoRoots sessions home roots; h = panel_home sessions home;
       place = panel_place sessions home roots in
     mset (concat (map sd_rows (concat (map sr_directories tree)))) = mset (buildRows sessions)
   \<and> distinct (map sr_key tree)
   \<and> list_all (\<lambda>f. distinct (map sd_key (sr_directories f))
       \<and> list_all (\<lambda>d. sd_rows d = filter (\<lambda>r. fst (place r) = sr_key f \<and> row_dir h r = sd_key d) (buildRows sessions))
           (sr_directories f)) tree"
proof -
  let ?tree = "groupSessionsIntoRoots sessions home roots" and ?fs = "panel_folders sessions home roots"
  have once: "mset (concat (map sd_rows (concat (map sr_directories ?tree)))) = mset (buildRows sessions)"
    by (rule panel_rows)
  have keys: "distinct (map sr_key ?tree)"
    using folder_keys_distinct mset_eq_imp_distinct_iff [of "map sr_key ?tree" "map sr_key ?fs"] mset_tree
    by (metis mset_map)
  have mem: "f \<in> set ?fs" if "f \<in> set ?tree" for f using that mset_eq_setD [OF mset_tree] by blast
  have dirs: "distinct (map sd_key (sr_directories f))" if "f \<in> set ?fs" for f
    using that by (auto simp: panel_folders_def directories_keys simp del: distinct_map)
  show ?thesis
    using once keys dirs mem panel_folder_rows by (auto simp: Let_def list_all_iff)
qed

text \<open>
  The roots of the panel: the registered ones in the order they were registered, or, with none
  registered, the roots of the paths in the order the host's list first reaches them; and the
  catch-all last, when something is in it.
\<close>

theorem panel_roots_in_order:
  "map sr_key (groupSessionsIntoRoots sessions home roots) =
     (let registered = map rr_key (panel_roots sessions home roots);
          reached = map (fst \<circ> panel_place sessions home roots) (buildRows sessions) in
      (if registered \<noteq> [] then registered else filter (\<lambda>k. k \<noteq> OTHER_ROOT) (js_uniq reached))
      @ (if OTHER_ROOT \<in> set reached then [OTHER_ROOT] else []))"
proof -
  let ?c = "panel_roots sessions home roots" and ?fs = "panel_folders sessions home roots"
  let ?ks = "map (fst \<circ> panel_place sessions home roots) (buildRows sessions)"
  have other: "OTHER_ROOT \<notin> set (map rr_key ?c)" using resolved_keys(2) by (simp add: panel_roots_def)
  have "map sr_key (filter (\<lambda>f. \<not> sr_other f) ?fs) = filter (\<lambda>k. k \<noteq> OTHER_ROOT) (map sr_key ?fs)"
    "map sr_key (filter sr_other ?fs) = filter (\<lambda>k. OTHER_ROOT = k) (map sr_key ?fs)"
    by (auto simp: filter_map comp_def sr_other_key eq_commute [of OTHER_ROOT] cong: filter_cong)
  then have split: "map sr_key (groupSessionsIntoRoots sessions home roots)
      = filter (\<lambda>k. k \<noteq> OTHER_ROOT) (map sr_key ?fs) @ filter (\<lambda>k. OTHER_ROOT = k) (map sr_key ?fs)"
    by (simp add: tree_is_folders)
  have last: "filter (\<lambda>k. OTHER_ROOT = k) (map sr_key ?fs) = (if OTHER_ROOT \<in> set ?ks then [OTHER_ROOT] else [])"
  proof (cases "OTHER_ROOT \<in> set (map sr_key ?fs)")
    case True
    then have "OTHER_ROOT \<in> set ?ks" using other unfolding folder_keys by auto
    then show ?thesis using filter_one [OF folder_keys_distinct True] by simp
  next
    case False
    then have "OTHER_ROOT \<notin> set ?ks" using other unfolding folder_keys by auto
    then show ?thesis using False by (simp add: filter_empty_conv del: set_map) blast
  qed
  have first: "filter (\<lambda>k. k \<noteq> OTHER_ROOT) (map sr_key ?fs)
      = (if map rr_key ?c \<noteq> [] then map rr_key ?c else filter (\<lambda>k. k \<noteq> OTHER_ROOT) (js_uniq ?ks))"
  proof (cases "?c = []")
    case True
    then show ?thesis by (simp add: folder_keys js_uniq_def)
  next
    case False
    have in_c: "set ?ks \<subseteq> insert OTHER_ROOT (set (map rr_key ?c))"
      using placement_registered [OF False] by (auto simp: panel_place_def Let_def)
    have "filter (\<lambda>k. k \<noteq> OTHER_ROOT) (map rr_key ?c) = map rr_key ?c"
      using other by (auto simp: filter_id_conv intro: rev_image_eqI)
    then show ?thesis using False by (auto simp: folder_keys single_acc [OF in_c other])
  qed
  show ?thesis unfolding split first last by (simp add: Let_def)
qed

text \<open>
  A session whose workspace and tag are its own is found again in a directory that holds it,
  which is what a create navigates to.
\<close>

theorem session_found_where_filed:
  assumes "s \<in> set sessions" and "distinct (map session_identity sessions)"
  shows "\<exists>d. directoryForSession (groupSessionsIntoRoots sessions home roots) s = Some d
           \<and> s \<in> set (map row_session (sd_rows d))"
proof -
  let ?dirs = "concat (map sr_directories (groupSessionsIntoRoots sessions home roots))"
  have rows: "set (concat (map sd_rows ?dirs)) = set (buildRows sessions)"
    using panel_rows mset_eq_setD by blast
  have "s \<in> set (map row_session (buildRows sessions))" using assms(1) unfolding buildRows_sessions .
  then obtain r where "r \<in> set (concat (map sd_rows ?dirs))" "row_session r = s"
    unfolding set_map rows by blast
  then obtain d where r: "d \<in> set ?dirs" "r \<in> set (sd_rows d)" "row_session r = s"
    by (auto simp del: set_concat) (auto)
  let ?P = "\<lambda>d. list_ex (\<lambda>r. row_identity r = session_identity s) (sd_rows d)"
  have "?P d" using r by (auto simp: list_ex_iff row_identity_def)
  then have "find ?P ?dirs \<noteq> None" using r(1) unfolding find_None_all by blast
  then obtain e where e: "find ?P ?dirs = Some e" by auto
  then have "e \<in> set ?dirs" "?P e" using find_Some_iff_ex [OF e] by auto
  then obtain q where q: "q \<in> set (sd_rows e)" "session_identity (row_session q) = session_identity s"
    by (auto simp: list_ex_iff row_identity_def)
  have "q \<in> set (buildRows sessions)" using rows \<open>e \<in> set ?dirs\<close> q(1) by auto
  then have "row_session q \<in> set sessions" using imageI [of q "set (buildRows sessions)" row_session]
    by (metis buildRows_sessions set_map)
  then have "row_session q = s" using assms q(2) by (simp add: distinct_map inj_on_def)
  then show ?thesis using e q(1) by (force simp: directoryForSession_def)
qed

definition sample_session :: "string \<Rightarrow> string option \<Rightarrow> session_summary" where
  "sample_session name path =
     \<lparr>ss_name = name, ss_created = 1, ss_activity = 2, ss_attached = False, ss_path = path,
      ss_backend = Some AplexerBackend, ss_workspace = path, ss_agentKind = None, ss_repoRoot = None\<rparr>"

definition sample_sessions :: "session_summary list" where
  "sample_sessions = [sample_session ''main'' (Some ''/home/me/git/web''), sample_session ''main'' (Some ''~/git/a/web''),
                      sample_session ''git-lost'' None, sample_session ''log'' (Some ''/var/log'')]"

theorem session_found_where_filed_witness:
  "\<exists>d. directoryForSession (groupSessionsIntoRoots sample_sessions (Some ''/home/me'') [''~/git'']) (sample_session ''git-lost'' None) = Some d
     \<and> sample_session ''git-lost'' None \<in> set (map row_session (sd_rows d))"
proof -
  have "sample_session ''git-lost'' None \<in> set sample_sessions" by (simp add: sample_sessions_def)
  moreover have "distinct (map session_identity sample_sessions)" by code_simp
  ultimately show ?thesis by (rule session_found_where_filed)
qed

subsection \<open>Keys and directories\<close>

text \<open>
  The spelling a host reports a directory in: absolute, without a trailing slash; on a
  Git-for-Windows host, whose home is spelled \<open>/c/...\<close>, an upper-case drive path.
\<close>

definition native_path :: "string \<Rightarrow> string \<Rightarrow> bool" where
  "native_path h p \<longleftrightarrow>
     (if msys_parts h = None then starts_with p ''/''
      else (case drive_parts p of None \<Rightarrow> False | Some (d, rest) \<Rightarrow> lower d \<noteq> d \<and> no_line_break rest))
     \<and> (p = ''/'' \<or> last p \<noteq> CHR ''/'')"

definition sftp_path :: "string \<Rightarrow> string \<Rightarrow> string" where
  "sftp_path h p = (if msys_parts h = None then p else ''/'' @ p)"

lemma upper_lower: "drive_letter d \<Longrightarrow> lower d \<noteq> d \<Longrightarrow> upper (lower d) = d \<and> drive_letter (lower d)"
proof -
  have "\<forall>n::nat. n < 256 \<longrightarrow> drive_letter (char_of n) \<longrightarrow> lower (char_of n) \<noteq> char_of n \<longrightarrow>
          upper (lower (char_of n)) = char_of n \<and> drive_letter (lower (char_of n))"
    by (auto simp: drive_letter_def lower_def upper_def Let_def of_char_of)
  moreover have "(of_char d :: nat) < 256" by simp
  ultimately show "drive_letter d \<Longrightarrow> lower d \<noteq> d \<Longrightarrow> upper (lower d) = d \<and> drive_letter (lower d)"
    by (metis char_of_char)
qed

lemma trimTrailingSlash_fixed: "s = [] \<or> last s \<noteq> CHR ''/'' \<Longrightarrow> trimTrailingSlash s = s"
  unfolding trimTrailingSlash_def by (rule trim_right_fixed)

lemma below_SomeD: "below folder start = Some rel \<Longrightarrow> folder = start \<and> rel = [] \<or> folder = start @ ''/'' @ rel"
  by (auto simp: below_def split: if_splits dest: starts_withD)

lemma normaliseHome_last: "normaliseHome home = Some h \<Longrightarrow> last h \<noteq> CHR ''/''"
  using trim_right_last [of "\<lambda>c. c = CHR ''/''" "js_trim (or_empty home)"]
  by (auto simp: normaliseHome_def trimTrailingSlash_def Let_def split: if_splits)

text \<open>The rewrite of a key under home, undone.\<close>

lemma rootHostPath_home:
  assumes "normaliseHome home = Some h" "below folder h = Some rel" "last folder \<noteq> CHR ''/''"
  shows "rootHostPath (if rel \<noteq> [] then ''~/'' @ rel else ''~'') home = Some (to_sftp (Some h) folder)"
proof (cases "rel = []")
  case True
  then have "folder = h" using below_SomeD [OF assms(2)] assms(3) by auto
  then show ?thesis using True assms(1)
    by (simp add: rootHostPath_def OTHER_ROOT_def UNTRACKED_PATH_def MAINTENANCE_ROOT_def)
next
  case False
  then have f: "folder = h @ ''/'' @ rel" using below_SomeD [OF assms(2)] by auto
  then have "trimTrailingSlash rel = rel" using assms(3) False by (intro trimTrailingSlash_fixed) auto
  then show ?thesis using False assms(1) f
    by (simp add: rootHostPath_def OTHER_ROOT_def UNTRACKED_PATH_def MAINTENANCE_ROOT_def starts_with_def Let_def)
qed

text \<open>
  C21: The key the panel groups a directory under leads back to the directory. On a host whose home
  is known and spelled from the root (\<open>/home/u\<close>, or \<open>/c/Users/u\<close> on a Git-for-Windows host), and
  for a directory in the spelling such a host reports it in (\<open>native_path\<close>: absolute and without a
  trailing slash; with a home of the form \<open>/c/...\<close> an upper-case drive path \<open>C:/...\<close>), the key
  resolved against the same home is the path the host reported, with the leading slash its file
  server wants before a drive. The two lemmas after it show that the spellings left out, an
  MSYS directory outside home and a home that is itself a drive path, are not converted.
\<close>

theorem directory_keys_name_their_path:
  assumes "normaliseHome home = Some h" and "starts_with h ''/''" and "native_path h p"
  shows "rootHostPath (directoryKey p home) home = Some (sftp_path h p)"
proof (cases "msys_parts h")
  case None
  then obtain q where p: "p = CHR ''/'' # q" using assms(3) starts_withD [of p "''/''"] by (auto simp: native_path_def)
  obtain g where g: "h = CHR ''/'' # g" using starts_withD [OF assms(2)] by auto
  have nd: "\<not> isWindowsDrivePath p" "\<not> isWindowsDrivePath h"
    using p g by (auto simp: isWindowsDrivePath_def drive_letter_def elim!: drive_parts.elims split: if_splits)
  have rel: "homeRelative p home = below p h"
    using p nd assms(1) by (simp add: homeRelative_def starts_with_def Let_def)
  show ?thesis
  proof (cases "below p h")
    case (Some r)
    have "last p \<noteq> CHR ''/''"
      using assms(3) below_SomeD [OF Some] normaliseHome_last [OF assms(1)] g by (auto simp: native_path_def)
    from rootHostPath_home [OF assms(1) Some this] show ?thesis
      using p rel Some None by (simp add: directoryKey_def UNTRACKED_PATH_def to_sftp_def sftp_path_def)
  qed (use p rel nd None in \<open>simp add: directoryKey_def UNTRACKED_PATH_def rootHostPath_def OTHER_ROOT_def
      MAINTENANCE_ROOT_def starts_with_def sftp_path_def Let_def\<close>)
next
  case (Some m)
  then obtain d rest where dr: "drive_parts p = Some (d, rest)" "lower d \<noteq> d" "no_line_break rest"
    using assms(3) by (auto simp: native_path_def split: option.splits)
  then obtain q where p: "p = d # CHR '':'' # CHR ''/'' # q" "rest = CHR ''/'' # q" "drive_letter d"
    by (auto elim!: drive_parts.elims split: if_splits)
  obtain g where g: "h = CHR ''/'' # g" using starts_withD [OF assms(2)] by auto
  define f where "f = CHR ''/'' # lower d # CHR ''/'' # q"
  have drive: "isWindowsDrivePath p" "driveToMsysPath p = Some f" "\<not> isWindowsDrivePath h"
    using dr p g by (auto simp: isWindowsDrivePath_def driveToMsysPath_def f_def drive_letter_def elim!: drive_parts.elims split: if_splits)
  have undone: "msysToDrivePath f = Some p"
    using upper_lower [OF p(3) dr(2)] dr(3) p by (simp add: msysToDrivePath_def f_def)
  have letter: "d \<noteq> CHR ''~''" "d \<noteq> CHR ''$''" "d \<noteq> CHR '':''" "d \<noteq> CHR ''/''"
    using p(3) by (auto simp: drive_letter_def)
  have rel: "homeRelative p home = below f h"
    using p(1) letter drive assms(1) by (simp add: homeRelative_def starts_with_def given_def Let_def)
  have lf: "last f \<noteq> CHR ''/''" using assms(3) p(1) letter by (auto simp: native_path_def f_def)
  show ?thesis
  proof (cases "below f h")
    case (Some r)
    from rootHostPath_home [OF assms(1) Some lf] show ?thesis
      using p(1) letter rel Some \<open>msys_parts h = Some m\<close> undone
      by (simp add: directoryKey_def UNTRACKED_PATH_def to_sftp_def sftp_path_def)
  qed (use p(1) letter rel drive Some in \<open>simp add: directoryKey_def UNTRACKED_PATH_def rootHostPath_def OTHER_ROOT_def
      MAINTENANCE_ROOT_def starts_with_def sftp_path_def Let_def\<close>)
qed

theorem directory_keys_name_their_path_witness:
  "rootHostPath (directoryKey ''C:/Users/u/git'' (Some ''/c/Users/u'')) (Some ''/c/Users/u'') = Some ''/C:/Users/u/git''
   \<and> rootHostPath (directoryKey ''/home/me/git'' (Some ''/home/me'')) (Some ''/home/me'') = Some ''/home/me/git''"
proof -
  have "normaliseHome (Some ''/c/Users/u'') = Some ''/c/Users/u''" "starts_with ''/c/Users/u'' ''/''"
    "native_path ''/c/Users/u'' ''C:/Users/u/git''" "sftp_path ''/c/Users/u'' ''C:/Users/u/git'' = ''/C:/Users/u/git''"
    "normaliseHome (Some ''/home/me'') = Some ''/home/me''" "starts_with ''/home/me'' ''/''"
    "native_path ''/home/me'' ''/home/me/git''" "sftp_path ''/home/me'' ''/home/me/git'' = ''/home/me/git''"
    by code_simp+
  then show ?thesis
    using directory_keys_name_their_path [of "Some ''/c/Users/u''" "''/c/Users/u''" "''C:/Users/u/git''"]
      directory_keys_name_their_path [of "Some ''/home/me''" "''/home/me''" "''/home/me/git''"] by simp
qed

text \<open>
  On the same host a directory outside home that was spelled the MSYS way is passed through as it
  is, although its file server knows it only by its drive.
\<close>

lemma msys_root_is_not_converted:
  "rootHostPath (directoryKey ''/c/work'' (Some ''/c/Users/u'')) (Some ''/c/Users/u'') = Some ''/c/work''
   \<and> to_sftp (Some ''/c/Users/u'') ''/c/work'' = ''/C:/work''"
  by code_simp

text \<open>
  With a home that is itself a drive path a directory under it resolves to the bare drive path, one
  outside it to the path with the slash.
\<close>

lemma drive_home_is_not_converted:
  "rootHostPath (directoryKey ''C:/Users/u/git'' (Some ''C:/Users/u'')) (Some ''C:/Users/u'') = Some ''C:/Users/u/git''
   \<and> rootHostPath (directoryKey ''D:/work'' (Some ''C:/Users/u'')) (Some ''C:/Users/u'') = Some ''/D:/work''"
  by code_simp

subsection \<open>The longest registered root claims a directory\<close>

lemma better_root_spec:
  "case foldl (better_root key) best roots of
     None \<Rightarrow> best = None \<and> (\<forall>r\<in>set roots. \<not> pathWithinRoot key (rr_key r))
   | Some b \<Rightarrow> (best = Some b \<or> b \<in> set roots \<and> pathWithinRoot key (rr_key b))
       \<and> (\<forall>r\<in>set roots. pathWithinRoot key (rr_key r) \<longrightarrow> length (rr_key r) \<le> length (rr_key b))
       \<and> (\<forall>a. best = Some a \<longrightarrow> length (rr_key a) \<le> length (rr_key b))"
proof (induction roots arbitrary: best)
  case (Cons r roots)
  show ?case using Cons.IH [of "better_root key best r"]
    by (cases best) (auto simp: better_root_def split: option.splits if_splits)
qed (simp split: option.split)

lemma pathWithinRoot_boundary: "\<not> pathWithinRoot ''~/gitlab'' ''~/git''" "pathWithinRoot ''~/git/lab'' ''~/git''"
  by code_simp+

end
