(* ===== verification/Workspace_Tabs.thy ===== *)
theory Workspace_Tabs
  imports Js_Lists Session_Names
begin

text \<open>
  The tab bar of a folder workspace (src/src/shared/workspaceTabs.ts): what a tab is called, the
  derived order, the manual order laid over it, moving a tab, and what closing a tab selects.
\<close>

subsection \<open>Tabs\<close>

datatype kind = SessionKind | FilesKind | ToolKind

datatype workspace_tab =
    SessionTab (tab_id: string) (tab_session: string) (tab_label: string) (tab_created: int)
  | FilesTab (tab_id: string) (tab_label: string) (tab_path: "string option")
  | ToolTab (tab_id: string) (tab_label: string)

fun tab_kind :: "workspace_tab \<Rightarrow> kind" where
  "tab_kind (SessionTab i s l c) = SessionKind"
| "tab_kind (FilesTab i l p) = FilesKind"
| "tab_kind (ToolTab i l) = ToolKind"

fun with_label :: "string \<Rightarrow> workspace_tab \<Rightarrow> workspace_tab" where
  "with_label l (SessionTab i s l0 c) = SessionTab i s l c"
| "with_label l (FilesTab i l0 p) = FilesTab i l p"
| "with_label l (ToolTab i l0) = ToolTab i l"

definition FILES_LABEL :: string where "FILES_LABEL = ''Files''"

text \<open>The counter reads the label the tab came with, and writes behind it.\<close>

fun number_from :: "(string \<Rightarrow> nat) \<Rightarrow> workspace_tab list \<Rightarrow> workspace_tab list" where
  "number_from seen [] = []"
| "number_from seen (t # ts) =
     (let n = seen (tab_label t) + 1 in
      (if n > 1 then with_label (tab_label t @ '' '' @ show_nat n) t else t)
      # number_from (seen(tab_label t := n)) ts)"

definition numberCollisions :: "workspace_tab list \<Rightarrow> workspace_tab list" where
  "numberCollisions tabs = number_from (\<lambda>_. 0) tabs"

text \<open>
  A session is a name and its creation time; \<open>localeCompare\<close> is the first argument. The second
  list are the Files tabs, an id and the path it has.
\<close>

definition session_order :: "(string \<Rightarrow> string \<Rightarrow> int) \<Rightarrow> string \<times> int \<Rightarrow> string \<times> int \<Rightarrow> int" where
  "session_order collate a b =
     (if snd a - snd b \<noteq> 0 then snd a - snd b else collate (fst a) (fst b))"

definition buildWorkspaceTabs ::
    "(string \<Rightarrow> string \<Rightarrow> int) \<Rightarrow> (string \<times> int) list \<Rightarrow> (string \<times> string option) list \<Rightarrow> workspace_tab list" where
  "buildWorkspaceTabs collate sessions files =
     numberCollisions
       (map (\<lambda>(name, created). SessionTab name name name created) (sort_by (session_order collate) sessions)
        @ map (\<lambda>(i, path). FilesTab i FILES_LABEL path) files)"

definition renamedSessionName :: "string \<Rightarrow> (string \<Rightarrow> string) \<Rightarrow> string option" where
  "renamedSessionName typed sanitise =
     (let clean = sanitise (js_trim typed) in if list_ex alphanumeric clean then Some clean else None)"

subsection \<open>The manual order\<close>

definition tabRank :: "string list \<Rightarrow> string \<Rightarrow> enat" where
  "tabRank order i = (case find_index (\<lambda>x. x = i) order of None \<Rightarrow> \<infinity> | Some n \<Rightarrow> enat n)"

text \<open>
  The comparator subtracts ranks: for two unranked tabs that is \<open>NaN\<close>, which a sort takes as
  equal, so the sort is a stable one by rank.
\<close>

definition ranked :: "string list \<Rightarrow> workspace_tab list \<Rightarrow> workspace_tab list" where
  "ranked order tabs = sort_key (\<lambda>t. tabRank order (tab_id t)) tabs"

definition of_kind :: "kind \<Rightarrow> workspace_tab list \<Rightarrow> workspace_tab list" where
  "of_kind k tabs = filter (\<lambda>t. tab_kind t = k) tabs"

definition applyTabOrder :: "workspace_tab list \<Rightarrow> string list \<Rightarrow> workspace_tab list" where
  "applyTabOrder tabs order =
     (if order = [] then tabs
      else ranked order (of_kind SessionKind tabs) @ ranked order (of_kind FilesKind tabs))"

text \<open>\<open>while (last + 1 < tabs.length && tabs[last + 1]?.kind === moving.kind) last += 1\<close>.\<close>

function group_last :: "workspace_tab list \<Rightarrow> kind \<Rightarrow> nat \<Rightarrow> nat" where
  "group_last tabs k i =
     (if i + 1 < length tabs \<and> tab_kind (tabs ! (i + 1)) = k then group_last tabs k (i + 1) else i)"
  by auto
termination by (relation "measure (\<lambda>(tabs, k, i). length tabs - i)") auto

declare group_last.simps [simp del]

definition canDropTabAt :: "workspace_tab list \<Rightarrow> string \<Rightarrow> int \<Rightarrow> bool" where
  "canDropTabAt tabs fromId toIndex =
     (case find (\<lambda>t. tab_id t = fromId) tabs of
        None \<Rightarrow> False
      | Some moving \<Rightarrow>
          (case find_index (\<lambda>t. tab_kind t = tab_kind moving) tabs of
             None \<Rightarrow> False
           | Some first \<Rightarrow>
               int first \<le> toIndex \<and> toIndex \<le> int (group_last tabs (tab_kind moving) first) + 1))"

text \<open>The array index a gap index stands for, once the moving tab is out.\<close>

definition drop_index :: "nat \<Rightarrow> nat \<Rightarrow> nat \<Rightarrow> int \<Rightarrow> nat" where
  "drop_index start first limit toIndex =
     (let gap = nat (max (int first) (min (int limit + 1) toIndex)) in
      if gap > start then gap - 1 else gap)"

definition reorderTabs :: "workspace_tab list \<Rightarrow> string \<Rightarrow> int \<Rightarrow> string list option" where
  "reorderTabs tabs fromId toIndex =
     (case find_index (\<lambda>t. tab_id t = fromId) tabs of
        None \<Rightarrow> None
      | Some start \<Rightarrow>
          let k = tab_kind (tabs ! start);
              first = (case find_index (\<lambda>t. tab_kind t = k) tabs of None \<Rightarrow> 0 | Some i \<Rightarrow> i);
              dest = drop_index start first (group_last tabs k first) toIndex in
          if dest = start then None
          else Some (map tab_id (move_item start dest tabs)))"

text \<open>\<open>direction === 1\<close> is \<open>True\<close>.\<close>

definition nudgeTabOrder :: "workspace_tab list \<Rightarrow> string \<Rightarrow> bool \<Rightarrow> string list option" where
  "nudgeTabOrder tabs fromId right =
     (case find_index (\<lambda>t. tab_id t = fromId) tabs of
        None \<Rightarrow> None
      | Some start \<Rightarrow> reorderTabs tabs fromId (if right then int start + 2 else int start - 1))"

subsection \<open>The selection history\<close>

definition pushMru :: "string list \<Rightarrow> string \<Rightarrow> string list" where
  "pushMru mru i = filter (\<lambda>e. e \<noteq> i) mru @ [i]"

definition pruneTabIds :: "string list \<Rightarrow> workspace_tab list \<Rightarrow> string list" where
  "pruneTabIds ids tabs = filter (\<lambda>i. i \<in> set (map tab_id tabs)) ids"

definition tabAfterClose ::
    "workspace_tab list \<Rightarrow> string \<Rightarrow> string option \<Rightarrow> string list \<Rightarrow> string option" where
  "tabAfterClose tabs closing active mru =
     (if active \<noteq> None \<and> active \<noteq> Some closing then active
      else
        let remaining = filter (\<lambda>t. tab_id t \<noteq> closing) tabs in
        if remaining = [] then None
        else
          case find (\<lambda>i. i \<in> set (map tab_id remaining)) (rev mru) of
            Some i \<Rightarrow> Some i
          | None \<Rightarrow>
              (case find_index (\<lambda>t. tab_id t = closing) tabs of
                 None \<Rightarrow> Some (tab_id (hd remaining))
               | Some i \<Rightarrow>
                   if i < length remaining then Some (tab_id (remaining ! i))
                   else Some (tab_id (last remaining))))"

subsection \<open>Labels\<close>

lemma with_label_keeps [simp]:
  "tab_id (with_label l t) = tab_id t" "tab_kind (with_label l t) = tab_kind t" "tab_label (with_label l t) = l"
  by (cases t; simp)+

lemma number_from_keeps [simp]:
  "map tab_id (number_from seen ts) = map tab_id ts"
  "map tab_kind (number_from seen ts) = map tab_kind ts"
  "length (number_from seen ts) = length ts"
  by (induction seen ts rule: number_from.induct) (auto simp: Let_def)

definition suffixed :: "string \<Rightarrow> nat \<Rightarrow> string" where
  "suffixed l n = (if n > 1 then l @ '' '' @ show_nat n else l)"

lemma plain_suffix_inj:
  assumes "CHR '' '' \<notin> set l" "CHR '' '' \<notin> set l'" "0 < n" "0 < n'" "suffixed l n = suffixed l' n'"
  shows "l = l' \<and> n = n'"
proof -
  have head: "takeWhile (\<lambda>c. c \<noteq> CHR '' '') (suffixed l n) = l" if "CHR '' '' \<notin> set l" for l n
  proof -
    have "takeWhile (\<lambda>c. c \<noteq> CHR '' '') l = l" using that by (auto simp: takeWhile_eq_all_conv)
    then show ?thesis using that by (auto simp: suffixed_def takeWhile_append)
  qed
  have "l = l'" using head [OF assms(1)] head [OF assms(2)] assms(5) by metis
  then show ?thesis using assms(3-5) by (auto simp: suffixed_def split: if_splits)
qed

lemma number_from_labels:
  assumes "\<forall>t\<in>set ts. CHR '' '' \<notin> set (tab_label t)"
  shows "l \<in> set (map tab_label (number_from seen ts)) \<Longrightarrow>
           \<exists>t\<in>set ts. \<exists>n>seen (tab_label t). l = suffixed (tab_label t) n"
  using assms
proof (induction seen ts rule: number_from.induct)
  case (2 seen t ts)
  let ?n = "seen (tab_label t) + 1"
  consider "l = suffixed (tab_label t) ?n" | "l \<in> set (map tab_label (number_from (seen(tab_label t := ?n)) ts))"
    using "2.prems"(1) by (auto simp: Let_def suffixed_def split: if_splits)
  then show ?case
  proof cases
    case 1
    then show ?thesis by force
  next
    case 2
    from "2.IH" [OF refl 2] "2.prems"(2) obtain u m
      where u: "u \<in> set ts" "(seen(tab_label t := ?n)) (tab_label u) < m" "l = suffixed (tab_label u) m"
      by auto
    then have "seen (tab_label u) < m" by (auto split: if_splits)
    with u show ?thesis by auto
  qed
qed simp

lemma number_from_distinct:
  "\<forall>t\<in>set ts. CHR '' '' \<notin> set (tab_label t) \<Longrightarrow> distinct (map tab_label (number_from seen ts))"
proof (induction seen ts rule: number_from.induct)
  case (2 seen t ts)
  let ?n = "seen (tab_label t) + 1"
  have "suffixed (tab_label t) ?n \<notin> set (map tab_label (number_from (seen(tab_label t := ?n)) ts))"
  proof
    assume "suffixed (tab_label t) ?n \<in> set (map tab_label (number_from (seen(tab_label t := ?n)) ts))"
    from number_from_labels [OF _ this] "2.prems" obtain u m
      where u: "u \<in> set ts" "(seen(tab_label t := ?n)) (tab_label u) < m" "suffixed (tab_label t) ?n = suffixed (tab_label u) m"
      by auto
    have "tab_label t = tab_label u \<and> ?n = m"
      by (rule plain_suffix_inj) (use u "2.prems" in auto)
    with u(2) show False by auto
  qed
  moreover have "distinct (map tab_label (number_from (seen(tab_label t := ?n)) ts))"
    by (rule "2.IH" [OF refl]) (use "2.prems" in simp)
  ultimately show ?case by (auto simp: Let_def suffixed_def simp del: fun_upd_apply split: if_splits)
qed simp

lemma buildWorkspaceTabs_ids [simp]:
  "map tab_id (buildWorkspaceTabs collate sessions files) =
     map fst (sort_by (session_order collate) sessions) @ map fst files"
  by (simp add: buildWorkspaceTabs_def numberCollisions_def comp_def case_prod_beta)

lemma buildWorkspaceTabs_kinds:
  "map tab_kind (buildWorkspaceTabs collate sessions files) =
     replicate (length sessions) SessionKind @ replicate (length files) FilesKind"
  by (simp add: buildWorkspaceTabs_def numberCollisions_def comp_def case_prod_beta map_replicate_const)

subsection \<open>The shape of a bar\<close>

text \<open>Session tabs first, then Files tabs.\<close>

definition bar :: "workspace_tab list \<Rightarrow> bool" where
  "bar tabs \<longleftrightarrow> tabs = of_kind SessionKind tabs @ of_kind FilesKind tabs"

lemma of_kind_simps [simp]:
  "of_kind k [] = []" "of_kind k (xs @ ys) = of_kind k xs @ of_kind k ys"
  "of_kind k (of_kind k' xs) = (if k = k' then of_kind k xs else [])"
  by (auto simp: of_kind_def filter_empty_conv intro: arg_cong [of _ _ "\<lambda>P. filter P xs"])

lemma set_of_kind [simp]: "set (of_kind k tabs) = {t \<in> set tabs. tab_kind t = k}"
  by (auto simp: of_kind_def)

lemma mset_ranked [simp]: "mset (ranked order tabs) = mset tabs"
  by (simp add: ranked_def)

lemma set_ranked [simp]: "set (ranked order tabs) = set tabs"
  by (simp add: ranked_def)

lemma ranked_unique:
  assumes "mset ys = mset tabs" "inj_on (\<lambda>t. tabRank order (tab_id t)) (set tabs)"
    and "sorted (map (\<lambda>t. tabRank order (tab_id t)) ys)" "distinct tabs"
  shows "ranked order tabs = ys"
  unfolding ranked_def by (rule sort_key_unique [OF assms(1-3)]) (rule assms(4))

lemma tabRank_nth: "distinct ids \<Longrightarrow> i < length ids \<Longrightarrow> tabRank ids (ids ! i) = enat i"
  unfolding tabRank_def by (simp only: find_index_distinct option.case)

lemma tabRanks: "distinct ids \<Longrightarrow> map (tabRank ids) ids = map enat [0..<length ids]"
  by (rule nth_equalityI) (simp_all add: tabRank_nth)

lemma tabRank_inj: "distinct ids \<Longrightarrow> inj_on (tabRank ids) (set ids)"
  by (auto simp: inj_on_def in_set_conv_nth tabRank_nth)

text \<open>A total ranking reproduces the bar it was read off.\<close>

lemma applyTabOrder_own_ids:
  assumes "bar ys" "mset ys = mset tabs" "distinct (map tab_id tabs)" "tabs \<noteq> []"
  shows "applyTabOrder tabs (map tab_id ys) = ys"
proof -
  let ?ids = "map tab_id ys"
  have d: "distinct ?ids" "distinct tabs" "set ys = set tabs"
    using assms(2, 3) mset_eq_imp_distinct_iff [of "map tab_id ys" "map tab_id tabs"] mset_eq_setD
    by (auto simp: distinct_map)
  have sub: "ranked ?ids (of_kind k tabs) = of_kind k ys" for k
  proof (rule ranked_unique)
    show "mset (of_kind k ys) = mset (of_kind k tabs)" using assms(2) by (simp add: of_kind_def)
    show "distinct (of_kind k tabs)" using d by (simp add: of_kind_def)
    have inj: "inj_on (\<lambda>t. tabRank ?ids (tab_id t)) (set ys)"
      using comp_inj_on [of tab_id "set ys" "tabRank ?ids"] d(1) tabRank_inj [OF d(1)]
      by (simp add: distinct_map comp_def)
    show "inj_on (\<lambda>t. tabRank ?ids (tab_id t)) (set (of_kind k tabs))"
      by (rule inj_on_subset [OF inj]) (use d(3) in auto)
    have "sorted (map (\<lambda>t. tabRank ?ids (tab_id t)) ys)"
    proof -
      have "map (\<lambda>t. tabRank ?ids (tab_id t)) ys = map enat [0..<length ?ids]"
        using tabRanks [OF d(1)] by (simp add: comp_def)
      then show ?thesis by (simp add: sorted_iff_nth_mono)
    qed
    then show "sorted (map (\<lambda>t. tabRank ?ids (tab_id t)) (of_kind k ys))"
      unfolding of_kind_def by (rule sorted_filter)
  qed
  have "?ids \<noteq> []" using assms(2, 4) by auto
  then show ?thesis using sub assms(1) by (simp add: applyTabOrder_def bar_def)
qed

subsection \<open>Moving a tab\<close>

lemma move_as_gap:
  assumes "distinct xs" "start < length xs" "i \<le> length xs"
  shows "move_item start (if i > start then i - 1 else i) xs =
           filter (\<lambda>x. x \<noteq> xs ! start) (take i xs) @ xs ! start # filter (\<lambda>x. x \<noteq> xs ! start) (drop i xs)"
proof -
  define x where "x = xs ! start"
  obtain a b where xs: "xs = a @ x # b" "length a = start"
    using id_take_nth_drop [OF assms(2)] assms(2) by (metis length_take min.absorb4 x_def)
  have keep: "filter (\<lambda>y. y \<noteq> x) zs = zs" if "set zs \<subseteq> set a \<or> set zs \<subseteq> set b" for zs
    using that assms(1) xs by (auto simp: filter_id_conv)
  have subs: "set (take n zs) \<subseteq> set zs" "set (drop n zs) \<subseteq> set zs" for n and zs :: "'a list"
    by (simp_all add: set_take_subset set_drop_subset)
  show ?thesis
  proof (cases "i > start")
    case True
    then obtain j where j: "i = Suc (start + j)" using less_imp_Suc_add by blast
    have "take i xs = a @ x # take j b" "drop i xs = drop j b" using xs j by simp_all
    moreover have "move_item start (start + j) xs = a @ take j b @ x # drop j b"
      using xs by (simp add: move_item_def nth_append)
    ultimately show ?thesis using True j keep [of a] keep [of "take j b"] keep [of "drop j b"] subs
      by (simp add: x_def [symmetric] nth_append)
  next
    case False
    then have "take i xs = take i a" "drop i xs = drop i a @ x # b" using xs by simp_all
    moreover have "move_item start i xs = take i a @ x # drop i a @ b"
      using xs False by (simp add: move_item_def nth_append)
    ultimately show ?thesis using False keep [of "take i a"] keep [of "drop i a"] keep [of b] subs
      by (simp add: x_def [symmetric] nth_append)
  qed
qed

lemma group_last_run:
  "i < e \<Longrightarrow> e \<le> length tabs \<Longrightarrow> \<forall>j. i \<le> j \<and> j < e \<longrightarrow> tab_kind (tabs ! j) = k \<Longrightarrow>
   e = length tabs \<or> tab_kind (tabs ! e) \<noteq> k \<Longrightarrow> group_last tabs k i = e - 1"
proof (induction tabs k i rule: group_last.induct)
  case (1 tabs k i)
  show ?case
  proof (cases "i + 1 < e")
    case True
    then have "i + 1 < length tabs \<and> tab_kind (tabs ! (i + 1)) = k" using "1.prems" by simp
    then show ?thesis using "1.IH" True "1.prems" by (subst group_last.simps) simp
  next
    case False
    then have "e = i + 1" using "1.prems" by simp
    then show ?thesis using "1.prems" by (subst group_last.simps) auto
  qed
qed

text \<open>In a bar the group of a kind is one stretch, and moving inside it keeps the bar's shape.\<close>

lemma bar_split: "bar tabs \<longleftrightarrow> (\<exists>S F. tabs = S @ F \<and> (\<forall>t\<in>set S. tab_kind t = SessionKind) \<and> (\<forall>t\<in>set F. tab_kind t = FilesKind))"
proof
  assume "bar tabs"
  then show "\<exists>S F. tabs = S @ F \<and> (\<forall>t\<in>set S. tab_kind t = SessionKind) \<and> (\<forall>t\<in>set F. tab_kind t = FilesKind)"
    unfolding bar_def by (intro exI conjI) (assumption, simp_all)
next
  assume "\<exists>S F. tabs = S @ F \<and> (\<forall>t\<in>set S. tab_kind t = SessionKind) \<and> (\<forall>t\<in>set F. tab_kind t = FilesKind)"
  then obtain S F where e: "tabs = S @ F" "\<forall>t\<in>set S. tab_kind t = SessionKind" "\<forall>t\<in>set F. tab_kind t = FilesKind"
    by blast
  then have "of_kind SessionKind S = S" "of_kind FilesKind S = []" "of_kind SessionKind F = []" "of_kind FilesKind F = F"
    by (auto simp: of_kind_def filter_id_conv filter_empty_conv)
  with e show "bar tabs" by (simp add: bar_def)
qed

definition stretch :: "workspace_tab list \<Rightarrow> kind \<Rightarrow> nat \<Rightarrow> nat \<Rightarrow> bool" where
  "stretch tabs k lo hi \<longleftrightarrow>
     hi \<le> length tabs \<and> (\<forall>j<length tabs. (lo \<le> j \<and> j < hi) = (tab_kind (tabs ! j) = k))"

lemma stretchD:
  "stretch tabs k lo hi \<Longrightarrow> hi \<le> length tabs"
  "stretch tabs k lo hi \<Longrightarrow> j < length tabs \<Longrightarrow> tab_kind (tabs ! j) = k \<longleftrightarrow> lo \<le> j \<and> j < hi"
  by (simp_all add: stretch_def)

lemma bar_stretch:
  assumes "tabs = S @ F" "\<forall>t\<in>set S. tab_kind t = SessionKind" "\<forall>t\<in>set F. tab_kind t = FilesKind"
  shows "stretch tabs SessionKind 0 (length S)" "stretch tabs FilesKind (length S) (length tabs)"
  using assms by (auto simp: stretch_def nth_append)

lemma stretch_bounds:
  assumes "stretch tabs k lo hi" "lo < hi"
  shows "find_index (\<lambda>t. tab_kind t = k) tabs = Some lo" "group_last tabs k lo = hi - 1"
proof -
  have at: "lo < length tabs" "tab_kind (tabs ! lo) = k"
    using assms stretchD [OF assms(1)] by simp_all
  then have "find_index (\<lambda>t. tab_kind t = k) tabs \<noteq> None" by (auto simp: find_index_None)
  then obtain i where i: "find_index (\<lambda>t. tab_kind t = k) tabs = Some i" by auto
  from find_index_Some [OF i] at assms have "i = lo"
    by (metis (mono_tags, lifting) linorder_neqE_nat not_less stretch_def)
  with i show "find_index (\<lambda>t. tab_kind t = k) tabs = Some lo" by simp
  show "group_last tabs k lo = hi - 1"
    by (rule group_last_run) (use assms stretchD [OF assms(1)] in \<open>auto simp: le_less\<close>)
qed

lemma move_append:
  "i < length xs \<Longrightarrow> j < length xs \<Longrightarrow> move_item i j (xs @ ys) = move_item i j xs @ ys"
  "i < length ys \<Longrightarrow> move_item (length xs + i) (length xs + j) (xs @ ys) = xs @ move_item i j ys"
  by (simp_all add: move_item_def Let_def nth_append)

lemma move_in_stretch:
  assumes "bar tabs" "i < length tabs" "stretch tabs (tab_kind (tabs ! i)) lo hi" "lo \<le> j" "j < hi"
  shows "bar (move_item i j tabs)"
proof -
  obtain S F where e: "tabs = S @ F" "\<forall>t\<in>set S. tab_kind t = SessionKind" "\<forall>t\<in>set F. tab_kind t = FilesKind"
    using assms(1) by (auto simp: bar_split)
  have j: "j < length tabs" "tab_kind (tabs ! j) = tab_kind (tabs ! i)"
    using assms(4, 5) stretchD [OF assms(3)] by simp_all
  show ?thesis
  proof (cases "i < length S")
    case True
    then have "j < length S" using e j by (force simp: nth_append split: if_splits)
    with True e show ?thesis
      unfolding bar_split by (intro exI [of _ "move_item i j S"] exI [of _ F]) (simp add: move_append)
  next
    case False
    then obtain a where a: "i = length S + a" "a < length F" using e assms(2) le_Suc_ex not_less by force
    have "length S \<le> j" using e j a by (force simp: nth_append split: if_splits)
    then obtain b where "j = length S + b" using le_Suc_ex by blast
    with a e show ?thesis
      unfolding bar_split by (intro exI [of _ S] exI [of _ "move_item a b F"]) (simp add: move_append)
  qed
qed

lemma kind_stretch:
  assumes "bar tabs" "i < length tabs"
  obtains lo hi where "stretch tabs (tab_kind (tabs ! i)) lo hi" "lo \<le> i" "i < hi"
proof -
  obtain S F where e: "tabs = S @ F" "\<forall>t\<in>set S. tab_kind t = SessionKind" "\<forall>t\<in>set F. tab_kind t = FilesKind"
    using assms(1) by (auto simp: bar_split)
  show ?thesis
  proof (cases "i < length S")
    case True
    then have "tab_kind (tabs ! i) = SessionKind" using e by (simp add: nth_append)
    then show ?thesis using that [of 0 "length S"] bar_stretch(1) [OF e] True by simp
  next
    case False
    then have "tab_kind (tabs ! i) = FilesKind" using e assms(2) by (simp add: nth_append)
    then show ?thesis using that [of "length S" "length tabs"] bar_stretch(2) [OF e] False assms(2) by simp
  qed
qed

lemma drop_index_range:
  "lo < hi \<Longrightarrow> lo \<le> i \<Longrightarrow> i < hi \<Longrightarrow> lo \<le> drop_index i lo (hi - 1) n \<and> drop_index i lo (hi - 1) n < hi"
  by (auto simp: drop_index_def Let_def min_def max_def)

text \<open>What a drag of the tab at position \<open>i\<close> does, in terms of its group.\<close>

lemma reorderTabs_in_group:
  assumes "distinct (map tab_id tabs)" "i < length tabs" "stretch tabs (tab_kind (tabs ! i)) lo hi" "lo \<le> i" "i < hi"
  shows "reorderTabs tabs (tab_id (tabs ! i)) n =
           (if drop_index i lo (hi - 1) n = i then None
            else Some (map tab_id (move_item i (drop_index i lo (hi - 1) n) tabs)))"
    and "canDropTabAt tabs (tab_id (tabs ! i)) n \<longleftrightarrow> int lo \<le> n \<and> n \<le> int hi"
proof -
  have at: "find_index (\<lambda>t. tab_id t = tab_id (tabs ! i)) tabs = Some i"
    using find_index_distinct [OF assms(1), of i] assms(2) by (simp add: find_index_map comp_def)
  have "lo < hi" using assms(4, 5) by simp
  note bounds = stretch_bounds [OF assms(3) this]
  show "reorderTabs tabs (tab_id (tabs ! i)) n =
           (if drop_index i lo (hi - 1) n = i then None
            else Some (map tab_id (move_item i (drop_index i lo (hi - 1) n) tabs)))"
    by (simp add: reorderTabs_def at bounds Let_def)
  have "find (\<lambda>t. tab_id t = tab_id (tabs ! i)) tabs \<noteq> None"
    unfolding find_None_all using nth_mem [OF assms(2)] by blast
  then obtain m where m: "find (\<lambda>t. tab_id t = tab_id (tabs ! i)) tabs = Some m" by auto
  then have "m \<in> set tabs" "tab_id m = tab_id (tabs ! i)" using find_Some_iff_ex by fast+
  then have "m = tabs ! i" using assms(1, 2) by (simp add: distinct_map inj_on_def)
  then show "canDropTabAt tabs (tab_id (tabs ! i)) n \<longleftrightarrow> int lo \<le> n \<and> n \<le> int hi"
    using m bounds \<open>lo < hi\<close> by (auto simp: canDropTabAt_def)
qed

lemma tab_at:
  assumes "f \<in> set (map tab_id tabs)"
  obtains i where "i < length tabs" "f = tab_id (tabs ! i)"
  using assms by (auto simp: in_set_conv_nth)

lemma canDrop_known: "canDropTabAt tabs f n \<Longrightarrow> f \<in> set (map tab_id tabs)"
  using find_Some_iff_ex [of "\<lambda>t. tab_id t = f" tabs] by (fastforce simp: canDropTabAt_def split: option.splits)

text \<open>The order a drop in gap \<open>n\<close> asks for.\<close>

definition in_gap :: "string list \<Rightarrow> string \<Rightarrow> nat \<Rightarrow> string list" where
  "in_gap ids f n = filter (\<lambda>i. i \<noteq> f) (take n ids) @ f # filter (\<lambda>i. i \<noteq> f) (drop n ids)"

text \<open>
  C19: On a bar drawn as the code draws it (the session tabs, then the files tabs: \<open>bar\<close>, which
  \<open>buildWorkspaceTabs_bar\<close> gives) and whose tabs have different ids, a drop the bar accepts while
  the drag is in the air lands in exactly the gap the pointer is at, with every other tab in its
  place; nothing is stored when that is where the tab already was; and the bar drawn from what is
  stored is the arrangement that was dropped, so no tab snaps back. The ids differ when no two
  sessions of the directory carry one tag; \<open>Folder_Order.worktree_tabs_share_an_id\<close> is a bar on
  which they do not.
\<close>

theorem drag_lands_and_stays:
  assumes "bar tabs" and "distinct (map tab_id tabs)" and "canDropTabAt tabs f (int n)"
  shows "reorderTabs tabs f (int n) =
           (if in_gap (map tab_id tabs) f n = map tab_id tabs then None else Some (in_gap (map tab_id tabs) f n))
         \<and> map tab_id (applyTabOrder tabs (in_gap (map tab_id tabs) f n)) = in_gap (map tab_id tabs) f n"
proof -
  let ?ids = "map tab_id tabs"
  obtain i where i: "i < length tabs" "f = tab_id (tabs ! i)"
    using canDrop_known [OF assms(3)] by (rule tab_at)
  obtain lo hi where s: "stretch tabs (tab_kind (tabs ! i)) lo hi" "lo \<le> i" "i < hi"
    using kind_stretch [OF assms(1) i(1)] by metis
  define d where "d = drop_index i lo (hi - 1) (int n)"
  have n: "lo \<le> n" "n \<le> hi" using assms(3) reorderTabs_in_group(2) [OF assms(2) i(1) s] i(2) by simp_all
  then have d: "d = (if n > i then n - 1 else n)" using s by (auto simp: d_def drop_index_def Let_def)
  have landed: "move_item i d ?ids = in_gap ?ids f n"
    using move_as_gap [OF assms(2), of i n] i n stretchD(1) [OF s(1)] unfolding d in_gap_def by simp
  have moved: "map tab_id (move_item i d tabs) = in_gap ?ids f n" using landed i(1) by (simp add: map_move)
  have "bar (move_item i d tabs)"
    by (rule move_in_stretch [OF assms(1) i(1) s(1)]) (use drop_index_range [of lo hi i] s in \<open>auto simp: d_def\<close>)
  moreover have "tabs \<noteq> []" using i(1) by auto
  ultimately have shown: "applyTabOrder tabs (in_gap ?ids f n) = move_item i d tabs"
    using applyTabOrder_own_ids [of "move_item i d tabs" tabs] assms(2) i(1) by (auto simp: moved)
  have "d < length ?ids" using drop_index_range [of lo hi i "int n"] s stretchD(1) [OF s(1)] by (simp add: d_def)
  then have "in_gap ?ids f n = ?ids \<longleftrightarrow> d = i"
    using move_fixed_iff [OF assms(2), of i d] i(1) landed by simp
  then show ?thesis
    using reorderTabs_in_group(1) [OF assms(2) i(1) s, of "int n"] i(2) moved shown unfolding d_def by simp
qed

definition sample_bar :: "workspace_tab list" where
  "sample_bar = buildWorkspaceTabs (\<lambda>_ _. 0) [(''main'', 5), (''build'', 2), (''Files'', 9)] [(''f1'', None), (''f2'', None)]"

theorem drag_lands_and_stays_witness:
  "reorderTabs sample_bar ''build'' 3 = Some [''main'', ''Files'', ''build'', ''f1'', ''f2'']
   \<and> map tab_id (applyTabOrder sample_bar [''main'', ''Files'', ''build'', ''f1'', ''f2'']) = [''main'', ''Files'', ''build'', ''f1'', ''f2'']"
proof -
  have ids: "in_gap (map tab_id sample_bar) ''build'' 3 = [''main'', ''Files'', ''build'', ''f1'', ''f2'']"
    "map tab_id sample_bar = [''build'', ''main'', ''Files'', ''f1'', ''f2'']"
    by code_simp+
  have hyps: "bar sample_bar" "distinct (map tab_id sample_bar)" "canDropTabAt sample_bar ''build'' (int 3)"
    by code_simp+
  show ?thesis using drag_lands_and_stays [OF hyps] by (simp add: ids(1)) (simp add: ids(2))
qed

text \<open>
  Closing the tab in front selects a tab that is on the bar and is not the closed one, and the
  one visited last among those; only a bar of nothing else leaves nothing selected.
\<close>

theorem close_selects_last_visited:
  assumes "active = None \<or> active = Some c"
  shows "case tabAfterClose tabs c active mru of
           None \<Rightarrow> set (map tab_id tabs) \<subseteq> {c}
         | Some i \<Rightarrow> i \<in> set (map tab_id tabs) \<and> i \<noteq> c
             \<and> (let visited = filter (\<lambda>j. j \<in> set (map tab_id tabs) \<and> j \<noteq> c) mru in visited \<noteq> [] \<longrightarrow> i = last visited)"
proof -
  let ?rest = "filter (\<lambda>t. tab_id t \<noteq> c) tabs" and ?live = "\<lambda>i. i \<in> tab_id ` set tabs \<and> i \<noteq> c"
  have live: "i \<in> tab_id ` {t \<in> set tabs. tab_id t \<noteq> c} \<longleftrightarrow> ?live i" for i by auto
  have found: "find P (rev xs) = (if filter P xs = [] then None else Some (last (filter P xs)))" for P and xs :: "string list"
    by (induction xs rule: rev_induct) auto
  have inside: "?live (tab_id t)" if "t \<in> set ?rest" for t using that by auto
  have none: "set (map tab_id tabs) \<subseteq> {c}" if "?rest = []" using that by (auto simp: filter_empty_conv)
  show ?thesis
  proof (cases "?rest = []")
    case True
    with assms none show ?thesis by (auto simp: tabAfterClose_def)
  next
    case False
    have ends: "?live (tab_id (hd ?rest))" "?live (tab_id (last ?rest))" "\<And>i. i < length ?rest \<Longrightarrow> ?live (tab_id (?rest ! i))"
      using inside hd_in_set [OF False] last_in_set [OF False] nth_mem by blast+
    have visited: "?live (last (filter ?live mru))" if "filter ?live mru \<noteq> []"
      using last_in_set [OF that] by simp
    show ?thesis
      using assms False ends visited
      by (auto simp: tabAfterClose_def Let_def found live split: option.split)
  qed
qed

theorem close_selects_last_visited_witness:
  "tabAfterClose sample_bar ''main'' (Some ''main'') [''f1'', ''build'', ''main''] = Some ''build''
   \<and> ''build'' \<in> set (map tab_id sample_bar)"
proof -
  have e: "tabAfterClose sample_bar ''main'' (Some ''main'') [''f1'', ''build'', ''main''] = Some ''build''" by code_simp
  show ?thesis using close_selects_last_visited [of "Some ''main''" "''main''" sample_bar "[''f1'', ''build'', ''main'']"] by (simp add: e)
qed

text \<open>Session names without a space, and each other, keep every label of the bar apart.\<close>

lemma bar_labels_distinct:
  assumes "\<forall>(name, created)\<in>set sessions. CHR '' '' \<notin> set name"
  shows "distinct (map tab_label (buildWorkspaceTabs collate sessions files))"
  unfolding buildWorkspaceTabs_def numberCollisions_def
  by (rule number_from_distinct) (use assms in \<open>auto simp: FILES_LABEL_def\<close>)

lemma buildWorkspaceTabs_bar: "bar (buildWorkspaceTabs collate sessions files)"
proof -
  define tabs where "tabs = buildWorkspaceTabs collate sessions files"
  have kinds: "tab_kind (tabs ! j) = (if j < length sessions then SessionKind else FilesKind)"
    if "j < length tabs" for j
  proof -
    have "map tab_kind tabs ! j = (replicate (length sessions) SessionKind @ replicate (length files) FilesKind) ! j"
      by (simp add: tabs_def buildWorkspaceTabs_kinds)
    moreover have "length tabs = length sessions + length files"
      using arg_cong [OF buildWorkspaceTabs_kinds [of collate sessions files], of length] by (simp add: tabs_def)
    ultimately show ?thesis using that by (simp add: nth_append)
  qed
  have "bar tabs"
    unfolding bar_split
    by (intro exI [of _ "take (length sessions) tabs"] exI [of _ "drop (length sessions) tabs"])
      (auto simp: in_set_conv_nth kinds)
  then show ?thesis by (simp add: tabs_def)
qed

text \<open>A tab the user never placed stands behind every placed one of its kind.\<close>

lemma unplaced_tab_is_last:
  assumes "t \<in> set tabs" "tab_kind t = k" "tab_id t \<notin> set order" "u \<in> set tabs" "tab_id u \<in> set order"
    and "ranked order (of_kind k tabs) = a @ u # b"
  shows "t \<notin> set a"
proof
  assume "t \<in> set a"
  moreover have "sorted (map (\<lambda>t. tabRank order (tab_id t)) (a @ u # b))"
    unfolding assms(6) [symmetric] ranked_def by (rule sorted_sort_key)
  ultimately have "tabRank order (tab_id t) \<le> tabRank order (tab_id u)" by (auto simp: sorted_append)
  moreover have "tabRank order (tab_id t) = \<infinity>"
    using assms(3) by (auto simp: tabRank_def find_index_None split: option.split dest: find_index_Some)
  moreover have "tabRank order (tab_id u) \<noteq> \<infinity>"
    using assms(5) by (auto simp: tabRank_def find_index_None split: option.split)
  ultimately show False by simp
qed

text \<open>\<open>pushMru\<close> and \<open>pruneTabIds\<close> keep the history free of repeats and of dead tabs.\<close>

lemma mru_distinct [simp]:
  "distinct mru \<Longrightarrow> distinct (pushMru mru i)" "distinct ids \<Longrightarrow> distinct (pruneTabIds ids tabs)"
  "set (pruneTabIds ids tabs) \<subseteq> set (map tab_id tabs)" "last (pushMru mru i) = i"
  by (auto simp: pushMru_def pruneTabIds_def)

end
