(* ===== verification/Folder_Order.thy ===== *)
theory Folder_Order
  imports Session_Panel Workspace_Tabs
begin

text \<open>
  The manual order of the panel's folders (src/packages/ui/src/app/folderOrder.ts), and the tab bar
  of the folder that is open (the bar of src/packages/ui/src/app/useWorkspaceTabs.ts).
\<close>

subsection \<open>The stored order\<close>

definition FOLDER_ORDER_MAX_HOSTS :: nat where "FOLDER_ORDER_MAX_HOSTS = 64"
definition FOLDER_ORDER_MAX_ROWS :: nat where "FOLDER_ORDER_MAX_ROWS = 512"

fun order_keys :: "string list \<Rightarrow> js list \<Rightarrow> string list" where
  "order_keys keys [] = keys"
| "order_keys keys (v # vs) =
     (if length keys \<ge> FOLDER_ORDER_MAX_ROWS then keys
      else order_keys (case v of Str k \<Rightarrow> if k = [] \<or> k \<in> set keys then keys else keys @ [k] | _ \<Rightarrow> keys) vs)"

fun order_hosts :: "(string \<times> string list) list \<Rightarrow> (string \<times> js) list \<Rightarrow> (string \<times> string list) list" where
  "order_hosts out [] = out"
| "order_hosts out ((host, value) # rest) =
     (if length out \<ge> FOLDER_ORDER_MAX_HOSTS then out
      else order_hosts
        (case value of
           Arr vs \<Rightarrow>
             (if host = [] then out
              else let keys = order_keys [] vs in if keys \<noteq> [] then AList.update host keys out else out)
         | _ \<Rightarrow> out) rest)"

definition normaliseFolderOrder :: "js \<Rightarrow> (string \<times> string list) list option" where
  "normaliseFolderOrder raw = (case raw of Obj entries \<Rightarrow> Some (order_hosts [] entries) | _ \<Rightarrow> None)"

lemma order_keys_ok:
  "distinct keys \<Longrightarrow> [] \<notin> set keys \<Longrightarrow> length keys \<le> FOLDER_ORDER_MAX_ROWS \<Longrightarrow>
     distinct (order_keys keys vs) \<and> [] \<notin> set (order_keys keys vs) \<and> length (order_keys keys vs) \<le> FOLDER_ORDER_MAX_ROWS"
  by (induction keys vs rule: order_keys.induct) (auto split: js.split)

definition order_ok :: "(string \<times> string list) list \<Rightarrow> bool" where
  "order_ok out \<longleftrightarrow>
     length out \<le> FOLDER_ORDER_MAX_HOSTS \<and> distinct (map fst out)
     \<and> list_all (\<lambda>(host, keys). host \<noteq> [] \<and> keys \<noteq> [] \<and> distinct keys \<and> [] \<notin> set keys
          \<and> length keys \<le> FOLDER_ORDER_MAX_ROWS) out"

lemma length_update_Suc: "length (AList.update k v m) \<le> Suc (length m)"
  by (induction m) auto

lemma order_hosts_ok: "order_ok out \<Longrightarrow> order_ok (order_hosts out entries)"
proof (induction out entries rule: order_hosts.induct)
  case (2 out host v rest)
  show ?case
  proof (cases "length out \<ge> FOLDER_ORDER_MAX_HOSTS")
    case False
    have "order_ok (case v of
           Arr vs \<Rightarrow>
             (if host = [] then out
              else let keys = order_keys [] vs in if keys \<noteq> [] then AList.update host keys out else out)
         | _ \<Rightarrow> out)"
    proof (cases v)
      case (Arr vs)
      have "length (AList.update host (order_keys [] vs) out) \<le> FOLDER_ORDER_MAX_HOSTS"
        using False length_update_Suc [of host "order_keys [] vs" out] by linarith
      then show ?thesis using Arr "2.prems" order_keys_ok [of "[]" vs]
        by (auto simp: order_ok_def Let_def distinct_update intro: alist_keeps)
    qed (use "2.prems" in simp_all)
    then show ?thesis using "2.IH" [OF False] False by simp
  qed (use "2.prems" in simp)
qed simp

text \<open>Whatever is in the settings file, what is kept is bounded and free of repeats.\<close>

lemma normaliseFolderOrder_ok: "normaliseFolderOrder raw = Some out \<Longrightarrow> order_ok out"
  using order_hosts_ok [of "[]"] by (cases raw) (auto simp: normaliseFolderOrder_def order_ok_def)

subsection \<open>The order on the panel\<close>

text \<open>\<open>new Map(order.map((key, i) => [key, i]))\<close>: the last position of a key.\<close>

definition folder_rank :: "string list \<Rightarrow> string \<Rightarrow> enat" where
  "folder_rank order key =
     (case find_index (\<lambda>k. k = key) (rev order) of
        None \<Rightarrow> \<infinity>
      | Some j \<Rightarrow> enat (length order - 1 - j))"

definition applyFolderOrder :: "session_root list \<Rightarrow> string list \<Rightarrow> session_root list" where
  "applyFolderOrder roots order =
     (if order = [] then roots
      else map (\<lambda>r. r\<lparr>sr_directories := sort_key (\<lambda>d. folder_rank order (sd_key d)) (sr_directories r)\<rparr>) roots)"

definition root_has :: "string \<Rightarrow> session_root \<Rightarrow> bool" where
  "root_has key r = list_ex (\<lambda>d. sd_key d = key) (sr_directories r)"

definition canDropFolderAt :: "session_root \<Rightarrow> string \<Rightarrow> int \<Rightarrow> bool" where
  "canDropFolderAt r fromKey toIndex \<longleftrightarrow>
     root_has fromKey r \<and> 0 \<le> toIndex \<and> toIndex \<le> int (length (sr_directories r))"

text \<open>\<open>root === owner\<close> is the first root that has the key, by its position.\<close>

definition reorderFolders :: "session_root list \<Rightarrow> string \<Rightarrow> int \<Rightarrow> string list option" where
  "reorderFolders roots fromKey toIndex =
     (case find_index (root_has fromKey) roots of
        None \<Rightarrow> None
      | Some o_at \<Rightarrow>
          let dirs = sr_directories (roots ! o_at) in
          case find_index (\<lambda>d. sd_key d = fromKey) dirs of
            None \<Rightarrow> None
          | Some start \<Rightarrow>
              let gap = nat (max 0 (min (int (length dirs)) toIndex));
                  dest = (if gap > start then gap - 1 else gap) in
              if dest = start then None
              else Some (map sd_key (concat ((map sr_directories roots)[o_at := move_item start dest dirs]))))"

subsection \<open>A drop shows what was dropped\<close>

lemma find_index_rev:
  "distinct xs \<Longrightarrow> i < length xs \<Longrightarrow> find_index (\<lambda>x. x = xs ! i) (rev xs) = Some (length xs - 1 - i)"
  using find_index_distinct [of "rev xs" "length xs - 1 - i"] by (simp add: rev_nth)

lemma folder_rank_nth: "distinct order \<Longrightarrow> i < length order \<Longrightarrow> folder_rank order (order ! i) = enat i"
  unfolding folder_rank_def by (simp add: find_index_rev)

lemma folder_rank_sorted: "distinct order \<Longrightarrow> sorted (map (folder_rank order) order)"
  by (auto simp: sorted_iff_nth_mono folder_rank_nth)

lemma folder_rank_inj: "distinct order \<Longrightarrow> inj_on (folder_rank order) (set order)"
  by (auto simp: inj_on_def in_set_conv_nth folder_rank_nth)

text \<open>A ranking that lists the folders of a root in some order, among others, puts them in it.\<close>

lemma ranked_as_listed:
  assumes "distinct (a @ map sd_key ys @ b)" "mset ys = mset xs"
  shows "sort_key (\<lambda>d. folder_rank (a @ map sd_key ys @ b) (sd_key d)) xs = ys"
proof (rule sort_key_unique)
  let ?order = "a @ map sd_key ys @ b"
  have same: "set ys = set xs" using assms(2) mset_eq_setD by blast
  have keys: "distinct (map sd_key ys)" using assms(1) by simp
  show "mset ys = mset xs" by (rule assms(2))
  show "distinct xs" using keys mset_eq_imp_distinct_iff [OF assms(2)] by (simp add: distinct_map)
  have "inj_on (folder_rank ?order) (sd_key ` set ys)"
    by (rule inj_on_subset [OF folder_rank_inj [OF assms(1)]]) auto
  then show "inj_on (\<lambda>d. folder_rank ?order (sd_key d)) (set xs)"
    using keys same comp_inj_on [of sd_key "set ys" "folder_rank ?order"] by (simp add: distinct_map comp_def)
  show "sorted (map (\<lambda>d. folder_rank ?order (sd_key d)) ys)"
    using folder_rank_sorted [OF assms(1)] by (simp add: sorted_append comp_def)
qed

definition panel_keys :: "session_root list \<Rightarrow> string list list" where
  "panel_keys roots = map (\<lambda>r. map sd_key (sr_directories r)) roots"

text \<open>The arrangement a drop in gap \<open>n\<close> of root \<open>o\<close> asks for.\<close>

definition folder_in_gap :: "session_root list \<Rightarrow> nat \<Rightarrow> string \<Rightarrow> nat \<Rightarrow> string list list" where
  "folder_in_gap roots o_at k n = (panel_keys roots)[o_at := in_gap (panel_keys roots ! o_at) k n]"

lemma applyFolderOrder_listed:
  assumes "distinct (concat (panel_keys roots'))" "list_all2 (\<lambda>r' r. mset (sr_directories r') = mset (sr_directories r)) roots' roots"
    and "concat (panel_keys roots') \<noteq> []"
  shows "panel_keys (applyFolderOrder roots (concat (panel_keys roots'))) = panel_keys roots'"
proof (rule nth_equalityI)
  let ?order = "concat (panel_keys roots')"
  have len: "length roots' = length roots" using assms(2) by (rule list_all2_lengthD)
  show "length (panel_keys (applyFolderOrder roots ?order)) = length (panel_keys roots')"
    using len by (simp add: panel_keys_def applyFolderOrder_def)
  fix i assume "i < length (panel_keys (applyFolderOrder roots ?order))"
  then have i: "i < length roots" "i < length roots'" using len by (simp_all add: panel_keys_def applyFolderOrder_def split: if_splits)
  let ?ks = "panel_keys roots'"
  have "?ks = take i ?ks @ ?ks ! i # drop (Suc i) ?ks"
    by (rule id_take_nth_drop) (simp add: panel_keys_def i)
  then have split: "?order = concat (take i ?ks) @ map sd_key (sr_directories (roots' ! i)) @ concat (drop (Suc i) ?ks)"
    using i by (metis append.assoc concat.simps(2) concat_append nth_map panel_keys_def)
  have "sort_key (\<lambda>d. folder_rank ?order (sd_key d)) (sr_directories (roots ! i)) = sr_directories (roots' ! i)"
    unfolding split
    by (rule ranked_as_listed) (use assms(1) split list_all2_nthD [OF assms(2) i(2)] in auto)
  then show "panel_keys (applyFolderOrder roots ?order) ! i = panel_keys roots' ! i"
    using i assms(3) by (auto simp: panel_keys_def applyFolderOrder_def)
qed

lemma panel_keys_update:
  "panel_keys (roots[i := r\<lparr>sr_directories := ds\<rparr>]) = (panel_keys roots)[i := map sd_key ds]"
  by (simp add: panel_keys_def map_update)

lemma root_has_iff: "root_has k r \<longleftrightarrow> k \<in> set (map sd_key (sr_directories r))"
  by (auto simp: root_has_def list_ex_iff)

lemma owner_unique:
  assumes "distinct (concat (panel_keys roots))" "i < length roots" "root_has k (roots ! i)"
  shows "find_index (root_has k) roots = Some i"
proof -
  have "find_index (root_has k) roots \<noteq> None" using assms(2, 3) unfolding find_index_None by auto
  then obtain j where j: "find_index (root_has k) roots = Some j" by auto
  then have hj: "j < length roots" "root_has k (roots ! j)" using find_index_Some by fast+
  have "k \<in> set (panel_keys roots ! i)" "k \<in> set (panel_keys roots ! j)"
    using assms(2, 3) hj by (simp_all add: panel_keys_def root_has_iff)
  then have "i = j"
    using concat_same_index [OF assms(1), of i j k] assms(2) hj(1) by (simp add: panel_keys_def)
  with j show ?thesis by simp
qed

text \<open>
  C22: A folder dropped on a gap of its own root lands in exactly that gap; the order stored keeps
  every other folder of every root where it was, and the panel drawn from it is the arrangement
  that was dropped.
\<close>

theorem folder_drop_lands_and_stays:
  assumes "distinct (concat (panel_keys roots))" and "o_at < length roots" and "canDropFolderAt (roots ! o_at) k (int n)"
  shows "reorderFolders roots k (int n) =
           (if folder_in_gap roots o_at k n = panel_keys roots then None else Some (concat (folder_in_gap roots o_at k n)))
         \<and> panel_keys (applyFolderOrder roots (concat (folder_in_gap roots o_at k n))) = folder_in_gap roots o_at k n"
proof -
  let ?dirs = "sr_directories (roots ! o_at)"
  have own: "root_has k (roots ! o_at)" "n \<le> length ?dirs" using assms(3) by (simp_all add: canDropFolderAt_def)
  have found: "find_index (root_has k) roots = Some o_at" by (rule owner_unique [OF assms(1, 2) own(1)])
  have dk: "distinct (map sd_key ?dirs)"
    using assms(1, 2) by (auto simp: panel_keys_def distinct_concat_iff)
  obtain i where i: "i < length ?dirs" "k = sd_key (?dirs ! i)"
    using own(1) by (auto simp: root_has_def list_ex_iff in_set_conv_nth)
  have at: "find_index (\<lambda>d. sd_key d = k) ?dirs = Some i"
    using find_index_distinct [OF dk, of i] i by (simp add: find_index_map comp_def)
  define d where "d = (if n > i then n - 1 else n)"
  define roots' where "roots' = roots[o_at := (roots ! o_at)\<lparr>sr_directories := move_item i d ?dirs\<rparr>]"
  have d: "d < length ?dirs" using i(1) own(2) by (auto simp: d_def)
  have at_o: "panel_keys roots ! o_at = map sd_key ?dirs" "o_at < length (panel_keys roots)"
    using assms(2) by (simp_all add: panel_keys_def)
  have ks': "panel_keys roots' = (panel_keys roots)[o_at := move_item i d (map sd_key ?dirs)]"
    using i(1) by (simp add: roots'_def panel_keys_update map_move)
  have ks: "panel_keys roots' = folder_in_gap roots o_at k n"
    using move_as_gap [OF dk, of i n] i own(2) unfolding ks' d_def folder_in_gap_def at_o(1) in_gap_def by simp
  have mset: "mset (concat (panel_keys roots')) = mset (concat (panel_keys roots))"
    unfolding ks' by (rule mset_concat_update [OF at_o(2)]) (use i(1) at_o(1) in simp)
  have "panel_keys (applyFolderOrder roots (concat (panel_keys roots'))) = panel_keys roots'"
  proof (rule applyFolderOrder_listed)
    show "distinct (concat (panel_keys roots'))" using mset_eq_imp_distinct_iff [OF mset] assms(1) by blast
    show "list_all2 (\<lambda>r' r. mset (sr_directories r') = mset (sr_directories r)) roots' roots"
      using i(1) assms(2) by (auto simp: roots'_def list_all2_conv_all_nth nth_list_update)
    have "k \<in> set (panel_keys roots ! o_at)" using i at_o(1) by simp
    then have "k \<in> set (concat (panel_keys roots))" using at_o(2) nth_mem by fastforce
    then show "concat (panel_keys roots') \<noteq> []" using mset_eq_setD [OF mset] by (metis empty_iff list.set(1))
  qed
  moreover have "d = i \<longleftrightarrow> panel_keys roots' = panel_keys roots"
    using move_fixed_iff [OF dk, of i d] i(1) d at_o unfolding ks' by (auto simp: list_update_same_conv)
  moreover have "reorderFolders roots k (int n) = (if d = i then None else Some (concat (panel_keys roots')))"
    using found at own(2) assms(2)
    by (auto simp: reorderFolders_def Let_def d_def roots'_def panel_keys_def map_update map_concat comp_def min_def max_def)
  ultimately show ?thesis by (simp add: ks)
qed

definition sample_panel :: "session_root list" where
  "sample_panel = groupSessionsIntoRoots sample_sessions (Some ''/home/me'') [''~/git'']"

theorem folder_drop_lands_and_stays_witness:
  "reorderFolders sample_panel ''~/git/a/web'' 0 =
     Some [''~/git/a/web'', ''~/git/web'', UNTRACKED_PATH @ char_of (0::nat) # ''git-lost'', ''/var/log'']
   \<and> panel_keys (applyFolderOrder sample_panel [''~/git/a/web'', ''~/git/web'', UNTRACKED_PATH @ char_of (0::nat) # ''git-lost'', ''/var/log''])
       = [[''~/git/a/web'', ''~/git/web'', UNTRACKED_PATH @ char_of (0::nat) # ''git-lost''], [''/var/log'']]"
proof -
  have hyps: "distinct (concat (panel_keys sample_panel))" "0 < length sample_panel"
    "canDropFolderAt (sample_panel ! 0) ''~/git/a/web'' (int 0)"
    by code_simp+
  have vals: "folder_in_gap sample_panel 0 ''~/git/a/web'' 0 \<noteq> panel_keys sample_panel"
    "folder_in_gap sample_panel 0 ''~/git/a/web'' 0
       = [[''~/git/a/web'', ''~/git/web'', UNTRACKED_PATH @ char_of (0::nat) # ''git-lost''], [''/var/log'']]"
    by code_simp+
  show ?thesis using folder_drop_lands_and_stays [OF hyps] vals by simp
qed

subsection \<open>The bar of the open folder\<close>

definition folder_bar ::
    "(string \<Rightarrow> string \<Rightarrow> int) \<Rightarrow> session_directory option \<Rightarrow> (string \<times> string option) list \<Rightarrow> string option \<Rightarrow> string list
       \<Rightarrow> workspace_tab list" where
  "folder_bar collate folder files folderPath order =
     applyTabOrder
       (buildWorkspaceTabs collate
         (map (\<lambda>r. (ss_name (row_session r), ss_created (row_session r))) (case folder of None \<Rightarrow> [] | Some d \<Rightarrow> sd_rows d))
         (map (\<lambda>(i, path). (i, case path of None \<Rightarrow> folderPath | Some p \<Rightarrow> Some p)) files))
       order"

definition active_tab :: "workspace_tab list \<Rightarrow> string option \<Rightarrow> workspace_tab option" where
  "active_tab tabs selected =
     (case find (\<lambda>t. Some (tab_id t) = selected) tabs of
        Some t \<Rightarrow> Some t
      | None \<Rightarrow> (case tabs of [] \<Rightarrow> None | t # _ \<Rightarrow> Some t))"

text \<open>The tab in front is one of the bar, and the selected one when it is there.\<close>

lemma active_tab_on_bar: "active_tab tabs selected = Some t \<Longrightarrow> t \<in> set tabs"
  by (auto simp: active_tab_def split: option.splits list.splits dest: find_Some_iff_ex)

text \<open>
  A worktree groups under its repository, so a folder can hold two sessions of different workspaces
  with one tag: their two tabs have one id.
\<close>

definition worktree_sessions :: "session_summary list" where
  "worktree_sessions =
     [sample_session ''main'' (Some ''/home/me/git/web''),
      (sample_session ''main'' (Some ''/home/me/git/web-fix''))\<lparr>ss_repoRoot := Some ''/home/me/git/web''\<rparr>]"

lemma worktree_tabs_share_an_id:
  "distinct (map session_identity worktree_sessions)
   \<and> map tab_id (folder_bar (\<lambda>_ _. 0)
        (directoryForSession (groupSessionsIntoRoots worktree_sessions (Some ''/home/me'') []) (worktree_sessions ! 0)) [] None [])
     = [''main'', ''main'']"
  by code_simp

end
