(* ===== verification/Workspace_Tree.thy ===== *)
theory Workspace_Tree
  imports Host_Cli_Catalog Session_Panel
begin

text \<open>
  Roots that the host registers (src/src/hostWorkspaceTree.ts): the host's rows and memberships
  folded into the panel, the user's order of the roots and the document it is kept in, and the check
  of a root the user types.
\<close>

subsection \<open>Rows and home\<close>

definition sessionSummaryFromHostRow :: "session_row \<Rightarrow> session_summary" where
  "sessionSummaryFromHostRow row =
     (let created = (case s_createdEpoch row of None \<Rightarrow> 0 | Some n \<Rightarrow> n) in
      \<lparr>ss_name = s_name row, ss_created = created,
       ss_activity = (case s_activityEpoch row of None \<Rightarrow> created | Some n \<Rightarrow> n),
       ss_attached = s_attached row, ss_path = s_workspace row, ss_backend = Some AplexerBackend,
       ss_workspace = s_workspace row, ss_agentKind = None, ss_repoRoot = None\<rparr>)"

definition ends_in :: "string \<Rightarrow> string \<Rightarrow> bool" where
  "ends_in s e \<longleftrightarrow> length e \<le> length s \<and> drop (length s - length e) s = e"

fun homeFromWorkspaceMemberships :: "workspace_row list \<Rightarrow> string option" where
  "homeFromWorkspaceMemberships [] = None"
| "homeFromWorkspaceMemberships (w # ws) =
     (let display = trimTrailingSlash (js_trim (ws_displayPath w)); path = trimTrailingSlash (js_trim (ws_path w)) in
      if \<not> starts_with path ''/'' then homeFromWorkspaceMemberships ws
      else if display = ''~'' then normaliseHome (Some path)
      else if \<not> starts_with display ''~/'' then homeFromWorkspaceMemberships ws
      else let tail = drop 1 display in
        if length path > length tail \<and> ends_in path tail
        then normaliseHome (Some (take (length path - length tail) path))
        else homeFromWorkspaceMemberships ws)"

subsection \<open>The order of the roots\<close>

definition root_key_of :: "string option \<Rightarrow> string \<Rightarrow> string" where
  "root_key_of home path = directoryKey (given (normaliseRootPath (Str path)) path) home"

definition first_of_key :: "string option \<Rightarrow> (string \<times> workspace_row) list \<Rightarrow> workspace_row \<Rightarrow> (string \<times> workspace_row) list" where
  "first_of_key home m w =
     (let key = root_key_of home (ws_path w) in if key \<in> set (map fst m) then m else m @ [(key, w)])"

fun take_ordered ::
    "string option \<Rightarrow> (string \<times> workspace_row) list \<Rightarrow> string list \<Rightarrow> workspace_row list \<times> (string \<times> workspace_row) list" where
  "take_ordered home m [] = ([], m)"
| "take_ordered home m (path # paths) =
     (let key = root_key_of home path in
      case map_of m key of
        None \<Rightarrow> take_ordered home m paths
      | Some w \<Rightarrow>
          (case take_ordered home (AList.delete key m) paths of (ordered, rest) \<Rightarrow> (w # ordered, rest)))"

definition orderWorkspaceMemberships :: "workspace_row list \<Rightarrow> string list \<Rightarrow> string option \<Rightarrow> workspace_row list" where
  "orderWorkspaceMemberships workspaces order home =
     (case take_ordered home (foldl (first_of_key home) [] workspaces) order of
        (ordered, rest) \<Rightarrow> ordered @ map snd rest)"

text \<open>The direction is \<open>-1\<close> or \<open>1\<close>.\<close>

definition moveWorkspaceRoot :: "workspace_row list \<Rightarrow> string \<Rightarrow> int \<Rightarrow> string list option" where
  "moveWorkspaceRoot ordered path direction =
     (let paths = map ws_path ordered in
      case find_index (\<lambda>p. p = path) paths of
        None \<Rightarrow> None
      | Some index \<Rightarrow>
          (let target = int index + direction in
           if target < 0 \<or> target \<ge> int (length paths) then None
           else Some (move_item index (nat target) paths)))"

record roots_projection =
  rp_home :: "string option"
  rp_registered :: "workspace_row list"
  rp_roots :: "session_root list"

definition projectWorkspaceRoots ::
    "session_summary list \<Rightarrow> workspace_row list \<Rightarrow> string list \<Rightarrow> string option \<Rightarrow> roots_projection" where
  "projectWorkspaceRoots sessions workspaces rootOrder home0 =
     (let home = (case normaliseHome home0 of
                    Some h \<Rightarrow> Some h
                  | None \<Rightarrow>
                      (case homeFromWorkspaceMemberships workspaces of
                         Some h \<Rightarrow> Some h
                       | None \<Rightarrow> inferHome (map ss_path sessions @ map (\<lambda>w. Some (ws_path w)) workspaces)));
          registered = orderWorkspaceMemberships workspaces rootOrder home in
      \<lparr>rp_home = home, rp_registered = registered,
       rp_roots = groupSessionsIntoRoots sessions home (map ws_path registered)\<rparr>)"

datatype root_refusal = NoPath | PathTooLong | NotARoot | AlreadyRoot string | TooManyRoots

definition validateWorkspaceRootInput ::
    "string \<Rightarrow> workspace_row list \<Rightarrow> string option \<Rightarrow> root_refusal + string" where
  "validateWorkspaceRootInput raw registered home =
     (let trimmed = js_trim raw in
      if trimmed = [] then Inl NoPath
      else if length trimmed > 4096 then Inl PathTooLong
      else case normaliseRootPath (Str trimmed) of
             None \<Rightarrow> Inl NotARoot
           | Some canonical \<Rightarrow>
               (let key = directoryKey canonical home in
                case find (\<lambda>w. root_key_of home (ws_path w) = key) registered of
                  Some w \<Rightarrow> Inl (AlreadyRoot (ws_displayPath w))
                | None \<Rightarrow> if length registered \<ge> SESSION_ROOTS_MAX then Inl TooManyRoots else Inr canonical))"

subsection \<open>The document of the orders\<close>

text \<open>The document's \<open>hosts\<close>, each with its \<open>rootOrder\<close>; the schema is always 1.\<close>

type_synonym root_orders = "(string \<times> string list) list"

datatype order_error = NotJson | UnsupportedFormat | MalformedHost | MalformedRoots | NoHostIdentity

definition emptyWorkspacePreferences :: root_orders where "emptyWorkspacePreferences = []"

definition isValidWorkspaceHostIdentity :: "string \<Rightarrow> bool" where
  "isValidWorkspaceHostIdentity value \<longleftrightarrow> js_trim value \<noteq> [] \<and> length value \<le> 256 \<and> \<not> has_control value"

definition valid_root_text :: "string \<Rightarrow> bool" where
  "valid_root_text value \<longleftrightarrow> js_trim value \<noteq> [] \<and> length value \<le> 4096 \<and> \<not> has_control value"

fun validRootIdentity :: "js \<Rightarrow> bool" where
  "validRootIdentity (Str s) = valid_root_text s"
| "validRootIdentity _ = False"

fun js_text :: "js \<Rightarrow> string" where
  "js_text (Str s) = s"
| "js_text _ = []"

definition read_root_order :: "js \<Rightarrow> string list option" where
  "read_root_order order =
     (case order of
        Arr vs \<Rightarrow>
          if length vs > SESSION_ROOTS_MAX * 4 \<or> \<not> list_all validRootIdentity vs \<or> \<not> distinct vs then None
          else Some (map js_text vs)
      | _ \<Rightarrow> None)"

fun read_hosts :: "root_orders \<Rightarrow> (string \<times> js) list \<Rightarrow> order_error + root_orders" where
  "read_hosts hosts [] = Inr hosts"
| "read_hosts hosts ((host, entry) # rest) =
     (if \<not> isValidWorkspaceHostIdentity host then Inl MalformedHost
      else case entry of
             Obj fs \<Rightarrow>
               (case read_root_order (get_prop fs ''rootOrder'') of
                  None \<Rightarrow> Inl MalformedRoots
                | Some order \<Rightarrow> read_hosts (AList.update host order hosts) rest)
           | _ \<Rightarrow> Inl MalformedHost)"

definition parseWorkspacePreferences :: "json_text option \<Rightarrow> order_error + root_orders" where
  "parseWorkspacePreferences raw =
     (case raw of
        None \<Rightarrow> Inr emptyWorkspacePreferences
      | Some None \<Rightarrow> Inl NotJson
      | Some (Some value) \<Rightarrow>
          (case value of
             Obj fs \<Rightarrow>
               (case (get_prop fs ''schemaVersion'', get_prop fs ''hosts'') of
                  (Num (IntN n), Obj hosts) \<Rightarrow> if n = 1 then read_hosts [] hosts else Inl UnsupportedFormat
                | _ \<Rightarrow> Inl UnsupportedFormat)
           | _ \<Rightarrow> Inl UnsupportedFormat))"

definition orders_js :: "root_orders \<Rightarrow> js" where
  "orders_js doc =
     Obj [(''schemaVersion'', Num (IntN 1)),
          (''hosts'', Obj (map (\<lambda>(h, order). (h, Obj [(''rootOrder'', Arr (map Str order))])) doc))]"

definition serializeWorkspacePreferences :: "root_orders \<Rightarrow> json_text" where
  "serializeWorkspacePreferences doc = json_stringify (orders_js doc)"

definition hostWorkspacePreferences :: "root_orders \<Rightarrow> string \<Rightarrow> string list" where
  "hostWorkspacePreferences doc host = given (map_of doc host) []"

definition withHostWorkspacePreferences :: "root_orders \<Rightarrow> string \<Rightarrow> string list \<Rightarrow> order_error + root_orders" where
  "withHostWorkspacePreferences doc host order =
     (if \<not> isValidWorkspaceHostIdentity host then Inl NoHostIdentity
      else Inr (AList.update host (js_uniq (filter valid_root_text order)) doc))"

definition seedHostWorkspacePreferences :: "root_orders \<Rightarrow> string \<Rightarrow> string list \<Rightarrow> order_error + root_orders" where
  "seedHostWorkspacePreferences doc host seed =
     (if map_of doc host \<noteq> None then Inr doc else withHostWorkspacePreferences doc host seed)"

subsection \<open>No root is lost or invented\<close>

lemma first_of_key_distinct:
  "distinct (map (root_key_of home \<circ> ws_path) ws) \<Longrightarrow> set (map fst m) \<inter> set (map (root_key_of home \<circ> ws_path) ws) = {} \<Longrightarrow>
     foldl (first_of_key home) m ws = m @ map (\<lambda>w. (root_key_of home (ws_path w), w)) ws"
proof (induction ws arbitrary: m)
  case (Cons w ws)
  have step: "first_of_key home m w = m @ [(root_key_of home (ws_path w), w)]"
    using Cons.prems(2) by (auto simp: first_of_key_def Let_def)
  have "foldl (first_of_key home) (first_of_key home m w) ws
      = first_of_key home m w @ map (\<lambda>w. (root_key_of home (ws_path w), w)) ws"
    by (rule Cons.IH) (use Cons.prems step in auto)
  then show ?case by (simp add: step)
qed simp

lemma set_delete_subset: "set (AList.delete k m) \<subseteq> set m"
  by (induction m) auto

lemma mset_delete: "distinct (map fst m) \<Longrightarrow> map_of m k = Some w \<Longrightarrow> add_mset w (mset (map snd (AList.delete k m))) = mset (map snd m)"
proof (induction m)
  case (Cons p m)
  show ?case
  proof (cases "fst p = k")
    case True
    then have "AList.delete k m = m" using Cons.prems(1) by (auto intro: delete_id)
    then show ?thesis using True Cons.prems by (cases p) simp
  next
    case False
    then show ?thesis using Cons by (cases p) auto
  qed
qed simp

lemma mset_take_ordered:
  "distinct (map fst m) \<Longrightarrow> take_ordered home m paths = (a, rest) \<Longrightarrow> mset (a @ map snd rest) = mset (map snd m)"
proof (induction home m paths arbitrary: a rest rule: take_ordered.induct)
  case (2 home m path paths)
  show ?case
  proof (cases "map_of m (root_key_of home path)")
    case None
    then show ?thesis using 2 by (simp add: Let_def)
  next
    case (Some w)
    obtain b r where b: "take_ordered home (AList.delete (root_key_of home path) m) paths = (b, r)"
      by (cases "take_ordered home (AList.delete (root_key_of home path) m) paths")
    then have "a = w # b" "rest = r" using "2.prems"(2) Some by (simp_all add: Let_def)
    moreover have "mset (b @ map snd r) = mset (map snd (AList.delete (root_key_of home path) m))"
      by (rule "2.IH"(2) [OF refl Some _ b]) (rule distinct_delete [OF "2.prems"(1)])
    ultimately show ?thesis using mset_delete [OF "2.prems"(1) Some] by simp
  qed
qed simp

text \<open>A total order of the roots is reproduced.\<close>

lemma take_ordered_all:
  "distinct (map fst m) \<Longrightarrow> mset (map snd m) = mset ys \<Longrightarrow> \<forall>(k, w)\<in>set m. k = root_key_of home (ws_path w) \<Longrightarrow>
     take_ordered home m (map ws_path ys) = (ys, [])"
proof (induction ys arbitrary: m)
  case (Cons y ys)
  let ?k = "root_key_of home (ws_path y)"
  have "y \<in># mset (map snd m)" using Cons.prems(2) by simp
  then have "y \<in> snd ` set m" by simp
  then have "(?k, y) \<in> set m" using Cons.prems(3) by fastforce
  then have y: "map_of m ?k = Some y" using Cons.prems(1) by simp
  have "take_ordered home (AList.delete ?k m) (map ws_path ys) = (ys, [])"
  proof (rule Cons.IH)
    show "distinct (map fst (AList.delete ?k m))" using Cons.prems(1) by (rule distinct_delete)
    show "mset (map snd (AList.delete ?k m)) = mset ys" using mset_delete [OF Cons.prems(1) y] Cons.prems(2) by simp
    show "\<forall>(k, w)\<in>set (AList.delete ?k m). k = root_key_of home (ws_path w)"
      using Cons.prems(3) set_delete_subset [of ?k m] by blast
  qed
  then show ?case using y by (simp add: Let_def)
qed simp

lemma order_as_listed:
  assumes "distinct (map (root_key_of home \<circ> ws_path) ws)" "mset ys = mset ws"
  shows "orderWorkspaceMemberships ws (map ws_path ys) home = ys"
proof -
  have m: "foldl (first_of_key home) [] ws = map (\<lambda>w. (root_key_of home (ws_path w), w)) ws"
    using first_of_key_distinct [OF assms(1), of "[]"] by simp
  have "take_ordered home (map (\<lambda>w. (root_key_of home (ws_path w), w)) ws) (map ws_path ys) = (ys, [])"
    by (rule take_ordered_all) (use assms in \<open>auto simp: comp_def\<close>)
  then show ?thesis by (simp add: orderWorkspaceMemberships_def m)
qed

lemma mset_orderWorkspaceMemberships:
  assumes "distinct (map (root_key_of home \<circ> ws_path) ws)"
  shows "mset (orderWorkspaceMemberships ws order home) = mset ws"
proof -
  have m: "foldl (first_of_key home) [] ws = map (\<lambda>w. (root_key_of home (ws_path w), w)) ws"
    using first_of_key_distinct [OF assms(1), of "[]"] by simp
  obtain a r where t: "take_ordered home (map (\<lambda>w. (root_key_of home (ws_path w), w)) ws) order = (a, r)"
    by (cases "take_ordered home (map (\<lambda>w. (root_key_of home (ws_path w), w)) ws) order")
  have "mset (a @ map snd r) = mset (map snd (map (\<lambda>w. (root_key_of home (ws_path w), w)) ws))"
    by (rule mset_take_ordered [OF _ t]) (use assms in \<open>simp add: comp_def\<close>)
  then show ?thesis by (simp add: orderWorkspaceMemberships_def m t comp_def)
qed

text \<open>
  Moving a root one step gives an order of exactly the registered roots, and the roots shown
  under the order that was saved are in it: no move loses a root, invents one or snaps back.
\<close>

theorem root_move_sticks:
  assumes "distinct (map (root_key_of home \<circ> ws_path) ws)"
    and "moveWorkspaceRoot (orderWorkspaceMemberships ws order home) path direction = Some paths"
  shows "map ws_path (orderWorkspaceMemberships ws paths home) = paths \<and> mset paths = mset (map ws_path ws)"
proof -
  let ?shown = "orderWorkspaceMemberships ws order home"
  obtain i j where i: "i < length ?shown" "paths = move_item i j (map ws_path ?shown)"
    using assms(2) by (auto simp: moveWorkspaceRoot_def Let_def split: option.splits if_splits dest!: find_index_Some)
  have paths: "paths = map ws_path (move_item i j ?shown)" using i by (simp add: map_move)
  have ms: "mset (move_item i j ?shown) = mset ws" using i(1) mset_orderWorkspaceMemberships [OF assms(1)] by simp
  have "orderWorkspaceMemberships ws paths home = move_item i j ?shown"
    unfolding paths by (rule order_as_listed [OF assms(1) ms])
  moreover have "mset paths = mset (map ws_path ws)" using ms paths by (metis mset_map)
  ultimately show ?thesis using paths by simp
qed

definition sample_roots :: "workspace_row list" where
  "sample_roots = [\<lparr>ws_path = ''/home/me/git'', ws_displayPath = ''~/git''\<rparr>, \<lparr>ws_path = ''/home/me/tmp'', ws_displayPath = ''~/tmp''\<rparr>,
                   \<lparr>ws_path = ''/srv'', ws_displayPath = ''/srv''\<rparr>]"

theorem root_move_sticks_witness:
  "map ws_path (orderWorkspaceMemberships sample_roots [''/srv'', ''/home/me/tmp'', ''/home/me/git''] (Some ''/home/me''))
     = [''/srv'', ''/home/me/tmp'', ''/home/me/git'']"
proof -
  have hyps: "distinct (map (root_key_of (Some ''/home/me'') \<circ> ws_path) sample_roots)"
    "moveWorkspaceRoot (orderWorkspaceMemberships sample_roots [''/srv''] (Some ''/home/me'')) ''/home/me/tmp'' (-1)
       = Some [''/srv'', ''/home/me/tmp'', ''/home/me/git'']"
    by code_simp+
  show ?thesis using root_move_sticks [OF hyps] by simp
qed

subsection \<open>The document is read back\<close>

definition order_valid :: "string list \<Rightarrow> bool" where
  "order_valid order \<longleftrightarrow> list_all valid_root_text order \<and> distinct order"

definition orders_valid :: "root_orders \<Rightarrow> bool" where
  "orders_valid doc \<longleftrightarrow> distinct (map fst doc)
     \<and> list_all (\<lambda>(h, order). isValidWorkspaceHostIdentity h \<and> order_valid order \<and> length order \<le> SESSION_ROOTS_MAX * 4) doc"

lemma js_text_Str: "map js_text (map Str order) = order"
  by (simp add: comp_def)

lemma read_root_order_js:
  "order_valid order \<Longrightarrow>
     read_root_order (Arr (map Str order)) = (if length order \<le> SESSION_ROOTS_MAX * 4 then Some order else None)"
  by (auto simp: read_root_order_def order_valid_def list_all_iff distinct_map inj_on_def comp_def)

lemma serialize_js:
  "serializeWorkspacePreferences doc = Some (orders_js doc)"
proof -
  have "json_norm_fields (map (\<lambda>(h, order). (h, Obj [(''rootOrder'', Arr (map Str order))])) doc)
      = map (\<lambda>(h, order). (h, Obj [(''rootOrder'', Arr (map Str order))])) doc"
    by (induction doc) (auto simp: json_norm_list_map)
  then show ?thesis by (simp add: serializeWorkspacePreferences_def json_stringify_def orders_js_def)
qed

lemma parse_orders_js:
  "parseWorkspacePreferences (Some (serializeWorkspacePreferences doc))
     = read_hosts [] (map (\<lambda>(h, order). (h, Obj [(''rootOrder'', Arr (map Str order))])) doc)"
  by (simp add: serialize_js parseWorkspacePreferences_def orders_js_def get_prop_def)

lemma read_hosts_js:
  "orders_valid doc \<Longrightarrow> set (map fst out) \<inter> set (map fst doc) = {} \<Longrightarrow>
     read_hosts out (map (\<lambda>(h, order). (h, Obj [(''rootOrder'', Arr (map Str order))])) doc) = Inr (out @ doc)"
proof (induction doc arbitrary: out)
  case (Cons p doc)
  obtain h order where p: "p = (h, order)" by (cases p)
  have "AList.update h order out = out @ [(h, order)]"
  proof -
    have "h \<notin> set (map fst out)" using Cons.prems(2) p by auto
    then show ?thesis by (induction out) auto
  qed
  then show ?case
    using Cons.IH [of "out @ [(h, order)]"] Cons.prems p
    by (auto simp: orders_valid_def read_root_order_js get_prop_def)
qed simp

lemma orders_roundtrip: "orders_valid doc \<Longrightarrow> parseWorkspacePreferences (Some (serializeWorkspacePreferences doc)) = Inr doc"
  unfolding parse_orders_js by (subst read_hosts_js) auto

lemma withHost_valid:
  assumes "orders_valid doc" "length order \<le> SESSION_ROOTS_MAX * 4" "withHostWorkspacePreferences doc host order = Inr doc'"
  shows "orders_valid doc'"
proof -
  have "length (js_uniq (filter valid_root_text order)) \<le> length (filter valid_root_text order)"
    using card_length [of "filter valid_root_text order"] distinct_card [of "js_uniq (filter valid_root_text order)"] by simp
  also have "\<dots> \<le> SESSION_ROOTS_MAX * 4" using assms(2) length_filter_le le_trans by blast
  finally have ok: "order_valid (js_uniq (filter valid_root_text order)) \<and> length (js_uniq (filter valid_root_text order)) \<le> SESSION_ROOTS_MAX * 4"
    by (simp add: order_valid_def list_all_iff)
  have d: "doc' = AList.update host (js_uniq (filter valid_root_text order)) doc" "isValidWorkspaceHostIdentity host"
    using assms(3) by (auto simp: withHostWorkspacePreferences_def split: if_splits)
  show ?thesis
    unfolding orders_valid_def d(1)
  proof (intro conjI list_all_update)
    show "distinct (map fst (AList.update host (js_uniq (filter valid_root_text order)) doc))"
      using assms(1) by (simp add: orders_valid_def distinct_update)
    show "list_all (\<lambda>(h, order). isValidWorkspaceHostIdentity h \<and> order_valid order \<and> length order \<le> SESSION_ROOTS_MAX * 4) doc"
      using assms(1) by (simp add: orders_valid_def)
    show "case (host, js_uniq (filter valid_root_text order)) of
        (h, order) \<Rightarrow> isValidWorkspaceHostIdentity h \<and> order_valid order \<and> length order \<le> SESSION_ROOTS_MAX * 4"
      using ok d(2) by simp
  qed
qed

text \<open>
  The reader refuses a list of more than 128 roots, the writer does not: an order of that many roots
  is saved, and on the next start the whole document counts as unreadable.
\<close>

lemma long_order_is_written_and_refused:
  assumes "order_valid order" "length order > SESSION_ROOTS_MAX * 4" "isValidWorkspaceHostIdentity host"
  shows "withHostWorkspacePreferences [] host order = Inr [(host, order)]
       \<and> parseWorkspacePreferences (Some (serializeWorkspacePreferences [(host, order)])) = Inl MalformedRoots"
proof -
  have "filter valid_root_text order = order" using assms(1) by (auto simp: order_valid_def list_all_iff filter_id_conv)
  then show ?thesis
    using assms by (simp add: withHostWorkspacePreferences_def parse_orders_js read_root_order_js get_prop_def order_valid_def)
qed

end
