(* ===== verification/Workspace_Roots.thy ===== *)
theory Workspace_Roots
  imports Workspace_Tree
begin

text \<open>
  The registered roots of the selected host, kept in step with the host
  (src/src/hostWorkspaceRoots.ts): the stored order and the record of restored hosts, and
  \<open>HostWorkspaceRoots\<close>, whose calls wait on the host while the user selects, adds, removes and
  moves.

  A call that waits is a task: what it waits for, and the frames of the calls that wait for it in
  turn. The only frame that does anything when it is reached again is the \<open>finally\<close> of a
  registration change. Listeners and messages are not modelled beyond the state they read; a write
  to the storage area succeeds, except where the code handles its failure (\<open>moveRoot\<close>).
\<close>

subsection \<open>The stores\<close>

definition ALL_HOSTS_RESTORED :: string where "ALL_HOSTS_RESTORED = ''*''"

text \<open>The record in storage: absent, a list of hosts, or something else.\<close>

datatype restored_record = NoRecord | Restored "string list" | Unreadable

definition read_record :: "json_text option \<Rightarrow> restored_record" where
  "read_record raw =
     (case raw of
        None \<Rightarrow> NoRecord
      | Some (Some (Arr vs)) \<Rightarrow>
          if list_all (\<lambda>v. case v of Str _ \<Rightarrow> True | _ \<Rightarrow> False) vs then Restored (map js_text vs) else Unreadable
      | _ \<Rightarrow> Unreadable)"

text \<open>The ledger when it is built: an unreadable record is kept beside and closed, if that works.\<close>

definition open_ledger :: "restored_record \<Rightarrow> bool \<Rightarrow> restored_record \<times> bool" where
  "open_ledger r writable =
     (case r of
        Unreadable \<Rightarrow> (if writable then Restored [ALL_HOSTS_RESTORED] else Unreadable, True)
      | _ \<Rightarrow> (r, False))"

fun ledger_has :: "restored_record \<Rightarrow> string \<Rightarrow> bool" where
  "ledger_has NoRecord host = False"
| "ledger_has (Restored hosts) host = (ALL_HOSTS_RESTORED \<in> set hosts \<or> host \<in> set hosts)"
| "ledger_has Unreadable host = True"

fun ledger_add :: "restored_record \<Rightarrow> string \<Rightarrow> restored_record" where
  "ledger_add NoRecord host = Restored [host]"
| "ledger_add (Restored hosts) host =
     (if ALL_HOSTS_RESTORED \<in> set hosts \<or> host \<in> set hosts then Restored hosts else Restored (hosts @ [host]))"
| "ledger_add Unreadable host = Unreadable"

text \<open>The order store when it is built: an unreadable document is kept beside and the order starts fresh.\<close>

definition load_orders :: "json_text option \<Rightarrow> root_orders \<times> bool" where
  "load_orders raw =
     (case parseWorkspacePreferences raw of Inr d \<Rightarrow> (d, False) | Inl _ \<Rightarrow> (emptyWorkspacePreferences, True))"

definition keep_order :: "root_orders \<Rightarrow> order_error + root_orders \<Rightarrow> root_orders" where
  "keep_order doc r = (case r of Inr d \<Rightarrow> d | Inl _ \<Rightarrow> doc)"

subsection \<open>State\<close>

datatype roots_status = RootsIdle | RootsLoading | RootsReady | RootsFailed

record roots_view =
  rv_host :: "string option"
  rv_status :: roots_status
  rv_memberships :: "workspace_row list option"
  rv_error :: "string option"
  rv_mutating :: bool
  rv_mutationError :: "string option"
  rv_notice :: "string option"
  rv_rootOrder :: "string list"

text \<open>A selection: the host, its connection, and what a previous client kept for it.\<close>

record roots_selection =
  sl_host :: string
  sl_connection :: nat
  sl_previous :: "(string list \<times> string list) option"

datatype roots_frame = Finally nat nat

datatype roots_change = AddRootOf string | RemoveRootOf string

text \<open>
  What a task waits for: a listing with the epoch, generation and sequence it was sent at; the
  answer to an add or a remove with the epoch and the number of its operation; or the answer to one
  add of a restore, with the adds still to come, the last listing and how many there are.
\<close>

datatype roots_wait =
    ListWait roots_selection nat nat nat
  | ChangeWait roots_selection nat nat roots_change
  | RestoreWait roots_selection nat nat string "string list" "workspace_row list" nat

record roots_task =
  rt_wait :: roots_wait
  rt_frames :: "roots_frame list"

record roots_state =
  rs_view :: roots_view
  rs_selection :: "roots_selection option"
  rs_epoch :: nat
  rs_generation :: nat
  rs_operation :: "(nat \<times> nat) option"
  rs_nextOperation :: nat
  rs_listSequence :: nat
  rs_restoreDue :: bool
  rs_relistAfter :: bool
  rs_restoreErrorShown :: bool
  rs_orders :: root_orders
  rs_ledger :: restored_record
  rs_ledgerError :: bool
  rs_tasks :: "(nat \<times> roots_task) list"
  rs_nextTask :: nat

definition emptyState :: "string option \<Rightarrow> string list \<Rightarrow> roots_view" where
  "emptyState host order =
     \<lparr>rv_host = host, rv_status = RootsIdle, rv_memberships = None, rv_error = None, rv_mutating = False,
      rv_mutationError = None, rv_notice = None, rv_rootOrder = order\<rparr>"

definition new_roots :: "root_orders \<Rightarrow> restored_record \<Rightarrow> bool \<Rightarrow> roots_state" where
  "new_roots orders ledger writable =
     \<lparr>rs_view = emptyState None [], rs_selection = None, rs_epoch = 0, rs_generation = 0, rs_operation = None,
      rs_nextOperation = 0, rs_listSequence = 0, rs_restoreDue = False, rs_relistAfter = False,
      rs_restoreErrorShown = False, rs_orders = orders, rs_ledger = fst (open_ledger ledger writable),
      rs_ledgerError = snd (open_ledger ledger writable), rs_tasks = [], rs_nextTask = 0\<rparr>"

definition roots_busy :: "roots_state \<Rightarrow> bool" where
  "roots_busy s \<longleftrightarrow> (case rs_operation s of None \<Rightarrow> False | Some (_, e) \<Rightarrow> e = rs_epoch s)"

definition set_view :: "(roots_view \<Rightarrow> roots_view) \<Rightarrow> roots_state \<Rightarrow> roots_state" where
  "set_view f s = s\<lparr>rs_view := f (rs_view s)\<rparr>"

definition wait_for :: "roots_wait \<Rightarrow> roots_frame list \<Rightarrow> roots_state \<Rightarrow> roots_state" where
  "wait_for w frames s =
     s\<lparr>rs_tasks := rs_tasks s @ [(rs_nextTask s, \<lparr>rt_wait = w, rt_frames = frames\<rparr>)], rs_nextTask := rs_nextTask s + 1\<rparr>"

subsection \<open>Listings and the lock\<close>

definition send_list :: "roots_selection \<Rightarrow> roots_frame list \<Rightarrow> roots_state \<Rightarrow> roots_state" where
  "send_list sel frames s =
     (let n = rs_listSequence s + 1 in
      wait_for (ListWait sel (rs_epoch s) (rs_generation s) n) frames
        (set_view (\<lambda>v. v\<lparr>rv_status := RootsLoading, rv_error := None\<rparr>) (s\<lparr>rs_listSequence := n\<rparr>)))"

text \<open>The \<open>finally\<close> of \<open>locked\<close> and the re-read it may owe, then the calls further out.\<close>

fun return_to :: "roots_frame list \<Rightarrow> roots_state \<Rightarrow> roots_state" where
  "return_to [] s = s"
| "return_to (Finally op e # frames) s =
     (let s1 = s\<lparr>rs_generation := rs_generation s + 1,
                 rs_operation := (if rs_operation s = Some (op, e) then None else rs_operation s)\<rparr> in
      if e \<noteq> rs_epoch s1 then return_to frames s1
      else
        let s2 = set_view (\<lambda>v. v\<lparr>rv_mutating := False\<rparr>) s1 in
        if \<not> rs_relistAfter s2 \<or> roots_busy s2 then return_to frames s2
        else
          let s3 = s2\<lparr>rs_relistAfter := False\<rparr> in
          case rs_selection s3 of
            None \<Rightarrow> return_to frames s3
          | Some sel \<Rightarrow> send_list sel frames s3)"

definition list_roots :: "roots_frame list \<Rightarrow> roots_state \<Rightarrow> roots_state" where
  "list_roots frames s =
     (case rs_selection s of None \<Rightarrow> return_to frames s | Some sel \<Rightarrow> send_list sel frames s)"

text \<open>\<open>locked\<close>: take the lock and wait with \<open>w\<close>, which is given the operation's number.\<close>

definition locked :: "(nat \<Rightarrow> roots_wait) \<Rightarrow> roots_frame list \<Rightarrow> roots_state \<Rightarrow> roots_state" where
  "locked w frames s =
     (let op = rs_nextOperation s in
      wait_for (w op) (Finally op (rs_epoch s) # frames)
        (set_view (\<lambda>v. v\<lparr>rv_mutating := True\<rparr>)
          (s\<lparr>rs_operation := Some (op, rs_epoch s), rs_nextOperation := op + 1, rs_generation := rs_generation s + 1\<rparr>)))"

definition settleSuperseded :: "roots_selection \<Rightarrow> roots_frame list \<Rightarrow> roots_state \<Rightarrow> roots_state" where
  "settleSuperseded sel frames s =
     (if map_option sl_host (rs_selection s) \<noteq> Some (sl_host sel) then return_to frames s
      else if roots_busy s then return_to frames (s\<lparr>rs_relistAfter := True\<rparr>)
      else list_roots frames s)"

subsection \<open>The one-time restore\<close>

definition missing_roots :: "workspace_row list \<Rightarrow> string list \<Rightarrow> string list" where
  "missing_roots memberships roots =
     (let home = homeFromWorkspaceMemberships memberships in
      filter (\<lambda>r. root_key_of home r \<notin> set (map (root_key_of home \<circ> ws_path) memberships)) roots)"

definition seed_order :: "string \<Rightarrow> string list \<Rightarrow> roots_state \<Rightarrow> roots_state" where
  "seed_order host order s =
     (if map_of (rs_orders s) host \<noteq> None then s
      else let doc = keep_order (rs_orders s) (seedHostWorkspacePreferences (rs_orders s) host order) in
        set_view (\<lambda>v. v\<lparr>rv_rootOrder := hostWorkspacePreferences doc host\<rparr>) (s\<lparr>rs_orders := doc\<rparr>))"

text \<open>
  Messages are abbreviated to what tells them apart. The exception of a seed for something that is no
  host identity ends the call.
\<close>

definition restorePrevious :: "roots_selection \<Rightarrow> workspace_row list \<Rightarrow> roots_frame list \<Rightarrow> roots_state \<Rightarrow> roots_state" where
  "restorePrevious sel memberships frames s =
     (case sl_previous sel of
        None \<Rightarrow> return_to frames s
      | Some (roots, order) \<Rightarrow>
          if map_of (rs_orders s) (sl_host sel) = None \<and> \<not> isValidWorkspaceHostIdentity (sl_host sel)
          then return_to frames s
          else
          let s1 = seed_order (sl_host sel) order s in
          if rs_ledgerError s1 \<and> \<not> rs_restoreErrorShown s1
          then return_to frames
                 (set_view (\<lambda>v. v\<lparr>rv_mutationError := Some ''unreadable restore record''\<rparr>) (s1\<lparr>rs_restoreErrorShown := True\<rparr>))
          else if ledger_has (rs_ledger s1) (sl_host sel) then return_to frames s1
          else
            case missing_roots memberships roots of
              [] \<Rightarrow> return_to frames (s1\<lparr>rs_ledger := ledger_add (rs_ledger s1) (sl_host sel)\<rparr>)
            | r # rest \<Rightarrow>
                locked (\<lambda>op. RestoreWait sel (rs_epoch s1) op r rest memberships (length (r # rest))) frames s1)"

subsection \<open>Answers\<close>

definition listing_answer ::
    "roots_selection \<Rightarrow> nat \<Rightarrow> nat \<Rightarrow> nat \<Rightarrow> roots_frame list \<Rightarrow> string + workspace_row list \<Rightarrow> roots_state \<Rightarrow> roots_state" where
  "listing_answer sel e g n frames answer s =
     (if e \<noteq> rs_epoch s \<or> n \<noteq> rs_listSequence s then return_to frames s
      else case answer of
        Inl err \<Rightarrow> return_to frames (set_view (\<lambda>v. v\<lparr>rv_status := RootsFailed, rv_error := Some err\<rparr>) s)
      | Inr ws \<Rightarrow>
          if roots_busy s then return_to frames (s\<lparr>rs_relistAfter := True\<rparr>)
          else if g \<noteq> rs_generation s then list_roots frames s
          else
            let s1 = set_view (\<lambda>v. v\<lparr>rv_status := RootsReady, rv_memberships := Some ws, rv_error := None\<rparr>) s in
            if rs_restoreDue s1 then restorePrevious sel ws frames (s1\<lparr>rs_restoreDue := False\<rparr>)
            else return_to frames s1)"

definition change_answer ::
    "roots_selection \<Rightarrow> nat \<Rightarrow> roots_change \<Rightarrow> roots_frame list \<Rightarrow> string + workspace_row list \<Rightarrow> roots_state \<Rightarrow> roots_state" where
  "change_answer sel e c frames answer s =
     (if e \<noteq> rs_epoch s then settleSuperseded sel frames s
      else case answer of
        Inr ws \<Rightarrow>
          return_to frames
            (set_view (\<lambda>v. v\<lparr>rv_memberships := Some ws, rv_status := RootsReady, rv_error := None,
                        rv_notice := Some (case c of AddRootOf p \<Rightarrow> ''Added '' @ p | RemoveRootOf p \<Rightarrow> ''Removed '' @ p)\<rparr>) s)
      | Inl err \<Rightarrow> return_to frames (set_view (\<lambda>v. v\<lparr>rv_mutationError := Some err\<rparr>) s))"

definition restore_answer ::
    "roots_selection \<Rightarrow> nat \<Rightarrow> nat \<Rightarrow> string list \<Rightarrow> workspace_row list \<Rightarrow> nat \<Rightarrow> roots_frame list
       \<Rightarrow> string + workspace_row list \<Rightarrow> roots_state \<Rightarrow> roots_state" where
  "restore_answer sel e op rest latest many frames answer s =
     (if e \<noteq> rs_epoch s then settleSuperseded sel frames s
      else case answer of
        Inr ws \<Rightarrow>
          (case rest of
             r # rest' \<Rightarrow> wait_for (RestoreWait sel e op r rest' ws many) frames s
           | [] \<Rightarrow>
               return_to frames
                 (set_view (\<lambda>v. v\<lparr>rv_memberships := Some ws, rv_notice := Some (''Restored '' @ show_nat many)\<rparr>)
                   (s\<lparr>rs_ledger := ledger_add (rs_ledger s) (sl_host sel)\<rparr>)))
      | Inl err \<Rightarrow>
          return_to frames (set_view (\<lambda>v. v\<lparr>rv_memberships := Some latest, rv_mutationError := Some err\<rparr>) s))"

definition answer_task :: "roots_task \<Rightarrow> string + workspace_row list \<Rightarrow> roots_state \<Rightarrow> roots_state" where
  "answer_task t answer s =
     (case rt_wait t of
        ListWait sel e g n \<Rightarrow> listing_answer sel e g n (rt_frames t) answer s
      | ChangeWait sel e op c \<Rightarrow> change_answer sel e c (rt_frames t) answer s
      | RestoreWait sel e op r rest latest many \<Rightarrow> restore_answer sel e op rest latest many (rt_frames t) answer s)"

subsection \<open>The user's calls\<close>

definition refresh :: "roots_state \<Rightarrow> roots_state" where
  "refresh s = (if rs_selection s = None then s else list_roots [] (s\<lparr>rs_restoreDue := True\<rparr>))"

definition select_host :: "roots_selection option \<Rightarrow> roots_state \<Rightarrow> roots_state" where
  "select_host selection s =
     (let s1 = s\<lparr>rs_selection := selection, rs_epoch := rs_epoch s + 1, rs_relistAfter := False, rs_restoreDue := False\<rparr> in
      case selection of
        None \<Rightarrow> s1\<lparr>rs_view := emptyState None []\<rparr>
      | Some sel \<Rightarrow>
          if map_option sl_host (rs_selection s) \<noteq> Some (sl_host sel)
          then refresh (s1\<lparr>rs_view := emptyState (Some (sl_host sel)) (hostWorkspacePreferences (rs_orders s1) (sl_host sel))\<rparr>)
          else refresh (set_view (\<lambda>v. v\<lparr>rv_mutating := False, rv_mutationError := None, rv_notice := None\<rparr>) s1))"

definition shown_memberships :: "roots_state \<Rightarrow> workspace_row list" where
  "shown_memberships s = given (rv_memberships (rs_view s)) []"

definition view_home :: "string option \<Rightarrow> roots_state \<Rightarrow> string option" where
  "view_home home s = (case home of Some h \<Rightarrow> Some h | None \<Rightarrow> homeFromWorkspaceMemberships (shown_memberships s))"

definition mutate_roots :: "roots_selection \<Rightarrow> roots_change \<Rightarrow> roots_state \<Rightarrow> roots_state" where
  "mutate_roots sel c s =
     (let s1 = set_view (\<lambda>v. v\<lparr>rv_mutationError := None, rv_notice := None\<rparr>) s in
      locked (\<lambda>op. ChangeWait sel (rs_epoch s1) op c) [] s1)"

definition addRoot :: "string \<Rightarrow> string option \<Rightarrow> roots_state \<Rightarrow> roots_state" where
  "addRoot raw home s =
     (case rs_selection s of
        None \<Rightarrow> s
      | Some sel \<Rightarrow>
          if roots_busy s then s
          else case validateWorkspaceRootInput raw (shown_memberships s) (view_home home s) of
                 Inl _ \<Rightarrow> set_view (\<lambda>v. v\<lparr>rv_mutationError := Some ''not a new root'', rv_notice := None\<rparr>) s
               | Inr path \<Rightarrow> mutate_roots sel (AddRootOf path) s)"

definition removeRoot :: "string \<Rightarrow> roots_state \<Rightarrow> roots_state" where
  "removeRoot path s =
     (case rs_selection s of
        None \<Rightarrow> s
      | Some sel \<Rightarrow> if roots_busy s then s else mutate_roots sel (RemoveRootOf path) s)"

definition ordered :: "string option \<Rightarrow> roots_state \<Rightarrow> workspace_row list" where
  "ordered home s = orderWorkspaceMemberships (shown_memberships s) (rv_rootOrder (rs_view s)) (view_home home s)"

text \<open>\<open>stored\<close>: whether the storage area took the new order.\<close>

definition moveRoot :: "string \<Rightarrow> int \<Rightarrow> string option \<Rightarrow> bool \<Rightarrow> roots_state \<Rightarrow> roots_state" where
  "moveRoot path direction home stored s =
     (case rv_host (rs_view s) of
        None \<Rightarrow> s
      | Some host \<Rightarrow>
          if host = [] \<or> rv_memberships (rs_view s) = None then s
          else case moveWorkspaceRoot (ordered home s) path direction of
                 None \<Rightarrow> s
               | Some next_order \<Rightarrow>
                   let s1 = s\<lparr>rs_generation := rs_generation s + 2\<rparr> in
                   case withHostWorkspacePreferences (rs_orders s1) host next_order of
                     Inl _ \<Rightarrow> set_view (\<lambda>v. v\<lparr>rv_mutationError := Some ''order not saved''\<rparr>) s1
                   | Inr doc \<Rightarrow>
                       if \<not> stored then set_view (\<lambda>v. v\<lparr>rv_mutationError := Some ''order not saved''\<rparr>) s1
                       else set_view (\<lambda>v. v\<lparr>rv_rootOrder := hostWorkspacePreferences doc host\<rparr>) (s1\<lparr>rs_orders := doc\<rparr>))"

definition clearMessages :: "roots_state \<Rightarrow> roots_state" where
  "clearMessages s = set_view (\<lambda>v. v\<lparr>rv_mutationError := None, rv_notice := None\<rparr>) s"

end
