(* ===== verification/Workspace_Sync.thy ===== *)
theory Workspace_Sync
  imports Workspace_Roots
begin

text \<open>
  The roots and the host they are read from. The host runs a request at some moment between the call
  and its answer, answers arrive in any order, connections are replaced while calls are in flight.
  A call may fail before the host has run it or after, and the host's registrations may be changed by
  someone else at any moment (another device, the CLI, a request run after its call was given up).
  \<open>sy_away\<close> and \<open>sy_lost\<close> are not state of the program: they note when the latter happened and when
  the answer to a change the host had made was lost on the current connection. What is proved:
  whenever nothing is in flight and neither has happened since the list was last asked for (or, for a
  change by someone else, since the host was selected), a view that says it is ready shows what the
  host has registered; and there is one registration change at a time.
\<close>

subsection \<open>The system\<close>

record roots_system =
  sy_roots :: roots_state
  sy_registered :: "string \<Rightarrow> workspace_row list"
  sy_answers :: "nat \<Rightarrow> workspace_row list option"
  sy_away :: "nat option"
  sy_lost :: "nat option"

datatype roots_event =
    SelectHost "roots_selection option"
  | RefreshNow
  | AddNow string "string option"
  | RemoveNow string
  | MoveNow string int "string option" bool
  | ClearNow
  | HostRuns nat
  | Deliver nat
  | Fails nat string
  | Elsewhere string "workspace_row list"

fun wait_selection :: "roots_wait \<Rightarrow> roots_selection" where
  "wait_selection (ListWait sel e g n) = sel"
| "wait_selection (ChangeWait sel e op c) = sel"
| "wait_selection (RestoreWait sel e op r rest latest many) = sel"

fun wait_epoch :: "roots_wait \<Rightarrow> nat" where
  "wait_epoch (ListWait sel e g n) = e"
| "wait_epoch (ChangeWait sel e op c) = e"
| "wait_epoch (RestoreWait sel e op r rest latest many) = e"

text \<open>The change a wait has asked the host for.\<close>

fun wait_change :: "roots_wait \<Rightarrow> roots_change option" where
  "wait_change (ListWait sel e g n) = None"
| "wait_change (ChangeWait sel e op c) = Some c"
| "wait_change (RestoreWait sel e op r rest latest many) = Some (AddRootOf r)"

fun wait_op :: "roots_wait \<Rightarrow> nat option" where
  "wait_op (ListWait sel e g n) = None"
| "wait_op (ChangeWait sel e op c) = Some op"
| "wait_op (RestoreWait sel e op r rest latest many) = Some op"

text \<open>\<open>change\<close> is what the host makes of a change to its registrations.\<close>

definition host_runs ::
    "(roots_change \<Rightarrow> workspace_row list \<Rightarrow> workspace_row list) \<Rightarrow> nat \<Rightarrow> roots_task \<Rightarrow> roots_system \<Rightarrow> roots_system" where
  "host_runs change i t s =
     (let host = sl_host (wait_selection (rt_wait t));
          rows = (case wait_change (rt_wait t) of
                    None \<Rightarrow> sy_registered s host
                  | Some c \<Rightarrow> change c (sy_registered s host)) in
      s\<lparr>sy_registered := (sy_registered s)(host := rows), sy_answers := (sy_answers s)(i := Some rows)\<rparr>)"

definition take_task :: "nat \<Rightarrow> roots_state \<Rightarrow> roots_state" where
  "take_task i c = c\<lparr>rs_tasks := AList.delete i (rs_tasks c)\<rparr>"

definition on_roots :: "(roots_state \<Rightarrow> roots_state) \<Rightarrow> roots_system \<Rightarrow> roots_system" where
  "on_roots f s = s\<lparr>sy_roots := f (sy_roots s)\<rparr>"

fun roots_step ::
    "(roots_change \<Rightarrow> workspace_row list \<Rightarrow> workspace_row list) \<Rightarrow> roots_system \<Rightarrow> roots_event \<Rightarrow> roots_system" where
  "roots_step change s (SelectHost sel) = on_roots (select_host sel) s"
| "roots_step change s RefreshNow = on_roots refresh s"
| "roots_step change s (AddNow raw home) = on_roots (addRoot raw home) s"
| "roots_step change s (RemoveNow path) = on_roots (removeRoot path) s"
| "roots_step change s (MoveNow path dir home stored) = on_roots (moveRoot path dir home stored) s"
| "roots_step change s ClearNow = on_roots clearMessages s"
| "roots_step change s (HostRuns i) =
     (case map_of (rs_tasks (sy_roots s)) i of
        None \<Rightarrow> s
      | Some t \<Rightarrow> if sy_answers s i = None then host_runs change i t s else s)"
| "roots_step change s (Deliver i) =
     (case (map_of (rs_tasks (sy_roots s)) i, sy_answers s i) of
        (Some t, Some ws) \<Rightarrow> on_roots (\<lambda>c. answer_task t (Inr ws) (take_task i c)) s
      | _ \<Rightarrow> s)"
| "roots_step change s (Fails i err) =
     (case map_of (rs_tasks (sy_roots s)) i of
        None \<Rightarrow> s
      | Some t \<Rightarrow>
          let made = (wait_change (rt_wait t) \<noteq> None \<and> sy_answers s i \<noteq> None
            \<and> wait_epoch (rt_wait t) = rs_epoch (sy_roots s));
            s' = (if made then s\<lparr>sy_lost := Some (rs_listSequence (sy_roots s))\<rparr> else s) in
          on_roots (\<lambda>c. answer_task t (Inl err) (take_task i c)) s')"
| "roots_step change s (Elsewhere host rows) =
     s\<lparr>sy_registered := (sy_registered s)(host := rows),
       sy_away := (if map_option sl_host (rs_selection (sy_roots s)) = Some host
                   then Some (rs_epoch (sy_roots s)) else sy_away s)\<rparr>"

definition roots_run ::
    "(roots_change \<Rightarrow> workspace_row list \<Rightarrow> workspace_row list) \<Rightarrow> (string \<Rightarrow> workspace_row list)
       \<Rightarrow> root_orders \<Rightarrow> restored_record \<Rightarrow> bool \<Rightarrow> roots_event list \<Rightarrow> roots_system" where
  "roots_run change registered orders ledger writable events =
     run_events (roots_step change)
       \<lparr>sy_roots = new_roots orders ledger writable, sy_registered = registered, sy_answers = (\<lambda>_. None),
        sy_away = None, sy_lost = None\<rparr> events"

subsection \<open>The invariant\<close>

definition stale :: "nat \<Rightarrow> roots_frame list \<Rightarrow> bool" where
  "stale e fs \<longleftrightarrow> list_all (\<lambda>f. case f of Finally op e' \<Rightarrow> e' < e) fs"

text \<open>A change in flight on the current connection.\<close>

definition live_change :: "roots_state \<Rightarrow> roots_task \<Rightarrow> bool" where
  "live_change c t \<longleftrightarrow> wait_change (rt_wait t) \<noteq> None \<and> wait_epoch (rt_wait t) = rs_epoch c"

definition task_ok :: "roots_state \<Rightarrow> roots_task \<Rightarrow> bool" where
  "task_ok c t \<longleftrightarrow>
     wait_epoch (rt_wait t) \<le> rs_epoch c
   \<and> (wait_epoch (rt_wait t) = rs_epoch c \<longrightarrow> rs_selection c = Some (wait_selection (rt_wait t)))
   \<and> (case wait_op (rt_wait t) of
        None \<Rightarrow> stale (rs_epoch c) (rt_frames t)
      | Some op \<Rightarrow>
          (\<exists>fs. rt_frames t = Finally op (wait_epoch (rt_wait t)) # fs \<and> stale (rs_epoch c) fs)
          \<and> (wait_epoch (rt_wait t) = rs_epoch c \<longrightarrow> rs_operation c = Some (op, rs_epoch c)))
   \<and> (case rt_wait t of ListWait sel e g n \<Rightarrow> g \<le> rs_generation c \<and> n \<le> rs_listSequence c | _ \<Rightarrow> True)"

definition tasks_ok :: "roots_state \<Rightarrow> bool" where
  "tasks_ok c \<longleftrightarrow>
     distinct (map fst (rs_tasks c)) \<and> (\<forall>(i, t)\<in>set (rs_tasks c). i < rs_nextTask c \<and> task_ok c t)
   \<and> (\<forall>(i, t)\<in>set (rs_tasks c). \<forall>(j, u)\<in>set (rs_tasks c). live_change c t \<and> live_change c u \<longrightarrow> i = j)"

definition lock_ok :: "roots_state \<Rightarrow> bool" where
  "lock_ok c \<longleftrightarrow>
     (\<forall>op e. rs_operation c = Some (op, e) \<longrightarrow> e \<le> rs_epoch c)
   \<and> (roots_busy c \<longrightarrow> (\<exists>(i, t)\<in>set (rs_tasks c). live_change c t))
   \<and> (rs_relistAfter c \<longrightarrow> roots_busy c)
   \<and> rv_mutating (rs_view c) = roots_busy c"

text \<open>A change the host has made whose answer is still to come.\<close>

definition debt :: "(nat \<Rightarrow> workspace_row list option) \<Rightarrow> (nat \<times> roots_task) list \<Rightarrow> string \<Rightarrow> bool" where
  "debt ans ts h \<longleftrightarrow>
     (\<exists>(i, t)\<in>set ts. wait_change (rt_wait t) \<noteq> None \<and> sl_host (wait_selection (rt_wait t)) = h \<and> ans i \<noteq> None)"

definition rows_settled ::
    "(string \<Rightarrow> workspace_row list) \<Rightarrow> (nat \<Rightarrow> workspace_row list option) \<Rightarrow> (nat \<times> roots_task) list \<Rightarrow> bool
       \<Rightarrow> string \<Rightarrow> workspace_row list \<Rightarrow> bool" where
  "rows_settled reg ans ts owed h ws \<longleftrightarrow> ws = reg h \<or> debt ans ts h \<or> owed"

text \<open>
  What was changed behind the view: the connection (its epoch) on which the registration of the
  selected host was last changed by someone else, and the listing after which an answer was last lost.
\<close>

type_synonym ghost = "nat option \<times> nat option"

abbreviation away :: "ghost \<Rightarrow> roots_state \<Rightarrow> bool" where "away gh c \<equiv> fst gh = Some (rs_epoch c)"
abbreviation lost :: "ghost \<Rightarrow> roots_state \<Rightarrow> bool" where "lost gh c \<equiv> snd gh = Some (rs_listSequence c)"

definition view_ok :: "ghost \<Rightarrow> (string \<Rightarrow> workspace_row list) \<Rightarrow> (nat \<Rightarrow> workspace_row list option) \<Rightarrow> roots_state \<Rightarrow> bool" where
  "view_ok gh reg ans c \<longleftrightarrow>
     (rv_status (rs_view c) = RootsReady \<longrightarrow>
       (case rs_selection c of
          None \<Rightarrow> False
        | Some sel \<Rightarrow>
            (\<exists>ws. rv_memberships (rs_view c) = Some ws
               \<and> (rows_settled reg ans (rs_tasks c) (rs_relistAfter c \<or> away gh c \<or> lost gh c) (sl_host sel) ws
                  \<or> (\<exists>(i, t)\<in>set (rs_tasks c). live_change c t
                        \<and> (case rt_wait t of RestoreWait sel e op r rest latest many \<Rightarrow> True | _ \<Rightarrow> False))))))"

definition answer_ok ::
    "ghost \<Rightarrow> (string \<Rightarrow> workspace_row list) \<Rightarrow> (nat \<Rightarrow> workspace_row list option) \<Rightarrow> roots_state \<Rightarrow> nat \<Rightarrow> roots_task \<Rightarrow> bool" where
  "answer_ok gh reg ans c i t \<longleftrightarrow>
     (case rt_wait t of
        ListWait sel e g n \<Rightarrow>
          e = rs_epoch c \<and> g = rs_generation c \<and> n = rs_listSequence c \<and> \<not> roots_busy c \<longrightarrow>
            (\<forall>ws. ans i = Some ws \<longrightarrow> rows_settled reg ans (rs_tasks c) (away gh c) (sl_host sel) ws)
      | ChangeWait sel e op ch \<Rightarrow>
          e = rs_epoch c \<longrightarrow>
            (\<forall>ws. ans i = Some ws \<longrightarrow> rows_settled reg ans (AList.delete i (rs_tasks c)) (rs_relistAfter c \<or> away gh c) (sl_host sel) ws)
      | RestoreWait sel e op r rest latest many \<Rightarrow>
          e = rs_epoch c \<longrightarrow>
            (\<forall>ws. ans i = Some ws \<longrightarrow> rows_settled reg ans (AList.delete i (rs_tasks c)) (rs_relistAfter c \<or> away gh c) (sl_host sel) ws)
            \<and> rows_settled reg ans (rs_tasks c) (rs_relistAfter c \<or> away gh c) (sl_host sel) latest)"

definition fresh_ok :: "ghost \<Rightarrow> (string \<Rightarrow> workspace_row list) \<Rightarrow> (nat \<Rightarrow> workspace_row list option) \<Rightarrow> roots_state \<Rightarrow> bool" where
  "fresh_ok gh reg ans c \<longleftrightarrow>
     view_ok gh reg ans c \<and> (\<forall>(i, t)\<in>set (rs_tasks c). answer_ok gh reg ans c i t)
   \<and> (\<forall>i. rs_nextTask c \<le> i \<longrightarrow> ans i = None)"

definition roots_inv :: "roots_system \<Rightarrow> bool" where
  "roots_inv s \<longleftrightarrow> tasks_ok (sy_roots s) \<and> lock_ok (sy_roots s) \<and> fresh_ok (sy_away s, sy_lost s) (sy_registered s) (sy_answers s) (sy_roots s)"


subsection \<open>Small steps\<close>

lemma stale_mono: "stale e fs \<Longrightarrow> e \<le> e' \<Longrightarrow> stale e' fs"
  by (auto simp: stale_def list_all_iff split: roots_frame.splits)

lemma stale_Nil [simp]: "stale e []"
  by (simp add: stale_def)

lemma stale_Cons [simp]: "stale e (Finally op e' # fs) \<longleftrightarrow> e' < e \<and> stale e fs"
  by (simp add: stale_def)

text \<open>Returning through \<open>finally\<close>s of earlier connections moves the generation and nothing that matters.\<close>

lemma busy_iff: "roots_busy c \<longleftrightarrow> (\<exists>op. rs_operation c = Some (op, rs_epoch c))"
  by (auto simp: roots_busy_def split: option.split)

lemma return_stale:
  "stale (rs_epoch c) fs \<Longrightarrow>
     \<exists>o'. return_to fs c = c\<lparr>rs_generation := rs_generation c + length fs, rs_operation := o'\<rparr>
        \<and> (o' = rs_operation c \<or> o' = None \<and> \<not> roots_busy c)"
proof (induction fs c rule: return_to.induct)
  case (1 s)
  then show ?case by (intro exI [of _ "rs_operation s"]) simp
next
  case (2 op e fs s)
  let ?s1 = "s\<lparr>rs_generation := rs_generation s + 1, rs_operation := (if rs_operation s = Some (op, e) then None else rs_operation s)\<rparr>"
  have e: "e \<noteq> rs_epoch ?s1" "stale (rs_epoch ?s1) fs" using "2.prems" by auto
  obtain o' where o': "return_to fs ?s1 = ?s1\<lparr>rs_generation := rs_generation ?s1 + length fs, rs_operation := o'\<rparr>"
    "o' = rs_operation ?s1 \<or> o' = None \<and> \<not> roots_busy ?s1"
    using "2.IH"(1) [OF refl e] by blast
  have "o' = rs_operation s \<or> o' = None \<and> \<not> roots_busy s"
    using o'(2) e(1) by (auto simp: busy_iff split: if_splits)
  then show ?case
    using o'(1) e by (intro exI [of _ o']) (auto simp: Let_def)
qed

definition sound :: "ghost \<Rightarrow> (string \<Rightarrow> workspace_row list) \<Rightarrow> (nat \<Rightarrow> workspace_row list option) \<Rightarrow> roots_state \<Rightarrow> bool" where
  "sound gh reg ans c \<longleftrightarrow> tasks_ok c \<and> lock_ok c \<and> fresh_ok gh reg ans c"

text \<open>
  What the invariant reads of the controller. A change of the generation upwards, of an operation of
  an earlier connection, or of any other field keeps it.
\<close>

lemma sound_calm:
  assumes "sound gh reg ans c"
    and "rs_tasks c' = rs_tasks c" "rs_nextTask c' = rs_nextTask c" "rs_epoch c' = rs_epoch c"
    and gen: "rs_generation c \<le> rs_generation c'"
    and op: "rs_operation c' = rs_operation c \<or> rs_operation c' = None \<and> \<not> roots_busy c"
    and "rs_listSequence c' = rs_listSequence c" "rs_relistAfter c' = rs_relistAfter c" "rs_selection c' = rs_selection c"
    and view: "rv_status (rs_view c') = rv_status (rs_view c)" "rv_memberships (rs_view c') = rv_memberships (rs_view c)"
      "rv_mutating (rs_view c') = rv_mutating (rs_view c)"
  shows "sound gh reg ans c'"
proof -
  have busy: "roots_busy c' = roots_busy c" using op assms(4) unfolding busy_iff by (elim disjE) simp_all
  have live: "live_change c' t = live_change c t" for t using assms(4) by (simp add: live_change_def)
  have task: "task_ok c' t" if "task_ok c t" for t
    using that assms(4, 7, 9) gen op by (auto simp: task_ok_def busy_iff split: roots_wait.splits option.splits)
  have answer: "answer_ok gh reg ans c' i t" if "answer_ok gh reg ans c i t" "task_ok c t" for i t
    using that assms(2, 4, 7, 8) gen busy by (auto simp: answer_ok_def task_ok_def split: roots_wait.splits)
  show ?thesis
    unfolding sound_def
  proof (intro conjI)
    show "tasks_ok c'" using assms(1, 2, 3) task live by (fastforce simp: sound_def tasks_ok_def)
    show "lock_ok c'" using assms(1, 2, 4, 8) op busy live view by (auto simp: sound_def lock_ok_def)
    have "view_ok gh reg ans c" using assms(1) by (simp add: sound_def fresh_ok_def)
    then have "view_ok gh reg ans c'"
      by (cases "rs_selection c") (auto simp: view_ok_def assms(2, 4, 7, 8, 9) live view)
    moreover have "\<forall>(i, t)\<in>set (rs_tasks c'). answer_ok gh reg ans c' i t"
      using assms(1, 2) answer by (fastforce simp: sound_def fresh_ok_def tasks_ok_def)
    ultimately show "fresh_ok gh reg ans c'" using assms(1, 3) by (simp add: sound_def fresh_ok_def)
  qed
qed

lemma sound_return:
  assumes "sound gh reg ans c" "stale (rs_epoch c) fs"
  shows "sound gh reg ans (return_to fs c)"
proof -
  obtain o' where o': "return_to fs c = c\<lparr>rs_generation := rs_generation c + length fs, rs_operation := o'\<rparr>"
    "o' = rs_operation c \<or> o' = None \<and> \<not> roots_busy c"
    using return_stale [OF assms(2)] by blast
  show ?thesis unfolding o'(1) by (rule sound_calm [OF assms(1)]) (use o'(2) in simp_all)
qed

lemma debt_append [simp]: "debt ans (ts @ us) h \<longleftrightarrow> debt ans ts h \<or> debt ans us h"
  by (auto simp: debt_def)

lemma debt_list [simp]: "debt ans [(n, \<lparr>rt_wait = ListWait sel e g k, rt_frames = fs\<rparr>)] h = False"
  by (simp add: debt_def)

lemma delete_append [simp]: "AList.delete k (xs @ ys) = AList.delete k xs @ AList.delete k ys"
  by (induction xs) auto

lemma delete_other: "i \<noteq> n \<Longrightarrow> AList.delete i [(n, t)] = [(n, t)]"
  by simp

subsection \<open>Sending a listing\<close>

text \<open>
  A new listing makes every earlier one moot, so all that is asked of the state is that its tasks,
  its lock and the changes of the current connection are in order.
\<close>

lemma sound_send_list:
  assumes "tasks_ok c" "lock_ok c" "rs_selection c = Some sel" "stale (rs_epoch c) fs"
    and changes: "\<forall>(i, t)\<in>set (rs_tasks c). live_change c t \<longrightarrow> answer_ok gh reg ans c i t"
    and ids: "\<forall>i. rs_nextTask c \<le> i \<longrightarrow> ans i = None"
  shows "sound gh reg ans (send_list sel fs c)"
proof -
  let ?w = "\<lparr>rt_wait = ListWait sel (rs_epoch c) (rs_generation c) (rs_listSequence c + 1), rt_frames = fs\<rparr>"
  let ?n = "rs_nextTask c" and ?c = "send_list sel fs c"
  have c': "rs_tasks ?c = rs_tasks c @ [(?n, ?w)]" "rs_nextTask ?c = ?n + 1" "rs_epoch ?c = rs_epoch c"
    "rs_generation ?c = rs_generation c" "rs_operation ?c = rs_operation c" "rs_listSequence ?c = rs_listSequence c + 1"
    "rs_relistAfter ?c = rs_relistAfter c" "rs_selection ?c = Some sel"
    "rv_status (rs_view ?c) = RootsLoading" "rv_mutating (rs_view ?c) = rv_mutating (rs_view c)"
    using assms(3) by (simp_all add: send_list_def wait_for_def set_view_def Let_def)
  have busy: "roots_busy ?c = roots_busy c" and live: "live_change ?c t = live_change c t" for t
    by (simp_all add: busy_iff live_change_def c')
  have new: "\<not> live_change ?c ?w" "task_ok ?c ?w" "answer_ok gh reg ans ?c ?n ?w"
    using assms(4) ids by (simp_all add: live_change_def task_ok_def answer_ok_def c')
  have task: "task_ok ?c t" if "task_ok c t" for t
    using that by (auto simp: task_ok_def c' assms(3) split: roots_wait.splits option.splits)
  have old: "i < ?n \<and> task_ok c t" if "(i, t) \<in> set (rs_tasks c)" for i t using assms(1) that by (auto simp: tasks_ok_def)
  have answer: "answer_ok gh reg ans ?c i t" if m: "(i, t) \<in> set (rs_tasks c)" for i t
  proof (cases "live_change c t")
    case True
    then have "answer_ok gh reg ans c i t" using changes m by auto
    then show ?thesis using True old [OF m]
      by (auto simp: answer_ok_def live_change_def rows_settled_def c' split: roots_wait.splits)
  next
    case False
    then show ?thesis using old [OF m]
      by (auto simp: answer_ok_def live_change_def task_ok_def c' split: roots_wait.splits)
  qed
  show ?thesis
    unfolding sound_def
  proof (intro conjI)
    show "tasks_ok ?c"
      using assms(1) new task old unfolding tasks_ok_def c'(1, 2) live by (fastforce simp: live)
    show "lock_ok ?c" using assms(2) by (auto simp: lock_ok_def busy live c')
    show "fresh_ok gh reg ans ?c"
      using answer new(3) ids by (auto simp: fresh_ok_def view_ok_def c')
  qed
qed

subsection \<open>The lock\<close>

lemma no_live_change: "tasks_ok c \<Longrightarrow> \<not> roots_busy c \<Longrightarrow> (i, t) \<in> set (rs_tasks c) \<Longrightarrow> \<not> live_change c t"
  by (cases "rt_wait t") (auto simp: tasks_ok_def live_change_def task_ok_def busy_iff)

lemma sound_locked:
  assumes c: "sound gh reg ans c" and idle: "\<not> roots_busy c" and sel: "rs_selection c = Some sel" and "stale (rs_epoch c) fs"
    and w: "w (rs_nextOperation c) = ChangeWait sel (rs_epoch c) (rs_nextOperation c) ch
      \<or> (\<exists>r rest latest many. w (rs_nextOperation c) = RestoreWait sel (rs_epoch c) (rs_nextOperation c) r rest latest many
           \<and> rows_settled reg ans (rs_tasks c) (away gh c) (sl_host sel) latest)"
  shows "sound gh reg ans (locked w fs c)"
proof -
  let ?op = "rs_nextOperation c" and ?n = "rs_nextTask c" and ?c = "locked w fs c"
  let ?t = "\<lparr>rt_wait = w ?op, rt_frames = Finally ?op (rs_epoch c) # fs\<rparr>"
  have c': "rs_tasks ?c = rs_tasks c @ [(?n, ?t)]" "rs_nextTask ?c = ?n + 1" "rs_epoch ?c = rs_epoch c"
    "rs_generation ?c = rs_generation c + 1" "rs_operation ?c = Some (?op, rs_epoch c)"
    "rs_listSequence ?c = rs_listSequence c" "rs_relistAfter ?c = rs_relistAfter c" "rs_selection ?c = Some sel"
    "rv_status (rs_view ?c) = rv_status (rs_view c)" "rv_memberships (rs_view ?c) = rv_memberships (rs_view c)"
    "rv_mutating (rs_view ?c) = True"
    using sel by (simp_all add: locked_def wait_for_def set_view_def Let_def)
  have ok: "tasks_ok c" "lock_ok c" "view_ok gh reg ans c" "\<forall>i. ?n \<le> i \<longrightarrow> ans i = None"
    using c by (simp_all add: sound_def fresh_ok_def)
  have busy: "roots_busy ?c" by (simp add: busy_iff c')
  have live: "live_change ?c t = live_change c t" for t by (simp add: live_change_def c')
  have idle_old: "\<not> live_change c t" if "(i, t) \<in> set (rs_tasks c)" for i t by (rule no_live_change [OF ok(1) idle that])
  have new: "live_change ?c ?t" "task_ok ?c ?t"
    using w assms(4) by (auto simp: live_change_def task_ok_def c')
  have old: "i < ?n" "task_ok c t" if "(i, t) \<in> set (rs_tasks c)" for i t using ok(1) that by (auto simp: tasks_ok_def)
  have task: "task_ok ?c t" if m: "(i, t) \<in> set (rs_tasks c)" for i t
    using old(2) [OF m] idle_old [OF m] sel
    by (auto simp: task_ok_def live_change_def c' split: roots_wait.splits option.splits)
  have noowed: "\<not> rs_relistAfter c" using ok(2) idle by (simp add: lock_ok_def)
  have answer: "answer_ok gh reg ans ?c i t" if m: "(i, t) \<in> set (rs_tasks c)" for i t
    using idle_old [OF m] busy by (auto simp: answer_ok_def live_change_def c' split: roots_wait.splits)
  have answer_new: "answer_ok gh reg ans ?c ?n ?t"
    using w ok(4) by (auto simp: answer_ok_def c' rows_settled_def split: roots_wait.splits)
  show ?thesis
    unfolding sound_def
  proof (intro conjI)
    show "tasks_ok ?c" using ok(1) new(2) task old idle_old by (fastforce simp: tasks_ok_def c'(1, 2) live)
    show "lock_ok ?c" using new(1) busy by (auto simp: lock_ok_def c')
    have "view_ok gh reg ans ?c"
      using ok(3) sel idle_old by (fastforce simp: view_ok_def c' rows_settled_def split: option.splits roots_wait.splits)
    then show "fresh_ok gh reg ans ?c" using answer answer_new ok(4) by (auto simp: fresh_ok_def c'(1, 2))
  qed
qed

lemma tasks_ok_take:
  assumes "tasks_ok c"
  shows "tasks_ok (take_task i c)"
proof -
  have s: "set (AList.delete i (rs_tasks c)) \<subseteq> set (rs_tasks c)" by (rule set_delete_subset)
  have t: "task_ok (take_task i c) t = task_ok c t" "live_change (take_task i c) t = live_change c t" for t
    by (auto simp: task_ok_def live_change_def take_task_def split: option.splits roots_wait.splits)
  have sel: "rs_tasks (take_task i c) = AList.delete i (rs_tasks c)" "rs_nextTask (take_task i c) = rs_nextTask c"
    by (simp_all add: take_task_def)
  show ?thesis
    unfolding tasks_ok_def t sel
    using assms s distinct_delete [of "rs_tasks c" i] unfolding tasks_ok_def by blast
qed

text \<open>The end of a change of the current connection.\<close>

lemma sound_finish:
  assumes ok: "tasks_ok c" and idle: "\<forall>(i, t)\<in>set (rs_tasks c). \<not> live_change c t"
    and op: "rs_operation c = Some (op, rs_epoch c)" and "stale (rs_epoch c) fs" and sel: "rs_selection c = Some sel"
    and ids: "\<forall>i. rs_nextTask c \<le> i \<longrightarrow> ans i = None"
    and view: "rv_status (rs_view c) = RootsReady \<Longrightarrow>
      \<exists>ws. rv_memberships (rs_view c) = Some ws
        \<and> rows_settled reg ans (rs_tasks c) (rs_relistAfter c \<or> away gh c \<or> lost gh c) (sl_host sel) ws"
  shows "sound gh reg ans (return_to (Finally op (rs_epoch c) # fs) c)"
proof -
  define c1 where "c1 = set_view (\<lambda>v. v\<lparr>rv_mutating := False\<rparr>)
    (c\<lparr>rs_generation := rs_generation c + 1, rs_operation := None\<rparr>)"
  have c1: "rs_tasks c1 = rs_tasks c" "rs_nextTask c1 = rs_nextTask c" "rs_epoch c1 = rs_epoch c"
    "rs_generation c1 = rs_generation c + 1" "rs_operation c1 = None" "rs_listSequence c1 = rs_listSequence c"
    "rs_relistAfter c1 = rs_relistAfter c" "rs_selection c1 = Some sel" "rv_status (rs_view c1) = rv_status (rs_view c)"
    "rv_memberships (rs_view c1) = rv_memberships (rs_view c)" "\<not> rv_mutating (rs_view c1)"
    using sel by (simp_all add: c1_def set_view_def)
  have free: "\<not> roots_busy c1" by (simp add: busy_iff c1)
  have live: "live_change c1 t = live_change c t" for t by (simp add: live_change_def c1)
  have task: "task_ok c1 t" if m: "(i, t) \<in> set (rs_tasks c)" for i t
  proof -
    have "task_ok c t" "\<not> live_change c t" using ok idle m by (auto simp: tasks_ok_def)
    then show ?thesis using sel by (auto simp: task_ok_def live_change_def c1 split: roots_wait.splits option.splits)
  qed
  have ok1: "tasks_ok c1" using ok task idle by (fastforce simp: tasks_ok_def c1(1, 2) live)
  have answer: "answer_ok gh reg ans c1 i t" if m: "(i, t) \<in> set (rs_tasks c)" for i t
  proof -
    have "task_ok c t" "\<not> live_change c t" using ok idle m by (auto simp: tasks_ok_def)
    then show ?thesis by (auto simp: answer_ok_def task_ok_def live_change_def c1 split: roots_wait.splits)
  qed
  have step: "return_to (Finally op (rs_epoch c) # fs) c =
      (if \<not> rs_relistAfter c then return_to fs c1 else send_list sel fs (c1\<lparr>rs_relistAfter := False\<rparr>))"
    using op sel free by (simp add: c1_def set_view_def Let_def busy_iff)
  show ?thesis
  proof (cases "rs_relistAfter c")
    case False
    have "lock_ok c1" using False free by (auto simp: lock_ok_def c1)
    moreover have "fresh_ok gh reg ans c1"
      using view answer ids False by (auto simp: fresh_ok_def view_ok_def c1)
    ultimately have "sound gh reg ans c1" using ok1 by (simp add: sound_def)
    then show ?thesis using False assms(4) step sound_return [of gh reg ans c1 fs] by (simp add: c1(3))
  next
    case True
    let ?c2 = "c1\<lparr>rs_relistAfter := False\<rparr>"
    have t2: "task_ok ?c2 t = task_ok c1 t" "live_change ?c2 t = live_change c t" for t
      by (auto simp: task_ok_def live_change_def c1 split: option.splits roots_wait.splits)
    have "tasks_ok ?c2" using ok1 by (simp add: tasks_ok_def t2 live c1)
    moreover have "lock_ok ?c2" using free by (auto simp: lock_ok_def busy_iff c1)
    ultimately have "sound gh reg ans (send_list sel fs ?c2)"
      by (rule sound_send_list) (use assms(4) ids idle in \<open>auto simp: c1 t2\<close>)
    then show ?thesis using True step by simp
  qed
qed

subsection \<open>Answers to listings\<close>

lemma take_sel [simp]:
  "rs_tasks (take_task i c) = AList.delete i (rs_tasks c)" "rs_nextTask (take_task i c) = rs_nextTask c"
  "rs_epoch (take_task i c) = rs_epoch c" "rs_generation (take_task i c) = rs_generation c"
  "rs_operation (take_task i c) = rs_operation c" "rs_listSequence (take_task i c) = rs_listSequence c"
  "rs_relistAfter (take_task i c) = rs_relistAfter c" "rs_selection (take_task i c) = rs_selection c"
  "rs_view (take_task i c) = rs_view c" "rs_restoreDue (take_task i c) = rs_restoreDue c"
  "roots_busy (take_task i c) = roots_busy c" "live_change (take_task i c) t = live_change c t"
  by (simp_all add: take_task_def busy_iff live_change_def)

lemma set_delete_iff: "distinct (map fst ts) \<Longrightarrow> (j, u) \<in> set (AList.delete i ts) \<longleftrightarrow> (j, u) \<in> set ts \<and> j \<noteq> i"
  by (induction ts) auto

lemma debt_delete_list:
  assumes "map_of ts i = Some t" "distinct (map fst ts)" "wait_change (rt_wait t) = None"
  shows "debt ans (AList.delete i ts) h = debt ans ts h"
proof -
  have "u = t" if "(i, u) \<in> set ts" for u using that assms(1, 2) by (auto dest: map_of_is_SomeI)
  then show ?thesis using assms(3) by (force simp: debt_def set_delete_iff [OF assms(2)])
qed

lemma debt_mono: "debt ans (AList.delete i ts) h \<Longrightarrow> debt ans ts h"
  using set_delete_subset [of i ts] by (fastforce simp: debt_def)

lemma delete_swap: "AList.delete i (AList.delete j ts) = AList.delete j (AList.delete i ts)"
  by (induction ts) auto

lemma map_of_delete_None: "j \<noteq> i \<Longrightarrow> map_of (AList.delete j ts) i = map_of ts i"
  by (simp add: delete_conv')

lemma sound_take_list:
  assumes c: "sound gh reg ans c" and t: "map_of (rs_tasks c) i = Some t" and l: "wait_change (rt_wait t) = None"
  shows "sound gh reg ans (take_task i c)"
proof -
  let ?ts = "rs_tasks c"
  have ok: "tasks_ok c" "lock_ok c" "view_ok gh reg ans c" "\<forall>(j, u)\<in>set ?ts. answer_ok gh reg ans c j u"
    "\<forall>i. rs_nextTask c \<le> i \<longrightarrow> ans i = None"
    using c by (simp_all add: sound_def fresh_ok_def)
  have d: "distinct (map fst ?ts)" using ok(1) by (simp add: tasks_ok_def)
  note mem = set_delete_iff [OF d]
  have only: "u = t" if "(i, u) \<in> set ?ts" for u using that t d by (auto dest: map_of_is_SomeI)
  have keep: "(j, u) \<in> set (AList.delete i ?ts)" if "(j, u) \<in> set ?ts" "wait_change (rt_wait u) \<noteq> None" for j u
    using that only l by (auto simp: mem)
  have debts: "debt ans (AList.delete i ?ts) h = debt ans ?ts h" for h by (rule debt_delete_list [OF t d l])
  have debts2: "debt ans (AList.delete j (AList.delete i ?ts)) h = debt ans (AList.delete j ?ts) h" if "j \<noteq> i" for j h
    unfolding delete_swap [of j i]
    by (rule debt_delete_list) (use t d l that in \<open>simp_all add: map_of_delete_None distinct_delete\<close>)
  have "lock_ok (take_task i c)"
    using ok(2) keep by (fastforce simp: lock_ok_def live_change_def)
  moreover have "view_ok gh reg ans (take_task i c)"
  proof -
    let ?R = "\<lambda>u. live_change c u \<and> (case rt_wait u of RestoreWait sel e op r rest latest many \<Rightarrow> True | _ \<Rightarrow> False)"
    have "\<exists>(j, u)\<in>set (AList.delete i ?ts). ?R u" if "\<exists>(j, u)\<in>set ?ts. ?R u"
    proof -
      from that obtain j u where u: "(j, u) \<in> set ?ts" "?R u" by auto
      then have "(j, u) \<in> set (AList.delete i ?ts)" by (intro keep) (auto simp: live_change_def)
      with u(2) show ?thesis by blast
    qed
    with ok(3) show ?thesis by (cases "rs_selection c") (auto simp: view_ok_def rows_settled_def debts)
  qed
  moreover have "answer_ok gh reg ans (take_task i c) j u" if "(j, u) \<in> set (AList.delete i ?ts)" for j u
  proof -
    have "answer_ok gh reg ans c j u" "j \<noteq> i" using that ok(4) by (auto simp: mem)
    then show ?thesis by (auto simp: answer_ok_def rows_settled_def debts debts2 split: roots_wait.splits)
  qed
  ultimately show ?thesis
    using tasks_ok_take [OF ok(1)] ok(5) by (auto simp: sound_def fresh_ok_def)
qed

lemma set_view_sel [simp]:
  "rs_tasks (set_view f c) = rs_tasks c" "rs_nextTask (set_view f c) = rs_nextTask c"
  "rs_epoch (set_view f c) = rs_epoch c" "rs_generation (set_view f c) = rs_generation c"
  "rs_operation (set_view f c) = rs_operation c" "rs_listSequence (set_view f c) = rs_listSequence c"
  "rs_relistAfter (set_view f c) = rs_relistAfter c" "rs_selection (set_view f c) = rs_selection c"
  "rs_view (set_view f c) = f (rs_view c)" "roots_busy (set_view f c) = roots_busy c"
  "live_change (set_view f c) t = live_change c t" "rs_restoreDue (set_view f c) = rs_restoreDue c"
  "rs_orders (set_view f c) = rs_orders c" "rs_ledger (set_view f c) = rs_ledger c"
  by (simp_all add: set_view_def busy_iff live_change_def)

text \<open>What a view may be set to.\<close>

lemma sound_set_view:
  assumes c: "sound gh reg ans c" and m: "rv_mutating (f (rs_view c)) = rv_mutating (rs_view c)"
    and v: "rv_status (f (rs_view c)) = RootsReady \<Longrightarrow>
      \<exists>sel ws. rs_selection c = Some sel \<and> rv_memberships (f (rs_view c)) = Some ws
        \<and> rows_settled reg ans (rs_tasks c) (rs_relistAfter c \<or> away gh c \<or> lost gh c) (sl_host sel) ws"
  shows "sound gh reg ans (set_view f c)"
proof -
  have ok: "tasks_ok c" "lock_ok c" "\<forall>(j, u)\<in>set (rs_tasks c). answer_ok gh reg ans c j u"
    "\<forall>i. rs_nextTask c \<le> i \<longrightarrow> ans i = None"
    using c by (simp_all add: sound_def fresh_ok_def)
  have same: "task_ok (set_view f c) t = task_ok c t" "answer_ok gh reg ans (set_view f c) i t = answer_ok gh reg ans c i t" for i t
    by (auto simp: task_ok_def answer_ok_def split: option.splits roots_wait.splits)
  have "view_ok gh reg ans (set_view f c)" using v by (auto simp: view_ok_def)
  then show ?thesis using ok m by (simp add: sound_def tasks_ok_def lock_ok_def fresh_ok_def same)
qed

lemma sound_owed:
  assumes c: "sound gh reg ans c" and b: "roots_busy c"
  shows "sound gh reg ans (c\<lparr>rs_relistAfter := True\<rparr>)"
proof -
  let ?c = "c\<lparr>rs_relistAfter := True\<rparr>"
  have same: "task_ok ?c t = task_ok c t" "live_change ?c t = live_change c t" "roots_busy ?c = roots_busy c" for t
    by (auto simp: task_ok_def live_change_def busy_iff split: option.splits roots_wait.splits)
  have ok: "tasks_ok c" "lock_ok c" "view_ok gh reg ans c" "\<forall>i. rs_nextTask c \<le> i \<longrightarrow> ans i = None"
    using c by (simp_all add: sound_def fresh_ok_def)
  have "view_ok gh reg ans ?c" using ok(3) by (cases "rs_selection c") (auto simp: view_ok_def rows_settled_def)
  moreover have "answer_ok gh reg ans ?c i t" for i t
    using b by (auto simp: answer_ok_def rows_settled_def same split: roots_wait.splits)
  ultimately show ?thesis using ok b by (auto simp: sound_def tasks_ok_def lock_ok_def fresh_ok_def same)
qed

lemma seed_order_keeps:
  "rs_tasks (seed_order h order c) = rs_tasks c" "rs_nextTask (seed_order h order c) = rs_nextTask c"
  "rs_epoch (seed_order h order c) = rs_epoch c" "rs_generation (seed_order h order c) = rs_generation c"
  "rs_operation (seed_order h order c) = rs_operation c" "rs_listSequence (seed_order h order c) = rs_listSequence c"
  "rs_relistAfter (seed_order h order c) = rs_relistAfter c" "rs_selection (seed_order h order c) = rs_selection c"
  "rv_status (rs_view (seed_order h order c)) = rv_status (rs_view c)"
  "rv_memberships (rs_view (seed_order h order c)) = rv_memberships (rs_view c)"
  "rv_mutating (rs_view (seed_order h order c)) = rv_mutating (rs_view c)"
  by (simp_all add: seed_order_def set_view_def Let_def)

lemma sound_seed: "sound gh reg ans c \<Longrightarrow> sound gh reg ans (seed_order h order c)"
  by (erule sound_calm) (simp_all add: seed_order_keeps)

lemma sound_restorePrevious:
  assumes c: "sound gh reg ans c" and "\<not> roots_busy c" and sel: "rs_selection c = Some sel"
    and st: "stale (rs_epoch c) fs" and ws: "rows_settled reg ans (rs_tasks c) (away gh c) (sl_host sel) ws"
  shows "sound gh reg ans (restorePrevious sel ws fs c)"
proof (cases "sl_previous sel")
  case None
  then show ?thesis using sound_return [OF c st] by (simp add: restorePrevious_def)
next
  case (Some p)
  obtain roots order where p: "p = (roots, order)" by (cases p)
  let ?c = "seed_order (sl_host sel) order c"
  have sc: "sound gh reg ans ?c" by (rule sound_seed [OF c])
  have s1: "sound gh reg ans (return_to fs (set_view (\<lambda>v. v\<lparr>rv_mutationError := Some m\<rparr>) (?c\<lparr>rs_restoreErrorShown := True\<rparr>)))" for m
    by (rule sound_return, rule sound_calm [OF sc]) (use st in \<open>simp_all add: seed_order_keeps\<close>)
  have s2: "sound gh reg ans (return_to fs (?c\<lparr>rs_ledger := l\<rparr>))" for l
    by (rule sound_return, rule sound_calm [OF sc]) (use st in \<open>simp_all add: seed_order_keeps\<close>)
  have s3: "sound gh reg ans (return_to fs ?c)" by (rule sound_return [OF sc]) (use st in \<open>simp add: seed_order_keeps\<close>)
  have s4: "sound gh reg ans (locked (\<lambda>op. RestoreWait sel (rs_epoch ?c) op r rest ws many) fs ?c)" for r rest many
    by (rule sound_locked [OF sc]) (use assms in \<open>auto simp: seed_order_keeps busy_iff\<close>)
  show ?thesis using s1 s2 s3 s4 sound_return [OF c st] by (simp add: restorePrevious_def Some p Let_def split: list.split)
qed

lemma sound_listing_answer:
  assumes c: "sound gh reg ans c" and t: "map_of (rs_tasks c) i = Some t" and w: "rt_wait t = ListWait sel e g n"
    and a: "\<And>ws. answer = Inr ws \<Longrightarrow> ans i = Some ws"
  shows "sound gh reg ans (answer_task t answer (take_task i c))"
proof -
  let ?c = "take_task i c" and ?fs = "rt_frames t"
  have ok: "tasks_ok c" "\<forall>(j, u)\<in>set (rs_tasks c). answer_ok gh reg ans c j u" using c by (simp_all add: sound_def fresh_ok_def)
  have m: "(i, t) \<in> set (rs_tasks c)" using t by (rule map_of_SomeD)
  have tok: "task_ok c t" "answer_ok gh reg ans c i t" using ok m by (auto simp: tasks_ok_def)
  have st: "stale (rs_epoch c) ?fs" using tok(1) by (simp add: task_ok_def w)
  have sc: "sound gh reg ans ?c" by (rule sound_take_list [OF c t]) (simp add: w)
  have d: "distinct (map fst (rs_tasks c))" using ok(1) by (simp add: tasks_ok_def)
  have ret: "sound gh reg ans (return_to ?fs c')" if "sound gh reg ans c'" "rs_epoch c' = rs_epoch c" for c'
    by (rule sound_return [OF that(1)]) (use st that(2) in simp)
  show ?thesis
  proof (cases "e = rs_epoch c \<and> n = rs_listSequence c")
    case False
    then show ?thesis using ret [OF sc] by (simp add: answer_task_def w listing_answer_def)
  next
    case True
    then have sel: "rs_selection c = Some sel" using tok(1) by (simp add: task_ok_def w)
    show ?thesis
    proof (cases answer)
      case (Inl err)
      have "sound gh reg ans (set_view (\<lambda>v. v\<lparr>rv_status := RootsFailed, rv_error := Some err\<rparr>) ?c)"
        by (rule sound_set_view [OF sc]) simp_all
      from ret [OF this] show ?thesis using True Inl by (simp add: answer_task_def w listing_answer_def)
    next
      case (Inr ws)
      consider "roots_busy c" | "\<not> roots_busy c" "g \<noteq> rs_generation c" | "\<not> roots_busy c" "g = rs_generation c" by blast
      then show ?thesis
      proof cases
        case 1
        have "sound gh reg ans (?c\<lparr>rs_relistAfter := True\<rparr>)" by (rule sound_owed [OF sc]) (simp add: 1)
        from ret [OF this] show ?thesis using True Inr 1 by (simp add: answer_task_def w listing_answer_def)
      next
        case 2
        have "sound gh reg ans (send_list sel ?fs ?c)"
          by (rule sound_send_list) (use sc sel st in \<open>auto simp: sound_def fresh_ok_def\<close>)
        then show ?thesis using True Inr 2 sel by (simp add: answer_task_def w listing_answer_def list_roots_def)
      next
        case 3
        let ?v = "set_view (\<lambda>v. v\<lparr>rv_status := RootsReady, rv_memberships := Some ws, rv_error := None\<rparr>) ?c"
        have "rows_settled reg ans (rs_tasks c) (away gh c) (sl_host sel) ws"
          using tok(2) True 3 a [OF Inr] by (simp add: answer_ok_def w)
        then have s: "rows_settled reg ans (rs_tasks ?c) (away gh ?c) (sl_host sel) ws"
          using debt_delete_list [OF t d] by (simp add: rows_settled_def w)
        then have "rows_settled reg ans (rs_tasks ?c) (rs_relistAfter ?c \<or> away gh ?c \<or> lost gh ?c) (sl_host sel) ws" by (auto simp: rows_settled_def)
        then have sv: "sound gh reg ans ?v" by (intro sound_set_view [OF sc]) (use sel in auto)
        have sd: "sound gh reg ans (?v\<lparr>rs_restoreDue := False\<rparr>)" by (rule sound_calm [OF sv]) simp_all
        have "sound gh reg ans (restorePrevious sel ws ?fs (?v\<lparr>rs_restoreDue := False\<rparr>))"
          by (rule sound_restorePrevious [OF sd]) (use sel st 3 s in \<open>simp_all add: busy_iff\<close>)
        then show ?thesis using True Inr 3 ret [OF sv] by (simp add: answer_task_def w listing_answer_def Let_def)
      qed
    qed
  qed
qed

subsection \<open>Answers to changes\<close>

text \<open>What is left when the answer to a change arrives.\<close>

lemma take_change:
  assumes c: "sound gh reg ans c" and t: "map_of (rs_tasks c) i = Some t" and ch: "wait_op (rt_wait t) = Some op"
  shows "tasks_ok (take_task i c)" "\<forall>i. rs_nextTask (take_task i c) \<le> i \<longrightarrow> ans i = None"
    "\<exists>fs. rt_frames t = Finally op (wait_epoch (rt_wait t)) # fs \<and> stale (rs_epoch c) fs"
    "wait_epoch (rt_wait t) \<le> rs_epoch c" "answer_ok gh reg ans c i t"
    "live_change c t \<Longrightarrow> rs_selection c = Some (wait_selection (rt_wait t)) \<and> rs_operation c = Some (op, rs_epoch c)
       \<and> (\<forall>(j, u)\<in>set (AList.delete i (rs_tasks c)). \<not> live_change c u)"
    "\<not> live_change c t \<Longrightarrow> lock_ok (take_task i c)"
proof -
  have ok: "tasks_ok c" "lock_ok c" "\<forall>(j, u)\<in>set (rs_tasks c). answer_ok gh reg ans c j u" "\<forall>i. rs_nextTask c \<le> i \<longrightarrow> ans i = None"
    using c by (simp_all add: sound_def fresh_ok_def)
  have m: "(i, t) \<in> set (rs_tasks c)" using t by (rule map_of_SomeD)
  have d: "distinct (map fst (rs_tasks c))" using ok(1) by (simp add: tasks_ok_def)
  have tok: "task_ok c t" using ok(1) m by (auto simp: tasks_ok_def)
  show "tasks_ok (take_task i c)" by (rule tasks_ok_take [OF ok(1)])
  show "\<forall>i. rs_nextTask (take_task i c) \<le> i \<longrightarrow> ans i = None" using ok(4) by simp
  show "\<exists>fs. rt_frames t = Finally op (wait_epoch (rt_wait t)) # fs \<and> stale (rs_epoch c) fs" "wait_epoch (rt_wait t) \<le> rs_epoch c"
    using tok ch by (auto simp: task_ok_def)
  show "answer_ok gh reg ans c i t" using ok(3) m by auto
  show "rs_selection c = Some (wait_selection (rt_wait t)) \<and> rs_operation c = Some (op, rs_epoch c)
       \<and> (\<forall>(j, u)\<in>set (AList.delete i (rs_tasks c)). \<not> live_change c u)" if l: "live_change c t"
  proof (intro conjI)
    show "rs_selection c = Some (wait_selection (rt_wait t))" "rs_operation c = Some (op, rs_epoch c)"
      using tok ch l by (auto simp: task_ok_def live_change_def)
    show "\<forall>(j, u)\<in>set (AList.delete i (rs_tasks c)). \<not> live_change c u"
      using ok(1) m l by (fastforce simp: tasks_ok_def set_delete_iff [OF d])
  qed
  show "lock_ok (take_task i c)" if l: "\<not> live_change c t"
  proof -
    have "\<exists>(j, u)\<in>set (AList.delete i (rs_tasks c)). live_change c u" if "roots_busy c"
    proof -
      from ok(2) that obtain j u where u: "(j, u) \<in> set (rs_tasks c)" "live_change c u" by (auto simp: lock_ok_def)
      have "u = t" if "j = i" using u(1) that t d by (auto dest: map_of_is_SomeI)
      with u l have "(j, u) \<in> set (AList.delete i (rs_tasks c))" by (auto simp: set_delete_iff [OF d])
      with u(2) show ?thesis by blast
    qed
    then show ?thesis using ok(2) by (auto simp: lock_ok_def)
  qed
qed

lemma live_answers:
  assumes c: "sound gh reg ans c" and t: "map_of (rs_tasks c) i = Some t" and l: "\<not> live_change c t"
    and u: "(j, u) \<in> set (AList.delete i (rs_tasks c))" "live_change c u"
    and owed: "sl_host (wait_selection (rt_wait t)) \<noteq> sl_host (wait_selection (rt_wait u)) \<or> wait_change (rt_wait t) = None"
  shows "answer_ok gh reg ans (take_task i c) j u"
proof -
  have ok: "tasks_ok c" "\<forall>(j, u)\<in>set (rs_tasks c). answer_ok gh reg ans c j u" using c by (simp_all add: sound_def fresh_ok_def)
  have d: "distinct (map fst (rs_tasks c))" using ok(1) by (simp add: tasks_ok_def)
  have only: "v = t" if "(i, v) \<in> set (rs_tasks c)" for v using that t d by (auto dest: map_of_is_SomeI)
  have ju: "(j, u) \<in> set (rs_tasks c)" "j \<noteq> i" using u(1) by (auto simp: set_delete_iff [OF d])
  let ?h = "sl_host (wait_selection (rt_wait u))"
  have debts: "debt ans (AList.delete i (rs_tasks c)) ?h = debt ans (rs_tasks c) ?h"
    using owed only by (force simp: debt_def set_delete_iff [OF d])
  have d2: "distinct (map fst (AList.delete j (rs_tasks c)))" using d by (rule distinct_delete)
  have debts2: "debt ans (AList.delete j (AList.delete i (rs_tasks c))) ?h = debt ans (AList.delete j (rs_tasks c)) ?h"
    unfolding delete_swap [of j i] using owed only by (force simp: debt_def set_delete_iff [OF d] set_delete_iff [OF d2])
  have "answer_ok gh reg ans c j u" using ok(2) ju(1) by auto
  then show ?thesis using u(2) debts debts2
    by (cases "rt_wait u") (auto simp: answer_ok_def rows_settled_def live_change_def)
qed

text \<open>A change of an earlier connection: the view is owed a new listing when it is of the same host.\<close>

lemma sound_settle:
  assumes c: "sound gh reg ans c" and t: "map_of (rs_tasks c) i = Some t" and op: "wait_op (rt_wait t) = Some op"
    and old: "wait_epoch (rt_wait t) \<noteq> rs_epoch c"
  shows "sound gh reg ans (settleSuperseded (wait_selection (rt_wait t)) (rt_frames t) (take_task i c))"
proof -
  let ?c = "take_task i c" and ?sel = "wait_selection (rt_wait t)" and ?fs = "rt_frames t"
  note left = take_change [OF c t op]
  have l: "\<not> live_change c t" using old by (simp add: live_change_def)
  have st: "stale (rs_epoch c) ?fs" using left(3, 4) old by (auto simp: le_less)
  have ok: "tasks_ok c" "lock_ok c" "view_ok gh reg ans c" "\<forall>(j, u)\<in>set (rs_tasks c). answer_ok gh reg ans c j u"
    using c by (simp_all add: sound_def fresh_ok_def)
  have d: "distinct (map fst (rs_tasks c))" using ok(1) by (simp add: tasks_ok_def)
  have only: "v = t" if "(i, v) \<in> set (rs_tasks c)" for v using that t d by (auto dest: map_of_is_SomeI)
  have tok: "task_ok c u" if "(j, u) \<in> set (rs_tasks c)" for j u using ok(1) that by (auto simp: tasks_ok_def)
  consider "map_option sl_host (rs_selection c) \<noteq> Some (sl_host ?sel)"
    | "map_option sl_host (rs_selection c) = Some (sl_host ?sel)" "roots_busy c"
    | "map_option sl_host (rs_selection c) = Some (sl_host ?sel)" "\<not> roots_busy c" by blast
  then show ?thesis
  proof cases
    case 1
    have debts: "debt ans (AList.delete i (rs_tasks c)) h = debt ans (rs_tasks c) h" if "h \<noteq> sl_host ?sel" for h
      using that only by (force simp: debt_def set_delete_iff [OF d])
    have view: "view_ok gh reg ans ?c"
    proof (cases "rs_selection c")
      case None
      then show ?thesis using ok(3) by (simp add: view_ok_def)
    next
      case (Some sel)
      let ?R = "\<lambda>u. live_change c u \<and> (case rt_wait u of RestoreWait sel e op r rest latest many \<Rightarrow> True | _ \<Rightarrow> False)"
      have "\<exists>(j, u)\<in>set (AList.delete i (rs_tasks c)). ?R u" if "\<exists>(j, u)\<in>set (rs_tasks c). ?R u"
        using that l only by (fastforce simp: set_delete_iff [OF d])
      then show ?thesis using ok(3) Some 1 debts [of "sl_host sel"] by (auto simp: view_ok_def rows_settled_def)
    qed
    have answer: "answer_ok gh reg ans ?c j u" if m: "(j, u) \<in> set (AList.delete i (rs_tasks c))" for j u
    proof (cases "wait_epoch (rt_wait u) = rs_epoch c")
      case True
      have ju: "(j, u) \<in> set (rs_tasks c)" using m by (simp add: set_delete_iff [OF d])
      have h: "sl_host (wait_selection (rt_wait u)) \<noteq> sl_host ?sel"
        using tok [OF ju] True 1 by (auto simp: task_ok_def)
      show ?thesis
      proof (cases "live_change c u")
        case True
        then show ?thesis by (intro live_answers [OF c t l m]) (use h in auto)
      next
        case False
        then have "wait_change (rt_wait u) = None" using True by (simp add: live_change_def)
        then show ?thesis using ok(4) ju debts [OF h]
          by (cases "rt_wait u") (auto simp: answer_ok_def rows_settled_def)
      qed
    qed (auto simp: answer_ok_def split: roots_wait.splits)
    have "sound gh reg ans ?c" using left(1, 2) left(7) [OF l] view answer by (auto simp: sound_def fresh_ok_def)
    then show ?thesis using 1 st sound_return [of gh reg ans ?c ?fs] by (simp add: settleSuperseded_def)
  next
    case 2
    let ?c2 = "?c\<lparr>rs_relistAfter := True\<rparr>"
    have same: "task_ok ?c2 u = task_ok ?c u" "live_change ?c2 u = live_change c u" "roots_busy ?c2" for u
      using 2(2) by (auto simp: task_ok_def live_change_def busy_iff split: option.splits roots_wait.splits)
    have "tasks_ok ?c2" using left(1) by (simp add: tasks_ok_def same)
    moreover have "lock_ok ?c2" using left(7) [OF l] 2(2) same by (simp add: lock_ok_def)
    moreover have "view_ok gh reg ans ?c2"
      using ok(3) by (cases "rs_selection c") (auto simp: view_ok_def rows_settled_def)
    moreover have "answer_ok gh reg ans ?c2 j u" for j u
      using same(3) by (auto simp: answer_ok_def rows_settled_def split: roots_wait.splits)
    ultimately have "sound gh reg ans ?c2" using left(2) by (auto simp: sound_def fresh_ok_def)
    then show ?thesis using 2 st sound_return [of gh reg ans ?c2 ?fs] by (simp add: settleSuperseded_def)
  next
    case 3
    then obtain sel where sel: "rs_selection c = Some sel" by auto
    have "\<not> live_change ?c u" if "(j, u) \<in> set (rs_tasks ?c)" for j u
      using no_live_change [of ?c j u] left(1) 3(2) that by simp
    then have "sound gh reg ans (send_list sel ?fs ?c)"
      by (intro sound_send_list) (use left(1, 2) left(7) [OF l] sel st in auto)
    then show ?thesis using 3 sel by (simp add: settleSuperseded_def list_roots_def)
  qed
qed

text \<open>A restore goes on to its next add.\<close>

lemma sound_restore_next:
  assumes ok: "tasks_ok c" and idle: "\<forall>(j, u)\<in>set (rs_tasks c). \<not> live_change c u"
    and ids: "\<forall>i. rs_nextTask c \<le> i \<longrightarrow> ans i = None"
    and sel: "rs_selection c = Some sel" and op: "rs_operation c = Some (op, rs_epoch c)"
    and st: "stale (rs_epoch c) fs" and busy: "rv_mutating (rs_view c)"
    and mem: "rv_status (rs_view c) = RootsReady \<Longrightarrow> rv_memberships (rs_view c) \<noteq> None"
    and ws: "rows_settled reg ans (rs_tasks c) (rs_relistAfter c \<or> away gh c) (sl_host sel) ws"
  shows "sound gh reg ans (wait_for (RestoreWait sel (rs_epoch c) op r rest ws many) (Finally op (rs_epoch c) # fs) c)"
proof -
  let ?w = "RestoreWait sel (rs_epoch c) op r rest ws many" and ?n = "rs_nextTask c"
  let ?t = "\<lparr>rt_wait = ?w, rt_frames = Finally op (rs_epoch c) # fs\<rparr>"
  let ?c = "wait_for ?w (Finally op (rs_epoch c) # fs) c"
  have c': "rs_tasks ?c = rs_tasks c @ [(?n, ?t)]" "rs_nextTask ?c = ?n + 1" "rs_epoch ?c = rs_epoch c"
    "rs_generation ?c = rs_generation c" "rs_operation ?c = Some (op, rs_epoch c)" "rs_listSequence ?c = rs_listSequence c"
    "rs_relistAfter ?c = rs_relistAfter c" "rs_selection ?c = Some sel" "rs_view ?c = rs_view c"
    using sel op by (simp_all add: wait_for_def)
  have b: "roots_busy ?c" by (simp add: busy_iff c')
  have live: "live_change ?c u = live_change c u" for u by (simp add: live_change_def c')
  have new: "live_change ?c ?t" "task_ok ?c ?t" using st by (simp_all add: live_change_def task_ok_def c')
  have old: "i < ?n" "task_ok c u" "\<not> live_change c u" if "(i, u) \<in> set (rs_tasks c)" for i u
    using ok idle that by (auto simp: tasks_ok_def)
  have task: "task_ok ?c u" if m: "(i, u) \<in> set (rs_tasks c)" for i u
    using old(2) [OF m] sel op by (auto simp: task_ok_def c' split: roots_wait.splits option.splits)

  have answer: "answer_ok gh reg ans ?c i u" if m: "(i, u) \<in> set (rs_tasks c)" for i u
    using old(3) [OF m] b by (auto simp: answer_ok_def live_change_def c' split: roots_wait.splits)
  have answer_new: "answer_ok gh reg ans ?c ?n ?t"
    using ws ids by (auto simp: answer_ok_def c' rows_settled_def)
  show ?thesis
    unfolding sound_def
  proof (intro conjI)
    show "tasks_ok ?c" using ok new(2) task old by (fastforce simp: tasks_ok_def c'(1, 2) live)
    show "lock_ok ?c" using new(1) b busy by (auto simp: lock_ok_def c')
    have "view_ok gh reg ans ?c" using mem new(1) by (auto simp: view_ok_def c')
    then show "fresh_ok gh reg ans ?c" using answer answer_new ids by (auto simp: fresh_ok_def c'(1, 2))
  qed
qed

lemma sound_change_answer:
  assumes c: "sound gh reg ans c" and t: "map_of (rs_tasks c) i = Some t" and ch: "wait_change (rt_wait t) \<noteq> None"
    and a: "\<And>ws. answer = Inr ws \<Longrightarrow> ans i = Some ws"
    and f: "\<And>err. answer = Inl err \<Longrightarrow> live_change c t \<Longrightarrow> ans i = None \<or> lost gh c"
  shows "sound gh reg ans (answer_task t answer (take_task i c))"
proof -
  let ?c = "take_task i c"
  obtain op where op: "wait_op (rt_wait t) = Some op" using ch by (cases "rt_wait t") auto
  note left = take_change [OF c t op]
  show ?thesis
  proof (cases "wait_epoch (rt_wait t) = rs_epoch c")
    case False
    from sound_settle [OF c t op False] show ?thesis
      using False op by (cases "rt_wait t") (auto simp: answer_task_def change_answer_def restore_answer_def)
  next
    case True
    then have live: "live_change c t" using ch by (simp add: live_change_def)
    obtain fs where fs: "rt_frames t = Finally op (rs_epoch c) # fs" "stale (rs_epoch c) fs" using left(3) True by auto
    let ?sel = "wait_selection (rt_wait t)"
    have here: "rs_selection c = Some ?sel" "rs_operation c = Some (op, rs_epoch c)"
      "\<forall>(j, u)\<in>set (rs_tasks ?c). \<not> live_change c u" using left(6) [OF live] by simp_all
    text \<open>The view may be set to rows that are settled without this change, then the lock is released.\<close>
    have fin: "sound gh reg ans (return_to (rt_frames t) (set_view v (?c\<lparr>rs_ledger := r\<rparr>)))"
      if "rv_status (v (rs_view c)) = RootsReady \<Longrightarrow>
            \<exists>ws. rv_memberships (v (rs_view c)) = Some ws \<and> rows_settled reg ans (rs_tasks ?c) (rs_relistAfter c \<or> away gh c \<or> lost gh c) (sl_host ?sel) ws"
      for v r
    proof -
      let ?c2 = "set_view v (?c\<lparr>rs_ledger := r\<rparr>)"
      have same: "task_ok ?c2 u = task_ok ?c u" "live_change ?c2 u = live_change c u"
        "live_change (?c\<lparr>rs_ledger := r\<rparr>) u = live_change c u" for u
        by (auto simp: task_ok_def live_change_def split: option.splits roots_wait.splits)
      have ok2: "tasks_ok ?c2" using left(1) by (simp add: tasks_ok_def same)
      have idle2: "\<forall>(j, u)\<in>set (rs_tasks ?c2). \<not> live_change ?c2 u" unfolding same using here(3) by simp
      have "sound gh reg ans (return_to (Finally op (rs_epoch ?c2) # fs) ?c2)"
        by (rule sound_finish [OF ok2 idle2]) (use left(2) here(1, 2) fs(2) that in simp_all)
      then show ?thesis by (simp add: fs(1))
    qed
    have lock_view: "rv_mutating (rs_view c)" "rv_status (rs_view c) = RootsReady \<longrightarrow> rv_memberships (rs_view c) \<noteq> None"
      using c here(1, 2) by (auto simp: sound_def lock_ok_def fresh_ok_def view_ok_def busy_iff)
    have keep_ledger: "set_view v ?c = set_view v (?c\<lparr>rs_ledger := rs_ledger ?c\<rparr>)" for v by simp
    have got: "rows_settled reg ans (rs_tasks ?c) (rs_relistAfter c \<or> away gh c) (sl_host ?sel) ws" if "answer = Inr ws" for ws
      using left(5) True a [OF that] ch by (cases "rt_wait t") (auto simp: answer_ok_def)
    have got_view: "rows_settled reg ans (rs_tasks ?c) (rs_relistAfter c \<or> away gh c \<or> lost gh c) (sl_host ?sel) ws"
      if "answer = Inr ws" for ws using got [OF that] by (auto simp: rows_settled_def)
    have unmade: "lost gh c \<or> debt ans (rs_tasks ?c) h = debt ans (rs_tasks c) h" if "answer = Inl err" for err h
    proof -
      have d: "distinct (map fst (rs_tasks c))" using c by (simp add: sound_def tasks_ok_def)
      show ?thesis using f [OF that live] by (force simp: debt_def set_delete_iff [OF d])
    qed
    show ?thesis
    proof (cases "rt_wait t")
      case (ListWait sel e g n)
      then show ?thesis using ch by simp
    next
      case (ChangeWait sel e op' ch')
      show ?thesis
      proof (cases answer)
        case (Inr ws)
        then show ?thesis
          using True got_view [OF Inr] ChangeWait unfolding answer_task_def ChangeWait roots_wait.case change_answer_def
          by (simp del: return_to.simps, subst keep_ledger) (rule fin, simp add: ChangeWait)
      next
        case (Inl err)
        have "view_ok gh reg ans c" using c by (simp add: sound_def fresh_ok_def)
        moreover have only: "u = t" if "(j, u) \<in> set (rs_tasks c)" "live_change c u" for j u
        proof -
          have d: "distinct (map fst (rs_tasks c))" using c by (simp add: sound_def tasks_ok_def)
          have "j = i" using that here(3) by (auto simp: set_delete_iff [OF d])
          then show ?thesis using that(1) t d by (auto dest: map_of_is_SomeI)
        qed
        ultimately have "rv_status (rs_view c) = RootsReady \<Longrightarrow>
            \<exists>ws. rv_memberships (rs_view c) = Some ws \<and> rows_settled reg ans (rs_tasks ?c) (rs_relistAfter c \<or> away gh c \<or> lost gh c) (sl_host ?sel) ws"
          using here(1) unmade [OF Inl] by (auto simp: view_ok_def rows_settled_def ChangeWait dest!: only)
        then show ?thesis
          using True Inl ChangeWait unfolding answer_task_def ChangeWait roots_wait.case change_answer_def
          by (simp del: return_to.simps, subst keep_ledger) (rule fin, simp add: ChangeWait)
      qed
    next
      case (RestoreWait sel e op' r rest latest many)
      have e: "e = rs_epoch c" "op' = op" "?sel = sel" using True op RestoreWait by simp_all
      show ?thesis
      proof (cases answer)
        case (Inl err)
        have "rows_settled reg ans (rs_tasks ?c) (rs_relistAfter c \<or> away gh c \<or> lost gh c) (sl_host ?sel) latest"
          using left(5) e unmade [OF Inl, of "sl_host sel"] by (auto simp: answer_ok_def RestoreWait rows_settled_def)
        then show ?thesis
          using e Inl unfolding answer_task_def RestoreWait roots_wait.case restore_answer_def
          by (simp del: return_to.simps, subst keep_ledger) (rule fin, simp add: RestoreWait)
      next
        case (Inr ws)
        show ?thesis
        proof (cases rest)
          case Nil
          then show ?thesis
            using e Inr got_view [OF Inr] unfolding answer_task_def RestoreWait roots_wait.case restore_answer_def
            by (simp del: return_to.simps) (rule fin, simp add: RestoreWait)
        next
          case (Cons r' rest')
          have "sound gh reg ans (wait_for (RestoreWait sel e op r' rest' ws many) (rt_frames t) ?c)"
            using sound_restore_next [OF left(1), of ans sel op fs reg gh ws r' rest' many] left(2) here fs True e got [OF Inr] lock_view
            by simp
          then show ?thesis
            using e Inr Cons by (simp add: answer_task_def RestoreWait restore_answer_def)
        qed
      qed
    qed
  qed
qed

subsection \<open>The user's calls\<close>

lemma sound_no_live:
  assumes "tasks_ok c" "rs_tasks c' = rs_tasks c" "rs_nextTask c' = rs_nextTask c" "rs_epoch c < rs_epoch c'"
    "rs_generation c \<le> rs_generation c'" "rs_listSequence c \<le> rs_listSequence c'"
  shows "tasks_ok c'" "\<forall>(i, t)\<in>set (rs_tasks c'). \<not> live_change c' t"
proof -
  have "task_ok c' t \<and> \<not> live_change c' t" if "task_ok c t" for t
    using that assms(4-6)
    by (auto simp: task_ok_def live_change_def intro: stale_mono [OF _ less_imp_le] split: roots_wait.splits option.splits)
  then have t: "task_ok c' t" "\<not> live_change c' t" if "(i, t) \<in> set (rs_tasks c)" for i t
    using assms(1) that by (auto simp: tasks_ok_def)
  show "tasks_ok c'" using assms(1) t unfolding tasks_ok_def assms(2, 3) by fast
  show "\<forall>(i, t)\<in>set (rs_tasks c'). \<not> live_change c' t" using t unfolding assms(2) by fast
qed

lemma sound_refresh:
  assumes "tasks_ok c" "lock_ok c" "\<forall>(i, t)\<in>set (rs_tasks c). live_change c t \<longrightarrow> answer_ok gh reg ans c i t"
    "\<forall>i. rs_nextTask c \<le> i \<longrightarrow> ans i = None" "rs_selection c = Some sel"
  shows "sound gh reg ans (refresh c)"
proof -
  let ?c = "c\<lparr>rs_restoreDue := True\<rparr>"
  have same: "task_ok ?c t = task_ok c t" "live_change ?c t = live_change c t" "answer_ok gh reg ans ?c i t = answer_ok gh reg ans c i t" for i t
    by (auto simp: task_ok_def live_change_def answer_ok_def busy_iff split: roots_wait.splits option.splits)
  have "sound gh reg ans (send_list sel [] ?c)"
    by (rule sound_send_list) (use assms in \<open>simp_all add: tasks_ok_def lock_ok_def same busy_iff\<close>)
  then show ?thesis using assms(5) by (simp add: refresh_def list_roots_def)
qed

lemma sound_select:
  assumes c: "sound gh reg ans c"
  shows "sound gh reg ans (select_host selection c)"
proof -
  have ok: "tasks_ok c" "\<forall>i. rs_nextTask c \<le> i \<longrightarrow> ans i = None" using c by (simp_all add: sound_def fresh_ok_def)
  define c1 where "c1 v = c\<lparr>rs_selection := selection, rs_epoch := rs_epoch c + 1, rs_relistAfter := False,
    rs_restoreDue := False, rs_view := v\<rparr>" for v
  have f: "rs_tasks (c1 v) = rs_tasks c" "rs_nextTask (c1 v) = rs_nextTask c" "rs_selection (c1 v) = selection"
    "rs_view (c1 v) = v" "\<not> rs_relistAfter (c1 v)" for v
    by (simp_all add: c1_def)
  have t: "tasks_ok (c1 v)" "\<forall>(i, t)\<in>set (rs_tasks (c1 v)). \<not> live_change (c1 v) t" for v
    by (rule sound_no_live [OF ok(1)]; simp add: c1_def)+
  have free: "\<not> roots_busy (c1 v)" for v
  proof -
    text \<open>An operation of the new connection would have its task.\<close>
    have "rs_operation c \<noteq> Some (op, rs_epoch c + 1)" for op
      using c by (auto simp: sound_def lock_ok_def)
    then show ?thesis by (simp add: busy_iff c1_def)
  qed
  have l: "lock_ok (c1 v)" if "\<not> rv_mutating v" for v
    using free that c by (fastforce simp: lock_ok_def f sound_def c1_def)
  have quiet: "answer_ok gh reg ans (c1 v) i u" if "(i, u) \<in> set (rs_tasks c)" for v i u
  proof -
    have "wait_epoch (rt_wait u) \<le> rs_epoch c" using ok(1) that by (auto simp: tasks_ok_def task_ok_def)
    then show ?thesis by (auto simp: answer_ok_def c1_def split: roots_wait.splits)
  qed
  show ?thesis
  proof (cases selection)
    case None
    let ?v = "emptyState None []"
    have "fresh_ok gh reg ans (c1 ?v)"
      using quiet ok(2) by (auto simp: fresh_ok_def view_ok_def f emptyState_def)
    then have "sound gh reg ans (c1 ?v)" using t(1) l [of ?v] by (simp add: sound_def emptyState_def)
    then show ?thesis using None by (simp add: select_host_def c1_def)
  next
    case (Some sel)
    have r: "sound gh reg ans (refresh (c1 v))" if "\<not> rv_mutating v" for v
      by (rule sound_refresh [OF t(1) l [OF that]]) (use t(2) ok(2) Some in \<open>auto simp: f\<close>)
    show ?thesis
      using r [of "emptyState (Some (sl_host sel)) (hostWorkspacePreferences (rs_orders c) (sl_host sel))"]
        r [of "(rs_view c)\<lparr>rv_mutating := False, rv_mutationError := None, rv_notice := None\<rparr>"] Some
      by (auto simp: select_host_def c1_def emptyState_def set_view_def Let_def)
  qed
qed

lemma sound_mutate:
  assumes "sound gh reg ans c" "\<not> roots_busy c" "rs_selection c = Some sel"
  shows "sound gh reg ans (mutate_roots sel ch c)"
  unfolding mutate_roots_def Let_def
  by (rule sound_locked, rule sound_calm [OF assms(1)]) (use assms in simp_all)

lemma sound_message: "sound gh reg ans c \<Longrightarrow> sound gh reg ans (set_view (\<lambda>v. v\<lparr>rv_mutationError := m, rv_notice := n\<rparr>) c)"
  by (erule sound_calm) simp_all

lemma sound_addRoot: "sound gh reg ans c \<Longrightarrow> sound gh reg ans (addRoot raw home c)"
  by (auto simp: addRoot_def split: option.split sum.split intro!: sound_message sound_mutate)

lemma sound_removeRoot: "sound gh reg ans c \<Longrightarrow> sound gh reg ans (removeRoot path c)"
  by (auto simp: removeRoot_def split: option.split intro!: sound_mutate)

lemma sound_clearMessages: "sound gh reg ans c \<Longrightarrow> sound gh reg ans (clearMessages c)"
  by (simp add: clearMessages_def sound_message)

lemma sound_moveRoot: "sound gh reg ans c \<Longrightarrow> sound gh reg ans (moveRoot path dir home stored c)"
  by (auto simp: moveRoot_def Let_def split: option.split sum.split elim!: sound_calm)

subsection \<open>The host\<close>

lemma settled_run:
  assumes "rows_settled reg ans ts owed h ws" "wait_change (rt_wait t) = None \<Longrightarrow> rows = reg (sl_host (wait_selection (rt_wait t)))"
    "wait_change (rt_wait t) = None \<or> (i, t) \<in> set ts \<or> h \<noteq> sl_host (wait_selection (rt_wait t))"
  shows "rows_settled (reg(sl_host (wait_selection (rt_wait t)) := rows)) (ans(i := Some rows)) ts owed h ws"
proof -
  let ?host = "sl_host (wait_selection (rt_wait t))"
  have kept: "debt (ans(i := Some rows')) ts h'" if "debt ans ts h'" for rows' h'
  proof -
    from that obtain j u where "(j, u) \<in> set ts" "wait_change (rt_wait u) \<noteq> None"
      "sl_host (wait_selection (rt_wait u)) = h'" "ans j \<noteq> None" by (auto simp: debt_def)
    then show ?thesis unfolding debt_def by (intro bexI [of _ "(j, u)"]) auto
  qed
  have made: "debt (ans(i := Some rows)) ts ?host" if "wait_change (rt_wait t) \<noteq> None" "(i, t) \<in> set ts"
    using that unfolding debt_def by (intro bexI [of _ "(i, t)"]) auto
  from assms show ?thesis
    by (cases "wait_change (rt_wait t) = None"; cases "h = ?host") (auto simp: rows_settled_def intro: kept made)
qed

lemma sound_host:
  assumes c: "sound gh reg ans c" and t: "map_of (rs_tasks c) i = Some t" and new: "ans i = None"
    and rows: "wait_change (rt_wait t) = None \<Longrightarrow> rows = reg (sl_host (wait_selection (rt_wait t)))"
  shows "sound gh (reg(sl_host (wait_selection (rt_wait t)) := rows)) (ans(i := Some rows)) c"
proof -
  let ?reg = "reg(sl_host (wait_selection (rt_wait t)) := rows)" and ?ans = "ans(i := Some rows)"
  have ok: "tasks_ok c" "lock_ok c" "view_ok gh reg ans c" "\<forall>(j, u)\<in>set (rs_tasks c). answer_ok gh reg ans c j u"
    "\<forall>i. rs_nextTask c \<le> i \<longrightarrow> ans i = None"
    using c by (simp_all add: sound_def fresh_ok_def)
  have m: "(i, t) \<in> set (rs_tasks c)" using t by (rule map_of_SomeD)
  have d: "distinct (map fst (rs_tasks c))" using ok(1) by (simp add: tasks_ok_def)
  have only: "u = t" if "(i, u) \<in> set (rs_tasks c)" for u using that t d by (auto dest: map_of_is_SomeI)
  note all = settled_run [of reg ans "rs_tasks c" _ _ _ t rows i, OF _ rows disjI2 [OF disjI1 [OF m]]]
  have but: "rows_settled ?reg ?ans (AList.delete j (rs_tasks c)) owed h ws"
    if "rows_settled reg ans (AList.delete j (rs_tasks c)) owed h ws" "j \<noteq> i" for j owed h ws
    by (rule settled_run [OF that(1) rows]) (use m that(2) in \<open>auto simp: set_delete_iff [OF d]\<close>)
  have view: "view_ok gh ?reg ?ans c"
    using ok(3) all by (cases "rs_selection c") (auto simp: view_ok_def)
  have own: "answer_ok gh ?reg ?ans c i t"
  proof -
    have "answer_ok gh reg ans c i t" using ok(4) m by auto
    then show ?thesis
      using all by (auto simp: answer_ok_def split: roots_wait.splits) (auto simp: rows_settled_def)
  qed
  have "answer_ok gh ?reg ?ans c j u" if "(j, u) \<in> set (rs_tasks c)" "j \<noteq> i" for j u
  proof -
    have "answer_ok gh reg ans c j u" using ok(4) that by auto
    then show ?thesis
      using all but [OF _ that(2)] that(2) by (cases "rt_wait u") (auto simp: answer_ok_def)
  qed
  with own only have "\<forall>(j, u)\<in>set (rs_tasks c). answer_ok gh ?reg ?ans c j u" by fast
  moreover have "\<forall>j. rs_nextTask c \<le> j \<longrightarrow> ?ans j = None"
    using ok(1, 5) m by (auto simp: tasks_ok_def)
  ultimately show ?thesis using ok(1, 2) view by (simp add: sound_def fresh_ok_def)
qed

subsection \<open>Runs\<close>

lemma roots_inv_sound: "roots_inv s = sound (sy_away s, sy_lost s) (sy_registered s) (sy_answers s) (sy_roots s)"
  by (simp add: roots_inv_def sound_def)

lemma roots_inv_init:
  "roots_inv \<lparr>sy_roots = new_roots orders ledger writable, sy_registered = registered, sy_answers = (\<lambda>_. None),
        sy_away = None, sy_lost = None\<rparr>"
  by (simp add: roots_inv_def tasks_ok_def lock_ok_def fresh_ok_def view_ok_def new_roots_def emptyState_def roots_busy_def)

lemma on_roots_inv:
  "sound (sy_away s, sy_lost s) (sy_registered s) (sy_answers s) (f (sy_roots s)) \<Longrightarrow> roots_inv (on_roots f s)"
  by (simp add: roots_inv_sound on_roots_def)

lemma sound_answer:
  assumes "sound gh reg ans c" "map_of (rs_tasks c) i = Some t" "\<And>ws. answer = Inr ws \<Longrightarrow> ans i = Some ws"
    "\<And>err. answer = Inl err \<Longrightarrow> live_change c t \<Longrightarrow> ans i = None \<or> lost gh c"
  shows "sound gh reg ans (answer_task t answer (take_task i c))"
proof (cases "wait_change (rt_wait t)")
  case None
  then obtain sel e g n where "rt_wait t = ListWait sel e g n" by (cases "rt_wait t") auto
  from sound_listing_answer [OF assms(1, 2) this assms(3)] show ?thesis .
next
  case (Some ch)
  then show ?thesis by (intro sound_change_answer assms) simp_all
qed

text \<open>An answer is lost, or the registration is changed by someone else.\<close>

lemma sound_lost:
  assumes "sound gh reg ans c"
  shows "sound (fst gh, Some (rs_listSequence c)) reg ans c"
proof -
  have "answer_ok (fst gh, Some (rs_listSequence c)) reg ans c i t = answer_ok gh reg ans c i t" for i t
    by (simp add: answer_ok_def split: roots_wait.split)
  moreover have "view_ok (fst gh, Some (rs_listSequence c)) reg ans c" if "view_ok gh reg ans c"
    using that by (cases "rs_selection c") (auto simp: view_ok_def rows_settled_def)
  ultimately show ?thesis using assms by (simp add: sound_def fresh_ok_def)
qed

lemma sound_elsewhere:
  assumes c: "sound gh reg ans c"
  shows "sound (if map_option sl_host (rs_selection c) = Some h then Some (rs_epoch c) else fst gh, snd gh) (reg(h := rows)) ans c"
    (is "sound ?gh ?reg ans c")
proof -
  have ok: "tasks_ok c" "lock_ok c" "view_ok gh reg ans c" "\<forall>(j, u)\<in>set (rs_tasks c). answer_ok gh reg ans c j u"
    "\<forall>i. rs_nextTask c \<le> i \<longrightarrow> ans i = None"
    using c by (simp_all add: sound_def fresh_ok_def)
  have view: "view_ok ?gh ?reg ans c"
    using ok(3) by (cases "rs_selection c") (auto simp: view_ok_def rows_settled_def)
  have "answer_ok ?gh ?reg ans c j u" if m: "(j, u) \<in> set (rs_tasks c)" for j u
  proof -
    have "task_ok c u" "answer_ok gh reg ans c j u" using ok(1, 4) m by (auto simp: tasks_ok_def)
    then show ?thesis by (cases "rt_wait u") (auto simp: answer_ok_def task_ok_def rows_settled_def)
  qed
  then have "\<forall>(j, u)\<in>set (rs_tasks c). answer_ok ?gh ?reg ans c j u" by blast
  then show ?thesis using ok(1, 2, 5) view unfolding sound_def fresh_ok_def by blast
qed

lemma roots_step_inv:
  assumes "roots_inv s"
  shows "roots_inv (roots_step change s ev)"
proof -
  have s: "sound (sy_away s, sy_lost s) (sy_registered s) (sy_answers s) (sy_roots s)" using assms by (simp add: roots_inv_sound)
  show ?thesis
  proof (cases ev)
    case (RefreshNow)
    have "sound (sy_away s, sy_lost s) (sy_registered s) (sy_answers s) (refresh (sy_roots s))"
    proof (cases "rs_selection (sy_roots s)")
      case None
      then show ?thesis using s by (simp add: refresh_def)
    next
      case (Some sel)
      show ?thesis by (rule sound_refresh [OF _ _ _ _ Some]) (use s in \<open>auto simp: sound_def fresh_ok_def\<close>)
    qed
    then show ?thesis using RefreshNow by (simp add: on_roots_inv)
  next
    case (HostRuns i)
    show ?thesis
    proof (cases "map_of (rs_tasks (sy_roots s)) i")
      case None
      then show ?thesis using HostRuns assms by simp
    next
      case (Some t)
      show ?thesis
        using sound_host [OF s Some] HostRuns Some assms
        by (auto simp: host_runs_def Let_def roots_inv_sound split: option.split)
    qed
  next
    case (Deliver i)
    show ?thesis
      using sound_answer [OF s, of i] Deliver assms
      by (auto intro!: on_roots_inv split: option.split)
  next
    case (Fails i err)
    show ?thesis
    proof (cases "map_of (rs_tasks (sy_roots s)) i")
      case None
      then show ?thesis using Fails assms by simp
    next
      case (Some t)
      let ?lost = "sound (sy_away s, Some (rs_listSequence (sy_roots s))) (sy_registered s) (sy_answers s)"
      have "?lost (answer_task t (Inl err) (take_task i (sy_roots s)))"
        using sound_answer [OF sound_lost [OF s] Some, of "Inl err"] by simp
      moreover have "sound (sy_away s, sy_lost s) (sy_registered s) (sy_answers s) (answer_task t (Inl err) (take_task i (sy_roots s)))"
        if "\<not> (live_change (sy_roots s) t \<and> sy_answers s i \<noteq> None)"
        using sound_answer [OF s Some, of "Inl err"] that by simp
      ultimately show ?thesis
        using Fails Some by (auto simp: roots_inv_sound on_roots_def live_change_def Let_def)
    qed
  next
    case (Elsewhere host rows)
    show ?thesis using sound_elsewhere [OF s, of host rows] Elsewhere by (auto simp: roots_inv_sound split: if_splits)
  qed (use s in \<open>auto intro!: on_roots_inv sound_select sound_addRoot sound_removeRoot sound_moveRoot sound_clearMessages\<close>)
qed

text \<open>The machine of the prelude, for the roots and the host together.\<close>

interpretation roots: machine "roots_step change" roots_inv
  by unfold_locales (rule roots_step_inv)

lemma roots_run_inv: "roots_inv (roots_run change registered orders ledger writable events)"
  unfolding roots_run_def by (rule roots.run_inv [OF roots_inv_init])

subsection \<open>What the user sees\<close>

text \<open>
  The view may be behind the host in two ways only: someone else has changed the host's
  registrations since the host was selected or its connection replaced, or the host made a change on
  the current connection whose answer was lost, and no listing has been asked for since.
\<close>

definition behind :: "roots_system \<Rightarrow> bool" where
  "behind s \<longleftrightarrow> sy_away s = Some (rs_epoch (sy_roots s)) \<or> sy_lost s = Some (rs_listSequence (sy_roots s))"

text \<open>
  C23: However the user selects hosts, connections are replaced, roots are added, removed and moved,
  and however the host's answers are delayed, reordered or lost: when nothing is in flight and the
  list of roots says it is ready, it is the list the selected host has registered, unless someone
  else has changed the registrations during this connection, or a change the host made on it was
  answered with a failure and the list has not been asked for again since.
\<close>

theorem roots_view_settles_on_host:
  assumes "roots_run change registered orders ledger writable events = s"
    and "rs_tasks (sy_roots s) = []" "rv_status (rs_view (sy_roots s)) = RootsReady" "\<not> behind s"
  shows "\<exists>sel. rs_selection (sy_roots s) = Some sel
           \<and> rv_memberships (rs_view (sy_roots s)) = Some (sy_registered s (sl_host sel))"
proof -
  have inv: "roots_inv s" using roots_run_inv assms(1) by blast
  have "\<not> rs_relistAfter (sy_roots s)"
    using inv assms(2) by (auto simp: roots_inv_def lock_ok_def)
  then show ?thesis
    using inv assms(2-4)
    by (auto simp: roots_inv_def fresh_ok_def view_ok_def rows_settled_def debt_def behind_def split: option.splits)
qed

definition sample_change :: "roots_change \<Rightarrow> workspace_row list \<Rightarrow> workspace_row list" where
  "sample_change c ws =
     (case c of
        AddRootOf p \<Rightarrow> ws @ [\<lparr>ws_path = p, ws_displayPath = p\<rparr>]
      | RemoveRootOf p \<Rightarrow> filter (\<lambda>w. ws_path w \<noteq> p) ws)"

text \<open>An add is made by the host while its connection is replaced; its answer is lost.\<close>

definition sample_roots_events :: "roots_event list" where
  "sample_roots_events =
     (let sel = (\<lambda>n. SelectHost (Some \<lparr>sl_host = ''box'', sl_connection = n, sl_previous = None\<rparr>)) in
      [sel 0, HostRuns 0, Deliver 0, AddNow ''/srv'' None, sel 1, HostRuns 2, Deliver 2, HostRuns 1, Fails 1 ''lost'',
       HostRuns 3, Deliver 3])"

theorem roots_view_settles_on_host_witness:
  "rv_memberships (rs_view (sy_roots (roots_run sample_change (\<lambda>_. []) [] NoRecord True sample_roots_events)))
     = Some [\<lparr>ws_path = ''/srv'', ws_displayPath = ''/srv''\<rparr>]"
proof -
  let ?s = "roots_run sample_change (\<lambda>_. []) [] NoRecord True sample_roots_events"
  have hyps: "rs_tasks (sy_roots ?s) = []" "rv_status (rs_view (sy_roots ?s)) = RootsReady"
    "\<not> behind ?s" by code_simp+
  have "sy_registered ?s ''box'' = [\<lparr>ws_path = ''/srv'', ws_displayPath = ''/srv''\<rparr>]"
    "map_option sl_host (rs_selection (sy_roots ?s)) = Some ''box''" by code_simp+
  then show ?thesis using roots_view_settles_on_host [OF refl hyps] by auto
qed

lemma filter_unique:
  assumes "distinct (map fst ts)" "\<forall>(i, t)\<in>set ts. \<forall>(j, u)\<in>set ts. P t \<and> P u \<longrightarrow> i = j"
  shows "length (filter (P \<circ> snd) ts) = (if \<exists>(i, t)\<in>set ts. P t then 1 else 0)"
proof -
  let ?xs = "filter (P \<circ> snd) ts"
  have "distinct (map fst ?xs)" using assms(1) by (rule distinct_map_filter)
  then have d: "length ?xs = card (set (map fst ?xs))" by (metis distinct_card length_map)
  show ?thesis
  proof (cases "\<exists>(i, t)\<in>set ts. P t")
    case True
    then obtain i t where "(i, t) \<in> set ts" "P t" by auto
    then have "set (map fst ?xs) = {i}" using assms(2) by force
    then show ?thesis using d True by simp
  next
    case False
    then show ?thesis by (force simp: filter_empty_conv)
  qed
qed

text \<open>
  C24: There is one registration change at a time on the current connection, and the controls of the
  list are locked exactly while it runs, whatever changes of earlier connections are still to be
  answered.
\<close>

theorem one_root_change_at_a_time:
  "let c = sy_roots (roots_run change registered orders ledger writable events) in
   length (filter (live_change c \<circ> snd) (rs_tasks c)) = (if rv_mutating (rs_view c) then 1 else 0)"
proof -
  define c where "c = sy_roots (roots_run change registered orders ledger writable events)"
  have inv: "tasks_ok c" "lock_ok c" using roots_run_inv unfolding c_def by (auto simp: roots_inv_def)
  have "(\<exists>(i, t)\<in>set (rs_tasks c). live_change c t) = rv_mutating (rs_view c)"
    using inv no_live_change [OF inv(1)] by (auto simp: lock_ok_def)
  then have "length (filter (live_change c \<circ> snd) (rs_tasks c)) = (if rv_mutating (rs_view c) then 1 else 0)"
    using filter_unique [of "rs_tasks c" "live_change c"] inv(1) by (simp add: tasks_ok_def)
  then show ?thesis by (simp add: c_def)
qed

text \<open>
  A change that is reported as failed on the current connection although the host made it is not
  read again: the list stays ready without it until the next listing.
\<close>

lemma failed_change_is_not_reread:
  "let s = roots_run sample_change (\<lambda>_. []) [] NoRecord True (take 4 sample_roots_events @ [HostRuns 1, Fails 1 ''timed out'']);
       c = sy_roots s in
   rs_tasks c = [] \<and> rv_status (rs_view c) = RootsReady \<and> rv_memberships (rs_view c) = Some []
   \<and> map ws_path (sy_registered s ''box'') = [''/srv''] \<and> behind s"
  by code_simp

end
