(* ===== verification/Js_Tokens.thy ===== *)
theory Js_Tokens
  imports Js_Strings Js_Lists
begin

text \<open>
  Reading the text that host tools print: lines, columns padded with blanks, decimal numbers.
\<close>

subsection \<open>Lines and words\<close>

text \<open>\<open>split(/\r?\n/)\<close> and \<open>split(/\s+/)\<close>.\<close>

definition drop_cr :: "string \<Rightarrow> string" where
  "drop_cr w = (if w \<noteq> [] \<and> last w = CHR 0x0D then butlast w else w)"

definition scan_lines :: "string \<Rightarrow> string list" where
  "scan_lines s = (let ws = split_on CHR 0x0A s in map drop_cr (butlast ws) @ [last ws])"

definition space_tokens :: "string \<Rightarrow> string list" where
  "space_tokens s = split_on CHR '' '' (replace_runs js_space '' '' s)"

definition decimal :: "char \<Rightarrow> bool" where
  "decimal c = (48 \<le> (of_char c :: nat) \<and> (of_char c :: nat) \<le> 57)"

definition all_digits :: "string \<Rightarrow> bool" where
  "all_digits s \<longleftrightarrow> s \<noteq> [] \<and> list_all decimal s"

subsection \<open>Padded columns\<close>

definition blank_free :: "string \<Rightarrow> bool" where
  "blank_free w \<longleftrightarrow> w \<noteq> [] \<and> list_all (\<lambda>c. \<not> js_space c) w"

definition padded :: "(nat \<times> string) list \<Rightarrow> string" where
  "padded ws = concat (map (\<lambda>(n, w). replicate (Suc n) CHR '' '' @ w) ws)"

lemma squeeze_word: "list_all (\<lambda>c. \<not> P c) w \<Longrightarrow> w \<noteq> [] \<Longrightarrow> squeeze P r b (w @ s) = w @ squeeze P r False s"
proof (induction w arbitrary: b)
  case (Cons c w)
  then show ?case by (cases "w = []") auto
qed simp

lemma squeeze_pad: "P c \<Longrightarrow> squeeze P r False (replicate (Suc n) c @ s) = r @ squeeze P r True s"
proof -
  assume p: "P c"
  have "squeeze P r True (replicate n c @ s) = squeeze P r True s" for n
    using p by (induction n) auto
  with p show ?thesis by simp
qed

lemma squeeze_padded:
  "\<forall>(n, w)\<in>set ws. blank_free w \<Longrightarrow>
     squeeze js_space '' '' False (padded ws) = concat (map (\<lambda>(n, w). '' '' @ w) ws)"
proof (induction ws)
  case (Cons p ws)
  obtain n w where p: "p = (n, w)" by (cases p)
  have s: "js_space CHR '' ''" by (simp add: js_space_def)
  have "squeeze js_space '' '' True (w @ padded ws) = w @ squeeze js_space '' '' False (padded ws)"
    using Cons.prems p by (intro squeeze_word) (auto simp: blank_free_def)
  then show ?case
    using Cons p squeeze_pad [where P = js_space and c = "CHR '' ''" and r = "'' ''" and n = n and s = "w @ padded ws"] s by (simp add: padded_def)
qed (simp add: padded_def)

lemma join_blanks: "join_with '' '' (w # ws) = w @ concat (map (\<lambda>w. '' '' @ w) ws)"
  by (induction ws arbitrary: w) auto

lemma tokens_padded:
  assumes "blank_free w" "\<forall>(n, v)\<in>set ws. blank_free v"
  shows "space_tokens (w @ padded ws) = w # map snd ws"
proof -
  have "replace_runs js_space '' '' (w @ padded ws) = w @ squeeze js_space '' '' False (padded ws)"
    unfolding replace_runs_def using assms(1) by (intro squeeze_word) (auto simp: blank_free_def)
  also have "\<dots> = join_with '' '' (w # map snd ws)"
    by (simp only: squeeze_padded [OF assms(2)] join_blanks) (simp add: comp_def case_prod_unfold)
  finally have j: "replace_runs js_space '' '' (w @ padded ws) = join_with '' '' (w # map snd ws)" .
  have "CHR '' '' \<notin> set v" if "blank_free v" for v
    using that by (auto simp: blank_free_def list_all_iff js_space_def)
  then show ?thesis
    unfolding space_tokens_def j using assms by (intro split_join) auto
qed

lemma show_nat_decimal: "all_digits (show_nat n)"
proof -
  have "show_nat n \<noteq> []" by (subst show_nat.simps) simp
  then show ?thesis
    using show_nat_digits [of _ n] by (fastforce simp: all_digits_def list_all_iff decimal_def)
qed

lemma padded_ends:
  assumes "blank_free w" "ws \<noteq> []" "blank_free (snd (last ws))"
  shows "\<not> js_space (hd (w @ padded ws))" "\<not> js_space (last (w @ padded ws))"
proof -
  show "\<not> js_space (hd (w @ padded ws))" using assms(1) by (cases w) (auto simp: blank_free_def)
  obtain us n v where ws: "ws = us @ [(n, v)]" using assms(2) by (metis rev_exhaust surj_pair)
  have "last (w @ padded ws) = last v" using assms(3) by (simp add: ws padded_def blank_free_def)
  then show "\<not> js_space (last (w @ padded ws))"
    using assms(3) by (cases v rule: rev_cases) (auto simp: ws blank_free_def)
qed

lemma trim_trailing:
  assumes "s \<noteq> []" "\<not> js_space (hd s)" "\<not> js_space (last s)"
  shows "js_trim (s @ replicate n CHR '' '') = s"
proof -
  obtain c r where s: "s = c # r" using assms(1) by (cases s) auto
  have b: "js_space CHR '' ''" by (simp add: js_space_def)
  have "dropWhile js_space (replicate n CHR '' '' @ t) = dropWhile js_space t" for t
    by (induction n) (simp_all add: b)
  then have "dropWhile js_space (rev (s @ replicate n CHR '' '')) = dropWhile js_space (rev s)" by simp
  also have "\<dots> = rev s" using assms(1, 3) by (simp add: dropWhile_fixed hd_rev)
  finally show ?thesis using assms(2) by (simp add: js_trim_def s)
qed

lemma shown_blank_free: "blank_free (show_nat n)"
proof -
  have "\<not> js_space c" if "c \<in> set (show_nat n)" for c
    using show_nat_digits [OF that] by (auto simp: js_space_def)
  then show ?thesis using show_nat_decimal [of n] by (auto simp: blank_free_def list_all_iff all_digits_def)
qed

end
