(* ===== verification/Port_Scan.thy ===== *)
theory Port_Scan
  imports Js_Tokens Port_Policy Ssh_Capability Host_Cli_Common Session_Paths
begin

text \<open>
  The scan of a host's listening ports: the parsers of what \<open>ss\<close> and \<open>netstat\<close> print
  (src/src/portScanner.ts) and the scan over the SSH capability (src/src/remotePortScan.ts). Numbers
  read from digits are exact; the code's are doubles, which the test against the highest port keeps
  apart for ports.
\<close>

subsection \<open>Ports\<close>

definition MAX_PORT :: nat where "MAX_PORT = 65535"

definition extractPort :: "string \<Rightarrow> nat option" where
  "extractPort addr =
     (case last_index CHR '':'' addr of
        None \<Rightarrow> None
      | Some colon \<Rightarrow>
          let tail = drop (colon + 1) addr in
          if all_digits tail \<and> read_nat tail \<le> MAX_PORT then Some (read_nat tail) else None)"

subsection \<open>Process attribution\<close>

text \<open>The first match of \<open>/"([^"]+)"/\<close>.\<close>

fun quoted_name :: "string \<Rightarrow> string option" where
  "quoted_name [] = None"
| "quoted_name (c # cs) =
     (if c = CHR 0x22 \<and> takeWhile (\<lambda>d. d \<noteq> CHR 0x22) cs \<noteq> [] \<and> CHR 0x22 \<in> set cs
      then Some (takeWhile (\<lambda>d. d \<noteq> CHR 0x22) cs) else quoted_name cs)"

text \<open>\<open>/^(\d+)\/(.+)$/\<close>: what follows the slash.\<close>

definition after_pid :: "string \<Rightarrow> string option" where
  "after_pid t =
     (case dropWhile decimal t of
        c # r \<Rightarrow>
          if c = CHR ''/'' \<and> takeWhile decimal t \<noteq> [] \<and> r \<noteq> []
             \<and> list_all (\<lambda>d. d \<noteq> CHR 0x0A \<and> d \<noteq> CHR 0x0D) r
          then Some r else None
      | [] \<Rightarrow> None)"

definition process_name :: "string \<Rightarrow> string option" where
  "process_name t =
     (case quoted_name t of
        Some n \<Rightarrow> Some n
      | None \<Rightarrow>
          (case after_pid t of
             None \<Rightarrow> None
           | Some r \<Rightarrow>
               let cut = takeWhile (\<lambda>c. \<not> js_space c \<and> c \<noteq> CHR '':'' \<and> c \<noteq> CHR '','') r in
               if cut = [] then None else Some cut))"

text \<open>The first matches of \<open>/pid=(\d+)/\<close>, \<open>/^(\d+)\//\<close> and \<open>/\/(\d+)(?:\/|$)/\<close>.\<close>

fun pid_keyword :: "string \<Rightarrow> string option" where
  "pid_keyword [] = None"
| "pid_keyword (c # cs) =
     (if starts_with (c # cs) ''pid='' \<and> takeWhile decimal (drop 3 cs) \<noteq> []
      then Some (takeWhile decimal (drop 3 cs)) else pid_keyword cs)"

definition pid_prefix :: "string \<Rightarrow> string option" where
  "pid_prefix t =
     (if takeWhile decimal t \<noteq> [] \<and> starts_with (dropWhile decimal t) ''/'' then Some (takeWhile decimal t) else None)"

fun pid_infix :: "string \<Rightarrow> string option" where
  "pid_infix [] = None"
| "pid_infix (c # cs) =
     (if c = CHR ''/'' \<and> takeWhile decimal cs \<noteq> []
         \<and> (dropWhile decimal cs = [] \<or> starts_with (dropWhile decimal cs) ''/'')
      then Some (takeWhile decimal cs) else pid_infix cs)"

definition positive :: "nat \<Rightarrow> nat option" where
  "positive n = (if n = 0 then None else Some n)"

definition process_pid :: "string \<Rightarrow> nat option" where
  "process_pid t =
     (case (case pid_keyword t of Some d \<Rightarrow> Some d | None \<Rightarrow> (case pid_prefix t of Some d \<Rightarrow> Some d | None \<Rightarrow> pid_infix t)) of
        None \<Rightarrow> None
      | Some d \<Rightarrow> positive (read_nat d))"

definition parseProcessInfo :: "string \<Rightarrow> string option \<times> nat option" where
  "parseProcessInfo blob =
     (let t = js_trim blob in if t = [] \<or> t = ''-'' then (None, None) else (process_name t, process_pid t))"

subsection \<open>Rows\<close>

record remote_port =
  pt_port :: nat
  pt_process :: "string option"
  pt_pid :: "nat option"
  pt_cwd :: "string option"

text \<open>A missing or an empty text is falsy.\<close>

definition truthy_or :: "string option \<Rightarrow> string option \<Rightarrow> string option" where
  "truthy_or a b = (if (a = None \<or> a = Some []) \<and> b \<noteq> None \<and> b \<noteq> Some [] then b else a)"

definition enrich :: "remote_port \<Rightarrow> remote_port \<Rightarrow> remote_port" where
  "enrich e p =
     e\<lparr>pt_process := truthy_or (pt_process e) (pt_process p),
       pt_pid := (case pt_pid e of None \<Rightarrow> pt_pid p | Some n \<Rightarrow> Some n),
       pt_cwd := truthy_or (pt_cwd e) (pt_cwd p)\<rparr>"

definition collect_port :: "remote_port list \<Rightarrow> remote_port \<Rightarrow> remote_port list" where
  "collect_port seen p =
     (if pt_port p \<in> set (map pt_port seen)
      then map (\<lambda>e. if pt_port e = pt_port p then enrich e p else e) seen
      else seen @ [p])"

definition dedupe :: "remote_port list \<Rightarrow> remote_port list" where
  "dedupe ports = sort_key pt_port (foldl collect_port [] ports)"

definition isSsHeader :: "string \<Rightarrow> bool" where
  "isSsHeader line \<longleftrightarrow> starts_with line ''State'' \<or> starts_with line ''Netid''"

definition ss_row :: "bool \<Rightarrow> string \<Rightarrow> remote_port option" where
  "ss_row attributed raw =
     (let line = js_trim raw; tokens = space_tokens line in
      if line = [] \<or> isSsHeader line \<or> length tokens < 4 then None
      else case extractPort (tokens ! 3) of
             None \<Rightarrow> None
           | Some port \<Rightarrow>
               let info = (if attributed then parseProcessInfo (join_with '' '' (drop 5 tokens)) else (None, None)) in
               Some \<lparr>pt_port = port, pt_process = fst info, pt_pid = snd info, pt_cwd = None\<rparr>)"

definition parseSsTlnp :: "string \<Rightarrow> remote_port list" where
  "parseSsTlnp out = dedupe (List.map_filter (ss_row True) (scan_lines out))"

definition parseSsTln :: "string \<Rightarrow> remote_port list" where
  "parseSsTln out = dedupe (List.map_filter (ss_row False) (scan_lines out))"

definition netstat_row :: "string \<Rightarrow> remote_port option" where
  "netstat_row raw =
     (let line = js_trim raw; tokens = space_tokens line in
      if line = [] then None
      else case find_index (\<lambda>t. map upper t = ''LISTEN'') tokens of
             None \<Rightarrow> None
           | Some k \<Rightarrow>
               if k < 3 then None
               else case extractPort (tokens ! 3) of
                      None \<Rightarrow> None
                    | Some port \<Rightarrow>
                        let info = parseProcessInfo (join_with '' '' (drop (k + 1) tokens)) in
                        Some \<lparr>pt_port = port, pt_process = fst info, pt_pid = snd info, pt_cwd = None\<rparr>)"

definition parseNetstatTlnp :: "string \<Rightarrow> remote_port list" where
  "parseNetstatTlnp out = dedupe (List.map_filter netstat_row (scan_lines out))"

text \<open>\<open>Number.parseInt\<close>, where only a positive result counts.\<close>

definition parse_pid :: "string \<Rightarrow> nat option" where
  "parse_pid t =
     (let ds = takeWhile decimal (case t of c # r \<Rightarrow> if c = CHR ''+'' then r else t | [] \<Rightarrow> []) in
      if ds = [] then None else positive (read_nat ds))"

definition windows_row :: "string \<Rightarrow> remote_port option" where
  "windows_row raw =
     (let line = js_trim raw; tokens = space_tokens line in
      if line = [] \<or> length tokens < 5 \<or> map upper (tokens ! 0) \<noteq> ''TCP'' \<or> map upper (tokens ! 3) \<noteq> ''LISTENING''
      then None
      else case extractPort (tokens ! 1) of
             None \<Rightarrow> None
           | Some port \<Rightarrow> Some \<lparr>pt_port = port, pt_process = None, pt_pid = parse_pid (tokens ! 4), pt_cwd = None\<rparr>)"

definition parseNetstatWindowsAno :: "string \<Rightarrow> remote_port list" where
  "parseNetstatWindowsAno out = dedupe (List.map_filter windows_row (scan_lines out))"

subsection \<open>Sections\<close>

text \<open>\<open>/^<<<([A-Z0-9_]+)>>>$/\<close> on the trimmed line.\<close>

definition section_char :: "char \<Rightarrow> bool" where
  "section_char c = (let n = of_char c :: nat in 65 \<le> n \<and> n \<le> 90 \<or> 48 \<le> n \<and> n \<le> 57 \<or> n = 95)"

definition section_marker :: "string \<Rightarrow> string option" where
  "section_marker raw =
     (let t = js_trim raw; name = take (length t - 6) (drop 3 t) in
      if length t > 6 \<and> starts_with t ''<<<'' \<and> drop (length t - 3) t = ''>>>'' \<and> list_all section_char name
      then Some name else None)"

definition flush_section :: "string option \<Rightarrow> string list \<Rightarrow> (string \<times> string) list \<Rightarrow> (string \<times> string) list" where
  "flush_section current buffer sections =
     (case current of None \<Rightarrow> sections | Some name \<Rightarrow> AList.update name (join_with [CHR 0x0A] buffer) sections)"

fun read_sections :: "string option \<Rightarrow> string list \<Rightarrow> (string \<times> string) list \<Rightarrow> string list \<Rightarrow> (string \<times> string) list" where
  "read_sections current buffer sections [] = flush_section current buffer sections"
| "read_sections current buffer sections (line # ls) =
     (case section_marker line of
        Some name \<Rightarrow> read_sections (Some name) [] (flush_section current buffer sections) ls
      | None \<Rightarrow> read_sections current (if current = None then buffer else buffer @ [line]) sections ls)"

definition splitSections :: "string \<Rightarrow> (string \<times> string) list" where
  "splitSections out = read_sections None [] [] (scan_lines out)"

definition section_text :: "(string \<times> string) list \<Rightarrow> string \<Rightarrow> string" where
  "section_text sections name = given (map_of sections name) []"

text \<open>The rows of the first view that lists anything.\<close>

definition authoritative :: "(string \<times> string) list \<Rightarrow> remote_port list" where
  "authoritative sections =
     (let a = parseSsTln (section_text sections ''PS_SS_TLN'');
          b = parseNetstatTlnp (section_text sections ''PS_NETSTAT_TLN'');
          c = parseNetstatTlnp (section_text sections ''PS_NETSTAT_TLNP'') in
      if a \<noteq> [] then a else if b \<noteq> [] then b else if c \<noteq> [] then c
      else parseSsTlnp (section_text sections ''PS_SS_TLNP''))"

definition attribute_rows ::
    "remote_port list \<Rightarrow> (nat \<times> string option \<times> nat option) list \<Rightarrow> (nat \<times> string option \<times> nat option) list" where
  "attribute_rows rows m =
     foldl (\<lambda>m r. if pt_process r = None \<and> pt_pid r = None then m
                  else AList.update (pt_port r) (pt_process r, pt_pid r) m) m rows"

definition attribution :: "(string \<times> string) list \<Rightarrow> (nat \<times> string option \<times> nat option) list" where
  "attribution sections =
     attribute_rows (parseSsTlnp (section_text sections ''PS_SS_TLNP''))
       (attribute_rows (parseNetstatTlnp (section_text sections ''PS_NETSTAT_TLNP'')) [])"

definition attribute :: "(nat \<times> string option \<times> nat option) list \<Rightarrow> remote_port \<Rightarrow> remote_port" where
  "attribute m p =
     (case map_of m (pt_port p) of
        None \<Rightarrow> p
      | Some (process, pid) \<Rightarrow>
          p\<lparr>pt_process := (case pt_process p of None \<Rightarrow> process | Some n \<Rightarrow> Some n),
            pt_pid := (case pt_pid p of None \<Rightarrow> pid | Some n \<Rightarrow> Some n)\<rparr>)"

definition mergePortScanSections :: "string \<Rightarrow> remote_port list" where
  "mergePortScanSections out =
     (let sections = splitSections out in map (attribute (attribution sections)) (authoritative sections))"

subsection \<open>The scan\<close>

text \<open>Why there is no listing; \<open>ScanExited\<close> stands for the sentence with the exit code.\<close>

datatype scan_error = ScanTimedOut | ScanStderr string | ScanExited "int option" | NoScanOutput | ForeignScan | ScanThrew string

definition parsePortScanResult :: "exec_result \<Rightarrow> scan_error + remote_port list" where
  "parsePortScanResult r =
     (if timedOut r then Inl ScanTimedOut
      else if exitCode r \<noteq> Some 0
      then Inl (if js_trim (stderr r) = [] then ScanExited (exitCode r) else ScanStderr (js_trim (stderr r)))
      else if splitSections (stdout r) = [] then Inl NoScanOutput
      else Inr (mergePortScanSections (stdout r)))"

definition PORT_LISTENER_SCAN_COMMAND :: string where
  "PORT_LISTENER_SCAN_COMMAND =
     join_with '' ''
       [''echo \"<<<PS_SS_TLN>>>\"; ss -tln 2>/dev/null;'',
        ''echo \"<<<PS_SS_TLNP>>>\"; ss -tlnp 2>/dev/null;'',
        ''echo \"<<<PS_NETSTAT_TLNP>>>\"; netstat -tlnp 2>/dev/null;'',
        ''echo \"<<<PS_NETSTAT_TLN>>>\"; netstat -tln 2>/dev/null;'',
        ''true'']"

definition PORT_LISTENER_SCAN_COMMAND_WINDOWS :: string where
  "PORT_LISTENER_SCAN_COMMAND_WINDOWS =
     join_with '' '' [''echo \"<<<PS_WIN_NETSTAT_ANO>>>\"; netstat -ano 2>/dev/null;'', ''true'']"

text \<open>Process ids are the positive integers of the rows.\<close>

definition procCwdCommand :: "nat list \<Rightarrow> string" where
  "procCwdCommand pids =
     (let safe = filter (\<lambda>p. p > 0) pids in
      if safe = [] then []
      else ''for pid in '' @ join_with '' '' (map show_nat safe) @ ''; do ''
        @ ''cwd=$(readlink \"/proc/$pid/cwd\" 2>/dev/null) && ''
        @ ''printf '' @ [CHR 0x27] @ ''%s'' @ [CHR 0x5C] @ ''t%s'' @ [CHR 0x5C] @ ''n'' @ [CHR 0x27]
        @ '' \"$pid\" \"$cwd\"; done; true'')"

definition cwd_row :: "string \<Rightarrow> (nat \<times> string) option" where
  "cwd_row raw =
     (let line = drop_cr raw in
      case find_index (\<lambda>c. c = CHR 0x09) line of
        None \<Rightarrow> None
      | Some tab \<Rightarrow>
          let pid = js_trim (take tab line); cwd = drop (tab + 1) line in
          if tab = 0 \<or> \<not> all_digits pid \<or> cwd = [] then None else Some (read_nat pid, cwd))"

definition parseProcCwds :: "string \<Rightarrow> (nat \<times> string) list" where
  "parseProcCwds out = foldl (\<lambda>m (pid, cwd). AList.update pid cwd m) [] (List.map_filter cwd_row (scan_lines out))"

text \<open>
  \<open>scanRemotePorts\<close>: the capability is a function from the command and the request id to its
  answer, the ids are arguments, the deadline is the capability's.
\<close>

definition scanRemotePorts ::
    "(string \<Rightarrow> string \<Rightarrow> string + request_echo \<times> exec_result) \<Rightarrow> connection_ref \<Rightarrow> string \<Rightarrow> string
       \<Rightarrow> scan_error + remote_port list" where
  "scanRemotePorts exec conn rid1 rid2 =
     (case execChecked (exec PORT_LISTENER_SCAN_COMMAND) conn rid1 of
        ExecMismatch \<Rightarrow> Inl ForeignScan
      | ExecThrew err \<Rightarrow> Inl (ScanThrew err)
      | ExecResult raw \<Rightarrow>
          (case parsePortScanResult raw of
             Inl e \<Rightarrow> Inl e
           | Inr ports \<Rightarrow>
               let command = procCwdCommand (js_uniq (List.map_filter pt_pid ports)) in
               if command = [] then Inr ports
               else case execChecked (exec command) conn rid2 of
                      ExecResult r \<Rightarrow>
                        let cwds = parseProcCwds (stdout r) in
                        Inr (map (\<lambda>p. p\<lparr>pt_cwd := (case pt_pid p of None \<Rightarrow> None | Some pid \<Rightarrow> map_of cwds pid)\<rparr>) ports)
                    | _ \<Rightarrow> Inr ports))"

text \<open>What the port-forward policy is given.\<close>

definition scan_of :: "scan_error + remote_port list \<Rightarrow> port_scan" where
  "scan_of r =
     (case r of
        Inl _ \<Rightarrow> \<lparr>scan_ok = False, scan_ports = []\<rparr>
      | Inr ports \<Rightarrow> \<lparr>scan_ok = True, scan_ports = map (\<lambda>p. IntN (int (pt_port p))) ports\<rparr>)"

subsection \<open>One row per port\<close>

lemma pt_port_enrich [simp]: "pt_port (enrich e p) = pt_port e"
  by (simp add: enrich_def)

lemma ports_collect:
  "map pt_port (collect_port seen p) =
     (if pt_port p \<in> set (map pt_port seen) then map pt_port seen else map pt_port seen @ [pt_port p])"
  by (auto simp: collect_port_def)

lemma ports_collected:
  "distinct (map pt_port seen) \<Longrightarrow> distinct (map pt_port (foldl collect_port seen ps))
     \<and> set (map pt_port (foldl collect_port seen ps)) = set (map pt_port seen) \<union> set (map pt_port ps)"
proof (induction ps arbitrary: seen)
  case (Cons p ps)
  have "distinct (map pt_port (collect_port seen p))" using Cons.prems by (auto simp: ports_collect)
  from Cons.IH [OF this] show ?case
    by (simp only: foldl.simps ports_collect split: if_split) auto
qed simp

lemma ports_dedupe: "map pt_port (dedupe ps) = sorted_list_of_set (set (map pt_port ps))"
proof (rule sorted_distinct_set_unique)
  have c: "distinct (map pt_port (foldl collect_port [] ps))"
    "set (map pt_port (foldl collect_port [] ps)) = set (map pt_port ps)"
    using ports_collected [of "[]" ps] by simp_all
  show "sorted (map pt_port (dedupe ps))" by (simp add: dedupe_def)
  show "distinct (map pt_port (dedupe ps))"
    using c(1) mset_eq_imp_distinct_iff [OF mset_map_sort_key [of pt_port pt_port "foldl collect_port [] ps"]] by (simp add: dedupe_def)
  show "set (map pt_port (dedupe ps)) = set (sorted_list_of_set (set (map pt_port ps)))"
    using c(2) by (simp add: dedupe_def)
qed simp_all

lemma ports_attribute [simp]: "pt_port (attribute m p) = pt_port p"
  by (simp add: attribute_def split: option.split prod.split)

lemma ports_merge: "map pt_port (mergePortScanSections out) = map pt_port (authoritative (splitSections out))"
  by (simp add: mergePortScanSections_def Let_def comp_def)

lemma extractPort_bound: "extractPort a = Some p \<Longrightarrow> p \<le> MAX_PORT"
  by (auto simp: extractPort_def Let_def split: option.splits if_splits)

lemma row_bounds:
  "ss_row b raw = Some p \<Longrightarrow> pt_port p \<le> MAX_PORT"
  "netstat_row raw = Some p \<Longrightarrow> pt_port p \<le> MAX_PORT"
  "windows_row raw = Some p \<Longrightarrow> pt_port p \<le> MAX_PORT"
  by (auto simp: ss_row_def netstat_row_def windows_row_def Let_def dest!: extractPort_bound split: option.splits if_splits)

definition tidy_ports :: "nat list \<Rightarrow> bool" where
  "tidy_ports ns \<longleftrightarrow> sorted ns \<and> distinct ns \<and> list_all (\<lambda>n. n \<le> MAX_PORT) ns"

lemma tidy_dedupe:
  assumes "\<forall>p\<in>set ps. pt_port p \<le> MAX_PORT"
  shows "tidy_ports (map pt_port (dedupe ps))"
  unfolding ports_dedupe tidy_ports_def using assms by (auto simp: list_all_iff)

lemma tidy_parsers:
  "tidy_ports (map pt_port (parseSsTln s))" "tidy_ports (map pt_port (parseSsTlnp s))" "tidy_ports (map pt_port (parseNetstatTlnp s))"
  "tidy_ports (map pt_port (parseNetstatWindowsAno s))"
  unfolding parseSsTln_def parseSsTlnp_def parseNetstatTlnp_def parseNetstatWindowsAno_def
  by (rule tidy_dedupe; auto simp: List.map_filter_def dest: row_bounds)+

lemma tidy_merge: "tidy_ports (map pt_port (mergePortScanSections out))"
  unfolding ports_merge by (simp add: authoritative_def Let_def tidy_parsers)

subsection \<open>Every listening port is found\<close>

text \<open>
  What the listing tools print, line by line: a row is its first word, the two queues, the local
  address and port and the words after them, each behind blanks of its own width, and perhaps
  blanks at the end. What stands in the queues and after the local address is open.
\<close>

record socket_row =
  sk_first :: string
  sk_queues :: "(nat \<times> string) \<times> nat \<times> string"
  sk_width :: nat
  sk_addr :: string
  sk_port :: nat
  sk_after :: "(nat \<times> string) list"
  sk_trail :: nat

datatype table_line = Heading string | Socket socket_row

definition later_words :: "socket_row \<Rightarrow> (nat \<times> string) list" where
  "later_words r = fst (sk_queues r) # snd (sk_queues r)
     # (sk_width r, sk_addr r @ '':'' @ show_nat (sk_port r)) # sk_after r"

fun line_text :: "table_line \<Rightarrow> string" where
  "line_text (Heading s) = s"
| "line_text (Socket r) = sk_first r @ padded (later_words r) @ replicate (sk_trail r) CHR '' ''"

definition plain_line :: "string \<Rightarrow> bool" where
  "plain_line l \<longleftrightarrow> CHR 0x0A \<notin> set l \<and> drop_cr l = l"

text \<open>A line that does not end or begin a section.\<close>

definition inside_section :: "string \<Rightarrow> bool" where
  "inside_section l \<longleftrightarrow> plain_line l \<and> section_marker l = None"

definition in_columns :: "socket_row \<Rightarrow> bool" where
  "in_columns r \<longleftrightarrow> sk_port r \<le> MAX_PORT \<and> list_all (\<lambda>c. \<not> js_space c) (sk_addr r)
     \<and> blank_free (snd (fst (sk_queues r))) \<and> blank_free (snd (snd (sk_queues r)))
     \<and> list_all (\<lambda>e. blank_free (snd e)) (sk_after r)"

text \<open>
  The lines of \<open>ss -tln\<close> (a heading that starts with its first column's name, an empty line) and of
  \<open>netstat -tln\<close> (headings of any words but LISTEN; in a row, LISTEN is the first word of that
  spelling after the peer's address). A tool the host does not have prints no line at all.
\<close>

definition no_listen :: "string \<Rightarrow> bool" where
  "no_listen w \<longleftrightarrow> map upper w \<noteq> ''LISTEN''"

fun ss_table_line :: "table_line \<Rightarrow> bool" where
  "ss_table_line (Heading s) = (inside_section s \<and> (js_trim s = [] \<or> starts_with (js_trim s) ''State''))"
| "ss_table_line (Socket r) = (in_columns r \<and> sk_first r = ''LISTEN'')"

fun netstat_table_line :: "table_line \<Rightarrow> bool" where
  "netstat_table_line (Heading s) = (inside_section s \<and> list_all no_listen (space_tokens (js_trim s)))"
| "netstat_table_line (Socket r) =
     (in_columns r \<and> sk_first r \<in> {''tcp'', ''tcp6''}
      \<and> no_listen (snd (fst (sk_queues r))) \<and> no_listen (snd (snd (sk_queues r)))
      \<and> (case sk_after r of peer # state # _ \<Rightarrow> no_listen (snd peer) \<and> snd state = ''LISTEN'' | _ \<Rightarrow> False))"

fun ports_listed :: "table_line list \<Rightarrow> nat list" where
  "ports_listed [] = []"
| "ports_listed (Heading s # ls) = ports_listed ls"
| "ports_listed (Socket r # ls) = sk_port r # ports_listed ls"

lemma extract_shown: "n \<le> MAX_PORT \<Longrightarrow> extractPort (addr @ '':'' @ show_nat n) = Some n"
proof -
  assume n: "n \<le> MAX_PORT"
  have "CHR '':'' \<notin> set (show_nat n)" using show_nat_digits [of "CHR '':''" n] by auto
  then have "last_index CHR '':'' (addr @ CHR '':'' # show_nat n) = Some (length addr)" by (rule last_index_split)
  then show ?thesis using n show_nat_decimal by (simp add: extractPort_def)
qed

lemma columns_read:
  assumes "in_columns r" "blank_free (sk_first r)"
  shows "js_trim (line_text (Socket r)) = sk_first r @ padded (later_words r)"
    and "space_tokens (sk_first r @ padded (later_words r)) = sk_first r # map snd (later_words r)"
proof -
  have words: "\<forall>(n, w)\<in>set (later_words r). blank_free w" "later_words r \<noteq> []"
    using assms(1) shown_blank_free [of "sk_port r"]
    by (auto simp: in_columns_def later_words_def list_all_iff blank_free_def js_space_def)
  then have last: "blank_free (snd (last (later_words r)))" using last_in_set [OF words(2)] by fastforce
  note ends = padded_ends [OF assms(2) words(2) last]
  have "sk_first r @ padded (later_words r) \<noteq> []" using assms(2) by (auto simp: blank_free_def)
  from trim_trailing [OF this ends]
  show "js_trim (line_text (Socket r)) = sk_first r @ padded (later_words r)" by simp
  show "space_tokens (sk_first r @ padded (later_words r)) = sk_first r # map snd (later_words r)"
    by (rule tokens_padded [OF assms(2) words(1)])
qed

lemma first_words: "blank_free ''LISTEN''" "blank_free ''tcp''" "blank_free ''tcp6''"
  "no_listen ''tcp''" "no_listen ''tcp6''"
  by code_simp+

lemma ss_socket_read:
  assumes "ss_table_line (Socket r)"
  shows "ss_row False (line_text (Socket r)) = Some \<lparr>pt_port = sk_port r, pt_process = None, pt_pid = None, pt_cwd = None\<rparr>"
proof -
  have r: "in_columns r" "sk_first r = ''LISTEN''" using assms by simp_all
  note c = columns_read [OF r(1), unfolded r(2), OF first_words(1)]
  have "\<not> isSsHeader (''LISTEN'' @ padded (later_words r))" by (simp add: isSsHeader_def starts_with_def)
  moreover have "(''LISTEN'' # map snd (later_words r)) ! 3 = sk_addr r @ '':'' @ show_nat (sk_port r)"
    "4 \<le> length (''LISTEN'' # map snd (later_words r))" by (simp_all add: later_words_def)
  ultimately show ?thesis
    unfolding ss_row_def c Let_def using extract_shown [of "sk_port r" "sk_addr r"] r(1)
    by (simp add: in_columns_def)
qed

lemma address_no_listen: "no_listen (addr @ CHR '':'' # s)"
proof -
  have c: "upper CHR '':'' = CHR '':''" by code_simp
  have "CHR '':'' \<in> set (map upper (addr @ CHR '':'' # s))" by (simp add: c)
  moreover have "CHR '':'' \<notin> set ''LISTEN''" by simp
  ultimately show ?thesis unfolding no_listen_def by metis
qed

lemma find_listen:
  assumes "no_listen a" "no_listen b" "no_listen c" "no_listen d" "no_listen e" "f = ''LISTEN''"
  shows "find_index (\<lambda>t. map upper t = ''LISTEN'') (a # b # c # d # e # f # ws) = Some 5"
proof -
  have "map upper ''LISTEN'' = ''LISTEN''" by code_simp
  with assms show ?thesis by (simp add: no_listen_def)
qed

lemma netstat_socket_read:
  assumes "netstat_table_line (Socket r)"
  shows "\<exists>p. netstat_row (line_text (Socket r)) = Some p \<and> pt_port p = sk_port r"
proof -
  have r: "in_columns r" "no_listen (snd (fst (sk_queues r)))" "no_listen (snd (snd (sk_queues r)))"
    "sk_first r \<in> {''tcp'', ''tcp6''}"
    using assms by simp_all
  have f: "blank_free (sk_first r)" "no_listen (sk_first r)" using r(4) first_words by auto
  from assms obtain peer state more where more: "sk_after r = peer # state # more"
    "no_listen (snd peer)" "snd state = ''LISTEN''"
    by (auto split: list.splits)
  let ?ts = "sk_first r # map snd (later_words r)"
  note c = columns_read [OF r(1) f(1)]
  have k: "find_index (\<lambda>t. map upper t = ''LISTEN'') ?ts = Some 5"
    unfolding later_words_def more list.map by (rule find_listen) (simp_all add: f r more address_no_listen)
  have n: "?ts ! 3 = sk_addr r @ '':'' @ show_nat (sk_port r)" by (simp add: later_words_def)
  have "sk_first r @ padded (later_words r) \<noteq> []" using f by (auto simp: blank_free_def)
  then show ?thesis
    unfolding netstat_row_def c Let_def k n using extract_shown [of "sk_port r" "sk_addr r"] r(1)
    by (simp add: in_columns_def)
qed

lemma ss_heading_skipped: "ss_table_line (Heading s) \<Longrightarrow> ss_row False s = None"
  by (auto simp: ss_row_def isSsHeader_def Let_def)

lemma netstat_heading_skipped: "netstat_table_line (Heading s) \<Longrightarrow> netstat_row s = None"
  using find_index_None [of "\<lambda>t. map upper t = ''LISTEN''" "space_tokens (js_trim s)"]
  by (simp add: netstat_row_def Let_def no_listen_def list_all_iff)

text \<open>A parser reads a table when it reads its rows as their ports and skips its other lines.\<close>

lemma ports_of_table:
  assumes "list_all ok t" "\<And>s. ok (Heading s) \<Longrightarrow> rd s = None"
    and "\<And>r. ok (Socket r) \<Longrightarrow> \<exists>p. rd (line_text (Socket r)) = Some p \<and> pt_port p = sk_port r"
  shows "map pt_port (List.map_filter rd (map line_text t)) = ports_listed t"
  using assms(1)
proof (induction t rule: ports_listed.induct)
  case (3 r ls)
  then obtain p where "rd (line_text (Socket r)) = Some p" "pt_port p = sk_port r" using assms(3) [of r] by auto
  with 3 show ?case by (simp add: List.map_filter_def del: line_text.simps(2))
qed (simp_all add: List.map_filter_def assms(2))

lemma scan_lines_join:
  assumes "ls \<noteq> []" "list_all plain_line ls"
  shows "scan_lines (join_with [CHR 0x0A] ls) = ls"
proof -
  have "split_on CHR 0x0A (join_with [CHR 0x0A] ls) = ls"
    using assms by (intro split_join) (auto simp: list_all_iff plain_line_def)
  moreover have "map drop_cr (butlast ls) = butlast ls"
    using assms(2) by (intro map_idI) (auto simp: list_all_iff plain_line_def dest: in_set_butlastD)
  ultimately show ?thesis using assms(1) by (simp add: scan_lines_def)
qed

lemma read_no_marker:
  "\<forall>l\<in>set ls. section_marker l = None \<Longrightarrow>
     read_sections (Some n) buffer sections (ls @ rest) = read_sections (Some n) (buffer @ ls) sections rest"
  by (induction ls arbitrary: buffer) auto

lemma map_of_flush: "map_of (flush_section c b secs) n = (if c = Some n then Some (join_with [CHR 0x0A] b) else map_of secs n)"
  by (auto simp: flush_section_def update_conv split: option.splits)

text \<open>
  The listing as the command has the host print it: the four views in order, each behind its marker.
\<close>

definition listing_text :: "table_line list \<Rightarrow> string list \<Rightarrow> string list \<Rightarrow> table_line list \<Rightarrow> string" where
  "listing_text ss ssp netp net =
     join_with [CHR 0x0A]
       (''<<<PS_SS_TLN>>>'' # map line_text ss @ ''<<<PS_SS_TLNP>>>'' # ssp
         @ ''<<<PS_NETSTAT_TLNP>>>'' # netp @ ''<<<PS_NETSTAT_TLN>>>'' # map line_text net)"

lemma markers:
  "plain_line ''<<<PS_SS_TLN>>>''" "plain_line ''<<<PS_SS_TLNP>>>''"
  "plain_line ''<<<PS_NETSTAT_TLNP>>>''" "plain_line ''<<<PS_NETSTAT_TLN>>>''"
  "section_marker ''<<<PS_SS_TLN>>>'' = Some ''PS_SS_TLN''" "section_marker ''<<<PS_SS_TLNP>>>'' = Some ''PS_SS_TLNP''"
  "section_marker ''<<<PS_NETSTAT_TLNP>>>'' = Some ''PS_NETSTAT_TLNP''"
  "section_marker ''<<<PS_NETSTAT_TLN>>>'' = Some ''PS_NETSTAT_TLN''"
  by code_simp+

lemma socket_inside:
  assumes "in_columns r" "blank_free (sk_first r)" "hd (sk_first r) \<noteq> CHR ''<''"
  shows "inside_section (line_text (Socket r))"
proof -
  have words: "\<forall>(n, w)\<in>set (later_words r). blank_free w"
    using assms(1) shown_blank_free [of "sk_port r"]
    by (auto simp: in_columns_def later_words_def list_all_iff blank_free_def js_space_def)
  let ?l = "line_text (Socket r)"
  have chars: "c = CHR '' '' \<or> \<not> js_space c" if "c \<in> set ?l" for c
    using that assms(2) words by (fastforce simp: padded_def blank_free_def list_all_iff split: if_splits)
  have "CHR 0x0A \<notin> set ?l" "CHR 0x0D \<notin> set ?l"
    using chars [of "CHR 0x0A"] chars [of "CHR 0x0D"] by (auto simp: js_space_def)
  then have "plain_line ?l" using last_in_set [of ?l] by (metis plain_line_def drop_cr_def)
  moreover have "\<not> starts_with (sk_first r @ padded (later_words r)) ''<<<''"
    using assms(2, 3) by (cases "sk_first r") (auto simp: starts_with_def blank_free_def)
  then have "section_marker ?l = None"
    unfolding section_marker_def columns_read(1) [OF assms(1, 2)] Let_def by simp
  ultimately show ?thesis by (simp add: inside_section_def)
qed

lemma table_inside:
  "ss_table_line t \<Longrightarrow> inside_section (line_text t)" "netstat_table_line t \<Longrightarrow> inside_section (line_text t)"
  using socket_inside first_words(1-3) by (cases t; auto simp del: line_text.simps(2))+

lemma read_views:
  assumes "list_all inside_section A" "list_all inside_section B" "list_all inside_section C" "list_all inside_section D"
  shows "read_sections None [] [] (''<<<PS_SS_TLN>>>'' # A @ ''<<<PS_SS_TLNP>>>'' # B
      @ ''<<<PS_NETSTAT_TLNP>>>'' # C @ ''<<<PS_NETSTAT_TLN>>>'' # D) =
    flush_section (Some ''PS_NETSTAT_TLN'') D (flush_section (Some ''PS_NETSTAT_TLNP'') C
      (flush_section (Some ''PS_SS_TLNP'') B (flush_section (Some ''PS_SS_TLN'') A [])))"
proof -
  have m: "\<forall>l\<in>set ls. section_marker l = None" if "list_all inside_section ls" for ls
    using that by (auto simp: list_all_iff inside_section_def)
  have none: "flush_section None [] [] = []" by (simp add: flush_section_def)
  show ?thesis
    using read_no_marker [OF m [OF assms(4)], of _ "[]" _ "[]"]
    by (simp add: markers none read_no_marker [OF m [OF assms(1)]] read_no_marker [OF m [OF assms(2)]]
        read_no_marker [OF m [OF assms(3)]])
qed

lemma rows_of_view:
  assumes "list_all plain_line A" "rd [] = None"
  shows "List.map_filter rd (scan_lines (join_with [CHR 0x0A] A)) = List.map_filter rd A"
proof (cases "A = []")
  case True
  have "scan_lines [] = [[]]" by code_simp
  with True assms(2) show ?thesis by (simp add: List.map_filter_def)
qed (use scan_lines_join assms(1) in simp)

lemma empty_rows: "ss_row False [] = None" "netstat_row [] = None"
  by code_simp+

lemma merged_listing:
  assumes ss: "list_all ss_table_line A" and net: "list_all netstat_table_line D"
    and other: "list_all inside_section B" "list_all inside_section C"
    and some: "ports_listed A \<noteq> [] \<or> ports_listed D \<noteq> []"
  shows "map pt_port (mergePortScanSections (listing_text A B C D)) =
      sorted_list_of_set (set (if ports_listed A \<noteq> [] then ports_listed A else ports_listed D))"
    and "splitSections (listing_text A B C D) \<noteq> []"
proof -
  let ?A = "map line_text A" and ?D = "map line_text D"
  have inside: "list_all inside_section ?A" "list_all inside_section ?D"
    using ss net table_inside by (auto simp: list_all_iff)
  note all_inside = inside(1) other inside(2)
  have plain: "list_all plain_line ls" if "list_all inside_section ls" for ls
    using that by (auto simp: list_all_iff inside_section_def)
  let ?ls = "''<<<PS_SS_TLN>>>'' # ?A @ ''<<<PS_SS_TLNP>>>'' # B @ ''<<<PS_NETSTAT_TLNP>>>'' # C @ ''<<<PS_NETSTAT_TLN>>>'' # ?D"
  have "scan_lines (join_with [CHR 0x0A] ?ls) = ?ls"
    using plain all_inside by (intro scan_lines_join) (simp_all add: markers)
  then have sections: "splitSections (listing_text A B C D) =
      flush_section (Some ''PS_NETSTAT_TLN'') ?D (flush_section (Some ''PS_NETSTAT_TLNP'') C
        (flush_section (Some ''PS_SS_TLNP'') B (flush_section (Some ''PS_SS_TLN'') ?A [])))"
    unfolding splitSections_def listing_text_def by (simp only: read_views [OF all_inside])
  have texts: "section_text (splitSections (listing_text A B C D)) ''PS_SS_TLN'' = join_with [CHR 0x0A] ?A"
    "section_text (splitSections (listing_text A B C D)) ''PS_NETSTAT_TLN'' = join_with [CHR 0x0A] ?D"
    by (simp_all add: sections section_text_def given_def map_of_flush)
  have "map_of (splitSections (listing_text A B C D)) ''PS_NETSTAT_TLN'' \<noteq> None"
    by (simp add: sections map_of_flush)
  then show "splitSections (listing_text A B C D) \<noteq> []" by auto
  have a: "map pt_port (parseSsTln (join_with [CHR 0x0A] ?A)) = sorted_list_of_set (set (ports_listed A))"
    unfolding parseSsTln_def ports_dedupe
      rows_of_view [where rd = "ss_row False", OF plain [OF inside(1)] empty_rows(1)]
    by (subst ports_of_table [where rd = "ss_row False", OF ss ss_heading_skipped]) (use ss_socket_read in auto)
  have d: "map pt_port (parseNetstatTlnp (join_with [CHR 0x0A] ?D)) = sorted_list_of_set (set (ports_listed D))"
    unfolding parseNetstatTlnp_def ports_dedupe
      rows_of_view [where rd = netstat_row, OF plain [OF inside(2)] empty_rows(2)]
    by (subst ports_of_table [where rd = netstat_row, OF net netstat_heading_skipped netstat_socket_read]) auto
  have empty: "xs = [] \<longleftrightarrow> ps = []" if "map pt_port xs = sorted_list_of_set (set ps)" for xs ps
    using that by (metis finite_set list.simps(8) map_is_Nil_conv set_empty sorted_list_of_set_eq_Nil_iff)
  show "map pt_port (mergePortScanSections (listing_text A B C D)) =
      sorted_list_of_set (set (if ports_listed A \<noteq> [] then ports_listed A else ports_listed D))"
    unfolding ports_merge authoritative_def Let_def texts using a d some empty [OF a] empty [OF d] by simp
qed

lemma labelled_scan:
  assumes "execChecked (exec PORT_LISTENER_SCAN_COMMAND) conn rid1 = ExecResult raw" "parsePortScanResult raw = Inr ps"
  shows "\<exists>ports. scanRemotePorts exec conn rid1 rid2 = Inr ports \<and> map pt_port ports = map pt_port ps"
  using assms by (auto simp: scanRemotePorts_def Let_def comp_def split: exec_outcome.split)

text \<open>
  C31: When the host's listing arrives, the ports reported are exactly the ones it prints, each once
  and in order: those of \<open>ss -tln\<close> when it lists any, and otherwise, on a host that has only
  \<open>netstat\<close>, those of \<open>netstat -tln\<close>. This holds for columns of any width, any words in the queue
  and peer columns, IPv4, IPv6 and wildcard addresses, whatever the two attribution views print and
  whatever becomes of the probe of the working directories.
\<close>

theorem scan_reports_listening_ports:
  assumes "list_all ss_table_line ss" "list_all netstat_table_line net"
    and "list_all inside_section ssp" "list_all inside_section netp"
    and "ports_listed ss \<noteq> [] \<or> ports_listed net \<noteq> []"
    and "exec PORT_LISTENER_SCAN_COMMAND rid1 =
      Inr (echo, \<lparr>exitCode = Some 0, stdout = listing_text ss ssp netp net, stderr = err, timedOut = False\<rparr>)"
    and "isSshResponseFor echo rid1 conn"
  shows "scan_of (scanRemotePorts exec conn rid1 rid2) =
      \<lparr>scan_ok = True, scan_ports = map (\<lambda>p. IntN (int p))
         (sorted_list_of_set (set (if ports_listed ss \<noteq> [] then ports_listed ss else ports_listed net)))\<rparr>"
proof -
  let ?out = "listing_text ss ssp netp net"
  note m = merged_listing [OF assms(1-5)]
  have "parsePortScanResult \<lparr>exitCode = Some 0, stdout = ?out, stderr = err, timedOut = False\<rparr> =
      Inr (mergePortScanSections ?out)"
    using m(2) by (simp add: parsePortScanResult_def)
  then obtain ports where r: "scanRemotePorts exec conn rid1 rid2 = Inr ports"
      "map pt_port ports = map pt_port (mergePortScanSections ?out)"
    using labelled_scan [of exec conn rid1] assms(6, 7) by (force simp: execChecked_def)
  have "map (\<lambda>p. IntN (int (pt_port p))) ports = map (\<lambda>p. IntN (int p)) (map pt_port ports)" by simp
  then show ?thesis using r m(1) by (simp add: scan_of_def del: map_map)
qed

text \<open>
  Rows of the fixtures under src/tests/fixtures/portscan: a host with \<open>ss\<close>, and one with the
  \<open>netstat\<close> of BusyBox alone.
\<close>

definition sample_ss :: "table_line list" where
  "sample_ss =
     [Heading ''State  Recv-Q Send-Q Local Address:Port  Peer Address:Port'',
      Socket \<lparr>sk_first = ''LISTEN'', sk_queues = ((0, ''0''), 6, ''5''), sk_width = 9, sk_addr = ''127.0.0.1'',
        sk_port = 19840, sk_after = [(5, ''0.0.0.0:*'')], sk_trail = 0\<rparr>,
      Socket \<lparr>sk_first = ''LISTEN'', sk_queues = ((0, ''0''), 6, ''4096''), sk_width = 12, sk_addr = ''[::]'',
        sk_port = 22, sk_after = [(11, ''[::]:*'')], sk_trail = 2\<rparr>,
      Socket \<lparr>sk_first = ''LISTEN'', sk_queues = ((0, ''0''), 6, ''128''), sk_width = 9, sk_addr = ''*'',
        sk_port = 22, sk_after = [(11, ''*:*'')], sk_trail = 0\<rparr>]"

definition sample_netstat :: "table_line list" where
  "sample_netstat =
     [Heading ''Active Internet connections (only servers)'',
      Heading ''Proto Recv-Q Send-Q Local Address           Foreign Address         State'',
      Socket \<lparr>sk_first = ''tcp'', sk_queues = ((7, ''0''), 5, ''0''), sk_width = 0, sk_addr = ''::'',
        sk_port = 8081, sk_after = [(16, '':::*''), (19, ''LISTEN'')], sk_trail = 0\<rparr>, Heading []]"

definition sample_exec :: "string \<Rightarrow> string \<Rightarrow> string \<Rightarrow> string + request_echo \<times> exec_result" where
  "sample_exec out command rid =
     (if command = PORT_LISTENER_SCAN_COMMAND
      then Inr (\<lparr>requestId = rid, echo_ref = \<lparr>connectionId = ''c'', generationId = ''g''\<rparr>\<rparr>,
                \<lparr>exitCode = Some 0, stdout = out, stderr = [], timedOut = False\<rparr>)
      else Inl ''gone'')"

lemma sample_exec_answers:
  "sample_exec out PORT_LISTENER_SCAN_COMMAND rid =
     Inr (\<lparr>requestId = rid, echo_ref = \<lparr>connectionId = ''c'', generationId = ''g''\<rparr>\<rparr>,
          \<lparr>exitCode = Some 0, stdout = out, stderr = [], timedOut = False\<rparr>)"
  "isSshResponseFor \<lparr>requestId = rid, echo_ref = \<lparr>connectionId = ''c'', generationId = ''g''\<rparr>\<rparr> rid
     \<lparr>connectionId = ''c'', generationId = ''g''\<rparr>"
  unfolding sample_exec_def by (simp_all only: if_True refl isSshResponseFor_def) simp

theorem scan_reports_listening_ports_witness:
  "scan_ports (scan_of (scanRemotePorts (sample_exec (listing_text sample_ss [] [''(no)''] sample_netstat))
       \<lparr>connectionId = ''c'', generationId = ''g''\<rparr> ''1'' ''2'')) = [IntN 22, IntN 19840]
   \<and> scan_ports (scan_of (scanRemotePorts (sample_exec (listing_text [] [] [''(no)''] sample_netstat))
       \<lparr>connectionId = ''c'', generationId = ''g''\<rparr> ''1'' ''2'')) = [IntN 8081]"
proof -
  have inside: "inside_section ''State  Recv-Q Send-Q Local Address:Port  Peer Address:Port''"
    "inside_section ''Active Internet connections (only servers)''" "inside_section []" "inside_section ''(no)''"
    "inside_section ''Proto Recv-Q Send-Q Local Address           Foreign Address         State''"
    by code_simp+
  have heads: "list_all no_listen (space_tokens (js_trim ''Active Internet connections (only servers)''))"
    "list_all no_listen (space_tokens (js_trim ''Proto Recv-Q Send-Q Local Address           Foreign Address         State''))"
    "list_all no_listen (space_tokens (js_trim []))"
    "starts_with (js_trim ''State  Recv-Q Send-Q Local Address:Port  Peer Address:Port'') ''State''"
    "no_listen ''0''" "no_listen '':::*''"
    by code_simp+
  have tables: "list_all ss_table_line sample_ss" "list_all netstat_table_line sample_netstat"
    "list_all inside_section [''(no)'']"
    by (simp_all add: sample_ss_def sample_netstat_def inside heads in_columns_def MAX_PORT_def blank_free_def js_space_def)
  have listed: "ports_listed sample_ss = [19840, 22, 22]" "ports_listed sample_netstat = [8081]"
    by (simp_all add: sample_ss_def sample_netstat_def)
  have none: "list_all ss_table_line []" "list_all inside_section []" "ports_listed [] = []" by simp_all
  have sorted: "sorted_list_of_set {19840, 22 :: nat} = [22, 19840]" by simp
  show ?thesis
    using scan_reports_listening_ports [where
        exec = "sample_exec (listing_text sample_ss [] [''(no)''] sample_netstat)" and ?rid1.0 = "''1''" and
        ?rid2.0 = "''2''", OF tables(1,2) none(2) tables(3) _ sample_exec_answers]
      scan_reports_listening_ports [where
        exec = "sample_exec (listing_text [] [] [''(no)''] sample_netstat)" and ?rid1.0 = "''1''" and
        ?rid2.0 = "''2''", OF none(1) tables(2) none(2) tables(3) _ sample_exec_answers]
    by (simp add: listed sorted)
qed

text \<open>A scan that failed is never taken for an empty listing.\<close>

lemma failed_scan_proves_nothing: "\<not> scanCanProveAbsence (scan_of (Inl e))"
  by (simp add: scanCanProveAbsence_def scan_of_def)

text \<open>Whatever is listed is a list of distinct ports in range.\<close>

lemma scanned_ports_tidy:
  assumes "scanRemotePorts exec conn rid1 rid2 = Inr ports"
  shows "tidy_ports (map pt_port ports)"
  using assms tidy_merge
  by (auto simp: scanRemotePorts_def parsePortScanResult_def Let_def comp_def split: exec_outcome.splits sum.splits if_splits)

end
