(* ===== verification/Reconnect_Loop.thy ===== *)
theory Reconnect_Loop
  imports Reconnect_Backoff
begin

text \<open>
  The reconnect loop of the clients' shared user interface (src/packages/ui/src/app/reconnectLoop.ts):
  wait out the schedule of \<open>Reconnect_Backoff\<close>, dial, repeat. The platform's timers and the dials in
  flight are part of the state; a timer that is no longer referred to still fires. What the owner is
  told, and every step that is scheduled or dialled, is a log.
\<close>

subsection \<open>State\<close>

datatype loop_report = Scheduled nat int | Dialled | DialFailed | GaveUp

record reconnect_loop =
  lp_autoRetry :: "(nat \<times> int) option"
  lp_retryIn :: int
  lp_recovering :: bool
  lp_backoff :: "backoff option"
  lp_retryTimer :: "nat option"
  lp_countdown :: "int option"
  lp_generation :: nat
  lp_timers :: "(nat \<times> nat) list"
  lp_dials :: "(nat \<times> nat) list"
  lp_next :: nat
  lp_log :: "loop_report list"

definition new_loop :: reconnect_loop where
  "new_loop =
     \<lparr>lp_autoRetry = None, lp_retryIn = 0, lp_recovering = False, lp_backoff = None, lp_retryTimer = None,
      lp_countdown = None, lp_generation = 0, lp_timers = [], lp_dials = [], lp_next = 0, lp_log = []\<rparr>"

definition loop_running :: "reconnect_loop \<Rightarrow> bool" where
  "loop_running s \<longleftrightarrow> lp_backoff s \<noteq> None"

definition add_report :: "loop_report \<Rightarrow> reconnect_loop \<Rightarrow> reconnect_loop" where
  "add_report r s = s\<lparr>lp_log := lp_log s @ [r]\<rparr>"

subsection \<open>The countdown\<close>

text \<open>\<open>Math.ceil((retryAt - now) / 1000)\<close>, at least 0; \<open>lp_countdown\<close> is the interval's \<open>retryAt\<close>.\<close>

definition seconds_left :: "int \<Rightarrow> int \<Rightarrow> int" where
  "seconds_left retryAt now = max 0 (- ((now - retryAt) div 1000))"

definition stopCountdown :: "reconnect_loop \<Rightarrow> reconnect_loop" where
  "stopCountdown s = s\<lparr>lp_countdown := None, lp_retryIn := 0\<rparr>"

definition startCountdown :: "int \<Rightarrow> int \<Rightarrow> reconnect_loop \<Rightarrow> reconnect_loop" where
  "startCountdown retryAt now s = (stopCountdown s)\<lparr>lp_retryIn := seconds_left retryAt now, lp_countdown := Some retryAt\<rparr>"

definition countdown_tick :: "int \<Rightarrow> reconnect_loop \<Rightarrow> reconnect_loop" where
  "countdown_tick now s =
     (case lp_countdown s of None \<Rightarrow> s | Some retryAt \<Rightarrow> s\<lparr>lp_retryIn := seconds_left retryAt now\<rparr>)"

subsection \<open>Steps\<close>

definition clear_timer :: "reconnect_loop \<Rightarrow> reconnect_loop" where
  "clear_timer s =
     (case lp_retryTimer s of
        None \<Rightarrow> s
      | Some i \<Rightarrow> s\<lparr>lp_timers := filter (\<lambda>(j, g). j \<noteq> i) (lp_timers s), lp_retryTimer := None\<rparr>)"

definition clearPendingStep :: "reconnect_loop \<Rightarrow> reconnect_loop" where
  "clearPendingStep s = (stopCountdown (clear_timer s))\<lparr>lp_autoRetry := None\<rparr>"

definition loop_succeeded :: "reconnect_loop \<Rightarrow> reconnect_loop" where
  "loop_succeeded s = stopCountdown (s\<lparr>lp_backoff := None, lp_autoRetry := None, lp_recovering := False\<rparr>)"

definition loop_cancel :: "reconnect_loop \<Rightarrow> reconnect_loop" where
  "loop_cancel s =
     (stopCountdown (clear_timer (s\<lparr>lp_generation := lp_generation s + 1\<rparr>)))
       \<lparr>lp_backoff := None, lp_autoRetry := None, lp_recovering := False\<rparr>"

definition giveUp :: "nat \<Rightarrow> reconnect_loop \<Rightarrow> reconnect_loop" where
  "giveUp gen s =
     (if gen \<noteq> lp_generation s then s
      else add_report GaveUp (stopCountdown (s\<lparr>lp_backoff := None, lp_autoRetry := None, lp_recovering := False\<rparr>)))"

definition scheduleNext :: "nat \<Rightarrow> int \<Rightarrow> reconnect_loop \<Rightarrow> reconnect_loop" where
  "scheduleNext gen now s =
     (case lp_backoff s of
        None \<Rightarrow> giveUp gen s
      | Some b \<Rightarrow>
          (case backoff_next now b of
             (None, b') \<Rightarrow> giveUp gen (s\<lparr>lp_backoff := Some b'\<rparr>)
           | (Some plan, b') \<Rightarrow>
               let s1 = startCountdown (rp_retryAtEpochMs plan) now
                          (s\<lparr>lp_backoff := Some b', lp_autoRetry := Some (rp_attempt plan, rp_retryAtEpochMs plan)\<rparr>) in
               add_report (Scheduled (rp_attempt plan) (rp_delayMs plan))
                 (s1\<lparr>lp_retryTimer := Some (lp_next s1), lp_timers := lp_timers s1 @ [(lp_next s1, gen)],
                     lp_next := lp_next s1 + 1\<rparr>)))"

definition dialStep :: "nat \<Rightarrow> bool \<Rightarrow> reconnect_loop \<Rightarrow> reconnect_loop" where
  "dialStep gen hasTarget s =
     (if gen \<noteq> lp_generation s \<or> \<not> hasTarget then s
      else add_report Dialled (s\<lparr>lp_dials := lp_dials s @ [(lp_next s, gen)], lp_next := lp_next s + 1\<rparr>))"

definition dial_answer :: "nat \<Rightarrow> bool \<Rightarrow> int \<Rightarrow> reconnect_loop \<Rightarrow> reconnect_loop" where
  "dial_answer gen ok now s =
     (if gen \<noteq> lp_generation s \<or> ok then s else scheduleNext gen now (add_report DialFailed s))"

definition loop_begin :: "bool \<Rightarrow> int \<Rightarrow> reconnect_loop \<Rightarrow> reconnect_loop" where
  "loop_begin hasTarget now s =
     (if lp_backoff s \<noteq> None \<or> \<not> hasTarget then s
      else
        let s1 = s\<lparr>lp_backoff := Some (new_backoff \<lparr>o_initialDelayMs = None, o_maxDelayMs = None, o_maxAttempts = None\<rparr>),
                   lp_recovering := True, lp_generation := lp_generation s + 1\<rparr> in
        scheduleNext (lp_generation s1) now s1)"

definition skipWait :: "bool \<Rightarrow> reconnect_loop \<Rightarrow> reconnect_loop" where
  "skipWait hasTarget s = (let s1 = clearPendingStep s in dialStep (lp_generation s1) hasTarget s1)"

text \<open>What the timer of a step does when it fires.\<close>

definition timer_fires :: "nat \<Rightarrow> nat \<Rightarrow> bool \<Rightarrow> reconnect_loop \<Rightarrow> reconnect_loop" where
  "timer_fires i gen hasTarget s =
     dialStep gen hasTarget
       ((stopCountdown (s\<lparr>lp_timers := filter (\<lambda>(j, g). j \<noteq> i) (lp_timers s), lp_retryTimer := None\<rparr>))\<lparr>lp_autoRetry := None\<rparr>)"

subsection \<open>Runs\<close>

text \<open>Events carry the clock and whether there is a host to dial.\<close>

datatype loop_event =
    Begin bool int
  | SkipWait bool
  | ClearStep
  | Succeeded
  | Cancel
  | TimerFires nat bool
  | DialAnswers nat bool int
  | Tick int

fun loop_step :: "reconnect_loop \<Rightarrow> loop_event \<Rightarrow> reconnect_loop" where
  "loop_step s (Begin h now) = loop_begin h now s"
| "loop_step s (SkipWait h) = skipWait h s"
| "loop_step s ClearStep = clearPendingStep s"
| "loop_step s Succeeded = loop_succeeded s"
| "loop_step s Cancel = loop_cancel s"
| "loop_step s (TimerFires i h) =
     (case map_of (lp_timers s) i of None \<Rightarrow> s | Some gen \<Rightarrow> timer_fires i gen h s)"
| "loop_step s (DialAnswers i ok now) =
     (case map_of (lp_dials s) i of
        None \<Rightarrow> s
      | Some gen \<Rightarrow> dial_answer gen ok now (s\<lparr>lp_dials := filter (\<lambda>(j, g). j \<noteq> i) (lp_dials s)\<rparr>))"
| "loop_step s (Tick now) = countdown_tick now s"

lemmas loop_defs =
  loop_begin_def skipWait_def clearPendingStep_def loop_succeeded_def loop_cancel_def timer_fires_def dial_answer_def
  dialStep_def scheduleNext_def giveUp_def clear_timer_def stopCountdown_def startCountdown_def countdown_tick_def
  add_report_def Let_def

subsection \<open>A cancelled recovery stays cancelled\<close>

definition aged :: "nat \<Rightarrow> reconnect_loop \<Rightarrow> bool" where
  "aged g s \<longleftrightarrow> lp_generation s = g \<and> lp_autoRetry s = None \<and> lp_retryIn s = 0 \<and> \<not> lp_recovering s
     \<and> lp_countdown s = None \<and> (\<forall>(i, k)\<in>set (lp_timers s). k < g) \<and> (\<forall>(i, k)\<in>set (lp_dials s). k < g)"

fun starts_dialling :: "loop_event \<Rightarrow> bool" where
  "starts_dialling (Begin h now) = True"
| "starts_dialling (SkipWait h) = True"
| "starts_dialling Cancel = True"
| "starts_dialling _ = False"

lemma aged_step:
  assumes "aged g s" "\<not> starts_dialling e"
  shows "aged g (loop_step s e) \<and> lp_log (loop_step s e) = lp_log s"
proof (cases e)
  case (TimerFires i h)
  show ?thesis
  proof (cases "map_of (lp_timers s) i")
    case (Some gen)
    then have "gen < g" using assms(1) by (auto simp: aged_def dest!: map_of_SomeD)
    then show ?thesis using assms(1) TimerFires Some by (auto simp: aged_def loop_defs)
  qed (use assms TimerFires in simp)
next
  case (DialAnswers i ok now)
  show ?thesis
  proof (cases "map_of (lp_dials s) i")
    case (Some gen)
    then have "gen < g" using assms(1) by (auto simp: aged_def dest!: map_of_SomeD)
    then show ?thesis using assms(1) DialAnswers Some by (auto simp: aged_def loop_defs)
  qed (use assms DialAnswers in simp)
qed (use assms in \<open>auto simp: aged_def loop_defs split: option.splits\<close>)

lemma aged_run:
  "aged g s \<Longrightarrow> \<forall>e\<in>set es. \<not> starts_dialling e \<Longrightarrow>
     aged g (run_events loop_step s es) \<and> lp_log (run_events loop_step s es) = lp_log s"
proof (induction es arbitrary: s)
  case (Cons e es)
  then show ?case using aged_step [of g s e] Cons.IH [of "loop_step s e"] by simp
qed simp

text \<open>Timers and dials belong to this or an earlier generation.\<close>

definition loop_inv :: "reconnect_loop \<Rightarrow> bool" where
  "loop_inv s \<longleftrightarrow> (\<forall>(i, k)\<in>set (lp_timers s). k \<le> lp_generation s) \<and> (\<forall>(i, k)\<in>set (lp_dials s). k \<le> lp_generation s)
     \<and> distinct (map fst (lp_timers s)) \<and> (\<forall>(i, k)\<in>set (lp_timers s). i < lp_next s)
     \<and> (lp_autoRetry s \<noteq> None \<longrightarrow>
          lp_backoff s \<noteq> None \<and> lp_recovering s
          \<and> (\<exists>i. lp_retryTimer s = Some i \<and> (i, lp_generation s) \<in> set (lp_timers s)))
     \<and> (\<forall>b. lp_backoff s = Some b \<longrightarrow> lp_recovering s \<and> bo_initialDelayMs b = INITIAL_DELAY_MS
          \<and> bo_maxDelayMs b = MAX_DELAY_MS \<and> bo_maxAttempts b = MAX_ATTEMPTS)"

lemma loop_inv_new: "loop_inv new_loop"
  by (simp add: loop_inv_def new_loop_def)

lemma next_backoff:
  "backoff_next now b = (p, b') \<Longrightarrow>
     bo_initialDelayMs b' = bo_initialDelayMs b \<and> bo_maxDelayMs b' = bo_maxDelayMs b \<and> bo_maxAttempts b' = bo_maxAttempts b"
  by (auto simp: backoff_next_def Let_def split: if_splits)

lemma loop_inv_schedule:
  assumes "loop_inv (s\<lparr>lp_autoRetry := None\<rparr>)" "gen = lp_generation s"
  shows "loop_inv (scheduleNext gen now s)"
proof (cases "lp_backoff s")
  case None
  then show ?thesis using assms by (auto simp: loop_inv_def loop_defs)
next
  case (Some b)
  obtain p b' where n: "backoff_next now b = (p, b')" by (cases "backoff_next now b")
  show ?thesis
  proof (cases p)
    case None
    then show ?thesis using assms Some n by (auto simp: loop_inv_def loop_defs)
  next
    case p: (Some plan)
    show ?thesis
      using assms Some n p next_backoff [OF n] by (auto simp: loop_inv_def loop_defs intro: less_SucI)
  qed
qed

lemma loop_inv_dialStep: "loop_inv s \<Longrightarrow> loop_inv (dialStep gen h s)"
  by (auto simp: loop_inv_def loop_defs intro: less_SucI)

lemma loop_inv_drop: "loop_inv s \<Longrightarrow> loop_inv (clear_timer (s\<lparr>lp_autoRetry := None\<rparr>))"
  by (auto simp: loop_inv_def clear_timer_def distinct_map_filter split: option.split)

lemma loop_inv_step:
  assumes "loop_inv s"
  shows "loop_inv (loop_step s e)"
proof (cases e)
  case (Begin h now)
  show ?thesis
  proof (cases "lp_backoff s \<noteq> None \<or> \<not> h")
    case True
    then show ?thesis using assms Begin by (simp add: loop_begin_def)
  next
    case False
    let ?b = "new_backoff \<lparr>o_initialDelayMs = None, o_maxDelayMs = None, o_maxAttempts = None\<rparr>"
    have "loop_inv (s\<lparr>lp_backoff := Some ?b, lp_recovering := True, lp_generation := lp_generation s + 1, lp_autoRetry := None\<rparr>)"
      using assms by (fastforce simp: loop_inv_def new_backoff_def)
    then show ?thesis
      using False Begin loop_inv_schedule [of "s\<lparr>lp_backoff := Some ?b, lp_recovering := True, lp_generation := lp_generation s + 1\<rparr>"]
      by (simp add: loop_begin_def Let_def)
  qed
next
  case (SkipWait h)
  have "loop_inv (clearPendingStep s)"
    using loop_inv_drop [OF assms] by (auto simp: loop_inv_def clearPendingStep_def stopCountdown_def clear_timer_def split: option.splits)
  then show ?thesis using SkipWait by (simp add: skipWait_def Let_def loop_inv_dialStep)
next
  case (TimerFires i h)
  then show ?thesis
    using assms
    by (auto simp: timer_fires_def intro!: loop_inv_dialStep split: option.split)
      (auto simp: loop_inv_def stopCountdown_def distinct_map_filter)
next
  case (DialAnswers i ok now)
  show ?thesis
  proof (cases "map_of (lp_dials s) i")
    case None
    then show ?thesis using DialAnswers assms by simp
  next
    case (Some gen)
    let ?s1 = "s\<lparr>lp_dials := filter (\<lambda>(j, g). j \<noteq> i) (lp_dials s)\<rparr>"
    have s1: "loop_inv ?s1" using assms by (auto simp: loop_inv_def)
    then have "loop_inv ((add_report DialFailed ?s1)\<lparr>lp_autoRetry := None\<rparr>)"
      by (auto simp: loop_inv_def add_report_def)
    then have "loop_inv (scheduleNext (lp_generation s) now (add_report DialFailed ?s1))"
      by (rule loop_inv_schedule) (simp add: add_report_def)
    with s1 show ?thesis using DialAnswers Some by (auto simp: dial_answer_def)
  qed
next
  case Cancel
  have "loop_inv (clear_timer (s\<lparr>lp_autoRetry := None\<rparr>))" by (rule loop_inv_drop [OF assms])
  then show ?thesis
    using Cancel by (fastforce simp: loop_inv_def loop_cancel_def clear_timer_def stopCountdown_def split: option.splits)
qed (use assms loop_inv_drop [OF assms] in \<open>auto simp: loop_inv_def loop_defs split: option.splits\<close>)

interpretation looping: machine loop_step loop_inv
  by unfold_locales (rule loop_inv_step)

text \<open>
  C32: After a cancel, whatever timers fire and whatever dials answer, the loop dials nothing, schedules
  nothing and reports nothing until it is asked to begin or to dial again, and no countdown is shown.
\<close>

theorem cancelled_recovery_stays_cancelled:
  assumes "\<forall>e\<in>set later. \<not> starts_dialling e"
  shows "let s = run_events loop_step new_loop (before @ [Cancel]);
             s' = run_events loop_step s later in
         lp_log s' = lp_log s \<and> lp_autoRetry s' = None \<and> lp_retryIn s' = 0 \<and> \<not> lp_recovering s'"
proof -
  let ?b = "run_events loop_step new_loop before"
  have "loop_inv ?b" by (rule looping.run_inv [OF loop_inv_new])
  then have "aged (lp_generation ?b + 1) (loop_cancel ?b)"
    by (auto simp: aged_def loop_inv_def loop_cancel_def clear_timer_def stopCountdown_def split: option.splits)
  from aged_run [OF this assms] show ?thesis
    by (simp add: run_events_append Let_def aged_def)
qed

theorem cancelled_recovery_stays_cancelled_witness:
  "lp_log (run_events loop_step new_loop
     ([Begin True 0, TimerFires 0 True] @ [Cancel] @ [DialAnswers 1 False 9000, TimerFires 0 True, Succeeded]))
   = [Scheduled 1 5000, Dialled]"
proof -
  have "\<forall>e\<in>set [DialAnswers 1 False 9000, TimerFires 0 True, Succeeded]. \<not> starts_dialling e" by simp
  from cancelled_recovery_stays_cancelled [OF this, of "[Begin True 0, TimerFires 0 True]"]
  have "lp_log (run_events loop_step new_loop
      ([Begin True 0, TimerFires 0 True] @ [Cancel] @ [DialAnswers 1 False 9000, TimerFires 0 True, Succeeded]))
    = lp_log (run_events loop_step new_loop ([Begin True 0, TimerFires 0 True] @ [Cancel]))"
    by (simp only: Let_def run_events_append)
  also have "\<dots> = [Scheduled 1 5000, Dialled]" by code_simp
  finally show ?thesis .
qed

subsection \<open>The budget\<close>

fun is_scheduled :: "loop_report \<Rightarrow> bool" where
  "is_scheduled (Scheduled n d) = True"
| "is_scheduled _ = False"

fun is_begin :: "loop_event \<Rightarrow> bool" where
  "is_begin (Begin h now) = True"
| "is_begin _ = False"

definition spent :: "reconnect_loop \<Rightarrow> int" where
  "spent s = int (length (filter is_scheduled (lp_log s)))
     + (case lp_backoff s of None \<Rightarrow> 0 | Some b \<Rightarrow> max 0 (bo_maxAttempts b - int (bo_attempt b)))"

lemma spent_schedule: "spent (scheduleNext gen now s) \<le> spent s"
proof (cases "lp_backoff s")
  case (Some b)
  then show ?thesis
    by (cases "exhausted b") (auto simp: spent_def loop_defs backoff_next_def exhausted_def)
qed (auto simp: spent_def loop_defs)

lemma spent_step:
  assumes "loop_inv s"
  shows "spent (loop_step s e) \<le> spent s + (if is_begin e then MAX_ATTEMPTS else 0)"
proof (cases e)
  case (Begin h now)
  show ?thesis
  proof (cases "lp_backoff s \<noteq> None \<or> \<not> h")
    case True
    then show ?thesis using Begin by (simp add: loop_begin_def MAX_ATTEMPTS_def)
  next
    case False
    let ?b = "new_backoff \<lparr>o_initialDelayMs = None, o_maxDelayMs = None, o_maxAttempts = None\<rparr>"
    let ?s = "s\<lparr>lp_backoff := Some ?b, lp_recovering := True, lp_generation := lp_generation s + 1\<rparr>"
    have "spent ?s = spent s + MAX_ATTEMPTS" using False by (simp add: spent_def new_backoff_def MAX_ATTEMPTS_def)
    then show ?thesis
      using False Begin spent_schedule [of "lp_generation ?s" now ?s] by (simp add: loop_begin_def Let_def)
  qed
next
  case (DialAnswers i ok now)
  have "spent (s\<lparr>lp_dials := ds\<rparr>) = spent s" "spent (add_report DialFailed c) = spent c" for ds c
    by (simp_all add: spent_def add_report_def)
  then show ?thesis
    using DialAnswers spent_schedule
    by (auto simp: dial_answer_def split: option.split) (metis)
qed (auto simp: spent_def loop_defs split: option.split)

text \<open>The loop schedules at most ten retries every time a recovery is begun.\<close>

theorem retries_within_budget:
  "int (length (filter is_scheduled (lp_log (run_events loop_step new_loop events))))
     \<le> MAX_ATTEMPTS * int (length (filter is_begin events))"
proof -
  have "spent (run_events loop_step s es) \<le> spent s + MAX_ATTEMPTS * int (length (filter is_begin es))"
    if "loop_inv s" for s es
    using that
  proof (induction es arbitrary: s)
    case (Cons e es)
    from Cons.IH [OF loop_inv_step [OF Cons.prems, of e]] spent_step [OF Cons.prems, of e]
    show ?case by (simp add: algebra_simps split: if_splits)
  qed simp
  from this [OF loop_inv_new] have "spent (run_events loop_step new_loop events)
      \<le> MAX_ATTEMPTS * int (length (filter is_begin events))"
    by (simp add: spent_def new_loop_def)
  moreover have "int (length (filter is_scheduled (lp_log s))) \<le> spent s" for s
    by (simp add: spent_def split: option.split)
  ultimately show ?thesis using order_trans by blast
qed

text \<open>
  Two dials in flight at once (the user asks for a retry while one is on the wire): the second one to
  fail after the first has succeeded reports that the attempts are used up, although the link is up.
\<close>

lemma late_failure_gives_up_a_live_link:
  "drop 3 (lp_log (run_events loop_step new_loop
     [Begin True 0, TimerFires 0 True, SkipWait True, Succeeded, DialAnswers 1 True 6000, DialAnswers 2 False 7000]))
   = [DialFailed, GaveUp]"
  by code_simp

text \<open>In the other order a retry that is still scheduled when the first succeeds dials a link that is up.\<close>

lemma stale_retry_dials_a_live_link:
  "let s = run_events loop_step new_loop
     [Begin True 0, TimerFires 0 True, SkipWait True, DialAnswers 2 False 6000, Succeeded, DialAnswers 1 True 7000] in
   \<not> loop_running s \<and> lp_log (loop_step s (TimerFires 3 True)) = lp_log s @ [Dialled]"
  by code_simp

end
