(* ===== verification/Gateway_Devices.thy ===== *)
theory Gateway_Devices
  imports Gateway Host_Keys Js_Tokens Ssh_Capability
begin

text \<open>
  The gateway's device registry as a client reads it (src/src/gatewayDevices.ts): the strict device
  list, the host-key pin a user pastes, and the classification of refusals. \<open>Date.parse\<close> is the
  argument \<open>date\<close>. User-facing sentences are represented by what they say (a dash outside ASCII by \<open>-\<close>); error codes that name a
  property of \<open>Object.prototype\<close> are left aside.
\<close>

subsection \<open>The device list\<close>

definition GATEWAY_MAX_DEVICES :: nat where "GATEWAY_MAX_DEVICES = 256"

datatype device_presence = Online string "string option" | Offline string | NoPresence

record gateway_device =
  gd_id :: string
  gd_revoked :: bool
  gd_presence :: device_presence
  gd_advisoryHostKey :: "string option"

text \<open>\<open>/^\d{4}-\d{2}-\d{2}T\d{2}:\d{2}:\d{2}(\.\d{1,9})?(Z|[+-]\d{2}:\d{2})$/\<close>; a \<open>d\<close> of the template is a digit.\<close>

definition fits_template :: "string \<Rightarrow> string \<Rightarrow> bool" where
  "fits_template template s \<longleftrightarrow> length s = length template
     \<and> list_all (\<lambda>(p, c). if p = CHR ''d'' then decimal c else c = p) (zip template s)"

definition rfc3339 :: "string \<Rightarrow> bool" where
  "rfc3339 s =
     (let r = drop 19 s;
          zone = (if starts_with r ''.'' \<and> takeWhile decimal (drop 1 r) \<noteq> [] \<and> length (takeWhile decimal (drop 1 r)) \<le> 9
                  then dropWhile decimal (drop 1 r) else r) in
      fits_template ''dddd-dd-ddTdd:dd:dd'' (take 19 s) \<and> (zone = ''Z'' \<or> fits_template ''+dd:dd'' zone \<or> fits_template ''-dd:dd'' zone))"

definition timestamp :: "(string \<Rightarrow> int option) \<Rightarrow> js \<Rightarrow> string option" where
  "timestamp date v =
     (case v of Str s \<Rightarrow> if rfc3339 s \<and> date s \<noteq> None then Some s else None | _ \<Rightarrow> None)"

text \<open>\<open>None\<close> is the error of a list that cannot be read.\<close>

definition presenceOf :: "(string \<Rightarrow> int option) \<Rightarrow> js \<Rightarrow> bool \<Rightarrow> device_presence option" where
  "presenceOf date raw revoked =
     (case raw of
        Undef \<Rightarrow> Some NoPresence
      | Obj fs \<Rightarrow>
          (case get_prop fs ''online'' of
             Bool online \<Rightarrow>
               (case timestamp date (get_prop fs ''observed_at'') of
                  None \<Rightarrow> None
                | Some observedAt \<Rightarrow>
                    if online \<and> \<not> revoked
                    then (case get_prop fs ''connected_since'' of
                            Undef \<Rightarrow> Some (Online observedAt None)
                          | since \<Rightarrow> map_option (\<lambda>t. Online observedAt (Some t)) (timestamp date since))
                    else Some (Offline observedAt))
           | _ \<Rightarrow> None)
      | _ \<Rightarrow> None)"

definition printable :: "string \<Rightarrow> bool" where
  "printable s \<longleftrightarrow> s \<noteq> [] \<and> list_all (\<lambda>c. 32 \<le> (of_char c :: nat) \<and> (of_char c :: nat) \<le> 126) s"

definition advisory_key :: "js \<Rightarrow> string option option" where
  "advisory_key v =
     (case v of
        Undef \<Rightarrow> Some None
      | Str s \<Rightarrow> (let hint = js_trim s in Some (if length hint \<le> 16384 \<and> printable hint then Some hint else None))
      | _ \<Rightarrow> None)"

definition read_device :: "(string \<Rightarrow> int option) \<Rightarrow> string list \<Rightarrow> js \<Rightarrow> gateway_device option" where
  "read_device date seen row =
     (case row of
        Obj fs \<Rightarrow>
          (case (get_prop fs ''id'', get_prop fs ''revoked'') of
             (Str i, Bool revoked) \<Rightarrow>
               if \<not> isValidGatewayDeviceId i \<or> i \<in> set seen then None
               else (case (advisory_key (get_prop fs ''ssh_host_key''), presenceOf date (get_prop fs ''presence'') revoked) of
                       (Some hint, Some presence) \<Rightarrow>
                         Some \<lparr>gd_id = i, gd_revoked = revoked, gd_presence = presence, gd_advisoryHostKey = hint\<rparr>
                     | _ \<Rightarrow> None)
           | _ \<Rightarrow> None)
      | _ \<Rightarrow> None)"

fun read_devices :: "(string \<Rightarrow> int option) \<Rightarrow> string list \<Rightarrow> js list \<Rightarrow> gateway_device list option" where
  "read_devices date seen [] = Some []"
| "read_devices date seen (row # rows) =
     (case read_device date seen row of
        None \<Rightarrow> None
      | Some d \<Rightarrow> map_option ((#) d) (read_devices date (gd_id d # seen) rows))"

datatype list_error = UnreadableList | TooManyDevices

definition parseGatewayDeviceList :: "(string \<Rightarrow> int option) \<Rightarrow> js \<Rightarrow> list_error + gateway_device list" where
  "parseGatewayDeviceList date body =
     (case body of
        Obj fs \<Rightarrow>
          (case get_prop fs ''devices'' of
             Arr rows \<Rightarrow>
               if length rows > GATEWAY_MAX_DEVICES then Inl TooManyDevices
               else (case read_devices date [] rows of None \<Rightarrow> Inl UnreadableList | Some ds \<Rightarrow> Inr ds)
           | _ \<Rightarrow> Inl UnreadableList)
      | _ \<Rightarrow> Inl UnreadableList)"

definition GATEWAY_DEVICES_PATH :: string where "GATEWAY_DEVICES_PATH = ''/identity/v1/devices''"

text \<open>A canonical origin starts with \<open>wss://\<close> or \<open>ws://\<close>.\<close>

definition gatewayDevicesUrl :: "(string \<Rightarrow> url option) \<Rightarrow> string \<Rightarrow> string option" where
  "gatewayDevicesUrl parse_url serverUrl =
     (case normalizeGatewayServerUrl parse_url serverUrl of
        None \<Rightarrow> None
      | Some canonical \<Rightarrow>
          Some ((if starts_with canonical ''wss://'' then ''https'' else ''http'') @ ''://''
                 @ drop 3 (dropWhile (\<lambda>c. c \<noteq> CHR '':'') canonical) @ GATEWAY_DEVICES_PATH))"

datatype device_status = StOnline | StOffline | StUnknown | StRevoked

definition gatewayDeviceStatus :: "gateway_device \<Rightarrow> device_status" where
  "gatewayDeviceStatus d =
     (if gd_revoked d then StRevoked
      else case gd_presence d of Online _ _ \<Rightarrow> StOnline | Offline _ \<Rightarrow> StOffline | NoPresence \<Rightarrow> StUnknown)"

text \<open>The age of the observation in minutes, and the words for it.\<close>

definition observed_age :: "int option \<Rightarrow> int \<Rightarrow> int option" where
  "observed_age observed now = map_option (\<lambda>t. max 0 ((now - t + 30000) div 60000)) observed"

definition age_text :: "int option \<Rightarrow> string" where
  "age_text age =
     (case age of
        None \<Rightarrow> []
      | Some a \<Rightarrow>
          if a < 1 then '' (just now)''
          else if a < 120 then '' ('' @ show_nat (nat a) @ '' min ago)''
          else '' ('' @ show_nat (nat ((a + 30) div 60)) @ '' h ago)'')"

definition describeGatewayDeviceStatus :: "(string \<Rightarrow> int option) \<Rightarrow> gateway_device \<Rightarrow> int \<Rightarrow> string" where
  "describeGatewayDeviceStatus date d now =
     (if gd_revoked d then ''Revoked - removed from your account''
      else case gd_presence d of
             NoPresence \<Rightarrow> ''Status unknown''
           | Online t _ \<Rightarrow> ''Online'' @ age_text (observed_age (date t) now)
           | Offline t \<Rightarrow> ''Offline'' @ age_text (observed_age (date t) now))"

subsection \<open>Key blobs\<close>

text \<open>The wire reader: what is read and what is left.\<close>

definition wire_string :: "bytes \<Rightarrow> (bytes \<times> bytes) option" where
  "wire_string bs =
     (case bs of
        a # b # c # d # r \<Rightarrow> let n = be32 a b c d in if n > length r then None else Some (take n r, drop n r)
      | _ \<Rightarrow> None)"

fun bit_length :: "nat \<Rightarrow> nat" where
  "bit_length n = (if n = 0 then 0 else Suc (bit_length (n div 2)))"

declare bit_length.simps [simp del]

record mpint =
  mp_bits :: nat
  mp_odd :: bool
  mp_small :: int

definition read_mpint :: "bytes \<Rightarrow> mpint option" where
  "read_mpint bytes =
     (case bytes of
        [] \<Rightarrow> None
      | b # r \<Rightarrow>
          if 128 \<le> unat b then None
          else if b = 0 \<and> r \<noteq> [] \<and> unat (hd r) < 128 then None
          else case dropWhile (\<lambda>x. x = 0) bytes of
                 [] \<Rightarrow> None
               | lead # low \<Rightarrow>
                   let bits = length low * 8 + bit_length (unat lead);
                       tail = drop (length (lead # low) - 4) (lead # low) in
                   Some \<lparr>mp_bits = bits, mp_odd = odd (unat (last bytes)),
                         mp_small = (if bits \<le> 32 then foldl (\<lambda>a x. a * 256 + int (unat x)) 0 tail else max_safe_integer)\<rparr>)"

definition positiveMpint :: "bytes \<Rightarrow> (mpint \<times> bytes) option" where
  "positiveMpint bs =
     (case wire_string bs of
        None \<Rightarrow> None
      | Some (bytes, rest) \<Rightarrow> map_option (\<lambda>m. (m, rest)) (read_mpint bytes))"

definition ascii_bytes :: "string \<Rightarrow> bytes" where
  "ascii_bytes s = map (\<lambda>c. of_nat (of_char c)) s"

definition GATEWAY_HOST_KEY_TYPES :: "string list" where
  "GATEWAY_HOST_KEY_TYPES =
     [''ssh-ed25519'', ''ecdsa-sha2-nistp256'', ''ecdsa-sha2-nistp384'', ''ecdsa-sha2-nistp521'', ''ssh-rsa'']"

definition ed25519_body :: "bytes \<Rightarrow> bool" where
  "ed25519_body r = (case wire_string r of None \<Rightarrow> False | Some (key, rest) \<Rightarrow> length key = 32 \<and> rest = [])"

definition ecdsa_body :: "string \<Rightarrow> bytes \<Rightarrow> bool" where
  "ecdsa_body curve r =
     (case wire_string r of
        None \<Rightarrow> False
      | Some (name, r1) \<Rightarrow>
          name = ascii_bytes curve
          \<and> (case wire_string r1 of
               None \<Rightarrow> False
             | Some (point, rest) \<Rightarrow>
                 length point = (if curve = ''nistp256'' then 65 else if curve = ''nistp384'' then 97 else 133)
                 \<and> hd point = 4 \<and> rest = []))"

definition rsa_body :: "bytes \<Rightarrow> bool" where
  "rsa_body r =
     (case positiveMpint r of
        None \<Rightarrow> False
      | Some (e, r1) \<Rightarrow>
          (case positiveMpint r1 of
             None \<Rightarrow> False
           | Some (n, rest) \<Rightarrow> mp_odd e \<and> 3 \<le> mp_small e \<and> 2048 \<le> mp_bits n \<and> rest = []))"

definition wellFormedKeyBlob :: "string \<Rightarrow> bytes \<Rightarrow> bool" where
  "wellFormedKeyBlob kt blob =
     (case wire_string blob of
        None \<Rightarrow> False
      | Some (name, r) \<Rightarrow>
          name = ascii_bytes kt
          \<and> (if kt = ''ssh-ed25519'' then ed25519_body r
             else if starts_with kt ''ecdsa-sha2-'' then ecdsa_body (drop 11 kt) r
             else rsa_body r))"

subsection \<open>The pasted pin\<close>

datatype host_pin = HostKeyPin string string | FingerprintPin string

fun gatewayHostPinText :: "host_pin \<Rightarrow> string" where
  "gatewayHostPinText (HostKeyPin kt b64) = kt @ '' '' @ b64"
| "gatewayHostPinText (FingerprintPin f) = f"

text \<open>\<open>/^[A-Za-z0-9+/]+={0,2}$/\<close>\<close>

definition b64_line :: "string \<Rightarrow> bool" where
  "b64_line s = (let body = drop_padding s in body \<noteq> [] \<and> length s - length body \<le> 2 \<and> b64_text body)"

definition parseKeyLine :: "string \<Rightarrow> host_pin option" where
  "parseKeyLine line =
     (if \<not> printable line then None
      else case split_on CHR '' '' line of
             [kt, b64] \<Rightarrow>
               if kt = [] \<or> b64 = [] \<or> kt \<notin> set GATEWAY_HOST_KEY_TYPES \<or> \<not> b64_line b64 \<or> length b64 mod 4 \<noteq> 0 then None
               else (case atob b64 of
                       None \<Rightarrow> None
                     | Some blob \<Rightarrow>
                         if bytesToBase64 blob \<noteq> b64 \<or> length blob > 8192 \<or> \<not> wellFormedKeyBlob kt blob then None
                         else Some (HostKeyPin kt b64))
           | _ \<Rightarrow> None)"

definition PINNED_HOST_KEY_LABEL :: string where "PINNED_HOST_KEY_LABEL = ''pinned ssh host key:''"

definition parseGatewayHostPin :: "string \<Rightarrow> host_pin option" where
  "parseGatewayHostPin inp =
     (let t = js_trim inp in
      if t = [] \<or> length t > 16384 \<or> CHR 0x0A \<in> set t \<or> CHR 0x0D \<in> set t then None
      else
        let labelled = (case strip_ci PINNED_HOST_KEY_LABEL t of None \<Rightarrow> t | Some r \<Rightarrow> js_trim r) in
        case parseKeyLine labelled of
          Some pin \<Rightarrow> Some pin
        | None \<Rightarrow>
            if contains_ci ''private key'' t \<or> starts_with labelled ''ssh-'' \<or> starts_with labelled ''ecdsa-'' then None
            else map_option FingerprintPin (normalizeSha256Fingerprint t))"

definition pinMatchesAdvisory :: "host_pin \<Rightarrow> string option \<Rightarrow> bool option" where
  "pinMatchesAdvisory pin advisory =
     (case (advisory, pin) of
        (Some a, HostKeyPin kt b64) \<Rightarrow>
          (case parseKeyLine (join_with '' '' (take 2 (space_tokens (js_trim a)))) of
             Some (HostKeyPin kt' b64') \<Rightarrow> Some (kt' @ '' '' @ b64' = kt @ '' '' @ b64)
           | _ \<Rightarrow> None)
      | _ \<Rightarrow> None)"

subsection \<open>Refusals\<close>

datatype directory_kind = DirSignIn | DirAccountChanged | DirInvalidPairing | DirUnavailable

text \<open>The sentence is the one of a code, the error's own, or the standing one of the kind.\<close>

datatype directory_message = SentenceOf string | ErrorsOwn string | StandingSentence

definition DIRECTORY_CODES :: "(string \<times> directory_kind) list" where
  "DIRECTORY_CODES =
     [(''NOT_SIGNED_IN'', DirSignIn), (''GATEWAY_BROKER_SIGN_IN_REJECTED'', DirSignIn),
      (''GATEWAY_DEVICES_UNAUTHORIZED'', DirSignIn), (''GATEWAY_ACCOUNT_CHANGED'', DirAccountChanged),
      (''GATEWAY_PAIRING_ACCOUNT_CHANGED'', DirAccountChanged)]"

definition thrown_code :: "thrown \<Rightarrow> js" where
  "thrown_code e =
     (case e of
        CapabilityError c \<Rightarrow> Str (e_code c)
      | ErrorObject fs \<Rightarrow> get_prop fs ''code''
      | ThrownObject fs \<Rightarrow> get_prop fs ''code''
      | ThrownText _ \<Rightarrow> Undef)"

definition thrown_message :: "thrown \<Rightarrow> string" where
  "thrown_message e =
     (case e of
        CapabilityError c \<Rightarrow> e_message c
      | ErrorObject fs \<Rightarrow> (case get_prop fs ''message'' of Str m \<Rightarrow> m | _ \<Rightarrow> [])
      | ThrownObject fs \<Rightarrow> (case get_prop fs ''message'' of Str m \<Rightarrow> m | _ \<Rightarrow> [])
      | ThrownText _ \<Rightarrow> [])"

definition own_sentence :: "string \<Rightarrow> directory_message" where
  "own_sentence m = (if m = [] then StandingSentence else ErrorsOwn m)"

definition classifyGatewayDirectoryFailure :: "thrown \<Rightarrow> directory_kind \<times> directory_message" where
  "classifyGatewayDirectoryFailure e =
     (case thrown_code e of
        Str code \<Rightarrow>
          (case map_of DIRECTORY_CODES code of
             Some k \<Rightarrow> (k, SentenceOf code)
           | None \<Rightarrow>
               if code = ''GATEWAY_PAIRING_INVALID'' \<or> code = ''GATEWAY_PAIRING_KEY_MISSING''
               then (DirInvalidPairing, own_sentence (thrown_message e))
               else (DirUnavailable, own_sentence (thrown_message e)))
      | _ \<Rightarrow> (DirUnavailable, own_sentence (thrown_message e)))"

subsection \<open>All or nothing\<close>

lemma read_device_facts:
  assumes "read_device date seen row = Some d"
  shows "isValidGatewayDeviceId (gd_id d) \<and> gd_id d \<notin> set seen
     \<and> (\<exists>fs. row = Obj fs \<and> get_prop fs ''id'' = Str (gd_id d) \<and> get_prop fs ''revoked'' = Bool (gd_revoked d))
     \<and> (gd_revoked d \<longrightarrow> (\<forall>t s. gd_presence d \<noteq> Online t s))"
  using assms
  by (auto simp: read_device_def presenceOf_def split: js.splits option.splits if_splits bool.splits)

lemma read_devices_facts:
  "read_devices date seen rows = Some ds \<Longrightarrow>
     length ds = length rows \<and> distinct (map gd_id ds) \<and> set (map gd_id ds) \<inter> set seen = {}
     \<and> list_all2 (\<lambda>row d. \<exists>fs. row = Obj fs \<and> get_prop fs ''id'' = Str (gd_id d) \<and> get_prop fs ''revoked'' = Bool (gd_revoked d)) rows ds
     \<and> list_all (\<lambda>d. isValidGatewayDeviceId (gd_id d) \<and> (gd_revoked d \<longrightarrow> gatewayDeviceStatus d = StRevoked \<and> (\<forall>t s. gd_presence d \<noteq> Online t s))) ds"
proof (induction rows arbitrary: seen ds)
  case (Cons row rows)
  obtain d ds' where d: "read_device date seen row = Some d" "read_devices date (gd_id d # seen) rows = Some ds'" "ds = d # ds'"
    using Cons.prems by (auto split: option.splits)
  from Cons.IH [OF d(2)] read_device_facts [OF d(1)] d(3) show ?case
    by (auto simp: gatewayDeviceStatus_def)
qed simp

lemma device_list_whole:
  assumes "parseGatewayDeviceList date (Obj fs) = Inr ds"
  shows "\<exists>rows. get_prop fs ''devices'' = Arr rows \<and> length ds = length rows \<and> length rows \<le> 256 \<and> distinct (map gd_id ds)"
  using assms read_devices_facts
  by (fastforce simp: parseGatewayDeviceList_def GATEWAY_MAX_DEVICES_def split: js.splits option.splits if_splits)

subsection \<open>Pins are read back\<close>

lemma length_js_trim: "length (js_trim s) \<le> length s"
  unfolding js_trim_def length_rev by (metis length_dropWhile_le length_rev order_trans)

lemma parseKeyLine_facts:
  assumes "parseKeyLine line = Some pin"
  obtains kt b64 blob where "pin = HostKeyPin kt b64" "line = kt @ '' '' @ b64" "kt \<in> set GATEWAY_HOST_KEY_TYPES" "printable line"
    "b64_line b64" "atob b64 = Some blob" "bytesToBase64 blob = b64" "length blob \<le> 8192" "wellFormedKeyBlob kt blob"
proof -
  from assms obtain kt b64 where s: "printable line" "split_on CHR '' '' line = [kt, b64]"
    by (auto simp: parseKeyLine_def split: if_splits list.splits)
  have "line = kt @ '' '' @ b64" using join_split [of "CHR '' ''" line] s(2) by simp
  moreover have "kt \<in> set GATEWAY_HOST_KEY_TYPES" "b64_line b64" "pin = HostKeyPin kt b64"
    using s assms by (auto simp: parseKeyLine_def split: if_splits option.splits)
  moreover obtain blob where "atob b64 = Some blob" "bytesToBase64 blob = b64" "length blob \<le> 8192" "wellFormedKeyBlob kt blob"
    using s assms by (auto simp: parseKeyLine_def split: if_splits option.splits)
  ultimately show ?thesis using s(1) that by blast
qed

lemma drop_padding_chars: "c \<in> set s \<Longrightarrow> c \<in> set (drop_padding s) \<or> c = CHR ''=''"
proof -
  assume "c \<in> set s"
  then have "c \<in> set (takeWhile (\<lambda>c. c = CHR ''='') (rev s) @ dropWhile (\<lambda>c. c = CHR ''='') (rev s))" by simp
  then show ?thesis unfolding drop_padding_def set_append by (auto dest: set_takeWhileD)
qed

lemma b64_line_chars:
  assumes "b64_line s"
  shows "s \<noteq> []" "\<forall>c\<in>set s. c \<in> set b64_table \<or> c = CHR ''=''"
proof -
  have b: "drop_padding s \<noteq> []" "\<forall>c\<in>set (drop_padding s). c \<in> set b64_table"
    using assms by (simp_all add: b64_line_def Let_def b64_text_def)
  from b(1) show "s \<noteq> []" by (auto simp: drop_padding_def)
  from b(2) drop_padding_chars show "\<forall>c\<in>set s. c \<in> set b64_table \<or> c = CHR ''=''" by blast
qed

lemma table_no_space: "c \<in> set b64_table \<or> c = CHR ''='' \<Longrightarrow> \<not> js_space c"
  by (auto simp: b64_table_def js_space_def)

lemma key_types_edges: "kt \<in> set GATEWAY_HOST_KEY_TYPES \<Longrightarrow> kt \<noteq> [] \<and> \<not> js_space (hd kt) \<and> strip_ci PINNED_HOST_KEY_LABEL (kt @ r) = None"
proof -
  have l: "ascii_lower CHR ''s'' = CHR ''s''" "ascii_lower CHR ''e'' = CHR ''e''" by code_simp+
  assume "kt \<in> set GATEWAY_HOST_KEY_TYPES"
  then show ?thesis
    by (auto simp: GATEWAY_HOST_KEY_TYPES_def js_space_def strip_ci_def PINNED_HOST_KEY_LABEL_def l)
qed

lemma contains_ci_chars: "contains_ci p s \<Longrightarrow> set p \<subseteq> ascii_lower ` set s"
proof (induction s)
  case Nil
  then show ?case by (cases p) (auto simp: contains_ci.simps [of _ "[]"])
next
  case (Cons c cs)
  from Cons.prems consider "take (length p) (map ascii_lower (c # cs)) = p" | "contains_ci p cs"
    by (auto simp: contains_ci.simps [of _ "c # cs"])
  then show ?case
  proof cases
    case 1
    then have "set p \<subseteq> set (map ascii_lower (c # cs))" by (metis set_take_subset)
    then show ?thesis by simp
  qed (use Cons.IH in auto)
qed

lemma lower_space: "ascii_lower c = CHR '' '' \<Longrightarrow> c = CHR '' ''"
proof -
  assume a: "ascii_lower c = CHR '' ''"
  show ?thesis
  proof (cases "65 \<le> (of_char c :: nat) \<and> (of_char c :: nat) \<le> 90")
    case True
    then have "of_char (ascii_lower c) = (of_char c + 32 :: nat)" by (simp add: ascii_lower_def Let_def of_char_of)
    with a True show ?thesis by simp
  qed (use a in \<open>auto simp: ascii_lower_def Let_def split: if_splits\<close>)
qed

lemma fingerprint_facts:
  assumes "normalizeSha256Fingerprint s = Some f"
  shows "\<exists>b. f = ''SHA256:'' @ b \<and> length b = 43 \<and> list_all b64_body_char b"
proof -
  from assms obtain m where m: "find_sha256 s = Some m" "f = ''SHA256:'' @ drop_padding m" "length (drop_padding m) = 43"
    by (auto simp: normalizeSha256Fingerprint_def Let_def split: option.splits if_splits)
  have "set (drop_padding m) \<subseteq> set m" by (auto simp: drop_padding_def dest: set_dropWhileD)
  then show ?thesis using m find_sha256_chars [OF m(1)] by (auto simp: list_all_iff)
qed

lemma key_pin_reread:
  assumes "parseKeyLine line = Some pin" "length line \<le> 16384"
  shows "parseGatewayHostPin (gatewayHostPinText pin) = Some pin"
proof -
  from assms(1) obtain kt b64 blob where k: "pin = HostKeyPin kt b64" "line = kt @ '' '' @ b64"
    "kt \<in> set GATEWAY_HOST_KEY_TYPES" "printable line" "b64_line b64" by (rule parseKeyLine_facts)
  note kt = key_types_edges [OF k(3), of "'' '' @ b64"]
  have b: "b64 \<noteq> []" "\<not> js_space (last b64)" using b64_line_chars [OF k(5)] table_no_space by auto
  have t: "js_trim line = line"
    by (rule js_trim_fixed) (use kt b k(2) in auto)
  have n: "CHR 0x0A \<notin> set line" "CHR 0x0D \<notin> set line" using k(4) by (auto simp: printable_def list_all_iff)
  have l: "strip_ci PINNED_HOST_KEY_LABEL line = None" using kt k(2) by simp
  have "gatewayHostPinText pin = line" using k by simp
  then show ?thesis using t n l assms k(4) by (simp add: parseGatewayHostPin_def printable_def)
qed

lemma fingerprint_pin_reread:
  assumes "normalizeSha256Fingerprint s = Some f"
  shows "parseGatewayHostPin f = Some (FingerprintPin f)"
proof -
  obtain b where b: "f = ''SHA256:'' @ b" "length b = 43" "list_all b64_body_char b" using fingerprint_facts [OF assms] by blast
  have space: "\<not> js_space c" if "c \<in> set f" for c
  proof (cases "c \<in> set b")
    case True
    then show ?thesis using b(3) b64_body_char_space by (auto simp: list_all_iff)
  next
    case False
    then have "c \<in> set ''SHA256:''" using that b(1) by simp
    then show ?thesis by (auto simp: js_space_def)
  qed
  have "b \<noteq> []" using b(2) by auto
  then have t: "js_trim f = f" by (intro js_trim_fixed) (use space b in auto)
  have "js_space CHR 0x0A" "js_space CHR 0x0D" "js_space CHR '' ''" by (simp_all add: js_space_def)
  then have n: "CHR 0x0A \<notin> set f" "CHR 0x0D \<notin> set f" "CHR '' '' \<notin> set f" using space by blast+
  have "ascii_lower CHR ''S'' = CHR ''s''" by code_simp
  then have l: "strip_ci PINNED_HOST_KEY_LABEL f = None" by (simp add: b strip_ci_def PINNED_HOST_KEY_LABEL_def)
  have k: "parseKeyLine f = None" using n(3) by (simp add: parseKeyLine_def split_on_plain)
  have c: "\<not> contains_ci ''private key'' f"
    using contains_ci_chars [of "''private key''" f] n(3) lower_space by fastforce
  have h: "\<not> starts_with f ''ssh-''" "\<not> starts_with f ''ecdsa-''" by (simp_all add: b starts_with_def)
  show ?thesis
    using t n l k c h b(2) normalizeSha256Fingerprint_idem [OF assms] b(1)
    by (simp add: parseGatewayHostPin_def Let_def)
qed

text \<open>
  C33: A pin is read as one thing only. What is kept of a pasted pin is read back as the same pin; a
  key is kept only in its canonical encoding, of a blob whose structure is that of its type; and a
  fingerprint is its own normal form.
\<close>

theorem pasted_pin_reads_back:
  assumes "parseGatewayHostPin inp = Some pin"
  shows "parseGatewayHostPin (gatewayHostPinText pin) = Some pin
    \<and> (case pin of
         HostKeyPin kt b64 \<Rightarrow>
           kt \<in> set GATEWAY_HOST_KEY_TYPES
           \<and> (\<exists>blob. atob b64 = Some blob \<and> bytesToBase64 blob = b64 \<and> wellFormedKeyBlob kt blob)
       | FingerprintPin f \<Rightarrow> normalizeSha256Fingerprint f = Some f)"
proof -
  let ?t = "js_trim inp"
  define labelled where "labelled = (case strip_ci PINNED_HOST_KEY_LABEL ?t of None \<Rightarrow> ?t | Some r \<Rightarrow> js_trim r)"
  have len: "length ?t \<le> 16384" using assms by (auto simp: parseGatewayHostPin_def Let_def split: if_splits)
  have "length r \<le> length ?t" if "strip_ci PINNED_HOST_KEY_LABEL ?t = Some r" for r
    using that by (auto simp: strip_ci_def split: if_splits)
  then have "length labelled \<le> length ?t"
    using length_js_trim order_trans by (fastforce simp: labelled_def split: option.split)
  then have ll: "length labelled \<le> 16384" using len by simp
  consider "parseKeyLine labelled = Some pin"
    | f where "pin = FingerprintPin f" "normalizeSha256Fingerprint ?t = Some f"
    using assms by (auto simp: parseGatewayHostPin_def Let_def labelled_def [symmetric] split: if_splits option.splits)
  then show ?thesis
  proof cases
    case 1
    from 1 obtain kt b64 blob where "pin = HostKeyPin kt b64" "kt \<in> set GATEWAY_HOST_KEY_TYPES"
      "atob b64 = Some blob" "bytesToBase64 blob = b64" "wellFormedKeyBlob kt blob" by (rule parseKeyLine_facts)
    then show ?thesis using key_pin_reread [OF 1 ll] by auto
  next
    case 2
    then show ?thesis using fingerprint_pin_reread [OF 2(2)] normalizeSha256Fingerprint_idem [OF 2(2)] by simp
  qed
qed

theorem pasted_pin_reads_back_witness:
  "parseGatewayHostPin (''SHA256:'' @ replicate 43 CHR ''k'') = Some (FingerprintPin (''SHA256:'' @ replicate 43 CHR ''k''))"
proof -
  have "parseGatewayHostPin (''  SHA256:'' @ replicate 43 CHR ''k'' @ ''='') = Some (FingerprintPin (''SHA256:'' @ replicate 43 CHR ''k''))"
    by code_simp
  from pasted_pin_reads_back [OF this] show ?thesis by simp
qed

end
