(* ===== verification/Attachment_Files.thy ===== *)
theory Attachment_Files
  imports Js_Strings Js_Lists Host_Commands Js_Tokens
begin

text \<open>
  The names attachments are given on a host (src/src/filenamePolicy.ts), and which staged attachments
  are kept (src/src/attachmentPolicy.ts). What a client hands over is a display name from another
  device. Characters are the first 256, one code unit each; which of those above ASCII are letters or
  digits (the class of \<open>\p{L}\p{N}\<close>) is the argument \<open>letter\<close>. Times are whole milliseconds.
\<close>

subsection \<open>Names\<close>

record sanitized_filename =
  fn_base :: string
  fn_ext :: string

definition MAX_SANITIZED_FILENAME_LENGTH :: nat where "MAX_SANITIZED_FILENAME_LENGTH = 200"
definition DEFAULT_SANITIZED_FILENAME :: string where "DEFAULT_SANITIZED_FILENAME = ''shared''"
definition MAX_SANITIZED_EXTENSION_LENGTH :: nat where "MAX_SANITIZED_EXTENSION_LENGTH = 16"

definition renderSanitizedFilename :: "sanitized_filename \<Rightarrow> string" where
  "renderSanitizedFilename n = (if fn_ext n = [] then fn_base n else fn_base n @ ''.'' @ fn_ext n)"

definition afterLast :: "string \<Rightarrow> char \<Rightarrow> string" where
  "afterLast s c = (case last_index c s of None \<Rightarrow> s | Some i \<Rightarrow> drop (Suc i) s)"

definition ascii_word :: "char \<Rightarrow> bool" where
  "ascii_word c \<longleftrightarrow> (let n = of_char c :: nat in 65 \<le> n \<and> n \<le> 90 \<or> 97 \<le> n \<and> n \<le> 122 \<or> 48 \<le> n \<and> n \<le> 57)"

definition isAllowed :: "(char \<Rightarrow> bool) \<Rightarrow> char \<Rightarrow> bool" where
  "isAllowed letter c \<longleftrightarrow> ascii_word c \<or> c \<in> set ''._-'' \<or> (127 < (of_char c :: nat) \<and> letter c)"

definition sanitizeSegment :: "(char \<Rightarrow> bool) \<Rightarrow> string \<Rightarrow> string" where
  "sanitizeSegment letter s =
     trim_ends (\<lambda>c. c \<in> set ''_.-'')
       (replace_runs (\<lambda>c. c = CHR ''_'') ''_'' (map (\<lambda>c. if isAllowed letter c then c else CHR ''_'') s))"

definition extension_of :: "(char \<Rightarrow> bool) \<Rightarrow> string \<Rightarrow> string" where
  "extension_of letter s = take MAX_SANITIZED_EXTENSION_LENGTH (sanitizeSegment letter s)"

definition printable_name :: "string \<Rightarrow> string" where
  "printable_name s =
     filter (\<lambda>c. 32 \<le> (of_char c :: nat) \<and> (of_char c :: nat) \<noteq> 127)
       (replace_runs js_space ''_'' (afterLast (afterLast s CHR ''/'') CHR 0x5C))"

text \<open>The stem and the extension at the last dot that has something on both sides.\<close>

definition split_name :: "string \<Rightarrow> string \<times> string" where
  "split_name s =
     (case last_index CHR ''.'' s of
        Some i \<Rightarrow> if 0 < i \<and> i < length s - 1 then (take i s, drop (Suc i) s) else (trim_ends (\<lambda>c. c = CHR ''.'') s, [])
      | None \<Rightarrow> (trim_ends (\<lambda>c. c = CHR ''.'') s, []))"

definition sanitizeFilename :: "(char \<Rightarrow> bool) \<Rightarrow> string option \<Rightarrow> string option \<Rightarrow> sanitized_filename" where
  "sanitizeFilename letter inp defaultExtension =
     (let raw = (case inp of None \<Rightarrow> [] | Some s \<Rightarrow> s);
          (stem, extension) = split_name (printable_name raw);
          cleanStem = sanitizeSegment letter stem;
          cleanExtension = extension_of letter extension;
          safeStem = (if cleanStem = [] \<or> list_all (\<lambda>c. c = CHR ''.'') cleanStem then DEFAULT_SANITIZED_FILENAME else cleanStem);
          fallback = (case defaultExtension of None \<Rightarrow> [] | Some e \<Rightarrow> extension_of letter e);
          ext = (if cleanExtension \<noteq> [] then cleanExtension else fallback);
          stemLimit = max (MAX_SANITIZED_FILENAME_LENGTH - (if ext \<noteq> [] then length ext + 1 else 0)) 1 in
      \<lparr>fn_base = take stemLimit safeStem, fn_ext = ext\<rparr>)"

definition scope_char :: "char \<Rightarrow> char" where
  "scope_char c =
     (if ascii_word c then ascii_lower c else if c = CHR ''-'' \<or> c = CHR ''_'' then c else CHR ''-'')"

definition sanitizeAttachmentScope :: "string \<Rightarrow> string" where
  "sanitizeAttachmentScope key =
     (let dash = (\<lambda>c. c = CHR ''-'');
          clean = trim_right dash (take 80 (trim_ends dash (replace_runs dash ''-'' (map scope_char key)))) in
      if clean = [] then ''session'' else clean)"

datatype name_error = BadTimestamp | BadIndex

definition timestamp_text :: "string \<Rightarrow> bool" where
  "timestamp_text s \<longleftrightarrow> length s = 15 \<and> s ! 8 = CHR ''-'' \<and> list_all decimal (take 8 s) \<and> list_all decimal (drop 9 s)"

definition pad2 :: "string \<Rightarrow> string" where
  "pad2 s = replicate (2 - length s) CHR ''0'' @ s"

definition composeAttachmentFilename :: "string \<Rightarrow> jsnum \<Rightarrow> sanitized_filename \<Rightarrow> name_error + string" where
  "composeAttachmentFilename timestamp index n =
     (if \<not> timestamp_text timestamp then Inl BadTimestamp
      else case index of
             IntN i \<Rightarrow>
               if 0 \<le> i \<and> i < max_safe_integer
               then Inr (timestamp @ ''-'' @ pad2 (show_nat (nat (i + 1))) @ ''-'' @ renderSanitizedFilename n)
               else Inl BadIndex
           | _ \<Rightarrow> Inl BadIndex)"

subsection \<open>Retention\<close>

text \<open>A file listing; a time that is not finite is \<open>None\<close>.\<close>

record staged_file =
  sf_file :: bool
  sf_fileName :: string
  sf_modifyTime :: "int option"

record retention_policy =
  rt_ttl :: int
  rt_keepNewest :: int
  rt_protectNewest :: int

definition DEFAULT_ATTACHMENT_RETENTION_POLICY :: retention_policy where
  "DEFAULT_ATTACHMENT_RETENTION_POLICY =
     \<lparr>rt_ttl = 7 * 24 * 60 * 60 * 1000, rt_keepNewest = 20, rt_protectNewest = 24 * 60 * 60 * 1000\<rparr>"

text \<open>\<open>a < b\<close> on strings compares code units.\<close>

fun text_before :: "string \<Rightarrow> string \<Rightarrow> bool" where
  "text_before _ [] = False"
| "text_before [] (_ # _) = True"
| "text_before (a # as) (b # bs) =
     ((of_char a :: nat) < of_char b \<or> a = b \<and> text_before as bs)"

definition newest_first :: "(staged_file \<times> int) \<times> nat \<Rightarrow> (staged_file \<times> int) \<times> nat \<Rightarrow> int" where
  "newest_first l r =
     (if snd (fst l) \<noteq> snd (fst r) then snd (fst r) - snd (fst l)
      else if text_before (sf_fileName (fst (fst l))) (sf_fileName (fst (fst r))) then - 1
      else if text_before (sf_fileName (fst (fst r))) (sf_fileName (fst (fst l))) then 1
      else int (snd l) - int (snd r))"

definition dated_files :: "staged_file list \<Rightarrow> (staged_file \<times> int) list" where
  "dated_files entries =
     List.map_filter (\<lambda>e. if sf_file e then (case sf_modifyTime e of Some t \<Rightarrow> if 0 < t then Some (e, t) else None | None \<Rightarrow> None) else None) entries"

definition ordered_files :: "staged_file list \<Rightarrow> (staged_file \<times> int) list" where
  "ordered_files entries =
     (let files = dated_files entries in map fst (sort_by newest_first (zip files [0..<length files])))"

definition may_prune :: "retention_policy \<Rightarrow> int \<Rightarrow> int \<Rightarrow> nat \<Rightarrow> bool" where
  "may_prune p now t newestIndex =
     (let age = now - t in
      \<not> age < rt_protectNewest p \<and> (age \<ge> rt_ttl p \<or> int newestIndex \<ge> rt_keepNewest p))"

datatype policy_error = BadTtl | BadKeepNewest | BadProtectNewest

definition assertRetentionPolicy :: "retention_policy \<Rightarrow> policy_error option" where
  "assertRetentionPolicy p =
     (if \<not> 0 < rt_ttl p then Some BadTtl
      else if \<not> (0 < rt_keepNewest p \<and> rt_keepNewest p \<le> max_safe_integer) then Some BadKeepNewest
      else if \<not> 0 \<le> rt_protectNewest p then Some BadProtectNewest
      else None)"

definition planAttachmentRetention :: "staged_file list \<Rightarrow> int \<Rightarrow> retention_policy \<Rightarrow> policy_error + staged_file list" where
  "planAttachmentRetention entries now p =
     (case assertRetentionPolicy p of
        Some e \<Rightarrow> Inl e
      | None \<Rightarrow>
          let files = ordered_files entries in
          Inr (map (\<lambda>(f, i). fst f) (filter (\<lambda>(f, i). may_prune p now (snd f) i) (zip files [0..<length files]))))"

datatype 'a stage_attempt = Uploaded 'a | UploadFailed

datatype 'a stage_decision =
    StageEmpty
  | StageComplete "'a list"
  | StagePartial "'a list" nat
  | StageFailed nat
  | StageCancelled nat

fun uploaded_of :: "'a stage_attempt list \<Rightarrow> 'a list" where
  "uploaded_of [] = []"
| "uploaded_of (Uploaded a # rest) = a # uploaded_of rest"
| "uploaded_of (UploadFailed # rest) = uploaded_of rest"

definition decideAttachmentStage :: "'a stage_attempt list \<Rightarrow> bool \<Rightarrow> 'a stage_decision" where
  "decideAttachmentStage attempts cancelled =
     (let done = uploaded_of attempts; failedCount = length attempts - length done in
      if cancelled then StageCancelled (length done)
      else if attempts = [] then StageEmpty
      else if failedCount = 0 then StageComplete done
      else if done = [] then StageFailed failedCount
      else StagePartial done failedCount)"

subsection \<open>Names are safe\<close>

lemma sanitizeSegment_allowed: "list_all (isAllowed letter) (sanitizeSegment letter s)"
proof -
  let ?m = "map (\<lambda>c. if isAllowed letter c then c else CHR ''_'') s"
  have u: "isAllowed letter CHR ''_''" by (simp add: isAllowed_def)
  have "set (sanitizeSegment letter s) \<subseteq> set ?m \<union> {CHR ''_''}"
    unfolding sanitizeSegment_def using trim_ends_sublist set_replace_runs by fastforce
  then show ?thesis using u by (fastforce simp: list_all_iff)
qed

lemma sanitizeSegment_edge:
  "sanitizeSegment letter s \<noteq> [] \<Longrightarrow> hd (sanitizeSegment letter s) \<notin> set ''_.-''"
  unfolding sanitizeSegment_def using trim_ends_no_edge by blast

lemma extension_facts: "list_all (isAllowed letter) (extension_of letter s) \<and> length (extension_of letter s) \<le> 16"
  using sanitizeSegment_allowed [of letter s]
  by (auto simp: extension_of_def MAX_SANITIZED_EXTENSION_LENGTH_def list_all_iff dest: in_set_takeD)

lemma sanitized_parts:
  fixes n :: sanitized_filename
  assumes "n = sanitizeFilename letter inp d"
  shows "fn_base n \<noteq> []" "hd (fn_base n) \<notin> set ''_.-''" "list_all (isAllowed letter) (fn_base n)"
    "list_all (isAllowed letter) (fn_ext n)" "length (fn_ext n) \<le> 16" "length (renderSanitizedFilename n) \<le> 200"
proof -
  obtain stem extension where se: "split_name (printable_name (case inp of None \<Rightarrow> [] | Some s \<Rightarrow> s)) = (stem, extension)"
    by (rule prod.exhaust)
  define clean where "clean = sanitizeSegment letter stem"
  define safe where "safe = (if clean = [] \<or> list_all (\<lambda>c. c = CHR ''.'') clean then DEFAULT_SANITIZED_FILENAME else clean)"
  define ext where "ext = (if extension_of letter extension \<noteq> [] then extension_of letter extension
      else (case d of None \<Rightarrow> [] | Some e \<Rightarrow> extension_of letter e))"
  define limit where "limit = max (200 - (if ext \<noteq> [] then length ext + 1 else 0)) (1 :: nat)"
  have n: "n = \<lparr>fn_base = take limit safe, fn_ext = ext\<rparr>"
    unfolding assms sanitizeFilename_def Let_def se prod.case MAX_SANITIZED_FILENAME_LENGTH_def
    unfolding limit_def safe_def clean_def ext_def by (rule refl)
  have e: "list_all (isAllowed letter) ext" "length ext \<le> 16"
    using extension_facts by (auto simp: ext_def split: option.split)
  have default: "list_all (isAllowed letter) DEFAULT_SANITIZED_FILENAME" "DEFAULT_SANITIZED_FILENAME \<noteq> []"
    "hd DEFAULT_SANITIZED_FILENAME \<notin> set ''_.-''"
    by (simp_all add: DEFAULT_SANITIZED_FILENAME_def isAllowed_def ascii_word_def)
  have s: "list_all (isAllowed letter) safe" "safe \<noteq> []" "hd safe \<notin> set ''_.-''"
    using default sanitizeSegment_allowed [of letter stem] sanitizeSegment_edge [of letter stem]
    unfolding safe_def clean_def by (simp_all split: if_splits del: list.set)
  have l: "0 < limit" "limit + (if ext \<noteq> [] then length ext + 1 else 0) \<le> 200" using e(2) by (auto simp: limit_def)
  show "fn_base n \<noteq> []" "hd (fn_base n) \<notin> set ''_.-''" using s(2,3) l(1) by (simp_all add: n hd_take del: list.set)
  show "list_all (isAllowed letter) (fn_base n)" using s(1) by (auto simp: n list_all_iff dest: in_set_takeD)
  show "list_all (isAllowed letter) (fn_ext n)" "length (fn_ext n) \<le> 16" using e by (simp_all add: n)
  show "length (renderSanitizedFilename n) \<le> 200"
    using l(2) by (simp add: renderSanitizedFilename_def n min_def split: if_splits)
qed

lemma scope_char_fine: "scope_char c \<noteq> CHR ''.'' \<and> isAllowed (\<lambda>_. False) (scope_char c)"
proof (cases "ascii_word c")
  case True
  then have "ascii_word (ascii_lower c)" by (auto simp: ascii_word_def ascii_lower_def Let_def of_char_of split: if_splits)
  moreover have "\<not> ascii_word CHR ''.''" by (simp add: ascii_word_def)
  ultimately show ?thesis using True by (auto simp: scope_char_def isAllowed_def)
qed (auto simp: scope_char_def isAllowed_def)

lemma rendered_name_safe:
  "let name = renderSanitizedFilename (sanitizeFilename letter inp d) in
      name \<noteq> [] \<and> length name \<le> 200 \<and> list_all (isAllowed letter) name
      \<and> hd name \<notin> set ''._-'' \<and> set name \<inter> {CHR ''/'', CHR 0x5C, CHR '' '', CHR 0x00} = {}"
proof -
  let ?n = "sanitizeFilename letter inp d"
  note p = sanitized_parts [OF refl, of letter inp d]
  have bad: "\<not> isAllowed letter c" if "c \<in> {CHR ''/'', CHR 0x5C, CHR '' '', CHR 0x00}" for c
    using that by (auto simp: isAllowed_def ascii_word_def)
  have dot: "isAllowed letter CHR ''.''" by (simp add: isAllowed_def)
  have r: "list_all (isAllowed letter) (renderSanitizedFilename ?n)" "renderSanitizedFilename ?n \<noteq> []"
    "hd (renderSanitizedFilename ?n) \<notin> set ''._-''"
    using p(1-4) dot by (auto simp: renderSanitizedFilename_def)
  have "set (renderSanitizedFilename ?n) \<inter> {CHR ''/'', CHR 0x5C, CHR '' '', CHR 0x00} = {}"
    using r(1) bad unfolding list_all_iff by blast
  with r p(6) show ?thesis by (simp add: Let_def)
qed

lemma scope_safe:
  "let scope = sanitizeAttachmentScope key in
      scope \<noteq> [] \<and> length scope \<le> 80 \<and> list_all (isAllowed (\<lambda>_. False)) scope \<and> CHR ''.'' \<notin> set scope
      \<and> hd scope \<noteq> CHR ''-'' \<and> last scope \<noteq> CHR ''-''"
proof -
  let ?dash = "\<lambda>c. c = CHR ''-''"
  define body where "body = trim_ends ?dash (replace_runs ?dash ''-'' (map scope_char key))"
  define clean where "clean = trim_right ?dash (take 80 body)"
  have sc: "scope_char c \<noteq> CHR ''.'' \<and> isAllowed (\<lambda>_. False) (scope_char c)" for c
    by (rule scope_char_fine)
  have chars: "set clean \<subseteq> scope_char ` set key \<union> {CHR ''-''}"
  proof -
    have "set clean \<subseteq> set body"
      unfolding clean_def using set_mono_prefix [OF trim_right_prefix] set_take_subset by fastforce
    also have "\<dots> \<subseteq> scope_char ` set key \<union> {CHR ''-''}"
      unfolding body_def using trim_ends_sublist set_replace_runs by fastforce
    finally show ?thesis .
  qed
  have edges: "hd clean \<noteq> CHR ''-'' \<and> last clean \<noteq> CHR ''-''" if "clean \<noteq> []"
  proof -
    from that have b: "body \<noteq> []" by (auto simp: clean_def trim_right_def)
    have "hd clean = hd (take 80 body)" using that trim_right_hd unfolding clean_def by blast
    then have "hd clean = hd body" by (simp add: hd_take)
    moreover have "hd body \<noteq> CHR ''-''" using trim_ends_no_edge [of ?dash] b unfolding body_def by blast
    moreover have "last clean \<noteq> CHR ''-''" using trim_right_last that unfolding clean_def by blast
    ultimately show ?thesis by simp
  qed
  have "length clean \<le> 80"
    using prefix_length_le [OF trim_right_prefix [of ?dash "take 80 body"]] by (simp add: clean_def)
  moreover have fine: "isAllowed (\<lambda>_. False) c \<and> c \<noteq> CHR ''.''" if "c \<in> set clean" for c
  proof -
    from that chars have "c = CHR ''-'' \<or> c \<in> range scope_char" by blast
    then show ?thesis using sc by (auto simp: isAllowed_def)
  qed
  moreover have "list_all (isAllowed (\<lambda>_. False)) clean" "CHR ''.'' \<notin> set clean"
    using fine by (auto simp: list_all_iff)
  moreover have "sanitizeAttachmentScope key = (if clean = [] then ''session'' else clean)"
    by (simp add: sanitizeAttachmentScope_def clean_def body_def Let_def)
  ultimately show ?thesis using edges by (auto simp: Let_def isAllowed_def ascii_word_def)
qed

text \<open>
  C34: Whatever display name another device hands over, the name a file is given is not empty, at most
  200 characters long, made of letters, digits and \<open>._-\<close> only, so it has no separator, blank or control
  character, and it starts with none of \<open>._-\<close>, so it is neither hidden, nor a step up, nor an option.
  The folder of the session has the same safety in at most 80 characters.
\<close>

theorem attachment_names_are_safe:
  "(let name = renderSanitizedFilename (sanitizeFilename letter inp d) in
      name \<noteq> [] \<and> length name \<le> 200 \<and> list_all (isAllowed letter) name
      \<and> hd name \<notin> set ''._-'' \<and> set name \<inter> {CHR ''/'', CHR 0x5C, CHR '' '', CHR 0x00} = {})
   \<and> (let scope = sanitizeAttachmentScope key in
      scope \<noteq> [] \<and> length scope \<le> 80 \<and> list_all (isAllowed (\<lambda>_. False)) scope \<and> CHR ''.'' \<notin> set scope
      \<and> hd scope \<noteq> CHR ''-'' \<and> last scope \<noteq> CHR ''-'')"
  using rendered_name_safe [of letter inp d] scope_safe [of key] by (rule conjI)

subsection \<open>What is kept\<close>

lemma sorted_newest: "sorted_wrt (\<lambda>l r. snd (fst r) \<le> snd (fst l)) (sort_by newest_first xs)"
proof (induction xs)
  case (Cons x xs)
  have "sorted_wrt (\<lambda>l r. snd (fst r) \<le> snd (fst l)) (insert_by newest_first x ys)"
    if "sorted_wrt (\<lambda>l r. snd (fst r) \<le> snd (fst l)) ys" for ys
    using that
  proof (induction ys)
    case (Cons y ys)
    have sets: "set (insert_by newest_first x ys) = insert x (set ys)"
      using mset_eq_setD [OF mset_insert_by [of newest_first x ys, folded mset.simps(2)]] by simp
    have le: "newest_first x y \<le> 0 \<Longrightarrow> snd (fst y) \<le> snd (fst x)" "\<not> newest_first x y \<le> 0 \<Longrightarrow> snd (fst x) \<le> snd (fst y)"
      by (auto simp: newest_first_def split: if_splits)
    show ?case using Cons le sets by (cases "newest_first x y \<le> 0") fastforce+
  qed simp
  with Cons show ?case by (simp add: sort_by_def)
qed (simp add: sort_by_def)

lemma ordered_mset: "mset (ordered_files entries) = mset (dated_files entries)"
  unfolding ordered_files_def Let_def mset_map_sort_by by simp

lemma ordered_newest:
  assumes "i < length (ordered_files entries)" "j \<le> i"
  shows "snd (ordered_files entries ! i) \<le> snd (ordered_files entries ! j)"
proof (cases "j = i")
  case False
  let ?xs = "sort_by newest_first (zip (dated_files entries) [0..<length (dated_files entries)])"
  have "length ?xs = length (dated_files entries)" by simp
  then have "i < length ?xs" using assms(1) mset_eq_length [OF ordered_mset [of entries]] by simp
  then show ?thesis
    using sorted_wrt_nth_less [OF sorted_newest, of j i] assms(2) False by (simp add: ordered_files_def Let_def)
qed simp

lemma at_least_newer:
  assumes "i < length xs" "\<And>j. j \<le> i \<Longrightarrow> P (xs ! j)"
  shows "i < length (filter P xs)"
proof -
  have "{..i} \<subseteq> {j. j < length xs \<and> P (xs ! j)}" using assms by auto
  then have "card {..i} \<le> card {j. j < length xs \<and> P (xs ! j)}" by (intro card_mono) auto
  then show ?thesis by (simp add: length_filter_conv_card)
qed

text \<open>
  A file that is pruned is old enough, and either past its time or behind as many newer ones as are kept.
\<close>

theorem retention_spares_new_files:
  assumes "planAttachmentRetention entries now p = Inr pruned" "f \<in> set pruned"
  shows "\<exists>t. (f, t) \<in> set (dated_files entries) \<and> rt_protectNewest p \<le> now - t
    \<and> (rt_ttl p \<le> now - t \<or> rt_keepNewest p < int (length (filter (\<lambda>(g, u). t \<le> u) (dated_files entries))))"
proof -
  let ?fs = "ordered_files entries"
  have "pruned = map (\<lambda>(f, i). fst f) (filter (\<lambda>(f, i). may_prune p now (snd f) i) (zip ?fs [0..<length ?fs]))"
    using assms(1) by (auto simp: planAttachmentRetention_def Let_def split: option.splits)
  with assms(2) obtain e i where "(e, i) \<in> set (zip ?fs [0..<length ?fs])" "fst e = f" and m: "may_prune p now (snd e) i"
    by auto
  then have i: "i < length ?fs" "?fs ! i = (f, snd e)" by (auto simp: set_zip)
  have "i < length (filter (\<lambda>(g, u). snd e \<le> u) ?fs)"
    using ordered_newest [OF i(1)] i by (intro at_least_newer) (auto simp: case_prod_beta)
  also have "\<dots> = length (filter (\<lambda>(g, u). snd e \<le> u) (dated_files entries))"
    using ordered_mset [of entries] by (metis mset_filter size_mset)
  finally have c: "i < length (filter (\<lambda>(g, u). snd e \<le> u) (dated_files entries))" .
  have "(f, snd e) \<in> set (dated_files entries)"
    using mset_eq_setD [OF ordered_mset [of entries]] i nth_mem by metis
  then show ?thesis using m c by (auto simp: may_prune_def Let_def)
qed

end
