(* ===== verification/Session_Records.thy ===== *)
theory Session_Records
  imports Session_Tree Host_Cli_Sessions
begin

text \<open>
  From what a host reports of its sessions to the rows the panel files: the session manager's records
  (src/src/aplexerParsers.ts), the rows of the host CLI (src/src/sessionRowSummary.ts), and the question
  whether a session outlived the client that was attached to it (src/src/sessionClientExit.ts). The
  argument \<open>json\<close> is \<open>JSON.parse\<close>. \<open>byOldestCreated\<close> is left aside.
\<close>

subsection \<open>Records of the session manager\<close>

record aplexer_record =
  ar_id :: string
  ar_workspace :: string
  ar_tag :: string
  ar_engine :: string
  ar_agent :: "string option option"
  ar_profile :: "string option"
  ar_cwd :: "string option"
  ar_phase :: string
  ar_workerAlive :: "bool option"
  ar_createdAtMs :: jsnum
  ar_lastActivityMs :: "jsnum option"

fun finite_num :: "js \<Rightarrow> jsnum option" where
  "finite_num (Num (IntN i)) = Some (IntN i)"
| "finite_num (Num (FracN i)) = Some (FracN i)"
| "finite_num _ = None"

fun text_of :: "js \<Rightarrow> string option" where
  "text_of (Str s) = Some s"
| "text_of _ = None"

fun full_text :: "js \<Rightarrow> string option" where
  "full_text (Str s) = (if s = [] then None else Some s)"
| "full_text _ = None"

definition isTerminalPhase :: "string \<Rightarrow> bool" where
  "isTerminalPhase phase \<longleftrightarrow> phase = ''exited'' \<or> phase = ''failed''"

definition text_or_empty :: "js \<Rightarrow> string" where
  "text_or_empty v = (case text_of v of Some s \<Rightarrow> s | None \<Rightarrow> [])"

definition parseAplexerRecord :: "js \<Rightarrow> aplexer_record option" where
  "parseAplexerRecord row =
     (case row of
        Obj doc \<Rightarrow>
          (case (full_text (get_prop doc ''id''), full_text (get_prop doc ''workspace''), full_text (get_prop doc ''tag'')) of
             (Some i, Some w, Some t) \<Rightarrow>
               let phase = text_or_empty (get_prop doc ''phase''); alive = get_prop doc ''worker_alive'' in
               if alive = Bool False then None
               else if alive \<noteq> Bool True \<and> isTerminalPhase phase then None
               else Some \<lparr>ar_id = i, ar_workspace = w, ar_tag = t, ar_engine = text_or_empty (get_prop doc ''engine''),
                      ar_agent = (case get_prop doc ''agent'' of Str a \<Rightarrow> Some (Some a) | Null \<Rightarrow> Some None | _ \<Rightarrow> None),
                      ar_profile = full_text (get_prop doc ''profile''), ar_cwd = full_text (get_prop doc ''cwd''),
                      ar_phase = phase, ar_workerAlive = (case alive of Bool b \<Rightarrow> Some b | _ \<Rightarrow> None),
                      ar_createdAtMs = (case finite_num (get_prop doc ''created_at_ms'') of Some n \<Rightarrow> n | None \<Rightarrow> IntN 0),
                      ar_lastActivityMs = finite_num (get_prop doc ''last_activity_ms'')\<rparr>
           | _ \<Rightarrow> None)
      | _ \<Rightarrow> None)"

definition records_of :: "js \<Rightarrow> aplexer_record list" where
  "records_of v = (case v of Arr rows \<Rightarrow> List.map_filter parseAplexerRecord rows | _ \<Rightarrow> [])"

definition parseAplexerSnapshot :: "(string \<Rightarrow> js option) \<Rightarrow> string \<Rightarrow> aplexer_record list" where
  "parseAplexerSnapshot json out = (case json (js_trim out) of None \<Rightarrow> [] | Some v \<Rightarrow> records_of v)"

text \<open>The engine names, which are also the kinds the panel knows.\<close>

definition agentKindFromEngine :: "string option \<Rightarrow> panel_agent option" where
  "agentKindFromEngine engine =
     (case engine of
        None \<Rightarrow> None
      | Some e \<Rightarrow>
          map_of [(''claude'', AgClaude), (''codex'', AgCodex), (''opencode'', AgOpencode), (''grok'', AgGrok),
                  (''agy'', AgAntigravity), (''antigravity'', AgAntigravity), (''shell'', AgShell)]
            (map char_lower (js_trim e)))"

datatype warning_cause = CauseOom | CauseCrash

record aplexer_warning =
  aw_session :: string
  aw_tag :: string
  aw_kind :: warning_cause
  aw_createdAtMs :: jsnum
  aw_workspace :: string
  aw_engine :: string
  aw_detail :: string

definition read_aplexer_warning :: "js \<Rightarrow> aplexer_warning option" where
  "read_aplexer_warning row =
     (case row of
        Obj doc \<Rightarrow>
          (case (full_text (get_prop doc ''session''), full_text (get_prop doc ''tag''), text_of (get_prop doc ''kind''),
                 finite_num (get_prop doc ''created_at_ms'')) of
             (Some session, Some tag, Some kind, Some created) \<Rightarrow>
               map_option (\<lambda>k. \<lparr>aw_session = session, aw_tag = tag, aw_kind = k, aw_createdAtMs = created,
                   aw_workspace = text_or_empty (get_prop doc ''workspace''), aw_engine = text_or_empty (get_prop doc ''engine''),
                   aw_detail = text_or_empty (get_prop doc ''detail'')\<rparr>)
                 (if kind = ''oom'' then Some CauseOom else if kind = ''crash'' then Some CauseCrash else None)
           | _ \<Rightarrow> None)
      | _ \<Rightarrow> None)"

definition parseAplexerWarnings :: "(string \<Rightarrow> js option) \<Rightarrow> string \<Rightarrow> aplexer_warning list" where
  "parseAplexerWarnings json out =
     (case json (js_trim out) of Some (Arr rows) \<Rightarrow> List.map_filter read_aplexer_warning rows | _ \<Rightarrow> [])"

text \<open>\<open>JSON.stringify([parsed])\<close> is parsed again, which gives \<open>json_norm (Arr [parsed])\<close>.\<close>

definition parseSingleAplexerRecord :: "(string \<Rightarrow> js option) \<Rightarrow> string \<Rightarrow> aplexer_record option" where
  "parseSingleAplexerRecord json out =
     (case (find_index (\<lambda>c. c = CHR 0x7B) out, last_index CHR 0x7D out) of
        (Some start, Some end') \<Rightarrow>
          if end' \<le> start then None
          else (case json (drop start (take (Suc end') out)) of
                  None \<Rightarrow> None
                | Some parsed \<Rightarrow> (case records_of (json_norm (Arr [parsed])) of [] \<Rightarrow> None | r # _ \<Rightarrow> Some r))
      | _ \<Rightarrow> None)"

definition engine_row :: "js \<Rightarrow> (string \<times> bool) option" where
  "engine_row row =
     (case row of
        Obj doc \<Rightarrow>
          (case (get_prop doc ''name'', get_prop doc ''available'') of
             (Str name, Bool available) \<Rightarrow> if js_trim name = [] then None else Some (name, available)
           | _ \<Rightarrow> None)
      | _ \<Rightarrow> None)"

definition parseAplexerEngineIds :: "(string \<Rightarrow> js option) \<Rightarrow> string \<Rightarrow> string list option" where
  "parseAplexerEngineIds json out =
     (case json (js_trim out) of
        Some (Arr rows) \<Rightarrow>
          let wellFormed = List.map_filter engine_row rows in
          if wellFormed = [] \<and> rows \<noteq> [] then None else Some (map fst (filter snd wellFormed))
      | _ \<Rightarrow> None)"

subsection \<open>Rows of the panel\<close>

text \<open>What a summary carries of the session manager beside what the panel files it by.\<close>

record listed_session = session_summary +
  ls_tag :: "string option"
  ls_aplexerId :: "string option"
  ls_profile :: "string option"
  ls_aplexerPhase :: "string option"

fun floor_seconds :: "jsnum \<Rightarrow> int" where
  "floor_seconds (IntN i) = i div 1000"
| "floor_seconds (FracN i) = i div 1000"
| "floor_seconds _ = 0"

definition or_kind :: "panel_agent option \<Rightarrow> panel_agent option \<Rightarrow> panel_agent option" where
  "or_kind a b = (case a of Some k \<Rightarrow> Some k | None \<Rightarrow> b)"

definition nonempty :: "string option \<Rightarrow> string option" where
  "nonempty s = (case s of Some [] \<Rightarrow> None | _ \<Rightarrow> s)"

definition aplexerRecordToSummary :: "aplexer_record \<Rightarrow> listed_session" where
  "aplexerRecordToSummary r =
     (let workspace = (case normaliseWindowsPath (ar_workspace r) of Some w \<Rightarrow> w | None \<Rightarrow> ar_workspace r);
          cwd = (case normaliseWindowsPath (case ar_cwd r of Some c \<Rightarrow> c | None \<Rightarrow> []) of Some c \<Rightarrow> Some c | None \<Rightarrow> ar_cwd r);
          created = floor_seconds (ar_createdAtMs r) in
      \<lparr>ss_name = ar_tag r, ss_created = created,
       ss_activity = (case ar_lastActivityMs r of Some n \<Rightarrow> floor_seconds n | None \<Rightarrow> created),
       ss_attached = False, ss_path = (if workspace \<noteq> [] then Some workspace else cwd),
       ss_backend = Some AplexerBackend, ss_workspace = Some workspace,
       ss_agentKind = or_kind (agentKindFromEngine (case ar_agent r of Some a \<Rightarrow> a | None \<Rightarrow> None)) (agentKindFromEngine (Some (ar_engine r))),
       ss_repoRoot = None, ls_tag = Some (ar_tag r), ls_aplexerId = Some (ar_id r), ls_profile = nonempty (ar_profile r),
       ls_aplexerPhase = nonempty (Some (ar_phase r))\<rparr>)"

definition tag_or_name :: "session_row \<Rightarrow> string" where
  "tag_or_name row = (case s_tag row of Some t \<Rightarrow> t | None \<Rightarrow> s_name row)"

definition sessionRowToSummary :: "session_row \<Rightarrow> listed_session" where
  "sessionRowToSummary row =
     (let created = (case s_createdEpoch row of Some n \<Rightarrow> n | None \<Rightarrow> 0) in
      \<lparr>ss_name = tag_or_name row, ss_created = created,
       ss_activity = (case s_activityEpoch row of Some n \<Rightarrow> n | None \<Rightarrow> created),
       ss_attached = s_attached row, ss_path = s_workspace row, ss_backend = Some AplexerBackend,
       ss_workspace = s_workspace row,
       ss_agentKind = or_kind (agentKindFromEngine (s_agent row)) (agentKindFromEngine (s_engine row)),
       ss_repoRoot = None, ls_tag = Some (tag_or_name row), ls_aplexerId = s_id row, ls_profile = nonempty (s_profile row),
       ls_aplexerPhase = nonempty (s_phase row)\<rparr>)"

record attach_request =
  aq_sessionName :: string
  aq_workspace :: "string option"
  aq_tag :: "string option"
  aq_aplexerId :: "string option"

definition find_by_name :: "session_row list \<Rightarrow> attach_request \<Rightarrow> session_row option" where
  "find_by_name rows q =
     (let tag = (case aq_tag q of Some t \<Rightarrow> t | None \<Rightarrow> aq_sessionName q) in
      case List.find (\<lambda>r. tag_or_name r = tag \<and> (aq_workspace q = None \<or> s_workspace r = aq_workspace q)) rows of
        Some r \<Rightarrow> Some r
      | None \<Rightarrow> List.find (\<lambda>r. s_name r = aq_sessionName q) rows)"

definition findSessionRow :: "session_row list \<Rightarrow> attach_request \<Rightarrow> session_row option" where
  "findSessionRow rows q =
     (case nonempty (aq_aplexerId q) of
        None \<Rightarrow> find_by_name rows q
      | Some i \<Rightarrow> (case List.find (\<lambda>r. s_id r = Some i) rows of Some r \<Rightarrow> Some r | None \<Rightarrow> find_by_name rows q))"

subsection \<open>The client's exit\<close>

record exit_target =
  et_sessionName :: string
  et_workspace :: "string option"
  et_aplexerId :: "string option"

definition ENDING_APLEXER_PHASES :: "string list" where
  "ENDING_APLEXER_PHASES = [''exiting'', ''exited'', ''failed'']"

definition names_target :: "exit_target \<Rightarrow> listed_session \<Rightarrow> bool" where
  "names_target t s \<longleftrightarrow>
     (case nonempty (et_aplexerId t) of
        Some i \<Rightarrow> ls_aplexerId s = Some i
      | None \<Rightarrow> (case ls_tag s of Some tag \<Rightarrow> tag | None \<Rightarrow> ss_name s) = et_sessionName t
                \<and> (et_workspace t = None \<or> ss_workspace s = et_workspace t))"

definition ending_phase :: "string option \<Rightarrow> bool" where
  "ending_phase phase = (case phase of None \<Rightarrow> False | Some p \<Rightarrow> map char_lower (js_trim p) \<in> set ENDING_APLEXER_PHASES)"

definition sessionOutlivedClient :: "listed_session list \<Rightarrow> exit_target \<Rightarrow> bool" where
  "sessionOutlivedClient listing t =
     (case List.find (names_target t) listing of None \<Rightarrow> False | Some s \<Rightarrow> \<not> ending_phase (ls_aplexerPhase s))"

subsection \<open>Who is rejoined\<close>

lemma full_text_Some: "full_text v = Some s \<Longrightarrow> v = Str s \<and> s \<noteq> []"
  by (cases v) (auto split: if_splits)

lemma find_holds: "List.find P xs = Some x \<Longrightarrow> x \<in> set xs \<and> P x"
  by (auto simp: find_Some_iff)

lemma record_facts:
  assumes "parseAplexerRecord row = Some r"
  shows "\<exists>doc. row = Obj doc \<and> get_prop doc ''id'' = Str (ar_id r) \<and> get_prop doc ''tag'' = Str (ar_tag r)
    \<and> get_prop doc ''workspace'' = Str (ar_workspace r)
    \<and> ar_id r \<noteq> [] \<and> ar_tag r \<noteq> [] \<and> ar_workspace r \<noteq> [] \<and> get_prop doc ''worker_alive'' \<noteq> Bool False
    \<and> ar_phase r = text_or_empty (get_prop doc ''phase'')"
proof -
  from assms obtain doc where doc: "row = Obj doc" by (cases row) (simp_all add: parseAplexerRecord_def)
  obtain i w t where f: "full_text (get_prop doc ''id'') = Some i" "full_text (get_prop doc ''workspace'') = Some w"
    "full_text (get_prop doc ''tag'') = Some t"
    using assms by (cases "full_text (get_prop doc ''id'')"; cases "full_text (get_prop doc ''workspace'')";
      cases "full_text (get_prop doc ''tag'')") (simp_all add: parseAplexerRecord_def doc)
  have "get_prop doc ''worker_alive'' \<noteq> Bool False" and "ar_id r = i" "ar_workspace r = w" "ar_tag r = t"
    "ar_phase r = text_or_empty (get_prop doc ''phase'')"
    using assms by (auto simp: parseAplexerRecord_def doc f Let_def split: if_splits)
  then show ?thesis using doc f [THEN full_text_Some] by auto
qed

lemma map_filter_from: "y \<in> set (List.map_filter f xs) \<Longrightarrow> \<exists>x\<in>set xs. f x = Some y"
  by (auto simp: List.map_filter_def)

lemma snapshot_rows:
  assumes "r \<in> set (parseAplexerSnapshot json out)"
  shows "\<exists>rows. json (js_trim out) = Some (Arr rows) \<and> r \<in> set (List.map_filter parseAplexerRecord rows)"
proof -
  obtain v where v: "json (js_trim out) = Some v" "r \<in> set (records_of v)"
    using assms by (cases "json (js_trim out)") (simp_all add: parseAplexerSnapshot_def)
  from v(2) have "\<exists>rows. v = Arr rows \<and> r \<in> set (List.map_filter parseAplexerRecord rows)"
    by (cases v) (simp_all add: records_of_def)
  with v(1) show ?thesis by blast
qed

text \<open>
  C35: A pane whose client exited is attached again only to the very session it showed: when the pane
  knows the session's id, the snapshot the host gave has an entry with that id, whose worker is not
  reported dead and whose phase is not one of an ending session; a new session with the same tag does
  not do.
\<close>

theorem rejoined_session_is_the_same:
  assumes "sessionOutlivedClient (map aplexerRecordToSummary (parseAplexerSnapshot json out)) target"
    and "et_aplexerId target = Some i" "i \<noteq> []"
  shows "\<exists>rows doc. json (js_trim out) = Some (Arr rows) \<and> Obj doc \<in> set rows \<and> get_prop doc ''id'' = Str i
    \<and> get_prop doc ''worker_alive'' \<noteq> Bool False
    \<and> map char_lower (js_trim (text_or_empty (get_prop doc ''phase''))) \<notin> {''exiting'', ''exited'', ''failed''}"
proof -
  have n: "nonempty (et_aplexerId target) = Some i" using assms(2, 3) by (auto simp: nonempty_def split: list.splits)
  let ?recs = "parseAplexerSnapshot json out"
  from assms(1) obtain s where s: "s \<in> set (map aplexerRecordToSummary ?recs)" "names_target target s" "\<not> ending_phase (ls_aplexerPhase s)"
    unfolding sessionOutlivedClient_def by (auto split: option.splits simp del: set_map dest!: find_holds)
  then obtain r where r: "r \<in> set ?recs" "s = aplexerRecordToSummary r" by auto
  obtain rows where rows: "json (js_trim out) = Some (Arr rows)" "r \<in> set (List.map_filter parseAplexerRecord rows)"
    using snapshot_rows [OF r(1)] by blast
  from map_filter_from [OF rows(2)] obtain row where row: "row \<in> set rows" "parseAplexerRecord row = Some r" by blast
  from record_facts [OF row(2)] obtain doc where doc: "row = Obj doc" "get_prop doc ''id'' = Str (ar_id r)"
    "get_prop doc ''worker_alive'' \<noteq> Bool False" "ar_phase r = text_or_empty (get_prop doc ''phase'')" by blast
  have "ar_id r = i" using s(2) n by (simp add: names_target_def r(2) aplexerRecordToSummary_def Let_def)
  moreover have "map char_lower (js_trim (ar_phase r)) \<notin> {''exiting'', ''exited'', ''failed''}"
  proof (cases "ar_phase r")
    case Nil
    then show ?thesis by (simp add: js_trim_def)
  next
    case (Cons c cs)
    then have "ls_aplexerPhase s = Some (ar_phase r)"
      by (simp add: r(2) aplexerRecordToSummary_def Let_def nonempty_def)
    then show ?thesis using s(3) by (simp add: ending_phase_def ENDING_APLEXER_PHASES_def)
  qed
  ultimately show ?thesis using rows(1) row(1) doc by auto
qed

definition sample_snapshot :: js where
  "sample_snapshot = Arr [Null, Obj [(''id'', Str ''u1''), (''workspace'', Str ''/w''), (''tag'', Str ''a''), (''phase'', Str ''running'')]]"

theorem rejoined_session_is_the_same_witness:
  "\<exists>doc. Obj doc \<in> set [Null, Obj [(''id'', Str ''u1''), (''workspace'', Str ''/w''), (''tag'', Str ''a''), (''phase'', Str ''running'')]]
     \<and> get_prop doc ''id'' = Str ''u1''"
proof -
  let ?json = "\<lambda>t. if t = ''snap'' then Some sample_snapshot else None"
  have "sessionOutlivedClient (map aplexerRecordToSummary (parseAplexerSnapshot ?json ''snap''))
      \<lparr>et_sessionName = ''a'', et_workspace = None, et_aplexerId = Some ''u1''\<rparr>"
    by code_simp
  from rejoined_session_is_the_same [OF this] show ?thesis
    by (auto simp: sample_snapshot_def js_trim_def js_space_def)
qed

text \<open>An attach request that names an id is answered by the row of that id if the host lists it.\<close>

lemma requested_id_is_found:
  assumes "aq_aplexerId q = Some i" "i \<noteq> []" "\<exists>r\<in>set rows. s_id r = Some i"
  shows "\<exists>r. findSessionRow rows q = Some r \<and> s_id r = Some i"
proof -
  have "nonempty (aq_aplexerId q) = Some i" using assms(1, 2) by (auto simp: nonempty_def split: list.splits)
  moreover obtain r where "List.find (\<lambda>r. s_id r = Some i) rows = Some r"
    using assms(3) by (cases "List.find (\<lambda>r. s_id r = Some i) rows") (auto simp: find_None_iff)
  ultimately show ?thesis using find_holds [of "\<lambda>r. s_id r = Some i" rows r] by (simp add: findSessionRow_def)
qed

text \<open>An empty catalog of engines is never a misread one.\<close>

lemma no_engines_is_an_answer:
  assumes "parseAplexerEngineIds json out = Some []" "json (js_trim out) = Some (Arr rows)" "rows \<noteq> []"
  shows "\<exists>doc name. Obj doc \<in> set rows \<and> get_prop doc ''name'' = Str name \<and> get_prop doc ''available'' = Bool False"
proof -
  define good where "good = List.map_filter engine_row rows"
  have "(if good = [] \<and> rows \<noteq> [] then None else Some (map fst (filter snd good))) = Some []"
    using assms(1) by (simp only: parseAplexerEngineIds_def assms(2) option.case js.case Let_def good_def)
  then have "good \<noteq> []" "filter snd good = []" using assms(3) by (simp_all split: if_splits)
  then obtain x where x: "x \<in> set (List.map_filter engine_row rows)" "\<not> snd x"
    unfolding good_def by (metis filter_empty_conv hd_in_set)
  from map_filter_from [OF x(1)] obtain row where row: "row \<in> set rows" "engine_row row = Some x" by blast
  from row(2) obtain doc where doc: "row = Obj doc" by (cases row) (simp_all add: engine_row_def)
  then obtain name b where "get_prop doc ''name'' = Str name" "get_prop doc ''available'' = Bool b" "x = (name, b)"
    using row(2) by (cases "get_prop doc ''name''"; cases "get_prop doc ''available''") (simp_all add: engine_row_def doc split: if_splits)
  then show ?thesis using x(2) row(1) doc by auto
qed

end
