(* ===== verification/User_Lists.thy ===== *)
theory User_Lists
  imports Folder_Order
begin

text \<open>
  Lists the user puts in order, beside folders and tabs: the snippets and command templates of a host
  (src/src/snippets.ts) and the roots of the panel (src/packages/ui/src/app/rootOrder.ts); and the
  one parked agent launch (src/packages/ui/src/app/pendingAgentLaunch.ts).
\<close>

subsection \<open>Items of a host\<close>

record host_item =
  it_id :: string
  it_hostId :: string
  it_sortOrder :: int

record host_snippet = host_item +
  sn_label :: "string option"
  sn_body :: string
  sn_kind :: string

record command_template = host_item +
  ct_label :: string
  ct_commands :: string

datatype legacy_reason =
    InvalidShape | InvalidRow nat | InvalidId nat | DuplicateId nat | InvalidHostId nat | UnknownHostId nat
  | InvalidLabel nat | InvalidBody nat | InvalidKind nat

fun positive_safe :: "js \<Rightarrow> int option" where
  "positive_safe (Num (IntN i)) = (if 0 < i \<and> i \<le> max_safe_integer then Some i else None)"
| "positive_safe _ = None"

fun is_text :: "js \<Rightarrow> bool" where
  "is_text (Str s) = True"
| "is_text _ = False"

definition validLegacyHostIds :: "jsnum list \<Rightarrow> bool" where
  "validLegacyHostIds hostIds = list_all (\<lambda>n. positive_safe (Num n) \<noteq> None) hostIds"

text \<open>The id and the host of a row.\<close>

definition read_legacy_ids :: "jsnum list \<Rightarrow> int list \<Rightarrow> nat \<Rightarrow> fields \<Rightarrow> legacy_reason + int \<times> int" where
  "read_legacy_ids hosts seen index row =
     (case positive_safe (get_prop row ''id'') of
        None \<Rightarrow> Inl (InvalidId index)
      | Some i \<Rightarrow>
          if i \<in> set seen then Inl (DuplicateId index)
          else case positive_safe (get_prop row ''hostId'') of
                 None \<Rightarrow> Inl (InvalidHostId index)
               | Some h \<Rightarrow> if IntN h \<in> set hosts then Inr (i, h) else Inl (UnknownHostId index))"

definition read_snippet :: "jsnum list \<Rightarrow> int list \<Rightarrow> nat \<Rightarrow> js \<Rightarrow> legacy_reason + int \<times> host_snippet" where
  "read_snippet hosts seen index candidate =
     (case candidate of
        Obj row \<Rightarrow>
          (case read_legacy_ids hosts seen index row of
             Inl e \<Rightarrow> Inl e
           | Inr (i, h) \<Rightarrow>
               if get_prop row ''label'' \<noteq> Null \<and> \<not> is_text (get_prop row ''label'')
               then Inl (InvalidLabel index)
               else case (get_prop row ''body'', get_prop row ''kind'') of
                      (Str body, Str kind) \<Rightarrow>
                        Inr (i, \<lparr>it_id = show_nat (nat i), it_hostId = show_nat (nat h), it_sortOrder = int index,
                          sn_label = (case get_prop row ''label'' of Str l \<Rightarrow> Some l | _ \<Rightarrow> None), sn_body = body, sn_kind = kind\<rparr>)
                    | (Str _, _) \<Rightarrow> Inl (InvalidKind index)
                    | _ \<Rightarrow> Inl (InvalidBody index))
      | _ \<Rightarrow> Inl (InvalidRow index))"

definition read_template :: "jsnum list \<Rightarrow> int list \<Rightarrow> nat \<Rightarrow> js \<Rightarrow> legacy_reason + int \<times> command_template" where
  "read_template hosts seen index candidate =
     (case candidate of
        Obj row \<Rightarrow>
          (case read_legacy_ids hosts seen index row of
             Inl e \<Rightarrow> Inl e
           | Inr (i, h) \<Rightarrow>
               (case (get_prop row ''label'', get_prop row ''commands'') of
                  (Str label, Str commands) \<Rightarrow>
                    Inr (i, \<lparr>it_id = show_nat (nat i), it_hostId = show_nat (nat h), it_sortOrder = int index,
                      ct_label = label, ct_commands = commands\<rparr>)
                | (Str _, _) \<Rightarrow> Inl (InvalidBody index)
                | _ \<Rightarrow> Inl (InvalidLabel index)))
      | _ \<Rightarrow> Inl (InvalidRow index))"

fun read_rows :: "(int list \<Rightarrow> nat \<Rightarrow> js \<Rightarrow> legacy_reason + int \<times> 'a) \<Rightarrow> int list \<Rightarrow> nat \<Rightarrow> js list \<Rightarrow> legacy_reason + 'a list" where
  "read_rows rd seen index [] = Inr []"
| "read_rows rd seen index (v # vs) =
     (case rd seen index v of
        Inl e \<Rightarrow> Inl e
      | Inr (i, x) \<Rightarrow> map_sum id ((#) x) (read_rows rd (i # seen) (Suc index) vs))"

definition parseLegacySnippets :: "js \<Rightarrow> jsnum list \<Rightarrow> legacy_reason + host_snippet list" where
  "parseLegacySnippets v known =
     (case v of
        Arr rows \<Rightarrow> if validLegacyHostIds known then read_rows (read_snippet known) [] 0 rows else Inl InvalidShape
      | _ \<Rightarrow> Inl InvalidShape)"

definition parseLegacyCommandTemplates :: "js \<Rightarrow> jsnum list \<Rightarrow> legacy_reason + command_template list" where
  "parseLegacyCommandTemplates v known =
     (case v of
        Arr rows \<Rightarrow> if validLegacyHostIds known then read_rows (read_template known) [] 0 rows else Inl InvalidShape
      | _ \<Rightarrow> Inl InvalidShape)"

definition isNonEmptyIdentity :: "string \<Rightarrow> bool" where
  "isNonEmptyIdentity s \<longleftrightarrow> js_trim s \<noteq> []"

text \<open>The index that breaks ties makes the sort the stable one.\<close>

definition orderedItemsForHost :: "'a host_item_scheme list \<Rightarrow> string \<Rightarrow> 'a host_item_scheme list" where
  "orderedItemsForHost items hostId =
     (if isNonEmptyIdentity hostId then sort_key it_sortOrder (filter (\<lambda>i. it_hostId i = hostId) items) else [])"

datatype order_refusal = BadHostId | BadOrder

text \<open>Where the positions are looked up, the ids are distinct.\<close>

definition reorderHostItems :: "'a host_item_scheme list \<Rightarrow> string \<Rightarrow> string list \<Rightarrow> order_refusal + 'a host_item_scheme list" where
  "reorderHostItems items hostId orderedIds =
     (if \<not> isNonEmptyIdentity hostId then Inl BadHostId
      else let currentIds = map it_id (orderedItemsForHost items hostId) in
        if length (remdups currentIds) \<noteq> length currentIds \<or> length (remdups orderedIds) \<noteq> length orderedIds
           \<or> length (remdups orderedIds) \<noteq> length (remdups currentIds) \<or> list_ex (\<lambda>i. i \<notin> set currentIds) orderedIds
        then Inl BadOrder
        else Inr (map (\<lambda>item. if it_hostId item \<noteq> hostId then item
                       else item\<lparr>it_sortOrder := int (the (find_index (\<lambda>i. i = it_id item) orderedIds))\<rparr>) items))"

subsection \<open>Roots\<close>

definition applyRootOrder :: "session_root list \<Rightarrow> string list \<Rightarrow> session_root list" where
  "applyRootOrder roots order =
     (if order = [] then roots
      else let sorted_roots = sort_key (\<lambda>r. folder_rank order (sr_key r)) roots in
        filter (\<lambda>r. \<not> sr_other r) sorted_roots @ filter sr_other sorted_roots)"

definition canDropRootAt :: "session_root list \<Rightarrow> string \<Rightarrow> int \<Rightarrow> bool" where
  "canDropRootAt roots fromKey toIndex =
     (case find_index (\<lambda>r. sr_key r = fromKey) roots of
        None \<Rightarrow> False
      | Some i \<Rightarrow>
          \<not> sr_other (roots ! i) \<and> 0 \<le> toIndex \<and> toIndex \<le> int (length roots)
          \<and> \<not> (toIndex = int (length roots) \<and> sr_other (last roots)))"

definition reorderRoots :: "session_root list \<Rightarrow> string \<Rightarrow> int \<Rightarrow> string list option" where
  "reorderRoots roots fromKey toIndex =
     (case find_index (\<lambda>r. sr_key r = fromKey) roots of
        None \<Rightarrow> None
      | Some start \<Rightarrow>
          let gap = nat (max 0 (min (int (length roots)) toIndex));
              dest = (if gap > start then gap - 1 else gap) in
          if dest = start then None else Some (map sr_key (move_item start dest roots)))"

subsection \<open>The parked launch\<close>

record 'c parked_launch =
  pl_connectionId :: string
  pl_session :: string
  pl_workspace :: "string option"
  pl_choice :: 'c
  pl_parkedAt :: int

definition LAUNCH_HANDOFF_TTL_MS :: int where "LAUNCH_HANDOFF_TTL_MS = 120000"

definition parkAgentLaunch :: "string \<Rightarrow> string \<Rightarrow> 'c \<Rightarrow> int \<Rightarrow> string option \<Rightarrow> 'c parked_launch option" where
  "parkAgentLaunch connectionId session choice now workspace =
     Some \<lparr>pl_connectionId = connectionId, pl_session = session, pl_workspace = workspace, pl_choice = choice, pl_parkedAt = now\<rparr>"

definition takeAgentLaunch ::
    "string option \<Rightarrow> string \<Rightarrow> int \<Rightarrow> string option \<Rightarrow> 'c parked_launch option \<Rightarrow> 'c option \<times> 'c parked_launch option" where
  "takeAgentLaunch connectionId session now workspace slot =
     (case slot of
        None \<Rightarrow> (None, None)
      | Some p \<Rightarrow>
          if now - pl_parkedAt p > LAUNCH_HANDOFF_TTL_MS then (None, None)
          else if connectionId \<noteq> Some (pl_connectionId p) \<or> connectionId = Some [] then (None, slot)
          else if pl_session p \<noteq> session then (None, slot)
          else if pl_workspace p \<noteq> None \<and> workspace \<noteq> None \<and> pl_workspace p \<noteq> workspace then (None, slot)
          else (Some (pl_choice p), None))"

subsection \<open>What was asked for is what is drawn\<close>

lemma sorted_by_unique:
  assumes "distinct xs" "distinct ys" "set xs = set ys" "inj_on f (set ys)" "sorted (map f xs)" "sorted (map f ys)"
  shows "xs = ys"
proof -
  have "distinct (map f xs)" "distinct (map f ys)" using assms(1-4) by (simp_all add: distinct_map)
  then have "map f xs = map f ys"
    using assms(3, 5, 6) by (intro sorted_distinct_set_unique) auto
  then show ?thesis using assms(3, 4) by (simp add: inj_on_map_eq_map)
qed

lemma reorder_accepted:
  assumes "reorderHostItems items hostId orderedIds = Inr items'"
  shows "isNonEmptyIdentity hostId"
    "items' = map (\<lambda>item. if it_hostId item \<noteq> hostId then item
       else item\<lparr>it_sortOrder := int (the (find_index (\<lambda>i. i = it_id item) orderedIds))\<rparr>) items"
    "distinct (map it_id (orderedItemsForHost items hostId))" "distinct orderedIds"
    "length (remdups orderedIds) = length (remdups (map it_id (orderedItemsForHost items hostId)))"
    "set orderedIds \<subseteq> set (map it_id (orderedItemsForHost items hostId))"
proof -
  define current where "current = map it_id (orderedItemsForHost items hostId)"
  note def = reorderHostItems_def [of items hostId orderedIds, folded current_def, unfolded Let_def]
  show "isNonEmptyIdentity hostId" using assms unfolding def by (auto split: if_splits)
  then have accepted: "\<not> (length (remdups current) \<noteq> length current \<or> length (remdups orderedIds) \<noteq> length orderedIds
           \<or> length (remdups orderedIds) \<noteq> length (remdups current) \<or> list_ex (\<lambda>i. i \<notin> set current) orderedIds)"
    using assms unfolding def by (auto split: if_splits)
  show "items' = map (\<lambda>item. if it_hostId item \<noteq> hostId then item
       else item\<lparr>it_sortOrder := int (the (find_index (\<lambda>i. i = it_id item) orderedIds))\<rparr>) items"
    using assms \<open>isNonEmptyIdentity hostId\<close> unfolding def if_not_P [OF accepted] by simp
  show "distinct (map it_id (orderedItemsForHost items hostId))" "distinct orderedIds"
    "length (remdups orderedIds) = length (remdups (map it_id (orderedItemsForHost items hostId)))"
    "set orderedIds \<subseteq> set (map it_id (orderedItemsForHost items hostId))"
    using accepted unfolding current_def [symmetric] by (auto simp: list_ex_iff)
qed

text \<open>
  An order of a host's snippets that is accepted is the order they are listed in from then on, with
  every other host's snippets untouched.
\<close>

theorem reordered_items_stay:
  assumes "reorderHostItems items hostId orderedIds = Inr items'"
  shows "map it_id (orderedItemsForHost items' hostId) = orderedIds
    \<and> (\<forall>other. other \<noteq> hostId \<longrightarrow> orderedItemsForHost items' other = orderedItemsForHost items other)"
proof -
  let ?pos = "\<lambda>i. int (the (find_index (\<lambda>k. k = i) orderedIds))"
  let ?upd = "\<lambda>item. if it_hostId item \<noteq> hostId then item else item\<lparr>it_sortOrder := ?pos (it_id item)\<rparr>"
  let ?own = "filter (\<lambda>i. it_hostId i = hostId) items"
  let ?ids = "map it_id (sort_key it_sortOrder ?own)"
  have h: "isNonEmptyIdentity hostId" and items': "items' = map ?upd items"
    and d: "distinct (map it_id (orderedItemsForHost items hostId))" "distinct orderedIds"
    and ids: "length (remdups orderedIds) = length (remdups (map it_id (orderedItemsForHost items hostId)))"
      "set orderedIds \<subseteq> set (map it_id (orderedItemsForHost items hostId))"
    by (rule reorder_accepted [OF assms])+
  note own = orderedItemsForHost_def [of items hostId, unfolded if_P [OF h]]
  note d = d [unfolded own] and ids = ids [unfolded own]
  have "card (set orderedIds) = card (set ?ids)" using ids(1) by (simp only: length_remdups_card_conv)
  then have same: "set orderedIds = set ?ids" using ids(2) by (intro card_subset_eq) (simp_all del: set_map)
  have pos: "?pos (orderedIds ! i) = int i" if "i < length orderedIds" for i
    using find_index_distinct [OF d(2) that] by simp
  have inj: "inj_on ?pos (set orderedIds)" using pos by (auto simp: inj_on_def in_set_conv_nth)
  have sorted_ids: "sorted (map ?pos orderedIds)" using pos by (simp add: sorted_iff_nth_mono)
  have own': "filter (\<lambda>i. it_hostId i = hostId) items' = map ?upd ?own"
    unfolding items' by (induction items) auto
  let ?new = "sort_key it_sortOrder (map ?upd ?own)"
  have new_pos: "it_sortOrder x = ?pos (it_id x)" if "x \<in> set ?new" for x using that by auto
  have "map it_id (map ?upd ?own) = map it_id ?own" by simp
  then have "mset (map it_id (map ?upd ?own)) = mset (map it_id ?own)" by (simp only:)
  then have mset_ids: "mset (map it_id ?new) = mset ?ids" by (simp only: mset_map_sort_key)
  have "map it_id ?new = orderedIds"
  proof (rule sorted_by_unique [of _ _ ?pos])
    show "distinct (map it_id ?new)" using mset_eq_imp_distinct_iff [OF mset_ids] d(1) by blast
    show "set (map it_id ?new) = set orderedIds" using mset_eq_setD [OF mset_ids] same by simp
    have "map ?pos (map it_id ?new) = map it_sortOrder ?new" using new_pos by (simp del: set_sort)
    then show "sorted (map ?pos (map it_id ?new))" by (simp del: map_map)
  qed (use d inj sorted_ids in auto)
  then have drawn: "map it_id (orderedItemsForHost items' hostId) = orderedIds"
    using h own' by (simp add: orderedItemsForHost_def)
  have "filter (\<lambda>i. it_hostId i = other) items' = filter (\<lambda>i. it_hostId i = other) items" if "other \<noteq> hostId" for other
    unfolding items' using that by (induction items) auto
  then show ?thesis using drawn by (simp add: orderedItemsForHost_def)
qed

definition sample_items :: "host_item list" where
  "sample_items =
     [\<lparr>it_id = ''1'', it_hostId = ''7'', it_sortOrder = 0\<rparr>, \<lparr>it_id = ''2'', it_hostId = ''8'', it_sortOrder = 1\<rparr>,
      \<lparr>it_id = ''3'', it_hostId = ''7'', it_sortOrder = 2\<rparr>]"

theorem reordered_items_stay_witness:
  "\<exists>items'. reorderHostItems sample_items ''7'' [''3'', ''1''] = Inr items'
     \<and> map it_id (orderedItemsForHost items' ''7'') = [''3'', ''1'']"
proof -
  have id7: "isNonEmptyIdentity ''7''" by (simp add: isNonEmptyIdentity_def js_trim_def js_space_def)
  have own: "map it_id (orderedItemsForHost sample_items ''7'') = [''1'', ''3'']"
    using id7 by (simp add: sample_items_def orderedItemsForHost_def)
  obtain items' where r: "reorderHostItems sample_items ''7'' [''3'', ''1''] = Inr items'"
    unfolding reorderHostItems_def own Let_def using id7 by simp
  from reordered_items_stay [OF r] r show ?thesis by auto
qed

text \<open>
  A root dropped on a gap the panel accepts lands in exactly that gap, the catch-all stays last, and the
  panel drawn from the stored order is the arrangement that was dropped.
\<close>

lemma ranked_roots:
  assumes "distinct (map sr_key ys)" "mset ys = mset xs"
  shows "sort_key (\<lambda>r. folder_rank (map sr_key ys) (sr_key r)) xs = ys"
proof (rule sort_key_unique)
  have same: "set ys = set xs" using assms(2) mset_eq_setD by blast
  show "mset ys = mset xs" by (rule assms(2))
  show "distinct xs" using assms(1) mset_eq_imp_distinct_iff [OF assms(2)] by (simp add: distinct_map)
  have "inj_on (folder_rank (map sr_key ys)) (sr_key ` set ys)"
    by (rule inj_on_subset [OF folder_rank_inj [OF assms(1)]]) auto
  then show "inj_on (\<lambda>r. folder_rank (map sr_key ys) (sr_key r)) (set xs)"
    using assms(1) same comp_inj_on [of sr_key "set ys" "folder_rank (map sr_key ys)"] by (simp add: distinct_map comp_def)
  show "sorted (map (\<lambda>r. folder_rank (map sr_key ys) (sr_key r)) ys)"
    using folder_rank_sorted [OF assms(1)] by (simp add: comp_def)
qed

lemma move_before:
  assumes "i < length rs" "d < length rs"
  shows "move_item i d (rs @ os) = move_item i d rs @ os"
  using assms by (simp add: move_item_def Let_def nth_append)

theorem root_drop_lands_and_stays:
  assumes "distinct (map sr_key (rs @ os))" "\<forall>r\<in>set rs. \<not> sr_other r" "\<forall>r\<in>set os. sr_other r" "length os \<le> 1"
    and "canDropRootAt (rs @ os) k (int n)"
  shows "reorderRoots (rs @ os) k (int n) =
      (if in_gap (map sr_key (rs @ os)) k n = map sr_key (rs @ os) then None else Some (in_gap (map sr_key (rs @ os)) k n))
    \<and> map sr_key (applyRootOrder (rs @ os) (in_gap (map sr_key (rs @ os)) k n)) = in_gap (map sr_key (rs @ os)) k n"
proof -
  let ?roots = "rs @ os" and ?ids = "map sr_key (rs @ os)"
  obtain i where at: "find_index (\<lambda>r. sr_key r = k) ?roots = Some i"
    and own: "\<not> sr_other (?roots ! i)" "n \<le> length ?roots" "\<not> (n = length ?roots \<and> sr_other (last ?roots))"
    using assms(5) by (auto simp: canDropRootAt_def split: option.splits)
  have i: "i < length ?roots" "?ids ! i = k" using find_index_Some [OF at] nth_map [of i ?roots sr_key] by simp_all
  then have ir: "i < length rs" using own(1) assms(3) nth_mem by (fastforce simp: nth_append split: if_splits)
  have n: "n \<le> length rs"
  proof (cases os)
    case (Cons r rest)
    then have "?roots = rs @ [r]" "sr_other r" using assms(3, 4) by auto
    then show ?thesis using own(2, 3) by auto
  qed (use own(2) in simp)
  define d where "d = (if n > i then n - 1 else n)"
  have d: "d < length rs" using n ir by (auto simp: d_def)
  define moved where "moved = move_item i d rs @ os"
  have m: "move_item i d ?roots = moved" unfolding moved_def by (rule move_before [OF ir d])
  have keys: "map sr_key moved = in_gap ?ids k n"
    using move_as_gap [OF assms(1), of i n] i own(2) m [symmetric] map_move [of i ?roots sr_key d]
    by (simp add: d_def in_gap_def del: map_append)
  have mset: "mset moved = mset ?roots" using mset_move [OF i(1), of d] m by simp
  have dist: "distinct (map sr_key moved)"
    using mset_eq_imp_distinct_iff [of "map sr_key moved" ?ids] arg_cong [OF mset, of "image_mset sr_key"] assms(1) by simp
  have rs_plain: "\<forall>r\<in>set (move_item i d rs). \<not> sr_other r" using assms(2) set_move [OF ir] by auto
  have pinned: "filter (\<lambda>r. \<not> sr_other r) moved = move_item i d rs" "filter sr_other moved = os"
    using rs_plain assms(3) by (simp_all add: moved_def filter_id_conv filter_empty_conv)
  have shown: "applyRootOrder ?roots (map sr_key moved) = moved"
    unfolding applyRootOrder_def Let_def ranked_roots [OF dist mset]
    using pinned mset by (auto simp: moved_def)
  have "in_gap ?ids k n = ?ids \<longleftrightarrow> d = i"
    using move_fixed_iff [OF assms(1), of i d] i d m keys map_move [of i ?roots sr_key d] by (simp del: map_append)
  moreover have "reorderRoots ?roots k (int n) = (if d = i then None else Some (map sr_key moved))"
    using at own(2) m by (simp add: reorderRoots_def Let_def d_def)
  ultimately show ?thesis using keys shown by simp
qed

text \<open>A parked launch is collected at most once, in its time, by its own connection and session.\<close>

lemma launch_collected_once:
  assumes "takeAgentLaunch connectionId session now workspace slot = (Some choice, slot')"
  shows "slot' = None \<and> (\<exists>p. slot = Some p \<and> pl_choice p = choice \<and> connectionId = Some (pl_connectionId p)
    \<and> session = pl_session p \<and> now - pl_parkedAt p \<le> 120000
    \<and> (workspace = None \<or> pl_workspace p = None \<or> workspace = pl_workspace p))"
  using assms by (auto simp: takeAgentLaunch_def LAUNCH_HANDOFF_TTL_MS_def split: option.splits if_splits)

lemma another_connection_leaves_it_parked:
  assumes "connectionId \<noteq> pl_connectionId p" "now - pl_parkedAt p \<le> 120000"
  shows "takeAgentLaunch (Some connectionId) session now workspace (Some p) = (None, Some p)"
  using assms by (simp add: takeAgentLaunch_def LAUNCH_HANDOFF_TTL_MS_def)

end
