(* ===== verification/Ssh_Config.thy ===== *)
theory Ssh_Config
  imports Js_Strings Js_Tokens Port_Scan Host_Cli_Sessions
begin

text \<open>
  The reader of \<open>~/.ssh/config\<close> both clients share (src/src/sshConfigCore.ts): classifying a line,
  folding directives into hosts, and the port and forward grammars. \<open>Include\<close> and paths are the
  clients' own. A port number is read exactly (the code's double is exact below \<open>2 ^ 53\<close>).
\<close>

subsection \<open>Lines\<close>

record directive =
  dr_key :: string
  dr_value :: string
  dr_line :: nat

text \<open>\<open>/^(\S+)\s*(.*)$/\<close> on a trimmed line: it fails only when a line break stands in the value.\<close>

definition parseDirectiveLine :: "string \<Rightarrow> nat \<Rightarrow> directive option" where
  "parseDirectiveLine raw lineNo =
     (let trimmed = js_trim raw; rest = dropWhile js_space (dropWhile (\<lambda>c. \<not> js_space c) trimmed) in
      if trimmed = [] \<or> starts_with trimmed ''#'' then None
      else if CHR 0x0A \<in> set rest \<or> CHR 0x0D \<in> set rest then None
      else Some \<lparr>dr_key = map char_lower (takeWhile (\<lambda>c. \<not> js_space c) trimmed), dr_value = js_trim rest, dr_line = lineNo\<rparr>)"

subsection \<open>Ports and forwards\<close>

text \<open>\<open>Number.parseInt(s, 10)\<close>, with \<open>None\<close> for \<open>NaN\<close>.\<close>

definition js_parse_int :: "string \<Rightarrow> int option" where
  "js_parse_int s =
     (let t = dropWhile js_space s;
          minus = starts_with t ''-'';
          digits = takeWhile decimal (if minus \<or> starts_with t ''+'' then drop 1 t else t) in
      if digits = [] then None else Some ((if minus then - 1 else 1) * int (read_nat digits)))"

definition DEFAULT_PORT :: int where "DEFAULT_PORT = 22"

definition parsePort :: "string \<Rightarrow> int" where
  "parsePort value =
     (case js_parse_int value of
        Some n \<Rightarrow> if 0 < n \<and> n \<le> int MAX_PORT then n else DEFAULT_PORT
      | None \<Rightarrow> DEFAULT_PORT)"

definition LOOPBACK_HOST :: string where "LOOPBACK_HOST = ''127.0.0.1''"

definition port_or_zero :: "string \<Rightarrow> int" where
  "port_or_zero s = (case js_parse_int s of Some n \<Rightarrow> n | None \<Rightarrow> 0)"

text \<open>For a bracket that is not closed, \<open>indexOf\<close> is -1: \<open>slice(1, -1)\<close> and \<open>slice(1)\<close>.\<close>

definition splitHostPort :: "string \<Rightarrow> string \<times> int" where
  "splitHostPort part =
     (if starts_with part ''['' then
        (case find_index (\<lambda>c. c = CHR '']'') part of
           Some close \<Rightarrow> (drop 1 (take close part), port_or_zero (drop (close + 2) part))
         | None \<Rightarrow> (drop 1 (butlast part), port_or_zero (drop 1 part)))
      else case last_index CHR '':'' part of
             None \<Rightarrow> (LOOPBACK_HOST, port_or_zero part)
           | Some colon \<Rightarrow>
               (if take colon part = [] then LOOPBACK_HOST else take colon part, port_or_zero (drop (Suc colon) part)))"

record config_forward =
  fw_local :: bool
  fw_listenHost :: string
  fw_listenPort :: int
  fw_destHost :: string
  fw_destPort :: int

definition words_of :: "string \<Rightarrow> string list" where
  "words_of s = filter (\<lambda>w. w \<noteq> []) (space_tokens s)"

definition parseForward :: "string \<Rightarrow> bool \<Rightarrow> config_forward" where
  "parseForward value kind =
     (let (listenHost, listenPort) = splitHostPort (case words_of value of [] \<Rightarrow> value | w # _ \<Rightarrow> w) in
      case words_of value of
        _ # dest # _ \<Rightarrow>
          \<lparr>fw_local = kind, fw_listenHost = listenHost, fw_listenPort = listenPort,
           fw_destHost = fst (splitHostPort dest), fw_destPort = snd (splitHostPort dest)\<rparr>
      | _ \<Rightarrow> \<lparr>fw_local = kind, fw_listenHost = listenHost, fw_listenPort = listenPort, fw_destHost = [], fw_destPort = 0\<rparr>)"

subsection \<open>Hosts\<close>

record config_host =
  cf_name :: string
  cf_hostname :: string
  cf_port :: int
  cf_user :: string
  cf_identityFile :: "string option"
  cf_proxyJump :: "string option"
  cf_forwardAgent :: bool
  cf_localForwards :: "config_forward list"
  cf_remoteForwards :: "config_forward list"

record partial_host =
  pf_names :: "string list"
  pf_hostname :: "string option"
  pf_port :: "int option"
  pf_user :: "string option"
  pf_identityFile :: "string option"
  pf_proxyJump :: "string option"
  pf_forwardAgent :: bool
  pf_localForwards :: "config_forward list"
  pf_remoteForwards :: "config_forward list"

definition open_host :: "string \<Rightarrow> partial_host" where
  "open_host value =
     \<lparr>pf_names = words_of value, pf_hostname = None, pf_port = None, pf_user = None, pf_identityFile = None,
      pf_proxyJump = None, pf_forwardAgent = False, pf_localForwards = [], pf_remoteForwards = []\<rparr>"

definition apply_directive :: "partial_host \<Rightarrow> directive \<Rightarrow> partial_host" where
  "apply_directive c d =
     (if dr_key d = ''hostname'' then c\<lparr>pf_hostname := Some (dr_value d)\<rparr>
      else if dr_key d = ''port'' then c\<lparr>pf_port := Some (parsePort (dr_value d))\<rparr>
      else if dr_key d = ''user'' then c\<lparr>pf_user := Some (dr_value d)\<rparr>
      else if dr_key d = ''identityfile'' then c\<lparr>pf_identityFile := Some (dr_value d)\<rparr>
      else if dr_key d = ''proxyjump'' then c\<lparr>pf_proxyJump := Some (dr_value d)\<rparr>
      else if dr_key d = ''forwardagent'' then c\<lparr>pf_forwardAgent := (map char_lower (dr_value d) = ''yes'')\<rparr>
      else if dr_key d = ''localforward'' then c\<lparr>pf_localForwards := pf_localForwards c @ [parseForward (dr_value d) True]\<rparr>
      else if dr_key d = ''remoteforward'' then c\<lparr>pf_remoteForwards := pf_remoteForwards c @ [parseForward (dr_value d) False]\<rparr>
      else c)"

definition or_default :: "'a option \<Rightarrow> 'a \<Rightarrow> 'a" where
  "or_default v d = (case v of Some x \<Rightarrow> x | None \<Rightarrow> d)"

definition finalizeHost :: "partial_host \<Rightarrow> string \<Rightarrow> config_host" where
  "finalizeHost c name =
     \<lparr>cf_name = name, cf_hostname = or_default (pf_hostname c) name, cf_port = or_default (pf_port c) DEFAULT_PORT,
      cf_user = or_default (pf_user c) [], cf_identityFile = pf_identityFile c, cf_proxyJump = pf_proxyJump c,
      cf_forwardAgent = pf_forwardAgent c, cf_localForwards = pf_localForwards c, cf_remoteForwards = pf_remoteForwards c\<rparr>"

definition push_current :: "partial_host option \<Rightarrow> config_host list" where
  "push_current current = (case current of None \<Rightarrow> [] | Some c \<Rightarrow> map (finalizeHost c) (pf_names c))"

fun fold_hosts :: "config_host list \<Rightarrow> partial_host option \<Rightarrow> directive list \<Rightarrow> config_host list" where
  "fold_hosts hosts current [] = hosts @ push_current current"
| "fold_hosts hosts current (d # ds) =
     (if dr_key d = ''host'' then fold_hosts (hosts @ push_current current) (Some (open_host (dr_value d))) ds
      else fold_hosts hosts (map_option (\<lambda>c. apply_directive c d) current) ds)"

definition buildHosts :: "directive list \<Rightarrow> config_host list" where
  "buildHosts directives = fold_hosts [] None directives"

subsection \<open>What a configuration says\<close>

text \<open>The reference: a \<open>Host\<close> line and what follows it up to the next one.\<close>

definition names_host :: "directive \<Rightarrow> bool" where "names_host d \<longleftrightarrow> dr_key d = ''host''"

fun host_blocks :: "directive list \<Rightarrow> (string list \<times> directive list) list" where
  "host_blocks [] = []"
| "host_blocks (d # ds) =
     (if names_host d then (words_of (dr_value d), takeWhile (\<lambda>d. \<not> names_host d) ds) # host_blocks ds else host_blocks ds)"

definition said :: "string \<Rightarrow> directive list \<Rightarrow> string list" where
  "said key ds = map dr_value (filter (\<lambda>d. dr_key d = key) ds)"

definition last_said :: "string \<Rightarrow> directive list \<Rightarrow> string option" where
  "last_said key ds = (if said key ds = [] then None else Some (last (said key ds)))"

definition first_said :: "string \<Rightarrow> directive list \<Rightarrow> string option" where
  "first_said key ds = (case said key ds of [] \<Rightarrow> None | v # _ \<Rightarrow> Some v)"

text \<open>The hosts of a block, under a rule for which value of an option given twice counts.\<close>

definition block_hosts ::
    "(string \<Rightarrow> directive list \<Rightarrow> string option) \<Rightarrow> string list \<times> directive list \<Rightarrow> config_host list" where
  "block_hosts rule b =
     (let ds = snd b in
      map (\<lambda>name.
        \<lparr>cf_name = name, cf_hostname = or_default (rule ''hostname'' ds) name,
         cf_port = or_default (map_option parsePort (rule ''port'' ds)) 22,
         cf_user = or_default (rule ''user'' ds) [],
         cf_identityFile = rule ''identityfile'' ds, cf_proxyJump = rule ''proxyjump'' ds,
         cf_forwardAgent = (map_option (map char_lower) (rule ''forwardagent'' ds) = Some ''yes''),
         cf_localForwards = map (\<lambda>v. parseForward v True) (said ''localforward'' ds),
         cf_remoteForwards = map (\<lambda>v. parseForward v False) (said ''remoteforward'' ds)\<rparr>) (fst b))"

text \<open>No option that holds one value is given twice in a block.\<close>

definition SINGLE_OPTIONS :: "string list" where
  "SINGLE_OPTIONS = [''hostname'', ''port'', ''user'', ''identityfile'', ''proxyjump'', ''forwardagent'']"

definition said_once :: "directive list \<Rightarrow> bool" where
  "said_once ds = list_all (\<lambda>b. list_all (\<lambda>key. length (said key (snd b)) \<le> 1) SINGLE_OPTIONS) (host_blocks ds)"

lemma first_said_once: "length (said key ds) \<le> 1 \<Longrightarrow> last_said key ds = first_said key ds"
  by (auto simp: first_said_def last_said_def split: list.split)

lemma block_hosts_once:
  "list_all (\<lambda>key. length (said key (snd b)) \<le> 1) SINGLE_OPTIONS \<Longrightarrow> block_hosts last_said b = block_hosts first_said b"
  by (simp add: block_hosts_def SINGLE_OPTIONS_def first_said_once)

lemma said_snoc: "said key (ds @ [d]) = said key ds @ (if dr_key d = key then [dr_value d] else [])"
  by (simp add: said_def)

lemma last_said_snoc: "last_said key (ds @ [d]) = (if dr_key d = key then Some (dr_value d) else last_said key ds)"
  by (simp add: last_said_def said_snoc)

lemma last_said_Nil [simp]: "last_said key [] = None" "said key [] = []"
  by (simp_all add: last_said_def said_def)

lemma applied_block:
  "foldl apply_directive (open_host v) ds =
     \<lparr>pf_names = words_of v, pf_hostname = last_said ''hostname'' ds, pf_port = map_option parsePort (last_said ''port'' ds),
      pf_user = last_said ''user'' ds, pf_identityFile = last_said ''identityfile'' ds, pf_proxyJump = last_said ''proxyjump'' ds,
      pf_forwardAgent = (map_option (map char_lower) (last_said ''forwardagent'' ds) = Some ''yes''),
      pf_localForwards = map (\<lambda>v. parseForward v True) (said ''localforward'' ds),
      pf_remoteForwards = map (\<lambda>v. parseForward v False) (said ''remoteforward'' ds)\<rparr>"
proof (induction ds rule: rev_induct)
  case (snoc d ds)
  then show ?case by (simp add: apply_directive_def last_said_snoc said_snoc)
qed (simp add: open_host_def)

lemma pushed_block:
  "push_current (Some (foldl apply_directive (open_host v) ds)) = block_hosts last_said (words_of v, ds)"
  by (simp add: push_current_def applied_block block_hosts_def finalizeHost_def DEFAULT_PORT_def)

lemma fold_hosts_blocks:
  "fold_hosts hosts current ds =
     hosts @ push_current (map_option (\<lambda>c. foldl apply_directive c (takeWhile (\<lambda>d. \<not> names_host d) ds)) current)
       @ concat (map (block_hosts last_said) (host_blocks ds))"
proof (induction ds arbitrary: hosts current)
  case (Cons d ds)
  show ?case
  proof (cases "names_host d")
    case True
    then have "dr_key d = ''host''" by (simp add: names_host_def)
    moreover have "map_option (\<lambda>c. c) current = current" by (cases current) auto
    ultimately show ?thesis using True Cons.IH pushed_block by simp
  next
    case False
    then have "dr_key d \<noteq> ''host''" by (simp add: names_host_def)
    then show ?thesis using False Cons.IH by (simp add: option.map_comp comp_def)
  qed
next
  case Nil
  then show ?case by (cases current) auto
qed

lemma parsePort_range: "1 \<le> parsePort v \<and> parsePort v \<le> 65535"
  by (auto simp: parsePort_def DEFAULT_PORT_def MAX_PORT_def split: option.split)

lemma buildHosts_blocks: "buildHosts ds = concat (map (block_hosts last_said) (host_blocks ds))"
  by (simp add: buildHosts_def fold_hosts_blocks push_current_def)

lemma block_hosts_names: "map cf_name (block_hosts rule b) = fst b"
  by (simp add: block_hosts_def Let_def comp_def)

lemma block_hosts_ports: "h \<in> set (block_hosts rule b) \<Longrightarrow> 1 \<le> cf_port h \<and> cf_port h \<le> 65535"
  using parsePort_range by (auto simp: block_hosts_def Let_def or_default_def split: option.split)

text \<open>
  C36: The hosts read from a configuration are one for every name of every \<open>Host\<close> line, in order, and
  every port is one that can be dialled. When no block gives an option of one value twice, every
  host has exactly what the lines from its \<open>Host\<close> line to the next one say under the documented rule
  (the first value of each option), all its forwards, the defaults for what is not said, and nothing
  of any other block or of the lines before the first one.
\<close>

theorem config_hosts_follow_their_blocks:
  "map cf_name (buildHosts ds) = concat (map fst (host_blocks ds))
   \<and> list_all (\<lambda>h. 1 \<le> cf_port h \<and> cf_port h \<le> 65535) (buildHosts ds)
   \<and> (said_once ds \<longrightarrow> buildHosts ds = concat (map (block_hosts first_said) (host_blocks ds)))"
proof (intro conjI impI)
  show "map cf_name (buildHosts ds) = concat (map fst (host_blocks ds))"
    by (simp add: buildHosts_blocks map_concat comp_def block_hosts_names)
  show "list_all (\<lambda>h. 1 \<le> cf_port h \<and> cf_port h \<le> 65535) (buildHosts ds)"
    using block_hosts_ports by (auto simp: buildHosts_blocks list_all_iff)
  assume "said_once ds"
  then have "\<forall>b \<in> set (host_blocks ds). block_hosts last_said b = block_hosts first_said b"
    using block_hosts_once by (auto simp: said_once_def list_all_iff)
  then have "map (block_hosts last_said) (host_blocks ds) = map (block_hosts first_said) (host_blocks ds)"
    by simp
  then show "buildHosts ds = concat (map (block_hosts first_said) (host_blocks ds))"
    by (simp only: buildHosts_blocks)
qed

definition sample_config :: "directive list" where
  "sample_config =
     [\<lparr>dr_key = ''user'', dr_value = ''me'', dr_line = 1\<rparr>, \<lparr>dr_key = ''host'', dr_value = ''a b'', dr_line = 2\<rparr>,
      \<lparr>dr_key = ''hostname'', dr_value = ''h'', dr_line = 3\<rparr>, \<lparr>dr_key = ''port'', dr_value = ''2222'', dr_line = 4\<rparr>,
      \<lparr>dr_key = ''host'', dr_value = ''c'', dr_line = 5\<rparr>, \<lparr>dr_key = ''user'', dr_value = ''r'', dr_line = 6\<rparr>]"

theorem config_hosts_follow_their_blocks_witness:
  "buildHosts sample_config = concat (map (block_hosts first_said) (host_blocks sample_config))
   \<and> map (\<lambda>h. (cf_name h, cf_hostname h, cf_port h, cf_user h)) (buildHosts sample_config) =
       [(''a'', ''h'', 2222, []), (''b'', ''h'', 2222, []), (''c'', ''c'', 22, ''r'')]"
proof -
  have w: "words_of ''a b'' = [''a'', ''b'']" "words_of ''c'' = [''c'']" "parsePort ''2222'' = 2222"
    by (code_simp, code_simp) (simp add: parsePort_def js_parse_int_def read_nat_def decimal_def starts_with_def MAX_PORT_def js_space_def)
  have "said_once sample_config"
    by (simp add: sample_config_def said_once_def said_def SINGLE_OPTIONS_def names_host_def)
  moreover have "map (\<lambda>h. (cf_name h, cf_hostname h, cf_port h, cf_user h)) (buildHosts sample_config) =
       [(''a'', ''h'', 2222, []), (''b'', ''h'', 2222, []), (''c'', ''c'', 22, ''r'')]"
    by (simp add: sample_config_def buildHosts_blocks block_hosts_def said_def last_said_def names_host_def
        or_default_def w)
  ultimately show ?thesis using config_hosts_follow_their_blocks [of sample_config] by simp
qed

text \<open>
  On a block that gives an option twice the code does not do what it says: OpenSSH, and the comment
  of \<open>buildHosts\<close>, let the first value win; here the last one does.
\<close>

lemma last_value_wins:
  "map cf_hostname (buildHosts (List.map_filter (\<lambda>(l, n). parseDirectiveLine l n)
     [(''Host web'', 1), (''  HostName first.example'', 2), (''  HostName second.example'', 3)])) = [''second.example'']"
  by code_simp

end
