(* ===== verification/Host_Answers.thy ===== *)
theory Host_Answers
  imports Ssh_Config Session_Tree Host_Commands
begin

text \<open>
  Small answers of a host: what kind of machine it is (src/src/hostPlatform.ts), which tools it has
  (src/src/hostBootstrap.ts, src/src/hostProbeParsers.ts), and its repositories
  (src/src/reposScope.ts). The answer to a command is the argument \<open>exec\<close>, \<open>None\<close> when the call throws;
  \<open>json\<close> is \<open>JSON.parse\<close>. Messages are the host's own; the sentence for a rejected option is a constructor.
\<close>

subsection \<open>The platform\<close>

datatype host_platform = Posix | Windows

definition HOST_PLATFORM_UNAME_PROBE :: string where "HOST_PLATFORM_UNAME_PROBE = ''uname -s''"
definition HOST_PLATFORM_VER_PROBE :: string where "HOST_PLATFORM_VER_PROBE = ''cmd /c ver''"

definition starts_ci :: "string \<Rightarrow> string \<Rightarrow> bool" where
  "starts_ci s lit \<longleftrightarrow> take (length lit) (map ascii_lower s) = lit"

definition hostPlatformFromUname :: "string \<Rightarrow> host_platform option" where
  "hostPlatformFromUname out =
     (let line = js_trim out in
      if line = [] then None
      else if starts_ci line ''mingw'' \<or> starts_ci line ''msys'' \<or> starts_ci line ''cygwin'' then Some Windows
      else Some Posix)"

definition hostPlatformFromVer :: "string \<Rightarrow> host_platform" where
  "hostPlatformFromVer out = (if contains_ci ''microsoft windows'' out then Windows else Posix)"

record host_exec =
  hx_stdout :: string
  hx_exitCode :: int

definition detectHostPlatform :: "(string \<Rightarrow> host_exec option) \<Rightarrow> host_platform" where
  "detectHostPlatform exec =
     (case Option.bind (exec HOST_PLATFORM_UNAME_PROBE) (\<lambda>r. hostPlatformFromUname (hx_stdout r)) of
        Some p \<Rightarrow> p
      | None \<Rightarrow>
          (case exec HOST_PLATFORM_VER_PROBE of
             Some r \<Rightarrow> hostPlatformFromVer (hx_stdout r)
           | None \<Rightarrow> Posix))"

subsection \<open>Lines\<close>

definition parseCommandV :: "string \<Rightarrow> int \<Rightarrow> string option" where
  "parseCommandV out code =
     (if code \<noteq> 0 then None
      else case scan_lines (js_trim out) of path # _ \<Rightarrow> if path = [] then None else Some path | [] \<Rightarrow> None)"

definition trimmed_lines :: "string \<Rightarrow> string list" where
  "trimmed_lines text = filter (\<lambda>l. l \<noteq> []) (map js_trim (scan_lines text))"

definition firstNonEmptyLine :: "string \<Rightarrow> string option" where
  "firstNonEmptyLine text = (case trimmed_lines text of [] \<Rightarrow> None | l # _ \<Rightarrow> Some l)"

definition lastNonEmptyLine :: "string \<Rightarrow> string option" where
  "lastNonEmptyLine text = (if trimmed_lines text = [] then None else Some (last (trimmed_lines text)))"

text \<open>\<open>split('::')\<close>\<close>

fun split_colons :: "string \<Rightarrow> string list" where
  "split_colons [] = [[]]"
| "split_colons [c] = [[c]]"
| "split_colons (c # d # s) =
     (if c = CHR '':'' \<and> d = CHR '':'' then [] # split_colons s
      else case split_colons (d # s) of [] \<Rightarrow> [[c]] | w # ws \<Rightarrow> (c # w) # ws)"

definition nth_part :: "string list \<Rightarrow> nat \<Rightarrow> string option" where
  "nth_part ps i = (if i < length ps then Some (ps ! i) else None)"

definition tmux_row :: "string \<Rightarrow> session_summary option" where
  "tmux_row raw =
     (let line = js_trim raw; parts = split_colons line in
      if line = [] \<or> starts_with line ''no server'' then None
      else case (nth_part parts 0, nth_part parts 1, nth_part parts 2) of
             (Some name, Some created, Some activity) \<Rightarrow>
               if name = [] then None
               else (case js_parse_int created of
                       None \<Rightarrow> None
                     | Some born \<Rightarrow>
                         Some \<lparr>ss_name = name, ss_created = born,
                           ss_activity = (case js_parse_int activity of Some n \<Rightarrow> n | None \<Rightarrow> born),
                           ss_attached = (case Option.bind (nth_part parts 3) js_parse_int of Some n \<Rightarrow> 0 < n | None \<Rightarrow> False),
                           ss_path = (case nth_part parts 4 of Some p \<Rightarrow> if p = [] then None else Some p | None \<Rightarrow> None),
                           ss_backend = None, ss_workspace = None, ss_agentKind = None, ss_repoRoot = None\<rparr>)
           | _ \<Rightarrow> None)"

definition parseTmuxListSessionsFallback :: "string \<Rightarrow> session_summary list" where
  "parseTmuxListSessionsFallback out = List.map_filter tmux_row (scan_lines out)"

record env_var_row =
  ev_file :: string
  ev_hasValue :: bool
  ev_key :: string

definition parseEnvVarRow :: "js \<Rightarrow> env_var_row option" where
  "parseEnvVarRow row =
     (case row of
        Obj doc \<Rightarrow>
          (case get_prop doc ''key'' of
             Str k \<Rightarrow>
               if k = [] then None
               else Some \<lparr>ev_file = (case get_prop doc ''file'' of Str f \<Rightarrow> f | _ \<Rightarrow> []),
                      ev_hasValue = (get_prop doc ''has_value'' = Bool True), ev_key = k\<rparr>
           | _ \<Rightarrow> None)
      | _ \<Rightarrow> None)"

subsection \<open>The tools of a host\<close>

record tool_state =
  tl_installed :: bool
  tl_path :: "string option"
  tl_version :: "string option"

definition NOT_INSTALLED :: tool_state where
  "NOT_INSTALLED = \<lparr>tl_installed = False, tl_path = None, tl_version = None\<rparr>"

definition command_v :: "string \<Rightarrow> string" where
  "command_v binary = pathAwareCommand (''command -v '' @ binary)"

definition probeTool :: "(string \<Rightarrow> host_exec option) \<Rightarrow> string \<Rightarrow> tool_state option" where
  "probeTool exec binary =
     (case exec (command_v binary) of
        None \<Rightarrow> None
      | Some res \<Rightarrow>
          (case parseCommandV (hx_stdout res) (hx_exitCode res) of
             None \<Rightarrow> Some NOT_INSTALLED
           | Some path \<Rightarrow>
               (case exec (pathAwareCommand (binary @ '' --version'')) of
                  None \<Rightarrow> None
                | Some v \<Rightarrow>
                    Some \<lparr>tl_installed = True, tl_path = Some path,
                      tl_version = (if hx_exitCode v = 0 then Some (hd (scan_lines (js_trim (hx_stdout v)))) else None)\<rparr>)))"

datatype installer = Uv | Pipx

text \<open>The outer \<open>None\<close> is a call that threw.\<close>

definition detectInstaller :: "(string \<Rightarrow> host_exec option) \<Rightarrow> installer option option" where
  "detectInstaller exec =
     (case exec (command_v ''uv'') of
        None \<Rightarrow> None
      | Some r \<Rightarrow>
          if parseCommandV (hx_stdout r) (hx_exitCode r) \<noteq> None then Some (Some Uv)
          else case exec (command_v ''pipx'') of
                 None \<Rightarrow> None
               | Some r \<Rightarrow> Some (if parseCommandV (hx_stdout r) (hx_exitCode r) \<noteq> None then Some Pipx else None))"

definition systemdUserCommand :: "string \<Rightarrow> string" where
  "systemdUserCommand command =
     pathAwareCommand (''export XDG_RUNTIME_DIR=${XDG_RUNTIME_DIR:-/run/user/$(id -u)} ''
       @ ''DBUS_SESSION_BUS_ADDRESS=unix:path=${XDG_RUNTIME_DIR:-/run/user/$(id -u)}/bus; '' @ command)"

record bootstrap_result =
  bs_platform :: host_platform
  bs_pocketshell :: tool_state
  bs_tmuxctl :: tool_state
  bs_tmux :: tool_state
  bs_aplexer :: tool_state
  bs_installer :: "installer option"
  bs_daemonRunning :: "bool option"
  bs_daemonEnabled :: "bool option"

definition daemon_state :: "(string \<Rightarrow> host_exec option) \<Rightarrow> tool_state \<Rightarrow> (bool option \<times> bool option) option" where
  "daemon_state exec pocketshell =
     (if \<not> tl_installed pocketshell then Some (None, None)
      else case exec (command_v ''systemctl'') of
             None \<Rightarrow> None
           | Some r \<Rightarrow>
               if parseCommandV (hx_stdout r) (hx_exitCode r) = None then Some (None, None)
               else case (exec (systemdUserCommand ''systemctl --user is-active pocketshell-jobs.service''),
                          exec (systemdUserCommand ''systemctl --user is-enabled pocketshell-jobs.service'')) of
                      (Some active, Some enabled) \<Rightarrow> Some (Some (hx_exitCode active = 0), Some (hx_exitCode enabled = 0))
                    | _ \<Rightarrow> None)"

definition runHostBootstrap :: "(string \<Rightarrow> host_exec option) \<Rightarrow> host_platform option \<Rightarrow> bootstrap_result option" where
  "runHostBootstrap exec known =
     (let platform = (case known of Some p \<Rightarrow> p | None \<Rightarrow> detectHostPlatform exec);
          probe = (\<lambda>binary. if platform = Windows then Some NOT_INSTALLED else probeTool exec binary) in
      case (probe ''pocketshell'', probe ''tmuxctl'', probe ''tmux'', probeTool exec ''a'', detectInstaller exec) of
        (Some ps, Some tc, Some tm, Some ap, Some ins) \<Rightarrow>
          map_option (\<lambda>(running, enabled).
            \<lparr>bs_platform = platform, bs_pocketshell = ps, bs_tmuxctl = tc, bs_tmux = tm, bs_aplexer = ap, bs_installer = ins,
             bs_daemonRunning = running, bs_daemonEnabled = enabled\<rparr>) (daemon_state exec ps)
      | _ \<Rightarrow> None)"

definition missingHostTools :: "bootstrap_result option \<Rightarrow> string list" where
  "missingHostTools bootstrap =
     (case bootstrap of
        None \<Rightarrow> []
      | Some b \<Rightarrow> if bs_platform b = Windows \<or> tl_installed (bs_pocketshell b) then [] else [''pocketshell''])"

definition missingHostToolsText :: "string list \<Rightarrow> string" where
  "missingHostToolsText names =
     (if length names \<le> 1 then concat names else join_with '', '' (butlast names) @ '' and '' @ last names)"

subsection \<open>Repositories\<close>

record repo_local =
  rl_path :: string
  rl_head :: "string option"

record repo_remote =
  rr_defaultBranch :: "string option"
  rr_htmlUrl :: "string option"
  rr_sshUrl :: "string option"
  rr_updatedAt :: "string option"

record repo_entry =
  re_name :: string
  re_owner :: "string option"
  re_fullName :: "string option"
  re_local :: "repo_local option"
  re_remote :: "repo_remote option"

fun asString :: "js \<Rightarrow> string option" where
  "asString (Str s) = (if s = [] then None else Some s)"
| "asString _ = None"

definition parseLocal :: "js \<Rightarrow> repo_local option" where
  "parseLocal v =
     (case v of
        Obj r \<Rightarrow> map_option (\<lambda>path. \<lparr>rl_path = path, rl_head = asString (get_prop r ''head'')\<rparr>) (asString (get_prop r ''path''))
      | _ \<Rightarrow> None)"

text \<open>An array is an object without the properties that are read.\<close>

definition parseRemote :: "js \<Rightarrow> repo_remote option" where
  "parseRemote v =
     (case v of
        Obj r \<Rightarrow>
          Some \<lparr>rr_defaultBranch = asString (get_prop r ''default_branch''), rr_htmlUrl = asString (get_prop r ''html_url''),
            rr_sshUrl = asString (get_prop r ''ssh_url''), rr_updatedAt = asString (get_prop r ''updated_at'')\<rparr>
      | Arr _ \<Rightarrow> Some \<lparr>rr_defaultBranch = None, rr_htmlUrl = None, rr_sshUrl = None, rr_updatedAt = None\<rparr>
      | _ \<Rightarrow> None)"

definition base_of :: "string \<Rightarrow> string" where
  "base_of path = (case last_index CHR ''/'' path of None \<Rightarrow> path | Some i \<Rightarrow> drop (Suc i) path)"

definition read_repo :: "js \<Rightarrow> repo_entry option" where
  "read_repo raw =
     (case raw of
        Obj r \<Rightarrow>
          (let loc = parseLocal (get_prop r ''local''); owner = asString (get_prop r ''owner'');
               name = (case asString (get_prop r ''name'') of Some n \<Rightarrow> Some n | None \<Rightarrow> map_option (base_of \<circ> rl_path) loc) in
           map_option (\<lambda>n. \<lparr>re_name = n, re_owner = owner,
             re_fullName = (case asString (get_prop r ''full_name'') of Some f \<Rightarrow> Some f | None \<Rightarrow> map_option (\<lambda>o'. o' @ ''/'' @ n) owner),
             re_local = loc, re_remote = parseRemote (get_prop r ''remote'')\<rparr>) name)
      | _ \<Rightarrow> None)"

definition parseReposJson :: "(string \<Rightarrow> js option) \<Rightarrow> string \<Rightarrow> repo_entry list" where
  "parseReposJson json out =
     (if js_trim out = [] then []
      else case json (js_trim out) of Some (Arr rows) \<Rightarrow> List.map_filter read_repo rows | _ \<Rightarrow> [])"

definition repoKey :: "repo_entry \<Rightarrow> string" where
  "repoKey e = (case re_fullName e of Some f \<Rightarrow> f | None \<Rightarrow> re_name e)"

definition or_field :: "'a option \<Rightarrow> 'a option \<Rightarrow> 'a option" where
  "or_field a b = (case a of None \<Rightarrow> b | _ \<Rightarrow> a)"

definition join_repo :: "repo_entry \<Rightarrow> repo_entry \<Rightarrow> repo_entry" where
  "join_repo entry row =
     (if repoKey row = repoKey entry
      then row\<lparr>re_owner := or_field (re_owner row) (re_owner entry), re_remote := or_field (re_remote row) (re_remote entry)\<rparr>
      else row)"

definition merge_repo :: "repo_entry list \<Rightarrow> repo_entry \<Rightarrow> repo_entry list" where
  "merge_repo rows entry =
     (if list_ex (\<lambda>r. repoKey r = repoKey entry) rows then map (join_repo entry) rows else rows @ [entry])"

definition mergeRepos :: "repo_entry list \<Rightarrow> repo_entry list \<Rightarrow> repo_entry list" where
  "mergeRepos locals remotes = foldl merge_repo locals remotes"

text \<open>The rest of a text behind the first match of a literal.\<close>

fun behind_ci :: "string \<Rightarrow> string \<Rightarrow> string option" where
  "behind_ci lit [] = (if lit = [] then Some [] else None)"
| "behind_ci lit (c # cs) = (if starts_ci (c # cs) lit then Some (drop (length lit) (c # cs)) else behind_ci lit cs)"

definition says_not_found :: "string \<Rightarrow> bool" where
  "says_not_found text \<longleftrightarrow>
     list_ex (\<lambda>l. case behind_ci ''pocketshell'' l of Some r \<Rightarrow> contains_ci ''not found'' r | None \<Rightarrow> False) (split_on CHR 0x0A text)
     \<or> contains_ci ''command not found'' text"

definition isHelperMissing :: "int \<Rightarrow> string \<Rightarrow> bool" where
  "isHelperMissing code text \<longleftrightarrow> \<not> contains_ci ''is not installed'' text \<and> code = 127 \<and> says_not_found text"

datatype helper_rejection = UnknownSubcommand | UnknownOption

definition describeHelperRejection :: "string \<Rightarrow> helper_rejection option" where
  "describeHelperRejection text =
     (if contains_ci ''no such command'' text then Some UnknownSubcommand
      else if contains_ci ''no such option'' text then Some UnknownOption else None)"

datatype repos_failure =
    GhUnauthenticated string
  | GhMissing string
  | HelperMissing string
  | ReposFailed string "helper_rejection option"

definition classifyReposFailure :: "int \<Rightarrow> string \<Rightarrow> string \<Rightarrow> repos_failure" where
  "classifyReposFailure code out err =
     (let text = out @ [CHR 0x0A] @ err;
          message = (if js_trim err \<noteq> [] then js_trim err else if js_trim out \<noteq> [] then js_trim out
                     else ''pocketshell repos exited '' @ (if code < 0 then ''-'' else []) @ show_nat (nat \<bar>code\<bar>)) in
      if (contains_ci ''not authenticated'' text \<or> contains_ci ''gh auth'' text \<or> contains_ci ''authentication required'' text)
         \<and> \<not> contains_ci ''is not installed'' text
      then GhUnauthenticated message
      else if contains_ci ''`gh` is not installed'' text \<or> contains_ci ''gh is not installed'' text then GhMissing message
      else if isHelperMissing code text then HelperMissing message
      else ReposFailed message (describeHelperRejection text))"

subsection \<open>Every clone is offered\<close>

lemma repoKey_join [simp]: "repoKey (join_repo e r) = repoKey r"
  by (simp add: join_repo_def repoKey_def split: option.split)

text \<open>What makes a row the clone it is.\<close>

definition clone_of :: "repo_entry \<Rightarrow> string \<times> string option \<times> repo_local option" where
  "clone_of r = (re_name r, re_fullName r, re_local r)"

lemma clone_join [simp]: "clone_of (join_repo e r) = clone_of r"
  by (simp add: clone_of_def join_repo_def)

lemma merged_shape:
  "\<exists>added. map clone_of (mergeRepos rows remotes) = map clone_of rows @ map clone_of added
     \<and> map repoKey (mergeRepos rows remotes) = map repoKey rows @ map repoKey added
     \<and> distinct (map repoKey added) \<and> set (map repoKey added) = set (map repoKey remotes) - set (map repoKey rows)
     \<and> set added \<subseteq> set remotes"
proof (induction remotes rule: rev_induct)
  case (snoc e remotes)
  then obtain added where a: "map clone_of (mergeRepos rows remotes) = map clone_of rows @ map clone_of added"
    "map repoKey (mergeRepos rows remotes) = map repoKey rows @ map repoKey added" "distinct (map repoKey added)"
    "set (map repoKey added) = set (map repoKey remotes) - set (map repoKey rows)" "set added \<subseteq> set remotes"
    by blast
  let ?m = "mergeRepos rows remotes"
  have step: "mergeRepos rows (remotes @ [e]) = merge_repo ?m e" by (simp add: mergeRepos_def)
  have "list_ex (\<lambda>r. repoKey r = repoKey e) ?m \<longleftrightarrow> repoKey e \<in> set (map repoKey ?m)"
    unfolding list_ex_iff set_map image_iff by metis
  then have known: "list_ex (\<lambda>r. repoKey r = repoKey e) ?m \<longleftrightarrow> repoKey e \<in> set (map repoKey rows) \<union> set (map repoKey added)"
    unfolding a(2) set_append .
  show ?case
  proof (cases "list_ex (\<lambda>r. repoKey r = repoKey e) ?m")
    case True
    have m: "map f (map (join_repo e) ?m) = map f ?m" if "\<And>r. f (join_repo e r) = f r" for f :: "repo_entry \<Rightarrow> 'b"
      using that by simp
    have "repoKey e \<in> set (map repoKey rows) \<or> repoKey e \<in> set (map repoKey remotes) - set (map repoKey rows)"
      using True known a(4) by blast
    then show ?thesis unfolding step using True a
      by (intro exI [of _ added]) (auto simp: merge_repo_def comp_def)
  next
    case False
    then show ?thesis unfolding step using a known
      by (intro exI [of _ "added @ [e]"]) (auto simp: merge_repo_def)
  qed
qed (auto simp: mergeRepos_def intro: exI [of _ "[]"])

text \<open>
  Merging what a host has cloned with what the account has on GitHub keeps every clone a row of its
  own, in its place, also several of one repository; what has no clone follows, once each; and no
  repository is left out.
\<close>

theorem every_clone_is_offered:
  "\<exists>added. map clone_of (mergeRepos locals remotes) = map clone_of locals @ map clone_of added
     \<and> set added \<subseteq> set remotes \<and> distinct (map repoKey added)
     \<and> set (map repoKey added) = set (map repoKey remotes) - set (map repoKey locals)"
  using merged_shape by blast

text \<open>A Windows host is never told that it misses a tool.\<close>

lemma windows_misses_nothing:
  assumes "runHostBootstrap exec (Some Windows) = Some b"
  shows "missingHostTools (Some b) = [] \<and> bs_pocketshell b = NOT_INSTALLED"
  using assms by (auto simp: runHostBootstrap_def missingHostTools_def Let_def split: option.splits)

end
