(* ===== verification/Spec2Isabelle.thy ===== *)
theory Spec2Isabelle
  imports Host_Commands Reconnect_Backoff Host_Keys Composer_Delivery Sync_Round Port_Controller Saved_Hosts Transport_Guard Host_Cli_Catalog Connection_Props
    Remote_Paths Session_Names Link_Quiet Dictation Vault_Props Folder_Order Workspace_Sync Port_Scan Reconnect_Loop Gateway_Devices
    Attachment_Files Session_Records User_Lists Host_Answers
begin

text \<open>
  PocketShell core is the TypeScript contract layer shared by the PocketShell clients (desktop, web,
  Android): how a client dials a host over a platform's SSH capability and decides to trust it, keeps
  terminals and port tunnels open, delivers what the user composed or dictated, asks the host's
  command line for sessions, keeps the user's hosts, settings and keys in an account, and draws the
  panel and the tab bars of the sessions it was told of. This development models that logic from the
  sources under src/src and, where the shared user interface keeps logic in plain classes and functions,
  under src/packages/ui/src/app.

  \<^bold>\<open>The parts and how they interact.\<close>

  \<^item> \<open>Connections.\<close> \<open>ConnectionController\<close> (connectionController.ts) is the centre: consumer calls, native
    events, timers and answers of the platform reach it in any order. Theory \<open>Connection_State\<close> has its
    fields and the suspended continuations of its asynchronous methods, \<open>Connection_Terminals\<close>,
    \<open>Connection_Steps\<close> and \<open>Connection_Lifecycle\<close> its operations; one \<open>conn_step\<close> is one reaction of the
    JavaScript event loop. The trust decision is \<open>Host_Keys\<close> (knownHostsCore.ts, hostKeyTrustCore.ts)
    and \<open>Gateway\<close> (gatewayTransport.ts), the identity of requests \<open>Ssh_Capability\<close> (sshExec.ts).
    \<open>Connection_Reaction\<close> holds the contract a predicate has to meet to be carried through every
    reaction, \<open>Connection_Safety\<close> the invariants that are its interpretations, \<open>Connection_Props\<close> the
    properties and the refinement of an abstract link. \<open>Transport_Guard\<close> (sync.ts) is the transport
    decision of every dial boundary, \<open>Gateway_Devices\<close> (gatewayDevices.ts) the gateway's device list and
    the host-key pin a user pastes.
  \<^item> \<open>Link transport.\<close> linkCapability.ts is a second implementation of the SSH capability over a relay:
    \<open>Link_Sha256\<close>, \<open>Link_Codec\<close>, \<open>Link_Entry\<close> (one connection) and \<open>Link_Capability\<close> (the whole client, its
    socket events and timers); \<open>Link_Laws\<close>, \<open>Link_Answers\<close> and \<open>Link_Quiet\<close> state and prove its laws.
  \<^item> \<open>Reconnecting.\<close> \<open>Reconnect_Backoff\<close> (shared/reconnectBackoff.ts) is the schedule, \<open>Reconnect_Loop\<close>
    (app/reconnectLoop.ts) the user interface's loop over it.
  \<^item> \<open>Input.\<close> \<open>Composer_Text\<close> and \<open>Composer_Delivery\<close> (composerSend.ts) frame, encode and queue what is
    sent to a terminal; \<open>Dictation\<close> (dictationController.ts) turns a recognizer into text.
  \<^item> \<open>Host command line.\<close> \<open>Shell_Quote\<close> (shellQuote.ts) and \<open>Host_Commands\<close> (aplexerCommands.ts,
    userBinPath.ts, hostCliSessions.ts) build the lines; \<open>Host_Cli_Common\<close>, \<open>Host_Cli_Sessions\<close> and
    \<open>Host_Cli_Catalog\<close> (hostCliCommon.ts, hostCliSessions.ts, hostCliWorkspaces.ts, hostCliCatalog.ts)
    run them and read the answers strictly. \<open>Session_Records\<close> (aplexerParsers.ts, sessionRowSummary.ts,
    sessionClientExit.ts) turns what a host reports into the panel's sessions, \<open>Host_Answers\<close>
    (hostPlatform.ts, hostProbeParsers.ts, hostBootstrap.ts, reposScope.ts) reads its platform, tools and
    repositories, \<open>Ssh_Config\<close> (sshConfigCore.ts) the user's SSH configuration. \<open>Remote_Paths\<close> (remotePathPolicy.ts) and \<open>Session_Names\<close>
    (sessionNameParts.ts) are the rules of what is named, \<open>Attachment_Files\<close> (filenamePolicy.ts,
    attachmentPolicy.ts) those of the files a client uploads.
  \<^item> \<open>Ports.\<close> \<open>Port_Scan\<close> (portScanner.ts, remotePortScan.ts) reads what a host listens on, \<open>Port_Policy\<close>
    (portForwardPolicy.ts) decides, \<open>Port_Controller\<close> (portForwardController.ts) opens and closes.
  \<^item> \<open>Account.\<close> \<open>Saved_Hosts\<close> (savedHosts.ts) is the host list, \<open>Sync_Merge\<close> and \<open>Sync_Round\<close>
    (syncMerge.ts, syncRound.ts) its synchronisation. The key vault (keyVault/) is \<open>Base64\<close> (bytes.ts),
    \<open>Vault_Format\<close>, \<open>Vault_Crypto\<close>, \<open>Vault_Store\<close> and \<open>Vault_Writes\<close>, whose operations are programs of
    \<open>Async_Programs\<close>; \<open>Vault_System\<close> runs many devices on one settings server, \<open>Vault_Contract\<close>, \<open>Vault_Ops\<close>
    and \<open>Vault_Props\<close> prove what they are promised together.
  \<^item> \<open>Panel and tabs.\<close> \<open>Session_Paths\<close>, \<open>Session_Tree\<close> and \<open>Session_Panel\<close> (sessionGrouping.ts,
    sessionRoots.ts, sessionTree.ts, sessionIdentity.ts) file sessions under roots and directories;
    \<open>Workspace_Tree\<close>, \<open>Workspace_Roots\<close> and \<open>Workspace_Sync\<close> (hostWorkspaceTree.ts,
    hostWorkspaceRoots.ts) keep the registered roots in step with the host; \<open>Folder_Order\<close>
    (app/folderOrder.ts, app/useWorkspaceTabs.ts), \<open>Workspace_Tabs\<close> (shared/workspaceTabs.ts) and \<open>User_Lists\<close>
    (app/rootOrder.ts, snippets.ts, app/pendingAgentLaunch.ts) are the manual orders and the parked launch.
  \<^item> \<open>Shared.\<close> \<open>PS_Prelude\<close> (collections, the contract of a machine with an invariant), \<open>Js_Values\<close>,
    \<open>Js_Strings\<close>, \<open>Js_Lists\<close> and \<open>Js_Tokens\<close> (what the code uses of JavaScript's library).

  \<^bold>\<open>How the code is represented.\<close> A class is a \<open>record\<close> of its fields, a discriminated union a \<open>datatype\<close>,
  a method a function on the record; a throw is \<open>Inl\<close> or \<open>None\<close>. JavaScript numbers that come from
  outside are the type \<open>jsnum\<close> of \<open>Js_Values\<close>, integers once the code has validated them; bytes and code
  units are words of their width. An asynchronous method is cut at its awaits: a step runs what the code
  runs between two of them, and what is suspended is kept in the state as data, so that every
  interleaving of events and answers is a list of steps. An await that only yields to the microtask
  queue is no cut, an await of the network, the host, the crypto platform or a timer is one. Objects used
  as dictionaries are association lists in insertion order.

  \<^bold>\<open>What is proved.\<close> The event-driven parts are interpretations of the locale \<open>machine\<close> on their own step
  functions (the devices of an account of \<open>async_client\<close> on the store's programs), so their properties hold in
  every state of every run.

  \<^item> Connections: a held connection was dialled with a trusted key or a proven gateway receipt; there is
    one recovery ladder; open terminals stay within the channel bound; a closed controller adopts
    nothing; event by event, the controller refines an abstract link that becomes held only on the
    platform's answer to a dial in flight, with the receipt or key that answer proved. The contract is the locale \<open>reaction\<close> with its
    extensions \<open>consumer_reaction\<close> and \<open>ladder_reaction\<close>.
  \<^item> Link: every call is answered once, and a lost connection leaves nothing waiting as long as the daemon
    keeps its convention for err channels (locales \<open>frame_law\<close>,
    \<open>state_law\<close>, \<open>channel_law\<close>, \<open>entry_law\<close>); the SHA-256 is that of FIPS 180-4.
  \<^item> Composer and dictation: writes of a terminal are those of its operations one after another, each
    operation is settled once and progresses; dictated text is kept and a listening dictation is never deaf.
  \<^item> Host command line: every line is read by a POSIX shell as the argument vector that was meant (locale
    \<open>word_quoting\<close>); listings are whole or refused (locale \<open>listing_parser\<close>); a pane is attached again only
    to the very session it showed; hosts follow the blocks of the configuration (first wins for a
    keyword a host is given once; a repeated one is the finding \<open>last_value_wins\<close>); file names are safe.
  \<^item> Ports and reconnecting: tunnels are bounded and current, are closed only on evidence, operations
    finish; a scan reports exactly the listening rows of \<open>ss\<close> and \<open>netstat\<close> tables; a cancelled recovery stays cancelled.
  \<^item> Account: the saved hosts stay valid and deleted ones deleted (locale \<open>host_rules\<close>); a sync round
    keeps the account's hosts, fails closed and survives conflicts; the header of the vault has a serial
    history across devices, on a server that gives no header version twice, and a lock wins (locale \<open>async_client\<close>); formats make round trips.
  \<^item> Panel and tabs: every session is drawn once and a key leads back to its path; drops land where they
    were pointed and stay, for bars and panels whose ids and keys are distinct; the roots shown settle on
    what the host has registered, unless the roots were changed elsewhere or an answer to a change was lost.

  Locale \<open>trust_policy\<close> states what the dial decision relies on of host keys. Where the code does something
  else than its comments say, a lemma beside the component shows it on a concrete run.

  \<^bold>\<open>Bounds and fuel.\<close> Loops that the code bounds by a constant recurse on what is left of it: the walk out
  of the remote pager (\<open>exit_pager\<close>), the attempts of a sync round (\<open>sync_loop\<close>, one more than
  \<open>SYNC_ROUND_CONFLICT_RETRIES\<close>; its branch without fuel is not reached, since the code's own limit answers
  in the last attempt), and the vault's writes (\<open>write_attempts\<close>, \<open>blob_attempts\<close>, \<open>change_attempts\<close>,
  \<open>reset_attempts\<close>, each started with one more than \<open>CONFLICT_RETRIES\<close>).
  \<open>evict\<close> gets as many rounds as there are open terminals and closes one in each. The recovery ladder and
  the probes after an end of file are suspended continuations that carry their attempt number, compared
  with the list of delays as in the code. The SHA-256 recurses over the blocks of the padded message,
  for data shorter than \<open>2 ^ 31 - 8\<close> bytes, where the code's 32-bit shifts do not overflow.
  \<open>group_last\<close> and \<open>grow_depth\<close> end by the measure stated with them; all other recursion is over the data.

  \<^bold>\<open>Parameters.\<close> \<open>JSON.parse\<close>, \<open>Date.parse\<close>, \<open>new URL\<close>, \<open>localeCompare\<close>, WebCrypto, Argon2id, the preparation
  of private keys, ids, random bytes, clocks and every answer of the platform are arguments or events. JSON
  texts are represented by what they parse to where a parser is concerned.

  \<^bold>\<open>Not modelled.\<close>

  \<^item> Strings of most parts are lists of 8-bit characters, so Unicode case rules and normalisation are out
    of reach; the composer's texts are lists of 16-bit code units. An integer-like object key that a
    JavaScript engine would enumerate first is kept in the order of the text.
  \<^item> User-facing sentences are constructors or abbreviated; output listeners and subscriptions are one call or
    left out; speech adapters do not call back before they return; the bytes of a terminal are not decoded.
  \<^item> The records of trusted hosts (trustedHosts.ts), of which the vault store's model has only the refresh of
    the header they begin with; the projections of saved hosts, the dial URL of the gateway. The settings
    server is what the interface of the transport says of it; which version a created slot starts
    from is left open. Writes of browser storage succeed except where the code handles their failure.
  \<^item> The calls of the direct session manager (aplexerClientCore.ts) between its command lines and parsers,
    which are modelled; the shell scripts of projectCommands.ts and attachCommand.ts; tables and display
    texts (agents, usage, shortcuts, file kinds); geometry; private-key formats with their ciphers.
  \<^item> The Vue stores, composables, views and components and the terminal view: reactive code whose order of
    evaluation is that of the Vue runtime and whose data is the DOM; the generated embed/ bundle.
\<close>

end
